(* ===== verification/Prelude.thy ===== *)
theory Prelude
  imports Main "HOL-Library.Sublist" "HOL-Library.Word"
begin

text \<open>
  Shared notions of the development: the alphabet that stands for JavaScript's UTF-16
  code units, the string and array operations of the language that the source uses,
  results of code that can throw, and generic facts about lists that several components
  need.

  A JavaScript string is a \<^typ>\<open>string\<close>, one letter per UTF-16 code unit, so
  \<open>length\<close>, offsets and slices agree with the source on every text over the alphabet.
  The alphabet has 256 letters: code units up to 0xFF stand for themselves, except that
  six slots of the C1 control block stand for the code units above 0xFF that the source
  names as literals: the em dash, the ellipsis, the fullwidth semicolon, the byte order
  mark, the replacement character and the arrow of a hint.
\<close>

named_theorems str_simps \<open>evaluation of string operations\<close>
named_theorems store_simps \<open>unfolding of the store operations\<close>

subsection \<open>Results of code that can throw\<close>

type_synonym 'a result = "string + 'a"

abbreviation Throw :: "string \<Rightarrow> 'a result" where "Throw \<equiv> Inl"
abbreviation Ok :: "'a \<Rightarrow> 'a result" where "Ok \<equiv> Inr"

fun bind_result :: "'e + 'a \<Rightarrow> ('a \<Rightarrow> 'e + 'b) \<Rightarrow> 'e + 'b" where
  "bind_result (Inl e) f = Inl e"
| "bind_result (Inr x) f = f x"

lemma bind_result_Inr_iff: "bind_result r f = Inr y \<longleftrightarrow> (\<exists>x. r = Inr x \<and> f x = Inr y)"
  by (cases r) auto

definition from_opt :: "'a \<Rightarrow> 'a option \<Rightarrow> 'a" where
  "from_opt d x = (case x of None \<Rightarrow> d | Some y \<Rightarrow> y)"

lemma from_opt_simps [simp]: "from_opt d None = d" "from_opt d (Some x) = x"
  by (simp_all add: from_opt_def)

subsection \<open>The alphabet\<close>

definition NL :: char where "NL = CHR 0x0A"
definition CR :: char where "CR = CHR 0x0D"
definition TAB :: char where "TAB = CHR 0x09"
definition DQUOTE :: char where "DQUOTE = CHR 0x22"
definition BACKSLASH :: char where "BACKSLASH = CHR 0x5C"
definition EM_DASH :: char where "EM_DASH = CHR 0x97"
definition ELLIPSIS :: char where "ELLIPSIS = CHR 0x85"
definition FULL_SEMI :: char where "FULL_SEMI = CHR 0x8F"
definition BOM :: char where "BOM = CHR 0x81"
definition REPLACEMENT :: char where "REPLACEMENT = CHR 0x8D"
definition ARROW :: char where "ARROW = CHR 0x9D"

lemmas char_defs = NL_def CR_def TAB_def DQUOTE_def BACKSLASH_def EM_DASH_def ELLIPSIS_def
  FULL_SEMI_def BOM_def REPLACEMENT_def ARROW_def

definition code_of :: "char \<Rightarrow> nat" where "code_of c = of_char c"

definition in_range :: "char \<Rightarrow> char \<Rightarrow> char \<Rightarrow> bool" where
  "in_range lo hi c \<longleftrightarrow> code_of lo \<le> code_of c \<and> code_of c \<le> code_of hi"

definition is_digit :: "char \<Rightarrow> bool" where
  "is_digit c \<longleftrightarrow> in_range CHR ''0'' CHR ''9'' c"

definition is_hex :: "char \<Rightarrow> bool" where
  "is_hex c \<longleftrightarrow> is_digit c \<or> in_range CHR ''a'' CHR ''f'' c \<or> in_range CHR ''A'' CHR ''F'' c"

definition is_word_char :: "char \<Rightarrow> bool" where
  "is_word_char c \<longleftrightarrow> is_digit c \<or> in_range CHR ''a'' CHR ''z'' c \<or> in_range CHR ''A'' CHR ''Z'' c
     \<or> c = CHR ''_''"

text \<open>The whitespace of \<open>\\s\<close> and \<open>trim()\<close>: it includes U+00A0 and U+FEFF.\<close>

definition is_ws :: "char \<Rightarrow> bool" where
  "is_ws c \<longleftrightarrow> c \<in> {CHR 0x09, CHR 0x0A, CHR 0x0B, CHR 0x0C, CHR 0x0D, CHR 0x20, CHR 0xA0, BOM}"

definition hex_value :: "char \<Rightarrow> nat" where
  "hex_value c = (if is_digit c then code_of c - 48
     else if in_range CHR ''a'' CHR ''f'' c then code_of c - 87 else code_of c - 55)"

definition digit_value :: "char \<Rightarrow> nat" where
  "digit_value c = code_of c - 48"

definition nat_of_digits :: "string \<Rightarrow> nat" where
  "nat_of_digits s = foldl (\<lambda>r c. r * 10 + digit_value c) 0 s"

definition nat_of_hex :: "string \<Rightarrow> nat" where
  "nat_of_hex s = foldl (\<lambda>r c. r * 16 + hex_value c) 0 s"

definition to_lower :: "char \<Rightarrow> char" where
  "to_lower c = (if in_range CHR ''A'' CHR ''Z'' c then char_of (code_of c + 32) else c)"

fun digits_of :: "nat \<Rightarrow> nat \<Rightarrow> string" where
  "digits_of 0 n = []"
| "digits_of (Suc fuel) n = (if n < 10 then [char_of (48 + n)]
     else digits_of fuel (n div 10) @ [char_of (48 + n mod 10)])"

text \<open>Decimal rendering of a number; \<open>n + 1\<close> steps of fuel are enough, since a step
  divides by ten.\<close>

definition show_nat :: "nat \<Rightarrow> string" where
  "show_nat n = digits_of (Suc n) n"

definition show_int :: "int \<Rightarrow> string" where
  "show_int z = (if z < 0 then CHR ''-'' # show_nat (nat (- z)) else show_nat (nat z))"

fun hex_digits_of :: "nat \<Rightarrow> nat \<Rightarrow> string" where
  "hex_digits_of 0 n = []"
| "hex_digits_of (Suc fuel) n = (let d = (\<lambda>k. if k < 10 then char_of (48 + k) else char_of (87 + k))
     in if n < 16 then [d n] else hex_digits_of fuel (n div 16) @ [d (n mod 16)])"

definition show_hex :: "nat \<Rightarrow> string" where
  "show_hex n = hex_digits_of (Suc n) n"

subsection \<open>String operations of the language\<close>

fun split_on :: "char \<Rightarrow> string \<Rightarrow> string list" where
  "split_on c [] = [[]]"
| "split_on c (x # xs) = (if x = c then [] # split_on c xs
     else (case split_on c xs of [] \<Rightarrow> [[x]] | w # ws \<Rightarrow> (x # w) # ws))"

fun join_with :: "string \<Rightarrow> string list \<Rightarrow> string" where
  "join_with sep [] = []"
| "join_with sep [w] = w"
| "join_with sep (w # v # ws) = w @ sep @ join_with sep (v # ws)"

definition starts_with :: "string \<Rightarrow> string \<Rightarrow> bool" where
  "starts_with p s \<longleftrightarrow> take (length p) s = p"

definition ends_with :: "string \<Rightarrow> string \<Rightarrow> bool" where
  "ends_with p s \<longleftrightarrow> drop (length s - length p) s = p"

fun has_sub :: "string \<Rightarrow> string \<Rightarrow> bool" where
  "has_sub p [] = (p = [])"
| "has_sub p (x # xs) = (starts_with p (x # xs) \<or> has_sub p xs)"

definition slice :: "nat \<Rightarrow> nat \<Rightarrow> 'a list \<Rightarrow> 'a list" where
  "slice i j s = take (j - i) (drop i s)"

definition slice_from :: "nat \<Rightarrow> 'a list \<Rightarrow> 'a list" where
  "slice_from i s = drop i s"

definition trim_start :: "string \<Rightarrow> string" where
  "trim_start s = dropWhile is_ws s"

definition trim_end :: "string \<Rightarrow> string" where
  "trim_end s = rev (dropWhile is_ws (rev s))"

definition trim :: "string \<Rightarrow> string" where
  "trim s = trim_end (trim_start s)"

text \<open>\<open>indexOf\<close> and \<open>lastIndexOf\<close> of a single code unit; -1 is \<^const>\<open>None\<close>.\<close>

fun index_aux :: "char \<Rightarrow> nat \<Rightarrow> string \<Rightarrow> nat option" where
  "index_aux c k [] = None"
| "index_aux c k (x # xs) = (if x = c then Some k else index_aux c (Suc k) xs)"

definition index_from :: "char \<Rightarrow> nat \<Rightarrow> string \<Rightarrow> nat option" where
  "index_from c i s = index_aux c i (drop i s)"

fun last_index_aux :: "char \<Rightarrow> nat \<Rightarrow> string \<Rightarrow> nat option \<Rightarrow> nat option" where
  "last_index_aux c k [] r = r"
| "last_index_aux c k (x # xs) r = last_index_aux c (Suc k) xs (if x = c then Some k else r)"

definition last_index_upto :: "char \<Rightarrow> nat \<Rightarrow> string \<Rightarrow> nat option" where
  "last_index_upto c i s = last_index_aux c 0 (take (Suc i) s) None"

text \<open>\<open>indexOf\<close> of a substring.\<close>

fun sub_index_aux :: "string \<Rightarrow> nat \<Rightarrow> string \<Rightarrow> nat option" where
  "sub_index_aux p k [] = (if p = [] then Some k else None)"
| "sub_index_aux p k (x # xs) = (if starts_with p (x # xs) then Some k else sub_index_aux p (Suc k) xs)"

definition sub_index :: "string \<Rightarrow> string \<Rightarrow> nat option" where
  "sub_index p s = sub_index_aux p 0 s"

fun last_sub_index_aux :: "string \<Rightarrow> nat \<Rightarrow> string \<Rightarrow> nat option \<Rightarrow> nat option" where
  "last_sub_index_aux p k [] r = (if p = [] then Some k else r)"
| "last_sub_index_aux p k (x # xs) r =
     last_sub_index_aux p (Suc k) xs (if starts_with p (x # xs) then Some k else r)"

definition last_sub_index :: "string \<Rightarrow> string \<Rightarrow> nat option" where
  "last_sub_index p s = last_sub_index_aux p 0 s None"

text \<open>\<open>replace(/\\n$/, '')\<close> and \<open>replace(/\\r?\\n$/, '')\<close>.\<close>

definition drop_final_nl :: "string \<Rightarrow> string" where
  "drop_final_nl s = (if s \<noteq> [] \<and> last s = NL then butlast s else s)"

definition drop_final_crlf :: "string \<Rightarrow> string" where
  "drop_final_crlf s = (if s \<noteq> [] \<and> last s = NL
     then (let t = butlast s in if t \<noteq> [] \<and> last t = CR then butlast t else t) else s)"

subsection \<open>Array operations of the language\<close>

definition splice_out :: "nat \<Rightarrow> 'a list \<Rightarrow> 'a list" where
  "splice_out i xs = take i xs @ drop (Suc i) xs"

definition splice_in :: "nat \<Rightarrow> 'a \<Rightarrow> 'a list \<Rightarrow> 'a list" where
  "splice_in i x xs = take i xs @ x # drop i xs"

fun map_index :: "(nat \<Rightarrow> 'a \<Rightarrow> 'b) \<Rightarrow> nat \<Rightarrow> 'a list \<Rightarrow> 'b list" where
  "map_index f k [] = []"
| "map_index f k (x # xs) = f k x # map_index f (Suc k) xs"

definition nth_opt :: "'a list \<Rightarrow> nat \<Rightarrow> 'a option" where
  "nth_opt xs i = (if i < length xs then Some (xs ! i) else None)"

subsection \<open>Facts about the array operations\<close>

lemma map_index_length [simp]: "length (map_index f k xs) = length xs"
  by (induction xs arbitrary: k) auto

lemma map_index_nth: "i < length xs \<Longrightarrow> map_index f k xs ! i = f (k + i) (xs ! i)"
  by (induction xs arbitrary: i k) (auto simp: nth_Cons split: nat.splits)

lemma map_index_map: "map f (map_index g i xs) = map_index (\<lambda>j x. f (g j x)) i xs"
  by (induction g i xs rule: map_index.induct) simp_all

lemma map_index_again: "map_index f i (map_index g i xs) = map_index (\<lambda>j x. f j (g j x)) i xs"
  by (induction g i xs rule: map_index.induct) simp_all

lemma map_index_const: "map_index (\<lambda>j x. int j + 1) i xs = map (\<lambda>j. int j + 1) [i..<i + length xs]"
  by (induction "\<lambda>(j :: nat) (x :: 'a). int j + 1" i xs rule: map_index.induct) (simp_all add: upt_rec)

lemma map_index_keep: "(\<And>j x. f (g j x) = f x) \<Longrightarrow> map f (map_index g i xs) = map f xs"
  by (induction g i xs rule: map_index.induct) simp_all

lemma list_all_update: "list_all P xs \<Longrightarrow> P y \<Longrightarrow> list_all P (xs[i := y])"
  by (auto simp: list_all_iff dest!: set_update_subset_insert [THEN subsetD])

subsection \<open>Facts about the string operations\<close>

lemma split_on_ne [simp]: "split_on c s \<noteq> []"
  by (induction s) (auto split: list.splits)

lemma split_on_free: "c \<notin> set w \<Longrightarrow> split_on c w = [w]"
  by (induction w) auto

lemma split_on_append: "c \<notin> set w \<Longrightarrow> split_on c (w @ c # s) = w # split_on c s"
  by (induction w) auto

lemma split_on_join:
  "ws \<noteq> [] \<Longrightarrow> \<forall>w \<in> set ws. c \<notin> set w \<Longrightarrow> split_on c (join_with [c] ws) = ws"
  by (induction "[c]" ws rule: join_with.induct) (auto simp: split_on_free split_on_append)

lemma join_split_on: "join_with [c] (split_on c s) = s"
proof (induction s)
  case (Cons x s)
  obtain w ws where w: "split_on c s = w # ws" using split_on_ne [of c s] by (cases "split_on c s") auto
  with Cons show ?case by (cases ws) auto
qed simp

lemma split_on_parts_free: "w \<in> set (split_on c s) \<Longrightarrow> c \<notin> set w"
  by (induction s arbitrary: w) (auto split: list.splits if_splits)

lemma set_join_with: "set (join_with sep ws) \<subseteq> set sep \<union> \<Union> (set ` set ws)"
  by (induction sep ws rule: join_with.induct) auto

lemma trim_set: "set (trim s) \<subseteq> set s"
  by (auto simp: trim_def trim_start_def trim_end_def dest!: set_dropWhileD)

lemma dropWhile_rev_hd: "dropWhile P (rev (dropWhile P xs)) = [] \<or> \<not> P (hd (rev (dropWhile P (rev (dropWhile P xs)))))"
proof (cases "dropWhile P xs")
  case (Cons y ys)
  then have "\<not> P y" by (metis dropWhile_eq_Cons_conv)
  then show ?thesis unfolding Cons by (simp add: dropWhile_append)
next
  case Nil
  show ?thesis unfolding Nil by simp
qed

lemma trim_trim [simp]: "trim (trim s) = trim s"
proof -
  have "dropWhile is_ws (trim s) = trim s"
    using dropWhile_rev_hd [of is_ws s] unfolding trim_def trim_start_def trim_end_def
    by (metis dropWhile.simps(1) dropWhile.simps(2) list.collapse rev.simps(1))
  then show ?thesis by (simp add: trim_def [of "trim s"] trim_start_def, simp add: trim_def trim_end_def)
qed

lemma code_of_char [simp]: "n < 256 \<Longrightarrow> code_of (char_of n) = n"
  by (simp add: code_of_def)

lemma code_of_lit: "code_of CHR ''0'' = 48" "code_of CHR ''9'' = 57" "code_of CHR ''a'' = 97"
  "code_of CHR ''f'' = 102" "code_of CHR ''z'' = 122" "code_of CHR ''A'' = 65" "code_of CHR ''F'' = 70"
  "code_of CHR ''Z'' = 90" "code_of CHR '':'' = 58" "code_of CHR ''.'' = 46" "code_of CHR ''%'' = 37"
  "code_of CHR ''|'' = 124" "code_of CHR ''/'' = 47"
  by (simp_all add: code_of_def)

lemma is_digit_code: "is_digit c \<longleftrightarrow> 48 \<le> code_of c \<and> code_of c \<le> 57"
  by (simp add: is_digit_def in_range_def code_of_lit)

lemma is_hex_code: "is_hex c \<longleftrightarrow> is_digit c \<or> 97 \<le> code_of c \<and> code_of c \<le> 102
    \<or> 65 \<le> code_of c \<and> code_of c \<le> 70"
  by (simp add: is_hex_def in_range_def code_of_lit)

lemma digits_of_ok:
  "n < fuel \<Longrightarrow> nat_of_digits (digits_of fuel n) = n \<and> list_all is_digit (digits_of fuel n)
     \<and> digits_of fuel n \<noteq> []"
proof (induction fuel arbitrary: n)
  case (Suc fuel)
  show ?case
  proof (cases "n < 10")
    case True
    then show ?thesis by (simp add: nat_of_digits_def digit_value_def is_digit_code)
  next
    case False
    with Suc.prems have "n div 10 < fuel" by auto
    from Suc.IH [OF this] False show ?thesis
      by (simp add: nat_of_digits_def digit_value_def is_digit_code)
  qed
qed simp

lemma digits_of_length: "n < 10 ^ d \<Longrightarrow> 0 < d \<Longrightarrow> length (digits_of fuel n) \<le> d"
proof (induction fuel arbitrary: n d)
  case (Suc fuel)
  show ?case
  proof (cases "n < 10")
    case False
    then have d: "1 < d" using Suc.prems by (cases d; cases "d - 1") auto
    then have "n div 10 < 10 ^ (d - 1)"
      using Suc.prems(1) by (simp add: less_mult_imp_div_less power_eq_if mult.commute)
    from Suc.IH [OF this] d False show ?thesis by simp
  qed (use Suc.prems in simp)
qed simp

lemma show_nat_ok: "nat_of_digits (show_nat n) = n" "list_all is_digit (show_nat n)" "show_nat n \<noteq> []"
  using digits_of_ok [of n "Suc n"] by (simp_all add: show_nat_def)

lemma show_nat_length: "n < 10 ^ d \<Longrightarrow> 0 < d \<Longrightarrow> length (show_nat n) \<le> d"
  unfolding show_nat_def by (rule digits_of_length)

lemma hex_digits_of_ok:
  "n < fuel \<Longrightarrow> nat_of_hex (hex_digits_of fuel n) = n \<and> list_all is_hex (hex_digits_of fuel n)
     \<and> hex_digits_of fuel n \<noteq> []"
proof (induction fuel arbitrary: n)
  case (Suc fuel)
  have digit: "hex_value (if k < 10 then char_of (48 + k) else char_of (87 + k)) = k
      \<and> is_hex (if k < 10 then char_of (48 + k) else char_of (87 + k))" if "k < 16" for k :: nat
    using that by (simp add: hex_value_def is_hex_code is_digit_code in_range_def code_of_lit)
  show ?case
  proof (cases "n < 16")
    case True
    with digit [of n] show ?thesis by (auto simp: nat_of_hex_def Let_def)
  next
    case False
    with Suc.prems have "n div 16 < fuel" by auto
    from Suc.IH [OF this] False digit [of "n mod 16"] show ?thesis
      by (auto simp: nat_of_hex_def Let_def)
  qed
qed simp

lemma hex_digits_of_length: "n < 16 ^ d \<Longrightarrow> 0 < d \<Longrightarrow> length (hex_digits_of fuel n) \<le> d"
proof (induction fuel arbitrary: n d)
  case (Suc fuel)
  show ?case
  proof (cases "n < 16")
    case False
    then have d: "1 < d" using Suc.prems by (cases d; cases "d - 1") auto
    then have "n div 16 < 16 ^ (d - 1)"
      using Suc.prems(1) by (simp add: less_mult_imp_div_less power_eq_if mult.commute)
    from Suc.IH [OF this] d False show ?thesis by (simp add: Let_def)
  qed (use Suc.prems in \<open>simp add: Let_def\<close>)
qed simp

lemma show_hex_ok: "nat_of_hex (show_hex n) = n" "list_all is_hex (show_hex n)" "show_hex n \<noteq> []"
  using hex_digits_of_ok [of n "Suc n"] by (simp_all add: show_hex_def)

lemma show_hex_length: "n < 16 ^ d \<Longrightarrow> 0 < d \<Longrightarrow> length (show_hex n) \<le> d"
  unfolding show_hex_def by (rule hex_digits_of_length)


subsection \<open>Escaping in an address\<close>

definition uri_unreserved :: "char \<Rightarrow> bool" where
  "uri_unreserved c \<longleftrightarrow> is_word_char c \<or> c \<in> set ''-.!~*()'' \<or> c = CHR 0x27"

definition hex_upper :: "nat \<Rightarrow> char" where
  "hex_upper n = (if n < 10 then char_of (48 + n) else char_of (55 + n))"

definition percent_byte :: "nat \<Rightarrow> string" where
  "percent_byte n = [CHR ''%'', hex_upper (n div 16), hex_upper (n mod 16)]"

text \<open>\<open>encodeURIComponent\<close> of the language on code units below 256, with their UTF-8 bytes.\<close>

definition encodeURIComponent :: "string \<Rightarrow> string" where
  "encodeURIComponent s = concat (map (\<lambda>c. if uri_unreserved c then [c]
     else if code_of c < 128 then percent_byte (code_of c)
     else percent_byte (192 + code_of c div 64) @ percent_byte (128 + code_of c mod 64)) s)"

end
