(* ===== verification/LineDiff.thy ===== *)
theory LineDiff
  imports Prelude
begin

text \<open>
  The document diff of the viewer: the line-level LCS diff (\<open>lib/linediff.ts\<close>), the
  word-level segments (\<open>lib/worddiff.ts\<close>, on top of the \<open>diff\<close> package's
  \<open>diffWordsWithSpace\<close>, a parameter here) and the row model that pairs runs and folds
  unchanged context (\<open>lib/docdiffmodel.ts\<close>).
\<close>

subsection \<open>Line diff\<close>

(* src lib/linediff.ts 5-5 DiffLineType *)
datatype DiffLineType = Same | Add | Del

(* src lib/linediff.ts 7-14 DiffLine *)
record DiffLine =
  ltype :: DiffLineType
  ltext :: string
  lbefore :: "nat option"
  lafter :: "nat option"

text \<open>The LCS table is filled from its last row to its first, each row from right to left.\<close>

(* src lib/linediff.ts 24-28 lineDiff *)
fun lcs_row :: "string \<Rightarrow> string list \<Rightarrow> nat list \<Rightarrow> nat list" where
  "lcs_row x [] below = [0]"
| "lcs_row x (y # ys) below =
     (let right = lcs_row x ys (tl below)
      in (if x = y then hd (tl below) + 1 else max (hd below) (hd right)) # right)"

(* src lib/linediff.ts 22-28 lineDiff *)
fun lcs_table :: "string list \<Rightarrow> string list \<Rightarrow> nat list list" where
  "lcs_table [] b = [replicate (length b + 1) 0]"
| "lcs_table (x # xs) b = (let t = lcs_table xs b in lcs_row x b (hd t) # t)"

(* src lib/linediff.ts 35-35 lineDiff *)
definition same_line :: "string list \<Rightarrow> nat \<Rightarrow> nat \<Rightarrow> DiffLine" where
  "same_line a i j = \<lparr>ltype = Same, ltext = a ! i, lbefore = Some (i + 1), lafter = Some (j + 1)\<rparr>"

(* src lib/linediff.ts 39-39 lineDiff *)
definition del_line :: "string list \<Rightarrow> nat \<Rightarrow> DiffLine" where
  "del_line a i = \<lparr>ltype = Del, ltext = a ! i, lbefore = Some (i + 1), lafter = None\<rparr>"

(* src lib/linediff.ts 42-42 lineDiff *)
definition add_line :: "string list \<Rightarrow> nat \<Rightarrow> DiffLine" where
  "add_line b j = \<lparr>ltype = Add, ltext = b ! j, lbefore = None, lafter = Some (j + 1)\<rparr>"

(* src lib/linediff.ts 30-54 lineDiff *)
function diff_loop :: "string list \<Rightarrow> string list \<Rightarrow> nat list list \<Rightarrow> nat \<Rightarrow> nat \<Rightarrow> DiffLine list" where
  "diff_loop a b lcs i j =
     (if i < length a \<and> j < length b then
        (if a ! i = b ! j then same_line a i j # diff_loop a b lcs (i + 1) (j + 1)
         else if lcs ! (i + 1) ! j \<ge> lcs ! i ! (j + 1) then del_line a i # diff_loop a b lcs (i + 1) j
         else add_line b j # diff_loop a b lcs i (j + 1))
      else map (del_line a) [i..<length a] @ map (add_line b) [j..<length b])"
  by pat_completeness auto
termination
  by (relation "measure (\<lambda>(a, b, lcs, i, j). (length a - i) + (length b - j))") auto

declare diff_loop.simps [simp del]

(* src lib/linediff.ts 17-18 lineDiff *)
definition doc_lines :: "string \<Rightarrow> string list" where
  "doc_lines s = split_on NL (drop_final_nl s)"

(* src lib/linediff.ts 16-55 lineDiff *)
definition lineDiff :: "string \<Rightarrow> string \<Rightarrow> DiffLine list" where
  "lineDiff beforeSrc afterSrc =
     (let a = doc_lines beforeSrc; b = doc_lines afterSrc
      in diff_loop a b (lcs_table a b) 0 0)"

(* src lib/linediff.ts 57-65 diffStats *)
fun diffStats :: "DiffLine list \<Rightarrow> nat \<times> nat" where
  "diffStats [] = (0, 0)"
| "diffStats (l # ls) = (let (added, removed) = diffStats ls in
     (case ltype l of Add \<Rightarrow> (added + 1, removed) | Del \<Rightarrow> (added, removed + 1) | Same \<Rightarrow> (added, removed)))"

subsection \<open>Word diff\<close>

text \<open>A part of \<open>diffWordsWithSpace\<close>'s answer.\<close>

(* src lib/worddiff.ts 29-37 p *)
record WordPart =
  pvalue :: string
  added :: bool
  removed :: bool

(* src lib/worddiff.ts 9-13 WordSegment *)
record WordSegment =
  seg_text :: string
  changed :: bool

(* src lib/worddiff.ts 15-18 LineWordDiff *)
record LineWordDiff =
  wd_del :: "WordSegment list"
  wd_add :: "WordSegment list"

type_synonym word_differ = "string \<Rightarrow> string \<Rightarrow> WordPart list"

(* src lib/worddiff.ts 27-39 wordDiff *)
fun word_segments :: "WordPart list \<Rightarrow> LineWordDiff" where
  "word_segments [] = \<lparr>wd_del = [], wd_add = []\<rparr>"
| "word_segments (p # ps) = (let r = word_segments ps in
     if added p then r\<lparr>wd_add := \<lparr>seg_text = pvalue p, changed = True\<rparr> # wd_add r\<rparr>
     else if removed p then r\<lparr>wd_del := \<lparr>seg_text = pvalue p, changed = True\<rparr> # wd_del r\<rparr>
     else r\<lparr>wd_del := \<lparr>seg_text = pvalue p, changed = False\<rparr> # wd_del r,
            wd_add := \<lparr>seg_text = pvalue p, changed = False\<rparr> # wd_add r\<rparr>)"

(* src lib/worddiff.ts 25-40 wordDiff *)
definition wordDiff :: "word_differ \<Rightarrow> string \<Rightarrow> string \<Rightarrow> LineWordDiff" where
  "wordDiff diffWordsWithSpace bef aft = word_segments (diffWordsWithSpace bef aft)"

subsection \<open>Row model\<close>

(* src lib/docdiffmodel.ts 15-15 DiffRowUnit *)
datatype UnitType = USame | UMod | UDel | UAdd

(* src lib/docdiffmodel.ts 14-24 DiffRowUnit *)
record DiffRowUnit =
  utype :: UnitType
  left :: "DiffLine option"
  right :: "DiffLine option"
  leftWords :: "WordSegment list option"
  rightWords :: "WordSegment list option"

(* src lib/docdiffmodel.ts 26-28 DocRow *)
datatype DocRow = RowUnit DiffRowUnit | RowGap "DiffRowUnit list" nat

(* src lib/docdiffmodel.ts 30-33 DocDiffModel *)
record DocDiffModel =
  rows :: "DocRow list"
  stats :: "nat \<times> nat"

(* src lib/docdiffmodel.ts 42-42 toUnits *)
definition unit_same :: "DiffLine \<Rightarrow> DiffRowUnit" where
  "unit_same l = \<lparr>utype = USame, left = Some l, right = Some l, leftWords = None, rightWords = None\<rparr>"

(* src lib/docdiffmodel.ts 54-63 toUnits *)
definition unit_mod :: "word_differ \<Rightarrow> DiffLine \<Rightarrow> DiffLine \<Rightarrow> DiffRowUnit" where
  "unit_mod dws d a = (let wd = wordDiff dws (ltext d) (ltext a) in
     \<lparr>utype = UMod, left = Some d, right = Some a,
      leftWords = Some (wd_del wd), rightWords = Some (wd_add wd)\<rparr>)"

(* src lib/docdiffmodel.ts 64-64 toUnits *)
definition unit_del :: "DiffLine \<Rightarrow> DiffRowUnit" where
  "unit_del l = \<lparr>utype = UDel, left = Some l, right = None, leftWords = None, rightWords = None\<rparr>"

(* src lib/docdiffmodel.ts 65-65 toUnits *)
definition unit_add :: "DiffLine \<Rightarrow> DiffRowUnit" where
  "unit_add l = \<lparr>utype = UAdd, left = None, right = Some l, leftWords = None, rightWords = None\<rparr>"

(* src lib/docdiffmodel.ts 53-65 toUnits *)
definition pair_runs :: "word_differ \<Rightarrow> DiffLine list \<Rightarrow> DiffLine list \<Rightarrow> DiffRowUnit list" where
  "pair_runs dws dels adds =
     (let paired = min (length dels) (length adds)
      in map (\<lambda>k. unit_mod dws (dels ! k) (adds ! k)) [0..<paired]
         @ map (\<lambda>k. unit_del (dels ! k)) [paired..<length dels]
         @ map (\<lambda>k. unit_add (adds ! k)) [paired..<length adds])"

text \<open>The loop's cursor is the remaining suffix of the lines.\<close>

(* src lib/docdiffmodel.ts 36-69 toUnits *)
function toUnits :: "word_differ \<Rightarrow> DiffLine list \<Rightarrow> DiffRowUnit list" where
  "toUnits dws lines =
     (case lines of [] \<Rightarrow> []
      | l # rest \<Rightarrow>
          if ltype l = Same then unit_same l # toUnits dws rest
          else (let dels = takeWhile (\<lambda>x. ltype x = Del) lines;
                    after_dels = dropWhile (\<lambda>x. ltype x = Del) lines;
                    adds = takeWhile (\<lambda>x. ltype x = Add) after_dels;
                    after_adds = dropWhile (\<lambda>x. ltype x = Add) after_dels
                in pair_runs dws dels adds @ toUnits dws after_adds))"
  by pat_completeness auto

lemma run_progress:
  assumes "ltype l \<noteq> Same"
  shows "length (dropWhile (\<lambda>x. ltype x = Add) (dropWhile (\<lambda>x. ltype x = Del) (l # rest)))
    < Suc (length rest)"
proof (cases "ltype l = Del")
  case True
  then show ?thesis
    using length_dropWhile_le [of "\<lambda>x. ltype x = Add" "dropWhile (\<lambda>x. ltype x = Del) rest"]
      length_dropWhile_le [of "\<lambda>x. ltype x = Del" rest] by simp
next
  case False
  with assms have "ltype l = Add" by (cases "ltype l") auto
  with False show ?thesis
    using length_dropWhile_le [of "\<lambda>x. ltype x = Add" rest] by simp
qed

termination toUnits
  by (relation "measure (\<lambda>(dws, lines). length lines)")
     (auto simp: run_progress simp del: dropWhile.simps takeWhile.simps)

declare toUnits.simps [simp del]

(* src lib/docdiffmodel.ts 72-101 fold *)
function fold_units :: "nat \<Rightarrow> nat \<Rightarrow> nat \<Rightarrow> DiffRowUnit list \<Rightarrow> DocRow list" where
  "fold_units context_n minFold i units =
     (case units of [] \<Rightarrow> []
      | u # rest \<Rightarrow>
          if utype u \<noteq> USame then RowUnit u # fold_units context_n minFold (i + 1) rest
          else (let run = takeWhile (\<lambda>x. utype x = USame) units;
                    remaining = dropWhile (\<lambda>x. utype x = USame) units;
                    lead = (if i = 0 then 0 else context_n);
                    tail = (if remaining = [] then 0 else context_n)
                in (if length run > lead + tail + minFold
                    then (let head = slice 0 lead run;
                              foot = slice_from (length run - tail) run;
                              hidden = slice (length head) (length run - length foot) run
                          in map RowUnit head @ [RowGap hidden (length hidden)] @ map RowUnit foot)
                    else map RowUnit run)
                   @ fold_units context_n minFold (i + length run) remaining))"
  by pat_completeness auto
termination
  by (relation "measure (\<lambda>(c, m, i, units). length units)")
     (auto simp: length_dropWhile_le le_imp_less_Suc)

declare fold_units.simps [simp del]

(* src lib/docdiffmodel.ts 103-111 buildDocDiff *)
definition buildDocDiff :: "word_differ \<Rightarrow> string \<Rightarrow> string \<Rightarrow> nat \<Rightarrow> nat \<Rightarrow> DocDiffModel" where
  "buildDocDiff dws bef aft context_n minFold =
     (let lines = lineDiff bef aft; units = toUnits dws lines
      in \<lparr>rows = fold_units context_n minFold 0 units, stats = diffStats lines\<rparr>)"

(* src lib/docdiffmodel.ts 106-106 buildDocDiff *)
definition default_context :: nat where "default_context = 3"

(* src lib/docdiffmodel.ts 106-106 buildDocDiff *)
definition default_minFold :: nat where "default_minFold = 2"

subsection \<open>The reference: longest common subsequences\<close>

text \<open>
  The specification the table computes, and the diff written on the lines themselves
  instead of on indices into the table.
\<close>

fun lcs_len :: "string list \<Rightarrow> string list \<Rightarrow> nat" where
  "lcs_len [] ys = 0"
| "lcs_len xs [] = 0"
| "lcs_len (x # xs) (y # ys) =
     (if x = y then lcs_len xs ys + 1 else max (lcs_len xs (y # ys)) (lcs_len (x # xs) ys))"

lemma lcs_len_Nil2 [simp]: "lcs_len xs [] = 0"
  by (cases xs) simp_all

fun diff_ref :: "string list \<Rightarrow> string list \<Rightarrow> nat \<Rightarrow> nat \<Rightarrow> DiffLine list" where
  "diff_ref [] [] i j = []"
| "diff_ref (x # xs) [] i j =
     \<lparr>ltype = Del, ltext = x, lbefore = Some (i + 1), lafter = None\<rparr> # diff_ref xs [] (i + 1) j"
| "diff_ref [] (y # ys) i j =
     \<lparr>ltype = Add, ltext = y, lbefore = None, lafter = Some (j + 1)\<rparr> # diff_ref [] ys i (j + 1)"
| "diff_ref (x # xs) (y # ys) i j =
     (if x = y then \<lparr>ltype = Same, ltext = x, lbefore = Some (i + 1), lafter = Some (j + 1)\<rparr>
        # diff_ref xs ys (i + 1) (j + 1)
      else if lcs_len xs (y # ys) \<ge> lcs_len (x # xs) ys
      then \<lparr>ltype = Del, ltext = x, lbefore = Some (i + 1), lafter = None\<rparr> # diff_ref xs (y # ys) (i + 1) j
      else \<lparr>ltype = Add, ltext = y, lbefore = None, lafter = Some (j + 1)\<rparr> # diff_ref (x # xs) ys i (j + 1))"

lemma length_lcs_row [simp]: "length (lcs_row x b below) = length b + 1"
  by (induction b arbitrary: below) (auto simp: Let_def)

lemma lcs_row_nth:
  assumes "length below = length b + 1"
    and "\<And>j. j \<le> length b \<Longrightarrow> below ! j = lcs_len xs (drop j b)" and "j \<le> length b"
  shows "lcs_row x b below ! j = lcs_len (x # xs) (drop j b)"
  using assms
proof (induction b arbitrary: below j)
  case Nil
  then show ?case by simp
next
  case (Cons y ys)
  from Cons.prems(1) obtain h t where below: "below = h # t" and len: "length t = length ys + 1"
    by (cases below) auto
  have tl: "t ! k = lcs_len xs (drop k ys)" if "k \<le> length ys" for k
    using Cons.prems(2) [of "Suc k"] that below by simp
  have right: "lcs_row x ys t ! k = lcs_len (x # xs) (drop k ys)" if "k \<le> length ys" for k
    by (rule Cons.IH [OF len tl that])
  have h: "h = lcs_len xs (y # ys)" using Cons.prems(2) [of 0] below by simp
  have hd_t: "hd t = lcs_len xs ys" using tl [of 0] len by (cases t) auto
  have hd_r: "hd (lcs_row x ys t) = lcs_len (x # xs) ys"
    using right [of 0] length_lcs_row [of x ys t] by (cases "lcs_row x ys t") auto
  show ?case
  proof (cases j)
    case 0
    then show ?thesis by (simp add: below Let_def h hd_t hd_r)
  next
    case (Suc k)
    with Cons.prems(3) show ?thesis by (simp add: below Let_def right)
  qed
qed

lemma lcs_table_shape: "lcs_table a b \<noteq> [] \<and> length (hd (lcs_table a b)) = length b + 1"
  by (induction a) (auto simp: Let_def)

lemma lcs_table_nth:
  "i \<le> length a \<Longrightarrow> j \<le> length b \<Longrightarrow> lcs_table a b ! i ! j = lcs_len (drop i a) (drop j b)"
proof (induction a arbitrary: i j)
  case Nil
  then show ?case by (auto simp: nth_Cons split: nat.splits)
next
  case (Cons x xs)
  have hd: "hd (lcs_table xs b) = lcs_table xs b ! 0"
    using lcs_table_shape [of xs b] by (simp add: hd_conv_nth)
  have row: "lcs_row x b (hd (lcs_table xs b)) ! j = lcs_len (x # xs) (drop j b)"
    by (rule lcs_row_nth) (use lcs_table_shape [of xs b] Cons.IH [of 0] Cons.prems hd in auto)
  show ?case
    using Cons row by (cases i) (auto simp: Let_def)
qed

lemma diff_ref_Nil1: "diff_ref [] (drop j b) i j = map (add_line b) [j..<length b]"
proof (induction "length b - j" arbitrary: j)
  case 0
  then show ?case by simp
next
  case (Suc n)
  then have j: "j < length b" by simp
  then have "drop j b = b ! j # drop (Suc j) b" by (simp add: Cons_nth_drop_Suc)
  with Suc.hyps j show ?case by (simp add: upt_conv_Cons add_line_def)
qed

lemma diff_ref_Nil2: "diff_ref (drop i a) [] i j = map (del_line a) [i..<length a]"
proof (induction "length a - i" arbitrary: i)
  case 0
  then show ?case by simp
next
  case (Suc n)
  then have i: "i < length a" by simp
  then have "drop i a = a ! i # drop (Suc i) a" by (simp add: Cons_nth_drop_Suc)
  with Suc.hyps i show ?case by (simp add: upt_conv_Cons del_line_def)
qed

text \<open>The loop over indices and the table is the structural diff.\<close>

lemma diff_loop_ref:
  "i \<le> length a \<Longrightarrow> j \<le> length b \<Longrightarrow>
     diff_loop a b (lcs_table a b) i j = diff_ref (drop i a) (drop j b) i j"
proof (induction a b "lcs_table a b" i j rule: diff_loop.induct)
  case (1 a b i j)
  show ?case
  proof (cases "i < length a \<and> j < length b")
    case True
    then have a: "drop i a = a ! i # drop (Suc i) a" and b: "drop j b = b ! j # drop (Suc j) b"
      by (simp_all add: Cons_nth_drop_Suc)
    have down: "lcs_table a b ! (i + 1) ! j = lcs_len (drop (Suc i) a) (b ! j # drop (Suc j) b)"
      and across: "lcs_table a b ! i ! (j + 1) = lcs_len (a ! i # drop (Suc i) a) (drop (Suc j) b)"
      using lcs_table_nth [of "i + 1" a j b] lcs_table_nth [of i a "j + 1" b] True a b by simp_all
    show ?thesis
      using True "1.hyps" a b down across
      by (subst diff_loop.simps) (simp add: same_line_def del_line_def add_line_def)
  next
    case False
    with "1.prems" have "i = length a \<or> j = length b" by auto
    with False show ?thesis
      by (subst diff_loop.simps) (auto simp: diff_ref_Nil1 diff_ref_Nil2)
  qed
qed

lemma lineDiff_ref: "lineDiff bef aft = diff_ref (doc_lines bef) (doc_lines aft) 0 0"
  using diff_loop_ref [of 0 "doc_lines bef" 0 "doc_lines aft"] by (simp add: lineDiff_def Let_def)

subsection \<open>What the line diff promises\<close>

definition before_side :: "DiffLine list \<Rightarrow> DiffLine list" where
  "before_side ls = filter (\<lambda>l. ltype l \<noteq> Add) ls"

definition after_side :: "DiffLine list \<Rightarrow> DiffLine list" where
  "after_side ls = filter (\<lambda>l. ltype l \<noteq> Del) ls"

definition same_lines :: "DiffLine list \<Rightarrow> string list" where
  "same_lines ls = map ltext (filter (\<lambda>l. ltype l = Same) ls)"

lemmas side_defs = before_side_def after_side_def same_lines_def

lemma diff_ref_before:
  "map ltext (before_side (diff_ref xs ys i j)) = xs
   \<and> map lbefore (before_side (diff_ref xs ys i j)) = map Some [i + 1..<i + 1 + length xs]"
  by (induction xs ys i j rule: diff_ref.induct) (auto simp: side_defs upt_conv_Cons simp del: upt_Suc)

lemma diff_ref_after:
  "map ltext (after_side (diff_ref xs ys i j)) = ys
   \<and> map lafter (after_side (diff_ref xs ys i j)) = map Some [j + 1..<j + 1 + length ys]"
  by (induction xs ys i j rule: diff_ref.induct) (auto simp: side_defs upt_conv_Cons simp del: upt_Suc)

lemma diff_ref_missing:
  "l \<in> set (diff_ref xs ys i j) \<Longrightarrow>
     (ltype l = Add \<longleftrightarrow> lbefore l = None) \<and> (ltype l = Del \<longleftrightarrow> lafter l = None)"
  by (induction xs ys i j rule: diff_ref.induct) (auto split: if_splits)

lemma diff_ref_same_length: "length (same_lines (diff_ref xs ys i j)) = lcs_len xs ys"
  by (induction xs ys i j rule: diff_ref.induct) (auto simp: side_defs)

lemma diff_ref_same_subseq:
  "subseq (same_lines (diff_ref xs ys i j)) xs \<and> subseq (same_lines (diff_ref xs ys i j)) ys"
  by (induction xs ys i j rule: diff_ref.induct) (auto simp: side_defs)

lemma lcs_len_upper: "subseq zs xs \<Longrightarrow> subseq zs ys \<Longrightarrow> length zs \<le> lcs_len xs ys"
proof (induction xs ys arbitrary: zs rule: lcs_len.induct)
  case (3 x xs y ys)
  show ?case
  proof (cases zs)
    case (Cons z zs')
    note zs = this
    show ?thesis
    proof (cases "x = y")
      case True
      have "subseq (if z = x then zs' else zs) xs" "subseq (if z = x then zs' else zs) ys"
        using "3.prems" zs True by (auto split: if_splits elim: subseq_Cons')
      with "3.IH"(1) [OF True] zs True show ?thesis by (cases "z = x") (fastforce dest: subseq_Cons')+
    next
      case False
      then consider "z \<noteq> x" | "z \<noteq> y" by metis
      then show ?thesis
      proof cases
        case 1
        with "3.prems" zs have "subseq zs xs" by auto
        with "3.IH"(2) [OF False this "3.prems"(2)] False show ?thesis by simp
      next
        case 2
        with "3.prems" zs have "subseq zs ys" by auto
        with "3.IH"(3) [OF False "3.prems"(1) this] False show ?thesis by simp
      qed
    qed
  qed simp
qed auto

text \<open>
  The diff loses nothing: the lines kept on the "before" side are exactly the
  lines of the first document, numbered from 1 without gaps, those kept on the "after"
  side exactly the lines of the second, and a line lacks a number on a side exactly when
  it is not on it.
\<close>

theorem lineDiff_reconstructs:
  "map ltext (before_side (lineDiff bef aft)) = doc_lines bef
   \<and> map lbefore (before_side (lineDiff bef aft)) = map Some [1..<1 + length (doc_lines bef)]
   \<and> map ltext (after_side (lineDiff bef aft)) = doc_lines aft
   \<and> map lafter (after_side (lineDiff bef aft)) = map Some [1..<1 + length (doc_lines aft)]
   \<and> list_all (\<lambda>l. (ltype l = Add) = (lbefore l = None) \<and> (ltype l = Del) = (lafter l = None))
       (lineDiff bef aft)"
  using diff_ref_before [of "doc_lines bef" "doc_lines aft" 0 0]
    diff_ref_after [of "doc_lines bef" "doc_lines aft" 0 0]
    diff_ref_missing [of _ "doc_lines bef" "doc_lines aft" 0 0]
  by (simp add: lineDiff_ref list_all_iff)

text \<open>
  Claim C18. The diff is minimal: the unchanged lines form a common subsequence of the two
  documents, and no common subsequence is longer.
\<close>

theorem lineDiff_longest:
  assumes "subseq zs (doc_lines bef)" and "subseq zs (doc_lines aft)"
  shows "length zs \<le> length (same_lines (lineDiff bef aft))
    \<and> subseq (same_lines (lineDiff bef aft)) (doc_lines bef)
    \<and> subseq (same_lines (lineDiff bef aft)) (doc_lines aft)"
  using lcs_len_upper [OF assms] diff_ref_same_subseq
  by (simp add: lineDiff_ref diff_ref_same_length)

lemma lineDiff_longest_witness:
  "subseq [''b''] (doc_lines ''a\<newline>b'') \<and> subseq [''b''] (doc_lines ''b\<newline>c'')
   \<and> 1 \<le> length (same_lines (lineDiff ''a\<newline>b'' ''b\<newline>c''))"
proof -
  have h: "subseq [''b''] (doc_lines ''a\<newline>b'')" "subseq [''b''] (doc_lines ''b\<newline>c'')"
    by (simp_all add: doc_lines_def drop_final_nl_def NL_def)
  show ?thesis using h lineDiff_longest [OF h] by simp
qed

subsection \<open>What the row model promises\<close>

definition opt_list :: "'a option \<Rightarrow> 'a list" where
  "opt_list x = (case x of None \<Rightarrow> [] | Some y \<Rightarrow> [y])"

lemma opt_list_simps [simp]: "opt_list None = []" "opt_list (Some x) = [x]"
  by (simp_all add: opt_list_def)

definition unit_lefts :: "DiffRowUnit list \<Rightarrow> DiffLine list" where
  "unit_lefts us = concat (map (\<lambda>u. opt_list (left u)) us)"

definition unit_rights :: "DiffRowUnit list \<Rightarrow> DiffLine list" where
  "unit_rights us = concat (map (\<lambda>u. opt_list (right u)) us)"

lemmas unit_defs = unit_same_def unit_mod_def unit_del_def unit_add_def
lemmas unit_side_defs = unit_lefts_def unit_rights_def

lemma concat_singletons_upt: "concat (map (\<lambda>k. [f k]) xs) = map f xs"
  by (induction xs) auto

lemma map_nth_parts: "k \<le> length xs \<Longrightarrow> map (\<lambda>i. xs ! i) [0..<k] @ map (\<lambda>i. xs ! i) [k..<length xs] = xs"
  by (metis append_take_drop_id map_append map_nth upt_add_eq_append zero_le le_add_diff_inverse)

lemma pair_runs_lefts: "unit_lefts (pair_runs dws dels adds) = dels"
proof -
  have "unit_lefts (pair_runs dws dels adds) = map ((!) dels) [0..<min (length dels) (length adds)]
      @ map ((!) dels) [min (length dels) (length adds)..<length dels]"
    by (simp add: unit_side_defs pair_runs_def unit_defs Let_def concat_singletons_upt o_def)
  then show ?thesis using map_nth_parts [of "min (length dels) (length adds)" dels] by simp
qed

lemma pair_runs_rights: "unit_rights (pair_runs dws dels adds) = adds"
proof -
  have "unit_rights (pair_runs dws dels adds) = map ((!) adds) [0..<min (length dels) (length adds)]
      @ map ((!) adds) [min (length dels) (length adds)..<length adds]"
    by (simp add: unit_side_defs pair_runs_def unit_defs Let_def concat_singletons_upt o_def)
  then show ?thesis using map_nth_parts [of "min (length dels) (length adds)" adds] by simp
qed

lemma unit_sides_append [simp]:
  "unit_lefts (us @ vs) = unit_lefts us @ unit_lefts vs"
  "unit_rights (us @ vs) = unit_rights us @ unit_rights vs"
  by (simp_all add: unit_side_defs)

lemma before_after_run:
  "before_side xs = takeWhile (\<lambda>x. ltype x = Del) xs
     @ before_side (dropWhile (\<lambda>x. ltype x = Add) (dropWhile (\<lambda>x. ltype x = Del) xs))"
  "after_side xs = takeWhile (\<lambda>x. ltype x = Add) (dropWhile (\<lambda>x. ltype x = Del) xs)
     @ after_side (dropWhile (\<lambda>x. ltype x = Add) (dropWhile (\<lambda>x. ltype x = Del) xs))"
proof -
  have drop_adds: "before_side (dropWhile (\<lambda>x. ltype x = Add) ys) = before_side ys" for ys
    by (induction ys) (auto simp: before_side_def)
  have drop_dels: "after_side (dropWhile (\<lambda>x. ltype x = Del) ys) = after_side ys" for ys
    by (induction ys) (auto simp: after_side_def)
  have take_dels: "before_side ys = takeWhile (\<lambda>x. ltype x = Del) ys
      @ before_side (dropWhile (\<lambda>x. ltype x = Del) ys)" for ys
    by (induction ys) (auto simp: before_side_def)
  have take_adds: "after_side ys = takeWhile (\<lambda>x. ltype x = Add) ys
      @ after_side (dropWhile (\<lambda>x. ltype x = Add) ys)" for ys
    by (induction ys) (auto simp: after_side_def)
  show "before_side xs = takeWhile (\<lambda>x. ltype x = Del) xs
     @ before_side (dropWhile (\<lambda>x. ltype x = Add) (dropWhile (\<lambda>x. ltype x = Del) xs))"
    using take_dels [of xs] by (simp add: drop_adds)
  show "after_side xs = takeWhile (\<lambda>x. ltype x = Add) (dropWhile (\<lambda>x. ltype x = Del) xs)
     @ after_side (dropWhile (\<lambda>x. ltype x = Add) (dropWhile (\<lambda>x. ltype x = Del) xs))"
    using take_adds [of "dropWhile (\<lambda>x. ltype x = Del) xs"] by (simp add: drop_dels)
qed

lemma toUnits_sides:
  "unit_lefts (toUnits dws ls) = before_side ls \<and> unit_rights (toUnits dws ls) = after_side ls"
proof (induction dws ls rule: toUnits.induct)
  case (1 dws ls)
  show ?case
  proof (cases ls)
    case Nil
    then show ?thesis by (simp add: toUnits.simps unit_side_defs side_defs)
  next
    case (Cons l rest)
    note ls = this
    show ?thesis
    proof (cases "ltype l = Same")
      case True
      with "1.IH"(1) [OF ls True] ls show ?thesis
        by (subst (1 2) toUnits.simps) (simp add: unit_side_defs unit_same_def side_defs)
    next
      case False
      note IH = "1.IH"(2) [OF ls False refl refl refl refl]
      show ?thesis
        using IH before_after_run [of ls] False
        by (subst (1 2) toUnits.simps) (simp add: ls Let_def pair_runs_lefts pair_runs_rights)
    qed
  qed
qed

fun row_units :: "DocRow \<Rightarrow> DiffRowUnit list" where
  "row_units (RowUnit u) = [u]"
| "row_units (RowGap us n) = us"

lemma concat_row_units [simp]: "concat (map row_units (map RowUnit us)) = us"
  by (induction us) auto

lemma concat_row_units_o [simp]: "concat (map (row_units \<circ> RowUnit) us) = us"
  by (induction us) auto

text \<open>The rows are the run's head, a gap and its foot, or the whole run.\<close>

definition run_rows :: "nat \<Rightarrow> nat \<Rightarrow> nat \<Rightarrow> DiffRowUnit list \<Rightarrow> DocRow list" where
  "run_rows lead trail minFold run =
     (if length run > lead + trail + minFold
      then map RowUnit (take lead run)
        @ [RowGap (slice lead (length run - trail) run) (length run - lead - trail)]
        @ map RowUnit (drop (length run - trail) run)
      else map RowUnit run)"

lemma fold_units_step:
  "fold_units c m i (u # us) =
    (if utype u \<noteq> USame then RowUnit u # fold_units c m (i + 1) us
     else run_rows (if i = 0 then 0 else c)
        (if dropWhile (\<lambda>x. utype x = USame) (u # us) = [] then 0 else c) m
        (takeWhile (\<lambda>x. utype x = USame) (u # us))
      @ fold_units c m (i + length (takeWhile (\<lambda>x. utype x = USame) (u # us)))
          (dropWhile (\<lambda>x. utype x = USame) (u # us)))"
  by (subst fold_units.simps)
     (auto simp: run_rows_def Let_def slice_def slice_from_def min_def simp del: takeWhile.simps dropWhile.simps)

lemma fold_units_changed:
  "utype u \<noteq> USame \<Longrightarrow> fold_units c m i (u # us) = RowUnit u # fold_units c m (i + 1) us"
  by (subst fold_units_step) simp

lemma fold_units_run:
  assumes "utype u = USame" and "run = takeWhile (\<lambda>x. utype x = USame) (u # us)"
    and "remaining = dropWhile (\<lambda>x. utype x = USame) (u # us)"
  shows "fold_units c m i (u # us) = run_rows (if i = 0 then 0 else c) (if remaining = [] then 0 else c) m run
      @ fold_units c m (i + length run) remaining"
  unfolding assms(2,3) using assms(1)
  by (subst fold_units_step) (simp only: if_False not_True_eq_False simp_thms)

lemma fold_units_Nil [simp]: "fold_units c m i [] = []"
  by (subst fold_units.simps) simp

lemma run_rows_units: "concat (map row_units (run_rows lead trail m run)) = run"
proof (cases "length run > lead + trail + m")
  case True
  have "take (length run - trail - lead) (drop lead run) @ drop (length run - trail) run
      = take (length run - trail - lead) (drop lead run) @ drop (length run - trail - lead) (drop lead run)"
    using True by simp
  then have "take lead run @ take (length run - trail - lead) (drop lead run)
      @ drop (length run - trail) run = run"
    by (metis append_take_drop_id)
  with True show ?thesis by (simp add: run_rows_def slice_def)
qed (simp add: run_rows_def)

lemma fold_units_induct [case_names Nil Changed Run]:
  assumes "\<And>i. P i []"
    and "\<And>i u us. utype u \<noteq> USame \<Longrightarrow> P (i + 1) us \<Longrightarrow> P i (u # us)"
    and "\<And>i u us run remaining. utype u = USame \<Longrightarrow> run = takeWhile (\<lambda>x. utype x = USame) (u # us) \<Longrightarrow>
          remaining = dropWhile (\<lambda>x. utype x = USame) (u # us) \<Longrightarrow>
          P (i + length run) remaining \<Longrightarrow> P i (u # us)"
  shows "P i us"
proof (induction "length us" arbitrary: i us rule: less_induct)
  case less
  show ?case
  proof (cases us)
    case Nil
    then show ?thesis by (simp add: assms(1))
  next
    case (Cons u rest)
    show ?thesis
    proof (cases "utype u = USame")
      case True
      have "length (dropWhile (\<lambda>x. utype x = USame) us) < length us"
        using True Cons length_dropWhile_le [of "\<lambda>x. utype x = USame" rest] by simp
      then have "P (i + length (takeWhile (\<lambda>x. utype x = USame) us)) (dropWhile (\<lambda>x. utype x = USame) us)"
        by (rule less)
      with assms(3) True Cons show ?thesis by blast
    next
      case False
      with assms(2) less Cons show ?thesis by simp
    qed
  qed
qed

lemma fold_units_flatten: "concat (map row_units (fold_units c m i us)) = us"
proof (induction i us rule: fold_units_induct)
  case (Run i u us run remaining)
  then have "concat (map row_units (fold_units c m i (u # us))) = run @ remaining"
    by (simp only: fold_units_run map_append concat_append run_rows_units)
  also have "\<dots> = u # us" unfolding Run.hyps(2,3) by (rule takeWhile_dropWhile_id)
  finally show ?case .
next
  case (Nil i)
  show ?case by simp
next
  case (Changed i u us)
  then show ?case by (simp add: fold_units_changed)
qed

text \<open>The rows kept in view around a gap: unchanged lines, \<open>n\<close> of them.\<close>

definition kept_context :: "nat \<Rightarrow> DocRow list \<Rightarrow> bool" where
  "kept_context n rs \<longleftrightarrow> length rs = n \<and> list_all (\<lambda>r. case r of RowUnit u \<Rightarrow> utype u = USame | RowGap _ _ \<Rightarrow> False) rs"

definition gap_ok :: "nat \<Rightarrow> nat \<Rightarrow> bool \<Rightarrow> DocRow list \<Rightarrow> DiffRowUnit list \<Rightarrow> nat \<Rightarrow> DocRow list \<Rightarrow> bool" where
  "gap_ok c m first pre us n post \<longleftrightarrow>
     n = length us \<and> m < n \<and> list_all (\<lambda>u. utype u = USame) us
     \<and> (first \<and> pre = [] \<or> (\<exists>p k. pre = p @ k \<and> kept_context c k))
     \<and> (post = [] \<or> (\<exists>k p. post = k @ p \<and> kept_context c k))"

lemma gap_ok_prefix:
  assumes "gap_ok c m False pre us n post"
  shows "gap_ok c m first (xs @ pre) us n post"
proof -
  from assms obtain p k where "pre = p @ k" and "kept_context c k" by (auto simp: gap_ok_def)
  then have "xs @ pre = (xs @ p) @ k \<and> kept_context c k" by simp
  with assms show ?thesis unfolding gap_ok_def by blast
qed

lemma no_gap_in_units: "map RowUnit xs \<noteq> pre @ RowGap hid n # post"
proof
  assume "map RowUnit xs = pre @ RowGap hid n # post"
  then have "RowGap hid n \<in> set (map RowUnit xs)" by simp
  then show False by auto
qed

lemma single_gap:
  "map RowUnit xs @ RowGap us k # map RowUnit ys = pre @ RowGap hid n # post \<Longrightarrow>
     pre = map RowUnit xs \<and> hid = us \<and> n = k \<and> post = map RowUnit ys"
proof (induction xs arbitrary: pre)
  case Nil
  then show ?case using no_gap_in_units [of ys] by (cases pre) auto
next
  case (Cons x xs)
  then show ?case by (cases pre) auto
qed

lemma fold_gap_here:
  assumes "run_rows (if first then 0 else c) (if final then 0 else c) m run = pre @ RowGap hid n # post'"
    and "post = post' @ rest" and "\<forall>x \<in> set run. utype x = USame" and "final \<Longrightarrow> rest = []"
  shows "gap_ok c m first pre hid n post"
proof -
  let ?lead = "if first then 0 else c" and ?trail = "if final then 0 else c"
  have big: "length run > ?lead + ?trail + m"
    using assms(1) no_gap_in_units [of run] by (auto simp: run_rows_def split: if_splits)
  then have "map RowUnit (take ?lead run) @ RowGap (slice ?lead (length run - ?trail) run)
      (length run - ?lead - ?trail) # map RowUnit (drop (length run - ?trail) run) = pre @ RowGap hid n # post'"
    using assms(1) unfolding run_rows_def by (simp only: if_True append_Cons append_Nil)
  note eqs = single_gap [OF this]
  have same: "list_all (\<lambda>u. utype u = USame) hid" and n: "n = length hid" "m < n"
    using eqs assms(3) big by (auto simp: slice_def list_all_iff dest!: in_set_takeD in_set_dropD)
  have lead: "kept_context ?lead pre"
    using eqs big assms(3) by (auto simp: kept_context_def list_all_iff dest: in_set_takeD)
  have trail: "kept_context ?trail post'"
    using eqs big assms(3) by (auto simp: kept_context_def list_all_iff dest: in_set_dropD)
  show ?thesis
    using n same lead trail assms(2,4) unfolding gap_ok_def
    by (cases first; cases final) (auto simp: kept_context_def)
qed

lemma fold_gap:
  "fold_units c m i us = pre @ RowGap hid n # post \<Longrightarrow> gap_ok c m (i = 0) pre hid n post"
proof (induction i us arbitrary: pre rule: fold_units_induct)
  case (Nil i)
  then show ?case by simp
next
  case (Changed i u us)
  from Changed.prems Changed.hyps obtain pre' where "pre = RowUnit u # pre'"
    and "fold_units c m (i + 1) us = pre' @ RowGap hid n # post"
    by (cases pre) (auto simp: fold_units_changed)
  with Changed.IH [of pre'] show ?case
    using gap_ok_prefix [of c m pre' hid n post "i = 0" "[RowUnit u]"] by simp
next
  case (Run i u us run remaining)
  let ?lead = "if i = 0 then 0 else c" and ?trail = "if remaining = [] then 0 else c"
  have run_same: "\<forall>x \<in> set run. utype x = USame" using Run.hyps(2) by (auto dest: set_takeWhileD)
  have run_ne: "run \<noteq> []" using Run.hyps by simp
  have split: "run_rows ?lead ?trail m run @ fold_units c m (i + length run) remaining
      = pre @ RowGap hid n # post"
    using Run.prems fold_units_run [OF Run.hyps] by simp
  then consider
      (here) post' where "run_rows ?lead ?trail m run = pre @ RowGap hid n # post'"
        "post = post' @ fold_units c m (i + length run) remaining"
    | (later) pre' where "pre = run_rows ?lead ?trail m run @ pre'"
        "fold_units c m (i + length run) remaining = pre' @ RowGap hid n # post"
    by (auto simp: append_eq_append_conv2 append_eq_Cons_conv)
  then show ?case
  proof cases
    case here
    show ?thesis by (rule fold_gap_here [OF here run_same]) simp
  next
    case later
    from Run.IH [OF later(2)] have "gap_ok c m False pre' hid n post" using run_ne by simp
    then show ?thesis unfolding later(1) by (rule gap_ok_prefix)
  qed
qed

lemma diffStats_counts:
  "diffStats ls = (length (filter (\<lambda>l. ltype l = Add) ls), length (filter (\<lambda>l. ltype l = Del) ls))"
  by (induction ls) (auto split: DiffLineType.splits)

text \<open>
  Whatever the context and fold sizes, the rows of the viewer show both
  documents completely: opening every gap gives the lines of the first document on the
  left and of the second on the right, in order, and the statistics count the added and
  removed lines.
\<close>

theorem buildDocDiff_complete:
  "map ltext (unit_lefts (concat (map row_units (rows (buildDocDiff dws bef aft c m))))) = doc_lines bef
   \<and> map ltext (unit_rights (concat (map row_units (rows (buildDocDiff dws bef aft c m))))) = doc_lines aft
   \<and> fst (stats (buildDocDiff dws bef aft c m)) + length (same_lines (lineDiff bef aft)) = length (doc_lines aft)
   \<and> snd (stats (buildDocDiff dws bef aft c m)) + length (same_lines (lineDiff bef aft)) = length (doc_lines bef)"
proof -
  let ?ls = "lineDiff bef aft"
  have sides: "map ltext (before_side ?ls) = doc_lines bef" "map ltext (after_side ?ls) = doc_lines aft"
    using diff_ref_before diff_ref_after by (simp_all add: lineDiff_ref)
  have "length (filter (\<lambda>l. ltype l = Add) xs) + length (same_lines xs) = length (after_side xs)
      \<and> length (filter (\<lambda>l. ltype l = Del) xs) + length (same_lines xs) = length (before_side xs)" for xs
    by (induction xs) (auto simp: side_defs intro: DiffLineType.exhaust)
  from this [of ?ls] show ?thesis
    using sides toUnits_sides [of dws ?ls] length_map [of ltext "before_side ?ls"]
      length_map [of ltext "after_side ?ls"]
    by (simp add: buildDocDiff_def Let_def fold_units_flatten diffStats_counts del: length_map)
qed

text \<open>
  A fold hides unchanged lines only, more than \<open>minFold\<close> of them, and never
  next to a change: a gap has \<open>context\<close> unchanged rows in view before it unless it
  opens the document, and as many after it unless it ends it.
\<close>

theorem buildDocDiff_gap_context:
  assumes "rows (buildDocDiff dws bef aft c m) = pre @ RowGap hid n # post"
  shows "n = length hid \<and> m < n \<and> list_all (\<lambda>u. utype u = USame) hid
    \<and> (pre = [] \<or> (\<exists>p k. pre = p @ k \<and> kept_context c k))
    \<and> (post = [] \<or> (\<exists>k p. post = k @ p \<and> kept_context c k))"
  using fold_gap [of c m 0 "toUnits dws (lineDiff bef aft)" pre hid n post] assms
  by (simp add: buildDocDiff_def Let_def gap_ok_def)

lemma buildDocDiff_gap_context_witness:
  "\<exists>hid post. rows (buildDocDiff (\<lambda>_ _. []) ''a\<newline>b\<newline>c'' ''a\<newline>b\<newline>c\<newline>d'' 1 0) = [] @ RowGap hid 2 # post
     \<and> 0 < length hid \<and> (\<exists>k p. post = k @ p \<and> kept_context 1 k)"
proof -
  let ?row = "\<lambda>s n. unit_same \<lparr>ltype = Same, ltext = s, lbefore = Some n, lafter = Some n\<rparr>"
  let ?post = "[RowUnit (?row ''c'' 3),
    RowUnit (unit_add \<lparr>ltype = Add, ltext = ''d'', lbefore = None, lafter = Some 4\<rparr>)]"
  have h: "rows (buildDocDiff (\<lambda>_ _. []) ''a\<newline>b\<newline>c'' ''a\<newline>b\<newline>c\<newline>d'' 1 0)
      = [] @ RowGap [?row ''a'' 1, ?row ''b'' 2] 2 # ?post"
    by (simp add: buildDocDiff_def lineDiff_ref doc_lines_def drop_final_nl_def NL_def toUnits.simps
        pair_runs_def unit_defs fold_units.simps slice_def slice_from_def)
  have "\<exists>k p. ?post = k @ p \<and> kept_context 1 k"
    using buildDocDiff_gap_context [OF h] by simp
  with h show ?thesis by (metis length_greater_0_conv list.distinct(1))
qed

definition spells :: "WordPart list \<Rightarrow> string \<Rightarrow> string \<Rightarrow> bool" where
  "spells ps bef aft \<longleftrightarrow> list_all (\<lambda>p. \<not> (added p \<and> removed p)) ps
     \<and> concat (map pvalue (filter (\<lambda>p. \<not> added p) ps)) = bef
     \<and> concat (map pvalue (filter (\<lambda>p. \<not> removed p) ps)) = aft"

lemma word_segments_sides:
  "list_all (\<lambda>p. \<not> (added p \<and> removed p)) ps \<Longrightarrow>
     map seg_text (wd_del (word_segments ps)) = map pvalue (filter (\<lambda>p. \<not> added p) ps)
   \<and> map seg_text (wd_add (word_segments ps)) = map pvalue (filter (\<lambda>p. \<not> removed p) ps)
   \<and> filter (\<lambda>s. \<not> changed s) (wd_del (word_segments ps)) = filter (\<lambda>s. \<not> changed s) (wd_add (word_segments ps))"
  by (induction ps) (auto simp: Let_def)

text \<open>
  The word segments of a changed pair spell out the two lines: if the parts
  \<open>diffWordsWithSpace\<close> answers spell the old line without the added ones and the new
  line without the removed ones (its documented contract), so do the segments of the two
  sides, and exactly the highlighted ones are missing on the other side.
\<close>

theorem wordDiff_spells:
  assumes "spells (diffWordsWithSpace bef aft) bef aft"
  shows "concat (map seg_text (wd_del (wordDiff diffWordsWithSpace bef aft))) = bef
    \<and> concat (map seg_text (wd_add (wordDiff diffWordsWithSpace bef aft))) = aft
    \<and> filter (\<lambda>s. \<not> changed s) (wd_del (wordDiff diffWordsWithSpace bef aft))
      = filter (\<lambda>s. \<not> changed s) (wd_add (wordDiff diffWordsWithSpace bef aft))"
  using assms word_segments_sides [of "diffWordsWithSpace bef aft"]
  by (simp add: spells_def wordDiff_def)

definition whole_line_differ :: word_differ where
  "whole_line_differ bef aft = (if bef = aft then [\<lparr>pvalue = bef, added = False, removed = False\<rparr>]
     else [\<lparr>pvalue = bef, added = False, removed = True\<rparr>, \<lparr>pvalue = aft, added = True, removed = False\<rparr>])"

lemma wordDiff_spells_witness:
  "spells (whole_line_differ ''a'' ''b'') ''a'' ''b''
   \<and> concat (map seg_text (wd_add (wordDiff whole_line_differ ''a'' ''b''))) = ''b''"
proof -
  have h: "spells (whole_line_differ ''a'' ''b'') ''a'' ''b''"
    by (simp add: spells_def whole_line_differ_def)
  show ?thesis using h wordDiff_spells [where diffWordsWithSpace = whole_line_differ, OF h] by simp
qed

end
