(* ===== verification/GenMarkers.thy ===== *)
theory GenMarkers
  imports Prelude
begin

text \<open>
  Ownership markers of generated documentation (\<open>lib/genMarkers.ts\<close>): recognising marker
  lines, finding the well-formed generated blocks of a document, dropping the markers from a
  rendered tree, and the line decorations of the editor
  (\<open>components/docs/genBlockHighlight.ts\<close>). The lemmas state which line ranges are blocks,
  independently of the loops that find them.
\<close>

subsection \<open>Markers\<close>

definition is_key_char :: "char \<Rightarrow> bool" where
  "is_key_char c \<longleftrightarrow> in_range CHR ''A'' CHR ''Z'' c \<or> in_range CHR ''a'' CHR ''z'' c \<or> is_digit c
     \<or> c = CHR ''.'' \<or> c = CHR ''_'' \<or> c = CHR ''-''"

definition is_lower_hex :: "char \<Rightarrow> bool" where
  "is_lower_hex c \<longleftrightarrow> is_digit c \<or> in_range CHR ''a'' CHR ''f'' c"

(* src lib/genMarkers.ts 14-14 CLOSE *)
definition CLOSE :: string where "CLOSE = ''<!-- /wl:gen -->''"

definition OPEN_HEAD :: string where "OPEN_HEAD = ''<!-- wl:gen key='' @ [DQUOTE]"
definition OPEN_MID :: string where "OPEN_MID = [DQUOTE] @ '' h='' @ [DQUOTE]"
definition OPEN_TAIL :: string where "OPEN_TAIL = [DQUOTE] @ '' -->''"

text \<open>The match of \<open>OPEN_RE\<close> on a whole line: its key, if it is one.\<close>

(* src lib/genMarkers.ts 13-13 OPEN_RE *)
definition open_key :: "string \<Rightarrow> string option" where
  "open_key line =
     (if \<not> starts_with OPEN_HEAD line then None
      else (let rest = drop (length OPEN_HEAD) line;
                key = takeWhile is_key_char rest;
                after = dropWhile is_key_char rest
            in if key = [] \<or> \<not> starts_with OPEN_MID after then None
               else (let h = drop (length OPEN_MID) after
                     in if length h = 12 + length OPEN_TAIL \<and> list_all is_lower_hex (take 12 h)
                          \<and> drop 12 h = OPEN_TAIL
                        then Some key else None)))"

(* src lib/genMarkers.ts 16-20 isGenMarker *)
definition isGenMarker :: "string \<Rightarrow> bool" where
  "isGenMarker s = (let t = trim s in t = CLOSE \<or> open_key t \<noteq> None)"

subsection \<open>Finding the blocks\<close>

(* src lib/genMarkers.ts 22-27 GenBlockRange *)
record gen_block =
  gb_key :: string
  gb_openLine :: nat
  gb_closeLine :: nat

text \<open>The inner loop: the line that closes the block opened at \<open>i\<close>, from \<open>j\<close> on.\<close>

(* src lib/genMarkers.ts 36-43 findGenBlocks *)
function find_close :: "string list \<Rightarrow> nat \<Rightarrow> nat \<Rightarrow> nat option" where
  "find_close lines i j =
     (if j < length lines then
        if lines ! j = CLOSE \<and> j > i + 1 then Some j
        else if open_key (lines ! j) \<noteq> None then None
        else find_close lines i (j + 1)
      else None)"
  by pat_completeness auto
termination by (relation "measure (\<lambda>(lines, i, j). length lines - j)") auto

declare find_close.simps [simp del]

lemma find_close_bounds: "find_close lines i j = Some k \<Longrightarrow> j \<le> k \<and> k < length lines"
proof (induction lines i j rule: find_close.induct)
  case (1 lines i j)
  from 1(2) show ?case
    by (subst (asm) find_close.simps) (auto split: if_splits dest!: 1(1))
qed

(* src lib/genMarkers.ts 33-44 findGenBlocks *)
function find_blocks :: "string list \<Rightarrow> nat \<Rightarrow> gen_block list" where
  "find_blocks lines i =
     (if i < length lines then
        (case open_key (lines ! i) of
           None \<Rightarrow> find_blocks lines (i + 1)
         | Some key \<Rightarrow>
             (case find_close lines i (i + 1) of
                None \<Rightarrow> find_blocks lines (i + 1)
              | Some j \<Rightarrow> \<lparr>gb_key = key, gb_openLine = i + 1, gb_closeLine = j + 1\<rparr> # find_blocks lines (j + 1)))
      else [])"
  by pat_completeness auto
termination
  by (relation "measure (\<lambda>(lines, i). length lines - i)") (auto dest!: find_close_bounds)

declare find_blocks.simps [simp del]

(* src lib/genMarkers.ts 29-46 findGenBlocks *)
definition findGenBlocks :: "string \<Rightarrow> gen_block list" where
  "findGenBlocks content = find_blocks (split_on NL content) 0"

text \<open>
  The specification: lines \<open>i\<close> and \<open>j\<close> (from 0) delimit a block when \<open>i\<close> is an open marker,
  \<open>j\<close> is the first close marker that leaves a body, and no open marker lies between.
\<close>

definition block_at :: "string list \<Rightarrow> nat \<Rightarrow> nat \<Rightarrow> string \<Rightarrow> bool" where
  "block_at lines i j key \<longleftrightarrow> j < length lines \<and> open_key (lines ! i) = Some key \<and> i + 1 < j \<and> lines ! j = CLOSE
     \<and> (\<forall>m. i < m \<longrightarrow> m < j \<longrightarrow> open_key (lines ! m) = None \<and> (i + 1 < m \<longrightarrow> lines ! m \<noteq> CLOSE))"

lemma all_from: "(\<forall>m. j \<le> m \<longrightarrow> m < k \<longrightarrow> P m) \<longleftrightarrow> (j < k \<longrightarrow> P j) \<and> (\<forall>m. j + 1 \<le> m \<longrightarrow> m < k \<longrightarrow> P m)"
  for j k :: nat
proof
  assume r: "(j < k \<longrightarrow> P j) \<and> (\<forall>m. j + 1 \<le> m \<longrightarrow> m < k \<longrightarrow> P m)"
  show "\<forall>m. j \<le> m \<longrightarrow> m < k \<longrightarrow> P m"
  proof (intro allI impI)
    fix m assume "j \<le> m" "m < k"
    with r show "P m" by (cases "m = j") auto
  qed
qed auto

lemma open_key_CLOSE: "open_key CLOSE = None"
proof -
  have "\<not> starts_with OPEN_HEAD CLOSE" by code_simp
  then show ?thesis unfolding open_key_def by (rule if_P)
qed

lemma find_close_iff:
  "i < j \<Longrightarrow> find_close lines i j = Some k \<longleftrightarrow>
     j \<le> k \<and> k < length lines \<and> lines ! k = CLOSE \<and> i + 1 < k
     \<and> (\<forall>m. j \<le> m \<longrightarrow> m < k \<longrightarrow> open_key (lines ! m) = None \<and> (i + 1 < m \<longrightarrow> lines ! m \<noteq> CLOSE))"
proof (induction lines i j rule: find_close.induct)
  case (1 lines i j)
  show ?case
  proof (cases "j < length lines \<and> \<not> (lines ! j = CLOSE \<and> j > i + 1) \<and> open_key (lines ! j) = None")
    case True
    then have IH: "find_close lines i j = find_close lines i (j + 1)"
      by (subst find_close.simps) auto
    have "j \<noteq> k \<or> \<not> (lines ! k = CLOSE \<and> i + 1 < k)" using True by auto
    then show ?thesis unfolding IH using 1(1) 1(2) True
      by (subst all_from [where P = "\<lambda>m. open_key (lines ! m) = None \<and> (i + 1 < m \<longrightarrow> lines ! m \<noteq> CLOSE)"]) auto
  next
    case False
    then have "find_close lines i j = (if j < length lines \<and> lines ! j = CLOSE \<and> j > i + 1 then Some j else None)"
      by (subst find_close.simps) auto
    moreover have "\<not> (j < k \<and> k < length lines \<and> (\<forall>m. j \<le> m \<longrightarrow> m < k \<longrightarrow>
        open_key (lines ! m) = None \<and> (i + 1 < m \<longrightarrow> lines ! m \<noteq> CLOSE)))"
      using False by auto
    ultimately show ?thesis by (cases "j = k") auto
  qed
qed

lemma find_close_block:
  "open_key (lines ! i) = Some key \<Longrightarrow> find_close lines i (i + 1) = Some j \<longleftrightarrow> block_at lines i j key"
  by (subst find_close_iff) (auto simp: block_at_def Suc_le_eq)

lemma block_at_unique: "block_at lines i j key \<Longrightarrow> block_at lines i j' key' \<Longrightarrow> j = j'"
proof -
  assume b: "block_at lines i j key" "block_at lines i j' key'"
  then have "open_key (lines ! i) = Some key" "key' = key" by (auto simp: block_at_def)
  with b have "find_close lines i (i + 1) = Some j" "find_close lines i (i + 1) = Some j'"
    by (simp_all only: find_close_block)
  then show "j = j'" by simp
qed

lemma block_at_disjoint: "block_at lines i j key \<Longrightarrow> block_at lines i' j' key' \<Longrightarrow> i < i' \<Longrightarrow> j < i'"
proof (rule ccontr)
  assume b: "block_at lines i j key" "block_at lines i' j' key'" "i < i'" "\<not> j < i'"
  then have "i' = j \<or> i' < j" by auto
  with b show False using open_key_CLOSE by (auto simp: block_at_def)
qed

definition block_range :: "string \<Rightarrow> nat \<Rightarrow> nat \<Rightarrow> gen_block" where
  "block_range key i j = \<lparr>gb_key = key, gb_openLine = i + 1, gb_closeLine = j + 1\<rparr>"

lemma find_blocks_step:
  "find_blocks lines i =
     (if i < length lines then
        (case Option.bind (open_key (lines ! i)) (\<lambda>key. map_option (Pair key) (find_close lines i (i + 1))) of
           None \<Rightarrow> find_blocks lines (i + 1)
         | Some (key, j) \<Rightarrow> block_range key i j # find_blocks lines (j + 1))
      else [])"
  by (subst find_blocks.simps) (auto simp: block_range_def split: option.splits)

lemma block_range_simps [simp]:
  "gb_openLine (block_range key i j) = i + 1" "gb_closeLine (block_range key i j) = j + 1"
  by (simp_all add: block_range_def)

lemma find_blocks_exact:
  "set (find_blocks lines i) = {b. \<exists>i' j key. i \<le> i' \<and> block_at lines i' j key \<and> b = block_range key i' j}
   \<and> sorted_wrt (\<lambda>a b. gb_closeLine a < gb_openLine b) (find_blocks lines i)"
proof (induction "length lines - i" arbitrary: i rule: less_induct)
  case less
  let ?B = "\<lambda>i. {b. \<exists>i' j key. i \<le> i' \<and> block_at lines i' j key \<and> b = block_range key i' j}"
  show ?case
  proof (cases "i < length lines")
    case False
    then have "?B i = {}" by (auto simp: block_at_def)
    with False show ?thesis by (subst (1 2) find_blocks_step) simp
  next
    case in_lines: True
    show ?thesis
    proof (cases "\<exists>j key. block_at lines i j key")
      case True
      then obtain j key where b: "block_at lines i j key" by blast
      then have "open_key (lines ! i) = Some key" "find_close lines i (i + 1) = Some j"
        using find_close_block by (auto simp: block_at_def)
      then have eq: "find_blocks lines i = block_range key i j # find_blocks lines (j + 1)"
        using in_lines by (subst find_blocks_step) simp
      have lt: "length lines - (j + 1) < length lines - i" using b in_lines by (auto simp: block_at_def)
      have "?B i = insert (block_range key i j) (?B (j + 1))"
      proof -
        have "i' = i \<and> j' = j \<and> key' = key \<or> j + 1 \<le> i'" if "i \<le> i'" "block_at lines i' j' key'" for i' j' key'
          using that b block_at_unique block_at_disjoint [OF b that(2)]
          by (cases "i' = i") (auto simp: block_at_def Suc_le_eq)
        moreover have "i \<le> i'" if "j + 1 \<le> i'" for i' using that b by (auto simp: block_at_def)
        ultimately show ?thesis using b by blast
      qed
      then show ?thesis using less [OF lt] unfolding eq by fastforce
    next
      case False
      then have "Option.bind (open_key (lines ! i)) (\<lambda>key. map_option (Pair key) (find_close lines i (i + 1))) = None"
        using find_close_block by (cases "open_key (lines ! i)"; cases "find_close lines i (i + 1)") auto
      then have eq: "find_blocks lines i = find_blocks lines (i + 1)"
        using in_lines by (subst find_blocks_step) simp
      have "i \<le> i' \<and> block_at lines i' j key \<longleftrightarrow> i + 1 \<le> i' \<and> block_at lines i' j key" for i' j key
        using False by (cases "i' = i") auto
      then have "?B i = ?B (i + 1)" by (intro Collect_cong) metis
      then show ?thesis using less [of "i + 1"] in_lines unfolding eq by simp
    qed
  qed
qed

text \<open>
  Claim C19. findGenBlocks returns exactly the well-formed generated blocks of a document, in
  order and disjoint: a key and a pair of lines is reported precisely when the first line is an
  open marker with that key, the second is the first close marker after it that leaves a body,
  and no open marker lies between. Unclosed, nested and empty blocks are plain text.
\<close>

theorem findGenBlocks_exact:
  "set (findGenBlocks content) =
     {b. \<exists>i j key. block_at (split_on NL content) i j key
        \<and> b = \<lparr>gb_key = key, gb_openLine = i + 1, gb_closeLine = j + 1\<rparr>}
   \<and> sorted_wrt (\<lambda>a b. gb_closeLine a < gb_openLine b) (findGenBlocks content)"
  using find_blocks_exact [of "split_on NL content" 0]
  by (auto simp: findGenBlocks_def block_range_def)

subsection \<open>Markers in the rendered tree\<close>

(* src lib/genMarkers.ts 48-52 MdNode *)
datatype md_node = Node (node_type: string) (node_value: "string option") (node_children: "md_node list option")

(* src lib/genMarkers.ts 56-56 strip *)
definition marker_node :: "md_node \<Rightarrow> bool" where
  "marker_node c \<longleftrightarrow> node_type c = ''html'' \<and> isGenMarker (from_opt [] (node_value c))"

(* src lib/genMarkers.ts 54-63 strip *)
fun strip :: "md_node \<Rightarrow> md_node"
and strip_list :: "md_node list \<Rightarrow> md_node list" where
  "strip (Node ty v None) = Node ty v None"
| "strip (Node ty v (Some cs)) = Node ty v (Some (strip_list cs))"
| "strip_list [] = []"
| "strip_list (c # cs) = (if marker_node c then strip_list cs else strip c # strip_list cs)"

text \<open>The nodes below the root, in document order.\<close>

fun below :: "md_node \<Rightarrow> md_node list"
and below_list :: "md_node list \<Rightarrow> md_node list" where
  "below (Node ty v None) = []"
| "below (Node ty v (Some cs)) = below_list cs"
| "below_list [] = []"
| "below_list (c # cs) = (c # below c) @ below_list cs"

lemma strip_head [simp]: "node_type (strip n) = node_type n" "node_value (strip n) = node_value n"
  by (cases n rule: strip.cases; simp)+

lemma strip_none: "list_all (\<lambda>n. \<not> marker_node n) (below (strip n))"
  "list_all (\<lambda>n. \<not> marker_node n) (below_list (strip_list ns))"
  by (induction n and ns rule: strip_strip_list.induct) (auto simp: marker_node_def)

lemma strip_id: "list_all (\<lambda>n. \<not> marker_node n) (below n) \<Longrightarrow> strip n = n"
  "list_all (\<lambda>n. \<not> marker_node n) (below_list ns) \<Longrightarrow> strip_list ns = ns"
  by (induction n and ns rule: strip_strip_list.induct) auto

lemma strip_list_filter: "strip_list cs = map strip (filter (\<lambda>c. \<not> marker_node c) cs)"
  by (induction cs) auto

text \<open>
  Stripping removes the marker comments and nothing else: below the root of the result
  no marker is left at any depth, the children of every node are the stripped non-marker children
  in order, a tree without markers is returned unchanged, and stripping again changes nothing.
\<close>

theorem strip_exact:
  "list_all (\<lambda>n. \<not> marker_node n) (below (strip t))
   \<and> strip t = Node (node_type t) (node_value t)
       (map_option (\<lambda>cs. map strip (filter (\<lambda>c. \<not> marker_node c) cs)) (node_children t))
   \<and> strip (strip t) = strip t \<and> (strip t \<noteq> t \<longrightarrow> list_ex marker_node (below t))"
proof (intro conjI impI)
  show "list_all (\<lambda>n. \<not> marker_node n) (below (strip t))" by (rule strip_none)
  show "strip (strip t) = strip t" by (rule strip_id(1)) (rule strip_none)
  show "strip t = Node (node_type t) (node_value t)
       (map_option (\<lambda>cs. map strip (filter (\<lambda>c. \<not> marker_node c) cs)) (node_children t))"
    by (cases t rule: strip.cases) (auto simp: strip_list_filter)
  show "list_ex marker_node (below t)" if "strip t \<noteq> t"
    using that strip_id(1) [of t] by (auto simp: list_all_iff list_ex_iff)
qed

lemma strip_exact_witness:
  "list_ex marker_node (below (Node ''root'' None (Some [Node ''html'' (Some CLOSE) None])))"
proof -
  have "strip (Node ''root'' None (Some [Node ''html'' (Some CLOSE) None])) = Node ''root'' None (Some [])"
    by code_simp
  then show ?thesis using strip_exact [of "Node ''root'' None (Some [Node ''html'' (Some CLOSE) None])"] by simp
qed

subsection \<open>Line decorations of the editor\<close>

datatype line_mark = Gen_marker | Gen_line string

text \<open>\<open>doc.line(n).from\<close>: the offset of a line.\<close>

definition line_from :: "string list \<Rightarrow> nat \<Rightarrow> nat" where
  "line_from lines n = sum_list (map (\<lambda>l. length l + 1) (take (n - 1) lines))"

(* src components/docs/genBlockHighlight.ts 11-23 build *)
definition build :: "string \<Rightarrow> string \<Rightarrow> (nat \<times> line_mark) list" where
  "build content title = concat (map (\<lambda>b.
     map (\<lambda>n. (line_from (split_on NL content) n,
         if n = gb_openLine b \<or> n = gb_closeLine b then Gen_marker else Gen_line title))
       [gb_openLine b ..< gb_closeLine b + 1]) (findGenBlocks content))"

lemma line_from_less:
  assumes "1 \<le> m" and "m < n" and "n \<le> length lines"
  shows "line_from lines m < line_from lines n"
proof -
  have "take (n - 1) lines = take (m - 1) lines @ drop (m - 1) (take (n - 1) lines)"
    using assms by (metis append_take_drop_id diff_le_mono less_imp_le min.absorb1 take_take)
  moreover have "drop (m - 1) (take (n - 1) lines) \<noteq> []" using assms by auto
  ultimately show ?thesis
    unfolding line_from_def by (cases "drop (m - 1) (take (n - 1) lines)") (metis, simp)
qed

lemma gen_lines_increasing:
  "sorted_wrt (\<lambda>a b. gb_closeLine a < gb_openLine b) bs \<Longrightarrow>
     sorted_wrt (<) (concat (map (\<lambda>b. [gb_openLine b ..< gb_closeLine b + 1]) bs))"
proof (induction bs)
  case (Cons b bs)
  have "m < n" if "m \<in> set [gb_openLine b ..< gb_closeLine b + 1]"
      "n \<in> set (concat (map (\<lambda>b. [gb_openLine b ..< gb_closeLine b + 1]) bs))" for m n
  proof -
    from that(2) obtain b' where "b' \<in> set bs" "gb_openLine b' \<le> n" by auto
    moreover from this have "gb_closeLine b < gb_openLine b'" using Cons.prems by auto
    ultimately show ?thesis using that(1) by auto
  qed
  with Cons show ?case by (simp add: sorted_wrt_append del: upt_Suc)
qed simp

text \<open>
  The editor's decorations are added in strictly increasing document positions, as the
  range set builder requires, and the decorated lines are exactly those from the open to the close
  marker of a block.
\<close>

theorem build_increasing:
  "sorted_wrt (<) (map fst (build content title))
   \<and> map fst (build content title) = map (line_from (split_on NL content))
       (concat (map (\<lambda>b. [gb_openLine b ..< gb_closeLine b + 1]) (findGenBlocks content)))"
proof -
  let ?ls = "split_on NL content"
  let ?ns = "concat (map (\<lambda>b. [gb_openLine b ..< gb_closeLine b + 1]) (findGenBlocks content))"
  have eq: "map fst (build content title) = map (line_from ?ls) ?ns"
    by (simp add: build_def map_concat o_def)
  have inc: "sorted_wrt (<) ?ns"
    unfolding findGenBlocks_def using find_blocks_exact by (intro gen_lines_increasing) blast
  have "1 \<le> n \<and> n \<le> length ?ls" if "n \<in> set ?ns" for n
    using that find_blocks_exact [of ?ls 0] by (auto simp: findGenBlocks_def block_at_def)
  then have "sorted_wrt (\<lambda>m n. line_from ?ls m < line_from ?ls n) ?ns"
    using line_from_less by (intro sorted_wrt_mono_rel [OF _ inc]) blast
  then show ?thesis unfolding eq by (simp add: sorted_wrt_map)
qed

end
