(* ===== verification/TimeFmt.thy ===== *)
theory TimeFmt
  imports Prelude
begin

text \<open>
  Compact times and durations (\<open>lib/time.ts\<close>). Parsing a date is the host's: a text is given
  with its time in milliseconds, \<^const>\<open>None\<close> where it does not parse. \<open>toFixed(1)\<close> is the
  language's: the quotient is rounded to a double first (53-bit mantissa, ties to even) and the
  tenths are those closest to that double, the larger of two equally close ones.
\<close>

subsection \<open>Relative times\<close>

(* src lib/time.ts 2-8 UNITS *)
definition UNITS :: "(nat \<times> nat \<times> string) list" where
  "UNITS = [(60000, 1000, ''s''), (3600000, 60000, ''m''), (86400000, 3600000, ''h''),
     (604800000, 86400000, ''d''), (2592000000, 604800000, ''w'')]"

fun first_unit :: "(nat \<times> nat \<times> string) list \<Rightarrow> nat \<Rightarrow> string option" where
  "first_unit [] delta = None"
| "first_unit ((limit, dv, sfx) # us) delta =
     (if delta < limit then Some (show_nat (delta div dv) @ sfx) else first_unit us delta)"

text \<open>\<open>time_of iso_text\<close> is \<open>new Date(iso_text).getTime()\<close>.\<close>

(* src lib/time.ts 10-22 relativeTime *)
definition relativeTime :: "(string \<Rightarrow> int option) \<Rightarrow> string option \<Rightarrow> int \<Rightarrow> string" where
  "relativeTime time_of iso_text now = (case iso_text of
     None \<Rightarrow> ''never''
   | Some s \<Rightarrow> if s = [] then ''never''
       else (case time_of s of
          None \<Rightarrow> [EM_DASH]
        | Some t \<Rightarrow>
            (let delta = nat \<bar>now - t\<bar>
             in if delta < 5000 then ''now''
                else (case first_unit UNITS delta of Some label \<Rightarrow> label
                  | None \<Rightarrow> show_nat (delta div 2592000000) @ ''mo''))))"

subsection \<open>Durations\<close>

text \<open>The double closest to \<open>ms / 1000\<close>, for \<open>1 \<le> ms / 1000 < 64\<close>, as an integer multiple
  of \<open>2 ^ - (52 - e)\<close>.\<close>

definition exponent_of :: "nat \<Rightarrow> nat" where
  "exponent_of ms = (if ms < 2000 then 0 else if ms < 4000 then 1 else if ms < 8000 then 2
     else if ms < 16000 then 3 else if ms < 32000 then 4 else 5)"

definition round_half_even :: "nat \<Rightarrow> nat \<Rightarrow> nat" where
  "round_half_even a b = (let q = a div b; r = a mod b
     in if 2 * r < b then q else if b < 2 * r then q + 1 else if even q then q else q + 1)"

definition double_seconds :: "nat \<Rightarrow> nat" where
  "double_seconds ms = round_half_even (ms * 2 ^ (52 - exponent_of ms)) 1000"

text \<open>\<open>toFixed(1)\<close> in tenths: the closest integer to ten times the double.\<close>

definition toFixed1 :: "nat \<Rightarrow> nat" where
  "toFixed1 ms = (20 * double_seconds ms + 2 ^ (52 - exponent_of ms)) div (2 * 2 ^ (52 - exponent_of ms))"

(* src lib/time.ts 24-32 durationLabel *)
definition durationLabel :: "nat option \<Rightarrow> string" where
  "durationLabel ms = (case ms of
     None \<Rightarrow> [EM_DASH]
   | Some n \<Rightarrow>
       if n < 1000 then show_nat n @ ''ms''
       else if n < 60000 then show_nat (toFixed1 n div 10) @ ''.'' @ show_nat (toFixed1 n mod 10) @ ''s''
       else (let m = n div 60000; s = (n mod 60000 + 500) div 1000
             in show_nat m @ ''m '' @ show_nat s @ ''s''))"

(* src lib/time.ts 34-38 clockTime *)
definition clockTime :: "(string \<Rightarrow> int option) \<Rightarrow> (int \<Rightarrow> string) \<Rightarrow> string \<Rightarrow> string" where
  "clockTime time_of toLocaleTimeString iso_text = (case time_of iso_text of None \<Rightarrow> [EM_DASH]
     | Some t \<Rightarrow> toLocaleTimeString t)"

(* src lib/time.ts 40-49 fullDate *)
definition fullDate :: "(string \<Rightarrow> int option) \<Rightarrow> (int \<Rightarrow> string) \<Rightarrow> string \<Rightarrow> string" where
  "fullDate time_of toLocaleString iso_text = (case time_of iso_text of None \<Rightarrow> [EM_DASH]
     | Some t \<Rightarrow> toLocaleString t)"

subsection \<open>Properties\<close>

definition unit_label :: "nat \<Rightarrow> string \<Rightarrow> string" where
  "unit_label n u = show_nat n @ u"

lemma unit_steps:
  "(case first_unit UNITS d of Some s \<Rightarrow> s | None \<Rightarrow> show_nat (d div 2592000000) @ ''mo'') =
     (if d < 60000 then unit_label (d div 1000) ''s'' else if d < 3600000 then unit_label (d div 60000) ''m''
      else if d < 86400000 then unit_label (d div 3600000) ''h'' else if d < 604800000 then unit_label (d div 86400000) ''d''
      else if d < 2592000000 then unit_label (d div 604800000) ''w'' else unit_label (d div 2592000000) ''mo'')"
  by (simp add: UNITS_def unit_label_def)

text \<open>
  A relative time names the largest unit that fits, with an amount in that unit's
  range: 5 to 59 seconds, 1 to 59 minutes, 1 to 23 hours, 1 to 6 days, 1 to 4 weeks or at least
  one month, whole units rounded down, the same for past and future times.
\<close>

theorem relativeTime_ranges:
  assumes "iso_text \<noteq> []" and "time_of iso_text = Some t" and "5000 \<le> \<bar>now - t\<bar>"
  shows "\<exists>n u. relativeTime time_of (Some iso_text) now = unit_label n u
    \<and> (u = ''s'' \<and> 5 \<le> n \<and> n \<le> 59 \<and> n = nat \<bar>now - t\<bar> div 1000
     \<or> u = ''m'' \<and> 1 \<le> n \<and> n \<le> 59 \<and> n = nat \<bar>now - t\<bar> div 60000
     \<or> u = ''h'' \<and> 1 \<le> n \<and> n \<le> 23 \<and> n = nat \<bar>now - t\<bar> div 3600000
     \<or> u = ''d'' \<and> 1 \<le> n \<and> n \<le> 6 \<and> n = nat \<bar>now - t\<bar> div 86400000
     \<or> u = ''w'' \<and> 1 \<le> n \<and> n \<le> 4 \<and> n = nat \<bar>now - t\<bar> div 604800000
     \<or> u = ''mo'' \<and> 1 \<le> n \<and> n = nat \<bar>now - t\<bar> div 2592000000)"
proof -
  define d where "d = nat \<bar>now - t\<bar>"
  have d: "5000 \<le> d" using assms(3) by (simp add: d_def)
  have eq: "relativeTime time_of (Some iso_text) now =
      (case first_unit UNITS d of Some s \<Rightarrow> s | None \<Rightarrow> show_nat (d div 2592000000) @ ''mo'')"
    using assms(1,2) d by (simp add: relativeTime_def d_def [symmetric] Let_def)
  consider "d < 60000" | "60000 \<le> d" "d < 3600000" | "3600000 \<le> d" "d < 86400000" | "86400000 \<le> d" "d < 604800000"
    | "604800000 \<le> d" "d < 2592000000" | "2592000000 \<le> d" by linarith
  then show ?thesis
  proof cases
    case 1
    then show ?thesis unfolding eq unit_steps d_def [symmetric]
      by (intro exI [of _ "d div 1000"] exI [of _ "''s''"]) (use d in auto)
  next
    case 2
    then show ?thesis unfolding eq unit_steps d_def [symmetric]
      by (intro exI [of _ "d div 60000"] exI [of _ "''m''"]) (use d in auto)
  next
    case 3
    then show ?thesis unfolding eq unit_steps d_def [symmetric]
      by (intro exI [of _ "d div 3600000"] exI [of _ "''h''"]) (use d in auto)
  next
    case 4
    then show ?thesis unfolding eq unit_steps d_def [symmetric]
      by (intro exI [of _ "d div 86400000"] exI [of _ "''d''"]) (use d in auto)
  next
    case 5
    then show ?thesis unfolding eq unit_steps d_def [symmetric]
      by (intro exI [of _ "d div 604800000"] exI [of _ "''w''"]) (use d in auto)
  next
    case 6
    then show ?thesis unfolding eq unit_steps d_def [symmetric]
      by (intro exI [of _ "d div 2592000000"] exI [of _ "''mo''"]) (use d in auto)
  qed
qed

lemma relativeTime_ranges_witness:
  "\<exists>n u. relativeTime (\<lambda>_. Some 0) (Some ''t'') 7200000 = unit_label n u"
  using relativeTime_ranges [of "''t''" "\<lambda>_. Some 0" 0 7200000] by fastforce

lemma round_half_even_close:
  assumes "0 < b"
  shows "2 * (round_half_even a b * b) \<le> 2 * a + b" and "2 * a \<le> 2 * (round_half_even a b * b) + b"
proof -
  have a: "a = a div b * b + a mod b" by simp
  have "2 * (round_half_even a b * b) \<le> 2 * a + b \<and> 2 * a \<le> 2 * (round_half_even a b * b) + b"
  proof (cases "round_half_even a b = a div b")
    case True
    then have "2 * (a mod b) \<le> b" by (auto simp: round_half_even_def Let_def split: if_splits)
    then show ?thesis unfolding True using a by linarith
  next
    case False
    then have "round_half_even a b = a div b + 1" "b \<le> 2 * (a mod b)"
      by (auto simp: round_half_even_def Let_def split: if_splits)
    moreover have "2 * a = 2 * (a div b * b) + 2 * (a mod b)" using a by linarith
    ultimately show ?thesis using mod_less_divisor [OF assms, of a] by (simp add: distrib_right)
  qed
  then show "2 * (round_half_even a b * b) \<le> 2 * a + b" "2 * a \<le> 2 * (round_half_even a b * b) + b" by auto
qed

lemma tenths_close:
  fixes K D n ms :: nat
  assumes "2000 * D \<le> 2 * (ms * K) + 1000" and "2 * (ms * K) \<le> 2000 * D + 1000"
    and "n = (20 * D + K) div (2 * K)" and "500 < K"
  shows "100 * n \<le> ms + 50" and "ms \<le> 100 * n + 50"
proof -
  have "0 < 2 * K" using assms(4) by simp
  then have n: "2 * K * n \<le> 20 * D + K" "20 * D + K < 2 * K * n + 2 * K"
    unfolding assms(3) using dividend_less_times_div [of "2 * K" "20 * D + K"]
      times_div_less_eq_dividend [of "2 * K" "20 * D + K"] by linarith+
  show "100 * n \<le> ms + 50"
  proof (rule ccontr)
    assume "\<not> 100 * n \<le> ms + 50"
    then have "2 * K * (ms + 51) \<le> 2 * K * (100 * n)" by (intro mult_left_mono) auto
    then show False using n(1) assms(1,4) by (simp add: algebra_simps)
  qed
  show "ms \<le> 100 * n + 50"
  proof (rule ccontr)
    assume "\<not> ms \<le> 100 * n + 50"
    then have "2 * K * (100 * n + 51) \<le> 2 * K * ms" by (intro mult_left_mono) auto
    then show False using n(2) assms(2,4) by (simp add: algebra_simps)
  qed
qed

lemma toFixed1_close: "100 * toFixed1 ms \<le> ms + 50" "ms \<le> 100 * toFixed1 ms + 50"
proof -
  have K: "(500 :: nat) < 2 ^ (52 - exponent_of ms)" by (simp add: exponent_of_def)
  have D: "2000 * double_seconds ms \<le> 2 * (ms * 2 ^ (52 - exponent_of ms)) + 1000"
    "2 * (ms * 2 ^ (52 - exponent_of ms)) \<le> 2000 * double_seconds ms + 1000"
    using round_half_even_close [of 1000 "ms * 2 ^ (52 - exponent_of ms)"] by (simp_all add: double_seconds_def)
  show "100 * toFixed1 ms \<le> ms + 50" "ms \<le> 100 * toFixed1 ms + 50"
    using tenths_close [OF D _ K] by (auto simp: toFixed1_def)
qed

text \<open>
  A duration is labelled with the closest value at its precision, in spite of the
  rounding to a double: below a second exact milliseconds, below a minute tenths of a second that
  are off by at most 50 ms, from a minute on minutes and whole seconds that are off by at most
  500 ms.
\<close>

theorem durationLabel_closest:
  "(ms < 1000 \<and> durationLabel (Some ms) = show_nat ms @ ''ms'')
   \<or> (1000 \<le> ms \<and> ms < 60000 \<and> (\<exists>n. durationLabel (Some ms) = show_nat (n div 10) @ ''.'' @ show_nat (n mod 10) @ ''s''
        \<and> 100 * n \<le> ms + 50 \<and> ms \<le> 100 * n + 50))
   \<or> (60000 \<le> ms \<and> (\<exists>m s. durationLabel (Some ms) = show_nat m @ ''m '' @ show_nat s @ ''s'' \<and> s \<le> 60
        \<and> 60000 * m + 1000 * s \<le> ms + 500 \<and> ms < 60000 * m + 1000 * s + 500))"
proof -
  consider "ms < 1000" | "1000 \<le> ms" "ms < 60000" | "60000 \<le> ms" by linarith
  then show ?thesis
  proof cases
    case 2
    then have "durationLabel (Some ms) = show_nat (toFixed1 ms div 10) @ ''.'' @ show_nat (toFixed1 ms mod 10) @ ''s''"
      by (simp add: durationLabel_def)
    with 2 toFixed1_close [of ms] show ?thesis by blast
  next
    case 3
    let ?m = "ms div 60000" and ?s = "(ms mod 60000 + 500) div 1000"
    have "durationLabel (Some ms) = show_nat ?m @ ''m '' @ show_nat ?s @ ''s''"
      using 3 by (simp add: durationLabel_def Let_def)
    moreover have "ms = 60000 * ?m + ms mod 60000" by simp
    moreover have "ms mod 60000 < 60000" by simp
    ultimately have "durationLabel (Some ms) = show_nat ?m @ ''m '' @ show_nat ?s @ ''s'' \<and> ?s \<le> 60
        \<and> 60000 * ?m + 1000 * ?s \<le> ms + 500 \<and> ms < 60000 * ?m + 1000 * ?s + 500"
      by (auto, linarith+)
    with 3 show ?thesis by blast
  qed (simp add: durationLabel_def)
qed

text \<open>The seconds of a label reach 60 when rounding up the last half second of a minute.\<close>

lemma durationLabel_sixty_seconds:
  "m \<ge> 1 \<Longrightarrow> 59500 \<le> r \<Longrightarrow> r < 60000 \<Longrightarrow> durationLabel (Some (60000 * m + r)) = show_nat m @ ''m '' @ show_nat 60 @ ''s''"
proof -
  assume "m \<ge> 1" "59500 \<le> r" "r < 60000"
  then have "(60000 * m + r) div 60000 = m" "(60000 * m + r) mod 60000 = r" "(r + 500) div 1000 = 60"
    "\<not> 60000 * m + r < 1000" "\<not> 60000 * m + r < 60000" by auto
  then show ?thesis by (simp add: durationLabel_def Let_def)
qed

end
