(* ===== verification/Comparators.thy ===== *)
theory Comparators
  imports Prelude "HOL-Library.Multiset"
begin

text \<open>
  The contract of a comparison function handed to \<open>Array.prototype.sort\<close>, as a locale:
  the sign is antisymmetric and "not above" is transitive, on the values it is asked about.
  What the client relies on is proved once here: \<open>a || b\<close> combines comparators
  lexicographically, and the (stable) sort of the language then returns a sorted
  permutation.
\<close>

text \<open>\<open>a || b\<close> on numbers.\<close>

definition or_else :: "int \<Rightarrow> int \<Rightarrow> int" where
  "or_else a b = (if a \<noteq> 0 then a else b)"

fun insert_by :: "('a \<Rightarrow> 'a \<Rightarrow> int) \<Rightarrow> 'a \<Rightarrow> 'a list \<Rightarrow> 'a list" where
  "insert_by cmp x [] = [x]"
| "insert_by cmp x (y # ys) = (if cmp x y \<le> 0 then x # y # ys else y # insert_by cmp x ys)"

text \<open>The stable sort of the language, for a consistent comparator.\<close>

fun sort_by :: "('a \<Rightarrow> 'a \<Rightarrow> int) \<Rightarrow> 'a list \<Rightarrow> 'a list" where
  "sort_by cmp [] = []"
| "sort_by cmp (x # xs) = insert_by cmp x (sort_by cmp xs)"

locale comparator =
  fixes cmp :: "'a \<Rightarrow> 'a \<Rightarrow> int" and valid :: "'a \<Rightarrow> bool"
  assumes swap: "valid x \<Longrightarrow> valid y \<Longrightarrow> sgn (cmp y x) = - sgn (cmp x y)"
    and trans_le: "valid x \<Longrightarrow> valid y \<Longrightarrow> valid z \<Longrightarrow> cmp x y \<le> 0 \<Longrightarrow> cmp y z \<le> 0 \<Longrightarrow> cmp x z \<le> 0"
begin

lemma swap_le: "valid x \<Longrightarrow> valid y \<Longrightarrow> cmp x y \<le> 0 \<or> cmp y x \<le> 0"
  using swap [of x y] by (auto simp: sgn_if split: if_splits)

lemma swap_lt: "valid x \<Longrightarrow> valid y \<Longrightarrow> (cmp y x < 0) = (0 < cmp x y)"
  using swap [of x y] by (auto simp: sgn_if split: if_splits)

lemma swap_eq: "valid x \<Longrightarrow> valid y \<Longrightarrow> (cmp y x = 0) = (cmp x y = 0)"
  using swap [of x y] by (auto simp: sgn_if split: if_splits)

lemma trans_eq: "valid x \<Longrightarrow> valid y \<Longrightarrow> valid z \<Longrightarrow> cmp x y = 0 \<Longrightarrow> cmp y z = 0 \<Longrightarrow> cmp x z = 0"
  using trans_le [of x y z] trans_le [of z y x] swap_eq [of x y] swap_eq [of y z] swap [of x z]
  by (auto simp: sgn_if split: if_splits)

lemma trans_lt_le: "valid x \<Longrightarrow> valid y \<Longrightarrow> valid z \<Longrightarrow> cmp x y < 0 \<Longrightarrow> cmp y z \<le> 0 \<Longrightarrow> cmp x z < 0"
  using trans_le [of y z x] swap_lt [of z x] swap_lt [of y x] by auto

lemma trans_le_lt: "valid x \<Longrightarrow> valid y \<Longrightarrow> valid z \<Longrightarrow> cmp x y \<le> 0 \<Longrightarrow> cmp y z < 0 \<Longrightarrow> cmp x z < 0"
  using trans_le [of z x y] swap_lt [of z x] swap_lt [of z y] by auto

lemma insert_by_set: "set (insert_by cmp x xs) = insert x (set xs)"
  by (induction xs) auto

lemma insert_by_sorted:
  "list_all valid (x # xs) \<Longrightarrow> sorted_wrt (\<lambda>a b. cmp a b \<le> 0) xs \<Longrightarrow>
     sorted_wrt (\<lambda>a b. cmp a b \<le> 0) (insert_by cmp x xs)"
proof (induction xs)
  case (Cons y ys)
  show ?case
  proof (cases "cmp x y \<le> 0")
    case True
    with Cons.prems show ?thesis by (auto simp: list_all_iff intro: trans_le [of x y])
  next
    case False
    with Cons.prems have "cmp y x \<le> 0" using swap_le [of x y] by simp
    with Cons False show ?thesis by (simp add: insert_by_set)
  qed
qed simp

lemma sort_by_set: "set (sort_by cmp xs) = set xs"
  by (induction xs) (auto simp: insert_by_set)

lemma sort_by_sorted: "list_all valid xs \<Longrightarrow> sorted_wrt (\<lambda>a b. cmp a b \<le> 0) (sort_by cmp xs)"
  by (induction xs) (auto simp: insert_by_sorted sort_by_set list_all_iff)

end

lemma insert_by_mset: "mset (insert_by cmp x xs) = add_mset x (mset xs)"
  by (induction xs) auto

lemma sort_by_mset: "mset (sort_by cmp xs) = mset xs"
  by (induction xs) (auto simp: insert_by_mset)

text \<open>Lexicographic combination: a second comparator decides where the first says 0.\<close>

locale comparator_pair = first: comparator cmp1 valid1 + second: comparator cmp2 valid2
  for cmp1 :: "'a \<Rightarrow> 'a \<Rightarrow> int" and valid1 and cmp2 :: "'a \<Rightarrow> 'a \<Rightarrow> int" and valid2
begin

sublocale both: comparator "\<lambda>x y. or_else (cmp1 x y) (cmp2 x y)" "\<lambda>x. valid1 x \<and> valid2 x"
proof (unfold_locales, goal_cases)
  case (1 x y)
  then show ?case
    using first.swap [of x y] first.swap_eq [of x y] second.swap [of x y] by (simp add: or_else_def)
next
  case (2 x y z)
  then have v: "valid1 x" "valid1 y" "valid1 z" "valid2 x" "valid2 y" "valid2 z" by auto
  show ?case
  proof (cases "cmp1 x y = 0 \<and> cmp1 y z = 0")
    case True
    with 2 v show ?thesis
      using first.trans_eq [of x y z] second.trans_le [of x y z] by (simp add: or_else_def)
  next
    case False
    with 2(4,5) have "cmp1 x y \<le> 0" "cmp1 y z \<le> 0" "cmp1 x y < 0 \<or> cmp1 y z < 0"
      by (auto simp: or_else_def split: if_splits)
    then have "cmp1 x z < 0"
      using v first.trans_lt_le [of x y z] first.trans_le_lt [of x y z] by blast
    then show ?thesis by (simp add: or_else_def)
  qed
qed

lemma both_comparator: "comparator (\<lambda>x y. or_else (cmp1 x y) (cmp2 x y)) (\<lambda>x. valid1 x \<and> valid2 x)"
  by (rule both.comparator_axioms)

end

text \<open>A comparator on a key is one on the values.\<close>

lemma comparator_key: "comparator cmp valid \<Longrightarrow> comparator (\<lambda>x y. cmp (f x) (f y)) (\<lambda>x. valid (f x))"
  unfolding comparator_def by blast

lemma comparator_nat_diff: "comparator (\<lambda>x y. int (f x) - int (f y)) (\<lambda>_. True)"
  by unfold_locales (auto simp: sgn_if)

lemma comparator_or_else:
  assumes "comparator cmp1 valid1" and "comparator cmp2 valid2"
  shows "comparator (\<lambda>x y. or_else (cmp1 x y) (cmp2 x y)) (\<lambda>x. valid1 x \<and> valid2 x)"
proof -
  from assms have "comparator_pair cmp1 valid1 cmp2 valid2" by (simp add: comparator_pair_def)
  then show ?thesis by (rule comparator_pair.both_comparator)
qed

end
