(* ===== verification/IpAddress.thy ===== *)
theory IpAddress
  imports Comparators
begin

text \<open>
  Addresses of the network discovery: parsing and ordering of IPv4 and IPv6 literals
  (\<open>features/discovery/candidates.ts\<close>) and the host budget of a scan's ranges
  (\<open>features/discovery/rangeBudget.ts\<close>), whose \<open>>>> 0\<close> arithmetic is 32-bit words.
  \<open>localeCompare\<close> is a parameter: its order is the host's collation.
\<close>

unbundle bit_operations_syntax

subsection \<open>Literals\<close>

(* src features/discovery/candidates.ts 40-40 parseIPv4 *)
definition octet_text :: "string \<Rightarrow> bool" where
  "octet_text part \<longleftrightarrow> 1 \<le> length part \<and> length part \<le> 3 \<and> list_all is_digit part"

(* src features/discovery/candidates.ts 38-44 parseIPv4 *)
definition parseIPv4 :: "string \<Rightarrow> nat option" where
  "parseIPv4 address =
     (let octets = split_on CHR ''.'' address
      in if length octets \<noteq> 4 \<or> list_ex (\<lambda>part. \<not> octet_text part) octets then None
         else (let values = map nat_of_digits octets
               in if list_ex (\<lambda>v. v > 255) values then None
                  else Some (foldl (\<lambda>result v. result * 256 + v) 0 values)))"

text \<open>\<open>value.split('::')\<close>: the leftmost, non-overlapping occurrences.\<close>

(* src features/discovery/candidates.ts 56-56 parseIPv6 *)
fun split_dcolon :: "string \<Rightarrow> string list" where
  "split_dcolon [] = [[]]"
| "split_dcolon [x] = [[x]]"
| "split_dcolon (x # y # xs) =
     (if x = CHR '':'' \<and> y = CHR '':'' then [] # split_dcolon xs
      else (case split_dcolon (y # xs) of [] \<Rightarrow> [[x]] | w # ws \<Rightarrow> (x # w) # ws))"

(* src features/discovery/candidates.ts 63-63 parseIPv6 *)
definition group_text :: "string \<Rightarrow> bool" where
  "group_text word \<longleftrightarrow> 1 \<le> length word \<and> length word \<le> 4 \<and> list_all is_hex word"

text \<open>An embedded IPv4 tail becomes its two 16-bit groups.\<close>

(* src features/discovery/candidates.ts 49-54 parseIPv6 *)
definition expand_ipv4_tail :: "string \<Rightarrow> string option" where
  "expand_ipv4_tail value =
     (if CHR ''.'' \<notin> set value then Some value
      else (let separator = (case last_index_upto CHR '':'' (length value) value of None \<Rightarrow> 0 | Some k \<Rightarrow> k)
            in case parseIPv4 (slice_from (separator + 1) value) of
                 None \<Rightarrow> None
               | Some ipv4 \<Rightarrow> Some (slice 0 separator value @ '':'' @ show_hex (ipv4 div 65536)
                   @ '':'' @ show_hex (ipv4 mod 65536))))"

text \<open>The eight groups, the omitted ones filled with zeros.\<close>

(* src features/discovery/candidates.ts 56-62 parseIPv6 *)
definition group_words :: "string \<Rightarrow> string list option" where
  "group_words value =
     (let halves = split_dcolon value
      in if length halves > 2 then None
         else (let lhs = (if halves ! 0 \<noteq> [] then split_on CHR '':'' (halves ! 0) else []);
                   rhs = (if length halves = 2 \<and> halves ! 1 \<noteq> [] then split_on CHR '':'' (halves ! 1) else []);
                   zeros = 8 - int (length lhs) - int (length rhs)
               in if (length halves = 1 \<and> zeros \<noteq> 0) \<or> (length halves = 2 \<and> zeros < 1) then None
                  else Some (lhs @ replicate (nat zeros) ''0'' @ rhs)))"

(* src features/discovery/candidates.ts 63-64 parseIPv6 *)
definition parse_groups :: "string \<Rightarrow> nat option" where
  "parse_groups value =
     (case group_words value of None \<Rightarrow> None
      | Some words \<Rightarrow> if list_ex (\<lambda>word. \<not> group_text word) words then None
          else Some (foldl (\<lambda>result word. result * 65536 + nat_of_hex word) 0 words))"

(* src features/discovery/candidates.ts 46-65 parseIPv6 *)
definition parseIPv6 :: "string \<Rightarrow> nat option" where
  "parseIPv6 address =
     (let value = hd (split_on CHR ''%'' address)
      in if CHR '':'' \<notin> set value then None
         else Option.bind (expand_ipv4_tail value) parse_groups)"

subsection \<open>Ordering\<close>

(* src features/discovery/candidates.ts 23-36 compareAddresses *)
definition compareAddresses :: "(string \<Rightarrow> string \<Rightarrow> int) \<Rightarrow> string \<Rightarrow> string \<Rightarrow> int" where
  "compareAddresses localeCompare a b =
     (case (parseIPv4 a, parseIPv4 b) of
        (Some left4, Some right4) \<Rightarrow> int left4 - int right4
      | (None, Some right4) \<Rightarrow> 1
      | (Some left4, None) \<Rightarrow> -1
      | (None, None) \<Rightarrow>
          (case (parseIPv6 a, parseIPv6 b) of
             (Some left6, Some right6) \<Rightarrow> (if left6 < right6 then -1 else if left6 > right6 then 1 else 0)
           | _ \<Rightarrow> localeCompare a b))"

definition ip_literal :: "string \<Rightarrow> bool" where
  "ip_literal a \<longleftrightarrow> parseIPv4 a \<noteq> None \<or> parseIPv6 a \<noteq> None"

text \<open>IPv4 literals come first, then IPv6 literals, each in numeric order.\<close>

definition ip_rank :: "string \<Rightarrow> int" where
  "ip_rank a = (case parseIPv4 a of Some n \<Rightarrow> int n - 2 ^ 32
     | None \<Rightarrow> (case parseIPv6 a of Some n \<Rightarrow> int n | None \<Rightarrow> 0))"

subsection \<open>Bounds of the literals\<close>

lemma digit_value_bound: "is_digit c \<Longrightarrow> digit_value c \<le> 9"
  unfolding is_digit_def in_range_def digit_value_def code_of_def
  by (simp add: le_diff_conv)

lemma hex_value_bound: "is_hex c \<Longrightarrow> hex_value c \<le> 15"
  by (auto simp: is_hex_def is_digit_def in_range_def hex_value_def code_of_def)

lemma foldl_base_bound:
  fixes f :: "'a \<Rightarrow> nat"
  assumes "\<forall>x \<in> set xs. f x < b" and "0 < b"
  shows "foldl (\<lambda>r x. r * b + f x) a xs < (a + 1) * b ^ length xs"
  using assms(1)
proof (induction xs arbitrary: a)
  case Nil
  then show ?case by simp
next
  case (Cons x xs)
  then have "foldl (\<lambda>r x. r * b + f x) (a * b + f x) xs < (a * b + f x + 1) * b ^ length xs"
    by simp
  also have "\<dots> \<le> (a * b + b) * b ^ length xs" using Cons.prems by (intro mult_right_mono) auto
  finally show ?case by (simp add: algebra_simps)
qed

lemma nat_of_hex_group: "group_text w \<Longrightarrow> nat_of_hex w < 65536"
proof -
  assume g: "group_text w"
  then have "\<forall>c \<in> set w. hex_value c < 16"
    using hex_value_bound by (fastforce simp: group_text_def list_all_iff)
  then have "nat_of_hex w < (0 + 1) * 16 ^ length w"
    unfolding nat_of_hex_def by (rule foldl_base_bound) simp
  also have "\<dots> \<le> 16 ^ 4" using g power_increasing [of "length w" 4 "16 :: nat"] by (simp add: group_text_def)
  finally show ?thesis by simp
qed

lemma parseIPv4_bound: "parseIPv4 a = Some n \<Longrightarrow> n < 2 ^ 32"
proof -
  assume a: "parseIPv4 a = Some n"
  let ?vs = "map nat_of_digits (split_on CHR ''.'' a)"
  from a have n: "n = foldl (\<lambda>r v. r * 256 + v) 0 ?vs" and len: "length ?vs = 4"
    and small: "\<forall>v \<in> set ?vs. v < 256"
    by (auto simp: parseIPv4_def Let_def list_ex_iff split: if_splits)
  have "foldl (\<lambda>r v. r * 256 + v) 0 ?vs < (0 + 1) * 256 ^ length ?vs"
    by (rule foldl_base_bound [where f = "\<lambda>v. v"]) (use small in auto)
  then show ?thesis using n len by simp
qed

lemma split_dcolon_ne: "split_dcolon v \<noteq> []"
  by (cases v rule: split_dcolon.cases) (auto split: list.splits)

lemma group_words_length: "group_words v = Some ws \<Longrightarrow> length ws = 8"
proof -
  assume w: "group_words v = Some ws"
  have "length (split_dcolon v) = 1 \<or> length (split_dcolon v) = 2 \<or> length (split_dcolon v) > 2"
    using split_dcolon_ne [of v] length_greater_0_conv [of "split_dcolon v"] by linarith
  with w show ?thesis unfolding group_words_def Let_def
    by (elim disjE) (auto split: if_splits)
qed

lemma parse_groups_bound: "parse_groups v = Some n \<Longrightarrow> n < 2 ^ 128"
proof -
  assume "parse_groups v = Some n"
  then obtain ws where ws: "group_words v = Some ws"
    and n: "n = foldl (\<lambda>r w. r * 65536 + nat_of_hex w) 0 ws" and ok: "\<forall>w \<in> set ws. group_text w"
    by (auto simp: parse_groups_def list_ex_iff split: option.splits if_splits)
  have "foldl (\<lambda>r w. r * 65536 + nat_of_hex w) 0 ws < (0 + 1) * 65536 ^ length ws"
    by (rule foldl_base_bound) (use ok nat_of_hex_group in auto)
  then show ?thesis using n group_words_length [OF ws] by simp
qed

lemma parseIPv6_bound: "parseIPv6 a = Some n \<Longrightarrow> n < 2 ^ 128"
  by (auto simp: parseIPv6_def Let_def bind_eq_Some_conv dest: parse_groups_bound split: if_splits)

lemma compareAddresses_rank:
  assumes "ip_literal a" and "ip_literal b"
  shows "sgn (compareAddresses lc a b) = sgn (ip_rank a - ip_rank b)"
  using assms parseIPv4_bound [of a] parseIPv4_bound [of b]
  by (auto simp: compareAddresses_def ip_rank_def ip_literal_def sgn_if split: option.splits)

subsection \<open>Reading back what was printed\<close>

definition dotted :: "nat list \<Rightarrow> string" where
  "dotted vs = join_with ''.'' (map show_nat vs)"

definition colons :: "nat list \<Rightarrow> string" where
  "colons ws = join_with '':'' (map show_hex ws)"

lemma show_nat_no_sep: "\<not> is_digit c \<Longrightarrow> c \<notin> set (show_nat n)"
  using show_nat_ok(2) [of n] by (auto simp: list_all_iff)

lemma show_hex_no_sep: "\<not> is_hex c \<Longrightarrow> c \<notin> set (show_hex n)"
  using show_hex_ok(2) [of n] by (auto simp: list_all_iff)

lemma seps_not_hex [simp]: "\<not> is_hex CHR '':''" "\<not> is_hex CHR ''.''" "\<not> is_hex CHR ''%''"
  "\<not> is_digit CHR ''.''" "\<not> is_digit CHR '':''"
  by (simp_all add: is_hex_code is_digit_code code_of_lit)

lemma parseIPv4_dotted:
  assumes "length vs = 4" and "\<forall>v \<in> set vs. v \<le> 255"
  shows "parseIPv4 (dotted vs) = Some (foldl (\<lambda>r v. r * 256 + v) 0 vs)"
proof -
  have split: "split_on CHR ''.'' (dotted vs) = map show_nat vs"
    unfolding dotted_def by (rule split_on_join) (use assms show_nat_no_sep in auto)
  have "octet_text (show_nat v)" if "v \<le> 255" for v
    using that show_nat_ok [of v] show_nat_length [of v 3] by (auto simp: octet_text_def Suc_le_eq)
  then show ?thesis
    using assms by (auto simp: parseIPv4_def split list_ex_iff o_def show_nat_ok(1))
qed

lemma show_hex_group: "w < 65536 \<Longrightarrow> group_text (show_hex w)"
  using show_hex_ok [of w] show_hex_length [of w 4] by (auto simp: group_text_def Suc_le_eq)

lemma split_dcolon_clean:
  "\<forall>w \<in> set ws. w \<noteq> [] \<and> CHR '':'' \<notin> set w \<Longrightarrow> split_dcolon (join_with '':'' ws) = [join_with '':'' ws]"
proof (induction "'':''" ws rule: join_with.induct)
  case (2 w)
  then have "CHR '':'' \<notin> set w" by simp
  then have "split_dcolon w = [w]" by (induction w rule: split_dcolon.induct) auto
  then show ?case by simp
next
  case (3 w v ws)
  let ?r = "join_with '':'' (v # ws)"
  from 3 have r: "split_dcolon ?r = [?r]" and free: "CHR '':'' \<notin> set w" and ne: "w \<noteq> []" by auto
  obtain x xs where rx: "?r = x # xs" "x \<noteq> CHR '':''"
    using 3(2) by (cases v; cases ws) auto
  have "split_dcolon (w @ CHR '':'' # ?r) = [w @ CHR '':'' # ?r]"
    using free ne
  proof (induction w rule: split_dcolon.induct)
    case (2 c)
    then show ?case using r rx by simp
  qed auto
  then show ?case by simp
qed simp

lemma split_dcolon_two:
  assumes "\<forall>w \<in> set ls. w \<noteq> [] \<and> CHR '':'' \<notin> set w" and "split_dcolon r = [r]"
  shows "split_dcolon (join_with '':'' ls @ ''::'' @ r) = [join_with '':'' ls, r]"
  using assms(1)
proof (induction "'':''" ls rule: join_with.induct)
  case 1
  then show ?case using assms(2) by simp
next
  case (2 w)
  then have "CHR '':'' \<notin> set w" "w \<noteq> []" by auto
  then have "split_dcolon (w @ ''::'' @ r) = [w, r]"
  proof (induction w rule: split_dcolon.induct)
    case (2 c)
    then show ?case using assms(2) by simp
  qed auto
  then show ?case by simp
next
  case (3 w v ws)
  let ?t = "join_with '':'' (v # ws)"
  from 3 have IH: "split_dcolon (?t @ ''::'' @ r) = [?t, r]" and free: "CHR '':'' \<notin> set w" and ne: "w \<noteq> []"
    by auto
  obtain x xs where tx: "?t = x # xs" "x \<noteq> CHR '':''"
    using 3(2) by (cases v; cases ws) auto
  have "split_dcolon (w @ CHR '':'' # ?t @ ''::'' @ r) = [w @ CHR '':'' # ?t, r]"
    using free ne
  proof (induction w rule: split_dcolon.induct)
    case (2 c)
    then show ?case using IH tx by simp
  qed auto
  then show ?case by simp
qed

lemma colons_free: "CHR ''.'' \<notin> set (colons ws)" "CHR ''%'' \<notin> set (colons ws)"
proof -
  have "set (colons ws) \<subseteq> {CHR '':''} \<union> \<Union> (set ` set (map show_hex ws))"
    unfolding colons_def using set_join_with [of "'':''" "map show_hex ws"] by simp
  moreover have "CHR ''.'' \<notin> \<Union> (set ` set (map show_hex ws))" "CHR ''%'' \<notin> \<Union> (set ` set (map show_hex ws))"
    using show_hex_no_sep by auto
  ultimately show "CHR ''.'' \<notin> set (colons ws)" "CHR ''%'' \<notin> set (colons ws)" by auto
qed

lemma split_colons: "ws \<noteq> [] \<Longrightarrow> split_on CHR '':'' (colons ws) = map show_hex ws"
  unfolding colons_def by (rule split_on_join) (use show_hex_no_sep in auto)

lemma colons_Nil_iff: "colons ws = [] \<longleftrightarrow> ws = []"
  using show_hex_ok(3) by (cases ws rule: list.exhaust; cases "tl ws") (auto simp: colons_def)

lemma parse_words:
  assumes "group_words v = Some (map show_hex ws)" and "\<forall>w \<in> set ws. w < 65536"
  shows "parse_groups v = Some (foldl (\<lambda>r w. r * 65536 + w) 0 ws)"
proof -
  have "foldl (\<lambda>r w. r * 65536 + nat_of_hex w) a (map show_hex ws) = foldl (\<lambda>r w. r * 65536 + w) a ws" for a
    by (induction ws arbitrary: a) (auto simp: show_hex_ok(1))
  then show ?thesis using assms show_hex_group by (auto simp: parse_groups_def list_ex_iff)
qed

lemma colons_sides: "\<forall>w \<in> set (map show_hex ws). w \<noteq> [] \<and> CHR '':'' \<notin> set w"
  using show_hex_no_sep show_hex_ok(3) by auto

lemma split_dcolon_colons: "split_dcolon (colons ws) = [colons ws]"
  unfolding colons_def by (rule split_dcolon_clean) (rule colons_sides)

lemma parseIPv6_plain:
  assumes "CHR '':'' \<in> set v" and "CHR ''.'' \<notin> set v" and "CHR ''%'' \<notin> set v"
  shows "parseIPv6 v = parse_groups v"
  using assms by (simp add: parseIPv6_def expand_ipv4_tail_def split_on_free)

lemma parseIPv6_full:
  assumes "length ws = 8" and "\<forall>w \<in> set ws. w < 65536"
  shows "parseIPv6 (colons ws) = Some (foldl (\<lambda>r w. r * 65536 + w) 0 ws)"
proof -
  have ne: "ws \<noteq> []" using assms(1) by auto
  have "group_words (colons ws) = Some (map show_hex ws)"
    using assms(1) ne by (simp add: group_words_def split_dcolon_colons split_colons colons_Nil_iff)
  moreover have "CHR '':'' \<in> set (colons ws)"
    using assms(1) by (cases ws; cases "tl ws") (auto simp: colons_def)
  ultimately show ?thesis using parse_words assms(2) parseIPv6_plain colons_free by simp
qed

lemma show_hex_0 [simp]: "show_hex 0 = ''0''"
  by code_simp

lemma parseIPv6_compressed:
  assumes "length ls + length rs < 8" and "\<forall>w \<in> set ls \<union> set rs. w < 65536"
  shows "parseIPv6 (colons ls @ ''::'' @ colons rs) =
    Some (foldl (\<lambda>r w. r * 65536 + w) 0 (ls @ replicate (8 - length ls - length rs) 0 @ rs))"
proof -
  let ?v = "colons ls @ ''::'' @ colons rs" and ?ws = "ls @ replicate (8 - length ls - length rs) 0 @ rs"
  have halves: "split_dcolon ?v = [colons ls, colons rs]"
    unfolding colons_def [of ls]
    by (rule split_dcolon_two) (rule colons_sides split_dcolon_colons)+
  have zeros: "nat (8 - int a) = 8 - a" "nat (8 - int a - int b) = 8 - a - b" for a b
    by arith+
  have "group_words ?v = Some (map show_hex ?ws)"
    unfolding group_words_def halves Let_def nth_Cons_0 nth_Cons_Suc One_nat_def
    using assms(1) by (cases "ls = []"; cases "rs = []") (simp_all add: split_colons colons_Nil_iff zeros)
  then have "parse_groups ?v = Some (foldl (\<lambda>r w. r * 65536 + w) 0 ?ws)"
    by (rule parse_words) (use assms(2) in auto)
  then show ?thesis using parseIPv6_plain [of ?v] colons_free [of ls] colons_free [of rs] by simp
qed


subsection \<open>The ordering meets the contract of a comparison\<close>

text \<open>On IP literals \<open>compareAddresses\<close> never asks \<open>localeCompare\<close>.\<close>

interpretation addr: comparator "compareAddresses lc" ip_literal for lc
proof (unfold_locales, goal_cases)
  case (1 x y)
  then show ?case
    using compareAddresses_rank [of x y lc] compareAddresses_rank [of y x lc]
    by (simp add: sgn_minus [symmetric])
next
  case (2 x y z)
  then show ?case
    using compareAddresses_rank [of x y lc] compareAddresses_rank [of y z lc] compareAddresses_rank [of x z lc]
    by (auto simp: sgn_if split: if_splits)
qed

lemma foldl_zeros: "foldl (\<lambda>r w. r * b + w) 0 (replicate n 0) = (0 :: nat)"
  by (induction n) auto

text \<open>
  Sorting IP literals with compareAddresses keeps exactly the given addresses and
  returns them ordered: every IPv4 literal before every IPv6 literal, IPv4 by 32-bit value,
  IPv6 by 128-bit value, whatever collation localeCompare implements.
\<close>

theorem compareAddresses_sorts:
  assumes "\<forall>a \<in> set xs. ip_literal a"
  shows "mset (sort_by (compareAddresses lc) xs) = mset xs
    \<and> sorted_wrt (\<lambda>a b. ip_rank a \<le> ip_rank b) (sort_by (compareAddresses lc) xs)"
proof -
  let ?s = "sort_by (compareAddresses lc) xs"
  have "sorted_wrt (\<lambda>a b. compareAddresses lc a b \<le> 0) ?s"
    by (rule addr.sort_by_sorted) (use assms in \<open>simp add: list_all_iff\<close>)
  then have "sorted_wrt (\<lambda>a b. ip_rank a \<le> ip_rank b) ?s"
  proof (rule sorted_wrt_mono_rel [rotated])
    fix a b
    assume "a \<in> set ?s" "b \<in> set ?s" "compareAddresses lc a b \<le> 0"
    then show "ip_rank a \<le> ip_rank b"
      using assms compareAddresses_rank [of a b lc] by (auto simp: addr.sort_by_set sgn_if split: if_splits)
  qed
  then show ?thesis by (simp add: sort_by_mset)
qed

lemma compareAddresses_sorts_witness:
  "sort_by (compareAddresses (\<lambda>_ _. 0)) [''::1'', ''0.0.0.9'', ''0.0.0.10''] =
     [''0.0.0.9'', ''0.0.0.10'', ''::1'']
   \<and> mset (sort_by (compareAddresses (\<lambda>_ _. 0)) [''::1'', ''0.0.0.9'', ''0.0.0.10'']) =
     mset [''::1'', ''0.0.0.9'', ''0.0.0.10'']"
proof
  show "sort_by (compareAddresses (\<lambda>_ _. 0)) [''::1'', ''0.0.0.9'', ''0.0.0.10''] =
     [''0.0.0.9'', ''0.0.0.10'', ''::1'']"
    by code_simp
  have "colons [] = []" "colons [1] = ''1''" by code_simp+
  then have "parseIPv6 ''::1'' = Some 1" using parseIPv6_compressed [of "[]" "[1]"] by (simp add: foldl_zeros)
  moreover have "parseIPv4 ''0.0.0.9'' = Some 9" "parseIPv4 ''0.0.0.10'' = Some 10"
    by code_simp+
  ultimately have "ip_literal ''::1'' \<and> ip_literal ''0.0.0.9'' \<and> ip_literal ''0.0.0.10''"
    by (simp add: ip_literal_def)
  then show "mset (sort_by (compareAddresses (\<lambda>_ _. 0)) [''::1'', ''0.0.0.9'', ''0.0.0.10'']) =
     mset [''::1'', ''0.0.0.9'', ''0.0.0.10'']"
    using compareAddresses_sorts [of "[''::1'', ''0.0.0.9'', ''0.0.0.10'']" "\<lambda>_ _. 0"] by simp
qed

text \<open>
  The two parsers read back every canonical text. A dotted quad has the value of its
  octets in base 256; eight hexadecimal groups, and groups with a '::' that stands for one or more
  zero groups, have the value of the full group list in base 65536.
\<close>

theorem address_roundtrip:
  assumes "length vs = 4" and "\<forall>v \<in> set vs. v \<le> 255"
    and "length ls + length rs \<le> 7" and "\<forall>w \<in> set ls \<union> set rs. w < 65536"
    and "length ws = 8" and "\<forall>w \<in> set ws. w < 65536"
  shows "parseIPv4 (dotted vs) = Some (foldl (\<lambda>r v. r * 256 + v) 0 vs)
    \<and> parseIPv6 (colons ws) = Some (foldl (\<lambda>r w. r * 65536 + w) 0 ws)
    \<and> parseIPv6 (colons ls @ ''::'' @ colons rs) =
        Some (foldl (\<lambda>r w. r * 65536 + w) 0 (ls @ replicate (8 - length ls - length rs) 0 @ rs))"
  using assms parseIPv4_dotted parseIPv6_full parseIPv6_compressed [of ls rs] by auto

lemma address_roundtrip_witness:
  "parseIPv4 (dotted [10, 0, 0, 1]) = Some (foldl (\<lambda>r v. r * 256 + v) 0 [10, 0, 0, 1])
    \<and> parseIPv6 (colons [1, 2, 3, 4, 5, 6, 7, 8]) = Some (foldl (\<lambda>r w. r * 65536 + w) 0 [1, 2, 3, 4, 5, 6, 7, 8])
    \<and> parseIPv6 (colons [65152] @ ''::'' @ colons [1]) =
        Some (foldl (\<lambda>r w. r * 65536 + w) 0 ([65152] @ replicate (8 - length [65152 :: nat] - length [1 :: nat]) 0 @ [1]))"
  by (rule address_roundtrip) auto

subsection \<open>The host budget of the scanned ranges\<close>

(* src features/discovery/rangeBudget.ts 1-1 MAX_ADDRESSES *)
definition MAX_ADDRESSES :: int where "MAX_ADDRESSES = 1024"

(* src features/discovery/rangeBudget.ts 3-8 PRIVATE_BLOCKS *)
definition PRIVATE_BLOCKS :: "(32 word \<times> nat) list" where
  "PRIVATE_BLOCKS = [(0x0a000000, 8), (0xac100000, 12), (0xc0a80000, 16), (0x64400000, 10)]"

(* src features/discovery/rangeBudget.ts 10-16 parseIPv4 *)
definition rangeIPv4 :: "string \<Rightarrow> 32 word option" where
  "rangeIPv4 value =
     (let octets = split_on CHR ''.'' value
      in if length octets \<noteq> 4 \<or> list_ex (\<lambda>part. \<not> octet_text part) octets then None
         else (let numbers = map nat_of_digits octets
               in if list_ex (\<lambda>part. part > 255) numbers then None
                  else Some (foldl (\<lambda>result part. result * 256 + word_of_nat part) 0 numbers)))"

(* src features/discovery/rangeBudget.ts 29-29 countRangeHosts *)
definition prefix_mask :: "nat \<Rightarrow> 32 word" where
  "prefix_mask bits = push_bit (32 - bits) 0xffffffff"

(* src features/discovery/rangeBudget.ts 32-35 countRangeHosts *)
definition in_private :: "32 word \<Rightarrow> 32 word \<Rightarrow> bool" where
  "in_private network last_ip = list_ex (\<lambda>(block, bits).
     network AND prefix_mask bits = block \<and> last_ip AND prefix_mask bits = block) PRIVATE_BLOCKS"

(* src features/discovery/rangeBudget.ts 22-26 countRangeHosts *)
definition parse_range :: "string \<Rightarrow> (32 word \<times> nat) option" where
  "parse_range chip =
     (case split_on CHR ''/'' chip of
        [address, prefixText] \<Rightarrow>
          if \<not> (1 \<le> length prefixText \<and> length prefixText \<le> 2 \<and> list_all is_digit prefixText) then None
          else (let plen = nat_of_digits prefixText
                in case rangeIPv4 address of None \<Rightarrow> None
                   | Some ip \<Rightarrow> if plen < 22 \<or> plen > 32 then None else Some (ip, plen))
      | _ \<Rightarrow> None)"

text \<open>The hosts of one chip; the loop counts in numbers, not in words.\<close>

(* src features/discovery/rangeBudget.ts 21-41 countRangeHosts *)
definition range_hosts :: "string \<Rightarrow> 32 word list" where
  "range_hosts chip =
     (case parse_range chip of None \<Rightarrow> []
      | Some (ip, plen) \<Rightarrow>
          (let mask = prefix_mask plen;
               network = ip AND mask;
               last_ip = network OR NOT mask
           in if \<not> in_private network last_ip then []
              else (let first = (if plen \<le> 30 then unat network + 1 else unat network);
                        final = (if plen \<le> 30 then unat last_ip - 1 else unat last_ip)
                    in map word_of_nat [first ..< Suc final])))"

(* src features/discovery/rangeBudget.ts 19-43 countRangeHosts *)
definition countRangeHosts :: "string list \<Rightarrow> nat" where
  "countRangeHosts ranges =
     length (foldl (\<lambda>hosts chip. foldl (\<lambda>hosts h. List.insert h hosts) hosts (range_hosts chip)) [] ranges)"

record budget =
  rangeHosts :: int
  inventoryHosts :: int
  used_hosts :: int
  skippedInventory :: int

(* src features/discovery/rangeBudget.ts 45-56 calculateRangeBudget *)
definition calculateRangeBudget :: "string list \<Rightarrow> int \<Rightarrow> bool \<Rightarrow> budget" where
  "calculateRangeBudget ranges knownHosts includeInventory =
     (let rh = int (countRangeHosts ranges);
          ih = (if includeInventory then min (max 0 knownHosts) (max 0 (MAX_ADDRESSES - rh)) else 0)
      in \<lparr>rangeHosts = rh, inventoryHosts = ih, used_hosts = rh + ih,
          skippedInventory = (if includeInventory then max 0 (knownHosts - ih) else 0)\<rparr>)"


text \<open>
  The specification of a usable host: it shares the chip's prefix, lies in a private block and,
  for prefixes up to 30, is neither the network nor the broadcast address.
\<close>

definition same_prefix :: "nat \<Rightarrow> 32 word \<Rightarrow> 32 word \<Rightarrow> bool" where
  "same_prefix bits a b \<longleftrightarrow> drop_bit (32 - bits) a = drop_bit (32 - bits) b"

definition usable_host :: "string \<Rightarrow> 32 word \<Rightarrow> bool" where
  "usable_host chip h \<longleftrightarrow> (case parse_range chip of None \<Rightarrow> False
     | Some (ip, plen) \<Rightarrow> same_prefix plen h ip
         \<and> list_ex (\<lambda>(block, bits). same_prefix bits h block) PRIVATE_BLOCKS
         \<and> (plen \<le> 30 \<longrightarrow> take_bit (32 - plen) h \<noteq> 0 \<and> take_bit (32 - plen) h \<noteq> mask (32 - plen)))"

lemma prefix_mask_not: "prefix_mask bits = NOT (mask (32 - bits))"
proof -
  have "(0xffffffff :: 32 word) = - 1" by simp
  then show ?thesis by (simp only: prefix_mask_def push_bit_minus_one_eq_not_mask)
qed

lemma and_prefix_mask: "a AND prefix_mask bits = push_bit (32 - bits) (drop_bit (32 - bits) a)"
  unfolding prefix_mask_not by (rule bit_word_eqI) (auto simp: bit_simps)

lemma unat_drop: "unat (drop_bit n a) = unat a div 2 ^ n"
  by (simp only: unat_drop_bit_eq drop_bit_eq_div [where 'a = nat])

lemma unat_network: "unat (a AND prefix_mask bits) = 2 ^ (32 - bits) * (unat a div 2 ^ (32 - bits))"
proof -
  have "2 ^ (32 - bits) * (unat a div 2 ^ (32 - bits)) \<le> unat a" by simp
  moreover have "unat a < 2 ^ LENGTH(32)" by (rule unsigned_less)
  ultimately have "2 ^ (32 - bits) * (unat a div 2 ^ (32 - bits)) < 2 ^ LENGTH(32)" by linarith
  then show ?thesis
    by (simp only: and_prefix_mask unsigned_push_bit_eq unat_drop push_bit_eq_mult [where 'a = nat] take_bit_eq_mod
        mult.commute [of "unat a div _"] mod_less)
qed

lemma unat_mask32: "k \<le> 32 \<Longrightarrow> unat (mask k :: 32 word) = 2 ^ k - 1"
proof -
  assume "k \<le> 32"
  then have "unat (mask k :: 32 word) = mask k"
    by (intro bit_eqI) (auto simp: bit_simps)
  then show ?thesis by (simp add: mask_eq_exp_minus_1)
qed

lemma unat_broadcast:
  "unat (a AND prefix_mask bits OR NOT (prefix_mask bits)) = unat (a AND prefix_mask bits) + (2 ^ (32 - bits) - 1)"
proof -
  have "(a AND prefix_mask bits) AND mask (32 - bits) = 0"
    unfolding prefix_mask_not by (rule bit_word_eqI) (auto simp: bit_simps)
  then have "unat (a AND prefix_mask bits) AND unat (mask (32 - bits) :: 32 word) = 0"
    using unsigned_and_eq [of "a AND prefix_mask bits" "mask (32 - bits)", where 'a = nat] by simp
  then have "unat (a AND prefix_mask bits) + unat (mask (32 - bits) :: 32 word) =
      unat (a AND prefix_mask bits) OR unat (mask (32 - bits) :: 32 word)"
    by (rule disjunctive_add_eq_or)
  moreover have "NOT (prefix_mask bits) = mask (32 - bits)" by (simp add: prefix_mask_not)
  ultimately show ?thesis
    by (simp only: unsigned_or_eq unat_mask32 [of "32 - bits"] diff_le_self)
qed

lemma same_prefix_unat: "same_prefix bits a b \<longleftrightarrow> unat a div 2 ^ (32 - bits) = unat b div 2 ^ (32 - bits)"
  by (simp only: same_prefix_def word_unat_eq_iff unat_drop)

lemma same_prefix_and: "same_prefix bits a b \<longleftrightarrow> a AND prefix_mask bits = b AND prefix_mask bits"
  by (simp only: same_prefix_unat word_unat_eq_iff unat_network) simp

lemma same_prefix_bits: "same_prefix q a b \<longleftrightarrow> (\<forall>n. 32 - q \<le> n \<longrightarrow> n < 32 \<longrightarrow> bit a n = bit b n)"
proof
  assume s: "same_prefix q a b"
  have "bit a n = bit b n" if "32 - q \<le> n" for n
    using arg_cong [OF s [unfolded same_prefix_def], of "\<lambda>w. bit w (n - (32 - q))"] that
    by (simp add: bit_drop_bit_eq)
  then show "\<forall>n. 32 - q \<le> n \<longrightarrow> n < 32 \<longrightarrow> bit a n = bit b n" by blast
next
  assume "\<forall>n. 32 - q \<le> n \<longrightarrow> n < 32 \<longrightarrow> bit a n = bit b n"
  moreover have "\<not> bit w n" if "32 \<le> n" for n and w :: "32 word"
    using that bit_imp_le_length [of w n] by auto
  ultimately have "bit a (32 - q + n) = bit b (32 - q + n)" for n
    by (cases "32 - q + n < 32") (auto simp: not_less)
  then show "same_prefix q a b"
    unfolding same_prefix_def by (intro bit_eqI) (simp add: bit_drop_bit_eq)
qed

lemma same_prefix_mono: "same_prefix p a b \<Longrightarrow> q \<le> p \<Longrightarrow> same_prefix q a b"
  unfolding same_prefix_bits by (meson diff_le_mono2 le_trans)

lemma in_private_prefix:
  assumes "same_prefix p h ip" and "16 \<le> p"
  shows "in_private (ip AND prefix_mask p) (ip AND prefix_mask p OR NOT (prefix_mask p)) =
    list_ex (\<lambda>(block, bits). same_prefix bits h block) PRIVATE_BLOCKS"
proof -
  let ?n = "ip AND prefix_mask p" and ?e = "ip AND prefix_mask p OR NOT (prefix_mask p)"
  have "same_prefix p ?n ip" "same_prefix p ?e ip"
    unfolding same_prefix_bits prefix_mask_not by (auto simp: bit_simps)
  then have hn: "same_prefix p ?n h" "same_prefix p ?e h" using assms(1) by (auto simp: same_prefix_def)
  have "(?n AND prefix_mask bits = block \<and> ?e AND prefix_mask bits = block) = same_prefix bits h block"
    if "(block, bits) \<in> set PRIVATE_BLOCKS" for block bits
  proof -
    have b: "bits \<le> p" "block AND prefix_mask bits = block"
      using that assms(2) by (auto simp: PRIVATE_BLOCKS_def prefix_mask_def)
    then have "same_prefix bits ?n h" "same_prefix bits ?e h" using hn same_prefix_mono by blast+
    then show ?thesis using b(2) by (auto simp: same_prefix_and)
  qed
  then show ?thesis unfolding in_private_def by (auto simp: list_ex_iff)
qed

lemma word_upt: "h \<in> set (map word_of_nat [a ..< Suc b]) \<longleftrightarrow> a \<le> unat h \<and> unat h \<le> b"
  if "b < 2 ^ 32" for h :: "32 word"
proof
  assume "h \<in> set (map word_of_nat [a ..< Suc b])"
  then obtain n where "h = word_of_nat n" "a \<le> n" "n \<le> b" by auto
  then show "a \<le> unat h \<and> unat h \<le> b" using that by (simp add: unat_of_nat)
next
  assume "a \<le> unat h \<and> unat h \<le> b"
  then have "h = word_of_nat (unat h)" "unat h \<in> set [a ..< Suc b]" by auto
  then show "h \<in> set (map word_of_nat [a ..< Suc b])" by (metis image_eqI set_map)
qed

lemma div_interval: "0 < m \<Longrightarrow> m * q \<le> x \<and> x \<le> m * q + (m - 1) \<longleftrightarrow> x div m = q" for m q x :: nat
proof
  assume m: "0 < m" and "m * q \<le> x \<and> x \<le> m * q + (m - 1)"
  then have "m * q \<le> x" "x < m * Suc q" by (auto simp: algebra_simps)
  then show "x div m = q" by (rule div_nat_eqI)
next
  assume m: "0 < m" and q: "x div m = q"
  have "x = m * q + x mod m" using q by auto
  moreover have "x mod m \<le> m - 1" using m mod_less_divisor [of m x] by linarith
  ultimately show "m * q \<le> x \<and> x \<le> m * q + (m - 1)" by linarith
qed

lemma range_hosts_Some:
  assumes "parse_range chip = Some (ip, plen)"
  shows "set (range_hosts chip) = Collect (usable_host chip)"
proof -
  let ?k = "32 - plen" and ?net = "ip AND prefix_mask plen"
  let ?last = "?net OR NOT (prefix_mask plen)"
  have p: "22 \<le> plen" "plen \<le> 32"
    using assms by (auto simp: parse_range_def Let_def split: list.splits option.splits if_splits)
  have last: "unat ?last = unat ?net + (2 ^ ?k - 1)" by (rule unat_broadcast)
  have lt: "unat ?last < 2 ^ 32" using unsigned_less [of ?last] by simp
  have in_net: "unat ?net \<le> unat h \<and> unat h \<le> unat ?last \<longleftrightarrow> same_prefix plen h ip" for h
    unfolding last unat_network same_prefix_unat by (rule div_interval) simp
  have ends: "(h = ?net) = (take_bit ?k h = 0)" "(h = ?last) = (take_bit ?k h = mask ?k)"
    if "same_prefix plen h ip" for h
    using that p unfolding same_prefix_bits prefix_mask_not bit_eq_iff [where 'a = "32 word"]
    by (auto simp: bit_simps)
  let ?lo = "if plen \<le> 30 then unat ?net + 1 else unat ?net"
  let ?hi = "if plen \<le> 30 then unat ?last - 1 else unat ?last"
  have run: "?lo \<le> unat h \<and> unat h \<le> ?hi \<longleftrightarrow> same_prefix plen h ip
      \<and> (plen \<le> 30 \<longrightarrow> take_bit ?k h \<noteq> 0 \<and> take_bit ?k h \<noteq> mask ?k)" for h
  proof (cases "same_prefix plen h ip")
    case True
    then have "unat h = unat ?net \<longleftrightarrow> take_bit ?k h = 0" "unat h = unat ?last \<longleftrightarrow> take_bit ?k h = mask ?k"
      using ends by (simp_all flip: word_unat_eq_iff)
    with True in_net [of h] show ?thesis by auto
  qed (use in_net [of h] last in \<open>auto split: if_splits\<close>)
  have hi: "?hi < 2 ^ 32" using lt by auto
  show ?thesis
  proof (cases "in_private ?net ?last")
    case True
    have "h \<in> set (range_hosts chip) \<longleftrightarrow> ?lo \<le> unat h \<and> unat h \<le> ?hi" for h
      unfolding range_hosts_def assms using True word_upt [OF hi, of h ?lo] by (simp add: Let_def)
    then show ?thesis
      using True assms p in_private_prefix [of plen _ ip] by (auto simp: usable_host_def run)
  next
    case False
    then show ?thesis
      using assms p in_private_prefix [of plen _ ip] by (auto simp: usable_host_def range_hosts_def)
  qed
qed


lemma range_hosts_set: "set (range_hosts chip) = Collect (usable_host chip)"
proof (cases "parse_range chip")
  case None
  then show ?thesis by (simp add: range_hosts_def usable_host_def)
next
  case (Some r)
  then show ?thesis using range_hosts_Some by (cases r) auto
qed

lemma foldl_insert: "distinct hs \<Longrightarrow> distinct (foldl (\<lambda>hs h. List.insert h hs) hs xs)
    \<and> set (foldl (\<lambda>hs h. List.insert h hs) hs xs) = set hs \<union> set xs"
  by (induction xs arbitrary: hs) (auto simp: distinct_insert)

lemma foldl_range_hosts: "distinct hs \<Longrightarrow>
    distinct (foldl (\<lambda>hs chip. foldl (\<lambda>hs h. List.insert h hs) hs (range_hosts chip)) hs chips)
    \<and> set (foldl (\<lambda>hs chip. foldl (\<lambda>hs h. List.insert h hs) hs (range_hosts chip)) hs chips)
        = set hs \<union> {h. \<exists>chip \<in> set chips. usable_host chip h}"
  by (induction chips arbitrary: hs) (auto simp: foldl_insert range_hosts_set)

text \<open>
  countRangeHosts counts exactly the distinct usable hosts of the chips: the 32-bit
  addresses that share the prefix (22 to 32) of some well-formed chip inside a private block and
  are neither its network nor its broadcast address when the prefix is at most 30. Overlapping
  chips are not counted twice, malformed chips count nothing.
\<close>

theorem countRangeHosts_exact:
  "countRangeHosts ranges = card {h. \<exists>chip \<in> set ranges. usable_host chip h}"
  using foldl_range_hosts [of "[]" ranges] distinct_card
  unfolding countRangeHosts_def by (metis (no_types, lifting) distinct.simps(1) list.set(1) sup_bot_left)

text \<open>
  The scan budget is respected: ranges that fit in the 1024 addresses are never pushed
  over it by inventory hosts, every known host is either included or reported as skipped, and
  hosts are skipped only when the budget is full.
\<close>

theorem calculateRangeBudget_bounds:
  "let b = calculateRangeBudget ranges known True in
    used_hosts b = rangeHosts b + inventoryHosts b
    \<and> used_hosts b \<le> max MAX_ADDRESSES (rangeHosts b)
    \<and> inventoryHosts b \<ge> 0 \<and> inventoryHosts b + skippedInventory b = max 0 known
    \<and> (skippedInventory b = 0 \<or> used_hosts b = max MAX_ADDRESSES (rangeHosts b))"
  unfolding calculateRangeBudget_def MAX_ADDRESSES_def Let_def by auto

end
