(* ===== verification/Discovery.thy ===== *)
theory Discovery
  imports IpAddress
begin

text \<open>
  The network discovery scan as the client sees it: the wire types, the keys and the ordering of
  candidates (\<open>features/discovery/candidates.ts\<close>), and the store fed by \<open>discovery.*\<close> frames
  (\<open>store/discovery.ts\<close>). The lemmas show what frames can do to a scan: the candidates stay
  distinct, progress never goes back, an ended scan stays ended, and only \<open>markConnected\<close> sets
  connector ids.
\<close>

subsection \<open>Wire types\<close>

(* src api/model/discoverySource.ts 10-16 DiscoverySource *)
datatype discovery_source = Source_range | Source_inventory | Source_passive

(* src api/model/discoveryAddOn.ts 10-17 DiscoveryAddOn *)
record discovery_addOn =
  ao_type :: string
  ao_url :: string
  ao_connectorId :: "string option"

(* src api/model/discoveryCandidate.ts 15-31 DiscoveryCandidate *)
record discovery_candidate =
  c_type :: string
  c_name :: string
  c_address :: string
  c_port :: nat
  c_url :: string
  c_urlField :: string
  c_source :: "discovery_source option"
  c_addOns :: "discovery_addOn list option"
  c_connectorId :: "string option"

(* src api/model/discoveryTLSTarget.ts 11-18 DiscoveryTLSTarget *)
record tls_target =
  t_address :: string
  t_port :: nat
  t_source :: discovery_source
  t_monitoredBy :: "string option"

(* src api/model/discoveryScanState.ts 10-17 DiscoveryScanState *)
datatype scan_state = Running | Completed | Cancelled | Failed

(* src api/model/discoveryCompleteEventState.ts 10-17 DiscoveryCompleteEventState *)
datatype complete_state = End_completed | End_cancelled | End_failed

fun end_state :: "complete_state \<Rightarrow> scan_state" where
  "end_state End_completed = Completed"
| "end_state End_cancelled = Cancelled"
| "end_state End_failed = Failed"

(* src api/model/discoveryScan.ts 18-44 DiscoveryScan *)
record discovery_scan =
  sc_id :: string
  sc_cidr :: string
  sc_ranges :: "string list option"
  sc_includeInventory :: "bool option"
  sc_askNetwork :: "bool option"
  sc_state :: scan_state
  sc_startedAt :: string
  sc_endedAt :: "string option"
  sc_done :: int
  sc_total :: int
  sc_answered :: int
  sc_partial :: bool
  sc_candidates :: "discovery_candidate list"
  sc_sources :: "(int \<times> int \<times> int) option"
  sc_skipped :: "(int \<times> int) option"
  sc_passiveAnswered :: "int option"
  sc_tlsTargets :: "tls_target list option"

(* src api/model/discoveryProgressEvent.ts 13-18 DiscoveryProgressEvent *)
record progress_event =
  pe_scanId :: string
  pe_done :: int
  pe_total :: int
  pe_answered :: int

(* src api/model/discoveryCandidateEvent.ts 14-17 DiscoveryCandidateEvent *)
record candidate_event =
  ce_scanId :: string
  ce_candidate :: discovery_candidate

(* src api/model/discoveryCompleteEvent.ts 14-19 DiscoveryCompleteEvent *)
record complete_event =
  xe_scanId :: string
  xe_state :: complete_state
  xe_partial :: bool

text \<open>What was saved through the queue: exactly one of the three.\<close>

(* src store/discovery.ts 19-23 DiscoveryConnection *)
datatype discovery_connection =
    Conn_candidate (conn_id: string) discovery_candidate
  | Conn_addOn (conn_id: string) discovery_addOn
  | Conn_tls (conn_id: string) "tls_target list"

subsection \<open>Keys, labels and the ordering of candidates\<close>

(* src features/discovery/candidates.ts 3-4 candidateKey *)
definition candidateKey :: "discovery_candidate \<Rightarrow> string" where
  "candidateKey c = c_type c @ ''|'' @ c_address c @ ''|'' @ show_nat (c_port c)"

(* src features/discovery/candidates.ts 6-7 addOnKey *)
definition addOnKey :: "discovery_candidate \<Rightarrow> discovery_addOn \<Rightarrow> string" where
  "addOnKey c addOn = candidateKey c @ ''|'' @ ao_type addOn @ ''|'' @ ao_url addOn"

(* src features/discovery/candidates.ts 9-11 endpointLabel *)
definition endpointLabel :: "string \<Rightarrow> nat \<Rightarrow> string" where
  "endpointLabel address port =
     (if CHR '':'' \<in> set address then ''['' @ address @ '']'' else address) @ '':'' @ show_nat port"

(* src features/discovery/candidates.ts 13-13 targetKey *)
definition targetKey :: "string \<Rightarrow> nat \<Rightarrow> string" where
  "targetKey address port = address @ ''|'' @ show_nat port"

(* src features/discovery/candidates.ts 15-18 byAddress *)
definition byAddress :: "(string \<Rightarrow> string \<Rightarrow> int) \<Rightarrow> discovery_candidate \<Rightarrow> discovery_candidate \<Rightarrow> int" where
  "byAddress localeCompare a b =
     or_else (or_else (compareAddresses localeCompare (c_address a) (c_address b))
                      (int (c_port a) - int (c_port b)))
             (localeCompare (c_type a) (c_type b))"

(* src features/discovery/candidates.ts 20-21 candidateSource *)
definition candidateSource :: "discovery_candidate \<Rightarrow> discovery_source" where
  "candidateSource candidate = from_opt Source_range (c_source candidate)"

subsection \<open>The scan store\<close>

type_synonym discovery_store = "discovery_scan option"

(* src store/discovery.ts 37-38 sameCandidate *)
definition sameCandidate :: "discovery_candidate \<Rightarrow> discovery_candidate \<Rightarrow> bool" where
  "sameCandidate a b \<longleftrightarrow> c_type a = c_type b \<and> c_address a = c_address b \<and> c_port a = c_port b"

(* src store/discovery.ts 42-42 setScan *)
definition setScan :: "discovery_scan option \<Rightarrow> discovery_store \<Rightarrow> discovery_store" where
  "setScan scan s = scan"

text \<open>The guard every frame handler starts with.\<close>

(* src store/discovery.ts 45-45 applyProgress *)
definition on_running :: "string \<Rightarrow> (discovery_scan \<Rightarrow> discovery_scan) \<Rightarrow> discovery_store \<Rightarrow> discovery_store" where
  "on_running scanId f s = (case s of None \<Rightarrow> s
     | Some scan \<Rightarrow> if sc_id scan \<noteq> scanId \<or> sc_state scan \<noteq> Running then s else Some (f scan))"

(* src store/discovery.ts 43-55 applyProgress *)
definition applyProgress :: "progress_event \<Rightarrow> discovery_store \<Rightarrow> discovery_store" where
  "applyProgress e = on_running (pe_scanId e) (\<lambda>scan. scan\<lparr>
     sc_done := max (sc_done scan) (pe_done e),
     sc_total := pe_total e,
     sc_answered := max (sc_answered scan) (pe_answered e)\<rparr>)"

(* src store/discovery.ts 56-61 applyCandidate *)
definition applyCandidate :: "candidate_event \<Rightarrow> discovery_store \<Rightarrow> discovery_store" where
  "applyCandidate e = on_running (ce_scanId e) (\<lambda>scan.
     if list_ex (\<lambda>c. sameCandidate c (ce_candidate e)) (sc_candidates scan) then scan
     else scan\<lparr>sc_candidates := sc_candidates scan @ [ce_candidate e]\<rparr>)"

text \<open>\<open>now\<close> is the clock's \<open>toISOString()\<close> at the time of the frame.\<close>

(* src store/discovery.ts 62-74 applyComplete *)
definition applyComplete :: "string \<Rightarrow> complete_event \<Rightarrow> discovery_store \<Rightarrow> discovery_store" where
  "applyComplete now e = on_running (xe_scanId e) (\<lambda>scan. scan\<lparr>
     sc_state := end_state (xe_state e),
     sc_partial := xe_partial e,
     sc_endedAt := (case sc_endedAt scan of None \<Rightarrow> Some now | Some t \<Rightarrow> Some t)\<rparr>)"

fun hits_candidate :: "discovery_candidate \<Rightarrow> discovery_connection \<Rightarrow> bool" where
  "hits_candidate c (Conn_candidate i x) = sameCandidate x c"
| "hits_candidate c _ = False"

fun hits_addOn :: "discovery_addOn \<Rightarrow> discovery_connection \<Rightarrow> bool" where
  "hits_addOn a (Conn_addOn i x) = (ao_type x = ao_type a \<and> ao_url x = ao_url a)"
| "hits_addOn a _ = False"

fun hits_target :: "tls_target \<Rightarrow> discovery_connection \<Rightarrow> bool" where
  "hits_target t (Conn_tls i xs) = list_ex (\<lambda>x. t_address x = t_address t \<and> t_port x = t_port t) xs"
| "hits_target t _ = False"

(* src store/discovery.ts 87-90 markConnected *)
definition mark_addOn :: "discovery_connection list \<Rightarrow> discovery_addOn \<Rightarrow> discovery_addOn" where
  "mark_addOn connected addOn = (case find (hits_addOn addOn) connected of None \<Rightarrow> addOn
     | Some m \<Rightarrow> addOn\<lparr>ao_connectorId := Some (conn_id m)\<rparr>)"

(* src store/discovery.ts 81-93 markConnected *)
definition mark_candidate :: "discovery_connection list \<Rightarrow> discovery_candidate \<Rightarrow> discovery_candidate" where
  "mark_candidate connected c =
     (let c1 = (case find (hits_candidate c) connected of None \<Rightarrow> c
        | Some hit \<Rightarrow> c\<lparr>c_connectorId := Some (conn_id hit)\<rparr>)
      in case c_addOns c of None \<Rightarrow> c1
         | Some addOns \<Rightarrow> c1\<lparr>c_addOns := Some (map (mark_addOn connected) addOns)\<rparr>)"

(* src store/discovery.ts 95-98 markConnected *)
definition mark_target :: "discovery_connection list \<Rightarrow> tls_target \<Rightarrow> tls_target" where
  "mark_target connected target = (case find (hits_target target) connected of None \<Rightarrow> target
     | Some hit \<Rightarrow> target\<lparr>t_monitoredBy := Some (conn_id hit)\<rparr>)"

(* src store/discovery.ts 75-102 markConnected *)
definition markConnected :: "discovery_connection list \<Rightarrow> discovery_store \<Rightarrow> discovery_store" where
  "markConnected connected s = (case s of None \<Rightarrow> s
     | Some scan \<Rightarrow>
         (let s1 = scan\<lparr>sc_candidates := map (mark_candidate connected) (sc_candidates scan)\<rparr>
          in Some (case sc_tlsTargets scan of None \<Rightarrow> s1
             | Some targets \<Rightarrow> s1\<lparr>sc_tlsTargets := Some (map (mark_target connected) targets)\<rparr>)))"

text \<open>What reaches the store while one scan is held; \<open>setScan\<close> replaces the scan.\<close>

(* src store/discovery.ts 25-35 DiscoveryState *)
datatype discovery_event =
    Progress progress_event
  | Candidate candidate_event
  | Complete string complete_event
  | Connected "discovery_connection list"

(* src store/discovery.ts 40-103 useDiscovery *)
fun discovery_apply :: "discovery_event \<Rightarrow> discovery_store \<Rightarrow> discovery_store" where
  "discovery_apply (Progress e) = applyProgress e"
| "discovery_apply (Candidate e) = applyCandidate e"
| "discovery_apply (Complete now e) = applyComplete now e"
| "discovery_apply (Connected cs) = markConnected cs"

text \<open>Scans reachable from a held one by any events.\<close>

inductive evolves :: "discovery_scan \<Rightarrow> discovery_scan \<Rightarrow> bool" where
  evolves_refl: "evolves s s"
| evolves_step: "evolves s t \<Longrightarrow> discovery_apply e (Some t) = Some u \<Longrightarrow> evolves s u"

definition ident :: "discovery_candidate \<Rightarrow> string \<times> string \<times> nat" where
  "ident c = (c_type c, c_address c, c_port c)"

subsection \<open>Events on a held scan\<close>

lemma sameCandidate_ident: "sameCandidate a b \<longleftrightarrow> ident a = ident b"
  by (auto simp: sameCandidate_def ident_def)

lemma mark_candidate_ident [simp]: "ident (mark_candidate cs c) = ident c"
  by (auto simp: mark_candidate_def ident_def Let_def split: option.splits)

lemmas handler_defs = applyProgress_def applyCandidate_def applyComplete_def markConnected_def on_running_def

lemma apply_None: "discovery_apply e None = None"
  by (cases e) (auto simp: handler_defs)

lemma apply_Some: "\<exists>u. discovery_apply e (Some t) = Some u"
  by (cases e) (auto simp: handler_defs Let_def split: option.splits)

text \<open>One event: the order on scans it respects.\<close>

definition scan_le :: "discovery_scan \<Rightarrow> discovery_scan \<Rightarrow> bool" where
  "scan_le t u \<longleftrightarrow> sc_id u = sc_id t \<and> sc_done t \<le> sc_done u \<and> sc_answered t \<le> sc_answered u
     \<and> prefix (map ident (sc_candidates t)) (map ident (sc_candidates u))
     \<and> (distinct (map ident (sc_candidates t)) \<longrightarrow> distinct (map ident (sc_candidates u)))
     \<and> (sc_state t \<noteq> Running \<longrightarrow> sc_state u = sc_state t \<and> sc_done u = sc_done t \<and> sc_total u = sc_total t
          \<and> sc_answered u = sc_answered t \<and> sc_partial u = sc_partial t \<and> sc_endedAt u = sc_endedAt t
          \<and> map ident (sc_candidates u) = map ident (sc_candidates t))"

lemma scan_le_refl [simp]: "scan_le t t"
  by (simp add: scan_le_def)

lemma scan_le_trans: "scan_le s t \<Longrightarrow> scan_le t u \<Longrightarrow> scan_le s u"
  unfolding scan_le_def by (auto intro: prefix_order.trans)

lemma ident_new: "\<not> list_ex (\<lambda>c. sameCandidate c x) cs \<longleftrightarrow> ident x \<notin> ident ` set cs"
  by (simp add: list_ex_iff sameCandidate_ident image_iff) metis

lemma apply_scan_le: "discovery_apply e (Some t) = Some u \<Longrightarrow> scan_le t u"
proof (cases e)
  case (Candidate x)
  assume "discovery_apply e (Some t) = Some u"
  with Candidate have "u = t \<or> sc_state t = Running \<and> ident (ce_candidate x) \<notin> ident ` set (sc_candidates t)
      \<and> u = t\<lparr>sc_candidates := sc_candidates t @ [ce_candidate x]\<rparr>"
    using ident_new by (auto simp: applyCandidate_def on_running_def split: if_splits)
  then show ?thesis by (auto simp: scan_le_def)
qed (auto simp: handler_defs Let_def scan_le_def o_def split: option.splits if_splits)

lemma evolves_scan_le: "evolves s u \<Longrightarrow> scan_le s u"
  by (induction rule: evolves.induct) (auto intro: scan_le_trans apply_scan_le)

text \<open>
  Whatever sequence of discovery frames and queue results reaches the store while one
  scan is held, the scan keeps its id, done and answered never go back, candidates are only
  appended and stay distinct by type, address and port, and once the scan has ended its state,
  counters, partial flag, end time and candidate list no longer change.
\<close>

theorem discovery_monotone:
  assumes "evolves s u" and "distinct (map ident (sc_candidates s))"
  shows "sc_id u = sc_id s \<and> sc_done s \<le> sc_done u \<and> sc_answered s \<le> sc_answered u
    \<and> distinct (map ident (sc_candidates u))
    \<and> prefix (map ident (sc_candidates s)) (map ident (sc_candidates u))
    \<and> (sc_state s \<noteq> Running \<longrightarrow> sc_state u = sc_state s \<and> sc_done u = sc_done s \<and> sc_total u = sc_total s
         \<and> sc_answered u = sc_answered s \<and> sc_partial u = sc_partial s \<and> sc_endedAt u = sc_endedAt s
         \<and> map ident (sc_candidates u) = map ident (sc_candidates s))"
  using evolves_scan_le [OF assms(1)] assms(2) by (auto simp: scan_le_def)

definition sample_candidate :: discovery_candidate where
  "sample_candidate = \<lparr>c_type = ''proxmox'', c_name = ''Proxmox VE'', c_address = ''10.0.0.5'', c_port = 8006,
     c_url = ''https://10.0.0.5:8006'', c_urlField = ''url'', c_source = None, c_addOns = None,
     c_connectorId = None\<rparr>"

definition sample_scan :: discovery_scan where
  "sample_scan = \<lparr>sc_id = ''scan-1'', sc_cidr = ''10.0.0.0/24'', sc_ranges = None, sc_includeInventory = None,
     sc_askNetwork = None, sc_state = Running, sc_startedAt = ''t0'', sc_endedAt = None, sc_done = 0,
     sc_total = 254, sc_answered = 0, sc_partial = False, sc_candidates = [], sc_sources = None,
     sc_skipped = None, sc_passiveAnswered = None, sc_tlsTargets = None\<rparr>"

lemma sample_evolves:
  "evolves sample_scan (sample_scan\<lparr>sc_done := 7, sc_answered := 1, sc_candidates := [sample_candidate]\<rparr>)"
proof -
  have "discovery_apply (Progress \<lparr>pe_scanId = ''scan-1'', pe_done = 7, pe_total = 254, pe_answered = 1\<rparr>)
      (Some sample_scan) = Some (sample_scan\<lparr>sc_done := 7, sc_answered := 1\<rparr>)"
    by (simp add: handler_defs sample_scan_def)
  then have "evolves sample_scan (sample_scan\<lparr>sc_done := 7, sc_answered := 1\<rparr>)"
    by (rule evolves_step [OF evolves_refl])
  moreover have "discovery_apply (Candidate \<lparr>ce_scanId = ''scan-1'', ce_candidate = sample_candidate\<rparr>)
      (Some (sample_scan\<lparr>sc_done := 7, sc_answered := 1\<rparr>)) =
      Some (sample_scan\<lparr>sc_done := 7, sc_answered := 1, sc_candidates := [sample_candidate]\<rparr>)"
    by (simp add: handler_defs sample_scan_def)
  ultimately show ?thesis by (rule evolves_step)
qed

lemma discovery_monotone_witness:
  "sc_id (sample_scan\<lparr>sc_done := 7, sc_answered := 1, sc_candidates := [sample_candidate]\<rparr>) = sc_id sample_scan
   \<and> distinct (map ident [sample_candidate])"
  using discovery_monotone [OF sample_evolves] by (simp add: sample_scan_def)

text \<open>
  A discovery frame changes nothing unless it is addressed to the held scan and that
  scan is running: frames of earlier scans, frames after the end (a late or duplicate completion
  after a cancellation included) and frames with no scan held leave the store as it is.
\<close>

theorem discovery_stale_frames:
  assumes "\<forall>scan. s = Some scan \<longrightarrow> sc_id scan \<noteq> i \<or> sc_state scan \<noteq> Running"
    and "pe_scanId p = i" and "ce_scanId c = i" and "xe_scanId x = i"
  shows "applyProgress p s = s \<and> applyCandidate c s = s \<and> applyComplete now x s = s"
  using assms by (auto simp: handler_defs split: option.splits)

lemma discovery_stale_frames_witness:
  "applyComplete ''t2'' \<lparr>xe_scanId = ''scan-1'', xe_state = End_completed, xe_partial = True\<rparr>
      (Some (sample_scan\<lparr>sc_state := Cancelled\<rparr>)) = Some (sample_scan\<lparr>sc_state := Cancelled\<rparr>)"
  using discovery_stale_frames [of "Some (sample_scan\<lparr>sc_state := Cancelled\<rparr>)" "''scan-1''"
      "\<lparr>pe_scanId = ''scan-1'', pe_done = 7, pe_total = 254, pe_answered = 1\<rparr>"
      "\<lparr>ce_scanId = ''scan-1'', ce_candidate = sample_candidate\<rparr>"
      "\<lparr>xe_scanId = ''scan-1'', xe_state = End_completed, xe_partial = True\<rparr>" "''t2''"]
  by simp

subsection \<open>Marking connections\<close>

lemma find_cong_pred: "(\<And>x. P x = Q x) \<Longrightarrow> find P xs = find Q xs"
  by (induction xs) auto

lemma hits_frame [simp]:
  "hits_candidate (c\<lparr>c_connectorId := v\<rparr>) = hits_candidate c"
  "hits_candidate (c\<lparr>c_addOns := w\<rparr>) = hits_candidate c"
  "hits_addOn (a\<lparr>ao_connectorId := v\<rparr>) = hits_addOn a"
  "hits_target (t\<lparr>t_monitoredBy := v\<rparr>) = hits_target t"
proof -
  show "hits_candidate (c\<lparr>c_connectorId := v\<rparr>) = hits_candidate c"
    "hits_candidate (c\<lparr>c_addOns := w\<rparr>) = hits_candidate c"
    by (rule ext, case_tac x; simp add: sameCandidate_def)+
  show "hits_addOn (a\<lparr>ao_connectorId := v\<rparr>) = hits_addOn a"
    by (rule ext, case_tac x; simp)
  show "hits_target (t\<lparr>t_monitoredBy := v\<rparr>) = hits_target t"
    by (rule ext, case_tac x; simp)
qed

lemma mark_addOn_simps [simp]:
  "ao_connectorId (mark_addOn cs a) =
     (case find (hits_addOn a) cs of None \<Rightarrow> ao_connectorId a | Some m \<Rightarrow> Some (conn_id m))"
  "mark_addOn cs (mark_addOn cs a) = mark_addOn cs a"
  by (auto simp: mark_addOn_def split: option.splits)

lemma mark_target_simps [simp]:
  "t_monitoredBy (mark_target cs t) =
     (case find (hits_target t) cs of None \<Rightarrow> t_monitoredBy t | Some m \<Rightarrow> Some (conn_id m))"
  "mark_target cs (mark_target cs t) = mark_target cs t"
  by (auto simp: mark_target_def split: option.splits)

lemma mark_candidate_simps [simp]:
  "c_connectorId (mark_candidate cs c) =
     (case find (hits_candidate c) cs of None \<Rightarrow> c_connectorId c | Some m \<Rightarrow> Some (conn_id m))"
  "c_addOns (mark_candidate cs c) = map_option (map (mark_addOn cs)) (c_addOns c)"
  "mark_candidate cs (mark_candidate cs c) = mark_candidate cs c"
  by (auto simp: mark_candidate_def Let_def o_def split: option.splits)

lemma markConnected_Some:
  "markConnected cs (Some scan) = Some (scan\<lparr>sc_candidates := map (mark_candidate cs) (sc_candidates scan),
     sc_tlsTargets := map_option (map (mark_target cs)) (sc_tlsTargets scan)\<rparr>)"
  by (auto simp: markConnected_def Let_def split: option.splits)

text \<open>
  markConnected sets nothing but connector ids. A candidate gets the connector id of
  the first saved product with its type, address and port and keeps its own otherwise; add-ons and
  certificate targets likewise, by type and url and by address and port; counters, state and
  identities are untouched, and marking twice is marking once.
\<close>

theorem markConnected_exact:
  "case markConnected cs (Some scan) of None \<Rightarrow> False
   | Some u \<Rightarrow>
       u\<lparr>sc_candidates := sc_candidates scan, sc_tlsTargets := sc_tlsTargets scan\<rparr> = scan
     \<and> map ident (sc_candidates u) = map ident (sc_candidates scan)
     \<and> map c_connectorId (sc_candidates u) =
         map (\<lambda>c. case find (hits_candidate c) cs of None \<Rightarrow> c_connectorId c | Some m \<Rightarrow> Some (conn_id m))
           (sc_candidates scan)
     \<and> map (\<lambda>c. map_option (map ao_connectorId) (c_addOns c)) (sc_candidates u) =
         map (\<lambda>c. map_option (map (\<lambda>a. case find (hits_addOn a) cs of None \<Rightarrow> ao_connectorId a
           | Some m \<Rightarrow> Some (conn_id m))) (c_addOns c)) (sc_candidates scan)
     \<and> map_option (map t_monitoredBy) (sc_tlsTargets u) =
         map_option (map (\<lambda>t. case find (hits_target t) cs of None \<Rightarrow> t_monitoredBy t
           | Some m \<Rightarrow> Some (conn_id m))) (sc_tlsTargets scan)
     \<and> markConnected cs (Some u) = Some u"
  by (simp add: markConnected_Some option.map_comp o_def)


subsection \<open>The ordering and the keys identify candidates\<close>

interpretation endpoint: comparator_pair
  "\<lambda>a b. compareAddresses lc (c_address a) (c_address b)" "\<lambda>c. ip_literal (c_address c)"
  "\<lambda>a b. int (c_port a) - int (c_port b)" "\<lambda>_. True" for lc
  by (intro comparator_pair.intro comparator_key [OF addr.comparator_axioms] comparator_nat_diff)

lemma byAddress_comparator:
  assumes "comparator lc (\<lambda>_. True)"
  shows "comparator (byAddress lc) (\<lambda>c. ip_literal (c_address c))"
proof -
  have "comparator (\<lambda>a b. lc (c_type a) (c_type b)) (\<lambda>_ :: discovery_candidate. True)"
    using comparator_key [OF assms, of c_type] by simp
  from comparator_or_else [OF endpoint.both_comparator [of lc] this] show ?thesis
    by (simp add: byAddress_def [abs_def])
qed

definition endpoint_le :: "discovery_candidate \<Rightarrow> discovery_candidate \<Rightarrow> bool" where
  "endpoint_le a b \<longleftrightarrow> ip_rank (c_address a) < ip_rank (c_address b)
     \<or> ip_rank (c_address a) = ip_rank (c_address b) \<and> c_port a \<le> c_port b"

lemma byAddress_endpoint:
  assumes "ip_literal (c_address a)" and "ip_literal (c_address b)" and "byAddress lc a b \<le> 0"
  shows "endpoint_le a b"
  using compareAddresses_rank [OF assms(1,2), of lc] assms(3)
  by (auto simp: byAddress_def or_else_def endpoint_le_def sgn_if split: if_splits)

text \<open>
  For any collation that is a consistent comparison, byAddress is one too on candidates
  whose addresses are IP literals (the client's combination with || is lexicographic), so sorting
  with it returns the same candidates ordered by numeric address, IPv4 first, and then by port.
\<close>

theorem byAddress_sorts:
  assumes "comparator lc (\<lambda>_. True)" and "\<forall>c \<in> set cs. ip_literal (c_address c)"
  shows "mset (sort_by (byAddress lc) cs) = mset cs \<and> sorted_wrt endpoint_le (sort_by (byAddress lc) cs)
    \<and> sorted_wrt (\<lambda>a b. byAddress lc a b \<le> 0) (sort_by (byAddress lc) cs)"
proof -
  let ?s = "sort_by (byAddress lc) cs"
  have v: "list_all (\<lambda>c. ip_literal (c_address c)) cs" using assms(2) by (simp add: list_all_iff)
  have "sorted_wrt (\<lambda>a b. byAddress lc a b \<le> 0) ?s"
    by (rule comparator.sort_by_sorted [OF byAddress_comparator [OF assms(1)] v])
  moreover from this have "sorted_wrt endpoint_le ?s"
  proof (rule sorted_wrt_mono_rel [rotated])
    fix a b assume "a \<in> set ?s" "b \<in> set ?s" "byAddress lc a b \<le> 0"
    moreover have "set ?s = set cs" by (metis set_mset_mset sort_by_mset)
    ultimately show "endpoint_le a b" using assms(2) byAddress_endpoint by blast
  qed
  ultimately show ?thesis by (simp add: sort_by_mset)
qed

lemma byAddress_sorts_witness:
  "mset (sort_by (byAddress (\<lambda>a b. int (length a) - int (length b)))
     [sample_candidate\<lparr>c_address := ''0.0.0.9''\<rparr>, sample_candidate\<lparr>c_address := ''0.0.0.5''\<rparr>]) =
   mset [sample_candidate\<lparr>c_address := ''0.0.0.9''\<rparr>, sample_candidate\<lparr>c_address := ''0.0.0.5''\<rparr>]"
proof -
  have "parseIPv4 ''0.0.0.9'' = Some 9" "parseIPv4 ''0.0.0.5'' = Some 5" by code_simp+
  then have lit: "\<forall>c \<in> set [sample_candidate\<lparr>c_address := ''0.0.0.9''\<rparr>, sample_candidate\<lparr>c_address := ''0.0.0.5''\<rparr>].
      ip_literal (c_address c)"
    by (simp add: ip_literal_def)
  show ?thesis using byAddress_sorts [of "\<lambda>a b. int (length a) - int (length b)", OF comparator_nat_diff lit] by simp
qed

lemma show_nat_inj: "show_nat a = show_nat b \<Longrightarrow> a = b"
  by (metis show_nat_ok(1))

lemma append_sep_eq:
  "c \<notin> set u \<Longrightarrow> c \<notin> set v \<Longrightarrow> u @ c # s = v @ c # t \<longleftrightarrow> u = v \<and> s = t"
  by (induction u arbitrary: v; case_tac v) auto

text \<open>
  candidateKey identifies a candidate within a scan: as long as type and address do not
  contain the separator, two candidates have the same key exactly when they have the same type,
  address and port, which is the identity the store removes duplicates by.
\<close>

theorem candidateKey_identifies:
  assumes "CHR ''|'' \<notin> set (c_type a) \<union> set (c_address a)" and "CHR ''|'' \<notin> set (c_type b) \<union> set (c_address b)"
  shows "candidateKey a = candidateKey b \<longleftrightarrow> sameCandidate a b"
  using assms show_nat_inj by (auto simp: candidateKey_def sameCandidate_def append_sep_eq)

lemma candidateKey_identifies_witness:
  "candidateKey sample_candidate = candidateKey sample_candidate \<longleftrightarrow> sameCandidate sample_candidate sample_candidate"
  by (rule candidateKey_identifies) (simp_all add: sample_candidate_def)

end
