(* ===== verification/Live.thy ===== *)
theory Live
  imports Discovery
begin

text \<open>
  The live store (\<open>store/live.ts\<close>) and the typed frames of the WebSocket contract
  (\<open>types/ws.ts\<close>): sync jobs keyed by service, status overrides, advisory document locks, the
  alert badge and the bounded activity feed. A JavaScript \<open>Record\<close> is a map; a key that is
  present with the value \<open>undefined\<close> maps to \<^term>\<open>Some None\<close>.
\<close>

subsection \<open>Enumerations of the contract\<close>

(* src api/model/serviceStatus.ts 10-17 ServiceStatus *)
datatype service_status = Online | Degraded | Offline | Unknown_status

(* src api/model/severity.ts 10-16 Severity *)
datatype severity = Info | Warning | Critical

(* src types/ws.ts 66-66 SyncPhase *)
datatype sync_phase = Queued | Fetching | Diffing | Generating | Phase_done | Phase_error

datatype notice_level = Level_info | Level_warning | Level_critical
datatype notice_action = Act_reauth | Act_reload | Act_none
datatype health = Health_ok | Health_degraded | Health_down
datatype ai_status = Ai_streaming | Ai_complete | Ai_error

subsection \<open>Payloads\<close>

(* src types/ws.ts 59-64 ServiceStatusPayload *)
record service_status_payload =
  ss_serviceId :: string
  ss_status :: service_status
  ss_message :: "string option"
  ss_lastChecked :: string

(* src types/ws.ts 68-74 SyncProgressPayload *)
record sync_progress_payload =
  sp_serviceId :: "string option"
  sp_jobId :: string
  sp_phase :: sync_phase
  sp_percent :: int
  sp_message :: "string option"

(* src types/ws.ts 76-82 SyncCompletePayload *)
record sync_complete_payload =
  sd_serviceId :: "string option"
  sd_jobId :: string
  sd_changesDetected :: int
  sd_alertsRaised :: int
  sd_durationMs :: int

(* src types/ws.ts 84-91 ChangeDetectedPayload *)
record change_payload =
  ch_changeId :: string
  ch_serviceId :: string
  ch_changeType :: string
  ch_severity :: severity
  ch_summary :: string
  ch_willTriggerAi :: bool

(* src types/ws.ts 93-99 AlertCreatedPayload *)
record alert_payload =
  al_alertId :: string
  al_changeId :: "string option"
  al_serviceId :: string
  al_severity :: severity
  al_title :: string

(* src types/ws.ts 101-105 AlertResolvedPayload *)
record alert_resolved_payload =
  ar_alertId :: string
  ar_resolvedBy :: string
  ar_resolution :: string

(* src types/ws.ts 120-125 QualityFindingCreatedPayload *)
record quality_finding_payload =
  qf_findingId :: string
  qf_connectorId :: string
  qf_checkType :: string
  qf_severity :: severity

(* src types/ws.ts 127-129 QualityFindingsChangedPayload *)
record quality_changed_payload =
  qc_connectorId :: string

(* src types/ws.ts 107-118 FindingNotificationPayload *)
record notification_payload =
  fn_alertId :: string
  fn_title :: string
  fn_message :: string

(* src types/ws.ts 131-136 DocGeneratedPayload *)
record doc_generated_payload =
  dg_docId :: string
  dg_serviceId :: "string option"
  dg_trigger :: string
  dg_newVersion :: int

(* src types/ws.ts 138-149 DocAiSuggestionPayload *)
record doc_ai_payload =
  ai_docId :: string
  ai_requestId :: string
  ai_status :: ai_status
  ai_contentDelta :: "string option"
  ai_fullContent :: "string option"
  ai_provider :: "string option"
  ai_fallbackUsed :: "bool option"
  ai_error :: "string option"

(* src types/ws.ts 151-157 DocLockAcquiredPayload *)
record lock_acquired_payload =
  la_docId :: string
  la_userId :: string
  la_userName :: "string option"
  la_acquiredAt :: string
  la_expiresAt :: string

(* src types/ws.ts 159-167 DocLockReleasedPayload *)
record lock_released_payload =
  lr_docId :: string
  lr_userId :: string

(* src types/ws.ts 169-172 SystemHealthPayload *)
record health_payload =
  sh_status :: health
  sh_components :: "(string \<times> health \<times> string option) list"

(* src types/ws.ts 174-178 SystemNoticePayload *)
record notice_payload =
  sn_level :: notice_level
  sn_message :: string
  sn_action :: "notice_action option"

(* src api/model/runbookRunUpdatedEvent.ts 15-21 RunbookRunUpdatedEvent *)
record run_updated_payload =
  ru_runId :: string
  ru_runbookId :: "string option"
  ru_state :: string

text \<open>
  The frames, one constructor per event type; \<open>Unhandled\<close> is a frame whose type the client
  does not know.
\<close>

(* src types/ws.ts 183-215 WsEventMap *)
datatype frame_body =
    Service_status service_status_payload
  | Sync_progress sync_progress_payload
  | Sync_complete sync_complete_payload
  | Change_detected change_payload
  | Alert_created alert_payload
  | Alert_resolved alert_resolved_payload
  | Quality_finding_created quality_finding_payload
  | Quality_findings_changed quality_changed_payload
  | Finding_created notification_payload
  | System_job_failed notification_payload
  | Run_updated run_updated_payload
  | Run_failed notification_payload
  | Run_waiting notification_payload
  | Run_approval_requested notification_payload
  | Doc_generated doc_generated_payload
  | Doc_ai_suggestion doc_ai_payload
  | Lock_acquired lock_acquired_payload
  | Lock_released lock_released_payload
  | Lock_expired lock_released_payload
  | System_health health_payload
  | System_notice notice_payload
  | System_resync
  | Discovery_progress progress_event
  | Discovery_candidate candidate_event
  | Discovery_complete complete_event
  | Unhandled string

(* src types/ws.ts 46-55 WsEnvelope *)
record ws_frame =
  fr_id :: string
  fr_ts :: string
  fr_body :: frame_body

subsection \<open>The store\<close>

(* src store/live.ts 10-10 WsState *)
datatype ws_state = Ws_connecting | Ws_open | Ws_closed

(* src store/live.ts 12-19 SyncJob *)
record sync_job =
  job_jobId :: string
  job_serviceId :: "string option"
  job_phase :: sync_phase
  job_percent :: int
  job_message :: "string option"
  job_startedAt :: nat

(* src store/live.ts 23-23 ActivityEntry *)
datatype activity_kind = Kind_sync | Kind_change | Kind_alert | Kind_doc | Kind_status

(* src store/live.ts 27-27 ActivityEntry *)
datatype activity_tone = Tone_signal | Tone_ok | Tone_warn | Tone_err | Tone_idle

(* src store/live.ts 21-28 ActivityEntry *)
record activity_entry =
  act_id :: string
  act_kind :: activity_kind
  act_label :: string
  act_detail :: "string option"
  act_at :: string
  act_tone :: activity_tone

(* src store/live.ts 46-46 LiveState *)
record doc_lock =
  lock_userId :: string
  lock_userName :: "string option"
  lock_expiresAt :: string

(* src store/live.ts 30-55 LiveState *)
record live_state =
  live_ws :: ws_state
  live_jobs :: "string \<rightharpoonup> sync_job"
  live_statusOverrides :: "string \<rightharpoonup> service_status"
  live_docLocks :: "string \<rightharpoonup> doc_lock option"
  live_pendingAlerts :: int
  live_activity :: "activity_entry list"

(* src store/live.ts 57-57 jobKey *)
definition jobKey :: "string option \<Rightarrow> string" where
  "jobKey serviceId = from_opt ''global'' serviceId"

(* src store/live.ts 59-63 useLive *)
definition live_init :: live_state where
  "live_init = \<lparr>live_ws = Ws_connecting, live_jobs = Map.empty, live_statusOverrides = Map.empty,
     live_docLocks = Map.empty, live_pendingAlerts = 0, live_activity = []\<rparr>"

(* src store/live.ts 61-61 setWs *)
definition setWs :: "ws_state \<Rightarrow> live_state \<Rightarrow> live_state" where
  "setWs w s = s\<lparr>live_ws := w\<rparr>"

(* src store/live.ts 64-65 upsertJob *)
definition upsertJob :: "sync_job \<Rightarrow> live_state \<Rightarrow> live_state" where
  "upsertJob j s = s\<lparr>live_jobs := (live_jobs s)(jobKey (job_serviceId j) \<mapsto> j)\<rparr>"

(* src store/live.ts 66-71 clearJob *)
definition clearJob :: "string \<Rightarrow> live_state \<Rightarrow> live_state" where
  "clearJob key s = s\<lparr>live_jobs := (live_jobs s)(key := None)\<rparr>"

(* src store/live.ts 72-72 resetJobs *)
definition resetJobs :: "live_state \<Rightarrow> live_state" where
  "resetJobs s = s\<lparr>live_jobs := Map.empty\<rparr>"

(* src store/live.ts 74-76 setStatus *)
definition setStatus :: "string \<Rightarrow> service_status \<Rightarrow> live_state \<Rightarrow> live_state" where
  "setStatus serviceId st s = s\<lparr>live_statusOverrides := (live_statusOverrides s)(serviceId \<mapsto> st)\<rparr>"

(* src store/live.ts 78-80 setDocLock *)
definition setDocLock :: "string \<Rightarrow> doc_lock option \<Rightarrow> live_state \<Rightarrow> live_state" where
  "setDocLock docId lock s = s\<lparr>live_docLocks := (live_docLocks s)(docId \<mapsto> lock)\<rparr>"

(* src store/live.ts 82-83 setPendingAlerts *)
definition setPendingAlerts :: "int \<Rightarrow> live_state \<Rightarrow> live_state" where
  "setPendingAlerts n s = s\<lparr>live_pendingAlerts := n\<rparr>"

(* src store/live.ts 84-85 bumpAlerts *)
definition bumpAlerts :: "int \<Rightarrow> live_state \<Rightarrow> live_state" where
  "bumpAlerts delta s = s\<lparr>live_pendingAlerts := max 0 (live_pendingAlerts s + delta)\<rparr>"

(* src store/live.ts 87-88 pushActivity *)
definition pushActivity :: "activity_entry \<Rightarrow> live_state \<Rightarrow> live_state" where
  "pushActivity e s = s\<lparr>live_activity := slice 0 40 (e # live_activity s)\<rparr>"

lemmas live_defs [store_simps] = setWs_def upsertJob_def clearJob_def resetJobs_def setStatus_def
  setDocLock_def setPendingAlerts_def bumpAlerts_def pushActivity_def

text \<open>Every job is filed under its own service, the badge is not negative, the feed is bounded.\<close>

definition live_ok :: "live_state \<Rightarrow> bool" where
  "live_ok s \<longleftrightarrow> (\<forall>k j. live_jobs s k = Some j \<longrightarrow> jobKey (job_serviceId j) = k)
     \<and> 0 \<le> live_pendingAlerts s \<and> length (live_activity s) \<le> 40"

lemma live_ok_init [simp]: "live_ok live_init"
  by (simp add: live_ok_def live_init_def)

lemma live_ok_ops [simp]:
  "live_ok s \<Longrightarrow> live_ok (setWs w s)" "live_ok s \<Longrightarrow> live_ok (upsertJob j s)"
  "live_ok s \<Longrightarrow> live_ok (clearJob k s)" "live_ok s \<Longrightarrow> live_ok (resetJobs s)"
  "live_ok s \<Longrightarrow> live_ok (setStatus i st s)" "live_ok s \<Longrightarrow> live_ok (setDocLock d l s)"
  "live_ok s \<Longrightarrow> live_ok (bumpAlerts n s)" "live_ok s \<Longrightarrow> live_ok (pushActivity e s)"
  "live_ok s \<Longrightarrow> 0 \<le> m \<Longrightarrow> live_ok (setPendingAlerts m s)"
  by (auto simp: live_ok_def live_defs slice_def)

end
