(* ===== verification/Frames.thy ===== *)
theory Frames
  imports Live
begin

text \<open>
  Frame handling of the WebSocket provider (\<open>ws/WebSocketProvider.tsx\<close>): the debounced cache
  invalidations and the buffered toasts, the recovery after missed frames, and \<open>handle\<close>, which
  folds a frame into the live store, the discovery store and the query cache. What leaves the
  client (invalidations, toasts, a session refresh) is the list of effects an operation returns.
  The translations of \<open>i18n.t\<close> and the clock are parameters.
\<close>

subsection \<open>Effects\<close>

datatype toast_tone = Toast_success | Toast_error | Toast_info | Toast_warning

text \<open>The action of a toast: \<open>jump(to)\<close> navigates, the reload notice reloads the page.\<close>

(* src ws/WebSocketProvider.tsx 68-71 jump *)
datatype toast_action = Jump string string | Reload_page string

record toast_msg =
  toast_tone :: toast_tone
  toast_text :: string
  toast_action :: "toast_action option"

type_synonym query_key = string

datatype effect =
    Invalidate query_key
  | Invalidate_matching "query_key \<Rightarrow> bool"
  | Show_toast string nat toast_msg
  | Notify toast_msg
  | Refresh_session

type_synonym translate = "string \<Rightarrow> (string \<times> string) list \<Rightarrow> string"

subsection \<open>Query keys\<close>

definition overview_key :: query_key where "overview_key = ''/dashboard/overview''"
definition changes_key :: query_key where "changes_key = ''/changes''"
definition alerts_key :: query_key where "alerts_key = ''/alerts''"
definition connectors_key :: query_key where "connectors_key = ''/connectors''"
definition scan_key :: query_key where "scan_key = ''/discovery/scan''"
definition findings_key :: query_key where "findings_key = ''/findings''"
definition notifications_key :: query_key where "notifications_key = ''/notifications''"
definition search_key :: query_key where "search_key = ''/search''"
definition docs_tree_key :: query_key where "docs_tree_key = ''/docs/tree''"

(* src api/generated/runbooks/runbooks.ts 913-915 getGetRunbookRunQueryKey *)
definition run_key :: "string \<Rightarrow> query_key" where
  "run_key runId = ''/runbook-runs/'' @ runId"

(* src api/generated/runbooks/runbooks.ts 787-789 getListRunbookRunsQueryKey *)
definition run_list_key :: "string \<Rightarrow> query_key" where
  "run_list_key runbookId = ''/runbooks/'' @ runbookId @ ''/runs''"

subsection \<open>Debounced invalidations\<close>

(* src ws/WebSocketProvider.tsx 34-34 BURST_MS *)
definition BURST_MS :: nat where "BURST_MS = 300"

text \<open>
  The pending timers in firing order. Every timer has the same delay, so re-arming one (clear
  the old one, set a new one) moves its key to the end.
\<close>

type_synonym timers = "(query_key \<times> nat) list"

(* src ws/WebSocketProvider.tsx 36-47 invalidateDebounced *)
definition invalidateDebounced :: "nat \<Rightarrow> query_key \<Rightarrow> timers \<Rightarrow> timers" where
  "invalidateDebounced now k ts = filter (\<lambda>(k', _). k' \<noteq> k) ts @ [(k, now + BURST_MS)]"

(* src ws/WebSocketProvider.tsx 42-45 invalidateDebounced *)
definition fire_timers :: "nat \<Rightarrow> timers \<Rightarrow> timers \<times> effect list" where
  "fire_timers now ts = (dropWhile (\<lambda>(_, at). at \<le> now) ts,
     map (\<lambda>(k, _). Invalidate k) (takeWhile (\<lambda>(_, at). at \<le> now) ts))"

subsection \<open>Buffered toasts\<close>

(* src ws/WebSocketProvider.tsx 49-50 Burst *)
record burst =
  b_kind :: string
  b_count :: nat
  b_first :: toast_msg
  b_summary :: "nat \<Rightarrow> toast_msg"
  b_at :: nat

type_synonym bursts = "burst list"

(* src ws/WebSocketProvider.tsx 51-66 toastBurst *)
definition toastBurst :: "nat \<Rightarrow> string \<Rightarrow> toast_msg \<Rightarrow> (nat \<Rightarrow> toast_msg) \<Rightarrow> bursts \<Rightarrow> bursts" where
  "toastBurst now kind first summary bs =
     (let b = (case find (\<lambda>b. b_kind b = kind) bs of
           Some cur \<Rightarrow> cur\<lparr>b_count := b_count cur + 1, b_summary := summary\<rparr>
         | None \<Rightarrow> \<lparr>b_kind = kind, b_count = 1, b_first = first, b_summary = summary, b_at = 0\<rparr>)
      in filter (\<lambda>b. b_kind b \<noteq> kind) bs @ [b\<lparr>b_at := now + BURST_MS\<rparr>])"

(* src ws/WebSocketProvider.tsx 60-64 toastBurst *)
definition burst_toast :: "burst \<Rightarrow> effect" where
  "burst_toast b = Show_toast (b_kind b) (b_count b)
     (if b_count b = 1 then b_first b else b_summary b (b_count b))"

(* src ws/WebSocketProvider.tsx 60-65 toastBurst *)
definition fire_bursts :: "nat \<Rightarrow> bursts \<Rightarrow> bursts \<times> effect list" where
  "fire_bursts now bs = (dropWhile (\<lambda>b. b_at b \<le> now) bs,
     map burst_toast (takeWhile (\<lambda>b. b_at b \<le> now) bs))"

subsection \<open>The application state the handler works on\<close>

record app_state =
  app_live :: live_state
  app_discovery :: discovery_store
  app_ai :: "(string \<times> string) \<rightharpoonup> doc_ai_payload"
  app_timers :: timers
  app_bursts :: bursts

definition on_live :: "(live_state \<Rightarrow> live_state) \<Rightarrow> app_state \<Rightarrow> app_state" where
  "on_live f a = a\<lparr>app_live := f (app_live a)\<rparr>"

definition on_discovery :: "(discovery_store \<Rightarrow> discovery_store) \<Rightarrow> app_state \<Rightarrow> app_state" where
  "on_discovery f a = a\<lparr>app_discovery := f (app_discovery a)\<rparr>"

definition debounce :: "nat \<Rightarrow> query_key \<Rightarrow> app_state \<Rightarrow> app_state" where
  "debounce now k a = a\<lparr>app_timers := invalidateDebounced now k (app_timers a)\<rparr>"

definition burst_on :: "nat \<Rightarrow> string \<Rightarrow> toast_msg \<Rightarrow> (nat \<Rightarrow> toast_msg) \<Rightarrow> app_state \<Rightarrow> app_state" where
  "burst_on now kind first summary a = a\<lparr>app_bursts := toastBurst now kind first summary (app_bursts a)\<rparr>"

subsection \<open>Recovery after missed frames\<close>

text \<open>\<open>/^\\/runbooks\\/[^/]+\\/runs$/\<close>: four parts, the third not empty.\<close>

(* src ws/WebSocketProvider.tsx 117-123 resync *)
definition run_path :: "query_key \<Rightarrow> bool" where
  "run_path path \<longleftrightarrow> starts_with ''/runbook-runs/'' path
     \<or> (case split_on CHR ''/'' path of
          [a, b, c, d] \<Rightarrow> a = [] \<and> b = ''runbooks'' \<and> c \<noteq> [] \<and> d = ''runs''
        | _ \<Rightarrow> False)"

(* src ws/WebSocketProvider.tsx 104-125 resync *)
definition resync :: "app_state \<Rightarrow> app_state \<times> effect list" where
  "resync a = (on_live resetJobs a,
     [Invalidate alerts_key, Invalidate search_key, Invalidate changes_key, Invalidate connectors_key,
      Invalidate overview_key, Invalidate notifications_key, Invalidate_matching run_path])"

subsection \<open>Handling a frame\<close>

definition jump :: "translate \<Rightarrow> string \<Rightarrow> toast_action" where
  "jump t route = Jump (t ''notify.view'' []) route"

(* src ws/WebSocketProvider.tsx 276-281 handle *)
definition change_toast :: "translate \<Rightarrow> change_payload \<Rightarrow> toast_msg" where
  "change_toast t p = \<lparr>toast_tone = (if ch_severity p = Critical then Toast_error
       else if ch_severity p = Warning then Toast_warning else Toast_info),
     toast_text = ch_summary p, toast_action = Some (jump t (''/changes/'' @ ch_changeId p))\<rparr>"

(* src ws/WebSocketProvider.tsx 282-283 handle *)
definition changes_summary :: "translate \<Rightarrow> nat \<Rightarrow> toast_msg" where
  "changes_summary t n = \<lparr>toast_tone = Toast_info, toast_text = t ''notify.changesDetected'' [(''count'', show_nat n)],
     toast_action = Some (jump t ''/changes'')\<rparr>"

(* src ws/WebSocketProvider.tsx 302-306 handle *)
definition alert_toast :: "translate \<Rightarrow> alert_payload \<Rightarrow> toast_msg" where
  "alert_toast t p = \<lparr>toast_tone = (if al_severity p = Critical then Toast_error else Toast_warning),
     toast_text = al_title p, toast_action = Some (jump t ''/alerts'')\<rparr>"

(* src ws/WebSocketProvider.tsx 307-308 handle *)
definition alerts_summary :: "translate \<Rightarrow> nat \<Rightarrow> toast_msg" where
  "alerts_summary t n = \<lparr>toast_tone = Toast_warning, toast_text = t ''notify.alertsCreated'' [(''count'', show_nat n)],
     toast_action = Some (jump t ''/alerts'')\<rparr>"

(* src ws/WebSocketProvider.tsx 234-261 handle *)
definition handle_sync_complete ::
  "translate \<Rightarrow> string \<Rightarrow> string \<Rightarrow> sync_complete_payload \<Rightarrow> app_state \<Rightarrow> app_state \<times> effect list" where
  "handle_sync_complete t i ts p a =
     (let counts = [(''changes'', show_int (sd_changesDetected p)), (''alerts'', show_int (sd_alertsRaised p))];
          entry = \<lparr>act_id = i, act_kind = Kind_sync, act_label = t ''notify.syncCompleteTitle'' [],
            act_detail = Some (t ''notify.syncCompleteDetail'' counts), act_at = ts,
            act_tone = (if sd_alertsRaised p > 0 then Tone_warn else Tone_ok)\<rparr>;
          opts = (if sd_changesDetected p > 0 then Some (jump t ''/changes'') else None)
      in (on_live (pushActivity entry) (on_live (clearJob (from_opt ''global'' (sd_serviceId p))) a),
          [Invalidate overview_key, Invalidate search_key, Invalidate changes_key,
           Notify \<lparr>toast_tone = (if sd_alertsRaised p > 0 then Toast_warning else Toast_success),
             toast_text = t ''notify.syncComplete'' counts, toast_action = opts\<rparr>]))"

(* src ws/WebSocketProvider.tsx 262-286 handle *)
definition handle_change ::
  "translate \<Rightarrow> nat \<Rightarrow> string \<Rightarrow> change_payload \<Rightarrow> app_state \<Rightarrow> app_state \<times> effect list" where
  "handle_change t now ts p a =
     (let entry = \<lparr>act_id = ch_changeId p, act_kind = Kind_change, act_label = ch_summary p,
            act_detail = Some (ch_changeType p), act_at = ts,
            act_tone = (if ch_severity p = Critical then Tone_err
              else if ch_severity p = Warning then Tone_warn else Tone_signal)\<rparr>;
          a1 = debounce now overview_key (debounce now changes_key (on_live (pushActivity entry) a))
      in (burst_on now ''change.detected'' (change_toast t p) (changes_summary t) a1, []))"

(* src ws/WebSocketProvider.tsx 287-311 handle *)
definition handle_alert ::
  "translate \<Rightarrow> nat \<Rightarrow> string \<Rightarrow> alert_payload \<Rightarrow> app_state \<Rightarrow> app_state \<times> effect list" where
  "handle_alert t now ts p a =
     (let entry = \<lparr>act_id = al_alertId p, act_kind = Kind_alert, act_label = al_title p,
            act_detail = Some (t ''notify.newAlert'' []), act_at = ts,
            act_tone = (if al_severity p = Critical then Tone_err else Tone_warn)\<rparr>;
          a1 = debounce now notifications_key (debounce now alerts_key
            (on_live (pushActivity entry) (on_live (bumpAlerts 1) a)))
      in (burst_on now ''alert.created'' (alert_toast t p) (alerts_summary t) a1, []))"

(* src ws/WebSocketProvider.tsx 394-405 handle *)
definition handle_notice :: "translate \<Rightarrow> notice_payload \<Rightarrow> app_state \<Rightarrow> app_state \<times> effect list" where
  "handle_notice t p a =
     (let tone = (if sn_level p = Level_critical then Toast_error
            else if sn_level p = Level_warning then Toast_warning else Toast_info);
          opts = (if sn_action p = Some Act_reload then Some (Reload_page (t ''notify.reload'' [])) else None)
      in (a, Notify \<lparr>toast_tone = tone, toast_text = sn_message p, toast_action = opts\<rparr>
            # (if sn_action p = Some Act_reauth then [Refresh_session] else [])))"

(* src ws/WebSocketProvider.tsx 359-374 handle *)
definition handle_generated ::
  "translate \<Rightarrow> string \<Rightarrow> string \<Rightarrow> doc_generated_payload \<Rightarrow> app_state \<Rightarrow> app_state \<times> effect list" where
  "handle_generated t i ts p a =
     (let entry = \<lparr>act_id = i, act_kind = Kind_doc, act_label = t ''notify.documentationRegenerated'' [],
            act_detail = Some (t ''notify.documentationRegeneratedDetail''
              [(''trigger'', dg_trigger p), (''version'', show_int (dg_newVersion p))]),
            act_at = ts, act_tone = Tone_signal\<rparr>
      in (on_live (pushActivity entry) a, [Invalidate docs_tree_key, Invalidate search_key]))"

(* src ws/WebSocketProvider.tsx 213-420 handle *)
definition handle ::
  "translate \<Rightarrow> nat \<Rightarrow> string \<Rightarrow> ws_frame \<Rightarrow> app_state \<Rightarrow> app_state \<times> effect list" where
  "handle t now stamp frame a = (case fr_body frame of
     Service_status p \<Rightarrow> (on_live (setStatus (ss_serviceId p) (ss_status p)) a, [Invalidate overview_key])
   | Sync_progress p \<Rightarrow> (on_live (upsertJob \<lparr>job_jobId = sp_jobId p, job_serviceId = sp_serviceId p,
       job_phase = sp_phase p, job_percent = sp_percent p, job_message = sp_message p, job_startedAt = now\<rparr>) a, [])
   | Sync_complete p \<Rightarrow> handle_sync_complete t (fr_id frame) (fr_ts frame) p a
   | Change_detected p \<Rightarrow> handle_change t now (fr_ts frame) p a
   | Alert_created p \<Rightarrow> handle_alert t now (fr_ts frame) p a
   | Alert_resolved _ \<Rightarrow> (on_live (bumpAlerts (- 1)) a, [Invalidate alerts_key, Invalidate notifications_key])
   | Quality_finding_created _ \<Rightarrow> (a, [Invalidate findings_key])
   | Quality_findings_changed _ \<Rightarrow> (a, [Invalidate findings_key])
   | Finding_created _ \<Rightarrow> (a, [Invalidate notifications_key])
   | System_job_failed _ \<Rightarrow> (a, [Invalidate notifications_key])
   | Run_failed _ \<Rightarrow> (a, [Invalidate notifications_key])
   | Run_waiting _ \<Rightarrow> (a, [Invalidate notifications_key])
   | Run_approval_requested _ \<Rightarrow> (a, [Invalidate notifications_key])
   | Run_updated p \<Rightarrow> (a, Invalidate (run_key (ru_runId p))
       # (case ru_runbookId p of None \<Rightarrow> [] | Some i \<Rightarrow> if i = [] then [] else [Invalidate (run_list_key i)]))
   | Discovery_progress e \<Rightarrow> (on_discovery (applyProgress e) a, [])
   | Discovery_candidate e \<Rightarrow> (on_discovery (applyCandidate e) a, [])
   | Discovery_complete e \<Rightarrow> (on_discovery (applyComplete stamp e) a, [Invalidate scan_key])
   | Doc_generated p \<Rightarrow> handle_generated t (fr_id frame) (fr_ts frame) p a
   | Lock_acquired p \<Rightarrow> (on_live (setDocLock (la_docId p) (Some \<lparr>lock_userId = la_userId p,
       lock_userName = la_userName p, lock_expiresAt = la_expiresAt p\<rparr>)) a, [])
   | Lock_released p \<Rightarrow> (on_live (setDocLock (lr_docId p) None) a, [])
   | Lock_expired p \<Rightarrow> (on_live (setDocLock (lr_docId p) None) a, [])
   | System_resync \<Rightarrow> resync a
   | System_notice p \<Rightarrow> handle_notice t p a
   | System_health p \<Rightarrow> (a, Invalidate overview_key
       # (if sh_status p \<noteq> Health_ok then [Notify \<lparr>toast_tone = Toast_warning,
            toast_text = t ''notify.healthDegraded'' [], toast_action = None\<rparr>] else []))
   | Doc_ai_suggestion p \<Rightarrow> (a\<lparr>app_ai := (app_ai a)((ai_docId p, ai_requestId p) \<mapsto> p)\<rparr>, [])
   | Unhandled _ \<Rightarrow> (a, []))"


subsection \<open>Debouncing: one refetch per burst\<close>

text \<open>
  A run of requests, each with its time; timers that are due fire before the next request is
  served, and the rest by the time \<open>final\<close>.
\<close>

fun run_requests :: "nat \<Rightarrow> (nat \<times> query_key) list \<Rightarrow> timers \<Rightarrow> effect list" where
  "run_requests final [] ts = snd (fire_timers final ts)"
| "run_requests final ((now, k) # es) ts =
     snd (fire_timers now ts) @ run_requests final es (invalidateDebounced now k (fst (fire_timers now ts)))"

text \<open>The reference: a request opens a new burst when the one before it is 300 ms old.\<close>

fun count_bursts :: "nat list \<Rightarrow> nat" where
  "count_bursts [] = 0"
| "count_bursts [t] = 1"
| "count_bursts (t # u # ts) = (if t + BURST_MS \<le> u then 1 else 0) + count_bursts (u # ts)"

definition timers_ok :: "nat \<Rightarrow> timers \<Rightarrow> bool" where
  "timers_ok now ts \<longleftrightarrow> sorted (map snd ts) \<and> distinct (map fst ts) \<and> (\<forall>(k, at) \<in> set ts. at \<le> now + BURST_MS)"

definition key_count :: "query_key \<Rightarrow> effect list \<Rightarrow> nat" where
  "key_count k es = length (filter (\<lambda>e. e = Invalidate k) es)"

lemma key_count_simps [simp]: "key_count k [] = 0" "key_count k (xs @ ys) = key_count k xs + key_count k ys"
  by (simp_all add: key_count_def)

lemma fire_timers_sorted:
  assumes "sorted (map snd ts)"
  shows "fire_timers now ts = (filter (\<lambda>(_, at). now < at) ts, map (\<lambda>(k, _). Invalidate k) (filter (\<lambda>(_, at). at \<le> now) ts))"
  using assms
proof (induction ts)
  case (Cons x ts)
  obtain k at where x: "x = (k, at)" by (cases x)
  show ?case
  proof (cases "at \<le> now")
    case True
    with Cons x show ?thesis by (auto simp: fire_timers_def)
  next
    case False
    then have "\<forall>(_, at') \<in> set ts. now < at'" using Cons.prems x by fastforce
    then have "filter (\<lambda>(_, at). now < at) ts = ts" "filter (\<lambda>(_, at). at \<le> now) ts = []"
      by (auto simp: filter_id_conv filter_empty_conv)
    with False x show ?thesis by (simp add: fire_timers_def)
  qed
qed (simp add: fire_timers_def)

lemma fire_timers_ok: "timers_ok t ts \<Longrightarrow> timers_ok t (fst (fire_timers now ts))"
  unfolding timers_ok_def by (auto simp: fire_timers_sorted distinct_map_filter intro: sorted_filter)

lemma debounced_ok:
  assumes "timers_ok t ts" and "t \<le> now"
  shows "timers_ok now (invalidateDebounced now k ts)"
  using assms unfolding timers_ok_def invalidateDebounced_def
  by (fastforce simp: sorted_append distinct_map_filter intro: sorted_filter)

lemma count_key_alist:
  "distinct (map fst ts) \<Longrightarrow> key_count k (map (\<lambda>(k, _). Invalidate k) (filter (\<lambda>(_, at). at \<le> now) ts)) =
     (case map_of ts k of Some at \<Rightarrow> if at \<le> now then 1 else 0 | None \<Rightarrow> 0)"
proof (induction ts)
  case (Cons x ts)
  obtain k' at where x: "x = (k', at)" by (cases x)
  have "map_of ts k = None" if "k' = k" using Cons.prems x that by (auto simp: map_of_eq_None_iff)
  with Cons x show ?case by (auto simp: key_count_def)
qed (simp add: key_count_def)

lemma map_of_filter_snd:
  "distinct (map fst ts) \<Longrightarrow> map_of (filter (\<lambda>(_, at). now < at) ts) k =
     (case map_of ts k of Some at \<Rightarrow> if now < at then Some at else None | None \<Rightarrow> None)"
proof (induction ts)
  case (Cons x ts)
  obtain k' at where x: "x = (k', at)" by (cases x)
  have "map_of ts k = None" if "k' = k" using Cons.prems x that by (auto simp: map_of_eq_None_iff)
  with Cons x show ?case by auto
qed simp

lemma map_of_debounced:
  "map_of (invalidateDebounced now k ts) k' = (if k' = k then Some (now + BURST_MS) else map_of ts k')"
proof -
  have "map_of (filter (\<lambda>(k', _). k' \<noteq> k) ts) k' = (if k' = k then None else map_of ts k')"
    by (induction ts) auto
  then show ?thesis by (auto simp: invalidateDebounced_def map_add_def split: option.splits)
qed

text \<open>The times of the requests for one key, in order.\<close>

definition times_of :: "query_key \<Rightarrow> (nat \<times> query_key) list \<Rightarrow> nat list" where
  "times_of k es = map fst (filter (\<lambda>(_, k'). k' = k) es)"

text \<open>The bursts still to come, with one pending until the given time.\<close>

fun count_from :: "nat \<Rightarrow> nat list \<Rightarrow> nat" where
  "count_from at [] = 1"
| "count_from at (u # us) = (if at \<le> u then 1 else 0) + count_from (u + BURST_MS) us"

lemma count_bursts_Cons: "count_bursts (t # us) = count_from (t + BURST_MS) us"
  by (induction us arbitrary: t) auto

lemma count_from_fired: "\<forall>u \<in> set us. at \<le> u \<Longrightarrow> count_from at us = Suc (count_bursts us)"
  by (cases us) (auto simp: count_bursts_Cons)

lemma times_of_Cons [simp]: "times_of k ((now, k') # es) = (if k' = k then now # times_of k es else times_of k es)"
  by (simp add: times_of_def)

lemma times_of_set: "t \<in> set (times_of k es) \<Longrightarrow> t \<in> set (map fst es)"
  by (auto simp: times_of_def)

definition bursts_to_come :: "nat option \<Rightarrow> nat list \<Rightarrow> nat" where
  "bursts_to_come p us = (case p of None \<Rightarrow> count_bursts us | Some at \<Rightarrow> count_from at us)"

lemma fired_then_pending:
  assumes "timers_ok t ts" and "\<forall>u \<in> set us. now \<le> u"
  shows "key_count k (snd (fire_timers now ts)) + bursts_to_come (map_of (fst (fire_timers now ts)) k) us =
    bursts_to_come (map_of ts k) us"
proof -
  have d: "sorted (map snd ts)" "distinct (map fst ts)" using assms(1) by (auto simp: timers_ok_def)
  have "\<forall>u \<in> set us. at \<le> u" if "at \<le> now" for at using assms(2) that by auto
  then show ?thesis using d
    by (auto simp: fire_timers_sorted count_key_alist map_of_filter_snd bursts_to_come_def count_from_fired
        split: option.splits)
qed

lemma run_requests_count:
  assumes "timers_ok t ts" and "sorted (t # map fst es)"
    and "\<forall>(r, _) \<in> set es. r + BURST_MS \<le> final" and "\<forall>(_, at) \<in> set ts. at \<le> final"
  shows "key_count k (run_requests final es ts) = bursts_to_come (map_of ts k) (times_of k es)"
  using assms
proof (induction es arbitrary: t ts)
  case Nil
  have "fst (fire_timers final ts) = []" using Nil.prems(4) by (auto simp: fire_timers_def)
  then show ?case using fired_then_pending [OF Nil.prems(1), of "[]" final k]
    by (simp add: times_of_def bursts_to_come_def)
next
  case (Cons e es)
  obtain now k' where e: "e = (now, k')" by (cases e)
  let ?ts = "fst (fire_timers now ts)"
  have ok: "timers_ok t ?ts" by (rule fire_timers_ok) (rule Cons.prems)
  have sub: "set ?ts \<subseteq> set ts"
    by (auto simp: fire_timers_def dest: set_dropWhileD)
  have now: "t \<le> now" "sorted (now # map fst es)" "\<forall>u \<in> set (times_of k es). now \<le> u"
    using Cons.prems(2) e times_of_set by fastforce+
  have "\<forall>(_, at) \<in> set (invalidateDebounced now k' ?ts). at \<le> final"
    using Cons.prems(3,4) e sub by (auto simp: invalidateDebounced_def)
  then have IH: "key_count k (run_requests final es (invalidateDebounced now k' ?ts)) =
      bursts_to_come (map_of (invalidateDebounced now k' ?ts) k) (times_of k es)"
    using Cons.prems(3) by (intro Cons.IH [of now]) (use debounced_ok [OF ok] now in auto)
  have fire: "key_count k (snd (fire_timers now ts)) + bursts_to_come (map_of ?ts k) us = bursts_to_come (map_of ts k) us"
    if "\<forall>u \<in> set us. now \<le> u" for us
    by (rule fired_then_pending) (use Cons.prems(1) that in auto)
  show ?case
  proof (cases "k' = k")
    case True
    have gone: "map_of ?ts k = Some at \<Longrightarrow> now < at" for at
      using Cons.prems(1) by (auto simp: fire_timers_sorted timers_ok_def dest!: map_of_SomeD)
    then have "bursts_to_come (map_of ?ts k) (now # times_of k es) = count_bursts (now # times_of k es)"
      by (auto simp: bursts_to_come_def count_bursts_Cons split: option.splits dest: leD)
    then show ?thesis
      using True e IH fire [of "now # times_of k es"] now(3)
      by (simp add: map_of_debounced bursts_to_come_def count_bursts_Cons)
  next
    case False
    then show ?thesis using e IH fire [OF now(3)] by (simp add: map_of_debounced)
  qed
qed

text \<open>
  Debounced invalidation costs exactly one refetch per burst and loses none. For
  requests in time order, the number of invalidations of a key that have fired 300 ms after the
  last request is the number of bursts of requests for it, where a request starts a new burst
  only when the one before it for that key is at least 300 ms old; other keys do not matter.
\<close>

theorem invalidateDebounced_bursts:
  assumes "sorted (map fst es)" and "\<forall>(r, _) \<in> set es. r + BURST_MS \<le> final"
  shows "key_count k (run_requests final es []) = count_bursts (times_of k es)"
proof -
  have "timers_ok 0 []" by (simp add: timers_ok_def)
  from run_requests_count [OF this _ assms(2)] assms(1) show ?thesis by (simp add: bursts_to_come_def)
qed

lemma invalidateDebounced_bursts_witness:
  "key_count changes_key (run_requests 2000 [(0, changes_key), (100, alerts_key), (250, changes_key), (900, changes_key)] []) = 2"
  using invalidateDebounced_bursts [of "[(0, changes_key), (100, alerts_key), (250, changes_key), (900, changes_key)]" 2000 changes_key]
  by (simp add: BURST_MS_def times_of_def changes_key_def alerts_key_def)

subsection \<open>Buffered toasts count every event once\<close>

text \<open>Events of the toast buffer in any order: a call, or the firing of what is due.\<close>

datatype toast_event = Burst_call nat string toast_msg "nat \<Rightarrow> toast_msg" | Burst_fire nat

fun run_toasts :: "toast_event list \<Rightarrow> bursts \<Rightarrow> bursts \<times> effect list" where
  "run_toasts [] bs = (bs, [])"
| "run_toasts (Burst_call now kind first summary # es) bs = run_toasts es (toastBurst now kind first summary bs)"
| "run_toasts (Burst_fire now # es) bs =
     (let (bs1, out) = fire_bursts now bs; (bs2, out2) = run_toasts es bs1 in (bs2, out @ out2))"

fun shown :: "string \<Rightarrow> effect \<Rightarrow> nat" where
  "shown kind (Show_toast k n m) = (if k = kind then n else 0)"
| "shown kind _ = 0"

fun called :: "string \<Rightarrow> toast_event \<Rightarrow> nat" where
  "called kind (Burst_call now k first summary) = (if k = kind then 1 else 0)"
| "called kind (Burst_fire now) = 0"

definition waiting :: "string \<Rightarrow> bursts \<Rightarrow> nat" where
  "waiting kind bs = sum_list (map (\<lambda>b. if b_kind b = kind then b_count b else 0) bs)"

lemma waiting_append [simp]: "waiting kind (xs @ ys) = waiting kind xs + waiting kind ys"
  by (simp add: waiting_def)

lemma waiting_find:
  "distinct (map b_kind bs) \<Longrightarrow> waiting kind bs = (case find (\<lambda>b. b_kind b = kind) bs of None \<Rightarrow> 0 | Some b \<Rightarrow> b_count b)"
proof (induction bs)
  case (Cons b bs)
  have "find (\<lambda>x. b_kind x = kind) bs = None" if "b_kind b = kind"
    using Cons.prems that by (simp add: find_None_iff image_iff) metis
  with Cons show ?case by (auto simp: waiting_def)
qed (simp add: waiting_def)

lemma waiting_other: "waiting kind (filter (\<lambda>b. b_kind b \<noteq> k) bs) = (if kind = k then 0 else waiting kind bs)"
  by (induction bs) (auto simp: waiting_def)

lemma find_kind: "find (\<lambda>b. b_kind b = kind) bs = Some b \<Longrightarrow> b_kind b = kind"
  by (simp add: find_Some_iff) metis

lemma toastBurst_ok:
  assumes "distinct (map b_kind bs)"
  shows "distinct (map b_kind (toastBurst now k first summary bs))
    \<and> waiting kind (toastBurst now k first summary bs) = waiting kind bs + (if k = kind then 1 else 0)"
proof (cases "find (\<lambda>b. b_kind b = k) bs")
  case None
  then show ?thesis using assms waiting_find [OF assms, of k]
    by (auto simp: toastBurst_def distinct_map_filter waiting_other waiting_def [of _ "[_]"])
next
  case (Some b)
  have "b_kind b = k" using Some by (rule find_kind)
  with Some show ?thesis using assms waiting_find [OF assms, of k]
    by (auto simp: toastBurst_def distinct_map_filter waiting_other waiting_def [of _ "[_]"])
qed

lemma fire_bursts_ok:
  assumes "distinct (map b_kind bs)" and "fire_bursts now bs = (bs1, out)"
  shows "distinct (map b_kind bs1) \<and> sum_list (map (shown kind) out) + waiting kind bs1 = waiting kind bs"
proof -
  let ?P = "\<lambda>b. b_at b \<le> now"
  have eq: "bs1 = dropWhile ?P bs" "out = map burst_toast (takeWhile ?P bs)" using assms(2) by (auto simp: fire_bursts_def)
  have "sum_list (map (shown kind) (map burst_toast xs)) = waiting kind xs" for xs
    by (induction xs) (auto simp: waiting_def burst_toast_def)
  moreover have "waiting kind (takeWhile ?P bs) + waiting kind (dropWhile ?P bs) = waiting kind bs"
    by (metis takeWhile_dropWhile_id waiting_append)
  moreover have "distinct (map b_kind (dropWhile ?P bs))"
    using assms(1) by (metis distinct_append map_append takeWhile_dropWhile_id)
  ultimately show ?thesis using eq by simp
qed

lemma run_toasts_ok:
  "distinct (map b_kind bs) \<Longrightarrow>
     sum_list (map (shown kind) (snd (run_toasts es bs))) + waiting kind (fst (run_toasts es bs)) =
     waiting kind bs + sum_list (map (called kind) es)"
proof (induction es bs rule: run_toasts.induct)
  case (2 now k first summary es bs)
  then show ?case using toastBurst_ok [of bs now k first summary kind] by simp
next
  case (3 now es bs)
  obtain bs1 out where f: "fire_bursts now bs = (bs1, out)" by (cases "fire_bursts now bs")
  have ok: "distinct (map b_kind bs1)" "sum_list (map (shown kind) out) + waiting kind bs1 = waiting kind bs"
    using fire_bursts_ok [OF 3(2) f] by auto
  obtain bs2 out2 where r: "run_toasts es bs1 = (bs2, out2)" by (cases "run_toasts es bs1")
  from 3(1) [OF f [symmetric] refl ok(1)] r ok(2) f show ?case by simp
qed simp

text \<open>
  The toast buffer loses no event and announces none twice: at any point of any
  sequence of buffered events and timer firings, the events of a kind are exactly those
  announced by the toasts shown so far (a toast announces its count) plus those still pending.
\<close>

theorem toastBurst_conserves:
  "sum_list (map (called kind) es) =
     sum_list (map (shown kind) (snd (run_toasts es []))) + waiting kind (fst (run_toasts es []))"
  using run_toasts_ok [of "[]" kind es] by (simp add: waiting_def)

subsection \<open>Recovery and the handler\<close>

lemma run_path_run: "run_path (run_key i)"
  by (simp add: run_path_def run_key_def starts_with_def)

lemma run_path_list:
  assumes "i \<noteq> []" and "CHR ''/'' \<notin> set i"
  shows "run_path (run_list_key i)"
proof -
  have "split_on CHR ''/'' (run_list_key i) = [[], ''runbooks'', i, ''runs'']"
    unfolding run_list_key_def using assms(2)
    by (simp add: split_on_append [where s = "''runs''"])
  then show ?thesis using assms(1) by (simp add: run_path_def)
qed

definition covers :: "effect list \<Rightarrow> query_key \<Rightarrow> bool" where
  "covers out k \<longleftrightarrow> list_ex (\<lambda>e. case e of Invalidate k' \<Rightarrow> k' = k | Invalidate_matching P \<Rightarrow> P k | _ \<Rightarrow> False) out"

text \<open>
  After a reconnect or a server resync, every volatile list is refetched: alerts,
  search, changes, connectors, overview and notifications, and every cached run and run list of
  a runbook; all sync jobs are dropped, so a completion that was missed leaves no stuck job, and
  the rest of the live state is kept.
\<close>

theorem resync_covers:
  assumes "runbook \<noteq> []" and "CHR ''/'' \<notin> set runbook"
  shows "(let (a', out) = resync a in
      list_all (covers out) [alerts_key, search_key, changes_key, connectors_key, overview_key, notifications_key,
        run_key run, run_list_key runbook]
      \<and> live_jobs (app_live a') = Map.empty \<and> a' = a\<lparr>app_live := (app_live a)\<lparr>live_jobs := Map.empty\<rparr>\<rparr>)"
  using run_path_run [of run] run_path_list [OF assms]
  by (simp add: resync_def covers_def on_live_def resetJobs_def)

lemma resync_covers_witness:
  "covers (snd (resync \<lparr>app_live = live_init, app_discovery = None, app_ai = Map.empty, app_timers = [], app_bursts = []\<rparr>))
     (run_list_key ''rb-1'')"
  using resync_covers [of "''rb-1''" "\<lparr>app_live = live_init, app_discovery = None, app_ai = Map.empty, app_timers = [], app_bursts = []\<rparr>" "''run-1''"]
  by (simp add: Let_def split: prod.splits)

text \<open>What a frame can do to the application state.\<close>

lemma handle_live_ok: "live_ok (app_live a) \<Longrightarrow> live_ok (app_live (fst (handle t now stamp fr a)))"
  by (cases "fr_body fr")
     (simp_all add: handle_def handle_sync_complete_def handle_change_def handle_alert_def handle_notice_def
       handle_generated_def resync_def on_live_def on_discovery_def debounce_def burst_on_def Let_def)

lemma handle_live_ws: "live_ws (app_live (fst (handle t now stamp fr a))) = live_ws (app_live a)"
  by (cases "fr_body fr")
     (simp_all add: handle_def handle_sync_complete_def handle_change_def handle_alert_def handle_notice_def
       handle_generated_def resync_def on_live_def on_discovery_def debounce_def burst_on_def Let_def live_defs)

lemma resync_live:
  "live_ok (app_live a) \<Longrightarrow> live_ok (app_live (fst (resync a)))"
  "live_ws (app_live (fst (resync a))) = live_ws (app_live a)"
  by (simp_all add: resync_def on_live_def) (simp add: resetJobs_def)

lemma handle_discovery:
  "app_discovery (fst (handle t now stamp fr a)) =
     (case fr_body fr of Discovery_progress e \<Rightarrow> discovery_apply (Progress e) (app_discovery a)
      | Discovery_candidate e \<Rightarrow> discovery_apply (Candidate e) (app_discovery a)
      | Discovery_complete e \<Rightarrow> discovery_apply (Complete stamp e) (app_discovery a)
      | _ \<Rightarrow> app_discovery a)"
  by (cases "fr_body fr")
     (simp_all add: handle_def handle_sync_complete_def handle_change_def handle_alert_def handle_notice_def
       handle_generated_def resync_def on_live_def on_discovery_def debounce_def burst_on_def Let_def)

end
