(* ===== verification/Socket.thy ===== *)
theory Socket
  imports Frames
begin

text \<open>
  The connection of the WebSocket provider (\<open>ws/WebSocketProvider.tsx\<close>) as a state machine:
  one React effect instance per authenticated session with its socket, its retry timer and its
  \<open>closed\<close> flag, the reconnect counter and the memory of seen event ids that outlive it.
  The handlers are the code's; the rules of \<open>ws_step\<close> say when the browser may call them
  (a socket that was closed delivers no further \<open>open\<close> or \<open>message\<close> event).
\<close>

subsection \<open>Deduplication of frames\<close>

(* src ws/WebSocketProvider.tsx 82-83 SEEN_CAP *)
definition SEEN_CAP :: nat where "SEEN_CAP = 500"

(* src ws/WebSocketProvider.tsx 130-131 WebSocketProvider *)
record seen_ids =
  seen_set :: "string set"
  seen_order :: "string list"

(* src ws/WebSocketProvider.tsx 191-194 WebSocketProvider *)
definition remember :: "string \<Rightarrow> seen_ids \<Rightarrow> seen_ids option" where
  "remember i seen =
     (if i \<in> seen_set seen then None
      else (let ids = insert i (seen_set seen); order = seen_order seen @ [i]
            in if length order > SEEN_CAP then Some \<lparr>seen_set = ids - {hd order}, seen_order = tl order\<rparr>
               else Some \<lparr>seen_set = ids, seen_order = order\<rparr>))"

text \<open>The ids that are handled, out of a sequence of received ones.\<close>

fun handled_ids :: "string list \<Rightarrow> seen_ids \<Rightarrow> string list" where
  "handled_ids [] seen = []"
| "handled_ids (i # is) seen = (case remember i seen of None \<Rightarrow> handled_ids is seen
     | Some seen' \<Rightarrow> i # handled_ids is seen')"

definition no_seen :: seen_ids where "no_seen = \<lparr>seen_set = {}, seen_order = []\<rparr>"

text \<open>The reference: an id is handled unless it is among the last 500 handled ones.\<close>

fun handled_ref :: "string list \<Rightarrow> string list \<Rightarrow> string list" where
  "handled_ref [] newest = []"
| "handled_ref (i # is) newest = (if i \<in> set (take SEEN_CAP newest) then handled_ref is newest
     else i # handled_ref is (i # newest))"

definition seen_ok :: "seen_ids \<Rightarrow> bool" where
  "seen_ok seen \<longleftrightarrow> seen_set seen = set (seen_order seen) \<and> distinct (seen_order seen)
     \<and> length (seen_order seen) \<le> SEEN_CAP"

lemma remember_ok:
  assumes "seen_ok seen" and "remember i seen = Some seen'"
  shows "seen_ok seen' \<and> i \<notin> seen_set seen \<and>
    rev (seen_order seen') = take SEEN_CAP (i # rev (seen_order seen))"
proof -
  have i: "i \<notin> set (seen_order seen)" "distinct (seen_order seen)" "length (seen_order seen) \<le> SEEN_CAP"
    using assms by (auto simp: remember_def seen_ok_def split: if_splits)
  show ?thesis
  proof (cases "length (seen_order seen) = SEEN_CAP")
    case True
    then obtain x xs where o: "seen_order seen = x # xs" by (cases "seen_order seen") (auto simp: SEEN_CAP_def)
    have s': "seen' = \<lparr>seen_set = insert i (set (x # xs)) - {x}, seen_order = xs @ [i]\<rparr>"
      using assms True o by (auto simp: remember_def seen_ok_def Let_def split: if_splits)
    have "length xs = SEEN_CAP - 1" using True o by simp
    then show ?thesis using s' i o assms(1) by (auto simp: seen_ok_def SEEN_CAP_def)
  next
    case False
    then have "seen' = \<lparr>seen_set = insert i (seen_set seen), seen_order = seen_order seen @ [i]\<rparr>"
      using assms i by (auto simp: remember_def seen_ok_def Let_def split: if_splits)
    then show ?thesis using i False assms(1) by (auto simp: seen_ok_def)
  qed
qed

lemma handled_ids_ref:
  assumes "seen_ok seen" and "rev (seen_order seen) = take SEEN_CAP newest"
  shows "handled_ids is seen = handled_ref is newest"
  using assms
proof (induction "is" arbitrary: seen newest)
  case (Cons i "is")
  have mem: "i \<in> seen_set seen \<longleftrightarrow> i \<in> set (take SEEN_CAP newest)"
    using Cons.prems unfolding seen_ok_def by (metis set_rev)
  show ?case
  proof (cases "remember i seen")
    case None
    then have "i \<in> seen_set seen" by (auto simp: remember_def Let_def split: if_splits)
    with None mem Cons show ?thesis by simp
  next
    case (Some seen')
    have ok: "seen_ok seen'" "i \<notin> seen_set seen" "rev (seen_order seen') = take SEEN_CAP (i # take SEEN_CAP newest)"
      using remember_ok [OF Cons.prems(1) Some] Cons.prems(2) by auto
    have "take SEEN_CAP (i # take SEEN_CAP newest) = take SEEN_CAP (i # newest)"
      by (simp add: SEEN_CAP_def take_Cons')
    with Cons.IH [OF ok(1)] ok mem Some show ?thesis by simp
  qed
qed simp

text \<open>
  Deduplication: whatever ids the frames carry, a frame is handled exactly when its id
  is not among the ids of the last 500 handled frames, although the memory is only a set and a
  queue of at most 500 ids.
\<close>

theorem dedupe_window: "handled_ids is no_seen = handled_ref is []"
  by (rule handled_ids_ref) (simp_all add: seen_ok_def no_seen_def)

subsection \<open>Normalised frames\<close>

record raw_frame =
  raw_id :: "string option"
  raw_ts :: "string option"
  raw_body :: frame_body

definition truthy_or :: "string option \<Rightarrow> string \<Rightarrow> string" where
  "truthy_or v d = (case v of None \<Rightarrow> d | Some s \<Rightarrow> if s = [] then d else s)"

(* src ws/WebSocketProvider.tsx 94-102 normalize *)
definition normalize :: "string \<Rightarrow> string \<Rightarrow> raw_frame \<Rightarrow> ws_frame" where
  "normalize newId stamp raw = \<lparr>fr_id = truthy_or (raw_id raw) newId, fr_ts = truthy_or (raw_ts raw) stamp,
     fr_body = raw_body raw\<rparr>"

subsection \<open>Connections\<close>

text \<open>Where an effect instance is between its callbacks.\<close>

datatype phase = Minting | Opening | Opened | Waiting nat | Closing | Gone

(* src ws/WebSocketProvider.tsx 140-152 WebSocketProvider *)
record conn =
  cn_phase :: phase
  cn_closed :: bool
  cn_hasOpened :: bool

(* src ws/WebSocketProvider.tsx 127-132 WebSocketProvider *)
record provider =
  pv_auth :: bool
  pv_reconnects :: nat
  pv_seen :: seen_ids
  pv_conns :: "conn list"
  pv_app :: app_state

definition fresh_conn :: conn where
  "fresh_conn = \<lparr>cn_phase = Minting, cn_closed = False, cn_hasOpened = False\<rparr>"

definition set_ws :: "ws_state \<Rightarrow> provider \<Rightarrow> provider" where
  "set_ws w p = p\<lparr>pv_app := on_live (setWs w) (pv_app p)\<rparr>"

definition set_conn :: "nat \<Rightarrow> conn \<Rightarrow> provider \<Rightarrow> provider" where
  "set_conn i c p = p\<lparr>pv_conns := (pv_conns p)[i := c]\<rparr>"

(* src ws/WebSocketProvider.tsx 180-180 WebSocketProvider *)
definition backoff :: "nat \<Rightarrow> nat" where
  "backoff n = min (1000 * 2 ^ n) 15000"

(* src ws/WebSocketProvider.tsx 160-163 WebSocketProvider *)
definition schedule_retry :: "nat \<Rightarrow> conn \<Rightarrow> provider \<Rightarrow> provider" where
  "schedule_retry i c p = set_conn i (c\<lparr>cn_phase := Waiting (backoff (pv_reconnects p))\<rparr>)
     (p\<lparr>pv_reconnects := pv_reconnects p + 1\<rparr>)"

(* src ws/WebSocketProvider.tsx 154-166 WebSocketProvider *)
definition on_ticket :: "nat \<Rightarrow> provider \<Rightarrow> provider" where
  "on_ticket i p = (let c = pv_conns p ! i in
     set_conn i (c\<lparr>cn_phase := (if cn_closed c then Gone else Opening)\<rparr>) p)"

(* src ws/WebSocketProvider.tsx 159-164 WebSocketProvider *)
definition on_ticket_failed :: "nat \<Rightarrow> provider \<Rightarrow> provider" where
  "on_ticket_failed i p = (let c = pv_conns p ! i in
     if cn_closed c then set_conn i (c\<lparr>cn_phase := Gone\<rparr>) p else schedule_retry i c p)"

(* src ws/WebSocketProvider.tsx 155-155 WebSocketProvider *)
definition on_retry :: "nat \<Rightarrow> provider \<Rightarrow> provider" where
  "on_retry i p = set_conn i ((pv_conns p ! i)\<lparr>cn_phase := Minting\<rparr>) (set_ws Ws_connecting p)"

(* src ws/WebSocketProvider.tsx 168-174 WebSocketProvider *)
definition on_open :: "nat \<Rightarrow> provider \<Rightarrow> provider \<times> effect list" where
  "on_open i p =
     (let c = pv_conns p ! i;
          p1 = set_ws Ws_open (p\<lparr>pv_reconnects := 0\<rparr>);
          (a, out) = (if cn_hasOpened c then resync (pv_app p1) else (pv_app p1, []))
      in (set_conn i (c\<lparr>cn_phase := Opened, cn_hasOpened := True\<rparr>) (p1\<lparr>pv_app := a\<rparr>), out))"

(* src ws/WebSocketProvider.tsx 176-182 WebSocketProvider *)
definition on_close :: "nat \<Rightarrow> provider \<Rightarrow> provider" where
  "on_close i p = (let c = pv_conns p ! i in
     if cn_closed c then set_conn i (c\<lparr>cn_phase := Gone\<rparr>) p
     else schedule_retry i c (set_ws Ws_closed p))"

text \<open>A message: \<open>raw\<close> is \<^const>\<open>None\<close> where \<open>JSON.parse\<close> or \<open>normalize\<close> throws.\<close>

(* src ws/WebSocketProvider.tsx 184-196 WebSocketProvider *)
definition on_message ::
  "translate \<Rightarrow> nat \<Rightarrow> string \<Rightarrow> string \<Rightarrow> raw_frame option \<Rightarrow> provider \<Rightarrow> provider \<times> effect list" where
  "on_message t now stamp newId raw p =
     (case raw of None \<Rightarrow> (p, [])
      | Some r \<Rightarrow>
          (let frame = normalize newId stamp r
           in case remember (fr_id frame) (pv_seen p) of None \<Rightarrow> (p, [])
              | Some seen' \<Rightarrow> (let (a, out) = handle t now stamp frame (pv_app p)
                  in (p\<lparr>pv_seen := seen', pv_app := a\<rparr>, out))))"

(* src ws/WebSocketProvider.tsx 143-151 WebSocketProvider *)
definition on_alert_count :: "nat \<Rightarrow> nat option \<Rightarrow> provider \<Rightarrow> provider" where
  "on_alert_count i page_total p = (case page_total of None \<Rightarrow> p
     | Some n \<Rightarrow> if cn_closed (pv_conns p ! i) then p
         else p\<lparr>pv_app := on_live (setPendingAlerts (int n)) (pv_app p)\<rparr>)"

text \<open>The cleanup of an effect: the retry timer is cleared, the socket is closed.\<close>

(* src ws/WebSocketProvider.tsx 201-206 WebSocketProvider *)
definition cleanup :: "conn \<Rightarrow> conn" where
  "cleanup c = c\<lparr>cn_closed := True, cn_phase := (case cn_phase c of Waiting _ \<Rightarrow> Gone
     | Opening \<Rightarrow> Closing | Opened \<Rightarrow> Closing | ph \<Rightarrow> ph)\<rparr>"

(* src ws/WebSocketProvider.tsx 134-138 WebSocketProvider *)
definition run_effect :: "bool \<Rightarrow> provider \<Rightarrow> provider" where
  "run_effect authenticated p =
     (if \<not> authenticated then set_ws Ws_closed (p\<lparr>pv_auth := False\<rparr>)
      else set_ws Ws_connecting (p\<lparr>pv_auth := True, pv_conns := pv_conns p @ [fresh_conn]\<rparr>))"

(* src ws/WebSocketProvider.tsx 134-208 WebSocketProvider *)
definition on_status :: "bool \<Rightarrow> provider \<Rightarrow> provider" where
  "on_status authenticated p = run_effect authenticated
     (if pv_auth p then p\<lparr>pv_conns := butlast (pv_conns p) @ [cleanup (last (pv_conns p))]\<rparr> else p)"

definition provider_init :: "app_state \<Rightarrow> provider" where
  "provider_init a = \<lparr>pv_auth = False, pv_reconnects = 0, pv_seen = no_seen, pv_conns = [], pv_app = a\<rparr>"

subsection \<open>What the browser may call, and when\<close>

inductive ws_step :: "provider \<Rightarrow> provider \<Rightarrow> bool" where
  step_ticket: "i < length (pv_conns p) \<Longrightarrow> cn_phase (pv_conns p ! i) = Minting \<Longrightarrow> ws_step p (on_ticket i p)"
| step_ticket_failed: "i < length (pv_conns p) \<Longrightarrow> cn_phase (pv_conns p ! i) = Minting \<Longrightarrow> ws_step p (on_ticket_failed i p)"
| step_retry: "i < length (pv_conns p) \<Longrightarrow> cn_phase (pv_conns p ! i) = Waiting d \<Longrightarrow> ws_step p (on_retry i p)"
| step_open: "i < length (pv_conns p) \<Longrightarrow> cn_phase (pv_conns p ! i) = Opening \<Longrightarrow> ws_step p (fst (on_open i p))"
| step_close: "i < length (pv_conns p) \<Longrightarrow> cn_phase (pv_conns p ! i) \<in> {Opening, Opened, Closing} \<Longrightarrow> ws_step p (on_close i p)"
| step_message: "i < length (pv_conns p) \<Longrightarrow> cn_phase (pv_conns p ! i) = Opened \<Longrightarrow>
    ws_step p (fst (on_message t now stamp newId raw p))"
| step_alert_count: "i < length (pv_conns p) \<Longrightarrow> ws_step p (on_alert_count i page_total p)"
| step_status: "ws_step p (on_status authenticated p)"

inductive_cases ws_stepE: "ws_step p q"

inductive ws_reachable :: "provider \<Rightarrow> bool" where
  reach_mount: "live_ok (app_live a) \<Longrightarrow> ws_reachable (run_effect b (provider_init a))"
| reach_step: "ws_reachable p \<Longrightarrow> ws_step p q \<Longrightarrow> ws_reachable q"

definition live_phase :: "phase \<Rightarrow> nat \<Rightarrow> ws_state \<Rightarrow> bool" where
  "live_phase ph reconnects w \<longleftrightarrow> (case ph of Minting \<Rightarrow> w = Ws_connecting | Opening \<Rightarrow> w = Ws_connecting
     | Opened \<Rightarrow> w = Ws_open \<and> reconnects = 0
     | Waiting d \<Rightarrow> w \<noteq> Ws_open \<and> reconnects > 0 \<and> d = backoff (reconnects - 1)
     | _ \<Rightarrow> False)"

definition dead_conn :: "conn \<Rightarrow> bool" where
  "dead_conn c \<longleftrightarrow> cn_closed c \<and> cn_phase c \<in> {Minting, Closing, Gone}"

text \<open>
  The invariant: older connections are dead; when authenticated the newest is the only live one
  and its phase is what \<open>ws\<close> says; otherwise all are dead and \<open>ws\<close> is closed.
\<close>

definition ws_inv :: "provider \<Rightarrow> bool" where
  "ws_inv p \<longleftrightarrow>
     (if pv_auth p then \<exists>old c. pv_conns p = old @ [c] \<and> list_all dead_conn old \<and> \<not> cn_closed c
         \<and> live_phase (cn_phase c) (pv_reconnects p) (live_ws (app_live (pv_app p)))
      else list_all dead_conn (pv_conns p) \<and> live_ws (app_live (pv_app p)) = Ws_closed)
     \<and> seen_ok (pv_seen p) \<and> live_ok (app_live (pv_app p))"


subsection \<open>The invariant is preserved\<close>

lemma ws_inv_conn:
  assumes "ws_inv p" and "i < length (pv_conns p)"
  obtains (dead) "dead_conn (pv_conns p ! i)"
    | (current) old c where "pv_auth p" "pv_conns p = old @ [c]" "i = length old" "pv_conns p ! i = c"
        "list_all dead_conn old" "\<not> cn_closed c"
        "live_phase (cn_phase c) (pv_reconnects p) (live_ws (app_live (pv_app p)))"
proof (cases "pv_auth p")
  case True
  then obtain old c where p: "pv_conns p = old @ [c]" "list_all dead_conn old" "\<not> cn_closed c"
      "live_phase (cn_phase c) (pv_reconnects p) (live_ws (app_live (pv_app p)))"
    using assms(1) by (auto simp: ws_inv_def)
  show ?thesis
  proof (cases "i < length old")
    case True
    then show ?thesis using p dead by (auto simp: nth_append list_all_length)
  next
    case False
    then have i: "i = length old" using assms(2) p(1) by auto
    with p have "pv_conns p ! i = c" by simp
    with current [OF \<open>pv_auth p\<close> p(1) i _ p(2-4)] show ?thesis by blast
  qed
qed (use assms dead in \<open>auto simp: ws_inv_def list_all_length\<close>)

lemma ws_inv_parts: "ws_inv p \<Longrightarrow> seen_ok (pv_seen p) \<and> live_ok (app_live (pv_app p))"
  by (simp add: ws_inv_def)

lemma ws_inv_dead_update:
  assumes "ws_inv p" and "i < length (pv_conns p)" and "dead_conn (pv_conns p ! i)" and "dead_conn c'"
  shows "ws_inv (set_conn i c' p)"
proof (cases "pv_auth p")
  case True
  then obtain old c where p: "pv_conns p = old @ [c]" "list_all dead_conn old" "\<not> cn_closed c"
      "live_phase (cn_phase c) (pv_reconnects p) (live_ws (app_live (pv_app p)))"
    using assms(1) by (auto simp: ws_inv_def)
  have "i \<noteq> length old" using p assms(3) by (auto simp: dead_conn_def)
  then have "(pv_conns p)[i := c'] = old[i := c'] @ [c]"
    using p(1) assms(2) by (simp add: list_update_append)
  then show ?thesis using p assms True list_all_update by (auto simp: ws_inv_def set_conn_def)
qed (use assms list_all_update in \<open>auto simp: ws_inv_def set_conn_def\<close>)

lemma ws_inv_current:
  assumes "pv_auth p" and "pv_conns p = old @ [c]" and "list_all dead_conn old" and "\<not> cn_closed c'"
    and "live_phase (cn_phase c') (pv_reconnects p) (live_ws (app_live (pv_app p)))"
    and "seen_ok (pv_seen p)" and "live_ok (app_live (pv_app p))"
  shows "ws_inv (set_conn (length old) c' p)"
  using assms by (auto simp: ws_inv_def set_conn_def)

lemma set_ws_simps [simp]:
  "pv_auth (set_ws w p) = pv_auth p" "pv_conns (set_ws w p) = pv_conns p" "pv_reconnects (set_ws w p) = pv_reconnects p"
  "pv_seen (set_ws w p) = pv_seen p" "live_ws (app_live (pv_app (set_ws w p))) = w"
  "live_ok (app_live (pv_app p)) \<Longrightarrow> live_ok (app_live (pv_app (set_ws w p)))"
  by (simp_all add: set_ws_def on_live_def) (simp add: setWs_def)

lemma inv_on_ticket:
  assumes "ws_inv p" and "i < length (pv_conns p)" and "cn_phase (pv_conns p ! i) = Minting"
  shows "ws_inv (on_ticket i p)"
  using assms(1,2)
proof (cases rule: ws_inv_conn)
  case dead
  then show ?thesis using assms by (auto simp: on_ticket_def Let_def dead_conn_def intro!: ws_inv_dead_update)
next
  case (current old c)
  then have "live_ws (app_live (pv_app p)) = Ws_connecting" using assms(3) by (simp add: live_phase_def)
  with current have "ws_inv (set_conn (length old) (c\<lparr>cn_phase := Opening\<rparr>) p)"
    using ws_inv_parts [OF assms(1)] by (intro ws_inv_current) (auto simp: live_phase_def)
  then show ?thesis using current by (simp add: on_ticket_def Let_def)
qed

lemma inv_schedule:
  assumes "pv_auth p" and "pv_conns p = old @ [c]" and "list_all dead_conn old" and "\<not> cn_closed c"
    and "live_ws (app_live (pv_app p)) \<noteq> Ws_open" and "seen_ok (pv_seen p)" and "live_ok (app_live (pv_app p))"
  shows "ws_inv (schedule_retry (length old) c p)"
  unfolding schedule_retry_def by (rule ws_inv_current) (use assms in \<open>auto simp: live_phase_def\<close>)

lemma inv_on_ticket_failed:
  assumes "ws_inv p" and "i < length (pv_conns p)" and "cn_phase (pv_conns p ! i) = Minting"
  shows "ws_inv (on_ticket_failed i p)"
  using assms(1,2)
proof (cases rule: ws_inv_conn)
  case dead
  then show ?thesis using assms by (auto simp: on_ticket_failed_def Let_def dead_conn_def intro!: ws_inv_dead_update)
next
  case (current old c)
  then have "live_ws (app_live (pv_app p)) \<noteq> Ws_open" using assms(3) by (simp add: live_phase_def)
  with current inv_schedule [of p old c] ws_inv_parts [OF assms(1)] show ?thesis
    by (simp add: on_ticket_failed_def Let_def)
qed

lemma inv_on_retry:
  assumes "ws_inv p" and "i < length (pv_conns p)" and "cn_phase (pv_conns p ! i) = Waiting d"
  shows "ws_inv (on_retry i p)"
  using assms(1,2)
proof (cases rule: ws_inv_conn)
  case (current old c)
  then show ?thesis using ws_inv_parts [OF assms(1)]
    by (auto simp: on_retry_def live_phase_def intro!: ws_inv_current)
qed (use assms(3) in \<open>auto simp: dead_conn_def\<close>)

lemma inv_on_open:
  assumes "ws_inv p" and "i < length (pv_conns p)" and "cn_phase (pv_conns p ! i) = Opening"
  shows "ws_inv (fst (on_open i p))"
  using assms(1,2)
proof (cases rule: ws_inv_conn)
  case (current old c)
  let ?p1 = "set_ws Ws_open (p\<lparr>pv_reconnects := 0\<rparr>)"
  let ?a = "if cn_hasOpened c then fst (resync (pv_app ?p1)) else pv_app ?p1"
  have eq: "fst (on_open i p) = set_conn (length old) (c\<lparr>cn_phase := Opened, cn_hasOpened := True\<rparr>) (?p1\<lparr>pv_app := ?a\<rparr>)"
    using current by (simp add: on_open_def Let_def split: prod.splits)
  have ok: "live_ok (app_live (pv_app ?p1))"
    using ws_inv_parts [OF assms(1)] by (simp add: set_ws_def on_live_def)
  then have a: "live_ok (app_live ?a)" "live_ws (app_live ?a) = Ws_open"
    using resync_live(1) [OF ok] resync_live(2) [of "pv_app ?p1"] by auto
  show ?thesis unfolding eq
    by (rule ws_inv_current) (use current ws_inv_parts [OF assms(1)] a in \<open>simp_all add: live_phase_def\<close>)
qed (use assms(3) in \<open>auto simp: dead_conn_def\<close>)

lemma inv_on_close:
  assumes "ws_inv p" and "i < length (pv_conns p)" and "cn_phase (pv_conns p ! i) \<in> {Opening, Opened, Closing}"
  shows "ws_inv (on_close i p)"
  using assms(1,2)
proof (cases rule: ws_inv_conn)
  case dead
  then show ?thesis using assms by (auto simp: on_close_def Let_def dead_conn_def intro!: ws_inv_dead_update)
next
  case (current old c)
  with inv_schedule [of "set_ws Ws_closed p" old c] ws_inv_parts [OF assms(1)] show ?thesis
    by (simp add: on_close_def Let_def)
qed

lemma ws_inv_app:
  assumes "ws_inv p" and "live_ws (app_live a) = live_ws (app_live (pv_app p))" and "live_ok (app_live a)" and "seen_ok s"
  shows "ws_inv (p\<lparr>pv_seen := s, pv_app := a\<rparr>)" and "ws_inv (p\<lparr>pv_app := a\<rparr>)"
  using assms by (auto simp: ws_inv_def)

lemma inv_on_message:
  assumes "ws_inv p"
  shows "ws_inv (fst (on_message t now stamp newId raw p))"
proof (cases raw)
  case None
  then show ?thesis using assms by (simp add: on_message_def)
next
  case (Some r)
  let ?fr = "normalize newId stamp r"
  show ?thesis
  proof (cases "remember (fr_id ?fr) (pv_seen p)")
    case None
    then show ?thesis using assms Some by (simp add: on_message_def Let_def)
  next
    case (Some s')
    have "fst (on_message t now stamp newId raw p) =
        p\<lparr>pv_seen := s', pv_app := fst (handle t now stamp ?fr (pv_app p))\<rparr>"
      using Some \<open>raw = Some r\<close> by (simp add: on_message_def Let_def split: prod.splits)
    moreover have "seen_ok s'" using remember_ok Some ws_inv_parts [OF assms] by blast
    ultimately show ?thesis
      using assms handle_live_ok handle_live_ws ws_inv_parts [OF assms] by (simp add: ws_inv_app(1))
  qed
qed

lemma inv_on_alert_count: "ws_inv p \<Longrightarrow> ws_inv (on_alert_count i n p)"
  using ws_inv_parts [of p]
  by (auto simp: on_alert_count_def on_live_def setPendingAlerts_def live_ok_def split: option.splits intro!: ws_inv_app(2))

lemma cleanup_dead: "live_phase (cn_phase c) n w \<Longrightarrow> dead_conn (cleanup c)"
  by (auto simp: cleanup_def dead_conn_def live_phase_def split: phase.splits)

lemma inv_run_effect:
  assumes "list_all dead_conn (pv_conns p)" and "seen_ok (pv_seen p)" and "live_ok (app_live (pv_app p))"
  shows "ws_inv (run_effect b p)"
  using assms by (auto simp: run_effect_def ws_inv_def set_ws_def on_live_def setWs_def live_ok_def fresh_conn_def live_phase_def)

lemma inv_on_status:
  assumes "ws_inv p"
  shows "ws_inv (on_status b p)"
proof -
  let ?q = "if pv_auth p then p\<lparr>pv_conns := butlast (pv_conns p) @ [cleanup (last (pv_conns p))]\<rparr> else p"
  have "list_all dead_conn (pv_conns ?q)"
    using assms cleanup_dead by (auto simp: ws_inv_def split: if_splits)
  with ws_inv_parts [OF assms] show ?thesis
    unfolding on_status_def by (intro inv_run_effect) auto
qed

lemma ws_step_inv: "ws_step p q \<Longrightarrow> ws_inv p \<Longrightarrow> ws_inv q"
  by (induction rule: ws_step.induct)
     (blast intro: inv_on_ticket inv_on_ticket_failed inv_on_retry inv_on_open inv_on_close inv_on_message
       inv_on_alert_count inv_on_status)+

lemma ws_reachable_inv: "ws_reachable p \<Longrightarrow> ws_inv p"
proof (induction rule: ws_reachable.induct)
  case (reach_mount a b)
  then show ?case by (intro inv_run_effect) (auto simp: provider_init_def seen_ok_def no_seen_def)
next
  case (reach_step p q)
  then show ?case by (blast intro: ws_step_inv)
qed


lemma backoff_bounds: "1000 \<le> backoff n" "backoff n \<le> 15000"
  by (simp_all add: backoff_def)

text \<open>
  Claim C2. In every reachable state of the connection there is exactly one live effect instance
  when the user is authenticated and none otherwise; the store says open exactly when that
  instance's socket is open, and closed after a logout, whatever late callbacks of earlier
  sockets and tickets arrive; a pending retry waits between 1 and 15 seconds, the exponential
  delay of the failures counted so far; the badge is not negative and the feed has at most 40
  entries.
\<close>

theorem ws_connection_safe:
  assumes "ws_reachable p"
  shows "length (filter (\<lambda>c. \<not> cn_closed c) (pv_conns p)) = (if pv_auth p then 1 else 0)
    \<and> (live_ws (app_live (pv_app p)) = Ws_open \<longleftrightarrow> list_ex (\<lambda>c. \<not> cn_closed c \<and> cn_phase c = Opened) (pv_conns p))
    \<and> (pv_auth p \<or> live_ws (app_live (pv_app p)) = Ws_closed)
    \<and> list_all (\<lambda>c. case cn_phase c of Waiting d \<Rightarrow>
         d = backoff (pv_reconnects p - 1) \<and> 1000 \<le> d \<and> d \<le> 15000 | _ \<Rightarrow> True) (pv_conns p)
    \<and> live_ok (app_live (pv_app p))"
proof -
  have inv: "ws_inv p" using assms by (rule ws_reachable_inv)
  have dead: "filter (\<lambda>c. \<not> cn_closed c) cs = []" "\<not> list_ex (\<lambda>c. \<not> cn_closed c \<and> cn_phase c = Opened) cs"
      "list_all (\<lambda>c. case cn_phase c of Waiting d \<Rightarrow> d = e \<and> 1000 \<le> d \<and> d \<le> 15000 | _ \<Rightarrow> True) cs"
    if "list_all dead_conn cs" for cs e
    using that by (auto simp: list_all_iff list_ex_iff filter_empty_conv dead_conn_def split: phase.splits)
  show ?thesis
  proof (cases "pv_auth p")
    case True
    then obtain old c where "pv_conns p = old @ [c]" "list_all dead_conn old" "\<not> cn_closed c"
        "live_phase (cn_phase c) (pv_reconnects p) (live_ws (app_live (pv_app p)))"
      using inv by (auto simp: ws_inv_def)
    with True dead [of old] ws_inv_parts [OF inv] backoff_bounds show ?thesis
      by (cases "cn_phase c") (simp_all add: live_phase_def)
  next
    case False
    with inv dead [of "pv_conns p"] show ?thesis by (simp add: ws_inv_def)
  qed
qed

definition blank_app :: app_state where
  "blank_app = \<lparr>app_live = live_init, app_discovery = None, app_ai = Map.empty, app_timers = [], app_bursts = []\<rparr>"

text \<open>A login, two failed tickets, an open socket.\<close>

lemma sample_reachable:
  "ws_reachable (fst (on_open 0 (on_ticket 0 (on_retry 0 (on_ticket_failed 0 (run_effect True (provider_init blank_app)))))))"
proof -
  let ?p0 = "run_effect True (provider_init blank_app)"
  have "live_ok (app_live blank_app)" by (simp add: blank_app_def)
  then have r0: "ws_reachable ?p0" by (rule reach_mount)
  note defs = run_effect_def provider_init_def set_ws_def fresh_conn_def on_ticket_failed_def schedule_retry_def
    set_conn_def on_retry_def on_ticket_def Let_def
  have "ws_step ?p0 (on_ticket_failed 0 ?p0)" by (rule step_ticket_failed) (simp_all add: defs)
  with r0 have r1: "ws_reachable (on_ticket_failed 0 ?p0)" by (rule reach_step)
  have "ws_step (on_ticket_failed 0 ?p0) (on_retry 0 (on_ticket_failed 0 ?p0))"
    by (rule step_retry) (simp_all add: defs)
  with r1 have r2: "ws_reachable (on_retry 0 (on_ticket_failed 0 ?p0))" by (rule reach_step)
  have "ws_step (on_retry 0 (on_ticket_failed 0 ?p0)) (on_ticket 0 (on_retry 0 (on_ticket_failed 0 ?p0)))"
    by (rule step_ticket) (simp_all add: defs)
  with r2 have r3: "ws_reachable (on_ticket 0 (on_retry 0 (on_ticket_failed 0 ?p0)))" by (rule reach_step)
  have "ws_step (on_ticket 0 (on_retry 0 (on_ticket_failed 0 ?p0))) (fst (on_open 0 (on_ticket 0 (on_retry 0 (on_ticket_failed 0 ?p0)))))"
    by (rule step_open) (simp_all add: defs)
  with r3 show ?thesis by (rule reach_step)
qed

lemma ws_connection_safe_witness:
  "live_ws (app_live (pv_app (fst (on_open 0 (on_ticket 0 (on_retry 0 (on_ticket_failed 0 (run_effect True (provider_init blank_app))))))))) = Ws_open"
proof -
  let ?p = "fst (on_open 0 (on_ticket 0 (on_retry 0 (on_ticket_failed 0 (run_effect True (provider_init blank_app))))))"
  have "list_ex (\<lambda>c. \<not> cn_closed c \<and> cn_phase c = Opened) (pv_conns ?p)"
    by (simp add: run_effect_def provider_init_def set_ws_def fresh_conn_def on_ticket_failed_def schedule_retry_def
      set_conn_def on_retry_def on_ticket_def on_open_def Let_def)
  then show ?thesis using ws_connection_safe [OF sample_reachable] by simp
qed

subsection \<open>The connection always recovers\<close>

text \<open>
  What the live connection does by itself while all goes well: a ticket that was asked for arrives,
  the timer of a retry runs out, the socket that is being opened opens. Changes of the session are
  no such step, and neither are callbacks of older connections.
\<close>

inductive ws_good :: "provider \<Rightarrow> provider \<Rightarrow> bool" where
  good_ticket: "i < length (pv_conns p) \<Longrightarrow> \<not> cn_closed (pv_conns p ! i) \<Longrightarrow> cn_phase (pv_conns p ! i) = Minting \<Longrightarrow> ws_good p (on_ticket i p)"
| good_retry: "i < length (pv_conns p) \<Longrightarrow> \<not> cn_closed (pv_conns p ! i) \<Longrightarrow> cn_phase (pv_conns p ! i) = Waiting d \<Longrightarrow> ws_good p (on_retry i p)"
| good_open: "i < length (pv_conns p) \<Longrightarrow> \<not> cn_closed (pv_conns p ! i) \<Longrightarrow> cn_phase (pv_conns p ! i) = Opening \<Longrightarrow> ws_good p (fst (on_open i p))"

text \<open>What can go wrong with it: the ticket is refused, or the socket closes.\<close>

inductive ws_fails :: "provider \<Rightarrow> provider \<Rightarrow> bool" where
  no_ticket: "i < length (pv_conns p) \<Longrightarrow> \<not> cn_closed (pv_conns p ! i) \<Longrightarrow> cn_phase (pv_conns p ! i) = Minting \<Longrightarrow>
    ws_fails p (on_ticket_failed i p)"
| socket_lost: "i < length (pv_conns p) \<Longrightarrow> \<not> cn_closed (pv_conns p ! i) \<Longrightarrow> cn_phase (pv_conns p ! i) \<in> {Opening, Opened} \<Longrightarrow>
    ws_fails p (on_close i p)"

inductive_cases ws_goodE: "ws_good p q"
inductive_cases ws_failsE: "ws_fails p q"

lemma ws_good_step: "ws_good p q \<Longrightarrow> ws_step p q"
  by (auto elim!: ws_goodE intro: ws_step.intros)

lemma ws_goods_reachable: "ws_good\<^sup>*\<^sup>* p q \<Longrightarrow> ws_reachable p \<Longrightarrow> ws_reachable q"
  by (induction rule: rtranclp_induct) (auto intro: reach_step ws_good_step)

text \<open>How many of them the live connection is away from an open socket.\<close>

definition away :: "provider \<Rightarrow> nat" where
  "away p = (case cn_phase (last (pv_conns p)) of Waiting d \<Rightarrow> 3 | Minting \<Rightarrow> 2 | Opening \<Rightarrow> 1 | _ \<Rightarrow> 0)"

text \<open>The live connection is the last one.\<close>

lemma live_is_last:
  assumes "ws_reachable p" "i < length (pv_conns p)" "\<not> cn_closed (pv_conns p ! i)"
  shows "pv_auth p" "i = length (pv_conns p) - 1" "pv_conns p ! i = last (pv_conns p)"
proof -
  have "pv_auth p \<and> i = length (pv_conns p) - 1 \<and> pv_conns p ! i = last (pv_conns p)"
    using ws_reachable_inv [OF assms(1)] assms(2)
  proof (cases rule: ws_inv_conn)
    case dead
    then show ?thesis using assms(3) by (simp add: dead_conn_def)
  next
    case (current old c)
    then show ?thesis by simp
  qed
  then show "pv_auth p" "i = length (pv_conns p) - 1" "pv_conns p ! i = last (pv_conns p)" by blast+
qed

lemma live_there:
  assumes "ws_reachable p" "pv_auth p"
  obtains old c where "pv_conns p = old @ [c]" "\<not> cn_closed c" "live_phase (cn_phase c) (pv_reconnects p) (live_ws (app_live (pv_app p)))"
  using ws_reachable_inv [OF assms(1)] assms(2) by (auto simp: ws_inv_def)

lemma last_set_conn: "pv_conns (set_conn i c p) = (pv_conns p)[i := c]"
  by (simp add: set_conn_def)

lemma ws_good_nearer:
  assumes "ws_reachable p" "ws_good p q"
  shows "away p = Suc (away q)" "pv_auth q = pv_auth p"
proof -
  have last: "last ((pv_conns p)[i := c]) = c" if "i < length (pv_conns p)" "i = length (pv_conns p) - 1" for i c
    using that by (cases "pv_conns p" rule: rev_cases) auto
  show "away p = Suc (away q)" "pv_auth q = pv_auth p"
    using assms(2) live_is_last [OF assms(1)]
    by (auto elim!: ws_goodE simp: away_def on_ticket_def on_retry_def on_open_def last_set_conn set_conn_def Let_def last
        split: prod.splits)
qed

lemma ws_good_count: "(ws_good ^^ n) p q \<Longrightarrow> ws_reachable p \<Longrightarrow> away p = n + away q \<and> pv_auth q = pv_auth p"
proof (induction n arbitrary: p)
  case (Suc n)
  from Suc.prems(1) obtain r where r: "ws_good p r" "(ws_good ^^ n) r q" by (blast dest: relpowp_Suc_D2)
  then have "ws_reachable r" using Suc.prems(2) by (blast intro: reach_step ws_good_step)
  with Suc.IH [OF r(2)] ws_good_nearer [OF Suc.prems(2) r(1)] show ?case by simp
qed simp

text \<open>A live connection that is not open has a step to take.\<close>

lemma good_or_open:
  assumes "ws_reachable p" "pv_auth p"
  shows "(\<exists>q. ws_good p q) \<or> live_ws (app_live (pv_app p)) = Ws_open \<and> pv_reconnects p = 0"
proof -
  obtain old c where p: "pv_conns p = old @ [c]" "\<not> cn_closed c"
    "live_phase (cn_phase c) (pv_reconnects p) (live_ws (app_live (pv_app p)))"
    using live_there [OF assms] .
  have i: "length old < length (pv_conns p)" "pv_conns p ! length old = c" using p(1) by auto
  show ?thesis
    using p(2,3) good_ticket [OF i(1)] good_retry [OF i(1)] good_open [OF i(1)]
    by (cases "cn_phase c") (auto simp: i(2) live_phase_def)
qed

lemma ws_good_reaches:
  "ws_reachable p \<Longrightarrow> pv_auth p \<Longrightarrow>
    \<exists>q. (ws_good ^^ away p) p q \<and> live_ws (app_live (pv_app q)) = Ws_open \<and> pv_reconnects q = 0 \<and> pv_auth q"
proof (induction "away p" arbitrary: p)
  case 0
  then have "\<not> (\<exists>q. ws_good p q)" using ws_good_nearer(1) by fastforce
  then show ?case using good_or_open [OF 0(2,3)] 0 by auto
next
  case (Suc n)
  obtain old c where c: "pv_conns p = old @ [c]" "\<not> cn_closed c" using live_there [OF Suc(3,4)] .
  have i: "length old < length (pv_conns p)" "pv_conns p ! length old = c" using c(1) by auto
  have "\<exists>r. ws_good p r"
    using Suc(2) c good_ticket [OF i(1)] good_retry [OF i(1)] good_open [OF i(1)]
    by (cases "cn_phase c") (auto simp: i(2) away_def)
  then obtain r where r: "ws_good p r" by blast
  have "ws_reachable r" using Suc(3) r by (blast intro: reach_step ws_good_step)
  moreover have "away p = Suc (away r)" "pv_auth r" using ws_good_nearer [OF Suc(3) r] Suc(4) by simp_all
  ultimately obtain q where q: "(ws_good ^^ away r) r q" "live_ws (app_live (pv_app q)) = Ws_open" "pv_reconnects q = 0" "pv_auth q"
    using Suc(1) [of r] Suc(2) by auto
  show ?case using relpowp_Suc_I2 [OF r q(1)] q(2-) \<open>away p = Suc (away r)\<close> by auto
qed

text \<open>
  Claim C21. The connection recovers by itself. In every reachable state of an authenticated session, however
  many tickets and sockets have failed: whenever the ticket is refused or the socket of the live connection closes, a
  retry is scheduled after the delay of the failures counted so far, which are counted up; at most
  three steps of the live connection alone - the timer, the ticket, the socket - lead to an open
  socket that the store reports as open and that has reset the delay; and as long as that is not
  reached it has such a step to take, so no other path leads it astray.
\<close>

theorem ws_recovers:
  assumes "ws_reachable p" and "pv_auth p"
  shows "(\<forall>q. ws_fails p q \<longrightarrow> cn_phase (last (pv_conns q)) = Waiting (backoff (pv_reconnects p)) \<and> \<not> cn_closed (last (pv_conns q))
        \<and> pv_reconnects q = pv_reconnects p + 1)
    \<and> (\<exists>n \<le> 3. \<exists>q. (ws_good ^^ n) p q \<and> live_ws (app_live (pv_app q)) = Ws_open \<and> pv_reconnects q = 0 \<and> pv_auth q)
    \<and> (\<forall>n q. (ws_good ^^ n) p q \<longrightarrow> n \<le> 3 \<and>
        ((\<exists>r. ws_good q r) \<or> live_ws (app_live (pv_app q)) = Ws_open \<and> pv_reconnects q = 0))"
proof (intro conjI allI impI)
  have "away p \<le> 3" by (simp add: away_def split: phase.splits)
  then show "\<exists>n \<le> 3. \<exists>q. (ws_good ^^ n) p q \<and> live_ws (app_live (pv_app q)) = Ws_open \<and> pv_reconnects q = 0 \<and> pv_auth q"
    using ws_good_reaches [OF assms] by blast
  fix n q assume n: "(ws_good ^^ n) p q"
  show "n \<le> 3" using ws_good_count [OF n assms(1)] \<open>away p \<le> 3\<close> by simp
  show "(\<exists>r. ws_good q r) \<or> live_ws (app_live (pv_app q)) = Ws_open \<and> pv_reconnects q = 0"
    using good_or_open [OF ws_goods_reachable [OF relpowp_imp_rtranclp [OF n] assms(1)]] ws_good_count [OF n assms(1)] assms(2) by simp
next
  fix q assume f: "ws_fails p q"
  have last: "last ((pv_conns p)[i := c]) = c" if "i < length (pv_conns p)" "i = length (pv_conns p) - 1" for i c
    using that by (cases "pv_conns p" rule: rev_cases) auto
  show "cn_phase (last (pv_conns q)) = Waiting (backoff (pv_reconnects p))" "\<not> cn_closed (last (pv_conns q))"
    "pv_reconnects q = pv_reconnects p + 1"
    using f live_is_last [OF assms(1)]
    by (auto elim!: ws_failsE simp: on_ticket_failed_def on_close_def schedule_retry_def last_set_conn set_conn_def Let_def last)
qed

text \<open>At the start of a session the ticket is awaited; its refusal schedules a retry after one second.\<close>

lemma ws_recovers_witness:
  "(\<exists>n \<le> 3. \<exists>q. (ws_good ^^ n) (run_effect True (provider_init blank_app)) q \<and> live_ws (app_live (pv_app q)) = Ws_open)
   \<and> cn_phase (last (pv_conns (on_ticket_failed 0 (run_effect True (provider_init blank_app))))) = Waiting 1000"
proof -
  let ?p = "run_effect True (provider_init blank_app)"
  have r: "ws_reachable ?p" by (rule reach_mount) (simp add: blank_app_def)
  have a: "pv_auth ?p" "pv_reconnects ?p = 0" by (simp_all add: run_effect_def set_ws_def provider_init_def)
  have f: "ws_fails ?p (on_ticket_failed 0 ?p)"
    by (rule no_ticket) (simp_all add: run_effect_def set_ws_def provider_init_def fresh_conn_def)
  show ?thesis using ws_recovers [OF r a(1)] f a(2) by (auto simp: backoff_def)
qed

text \<open>The URL carries the one-time ticket only.\<close>

(* src ws/WebSocketProvider.tsx 73-75 wsUrl *)
definition wsUrl :: "string \<Rightarrow> string \<Rightarrow> string \<Rightarrow> string" where
  "wsUrl protocol host ticket = (if protocol = ''https:'' then ''wss'' else ''ws'') @ ''://'' @ host
     @ ''/api/ws?ticket='' @ encodeURIComponent ticket"

end
