(* ===== verification/Auth.thy ===== *)
theory Auth
  imports Discovery
begin

text \<open>
  The session of the client (\<open>store/auth.ts\<close>) and the HTTP layer's silent refresh
  (\<open>api/axios-instance.ts\<close>): the in-memory access token, the login with a second factor, one
  shared refresh in flight for all requests that meet a 401, one retry for each, and the route
  guards that read the result (\<open>features/auth/guards.tsx\<close>, \<open>hooks/useRole.ts\<close>). The
  server's answers are events; the promise every waiting request awaits is the state
  \<open>Refreshing\<close> of the request.
\<close>

subsection \<open>Wire types\<close>

(* src api/model/user.ts 13-29 User *)
record user =
  u_id :: string
  u_username :: string
  u_displayName :: "string option"
  u_email :: "string option"
  u_role :: string
  u_authSource :: string
  u_disabled :: "bool option"
  u_canManageDashboardDefaults :: "bool option"
  u_createdAt :: string

(* src api/model/authSession.ts 11-18 AuthSession *)
record auth_session =
  as_accessToken :: string
  as_expiresIn :: int
  as_user :: user
  as_mfaEnrollmentRequired :: "bool option"

text \<open>The answer of a login: a session, or the ticket of the second step.\<close>

(* src store/auth.ts 65-67 isMfaRequired *)
datatype login_result = Login_session auth_session | Login_mfa string "string list"

subsection \<open>The session store\<close>

(* src store/auth.ts 32-32 Status *)
datatype auth_status = Unknown | Authenticated | Anonymous

(* src store/auth.ts 34-53 AuthState *)
record auth_state =
  auth_status :: auth_status
  auth_user :: "user option"
  auth_mfaTicket :: "string option"
  auth_mfaMethods :: "string list"

text \<open>Where a request is: on the wire, waiting for the shared refresh, or answered.\<close>

datatype request_state = In_flight | Refreshing | Answered | Rejected "nat option"

(* src api/axios-instance.ts 70-70 AXIOS_INSTANCE *)
record http_request =
  rq_url :: string
  rq_base :: string
  rq_auth :: "string option"
  rq_retried :: bool
  rq_sends :: nat
  rq_state :: request_state

text \<open>Module state of the client; the query cache is the list of its keys.\<close>

(* src api/axios-instance.ts 24-28 accessToken *)
record client =
  cl_token :: "string option"
  cl_auth :: auth_state
  cl_inflight :: bool
  cl_requests :: "http_request list"
  cl_enroll_redirects :: nat
  cl_discovery :: discovery_store
  cl_queries :: "string list"

(* src store/auth.ts 74-78 useAuth *)
definition auth_init :: auth_state where
  "auth_init = \<lparr>auth_status = Unknown, auth_user = None, auth_mfaTicket = None, auth_mfaMethods = []\<rparr>"

definition client_init :: client where
  "client_init = \<lparr>cl_token = None, cl_auth = auth_init, cl_inflight = False, cl_requests = [],
     cl_enroll_redirects = 0, cl_discovery = None, cl_queries = []\<rparr>"

(* src store/auth.ts 55-63 apply *)
definition apply_session :: "auth_session \<Rightarrow> client \<Rightarrow> client" where
  "apply_session s c = c\<lparr>cl_token := Some (as_accessToken s),
     cl_auth := \<lparr>auth_status = Authenticated, auth_user = Some (as_user s), auth_mfaTicket = None, auth_mfaMethods = []\<rparr>\<rparr>"

(* src store/auth.ts 69-72 clear *)
definition clear_session :: "client \<Rightarrow> client" where
  "clear_session c = c\<lparr>cl_token := None,
     cl_auth := \<lparr>auth_status = Anonymous, auth_user = None, auth_mfaTicket = None, auth_mfaMethods = []\<rparr>\<rparr>"

(* src store/auth.ts 84-91 login *)
definition login_done :: "login_result \<Rightarrow> client \<Rightarrow> client" where
  "login_done r c = (case r of
     Login_mfa ticket methods \<Rightarrow> c\<lparr>cl_auth := (cl_auth c)\<lparr>auth_mfaTicket := Some ticket, auth_mfaMethods := methods\<rparr>\<rparr>
   | Login_session s \<Rightarrow> apply_session s c)"

text \<open>The ticket \<open>submitMfa\<close> sends, or the error it throws.\<close>

(* src store/auth.ts 93-95 submitMfa *)
definition submitMfa :: "client \<Rightarrow> string result" where
  "submitMfa c = (case auth_mfaTicket (cl_auth c) of
     None \<Rightarrow> Throw ''no pending MFA login''
   | Some ticket \<Rightarrow> if ticket = [] then Throw ''no pending MFA login'' else Ok ticket)"

(* src store/auth.ts 96-96 submitMfa *)
definition mfa_done :: "auth_session \<Rightarrow> client \<Rightarrow> client" where
  "mfa_done = apply_session"

(* src store/auth.ts 99-101 cancelMfa *)
definition cancelMfa :: "client \<Rightarrow> client" where
  "cancelMfa c = c\<lparr>cl_auth := (cl_auth c)\<lparr>auth_mfaTicket := None, auth_mfaMethods := []\<rparr>\<rparr>"

(* src store/auth.ts 103-105 loginOidc *)
definition oidc_done :: "auth_session \<Rightarrow> client \<Rightarrow> client" where
  "oidc_done = apply_session"

text \<open>After the logout call was answered or failed.\<close>

(* src store/auth.ts 107-117 logout *)
definition logout_done :: "client \<Rightarrow> client" where
  "logout_done c = clear_session (c\<lparr>cl_queries := [], cl_discovery := setScan None (cl_discovery c)\<rparr>)"

subsection \<open>Requests\<close>

(* src api/axios-instance.ts 52-63 AXIOS_INSTANCE *)
definition attach :: "client \<Rightarrow> http_request \<Rightarrow> http_request" where
  "attach c rq =
     (let rq1 = (if rq_url rq = ''/healthz'' \<or> rq_url rq = ''/readyz'' then rq\<lparr>rq_base := []\<rparr> else rq)
      in case cl_token c of None \<Rightarrow> rq1
         | Some token \<Rightarrow> if token = [] then rq1 else rq1\<lparr>rq_auth := Some (''Bearer '' @ token)\<rparr>)"

text \<open>A send counts, so that retries can be counted.\<close>

definition send :: "client \<Rightarrow> http_request \<Rightarrow> http_request" where
  "send c rq = (attach c rq)\<lparr>rq_state := In_flight, rq_sends := rq_sends rq + 1\<rparr>"

(* src api/axios-instance.ts 97-114 customInstance *)
definition start_request :: "string \<Rightarrow> client \<Rightarrow> client" where
  "start_request url c = c\<lparr>cl_requests := cl_requests c @
     [send c \<lparr>rq_url = url, rq_base = ''/api'', rq_auth = None, rq_retried = False, rq_sends = 0, rq_state = In_flight\<rparr>]\<rparr>"

definition set_request :: "nat \<Rightarrow> http_request \<Rightarrow> client \<Rightarrow> client" where
  "set_request i rq c = c\<lparr>cl_requests := (cl_requests c)[i := rq]\<rparr>"

(* src api/axios-instance.ts 68-68 AXIOS_INSTANCE *)
definition request_ok :: "nat \<Rightarrow> client \<Rightarrow> client" where
  "request_ok i c = set_request i ((cl_requests c ! i)\<lparr>rq_state := Answered\<rparr>) c"

text \<open>\<open>refreshInFlight ??= ...\<close>: a running refresh is shared.\<close>

(* src store/auth.ts 125-127 refreshSession *)
definition refreshSession :: "client \<Rightarrow> client" where
  "refreshSession c = c\<lparr>cl_inflight := True\<rparr>"

(* src api/axios-instance.ts 83-89 AXIOS_INSTANCE *)
definition reject_request :: "nat \<Rightarrow> nat option \<Rightarrow> string option \<Rightarrow> client \<Rightarrow> client" where
  "reject_request i status code c =
     (let c1 = set_request i ((cl_requests c ! i)\<lparr>rq_state := Rejected status\<rparr>) c
      in if status = Some 403 \<and> code = Some ''mfa_enrollment_required''
         then c1\<lparr>cl_enroll_redirects := cl_enroll_redirects c1 + 1\<rparr> else c1)"

text \<open>\<open>status\<close> is \<^const>\<open>None\<close> when no response arrived.\<close>

(* src api/axios-instance.ts 65-91 AXIOS_INSTANCE *)
definition request_error :: "nat \<Rightarrow> nat option \<Rightarrow> string option \<Rightarrow> client \<Rightarrow> client" where
  "request_error i status code c =
     (let rq = cl_requests c ! i
      in if status = Some 401 \<and> \<not> rq_retried rq \<and> \<not> has_sub ''/auth/refresh'' (rq_url rq)
         then refreshSession (set_request i (rq\<lparr>rq_retried := True, rq_state := Refreshing\<rparr>) c)
         else reject_request i status code c)"

text \<open>The refresh is answered: every waiting request is resumed with its result.\<close>

(* src api/axios-instance.ts 78-81 AXIOS_INSTANCE *)
definition resume :: "bool \<Rightarrow> client \<Rightarrow> client" where
  "resume refreshed c = c\<lparr>cl_requests := map (\<lambda>rq. if rq_state rq \<noteq> Refreshing then rq
     else if refreshed then send c rq else rq\<lparr>rq_state := Rejected (Some 401)\<rparr>) (cl_requests c)\<rparr>"

(* src store/auth.ts 126-141 refreshSession *)
definition refresh_done :: "auth_session option \<Rightarrow> nat option \<Rightarrow> client \<Rightarrow> client" where
  "refresh_done session status c =
     (case session of
        Some s \<Rightarrow> resume True (apply_session s (c\<lparr>cl_inflight := False\<rparr>))
      | None \<Rightarrow> resume False
          ((if status = Some 401 \<or> status = Some 403 then clear_session else (\<lambda>c. c)) (c\<lparr>cl_inflight := False\<rparr>)))"

(* src store/auth.ts 80-82 bootstrap *)
definition bootstrap_failed :: "client \<Rightarrow> client" where
  "bootstrap_failed = clear_session"

subsection \<open>Steps of the client\<close>

inductive auth_step :: "client \<Rightarrow> client \<Rightarrow> bool" where
  as_start: "auth_step c (start_request url c)"
| as_refresh: "auth_step c (refreshSession c)"
| as_login: "auth_step c (login_done r c)"
| as_mfa: "auth_step c (mfa_done s c)"
| as_cancel: "auth_step c (cancelMfa c)"
| as_oidc: "auth_step c (oidc_done s c)"
| as_logout: "auth_step c (logout_done c)"
| as_bootstrap: "auth_step c (bootstrap_failed c)"
| as_ok: "i < length (cl_requests c) \<Longrightarrow> rq_state (cl_requests c ! i) = In_flight \<Longrightarrow> auth_step c (request_ok i c)"
| as_error: "i < length (cl_requests c) \<Longrightarrow> rq_state (cl_requests c ! i) = In_flight \<Longrightarrow>
    auth_step c (request_error i status code c)"
| as_refreshed: "cl_inflight c \<Longrightarrow> auth_step c (refresh_done session status c)"

inductive_cases auth_stepE: "auth_step c d"

inductive auth_reachable :: "client \<Rightarrow> bool" where
  auth_start: "auth_reachable client_init"
| auth_next: "auth_reachable c \<Longrightarrow> auth_step c d \<Longrightarrow> auth_reachable d"

text \<open>The token, the user and the status agree; requests wait only for a refresh in flight.\<close>

definition session_ok :: "client \<Rightarrow> bool" where
  "session_ok c \<longleftrightarrow> (auth_status (cl_auth c) = Authenticated \<longleftrightarrow> cl_token c \<noteq> None)
     \<and> (cl_token c \<noteq> None \<longleftrightarrow> auth_user (cl_auth c) \<noteq> None)"

definition request_ok_inv :: "bool \<Rightarrow> http_request \<Rightarrow> bool" where
  "request_ok_inv inflight rq \<longleftrightarrow> 1 \<le> rq_sends rq \<and> rq_sends rq \<le> (if rq_retried rq then 2 else 1)
     \<and> (rq_state rq = Refreshing \<longrightarrow> inflight \<and> rq_retried rq \<and> rq_sends rq = 1)"

definition auth_inv :: "client \<Rightarrow> bool" where
  "auth_inv c \<longleftrightarrow> session_ok c \<and> list_all (request_ok_inv (cl_inflight c)) (cl_requests c)"

lemma attach_frame [simp]:
  "rq_sends (attach c rq) = rq_sends rq" "rq_retried (attach c rq) = rq_retried rq"
  "rq_url (attach c rq) = rq_url rq" "rq_state (attach c rq) = rq_state rq"
  by (auto simp: attach_def Let_def split: option.splits)

lemmas session_defs = apply_session_def clear_session_def login_done_def mfa_done_def cancelMfa_def oidc_done_def
  logout_done_def bootstrap_failed_def setScan_def

lemma request_inv_mono: "request_ok_inv b rq \<Longrightarrow> b \<longrightarrow> b' \<Longrightarrow> request_ok_inv b' rq"
  by (auto simp: request_ok_inv_def)

lemma list_all_set: "list_all P xs \<Longrightarrow> P y \<Longrightarrow> list_all P (xs[i := y])"
  by (auto simp: list_all_iff dest!: set_update_subset_insert [THEN subsetD])

lemma auth_inv_session:
  "auth_inv c \<Longrightarrow> session_ok d \<Longrightarrow> cl_requests d = cl_requests c \<Longrightarrow> cl_inflight d = cl_inflight c \<Longrightarrow> auth_inv d"
  by (simp add: auth_inv_def)

lemma session_ok_ops:
  "session_ok (apply_session s c)" "session_ok (clear_session c)"
  "session_ok c \<Longrightarrow> session_ok (login_done r c)" "session_ok c \<Longrightarrow> session_ok (cancelMfa c)"
  "session_ok (logout_done c)"
  by (auto simp: session_ok_def session_defs split: login_result.splits)

lemma inv_request_error:
  assumes "auth_inv c" and "i < length (cl_requests c)" and "rq_state (cl_requests c ! i) = In_flight"
  shows "auth_inv (request_error i status code c)"
proof -
  let ?rq = "cl_requests c ! i"
  have all: "list_all (request_ok_inv (cl_inflight c)) (cl_requests c)" using assms(1) by (simp add: auth_inv_def)
  then have rq: "request_ok_inv (cl_inflight c) ?rq" using assms(2) by (simp add: list_all_length)
  show ?thesis
  proof (cases "status = Some 401 \<and> \<not> rq_retried ?rq \<and> \<not> has_sub ''/auth/refresh'' (rq_url ?rq)")
    case True
    have "list_all (request_ok_inv True) (cl_requests c)"
      using all by (auto simp: list_all_iff intro: request_inv_mono)
    moreover have "request_ok_inv True (?rq\<lparr>rq_retried := True, rq_state := Refreshing\<rparr>)"
      using rq True by (auto simp: request_ok_inv_def)
    ultimately have "list_all (request_ok_inv True) ((cl_requests c)[i := ?rq\<lparr>rq_retried := True, rq_state := Refreshing\<rparr>])"
      by (rule list_all_set)
    then show ?thesis using True assms(1)
      by (simp add: request_error_def Let_def refreshSession_def set_request_def auth_inv_def session_ok_def)
  next
    case False
    have "request_ok_inv (cl_inflight c) (?rq\<lparr>rq_state := Rejected status\<rparr>)"
      using rq by (auto simp: request_ok_inv_def)
    then have "list_all (request_ok_inv (cl_inflight c)) ((cl_requests c)[i := ?rq\<lparr>rq_state := Rejected status\<rparr>])"
      by (rule list_all_set [OF all])
    with False assms(1) have "auth_inv (reject_request i status code c)"
      by (auto simp: reject_request_def Let_def set_request_def auth_inv_def session_ok_def)
    with False show ?thesis by (auto simp: request_error_def Let_def)
  qed
qed

lemma inv_refresh_done:
  assumes "auth_inv c"
  shows "auth_inv (refresh_done session status c)"
proof -
  have wait: "list_all (request_ok_inv False) (cl_requests (resume b d))" if "cl_requests d = cl_requests c" for b d
    using assms that by (auto simp: auth_inv_def resume_def list_all_iff request_ok_inv_def send_def)
  have "cl_inflight (refresh_done session status c) = False"
    by (auto simp: refresh_done_def resume_def session_defs split: option.splits)
  moreover have "list_all (request_ok_inv False) (cl_requests (refresh_done session status c))"
    unfolding refresh_done_def by (auto simp: session_defs split: option.splits intro!: wait)
  moreover have "session_ok (refresh_done session status c)"
    using assms by (auto simp: refresh_done_def resume_def session_ok_def session_defs auth_inv_def split: option.splits)
  ultimately show ?thesis by (simp add: auth_inv_def)
qed

lemma auth_step_inv:
  assumes "auth_step c d" and "auth_inv c"
  shows "auth_inv d"
  using assms(1)
proof cases
  case (as_start url)
  then show ?thesis using assms(2)
    by (auto simp: start_request_def auth_inv_def session_ok_def send_def request_ok_inv_def)
next
  case as_refresh
  then show ?thesis using assms(2)
    by (auto simp: refreshSession_def auth_inv_def session_ok_def list_all_iff intro: request_inv_mono)
next
  case (as_ok i)
  have "request_ok_inv (cl_inflight c) (cl_requests c ! i)" using as_ok assms(2) by (simp add: auth_inv_def list_all_length)
  then have "request_ok_inv (cl_inflight c) ((cl_requests c ! i)\<lparr>rq_state := Answered\<rparr>)"
    by (auto simp: request_ok_inv_def)
  then have "list_all (request_ok_inv (cl_inflight c)) ((cl_requests c)[i := (cl_requests c ! i)\<lparr>rq_state := Answered\<rparr>])"
    using assms(2) list_all_set by (auto simp: auth_inv_def)
  then show ?thesis using assms(2) as_ok by (simp add: request_ok_def set_request_def auth_inv_def session_ok_def)
qed (use assms(2) inv_request_error inv_refresh_done session_ok_ops in
      \<open>auto simp: auth_inv_def session_defs split: login_result.splits\<close>)

lemma auth_reachable_inv: "auth_reachable c \<Longrightarrow> auth_inv c"
proof (induction rule: auth_reachable.induct)
  case auth_start
  then show ?case by (simp add: client_init_def auth_init_def auth_inv_def session_ok_def)
next
  case (auth_next c d)
  then show ?case by (blast intro: auth_step_inv)
qed

text \<open>
  Claim C6. In every interleaving of requests, refreshes, logins and logouts the status is
  authenticated exactly when a token and a user are held; a request waits for a refresh only
  while one is in flight; and every request is sent at most twice, the second time only as the
  retry after a refresh.
\<close>

theorem auth_session_safe:
  assumes "auth_reachable c"
  shows "(auth_status (cl_auth c) = Authenticated \<longleftrightarrow> cl_token c \<noteq> None)
    \<and> (cl_token c \<noteq> None \<longleftrightarrow> auth_user (cl_auth c) \<noteq> None)
    \<and> list_all (\<lambda>rq. rq_sends rq \<le> 2 \<and> (rq_sends rq = 2 \<longrightarrow> rq_retried rq)
        \<and> (rq_state rq = Refreshing \<longrightarrow> cl_inflight c)) (cl_requests c)"
proof -
  have inv: "session_ok c" "list_all (request_ok_inv (cl_inflight c)) (cl_requests c)"
    using auth_reachable_inv [OF assms] by (simp_all add: auth_inv_def)
  have "list_all (\<lambda>rq. rq_sends rq \<le> 2 \<and> (rq_sends rq = 2 \<longrightarrow> rq_retried rq)
        \<and> (rq_state rq = Refreshing \<longrightarrow> cl_inflight c)) (cl_requests c)"
    using inv(2) by (rule list.pred_mono_strong) (auto simp: request_ok_inv_def split: if_splits)
  with inv(1) show ?thesis by (simp add: session_ok_def)
qed

definition sample_user :: user where
  "sample_user = \<lparr>u_id = ''u1'', u_username = ''ada'', u_displayName = None, u_email = None, u_role = ''admin'',
     u_authSource = ''local'', u_disabled = None, u_canManageDashboardDefaults = None, u_createdAt = ''t0''\<rparr>"

definition sample_session :: auth_session where
  "sample_session = \<lparr>as_accessToken = ''tok'', as_expiresIn = 900, as_user = sample_user, as_mfaEnrollmentRequired = None\<rparr>"

lemma auth_session_safe_witness:
  "cl_token (oidc_done sample_session client_init) = Some ''tok''
   \<and> auth_status (cl_auth (oidc_done sample_session client_init)) = Authenticated"
proof -
  have "auth_reachable (oidc_done sample_session client_init)"
    by (rule auth_next [OF auth_start as_oidc])
  from auth_session_safe [OF this] show ?thesis
    by (simp add: oidc_done_def apply_session_def sample_session_def)
qed

subsection \<open>Requests terminate\<close>

text \<open>What a request may still cost: its first answer, the refresh, the answer to the retry.\<close>

definition request_work :: "http_request \<Rightarrow> nat" where
  "request_work rq = (case rq_state rq of In_flight \<Rightarrow> if rq_retried rq then 1 else 3 | Refreshing \<Rightarrow> 1 | _ \<Rightarrow> 0)"

definition client_work :: "client \<Rightarrow> nat" where
  "client_work c = sum_list (map request_work (cl_requests c)) + (if cl_inflight c then 1 else 0)"

text \<open>The answers that can arrive, and the changes of the session that bring no request.\<close>

inductive answer_step :: "client \<Rightarrow> client \<Rightarrow> bool" where
  answer_ok: "i < length (cl_requests c) \<Longrightarrow> rq_state (cl_requests c ! i) = In_flight \<Longrightarrow> answer_step c (request_ok i c)"
| answer_error: "i < length (cl_requests c) \<Longrightarrow> rq_state (cl_requests c ! i) = In_flight \<Longrightarrow>
    answer_step c (request_error i status code c)"
| answer_refresh: "cl_inflight c \<Longrightarrow> answer_step c (refresh_done session status c)"

inductive session_step :: "client \<Rightarrow> client \<Rightarrow> bool" where
  session_login: "session_step c (login_done r c)"
| session_mfa: "session_step c (mfa_done s c)"
| session_cancel: "session_step c (cancelMfa c)"
| session_oidc: "session_step c (oidc_done s c)"
| session_logout: "session_step c (logout_done c)"
| session_bootstrap: "session_step c (bootstrap_failed c)"

text \<open>A run of the client with the numbers of requests made, of refreshes asked for and of answers.\<close>

inductive auth_run :: "nat \<Rightarrow> nat \<Rightarrow> nat \<Rightarrow> client \<Rightarrow> bool" where
  run_init: "auth_run 0 0 0 client_init"
| run_request: "auth_run m r n c \<Longrightarrow> auth_run (Suc m) r n (start_request url c)"
| run_refresh: "auth_run m r n c \<Longrightarrow> auth_run m (Suc r) n (refreshSession c)"
| run_session: "auth_run m r n c \<Longrightarrow> session_step c d \<Longrightarrow> auth_run m r n d"
| run_answer: "auth_run m r n c \<Longrightarrow> answer_step c d \<Longrightarrow> auth_run m r (Suc n) d"

inductive_cases session_stepE: "session_step c d"
inductive_cases answer_stepE: "answer_step c d"

lemma session_is_step: "session_step c d \<Longrightarrow> auth_step c d"
  by (auto elim!: session_stepE intro: auth_step.intros)

lemma answer_is_step: "answer_step c d \<Longrightarrow> auth_step c d"
  by (auto elim!: answer_stepE intro: auth_step.intros)

text \<open>These are all runs of the client.\<close>

lemma auth_run_iff: "auth_reachable c \<longleftrightarrow> (\<exists>m r n. auth_run m r n c)"
proof
  show "auth_reachable c \<Longrightarrow> \<exists>m r n. auth_run m r n c"
  proof (induction rule: auth_reachable.induct)
    case (auth_next c d)
    then obtain m r n where "auth_run m r n c" by blast
    with auth_next(2) show ?case
      by (cases rule: auth_step.cases) (blast intro: auth_run.intros session_step.intros answer_step.intros)+
  qed (blast intro: run_init)
next
  show "\<exists>m r n. auth_run m r n c \<Longrightarrow> auth_reachable c"
  proof (elim exE)
    fix m r n assume "auth_run m r n c"
    then show "auth_reachable c"
    proof (induction rule: auth_run.induct)
      case (run_session m r n c d)
      then show ?case using session_is_step auth_next by blast
    next
      case (run_answer m r n c d)
      then show ?case using answer_is_step auth_next by blast
    qed (blast intro: auth_start auth_next as_start as_refresh)+
  qed
qed

lemma sum_list_update_less:
  "i < length xs \<Longrightarrow> f y + k \<le> f (xs ! i) \<Longrightarrow> sum_list (map f (xs[i := y])) + k \<le> sum_list (map (f :: 'a \<Rightarrow> nat) xs)"
  by (induction xs arbitrary: i) (auto split: nat.splits simp: nth_Cons')

lemma ok_work:
  assumes "i < length (cl_requests c)" "rq_state (cl_requests c ! i) = In_flight"
  shows "client_work (request_ok i c) < client_work c"
proof -
  let ?rq = "cl_requests c ! i"
  have "Suc 0 \<le> (if rq_retried ?rq then 1 else 3)" by simp
  then show ?thesis
    using sum_list_update_less [OF assms(1), of request_work "?rq\<lparr>rq_state := Answered\<rparr>" 1] assms(2)
    by (simp add: client_work_def request_ok_def set_request_def request_work_def)
qed

lemma error_work:
  assumes "i < length (cl_requests c)" "rq_state (cl_requests c ! i) = In_flight"
  shows "client_work (request_error i status code c) < client_work c"
proof (cases "status = Some 401 \<and> \<not> rq_retried (cl_requests c ! i) \<and> \<not> has_sub ''/auth/refresh'' (rq_url (cl_requests c ! i))")
  case True
  then show ?thesis
    using sum_list_update_less [OF assms(1), of request_work "(cl_requests c ! i)\<lparr>rq_retried := True, rq_state := Refreshing\<rparr>" 2] assms(2)
    by (simp add: client_work_def request_error_def Let_def refreshSession_def set_request_def request_work_def)
next
  case False
  have "Suc 0 \<le> (if rq_retried (cl_requests c ! i) then 1 else 3)" by simp
  with False show ?thesis
    using sum_list_update_less [OF assms(1), of request_work "(cl_requests c ! i)\<lparr>rq_state := Rejected status\<rparr>" 1] assms(2)
    by (auto simp: client_work_def request_error_def Let_def reject_request_def set_request_def request_work_def)
qed

lemma refresh_work:
  assumes "auth_inv c" "cl_inflight c"
  shows "client_work (refresh_done session status c) < client_work c"
proof -
  have wait: "sum_list (map request_work (cl_requests (resume b d))) \<le> sum_list (map request_work (cl_requests c))"
    if "cl_requests d = cl_requests c" for b d
  proof -
    have "request_work (if rq_state rq \<noteq> Refreshing then rq else if b then send d rq else rq\<lparr>rq_state := Rejected (Some 401)\<rparr>)
        \<le> request_work rq" if "rq \<in> set (cl_requests c)" for rq
      using assms(1) that by (auto simp: auth_inv_def list_all_iff request_ok_inv_def request_work_def send_def)
    then show ?thesis using that by (auto simp: resume_def o_def intro!: sum_list_mono)
  qed
  have "cl_inflight (refresh_done session status c) = False"
    by (auto simp: refresh_done_def resume_def session_defs split: option.splits)
  moreover have "sum_list (map request_work (cl_requests (refresh_done session status c))) \<le> sum_list (map request_work (cl_requests c))"
    unfolding refresh_done_def by (auto simp: session_defs split: option.splits intro!: wait)
  ultimately show ?thesis using assms(2) by (simp add: client_work_def)
qed

lemma answer_work: "answer_step c d \<Longrightarrow> auth_inv c \<Longrightarrow> client_work d < client_work c"
  by (auto elim!: answer_stepE intro: ok_work error_work refresh_work)

lemma session_work: "session_step c d \<Longrightarrow> client_work d = client_work c"
  by (auto elim!: session_stepE simp: client_work_def session_defs split: login_result.splits)

lemma start_work: "client_work (start_request url c) = client_work c + 3"
  by (simp add: client_work_def start_request_def send_def request_work_def)

lemma run_work: "auth_run m r n c \<Longrightarrow> n + client_work c \<le> 3 * m + r"
proof (induction rule: auth_run.induct)
  case (run_answer m r n c d)
  have "auth_inv c" using auth_reachable_inv auth_run_iff run_answer(1) by blast
  with answer_work [OF run_answer(2)] run_answer(3) show ?case by simp
qed (auto simp: session_work start_work, auto simp: client_work_def client_init_def refreshSession_def)

definition settled :: "http_request \<Rightarrow> bool" where
  "settled rq \<longleftrightarrow> (case rq_state rq of In_flight \<Rightarrow> False | Refreshing \<Rightarrow> False | _ \<Rightarrow> True)"

lemma no_answer_settled:
  assumes "auth_inv c" "\<not> (\<exists>d. answer_step c d)"
  shows "list_all settled (cl_requests c)"
proof -
  have "\<not> cl_inflight c" using assms(2) answer_refresh by blast
  moreover have "rq_state (cl_requests c ! i) \<noteq> In_flight" if "i < length (cl_requests c)" for i
    using assms(2) answer_ok [OF that] by blast
  moreover have "rq_state (cl_requests c ! i) = Refreshing \<longrightarrow> cl_inflight c" if "i < length (cl_requests c)" for i
    using assms(1) that by (simp add: auth_inv_def list_all_length request_ok_inv_def)
  ultimately show ?thesis by (auto simp: list_all_length settled_def split: request_state.splits)
qed

text \<open>
  Claim C22. Requests cannot loop and none is left waiting. However requests, refreshes, answers, logins and logouts
  interleave: the requests made, counted threefold, and the refreshes asked for bound the number of
  answers that have come and may still come, so after the last request only finitely many answers
  follow; and when no more answer is outstanding, every request was answered or rejected. So the
  retry after a 401 is never retried again, whatever the server answers.
\<close>

theorem requests_terminate:
  assumes "auth_run m r n c"
  shows "n + client_work c \<le> 3 * m + r
    \<and> (\<forall>d. answer_step c d \<longrightarrow> client_work d < client_work c)
    \<and> ((\<exists>d. answer_step c d) \<or> list_all settled (cl_requests c))"
proof -
  have inv: "auth_inv c" using auth_reachable_inv auth_run_iff assms by blast
  show ?thesis using run_work [OF assms] answer_work [OF _ inv] no_answer_settled [OF inv] by blast
qed

text \<open>A request, its refusal, the refresh, the answer to the retry: three answers, and nothing is left.\<close>

lemma requests_terminate_witness:
  "\<exists>c. auth_run 1 0 3 c \<and> client_work c = 0 \<and> list_all settled (cl_requests c)"
proof -
  let ?c1 = "start_request ''/alerts'' client_init"
  let ?c2 = "request_error 0 (Some 401) None ?c1"
  let ?c3 = "refresh_done (Some sample_session) None ?c2"
  let ?c4 = "request_ok 0 ?c3"
  note defs = start_request_def client_init_def send_def request_error_def Let_def set_request_def refreshSession_def refresh_done_def
    resume_def apply_session_def
  have url: "\<not> has_sub ''/auth/refresh'' ''/alerts''" by code_simp
  have "auth_run 1 0 0 ?c1" using run_request [OF run_init] by simp
  moreover have "answer_step ?c1 ?c2" by (rule answer_error) (simp_all add: defs)
  moreover have "answer_step ?c2 ?c3" by (rule answer_refresh) (simp add: defs url del: has_sub.simps)
  moreover have "answer_step ?c3 ?c4" by (rule answer_ok) (simp_all add: defs url del: has_sub.simps)
  ultimately have "auth_run 1 0 (Suc (Suc (Suc 0))) ?c4" by (blast intro: run_answer)
  then have run: "auth_run 1 0 3 ?c4" by (simp add: eval_nat_numeral)
  have "client_work ?c4 = 0" using requests_terminate [OF run] by simp
  then have "\<not> (\<exists>d. answer_step ?c4 d)" using requests_terminate [OF run] by auto
  then show ?thesis using requests_terminate [OF run] run \<open>client_work ?c4 = 0\<close> by blast
qed

text \<open>
  The answer of a refresh decides every waiting request at once. A new session is stored
  and every waiting request is sent again with the new token; a rejection by the server (401 or
  403) drops the session and rejects them; any other failure rejects them but leaves the session
  as it was. No request is left waiting, and requests that were not waiting are untouched.
\<close>

theorem refresh_outcome:
  fixes s :: auth_session
  assumes "as_accessToken s \<noteq> []"
  shows "cl_token (refresh_done (Some s) st c) = Some (as_accessToken s)
   \<and> auth_user (cl_auth (refresh_done (Some s) st c)) = Some (as_user s)
   \<and> map rq_state (cl_requests (refresh_done (Some s) st c)) =
       map (\<lambda>rq. if rq_state rq = Refreshing then In_flight else rq_state rq) (cl_requests c)
   \<and> list_all2 (\<lambda>rq rq'. if rq_state rq = Refreshing then rq_auth rq' = Some (''Bearer '' @ as_accessToken s) else rq' = rq)
       (cl_requests c) (cl_requests (refresh_done (Some s) st c))
   \<and> map rq_state (cl_requests (refresh_done None st c)) =
       map (\<lambda>rq. if rq_state rq = Refreshing then Rejected (Some 401) else rq_state rq) (cl_requests c)
   \<and> (if st = Some 401 \<or> st = Some 403
      then cl_token (refresh_done None st c) = None \<and> auth_status (cl_auth (refresh_done None st c)) = Anonymous
      else cl_token (refresh_done None st c) = cl_token c \<and> cl_auth (refresh_done None st c) = cl_auth c)"
proof -
  have "list_all2 (\<lambda>rq rq'. if rq_state rq = Refreshing then rq_auth rq' = Some (''Bearer '' @ as_accessToken s) else rq' = rq)
       (cl_requests c) (cl_requests (refresh_done (Some s) st c))"
    using assms by (auto simp: refresh_done_def resume_def session_defs list_all2_conv_all_nth send_def attach_def Let_def)
  then show ?thesis by (auto simp: refresh_done_def resume_def session_defs send_def)
qed

lemma refresh_outcome_witness:
  "cl_token (refresh_done None (Some 503) (oidc_done sample_session client_init)) = Some ''tok''
   \<and> cl_token (refresh_done (Some sample_session) (Some 503) (oidc_done sample_session client_init)) = Some ''tok''"
  using refresh_outcome [of sample_session "Some 503" "oidc_done sample_session client_init"]
  by (simp add: oidc_done_def apply_session_def sample_session_def)

text \<open>
  A logout leaves nothing of the session in the client, whether or not the server
  answered: no token, no user, no pending second factor, no cached query and no scan results.
\<close>

theorem logout_clears:
  "cl_token (logout_done c) = None \<and> auth_status (cl_auth (logout_done c)) = Anonymous
   \<and> auth_user (cl_auth (logout_done c)) = None \<and> auth_mfaTicket (cl_auth (logout_done c)) = None
   \<and> auth_mfaMethods (cl_auth (logout_done c)) = [] \<and> cl_queries (logout_done c) = []
   \<and> cl_discovery (logout_done c) = None"
  by (simp add: session_defs)

subsection \<open>Guards and roles\<close>

datatype guard = Children | Splash | Redirect string

(* src features/auth/guards.tsx 52-61 RequireAuth *)
definition RequireAuth :: "auth_status \<Rightarrow> guard" where
  "RequireAuth status = (if status = Unknown then Splash
     else if status = Anonymous then Redirect ''/login'' else Children)"

(* src features/auth/guards.tsx 63-71 RequireInstanceAdmin *)
definition RequireInstanceAdmin :: "bool \<Rightarrow> bool \<Rightarrow> guard" where
  "RequireInstanceAdmin isLoading isInstanceAdmin =
     (if isLoading then Splash else if \<not> isInstanceAdmin then Redirect ''/forbidden'' else Children)"

text \<open>\<open>data\<close> is the number of connectors when the list has arrived; the skeleton is a splash.\<close>

(* src features/auth/guards.tsx 73-84 RequireOnboarded *)
definition RequireOnboarded :: "nat option \<Rightarrow> bool \<Rightarrow> string \<Rightarrow> guard" where
  "RequireOnboarded data isLoading pathname =
     (if pathname = ''/search'' \<or> pathname = ''/docs'' \<or> starts_with ''/docs/'' pathname then Children
      else if isLoading then Splash
      else if data = Some 0 then Redirect ''/onboarding'' else Children)"

record connector_role =
  cr_id :: string
  cr_myRole :: "string option"

(* src hooks/useRole.ts 21-25 useIsInstanceAdmin *)
definition useIsInstanceAdmin :: "string option \<Rightarrow> bool" where
  "useIsInstanceAdmin me_role \<longleftrightarrow> me_role = Some ''admin''"

(* src hooks/useRole.ts 27-33 useConnectorRole *)
definition useConnectorRole :: "connector_role list option \<Rightarrow> string option \<Rightarrow> string option" where
  "useConnectorRole data connectorId =
     (case find (\<lambda>c. Some (cr_id c) = connectorId) (from_opt [] data) of None \<Rightarrow> None
      | Some c \<Rightarrow> (case cr_myRole c of None \<Rightarrow> None | Some r \<Rightarrow> if r = [] then None else Some r))"

(* src hooks/useRole.ts 35-40 useOperatorConnectorIds *)
definition useOperatorConnectorIds :: "connector_role list option \<Rightarrow> string set" where
  "useOperatorConnectorIds data =
     set (map cr_id (filter (\<lambda>c. cr_myRole c = Some ''operator'') (from_opt [] data)))"

(* src hooks/useRole.ts 42-53 useCanMutate *)
definition useCanMutate :: "string option \<Rightarrow> connector_role list option \<Rightarrow> bool" where
  "useCanMutate me_role data \<longleftrightarrow> useIsInstanceAdmin me_role \<or> card (useOperatorConnectorIds data) > 0"

lemma useCanMutate_iff:
  "useCanMutate me_role data \<longleftrightarrow> me_role = Some ''admin''
     \<or> (\<exists>c \<in> set (from_opt [] data). cr_myRole c = Some ''operator'')"
  unfolding useCanMutate_def useIsInstanceAdmin_def useOperatorConnectorIds_def
  by (auto simp: card_gt_0_iff)

text \<open>The message of the step-up popup.\<close>

(* src features/auth/oidcStepUpFlow.ts 5-5 OIDC_STEP_UP_MESSAGE *)
definition OIDC_STEP_UP_MESSAGE :: string where "OIDC_STEP_UP_MESSAGE = ''wiselabz:oidc-elevate''"

text \<open>The posted value: an object is the list of its members that are strings, or not.\<close>

datatype posted = Posted_object "(string \<times> string option) list" | Posted_null | Posted_other

definition posted_string :: "(string \<times> string option) list \<Rightarrow> string \<Rightarrow> string option" where
  "posted_string ms k = Option.bind (map_of ms k) (\<lambda>v. v)"

(* src features/auth/oidcStepUpFlow.ts 13-21 isOIDCStepUpMessage *)
definition isOIDCStepUpMessage :: "posted \<Rightarrow> bool" where
  "isOIDCStepUpMessage data = (case data of
     Posted_object ms \<Rightarrow> posted_string ms ''type'' = Some OIDC_STEP_UP_MESSAGE
       \<and> posted_string ms ''code'' \<noteq> None \<and> posted_string ms ''state'' \<noteq> None
   | _ \<Rightarrow> False)"

end
