(* ===== verification/Storage.thy ===== *)
theory Storage
  imports Complex_Main Prelude
begin

text \<open>
  The browser storage the client persists preferences in, and the contract its stores share.
  A stored text is either plain or the text \<open>JSON.stringify\<close> makes of a value; the model keeps
  the value, which is what \<open>JSON.parse\<close> returns for it. A plain text is never JSON here:
  parsing it throws.
\<close>

subsection \<open>Values and storage\<close>

datatype json = JNull | JBool bool | JNum rat | JStr string | JArr "json list" | JObj "(string \<times> json) list"

datatype stored = Text string | Json json

text \<open>\<open>setItem\<close> throws where the browser blocks storage.\<close>

record browser =
  br_items :: "string \<rightharpoonup> stored"
  br_blocked :: bool

definition setItem :: "string \<Rightarrow> stored \<Rightarrow> browser \<Rightarrow> browser result" where
  "setItem k v b = (if br_blocked b then Throw ''QuotaExceededError''
     else Ok (b\<lparr>br_items := (br_items b)(k \<mapsto> v)\<rparr>))"

definition getItem :: "string \<Rightarrow> browser \<Rightarrow> stored option" where
  "getItem k b = br_items b k"

text \<open>\<open>JSON.parse\<close> of a stored text.\<close>

fun json_parse :: "stored \<Rightarrow> json result" where
  "json_parse (Text s) = Throw ''SyntaxError''"
| "json_parse (Json j) = Ok j"

text \<open>\<open>x?.k\<close> on a parsed value; \<^const>\<open>None\<close> is \<open>undefined\<close>.\<close>

definition member :: "string \<Rightarrow> json \<Rightarrow> json option" where
  "member k j = (case j of JObj ms \<Rightarrow> map_of ms k | _ \<Rightarrow> None)"

lemma member_obj [simp]: "member k (JObj ms) = map_of ms k"
  by (simp add: member_def)

text \<open>An object literal: members whose value is \<open>undefined\<close> are not serialised.\<close>

definition jobj :: "(string \<times> json option) list \<Rightarrow> json" where
  "jobj ms = JObj (map (\<lambda>(k, v). (k, the v)) (filter (\<lambda>(k, v). v \<noteq> None) ms))"

lemma member_jobj: "distinct (map fst ms) \<Longrightarrow> member k (jobj ms) = Option.bind (map_of ms k) (\<lambda>v. v)"
proof (induction ms)
  case (Cons m ms)
  obtain k' v where m: "m = (k', v)" by (cases m)
  from Cons have IH: "map_of (map (\<lambda>(k, v). (k, the v)) (filter (\<lambda>(k, v). v \<noteq> None) ms)) k = Option.bind (map_of ms k) (\<lambda>v. v)"
    by (simp add: jobj_def)
  have "map_of ms k = None" if "k' = k" using Cons.prems m that by (auto simp: map_of_eq_None_iff)
  with IH m show ?case by (auto simp: jobj_def)
qed (simp add: jobj_def)

text \<open>\<open>k in obj\<close> also finds what every object inherits.\<close>

definition object_prototype :: "string list" where
  "object_prototype = [''constructor'', ''hasOwnProperty'', ''isPrototypeOf'', ''propertyIsEnumerable'',
     ''toLocaleString'', ''toString'', ''valueOf'', ''__defineGetter__'', ''__defineSetter__'',
     ''__lookupGetter__'', ''__lookupSetter__'', ''__proto__'']"

definition key_in :: "string \<Rightarrow> string list \<Rightarrow> bool" where
  "key_in k keys \<longleftrightarrow> k \<in> set keys \<or> k \<in> set object_prototype"

subsection \<open>The contract of a persisted preference\<close>

locale persisted =
  fixes key :: string and save :: "'p \<Rightarrow> stored" and load :: "stored option \<Rightarrow> 'p" and valid :: "'p \<Rightarrow> bool"
  assumes load_save: "valid p \<Longrightarrow> load (Some (save p)) = p"
begin

definition store :: "'p \<Rightarrow> browser \<Rightarrow> browser result" where
  "store p = setItem key (save p)"

definition reload :: "browser \<Rightarrow> 'p" where
  "reload b = load (getItem key b)"

lemma reload_store: "valid p \<Longrightarrow> store p b = Ok b' \<Longrightarrow> reload b' = p"
  by (auto simp: store_def reload_def setItem_def getItem_def load_save split: if_splits)

lemma store_last: "store q b = Ok b' \<Longrightarrow> store p b' = Ok b'' \<Longrightarrow> valid p \<Longrightarrow> reload b'' = p"
  by (rule reload_store)

lemma store_other: "store p b = Ok b' \<Longrightarrow> k \<noteq> key \<Longrightarrow> getItem k b' = getItem k b"
  by (auto simp: store_def setItem_def getItem_def split: if_splits)

lemma store_blocked: "br_blocked b \<Longrightarrow> \<exists>e. store p b = Throw e"
  by (simp add: store_def setItem_def)

end

text \<open>Two preferences under different keys do not disturb each other.\<close>

locale persisted_pair = a: persisted key1 save1 load1 valid1 + b: persisted key2 save2 load2 valid2
  for key1 and save1 :: "'p \<Rightarrow> stored" and load1 valid1
    and key2 and save2 :: "'q \<Rightarrow> stored" and load2 valid2 +
  assumes keys_differ: "key1 \<noteq> key2"
begin

lemma store_both:
  assumes "valid1 p" and "valid2 q" and "a.store p s = Ok s1" and "b.store q s1 = Ok s2"
  shows "a.reload s2 = p \<and> b.reload s2 = q"
proof -
  have "getItem key1 s2 = getItem key1 s1" using b.store_other [OF assms(4)] keys_differ by simp
  then have "a.reload s2 = a.reload s1" by (simp add: a.reload_def)
  then show ?thesis using a.reload_store [OF assms(1,3)] b.reload_store [OF assms(2,4)] by simp
qed

end

end
