(* ===== verification/Dashboard.thy ===== *)
theory Dashboard
  imports Storage
begin

text \<open>
  The dashboard layout (\<open>store/dashboard.ts\<close>): the widgets with their order, flag and span, the
  wire format that carries both that model and the contract's placements, the cache in the
  browser storage and the store's operations. The lemmas show that reading never loses a known
  widget, that the wire format round-trips, and that the cache always holds the current layout.
\<close>

subsection \<open>Widgets\<close>

(* src store/dashboard.ts 29-29 WidgetId *)
datatype widget_id = Roster | Changes | Alerts | Sync | Docs | Attention | Uptime | Certificates

(* src store/dashboard.ts 35-35 WidgetDef *)
datatype span = Span2 | Span3 | Span4 | Span6

(* src store/dashboard.ts 31-38 WidgetDef *)
record widget =
  wd_id :: widget_id
  wd_enabled :: bool
  wd_span :: span
  wd_severityFilter :: "json option"
  wd_pollingEnabled :: "bool option"

definition plain_widget :: "widget_id \<Rightarrow> bool \<Rightarrow> span \<Rightarrow> widget" where
  "plain_widget i e s = \<lparr>wd_id = i, wd_enabled = e, wd_span = s, wd_severityFilter = None, wd_pollingEnabled = None\<rparr>"

(* src store/dashboard.ts 55-65 DEFAULT_LAYOUT *)
definition DEFAULT_LAYOUT :: "widget list" where
  "DEFAULT_LAYOUT = [plain_widget Roster True Span4, plain_widget Alerts True Span2, plain_widget Changes True Span3,
     plain_widget Sync True Span3, plain_widget Docs True Span6, plain_widget Attention False Span2,
     plain_widget Uptime False Span2, plain_widget Certificates False Span3]"

(* src store/dashboard.ts 29-29 WidgetId *)
fun id_text :: "widget_id \<Rightarrow> string" where
  "id_text Roster = ''roster''"
| "id_text Changes = ''changes''"
| "id_text Alerts = ''alerts''"
| "id_text Sync = ''sync''"
| "id_text Docs = ''docs''"
| "id_text Attention = ''attention''"
| "id_text Uptime = ''uptime''"
| "id_text Certificates = ''certificates''"

(* src store/dashboard.ts 72-81 WIDGET_TYPE *)
fun WIDGET_TYPE :: "widget_id \<Rightarrow> string" where
  "WIDGET_TYPE Roster = ''service_status''"
| "WIDGET_TYPE Alerts = ''alert_summary''"
| "WIDGET_TYPE Changes = ''recent_changes''"
| "WIDGET_TYPE Sync = ''sync_activity''"
| "WIDGET_TYPE Docs = ''docs_health''"
| "WIDGET_TYPE Attention = ''attention''"
| "WIDGET_TYPE Uptime = ''uptime''"
| "WIDGET_TYPE Certificates = ''expiring_certificates''"

fun span_num :: "span \<Rightarrow> rat" where
  "span_num Span2 = 2"
| "span_num Span3 = 3"
| "span_num Span4 = 4"
| "span_num Span6 = 6"

text \<open>The value of \<open>?range=\<close>; a value outside the presets looks up nothing.\<close>

(* src store/dashboard.ts 42-44 RANGE_DAYS *)
definition RANGE_DAYS :: "string \<rightharpoonup> nat" where
  "RANGE_DAYS = [''24h'' \<mapsto> 1, ''7d'' \<mapsto> 7, ''30d'' \<mapsto> 30, ''90d'' \<mapsto> 90]"

(* src store/dashboard.ts 49-53 useRangeDays *)
definition useRangeDays :: "string option \<Rightarrow> nat option" where
  "useRangeDays range_param = RANGE_DAYS (from_opt ''7d'' range_param)"

subsection \<open>The wire format\<close>

definition known_id :: "json option \<Rightarrow> widget_id option" where
  "known_id v = (case v of Some (JStr s) \<Rightarrow> map_option wd_id (find (\<lambda>d. id_text (wd_id d) = s) DEFAULT_LAYOUT)
     | _ \<Rightarrow> None)"

definition default_widget :: "widget_id \<Rightarrow> widget" where
  "default_widget i = from_opt (plain_widget i True Span6) (find (\<lambda>d. wd_id d = i) DEFAULT_LAYOUT)"

definition known_span :: "json option \<Rightarrow> span option" where
  "known_span v = (case v of Some (JNum n) \<Rightarrow> find (\<lambda>s. span_num s = n) [Span2, Span3, Span4, Span6] | _ \<Rightarrow> None)"

definition as_bool :: "json option \<Rightarrow> bool option" where
  "as_bool v = (case v of Some (JBool b) \<Rightarrow> Some b | _ \<Rightarrow> None)"

(* src store/dashboard.ts 90-101 widgetsFromWire *)
definition widget_from_wire :: "json \<Rightarrow> widget option" where
  "widget_from_wire w = (case known_id (member ''id'' w) of None \<Rightarrow> None
     | Some i \<Rightarrow> Some \<lparr>wd_id = i, wd_enabled = from_opt True (as_bool (member ''enabled'' w)),
         wd_span = from_opt (wd_span (default_widget i)) (known_span (member ''w'' w)),
         wd_severityFilter = member ''severityFilter'' w,
         wd_pollingEnabled = as_bool (member ''pollingEnabled'' w)\<rparr>)"

(* src store/dashboard.ts 85-106 widgetsFromWire *)
definition widgetsFromWire :: "json option \<Rightarrow> widget list" where
  "widgetsFromWire raw =
     (let kept = (case raw of Some (JArr ws) \<Rightarrow> List.map_filter widget_from_wire ws | _ \<Rightarrow> []);
          missing = filter (\<lambda>d. \<not> list_ex (\<lambda>w. wd_id w = wd_id d) kept) DEFAULT_LAYOUT
      in kept @ missing)"

(* src store/dashboard.ts 109-119 widgetsToWire *)
definition widget_to_wire :: "nat \<Rightarrow> widget \<Rightarrow> json" where
  "widget_to_wire i w = jobj [(''id'', Some (JStr (id_text (wd_id w)))), (''type'', Some (JStr (WIDGET_TYPE (wd_id w)))),
     (''x'', Some (JNum 0)), (''y'', Some (JNum (of_nat i))), (''w'', Some (JNum (span_num (wd_span w)))),
     (''h'', Some (JNum 1)), (''enabled'', Some (JBool (wd_enabled w))),
     (''severityFilter'', wd_severityFilter w), (''pollingEnabled'', map_option JBool (wd_pollingEnabled w))]"

(* src store/dashboard.ts 108-121 widgetsToWire *)
definition widgetsToWire :: "widget list \<Rightarrow> json" where
  "widgetsToWire layout = JArr (map_index widget_to_wire 0 layout)"

subsection \<open>The store\<close>

(* src store/dashboard.ts 83-83 STORAGE_KEY *)
definition LAYOUT_KEY :: string where "LAYOUT_KEY = ''wiselabz.dashboard.layout''"

(* src store/dashboard.ts 123-132 loadCache *)
definition loadCache :: "stored option \<Rightarrow> widget list" where
  "loadCache item = (case item of None \<Rightarrow> DEFAULT_LAYOUT
     | Some raw \<Rightarrow> if raw = Text [] then DEFAULT_LAYOUT
         else (case json_parse raw of Inl _ \<Rightarrow> DEFAULT_LAYOUT | Inr j \<Rightarrow> widgetsFromWire (Some j)))"

text \<open>The widgets of the store, the browser, and the layouts sent to the server.\<close>

(* src store/dashboard.ts 144-152 DashboardState *)
record dashboard =
  db_layout :: "widget list"
  db_hydrated :: bool
  db_browser :: browser
  db_sent :: "json list"

(* src store/dashboard.ts 134-142 persistCache *)
definition persistCache :: "widget list \<Rightarrow> dashboard \<Rightarrow> dashboard" where
  "persistCache layout d = (case setItem LAYOUT_KEY (Json (widgetsToWire layout)) (db_browser d) of
     Inl _ \<Rightarrow> d | Inr b \<Rightarrow> d\<lparr>db_browser := b\<rparr>)"

(* src store/dashboard.ts 154-156 useDashboard *)
definition dashboard_init :: "browser \<Rightarrow> dashboard" where
  "dashboard_init b = \<lparr>db_layout = loadCache (getItem LAYOUT_KEY b), db_hydrated = False, db_browser = b, db_sent = []\<rparr>"

text \<open>\<open>widgets\<close> is the server's answer, \<^const>\<open>None\<close> where the request fails.\<close>

(* src store/dashboard.ts 158-167 hydrate *)
definition hydrate :: "json option option \<Rightarrow> dashboard \<Rightarrow> dashboard" where
  "hydrate answer d = (case answer of None \<Rightarrow> d\<lparr>db_hydrated := True\<rparr>
     | Some widgets \<Rightarrow> (let layout = widgetsFromWire widgets
         in (persistCache layout d)\<lparr>db_layout := layout, db_hydrated := True\<rparr>))"

definition save_and_send :: "widget list \<Rightarrow> dashboard \<Rightarrow> dashboard" where
  "save_and_send layout d = (let d1 = persistCache layout d
     in d1\<lparr>db_layout := layout, db_sent := db_sent d1 @ [widgetsToWire layout]\<rparr>)"

text \<open>\<open>new Map(entries)\<close> keeps the last entry of an id.\<close>

(* src store/dashboard.ts 169-175 setOrder *)
definition setOrder :: "widget_id list \<Rightarrow> dashboard \<Rightarrow> dashboard" where
  "setOrder ids d =
     (let byId = map_of (rev (map (\<lambda>w. (wd_id w, w)) (db_layout d)));
          layout = List.map_filter byId ids
      in save_and_send layout d)"

(* src store/dashboard.ts 177-182 toggle *)
definition toggle :: "widget_id \<Rightarrow> dashboard \<Rightarrow> dashboard" where
  "toggle i d = save_and_send
     (map (\<lambda>w. if wd_id w = i then w\<lparr>wd_enabled := \<not> wd_enabled w\<rparr> else w) (db_layout d)) d"

text \<open>A patch may name either option; a named one may be \<open>undefined\<close>.\<close>

(* src store/dashboard.ts 184-189 setWidgetOptions *)
definition setWidgetOptions :: "widget_id \<Rightarrow> json option option \<Rightarrow> bool option option \<Rightarrow> dashboard \<Rightarrow> dashboard" where
  "setWidgetOptions i severity polling d = save_and_send
     (map (\<lambda>w. if wd_id w = i then w\<lparr>wd_severityFilter := from_opt (wd_severityFilter w) severity,
          wd_pollingEnabled := from_opt (wd_pollingEnabled w) polling\<rparr> else w) (db_layout d)) d"

(* src store/dashboard.ts 191-196 reset *)
definition reset_layout :: "json option \<Rightarrow> dashboard \<Rightarrow> dashboard" where
  "reset_layout widgets d = (let layout = widgetsFromWire widgets
     in (persistCache layout d)\<lparr>db_layout := layout\<rparr>)"

(* src store/dashboard.ts 199-209 useWidgetPolling *)
definition useWidgetPolling :: "widget_id \<Rightarrow> dashboard \<Rightarrow> bool \<times> nat option" where
  "useWidgetPolling i d =
     (let enabled = from_opt False (Option.bind (find (\<lambda>w. wd_id w = i) (db_layout d)) wd_pollingEnabled)
      in (enabled, if enabled then Some 30000 else None))"

subsection \<open>The wire format round-trips\<close>

lemma known_id_text [simp]: "known_id (Some (JStr (id_text i))) = Some i"
  by (cases i) (simp_all add: known_id_def DEFAULT_LAYOUT_def plain_widget_def)

lemma known_span_num [simp]: "known_span (Some (JNum (span_num s))) = Some s"
  by (cases s) (simp_all add: known_span_def)

lemma widget_wire: "widget_from_wire (widget_to_wire i w) = Some w"
  unfolding widget_to_wire_def widget_from_wire_def
  by (subst (1 2 3 4 5) member_jobj) (simp_all add: as_bool_def split: option.splits)

lemma map_filter_wire: "List.map_filter widget_from_wire (map_index widget_to_wire k ws) = ws"
  by (induction ws arbitrary: k) (simp_all add: widget_wire List.map_filter_simps)

definition all_ids :: "widget_id list" where
  "all_ids = map wd_id DEFAULT_LAYOUT"

lemma all_ids_complete [simp]: "i \<in> set all_ids"
  by (cases i) (simp_all add: all_ids_def DEFAULT_LAYOUT_def plain_widget_def)

definition complete_layout :: "widget list \<Rightarrow> bool" where
  "complete_layout ws \<longleftrightarrow> set (map wd_id ws) = UNIV"

lemma complete_missing:
  "complete_layout ws \<Longrightarrow> filter (\<lambda>d. \<not> list_ex (\<lambda>w. wd_id w = wd_id d) ws) DEFAULT_LAYOUT = []"
  unfolding complete_layout_def filter_empty_conv list_ex_iff by (metis UNIV_I imageE set_map)

lemma fromWire_toWire: "complete_layout ws \<Longrightarrow> widgetsFromWire (Some (widgetsToWire ws)) = ws"
  by (simp add: widgetsFromWire_def widgetsToWire_def map_filter_wire complete_missing)

lemma fromWire_complete: "complete_layout (widgetsFromWire raw)"
proof -
  have "i \<in> wd_id ` set (widgetsFromWire raw)" for i
  proof -
    obtain d where "d \<in> set DEFAULT_LAYOUT" "wd_id d = i" using all_ids_complete [of i] by (auto simp: all_ids_def)
    moreover obtain kept where "widgetsFromWire raw =
        kept @ filter (\<lambda>d. \<not> list_ex (\<lambda>w. wd_id w = wd_id d) kept) DEFAULT_LAYOUT"
      by (simp add: widgetsFromWire_def Let_def)
    ultimately show ?thesis
      by (cases "list_ex (\<lambda>w. wd_id w = wd_id d) kept") (auto simp: list_ex_iff intro: rev_image_eqI)
  qed
  then show ?thesis by (auto simp: complete_layout_def)
qed

text \<open>
  Whatever the server or the cache holds, the layout that is read contains every known
  widget; reading back what was written gives the same layout (order, flags, spans and options),
  and reading is a normalisation: writing what was read and reading it again changes nothing.
\<close>

theorem layout_roundtrip:
  assumes "complete_layout ws"
  shows "widgetsFromWire (Some (widgetsToWire ws)) = ws
    \<and> complete_layout (widgetsFromWire raw)
    \<and> widgetsFromWire (Some (widgetsToWire (widgetsFromWire raw))) = widgetsFromWire raw"
  using assms fromWire_toWire fromWire_complete by blast

lemma layout_roundtrip_witness:
  "widgetsFromWire (Some (widgetsToWire (rev DEFAULT_LAYOUT))) = rev DEFAULT_LAYOUT"
proof -
  have "complete_layout (rev DEFAULT_LAYOUT)" using all_ids_complete by (auto simp: complete_layout_def all_ids_def)
  then show ?thesis by (rule conjunct1 [OF layout_roundtrip])
qed

subsection \<open>The cache follows the store\<close>

interpretation layout_cache: persisted LAYOUT_KEY "\<lambda>ws. Json (widgetsToWire ws)" loadCache complete_layout
  by unfold_locales (simp add: loadCache_def fromWire_toWire)

text \<open>An operation of the user or the server.\<close>

datatype dash_event = Hydrate "json option option" | Order "widget_id list" | Toggle widget_id
  | Options widget_id "json option option" "bool option option" | Reset "json option"

fun dash_apply :: "dash_event \<Rightarrow> dashboard \<Rightarrow> dashboard" where
  "dash_apply (Hydrate a) = hydrate a"
| "dash_apply (Order ids) = setOrder ids"
| "dash_apply (Toggle i) = toggle i"
| "dash_apply (Options i s p) = setWidgetOptions i s p"
| "dash_apply (Reset a) = reset_layout a"

text \<open>The edit mode reorders: it names every widget.\<close>

definition event_ok :: "dash_event \<Rightarrow> bool" where
  "event_ok e \<longleftrightarrow> (case e of Order ids \<Rightarrow> set ids = UNIV | _ \<Rightarrow> True)"

definition dash_inv :: "dashboard \<Rightarrow> bool" where
  "dash_inv d \<longleftrightarrow> complete_layout (db_layout d)
     \<and> (br_blocked (db_browser d) \<or> layout_cache.reload (db_browser d) = db_layout d)"

lemma persistCache_simps [simp]:
  "db_layout (persistCache ws d) = db_layout d" "db_sent (persistCache ws d) = db_sent d"
  "br_blocked (db_browser (persistCache ws d)) = br_blocked (db_browser d)"
  by (auto simp: persistCache_def setItem_def split: sum.splits)

lemma persistCache_reload:
  assumes "complete_layout ws" and "\<not> br_blocked (db_browser d)"
  shows "layout_cache.reload (db_browser (persistCache ws d)) = ws"
proof -
  have s: "layout_cache.store ws (db_browser d) = Ok (db_browser (persistCache ws d))"
    using assms(2) by (simp add: layout_cache.store_def persistCache_def setItem_def)
  show ?thesis by (rule layout_cache.reload_store [OF assms(1) s])
qed

lemma map_filter_total: "set ids = UNIV \<Longrightarrow> complete_layout ws \<Longrightarrow>
    complete_layout (List.map_filter (map_of (rev (map (\<lambda>w. (wd_id w, w)) ws))) ids)"
proof -
  assume ids: "set ids = UNIV" and ws: "complete_layout ws"
  have found: "\<exists>w. map_of (rev (map (\<lambda>w. (wd_id w, w)) ws)) i = Some w \<and> wd_id w = i" for i
  proof -
    have "i \<in> fst ` set (rev (map (\<lambda>w. (wd_id w, w)) ws))"
      using ws by (auto simp: complete_layout_def image_image)
    then obtain w where w: "map_of (rev (map (\<lambda>w. (wd_id w, w)) ws)) i = Some w"
      by (metis map_of_eq_None_iff not_None_eq)
    then have "(i, w) \<in> set (map (\<lambda>w. (wd_id w, w)) ws)" by (metis map_of_SomeD set_rev)
    with w show ?thesis by auto
  qed
  have "i \<in> wd_id ` set (List.map_filter (map_of (rev (map (\<lambda>w. (wd_id w, w)) ws))) ids)" for i
    using found [of i] ids by (force simp: List.map_filter_def)
  then show ?thesis by (auto simp: complete_layout_def)
qed

lemma complete_map: "(\<And>w. wd_id (f w) = wd_id w) \<Longrightarrow> complete_layout ws \<Longrightarrow> complete_layout (map f ws)"
  by (simp add: complete_layout_def image_image)

lemma dash_save:
  "complete_layout ws \<Longrightarrow> dash_inv (save_and_send ws d)"
  "complete_layout ws \<Longrightarrow> dash_inv ((persistCache ws d)\<lparr>db_layout := ws\<rparr>)"
  "complete_layout ws \<Longrightarrow> dash_inv ((persistCache ws d)\<lparr>db_layout := ws, db_hydrated := h\<rparr>)"
  using persistCache_reload by (auto simp: dash_inv_def save_and_send_def Let_def)

lemma dash_apply_inv: "dash_inv d \<Longrightarrow> event_ok e \<Longrightarrow> dash_inv (dash_apply e d)"
proof (cases e)
  case (Hydrate a)
  assume "dash_inv d"
  with Hydrate show ?thesis
    by (cases a) (simp_all add: hydrate_def Let_def dash_save fromWire_complete, simp add: dash_inv_def)
next
  case (Order ids)
  assume "dash_inv d" "event_ok e"
  with Order show ?thesis
    by (simp add: setOrder_def Let_def event_ok_def dash_inv_def [of d] dash_save map_filter_total)
next
  case (Toggle i)
  assume "dash_inv d"
  with Toggle show ?thesis
    by (simp add: toggle_def) (rule dash_save(1), rule complete_map, auto simp: dash_inv_def)
next
  case (Options i s p)
  assume "dash_inv d"
  with Options show ?thesis
    by (simp add: setWidgetOptions_def) (rule dash_save(1), rule complete_map, auto simp: dash_inv_def)
next
  case (Reset a)
  then show ?thesis by (simp add: reset_layout_def Let_def dash_save fromWire_complete)
qed

lemma default_complete: "complete_layout DEFAULT_LAYOUT"
  using all_ids_complete by (auto simp: complete_layout_def all_ids_def)

lemma loadCache_complete: "complete_layout (loadCache item)"
  by (auto simp: loadCache_def default_complete fromWire_complete split: option.splits sum.splits)

lemma dash_init_inv: "dash_inv (dashboard_init b)"
  by (simp add: dash_inv_def dashboard_init_def layout_cache.reload_def loadCache_complete)

lemma dash_run_inv: "dash_inv d \<Longrightarrow> list_all event_ok es \<Longrightarrow> dash_inv (foldl (\<lambda>d e. dash_apply e d) d es)"
  by (induction es arbitrary: d) (simp_all add: dash_apply_inv)

text \<open>
  After any sequence of hydrations, failed loads, reorderings that name every widget,
  toggles, option changes and resets, every known widget is in the layout, and unless the browser
  blocks storage a page load would start from exactly the current layout; a blocked storage never
  stops an operation.
\<close>

theorem dashboard_consistent:
  assumes "list_all event_ok es"
  shows "let d = foldl (\<lambda>d e. dash_apply e d) (dashboard_init b) es in
     set (map wd_id (db_layout d)) = UNIV
     \<and> (br_blocked (db_browser d) \<or> loadCache (getItem LAYOUT_KEY (db_browser d)) = db_layout d)"
  using dash_run_inv [OF dash_init_inv assms]
  by (simp add: dash_inv_def complete_layout_def layout_cache.reload_def Let_def)

lemma dashboard_consistent_witness:
  "set (map wd_id (db_layout (dash_apply (Toggle Docs) (dashboard_init \<lparr>br_items = Map.empty, br_blocked = False\<rparr>)))) = UNIV"
  using dashboard_consistent [of "[Toggle Docs]" "\<lparr>br_items = Map.empty, br_blocked = False\<rparr>"]
  by (simp add: event_ok_def Let_def)

text \<open>
  A user's change is sent once and says what the screen shows: toggling a widget flips
  the flag of that widget only, leaves order, spans and options, sends exactly one layout, and the
  server's copy reads back as the new layout; toggling twice restores the layout.
\<close>

theorem toggle_exact:
  assumes "complete_layout (db_layout d)"
  shows "let d1 = toggle i d in
     map wd_enabled (db_layout d1) = map (\<lambda>w. if wd_id w = i then \<not> wd_enabled w else wd_enabled w) (db_layout d)
     \<and> map (\<lambda>w. w\<lparr>wd_enabled := True\<rparr>) (db_layout d1) = map (\<lambda>w. w\<lparr>wd_enabled := True\<rparr>) (db_layout d)
     \<and> db_sent d1 = db_sent d @ [widgetsToWire (db_layout d1)]
     \<and> widgetsFromWire (Some (widgetsToWire (db_layout d1))) = db_layout d1
     \<and> db_layout (toggle i d1) = db_layout d"
proof -
  have "complete_layout (map (\<lambda>w. if wd_id w = i then w\<lparr>wd_enabled := \<not> wd_enabled w\<rparr> else w) (db_layout d))"
    by (rule complete_map [OF _ assms]) simp
  then show ?thesis
    by (auto simp: toggle_def save_and_send_def Let_def fromWire_toWire o_def intro: map_idI)
qed

lemma toggle_exact_witness:
  "db_layout (toggle Docs (toggle Docs (dashboard_init \<lparr>br_items = Map.empty, br_blocked = False\<rparr>))) =
   db_layout (dashboard_init \<lparr>br_items = Map.empty, br_blocked = False\<rparr>)"
  using toggle_exact [of "dashboard_init \<lparr>br_items = Map.empty, br_blocked = False\<rparr>" Docs]
  by (simp add: dashboard_init_def loadCache_complete Let_def)

end
