(* ===== verification/JsValues.thy ===== *)
theory JsValues
  imports Storage
begin

text \<open>
  Values of the language as forms handle them: what reading a property gives (own members, list
  items, what every object or array inherits, \<open>undefined\<close>), and the conversions \<open>String\<close> and
  \<open>Number\<close>. How a number is rendered is a parameter.
\<close>

subsection \<open>Values of the language\<close>

text \<open>
  A value, \<open>undefined\<close>, or something every object or array inherits; of the latter only the name
  is kept.
\<close>

datatype js = Undefined | Inherited string | Val json

definition array_prototype :: "string list" where
  "array_prototype = [''length'', ''at'', ''concat'', ''copyWithin'', ''entries'', ''every'', ''fill'', ''filter'', ''find'',
     ''findIndex'', ''findLast'', ''findLastIndex'', ''flat'', ''flatMap'', ''forEach'', ''includes'', ''indexOf'', ''join'',
     ''keys'', ''lastIndexOf'', ''map'', ''pop'', ''push'', ''reduce'', ''reduceRight'', ''reverse'', ''shift'', ''slice'',
     ''some'', ''sort'', ''splice'', ''toReversed'', ''toSorted'', ''toSpliced'', ''unshift'', ''values'', ''with'']"

definition array_index :: "string \<Rightarrow> nat option" where
  "array_index k = (let n = nat_of_digits k in if show_nat n = k then Some n else None)"

fun get_prop :: "js \<Rightarrow> string \<Rightarrow> js" where
  "get_prop (Val (JObj ms)) k = (case map_of ms k of Some v \<Rightarrow> Val v
     | None \<Rightarrow> if k \<in> set object_prototype then Inherited k else Undefined)"
| "get_prop (Val (JArr xs)) k = (case array_index k of
       Some i \<Rightarrow> if i < length xs then Val (xs ! i) else Undefined
     | None \<Rightarrow> if k = ''length'' then Val (JNum (of_nat (length xs)))
         else if k \<in> set object_prototype \<or> k \<in> set array_prototype then Inherited k else Undefined)"
| "get_prop _ k = Undefined"

type_synonym members = "(string \<times> json) list"

definition the_prop :: "members \<Rightarrow> string \<Rightarrow> js" where
  "the_prop ms k = get_prop (Val (JObj ms)) k"

text \<open>\<open>key in values\<close>.\<close>

definition has_prop :: "members \<Rightarrow> string \<Rightarrow> bool" where
  "has_prop ms k = key_in k (map fst ms)"

text \<open>\<open>String(value)\<close> (\<open>num\<close> renders numbers).\<close>

primrec js_text :: "(rat \<Rightarrow> string) \<Rightarrow> json \<Rightarrow> bool \<Rightarrow> string" where
  "js_text num JNull in_array = (if in_array then [] else ''null'')"
| "js_text num (JBool b) in_array = (if b then ''true'' else ''false'')"
| "js_text num (JNum n) in_array = num n"
| "js_text num (JStr s) in_array = s"
| "js_text num (JArr xs) in_array = join_with '','' (map (\<lambda>f. f True) (map (js_text num) xs))"
| "js_text num (JObj ms) in_array = ''[object Object]''"

subsection \<open>Numbers\<close>

text \<open>
  \<open>Number(text)\<close> where it is finite; the model keeps the exact value, the language the nearest
  double. Beyond the largest double the result is infinite.
\<close>

definition digits_of_base :: "nat \<Rightarrow> string \<Rightarrow> nat option" where
  "digits_of_base b s = (if s \<noteq> [] \<and> list_all (\<lambda>c. is_hex c \<and> hex_value c < b) s
     then Some (foldl (\<lambda>r c. r * b + hex_value c) 0 s) else None)"

definition exponent_of :: "string \<Rightarrow> int option" where
  "exponent_of s = (if s = [] then Some 0
     else if hd s = CHR ''e'' \<or> hd s = CHR ''E'' then
       (let r = tl s; digits = (if r \<noteq> [] \<and> (hd r = CHR ''+'' \<or> hd r = CHR ''-'') then tl r else r)
        in if digits \<noteq> [] \<and> list_all is_digit digits
           then Some ((if r \<noteq> [] \<and> hd r = CHR ''-'' then -1 else 1) * int (nat_of_digits digits)) else None)
     else None)"

definition scale10 :: "rat \<Rightarrow> int \<Rightarrow> rat" where
  "scale10 x e = (if 0 \<le> e then x * 10 ^ nat e else x / 10 ^ nat (- e))"

definition unsigned_decimal :: "string \<Rightarrow> rat option" where
  "unsigned_decimal s =
     (let whole = takeWhile is_digit s; r = dropWhile is_digit s;
          dotted = starts_with ''.'' r;
          frac = (if dotted then takeWhile is_digit (tl r) else []);
          rest = (if dotted then dropWhile is_digit (tl r) else r)
      in if whole = [] \<and> frac = [] then None
         else map_option (\<lambda>e. scale10 (of_nat (nat_of_digits (whole @ frac))) (e - int (length frac))) (exponent_of rest))"

definition finite_number :: "rat \<Rightarrow> rat option" where
  "finite_number x = (if \<bar>x\<bar> < 2 ^ 1024 - 2 ^ 970 then Some x else None)"

definition js_number :: "string \<Rightarrow> rat option" where
  "js_number raw =
     (let s = trim raw; pre = map to_lower (take 2 s);
          sign = (if s \<noteq> [] \<and> hd s = CHR ''-'' then -1 else 1);
          body = (if s \<noteq> [] \<and> (hd s = CHR ''-'' \<or> hd s = CHR ''+'') then tl s else s);
          based = (\<lambda>b. map_option of_nat (digits_of_base b (drop 2 s)))
      in if s = [] then Some 0
         else Option.bind (if pre = ''0x'' then based 16 else if pre = ''0o'' then based 8 else if pre = ''0b'' then based 2
           else map_option (\<lambda>x. sign * x) (unsigned_decimal body)) finite_number)"

text \<open>\<open>Number(value)\<close> where it is finite.\<close>

fun to_number :: "(rat \<Rightarrow> string) \<Rightarrow> js \<Rightarrow> rat option" where
  "to_number num (Val JNull) = Some 0"
| "to_number num (Val (JBool b)) = Some (if b then 1 else 0)"
| "to_number num (Val (JNum n)) = Some n"
| "to_number num (Val (JStr s)) = js_number s"
| "to_number num (Val (JArr xs)) = js_number (js_text num (JArr xs) False)"
| "to_number num _ = None"

subsection \<open>JSON texts\<close>

text \<open>A quoted text, and the text \<open>JSON.stringify\<close> makes of a value (\<open>num\<close> renders numbers).\<close>

definition json_char :: "char \<Rightarrow> string" where
  "json_char c =
     (if c = DQUOTE then [BACKSLASH, DQUOTE] else if c = BACKSLASH then [BACKSLASH, BACKSLASH]
      else if c = CHR 0x08 then [BACKSLASH, CHR ''b''] else if c = CHR 0x0C then [BACKSLASH, CHR ''f'']
      else if c = NL then [BACKSLASH, CHR ''n''] else if c = CR then [BACKSLASH, CHR ''r'']
      else if c = TAB then [BACKSLASH, CHR ''t'']
      else if code_of c < 32 then BACKSLASH # ''u00'' @ (if code_of c < 16 then ''0'' else []) @ show_hex (code_of c)
      else [c])"

definition json_quote :: "string \<Rightarrow> string" where
  "json_quote s = DQUOTE # concat (map json_char s) @ [DQUOTE]"

primrec json_text :: "(rat \<Rightarrow> string) \<Rightarrow> json \<Rightarrow> string" where
  "json_text num JNull = ''null''"
| "json_text num (JBool b) = (if b then ''true'' else ''false'')"
| "json_text num (JNum n) = num n"
| "json_text num (JStr s) = json_quote s"
| "json_text num (JArr xs) = ''['' @ join_with '','' (map (json_text num) xs) @ '']''"
| "json_text num (JObj ms) = ''{'' @ join_with '',''
     (map (\<lambda>(k, s). json_quote k @ '':'' @ s) (map (map_prod (\<lambda>k. k) (json_text num)) ms)) @ ''}''"

lemma json_quote_split: "json_quote (xs @ c # ys) = (DQUOTE # concat (map json_char xs)) @ json_char c @ (concat (map json_char ys) @ [DQUOTE])"
  by (simp add: json_quote_def)

end
