(* ===== verification/RecipeText.thy ===== *)
theory RecipeText
  imports Storage
begin

text \<open>
  Text helpers of the recipe editor (\<open>features/connectors/recipeDocument.ts\<close>): paths, line
  starts and line endings, indentation, positions of issues. Offsets count code units; an
  \<open>indexOf\<close> that finds nothing is \<^const>\<open>None\<close>. The lemmas show that inserted blocks keep
  the line ending of the text they are inserted into and only gain indentation.
\<close>

subsection \<open>Paths\<close>

datatype segment = Key string | Index nat

(* src features/connectors/recipeDocument.ts 17-17 RecipePath *)
datatype recipe_path = Dotted string | Segments "segment list"

definition is_key_text :: "char \<Rightarrow> bool" where
  "is_key_text c \<longleftrightarrow> c \<noteq> CHR ''.'' \<and> c \<noteq> CHR ''['' \<and> c \<noteq> CHR '']''"

text \<open>
  The matches of the global pattern, left to right: a key after the start or a dot, or a
  bracketed index; a code unit that starts no match is skipped.
\<close>

(* src features/connectors/recipeDocument.ts 614-616 pathSegments *)
function scan_path :: "bool \<Rightarrow> string \<Rightarrow> segment list" where
  "scan_path at_start [] = []"
| "scan_path at_start (c # cs) =
     (if at_start \<and> is_key_text c
      then Key (takeWhile is_key_text (c # cs)) # scan_path False (dropWhile is_key_text cs)
      else if c = CHR ''.'' \<and> takeWhile is_key_text cs \<noteq> []
      then Key (takeWhile is_key_text cs) # scan_path False (dropWhile is_key_text cs)
      else if c = CHR ''['' \<and> takeWhile is_digit cs \<noteq> [] \<and> starts_with '']'' (dropWhile is_digit cs)
      then Index (nat_of_digits (takeWhile is_digit cs)) # scan_path False (drop 1 (dropWhile is_digit cs))
      else scan_path False cs)"
  by pat_completeness auto
termination
  by (relation "measure (\<lambda>(b, s). length s)")
     (auto simp: less_Suc_eq_le length_dropWhile_le intro: le_trans [OF diff_le_self length_dropWhile_le])

(* src features/connectors/recipeDocument.ts 612-618 pathSegments *)
definition pathSegments :: "recipe_path \<Rightarrow> segment list" where
  "pathSegments p = (case p of Segments ss \<Rightarrow> ss | Dotted s \<Rightarrow> scan_path True s)"

subsection \<open>Lines\<close>

(* src features/connectors/recipeDocument.ts 239-241 isBlankSource *)
definition isBlankSource :: "string \<Rightarrow> bool" where
  "isBlankSource source \<longleftrightarrow> trim (if source \<noteq> [] \<and> hd source = BOM then tl source else source) = []"

(* src features/connectors/recipeDocument.ts 654-656 lineStart *)
definition lineStart :: "string \<Rightarrow> nat \<Rightarrow> nat" where
  "lineStart source offset = (case last_index_upto NL (offset - 1) source of None \<Rightarrow> 0 | Some k \<Rightarrow> k + 1)"

definition leading_spaces :: "string \<Rightarrow> nat" where
  "leading_spaces s = length (takeWhile (\<lambda>c. c = CHR '' '') s)"

(* src features/connectors/recipeDocument.ts 658-662 lineIndent *)
definition lineIndent :: "string \<Rightarrow> nat \<Rightarrow> nat" where
  "lineIndent source offset = leading_spaces (slice (lineStart source offset) offset source)"

text \<open>One or more dashes, each followed by blanks, up to the end.\<close>

function dashes :: "(char \<Rightarrow> bool) \<Rightarrow> string \<Rightarrow> bool" where
  "dashes blank s = (case s of
     a # b # r \<Rightarrow> a = CHR ''-'' \<and> blank b \<and> (dropWhile blank r = [] \<or> dashes blank (dropWhile blank r))
   | _ \<Rightarrow> False)"
  by pat_completeness auto
termination
  by (relation "measure (\<lambda>(P, s). length s)") (auto simp: le_imp_less_Suc length_dropWhile_le le_SucI)

declare dashes.simps [simp del]

definition space_or_tab :: "char \<Rightarrow> bool" where
  "space_or_tab c \<longleftrightarrow> c = CHR '' '' \<or> c = TAB"

text \<open>\<open>/^ *(?:- +)+$/\<close> and \<open>/^[ \\t]*(?:-[ \\t]+)+$/\<close>.\<close>

definition dash_prefix :: "(char \<Rightarrow> bool) \<Rightarrow> string \<Rightarrow> bool" where
  "dash_prefix blank s = dashes blank (dropWhile blank s)"

(* src features/connectors/recipeDocument.ts 664-668 keyColumn *)
definition keyColumn :: "string \<Rightarrow> nat \<Rightarrow> nat" where
  "keyColumn source offset =
     (let pre = slice (lineStart source offset) offset source
      in if dash_prefix (\<lambda>c. c = CHR '' '') pre then length pre else lineIndent source offset)"

text \<open>\<open>source[k - 1] === '\\r'\<close>.\<close>

definition ending_of :: "string \<Rightarrow> nat \<Rightarrow> string" where
  "ending_of source k = (if 0 < k \<and> nth_opt source (k - 1) = Some CR then [CR, NL] else [NL])"

(* src features/connectors/recipeDocument.ts 402-413 eolAt *)
definition eolAt :: "string \<Rightarrow> nat \<Rightarrow> string" where
  "eolAt source offset =
     (let before = (if 0 < offset then last_index_upto NL (offset - 1) source else None)
      in if 0 < offset \<and> before = Some (offset - 1) then ending_of source (offset - 1)
         else (case index_from NL offset source of
             Some after \<Rightarrow> ending_of source after
           | None \<Rightarrow> (case before of Some k \<Rightarrow> ending_of source k | None \<Rightarrow> [NL])))"

text \<open>\<open>replace(/\\r?\\n/g, le)\<close>, and \<open>split\<close> on a text.\<close>

fun replace_breaks :: "string \<Rightarrow> string \<Rightarrow> string" where
  "replace_breaks le [] = []"
| "replace_breaks le [x] = (if x = NL then le else [x])"
| "replace_breaks le (x # y # xs) =
     (if x = NL then le @ replace_breaks le (y # xs)
      else if x = CR \<and> y = NL then le @ replace_breaks le xs
      else x # replace_breaks le (y # xs))"

function split_str :: "string \<Rightarrow> string \<Rightarrow> string list" where
  "split_str sep s = (if sep = [] then map (\<lambda>c. [c]) s
     else (case sub_index sep s of None \<Rightarrow> [s]
       | Some k \<Rightarrow> take k s # (if s = [] then [] else split_str sep (drop (k + length sep) s))))"
  by pat_completeness auto
termination by (relation "measure (\<lambda>(sep, s). length s)") auto

declare split_str.simps [simp del]

(* src features/connectors/recipeDocument.ts 670-672 indentBlock *)
definition indentBlock :: "string \<Rightarrow> string \<Rightarrow> string \<Rightarrow> string" where
  "indentBlock val indent lineEnding = join_with lineEnding
     (map (\<lambda>line. indent @ line) (split_str lineEnding (replace_breaks lineEnding val)))"

definition spaces :: "nat \<Rightarrow> string" where
  "spaces n = replicate n CHR '' ''"

subsection \<open>Issues and their positions\<close>

(* src features/connectors/recipeDocument.ts 20-20 RecipeDocumentIssue *)
datatype issue_kind = Syntax | Documents | Root | Anchors | Aliases | Merge

(* src features/connectors/recipeDocument.ts 19-24 RecipeDocumentIssue *)
record issue =
  is_kind :: issue_kind
  is_message :: string
  is_line :: "nat option"
  is_column :: "nat option"

text \<open>The number of parts of \<open>split(/\\r\\n|\\r|\\n/)\<close>.\<close>

fun count_lines :: "string \<Rightarrow> nat" where
  "count_lines [] = 1"
| "count_lines [x] = (if x = CR \<or> x = NL then 2 else 1)"
| "count_lines (x # y # xs) =
     (if x = CR \<and> y = NL then 1 + count_lines xs
      else if x = CR \<or> x = NL then 1 + count_lines (y # xs) else count_lines (y # xs))"

definition last_of :: "char \<Rightarrow> string \<Rightarrow> nat" where
  "last_of c s = (case last_index_upto c (length s) s of None \<Rightarrow> 0 | Some k \<Rightarrow> k + 1)"

text \<open>The column is \<open>offset - Math.max(...)\<close> with -1 for "not found", so it is counted from 1.\<close>

(* src features/connectors/recipeDocument.ts 682-688 issueAt *)
definition issueAt :: "string \<Rightarrow> issue_kind \<Rightarrow> string \<Rightarrow> nat option \<Rightarrow> issue" where
  "issueAt source kind message offset = (case offset of
     None \<Rightarrow> \<lparr>is_kind = kind, is_message = message, is_line = None, is_column = None\<rparr>
   | Some o1 \<Rightarrow>
       (let before = slice 0 o1 source
        in \<lparr>is_kind = kind, is_message = message, is_line = Some (count_lines before),
            is_column = Some (o1 + 1 - max (last_of NL before) (last_of CR before))\<rparr>))"

definition skip_digits :: "string \<Rightarrow> string option" where
  "skip_digits s = (if takeWhile is_digit s = [] then None else Some (dropWhile is_digit s))"

definition skip_text :: "string \<Rightarrow> string \<Rightarrow> string option" where
  "skip_text p s = (if starts_with p s then Some (drop (length p) s) else None)"

text \<open>\<open>/\\s+at line \\d+, column \\d+:/\<close> at the start of a text.\<close>

definition position_suffix :: "string \<Rightarrow> bool" where
  "position_suffix s = (s \<noteq> [] \<and> is_ws (hd s) \<and>
     Option.bind (Option.bind (Option.bind (Option.bind (skip_text ''at line '' (dropWhile is_ws s)) skip_digits)
       (skip_text '', column '')) skip_digits) (skip_text '':'') \<noteq> None)"

(* src features/connectors/recipeDocument.ts 690-693 withoutPosition *)
fun withoutPosition :: "string \<Rightarrow> string" where
  "withoutPosition [] = []"
| "withoutPosition (c # cs) = (if position_suffix (c # cs) then [] else c # withoutPosition cs)"

subsection \<open>Patches\<close>

(* src features/connectors/recipeDocument.ts 42-42 SourcePatch *)
record patch =
  p_start :: nat
  p_end :: nat
  p_text :: string

definition apply_patch :: "string \<Rightarrow> patch \<Rightarrow> string" where
  "apply_patch source p = slice 0 (p_start p) source @ p_text p @ slice_from (p_end p) source"

text \<open>\<open>match(/\\r?\\n$/)\<close> at the end of a text: how long it is.\<close>

definition final_break :: "string \<Rightarrow> nat" where
  "final_break s = length s - length (drop_final_crlf s)"

(* src features/connectors/recipeDocument.ts 381-386 dropPrecedingBreak *)
definition dropPrecedingBreak :: "string \<Rightarrow> patch \<Rightarrow> patch" where
  "dropPrecedingBreak source p =
     (if p_end p < length source \<or> ends_with [NL] source then p
      else p\<lparr>p_start := p_start p - final_break (slice 0 (p_start p) source)\<rparr>)"

(* src features/connectors/recipeDocument.ts 547-555 separatorStart *)
definition separatorStart :: "string \<Rightarrow> nat \<Rightarrow> nat \<Rightarrow> nat" where
  "separatorStart source previousEnd nodeStart =
     (case index_from CHR '','' previousEnd source of None \<Rightarrow> nodeStart
      | Some comma \<Rightarrow> if comma \<ge> nodeStart then nodeStart
          else if CHR ''#'' \<in> set (slice comma nodeStart source) then nodeStart else comma)"

text \<open>The comment after a null value: \<open>/^[ \\t]*(?:(?:~|null|Null|NULL)[ \\t]*)?(#.*)?$/\<close>.\<close>

(* src features/connectors/recipeDocument.ts 396-397 nullValuePatch *)
definition null_rest :: "string \<Rightarrow> string option option" where
  "null_rest s =
     (let r = dropWhile space_or_tab s;
          r1 = (case find (\<lambda>w. starts_with w r) [''~'', ''null'', ''Null'', ''NULL''] of
                  None \<Rightarrow> r | Some w \<Rightarrow> dropWhile space_or_tab (drop (length w) r))
      in if r1 = [] then Some None
         else if hd r1 = CHR ''#'' \<and> CR \<notin> set r1 \<and> NL \<notin> set r1 then Some (Some r1) else None)"

(* src features/connectors/recipeDocument.ts 388-400 nullValuePatch *)
definition nullValuePatch :: "string \<Rightarrow> nat \<times> nat \<Rightarrow> string \<Rightarrow> patch option" where
  "nullValuePatch source keyRange encoded =
     (case index_from CHR '':'' (snd keyRange) source of None \<Rightarrow> None
      | Some colon \<Rightarrow>
          (let lineEnding = eolAt source colon;
               lineBreak = from_opt (length source) (index_from NL colon source);
               lineEnd = (if 0 < lineBreak \<and> nth_opt source (lineBreak - 1) = Some CR then lineBreak - 1 else lineBreak)
           in case null_rest (slice (colon + 1) lineEnd source) of None \<Rightarrow> None
              | Some comment \<Rightarrow>
                  (let indent = spaces (keyColumn source (fst keyRange) + 2)
                   in Some \<lparr>p_start = colon + 1, p_end = lineEnd,
                        p_text = (case comment of None \<Rightarrow> [] | Some t \<Rightarrow> if t = [] then [] else '' '' @ t)
                          @ lineEnding @ indentBlock encoded indent lineEnding\<rparr>)))"


subsection \<open>Facts\<close>

lemma index_aux_Some: "index_aux c k s = Some j \<Longrightarrow> k \<le> j \<and> j < k + length s \<and> s ! (j - k) = c"
proof (induction s arbitrary: k)
  case (Cons x xs)
  show ?case
  proof (cases "x = c")
    case False
    with Cons.prems Cons.IH [of "Suc k"] have "Suc k \<le> j" "j < Suc k + length xs" "xs ! (j - Suc k) = c" by auto
    then show ?thesis by (auto simp: nth_Cons')
  qed (use Cons.prems in auto)
qed simp

lemma index_from_Some: "index_from c i s = Some j \<Longrightarrow> i \<le> j \<and> j < length s \<and> s ! j = c"
  using index_aux_Some [of c i "drop i s" j] by (auto simp: index_from_def)

lemma last_index_aux_Some:
  "last_index_aux c k s r = Some j \<Longrightarrow> r = Some j \<or> k \<le> j \<and> j < k + length s \<and> s ! (j - k) = c"
proof (induction s arbitrary: k r)
  case (Cons x xs)
  then have "(if x = c then Some k else r) = Some j \<or> Suc k \<le> j \<and> j < Suc k + length xs \<and> xs ! (j - Suc k) = c"
    using Cons.IH [of "Suc k" "if x = c then Some k else r"] by simp
  then show ?case by (auto simp: nth_Cons' split: if_splits)
qed simp

lemma last_index_upto_Some: "last_index_upto c i s = Some j \<Longrightarrow> j \<le> i \<and> j < length s \<and> s ! j = c"
  using last_index_aux_Some [of c 0 "take (Suc i) s" None j] by (auto simp: last_index_upto_def)

lemma lineStart_le: "0 < offset \<Longrightarrow> lineStart source offset \<le> offset"
  by (auto simp: lineStart_def split: option.splits dest!: last_index_upto_Some)

lemma eolAt_cases: "eolAt source offset = [NL] \<or> eolAt source offset = [CR, NL]"
  by (auto simp: eolAt_def ending_of_def Let_def split: option.splits)

text \<open>A text whose every line break is preceded by a carriage return.\<close>

definition crlf_text :: "string \<Rightarrow> bool" where
  "crlf_text s \<longleftrightarrow> NL \<in> set s \<and> (\<forall>k < length s. s ! k = NL \<longrightarrow> 0 < k \<and> s ! (k - 1) = CR)"

lemma ending_of_crlf: "crlf_text s \<Longrightarrow> k < length s \<Longrightarrow> s ! k = NL \<Longrightarrow> ending_of s k = [CR, NL]"
  by (auto simp: crlf_text_def ending_of_def nth_opt_def)

lemma index_aux_None: "index_aux c k s = None \<longleftrightarrow> c \<notin> set s"
  by (induction s arbitrary: k) auto

lemma last_index_aux_None: "last_index_aux c k s r = None \<longleftrightarrow> r = None \<and> c \<notin> set s"
  by (induction s arbitrary: k r) auto

lemma eolAt_crlf: "crlf_text s \<Longrightarrow> offset \<le> length s \<Longrightarrow> eolAt s offset = [CR, NL]"
proof -
  assume s: "crlf_text s" and o: "offset \<le> length s"
  let ?before = "if 0 < offset then last_index_upto NL (offset - 1) s else None"
  have before: "ending_of s k = [CR, NL]" if "?before = Some k" for k
    using that last_index_upto_Some [of NL "offset - 1" s k] ending_of_crlf [OF s] by (auto split: if_splits)
  have after: "ending_of s k = [CR, NL]" if "index_from NL offset s = Some k" for k
    using index_from_Some [OF that] ending_of_crlf [OF s] by auto
  have "\<not> (index_from NL offset s = None \<and> ?before = None)"
  proof
    assume none: "index_from NL offset s = None \<and> ?before = None"
    then have "NL \<notin> set (drop offset s)" "NL \<notin> set (take offset s)"
      by (auto simp: index_from_def index_aux_None last_index_upto_def last_index_aux_None split: if_splits)
    then have "NL \<notin> set s" by (metis Un_iff append_take_drop_id set_append)
    then show False using s by (simp add: crlf_text_def)
  qed
  then consider (here) "0 < offset" "?before = Some (offset - 1)" | (after) k where "index_from NL offset s = Some k"
    | (before) k where "index_from NL offset s = None" "?before = Some k"
    by (cases "index_from NL offset s"; cases ?before) blast+
  then show ?thesis
  proof cases
    case here
    then show ?thesis using before by (simp add: eolAt_def)
  next
    case (after k)
    with \<open>\<And>k. index_from NL offset s = Some k \<Longrightarrow> ending_of s k = [CR, NL]\<close>
    show ?thesis using before by (simp add: eolAt_def Let_def)
  next
    case (before k)
    with \<open>\<And>k. ?before = Some k \<Longrightarrow> ending_of s k = [CR, NL]\<close>
    show ?thesis unfolding eolAt_def Let_def by (cases "k = offset - Suc 0") auto
  qed
qed

lemma ending_of_lf: "CR \<notin> set s \<Longrightarrow> ending_of s k = [NL]"
  by (auto simp: ending_of_def nth_opt_def split: if_splits) (metis nth_mem)

lemma eolAt_lf: "CR \<notin> set s \<Longrightarrow> eolAt s offset = [NL]"
  by (simp add: eolAt_def ending_of_lf Let_def split: option.splits)

subsection \<open>Blocks\<close>

text \<open>The lines of a text, without their breaks.\<close>

fun text_lines :: "string \<Rightarrow> string list" where
  "text_lines [] = [[]]"
| "text_lines [x] = (if x = NL then [[], []] else [[x]])"
| "text_lines (x # y # xs) =
     (if x = NL then [] # text_lines (y # xs)
      else if x = CR \<and> y = NL then [] # text_lines xs
      else (case text_lines (y # xs) of [] \<Rightarrow> [[x]] | w # ws \<Rightarrow> (x # w) # ws))"

lemma text_lines_ne [simp]: "text_lines s \<noteq> []"
  by (cases s rule: text_lines.cases) (auto split: list.splits)

lemma text_lines_free: "w \<in> set (text_lines s) \<Longrightarrow> NL \<notin> set w"
  by (induction s arbitrary: w rule: text_lines.induct) (auto split: list.splits if_splits)

lemma join_Cons: "ws \<noteq> [] \<Longrightarrow> join_with sep (w # ws) = w @ sep @ join_with sep ws"
  by (cases ws) auto

lemma replace_breaks_lines: "replace_breaks le s = join_with le (text_lines s)"
proof (induction s rule: text_lines.induct)
  case (3 x y xs)
  obtain w ws where w: "text_lines (y # xs) = w # ws" using text_lines_ne by (cases "text_lines (y # xs)") auto
  have "join_with le ((x # w) # ws) = x # join_with le (w # ws)" by (cases ws) auto
  with 3 w show ?case by (auto simp: join_Cons)
qed auto


lemma starts_with_set: "starts_with p s \<Longrightarrow> set p \<subseteq> set s"
  unfolding starts_with_def by (metis set_take_subset)

lemma sub_index_none: "NL \<notin> set w \<Longrightarrow> sub_index_aux (u @ [NL]) k w = None"
proof (induction w arbitrary: k)
  case (Cons x w)
  then show ?case using starts_with_set [of "u @ [NL]" "x # w"] by auto
qed simp

lemma sub_index_found:
  "NL \<notin> set w \<Longrightarrow> NL \<notin> set u \<Longrightarrow> sub_index_aux (u @ [NL]) k (w @ u @ [NL] @ rest) = Some (k + length w)"
proof (induction w arbitrary: k)
  case Nil
  have "starts_with (u @ [NL]) (u @ [NL] @ rest)" by (simp add: starts_with_def)
  then show ?case by (cases "u @ [NL] @ rest") auto
next
  case (Cons x w)
  have "\<not> starts_with (u @ [NL]) ((x # w) @ u @ [NL] @ rest)"
  proof
    assume "starts_with (u @ [NL]) ((x # w) @ u @ [NL] @ rest)"
    then have "take (length u + 1) ((x # w) @ u @ [NL] @ rest) = u @ [NL]" by (simp add: starts_with_def)
    then have "((x # w) @ u @ [NL] @ rest) ! length u = NL"
      by (metis add.commute less_add_one nth_append_length nth_take plus_1_eq_Suc)
    moreover have "((x # w) @ u @ [NL] @ rest) ! length u = ((x # w) @ u) ! length u"
      using nth_append [of "(x # w) @ u" "[NL] @ rest" "length u"] by simp
    moreover have "((x # w) @ u) ! length u \<in> set ((x # w) @ u)" by (rule nth_mem) simp
    ultimately show False using Cons.prems by auto
  qed
  then show ?case using Cons by simp
qed

lemma split_join_lines:
  "ws \<noteq> [] \<Longrightarrow> \<forall>w \<in> set ws. NL \<notin> set w \<Longrightarrow> NL \<notin> set u \<Longrightarrow> split_str (u @ [NL]) (join_with (u @ [NL]) ws) = ws"
proof (induction ws)
  case (Cons w ws)
  show ?case
  proof (cases "ws = []")
    case True
    then show ?thesis using Cons.prems
      by (subst split_str.simps) (auto simp: sub_index_def sub_index_none)
  next
    case False
    let ?rest = "join_with (u @ [NL]) ws"
    have j: "join_with (u @ [NL]) (w # ws) = w @ u @ [NL] @ ?rest" using False by (simp add: join_Cons)
    have "sub_index (u @ [NL]) (w @ u @ [NL] @ ?rest) = Some (length w)"
      using sub_index_found [of w u 0 ?rest] Cons.prems by (simp add: sub_index_def)
    then have "split_str (u @ [NL]) (w @ u @ [NL] @ ?rest) = w # split_str (u @ [NL]) ?rest"
      by (subst split_str.simps) simp
    with Cons False show ?thesis unfolding j by simp
  qed
qed simp

lemma indentBlock_lines:
  assumes "le = [NL] \<or> le = [CR, NL]"
  shows "indentBlock val indent le = join_with le (map (\<lambda>l. indent @ l) (text_lines val))"
proof -
  obtain u where u: "le = u @ [NL]" "NL \<notin> set u"
    using assms by (cases "le = [NL]") (auto simp: char_defs intro: that [of "[]"] that [of "[CR]"])
  then have "split_str le (join_with le (text_lines val)) = text_lines val"
    using split_join_lines [of "text_lines val" u] text_lines_free by auto
  then show ?thesis by (simp add: indentBlock_def replace_breaks_lines)
qed

text \<open>
  Text inserted into a recipe keeps the recipe's line ending and its own lines. At any
  offset of a text whose line breaks are all CRLF the editor writes CRLF, in a text without
  carriage returns LF; and an indented block has the lines of the original block, each preceded
  by the indentation, joined by exactly that line ending.
\<close>

theorem inserted_lines:
  assumes "offset \<le> length source"
  shows "(crlf_text source \<longrightarrow> eolAt source offset = [CR, NL])
    \<and> (CR \<notin> set source \<longrightarrow> eolAt source offset = [NL])
    \<and> indentBlock val indent (eolAt source offset) =
        join_with (eolAt source offset) (map (\<lambda>l. indent @ l) (text_lines val))"
  using eolAt_crlf [OF _ assms] eolAt_lf indentBlock_lines [OF eolAt_cases] by blast

lemma inserted_lines_witness:
  "eolAt (''a: 1'' @ [CR, NL]) 6 = [CR, NL]
   \<and> indentBlock (''x'' @ [NL] @ ''y'') ''  '' (eolAt (''a: 1'' @ [CR, NL]) 6) = ''  x'' @ [CR, NL] @ ''  y''"
proof -
  have "crlf_text (''a: 1'' @ [CR, NL])"
    by (auto simp: crlf_text_def less_Suc_eq numeral_eq_Suc nth_Cons' char_defs)
  moreover note t = inserted_lines [of 6 "''a: 1'' @ [CR, NL]" "''x'' @ [NL] @ ''y''" "''  ''"]
  ultimately have e: "eolAt (''a: 1'' @ [CR, NL]) 6 = [CR, NL]" by simp
  have "text_lines (''x'' @ [NL] @ ''y'') = [''x'', ''y'']" by (simp add: char_defs)
  with t show ?thesis unfolding e by (simp add: e)
qed

subsection \<open>Paths read back\<close>

text \<open>A path as the forms write it: keys joined by dots, indices in brackets.\<close>

fun path_text :: "segment list \<Rightarrow> string" where
  "path_text [] = []"
| "path_text (Key k # ss) = ''.'' @ k @ path_text ss"
| "path_text (Index n # ss) = ''['' @ show_nat n @ '']'' @ path_text ss"

definition segment_ok :: "segment \<Rightarrow> bool" where
  "segment_ok s \<longleftrightarrow> (case s of Key k \<Rightarrow> k \<noteq> [] \<and> list_all is_key_text k | Index n \<Rightarrow> True)"

lemma path_text_head: "path_text ss \<noteq> [] \<Longrightarrow> \<not> is_key_text (hd (path_text ss))"
  by (cases ss rule: path_text.cases) (auto simp: is_key_text_def)

lemma takeWhile_key: "list_all is_key_text k \<Longrightarrow> takeWhile is_key_text (k @ path_text ss) = k"
  "list_all is_key_text k \<Longrightarrow> dropWhile is_key_text (k @ path_text ss) = path_text ss"
proof -
  assume k: "list_all is_key_text k"
  have "takeWhile is_key_text (path_text ss) = []" "dropWhile is_key_text (path_text ss) = path_text ss"
    using path_text_head [of ss] by (cases "path_text ss"; simp)+
  then show "takeWhile is_key_text (k @ path_text ss) = k" "dropWhile is_key_text (k @ path_text ss) = path_text ss"
    using k by (simp_all add: list_all_iff)
qed

lemma takeWhile_index: "takeWhile is_digit (show_nat n @ CHR '']'' # r) = show_nat n"
  "dropWhile is_digit (show_nat n @ CHR '']'' # r) = CHR '']'' # r"
proof -
  have "\<not> is_digit CHR '']''" by code_simp
  then show "takeWhile is_digit (show_nat n @ CHR '']'' # r) = show_nat n"
    "dropWhile is_digit (show_nat n @ CHR '']'' # r) = CHR '']'' # r"
    using show_nat_ok(2) [of n] by (simp_all add: list_all_iff)
qed

lemma scan_dot: "k \<noteq> [] \<Longrightarrow> list_all is_key_text k \<Longrightarrow>
    scan_path b (''.'' @ k @ path_text ss) = Key k # scan_path False (path_text ss)"
  using takeWhile_key [of k ss] by (simp add: is_key_text_def)

lemma scan_index: "scan_path b (''['' @ show_nat n @ '']'' @ path_text ss) = Index n # scan_path False (path_text ss)"
  using takeWhile_index [of n "path_text ss"] show_nat_ok [of n] by (simp add: is_key_text_def starts_with_def)

lemma scan_path_text: "list_all segment_ok ss \<Longrightarrow> scan_path b (path_text ss) = ss"
proof (induction ss arbitrary: b rule: path_text.induct)
  case (2 k ss)
  then show ?case using scan_dot [of k b ss] by (simp add: segment_ok_def)
next
  case (3 n ss)
  then show ?case using scan_index [of b n ss] by (simp add: segment_ok_def)
qed simp

text \<open>
  A dotted path reads back as the segments it was written from: for keys without dots
  and brackets and any indices, pathSegments splits the text into the same keys and numbers, with
  or without the leading dot.
\<close>

theorem pathSegments_roundtrip:
  assumes "list_all segment_ok ss" and "k \<noteq> []" and "list_all is_key_text k"
  shows "pathSegments (Dotted (path_text ss)) = ss \<and> pathSegments (Dotted (k @ path_text ss)) = Key k # ss"
proof -
  obtain c k' where k: "k = c # k'" using assms(2) by (cases k) auto
  have "scan_path True (c # k' @ path_text ss) = Key (c # k') # scan_path False (path_text ss)"
    using assms(3) takeWhile_key [of k' ss] k by simp
  then show ?thesis using scan_path_text [OF assms(1)] k by (simp add: pathSegments_def)
qed

lemma pathSegments_roundtrip_witness:
  "pathSegments (Dotted (''extract'' @ path_text [Index 2, Key ''path''])) = [Key ''extract'', Index 2, Key ''path'']"
  using pathSegments_roundtrip [of "[Index 2, Key ''path'']" "''extract''"] by (simp add: segment_ok_def is_key_text_def)

end
