(* ===== verification/RecipeNodes.thy ===== *)
theory RecipeNodes
  imports RecipeText
begin

text \<open>
  The YAML tree the recipe editor works on (\<open>features/connectors/recipeDocument.ts\<close>): nodes
  with their source ranges, navigation along paths, and the check for constructs the form view
  does not support. The \<open>yaml\<close> package itself is the parameter \<open>ylib\<close>: its parser, its
  rendering of values, its reading of nodes as values and its document mutations.
\<close>

subsection \<open>Nodes and the library\<close>

text \<open>A range: start, end of the value, end of the node.\<close>

type_synonym node_range = "nat \<times> nat \<times> nat"

datatype ynode =
    YScalar "node_range option" "string option" bool json
  | YMap "node_range option" "string option" bool "(ynode option \<times> ynode option) list"
  | YSeq "node_range option" "string option" bool "ynode list"
  | YAlias "node_range option"

type_synonym ypair = "ynode option \<times> ynode option"

fun node_range :: "ynode \<Rightarrow> node_range option" where
  "node_range (YScalar r a p v) = r"
| "node_range (YMap r a f items) = r"
| "node_range (YSeq r a f items) = r"
| "node_range (YAlias r) = r"

definition range_start :: "node_range \<Rightarrow> nat" where "range_start r = fst r"
definition range_value :: "node_range \<Rightarrow> nat" where "range_value r = fst (snd r)"
definition range_end :: "node_range \<Rightarrow> nat" where "range_end r = snd (snd r)"

text \<open>Errors carry a message and, where known, line and column.\<close>

type_synonym yerror = "string \<times> (nat \<times> nat) option"

record ydoc =
  dc_contents :: "ynode option"
  dc_errors :: "yerror list"
  dc_start :: "nat option"

text \<open>What the editor uses of the \<open>yaml\<close> package.\<close>

record ylib =
  lib_parse_all :: "string \<Rightarrow> yerror + ydoc list"
  lib_parse_one :: "string \<Rightarrow> ydoc"
  lib_toJS :: "ynode option \<Rightarrow> json"
  lib_empty :: ynode
  lib_setIn :: "segment list \<Rightarrow> json \<Rightarrow> ynode \<Rightarrow> ynode result"
  lib_deleteIn :: "segment list \<Rightarrow> ynode \<Rightarrow> ynode result"
  lib_addIn :: "segment list \<Rightarrow> json \<Rightarrow> ynode \<Rightarrow> ynode result"
  lib_has :: "ynode \<Rightarrow> string \<Rightarrow> bool"
  lib_get :: "ynode \<Rightarrow> string \<Rightarrow> ynode option"
  lib_node_text :: "ynode \<Rightarrow> string"
  lib_text :: "bool \<Rightarrow> json \<Rightarrow> string"
  lib_num :: "rat \<Rightarrow> string"

subsection \<open>Navigation\<close>

text \<open>\<open>String(value)\<close> of a scalar.\<close>

fun js_String :: "ylib \<Rightarrow> json \<Rightarrow> string" where
  "js_String lib JNull = ''null''"
| "js_String lib (JBool b) = (if b then ''true'' else ''false'')"
| "js_String lib (JNum n) = lib_num lib n"
| "js_String lib (JStr s) = s"
| "js_String lib _ = ''[object Object]''"

fun segment_text :: "segment \<Rightarrow> string" where
  "segment_text (Key k) = k"
| "segment_text (Index n) = show_nat n"

definition pair_matches :: "ylib \<Rightarrow> segment \<Rightarrow> ypair \<Rightarrow> bool" where
  "pair_matches lib key p = (case fst p of Some (YScalar r a pl v) \<Rightarrow> js_String lib v = segment_text key | _ \<Rightarrow> False)"

text \<open>The first matching pair, with its position among the items.\<close>

fun find_index :: "('a \<Rightarrow> bool) \<Rightarrow> nat \<Rightarrow> 'a list \<Rightarrow> (nat \<times> 'a) option" where
  "find_index P k [] = None"
| "find_index P k (x # xs) = (if P x then Some (k, x) else find_index P (Suc k) xs)"

(* src features/connectors/recipeDocument.ts 630-635 findPair *)
definition findPair :: "ylib \<Rightarrow> ypair list \<Rightarrow> segment \<Rightarrow> (nat \<times> ypair) option" where
  "findPair lib items key = find_index (pair_matches lib key) 0 items"

(* src features/connectors/recipeDocument.ts 622-626 getNode *)
definition node_step :: "ylib \<Rightarrow> ynode option \<Rightarrow> segment \<Rightarrow> ynode option" where
  "node_step lib cur seg = (case cur of
     Some (YMap r a f items) \<Rightarrow> Option.bind (findPair lib items seg) (\<lambda>(i, p). snd p)
   | Some (YSeq r a f items) \<Rightarrow> (case seg of Index n \<Rightarrow> nth_opt items n | Key k \<Rightarrow> None)
   | _ \<Rightarrow> None)"

(* src features/connectors/recipeDocument.ts 620-628 getNode *)
definition getNode :: "ylib \<Rightarrow> ynode option \<Rightarrow> segment list \<Rightarrow> ynode option" where
  "getNode lib rootn path = foldl (node_step lib) rootn path"

definition map_items :: "ynode option \<Rightarrow> ypair list option" where
  "map_items n = (case n of Some (YMap r a f items) \<Rightarrow> Some items | _ \<Rightarrow> None)"

definition node_flow :: "ynode option \<Rightarrow> bool" where
  "node_flow n = (case n of Some (YMap r a f items) \<Rightarrow> f | Some (YSeq r a f items) \<Rightarrow> f | _ \<Rightarrow> False)"

text \<open>
  The pair a path ends in, when its parent is a mapping. The last element of an empty array is
  \<open>undefined\<close>, whose text is compared with the keys like any other.
\<close>

definition last_segment :: "segment list \<Rightarrow> segment" where
  "last_segment path = (if path = [] then Key ''undefined'' else last path)"

definition parent_pair :: "ylib \<Rightarrow> ynode option \<Rightarrow> segment list \<Rightarrow> (nat \<times> ypair) option" where
  "parent_pair lib rootn path =
     Option.bind (map_items (getNode lib rootn (butlast path))) (\<lambda>items. findPair lib items (last_segment path))"

(* src features/connectors/recipeDocument.ts 415-422 inFlowContext *)
definition inFlowContext :: "ylib \<Rightarrow> ynode option \<Rightarrow> segment list \<Rightarrow> bool" where
  "inFlowContext lib rootn path = list_ex (\<lambda>depth. node_flow (getNode lib rootn (take depth path))) [0 ..< length path]"

subsection \<open>Constructs the form does not support\<close>

definition merge_key :: "ynode \<Rightarrow> bool" where
  "merge_key n = (case n of YScalar r a plain v \<Rightarrow> plain \<and> v = JStr ''<<'' | _ \<Rightarrow> False)"

text \<open>The first issue found, in document order.\<close>

definition or_issue :: "issue option \<Rightarrow> issue option \<Rightarrow> issue option" where
  "or_issue a b = (case a of Some i \<Rightarrow> Some i | None \<Rightarrow> b)"

(* src features/connectors/recipeDocument.ts 710-712 unsupportedNodeIssue *)
definition own_issue :: "string \<Rightarrow> ynode \<Rightarrow> issue option" where
  "own_issue source n =
     (let pos = map_option range_start (node_range n);
          anchored = (\<lambda>a. if a \<noteq> None \<and> a \<noteq> Some [] then Some (issueAt source Anchors
            ''Anchors are not supported in the Form view.'' pos) else None)
      in case n of
        YAlias r \<Rightarrow> Some (issueAt source Aliases ''Aliases are not supported in the Form view.'' pos)
      | YScalar r a p v \<Rightarrow> anchored a
      | YMap r a f items \<Rightarrow> anchored a
      | YSeq r a f items \<Rightarrow> anchored a)"

(* src features/connectors/recipeDocument.ts 715-718 unsupportedNodeIssue *)
definition merge_issue :: "string \<Rightarrow> ynode \<Rightarrow> issue option" where
  "merge_issue source key = (if merge_key key
     then Some (issueAt source Merge ''Merge keys are not supported in the Form view.''
       (map_option range_start (node_range key))) else None)"

text \<open>The issues of a mapping's items, given those of their keys and values.\<close>

(* src features/connectors/recipeDocument.ts 714-723 unsupportedNodeIssue *)
fun pairs_issue :: "string \<Rightarrow> ypair list \<Rightarrow> (issue option option \<times> issue option option) list \<Rightarrow> issue option" where
  "pairs_issue source ((k, v) # ps) ((ki, vi) # is) =
     or_issue (Option.bind k (merge_issue source))
       (or_issue (Option.bind ki (\<lambda>i. i)) (or_issue (Option.bind vi (\<lambda>i. i)) (pairs_issue source ps is)))"
| "pairs_issue source _ _ = None"

text \<open>A parsed tree has no cycle, so no node is met twice.\<close>

(* src features/connectors/recipeDocument.ts 705-733 unsupportedNodeIssue *)
primrec visit :: "string \<Rightarrow> ynode \<Rightarrow> issue option" where
  "visit source (YAlias r) = own_issue source (YAlias r)"
| "visit source (YScalar r a p v) = own_issue source (YScalar r a p v)"
| "visit source (YMap r a f items) = or_issue (own_issue source (YMap r a f items))
     (pairs_issue source items (map (map_prod (map_option (visit source)) (map_option (visit source))) items))"
| "visit source (YSeq r a f items) = or_issue (own_issue source (YSeq r a f items))
     (foldr or_issue (map (visit source) items) None)"

subsection \<open>Parsing\<close>

(* src features/connectors/recipeDocument.ts 26-31 RecipeDocumentResult *)
record parsed_recipe =
  pr_document :: "ydoc option"
  pr_source :: string
  pr_error :: "issue option"
  pr_unsupported :: "issue option"

(* src features/connectors/recipeDocument.ts 695-703 syntaxIssue *)
definition syntaxIssue :: "yerror \<Rightarrow> issue" where
  "syntaxIssue e = (let m = withoutPosition (fst e)
     in \<lparr>is_kind = Syntax, is_message = (if m = [] then ''Invalid YAML.'' else m),
         is_line = map_option fst (snd e), is_column = map_option snd (snd e)\<rparr>)"

definition head_opt :: "'a list \<Rightarrow> 'a option" where
  "head_opt xs = nth_opt xs 0"

(* src features/connectors/recipeDocument.ts 44-94 parseRecipeDocument *)
definition parseRecipeDocument :: "ylib \<Rightarrow> string \<Rightarrow> parsed_recipe" where
  "parseRecipeDocument lib source =
     (case lib_parse_all lib source of
        Inl e \<Rightarrow> \<lparr>pr_document = None, pr_source = source, pr_error = Some (syntaxIssue e), pr_unsupported = None\<rparr>
      | Inr documents \<Rightarrow>
          if documents = [] \<and> isBlankSource source
          then \<lparr>pr_document = None, pr_source = source, pr_error = None,
             pr_unsupported = Some (issueAt source Root ''The recipe root must be a YAML mapping.'' None)\<rparr>
          else (case concat (map dc_errors documents) of
             e # es \<Rightarrow> \<lparr>pr_document = head_opt documents, pr_source = source,
               pr_error = Some \<lparr>is_kind = Syntax, is_message = withoutPosition (fst e),
                 is_line = map_option fst (snd e), is_column = map_option snd (snd e)\<rparr>,
               pr_unsupported = None\<rparr>
           | [] \<Rightarrow>
              (let document = head_opt documents;
                   contents = Option.bind document dc_contents
               in if length documents \<noteq> 1
                  then \<lparr>pr_document = document, pr_source = source, pr_error = None,
                     pr_unsupported = Some (issueAt source Documents ''The recipe must contain exactly one YAML document.''
                       (Option.bind (nth_opt documents 1) dc_start))\<rparr>
                  else if map_items contents = None
                  then \<lparr>pr_document = document, pr_source = source, pr_error = None,
                     pr_unsupported = Some (issueAt source Root ''The recipe root must be a YAML mapping.''
                       (map_option range_start (Option.bind contents node_range)))\<rparr>
                  else \<lparr>pr_document = document, pr_source = source, pr_error = None,
                     pr_unsupported = Option.bind contents (visit source)\<rparr>)))"

(* src features/connectors/recipeDocument.ts 96-99 serializeRecipeDocument *)
definition serializeRecipeDocument :: "parsed_recipe \<Rightarrow> string" where
  "serializeRecipeDocument parsed = pr_source parsed"

(* src features/connectors/recipeDocument.ts 229-237 parseBlock *)
definition parseBlock :: "ylib \<Rightarrow> string \<Rightarrow> json result" where
  "parseBlock lib block =
     (let d = lib_parse_one lib block
      in case dc_errors d of
           e # es \<Rightarrow> Throw (fst e)
         | [] \<Rightarrow> (case dc_contents d of
             None \<Rightarrow> Throw ''The block must contain a YAML value.''
           | Some n \<Rightarrow> (case visit block n of Some i \<Rightarrow> Throw (is_message i)
               | None \<Rightarrow> Ok (lib_toJS lib (Some n)))))"

subsection \<open>What the form supports\<close>

text \<open>All nodes of a tree, and the keys of its mappings.\<close>

definition opt_list :: "'a list option \<Rightarrow> 'a list" where
  "opt_list x = (case x of None \<Rightarrow> [] | Some xs \<Rightarrow> xs)"

primrec nodes :: "ynode \<Rightarrow> ynode list" where
  "nodes (YAlias r) = [YAlias r]"
| "nodes (YScalar r a p v) = [YScalar r a p v]"
| "nodes (YMap r a f items) = YMap r a f items # concat (map (\<lambda>(k, v). opt_list k @ opt_list v)
     (map (map_prod (map_option nodes) (map_option nodes)) items))"
| "nodes (YSeq r a f items) = YSeq r a f items # concat (map nodes items)"

definition plain_node :: "ynode \<Rightarrow> bool" where
  "plain_node n = (case n of YAlias r \<Rightarrow> False
     | YScalar r a p v \<Rightarrow> a = None \<or> a = Some []
     | YMap r a f items \<Rightarrow> (a = None \<or> a = Some []) \<and> list_all (\<lambda>(k, v). case k of None \<Rightarrow> True | Some n \<Rightarrow> \<not> merge_key n) items
     | YSeq r a f items \<Rightarrow> a = None \<or> a = Some [])"

lemma or_issue_None [simp]: "or_issue a b = None \<longleftrightarrow> a = None \<and> b = None"
  by (auto simp: or_issue_def split: option.splits)

lemma own_issue_None: "own_issue source n = None \<longleftrightarrow> (case n of YMap r a f items \<Rightarrow> a = None \<or> a = Some [] | _ \<Rightarrow> plain_node n)"
  by (cases n) (auto simp: own_issue_def plain_node_def)

lemma merge_issue_None [simp]: "merge_issue source key = None \<longleftrightarrow> \<not> merge_key key"
  by (simp add: merge_issue_def)

lemma pairs_issue_None:
  "pairs_issue source ps (map (map_prod (map_option f) (map_option f)) ps) = None \<longleftrightarrow>
     (\<forall>(k, v) \<in> set ps. (\<forall>n. k = Some n \<longrightarrow> \<not> merge_key n \<and> f n = None) \<and> (\<forall>n. v = Some n \<longrightarrow> f n = None))"
proof (induction ps)
  case (Cons p ps)
  obtain k v where "p = (k, v)" by (cases p)
  with Cons show ?case by (cases k; cases v) auto
qed simp

lemma foldr_or_None: "foldr or_issue xs None = None \<longleftrightarrow> (\<forall>x \<in> set xs. x = None)"
  by (induction xs) auto

lemma nodes_map_all:
  "list_all P (nodes (YMap r a f items)) \<longleftrightarrow> P (YMap r a f items) \<and>
     (\<forall>(k, v) \<in> set items. (\<forall>n. k = Some n \<longrightarrow> list_all P (nodes n)) \<and> (\<forall>n. v = Some n \<longrightarrow> list_all P (nodes n)))"
proof -
  have "list_all P (concat (map (\<lambda>(k, v). opt_list k @ opt_list v) (map (map_prod (map_option nodes) (map_option nodes)) ps))) \<longleftrightarrow>
     (\<forall>(k, v) \<in> set ps. (\<forall>n. k = Some n \<longrightarrow> list_all P (nodes n)) \<and> (\<forall>n. v = Some n \<longrightarrow> list_all P (nodes n)))" for ps
  proof (induction ps)
    case (Cons p ps)
    obtain k v where "p = (k, v)" by (cases p)
    with Cons show ?case by (cases k; cases v) (auto simp: opt_list_def)
  qed simp
  then show ?thesis by simp
qed

lemma visit_plain: "visit source n = None \<longleftrightarrow> list_all plain_node (nodes n)"
proof (induction n)
  case (YMap r a f items)
  have "visit source m = None \<longleftrightarrow> list_all plain_node (nodes m)" if "p \<in> set items" "fst p = Some m \<or> snd p = Some m" for p m
  proof -
    obtain k v where p: "p = (k, v)" by (cases p)
    show ?thesis using that YMap(1) [of "(k, v)" "Some m" m] YMap(2) [of "(k, v)" "Some m" m] unfolding p by auto
  qed
  then have "(\<forall>(k, v) \<in> set items. (\<forall>n. k = Some n \<longrightarrow> \<not> merge_key n \<and> visit source n = None) \<and> (\<forall>n. v = Some n \<longrightarrow> visit source n = None))
      \<longleftrightarrow> (\<forall>(k, v) \<in> set items. (\<forall>n. k = Some n \<longrightarrow> list_all plain_node (nodes n)) \<and> (\<forall>n. v = Some n \<longrightarrow> list_all plain_node (nodes n)))
        \<and> list_all (\<lambda>(k, v). case k of None \<Rightarrow> True | Some n \<Rightarrow> \<not> merge_key n) items"
    by (force simp: list_all_iff split: option.splits)
  then show ?case
    unfolding nodes_map_all by (auto simp: own_issue_None plain_node_def pairs_issue_None)
next
  case (YSeq r a f items)
  then show ?case by (auto simp: own_issue_None plain_node_def foldr_or_None list_all_iff)
qed (auto simp: own_issue_None plain_node_def)

text \<open>
  A recipe is offered in the form view exactly when it can be edited there: the parse
  result carries no error and no unsupported construct if and only if the text is one document
  without errors whose root is a mapping and that contains no alias, no anchor and no merge key,
  at any depth and in keys as well as in values.
\<close>

theorem parse_supported:
  "pr_error (parseRecipeDocument lib source) = None \<and> pr_unsupported (parseRecipeDocument lib source) = None \<longleftrightarrow>
     (\<exists>d r a f items. lib_parse_all lib source = Inr [d] \<and> dc_errors d = [] \<and> dc_contents d = Some (YMap r a f items)
        \<and> list_all plain_node (nodes (YMap r a f items)))"
proof (cases "lib_parse_all lib source")
  case (Inl e)
  then show ?thesis by (simp add: parseRecipeDocument_def)
next
  case (Inr ds)
  show ?thesis
  proof (cases "\<exists>d. ds = [d]")
    case True
    then obtain d where d: "ds = [d]" by blast
    show ?thesis
      using Inr d visit_plain [of source]
      by (auto simp: parseRecipeDocument_def head_opt_def nth_opt_def map_items_def Let_def
          split: list.splits option.splits ynode.splits simp del: visit.simps nodes.simps)
  next
    case False
    then have "length ds \<noteq> 1" by (auto simp: length_Suc_conv)
    then show ?thesis using Inr False
      by (auto simp: parseRecipeDocument_def Let_def split: list.splits)
  qed
qed

end
