(* ===== verification/RecipeFormat.thy ===== *)
theory RecipeFormat
  imports RecipeNodes
begin

text \<open>
  The recipe format (\<open>features/connectors/recipeFormat.ts\<close>): the table that says which keys a
  recipe has and how they nest, and the search for keys the table does not know. The lemmas show
  that the search reports what the table lacks, and only that, and that the walk along a path
  (\<open>fieldAt\<close> of \<open>recipeErrors.ts\<close>) reads the same table.
\<close>

subsection \<open>The table\<close>

(* src features/connectors/recipeFormat.ts 3-3 RecipeFormatKind *)
datatype format_kind = K_string | K_scalar | K_block | K_mapping | K_sequence | K_dynamic

text \<open>
  The kind is optional: \<open>fields[key]\<close> also finds what every object inherits, and such a value
  has neither a kind nor an item.
\<close>

(* src features/connectors/recipeFormat.ts 5-12 RecipeFormatField *)
datatype format_field = Field (f_kind: "format_kind option") (f_options: "string list option")
  (f_item: "(string \<times> format_field) list option") (f_itemKind: "format_kind option")

type_synonym format_node = "(string \<times> format_field) list"

(* src features/connectors/recipeFormat.ts 15-15 string *)
definition string_field :: "string list option \<Rightarrow> format_field" where
  "string_field options = Field (Some K_string) options None None"

(* src features/connectors/recipeFormat.ts 16-16 scalar *)
definition scalar_field :: format_field where
  "scalar_field = Field (Some K_scalar) None None None"

(* src features/connectors/recipeFormat.ts 17-17 sequence *)
definition sequence_field :: "format_node \<Rightarrow> format_field" where
  "sequence_field item = Field (Some K_sequence) None (Some item) None"

(* src features/connectors/recipeFormat.ts 18-18 mapping *)
definition mapping_field :: "format_node \<Rightarrow> format_field" where
  "mapping_field item = Field (Some K_mapping) None (Some item) None"

definition block_field :: format_field where
  "block_field = Field (Some K_block) None None None"

definition dynamic_of :: "format_node \<Rightarrow> format_field" where
  "dynamic_of item = Field (Some K_dynamic) None (Some item) None"

definition dynamic_values :: "format_kind \<Rightarrow> format_field" where
  "dynamic_values k = Field (Some K_dynamic) None None (Some k)"

(* src features/connectors/recipeFormat.ts 20-21 dependency *)
definition dependency_format :: format_node where
  "dependency_format = [(''kind'', string_field (Some [''host'', ''network'', ''storage'', ''upstream_service''])),
     (''path'', string_field None), (''const'', scalar_field)]"

(* src features/connectors/recipeFormat.ts 22-29 attribute *)
definition attribute_format :: format_node where
  "attribute_format = [
     (''path'', string_field None),
     (''const'', scalar_field),
     (''template'', string_field None),
     (''type'', string_field (Some [''string'', ''number'', ''bool'', ''boolean'', ''list'', ''string_array''])),
     (''map'', dynamic_values K_scalar),
     (''default'', scalar_field)]"

(* src features/connectors/recipeFormat.ts 30-39 pagination *)
definition pagination_format :: format_node where
  "pagination_format = [
     (''type'', string_field (Some [''page'', ''offset'', ''cursor'', ''next_link''])),
     (''param'', string_field None),
     (''size_param'', string_field None),
     (''size'', scalar_field),
     (''start'', scalar_field),
     (''cursor_path'', string_field None),
     (''next_path'', string_field None),
     (''link_header'', scalar_field)]"

(* src features/connectors/recipeFormat.ts 40-49 action *)
definition action_format :: format_node where
  "action_format = [
     (''method'', string_field (Some [''POST'', ''PUT'', ''PATCH'', ''DELETE''])),
     (''path'', string_field None),
     (''query'', dynamic_values K_string),
     (''headers'', dynamic_values K_string),
     (''body'', block_field),
     (''label'', string_field None),
     (''description'', string_field None),
     (''downtime_seconds'', scalar_field)]"

(* src features/connectors/recipeFormat.ts 50-50 actions *)
definition actions_field :: format_field where
  "actions_field = dynamic_of action_format"

(* src features/connectors/recipeFormat.ts 51-61 entity *)
definition entity_format :: format_node where
  "entity_format = [
     (''kind'', string_field None),
     (''name'', string_field None),
     (''external_id'', string_field None),
     (''hostname'', string_field None),
     (''ip'', string_field None),
     (''mac'', string_field None),
     (''aliases'', string_field None),
     (''attributes'', dynamic_of attribute_format),
     (''actions'', actions_field)]"

(* src features/connectors/recipeFormat.ts 62-73 endpoint *)
definition endpoint_format :: format_node where
  "endpoint_format = [
     (''name'', string_field None),
     (''path'', string_field None),
     (''method'', string_field (Some [''GET'', ''POST''])),
     (''query'', dynamic_values K_string),
     (''headers'', dynamic_values K_string),
     (''body'', block_field),
     (''items'', string_field None),
     (''pagination'', mapping_field pagination_format),
     (''entity'', mapping_field entity_format),
     (''dependencies'', sequence_field dependency_format)]"

definition categories :: "string list" where
  "categories = [''virtualization'', ''containers_paas'', ''networking'', ''dns'', ''storage'', ''monitoring'', ''media'', ''other'']"

(* src features/connectors/recipeFormat.ts 75-82 recipeFormat *)
definition recipeFormat :: format_node where
  "recipeFormat = [
     (''version'', scalar_field),
     (''category'', string_field (Some categories)),
     (''auth'', mapping_field [(''mode'', string_field (Some [''none'', ''header'', ''basic'', ''query''])),
        (''name'', string_field None), (''prefix'', string_field None)]),
     (''endpoints'', sequence_field endpoint_format),
     (''dependencies'', sequence_field dependency_format),
     (''actions'', actions_field)]"

text \<open>\<open>format.fields[key]\<close>.\<close>

definition field_of :: "format_node \<Rightarrow> string \<Rightarrow> format_field option" where
  "field_of fmt key = (case map_of fmt key of Some f \<Rightarrow> Some f
     | None \<Rightarrow> if key \<in> set object_prototype then Some (Field None None None None) else None)"

subsection \<open>Unknown keys\<close>

(* src features/connectors/recipeFormat.ts 84-84 RecipeUnknownNode *)
record unknown_node =
  un_node :: ynode
  un_path :: "segment list"
  un_keys :: "string list"

definition pair_key :: "ylib \<Rightarrow> ypair \<Rightarrow> string" where
  "pair_key lib p = (case fst p of Some (YScalar r a pl v) \<Rightarrow> js_String lib v | Some n \<Rightarrow> lib_node_text lib n | None \<Rightarrow> ''null'')"

text \<open>What a node is visited as: a mapping of a format, or the value of a field.\<close>

datatype visit_as = As_node "format_node option" "segment list" | As_field format_field "segment list"

text \<open>
  The visit of a mapping: its own unknown keys first, then the values of the known ones.
  \<open>results\<close> are the visits of the values.
\<close>

(* src features/connectors/recipeFormat.ts 98-114 unknownRecipeKeys *)
definition visit_fields ::
  "ylib \<Rightarrow> ynode \<Rightarrow> ypair list \<Rightarrow> (visit_as \<Rightarrow> unknown_node list) option list \<Rightarrow> format_node \<Rightarrow> segment list \<Rightarrow> unknown_node list" where
  "visit_fields lib n items results fmt path =
     (let keys = map (pair_key lib) items;
          unknown = filter (\<lambda>k. field_of fmt k = None) keys;
          children = concat (map (\<lambda>(key, result). case (field_of fmt key, result) of
              (Some field, Some visited) \<Rightarrow> visited (As_field field (path @ [Key key])) | _ \<Rightarrow> []) (zip keys results))
      in (if unknown \<noteq> [] then [\<lparr>un_node = n, un_path = path, un_keys = unknown\<rparr>] else []) @ children)"

definition visit_values :: "(visit_as \<Rightarrow> unknown_node list) option list \<Rightarrow> (nat \<Rightarrow> visit_as) \<Rightarrow> unknown_node list" where
  "visit_values results how = concat (map_index (\<lambda>i result. case result of None \<Rightarrow> [] | Some visited \<Rightarrow> visited (how i)) 0 results)"

text \<open>A parsed tree has no cycle, so no node is met twice.\<close>

(* src features/connectors/recipeFormat.ts 95-134 unknownRecipeKeys *)
primrec visit_unknown :: "ylib \<Rightarrow> ynode \<Rightarrow> visit_as \<Rightarrow> unknown_node list" where
  "visit_unknown lib (YScalar r a p v) how = []"
| "visit_unknown lib (YAlias r) how = []"
| "visit_unknown lib (YMap r a f items) how =
     (let results = map snd (map (map_prod (\<lambda>k. k) (map_option (visit_unknown lib))) items);
          n = YMap r a f items
      in case how of
           As_node (Some fmt) path \<Rightarrow> visit_fields lib n items results fmt path
         | As_node None path \<Rightarrow> visit_values results (\<lambda>i. As_node None path)
         | As_field field path \<Rightarrow>
             (if f_kind field = Some K_mapping
              then (case f_item field of Some fmt \<Rightarrow> visit_fields lib n items results fmt path
                | None \<Rightarrow> visit_values results (\<lambda>i. As_node None path))
              else if f_kind field = Some K_dynamic \<and> f_item field \<noteq> None
              then visit_values results (\<lambda>i. As_node (f_item field) (path @ [Key (pair_key lib (items ! i))]))
              else []))"
| "visit_unknown lib (YSeq r a f items) how =
     (case how of
        As_field field path \<Rightarrow> if f_kind field = Some K_sequence
          then visit_values (map (\<lambda>n. Some (visit_unknown lib n)) items) (\<lambda>i. As_node (f_item field) (path @ [Index i]))
          else []
      | _ \<Rightarrow> [])"

(* src features/connectors/recipeFormat.ts 87-137 unknownRecipeKeys *)
definition unknownRecipeKeys :: "ylib \<Rightarrow> ydoc option \<Rightarrow> unknown_node list" where
  "unknownRecipeKeys lib document = (case Option.bind document dc_contents of
     Some (YMap r a f items) \<Rightarrow> visit_unknown lib (YMap r a f items) (As_node (Some recipeFormat) [])
   | _ \<Rightarrow> [])"

subsection \<open>The walk along a path\<close>

(* src features/connectors/recipeErrors.ts 88-101 fieldAt *)
fun field_walk :: "format_node option \<Rightarrow> format_field option \<Rightarrow> segment list \<Rightarrow> format_node option \<times> format_field option" where
  "field_walk fmt field [] = (fmt, field)"
| "field_walk fmt field (Index n # ss) = field_walk (Option.bind field f_item) field ss"
| "field_walk fmt field (Key k # ss) =
     (if Option.bind field f_kind = Some K_dynamic then field_walk (Option.bind field f_item) None ss
      else (case Option.bind fmt (\<lambda>f. field_of f k) of
          None \<Rightarrow> (None, None)
        | Some g \<Rightarrow> field_walk (f_item g) (Some g) ss))"

(* src features/connectors/recipeErrors.ts 85-103 fieldAt *)
definition fieldAt :: "segment list \<Rightarrow> format_node option \<times> format_field option" where
  "fieldAt path = field_walk (Some recipeFormat) None path"

(* src features/connectors/recipeErrors.ts 74-76 isBlockField *)
definition isBlockField :: "segment list \<Rightarrow> bool" where
  "isBlockField path \<longleftrightarrow> Option.bind (snd (fieldAt path)) f_kind = Some K_block"

(* src features/connectors/recipeErrors.ts 78-83 knownField *)
definition knownField :: "segment list \<Rightarrow> string \<Rightarrow> bool" where
  "knownField path key \<longleftrightarrow> (case fieldAt path of (fmt, field) \<Rightarrow>
     Option.bind field f_kind = Some K_dynamic \<or> Option.bind fmt (\<lambda>f. field_of f key) \<noteq> None)"

subsection \<open>The search agrees with the table\<close>

lemma field_walk_none [simp]: "field_walk None None ss = (None, None)"
proof (induction ss)
  case (Cons s ss)
  then show ?case by (cases s) auto
qed simp

lemma field_walk_append: "field_walk fmt field (p @ q) = (case field_walk fmt field p of (a, b) \<Rightarrow> field_walk a b q)"
  by (induction fmt field p rule: field_walk.induct) (auto split: option.splits)

lemma fieldAt_snoc: "fieldAt (path @ [s]) = (case fieldAt path of (a, b) \<Rightarrow> field_walk a b [s])"
  by (simp add: fieldAt_def field_walk_append)

text \<open>A visit is under way where the walk along its path is.\<close>

definition agrees :: "visit_as \<Rightarrow> bool" where
  "agrees how = (case how of
     As_node fmt path \<Rightarrow> fmt = None \<or> fst (fieldAt path) = fmt \<and> Option.bind (snd (fieldAt path)) f_kind \<noteq> Some K_dynamic
   | As_field field path \<Rightarrow> fieldAt path = (f_item field, Some field))"

definition exact_report :: "ylib \<Rightarrow> unknown_node \<Rightarrow> bool" where
  "exact_report lib u \<longleftrightarrow> un_keys u \<noteq> [] \<and> (\<exists>r a f items. un_node u = YMap r a f items
     \<and> un_keys u = filter (\<lambda>k. \<not> knownField (un_path u) k) (map (pair_key lib) items))
     \<and> fst (fieldAt (un_path u)) \<noteq> None"

lemma knownField_at: "fst (fieldAt path) = Some fmt \<Longrightarrow> Option.bind (snd (fieldAt path)) f_kind \<noteq> Some K_dynamic \<Longrightarrow>
    knownField path k \<longleftrightarrow> field_of fmt k \<noteq> None"
  by (cases "fieldAt path") (simp add: knownField_def)

lemma agrees_key: "agrees (As_node (Some fmt) path) \<Longrightarrow> field_of fmt key = Some g \<Longrightarrow> agrees (As_field g (path @ [Key key]))"
  by (cases "fieldAt path") (auto simp: agrees_def fieldAt_snoc)

lemma agrees_mapping: "agrees (As_field field path) \<Longrightarrow> f_kind field = Some K_mapping \<Longrightarrow> agrees (As_node (f_item field) path)"
  by (simp add: agrees_def)

lemma agrees_index: "agrees (As_field field path) \<Longrightarrow> f_kind field = Some K_sequence \<Longrightarrow>
    agrees (As_node (f_item field) (path @ [Index i]))"
  by (simp add: agrees_def fieldAt_snoc)

lemma agrees_dynamic: "agrees (As_field field path) \<Longrightarrow> f_kind field = Some K_dynamic \<Longrightarrow>
    agrees (As_node (f_item field) (path @ [Key k]))"
  by (simp add: agrees_def fieldAt_snoc)

lemmas agrees_steps = agrees_key agrees_mapping agrees_index agrees_dynamic

lemma visit_values_set:
  "u \<in> set (visit_values results how) \<Longrightarrow> \<exists>visited i. Some visited \<in> set results \<and> u \<in> set (visited (how i))"
proof -
  have "u \<in> set (concat (map_index (\<lambda>i result. case result of None \<Rightarrow> [] | Some visited \<Rightarrow> visited (how i)) k rs)) \<Longrightarrow>
      \<exists>visited i. Some visited \<in> set rs \<and> u \<in> set (visited (how i))" for k rs
    by (induction rs arbitrary: k) (auto split: option.splits, blast)
  then show "u \<in> set (visit_values results how) \<Longrightarrow> ?thesis" by (simp add: visit_values_def)
qed

lemma visit_fields_exact:
  assumes u: "u \<in> set (visit_fields lib (YMap r a f items) items results fmt path)"
    and how: "agrees (As_node (Some fmt) path)"
    and results: "\<And>visited how. Some visited \<in> set results \<Longrightarrow> agrees how \<Longrightarrow> \<forall>w \<in> set (visited how). exact_report lib w"
  shows "exact_report lib u"
proof -
  have known: "field_of fmt k = None \<longleftrightarrow> \<not> knownField path k" for k
    using how knownField_at [of path fmt k] by (simp add: agrees_def)
  consider (own) "un_node u = YMap r a f items" "un_path u = path" "un_keys u = filter (\<lambda>k. field_of fmt k = None) (map (pair_key lib) items)" "un_keys u \<noteq> []"
    | (child) key visited field where "Some visited \<in> set results" "field_of fmt key = Some field" "u \<in> set (visited (As_field field (path @ [Key key])))"
  proof (cases "un_path u = path \<and> un_node u = YMap r a f items \<and> un_keys u \<noteq> []
      \<and> un_keys u = filter (\<lambda>k. field_of fmt k = None) (map (pair_key lib) items)")
    case False
    then have "u \<in> set (concat (map (\<lambda>(key, result). case (field_of fmt key, result) of
        (Some field, Some visited) \<Rightarrow> visited (As_field field (path @ [Key key])) | _ \<Rightarrow> []) (zip (map (pair_key lib) items) results)))"
      using u by (auto simp: visit_fields_def Let_def split: if_splits)
    then obtain key result where "(key, result) \<in> set (zip (map (pair_key lib) items) results)"
      "u \<in> set (case (field_of fmt key, result) of (Some field, Some visited) \<Rightarrow> visited (As_field field (path @ [Key key])) | _ \<Rightarrow> [])"
      by auto
    then show thesis by (cases "field_of fmt key"; cases result) (auto dest: set_zip_rightD intro: child)
  qed (use own in auto)
  then show ?thesis
  proof cases
    case own
    then show ?thesis unfolding exact_report_def using how by (simp add: known agrees_def)
  next
    case child
    then show ?thesis using results [OF child(1) agrees_key [OF how child(2)]] by blast
  qed
qed

lemma visit_unknown_exact: "agrees how \<Longrightarrow> u \<in> set (visit_unknown lib n how) \<Longrightarrow> exact_report lib u"
proof (induction n arbitrary: how u)
  case (YMap r a f items)
  let ?results = "map snd (map (map_prod (\<lambda>k. k) (map_option (visit_unknown lib))) items)"
  have results: "\<forall>w \<in> set (visited how'). exact_report lib w" if "Some visited \<in> set ?results" "agrees how'" for visited how'
  proof -
    have "Some visited \<in> (\<lambda>p. map_option (visit_unknown lib) (snd p)) ` set items" using that(1) by (auto simp: image_iff)
    then obtain k v where "(k, v) \<in> set items" "Some visited = map_option (visit_unknown lib) v" by auto
    then obtain w where "(k, Some w) \<in> set items" "visited = visit_unknown lib w" by (cases v) auto
    then show ?thesis using YMap.IH(2) [of "(k, Some w)" "Some w" w how'] that(2) by auto
  qed
  have vals: "exact_report lib u" if "u \<in> set (visit_values ?results h)" "\<And>i. agrees (h i)" for h
    using visit_values_set [OF that(1)] results that(2) by blast
  have fields: "exact_report lib u" if "u \<in> set (visit_fields lib (YMap r a f items) items ?results fmt path)"
      "agrees (As_node (Some fmt) path)" for fmt path
    by (rule visit_fields_exact [OF that]) (rule results)
  show ?case
  proof (cases how)
    case (As_node fmt path)
    then show ?thesis
      using YMap.prems fields [of "the fmt" path] vals [of "\<lambda>i. As_node None path"]
      by (cases fmt) (auto simp: agrees_def Let_def simp del: map_map)
  next
    case (As_field field path)
    show ?thesis
    proof (cases "f_kind field = Some K_mapping")
      case True
      then show ?thesis
        using YMap.prems As_field fields [of "the (f_item field)" path] agrees_mapping [of field path]
          vals [of "\<lambda>i. As_node None path"]
        by (cases "f_item field") (auto simp: agrees_def Let_def simp del: map_map)
    next
      case False
      then show ?thesis
        using YMap.prems As_field vals [of "\<lambda>i. As_node (f_item field) (path @ [Key (pair_key lib (items ! i))])"]
          agrees_dynamic [of field path]
        by (auto simp: Let_def simp del: map_map split: if_splits)
    qed
  qed
next
  case (YSeq r a f items)
  then obtain field path where how: "how = As_field field path" "f_kind field = Some K_sequence"
    by (auto split: visit_as.splits if_splits)
  with YSeq.prems obtain n i where "n \<in> set items" "u \<in> set (visit_unknown lib n (As_node (f_item field) (path @ [Index i])))"
    using visit_values_set [of u "map (\<lambda>n. Some (visit_unknown lib n)) items" "\<lambda>i. As_node (f_item field) (path @ [Index i])"] by auto
  then show ?case using YSeq.IH agrees_index YSeq.prems(1) how by blast
qed auto

text \<open>
  The unknown keys shown in the form are exactly those the format table lacks. Every
  report is about one mapping of the recipe, is not empty, and lists, in the order of the text,
  precisely the keys of that mapping which the walk along its path does not know; and every
  unknown key of the root mapping is in a report about the root. (What every JavaScript object
  inherits counts as known: a key called \<open>constructor\<close> is never reported.)
\<close>

theorem unknown_keys_exact:
  "(\<forall>u \<in> set (unknownRecipeKeys lib document). exact_report lib u)
    \<and> (\<forall>d r a f items k. document = Some d \<and> dc_contents d = Some (YMap r a f items) \<and> k \<in> set (map (pair_key lib) items)
        \<and> \<not> knownField [] k \<longrightarrow> (\<exists>u \<in> set (unknownRecipeKeys lib document). un_path u = [] \<and> k \<in> set (un_keys u)))
    \<and> knownField [] ''constructor''"
proof (intro conjI ballI allI impI)
  have r: "agrees (As_node (Some recipeFormat) [])" by (simp add: agrees_def fieldAt_def)
  fix u assume "u \<in> set (unknownRecipeKeys lib document)"
  then show "exact_report lib u"
    using visit_unknown_exact [OF r]
    by (auto simp: unknownRecipeKeys_def simp del: visit_unknown.simps split: option.splits ynode.splits)
next
  fix d r a f items k
  assume k: "document = Some d \<and> dc_contents d = Some (YMap r a f items) \<and> k \<in> set (map (pair_key lib) items) \<and> \<not> knownField [] k"
  then have unk: "field_of recipeFormat k = None" by (simp add: knownField_def fieldAt_def)
  define ks where "ks = filter (\<lambda>k. field_of recipeFormat k = None) (map (pair_key lib) items)"
  have ks: "k \<in> set ks" using k unk by (simp add: ks_def)
  then have "ks \<noteq> []" by auto
  then have "\<lparr>un_node = YMap r a f items, un_path = [], un_keys = ks\<rparr>
      \<in> set (visit_fields lib (YMap r a f items) items results recipeFormat [])" for results
    unfolding visit_fields_def Let_def ks_def [symmetric] by simp
  then have "\<exists>u \<in> set (visit_fields lib (YMap r a f items) items results recipeFormat []). un_path u = [] \<and> k \<in> set (un_keys u)" for results
    using ks by (metis (no_types, lifting) unknown_node.select_convs(2,3))
  then show "\<exists>u \<in> set (unknownRecipeKeys lib document). un_path u = [] \<and> k \<in> set (un_keys u)"
    using k by (simp add: unknownRecipeKeys_def Let_def)
next
  have "map_of recipeFormat ''constructor'' = None" by code_simp
  moreover have "''constructor'' \<in> set object_prototype" by (simp add: object_prototype_def)
  ultimately show "knownField [] ''constructor''" by (simp add: knownField_def fieldAt_def field_of_def)
qed

definition plain_lib :: ylib where
  "plain_lib = \<lparr>lib_parse_all = (\<lambda>s. Inr []), lib_parse_one = (\<lambda>s. \<lparr>dc_contents = None, dc_errors = [], dc_start = None\<rparr>),
     lib_toJS = (\<lambda>n. JNull), lib_empty = YMap None None False [], lib_setIn = (\<lambda>p v n. Ok n), lib_deleteIn = (\<lambda>p n. Ok n),
     lib_addIn = (\<lambda>p v n. Ok n), lib_has = (\<lambda>n k. False), lib_get = (\<lambda>n k. None), lib_node_text = (\<lambda>n. []),
     lib_text = (\<lambda>flow v. []), lib_num = (\<lambda>n. [])\<rparr>"

lemma unknown_keys_exact_witness:
  "\<exists>u \<in> set (unknownRecipeKeys plain_lib (Some \<lparr>dc_contents = Some (YMap None None False
       [(Some (YScalar None None True (JStr ''foo'')), None)]), dc_errors = [], dc_start = None\<rparr>)).
     un_path u = [] \<and> ''foo'' \<in> set (un_keys u)"
proof -
  have "\<not> knownField [] ''foo''" by code_simp
  then show ?thesis
    using unknown_keys_exact [of plain_lib "Some \<lparr>dc_contents = Some (YMap None None False
       [(Some (YScalar None None True (JStr ''foo'')), None)]), dc_errors = [], dc_start = None\<rparr>"]
    by (auto simp: pair_key_def simp del: Set.bex_simps)
qed

end
