(* ===== verification/RecipeErrors.thy ===== *)
theory RecipeErrors
  imports RecipeFormat
begin

text \<open>
  Error locations of the backend, resolved in the recipe text
  (\<open>features/connectors/recipeErrors.ts\<close>), the ids of the form's rows, and the category shown
  for a recipe (\<open>recipeCategory.ts\<close>). The lemmas show that a resolved error names a row of the
  format table and a stretch of the text, and that row ids do not collide.
\<close>

subsection \<open>Row ids\<close>

(* src features/connectors/recipeErrors.ts 14-14 recipeFieldId *)
definition double_dash :: "string \<Rightarrow> string" where
  "double_dash s = concat (map (\<lambda>c. if c = CHR ''-'' then ''--'' else [c]) s)"

(* src features/connectors/recipeErrors.ts 13-15 recipeFieldId *)
definition recipeFieldId :: "segment list \<Rightarrow> string" where
  "recipeFieldId path = ''recipe-field-'' @ join_with ''-'' (map (\<lambda>part. double_dash (segment_text part)) path)"

subsection \<open>Locations\<close>

definition drop_text :: "string \<Rightarrow> string \<Rightarrow> string" where
  "drop_text p s = (if starts_with p s then drop (length p) s else s)"

text \<open>\<open>/^(config\\.)?recipe(?:[.[]|$)/\<close>.\<close>

(* src features/connectors/recipeErrors.ts 20-20 resolveRecipeError *)
definition recipe_location :: "string \<Rightarrow> bool" where
  "recipe_location field \<longleftrightarrow> list_ex (\<lambda>s. starts_with ''recipe'' s \<and>
     (case drop 6 s of [] \<Rightarrow> True | c # r \<Rightarrow> c = CHR ''.'' \<or> c = CHR ''['')) [field, drop_text ''config.'' field]"

(* src features/connectors/recipeErrors.ts 19-19 resolveRecipeError *)
definition location_of :: "string \<Rightarrow> string" where
  "location_of field = (let s = drop_text ''config.'' field
     in if starts_with ''recipe'' s then drop_text ''.'' (drop 6 s) else s)"

text \<open>Whether a key stands at the start of what remains; the longest such key wins.\<close>

(* src features/connectors/recipeErrors.ts 40-40 resolveRecipeError *)
definition key_fits :: "string \<Rightarrow> string \<Rightarrow> bool" where
  "key_fits remaining c \<longleftrightarrow> c \<noteq> [] \<and> (remaining = c \<or> starts_with (c @ ''.'') remaining \<or> starts_with (c @ ''['') remaining)"

fun longest :: "string list \<Rightarrow> string option" where
  "longest [] = None"
| "longest (c # cs) = (case longest cs of None \<Rightarrow> Some c | Some d \<Rightarrow> Some (if length c < length d then d else c))"

(* src features/connectors/recipeErrors.ts 39-41 resolveRecipeError *)
definition fitting_key :: "ylib \<Rightarrow> ypair list \<Rightarrow> string \<Rightarrow> string option" where
  "fitting_key lib items remaining = longest (filter (key_fits remaining)
     (map (\<lambda>p. case fst p of Some (YScalar r a pl v) \<Rightarrow> js_String lib v | _ \<Rightarrow> []) items))"

text \<open>Known fields below a key the recipe does not have.\<close>

(* src features/connectors/recipeErrors.ts 48-54 resolveRecipeError *)
function missing_fields :: "segment list \<Rightarrow> string \<Rightarrow> (segment list \<times> string) option" where
  "missing_fields path remaining =
     (if starts_with ''.'' remaining
      then (let name = takeWhile is_key_text (drop 1 remaining)
            in if name = [] \<or> \<not> knownField path name then None
               else missing_fields (path @ [Key name]) (drop (length name) (drop 1 remaining)))
      else Some (path, remaining))"
  by pat_completeness auto
termination
  by (relation "measure (\<lambda>(path, remaining). length remaining)") (auto simp: starts_with_def intro!: diff_less)

declare missing_fields.simps [simp del]

lemma longest_in: "longest cs = Some c \<Longrightarrow> c \<in> set cs"
  by (induction cs arbitrary: c) (auto split: option.splits if_splits)

lemma longest_None: "longest cs = None \<longleftrightarrow> cs = []"
  by (cases cs) (auto split: option.splits)

lemma longest_max: "longest cs = Some c \<Longrightarrow> d \<in> set cs \<Longrightarrow> length d \<le> length c"
  by (induction cs arbitrary: c d) (fastforce simp: longest_None split: option.splits if_splits)+

lemma fitting_key_fits: "fitting_key lib items remaining = Some key \<Longrightarrow> key_fits remaining key"
  using longest_in by (fastforce simp: fitting_key_def)

lemma drop_text_le: "length (drop_text p s) \<le> length s"
  by (simp add: drop_text_def)

lemma starts_with_le: "starts_with p s \<Longrightarrow> length p \<le> length s"
  unfolding starts_with_def by (metis length_take min.cobounded1)

lemma key_fits_len: "key_fits r c \<Longrightarrow> 0 < length c \<and> length c \<le> length r"
  using starts_with_le [of "c @ ''.''" r] starts_with_le [of "c @ ''[''" r] by (auto simp: key_fits_def)

lemma key_fits_less: "key_fits (drop_text ''.'' s) key \<Longrightarrow> length (drop_text ''.'' s) - length key < length s"
  using key_fits_len [of "drop_text ''.'' s" key] drop_text_le [of "''.''" s] by linarith

lemma index_less: "starts_with ''['' (drop_text ''.'' s) \<Longrightarrow>
    length (dropWhile is_digit (drop (Suc 0) (drop_text ''.'' s))) - Suc 0 < length s"
proof -
  assume a: "starts_with ''['' (drop_text ''.'' s)"
  have "length (dropWhile is_digit (drop (Suc 0) (drop_text ''.'' s))) \<le> length (drop_text ''.'' s) - 1"
    using length_dropWhile_le [of is_digit "drop (Suc 0) (drop_text ''.'' s)"] by simp
  moreover have "drop_text ''.'' s \<noteq> []" using a by (auto simp: starts_with_def)
  then have "0 < length s" using drop_text_le [of "''.''" s] by (cases s) auto
  ultimately show ?thesis using drop_text_le [of "''.''" s] by linarith
qed

text \<open>
  The walk along a location: the path of the row, and the node it ends at. Below a block value
  the path stays at the block.
\<close>

(* src features/connectors/recipeErrors.ts 29-67 resolveRecipeError *)
function resolve_walk ::
  "ylib \<Rightarrow> segment list \<Rightarrow> ynode option \<Rightarrow> string \<Rightarrow> bool \<Rightarrow> (segment list \<times> ynode option) option" where
  "resolve_walk lib path n location insideBlock =
     (if location = [] then Some (path, n)
      else (let remaining = drop_text ''.'' location
        in case n of
             Some (YSeq r a f items) \<Rightarrow>
               (let digits = takeWhile is_digit (drop 1 remaining);
                    rest = dropWhile is_digit (drop 1 remaining);
                    index = nat_of_digits digits
                in if starts_with ''['' remaining \<and> digits \<noteq> [] \<and> starts_with '']'' rest
                   then resolve_walk lib (if insideBlock then path else path @ [Index index]) (nth_opt items index) (drop 1 rest) insideBlock
                   else None)
           | Some (YMap r a f items) \<Rightarrow>
               (case fitting_key lib items remaining of
                  None \<Rightarrow>
                    if insideBlock then Some (path, n)
                    else (let missing = takeWhile is_key_text remaining
                          in if missing = [] \<or> \<not> knownField path missing then None
                             else (case missing_fields (path @ [Key missing]) (drop (length missing) remaining) of
                                 Some (p, []) \<Rightarrow> Some (p, n) | _ \<Rightarrow> None))
                | Some key \<Rightarrow>
                    if \<not> insideBlock \<and> \<not> knownField path key then None
                    else (let p = (if insideBlock then path else path @ [Key key])
                          in resolve_walk lib p (lib_get lib (YMap r a f items) key) (drop (length key) remaining)
                               (insideBlock \<or> isBlockField p)))
           | _ \<Rightarrow> None))"
  by pat_completeness auto

termination
  by (relation "measure (\<lambda>(lib, path, n, location, b). length location)")
    (auto simp: index_less key_fits_less dest: fitting_key_fits)

declare resolve_walk.simps [simp del]

(* src features/connectors/recipeErrors.ts 5-11 RecipeErrorTarget *)
record error_target =
  et_path :: "segment list"
  et_id :: string
  et_from :: nat
  et_to :: nat
  et_line :: nat

(* src features/connectors/recipeErrors.ts 17-72 resolveRecipeError *)
definition resolveRecipeError :: "ylib \<Rightarrow> string \<Rightarrow> string \<Rightarrow> error_target option" where
  "resolveRecipeError lib source field =
     (if \<not> recipe_location field then None
      else (let parsed = parseRecipeDocument lib source
        in case (pr_error parsed, Option.bind (pr_document parsed) dc_contents) of
             (None, Some contents) \<Rightarrow>
               (case resolve_walk lib [] (Some contents) (location_of field) False of
                  None \<Rightarrow> None
                | Some (path, n) \<Rightarrow>
                    (case (case Option.bind n node_range of Some r \<Rightarrow> Some r | None \<Rightarrow> node_range contents) of
                       None \<Rightarrow> None
                     | Some r \<Rightarrow> Some \<lparr>et_path = path, et_id = recipeFieldId path, et_from = range_start r,
                         et_to = max (range_start r + 1) (range_value r),
                         et_line = length (split_on NL (slice 0 (range_start r) source))\<rparr>))
           | _ \<Rightarrow> None))"

(* src features/connectors/recipeCategory.ts 8-15 readRecipeCategory *)
definition readRecipeCategory :: "ylib \<Rightarrow> string \<Rightarrow> string option" where
  "readRecipeCategory lib recipe =
     (let parsed = parseRecipeDocument lib recipe
      in case (pr_error parsed, Option.bind (pr_document parsed) dc_contents) of
           (None, Some (YMap r a f items)) \<Rightarrow>
             (case lib_get lib (YMap r a f items) ''category'' of
                Some (YScalar r a p (JStr c)) \<Rightarrow> find (\<lambda>value. value = c) categories
              | _ \<Rightarrow> None)
         | _ \<Rightarrow> None)"

subsection \<open>Resolved errors name rows\<close>

text \<open>Every name on the path is a field of the format at its place, list positions apart.\<close>

definition known_path :: "segment list \<Rightarrow> bool" where
  "known_path p \<longleftrightarrow> (\<forall>i < length p. case p ! i of Key k \<Rightarrow> knownField (take i p) k | Index n \<Rightarrow> True)"

lemma known_path_Nil [simp]: "known_path []"
  by (simp add: known_path_def)

lemma known_path_snoc: "known_path (p @ [s]) \<longleftrightarrow> known_path p \<and> (case s of Key k \<Rightarrow> knownField p k | Index n \<Rightarrow> True)"
  by (auto simp: known_path_def All_less_Suc nth_append split: segment.splits)

lemma missing_fields_known: "missing_fields path remaining = Some (p, rest) \<Longrightarrow> known_path path \<Longrightarrow> known_path p"
proof (induction path remaining rule: missing_fields.induct)
  case (1 path remaining)
  show ?case
  proof (cases "starts_with ''.'' remaining")
    case True
    let ?name = "takeWhile is_key_text (drop 1 remaining)"
    have "?name \<noteq> []" "knownField path ?name"
      "missing_fields (path @ [Key ?name]) (drop (length ?name) (drop 1 remaining)) = Some (p, rest)"
      using 1(2) True by (subst (asm) missing_fields.simps; simp add: Let_def split: if_splits)+
    then show ?thesis using 1(1) [OF True refl] 1(3) by (simp add: known_path_snoc)
  next
    case False
    then show ?thesis using 1(2,3) by (subst (asm) missing_fields.simps) simp
  qed
qed

lemma resolve_walk_known: "resolve_walk lib path n location inside = Some (p, m) \<Longrightarrow> known_path path \<Longrightarrow> known_path p"
proof (induction lib path n location inside rule: resolve_walk.induct)
  case (1 lib path n location inside)
  show ?case
  proof (cases "location = []")
    case True
    then show ?thesis using 1(3,4) by (subst (asm) resolve_walk.simps) simp
  next
    case False
    note walk = 1(3) [unfolded resolve_walk.simps [of lib path n location inside]]
    show ?thesis
    proof (cases n)
      case None
      then show ?thesis using walk False by simp
    next
      case (Some node)
      show ?thesis
      proof (cases node)
        case (YScalar r a f v)
        then show ?thesis using walk False Some by simp
      next
        case (YAlias r)
        then show ?thesis using walk False Some by simp
      next
        case (YSeq r a f items)
        let ?remaining = "drop_text ''.'' location"
        let ?digits = "takeWhile is_digit (drop 1 ?remaining)" and ?rest = "dropWhile is_digit (drop 1 ?remaining)"
        let ?p = "if inside then path else path @ [Index (nat_of_digits ?digits)]"
        have w: "starts_with ''['' ?remaining \<and> ?digits \<noteq> [] \<and> starts_with '']'' ?rest"
          "resolve_walk lib ?p (nth_opt items (nat_of_digits ?digits)) (drop 1 ?rest) inside = Some (p, m)"
          using walk False Some YSeq by (auto simp: Let_def split: if_splits)
        show ?thesis
          using 1(2) [OF False refl Some YSeq refl refl refl w(1,2)] 1(4) by (simp add: known_path_snoc)
      next
        case (YMap r a f items)
        show ?thesis
        proof (cases "fitting_key lib items (drop_text ''.'' location)")
          case None
          then show ?thesis using walk False Some YMap 1(4)
            by (auto simp: Let_def known_path_snoc dest!: missing_fields_known split: if_splits option.splits list.splits)
        next
          case (Some key)
          let ?p = "if inside then path else path @ [Key key]"
          have w: "\<not> (\<not> inside \<and> \<not> knownField path key)"
            "resolve_walk lib ?p (lib_get lib (YMap r a f items) key) (drop (length key) (drop_text ''.'' location))
              (inside \<or> isBlockField ?p) = Some (p, m)"
            using walk False \<open>n = Some node\<close> YMap Some by (auto simp: Let_def split: if_splits)
          show ?thesis
            using 1(1) [OF False refl \<open>n = Some node\<close> YMap Some w(1) refl w(2)] 1(4) w(1) by (auto simp: known_path_snoc)
        qed
      qed
    qed
  qed
qed

text \<open>
  An error location resolves to a row the form has. When the backend's location is found
  in the recipe, every name on the resulting path is a field of the recipe format at its place (or
  an entry of one of its dynamic maps), the row's id is the id of that path, the stretch to select
  is not empty and starts on the reported line, counted from one.
\<close>

theorem resolved_error_row:
  assumes "resolveRecipeError lib source field = Some t"
  shows "known_path (et_path t) \<and> et_id t = recipeFieldId (et_path t) \<and> et_from t < et_to t
    \<and> et_line t = length (split_on NL (slice 0 (et_from t) source)) \<and> 1 \<le> et_line t
    \<and> recipe_location field \<and> pr_error (parseRecipeDocument lib source) = None"
proof -
  obtain contents p n where w: "resolve_walk lib [] (Some contents) (location_of field) False = Some (p, n)" "et_path t = p"
    "et_id t = recipeFieldId p" "et_from t < et_to t" "et_line t = length (split_on NL (slice 0 (et_from t) source))"
    "recipe_location field" "pr_error (parseRecipeDocument lib source) = None"
    using assms by (auto simp: resolveRecipeError_def Let_def split: if_splits option.splits prod.splits)
  then show ?thesis using resolve_walk_known [OF w(1)] by (cases "split_on NL (slice 0 (et_from t) source)") auto
qed

definition category_lib :: ylib where
  "category_lib = plain_lib\<lparr>lib_parse_all := (\<lambda>s. Inr [\<lparr>dc_contents = Some (YMap (Some (0, 13, 13)) None False
       [(Some (YScalar (Some (0, 8, 8)) None True (JStr ''category'')), Some (YScalar (Some (10, 13, 13)) None True (JStr ''dns'')))]),
       dc_errors = [], dc_start = Some 0\<rparr>]),
     lib_get := (\<lambda>n k. Some (YScalar (Some (10, 13, 13)) None True (JStr ''dns'')))\<rparr>"

lemma resolve_category: "resolveRecipeError category_lib ''category: dns'' ''config.recipe.category'' =
    Some \<lparr>et_path = [Key ''category''], et_id = ''recipe-field-category'', et_from = 10, et_to = 13, et_line = 1\<rparr>"
  by code_simp

lemma resolved_error_row_witness: "known_path [Key ''category'']"
  using resolved_error_row [OF resolve_category] by simp

subsection \<open>Row ids\<close>

text \<open>Reading an id back: two dashes are one, a single dash separates.\<close>

fun cons_head :: "'a \<Rightarrow> 'a list list \<Rightarrow> 'a list list" where
  "cons_head c [] = [[c]]"
| "cons_head c (w # ws) = (c # w) # ws"

fun id_parts :: "string \<Rightarrow> string list" where
  "id_parts [] = [[]]"
| "id_parts [c] = (if c = CHR ''-'' then [[], []] else [[c]])"
| "id_parts (c # d # s) =
     (if c = CHR ''-'' \<and> d = CHR ''-'' then cons_head c (id_parts s)
      else if c = CHR ''-'' then [] # id_parts (d # s) else cons_head c (id_parts (d # s)))"

definition plain_part :: "string \<Rightarrow> bool" where
  "plain_part s \<longleftrightarrow> s \<noteq> [] \<and> hd s \<noteq> CHR ''-''"

lemma double_dash_Cons [simp]: "double_dash (c # s) = (if c = CHR ''-'' then ''--'' else [c]) @ double_dash s"
  by (simp add: double_dash_def)

lemma double_dash_Nil [simp]: "double_dash [] = []"
  by (simp add: double_dash_def)

lemma id_parts_Cons: "c \<noteq> CHR ''-'' \<Longrightarrow> id_parts (c # s) = cons_head c (id_parts s)"
  by (cases s) auto

lemma id_parts_sep: "plain_part w \<Longrightarrow> id_parts (CHR ''-'' # double_dash w @ s) = [] # id_parts (double_dash w @ s)"
  by (cases w) (auto simp: plain_part_def)

lemma id_parts_word: "id_parts s = [] # ws \<Longrightarrow> id_parts (double_dash w @ s) = w # ws"
  by (induction w) (auto simp: id_parts_Cons)

lemma id_parts_join: "list_all plain_part ws \<Longrightarrow> id_parts (join_with ''-'' (map double_dash (w # ws))) = w # ws"
proof (induction ws arbitrary: w)
  case Nil
  show ?case using id_parts_word [of "[]" "[]" w] by simp
next
  case (Cons v ws)
  let ?rest = "join_with ''-'' (map double_dash (v # ws))"
  obtain t where t: "?rest = double_dash v @ t" by (cases ws) auto
  have "id_parts ?rest = v # ws" using Cons by simp
  then have "id_parts (''-'' @ ?rest) = [] # v # ws"
    using Cons.prems id_parts_sep [of v t] unfolding t by simp
  then show ?case using id_parts_word [of "''-'' @ ?rest" "v # ws" w] by simp
qed

text \<open>
  Rows of the form have different ids: for paths whose parts are not empty and do not
  begin with a dash, the id determines every part of the path. Parts that do begin with a dash can
  collide: a part ending in a dash and one beginning with it give the same id.
\<close>

theorem recipeFieldId_injective:
  "(\<forall>p q. list_all plain_part (map segment_text p) \<and> list_all plain_part (map segment_text q) \<and> recipeFieldId p = recipeFieldId q
      \<longrightarrow> map segment_text p = map segment_text q)
    \<and> recipeFieldId [Key ''a-'', Key ''b''] = recipeFieldId [Key ''a'', Key ''-b'']"
proof (intro conjI allI impI)
  fix p q
  assume a: "list_all plain_part (map segment_text p) \<and> list_all plain_part (map segment_text q) \<and> recipeFieldId p = recipeFieldId q"
  have read: "id_parts (join_with ''-'' (map (\<lambda>part. double_dash (segment_text part)) r)) = (if r = [] then [[]] else map segment_text r)"
    if "list_all plain_part (map segment_text r)" for r
    using that id_parts_join [of "map segment_text (tl r)" "segment_text (hd r)"] by (cases r) (auto simp: comp_def)
  have "(if p = [] then [[]] else map segment_text p) = (if q = [] then [[]] else map segment_text q)"
    using a read [of p] read [of q] by (simp add: recipeFieldId_def)
  then show "map segment_text p = map segment_text q"
    using a by (cases p; cases q) (auto simp: plain_part_def)
qed (simp add: recipeFieldId_def)

lemma recipeFieldId_injective_witness: "recipeFieldId [Key ''a-b''] \<noteq> recipeFieldId [Key ''a'', Key ''b'']"
proof
  assume "recipeFieldId [Key ''a-b''] = recipeFieldId [Key ''a'', Key ''b'']"
  then have "map segment_text [Key ''a-b''] = map segment_text [Key ''a'', Key ''b'']"
    using conjunct1 [OF recipeFieldId_injective, rule_format, of "[Key ''a-b'']" "[Key ''a'', Key ''b'']"] by (simp add: plain_part_def)
  then show False by simp
qed

end
