(* ===== verification/RecipePatch.thy ===== *)
theory RecipePatch
  imports RecipeNodes
begin

text \<open>
  The source patches of the recipe editor (\<open>features/connectors/recipeDocument.ts\<close>): for each
  edit operation the stretch of text that is replaced, computed from the ranges of the parsed
  nodes. What these patches do to the text is shown in the theory \<open>RecipeMoves\<close>.
\<close>

subsection \<open>Edit operations\<close>

(* src features/connectors/recipeDocument.ts 33-40 RecipeEditOperation *)
datatype edit_op =
    Set_op recipe_path json
  | Delete_op recipe_path
  | Append_op recipe_path json
  | Remove_op recipe_path int
  | Move_op recipe_path int int
  | Rename_op recipe_path string
  | Block_op recipe_path string

fun op_path :: "edit_op \<Rightarrow> recipe_path" where
  "op_path (Set_op p v) = p"
| "op_path (Delete_op p) = p"
| "op_path (Append_op p v) = p"
| "op_path (Remove_op p i) = p"
| "op_path (Move_op p i j) = p"
| "op_path (Rename_op p t) = p"
| "op_path (Block_op p t) = p"

subsection \<open>Rendering values\<close>

text \<open>\<open>replace(/^\\[ ?/, '')\<close> and \<open>replace(/ ?\\]\\n?$/, '')\<close>.\<close>

definition strip_open :: "string \<Rightarrow> string" where
  "strip_open s = (if starts_with ''[ '' s then drop 2 s else if starts_with ''['' s then drop 1 s else s)"

definition strip_close :: "string \<Rightarrow> string" where
  "strip_close s = (let t = drop_final_nl s
     in if ends_with '' ]'' t then take (length t - 2) t else if ends_with '']'' t then take (length t - 1) t else s)"

definition composite :: "json \<Rightarrow> bool" where
  "composite v \<longleftrightarrow> (case v of JArr _ \<Rightarrow> True | JObj _ \<Rightarrow> True | _ \<Rightarrow> False)"

(* src features/connectors/recipeDocument.ts 643-652 renderYaml *)
definition renderYaml :: "ylib \<Rightarrow> json \<Rightarrow> bool \<Rightarrow> string" where
  "renderYaml lib v flow = (if flow \<and> \<not> composite v then strip_close (strip_open (lib_text lib True (JArr [v])))
     else lib_text lib flow v)"

(* src features/connectors/recipeDocument.ts 637-641 flowPair *)
definition flowPair :: "ylib \<Rightarrow> string \<Rightarrow> json \<Rightarrow> string" where
  "flowPair lib key v = trim (renderYaml lib (JStr key) True) @ '': '' @ trim (renderYaml lib v True)"

subsection \<open>Ranges\<close>

definition key_range :: "ypair \<Rightarrow> node_range option" where
  "key_range p = Option.bind (fst p) node_range"

definition value_range :: "ypair \<Rightarrow> node_range option" where
  "value_range p = Option.bind (snd p) node_range"

definition opt_range :: "(node_range \<Rightarrow> nat) \<Rightarrow> node_range option \<Rightarrow> nat \<Rightarrow> nat" where
  "opt_range f r d = from_opt d (map_option f r)"

definition last_opt :: "'a list \<Rightarrow> 'a option" where
  "last_opt xs = (if xs = [] then None else Some (last xs))"

(* src features/connectors/recipeDocument.ts 606-610 sequenceIndent *)
definition sequenceIndent :: "string \<Rightarrow> node_range option \<Rightarrow> ynode list \<Rightarrow> nat" where
  "sequenceIndent source seq_range items =
     (case Option.bind (head_opt items) node_range of
        Some r \<Rightarrow> lineIndent source (range_start r)
      | None \<Rightarrow> (case seq_range of Some r \<Rightarrow> lineIndent source (range_start r) | None \<Rightarrow> 0))"

subsection \<open>Spans of the items of a block sequence\<close>

record item_span =
  sp_start :: nat
  sp_end :: nat
  sp_text :: string

definition strip_breaks :: "string \<Rightarrow> string" where
  "strip_breaks s = rev (dropWhile (\<lambda>c. c = CR \<or> c = NL) (rev s))"

text \<open>A line that is a comment at least as deep as the sequence.\<close>

(* src features/connectors/recipeDocument.ts 590-592 sequenceSpans *)
definition comment_line :: "string \<Rightarrow> nat \<Rightarrow> bool" where
  "comment_line line indent \<longleftrightarrow> starts_with ''#'' (trim (strip_breaks line)) \<and> indent \<le> leading_spaces (strip_breaks line)"

lemma comment_line_Nil: "\<not> comment_line [] indent"
  by (simp add: comment_line_def strip_breaks_def trim_def trim_start_def trim_end_def starts_with_def)

lemma comment_line_less: "comment_line (slice i j source) indent \<Longrightarrow> i < j"
  using comment_line_Nil [of indent] by (cases "i < j") (auto simp: slice_def)

text \<open>The loop that takes the comment lines above an item into its span.\<close>

(* src features/connectors/recipeDocument.ts 587-594 sequenceSpans *)
function above_comments :: "string \<Rightarrow> nat \<Rightarrow> nat \<Rightarrow> nat" where
  "above_comments source indent start =
     (let previousStart = lineStart source (start - 1)
      in if 0 < start \<and> comment_line (slice previousStart start source) indent
         then above_comments source indent previousStart else start)"
  by pat_completeness auto

termination
  by (relation "measure (\<lambda>(source, indent, start). start)") (auto dest: comment_line_less)

declare above_comments.simps [simp del]

(* src features/connectors/recipeDocument.ts 584-596 sequenceSpans *)
definition span_starts :: "string \<Rightarrow> node_range option \<Rightarrow> ynode list \<Rightarrow> nat list" where
  "span_starts source seq_range items = map (\<lambda>item.
     above_comments source (sequenceIndent source seq_range items)
       (lineStart source (opt_range range_start (node_range item) 0))) items"

(* src features/connectors/recipeDocument.ts 582-604 sequenceSpans *)
definition sequenceSpans :: "string \<Rightarrow> node_range option \<Rightarrow> ynode list \<Rightarrow> item_span list" where
  "sequenceSpans source seq_range items =
     (let starts = span_starts source seq_range items
      in map_index (\<lambda>i item.
           (let start = starts ! i;
                stop = (case nth_opt starts (i + 1) of Some s \<Rightarrow> s | None \<Rightarrow> opt_range range_end (node_range item) start)
            in \<lparr>sp_start = start, sp_end = stop, sp_text = slice start stop source\<rparr>)) 0 items)"

subsection \<open>Set and block\<close>

lemma final_break_le: "final_break s \<le> length s"
  by (simp add: final_break_def)

lemma final_break_less: "0 < final_break s \<Longrightarrow> length s - final_break s < length s"
  using final_break_le [of s] by (cases s) (auto simp: final_break_def)

text \<open>The length of \<open>match(/(?:\\r?\\n)*$/)\<close>.\<close>

function trailing_breaks :: "string \<Rightarrow> nat" where
  "trailing_breaks s = (if final_break s = 0 then 0
     else final_break s + trailing_breaks (take (length s - final_break s) s))"
  by pat_completeness auto

termination
  by (relation "measure length") (auto simp: final_break_less)

declare trailing_breaks.simps [simp del]

definition blank_before :: "string \<Rightarrow> nat \<Rightarrow> bool" where
  "blank_before source offset \<longleftrightarrow> (if offset = 0 then True
     else (case nth_opt source (offset - 1) of None \<Rightarrow> True | Some c \<Rightarrow> is_ws c))"

(* src features/connectors/recipeDocument.ts 262-270 sourcePatch *)
definition scalar_patch :: "string \<Rightarrow> node_range \<Rightarrow> string \<Rightarrow> patch" where
  "scalar_patch source r encoded =
     (let a = range_start r; b = range_value r;
          bare = (a = b \<and> \<not> blank_before source a);
          lineBreaks = trailing_breaks (slice a b source);
          beforeComment = (if a = b \<and> nth_opt source a = Some CHR ''#'' then '' '' else [])
      in \<lparr>p_start = a, p_end = b - lineBreaks, p_text = (if bare then '' '' else []) @ encoded @ beforeComment\<rparr>)"

(* src features/connectors/recipeDocument.ts 275-286 sourcePatch *)
definition below_key_patch :: "string \<Rightarrow> node_range option \<Rightarrow> node_range \<Rightarrow> string \<Rightarrow> patch option" where
  "below_key_patch source kr r encoded =
     (case index_from CHR '':'' (opt_range range_value kr 0) source of
        None \<Rightarrow> None
      | Some colon \<Rightarrow> if colon < range_start r
          then (let indent = spaces (keyColumn source (opt_range range_start kr (range_start r)) + 2);
                    lineEnding = eolAt source (colon + 1)
                in Some \<lparr>p_start = colon + 1, p_end = range_end r,
                     p_text = lineEnding @ indentBlock encoded indent lineEnding @ lineEnding\<rparr>)
          else None)"

(* src features/connectors/recipeDocument.ts 287-291 sourcePatch *)
definition in_place_patch :: "string \<Rightarrow> node_range \<Rightarrow> string \<Rightarrow> patch" where
  "in_place_patch source r encoded = \<lparr>p_start = range_start r, p_end = range_end r,
     p_text = indentBlock encoded (spaces (lineIndent source (range_start r))) (eolAt source (range_start r))\<rparr>"

definition null_scalar :: "ynode \<Rightarrow> bool" where
  "null_scalar n = (case n of YScalar r a p v \<Rightarrow> v = JNull | _ \<Rightarrow> False)"

definition or_patch :: "patch option \<Rightarrow> patch option \<Rightarrow> patch option" where
  "or_patch a b = (case a of Some p \<Rightarrow> Some p | None \<Rightarrow> b)"

(* src features/connectors/recipeDocument.ts 254-292 sourcePatch *)
definition set_patch :: "ylib \<Rightarrow> string \<Rightarrow> ynode option \<Rightarrow> segment list \<Rightarrow> ynode \<Rightarrow> node_range \<Rightarrow> json \<Rightarrow> patch" where
  "set_patch lib source before path old r v =
     (let inFlow = inFlowContext lib before path;
          parent_flow = node_flow (getNode lib before (butlast path));
          pair = map_option snd (parent_pair lib before path);
          encoded = drop_final_nl (renderYaml lib v inFlow)
      in if composite v \<and> inFlow then \<lparr>p_start = range_start r, p_end = range_end r, p_text = encoded\<rparr>
         else if \<not> composite v \<and> NL \<notin> set encoded then scalar_patch source r encoded
         else from_opt (in_place_patch source r encoded) (or_patch
           (case Option.bind pair key_range of
              Some kr \<Rightarrow> if composite v \<and> null_scalar old \<and> \<not> parent_flow
                then nullValuePatch source (range_start kr, range_value kr) encoded else None
            | None \<Rightarrow> None)
           (case pair of
              Some (Some k, Some val) \<Rightarrow> if parent_flow then None
                else below_key_patch source (node_range k) r encoded
            | _ \<Rightarrow> None)))"

subsection \<open>Insertions\<close>

(* src features/connectors/recipeDocument.ts 478-510 insertMapPair *)
definition insertMapPair ::
  "ylib \<Rightarrow> string \<Rightarrow> node_range option \<Rightarrow> bool \<Rightarrow> ypair list \<Rightarrow> string \<Rightarrow> json \<Rightarrow> patch" where
  "insertMapPair lib source mrange flow items key v =
     (let pairText = drop_final_nl (renderYaml lib (JObj [(key, v)]) False)
      in if flow then
           (case mrange of
              None \<Rightarrow> \<lparr>p_start = length source, p_end = length source, p_text = eolAt source (length source) @ pairText\<rparr>
            | Some mr \<Rightarrow>
                (let close = last_index_upto CHR ''}'' (range_value mr - 1) source;
                     ends = (case last_opt items of None \<Rightarrow> []
                       | Some p \<Rightarrow> map range_value (List.map_filter (\<lambda>r. r) [key_range p, value_range p]));
                     insertion = (if ends \<noteq> [] then foldl max 0 ends else from_opt (range_value mr) close);
                     contents = (if items \<noteq> [] then '', '' @ flowPair lib key v else '' '' @ flowPair lib key v @ '' '')
                 in \<lparr>p_start = insertion, p_end = insertion, p_text = contents\<rparr>))
         else (case last_opt items of
             None \<Rightarrow>
               (let insertion = opt_range range_start mrange (length source);
                    indent = (case mrange of Some r \<Rightarrow> lineIndent source (range_start r) | None \<Rightarrow> 0);
                    lineEnding = eolAt source insertion
                in \<lparr>p_start = insertion, p_end = insertion,
                     p_text = indentBlock pairText (spaces indent) lineEnding @ lineEnding\<rparr>)
           | Some p \<Rightarrow>
               (let insertion = opt_range range_end (value_range p) (length source);
                    indent = keyColumn source (opt_range range_start (key_range p) 0);
                    lineEnding = eolAt source insertion;
                    pre = (if 0 < insertion \<and> \<not> ends_with [NL] (slice 0 insertion source) then lineEnding else [])
                in \<lparr>p_start = insertion, p_end = insertion,
                     p_text = pre @ indentBlock pairText (spaces indent) lineEnding @ lineEnding\<rparr>)))"

text \<open>How far a path exists, and what has to be nested below the first missing key.\<close>

(* src features/connectors/recipeDocument.ts 451-456 appendMissingPath *)
fun existing_prefix :: "ylib \<Rightarrow> ynode option \<Rightarrow> segment list \<Rightarrow> segment list \<Rightarrow> segment list \<times> segment list" where
  "existing_prefix lib before parent [] = (parent, [])"
| "existing_prefix lib before parent (s # ss) =
     (if getNode lib before (parent @ [s]) \<noteq> None then existing_prefix lib before (parent @ [s]) ss else (parent, s # ss))"

(* src features/connectors/recipeDocument.ts 460-472 appendMissingPath *)
fun nest_missing :: "segment list \<Rightarrow> json \<Rightarrow> json" where
  "nest_missing (previous # segment # rest) v =
     (case previous of Index n \<Rightarrow> JArr (replicate n JNull @ [nest_missing (segment # rest) v])
      | Key k \<Rightarrow> JObj [(segment_text segment, nest_missing (segment # rest) v)])"
| "nest_missing _ v = v"

(* src features/connectors/recipeDocument.ts 449-476 appendMissingPath *)
definition appendMissingPath :: "ylib \<Rightarrow> string \<Rightarrow> ynode option \<Rightarrow> segment list \<Rightarrow> json \<Rightarrow> patch option" where
  "appendMissingPath lib source before path v =
     (if path = [] then Some \<lparr>p_start = 0, p_end = length source, p_text = renderYaml lib v False\<rparr>
      else (let (parentPath, relative) = existing_prefix lib before [] path
            in case getNode lib before parentPath of
                 Some (YMap r a f items) \<Rightarrow>
                   (case relative of
                      Key k # rest \<Rightarrow> Some (insertMapPair lib source r f items k (nest_missing relative v))
                    | _ \<Rightarrow> None)
               | _ \<Rightarrow> None))"

(* src features/connectors/recipeDocument.ts 311-351 sourcePatch *)
definition append_patch :: "ylib \<Rightarrow> string \<Rightarrow> ynode option \<Rightarrow> segment list \<Rightarrow> json \<Rightarrow> patch option" where
  "append_patch lib source before path v =
     (case getNode lib before path of
        Some (YSeq r a flow items) \<Rightarrow>
          (let rendered = drop_final_nl (renderYaml lib (JArr [v]) False) in
           if flow then
             (let pair = map_option snd (parent_pair lib before path);
                  parent_flow = node_flow (getNode lib before (butlast path));
                  block_form = (if items \<noteq> [] \<or> parent_flow then None
                    else (case (Option.bind pair key_range, Option.bind pair value_range) of
                        (Some kr, Some vr) \<Rightarrow>
                          (case index_from CHR '':'' (range_value kr) source of
                             None \<Rightarrow> None
                           | Some colon \<Rightarrow>
                               (let indentation = spaces (keyColumn source (range_start kr) + 2);
                                    lineEnding = eolAt source (colon + 1)
                                in Some \<lparr>p_start = colon + 1, p_end = range_end vr,
                                     p_text = lineEnding @ indentBlock rendered indentation lineEnding @ lineEnding\<rparr>))
                      | _ \<Rightarrow> None))
              in case block_form of Some p \<Rightarrow> Some p
                 | None \<Rightarrow>
                   (case Option.bind r (\<lambda>sr. last_index_upto CHR '']'' (range_value sr - 1) source) of
                      None \<Rightarrow> None
                    | Some close \<Rightarrow>
                        (let insertion = opt_range range_value (Option.bind (last_opt items) node_range) close
                         in Some \<lparr>p_start = insertion, p_end = insertion,
                              p_text = (if items \<noteq> [] then '', '' else '' '') @ trim (renderYaml lib v True)
                                @ (if items \<noteq> [] then [] else '' '')\<rparr>)))
           else
             (let insertion = (case last_opt items of
                    Some n \<Rightarrow> opt_range range_end (node_range n) (opt_range range_end r (length source))
                  | None \<Rightarrow> opt_range range_start r (length source));
                  indent = sequenceIndent source r items;
                  lineEnding = eolAt source insertion;
                  pre = (if 0 < insertion \<and> \<not> ends_with [NL] (slice 0 insertion source) then lineEnding else [])
              in Some \<lparr>p_start = insertion, p_end = insertion,
                   p_text = pre @ indentBlock rendered (spaces indent) lineEnding @ lineEnding\<rparr>))
      | _ \<Rightarrow> appendMissingPath lib source before path (JArr [v]))"

subsection \<open>Removals\<close>

(* src features/connectors/recipeDocument.ts 513-528 deletePairPatch *)
definition delete_flow_pair :: "string \<Rightarrow> node_range \<Rightarrow> ypair list \<Rightarrow> nat \<Rightarrow> ypair \<Rightarrow> patch" where
  "delete_flow_pair source mrange items i pair =
     (let start = opt_range range_start (key_range pair) (range_start mrange)
      in if length items = 1
         then \<lparr>p_start = start, p_end = opt_range range_end (value_range pair) (range_value mrange), p_text = []\<rparr>
         else (let stop = opt_range range_end (value_range pair) start
               in case nth_opt items (i + 1) of
                    Some next_pair \<Rightarrow>
                      (case index_from CHR '','' stop source of
                         Some comma \<Rightarrow> \<lparr>p_start = start,
                           p_end = (if comma < opt_range range_start (key_range next_pair) (length source) then comma + 1 else stop),
                           p_text = []\<rparr>
                       | None \<Rightarrow> \<lparr>p_start = start, p_end = stop, p_text = []\<rparr>)
                  | None \<Rightarrow>
                      (let previous = (if i = 0 then None else nth_opt items (i - 1));
                           previousEnd = (case Option.bind previous value_range of
                               Some r \<Rightarrow> Some (range_value r)
                             | None \<Rightarrow> map_option range_value (Option.bind previous key_range))
                       in \<lparr>p_start = (case previousEnd of None \<Rightarrow> start | Some e \<Rightarrow> separatorStart source e start),
                            p_end = stop, p_text = []\<rparr>)))"

(* src features/connectors/recipeDocument.ts 512-545 deletePairPatch *)
definition deletePairPatch :: "string \<Rightarrow> node_range option \<Rightarrow> bool \<Rightarrow> ypair list \<Rightarrow> nat \<Rightarrow> ypair \<Rightarrow> patch" where
  "deletePairPatch source mrange flow items i pair =
     (if flow \<and> mrange \<noteq> None then delete_flow_pair source (the mrange) items i pair
      else (let keyStart = opt_range range_start (key_range pair) 0
            in if dash_prefix space_or_tab (slice (lineStart source keyStart) keyStart source)
               then (case Option.bind (nth_opt items (i + 1)) key_range of
                       Some r \<Rightarrow> \<lparr>p_start = keyStart, p_end = range_start r, p_text = []\<rparr>
                     | None \<Rightarrow> \<lparr>p_start = keyStart,
                         p_end = opt_range range_value (value_range pair) (opt_range range_value (key_range pair) keyStart),
                         p_text = ''{}''\<rparr>)
               else (let start = max (lineStart source keyStart) (if starts_with [BOM] source then 1 else 0);
                         end0 = opt_range range_end (value_range pair) (opt_range range_end (key_range pair) start);
                         lineEnd = index_from NL end0 source;
                         stop = (if 0 < end0 \<and> nth_opt source (end0 - 1) \<noteq> Some NL
                             \<and> trim (slice end0 (from_opt (length source) lineEnd) source) = []
                           then (case lineEnd of None \<Rightarrow> length source | Some k \<Rightarrow> k + 1) else end0)
                     in dropPrecedingBreak source \<lparr>p_start = start, p_end = stop, p_text = []\<rparr>)))"

(* src features/connectors/recipeDocument.ts 424-447 emptySequencePatch *)
definition emptySequencePatch ::
  "ylib \<Rightarrow> string \<Rightarrow> ynode option \<Rightarrow> segment list \<Rightarrow> node_range option \<Rightarrow> ynode list \<Rightarrow> item_span option \<Rightarrow> patch option" where
  "emptySequencePatch lib source before path srange items item =
     (case (Option.bind (map_option snd (parent_pair lib before path)) key_range, srange) of
        (Some kr, Some sr) \<Rightarrow>
          (case index_from CHR '':'' (range_value kr) source of
             None \<Rightarrow> None
           | Some colon \<Rightarrow>
               (let rowStart = (case item of Some s \<Rightarrow> sp_start s | None \<Rightarrow> lineStart source (range_start sr));
                    header = slice (colon + 1) rowStart source;
                    kept = (case Option.bind (head_opt items) node_range of
                        Some r \<Rightarrow> slice rowStart (lineStart source (range_start r)) source | None \<Rightarrow> []);
                    stop = (if CHR ''#'' \<in> set header
                      then opt_range range_end (Option.bind (last_opt items) node_range)
                        (case item of Some s \<Rightarrow> sp_end s | None \<Rightarrow> length source)
                      else range_end sr);
                    stay0 = header @ kept;
                    stay = (if ends_with [NL] (slice rowStart stop source) then stay0 else drop_final_crlf stay0)
                in Some \<lparr>p_start = colon + 1, p_end = stop, p_text = '' []'' @ stay\<rparr>))
      | _ \<Rightarrow> None)"

text \<open>\<open>splice\<close> an item out and in again.\<close>

definition move_item :: "nat \<Rightarrow> nat \<Rightarrow> 'a list \<Rightarrow> 'a list" where
  "move_item i j xs = (case nth_opt xs i of None \<Rightarrow> xs | Some x \<Rightarrow> splice_in j x (splice_out i xs))"

text \<open>Item texts joined by the separators between the original items.\<close>

fun weave :: "string list \<Rightarrow> string list \<Rightarrow> string" where
  "weave [] seps = []"
| "weave (p # ps) [] = p @ weave ps []"
| "weave (p # ps) (s # seps) = p @ s @ weave ps seps"

definition item_text :: "string \<Rightarrow> ynode \<Rightarrow> string" where
  "item_text source n = slice (opt_range range_start (node_range n) 0) (opt_range range_value (node_range n) 0) source"

fun separators :: "string \<Rightarrow> ynode list \<Rightarrow> string list" where
  "separators source (a # b # ns) =
     slice (opt_range range_value (node_range a) 0) (opt_range range_start (node_range b) 0) source # separators source (b # ns)"
| "separators source _ = []"

(* src features/connectors/recipeDocument.ts 557-570 flowSequencePatch *)
definition flow_remove_patch :: "string \<Rightarrow> ynode list \<Rightarrow> nat \<Rightarrow> patch option" where
  "flow_remove_patch source items i =
     (case Option.bind (nth_opt items i) node_range of
        None \<Rightarrow> None
      | Some r \<Rightarrow>
          if length items = 1 then Some \<lparr>p_start = range_start r, p_end = range_value r, p_text = []\<rparr>
          else if i < length items - 1 then
            (let next_start = opt_range range_start (Option.bind (nth_opt items (i + 1)) node_range) (length source)
             in Some \<lparr>p_start = range_start r, p_end = (case index_from CHR '','' (range_value r) source of
                  Some comma \<Rightarrow> if comma < next_start then comma + 1 else range_value r
                | None \<Rightarrow> range_value r), p_text = []\<rparr>)
          else Some \<lparr>p_start = (case Option.bind (if i = 0 then None else nth_opt items (i - 1)) node_range of
                  Some pr \<Rightarrow> separatorStart source (range_value pr) (range_start r)
                | None \<Rightarrow> range_start r), p_end = range_value r, p_text = []\<rparr>)"

(* src features/connectors/recipeDocument.ts 572-580 flowSequencePatch *)
definition flow_move_patch :: "string \<Rightarrow> ynode list \<Rightarrow> nat \<Rightarrow> nat \<Rightarrow> patch option" where
  "flow_move_patch source items i j =
     (if Option.bind (nth_opt items i) node_range = None then None
      else case (Option.bind (head_opt items) node_range, Option.bind (last_opt items) node_range) of
        (Some first, Some final) \<Rightarrow> Some \<lparr>p_start = range_start first, p_end = range_value final,
          p_text = weave (move_item i j (map (item_text source) items)) (separators source items)\<rparr>
      | _ \<Rightarrow> None)"

(* src features/connectors/recipeDocument.ts 365-375 sourcePatch *)
definition block_move_patch :: "string \<Rightarrow> item_span list \<Rightarrow> nat \<Rightarrow> nat \<Rightarrow> patch option" where
  "block_move_patch source spans i j =
     (if nth_opt spans i = None then None
      else (let start = Min (set (map sp_start spans)); stop = Max (set (map sp_end spans));
                lineEnding = eolAt source stop;
                joined = concat (map (\<lambda>s. if ends_with [NL] (sp_text s) then sp_text s else sp_text s @ lineEnding)
                  (move_item i j spans))
            in Some \<lparr>p_start = start, p_end = stop,
                 p_text = (if ends_with [NL] (slice start stop source) then joined
                   else take (length joined - length lineEnding) joined)\<rparr>))"

(* src features/connectors/recipeDocument.ts 353-376 sourcePatch *)
definition items_patch :: "ylib \<Rightarrow> string \<Rightarrow> ynode option \<Rightarrow> segment list \<Rightarrow> int \<Rightarrow> int option \<Rightarrow> patch option" where
  "items_patch lib source before path index to =
     (case getNode lib before path of
        Some (YSeq r a flow items) \<Rightarrow>
          if flow then (case to of None \<Rightarrow> flow_remove_patch source items (nat index)
            | Some j \<Rightarrow> flow_move_patch source items (nat index) (nat j))
          else (let spans = sequenceSpans source r items
                in case to of
                     None \<Rightarrow> if length items = 1 then emptySequencePatch lib source before path r items (head_opt spans)
                       else map_option (\<lambda>s. dropPrecedingBreak source \<lparr>p_start = sp_start s, p_end = sp_end s, p_text = []\<rparr>)
                         (nth_opt spans (nat index))
                   | Some j \<Rightarrow> block_move_patch source spans (nat index) (nat j))
      | _ \<Rightarrow> None)"

(* src features/connectors/recipeDocument.ts 243-379 sourcePatch *)
definition sourcePatch :: "ylib \<Rightarrow> string \<Rightarrow> ynode option \<Rightarrow> edit_op \<Rightarrow> json \<Rightarrow> segment list \<Rightarrow> patch option" where
  "sourcePatch lib source before op v path =
     (let set_or_block = (case Option.bind (getNode lib before path) (\<lambda>n. map_option (Pair n) (node_range n)) of
            Some (old, r) \<Rightarrow> Some (set_patch lib source before path old r v)
          | None \<Rightarrow> appendMissingPath lib source before path v)
      in case op of
        Set_op _ _ \<Rightarrow> set_or_block
      | Block_op _ _ \<Rightarrow> set_or_block
      | Delete_op _ \<Rightarrow>
          (case (parent_pair lib before path, getNode lib before (butlast path)) of
             (Some (i, pair), Some (YMap r a f items)) \<Rightarrow> Some (deletePairPatch source r f items i pair)
           | _ \<Rightarrow> None)
      | Rename_op _ new \<Rightarrow>
          (case Option.bind (map_option snd (parent_pair lib before path)) key_range of
             Some kr \<Rightarrow> if new = [] then None
               else Some \<lparr>p_start = range_start kr, p_end = range_value kr,
                 p_text = drop_final_nl (renderYaml lib (JStr new) (inFlowContext lib before path))\<rparr>
           | None \<Rightarrow> None)
      | Append_op _ _ \<Rightarrow> append_patch lib source before path v
      | Remove_op _ i \<Rightarrow> items_patch lib source before path i None
      | Move_op _ i j \<Rightarrow> items_patch lib source before path i (Some j))"

end
