(* ===== verification/RecipeMoves.thy ===== *)
theory RecipeMoves
  imports RecipePatch "HOL-Library.Multiset"
begin

text \<open>
  What the patches of a move do to the text: the spans of a block sequence tile the sequence, so
  that moving an item permutes the items' own texts with their comments, and a move inside a flow
  sequence permutes the items and keeps the separators between them.
\<close>

subsection \<open>Moving items\<close>

lemma move_item_map: "move_item i j (map f xs) = map f (move_item i j xs)"
  by (auto simp: move_item_def nth_opt_def splice_in_def splice_out_def take_map drop_map)

lemma splice_in_mset: "mset (splice_in j x ys) = add_mset x (mset ys)"
  by (metis append_take_drop_id mset.simps(2) mset_append splice_in_def union_mset_add_mset_right)

lemma splice_out_mset: "i < length xs \<Longrightarrow> add_mset (xs ! i) (mset (splice_out i xs)) = mset xs"
  using id_take_nth_drop [of i xs] by (metis mset.simps(2) mset_append splice_out_def union_mset_add_mset_right)

lemma move_item_mset: "mset (move_item i j xs) = mset xs"
  by (simp add: move_item_def nth_opt_def splice_in_mset splice_out_mset)

lemma splice_in_out: "j \<le> length ys \<Longrightarrow> splice_in j x ys ! j = x \<and> splice_out j (splice_in j x ys) = ys"
  by (simp add: splice_in_def splice_out_def nth_append min_def)

lemma move_item_at:
  assumes "i < length xs" and "j < length xs"
  shows "move_item i j xs ! j = xs ! i \<and> splice_out j (move_item i j xs) = splice_out i xs"
proof -
  have "length (splice_out i xs) = length xs - 1" using assms by (simp add: splice_out_def)
  then show ?thesis using assms splice_in_out [of j "splice_out i xs" "xs ! i"] by (simp add: move_item_def nth_opt_def)
qed

text \<open>The stretches between consecutive offsets.\<close>

fun cuts :: "nat list \<Rightarrow> string \<Rightarrow> string list" where
  "cuts (a # b # bs) s = slice a b s # cuts (b # bs) s"
| "cuts _ s = []"

lemma slice_split: "a \<le> b \<Longrightarrow> b \<le> c \<Longrightarrow> slice a b s @ slice b c s = slice a c s"
  using take_add [of "b - a" "c - b" "drop a s"] by (simp add: slice_def)

lemma sorted_last: "sorted (b # bs) \<Longrightarrow> b \<le> last (b # bs)"
  by (induction bs arbitrary: b) auto

lemma concat_cuts: "sorted bs \<Longrightarrow> bs \<noteq> [] \<Longrightarrow> concat (cuts bs s) = slice (hd bs) (last bs) s"
proof (induction bs s rule: cuts.induct)
  case (1 a b bs s)
  then show ?case using slice_split [of a b "last (b # bs)" s] sorted_last [of b bs] by simp
qed (auto simp: slice_def)

lemma cuts_length [simp]: "length (cuts bs s) = length bs - 1"
  by (induction bs s rule: cuts.induct) auto

lemma cuts_nth: "Suc i < length bs \<Longrightarrow> cuts bs s ! i = slice (bs ! i) (bs ! Suc i) s"
  by (induction bs s arbitrary: i rule: cuts.induct) (auto simp: nth_Cons split: nat.splits)

text \<open>Where the spans of a sequence begin and end.\<close>

definition bounds :: "string \<Rightarrow> node_range option \<Rightarrow> ynode list \<Rightarrow> nat list" where
  "bounds source sr items = span_starts source sr items
     @ [opt_range range_end (node_range (last items)) (last (span_starts source sr items))]"

lemma last_item: "i < length xs \<Longrightarrow> Suc i < length xs \<or> xs \<noteq> [] \<and> length xs = Suc i \<and> last xs = xs ! i"
  by (cases xs rule: rev_cases) (auto simp: nth_append less_Suc_eq)

lemma spans_texts: "items \<noteq> [] \<Longrightarrow> map sp_text (sequenceSpans source sr items) = cuts (bounds source sr items) source"
proof (rule nth_equalityI)
  fix i assume "items \<noteq> []" and "i < length (map sp_text (sequenceSpans source sr items))"
  then have i: "i < length items" by (simp add: sequenceSpans_def Let_def)
  show "map sp_text (sequenceSpans source sr items) ! i = cuts (bounds source sr items) source ! i"
    using i last_item [OF i]
    by (cases "Suc i < length items")
      (auto simp: sequenceSpans_def Let_def map_index_nth cuts_nth bounds_def span_starts_def nth_opt_def nth_append
        last_map less_Suc_eq not_less_eq)
qed (simp add: sequenceSpans_def bounds_def span_starts_def Let_def)

lemma spans_starts: "map sp_start (sequenceSpans source sr items) = span_starts source sr items"
  by (rule nth_equalityI) (auto simp: sequenceSpans_def span_starts_def Let_def map_index_nth)

lemma spans_ends: "items \<noteq> [] \<Longrightarrow> map sp_end (sequenceSpans source sr items) = tl (bounds source sr items)"
proof (rule nth_equalityI)
  fix i assume "items \<noteq> []" and "i < length (map sp_end (sequenceSpans source sr items))"
  then have i: "i < length items" by (simp add: sequenceSpans_def Let_def)
  show "map sp_end (sequenceSpans source sr items) ! i = tl (bounds source sr items) ! i"
    using i last_item [OF i]
    by (cases "Suc i < length items")
      (auto simp: sequenceSpans_def Let_def map_index_nth bounds_def span_starts_def nth_opt_def nth_append nth_tl
        last_map less_Suc_eq not_less_eq)
qed (simp add: sequenceSpans_def bounds_def span_starts_def Let_def)

subsection \<open>A move in a block sequence\<close>

lemma ends_with_slice: "a + length p \<le> b \<Longrightarrow> b \<le> length s \<Longrightarrow>
    ends_with p (slice a b s) \<longleftrightarrow> slice (b - length p) b s = p"
  by (cases "b = length s") (auto simp: ends_with_def slice_def drop_take min_def)

lemma lineStart_break: "lineStart source k = 0 \<or> 0 < lineStart source k \<and> source ! (lineStart source k - 1) = NL"
  by (auto simp: lineStart_def split: option.splits dest!: last_index_upto_Some)

lemma above_comments_break:
  "k = 0 \<or> source ! (k - 1) = NL \<Longrightarrow> above_comments source d k = 0 \<or> source ! (above_comments source d k - 1) = NL"
proof (induction source d k rule: above_comments.induct)
  case (1 source d k)
  then show ?case
    using lineStart_break [of source "k - 1"] by (subst (1 2) above_comments.simps) (auto simp: Let_def)
qed

definition uniform_breaks :: "string \<Rightarrow> bool" where
  "uniform_breaks s \<longleftrightarrow> CR \<notin> set s \<or> crlf_text s"

text \<open>A stretch of whole lines ends with the line ending of the text.\<close>

lemma lines_end:
  assumes "uniform_breaks s" and "a < b" and "b \<le> length s" and "s ! (b - 1) = NL"
    and "a = 0 \<or> s ! (a - 1) = NL" and "k \<le> length s"
  shows "ends_with (eolAt s k) (slice a b s)"
proof (cases "CR \<in> set s")
  case False
  have "slice (b - 1) b s = [NL]" using assms by (simp add: slice_def take_Suc_conv_app_nth hd_drop_conv_nth take_Suc)
  then show ?thesis using False assms ends_with_slice [of a "[NL]" b s] by (simp add: eolAt_lf)
next
  case True
  then have c: "crlf_text s" using assms(1) by (simp add: uniform_breaks_def)
  then have "\<And>k. k < length s \<Longrightarrow> s ! k = NL \<Longrightarrow> 0 < k \<and> s ! (k - 1) = CR" by (auto simp: crlf_text_def)
  from this [of "b - 1"] have 1: "0 < b - 1" "s ! (b - 1 - 1) = CR" using assms(2-4) by simp_all
  have "a \<noteq> b - 1" using assms 1 by (auto simp: char_defs)
  with assms 1 have 2: "a + 2 \<le> b" by simp
  have "slice (b - 2) b s = [s ! (b - 2), s ! (b - 1)]"
    using 2 assms(3) by (simp add: slice_def numeral_2_eq_2 take_Suc_conv_app_nth Suc_diff_Suc)
  then have "slice (b - 2) b s = [CR, NL]" using 1 assms(4) by (simp add: numeral_2_eq_2)
  then show ?thesis using 2 assms ends_with_slice [of a "[CR, NL]" b s]
    by (simp add: eolAt_crlf [OF c] numeral_2_eq_2)
qed

definition spans_ordered :: "string \<Rightarrow> node_range option \<Rightarrow> ynode list \<Rightarrow> bool" where
  "spans_ordered source sr items \<longleftrightarrow> items \<noteq> [] \<and> sorted_wrt (<) (bounds source sr items)
     \<and> last (bounds source sr items) \<le> length source"

lemma bounds_length: "length (bounds source sr items) = Suc (length items)"
  by (simp add: bounds_def span_starts_def)

lemma span_start_break: "i < length items \<Longrightarrow> bounds source sr items ! i = 0 \<or> source ! (bounds source sr items ! i - 1) = NL"
proof -
  assume "i < length items"
  then have "bounds source sr items ! i = above_comments source (sequenceIndent source sr items)
      (lineStart source (opt_range range_start (node_range (items ! i)) 0))"
    by (simp add: bounds_def span_starts_def nth_append)
  then show ?thesis using above_comments_break lineStart_break by metis
qed

lemma bounds_less: "spans_ordered source sr items \<Longrightarrow> i < j \<Longrightarrow> j \<le> length items \<Longrightarrow>
    bounds source sr items ! i < bounds source sr items ! j"
  using sorted_wrt_nth_less [of "(<)" "bounds source sr items" i j] by (simp add: spans_ordered_def bounds_length)

lemma last_bounds: "last (bounds source sr items) = bounds source sr items ! length items"
  using last_conv_nth [of "bounds source sr items"] bounds_length [of source sr items] by force

lemma bounds_le_length: "spans_ordered source sr items \<Longrightarrow> i \<le> length items \<Longrightarrow> bounds source sr items ! i \<le> length source"
proof -
  assume a: "spans_ordered source sr items" and i: "i \<le> length items"
  have "bounds source sr items ! length items \<le> length source"
    using a last_bounds [of source sr items] by (simp add: spans_ordered_def)
  then show ?thesis using bounds_less [OF a, of i "length items"] i by (cases "i = length items") auto
qed

text \<open>All spans but the last are whole lines.\<close>

lemma span_text_ends:
  assumes "spans_ordered source sr items" and "uniform_breaks source" and "Suc i < length items" and "k \<le> length source"
  shows "ends_with (eolAt source k) (cuts (bounds source sr items) source ! i)"
proof -
  let ?b = "bounds source sr items"
  have "source ! (?b ! Suc i - 1) = NL"
    using span_start_break [of "Suc i" items source sr] bounds_less [OF assms(1), of i "Suc i"] assms(3) by auto
  then have "ends_with (eolAt source k) (slice (?b ! i) (?b ! Suc i) source)"
    using lines_end [OF assms(2), of "?b ! i" "?b ! Suc i" k] bounds_less [OF assms(1), of i "Suc i"]
      bounds_le_length [OF assms(1), of "Suc i"] span_start_break [of i items source sr] assms(3,4) by simp
  then show ?thesis using assms(3) by (simp add: cuts_nth bounds_length)
qed

lemma eolAt_nl: "ends_with (eolAt source k) t \<Longrightarrow> ends_with [NL] t"
  using eolAt_cases [of source k] by (cases t rule: rev_cases) (auto simp: ends_with_def char_defs drop_Cons')

lemma ends_with_iff: "ends_with p s \<longleftrightarrow> (\<exists>u. s = u @ p)"
  by (metis append_take_drop_id append_same_eq append_eq_append_conv append_eq_conv_conj diff_add_inverse2 ends_with_def length_append)

lemma ends_with_concat: "xs \<noteq> [] \<Longrightarrow> ends_with p (last xs) \<Longrightarrow> ends_with p (concat xs)"
  by (cases xs rule: rev_cases) (auto simp: ends_with_iff simp flip: append_assoc)

lemma ends_with_take: "ends_with p s \<Longrightarrow> take (length s - length p) s @ p = s"
  by (auto simp: ends_with_iff)

text \<open>The texts of the items as whole lines, and how the patch joins them.\<close>

definition whole_lines :: "string \<Rightarrow> string list \<Rightarrow> string list" where
  "whole_lines le ts = (if ends_with [NL] (last ts) then ts else butlast ts @ [last ts @ le])"

lemma whole_lines_map:
  "ts \<noteq> [] \<Longrightarrow> \<forall>t \<in> set (butlast ts). ends_with [NL] t \<Longrightarrow>
    map (\<lambda>t. if ends_with [NL] t then t else t @ le) ts = whole_lines le ts"
  by (cases ts rule: rev_cases) (auto simp: whole_lines_def map_idI)

lemma whole_lines_ends:
  "ts \<noteq> [] \<Longrightarrow> \<forall>t \<in> set (butlast ts). ends_with le t \<Longrightarrow> \<not> ends_with [NL] (last ts) \<Longrightarrow>
    t \<in> set (whole_lines le ts) \<Longrightarrow> ends_with le t"
  by (auto simp: whole_lines_def ends_with_iff)

lemma butlast_cuts_end:
  assumes "spans_ordered source sr items" and "uniform_breaks source" and "k \<le> length source"
    and "t \<in> set (butlast (cuts (bounds source sr items) source))"
  shows "ends_with (eolAt source k) t"
proof -
  obtain i where "i < length items - 1" "t = cuts (bounds source sr items) source ! i"
    using assms(4) by (auto simp: in_set_conv_nth nth_butlast bounds_length)
  then show ?thesis using span_text_ends [OF assms(1,2) _ assms(3), of i] by simp
qed

lemma span_extent:
  assumes "spans_ordered source sr items"
  shows "Min (set (span_starts source sr items)) = hd (bounds source sr items)"
    and "Max (set (tl (bounds source sr items))) = last (bounds source sr items)"
    and "sorted (bounds source sr items)"
proof -
  let ?b = "bounds source sr items"
  have srt: "sorted_wrt (<) ?b" and ne: "items \<noteq> []" using assms by (auto simp: spans_ordered_def)
  show le: "sorted ?b" using srt by (rule strict_sorted_imp_sorted)
  have "?b = hd ?b # tl ?b" using bounds_length [of source sr items] by (cases ?b) auto
  then have "\<And>x. x \<in> set ?b \<Longrightarrow> hd ?b \<le> x" using le by (metis order_refl set_ConsD sorted_simps(2))
  moreover have "hd ?b \<in> set (span_starts source sr items)" "set (span_starts source sr items) \<subseteq> set ?b"
    using ne by (auto simp: bounds_def span_starts_def hd_append hd_map)
  ultimately show "Min (set (span_starts source sr items)) = hd ?b" by (intro Min_eqI) auto
  have "tl ?b \<noteq> []" using ne bounds_length [of source sr items] by (cases ?b) auto
  moreover have "\<And>x. x \<in> set (tl ?b) \<Longrightarrow> x \<le> last ?b"
    using le bounds_length [of source sr items] by (metis in_set_conv_nth last_conv_nth le_less_linear length_greater_0_conv
        less_Suc_eq_le list.set_sel(2) not_less_zero sorted_nth_mono diff_Suc_1 lessI list.size(3) zero_less_Suc)
  ultimately show "Max (set (tl ?b)) = last ?b"
    by (intro Max_eqI) (auto simp: last_tl [symmetric] intro: last_in_set)
qed

lemma ends_with_concat_iff: "ts \<noteq> [] \<Longrightarrow> last ts \<noteq> [] \<Longrightarrow> ends_with [c] (concat ts) \<longleftrightarrow> ends_with [c] (last ts)"
  by (cases ts rule: rev_cases; cases "last ts" rule: rev_cases) (auto simp: ends_with_iff simp flip: append_assoc)

lemma spans_split:
  assumes "spans_ordered source sr items"
  defines "ts \<equiv> map sp_text (sequenceSpans source sr items)" and "b \<equiv> bounds source sr items"
  shows "concat ts = slice (hd b) (last b) source" and "source = take (hd b) source @ concat ts @ drop (last b) source"
    and "length ts = length items" and "ts \<noteq> []" and "last ts \<noteq> []"
proof -
  have ne: "items \<noteq> []" using assms(1) by (auto simp: spans_ordered_def)
  have ts: "ts = cuts b source" unfolding ts_def b_def by (rule spans_texts [OF ne])
  show len: "length ts = length items" unfolding ts b_def by (simp add: bounds_length)
  then show tn: "ts \<noteq> []" using ne by fastforce
  show stretch: "concat ts = slice (hd b) (last b) source"
    unfolding ts b_def using concat_cuts span_extent(3) [OF assms(1)] bounds_length by (metis length_0_conv nat.distinct(1))
  have "hd b \<le> last b"
    using sorted_last [of "hd b" "tl b"] span_extent(3) [OF assms(1)] bounds_length [of source sr items]
    unfolding b_def by (cases "bounds source sr items") auto
  then show "source = take (hd b) source @ concat ts @ drop (last b) source"
    unfolding stretch by (simp add: slice_def) (metis add_diff_inverse_nat append_take_drop_id drop_drop not_less add.commute)
  obtain n where n: "length items = Suc n" using ne by (cases items) auto
  have "last ts = slice (b ! n) (b ! Suc n) source"
    using last_conv_nth [OF tn] n len by (simp add: ts b_def cuts_nth bounds_length)
  then show "last ts \<noteq> []"
    using bounds_less [OF assms(1), of n "Suc n"] bounds_le_length [OF assms(1), of "Suc n"] n by (simp add: slice_def b_def)
qed

text \<open>
  Claim C20. Moving an item of a block sequence only reorders lines. Where the items stand in
  order in a text with uniform line endings, the text is the part before the sequence, the items'
  own stretches (each with the comments above it) and the rest; the move leaves both outer parts
  as they are and writes the same stretches with the one item at its new place and the others in
  their order. A text whose last item ends without a line break ends without one afterwards too.
\<close>

theorem block_move_permutes:
  assumes "spans_ordered source sr items" and "uniform_breaks source"
    and "i < length items" and "j < length items"
  shows "let texts = map sp_text (sequenceSpans source sr items); b = bounds source sr items;
             le = eolAt source (last b); ls = whole_lines le texts
         in source = take (hd b) source @ concat texts @ drop (last b) source
          \<and> (\<exists>p body. block_move_patch source (sequenceSpans source sr items) i j = Some p
              \<and> apply_patch source p = take (hd b) source @ body @ drop (last b) source
              \<and> body @ (if ends_with [NL] (last texts) then [] else le) = concat (move_item i j ls))
          \<and> mset (move_item i j ls) = mset ls \<and> move_item i j ls ! j = ls ! i
          \<and> splice_out j (move_item i j ls) = splice_out i ls"
proof -
  let ?b = "bounds source sr items" and ?spans = "sequenceSpans source sr items"
  let ?le = "eolAt source (last ?b)" and ?ts = "map sp_text ?spans"
  let ?ls = "whole_lines ?le ?ts"
  have ne: "items \<noteq> []" and last_le: "last ?b \<le> length source" using assms(1) by (auto simp: spans_ordered_def)
  have ts: "?ts = cuts ?b source" by (rule spans_texts [OF ne])
  note stretch = spans_split(1) [OF assms(1)] and split = spans_split(2) [OF assms(1)] and len = spans_split(3) [OF assms(1)]
    and tn = spans_split(4) [OF assms(1)] and last_nonempty = spans_split(5) [OF assms(1)]
  have bl: "ends_with ?le t" if "t \<in> set (butlast ?ts)" for t
    using butlast_cuts_end [OF assms(1,2) last_le] that unfolding ts by simp
  let ?joined = "concat (move_item i j ?ls)"
  have bnl: "\<forall>t \<in> set (butlast ?ts). ends_with [NL] t" using bl eolAt_nl by blast
  have lm: "map (\<lambda>s. if ends_with [NL] (sp_text s) then sp_text s else sp_text s @ ?le) (move_item i j ?spans) = move_item i j ?ls"
    using whole_lines_map [OF tn bnl, of ?le] by (simp add: move_item_map [symmetric] comp_def)
  have whole: "ends_with [NL] (slice (hd ?b) (last ?b) source) \<longleftrightarrow> ends_with [NL] (last ?ts)"
    unfolding stretch [symmetric] by (rule ends_with_concat_iff [OF tn last_nonempty])
  define body where "body = (if ends_with [NL] (last ?ts) then ?joined else take (length ?joined - length ?le) ?joined)"
  have move: "block_move_patch source ?spans i j = Some \<lparr>p_start = hd ?b, p_end = last ?b, p_text = body\<rparr>"
    using assms(3) len span_extent(1,2) [OF assms(1)] whole lm
    by (simp add: block_move_patch_def Let_def nth_opt_def spans_starts spans_ends [OF ne] body_def cong: if_cong)
  have "move_item i j ?ls \<noteq> []" "\<forall>t \<in> set (move_item i j ?ls). t \<in> set ?ls"
    using move_item_mset [of i j ?ls] tn by (auto simp: whole_lines_def dest: mset_eq_setD)
  then have "ends_with ?le ?joined" if "\<not> ends_with [NL] (last ?ts)"
    using whole_lines_ends [OF tn, of ?le] bl that by (intro ends_with_concat) auto
  then have body: "body @ (if ends_with [NL] (last ?ts) then [] else ?le) = ?joined"
    using ends_with_take [of ?le ?joined] by (simp add: body_def)
  have lls: "length ?ls = length items" using tn len by (cases items) (auto simp: whole_lines_def)
  have ap: "apply_patch source \<lparr>p_start = hd ?b, p_end = last ?b, p_text = body\<rparr> = take (hd ?b) source @ body @ drop (last ?b) source"
    by (simp add: apply_patch_def slice_def slice_from_def)
  show ?thesis
    unfolding Let_def
    using split move ap body move_item_mset [of i j ?ls] move_item_at [of i ?ls j] assms(3,4) lls by auto
qed

definition sample_list :: string where
  "sample_list = ''a:'' @ [NL] @ ''- x'' @ [NL] @ ''- y'' @ [NL]"

definition sample_items :: "ynode list" where
  "sample_items = [YScalar (Some (5, 6, 7)) None True (JStr ''x''), YScalar (Some (9, 10, 11)) None True (JStr ''y'')]"

lemma sample_bounds: "bounds sample_list (Some (3, 11, 11)) sample_items = [3, 7, 11]"
  by code_simp

lemma block_move_permutes_witness:
  "\<exists>p. block_move_patch sample_list (sequenceSpans sample_list (Some (3, 11, 11)) sample_items) 0 1 = Some p
     \<and> apply_patch sample_list p = ''a:'' @ [NL] @ ''- y'' @ [NL] @ ''- x'' @ [NL]"
proof -
  have o: "spans_ordered sample_list (Some (3, 11, 11)) sample_items"
    unfolding spans_ordered_def sample_bounds by (simp add: sample_items_def sample_list_def)
  have u: "uniform_breaks sample_list" by code_simp
  define x y where "x = ''- x'' @ [NL]" and "y = ''- y'' @ [NL]"
  have texts: "map sp_text (sequenceSpans sample_list (Some (3, 11, 11)) sample_items) = [x, y]"
    unfolding x_def y_def by code_simp
  have e: "ends_with [NL] y" by (simp add: y_def ends_with_def)
  then have w: "whole_lines le [x, y] = [x, y]" for le by (simp add: whole_lines_def)
  have m: "move_item 0 1 [x, y] = [y, x]"
    by (simp add: move_item_def nth_opt_def splice_in_def splice_out_def)
  have "length sample_items = 2" by (simp add: sample_items_def)
  then obtain p body where "block_move_patch sample_list (sequenceSpans sample_list (Some (3, 11, 11)) sample_items) 0 1 = Some p"
    "apply_patch sample_list p = take 3 sample_list @ body @ drop 11 sample_list" "body = concat [y, x]"
    using block_move_permutes [OF o u, of 0 1] e unfolding Let_def texts sample_bounds w m by auto
  then show ?thesis by (simp add: sample_list_def x_def y_def)
qed

subsection \<open>A move in a flow sequence\<close>

text \<open>The items stand in order in the text.\<close>

fun flow_ordered :: "nat \<Rightarrow> ynode list \<Rightarrow> bool" where
  "flow_ordered n [] = False"
| "flow_ordered n [x] = (case node_range x of None \<Rightarrow> False
     | Some r \<Rightarrow> range_start r \<le> range_value r \<and> range_value r \<le> n)"
| "flow_ordered n (x # y # xs) = ((case (node_range x, node_range y) of
       (Some r, Some q) \<Rightarrow> range_start r \<le> range_value r \<and> range_value r \<le> range_start q | _ \<Rightarrow> False)
     \<and> flow_ordered n (y # xs))"

lemma flow_ordered_ends: "flow_ordered n items \<Longrightarrow>
    \<exists>r q. node_range (hd items) = Some r \<and> node_range (last items) = Some q \<and> range_start r \<le> range_value q \<and> range_value q \<le> n"
proof (induction n items rule: flow_ordered.induct)
  case (3 n x y xs)
  then show ?case by (auto split: option.splits)
qed (auto split: option.splits)

lemma weave_flow: "flow_ordered n items \<Longrightarrow> weave (map (item_text source) items) (separators source items) =
    slice (opt_range range_start (node_range (hd items)) 0) (opt_range range_value (node_range (last items)) 0) source"
proof (induction n items rule: flow_ordered.induct)
  case (2 n x)
  then show ?case by (simp add: item_text_def opt_range_def)
next
  case (3 n x y xs)
  obtain r q where r: "node_range x = Some r" "node_range y = Some q" "range_start r \<le> range_value r" "range_value r \<le> range_start q"
    using 3 by (auto split: option.splits)
  obtain l where l: "node_range (last (y # xs)) = Some l" "range_start q \<le> range_value l"
    using flow_ordered_ends [of n "y # xs"] 3 r by auto
  have "item_text source x @ slice (range_value r) (range_start q) source @ slice (range_start q) (range_value l) source
      = slice (range_start r) (range_value l) source"
    using r l slice_split [of "range_value r" "range_start q" "range_value l" source]
      slice_split [of "range_start r" "range_value r" "range_value l" source]
    by (simp add: item_text_def opt_range_def from_opt_def)
  then show ?case using 3 r l by (simp add: opt_range_def from_opt_def)
qed simp

lemma flow_range: "flow_ordered n items \<Longrightarrow> i < length items \<Longrightarrow> node_range (items ! i) \<noteq> None"
  by (induction n items arbitrary: i rule: flow_ordered.induct)
    (auto simp: nth_Cons split: option.splits nat.splits)

text \<open>
  Moving an item of a flow sequence keeps everything but the order of the items. With the
  items in order in the text, the replaced stretch is the items' texts woven with what stands
  between them; the move writes the same texts in the new order, woven with exactly the same
  separators, comments and line breaks included, and leaves the rest of the text alone.
\<close>

theorem flow_move_keeps:
  assumes "flow_ordered (length source) items" and "i < length items" and "j < length items"
  shows "\<exists>p. flow_move_patch source items i j = Some p
    \<and> source = take (p_start p) source @ weave (map (item_text source) items) (separators source items) @ drop (p_end p) source
    \<and> apply_patch source p = take (p_start p) source
        @ weave (move_item i j (map (item_text source) items)) (separators source items) @ drop (p_end p) source
    \<and> mset (move_item i j (map (item_text source) items)) = mset (map (item_text source) items)"
proof -
  obtain r q where r: "node_range (hd items) = Some r" "node_range (last items) = Some q" "range_start r \<le> range_value q"
    using flow_ordered_ends [OF assms(1)] by blast
  have ne: "items \<noteq> []" using assms(2) by auto
  have "Option.bind (nth_opt items i) node_range \<noteq> None"
    using flow_range [OF assms(1,2)] assms(2) by (simp add: nth_opt_def)
  moreover have "head_opt items = Some (hd items)" "last_opt items = Some (last items)"
    using ne by (auto simp: head_opt_def nth_opt_def hd_conv_nth last_opt_def)
  ultimately have p: "flow_move_patch source items i j = Some \<lparr>p_start = range_start r, p_end = range_value q,
      p_text = weave (move_item i j (map (item_text source) items)) (separators source items)\<rparr>"
    using r by (auto simp: flow_move_patch_def)
  have "source = take (range_start r) source @ slice (range_start r) (range_value q) source @ drop (range_value q) source"
    using slice_split [of 0 "range_start r" "range_value q" source] r(3)
    by (simp add: slice_def) (metis append_assoc append_take_drop_id)
  then show ?thesis
    using p weave_flow [OF assms(1), of source] r move_item_mset [of i j "map (item_text source) items"]
    by (simp add: apply_patch_def slice_def slice_from_def opt_range_def)
qed

lemma flow_move_keeps_witness:
  "\<exists>p. flow_move_patch ''[a,  b]'' [YScalar (Some (1, 2, 2)) None True (JStr ''a''), YScalar (Some (5, 6, 6)) None True (JStr ''b'')] 0 1 = Some p
     \<and> apply_patch ''[a,  b]'' p = ''[b,  a]''"
proof -
  let ?items = "[YScalar (Some (1, 2, 2)) None True (JStr ''a''), YScalar (Some (5, 6, 6)) None True (JStr ''b'')]"
  have "flow_ordered (length ''[a,  b]'') ?items" by (simp add: range_start_def range_value_def)
  from flow_move_keeps [OF this, of 0 1] obtain p where p: "flow_move_patch ''[a,  b]'' ?items 0 1 = Some p"
    "apply_patch ''[a,  b]'' p = take (p_start p) ''[a,  b]'' @
       weave (move_item 0 1 (map (item_text ''[a,  b]'') ?items)) (separators ''[a,  b]'' ?items) @ drop (p_end p) ''[a,  b]''"
    by auto
  moreover have "p_start p = 1" "p_end p = 6"
    using p(1) by (auto simp: flow_move_patch_def nth_opt_def head_opt_def last_opt_def range_start_def range_value_def)
  moreover have "weave (move_item 0 1 (map (item_text ''[a,  b]'') ?items)) (separators ''[a,  b]'' ?items) = ''b,  a''"
    by code_simp
  ultimately show ?thesis by simp
qed

end
