(* ===== verification/RecipeEdit.thy ===== *)
theory RecipeEdit
  imports RecipeMoves
begin

text \<open>
  The editing of a recipe as a whole (\<open>editRecipeDocument\<close> in
  \<open>features/connectors/recipeDocument.ts\<close>): the checks before an edit, the mutation of the
  document, the source patch and the safety net that reads the patched text back. The lemmas show
  what an edit that returns has done, what it leaves alone and when it refuses.
\<close>

subsection \<open>Comparing values\<close>

text \<open>
  Values are compared by their JSON text, which is equality of the model's values: members in
  order, numbers by value.
\<close>

(* src features/connectors/recipeDocument.ts 674-680 sameValue *)
definition sameValue :: "json \<Rightarrow> json \<Rightarrow> bool" where
  "sameValue l r \<longleftrightarrow> l = r"

(* src features/connectors/recipeDocument.ts 190-197 emptyAsNull *)
primrec emptyAsNull :: "json \<Rightarrow> json" where
  "emptyAsNull JNull = JNull"
| "emptyAsNull (JBool b) = JBool b"
| "emptyAsNull (JNum n) = JNum n"
| "emptyAsNull (JStr s) = JStr s"
| "emptyAsNull (JArr xs) = JArr (map emptyAsNull xs)"
| "emptyAsNull (JObj ms) = (if ms = [] then JNull else JObj (map (map_prod (\<lambda>k. k) emptyAsNull) ms))"

(* src features/connectors/recipeDocument.ts 178-187 readsAs *)
definition readsAs :: "ylib \<Rightarrow> string \<Rightarrow> ynode \<Rightarrow> bool" where
  "readsAs lib out expected \<longleftrightarrow>
     (let parsed = parseRecipeDocument lib out
      in pr_error parsed = None \<and>
         sameValue (emptyAsNull (case pr_document parsed of None \<Rightarrow> JNull | Some d \<Rightarrow> lib_toJS lib (dc_contents d)))
           (emptyAsNull (lib_toJS lib (Some expected))))"

subsection \<open>Edits below a null\<close>

text \<open>The depth at which the path meets a null value, if it does.\<close>

(* src features/connectors/recipeDocument.ts 212-215 liftNullAncestor *)
fun null_depth :: "ylib \<Rightarrow> ynode \<Rightarrow> bool \<Rightarrow> segment list \<Rightarrow> nat list \<Rightarrow> nat option" where
  "null_depth lib rootn is_append path [] = None"
| "null_depth lib rootn is_append path (depth # depths) =
     (case getNode lib (Some rootn) (take depth path) of
        None \<Rightarrow> None
      | Some n \<Rightarrow>
          if null_scalar n \<and> (depth < length path \<or> is_append) then Some depth
          else (case n of YMap r a f items \<Rightarrow> null_depth lib rootn is_append path depths
            | YSeq r a f items \<Rightarrow> null_depth lib rootn is_append path depths
            | _ \<Rightarrow> None))"

(* src features/connectors/recipeDocument.ts 216-220 liftNullAncestor *)
fun nest_keys :: "segment list \<Rightarrow> json \<Rightarrow> json option" where
  "nest_keys [] v = Some v"
| "nest_keys (Key k # ss) v = map_option (\<lambda>w. JObj [(k, w)]) (nest_keys ss v)"
| "nest_keys (Index n # ss) v = None"

(* src features/connectors/recipeDocument.ts 203-227 liftNullAncestor *)
definition liftNullAncestor ::
  "ylib \<Rightarrow> ynode \<Rightarrow> edit_op \<Rightarrow> segment list \<Rightarrow> json \<Rightarrow> edit_op \<times> segment list \<times> json" where
  "liftNullAncestor lib rootn op path v =
     (let lifted = (\<lambda>is_append leaf.
            case null_depth lib rootn is_append path [1 ..< Suc (length path)] of
              None \<Rightarrow> (op, path, v)
            | Some depth \<Rightarrow>
                (case nest_keys (drop depth path) leaf of
                   None \<Rightarrow> (op, path, v)
                 | Some nested \<Rightarrow> (Set_op (Segments (take depth path)) nested, take depth path, nested)))
      in case op of
           Set_op _ _ \<Rightarrow> lifted False v
         | Block_op _ _ \<Rightarrow> lifted False v
         | Append_op _ _ \<Rightarrow> lifted True (JArr [v])
         | _ \<Rightarrow> (op, path, v))"

subsection \<open>Mutating the document\<close>

text \<open>Replacing the node at a path.\<close>

fun update_at :: "ylib \<Rightarrow> segment list \<Rightarrow> (ynode \<Rightarrow> ynode) \<Rightarrow> ynode \<Rightarrow> ynode" where
  "update_at lib [] g n = g n"
| "update_at lib (s # ss) g (YMap r a f items) =
     (case findPair lib items s of
        Some (i, k, Some c) \<Rightarrow> YMap r a f (items[i := (k, Some (update_at lib ss g c))])
      | _ \<Rightarrow> YMap r a f items)"
| "update_at lib (Index i # ss) g (YSeq r a f items) =
     (if i < length items then YSeq r a f (items[i := update_at lib ss g (items ! i)]) else YSeq r a f items)"
| "update_at lib (s # ss) g n = n"

definition with_items :: "(ynode list \<Rightarrow> ynode list) \<Rightarrow> ynode \<Rightarrow> ynode" where
  "with_items g n = (case n of YSeq r a f items \<Rightarrow> YSeq r a f (g items) | _ \<Rightarrow> n)"

definition rename_key :: "nat \<Rightarrow> string \<Rightarrow> ynode \<Rightarrow> ynode" where
  "rename_key i new n = (case n of
     YMap r a f items \<Rightarrow> YMap r a f (items[i := (map_option (\<lambda>k. case k of
       YScalar kr ka kp kv \<Rightarrow> YScalar kr ka kp (JStr new) | _ \<Rightarrow> k) (fst (items ! i)), snd (items ! i))])
   | _ \<Rightarrow> n)"

definition seq_items :: "ynode option \<Rightarrow> ynode list option" where
  "seq_items n = (case n of Some (YSeq r a f items) \<Rightarrow> Some items | _ \<Rightarrow> None)"

text \<open>What the switch does: a failure, no change (the source is returned), or a new document.\<close>

(* src features/connectors/recipeDocument.ts 122-158 editRecipeDocument *)
definition mutate :: "ylib \<Rightarrow> ynode \<Rightarrow> edit_op \<Rightarrow> segment list \<Rightarrow> json \<Rightarrow> ynode option result" where
  "mutate lib rootn op path v =
     (let done = (\<lambda>r. case r of Throw e \<Rightarrow> Throw e | Ok n \<Rightarrow> Ok (Some n))
      in case op of
        Set_op _ _ \<Rightarrow> done (lib_setIn lib path v rootn)
      | Block_op _ _ \<Rightarrow> done (lib_setIn lib path v rootn)
      | Delete_op _ \<Rightarrow> done (lib_deleteIn lib path rootn)
      | Rename_op _ new \<Rightarrow>
          (case (getNode lib (Some rootn) (butlast path), parent_pair lib (Some rootn) path) of
             (Some parent, Some (i, Some (YScalar kr ka kp kv), val)) \<Rightarrow>
               if new = [] \<or> js_String lib kv = new then Ok None
               else if lib_has lib parent new then Throw (''A recipe entry named '' @ new @ '' already exists.'')
               else Ok (Some (update_at lib (butlast path) (rename_key i new) rootn))
           | _ \<Rightarrow> Ok None)
      | Append_op _ _ \<Rightarrow>
          (case seq_items (getNode lib (Some rootn) path) of
             Some items \<Rightarrow> done (lib_addIn lib path v rootn)
           | None \<Rightarrow> done (lib_setIn lib path (JArr [v]) rootn))
      | Remove_op _ i \<Rightarrow>
          (case seq_items (getNode lib (Some rootn) path) of
             None \<Rightarrow> Ok None
           | Some items \<Rightarrow> if i < 0 \<or> int (length items) \<le> i then Ok None
               else Ok (Some (update_at lib path (with_items (splice_out (nat i))) rootn)))
      | Move_op _ i j \<Rightarrow>
          (case seq_items (getNode lib (Some rootn) path) of
             None \<Rightarrow> Ok None
           | Some items \<Rightarrow> if i < 0 \<or> int (length items) \<le> i \<or> j < 0 \<or> int (length items) \<le> j then Ok None
               else Ok (Some (update_at lib path (with_items (move_item (nat i) (nat j))) rootn))))"

subsection \<open>The edit\<close>

text \<open>\<open>unpatchable\<close>.\<close>

(* src features/connectors/recipeDocument.ts 175-175 unpatchable *)
definition unpatchable :: string where
  "unpatchable = ''The requested recipe edit cannot be applied as a targeted source change.''"

text \<open>The value an operation carries; the others have none, and their steps do not look at it.\<close>

(* src features/connectors/recipeDocument.ts 116-116 editRecipeDocument *)
definition requested_value :: "ylib \<Rightarrow> edit_op \<Rightarrow> json result" where
  "requested_value lib op = (case op of Block_op p t \<Rightarrow> parseBlock lib t | Set_op p v \<Rightarrow> Ok v
     | Append_op p v \<Rightarrow> Ok v | _ \<Rightarrow> Ok JNull)"

(* src features/connectors/recipeDocument.ts 102-110 editRecipeDocument *)
definition editable_root :: "ylib \<Rightarrow> string \<Rightarrow> ynode result" where
  "editable_root lib source =
     (let parsed = parseRecipeDocument lib source;
          contents = from_opt (lib_empty lib) (Option.bind (pr_document parsed) dc_contents)
      in case (pr_error parsed, pr_unsupported parsed) of
           (Some e, _) \<Rightarrow> Throw (is_message e)
         | (None, Some u) \<Rightarrow> if is_kind u = Root \<and> isBlankSource source then Ok contents else Throw (is_message u)
         | (None, None) \<Rightarrow> Ok contents)"

(* src features/connectors/recipeDocument.ts 118-120 editRecipeDocument *)
definition no_change :: "ylib \<Rightarrow> ynode \<Rightarrow> edit_op \<Rightarrow> segment list \<Rightarrow> json \<Rightarrow> bool" where
  "no_change lib rootn op path v \<longleftrightarrow>
     (let beforeNode = getNode lib (Some rootn) path;
          same = (case beforeNode of None \<Rightarrow> False | Some n \<Rightarrow> sameValue (lib_toJS lib (Some n)) v)
      in case op of Delete_op _ \<Rightarrow> beforeNode = None | Set_op _ _ \<Rightarrow> same | Block_op _ _ \<Rightarrow> same
         | Move_op _ i j \<Rightarrow> i = j | _ \<Rightarrow> False)"

text \<open>Applying the patch and reading the result back.\<close>

(* src features/connectors/recipeDocument.ts 160-172 editRecipeDocument *)
definition finish_edit :: "ylib \<Rightarrow> string \<Rightarrow> patch option \<Rightarrow> ynode \<Rightarrow> string result" where
  "finish_edit lib source p expected = (case p of
     None \<Rightarrow> Throw unpatchable
   | Some q \<Rightarrow>
       (let patched = apply_patch source q;
            unterminated = slice 0 (p_start q) source @ drop_final_crlf (p_text q)
        in if length source \<le> p_end q \<and> \<not> ends_with [NL] source \<and> \<not> isBlankSource source
             \<and> unterminated \<noteq> patched \<and> readsAs lib unterminated expected then Ok unterminated
           else if \<not> readsAs lib patched expected then Throw unpatchable
           else Ok patched))"

(* src features/connectors/recipeDocument.ts 101-173 editRecipeDocument *)
definition editRecipeDocument :: "ylib \<Rightarrow> string \<Rightarrow> edit_op \<Rightarrow> string result" where
  "editRecipeDocument lib source requested =
     (case editable_root lib source of Throw e \<Rightarrow> Throw e | Ok rootn \<Rightarrow>
      (case requested_value lib requested of Throw e \<Rightarrow> Throw e | Ok requested_v \<Rightarrow>
        (case liftNullAncestor lib rootn requested (pathSegments (op_path requested)) requested_v of
          (op, path, v) \<Rightarrow>
            if no_change lib rootn op path v then Ok source
            else (case mutate lib rootn op path v of
                Throw e \<Rightarrow> Throw e
              | Ok None \<Rightarrow> Ok source
              | Ok (Some expected) \<Rightarrow> finish_edit lib source (sourcePatch lib source (Some rootn) op v path) expected))))"

subsection \<open>What an edit that returns has done\<close>

text \<open>The steps of an edit that changed the document: root, operation, path, value, new document.\<close>

definition edit_steps ::
  "ylib \<Rightarrow> string \<Rightarrow> edit_op \<Rightarrow> ynode \<Rightarrow> edit_op \<Rightarrow> segment list \<Rightarrow> json \<Rightarrow> ynode \<Rightarrow> bool" where
  "edit_steps lib source requested rootn op path v expected \<longleftrightarrow>
     editable_root lib source = Ok rootn
     \<and> (\<exists>w. requested_value lib requested = Ok w
         \<and> liftNullAncestor lib rootn requested (pathSegments (op_path requested)) w = (op, path, v))
     \<and> \<not> no_change lib rootn op path v \<and> mutate lib rootn op path v = Ok (Some expected)"

lemma edit_cases:
  assumes "editRecipeDocument lib source requested = Ok out"
  obtains (same) "out = source"
    | (changed) rootn op path v expected where "edit_steps lib source requested rootn op path v expected"
        "finish_edit lib source (sourcePatch lib source (Some rootn) op v path) expected = Ok out"
  using assms
  by (auto simp: editRecipeDocument_def edit_steps_def split: sum.splits prod.splits if_splits option.splits)

lemma finish_edit_Ok:
  "finish_edit lib source p expected = Ok out \<Longrightarrow> readsAs lib out expected \<and>
     (\<exists>q. p = Some q \<and> (out = apply_patch source q \<or>
        length source \<le> p_end q \<and> \<not> ends_with [NL] source \<and> out = slice 0 (p_start q) source @ drop_final_crlf (p_text q)))"
  by (auto simp: finish_edit_def Let_def split: option.splits if_splits)

lemma slice_from_end: "length source \<le> k \<Longrightarrow> slice_from k source = []"
  by (simp add: slice_from_def)

text \<open>
  Claim C1. An edit that returns a text never returns a wrong one. The result is the source itself
  or a text that parses without errors and reads, with empty mappings counted as null, as the
  document the mutation produced. It differs from the source in one stretch only: what stands
  before and after the patch is there unchanged. And no edit is applied to a text with a parse
  error or an unsupported construct.
\<close>

theorem edit_safe:
  assumes "editRecipeDocument lib source requested = Ok out" and "out \<noteq> source"
  shows "\<exists>rootn op path v expected. edit_steps lib source requested rootn op path v expected
    \<and> readsAs lib out expected
    \<and> (\<exists>q body. sourcePatch lib source (Some rootn) op v path = Some q
        \<and> out = slice 0 (p_start q) source @ body @ slice_from (p_end q) source
        \<and> (body = p_text q \<or> body = drop_final_crlf (p_text q)))
    \<and> pr_error (parseRecipeDocument lib source) = None
    \<and> (pr_unsupported (parseRecipeDocument lib source) = None \<or> isBlankSource source)"
  using assms(1)
proof (cases rule: edit_cases)
  case same
  then show ?thesis using assms(2) by simp
next
  case (changed rootn op path v expected)
  have root: "pr_error (parseRecipeDocument lib source) = None
      \<and> (pr_unsupported (parseRecipeDocument lib source) = None \<or> isBlankSource source)"
    using changed(1) by (auto simp: edit_steps_def editable_root_def Let_def split: option.splits if_splits)
  obtain q where q: "readsAs lib out expected" "sourcePatch lib source (Some rootn) op v path = Some q"
    "out = apply_patch source q \<or> length source \<le> p_end q \<and> out = slice 0 (p_start q) source @ drop_final_crlf (p_text q)"
    using finish_edit_Ok [OF changed(2)] by blast
  then have "\<exists>body. out = slice 0 (p_start q) source @ body @ slice_from (p_end q) source
      \<and> (body = p_text q \<or> body = drop_final_crlf (p_text q))"
    by (auto simp: apply_patch_def slice_from_end)
  with changed(1) q root show ?thesis by blast
qed

subsection \<open>A library for examples\<close>

text \<open>Documents of one pair with a key and a value of one letter each.\<close>

definition one_pair :: "string \<Rightarrow> (char \<times> char) option" where
  "one_pair s = (case s of [k, c, b, x, n] \<Rightarrow>
     if c = CHR '':'' \<and> b = CHR '' '' \<and> n = NL \<and> is_word_char k \<and> is_word_char x then Some (k, x) else None | _ \<Rightarrow> None)"

definition one_doc :: "char \<times> char \<Rightarrow> ynode" where
  "one_doc kx = YMap (Some (0, 5, 5)) None False
     [(Some (YScalar (Some (0, 1, 1)) None True (JStr [fst kx])), Some (YScalar (Some (3, 4, 5)) None True (JStr [snd kx])))]"

definition scalar_js :: "ynode option \<Rightarrow> json" where
  "scalar_js n = (case n of Some (YScalar r a p v) \<Rightarrow> v | _ \<Rightarrow> JNull)"

definition one_js :: "ynode option \<Rightarrow> json" where
  "one_js n = (case n of
     Some (YMap r a f items) \<Rightarrow> JObj (map (\<lambda>(k, v). (case scalar_js k of JStr t \<Rightarrow> t | _ \<Rightarrow> [], scalar_js v)) items)
   | _ \<Rightarrow> scalar_js n)"

definition one_lib :: ylib where
  "one_lib = \<lparr>
     lib_parse_all = (\<lambda>s. case one_pair s of None \<Rightarrow> Inl (''not a pair'', None)
       | Some kx \<Rightarrow> Inr [\<lparr>dc_contents = Some (one_doc kx), dc_errors = [], dc_start = Some 0\<rparr>]),
     lib_parse_one = (\<lambda>s. \<lparr>dc_contents = None, dc_errors = [], dc_start = None\<rparr>),
     lib_toJS = one_js,
     lib_empty = YMap None None False [],
     lib_setIn = (\<lambda>p v n. case (p, n) of
         ([Key k], YMap r a f [(key, x)]) \<Rightarrow> Ok (YMap r a f [(key, Some (YScalar None None True v))])
       | _ \<Rightarrow> Throw ''not a pair''),
     lib_deleteIn = (\<lambda>p n. Throw ''not a pair''),
     lib_addIn = (\<lambda>p v n. Throw ''not a pair''),
     lib_has = (\<lambda>n k. False),
     lib_get = (\<lambda>n k. None),
     lib_node_text = (\<lambda>n. []),
     lib_text = (\<lambda>flow v. case v of JStr t \<Rightarrow> t @ [NL] | _ \<Rightarrow> []),
     lib_num = (\<lambda>n. [])\<rparr>"

lemma one_edit: "editRecipeDocument one_lib (''a: x'' @ [NL]) (Set_op (Dotted ''a'') (JStr ''y'')) = Ok (''a: y'' @ [NL])"
  by code_simp

lemma edit_safe_witness:
  "\<exists>rootn op path v expected. edit_steps one_lib (''a: x'' @ [NL]) (Set_op (Dotted ''a'') (JStr ''y'')) rootn op path v expected
     \<and> readsAs one_lib (''a: y'' @ [NL]) expected"
proof -
  have "''a: y'' @ [NL] \<noteq> ''a: x'' @ [NL]" by simp
  from edit_safe [OF one_edit this] show ?thesis by blast
qed

subsection \<open>The edits of a sequence\<close>

lemma find_index_le: "find_index P k xs = Some (i, x) \<Longrightarrow> k \<le> i \<and> i < k + length xs \<and> xs ! (i - k) = x \<and> P x"
proof (induction xs arbitrary: k)
  case (Cons z zs)
  show ?case
  proof (cases "P z")
    case False
    with Cons.prems have f: "find_index P (Suc k) zs = Some (i, x)" by simp
    from Cons.IH [OF f] show ?thesis by (auto simp: nth_Cons')
  qed (use Cons.prems in auto)
qed simp

lemma find_index_update: "find_index P k xs = Some (i, x) \<Longrightarrow> P y \<Longrightarrow> find_index P k (xs[i - k := y]) = Some (i, y)"
proof (induction xs arbitrary: k)
  case (Cons z zs)
  show ?case
  proof (cases "P z")
    case False
    with Cons.prems have f: "find_index P (Suc k) zs = Some (i, x)" by simp
    then have i: "i - k = Suc (i - Suc k)" using find_index_le [OF f] by linarith
    show ?thesis using Cons.IH [OF f Cons.prems(2)] False unfolding i by simp
  qed (use Cons.prems in auto)
qed simp

lemma find_index_update_other:
  "find_index P k xs = Some (i, x) \<Longrightarrow> \<not> Q x \<Longrightarrow> \<not> Q y \<Longrightarrow> find_index Q k (xs[i - k := y]) = find_index Q k xs"
proof (induction xs arbitrary: k)
  case (Cons z zs)
  show ?case
  proof (cases "P z")
    case False
    with Cons.prems have f: "find_index P (Suc k) zs = Some (i, x)" by simp
    then have i: "i - k = Suc (i - Suc k)" using find_index_le [OF f] by linarith
    show ?thesis using Cons.IH [OF f Cons.prems(2,3)] unfolding i by simp
  qed (use Cons.prems in auto)
qed simp

lemma findPair_update:
  assumes "findPair lib items s = Some (i, k, c)"
  shows "findPair lib (items[i := (k, w)]) s = Some (i, k, w)"
    and "segment_text s \<noteq> segment_text t \<Longrightarrow> findPair lib (items[i := (k, w)]) t = findPair lib items t"
proof -
  have m: "pair_matches lib s (k, c)" using find_index_le [of "pair_matches lib s" 0 items i "(k, c)"] assms by (simp add: findPair_def)
  then have "pair_matches lib s (k, w)" by (simp add: pair_matches_def)
  then show "findPair lib (items[i := (k, w)]) s = Some (i, k, w)"
    using find_index_update [of "pair_matches lib s" 0 items i "(k, c)"] assms by (simp add: findPair_def)
  assume "segment_text s \<noteq> segment_text t"
  then have "\<not> pair_matches lib t (k, c)" "\<not> pair_matches lib t (k, w)"
    using m by (auto simp: pair_matches_def split: option.splits ynode.splits)
  then show "findPair lib (items[i := (k, w)]) t = findPair lib items t"
    using find_index_update_other [of "pair_matches lib s" 0 items i "(k, c)"] assms by (simp add: findPair_def)
qed

lemma getNode_Nil [simp]: "getNode lib n [] = n"
  by (simp add: getNode_def)

lemma getNode_Cons: "getNode lib n (s # ss) = getNode lib (node_step lib n s) ss"
  by (simp add: getNode_def)

lemma node_step_None [simp]: "node_step lib None s = None"
  by (simp add: node_step_def)

lemma getNode_None [simp]: "getNode lib None ss = None"
  by (induction ss) (simp_all add: getNode_Cons)

text \<open>Two paths that part at some segment.\<close>

fun separated :: "segment list \<Rightarrow> segment list \<Rightarrow> bool" where
  "separated (s # ss) (t # ts) \<longleftrightarrow> segment_text s \<noteq> segment_text t \<or> s = t \<and> separated ss ts"
| "separated _ _ \<longleftrightarrow> False"

lemma update_step:
  "node_step lib (Some (update_at lib (s # ss) g n)) s = map_option (update_at lib ss g) (node_step lib (Some n) s)"
proof (cases n)
  case (YMap r a f items)
  show ?thesis
  proof (cases "findPair lib items s")
    case (Some ikc)
    obtain i k c where ikc: "ikc = (i, k, c)" by (cases ikc)
    show ?thesis
      using Some findPair_update(1) [of lib items s i k c] unfolding ikc YMap
      by (cases c) (auto simp: node_step_def)
  qed (simp add: YMap node_step_def)
qed (cases s; simp add: node_step_def nth_opt_def)+

lemma update_step_other:
  assumes "segment_text s \<noteq> segment_text t"
  shows "node_step lib (Some (update_at lib (s # ss) g n)) t = node_step lib (Some n) t"
proof (cases n)
  case (YMap r a f items)
  show ?thesis
  proof (cases "findPair lib items s")
    case (Some ikc)
    obtain i k c where ikc: "ikc = (i, k, c)" by (cases ikc)
    show ?thesis
      using Some findPair_update(2) [of lib items s i k c t, OF _ assms] unfolding ikc YMap
      by (cases c) (auto simp: node_step_def)
  qed (simp add: YMap node_step_def)
next
  case (YSeq r a f items)
  then show ?thesis using assms by (cases s; cases t) (auto simp: node_step_def nth_opt_def nth_list_update)
qed (cases s; simp add: node_step_def)+

lemma getNode_update: "getNode lib (Some n) p = Some m \<Longrightarrow> getNode lib (Some (update_at lib p g n)) p = Some (g m)"
proof (induction p arbitrary: n)
  case (Cons s ss)
  then obtain c where c: "node_step lib (Some n) s = Some c" "getNode lib (Some c) ss = Some m"
    by (cases "node_step lib (Some n) s") (auto simp: getNode_Cons)
  then show ?case using Cons.IH update_step [of lib s ss g n] by (simp add: getNode_Cons)
qed simp

lemma getNode_update_other: "separated p q \<Longrightarrow> getNode lib (Some (update_at lib p g n)) q = getNode lib (Some n) q"
proof (induction p q arbitrary: n rule: separated.induct)
  case (1 s ss t ts)
  show ?case
  proof (cases "segment_text s = segment_text t")
    case True
    with 1 have st: "t = s" "separated ss ts" by auto
    show ?thesis
      using 1(1) [of "the (node_step lib (Some n) s)"] st update_step [of lib s ss g n]
      by (cases "node_step lib (Some n) s") (auto simp: getNode_Cons)
  next
    case False
    then show ?thesis using update_step_other [of s t lib ss g n] by (simp add: getNode_Cons)
  qed
qed auto

text \<open>
  Removing or moving an item of a sequence in range changes the document in that
  sequence only: the document the edit compares against has, at the path, the items without the
  one removed, or with the one moved to its new place, and at every path that parts from this one
  the node it had before. Indices out of range leave the recipe as it is.
\<close>

theorem sequence_edit_exact:
  assumes "seq_items (getNode lib (Some rootn) path) = Some items" and "i < length items" and "j < length items"
  shows "\<exists>removed moved. mutate lib rootn (Remove_op rp (int i)) path v = Ok (Some removed)
      \<and> mutate lib rootn (Move_op rp (int i) (int j)) path v = Ok (Some moved)
      \<and> seq_items (getNode lib (Some removed) path) = Some (splice_out i items)
      \<and> seq_items (getNode lib (Some moved) path) = Some (move_item i j items)
      \<and> (\<forall>q. separated path q \<longrightarrow> getNode lib (Some removed) q = getNode lib (Some rootn) q
            \<and> getNode lib (Some moved) q = getNode lib (Some rootn) q)
      \<and> (\<forall>k. k < 0 \<or> int (length items) \<le> k \<longrightarrow> mutate lib rootn (Remove_op rp k) path v = Ok None
            \<and> mutate lib rootn (Move_op rp k (int j)) path v = Ok None \<and> mutate lib rootn (Move_op rp (int i) k) path v = Ok None)"
proof -
  obtain r a f where n: "getNode lib (Some rootn) path = Some (YSeq r a f items)"
    using assms(1) by (auto simp: seq_items_def split: option.splits ynode.splits)
  have "seq_items (getNode lib (Some (update_at lib path (with_items g) rootn)) path) = Some (g items)" for g
    using getNode_update [OF n, of "with_items g"] by (simp add: with_items_def seq_items_def)
  then show ?thesis
    using assms getNode_update_other [of path _ lib _ rootn]
    by (auto simp: mutate_def Let_def)
qed

lemma sequence_edit_exact_witness:
  "\<exists>removed. mutate one_lib (YMap None None False [(Some (YScalar None None True (JStr ''a'')),
       Some (YSeq None None False [YScalar None None True (JStr ''x''), YScalar None None True (JStr ''y'')]))])
       (Remove_op (Dotted ''a'') (int 0)) [Key ''a''] JNull = Ok (Some removed)
     \<and> seq_items (getNode one_lib (Some removed) [Key ''a'']) = Some [YScalar None None True (JStr ''y'')]"
proof -
  have "seq_items (getNode one_lib (Some (YMap None None False [(Some (YScalar None None True (JStr ''a'')),
       Some (YSeq None None False [YScalar None None True (JStr ''x''), YScalar None None True (JStr ''y'')]))])) [Key ''a''])
     = Some [YScalar None None True (JStr ''x''), YScalar None None True (JStr ''y'')]" by code_simp
  from sequence_edit_exact [OF this, of 0 1 "Dotted ''a''" JNull] show ?thesis by (auto simp: splice_out_def)
qed

subsection \<open>Nesting below a missing key\<close>

text \<open>Reading a value along a path.\<close>

fun value_at :: "segment list \<Rightarrow> json \<Rightarrow> json option" where
  "value_at [] v = Some v"
| "value_at (Key k # ss) (JObj ms) = Option.bind (map_of ms k) (value_at ss)"
| "value_at (Index n # ss) (JArr xs) = Option.bind (nth_opt xs n) (value_at ss)"
| "value_at _ _ = None"

text \<open>
  A value written below a missing key is nested under the names of the path: for a path
  of names the new entry holds the value exactly where the path says. A list index is not handled
  that way: the value of a missing key followed by an index is nested in a mapping with the number
  as its name, not in a list, and what the path names below that index is left out.
\<close>

theorem nest_missing_path:
  "(\<forall>k ks. value_at (map Key ks) (nest_missing (map Key (k # ks)) v) = Some v)
    \<and> nest_missing [Key k, Index n] v = JObj [(show_nat n, v)]
    \<and> nest_missing [Key k, Index n, Key m] v = JObj [(show_nat n, JArr (replicate n JNull @ [v]))]"
proof -
  have "value_at (map Key ks) (nest_missing (map Key (k # ks)) v) = Some v" for k ks
    by (induction ks arbitrary: k) auto
  then show ?thesis by simp
qed

end
