(* ===== verification/RecipeBuilder.thy ===== *)
theory RecipeBuilder
  imports JsValues RecipeErrors RecipeEdit
begin

text \<open>
  The recipe form (\<open>features/connectors/RecipeBuilder.tsx\<close>): which edits of the recipe document
  each control of the form asks for, and how a batch of edits is applied to the text. The markup is
  not modelled; which controls are shown is. What the requests achieve is shown in
  \<open>RecipeRequests\<close> and \<open>RecipeSwitch\<close>.
\<close>

subsection \<open>Reading the document\<close>

(* src features/connectors/RecipeBuilder.tsx 1733-1741 valueAtPath *)
definition valueAtPath :: "js \<Rightarrow> recipe_path \<Rightarrow> js" where
  "valueAtPath v path = foldl (\<lambda>cur part. get_prop cur (segment_text part)) v (pathSegments path)"

(* src features/connectors/RecipeBuilder.tsx 1743-1745 record *)
definition record_of :: "js \<Rightarrow> members" where
  "record_of v = (case v of Val (JObj ms) \<Rightarrow> ms | _ \<Rightarrow> [])"

(* src features/connectors/RecipeBuilder.tsx 1747-1749 list *)
definition list_of :: "js \<Rightarrow> json list" where
  "list_of v = (case v of Val (JArr xs) \<Rightarrow> xs | _ \<Rightarrow> [])"

text \<open>\<open>String(value ?? '')\<close>.\<close>

definition text_or_empty :: "ylib \<Rightarrow> js \<Rightarrow> string" where
  "text_or_empty lib v = (case v of Val j \<Rightarrow> if j = JNull then [] else js_text (lib_num lib) j False | Undefined \<Rightarrow> [] | Inherited k \<Rightarrow> k)"

subsection \<open>Names, constants and shapes of the form\<close>

text \<open>
  \<open>while ((base + '_' + index) in values)\<close>: with as many steps as the object has members, own and
  inherited, a free name is found.
\<close>

(* src features/connectors/RecipeBuilder.tsx 1720-1722 uniqueName *)
fun unique_from :: "nat \<Rightarrow> members \<Rightarrow> string \<Rightarrow> nat \<Rightarrow> string" where
  "unique_from 0 ms base index = base @ ''_'' @ show_nat index"
| "unique_from (Suc fuel) ms base index =
     (if has_prop ms (base @ ''_'' @ show_nat index) then unique_from fuel ms base (index + 1)
      else base @ ''_'' @ show_nat index)"

(* src features/connectors/RecipeBuilder.tsx 1718-1723 uniqueName *)
definition uniqueName :: "members \<Rightarrow> string \<Rightarrow> string" where
  "uniqueName ms base = (if \<not> has_prop ms base then base
     else unique_from (length ms + length object_prototype) ms base 2)"

(* src features/connectors/RecipeBuilder.tsx 1707-1716 newEndpoint *)
definition newEndpoint :: "ylib \<Rightarrow> json list \<Rightarrow> json" where
  "newEndpoint lib endpoints =
     (let names = map (\<lambda>e. (text_or_empty lib (the_prop (record_of (Val e)) ''name''), JBool True)) endpoints
      in JObj [(''name'', JStr (uniqueName names ''endpoint'')), (''path'', JStr []), (''method'', JStr ''GET''),
          (''items'', JStr []), (''entity'', JObj [(''kind'', JStr []), (''name'', JStr []), (''external_id'', JStr [])])])"

text \<open>The options of a field of the format.\<close>

(* src features/connectors/RecipeBuilder.tsx 25-29 authModes *)
fun options_along :: "format_node \<Rightarrow> string list \<Rightarrow> string list" where
  "options_along fmt [] = []"
| "options_along fmt [k] = from_opt [] (Option.bind (map_of fmt k) f_options)"
| "options_along fmt (k # k' # ks) = (case Option.bind (map_of fmt k) f_item of None \<Rightarrow> [] | Some item \<Rightarrow> options_along item (k' # ks))"

definition authModes :: "string list" where
  "authModes = options_along recipeFormat [''auth'', ''mode'']"

definition paginationStyles :: "string list" where
  "paginationStyles = options_along recipeFormat [''endpoints'', ''pagination'', ''type'']"

definition attributeTypes :: "string list" where
  "attributeTypes = options_along recipeFormat [''endpoints'', ''entity'', ''attributes'', ''type'']"

definition dependencyKinds :: "string list" where
  "dependencyKinds = options_along recipeFormat [''dependencies'', ''kind'']"

definition actionMethods :: "string list" where
  "actionMethods = options_along recipeFormat [''actions'', ''method'']"

definition endpointMethods :: "string list" where
  "endpointMethods = options_along recipeFormat [''endpoints'', ''method'']"

text \<open>What a selection can be changed to: an option, the value it has, or nothing where that is offered.\<close>

(* src features/connectors/RecipeBuilder.tsx 1631-1633 SelectField *)
definition selectable :: "string list \<Rightarrow> bool \<Rightarrow> string \<Rightarrow> string \<Rightarrow> bool" where
  "selectable options includeEmpty selected new \<longleftrightarrow>
     new \<in> set options \<or> new = selected \<and> selected \<noteq> [] \<or> new = [] \<and> includeEmpty"

(* src features/connectors/RecipeBuilder.tsx 30-30 actionLimit *)
definition actionLimit :: nat where
  "actionLimit = 10"

(* src features/connectors/RecipeBuilder.tsx 31-32 lifecycleActionNames *)
definition lifecycleActionNames :: "string list" where
  "lifecycleActionNames = [''restart'', ''start'', ''stop'']"

(* src features/connectors/RecipeBuilder.tsx 33-39 paginationFieldsByStyle *)
definition paginationFieldsByStyle :: "(string \<times> string list) list" where
  "paginationFieldsByStyle =
     [(''page'', [''param'', ''size_param'', ''size'', ''start'']),
      (''offset'', [''param'', ''size_param'', ''size'', ''start'']),
      (''cursor'', [''param'', ''cursor_path'', ''size_param'', ''size'']),
      (''next_link'', [''next_path'', ''link_header''])]"

(* src features/connectors/RecipeBuilder.tsx 40-40 paginationOwnedFields *)
definition paginationOwnedFields :: "string list" where
  "paginationOwnedFields = [''param'', ''size_param'', ''size'', ''start'', ''cursor_path'', ''next_path'', ''link_header'']"

(* src features/connectors/RecipeBuilder.tsx 1764-1769 scalarType *)
definition scalarType :: "js \<Rightarrow> string" where
  "scalarType v = (case v of Val JNull \<Rightarrow> ''null'' | Val (JNum n) \<Rightarrow> ''number'' | Val (JBool b) \<Rightarrow> ''boolean'' | _ \<Rightarrow> ''string'')"

(* src features/connectors/RecipeBuilder.tsx 1757-1762 formatScalar *)
definition formatScalar :: "ylib \<Rightarrow> js \<Rightarrow> string" where
  "formatScalar lib v = (case v of Undefined \<Rightarrow> [] | Val j \<Rightarrow> js_text (lib_num lib) j False | Inherited k \<Rightarrow> k)"

text \<open>\<open>JSON.stringify(value, null, 2)\<close>.\<close>

definition json_block :: "string \<Rightarrow> string \<Rightarrow> string list \<Rightarrow> nat \<Rightarrow> string" where
  "json_block opening closing parts depth = (if parts = [] then opening @ closing
     else opening @ [NL] @ join_with ('','' @ [NL]) (map (\<lambda>p. spaces (2 * depth + 2) @ p) parts) @ [NL] @ spaces (2 * depth) @ closing)"

primrec json_pretty :: "ylib \<Rightarrow> json \<Rightarrow> nat \<Rightarrow> string" where
  "json_pretty lib JNull depth = ''null''"
| "json_pretty lib (JBool b) depth = (if b then ''true'' else ''false'')"
| "json_pretty lib (JNum n) depth = lib_num lib n"
| "json_pretty lib (JStr s) depth = json_quote s"
| "json_pretty lib (JArr xs) depth = json_block ''['' '']'' (map (\<lambda>f. f (depth + 1)) (map (json_pretty lib) xs)) depth"
| "json_pretty lib (JObj ms) depth = json_block ''{'' ''}''
     (map (\<lambda>(k, f). json_quote k @ '': '' @ f (depth + 1)) (map (map_prod (\<lambda>k. k) (json_pretty lib)) ms)) depth"

(* src features/connectors/RecipeBuilder.tsx 1751-1755 formatBlock *)
definition formatBlock :: "ylib \<Rightarrow> js \<Rightarrow> string" where
  "formatBlock lib v = (case v of Val j \<Rightarrow> json_pretty lib j 0 | _ \<Rightarrow> [])"

subsection \<open>Applying edits\<close>

(* src features/connectors/RecipeBuilder.tsx 51-53 RecipeBuilder *)
definition document_value :: "ylib \<Rightarrow> string \<Rightarrow> js" where
  "document_value lib source = (case pr_document (parseRecipeDocument lib source) of
     None \<Rightarrow> Undefined | Some d \<Rightarrow> Val (lib_toJS lib (dc_contents d)))"

definition absent :: "ylib \<Rightarrow> string \<Rightarrow> recipe_path \<Rightarrow> bool" where
  "absent lib source path \<longleftrightarrow> valueAtPath (document_value lib source) path = Undefined"

text \<open>One operation of a batch: an append creates its list, a delete of what is not there is skipped.\<close>

(* src features/connectors/RecipeBuilder.tsx 69-79 editMany *)
definition run_edit :: "ylib \<Rightarrow> string \<Rightarrow> edit_op \<Rightarrow> string result" where
  "run_edit lib source op = (case op of
     Append_op path v \<Rightarrow>
       (if absent lib source path
        then bind_result (editRecipeDocument lib source (Set_op path (JArr []))) (\<lambda>t. editRecipeDocument lib t op)
        else editRecipeDocument lib source op)
   | Delete_op path \<Rightarrow> if absent lib source path then Ok source else editRecipeDocument lib source op
   | _ \<Rightarrow> editRecipeDocument lib source op)"

(* src features/connectors/RecipeBuilder.tsx 67-80 editMany *)
fun run_edits :: "ylib \<Rightarrow> string \<Rightarrow> edit_op list \<Rightarrow> string result" where
  "run_edits lib source [] = Ok source"
| "run_edits lib source (op # ops) = bind_result (run_edit lib source op) (\<lambda>t. run_edits lib t ops)"

text \<open>The flag of the failure message, and the text that is handed on, if it is.\<close>

(* src features/connectors/RecipeBuilder.tsx 65-87 editMany *)
definition editMany :: "ylib \<Rightarrow> string \<Rightarrow> edit_op list \<Rightarrow> bool \<times> string option" where
  "editMany lib val ops = (case run_edits lib val ops of
     Throw e \<Rightarrow> (True, None)
   | Ok t \<Rightarrow> (False, if t \<noteq> val then Some t else None))"

text \<open>What is asked before a part with unknown keys is removed; \<open>yes\<close> is the user's answer.\<close>

(* src features/connectors/RecipeBuilder.tsx 1729-1731 isPrefix *)
definition isPrefix :: "segment list \<Rightarrow> segment list \<Rightarrow> bool" where
  "isPrefix pre path \<longleftrightarrow> prefix pre path"

(* src features/connectors/RecipeBuilder.tsx 97-97 hasUnknownBelow *)
definition hasUnknownBelow :: "unknown_node list \<Rightarrow> segment list \<Rightarrow> bool" where
  "hasUnknownBelow unknown path \<longleftrightarrow> list_ex (\<lambda>u. isPrefix path (un_path u)) unknown"

(* src features/connectors/RecipeBuilder.tsx 98-99 removeConfirm *)
definition removeConfirm :: "unknown_node list \<Rightarrow> bool \<Rightarrow> segment list \<Rightarrow> bool" where
  "removeConfirm unknown yes path \<longleftrightarrow> \<not> hasUnknownBelow unknown path \<or> yes"

text \<open>\<open>locatedErrors\<close> and the message of a row.\<close>

(* src features/connectors/RecipeBuilder.tsx 56-62 locatedErrors *)
definition locatedErrors :: "ylib \<Rightarrow> string \<Rightarrow> string option \<Rightarrow> (string \<times> string) list \<Rightarrow> (segment list \<times> string) list" where
  "locatedErrors lib val errorRecipe errors =
     (if errorRecipe \<noteq> None \<and> errorRecipe \<noteq> Some val then []
      else List.map_filter (\<lambda>(field, msg). map_option (\<lambda>t. (et_path t, msg)) (resolveRecipeError lib val field)) errors)"

(* src features/connectors/RecipeBuilder.tsx 89-95 issue *)
definition row_issue :: "(segment list \<times> string) list \<Rightarrow> segment list \<Rightarrow> string \<times> string" where
  "row_issue located path =
     (recipeFieldId path, join_with '' '' (map snd (filter (\<lambda>e. fst e = path) located)))"

subsection \<open>Controls\<close>

text \<open>The edits a control asks for; \<^const>\<open>None\<close>: it asks for none.\<close>

type_synonym request = "edit_op list option"

abbreviation Set_at :: "segment list \<Rightarrow> json \<Rightarrow> edit_op" where
  "Set_at path v \<equiv> Set_op (Segments path) v"

abbreviation Delete_at :: "segment list \<Rightarrow> edit_op" where
  "Delete_at path \<equiv> Delete_op (Segments path)"

definition set_or_delete :: "segment list \<Rightarrow> string \<Rightarrow> request" where
  "set_or_delete path new = Some [if new \<noteq> [] then Set_at path (JStr new) else Delete_at path]"

text \<open>A number field: an emptied one is deleted, a text that is no number is ignored.\<close>

(* src features/connectors/RecipeBuilder.tsx 646-649 numberInput *)
definition number_request :: "segment list \<Rightarrow> string \<Rightarrow> request" where
  "number_request path new = (if new = [] then Some [Delete_at path]
     else map_option (\<lambda>n. [Set_at path (JNum n)]) (js_number new))"

text \<open>A name field commits its draft.\<close>

definition rename_request :: "members \<Rightarrow> segment list \<Rightarrow> string \<Rightarrow> string \<Rightarrow> request" where
  "rename_request ms path key new = (if new = [] \<or> new = key \<or> the_prop ms new \<noteq> Undefined then None
     else Some [Rename_op (Segments (path @ [Key key])) new])"

text \<open>The editor of a scalar of any type, and the value it hands on.\<close>

datatype scalar_action = Scalar_type string | Scalar_boolean string | Scalar_number "rat option" | Scalar_text string

(* src features/connectors/RecipeBuilder.tsx 1473-1481 setType *)
definition retype :: "ylib \<Rightarrow> js \<Rightarrow> string \<Rightarrow> json option" where
  "retype lib v new =
     (if new = ''null'' then Some JNull
      else if new = ''string'' then Some (JStr (text_or_empty lib v))
      else if new = ''boolean'' then Some (JBool (v = Val (JBool True) \<or> v = Val (JStr ''true'')))
      else if new = ''number'' then Some (JNum (from_opt 0 (to_number (lib_num lib) v)))
      else None)"

(* src features/connectors/RecipeBuilder.tsx 1498-1513 ScalarField *)
definition scalar_change :: "ylib \<Rightarrow> js \<Rightarrow> scalar_action \<Rightarrow> json option" where
  "scalar_change lib v a = (case a of
     Scalar_type new \<Rightarrow> retype lib v new
   | Scalar_boolean new \<Rightarrow> if scalarType v = ''boolean'' then Some (JBool (new = ''true'')) else None
   | Scalar_number n \<Rightarrow> if scalarType v = ''number'' then map_option JNum n else None
   | Scalar_text new \<Rightarrow> if scalarType v = ''string'' then Some (JStr new) else None)"

text \<open>A map of texts: query parameters and headers.\<close>

datatype entry_action = Add_entry | Rename_entry string string | Type_entry string string | Remove_entry string

(* src features/connectors/RecipeBuilder.tsx 1346-1385 StringMapEditor *)
definition string_map_ops :: "(segment list \<Rightarrow> bool) \<Rightarrow> segment list \<Rightarrow> members \<Rightarrow> entry_action \<Rightarrow> request" where
  "string_map_ops confirmed path ms a = (case a of
     Add_entry \<Rightarrow> Some [Set_at (path @ [Key (uniqueName ms ''new_key'')]) (JStr [])]
   | Rename_entry key new \<Rightarrow> rename_request ms path key new
   | Type_entry key new \<Rightarrow> Some [Set_at (path @ [Key key]) (JStr new)]
   | Remove_entry key \<Rightarrow> if confirmed (path @ [Key key])
       then Some [Delete_at (if length ms = 1 then path else path @ [Key key])] else None)"

text \<open>The body: the draft is committed when the field is left.\<close>

(* src features/connectors/RecipeBuilder.tsx 1430-1445 BodyEditor *)
definition body_ops :: "ylib \<Rightarrow> segment list \<Rightarrow> js \<Rightarrow> string \<Rightarrow> request" where
  "body_ops lib path v draft = (if draft = formatBlock lib v then None
     else if trim draft = [] then Some [Delete_at path]
     else Some [Block_op (Segments path) draft])"

text \<open>Pagination: which fields a style shows, and what its controls do.\<close>

datatype pagination_action = Choose_style string | Type_page_text string string | Type_page_number string string
  | Tick_link_header bool

(* src features/connectors/RecipeBuilder.tsx 683-725 PaginationEditor *)
definition page_texts :: "string \<Rightarrow> members \<Rightarrow> string list" where
  "page_texts style pagination =
     (if style = ''page'' \<or> style = ''offset'' then [''param'', ''size_param'']
      else if style = ''cursor'' then [''param'', ''cursor_path'', ''size_param'']
      else if style = ''next_link'' \<and> the_prop pagination ''link_header'' \<noteq> Val (JBool True) then [''next_path'']
      else [])"

(* src features/connectors/RecipeBuilder.tsx 683-707 PaginationEditor *)
definition page_numbers :: "string \<Rightarrow> string list" where
  "page_numbers style =
     (if style = ''page'' \<or> style = ''offset'' then [''size'', ''start''] else if style = ''cursor'' then [''size''] else [])"

(* src features/connectors/RecipeBuilder.tsx 610-622 setType *)
definition style_ops :: "(segment list \<Rightarrow> bool) \<Rightarrow> segment list \<Rightarrow> string \<Rightarrow> request" where
  "style_ops confirmed path new =
     (if new = [] then (if confirmed path then Some [Delete_at path] else None)
      else Some (map (\<lambda>f. Delete_at (path @ [Key f]))
          (filter (\<lambda>f. f \<notin> set (from_opt [] (map_of paginationFieldsByStyle new))) paginationOwnedFields)
        @ [Set_at (path @ [Key ''type'']) (JStr new)]))"

(* src features/connectors/RecipeBuilder.tsx 609-650 PaginationEditor *)
definition pagination_ops ::
  "ylib \<Rightarrow> (segment list \<Rightarrow> bool) \<Rightarrow> segment list \<Rightarrow> members \<Rightarrow> pagination_action \<Rightarrow> request" where
  "pagination_ops lib confirmed path pagination a =
     (let style = text_or_empty lib (the_prop pagination ''type'')
      in case a of
           Choose_style new \<Rightarrow> if selectable paginationStyles True style new then style_ops confirmed path new else None
         | Type_page_text field new \<Rightarrow>
             if field \<in> set (page_texts style pagination) then set_or_delete (path @ [Key field]) new else None
         | Type_page_number field new \<Rightarrow>
             if field \<in> set (page_numbers style) then number_request (path @ [Key field]) new else None
         | Tick_link_header checked \<Rightarrow>
             if style = ''next_link'' then Some [Delete_at (path @ [Key ''next_path'']),
               if checked then Set_at (path @ [Key ''link_header'']) (JBool True) else Delete_at (path @ [Key ''link_header''])]
             else None)"

text \<open>The attributes of an entity.\<close>

datatype attribute_action = Rename_attribute string | Remove_attribute | Switch_source string | Type_source string
  | Source_scalar scalar_action | Choose_type string | Add_value | Rename_value string string
  | Set_value string scalar_action | Remove_value string | Add_default | Set_default scalar_action | Remove_default

(* src features/connectors/RecipeBuilder.tsx 756-756 AttributeEditor *)
definition attribute_source :: "members \<Rightarrow> string" where
  "attribute_source attribute =
     (if the_prop attribute ''path'' \<noteq> Undefined then ''path'' else if the_prop attribute ''const'' \<noteq> Undefined then ''const''
      else if the_prop attribute ''template'' \<noteq> Undefined then ''template'' else ''path'')"

(* src features/connectors/RecipeBuilder.tsx 764-773 switchSource *)
definition switch_source :: "segment list \<Rightarrow> string \<Rightarrow> edit_op list" where
  "switch_source path new = Set_at (path @ [Key new]) (JStr [])
     # map (\<lambda>k. Delete_at (path @ [Key k])) (filter (\<lambda>k. k \<noteq> new) [''path'', ''const'', ''template''])"

definition set_scalar :: "ylib \<Rightarrow> segment list \<Rightarrow> js \<Rightarrow> scalar_action \<Rightarrow> request" where
  "set_scalar lib path v a = map_option (\<lambda>w. [Set_at path w]) (scalar_change lib v a)"

(* src features/connectors/RecipeBuilder.tsx 753-862 AttributeEditor *)
definition attribute_ops ::
  "ylib \<Rightarrow> (segment list \<Rightarrow> bool) \<Rightarrow> segment list \<Rightarrow> members \<Rightarrow> string \<Rightarrow> members \<Rightarrow> members \<Rightarrow> attribute_action \<Rightarrow> request" where
  "attribute_ops lib confirmed attributes_path attributes name attribute valueMap a =
     (let path = attributes_path @ [Key name]; source = attribute_source attribute;
          mapPath = path @ [Key ''map'']
      in case a of
           Rename_attribute new \<Rightarrow> rename_request attributes attributes_path name new
         | Remove_attribute \<Rightarrow> if confirmed path then Some [Delete_at path] else None
         | Switch_source new \<Rightarrow> if selectable [''path'', ''const'', ''template''] False source new then Some (switch_source path new) else None
         | Type_source new \<Rightarrow> if source = ''const'' then None else Some [Set_at (path @ [Key source]) (JStr new)]
         | Source_scalar sa \<Rightarrow> if source = ''const'' then set_scalar lib (path @ [Key source]) (the_prop attribute ''const'') sa else None
         | Choose_type new \<Rightarrow>
             if selectable attributeTypes True (text_or_empty lib (the_prop attribute ''type'')) new
             then set_or_delete (path @ [Key ''type'']) new else None
         | Add_value \<Rightarrow> Some [Set_at (mapPath @ [Key (uniqueName valueMap ''new_value'')]) (JStr [])]
         | Rename_value key new \<Rightarrow> rename_request valueMap mapPath key new
         | Set_value key sa \<Rightarrow> set_scalar lib (mapPath @ [Key key]) (the_prop valueMap key) sa
         | Remove_value key \<Rightarrow> if confirmed (mapPath @ [Key key])
             then Some [Delete_at (if length valueMap = 1 then mapPath else mapPath @ [Key key])] else None
         | Add_default \<Rightarrow> if the_prop attribute ''default'' = Undefined then Some [Set_at (path @ [Key ''default'']) (JStr [])] else None
         | Set_default sa \<Rightarrow> if the_prop attribute ''default'' \<noteq> Undefined
             then set_scalar lib (path @ [Key ''default'']) (the_prop attribute ''default'') sa else None
         | Remove_default \<Rightarrow> if the_prop attribute ''default'' \<noteq> Undefined \<and> confirmed (path @ [Key ''default''])
             then Some [Delete_at (path @ [Key ''default''])] else None)"

text \<open>Dependencies.\<close>

datatype dependency_action = Add_dependency | Remove_dependency nat | Choose_kind nat string
  | Choose_dependency_source nat string | Type_dependency_source nat string

(* src features/connectors/RecipeBuilder.tsx 1022-1022 DependencyEditor *)
definition dependency_source :: "members \<Rightarrow> string" where
  "dependency_source ms = (if the_prop ms ''path'' \<noteq> Undefined then ''path'' else if the_prop ms ''const'' \<noteq> Undefined then ''const'' else ''path'')"

(* src features/connectors/RecipeBuilder.tsx 1008-1097 DependencyEditor *)
definition dependency_ops :: "ylib \<Rightarrow> (segment list \<Rightarrow> bool) \<Rightarrow> segment list \<Rightarrow> json list \<Rightarrow> dependency_action \<Rightarrow> request" where
  "dependency_ops lib confirmed path entries a =
     (let row = (\<lambda>i. record_of (Val (entries ! i))); base = (\<lambda>i. path @ [Index i])
      in case a of
           Add_dependency \<Rightarrow> Some [Append_op (Segments path) (JObj [(''kind'', JStr ''host''), (''path'', JStr [])])]
         | Remove_dependency i \<Rightarrow> if i < length entries \<and> confirmed (base i) then Some [Remove_op (Segments path) (int i)] else None
         | Choose_kind i new \<Rightarrow>
             if i < length entries \<and> selectable dependencyKinds False
                  (case the_prop (row i) ''kind'' of Undefined \<Rightarrow> ''host'' | Val JNull \<Rightarrow> ''host'' | v \<Rightarrow> text_or_empty lib v) new
             then Some [Set_at (base i @ [Key ''kind'']) (JStr new)] else None
         | Choose_dependency_source i new \<Rightarrow>
             if i < length entries \<and> selectable [''path'', ''const''] False (dependency_source (row i)) new
             then Some [Set_at (base i @ [Key new]) (JStr []),
               Delete_at (base i @ [Key (if new = ''path'' then ''const'' else ''path'')])] else None
         | Type_dependency_source i new \<Rightarrow>
             if i < length entries then Some [Set_at (base i @ [Key (dependency_source (row i))]) (JStr new)] else None)"

text \<open>Actions of the service or of an entity.\<close>

datatype row_action = Rename_action string | Remove_action | Choose_method string | Type_action_path string
  | Type_optional string string | Type_downtime string | Action_query entry_action | Action_headers entry_action
  | Action_body string

datatype actions_action = Add_action | Action string row_action

(* src features/connectors/RecipeBuilder.tsx 1200-1318 ActionRow *)
definition action_row_ops :: "ylib \<Rightarrow> (segment list \<Rightarrow> bool) \<Rightarrow> segment list \<Rightarrow> members \<Rightarrow> string \<Rightarrow> row_action \<Rightarrow> request" where
  "action_row_ops lib confirmed actions_path siblings name a =
     (let path = actions_path @ [Key name]; action = record_of (the_prop siblings name)
      in case a of
           Rename_action new \<Rightarrow> rename_request siblings actions_path name new
         | Remove_action \<Rightarrow> if confirmed path then Some [Delete_at path] else None
         | Choose_method new \<Rightarrow>
             if new \<noteq> [] \<and> selectable actionMethods True (text_or_empty lib (the_prop action ''method'')) new
             then Some [Set_at (path @ [Key ''method'']) (JStr new)] else None
         | Type_action_path new \<Rightarrow> Some [Set_at (path @ [Key ''path'']) (JStr new)]
         | Type_optional field new \<Rightarrow>
             if field = ''label'' \<or> field = ''description'' then set_or_delete (path @ [Key field]) new else None
         | Type_downtime new \<Rightarrow> number_request (path @ [Key ''downtime_seconds'']) new
         | Action_query ea \<Rightarrow> string_map_ops confirmed (path @ [Key ''query'']) (record_of (the_prop action ''query'')) ea
         | Action_headers ea \<Rightarrow> string_map_ops confirmed (path @ [Key ''headers'']) (record_of (the_prop action ''headers'')) ea
         | Action_body draft \<Rightarrow> body_ops lib (path @ [Key ''body'']) (the_prop action ''body'') draft)"

(* src features/connectors/RecipeBuilder.tsx 1128-1136 addAction *)
definition new_action_name :: "members \<Rightarrow> string" where
  "new_action_name actions = (case find (\<lambda>c. \<not> has_prop actions c) lifecycleActionNames of
     Some c \<Rightarrow> c | None \<Rightarrow> uniqueName actions ''action'')"

(* src features/connectors/RecipeBuilder.tsx 1127-1172 ActionsEditor *)
definition actions_ops :: "ylib \<Rightarrow> (segment list \<Rightarrow> bool) \<Rightarrow> segment list \<Rightarrow> members \<Rightarrow> actions_action \<Rightarrow> request" where
  "actions_ops lib confirmed path actions a = (case a of
     Add_action \<Rightarrow> if length actions \<ge> actionLimit then None
       else Some [Set_at (path @ [Key (new_action_name actions)]) (JObj [(''method'', JStr ''POST''), (''path'', JStr [])])]
   | Action name ra \<Rightarrow> if name \<in> set (map fst actions) then action_row_ops lib confirmed path actions name ra else None)"

text \<open>One endpoint.\<close>

datatype endpoint_action = Type_field string string | Choose_endpoint_method string | Type_entity string string
  | Query entry_action | Headers entry_action | Body string | Pagination pagination_action
  | Add_attribute | Attribute string attribute_action | Entity_actions actions_action
  | Endpoint_dependencies dependency_action | Move_up | Move_down | Remove_endpoint

text \<open>What the form reads: the document's value.\<close>

definition read_at :: "js \<Rightarrow> segment list \<Rightarrow> js" where
  "read_at v path = valueAtPath v (Segments path)"

(* src features/connectors/RecipeBuilder.tsx 338-583 EndpointEditor *)
definition endpoint_ops ::
  "ylib \<Rightarrow> (segment list \<Rightarrow> bool) \<Rightarrow> js \<Rightarrow> nat \<Rightarrow> nat \<Rightarrow> members \<Rightarrow> endpoint_action \<Rightarrow> request" where
  "endpoint_ops lib confirmed v index endpointCount endpoint a =
     (let base = [Key ''endpoints'', Index index];
          under_key = (\<lambda>k. record_of (read_at v (base @ [Key k])));
          attributes_path = base @ [Key ''entity'', Key ''attributes''];
          attributes = record_of (read_at v attributes_path);
          actions_path = base @ [Key ''entity'', Key ''actions'']
      in case a of
           Type_field field new \<Rightarrow>
             if field \<in> {''name'', ''path'', ''items''} then Some [Set_at (base @ [Key field]) (JStr new)] else None
         | Choose_endpoint_method new \<Rightarrow>
             if selectable endpointMethods False
                  (case the_prop endpoint ''method'' of Undefined \<Rightarrow> ''GET'' | Val JNull \<Rightarrow> ''GET'' | w \<Rightarrow> text_or_empty lib w) new
             then Some [Set_at (base @ [Key ''method'']) (JStr new)] else None
         | Type_entity field new \<Rightarrow>
             if field \<in> {''kind'', ''name'', ''external_id'', ''hostname'', ''ip'', ''mac'', ''aliases''}
             then Some [Set_at (base @ [Key ''entity'', Key field]) (JStr new)] else None
         | Query ea \<Rightarrow> string_map_ops confirmed (base @ [Key ''query'']) (under_key ''query'') ea
         | Headers ea \<Rightarrow> string_map_ops confirmed (base @ [Key ''headers'']) (under_key ''headers'') ea
         | Body draft \<Rightarrow> body_ops lib (base @ [Key ''body'']) (read_at v (base @ [Key ''body''])) draft
         | Pagination pa \<Rightarrow> pagination_ops lib confirmed (base @ [Key ''pagination'']) (under_key ''pagination'') pa
         | Add_attribute \<Rightarrow> Some [Set_at (attributes_path @ [Key (uniqueName attributes ''new_attribute'')])
               (JObj [(''path'', JStr []), (''type'', JStr ''string'')])]
         | Attribute name aa \<Rightarrow>
             if name \<in> set (map fst attributes)
             then attribute_ops lib confirmed attributes_path attributes name (record_of (the_prop attributes name))
               (record_of (read_at v (attributes_path @ [Key name, Key ''map'']))) aa
             else None
         | Entity_actions ca \<Rightarrow> actions_ops lib confirmed actions_path (record_of (read_at v actions_path)) ca
         | Endpoint_dependencies da \<Rightarrow>
             dependency_ops lib confirmed (base @ [Key ''dependencies'']) (list_of (read_at v (base @ [Key ''dependencies'']))) da
         | Move_up \<Rightarrow> if index = 0 then None
             else Some [Move_op (Segments [Key ''endpoints'']) (int index) (int index - 1)]
         | Move_down \<Rightarrow> if index = endpointCount - 1 then None
             else Some [Move_op (Segments [Key ''endpoints'']) (int index) (int index + 1)]
         | Remove_endpoint \<Rightarrow> if confirmed base then Some [Remove_op (Segments [Key ''endpoints'']) (int index)] else None)"

text \<open>The whole form.\<close>

datatype form_action = Choose_category string | Choose_auth_mode string | Type_auth_name string | Type_auth_prefix string
  | Add_endpoint | Endpoint nat endpoint_action | Recipe_dependencies dependency_action | Service_actions actions_action

(* src features/connectors/RecipeBuilder.tsx 209-214 RecipeBuilder *)
definition auth_mode_ops :: "string \<Rightarrow> edit_op list" where
  "auth_mode_ops new = Set_at [Key ''auth'', Key ''mode''] (JStr new)
     # (if new \<noteq> ''header'' \<and> new \<noteq> ''query'' then [Delete_at [Key ''auth'', Key ''name'']] else [])
     @ (if new \<noteq> ''header'' then [Delete_at [Key ''auth'', Key ''prefix'']] else [])"

(* src features/connectors/RecipeBuilder.tsx 149-305 RecipeBuilder *)
definition form_ops :: "ylib \<Rightarrow> (segment list \<Rightarrow> bool) \<Rightarrow> js \<Rightarrow> form_action \<Rightarrow> request" where
  "form_ops lib confirmed v a =
     (let category = text_or_empty lib (read_at v [Key ''category'']);
          authMode = (case read_at v [Key ''auth'', Key ''mode''] of Undefined \<Rightarrow> ''none'' | Val JNull \<Rightarrow> ''none'' | w \<Rightarrow> text_or_empty lib w);
          endpoints = list_of (read_at v [Key ''endpoints''])
      in case a of
           Choose_category new \<Rightarrow>
             if new \<noteq> [] \<and> selectable categories (category = []) category new
             then Some [Set_at [Key ''category''] (JStr new)] else None
         | Choose_auth_mode new \<Rightarrow> if selectable authModes False authMode new then Some (auth_mode_ops new) else None
         | Type_auth_name new \<Rightarrow>
             if authMode = ''header'' \<or> authMode = ''query'' then Some [Set_at [Key ''auth'', Key ''name''] (JStr new)] else None
         | Type_auth_prefix new \<Rightarrow>
             if authMode = ''header'' then Some [Set_at [Key ''auth'', Key ''prefix''] (JStr new)] else None
         | Add_endpoint \<Rightarrow> Some [Append_op (Segments [Key ''endpoints'']) (newEndpoint lib endpoints)]
         | Endpoint i ea \<Rightarrow> if i < length endpoints
             then endpoint_ops lib confirmed v i (length endpoints) (record_of (Val (endpoints ! i))) ea else None
         | Recipe_dependencies da \<Rightarrow>
             dependency_ops lib confirmed [Key ''dependencies''] (list_of (read_at v [Key ''dependencies''])) da
         | Service_actions ca \<Rightarrow> actions_ops lib confirmed [Key ''actions''] (record_of (read_at v [Key ''actions''])) ca)"

text \<open>A blank recipe is started with the smallest document; a byte order mark stays in front.\<close>

(* src features/connectors/RecipeBuilder.tsx 1697-1705 startRecipe *)
definition startRecipe :: "ylib \<Rightarrow> string \<Rightarrow> string result" where
  "startRecipe lib val =
     (let bom = starts_with [BOM] val; source = (if bom then drop 1 val else val);
          first = JObj [(''version'', JNum 1), (''category'', JStr ''other''), (''auth'', JObj [(''mode'', JStr ''none'')]),
            (''endpoints'', JArr [])]
      in bind_result (editRecipeDocument lib source (Set_op (Segments []) first))
           (\<lambda>started. Ok (if bom then BOM # started else started)))"

text \<open>
  What the form shows: the start button, a reason why it is not available, or its controls with the
  value and the unknown keys of the document.
\<close>

datatype form_view = Start | Unavailable "issue option" | Form js "unknown_node list"

(* src features/connectors/RecipeBuilder.tsx 102-147 RecipeBuilder *)
definition form_view :: "ylib \<Rightarrow> string \<Rightarrow> form_view" where
  "form_view lib val =
     (if trim val = [] then Start
      else let parsed = parseRecipeDocument lib val;
               unavailable = (case pr_error parsed of Some e \<Rightarrow> Some e | None \<Rightarrow> pr_unsupported parsed)
           in case (unavailable, pr_document parsed) of
                (None, Some d) \<Rightarrow> Form (document_value lib val) (unknownRecipeKeys lib (Some d))
              | (u, _) \<Rightarrow> Unavailable u)"

text \<open>
  A control is used: the new value of the failure flag, and the text handed on. \<open>yes\<close> is the answer
  to a confirmation, should one be asked for.
\<close>

(* src features/connectors/RecipeBuilder.tsx 42-101 RecipeBuilder *)
definition form_step :: "ylib \<Rightarrow> bool \<Rightarrow> bool \<Rightarrow> string \<Rightarrow> form_action \<Rightarrow> bool \<Rightarrow> bool \<times> string option" where
  "form_step lib disabled yes val a failed =
     (case form_view lib val of
        Form v unknown \<Rightarrow>
          (case (if disabled then None else form_ops lib (removeConfirm unknown yes) v a) of
             None \<Rightarrow> (failed, None)
           | Some ops \<Rightarrow> editMany lib val ops)
      | _ \<Rightarrow> (failed, None))"

end
