(* ===== verification/RecipeRequests.thy ===== *)
theory RecipeRequests
  imports RecipeBuilder
begin

text \<open>
  The requests of the recipe form (\<open>features/connectors/RecipeBuilder.tsx\<close>): a batch of edits is
  applied as a whole or not at all, and no control removes what the form cannot show without
  asking. The second is read off the format table: what is removed without a question is a field
  with nothing below it.
\<close>

subsection \<open>Batches\<close>

text \<open>One text comes from another by one edit.\<close>

definition edited :: "ylib \<Rightarrow> string \<Rightarrow> string \<Rightarrow> bool" where
  "edited lib s t \<longleftrightarrow> (\<exists>op. editRecipeDocument lib s op = Ok t)"

lemma edited_step: "editRecipeDocument lib s op = Ok t \<Longrightarrow> (edited lib)\<^sup>*\<^sup>* s t"
  by (rule r_into_rtranclp) (auto simp: edited_def)

lemma edited_reads:
  assumes "editRecipeDocument lib s op = Ok t" "s \<noteq> t"
  shows "pr_error (parseRecipeDocument lib s) = None \<and> pr_error (parseRecipeDocument lib t) = None"
  using assms(1)
proof (cases rule: edit_cases)
  case (changed rootn op' path v expected)
  have "pr_error (parseRecipeDocument lib s) = None"
    using changed(1) by (auto simp: edit_steps_def editable_root_def Let_def split: option.splits if_splits)
  moreover have "pr_error (parseRecipeDocument lib t) = None"
    using finish_edit_Ok [OF changed(2)] by (simp add: readsAs_def Let_def)
  ultimately show ?thesis ..
qed (use assms(2) in simp)

lemma run_edit_edited: "run_edit lib s op = Ok t \<Longrightarrow> (edited lib)\<^sup>*\<^sup>* s t"
  by (auto simp: run_edit_def bind_result_Inr_iff split: edit_op.splits if_splits
      intro: edited_step rtranclp_trans [of "edited lib"])

lemma run_edits_edited: "run_edits lib s ops = Ok t \<Longrightarrow> (edited lib)\<^sup>*\<^sup>* s t"
  by (induction ops arbitrary: s) (auto simp: bind_result_Inr_iff intro: rtranclp_trans run_edit_edited)

lemma edited_parses: "(edited lib)\<^sup>*\<^sup>* s t \<Longrightarrow> s \<noteq> t \<Longrightarrow>
    pr_error (parseRecipeDocument lib s) = None \<and> pr_error (parseRecipeDocument lib t) = None"
proof (induction rule: rtranclp_induct)
  case (step t u)
  obtain op where op: "editRecipeDocument lib t op = Ok u" using step(2) by (auto simp: edited_def)
  show ?case
  proof (cases "t = u")
    case False
    then show ?thesis using step edited_reads [OF op] by (cases "s = t") auto
  qed (use step in auto)
qed simp

text \<open>
  What a batch means, edit by edit, with the edits of the document alone: a delete of what is not
  there does nothing, an append to a list that is not there makes an empty list first, and every
  other edit is the edit of the document. There is no rule for an edit the document refuses.
\<close>

inductive applied :: "ylib \<Rightarrow> string \<Rightarrow> edit_op \<Rightarrow> string \<Rightarrow> bool" for lib where
  nothing_there: "absent lib s path \<Longrightarrow> applied lib s (Delete_op path) s"
| list_made: "absent lib s path \<Longrightarrow> editRecipeDocument lib s (Set_op path (JArr [])) = Ok m \<Longrightarrow>
    editRecipeDocument lib m (Append_op path v) = Ok t \<Longrightarrow> applied lib s (Append_op path v) t"
| the_edit: "(\<forall>path. op = Delete_op path \<or> (\<exists>v. op = Append_op path v) \<longrightarrow> \<not> absent lib s path) \<Longrightarrow>
    editRecipeDocument lib s op = Ok t \<Longrightarrow> applied lib s op t"

inductive applied_all :: "ylib \<Rightarrow> string \<Rightarrow> edit_op list \<Rightarrow> string \<Rightarrow> bool" for lib where
  all_done: "applied_all lib s [] s"
| one_more: "applied lib s op t \<Longrightarrow> applied_all lib t ops u \<Longrightarrow> applied_all lib s (op # ops) u"

inductive_simps applied_simps:
  "applied lib s (Delete_op path) t" "applied lib s (Append_op path v) t" "applied lib s (Set_op path v) t"
  "applied lib s (Rename_op path new) t" "applied lib s (Remove_op path i) t" "applied lib s (Move_op path i j) t"
  "applied lib s (Block_op path b) t"

inductive_simps applied_all_simps: "applied_all lib s [] t" "applied_all lib s (op # ops) t"

lemma run_edit_applied: "run_edit lib s op = Ok t \<longleftrightarrow> applied lib s op t"
  by (cases op) (auto simp: run_edit_def applied_simps bind_result_Inr_iff)

lemma run_edits_applied: "run_edits lib s ops = Ok t \<longleftrightarrow> applied_all lib s ops t"
  by (induction ops arbitrary: s) (auto simp: applied_all_simps bind_result_Inr_iff run_edit_applied)

lemma Throw_iff: "(\<exists>e. r = Throw e) \<longleftrightarrow> \<not> (\<exists>t. r = Ok t)"
  by (cases r) simp_all

text \<open>
  Claim C3. A batch of edits is applied as a whole or not at all. It fails exactly when there is no text that
  all its edits, one after the other, lead to: when any one of them is refused by the document,
  the others are not applied either, nothing is handed on and the failure is shown. Otherwise the
  text handed on is the one all edits lead to; nothing is handed on only if that is the recipe
  itself. A text handed on comes from the recipe by edits of the document alone and parses without
  errors, as the recipe did.
\<close>

theorem batch_all_or_nothing:
  "(case editMany lib val ops of (failed, emitted) \<Rightarrow>
      (failed \<longleftrightarrow> \<not> (\<exists>out. applied_all lib val ops out)) \<and> (failed \<longrightarrow> emitted = None)
      \<and> (failed \<longleftrightarrow> (\<exists>e. run_edits lib val ops = Throw e))
      \<and> (\<not> failed \<longrightarrow> applied_all lib val ops (from_opt val emitted))
      \<and> (\<forall>out. emitted = Some out \<longrightarrow> out \<noteq> val \<and> (edited lib)\<^sup>*\<^sup>* val out
           \<and> pr_error (parseRecipeDocument lib val) = None \<and> pr_error (parseRecipeDocument lib out) = None))"
proof (cases "run_edits lib val ops")
  case (Inr out)
  then show ?thesis using run_edits_edited [OF Inr] edited_parses [of lib val out]
    by (auto simp: editMany_def run_edits_applied [symmetric])
qed (simp add: editMany_def run_edits_applied [symmetric])

text \<open>At concrete inputs: an edit that is applied, and a good edit kept back since the one after it is refused.\<close>

lemma batch_all_or_nothing_witness:
  "applied_all one_lib (''a: x'' @ [NL]) [Set_op (Dotted ''a'') (JStr ''y'')] (''a: y'' @ [NL])
   \<and> \<not> (\<exists>out. applied_all one_lib (''a: x'' @ [NL]) [Set_op (Dotted ''a'') (JStr ''y''), Set_op (Dotted ''a.b'') (JStr ''z'')] out)"
proof -
  have good: "editMany one_lib (''a: x'' @ [NL]) [Set_op (Dotted ''a'') (JStr ''y'')] = (False, Some (''a: y'' @ [NL]))"
    by code_simp
  have refused: "editMany one_lib (''a: x'' @ [NL]) [Set_op (Dotted ''a'') (JStr ''y''), Set_op (Dotted ''a.b'') (JStr ''z'')] = (True, None)"
    by code_simp
  show ?thesis
    using batch_all_or_nothing [of one_lib "''a: x'' @ [NL]" "[Set_op (Dotted ''a'') (JStr ''y'')]"]
      batch_all_or_nothing [of one_lib "''a: x'' @ [NL]" "[Set_op (Dotted ''a'') (JStr ''y''), Set_op (Dotted ''a.b'') (JStr ''z'')]"]
    unfolding good refused by simp
qed

subsection \<open>What the form removes\<close>

lemma leaf_walk: "f_item f = None \<Longrightarrow> fst (field_walk None (Some f) ss) = None"
proof (induction ss)
  case (Cons s ss)
  then show ?case by (cases s) auto
qed simp

text \<open>A field without a format below it.\<close>

definition leaf_at :: "segment list \<Rightarrow> bool" where
  "leaf_at path \<longleftrightarrow> (case fieldAt path of (None, Some f) \<Rightarrow> f_item f = None | _ \<Rightarrow> False)"

lemma leaf_at_below: "leaf_at path \<Longrightarrow> isPrefix path q \<Longrightarrow> fst (fieldAt q) = None"
  by (auto simp: leaf_at_def isPrefix_def prefix_def fieldAt_def field_walk_append leaf_walk split: prod.splits option.splits)

lemma reports_not_below_leaf:
  assumes "leaf_at path" "u \<in> set (unknownRecipeKeys lib document)"
  shows "\<not> isPrefix path (un_path u)"
proof -
  have "agrees (As_node (Some recipeFormat) [])" by (simp add: agrees_def fieldAt_def)
  then have "exact_report lib u"
    using assms(2) visit_unknown_exact
    by (auto simp: unknownRecipeKeys_def simp del: visit_unknown.simps split: option.splits ynode.splits)
  then show ?thesis using leaf_at_below [OF assms(1)] by (auto simp: exact_report_def)
qed

fun removes :: "edit_op \<Rightarrow> segment list option" where
  "removes (Delete_op (Segments p)) = Some p"
| "removes (Remove_op (Segments p) i) = Some (p @ [Index (nat i)])"
| "removes _ = None"

text \<open>A removal is fine when the user confirmed it or the format has nothing below.\<close>

definition safe_ops :: "(segment list \<Rightarrow> bool) \<Rightarrow> edit_op list \<Rightarrow> bool" where
  "safe_ops confirmed ops \<longleftrightarrow> (\<forall>op \<in> set ops. \<forall>p. removes op = Some p \<longrightarrow> confirmed p \<or> leaf_at p)"

definition safe_request :: "(segment list \<Rightarrow> bool) \<Rightarrow> request \<Rightarrow> bool" where
  "safe_request confirmed r \<longleftrightarrow> (case r of None \<Rightarrow> True | Some ops \<Rightarrow> safe_ops confirmed ops)"

lemma safe_simps [simp]:
  "safe_ops confirmed []"
  "safe_ops confirmed (op # ops) \<longleftrightarrow> (\<forall>p. removes op = Some p \<longrightarrow> confirmed p \<or> leaf_at p) \<and> safe_ops confirmed ops"
  "safe_request confirmed None"
  "safe_request confirmed (Some ops) = safe_ops confirmed ops"
  by (auto simp: safe_ops_def safe_request_def)

lemma safe_if: "safe_request confirmed (if b then r else s) \<longleftrightarrow> (if b then safe_request confirmed r else safe_request confirmed s)"
  by simp

lemma safe_set_or_delete: "leaf_at path \<Longrightarrow> safe_request confirmed (set_or_delete path new)"
  by (simp add: set_or_delete_def)

lemma safe_number: "leaf_at path \<Longrightarrow> safe_request confirmed (number_request path new)"
  by (cases "js_number new") (simp_all add: number_request_def)

lemma safe_rename: "safe_request confirmed (rename_request ms path key new)"
  by (simp add: rename_request_def)

lemma safe_scalar: "safe_request confirmed (set_scalar lib path v a)"
  by (cases "scalar_change lib v a") (simp_all add: set_scalar_def)

lemma safe_string_map: "leaf_at path \<Longrightarrow> safe_request confirmed (string_map_ops confirmed path ms a)"
  by (cases a) (simp_all add: string_map_ops_def safe_rename)

lemma safe_body: "leaf_at path \<Longrightarrow> safe_request confirmed (body_ops lib path v draft)"
  by (simp add: body_ops_def)

lemmas safe_intros = safe_set_or_delete safe_number safe_rename safe_scalar safe_string_map safe_body

lemma fieldAt_append: "fieldAt (p @ q) = (case fieldAt p of (a, b) \<Rightarrow> field_walk a b q)"
  by (simp add: fieldAt_def field_walk_append)

text \<open>The places of the format the form edits.\<close>

definition at_node :: "format_node \<Rightarrow> segment list \<Rightarrow> bool" where
  "at_node fmt path \<longleftrightarrow> fst (fieldAt path) = Some fmt \<and> Option.bind (snd (fieldAt path)) f_kind \<noteq> Some K_dynamic"

definition leaf_keys :: "format_node \<Rightarrow> string list" where
  "leaf_keys fmt = map fst (filter (\<lambda>(k, f). f_item f = None) fmt)"

lemma leaf_key: "at_node fmt path \<Longrightarrow> distinct (map fst fmt) \<Longrightarrow> k \<in> set (leaf_keys fmt) \<Longrightarrow> leaf_at (path @ [Key k])"
  by (cases "fieldAt path") (auto simp: at_node_def leaf_keys_def leaf_at_def fieldAt_append field_of_def)
 
lemma leaf_snoc2: "at_node fmt path \<Longrightarrow> distinct (map fst fmt) \<Longrightarrow> k \<in> set (leaf_keys fmt) \<Longrightarrow> p = path @ [Key k] \<Longrightarrow> leaf_at p"
  by (simp add: leaf_key)

lemma at_item: "fieldAt path = (Some fmt, Some f) \<Longrightarrow> f_kind f = Some K_sequence \<Longrightarrow> f_item f = Some fmt \<Longrightarrow> at_node fmt (path @ [Index i])"
  by (simp add: at_node_def fieldAt_append)

lemma at_endpoint: "at_node endpoint_format [Key ''endpoints'', Index i]"
  by (simp add: at_node_def fieldAt_def field_of_def recipeFormat_def sequence_field_def)

lemma at_pagination: "at_node pagination_format [Key ''endpoints'', Index i, Key ''pagination'']"
  by (simp add: at_node_def fieldAt_def field_of_def recipeFormat_def sequence_field_def mapping_field_def endpoint_format_def)

lemma at_entity: "at_node entity_format [Key ''endpoints'', Index i, Key ''entity'']"
  by (simp add: at_node_def fieldAt_def field_of_def recipeFormat_def sequence_field_def mapping_field_def endpoint_format_def)

lemma at_attribute: "at_node attribute_format [Key ''endpoints'', Index i, Key ''entity'', Key ''attributes'', Key name]"
  by (simp add: at_node_def fieldAt_def field_of_def recipeFormat_def sequence_field_def mapping_field_def endpoint_format_def
      entity_format_def dynamic_of_def)

lemma at_entity_action: "at_node action_format [Key ''endpoints'', Index i, Key ''entity'', Key ''actions'', Key name]"
  by (simp add: at_node_def fieldAt_def field_of_def recipeFormat_def sequence_field_def mapping_field_def endpoint_format_def
      entity_format_def dynamic_of_def actions_field_def)

lemma at_action: "at_node action_format [Key ''actions'', Key name]"
  by (simp add: at_node_def fieldAt_def field_of_def recipeFormat_def dynamic_of_def actions_field_def)

lemma at_dependency: "at_node dependency_format [Key ''dependencies'', Index i]"
    "at_node dependency_format [Key ''endpoints'', Index j, Key ''dependencies'', Index i]"
  by (simp_all add: at_node_def fieldAt_def field_of_def recipeFormat_def sequence_field_def mapping_field_def endpoint_format_def)

lemma leaf_auth: "leaf_at [Key ''auth'', Key ''name'']" "leaf_at [Key ''auth'', Key ''prefix'']"
  by (simp_all add: leaf_at_def fieldAt_def field_of_def recipeFormat_def mapping_field_def string_field_def)

lemma pagination_leaf: "distinct (map fst pagination_format)" "set paginationOwnedFields \<subseteq> set (leaf_keys pagination_format)"
  by (simp_all add: pagination_format_def leaf_keys_def paginationOwnedFields_def string_field_def scalar_field_def)

lemma attribute_leaf: "distinct (map fst attribute_format)" "leaf_keys attribute_format = [''path'', ''const'', ''template'', ''type'', ''map'', ''default'']"
  by (simp_all add: attribute_format_def leaf_keys_def string_field_def scalar_field_def dynamic_values_def)

lemma action_leaf: "distinct (map fst action_format)"
    "leaf_keys action_format = [''method'', ''path'', ''query'', ''headers'', ''body'', ''label'', ''description'', ''downtime_seconds'']"
  by (simp_all add: action_format_def leaf_keys_def string_field_def scalar_field_def dynamic_values_def block_field_def)

lemma dependency_leaf: "distinct (map fst dependency_format)" "leaf_keys dependency_format = [''kind'', ''path'', ''const'']"
  by (simp_all add: dependency_format_def leaf_keys_def string_field_def scalar_field_def)

lemma endpoint_leaf: "distinct (map fst endpoint_format)"
    "set [''query'', ''headers'', ''body''] \<subseteq> set (leaf_keys endpoint_format)"
  by (simp_all add: endpoint_format_def leaf_keys_def string_field_def dynamic_values_def block_field_def)

lemma pagination_key: "at_node pagination_format path \<Longrightarrow> f \<in> set paginationOwnedFields \<Longrightarrow> leaf_at (path @ [Key f])"
  using leaf_key [OF _ pagination_leaf(1)] pagination_leaf(2) by blast

lemma attribute_key: "at_node attribute_format path \<Longrightarrow> k \<in> {''path'', ''const'', ''template'', ''type'', ''map'', ''default''} \<Longrightarrow> leaf_at (path @ [Key k])"
  using leaf_key [OF _ attribute_leaf(1), of path k] by (simp add: attribute_leaf(2))

lemma action_key: "at_node action_format path \<Longrightarrow>
    k \<in> {''query'', ''headers'', ''body'', ''label'', ''description'', ''downtime_seconds''} \<Longrightarrow> leaf_at (path @ [Key k])"
  using leaf_key [OF _ action_leaf(1), of path k] by (auto simp: action_leaf(2))

lemma dependency_key: "at_node dependency_format path \<Longrightarrow> k \<in> {''path'', ''const''} \<Longrightarrow> leaf_at (path @ [Key k])"
  using leaf_key [OF _ dependency_leaf(1), of path k] by (auto simp: dependency_leaf(2))

lemma endpoint_key: "at_node endpoint_format path \<Longrightarrow> k \<in> {''query'', ''headers'', ''body''} \<Longrightarrow> leaf_at (path @ [Key k])"
  using leaf_key [OF _ endpoint_leaf(1), of path k] endpoint_leaf(2) by auto

lemma safe_style: "at_node pagination_format path \<Longrightarrow> safe_request confirmed (style_ops confirmed path new)"
  by (auto simp: style_ops_def safe_ops_def intro: pagination_key)

lemma page_fields_owned:
  "f \<in> set (page_texts style ms) \<Longrightarrow> f \<in> set paginationOwnedFields"
  "f \<in> set (page_numbers style) \<Longrightarrow> f \<in> set paginationOwnedFields"
  by (auto simp: page_texts_def page_numbers_def paginationOwnedFields_def split: if_splits)

lemma safe_pagination:
  assumes "at_node pagination_format path"
  shows "safe_request confirmed (pagination_ops lib confirmed path ms a)"
proof (cases a)
  case (Tick_link_header c)
  have "''next_path'' \<in> set paginationOwnedFields" "''link_header'' \<in> set paginationOwnedFields"
    by (simp_all add: paginationOwnedFields_def)
  then show ?thesis using Tick_link_header pagination_key [OF assms] by (simp add: pagination_ops_def Let_def)
qed (use assms in \<open>auto simp: pagination_ops_def Let_def
    intro!: safe_style safe_set_or_delete safe_number pagination_key dest: page_fields_owned\<close>)

lemma safe_attribute:
  assumes at: "at_node attribute_format (path @ [Key name])"
  shows "safe_request confirmed (attribute_ops lib confirmed path ms name attribute vm a)"
proof -
  have "leaf_at (path @ [Key name, Key k])" if "k \<in> {''path'', ''const'', ''template'', ''type'', ''map'', ''default''}" for k
    using attribute_key [OF at that] by simp
  then show ?thesis
    by (cases a) (auto simp: attribute_ops_def Let_def switch_source_def intro!: safe_set_or_delete safe_rename safe_scalar)
qed

lemma safe_dependency:
  assumes "\<And>i. at_node dependency_format (path @ [Index i])"
  shows "safe_request confirmed (dependency_ops lib confirmed path es a)"
proof -
  have "leaf_at (path @ [Index i, Key k])" if "k \<in> {''path'', ''const''}" for k i
    using dependency_key [OF assms that] by simp
  then show ?thesis by (cases a) (auto simp: dependency_ops_def Let_def)
qed

lemma safe_row:
  assumes at: "at_node action_format (path @ [Key name])"
  shows "safe_request confirmed (action_row_ops lib confirmed path ms name a)"
proof -
  have "leaf_at (path @ [Key name, Key k])"
    if "k \<in> {''query'', ''headers'', ''body'', ''label'', ''description'', ''downtime_seconds''}" for k
    using action_key [OF at that] by simp
  then show ?thesis
    by (cases a) (auto simp: action_row_ops_def Let_def intro!: safe_intros)
qed

lemma safe_actions:
  assumes "\<And>name. at_node action_format (path @ [Key name])"
  shows "safe_request confirmed (actions_ops lib confirmed path ms a)"
  using safe_row [OF assms] by (cases a) (auto simp: actions_ops_def)

lemma safe_endpoint: "safe_request confirmed (endpoint_ops lib confirmed v i n ms a)"
proof (cases a)
  case (Attribute name aa)
  then show ?thesis using safe_attribute [of "[Key ''endpoints'', Index i, Key ''entity'', Key ''attributes'']" name] at_attribute [of i name]
    by (simp add: endpoint_ops_def Let_def)
next
  case (Pagination pa)
  then show ?thesis using safe_pagination [OF at_pagination [of i]] by (simp add: endpoint_ops_def Let_def)
next
  case (Entity_actions ca)
  then show ?thesis using safe_actions [of "[Key ''endpoints'', Index i, Key ''entity'', Key ''actions'']"] at_entity_action [of i]
    by (simp add: endpoint_ops_def Let_def)
next
  case (Endpoint_dependencies da)
  then show ?thesis using safe_dependency [of "[Key ''endpoints'', Index i, Key ''dependencies'']"] at_dependency(2) [of i]
    by (simp add: endpoint_ops_def Let_def)
qed (use endpoint_key [OF at_endpoint [of i]] in \<open>auto simp: endpoint_ops_def Let_def intro!: safe_string_map safe_body\<close>)

lemma safe_form: "safe_request confirmed (form_ops lib confirmed v a)"
proof (cases a)
  case (Endpoint i ea)
  then show ?thesis using safe_endpoint by (simp add: form_ops_def Let_def)
next
  case (Recipe_dependencies da)
  then show ?thesis using safe_dependency [of "[Key ''dependencies'']"] at_dependency(1) by (simp add: form_ops_def Let_def)
next
  case (Service_actions ca)
  then show ?thesis using safe_actions [of "[Key ''actions'']"] at_action by (simp add: form_ops_def Let_def)
qed (simp_all add: form_ops_def Let_def auth_mode_ops_def leaf_auth)

text \<open>
  Claim C4. No control removes what the form cannot show without asking: where the user does not confirm, no
  operation of any request deletes or removes a part of the recipe at or below which there are keys
  the form does not know.
\<close>

theorem unknown_keys_kept:
  assumes "form_ops lib (removeConfirm unknown yes) v a = Some ops" and "op \<in> set ops" and "removes op = Some p"
    and "unknown = unknownRecipeKeys lib document" and "\<not> yes"
  shows "list_all (\<lambda>u. \<not> isPrefix p (un_path u)) unknown"
proof -
  have "safe_ops (removeConfirm unknown yes) ops" using safe_form [of "removeConfirm unknown yes" lib v a] assms(1) by simp
  then have "\<not> hasUnknownBelow unknown p \<or> leaf_at p"
    using assms(2,3,5) by (auto simp: safe_ops_def removeConfirm_def)
  then show ?thesis
    using reports_not_below_leaf [of p _ lib document] assms(4) by (auto simp: hasUnknownBelow_def list_all_iff list_ex_iff)
qed

definition odd_document :: ydoc where
  "odd_document = \<lparr>dc_contents = Some (YMap None None False [(Some (YScalar None None True (JStr ''extra'')), None)]),
     dc_errors = [], dc_start = None\<rparr>"

lemma unknown_keys_kept_witness:
  "list_all (\<lambda>u. \<not> isPrefix [Key ''actions'', Key ''restart''] (un_path u)) (unknownRecipeKeys one_lib (Some odd_document))"
proof -
  define v where "v = Val (JObj [(''actions'', JObj [(''restart'', JObj [])])])"
  have "form_ops one_lib (removeConfirm (unknownRecipeKeys one_lib (Some odd_document)) False) v
      (Service_actions (Action ''restart'' Remove_action)) = Some [Delete_at [Key ''actions'', Key ''restart'']]"
    unfolding v_def by code_simp
  from unknown_keys_kept [OF this _ _ refl] show ?thesis by simp
qed

end
