(* ===== verification/RecipeSwitch.thy ===== *)
theory RecipeSwitch
  imports RecipeRequests
begin

text \<open>
  What the requests of the recipe form achieve (\<open>features/connectors/RecipeBuilder.tsx\<close>): new
  entries get names that are free, a switch of style, mode or source leaves none of the other
  fields behind, and what happens to a name without a value. The batch is followed through the
  editor of the document down to what is relied on of the \<open>yaml\<close> package.
\<close>

subsection \<open>Fresh names\<close>

lemma suffixed_inj: "base @ ''_'' @ show_nat i = base @ ''_'' @ show_nat j \<longleftrightarrow> i = j"
  by (auto dest: arg_cong [where f = nat_of_digits] simp: show_nat_ok)

lemma unique_from_free:
  "\<exists>i. index \<le> i \<and> i \<le> index + fuel \<and> \<not> has_prop ms (base @ ''_'' @ show_nat i) \<Longrightarrow> \<not> has_prop ms (unique_from fuel ms base index)"
proof (induction fuel arbitrary: index)
  case (Suc fuel)
  show ?case
  proof (cases "has_prop ms (base @ ''_'' @ show_nat index)")
    case True
    obtain i where i: "index \<le> i" "i \<le> index + Suc fuel" "\<not> has_prop ms (base @ ''_'' @ show_nat i)" using Suc.prems by blast
    with True have "index \<noteq> i" by auto
    with i have "\<exists>i. index + 1 \<le> i \<and> i \<le> index + 1 + fuel \<and> \<not> has_prop ms (base @ ''_'' @ show_nat i)"
      by (intro exI [of _ i]) auto
    then show ?thesis using Suc.IH True by simp
  qed simp
qed auto

lemma some_suffix_free: "\<exists>i. index \<le> i \<and> i \<le> index + (length ms + length object_prototype) \<and> \<not> has_prop ms (base @ ''_'' @ show_nat i)"
proof (rule ccontr)
  let ?n = "length ms + length object_prototype"
  assume "\<not> ?thesis"
  then have "(\<lambda>i. base @ ''_'' @ show_nat i) ` {index..index + ?n} \<subseteq> set (map fst ms @ object_prototype)"
    by (auto simp: has_prop_def key_in_def)
  then have "card ((\<lambda>i. base @ ''_'' @ show_nat i) ` {index..index + ?n}) \<le> card (set (map fst ms @ object_prototype))"
    by (rule card_mono [OF finite_set])
  also have "\<dots> \<le> ?n" using card_length [of "map fst ms @ object_prototype"] by simp
  moreover have "inj_on (\<lambda>i. base @ ''_'' @ show_nat i) {index..index + ?n}"
    unfolding inj_on_def using suffixed_inj [of base] by blast
  ultimately show False by (simp add: card_image)
qed

lemma uniqueName_free: "\<not> has_prop ms (uniqueName ms base)"
  using unique_from_free [OF some_suffix_free] by (simp add: uniqueName_def)

text \<open>
  A new entry never takes the place of another. The name the form proposes is not a member of the
  object, own or inherited, however many entries are there; the same holds for the name of a new
  action, and the name of a new endpoint differs from the names of all endpoints.
\<close>

theorem new_names_fresh:
  "\<not> has_prop ms (uniqueName ms base) \<and> the_prop ms (uniqueName ms base) = Undefined
    \<and> \<not> has_prop ms (new_action_name ms)
    \<and> (case the_prop (record_of (Val (newEndpoint lib endpoints))) ''name'' of
         Val (JStr n) \<Rightarrow> n \<notin> set (map (\<lambda>e. text_or_empty lib (the_prop (record_of (Val e)) ''name'')) endpoints)
       | _ \<Rightarrow> False)"
proof (intro conjI)
  show "the_prop ms (uniqueName ms base) = Undefined"
    using uniqueName_free [of ms base] by (auto simp: the_prop_def has_prop_def key_in_def map_of_eq_None_iff split: option.splits)
  show "\<not> has_prop ms (new_action_name ms)"
    using uniqueName_free [of ms "''action''"] by (auto simp: new_action_name_def find_Some_iff split: option.splits)
  let ?names = "map (\<lambda>e. (text_or_empty lib (the_prop (record_of (Val e)) ''name''), JBool True)) endpoints"
  have "uniqueName ?names ''endpoint'' \<notin> set (map fst ?names)" using uniqueName_free [of ?names] by (auto simp: has_prop_def key_in_def)
  then show "case the_prop (record_of (Val (newEndpoint lib endpoints))) ''name'' of
         Val (JStr n) \<Rightarrow> n \<notin> set (map (\<lambda>e. text_or_empty lib (the_prop (record_of (Val e)) ''name'')) endpoints)
       | _ \<Rightarrow> False"
    by (simp add: newEndpoint_def Let_def the_prop_def record_of_def comp_def)
qed (rule uniqueName_free)

lemma retype_type: "new \<in> {''null'', ''string'', ''boolean'', ''number''} \<Longrightarrow> \<exists>w. retype lib v new = Some w \<and> scalarType (Val w) = new"
  by (auto simp: retype_def scalarType_def)

subsection \<open>What a switch leaves\<close>

text \<open>Whether a value has something at a path of names; list indices are names, too.\<close>

fun present :: "string list \<Rightarrow> json \<Rightarrow> bool" where
  "present [] v = True"
| "present (k # ks) (JObj ms) = (case map_of ms k of None \<Rightarrow> False | Some w \<Rightarrow> present ks w)"
| "present (k # ks) (JArr xs) = (case array_index k of Some i \<Rightarrow> i < length xs \<and> present ks (xs ! i) | None \<Rightarrow> False)"
| "present _ _ = False"

lemma map_of_map_prod: "map_of (map (map_prod (\<lambda>k. k) f) ms) k = map_option f (map_of ms k)"
  by (induction ms) auto

lemma present_emptyAsNull: "present ks (emptyAsNull v) = present ks v"
proof (induction ks v rule: present.induct)
  case (2 k ks ms)
  then show ?case by (auto simp: map_of_map_prod split: option.splits)
qed (auto split: option.splits)

definition texts :: "segment list \<Rightarrow> string list" where
  "texts p = map segment_text p"

definition present_in :: "ylib \<Rightarrow> string \<Rightarrow> segment list \<Rightarrow> bool" where
  "present_in lib s p \<longleftrightarrow> (case document_value lib s of Val j \<Rightarrow> present (texts p) j | _ \<Rightarrow> False)"

lemma present_get: "present ks j \<Longrightarrow> \<exists>w. foldl get_prop (Val j) ks = Val w"
  by (induction ks j rule: present.induct) (auto split: option.splits)

lemma absent_not_present: "absent lib s (Segments p) \<Longrightarrow> \<not> present_in lib s p"
  by (auto simp: absent_def present_in_def valueAtPath_def pathSegments_def texts_def foldl_map dest!: present_get split: js.splits)

text \<open>Two paths that part where the first one has a name.\<close>

fun key_apart :: "segment list \<Rightarrow> segment list \<Rightarrow> bool" where
  "key_apart (s # ss) (t # ts) = (if segment_text s = segment_text t then key_apart ss ts
     else (case s of Key k \<Rightarrow> True | Index n \<Rightarrow> False))"
| "key_apart _ _ = False"

definition plain_names :: "string list" where
  "plain_names = paginationOwnedFields @ [''name'', ''prefix'', ''path'', ''const'', ''template'']"

text \<open>
  What is relied on of the \<open>yaml\<close> package: an empty document reads as an empty object; \<open>setIn\<close>
  puts the value at the path and creates nothing beside it; \<open>deleteIn\<close> of a name removes it and
  creates nothing.
\<close>

definition yaml_contract :: "ylib \<Rightarrow> bool" where
  "yaml_contract lib \<longleftrightarrow> lib_toJS lib (Some (lib_empty lib)) = JObj []
   \<and> (\<forall>p v n m. lib_setIn lib p v n = Ok m \<longrightarrow>
        (\<forall>q. key_apart p q \<longrightarrow> present (texts q) (lib_toJS lib (Some m)) \<longrightarrow> present (texts q) (lib_toJS lib (Some n)))
        \<and> (\<forall>r. present (texts p @ r) (lib_toJS lib (Some m)) \<longrightarrow> present r v))
   \<and> (\<forall>p k n m. k \<in> set plain_names \<longrightarrow> lib_deleteIn lib (p @ [Key k]) n = Ok m \<longrightarrow>
        \<not> present (texts (p @ [Key k])) (lib_toJS lib (Some m))
        \<and> (\<forall>q. present (texts q) (lib_toJS lib (Some m)) \<longrightarrow> present (texts q) (lib_toJS lib (Some n))))"

lemma root_present:
  assumes "yaml_contract lib" "editable_root lib s = Ok n" "p \<noteq> []" "present (texts p) (lib_toJS lib (Some n))"
  shows "present_in lib s p"
proof -
  have "\<not> present (texts p) (JObj [])" using assms(3) by (cases p) (simp_all add: texts_def)
  then have ne: "n \<noteq> lib_empty lib" using assms(1,4) by (auto simp: yaml_contract_def)
  have "n = from_opt (lib_empty lib) (Option.bind (pr_document (parseRecipeDocument lib s)) dc_contents)"
    using assms(2) by (auto simp: editable_root_def Let_def split: option.splits if_splits)
  with ne obtain d where "pr_document (parseRecipeDocument lib s) = Some d" "dc_contents d = Some n"
    by (cases "pr_document (parseRecipeDocument lib s)"; cases "Option.bind (pr_document (parseRecipeDocument lib s)) dc_contents") auto
  then show ?thesis using assms(4) by (simp add: present_in_def document_value_def)
qed

lemma reads_present:
  assumes "readsAs lib t m" "present_in lib t p"
  shows "present (texts p) (lib_toJS lib (Some m))"
proof -
  obtain d where d: "pr_document (parseRecipeDocument lib t) = Some d" "present (texts p) (lib_toJS lib (dc_contents d))"
    using assms(2) by (auto simp: present_in_def document_value_def split: option.splits)
  then have "emptyAsNull (lib_toJS lib (dc_contents d)) = emptyAsNull (lib_toJS lib (Some m))"
    using assms(1) by (simp add: readsAs_def sameValue_def Let_def)
  then show ?thesis using d(2) present_emptyAsNull by metis
qed

lemma nest_absent: "key_apart q p \<Longrightarrow> nest_keys q w = Some v \<Longrightarrow> \<not> present (texts p) v"
  by (induction q p arbitrary: v rule: key_apart.induct) (auto simp: texts_def split: segment.splits if_splits)

lemma lifted_apart:
  "key_apart q p \<Longrightarrow> nest_keys (drop d q) w = Some v \<Longrightarrow>
     key_apart (take d q) p \<or> (\<exists>r. texts p = texts (take d q) @ texts r \<and> \<not> present (texts r) v)"
proof (induction d arbitrary: q p)
  case 0
  then show ?case using nest_absent by (auto simp: texts_def)
next
  case (Suc d)
  then obtain s ss t ts where qp: "q = s # ss" "p = t # ts" by (cases q; cases p) auto
  show ?case
  proof (cases "segment_text s = segment_text t")
    case True
    then show ?thesis using Suc.IH [of ss ts] Suc.prems qp by (auto simp: texts_def)
  qed (use Suc.prems qp in \<open>auto split: segment.splits\<close>)
qed

lemma set_spares:
  assumes lib: "yaml_contract lib" and edit: "editRecipeDocument lib s (Set_at q w) = Ok t"
    and apart: "key_apart q p" and there: "present_in lib t p"
  shows "present_in lib s p"
  using edit
proof (cases rule: edit_cases)
  case (changed rootn op path v expected)
  have ne: "p \<noteq> []" using apart by (cases q) auto
  obtain req where lift: "liftNullAncestor lib rootn (Set_at q w) q w = (op, path, v)"
    and m: "mutate lib rootn op path v = Ok (Some expected)" and root: "editable_root lib s = Ok rootn"
    using changed(1) by (auto simp: edit_steps_def requested_value_def pathSegments_def)
  have set: "lib_setIn lib path v rootn = Ok expected" and path: "path = q \<and> v = w \<or> (\<exists>d. path = take d q \<and> nest_keys (drop d q) w = Some v)"
    using lift m by (auto simp: liftNullAncestor_def Let_def mutate_def split: option.splits sum.splits)
  have e: "present (texts p) (lib_toJS lib (Some expected))"
    using finish_edit_Ok [OF changed(2)] reads_present ne there by blast
  have "present (texts p) (lib_toJS lib (Some rootn))"
  proof (cases "key_apart path p")
    case True
    then show ?thesis using lib set e unfolding yaml_contract_def by blast
  next
    case False
    then obtain r where "texts p = texts path @ texts r" "\<not> present (texts r) v"
      using path apart lifted_apart [OF apart] by metis
    then show ?thesis using lib set e unfolding yaml_contract_def by metis
  qed
  then show ?thesis using root_present [OF lib root ne] by simp
qed (use there in simp)

text \<open>
  A name that stands in a mapping without a value, as in \<open>{ size }\<close>: it reads as null, but there is
  no node at its path.
\<close>

definition bare_key :: "ylib \<Rightarrow> string \<Rightarrow> segment list \<Rightarrow> bool" where
  "bare_key lib s p \<longleftrightarrow> present_in lib s p \<and> (\<exists>n. editable_root lib s = Ok n \<and> getNode lib (Some n) p = None)"

lemma delete_edit_cases:
  assumes "editRecipeDocument lib s (Delete_at p) = Ok t"
  shows "(\<exists>n. editable_root lib s = Ok n \<and> (t = s \<and> getNode lib (Some n) p = None
      \<or> (\<exists>m. lib_deleteIn lib p n = Ok m \<and> readsAs lib t m)))"
  using assms finish_edit_Ok
  by (auto simp: editRecipeDocument_def requested_value_def liftNullAncestor_def Let_def pathSegments_def no_change_def mutate_def
      split: sum.splits if_splits)

lemma delete_removes:
  assumes lib: "yaml_contract lib" and run: "run_edit lib s (Delete_at (p @ [Key k])) = Ok t" and k: "k \<in> set plain_names"
  shows "(q \<noteq> [] \<and> present_in lib t q \<longrightarrow> present_in lib s q)
    \<and> (present_in lib t (p @ [Key k]) \<longrightarrow> bare_key lib s (p @ [Key k]))"
proof (cases "absent lib s (Segments (p @ [Key k]))")
  case True
  then show ?thesis using run absent_not_present [OF True] by (auto simp: run_edit_def)
next
  case False
  then have "editRecipeDocument lib s (Delete_at (p @ [Key k])) = Ok t" using run by (simp add: run_edit_def)
  from delete_edit_cases [OF this] obtain n where n: "editable_root lib s = Ok n"
    and c: "t = s \<and> getNode lib (Some n) (p @ [Key k]) = None \<or> (\<exists>m. lib_deleteIn lib (p @ [Key k]) n = Ok m \<and> readsAs lib t m)"
    by blast
  from c show ?thesis
  proof (elim disjE exE conjE)
    fix m assume "lib_deleteIn lib (p @ [Key k]) n = Ok m" and r: "readsAs lib t m"
    then have "\<not> present (texts (p @ [Key k])) (lib_toJS lib (Some m))"
      "present (texts q) (lib_toJS lib (Some m)) \<longrightarrow> present (texts q) (lib_toJS lib (Some n))"
      using lib k unfolding yaml_contract_def by blast+
    then show ?thesis using reads_present [OF r] root_present [OF lib n] by auto
  qed (use n in \<open>auto simp: bare_key_def\<close>)
qed

fun spares :: "segment list \<Rightarrow> edit_op \<Rightarrow> bool" where
  "spares p (Set_op (Segments q) v) = key_apart q p"
| "spares p (Delete_op (Segments q)) = (q \<noteq> [] \<and> (case last q of Key k \<Rightarrow> k \<in> set plain_names | Index n \<Rightarrow> False))"
| "spares p _ = False"

lemma spares_run:
  assumes "yaml_contract lib" "run_edit lib s op = Ok t" "spares p op" "p \<noteq> []" "present_in lib t p"
  shows "present_in lib s p"
proof (cases "(p, op)" rule: spares.cases)
  case (2 p' q)
  then obtain q' k where "q = q' @ [Key k]" "k \<in> set plain_names"
    using assms(3) by (cases q rule: rev_cases) (auto split: segment.splits)
  then show ?thesis using delete_removes [of lib s q' k t p] assms 2 by auto
qed (use assms set_spares in \<open>auto simp: run_edit_def\<close>)

lemma spares_runs:
  "yaml_contract lib \<Longrightarrow> run_edits lib s ops = Ok t \<Longrightarrow> list_all (spares p) ops \<Longrightarrow> p \<noteq> [] \<Longrightarrow> present_in lib t p \<Longrightarrow> present_in lib s p"
  by (induction ops arbitrary: s) (auto simp: bind_result_Inr_iff dest: spares_run)

fun drops :: "segment list \<Rightarrow> edit_op list \<Rightarrow> bool" where
  "drops p [] = False"
| "drops p (op # ops) = (op = Delete_at p \<and> list_all (spares p) ops \<or> drops p ops)"

text \<open>The text the deletion of \<open>p\<close> in a batch is applied to.\<close>

definition deleted_from :: "ylib \<Rightarrow> string \<Rightarrow> edit_op list \<Rightarrow> segment list \<Rightarrow> string \<Rightarrow> bool" where
  "deleted_from lib s ops p t \<longleftrightarrow> (\<exists>i < length ops. ops ! i = Delete_at p \<and> run_edits lib s (take i ops) = Ok t)"

lemma deleted_from_here: "deleted_from lib s (Delete_at p # ops) p s"
  by (auto simp: deleted_from_def intro: exI [of _ 0])

lemma deleted_from_later:
  assumes "run_edit lib s op = Ok u" "deleted_from lib u ops p t"
  shows "deleted_from lib s (op # ops) p t"
proof -
  obtain i where "i < length ops" "ops ! i = Delete_at p" "run_edits lib u (take i ops) = Ok t"
    using assms(2) by (auto simp: deleted_from_def)
  then show ?thesis using assms(1) unfolding deleted_from_def by (intro exI [of _ "Suc i"]) simp
qed

lemma drops_run:
  assumes "yaml_contract lib" "run_edits lib s ops = Ok t" "drops (p @ [Key k]) ops" "k \<in> set plain_names"
  shows "present_in lib t (p @ [Key k]) \<longrightarrow> (\<exists>s'. deleted_from lib s ops (p @ [Key k]) s' \<and> bare_key lib s' (p @ [Key k]))"
  using assms(2,3)
proof (induction ops arbitrary: s)
  case (Cons op ops)
  then obtain u where u: "run_edit lib s op = Ok u" "run_edits lib u ops = Ok t" by (auto simp: bind_result_Inr_iff)
  show ?case
  proof (cases "drops (p @ [Key k]) ops")
    case True
    then show ?thesis using Cons.IH [OF u(2)] deleted_from_later [OF u(1)] by blast
  next
    case False
    then have "op = Delete_at (p @ [Key k])" "list_all (spares (p @ [Key k])) ops" using Cons.prems(2) by auto
    then show ?thesis
      using spares_runs [OF assms(1) u(2)] delete_removes [OF assms(1) _ assms(4), of s p u] u(1) deleted_from_here by blast
  qed
qed simp

text \<open>The edits of a switch in the form, and what each must leave out of the recipe.\<close>

definition switch_drops :: "edit_op list \<Rightarrow> segment list \<Rightarrow> string \<Rightarrow> bool" where
  "switch_drops ops path k \<longleftrightarrow>
     (\<exists>confirmed new. new \<noteq> [] \<and> style_ops confirmed path new = Some ops
        \<and> k \<in> set paginationOwnedFields \<and> k \<notin> set (from_opt [] (map_of paginationFieldsByStyle new)))
   \<or> (\<exists>new. ops = auth_mode_ops new \<and> path = [Key ''auth'']
        \<and> (new \<notin> {''header'', ''query''} \<and> k = ''name'' \<or> new \<noteq> ''header'' \<and> k = ''prefix''))
   \<or> (\<exists>new. ops = switch_source path new \<and> k \<in> {''path'', ''const'', ''template''} \<and> k \<noteq> new)"

lemma key_apart_last: "key_apart (p @ [Key k]) (p @ [Key j]) \<longleftrightarrow> k \<noteq> j"
  by (induction p) auto

lemma drops_append: "drops p xs \<and> list_all (spares p) ys \<Longrightarrow> drops p (xs @ ys)"
  by (induction xs) auto

lemma drops_deletes:
  "k \<in> set ks \<Longrightarrow> set ks \<subseteq> set plain_names \<Longrightarrow> drops (p @ [Key k]) (map (\<lambda>j. Delete_at (p @ [Key j])) ks)"
  by (induction ks) (auto simp: list_all_iff)

lemma switch_drops_drops:
  assumes "switch_drops ops path k"
  shows "drops (path @ [Key k]) ops" "k \<in> set plain_names"
proof -
  have own: "set paginationOwnedFields \<subseteq> set plain_names" by (auto simp: plain_names_def)
  have ne: "''type'' \<notin> set paginationOwnedFields" by (simp add: paginationOwnedFields_def)
  have style: "drops (path @ [Key k]) ops" if "new \<noteq> []" "style_ops confirmed path new = Some ops"
      "k \<in> set paginationOwnedFields" "k \<notin> set (from_opt [] (map_of paginationFieldsByStyle new))" for confirmed new
    using that ne own unfolding style_ops_def
    by (auto intro!: drops_append drops_deletes simp: key_apart_last)
  have source: "drops (path @ [Key k]) (switch_source path new)" if "k \<in> {''path'', ''const'', ''template''}" "k \<noteq> new" for new
    using that unfolding switch_source_def drops.simps
    by (intro disjI2 drops_deletes) (auto simp: plain_names_def)
  have names: "''name'' \<in> set plain_names" "''prefix'' \<in> set plain_names" "{''path'', ''const'', ''template''} \<subseteq> set plain_names"
    by (simp_all add: plain_names_def)
  show "drops (path @ [Key k]) ops"
    using assms style source names(1,2) unfolding switch_drops_def auth_mode_ops_def by auto
  show "k \<in> set plain_names" using assms own names unfolding switch_drops_def by auto
qed

text \<open>
  Claim C5. After the choice of another pagination style, authentication mode or attribute source the recipe
  has no field left that the choice does not allow, whatever else the batch changed. A field is
  left only if at the very moment the batch comes to delete it, in the text the edits before that
  one made, it is a name without a value, as \<open>size\<close> in \<open>{ size }\<close>: the editor finds no node for such
  a name and deletes nothing. What is relied on of the \<open>yaml\<close> package is the contract above.
\<close>

theorem switch_leaves_nothing:
  assumes "yaml_contract lib" and "switch_drops ops path k" and "editMany lib val ops = (False, emitted)"
  shows "present_in lib (from_opt val emitted) (path @ [Key k]) \<longrightarrow>
    (\<exists>s. deleted_from lib val ops (path @ [Key k]) s \<and> bare_key lib s (path @ [Key k]))"
proof -
  have "run_edits lib val ops = Ok (from_opt val emitted)"
    using assms(3) by (auto simp: editMany_def split: sum.splits if_splits)
  from drops_run [OF assms(1) this switch_drops_drops [OF assms(2)]] show ?thesis .
qed

text \<open>
  A library for flat documents: lines of a name, a colon, a blank and a text without blanks. Names are set and
  deleted anywhere among the lines.
\<close>

definition flat_line :: "string \<Rightarrow> (string \<times> string) option" where
  "flat_line l = (let k = takeWhile (\<lambda>c. c \<noteq> CHR '':'') l; w = drop (length k + 2) l in
     if l = k @ '': '' @ w \<and> k \<noteq> [] \<and> w \<noteq> [] \<and> CHR '' '' \<notin> set w then Some (k, w) else None)"

fun flat_items :: "nat \<Rightarrow> string list \<Rightarrow> ypair list" where
  "flat_items o1 [] = []"
| "flat_items o1 (l # ls) = (case flat_line l of None \<Rightarrow> [] | Some (k, w) \<Rightarrow>
     (let o2 = o1 + length k; o3 = o1 + length l in
       (Some (YScalar (Some (o1, o2, o2)) None True (JStr k)), Some (YScalar (Some (o2 + 2, o3, o3 + 1)) None True (JStr w)))
       # flat_items (o3 + 1) ls))"

definition flat_parse :: "string \<Rightarrow> ynode option" where
  "flat_parse s = (let ls = split_on NL s in
     if last ls = [] \<and> butlast ls \<noteq> [] \<and> list_all (\<lambda>l. flat_line l \<noteq> None) (butlast ls)
     then Some (YMap (Some (0, length s, length s)) None False (flat_items 0 (butlast ls))) else None)"

definition flat_name :: "ypair \<Rightarrow> string" where
  "flat_name p = (case scalar_js (fst p) of JStr t \<Rightarrow> t | _ \<Rightarrow> [])"

definition flat_lib :: ylib where
  "flat_lib = one_lib\<lparr>
     lib_parse_all := (\<lambda>s. case flat_parse s of None \<Rightarrow> Inl (''not flat'', None)
       | Some n \<Rightarrow> Inr [\<lparr>dc_contents = Some n, dc_errors = [], dc_start = Some 0\<rparr>]),
     lib_setIn := (\<lambda>p v n. case (p, n) of
         ([Key k], YMap r a f items) \<Rightarrow>
           if k \<in> set (map flat_name items)
           then Ok (YMap r a f (map (\<lambda>i. if flat_name i = k then (fst i, Some (YScalar None None True v)) else i) items))
           else Throw ''new name''
       | _ \<Rightarrow> Throw ''not flat''),
     lib_deleteIn := (\<lambda>p n. case (p, n) of
         ([Key k], YMap r a f items) \<Rightarrow> Ok (YMap r a f (filter (\<lambda>i. flat_name i \<noteq> k) items))
       | _ \<Rightarrow> Throw ''not flat'')\<rparr>"

lemma one_js_map: "one_js (Some (YMap r a f items)) = JObj (map (\<lambda>i. (flat_name i, scalar_js (snd i))) items)"
  by (simp add: one_js_def flat_name_def case_prod_beta)

lemma map_of_flat_filter: "map_of (map (\<lambda>i. (flat_name i, g i)) (filter (\<lambda>i. flat_name i \<noteq> k) items)) j =
    (if j = k then None else map_of (map (\<lambda>i. (flat_name i, g i)) items) j)"
  by (induction items) auto

lemma flat_name_keep [simp]: "flat_name (fst i, x) = flat_name i"
  by (simp add: flat_name_def)

lemma scalar_js_leaf [simp]: "scalar_js (Some (YScalar r a p v)) = v"
  by (simp add: scalar_js_def)

lemma map_of_flat_set:
  "map_of (map (\<lambda>i. (flat_name i, scalar_js (snd i)))
      (map (\<lambda>i. if flat_name i = k then (fst i, Some (YScalar None None True v)) else i) items)) j =
    (if j = k \<and> k \<in> set (map flat_name items) then Some v else map_of (map (\<lambda>i. (flat_name i, scalar_js (snd i))) items) j)"
  by (induction items) auto

lemma flat_setIn:
  assumes "lib_setIn flat_lib p v n = Ok m"
  obtains k r a f items where "p = [Key k]" "n = YMap r a f items" "k \<in> set (map flat_name items)"
    "m = YMap r a f (map (\<lambda>i. if flat_name i = k then (fst i, Some (YScalar None None True v)) else i) items)"
  using assms by (auto simp: flat_lib_def split: list.splits segment.splits ynode.splits if_splits)

lemma flat_deleteIn:
  assumes "lib_deleteIn flat_lib (p @ [Key k]) n = Ok m"
  obtains r a f items where "p = []" "n = YMap r a f items" "m = YMap r a f (filter (\<lambda>i. flat_name i \<noteq> k) items)"
  using assms by (cases p) (auto simp: flat_lib_def split: list.splits segment.splits ynode.splits if_splits)

lemma flat_lib_contract: "yaml_contract flat_lib"
proof -
  have js: "lib_toJS flat_lib = one_js" "lib_empty flat_lib = YMap None None False []"
    by (simp_all add: flat_lib_def one_lib_def)
  have set: "(key_apart p q \<longrightarrow> present (texts q) (one_js (Some m)) \<longrightarrow> present (texts q) (one_js (Some n)))
      \<and> (present (texts p @ r) (one_js (Some m)) \<longrightarrow> present r v)" if h: "lib_setIn flat_lib p v n = Ok m" for p v n m q r
    by (rule flat_setIn [OF h]; cases q)
       (auto simp: one_js_map texts_def map_of_flat_set simp del: list.map_comp map_map split: option.splits if_splits)
  have del: "\<not> present (texts (p @ [Key k])) (one_js (Some m))
      \<and> (present (texts q) (one_js (Some m)) \<longrightarrow> present (texts q) (one_js (Some n)))"
    if h: "lib_deleteIn flat_lib (p @ [Key k]) n = Ok m" for p k n m q
    by (rule flat_deleteIn [OF h]; cases q)
       (auto simp: one_js_map texts_def map_of_flat_filter split: option.splits if_splits)
  show ?thesis unfolding yaml_contract_def js using set del by (fastforce simp: one_js_def)
qed

text \<open>A switch from pages to a cursor, where the field \<open>start\<close> is there to be deleted.\<close>

definition paged :: string where
  "paged = ''type: page'' @ [NL] @ ''start: 1'' @ [NL]"

definition unstarted :: string where
  "unstarted = ''type: page'' @ [NL]"

definition cursored :: string where
  "cursored = ''type: cursor'' @ [NL]"

lemma to_cursor: "style_ops (\<lambda>p. True) [] ''cursor'' =
    Some [Delete_at [Key ''start''], Delete_at [Key ''next_path''], Delete_at [Key ''link_header''], Set_at [Key ''type''] (JStr ''cursor'')]"
  by (simp add: style_ops_def paginationOwnedFields_def paginationFieldsByStyle_def)

lemma flat_edits:
  "run_edit flat_lib paged (Delete_at [Key ''start'']) = Ok unstarted"
  "run_edit flat_lib unstarted (Delete_at [Key ''next_path'']) = Ok unstarted"
  "run_edit flat_lib unstarted (Delete_at [Key ''link_header'']) = Ok unstarted"
  "run_edit flat_lib unstarted (Set_at [Key ''type''] (JStr ''cursor'')) = Ok cursored"
  by code_simp+

lemma paged_start:
  "present_in flat_lib paged [Key ''start'']"
  "(case editable_root flat_lib paged of Ok n \<Rightarrow> getNode flat_lib (Some n) [Key ''start''] \<noteq> None | Throw e \<Rightarrow> False)"
  "paged \<noteq> cursored"
  by code_simp+

lemma paged_switch: "editMany flat_lib paged (the (style_ops (\<lambda>p. True) [] ''cursor'')) = (False, Some cursored)"
  using paged_start(3) by (simp add: editMany_def to_cursor flat_edits)

lemma paged_no_bare:
  "deleted_from flat_lib paged (the (style_ops (\<lambda>p. True) [] ''cursor'')) [Key ''start''] s \<Longrightarrow> \<not> bare_key flat_lib s [Key ''start'']"
  using paged_start(2) by (auto simp: deleted_from_def to_cursor less_Suc_eq nth_Cons' bare_key_def split: sum.splits)

lemma switch_leaves_nothing_witness:
  "present_in flat_lib paged [Key ''start''] \<and> \<not> present_in flat_lib cursored [Key ''start'']"
proof -
  have "switch_drops (the (style_ops (\<lambda>p. True) [] ''cursor'')) [] ''start''"
    unfolding switch_drops_def
    by (intro disjI1 exI [of _ "\<lambda>p. True"] exI [of _ "''cursor''"])
       (simp add: to_cursor paginationOwnedFields_def paginationFieldsByStyle_def)
  from switch_leaves_nothing [OF flat_lib_contract this paged_switch] paged_no_bare paged_start(1) show ?thesis by auto
qed

subsection \<open>Names without a value\<close>

lemma present_there: "present_in lib s p \<Longrightarrow> \<not> absent lib s (Segments p)"
  using absent_not_present by blast

text \<open>
  Deleting a name that has no value does nothing and reports no failure: the entry stays in the
  recipe and the form shows it again.
\<close>

theorem bare_key_stays:
  assumes "bare_key lib val p"
  shows "editMany lib val [Delete_at p] = (False, None) \<and> present_in lib val p"
proof -
  obtain n where n: "editable_root lib val = Ok n" "getNode lib (Some n) p = None" "present_in lib val p"
    using assms by (auto simp: bare_key_def)
  then have "editRecipeDocument lib val (Delete_at p) = Ok val"
    by (simp add: editRecipeDocument_def requested_value_def liftNullAncestor_def Let_def pathSegments_def no_change_def)
  then show ?thesis using n(3) present_there [OF n(3)] by (simp add: editMany_def run_edit_def)
qed

definition bare_lib :: ylib where
  "bare_lib = one_lib\<lparr>lib_parse_all := (\<lambda>s. Inr [\<lparr>dc_contents = Some (YMap None None True
     [(Some (YScalar None None True (JStr ''size'')), None)]), dc_errors = [], dc_start = Some 0\<rparr>])\<rparr>"

lemma bare_size: "bare_key bare_lib ''{ size }'' [Key ''size'']"
proof -
  have "present_in bare_lib ''{ size }'' [Key ''size'']" by code_simp
  moreover have "editable_root bare_lib ''{ size }'' = Ok (YMap None None True [(Some (YScalar None None True (JStr ''size'')), None)])"
    by code_simp
  moreover have "getNode bare_lib (Some (YMap None None True [(Some (YScalar None None True (JStr ''size'')), None)])) [Key ''size''] = None"
    by code_simp
  ultimately show ?thesis by (auto simp: bare_key_def)
qed

lemma bare_key_stays_witness: "editMany bare_lib ''{ size }'' [Delete_at [Key ''size'']] = (False, None)"
  using bare_key_stays [OF bare_size] by simp

end
