(* ===== verification/RecipeForm.thy ===== *)
theory RecipeForm
  imports RecipeText
begin

text \<open>
  The connector form around the recipe: errors located by the server and the feedback shown for
  the recipe in the editor (\<open>features/connectors/recipeForm.ts\<close>, \<open>useRecipeFeedback.ts\<close>), and
  the fields of the schema (\<open>schemaFields.ts\<close>). The lemmas show which errors are shown, that a
  late preview cannot hide those of a failed save, and which values a preview is asked for with.
\<close>

subsection \<open>Located errors\<close>

(* src api/model/fieldError.ts 10-15 FieldError *)
record field_error =
  fe_field :: string
  fe_msg :: string

text \<open>\<open>error?.response?.data?.details\<close>, kept where it is an array of errors.\<close>

definition located :: "json \<Rightarrow> field_error option" where
  "located detail = (case (member ''field'' detail, member ''msg'' detail) of
     (Some (JStr f), Some (JStr m)) \<Rightarrow> Some \<lparr>fe_field = f, fe_msg = m\<rparr> | _ \<Rightarrow> None)"

(* src features/connectors/recipeForm.ts 11-21 locatedErrorsFrom *)
definition locatedErrorsFrom :: "json \<Rightarrow> field_error list" where
  "locatedErrorsFrom e =
     (case Option.bind (Option.bind (member ''response'' e) (member ''data'')) (member ''details'') of
        Some (JArr details) \<Rightarrow> List.map_filter located details
      | _ \<Rightarrow> [])"

subsection \<open>Feedback for a recipe\<close>

(* src features/connectors/recipeForm.ts 4-5 RecipeFeedbackEntry *)
record feedback_entry =
  fb_recipe :: string
  fb_errors :: "field_error list"
  fb_endpoints :: "json option"
  fb_seq :: nat

(* src features/connectors/recipeForm.ts 7-8 RecipeFeedback *)
record recipe_feedback =
  rf_save :: "feedback_entry option"
  rf_preview :: "feedback_entry option"

record merged_feedback =
  mr_errors :: "field_error list"
  mr_errorRecipe :: "string option"
  mr_endpoints :: "json option"

text \<open>The JSON of a pair of texts determines the pair, so the errors seen are kept as they are.\<close>

(* src features/connectors/recipeForm.ts 39-48 mergeRecipeFeedback *)
fun first_seen :: "field_error set \<Rightarrow> field_error list \<Rightarrow> field_error list" where
  "first_seen seen [] = []"
| "first_seen seen (e # es) = (if e \<in> seen then first_seen seen es else e # first_seen (insert e seen) es)"

definition entries_of :: "recipe_feedback option \<Rightarrow> feedback_entry list" where
  "entries_of feedback = (case feedback of None \<Rightarrow> []
     | Some f \<Rightarrow> List.map_filter (\<lambda>e. e) [rf_save f, rf_preview f])"

(* src features/connectors/recipeForm.ts 36-36 mergeRecipeFeedback *)
definition newest :: "feedback_entry \<Rightarrow> feedback_entry list \<Rightarrow> feedback_entry" where
  "newest e es = foldl (\<lambda>latest entry. if fb_seq latest < fb_seq entry then entry else latest) e es"

(* src features/connectors/recipeForm.ts 23-51 mergeRecipeFeedback *)
definition mergeRecipeFeedback :: "recipe_feedback option \<Rightarrow> string \<Rightarrow> merged_feedback" where
  "mergeRecipeFeedback feedback recipe =
     (case entries_of feedback of
        [] \<Rightarrow> \<lparr>mr_errors = [], mr_errorRecipe = None, mr_endpoints = None\<rparr>
      | e # es \<Rightarrow>
          (let current = filter (\<lambda>x. fb_recipe x = recipe) (e # es)
           in if current = []
              then \<lparr>mr_errors = fb_errors (newest e es), mr_errorRecipe = Some (fb_recipe (newest e es)), mr_endpoints = None\<rparr>
              else \<lparr>mr_errors = first_seen {} (concat (map fb_errors current)), mr_errorRecipe = Some recipe,
                 mr_endpoints = Option.bind (Option.bind feedback rf_preview)
                   (\<lambda>p. if fb_recipe p = recipe then fb_endpoints p else None)\<rparr>))"

definition drop_config :: "string \<Rightarrow> string" where
  "drop_config s = (if starts_with ''config.'' s then drop 7 s else s)"

(* src features/connectors/recipeForm.ts 55-58 errorsForField *)
definition error_at :: "string \<Rightarrow> field_error \<Rightarrow> bool" where
  "error_at fieldName e \<longleftrightarrow> (let location = drop_config (fe_field e)
     in location = fieldName \<or> starts_with (fieldName @ ''.'') location \<or> starts_with (fieldName @ ''['') location)"

(* src features/connectors/recipeForm.ts 53-61 errorsForField *)
definition errorsForField :: "field_error list \<Rightarrow> string \<Rightarrow> string option" where
  "errorsForField errors fieldName =
     (let messages = map fe_msg (filter (error_at fieldName) errors)
      in if messages = [] then None else Some (join_with '' '' messages))"

text \<open>\<open>/^(config\\.)?recipe(?:[.[]|$)/\<close>.\<close>

(* src features/connectors/recipeForm.ts 64-64 focusFirstLocatedError *)
definition recipe_field :: "string \<Rightarrow> bool" where
  "recipe_field field \<longleftrightarrow> list_ex (\<lambda>s. starts_with ''recipe'' s \<and>
     (case drop 6 s of [] \<Rightarrow> True | c # r \<Rightarrow> c = CHR ''.'' \<or> c = CHR ''['')) [field, drop_config field]"

text \<open>
  The element that gets the focus, by its id. \<open>present\<close> says which ids the page has,
  \<open>handled\<close> whether the recipe editor takes over the location (it cancels the event).
\<close>

(* src features/connectors/recipeForm.ts 63-72 focusFirstLocatedError *)
definition focusFirstLocatedError ::
  "(string \<Rightarrow> bool) \<Rightarrow> (string \<Rightarrow> bool) \<Rightarrow> field_error list \<Rightarrow> string option \<Rightarrow> string option" where
  "focusFirstLocatedError present handled errors fallbackField =
     (let first = (case errors of [] \<Rightarrow> None | e # es \<Rightarrow> Some (fe_field e));
          by_id = (\<lambda>name. case name of None \<Rightarrow> None
            | Some n \<Rightarrow> if n \<noteq> [] \<and> present (''connector-field-'' @ n) then Some (''connector-field-'' @ n) else None)
      in if recipe_field (from_opt [] first) \<and> handled (from_opt [] first) then None
         else (let name = Option.bind first (\<lambda>f. case takeWhile is_key_text (drop_config f) of [] \<Rightarrow> None | n \<Rightarrow> Some n);
                   target = by_id (case name of Some n \<Rightarrow> Some n | None \<Rightarrow> fallbackField)
               in case target of Some t \<Rightarrow> Some t | None \<Rightarrow> by_id fallbackField))"

subsection \<open>Recording feedback\<close>

(* src features/connectors/useRecipeFeedback.ts 11-13 useRecipeFeedback *)
record feedback_hook =
  hk_feedback :: recipe_feedback
  hk_submitted :: string
  hk_seq :: nat

definition initial_hook :: feedback_hook where
  "initial_hook = \<lparr>hk_feedback = \<lparr>rf_save = None, rf_preview = None\<rparr>, hk_submitted = [], hk_seq = 0\<rparr>"

(* src features/connectors/useRecipeFeedback.ts 15-18 recordSaveStart *)
definition recordSaveStart :: "string \<Rightarrow> feedback_hook \<Rightarrow> feedback_hook" where
  "recordSaveStart recipe h = h\<lparr>hk_submitted := recipe, hk_feedback := (hk_feedback h)\<lparr>rf_save := None\<rparr>\<rparr>"

(* src features/connectors/useRecipeFeedback.ts 20-23 recordSaveError *)
definition recordSaveError :: "json \<Rightarrow> feedback_hook \<Rightarrow> feedback_hook" where
  "recordSaveError e h =
     (let entry = \<lparr>fb_recipe = hk_submitted h, fb_errors = locatedErrorsFrom e, fb_endpoints = None, fb_seq = hk_seq h + 1\<rparr>
      in h\<lparr>hk_seq := hk_seq h + 1, hk_feedback := (hk_feedback h)\<lparr>rf_save := Some entry\<rparr>\<rparr>)"

(* src features/connectors/useRecipeFeedback.ts 25-28 recordPreview *)
definition recordPreview :: "string \<Rightarrow> field_error list \<Rightarrow> json option \<Rightarrow> feedback_hook \<Rightarrow> feedback_hook" where
  "recordPreview recipe errors endpoints h =
     (let entry = \<lparr>fb_recipe = recipe, fb_errors = errors, fb_endpoints = endpoints, fb_seq = hk_seq h + 1\<rparr>
      in h\<lparr>hk_seq := hk_seq h + 1, hk_feedback := (hk_feedback h)\<lparr>rf_preview := Some entry\<rparr>\<rparr>)"

(* src features/connectors/useRecipeFeedback.ts 10-31 useRecipeFeedback *)
datatype feedback_op = Save_start string | Save_error json | Preview string "field_error list" "json option"

fun feedback_step :: "feedback_op \<Rightarrow> feedback_hook \<Rightarrow> feedback_hook" where
  "feedback_step (Save_start r) h = recordSaveStart r h"
| "feedback_step (Save_error e) h = recordSaveError e h"
| "feedback_step (Preview r es ends) h = recordPreview r es ends h"

definition feedback_run :: "feedback_op list \<Rightarrow> feedback_hook \<Rightarrow> feedback_hook" where
  "feedback_run ops h = fold feedback_step ops h"

subsection \<open>Fields of the schema\<close>

(* src api/model/schemaField.ts 11-26 SchemaField *)
record schema_field =
  sf_name :: string
  sf_kind :: string
  sf_secret :: "bool option"
  sf_default :: "string option"

(* src features/connectors/schemaFields.ts 10-13 isToggleField *)
definition isToggleField :: "'a schema_field_scheme \<Rightarrow> bool" where
  "isToggleField f \<longleftrightarrow> sf_kind f = ''toggle'' \<or> sf_kind f = ''boolean''"

(* src features/connectors/schemaFields.ts 15-18 isSecretField *)
definition isSecretField :: "'a schema_field_scheme \<Rightarrow> bool" where
  "isSecretField f \<longleftrightarrow> sf_kind f = ''password'' \<or> sf_kind f = ''secret'' \<or> sf_secret f = Some True"

(* src features/connectors/schemaFields.ts 20-23 isVerifyTlsField *)
definition isVerifyTlsField :: "'a schema_field_scheme \<Rightarrow> bool" where
  "isVerifyTlsField f \<longleftrightarrow> sf_name f = ''verify_tls'' \<or> sf_name f = ''verifyTls''"

(* src features/connectors/schemaFields.ts 25-28 isTlsProbeEndpointField *)
definition isTlsProbeEndpointField :: "string \<Rightarrow> string \<Rightarrow> bool" where
  "isTlsProbeEndpointField type fieldName \<longleftrightarrow> type = ''tlsprobe'' \<and> fieldName \<in> set [''targets'', ''import_connector_id'', ''import_port'']"

(* src features/connectors/schemaFields.ts 30-34 tlsProbeFieldTranslations *)
definition tlsProbeFieldTranslations :: "(string \<times> string \<times> string) list" where
  "tlsProbeFieldTranslations = [
     (''targets'', ''connectors.tlsProbe.targetsLabel'', ''connectors.tlsProbe.targetsHint''),
     (''import_connector_id'', ''connectors.tlsProbe.importConnectorLabel'', ''connectors.tlsProbe.importConnectorHint''),
     (''import_port'', ''connectors.tlsProbe.importPortLabel'', ''connectors.tlsProbe.importPortHint'')]"

(* src features/connectors/schemaFields.ts 36-39 isTopLevelField *)
definition isTopLevelField :: "'a schema_field_scheme \<Rightarrow> bool" where
  "isTopLevelField f \<longleftrightarrow> sf_name f = ''url'' \<or> isVerifyTlsField f"

(* src features/connectors/schemaFields.ts 41-46 fieldDefault *)
definition fieldDefault :: "'a schema_field_scheme \<Rightarrow> json" where
  "fieldDefault f = (if isToggleField f
     then JBool (case sf_default f of None \<Rightarrow> False | Some d \<Rightarrow> d \<noteq> ''false'')
     else JStr (from_opt [] (sf_default f)))"

text \<open>\<open>values[name] ?? stored[name] ?? fieldDefault(field)\<close>.\<close>

definition config_value :: "(string \<rightharpoonup> json) \<Rightarrow> (string \<rightharpoonup> json) \<Rightarrow> 'a schema_field_scheme \<Rightarrow> json" where
  "config_value vals stored f = (case vals (sf_name f) of
     Some v \<Rightarrow> v
   | None \<Rightarrow> (case stored (sf_name f) of Some v \<Rightarrow> if v = JNull then fieldDefault f else v | None \<Rightarrow> fieldDefault f))"

(* src features/connectors/recipeForm.ts 74-86 recipePreviewConfig *)
definition recipePreviewConfig :: "'a schema_field_scheme list \<Rightarrow> (string \<rightharpoonup> json) \<Rightarrow> (string \<rightharpoonup> json) \<Rightarrow> (string \<rightharpoonup> json)" where
  "recipePreviewConfig fs vals stored = foldl (\<lambda>config f. if isTopLevelField f then config
     else config(sf_name f \<mapsto> config_value vals stored f)) Map.empty fs"

subsection \<open>What is shown\<close>

lemma first_seen_set: "set (first_seen seen es) = set es - seen"
  by (induction seen es rule: first_seen.induct) auto

lemma first_seen_distinct: "distinct (first_seen seen es)"
  by (induction seen es rule: first_seen.induct) (auto simp: first_seen_set)

lemma newest_max: "newest e es \<in> set (e # es) \<and> (\<forall>x \<in> set (e # es). fb_seq x \<le> fb_seq (newest e es))"
proof (induction es arbitrary: e)
  case (Cons x es)
  have "newest e (x # es) = newest (if fb_seq e < fb_seq x then x else e) es" by (simp add: newest_def)
  then show ?case using Cons [of "if fb_seq e < fb_seq x then x else e"] by (auto split: if_splits)
qed (simp add: newest_def)

text \<open>
  The editor shows the feedback of the text it holds. If a save or a preview was made of
  exactly this recipe, the errors shown are those of all such outcomes together, none of them
  twice, tagged with this recipe. If there is feedback for other texts only, it is that of the
  latest outcome, tagged with the recipe it belongs to, so that it can be marked stale. Without
  any feedback nothing is shown.
\<close>

theorem merge_feedback_exact:
  "let entries = set (entries_of feedback); merged = mergeRecipeFeedback feedback recipe
   in (if \<exists>e \<in> entries. fb_recipe e = recipe
       then set (mr_errors merged) = {x. \<exists>e \<in> entries. fb_recipe e = recipe \<and> x \<in> set (fb_errors e)}
         \<and> distinct (mr_errors merged) \<and> mr_errorRecipe merged = Some recipe
       else if entries \<noteq> {}
       then \<exists>e \<in> entries. (\<forall>x \<in> entries. fb_seq x \<le> fb_seq e) \<and> mr_errors merged = fb_errors e
         \<and> mr_errorRecipe merged = Some (fb_recipe e) \<and> fb_recipe e \<noteq> recipe
       else mr_errors merged = [] \<and> mr_errorRecipe merged = None)"
proof (cases "entries_of feedback")
  case Nil
  then show ?thesis by (simp add: mergeRecipeFeedback_def)
next
  case (Cons e es)
  let ?current = "filter (\<lambda>x. fb_recipe x = recipe) (e # es)"
  show ?thesis
  proof (cases "?current = []")
    case True
    then have no: "\<forall>x \<in> set (e # es). fb_recipe x \<noteq> recipe" unfolding filter_empty_conv .
    have merged: "mr_errors (mergeRecipeFeedback feedback recipe) = fb_errors (newest e es)"
      "mr_errorRecipe (mergeRecipeFeedback feedback recipe) = Some (fb_recipe (newest e es))"
      unfolding mergeRecipeFeedback_def Cons list.case Let_def True by simp_all
    have "newest e es \<in> set (e # es)" "\<forall>x \<in> set (e # es). fb_seq x \<le> fb_seq (newest e es)"
      using newest_max by blast+
    then have "\<exists>x \<in> set (e # es). (\<forall>y \<in> set (e # es). fb_seq y \<le> fb_seq x)
        \<and> mr_errors (mergeRecipeFeedback feedback recipe) = fb_errors x
        \<and> mr_errorRecipe (mergeRecipeFeedback feedback recipe) = Some (fb_recipe x) \<and> fb_recipe x \<noteq> recipe"
      using merged no by blast
    moreover have "\<not> (\<exists>x \<in> set (e # es). fb_recipe x = recipe)" "set (e # es) \<noteq> {}" using no by auto
    ultimately show ?thesis unfolding Let_def Cons by simp
  next
    case False
    then have yes: "\<exists>x \<in> set (e # es). fb_recipe x = recipe" unfolding filter_empty_conv by blast
    have merged: "mr_errors (mergeRecipeFeedback feedback recipe) = first_seen {} (concat (map fb_errors ?current))"
      "mr_errorRecipe (mergeRecipeFeedback feedback recipe) = Some recipe"
      unfolding mergeRecipeFeedback_def Cons list.case Let_def if_not_P [OF False] by simp_all
    have "set (first_seen {} (concat (map fb_errors ?current))) = {x. \<exists>y \<in> set (e # es). fb_recipe y = recipe \<and> x \<in> set (fb_errors y)}"
      unfolding first_seen_set set_concat set_map set_filter by blast
    then show ?thesis unfolding Let_def Cons merged using yes first_seen_distinct by simp
  qed
qed

lemma merge_feedback_exact_witness:
  "set (mr_errors (mergeRecipeFeedback (Some \<lparr>rf_save = Some \<lparr>fb_recipe = ''r'', fb_errors = [\<lparr>fe_field = ''f'', fe_msg = ''m''\<rparr>],
       fb_endpoints = None, fb_seq = 1\<rparr>, rf_preview = None\<rparr>) ''r'')) = {\<lparr>fe_field = ''f'', fe_msg = ''m''\<rparr>}"
  using merge_feedback_exact [of "Some \<lparr>rf_save = Some \<lparr>fb_recipe = ''r'', fb_errors = [\<lparr>fe_field = ''f'', fe_msg = ''m''\<rparr>],
       fb_endpoints = None, fb_seq = 1\<rparr>, rf_preview = None\<rparr>" "''r''"]
  by (simp add: entries_of_def map_filter_simps Let_def)

definition is_preview :: "feedback_op \<Rightarrow> bool" where
  "is_preview p = (case p of Preview r es ends \<Rightarrow> True | _ \<Rightarrow> False)"

lemma preview_keeps: "is_preview p \<Longrightarrow> rf_save (hk_feedback (feedback_step p h)) = rf_save (hk_feedback h)
    \<and> hk_submitted (feedback_step p h) = hk_submitted h"
  by (cases p) (auto simp: is_preview_def recordPreview_def Let_def)

lemma previews_keep: "list_all is_preview ps \<Longrightarrow> rf_save (hk_feedback (feedback_run ps h)) = rf_save (hk_feedback h)
    \<and> hk_submitted (feedback_run ps h) = hk_submitted h"
  by (induction ps arbitrary: h) (auto simp: feedback_run_def preview_keeps)

text \<open>
  A late preview does not hide the errors of a failed save. Whatever happened before,
  when a save of a recipe is started and fails, and previews come in before and after the failure
  in any number, the errors the server located are all shown for that recipe, and they are tagged
  as belonging to it.
\<close>

theorem late_preview_keeps_errors:
  assumes "list_all is_preview before" and "list_all is_preview after"
  shows "let h = feedback_run (ops @ [Save_start recipe] @ before @ [Save_error e] @ after) initial_hook;
             merged = mergeRecipeFeedback (Some (hk_feedback h)) recipe
         in set (locatedErrorsFrom e) \<subseteq> set (mr_errors merged) \<and> mr_errorRecipe merged = Some recipe"
proof -
  define h1 where "h1 = feedback_run (ops @ [Save_start recipe]) initial_hook"
  define h where "h = feedback_run (ops @ [Save_start recipe] @ before @ [Save_error e] @ after) initial_hook"
  have "hk_submitted h1 = recipe" by (simp add: h1_def feedback_run_def recordSaveStart_def)
  then have "hk_submitted (feedback_run before h1) = recipe" using previews_keep [OF assms(1)] by simp
  then obtain en where en: "rf_save (hk_feedback (feedback_step (Save_error e) (feedback_run before h1))) = Some en"
    "fb_recipe en = recipe" "fb_errors en = locatedErrorsFrom e" by (simp add: recordSaveError_def)
  have "h = feedback_run after (feedback_step (Save_error e) (feedback_run before h1))"
    by (simp add: h_def h1_def feedback_run_def)
  then have "rf_save (hk_feedback h) = Some en" using previews_keep [OF assms(2)] en(1) by simp
  then have "entries_of (Some (hk_feedback h)) = en # List.map_filter (\<lambda>e. e) [rf_preview (hk_feedback h)]"
    by (simp add: entries_of_def map_filter_simps)
  then show ?thesis
    unfolding Let_def h_def [symmetric] mergeRecipeFeedback_def using en(2,3) by (auto simp: first_seen_set)
qed

lemma late_preview_keeps_errors_witness:
  "mr_errorRecipe (mergeRecipeFeedback (Some (hk_feedback (feedback_run
     ([] @ [Save_start ''r''] @ [] @ [Save_error JNull] @ [Preview ''q'' [] None]) initial_hook))) ''r'') = Some ''r''"
  using late_preview_keeps_errors [of "[]" "[Preview ''q'' [] None]" "[]" "''r''" JNull]
  by (simp add: is_preview_def Let_def)

text \<open>
  A preview asks with the form's values. Its configuration has exactly the schema's fields
  that are not sent at the top level of a request; each has the value typed into the form, else
  the value stored for the connector unless that is null, else the field's default.
\<close>

theorem preview_config_exact:
  "dom (recipePreviewConfig fs vals stored) = {sf_name f |f. f \<in> set fs \<and> \<not> isTopLevelField f}
    \<and> (\<forall>f \<in> set fs. distinct (map sf_name fs) \<and> \<not> isTopLevelField f \<longrightarrow>
         recipePreviewConfig fs vals stored (sf_name f) = Some (config_value vals stored f))
    \<and> recipePreviewConfig fs vals stored ''url'' = None \<and> recipePreviewConfig fs vals stored ''verify_tls'' = None"
proof -
  have rev: "recipePreviewConfig (fs @ [f]) vals stored = (if isTopLevelField f then recipePreviewConfig fs vals stored
      else (recipePreviewConfig fs vals stored)(sf_name f \<mapsto> config_value vals stored f))" for fs f
    by (simp add: recipePreviewConfig_def)
  have d: "dom (recipePreviewConfig fs vals stored) = {sf_name f |f. f \<in> set fs \<and> \<not> isTopLevelField f}" for fs
    by (induction fs rule: rev_induct) (auto simp: rev, simp add: recipePreviewConfig_def)
  moreover have "f \<in> set fs \<Longrightarrow> distinct (map sf_name fs) \<Longrightarrow> \<not> isTopLevelField f \<Longrightarrow>
      recipePreviewConfig fs vals stored (sf_name f) = Some (config_value vals stored f)" for f
  proof (induction fs rule: rev_induct)
    case (snoc x xs)
    then show ?case by (cases "f \<in> set xs") (auto simp: rev image_iff)
  qed simp
  moreover have "''url'' \<notin> dom (recipePreviewConfig fs vals stored)" "''verify_tls'' \<notin> dom (recipePreviewConfig fs vals stored)"
    unfolding d by (auto simp: isTopLevelField_def isVerifyTlsField_def)
  ultimately show ?thesis unfolding domIff by blast
qed

lemma preview_config_exact_witness:
  "recipePreviewConfig [\<lparr>sf_name = ''port'', sf_kind = ''text'', sf_secret = None, sf_default = Some ''80''\<rparr>] Map.empty Map.empty ''port''
     = Some (JStr ''80'')"
  using preview_config_exact [of "[\<lparr>sf_name = ''port'', sf_kind = ''text'', sf_secret = None, sf_default = Some ''80''\<rparr>]" Map.empty Map.empty]
  by (simp add: isTopLevelField_def isVerifyTlsField_def config_value_def fieldDefault_def isToggleField_def)

end
