(* ===== verification/Appearance.thy ===== *)
theory Appearance
  imports Storage
begin

text \<open>
  Preferences of one browser: appearance (\<open>store/appearance.ts\<close>), motion
  (\<open>store/settings.ts\<close>), the small interface state (\<open>store/ui.ts\<close>) and the language
  (\<open>i18n/languages.ts\<close>, \<open>i18n/index.ts\<close>). Each persisted preference is an interpretation of the
  contract in \<open>Storage\<close>. The code runs in a browser: the branches for a missing \<open>window\<close> or
  \<open>document\<close> are left out. Values read from storage are not checked by the code, so the
  preferences are JSON values here too; what the page attributes hold is the value assigned.
\<close>

subsection \<open>The page\<close>

text \<open>Attributes of the root element, the injected style, and the document language.\<close>

record page =
  pg_data :: "string \<rightharpoonup> json"
  pg_style :: "string option"
  pg_lang :: "string option"

definition set_data :: "(string \<times> json) list \<Rightarrow> page \<Rightarrow> page" where
  "set_data kvs p = p\<lparr>pg_data := pg_data p ++ map_of (rev kvs)\<rparr>"

text \<open>A value in a condition.\<close>

fun truthy :: "json \<Rightarrow> bool" where
  "truthy JNull = False"
| "truthy (JBool b) = b"
| "truthy (JNum n) = (n \<noteq> 0)"
| "truthy (JStr s) = (s \<noteq> [])"
| "truthy _ = True"

text \<open>\<open>String(v)\<close> of a boolean; other values are turned into text by the attribute they are assigned to.\<close>

definition bool_text :: "json \<Rightarrow> json" where
  "bool_text v = (case v of JBool b \<Rightarrow> JStr (if b then ''true'' else ''false'') | _ \<Rightarrow> v)"

subsection \<open>Appearance\<close>

(* src store/appearance.ts 40-43 Prefs *)
record prefs =
  pf_contrast :: json
  pf_textSize :: json
  pf_density :: json
  pf_reduceTransparency :: json
  pf_focusRing :: json

(* src store/appearance.ts 37-37 STORAGE_KEY *)
definition APPEARANCE_KEY :: string where
  "APPEARANCE_KEY = ''wiselabz.appearance''"

(* src store/appearance.ts 45-51 DEFAULTS *)
definition DEFAULT_PREFS :: prefs where
  "DEFAULT_PREFS = \<lparr>pf_contrast = JStr ''normal'', pf_textSize = JStr ''base'', pf_density = JStr ''comfortable'',
     pf_reduceTransparency = JBool False, pf_focusRing = JStr ''standard''\<rparr>"

text \<open>\<open>{ ...p, ...patch }\<close>, and the object \<open>JSON.stringify\<close> writes.\<close>

definition override_prefs :: "prefs \<Rightarrow> (string \<Rightarrow> json option) \<Rightarrow> prefs" where
  "override_prefs p patch = \<lparr>
     pf_contrast = from_opt (pf_contrast p) (patch ''contrast''),
     pf_textSize = from_opt (pf_textSize p) (patch ''textSize''),
     pf_density = from_opt (pf_density p) (patch ''density''),
     pf_reduceTransparency = from_opt (pf_reduceTransparency p) (patch ''reduceTransparency''),
     pf_focusRing = from_opt (pf_focusRing p) (patch ''focusRing'')\<rparr>"

definition prefs_json :: "prefs \<Rightarrow> json" where
  "prefs_json p = JObj [(''contrast'', pf_contrast p), (''textSize'', pf_textSize p), (''density'', pf_density p),
     (''reduceTransparency'', pf_reduceTransparency p), (''focusRing'', pf_focusRing p)]"

text \<open>\<open>prefers\<close> is whether the system asks for more contrast.\<close>

(* src store/appearance.ts 53-65 seed *)
definition seed_appearance :: "bool \<Rightarrow> stored option \<Rightarrow> prefs" where
  "seed_appearance prefers item =
     (let first_run = DEFAULT_PREFS\<lparr>pf_contrast := JStr (if prefers then ''boost'' else ''normal'')\<rparr>
      in case item of
           None \<Rightarrow> first_run
         | Some s \<Rightarrow> (case json_parse s of
               Throw e \<Rightarrow> first_run
             | Ok (JObj ms) \<Rightarrow> override_prefs DEFAULT_PREFS (map_of ms)
             | Ok (JArr vs) \<Rightarrow> DEFAULT_PREFS
             | Ok v \<Rightarrow> first_run))"

(* src store/appearance.ts 67-101 css *)
definition css :: "prefs \<Rightarrow> string" where
  "css p = join_with [NL] (
     (if pf_contrast p = JStr ''boost'' then
       ['':root[data-contrast='' @ [CHR 0x27] @ ''boost'' @ [CHR 0x27] @ '']{--color-ink-muted:oklch(0.90 0.006 250);--color-ink-faint:oklch(0.86 0.008 250);}''] else [])
     @ (if pf_textSize p = JStr ''sm'' then ['':root[data-text-size='' @ [CHR 0x27] @ ''sm'' @ [CHR 0x27] @ '']{font-size:15px;}''] else [])
     @ (if pf_textSize p = JStr ''lg'' then ['':root[data-text-size='' @ [CHR 0x27] @ ''lg'' @ [CHR 0x27] @ '']{font-size:17.5px;}''] else [])
     @ (if pf_density p = JStr ''compact'' then ['':root[data-density='' @ [CHR 0x27] @ ''compact'' @ [CHR 0x27] @ '']{--spacing:0.22rem;}''] else [])
     @ (if pf_focusRing p = JStr ''bold'' then
       ['':root[data-focus-ring='' @ [CHR 0x27] @ ''bold'' @ [CHR 0x27] @ ''] :focus-visible{outline-width:3px !important;outline-offset:3px !important;}''] else [])
     @ (if truthy (pf_reduceTransparency p) then
       ['':root[data-reduce-transparency='' @ [CHR 0x27] @ ''true'' @ [CHR 0x27] @ ''] ::backdrop{background:var(--color-canvas) !important;}'',
        '':root[data-reduce-transparency='' @ [CHR 0x27] @ ''true'' @ [CHR 0x27] @ ''] *{backdrop-filter:none !important;-webkit-backdrop-filter:none !important;}''] else []))"

(* src store/appearance.ts 103-119 apply *)
definition apply_appearance :: "prefs \<Rightarrow> page \<Rightarrow> page" where
  "apply_appearance p pg = (set_data [(''contrast'', pf_contrast p), (''textSize'', pf_textSize p), (''density'', pf_density p),
     (''reduceTransparency'', bool_text (pf_reduceTransparency p)), (''focusRing'', pf_focusRing p)] pg)\<lparr>pg_style := Some (css p)\<rparr>"

text \<open>The store, the page and the storage together; an exception of \<open>setItem\<close> leaves the update.\<close>

record appearance =
  ap_prefs :: prefs
  ap_page :: page
  ap_browser :: browser

(* src store/appearance.ts 121-123 useAppearance *)
definition appearance_init :: "bool \<Rightarrow> page \<Rightarrow> browser \<Rightarrow> appearance" where
  "appearance_init prefers pg b = (let initial = seed_appearance prefers (getItem APPEARANCE_KEY b)
     in \<lparr>ap_prefs = initial, ap_page = apply_appearance initial pg, ap_browser = b\<rparr>)"

(* src store/appearance.ts 125-134 update *)
definition update_appearance :: "(string \<rightharpoonup> json) \<Rightarrow> appearance \<Rightarrow> appearance \<times> string option" where
  "update_appearance patch s =
     (let n = override_prefs (ap_prefs s) patch;
          shown = s\<lparr>ap_page := apply_appearance n (ap_page s)\<rparr>
      in case setItem APPEARANCE_KEY (Json (prefs_json n)) (ap_browser s) of
           Throw e \<Rightarrow> (shown, Some e)
         | Ok b \<Rightarrow> (shown\<lparr>ap_prefs := n, ap_browser := b\<rparr>, None))"

(* src store/appearance.ts 136-145 useAppearance *)
datatype appearance_op = SetContrast string | SetTextSize string | SetDensity string | SetReduceTransparency bool
  | SetFocusRing string | ResetAppearance

(* src store/appearance.ts 138-143 useAppearance *)
fun appearance_patch :: "appearance_op \<Rightarrow> (string \<rightharpoonup> json)" where
  "appearance_patch (SetContrast v) = [''contrast'' \<mapsto> JStr v]"
| "appearance_patch (SetTextSize v) = [''textSize'' \<mapsto> JStr v]"
| "appearance_patch (SetDensity v) = [''density'' \<mapsto> JStr v]"
| "appearance_patch (SetReduceTransparency v) = [''reduceTransparency'' \<mapsto> JBool v]"
| "appearance_patch (SetFocusRing v) = [''focusRing'' \<mapsto> JStr v]"
| "appearance_patch ResetAppearance = [''contrast'' \<mapsto> pf_contrast DEFAULT_PREFS, ''textSize'' \<mapsto> pf_textSize DEFAULT_PREFS,
     ''density'' \<mapsto> pf_density DEFAULT_PREFS, ''reduceTransparency'' \<mapsto> pf_reduceTransparency DEFAULT_PREFS,
     ''focusRing'' \<mapsto> pf_focusRing DEFAULT_PREFS]"

definition appearance_run :: "appearance_op list \<Rightarrow> appearance \<Rightarrow> appearance" where
  "appearance_run ops s = fold (\<lambda>a s. fst (update_appearance (appearance_patch a) s)) ops s"

subsection \<open>Motion\<close>

(* src store/settings.ts 11-11 STORAGE_KEY *)
definition MOTION_KEY :: string where
  "MOTION_KEY = ''wiselabz.motion''"

(* src store/settings.ts 9-9 MotionPref *)
datatype motion = Full | Reduced | Off

fun motion_text :: "motion \<Rightarrow> string" where
  "motion_text Full = ''full''"
| "motion_text Reduced = ''reduced''"
| "motion_text Off = ''off''"

(* src store/settings.ts 13-21 seed *)
definition seed_motion :: "bool \<Rightarrow> stored option \<Rightarrow> motion" where
  "seed_motion prefers saved =
     (if saved = Some (Text ''full'') then Full else if saved = Some (Text ''reduced'') then Reduced
      else if saved = Some (Text ''off'') then Off else if prefers then Reduced else Full)"

(* src store/settings.ts 23-27 apply *)
definition apply_motion :: "motion \<Rightarrow> page \<Rightarrow> page" where
  "apply_motion m pg = set_data [(''motion'', JStr (motion_text m))] pg"

(* src store/settings.ts 29-32 SettingsState *)
record settings =
  st_motion :: motion
  st_page :: page
  st_browser :: browser

(* src store/settings.ts 34-38 useSettings *)
definition settings_init :: "bool \<Rightarrow> page \<Rightarrow> browser \<Rightarrow> settings" where
  "settings_init prefers pg b = (let initial = seed_motion prefers (getItem MOTION_KEY b)
     in \<lparr>st_motion = initial, st_page = apply_motion initial pg, st_browser = b\<rparr>)"

(* src store/settings.ts 39-43 setMotion *)
definition setMotion :: "motion \<Rightarrow> settings \<Rightarrow> settings \<times> string option" where
  "setMotion m s = (let shown = s\<lparr>st_page := apply_motion m (st_page s)\<rparr>
     in case setItem MOTION_KEY (Text (motion_text m)) (st_browser s) of
          Throw e \<Rightarrow> (shown, Some e)
        | Ok b \<Rightarrow> (shown\<lparr>st_motion := m, st_browser := b\<rparr>, None))"

(* src store/settings.ts 47-50 framerReducedMotion *)
definition framerReducedMotion :: "motion \<Rightarrow> string" where
  "framerReducedMotion m = (if m = Full then ''never'' else ''always'')"

subsection \<open>Interface state\<close>

(* src store/ui.ts 5-5 DiffLayout *)
datatype diff_layout = Unified | Split

(* src store/ui.ts 6-6 DIFF_KEY *)
definition DIFF_KEY :: string where
  "DIFF_KEY = ''wiselabz.diffLayout''"

definition layout_text :: "diff_layout \<Rightarrow> string" where
  "layout_text l = (case l of Unified \<Rightarrow> ''unified'' | Split \<Rightarrow> ''split'')"

(* src store/ui.ts 7-10 loadDiffLayout *)
definition loadDiffLayout :: "stored option \<Rightarrow> diff_layout" where
  "loadDiffLayout item = (if item = Some (Text ''split'') then Split else Unified)"

(* src store/ui.ts 12-29 UiState *)
record ui_state =
  ui_paletteOpen :: bool
  ui_shortcutsOpen :: bool
  ui_sidebarCollapsed :: bool
  ui_diffLayout :: diff_layout
  ui_editingDashboard :: bool

(* src store/ui.ts 31-32 useUi *)
definition ui_init :: "browser \<Rightarrow> ui_state" where
  "ui_init b = \<lparr>ui_paletteOpen = False, ui_shortcutsOpen = False, ui_sidebarCollapsed = False,
     ui_diffLayout = loadDiffLayout (getItem DIFF_KEY b), ui_editingDashboard = False\<rparr>"

(* src store/ui.ts 12-29 UiState *)
datatype ui_op = SetPalette bool | TogglePalette | SetShortcuts bool | ToggleShortcuts | ToggleSidebar
  | SetDiffLayout diff_layout | SetEditingDashboard bool

(* src store/ui.ts 31-51 useUi *)
fun ui_step :: "ui_op \<Rightarrow> ui_state \<times> browser \<Rightarrow> (ui_state \<times> browser) \<times> string option" where
  "ui_step (SetPalette v) (u, b) = ((u\<lparr>ui_paletteOpen := v\<rparr>, b), None)"
| "ui_step TogglePalette (u, b) = ((u\<lparr>ui_paletteOpen := \<not> ui_paletteOpen u\<rparr>, b), None)"
| "ui_step (SetShortcuts v) (u, b) = ((u\<lparr>ui_shortcutsOpen := v\<rparr>, b), None)"
| "ui_step ToggleShortcuts (u, b) = ((u\<lparr>ui_shortcutsOpen := \<not> ui_shortcutsOpen u\<rparr>, b), None)"
| "ui_step ToggleSidebar (u, b) = ((u\<lparr>ui_sidebarCollapsed := \<not> ui_sidebarCollapsed u\<rparr>, b), None)"
| "ui_step (SetDiffLayout l) (u, b) = (case setItem DIFF_KEY (Text (layout_text l)) b of
     Throw e \<Rightarrow> ((u, b), Some e) | Ok b' \<Rightarrow> ((u\<lparr>ui_diffLayout := l\<rparr>, b'), None))"
| "ui_step (SetEditingDashboard v) (u, b) = ((u\<lparr>ui_editingDashboard := v\<rparr>, b), None)"

subsection \<open>Language\<close>

(* src i18n/languages.ts 23-23 FALLBACK_LANGUAGE *)
definition FALLBACK_LANGUAGE :: string where
  "FALLBACK_LANGUAGE = ''en''"

text \<open>The locales: code, native name, and whether the catalogue is loaded on demand.\<close>

(* src i18n/languages.ts 25-31 LANGUAGES *)
definition LANGUAGES :: "(string \<times> string \<times> bool) list" where
  "LANGUAGES = [(''en'', ''English'', False), (''pt-BR'', ''Portugu'' @ [CHR 0xEA] @ ''s (Brasil)'', True)]"

(* src i18n/languages.ts 36-36 STORAGE_KEY *)
definition LANGUAGE_KEY :: string where
  "LANGUAGE_KEY = ''wiselabz.language''"

(* src i18n/languages.ts 38-46 getLanguagePreference *)
definition getLanguagePreference :: "stored option \<Rightarrow> string" where
  "getLanguagePreference saved = (case saved of
     Some (Text s) \<Rightarrow> if s \<noteq> [] \<and> (s = ''auto'' \<or> key_in s (map fst LANGUAGES)) then s else ''auto''
   | _ \<Rightarrow> ''auto'')"

(* src i18n/languages.ts 48-54 saveLanguagePreference *)
definition saveLanguagePreference :: "string \<Rightarrow> browser \<Rightarrow> browser" where
  "saveLanguagePreference pref b = (case setItem LANGUAGE_KEY (Text pref) b of Throw e \<Rightarrow> b | Ok b' \<Rightarrow> b')"

definition lower_text :: "string \<Rightarrow> string" where
  "lower_text s = map to_lower s"

definition primary_tag :: "string \<Rightarrow> string" where
  "primary_tag s = hd (split_on CHR ''-'' s)"

(* src i18n/languages.ts 60-77 detectLanguage *)
fun detectLanguage :: "string list \<Rightarrow> string" where
  "detectLanguage [] = FALLBACK_LANGUAGE"
| "detectLanguage (tag # tags) =
     (let lower = lower_text tag; codes = map fst LANGUAGES
      in case find (\<lambda>c. lower_text c = lower) codes of
           Some exact \<Rightarrow> exact
         | None \<Rightarrow> (case find (\<lambda>c. primary_tag (lower_text c) = primary_tag lower) codes of
               Some partial_match \<Rightarrow> partial_match
             | None \<Rightarrow> detectLanguage tags))"

(* src i18n/languages.ts 79-81 resolveLanguage *)
definition resolveLanguage :: "string list \<Rightarrow> string \<Rightarrow> string" where
  "resolveLanguage browserLanguages pref = (if pref = ''auto'' then detectLanguage browserLanguages else pref)"

text \<open>The translation library: which catalogues it has, and the active language.\<close>

record i18n =
  in_bundles :: "string set"
  in_language :: string
  in_page :: page

(* src i18n/index.ts 19-25 init *)
definition i18n_start :: "page \<Rightarrow> i18n" where
  "i18n_start pg = \<lparr>in_bundles = {''en''}, in_language = FALLBACK_LANGUAGE, in_page = pg\<rparr>"

(* src i18n/index.ts 27-29 languageChanged *)
definition changeLanguage :: "string \<Rightarrow> i18n \<Rightarrow> i18n" where
  "changeLanguage code i = i\<lparr>in_language := code, in_page := (in_page i)\<lparr>pg_lang := Some code\<rparr>\<rparr>"

text \<open>\<open>loads code\<close> says whether the catalogue's chunk arrives.\<close>

(* src i18n/index.ts 31-42 activate *)
definition activate :: "(string \<Rightarrow> bool) \<Rightarrow> string \<Rightarrow> i18n \<Rightarrow> i18n" where
  "activate loads code i =
     (if map_option snd (map_of LANGUAGES code) = Some True \<and> code \<notin> in_bundles i
      then (if loads code then changeLanguage code (i\<lparr>in_bundles := insert code (in_bundles i)\<rparr>)
            else changeLanguage FALLBACK_LANGUAGE i)
      else changeLanguage code i)"

(* src i18n/index.ts 44-48 setLanguagePreference *)
definition setLanguagePreference :: "(string \<Rightarrow> bool) \<Rightarrow> string list \<Rightarrow> string \<Rightarrow> i18n \<times> browser \<Rightarrow> i18n \<times> browser" where
  "setLanguagePreference loads browserLanguages pref s = (case s of (i, b) \<Rightarrow>
     (activate loads (resolveLanguage browserLanguages pref) i, saveLanguagePreference pref b))"

(* src i18n/index.ts 50-51 i18nReady *)
definition i18nReady :: "(string \<Rightarrow> bool) \<Rightarrow> string list \<Rightarrow> page \<Rightarrow> browser \<Rightarrow> i18n" where
  "i18nReady loads browserLanguages pg b =
     activate loads (resolveLanguage browserLanguages (getLanguagePreference (getItem LANGUAGE_KEY b))) (i18n_start pg)"

subsection \<open>Stored preferences come back\<close>

lemma seed_saved [simp]: "seed_appearance prefers (Some (Json (prefs_json p))) = p"
  by (simp add: seed_appearance_def prefs_json_def override_prefs_def)

lemma seed_motion_saved [simp]: "seed_motion prefers (Some (Text (motion_text m))) = m"
  by (cases m) (simp_all add: seed_motion_def)

lemma load_diff_saved [simp]: "loadDiffLayout (Some (Text (layout_text l))) = l"
  by (cases l) (simp_all add: loadDiffLayout_def layout_text_def)

definition known_language :: "string \<Rightarrow> bool" where
  "known_language s \<longleftrightarrow> s = ''auto'' \<or> s \<in> set (map fst LANGUAGES)"

lemma language_saved [simp]: "known_language s \<Longrightarrow> getLanguagePreference (Some (Text s)) = s"
  by (auto simp: known_language_def getLanguagePreference_def key_in_def LANGUAGES_def)

interpretation appearance_store: persisted APPEARANCE_KEY "\<lambda>p. Json (prefs_json p)" "seed_appearance prefers" "\<lambda>_. True" for prefers
  by unfold_locales simp

interpretation language_store: persisted LANGUAGE_KEY Text getLanguagePreference known_language
  by unfold_locales simp

interpretation motion_and_diff: persisted_pair
  MOTION_KEY "\<lambda>m. Text (motion_text m)" "seed_motion prefers" "\<lambda>_. True"
  DIFF_KEY "\<lambda>l. Text (layout_text l)" loadDiffLayout "\<lambda>_. True" for prefers
  by unfold_locales (simp_all add: MOTION_KEY_def DIFF_KEY_def)

subsection \<open>The appearance on the page\<close>

text \<open>The page shows the preferences: applying them again changes nothing.\<close>

definition shows_prefs :: "prefs \<Rightarrow> page \<Rightarrow> bool" where
  "shows_prefs p pg \<longleftrightarrow> apply_appearance p pg = pg"

lemma apply_shows [simp]: "shows_prefs p (apply_appearance p pg)"
  by (simp add: shows_prefs_def apply_appearance_def set_data_def)

lemma shows_prefs_attributes:
  "shows_prefs p pg \<Longrightarrow> pg_data pg ''contrast'' = Some (pf_contrast p) \<and> pg_data pg ''textSize'' = Some (pf_textSize p)
     \<and> pg_data pg ''density'' = Some (pf_density p) \<and> pg_data pg ''focusRing'' = Some (pf_focusRing p)
     \<and> pg_data pg ''reduceTransparency'' = Some (bool_text (pf_reduceTransparency p)) \<and> pg_style pg = Some (css p)"
proof -
  assume "shows_prefs p pg"
  then have "pg_data pg k = pg_data (apply_appearance p pg) k" "pg_style pg = pg_style (apply_appearance p pg)" for k
    by (simp_all add: shows_prefs_def)
  then show ?thesis by (simp add: apply_appearance_def set_data_def)
qed

lemma update_ok:
  assumes "\<not> br_blocked (ap_browser s)"
  shows "update_appearance patch s = (\<lparr>ap_prefs = override_prefs (ap_prefs s) patch,
    ap_page = apply_appearance (override_prefs (ap_prefs s) patch) (ap_page s),
    ap_browser = (ap_browser s)\<lparr>br_items := (br_items (ap_browser s))(APPEARANCE_KEY \<mapsto> Json (prefs_json (override_prefs (ap_prefs s) patch)))\<rparr>\<rparr>, None)"
  using assms by (simp add: update_appearance_def setItem_def Let_def)

lemma run_append: "appearance_run (ops @ [a]) s = fst (update_appearance (appearance_patch a) (appearance_run ops s))"
  by (simp add: appearance_run_def)

text \<open>
  In a browser that stores preferences the appearance stays consistent. After any sequence
  of changes and resets the attributes and the style on the page are those of the preferences in
  the store, a reload seeds exactly these preferences, whatever the system asks for, and nothing
  else in the storage was touched.
\<close>

theorem appearance_consistent:
  assumes "\<not> br_blocked b"
  shows "let s = appearance_run ops (appearance_init prefers pg b) in
    pg_data (ap_page s) ''contrast'' = Some (pf_contrast (ap_prefs s)) \<and> pg_data (ap_page s) ''textSize'' = Some (pf_textSize (ap_prefs s))
    \<and> pg_data (ap_page s) ''density'' = Some (pf_density (ap_prefs s)) \<and> pg_data (ap_page s) ''focusRing'' = Some (pf_focusRing (ap_prefs s))
    \<and> pg_style (ap_page s) = Some (css (ap_prefs s))
    \<and> (ops \<noteq> [] \<longrightarrow> seed_appearance system (getItem APPEARANCE_KEY (ap_browser s)) = ap_prefs s)
    \<and> (\<forall>k. k \<noteq> APPEARANCE_KEY \<longrightarrow> getItem k (ap_browser s) = getItem k b)"
proof -
  let ?run = "\<lambda>ops. appearance_run ops (appearance_init prefers pg b)"
  have "shows_prefs (ap_prefs (?run ops)) (ap_page (?run ops)) \<and> \<not> br_blocked (ap_browser (?run ops))
      \<and> (ops \<noteq> [] \<longrightarrow> getItem APPEARANCE_KEY (ap_browser (?run ops)) = Some (Json (prefs_json (ap_prefs (?run ops)))))
      \<and> (\<forall>k. k \<noteq> APPEARANCE_KEY \<longrightarrow> getItem k (ap_browser (?run ops)) = getItem k b)"
  proof (induction ops rule: rev_induct)
    case Nil
    then show ?case using assms by (simp add: appearance_run_def appearance_init_def Let_def)
  next
    case (snoc a ops)
    then show ?case by (simp add: run_append update_ok getItem_def)
  qed
  then show ?thesis using shows_prefs_attributes by (simp add: Let_def)
qed

lemma appearance_consistent_witness:
  "pg_data (ap_page (appearance_run [SetDensity ''compact''] (appearance_init False
     \<lparr>pg_data = Map.empty, pg_style = None, pg_lang = None\<rparr> \<lparr>br_items = Map.empty, br_blocked = False\<rparr>))) ''density'' = Some (JStr ''compact'')"
  using appearance_consistent [of "\<lparr>br_items = Map.empty, br_blocked = False\<rparr>" "[SetDensity ''compact'']" False
      "\<lparr>pg_data = Map.empty, pg_style = None, pg_lang = None\<rparr>" False]
  by (simp add: Let_def appearance_run_def appearance_init_def update_ok override_prefs_def)

text \<open>
  Where the browser refuses to store, a preference is half applied. Changing the
  appearance or the motion setting ends in an exception: the page already shows the new value,
  the store keeps the old one, and nothing is stored, so that the controls and a reload disagree
  with the page. The language is different: its failing write is caught and the language changes.
\<close>

theorem blocked_storage_half_applied:
  assumes "br_blocked (ap_browser s)" and "br_blocked (st_browser t)" and "br_blocked b"
  shows "(\<exists>e s'. update_appearance patch s = (s', Some e) \<and> ap_prefs s' = ap_prefs s \<and> ap_browser s' = ap_browser s
       \<and> shows_prefs (override_prefs (ap_prefs s) patch) (ap_page s'))
    \<and> (\<exists>e t'. setMotion m t = (t', Some e) \<and> st_motion t' = st_motion t \<and> st_browser t' = st_browser t
       \<and> pg_data (st_page t') ''motion'' = Some (JStr (motion_text m)))
    \<and> setLanguagePreference loads tags pref (i, b) = (activate loads (resolveLanguage tags pref) i, b)"
  using assms
  by (simp add: update_appearance_def setMotion_def setItem_def Let_def apply_motion_def set_data_def
      setLanguagePreference_def saveLanguagePreference_def)

lemma blocked_storage_half_applied_witness:
  "\<exists>e t'. setMotion Off \<lparr>st_motion = Full, st_page = \<lparr>pg_data = Map.empty, pg_style = None, pg_lang = None\<rparr>,
       st_browser = \<lparr>br_items = Map.empty, br_blocked = True\<rparr>\<rparr> = (t', Some e) \<and> st_motion t' = Full"
  using blocked_storage_half_applied [THEN conjunct2, THEN conjunct1, of "\<lparr>ap_prefs = DEFAULT_PREFS, ap_page = \<lparr>pg_data = Map.empty, pg_style = None, pg_lang = None\<rparr>,
       ap_browser = \<lparr>br_items = Map.empty, br_blocked = True\<rparr>\<rparr>"
      "\<lparr>st_motion = Full, st_page = \<lparr>pg_data = Map.empty, pg_style = None, pg_lang = None\<rparr>,
       st_browser = \<lparr>br_items = Map.empty, br_blocked = True\<rparr>\<rparr>" "\<lparr>br_items = Map.empty, br_blocked = True\<rparr>" Off]
  by auto

subsection \<open>Two preferences and a reload\<close>

lemma setMotion_store: "snd (setMotion m t) = None \<Longrightarrow>
    motion_and_diff.a.store m (st_browser t) = Ok (st_browser (fst (setMotion m t))) \<and> st_motion (fst (setMotion m t)) = m"
  by (auto simp: setMotion_def motion_and_diff.a.store_def Let_def split: sum.splits)

lemma setDiff_store: "snd (ui_step (SetDiffLayout l) (u, b)) = None \<Longrightarrow>
    motion_and_diff.b.store l b = Ok (snd (fst (ui_step (SetDiffLayout l) (u, b))))"
  by (auto simp: motion_and_diff.b.store_def split: sum.splits)

text \<open>
  The motion setting and the diff layout live side by side: when both changes went
  through, a reload finds both, the motion setting not reset by the change of the layout, and
  whatever the system prefers.
\<close>

theorem motion_and_layout_reload:
  assumes "snd (setMotion m t) = None" and "snd (ui_step (SetDiffLayout l) (u, st_browser (fst (setMotion m t)))) = None"
  shows "let b = snd (fst (ui_step (SetDiffLayout l) (u, st_browser (fst (setMotion m t)))))
    in st_motion (settings_init prefers pg b) = m \<and> ui_diffLayout (ui_init b) = l"
  using motion_and_diff.store_both [OF TrueI TrueI conjunct1 [OF setMotion_store [OF assms(1)]] setDiff_store [OF assms(2)], of prefers]
  by (simp add: settings_init_def ui_init_def Let_def motion_and_diff.a.reload_def motion_and_diff.b.reload_def)

lemma motion_and_layout_reload_witness:
  "let b = snd (fst (ui_step (SetDiffLayout Split) (ui_init \<lparr>br_items = Map.empty, br_blocked = False\<rparr>,
       st_browser (fst (setMotion Off (settings_init False \<lparr>pg_data = Map.empty, pg_style = None, pg_lang = None\<rparr>
         \<lparr>br_items = Map.empty, br_blocked = False\<rparr>))))))
   in st_motion (settings_init True \<lparr>pg_data = Map.empty, pg_style = None, pg_lang = None\<rparr> b) = Off \<and> ui_diffLayout (ui_init b) = Split"
  by (rule motion_and_layout_reload) (simp_all add: setMotion_def settings_init_def setItem_def Let_def)

subsection \<open>The language\<close>

lemma find_P: "find P xs = Some x \<Longrightarrow> P x \<and> x \<in> set xs"
  by (induction xs) (auto split: if_splits)

lemma detect_known: "detectLanguage tags \<in> set (map fst LANGUAGES)"
proof (induction tags)
  case (Cons tag tags)
  then show ?case using find_P by (fastforce simp: Let_def split: option.splits)
qed (simp add: FALLBACK_LANGUAGE_def LANGUAGES_def)

definition matches_tag :: "string \<Rightarrow> bool" where
  "matches_tag tag \<longleftrightarrow> (\<exists>c \<in> set (map fst LANGUAGES). primary_tag (lower_text c) = primary_tag (lower_text tag))"

lemma detect_skip: "\<not> matches_tag tag \<Longrightarrow> detectLanguage (tag # tags) = detectLanguage tags"
proof -
  assume n: "\<not> matches_tag tag"
  then have "find (\<lambda>c. primary_tag (lower_text c) = primary_tag (lower_text tag)) (map fst LANGUAGES) = None"
    unfolding matches_tag_def find_None_iff by blast
  moreover have "find (\<lambda>c. lower_text c = lower_text tag) (map fst LANGUAGES) = None"
    using n unfolding matches_tag_def find_None_iff by metis
  ultimately show ?thesis by (simp add: Let_def)
qed

lemma detect_match: "matches_tag tag \<Longrightarrow>
    primary_tag (lower_text (detectLanguage (tag # tags))) = primary_tag (lower_text tag)"
proof -
  assume m: "matches_tag tag"
  let ?exact = "find (\<lambda>c. lower_text c = lower_text tag) (map fst LANGUAGES)"
  let ?partial = "find (\<lambda>c. primary_tag (lower_text c) = primary_tag (lower_text tag)) (map fst LANGUAGES)"
  have "?partial \<noteq> None" using m unfolding matches_tag_def find_None_iff by blast
  then obtain p where p: "?partial = Some p" by blast
  show ?thesis
  proof (cases ?exact)
    case None
    then show ?thesis using p find_P [OF p] by (simp add: Let_def)
  next
    case (Some e)
    then show ?thesis using find_P [OF Some] by (simp add: Let_def)
  qed
qed

text \<open>
  The language of the interface is one it can show. Following the browser, it is a
  supported language: the first of the browser's languages that shares its primary subtag with a
  supported one decides, and without any the language is English. After a change of the preference
  to "automatic" or a supported language the catalogue of the active language is there (English,
  if the chosen one does not load), the page's language attribute agrees, and a reload
  remembers the preference.
\<close>

theorem language_has_catalogue:
  assumes "known_language pref" and "''en'' \<in> in_bundles i" and "\<not> br_blocked b"
  shows "let (i', b') = setLanguagePreference loads tags pref (i, b) in
      in_language i' \<in> in_bundles i' \<and> pg_lang (in_page i') = Some (in_language i')
    \<and> getLanguagePreference (getItem LANGUAGE_KEY b') = pref
    \<and> ((\<forall>code \<in> set (map fst LANGUAGES). loads code) \<longrightarrow> in_language i' = resolveLanguage tags pref)
    \<and> resolveLanguage tags pref \<in> set (map fst LANGUAGES)
    \<and> (\<forall>skipped tag rest. list_all (\<lambda>t. \<not> matches_tag t) skipped \<and> matches_tag tag \<longrightarrow>
         primary_tag (lower_text (detectLanguage (skipped @ tag # rest))) = primary_tag (lower_text tag))"
proof -
  let ?code = "resolveLanguage tags pref"
  have code: "?code \<in> set (map fst LANGUAGES)"
    using assms(1) detect_known by (auto simp: resolveLanguage_def known_language_def)
  then have act: "in_language (activate loads ?code i) \<in> in_bundles (activate loads ?code i)
      \<and> pg_lang (in_page (activate loads ?code i)) = Some (in_language (activate loads ?code i))
      \<and> ((\<forall>code \<in> set (map fst LANGUAGES). loads code) \<longrightarrow> in_language (activate loads ?code i) = ?code)"
    using assms(2) by (auto simp: activate_def changeLanguage_def LANGUAGES_def FALLBACK_LANGUAGE_def)
  have saved: "getLanguagePreference (getItem LANGUAGE_KEY (saveLanguagePreference pref b)) = pref"
    using assms(1,3) by (simp add: saveLanguagePreference_def setItem_def getItem_def)
  have skip: "detectLanguage (skipped @ tags) = detectLanguage tags" if "list_all (\<lambda>t. \<not> matches_tag t) skipped" for skipped tags
    using that by (induction skipped) (simp_all add: detect_skip del: detectLanguage.simps)
  show ?thesis
    unfolding setLanguagePreference_def Let_def prod.case using act saved code skip detect_match by auto
qed

lemma language_has_catalogue_witness:
  "let (i', b') = setLanguagePreference (\<lambda>_. True) [''fr'', ''pt''] ''auto'' (i18n_start \<lparr>pg_data = Map.empty, pg_style = None, pg_lang = None\<rparr>,
       \<lparr>br_items = Map.empty, br_blocked = False\<rparr>) in in_language i' \<in> in_bundles i' \<and> getLanguagePreference (getItem LANGUAGE_KEY b') = ''auto''"
proof -
  have "known_language ''auto''" by (simp add: known_language_def)
  moreover have "''en'' \<in> in_bundles (i18n_start \<lparr>pg_data = Map.empty, pg_style = None, pg_lang = None\<rparr>)" by (simp add: i18n_start_def)
  moreover have "\<not> br_blocked \<lparr>br_items = Map.empty, br_blocked = False\<rparr>" by simp
  ultimately show ?thesis
    using language_has_catalogue [of "''auto''" "i18n_start \<lparr>pg_data = Map.empty, pg_style = None, pg_lang = None\<rparr>"
        "\<lparr>br_items = Map.empty, br_blocked = False\<rparr>" "\<lambda>_. True" "[''fr'', ''pt'']"]
    unfolding case_prod_unfold Let_def by blast
qed

end
