(* ===== verification/Theme.thy ===== *)
theory Theme
  imports Appearance
begin

text \<open>
  The theme engine (\<open>theme.ts\<close>) and the theme store (\<open>store/theme.ts\<close>): fonts, palettes built
  from ten options, presets, and the choice that is applied to the page and stored. Colours are
  kept as their three components; arithmetic on options is rational, so the last digits of a
  printed component may differ from those of binary floating point. What is computed from an
  option that is not a number is \<open>Unspecified\<close>.
\<close>

subsection \<open>Fonts\<close>

text \<open>Label, monospaced and proportional family.\<close>

(* src theme.ts 21-31 FONT_SETS *)
definition FONT_SETS :: "(string \<times> string \<times> string \<times> string) list" where
  "FONT_SETS = [
     (''rack'', ''Rack'', [CHR 0x27] @ ''Martian Mono Variable'' @ [CHR 0x27], [CHR 0x27] @ ''Big Shoulders Text Variable'' @ [CHR 0x27]),
     (''plex'', ''IBM Plex'', [CHR 0x27] @ ''IBM Plex Mono'' @ [CHR 0x27], [CHR 0x27] @ ''IBM Plex Sans'' @ [CHR 0x27]),
     (''jetbrains'', ''JetBrains'', [CHR 0x27] @ ''JetBrains Mono Variable'' @ [CHR 0x27], [CHR 0x27] @ ''Inter Tight Variable'' @ [CHR 0x27]),
     (''space'', ''Space'', [CHR 0x27] @ ''Space Mono'' @ [CHR 0x27], [CHR 0x27] @ ''Space Grotesk Variable'' @ [CHR 0x27]),
     (''geist'', ''Geist'', [CHR 0x27] @ ''Geist Mono Variable'' @ [CHR 0x27], [CHR 0x27] @ ''Geist Variable'' @ [CHR 0x27])]"

(* src theme.ts 35-40 fontLoaders *)
definition fontLoaders :: "string list" where
  "fontLoaders = [''rack'', ''plex'', ''jetbrains'', ''geist'']"

text \<open>
  The inherited members of an object that fail when they are called without arguments: the
  prototype is no function, and the two definers want one.
\<close>

definition failing_members :: "string list" where
  "failing_members = [''__proto__'', ''__defineGetter__'', ''__defineSetter__'']"

text \<open>The fonts requested so far, or an exception. Inherited members are called like loaders.\<close>

(* src theme.ts 44-53 loadFont *)
definition loadFont :: "string \<Rightarrow> string list \<Rightarrow> string list result" where
  "loadFont font loaded =
     (if font = ''space'' \<or> font \<in> set loaded then Ok loaded
      else if font \<in> set fontLoaders then Ok (font # loaded)
      else if font \<in> set object_prototype \<and> font \<notin> set failing_members then Ok (font # loaded)
      else Throw ''TypeError'')"

subsection \<open>Palettes\<close>

(* src theme.ts 60-71 PaletteOpts *)
datatype opt_key = NeutralHue | NeutralChroma | CanvasL | AccentPrimaryHue | AccentPrimaryChroma | AccentPrimaryL
  | AccentPrimaryInkHue | AccentSecondaryHue | AccentSecondaryChroma | AccentSecondaryL

definition all_keys :: "opt_key list" where
  "all_keys = [NeutralHue, NeutralChroma, CanvasL, AccentPrimaryHue, AccentPrimaryChroma, AccentPrimaryL,
     AccentPrimaryInkHue, AccentSecondaryHue, AccentSecondaryChroma, AccentSecondaryL]"

fun key_name :: "opt_key \<Rightarrow> string" where
  "key_name NeutralHue = ''neutralHue''"
| "key_name NeutralChroma = ''neutralChroma''"
| "key_name CanvasL = ''canvasL''"
| "key_name AccentPrimaryHue = ''accentPrimaryHue''"
| "key_name AccentPrimaryChroma = ''accentPrimaryChroma''"
| "key_name AccentPrimaryL = ''accentPrimaryL''"
| "key_name AccentPrimaryInkHue = ''accentPrimaryInkHue''"
| "key_name AccentSecondaryHue = ''accentSecondaryHue''"
| "key_name AccentSecondaryChroma = ''accentSecondaryChroma''"
| "key_name AccentSecondaryL = ''accentSecondaryL''"

type_synonym palette_opts = "opt_key \<Rightarrow> json"

(* src theme.ts 73-84 DEFAULT_OPTS *)
fun DEFAULT_OPTS :: "opt_key \<Rightarrow> json" where
  "DEFAULT_OPTS NeutralHue = JNum 85"
| "DEFAULT_OPTS NeutralChroma = JNum (6 / 1000)"
| "DEFAULT_OPTS CanvasL = JNum (16 / 100)"
| "DEFAULT_OPTS AccentPrimaryHue = JNum 45"
| "DEFAULT_OPTS AccentPrimaryChroma = JNum (18 / 100)"
| "DEFAULT_OPTS AccentPrimaryL = JNum (74 / 100)"
| "DEFAULT_OPTS AccentPrimaryInkHue = JNum 55"
| "DEFAULT_OPTS AccentSecondaryHue = JNum 240"
| "DEFAULT_OPTS AccentSecondaryChroma = JNum (11 / 100)"
| "DEFAULT_OPTS AccentSecondaryL = JNum (64 / 100)"

record opt_meta =
  om_label :: string
  om_min :: rat
  om_max :: rat
  om_step :: rat
  om_hint :: string

definition meta :: "string \<Rightarrow> rat \<Rightarrow> rat \<Rightarrow> rat \<Rightarrow> string \<Rightarrow> opt_meta" where
  "meta l lo hi st hint = \<lparr>om_label = l, om_min = lo, om_max = hi, om_step = st, om_hint = hint\<rparr>"

(* src theme.ts 86-149 OPT_META *)
fun OPT_META :: "opt_key \<Rightarrow> opt_meta" where
  "OPT_META NeutralHue = meta ''Neutral hue'' 0 360 1 ''tint of the dark base''"
| "OPT_META NeutralChroma = meta ''Neutral chroma'' 0 (3 / 100) (1 / 1000) ''0 = pure gray''"
| "OPT_META CanvasL = meta ''Background lightness'' (1 / 10) (22 / 100) (5 / 1000) (''darker '' @ [CHR 0x9B] @ '' '' @ [ARROW] @ '' lighter'')"
| "OPT_META AccentPrimaryHue = meta ''Primary accent hue'' 0 360 1 ''main action / selection color''"
| "OPT_META AccentPrimaryChroma = meta ''Primary accent chroma'' (5 / 100) (2 / 10) (5 / 1000) (''muted '' @ [CHR 0x9B] @ '' '' @ [ARROW] @ '' vivid'')"
| "OPT_META AccentPrimaryL = meta ''Primary accent lightness'' (5 / 10) (88 / 100) (1 / 100) (''darker '' @ [CHR 0x9B] @ '' '' @ [ARROW] @ '' brighter'')"
| "OPT_META AccentPrimaryInkHue = meta ''Primary-accent-text hue'' 0 360 1 ''text drawn on the primary accent''"
| "OPT_META AccentSecondaryHue = meta ''Secondary accent hue'' 0 360 1 ''links / secondary emphasis color''"
| "OPT_META AccentSecondaryChroma = meta ''Secondary accent chroma'' (5 / 100) (2 / 10) (5 / 1000) (''muted '' @ [CHR 0x9B] @ '' '' @ [ARROW] @ '' vivid'')"
| "OPT_META AccentSecondaryL = meta ''Secondary accent lightness'' (5 / 10) (88 / 100) (1 / 100) (''darker '' @ [CHR 0x9B] @ '' '' @ [ARROW] @ '' brighter'')"

datatype component = Num rat | Other json | Unspecified

datatype colour = Oklch component component component

definition comp :: "json \<Rightarrow> component" where
  "comp v = (case v of JNum n \<Rightarrow> Num n | _ \<Rightarrow> Other v)"

text \<open>An option plus, or times, a number.\<close>

definition plus :: "json \<Rightarrow> rat \<Rightarrow> component" where
  "plus v r = (case v of JNum n \<Rightarrow> Num (n + r) | _ \<Rightarrow> Unspecified)"

definition times :: "json \<Rightarrow> rat \<Rightarrow> component" where
  "times v r = (case v of JNum n \<Rightarrow> Num (n * r) | _ \<Rightarrow> Unspecified)"

text \<open>\<open>{ ...DEFAULT_OPTS, ...opts }\<close>.\<close>

definition with_defaults :: "(opt_key \<rightharpoonup> json) \<Rightarrow> palette_opts" where
  "with_defaults opts k = from_opt (DEFAULT_OPTS k) (opts k)"

(* src theme.ts 151-198 makePalette *)
definition makePalette :: "(opt_key \<rightharpoonup> json) \<Rightarrow> (string \<times> colour) list" where
  "makePalette opts =
     (let opt = with_defaults opts;
          nc = opt NeutralChroma; cL = opt CanvasL;
          pL = opt AccentPrimaryL; pC = opt AccentPrimaryChroma;
          sL = opt AccentSecondaryL; sC = opt AccentSecondaryChroma;
          N = (\<lambda>l c. Oklch l c (comp (opt NeutralHue)));
          P = (\<lambda>l c. Oklch l c (comp (opt AccentPrimaryHue)));
          S = (\<lambda>l c. Oklch l c (comp (opt AccentSecondaryHue)))
      in [(''--color-canvas'', N (comp cL) (comp nc)),
          (''--color-canvas-sunken'', N (plus cL (- 27 / 1000)) (comp nc)),
          (''--color-surface'', N (plus cL (28 / 1000)) (plus nc (1 / 1000))),
          (''--color-surface-raised'', N (plus cL (58 / 1000)) (plus nc (2 / 1000))),
          (''--color-surface-overlay'', N (plus cL (5 / 100)) (plus nc (2 / 1000))),
          (''--color-line-soft'', N (Num (255 / 1000)) (comp nc)),
          (''--color-line'', N (Num (315 / 1000)) (comp nc)),
          (''--color-line-strong'', N (Num (44 / 100)) (plus nc (2 / 1000))),
          (''--color-ink'', N (Num (975 / 1000)) (Num (3 / 1000))),
          (''--color-ink-muted'', N (Num (82 / 100)) (Num (7 / 1000))),
          (''--color-ink-faint'', N (Num (78 / 100)) (Num (8 / 1000))),
          (''--color-accent-primary'', P (comp pL) (comp pC)),
          (''--color-accent-primary-bright'', P (plus pL (7 / 100)) (plus pC (- 1 / 100))),
          (''--color-accent-primary-ink'', Oklch (Num (17 / 100)) (Num (3 / 100)) (comp (opt AccentPrimaryInkHue))),
          (''--color-accent-primary-soft'', P (Num (46 / 100)) (times pC (62 / 100))),
          (''--color-accent-primary-tint'', P (Num (27 / 100)) (times pC (32 / 100))),
          (''--color-accent-secondary'', S (comp sL) (comp sC)),
          (''--color-accent-secondary-bright'', S (plus sL (7 / 100)) (plus sC (- 1 / 100))),
          (''--color-accent-secondary-soft'', S (Num (46 / 100)) (times sC (62 / 100))),
          (''--color-accent-secondary-tint'', S (Num (27 / 100)) (times sC (32 / 100))),
          (''--color-ok'', Oklch (Num (8 / 10)) (Num (12 / 100)) (Num 145)),
          (''--color-ok-tint'', Oklch (Num (27 / 100)) (Num (5 / 100)) (Num 145)),
          (''--color-warn'', Oklch (Num (84 / 100)) (Num (14 / 100)) (Num 80)),
          (''--color-warn-tint'', Oklch (Num (3 / 10)) (Num (6 / 100)) (Num 80)),
          (''--color-err'', Oklch (Num (67 / 100)) (Num (2 / 10)) (Num 25)),
          (''--color-err-tint'', Oklch (Num (3 / 10)) (Num (8 / 100)) (Num 25)),
          (''--color-idle'', N (Num (78 / 100)) (Num (8 / 1000))),
          (''--color-idle-tint'', N (Num (26 / 100)) (comp nc))])"

subsection \<open>Presets\<close>

text \<open>Label, description and options of each preset.\<close>

(* src theme.ts 204-237 PRESETS *)
definition PRESETS :: "(string \<times> string \<times> string \<times> (opt_key \<times> json) list) list" where
  "PRESETS = [
     (''rack'', ''Rack'', ''safety-orange + cable-blue '' @ [CHR 0xB7] @ '' warm steel'', []),
     (''phosphor'', ''Phosphor'', ''terminal green + amber '' @ [CHR 0xB7] @ '' true black'',
        [(NeutralHue, JNum 140), (NeutralChroma, JNum (4 / 1000)), (CanvasL, JNum (135 / 1000)), (AccentPrimaryHue, JNum 145),
         (AccentPrimaryChroma, JNum (16 / 100)), (AccentPrimaryL, JNum (8 / 10)), (AccentSecondaryHue, JNum 80),
         (AccentSecondaryChroma, JNum (13 / 100)), (AccentSecondaryL, JNum (78 / 100))]),
     (''blueprint-classic'', ''Blueprint (classic)'', ''orange '' @ [CHR 0xB7] @ '' cool slate '' @ [EM_DASH] @ '' the original identity'',
        [(NeutralHue, JNum 250), (NeutralChroma, JNum (8 / 1000)), (CanvasL, JNum (135 / 1000)), (AccentPrimaryHue, JNum 52),
         (AccentPrimaryChroma, JNum (135 / 1000)), (AccentPrimaryL, JNum (8 / 10)), (AccentPrimaryInkHue, JNum 70),
         (AccentSecondaryHue, JNum 232), (AccentSecondaryChroma, JNum (14 / 100)), (AccentSecondaryL, JNum (74 / 100))])]"

text \<open>\<open>PRESETS[name].opts\<close>; what every object inherits has no options.\<close>

definition preset_partial :: "string \<Rightarrow> (opt_key \<rightharpoonup> json)" where
  "preset_partial name = (case map_of PRESETS name of Some (l, d, opts) \<Rightarrow> map_of opts | None \<Rightarrow> Map.empty)"

(* src theme.ts 241-244 presetOpts *)
definition presetOpts :: "string \<Rightarrow> palette_opts" where
  "presetOpts name = with_defaults (preset_partial name)"

(* src theme.ts 259-262 ACTIVE *)
definition ACTIVE :: "string \<times> string" where
  "ACTIVE = (''rack'', ''space'')"

datatype style_value = Colour colour | Family string

record theme_page =
  tp_style :: "string \<rightharpoonup> style_value"
  tp_palette :: "string option"

text \<open>The families of a font name that is only inherited print as \<open>undefined\<close>.\<close>

definition families :: "string \<Rightarrow> string \<times> string" where
  "families font = (case map_of FONT_SETS font of Some (label, m, f) \<Rightarrow> (m, f) | None \<Rightarrow> (''undefined'', ''undefined''))"

(* src theme.ts 246-254 applyTokens *)
definition applyTokens :: "(string \<times> colour) list \<Rightarrow> string \<Rightarrow> string \<Rightarrow> theme_page \<Rightarrow> theme_page" where
  "applyTokens tokens font paletteName pg =
     (let styled = tp_style pg ++ map_of (rev (map (\<lambda>(k, v). (k, Colour v)) tokens))
      in pg\<lparr>tp_style := styled(
           ''--font-mono'' \<mapsto> Family (fst (families font) @ '', ui-monospace, '' @ [CHR 0x27] @ ''SF Mono'' @ [CHR 0x27] @ '', Menlo, monospace''),
           ''--font-sans'' \<mapsto> Family (snd (families font) @ '', ui-sans-serif, system-ui, sans-serif'')),
         tp_palette := (if paletteName = [] then tp_palette pg else Some paletteName)\<rparr>)"

subsection \<open>The store\<close>

(* src store/theme.ts 22-22 ColorMode *)
datatype color_mode = Preset_mode | Custom_mode

(* src store/theme.ts 24-29 Persisted *)
record theme =
  th_font :: string
  th_mode :: color_mode
  th_preset :: string
  th_custom :: palette_opts

(* src store/theme.ts 41-41 STORAGE_KEY *)
definition THEME_KEY :: string where
  "THEME_KEY = ''wiselabz.theme.v3''"

(* src store/theme.ts 66-73 PRESETS_FONTS *)
definition PRESETS_FONTS :: "string list" where
  "PRESETS_FONTS = [''rack'', ''plex'', ''jetbrains'', ''space'', ''geist'']"

definition fallback_theme :: theme where
  "fallback_theme = \<lparr>th_font = snd ACTIVE, th_mode = Preset_mode, th_preset = fst ACTIVE, th_custom = presetOpts (fst ACTIVE)\<rparr>"

text \<open>\<open>p.k && p.k in keys ? p.k : d\<close> for a text.\<close>

definition text_in :: "string list \<Rightarrow> json option \<Rightarrow> string \<Rightarrow> string" where
  "text_in keys v d = (case v of Some (JStr s) \<Rightarrow> if s \<noteq> [] \<and> key_in s keys then s else d | _ \<Rightarrow> d)"

text \<open>A stored \<open>null\<close> makes the reads throw, which is caught.\<close>

(* src store/theme.ts 43-64 load *)
definition load_theme :: "stored option \<Rightarrow> theme" where
  "load_theme item = (case item of None \<Rightarrow> fallback_theme
     | Some s \<Rightarrow> (case json_parse s of
         Throw e \<Rightarrow> fallback_theme
       | Ok p \<Rightarrow> if p = JNull then fallback_theme
           else \<lparr>th_font = text_in PRESETS_FONTS (member ''font'' p) (th_font fallback_theme),
             th_mode = (if member ''mode'' p = Some (JStr ''custom'') then Custom_mode else Preset_mode),
             th_preset = text_in (map fst PRESETS) (member ''preset'' p) (th_preset fallback_theme),
             th_custom = (\<lambda>k. from_opt (th_custom fallback_theme k) (Option.bind (member ''custom'' p) (member (key_name k))))\<rparr>))"

(* src store/theme.ts 75-77 tokensFor *)
definition tokensFor :: "theme \<Rightarrow> (string \<times> colour) list" where
  "tokensFor s = (if th_mode s = Custom_mode then makePalette (\<lambda>k. Some (th_custom s k)) else makePalette (preset_partial (th_preset s)))"

definition theme_json :: "theme \<Rightarrow> json" where
  "theme_json s = JObj [(''font'', JStr (th_font s)), (''mode'', JStr (if th_mode s = Custom_mode then ''custom'' else ''preset'')),
     (''preset'', JStr (th_preset s)), (''custom'', JObj (map (\<lambda>k. (key_name k, th_custom s k)) all_keys))]"

record theme_env =
  te_page :: theme_page
  te_browser :: browser
  te_loaded :: "string list"

text \<open>Each step may end in an exception; what was done before stays done.\<close>

(* src store/theme.ts 79-86 commit *)
definition commit_theme :: "theme \<Rightarrow> theme_env \<Rightarrow> theme_env \<times> string option" where
  "commit_theme s env = (case loadFont (th_font s) (te_loaded env) of
     Throw e \<Rightarrow> (env, Some e)
   | Ok loaded \<Rightarrow>
      (let shown = env\<lparr>te_loaded := loaded, te_page := applyTokens (tokensFor s) (th_font s)
             (if th_mode s = Custom_mode then ''custom'' else th_preset s) (te_page env)\<rparr>
       in case setItem THEME_KEY (Json (theme_json s)) (te_browser env) of
            Throw e \<Rightarrow> (shown, Some e)
          | Ok b \<Rightarrow> (shown\<lparr>te_browser := b\<rparr>, None)))"

(* src store/theme.ts 88-90 useTheme *)
definition theme_init :: "theme_env \<Rightarrow> (theme \<times> theme_env) \<times> string option" where
  "theme_init env = (let initial = load_theme (getItem THEME_KEY (te_browser env)); (env', e) = commit_theme initial env
     in ((initial, env'), e))"

(* src store/theme.ts 31-39 ThemeState *)
datatype theme_op = SetFont string | SetMode color_mode | SetPreset string | SetCustomOpt opt_key json | ForkPreset | ResetTheme

(* src store/theme.ts 98-113 useTheme *)
fun theme_patch :: "theme_op \<Rightarrow> theme \<Rightarrow> theme" where
  "theme_patch (SetFont f) s = s\<lparr>th_font := f\<rparr>"
| "theme_patch (SetMode m) s = s\<lparr>th_mode := m\<rparr>"
| "theme_patch (SetPreset p) s = s\<lparr>th_mode := Preset_mode, th_preset := p\<rparr>"
| "theme_patch (SetCustomOpt k v) s = s\<lparr>th_mode := Custom_mode, th_custom := (th_custom s)(k := v)\<rparr>"
| "theme_patch ForkPreset s = s\<lparr>th_mode := Custom_mode, th_custom := presetOpts (th_preset s)\<rparr>"
| "theme_patch ResetTheme s = fallback_theme"

(* src store/theme.ts 92-96 update *)
definition update_theme :: "theme_op \<Rightarrow> theme \<times> theme_env \<Rightarrow> (theme \<times> theme_env) \<times> string option" where
  "update_theme a st = (case st of (s, env) \<Rightarrow>
     (let n = theme_patch a s; (env', e) = commit_theme n env
      in ((if e = None then n else s, env'), e)))"

subsection \<open>Palettes stay in range\<close>

fun json_between :: "rat \<Rightarrow> rat \<Rightarrow> json \<Rightarrow> bool" where
  "json_between lo hi (JNum n) \<longleftrightarrow> lo \<le> n \<and> n \<le> hi"
| "json_between lo hi _ \<longleftrightarrow> False"

definition opts_in_range :: "(opt_key \<rightharpoonup> json) \<Rightarrow> bool" where
  "opts_in_range opts \<longleftrightarrow> list_all (\<lambda>k. json_between (om_min (OPT_META k)) (om_max (OPT_META k)) (with_defaults opts k)) all_keys"

fun between :: "rat \<Rightarrow> rat \<Rightarrow> component \<Rightarrow> bool" where
  "between lo hi (Num n) \<longleftrightarrow> lo \<le> n \<and> n \<le> hi"
| "between lo hi _ \<longleftrightarrow> False"

text \<open>Lightness strictly between black and white.\<close>

fun in_gamut :: "colour \<Rightarrow> bool" where
  "in_gamut (Oklch l c h) \<longleftrightarrow> between (5 / 100) (98 / 100) l \<and> between 0 (1 / 5) c \<and> between 0 360 h"

lemma json_between_iff: "json_between lo hi v \<longleftrightarrow> (\<exists>n. v = JNum n \<and> lo \<le> n \<and> n \<le> hi)"
  by (cases v) auto

lemma opt_range: "opts_in_range opts \<Longrightarrow> \<exists>n. with_defaults opts k = JNum n \<and> om_min (OPT_META k) \<le> n \<and> n \<le> om_max (OPT_META k)"
  unfolding opts_in_range_def all_keys_def json_between_iff by (cases k) simp_all

lemma meta_sel [simp]: "om_min (meta l a b st h) = a" "om_max (meta l a b st h) = b"
  by (simp_all add: meta_def)

lemma presets_in_range: "name \<in> set (map fst PRESETS) \<Longrightarrow> opts_in_range (preset_partial name)"
  by (auto simp: opts_in_range_def all_keys_def PRESETS_def with_defaults_def preset_partial_def)

text \<open>
  Every palette the sliders can make consists of displayable colours. For options within
  the ranges of the advanced settings, and so for every preset, each token has a lightness
  between 0.05 and 0.98, a chroma between zero and 0.2 and a hue between 0 and 360.
\<close>

theorem palette_in_gamut:
  assumes "opts_in_range opts"
  shows "(\<forall>(name, c) \<in> set (makePalette opts). in_gamut c)
    \<and> (\<forall>preset \<in> set (map fst PRESETS). \<forall>(name, c) \<in> set (makePalette (preset_partial preset)). in_gamut c)"
proof -
  have "\<forall>(name, c) \<in> set (makePalette opts). in_gamut c" if r: "opts_in_range opts" for opts
  proof -
    obtain nh nc cl ph pc pl ih sh sc sl where v:
      "with_defaults opts NeutralHue = JNum nh" "with_defaults opts NeutralChroma = JNum nc" "with_defaults opts CanvasL = JNum cl"
      "with_defaults opts AccentPrimaryHue = JNum ph" "with_defaults opts AccentPrimaryChroma = JNum pc"
      "with_defaults opts AccentPrimaryL = JNum pl" "with_defaults opts AccentPrimaryInkHue = JNum ih"
      "with_defaults opts AccentSecondaryHue = JNum sh" "with_defaults opts AccentSecondaryChroma = JNum sc"
      "with_defaults opts AccentSecondaryL = JNum sl"
      and b: "0 \<le> nh" "nh \<le> 360" "0 \<le> nc" "nc \<le> 3 / 100" "1 / 10 \<le> cl" "cl \<le> 22 / 100" "0 \<le> ph" "ph \<le> 360"
        "5 / 100 \<le> pc" "pc \<le> 2 / 10" "5 / 10 \<le> pl" "pl \<le> 88 / 100" "0 \<le> ih" "ih \<le> 360" "0 \<le> sh" "sh \<le> 360"
        "5 / 100 \<le> sc" "sc \<le> 2 / 10" "5 / 10 \<le> sl" "sl \<le> 88 / 100"
      using opt_range [OF r, of NeutralHue] opt_range [OF r, of NeutralChroma] opt_range [OF r, of CanvasL]
        opt_range [OF r, of AccentPrimaryHue] opt_range [OF r, of AccentPrimaryChroma] opt_range [OF r, of AccentPrimaryL]
        opt_range [OF r, of AccentPrimaryInkHue] opt_range [OF r, of AccentSecondaryHue]
        opt_range [OF r, of AccentSecondaryChroma] opt_range [OF r, of AccentSecondaryL]
      by auto
    show ?thesis
      unfolding makePalette_def Let_def v comp_def plus_def times_def json.case using b by simp
  qed
  then show ?thesis using assms presets_in_range by blast
qed

lemma palette_in_gamut_witness:
  "list_all (\<lambda>(name, c). in_gamut c) (makePalette [AccentPrimaryHue \<mapsto> JNum 300])"
proof -
  have "opts_in_range [AccentPrimaryHue \<mapsto> JNum 300]"
    by (simp add: opts_in_range_def all_keys_def with_defaults_def)
  from palette_in_gamut [OF this] show ?thesis unfolding list_all_iff by blast
qed

subsection \<open>Forking a preset\<close>

lemma with_defaults_full: "with_defaults (\<lambda>k. Some (with_defaults opts k)) = with_defaults opts"
  by (rule ext) (simp add: with_defaults_def)

lemma makePalette_full: "makePalette (\<lambda>k. Some (with_defaults opts k)) = makePalette opts"
  unfolding makePalette_def with_defaults_full ..

text \<open>
  Copying a preset into the advanced settings changes no colour. For every preset the
  palette built from its completed options is that of the preset itself, so forking switches the
  mode and keeps every token; and a reset gives the tokens of the first start.
\<close>

theorem fork_keeps_palette:
  "makePalette (\<lambda>k. Some (presetOpts name k)) = makePalette (preset_partial name)
    \<and> (th_mode s = Preset_mode \<longrightarrow> tokensFor (theme_patch ForkPreset s) = tokensFor s)
    \<and> tokensFor (theme_patch ResetTheme s) = tokensFor (load_theme None)"
  by (simp add: presetOpts_def makePalette_full tokensFor_def load_theme_def)

lemma fork_keeps_palette_witness:
  "tokensFor (theme_patch ForkPreset fallback_theme) = tokensFor fallback_theme"
  using fork_keeps_palette [of "''rack''" fallback_theme] by (simp add: fallback_theme_def)

subsection \<open>Saving and loading\<close>

definition theme_ok :: "theme \<Rightarrow> bool" where
  "theme_ok s \<longleftrightarrow> th_font s \<in> set PRESETS_FONTS \<and> th_preset s \<in> set (map fst PRESETS)"

lemma key_name_inj: "key_name a = key_name b \<Longrightarrow> a = b"
  by (cases a; cases b) simp_all

lemma custom_member: "map_of (map (\<lambda>k. (key_name k, g k)) all_keys) (key_name k) = Some (g k)"
  by (cases k) (simp_all add: all_keys_def)

lemma text_in_ok: "s \<in> set keys \<Longrightarrow> s \<noteq> [] \<Longrightarrow> text_in keys (Some (JStr s)) d = s"
  by (simp add: text_in_def key_in_def)

lemma load_theme_saved: "theme_ok s \<Longrightarrow> load_theme (Some (Json (theme_json s))) = s"
proof -
  assume ok: "theme_ok s"
  then have ne: "th_font s \<noteq> []" "th_preset s \<noteq> []"
    by (auto simp: theme_ok_def PRESETS_FONTS_def PRESETS_def)
  have "member ''font'' (theme_json s) = Some (JStr (th_font s))" "member ''preset'' (theme_json s) = Some (JStr (th_preset s))"
    "member ''mode'' (theme_json s) = Some (JStr (if th_mode s = Custom_mode then ''custom'' else ''preset''))"
    "member ''custom'' (theme_json s) = Some (JObj (map (\<lambda>k. (key_name k, th_custom s k)) all_keys))"
    by (simp_all add: theme_json_def)
  moreover have "theme_json s \<noteq> JNull" by (simp add: theme_json_def)
  moreover have "th_mode s = Custom_mode \<or> th_mode s = Preset_mode" by (cases "th_mode s") auto
  ultimately show ?thesis
    using ok ne by (auto simp: load_theme_def theme_ok_def text_in_ok custom_member intro!: theme.equality)
qed

interpretation theme_store: persisted THEME_KEY "\<lambda>s. Json (theme_json s)" load_theme theme_ok
  by unfold_locales (rule load_theme_saved)

interpretation theme_and_appearance: persisted_pair
  THEME_KEY "\<lambda>s. Json (theme_json s)" load_theme theme_ok
  APPEARANCE_KEY "\<lambda>p. Json (prefs_json p)" "seed_appearance prefers" "\<lambda>_. True" for prefers
  by unfold_locales (simp add: THEME_KEY_def APPEARANCE_KEY_def)

subsection \<open>The theme on the page\<close>

definition token_names :: "string list" where
  "token_names = map fst (makePalette Map.empty)"

lemma palette_names: "map fst (makePalette opts) = token_names"
  by (simp add: makePalette_def token_names_def Let_def)

lemma token_names_ok: "distinct token_names" "''--font-mono'' \<notin> set token_names" "''--font-sans'' \<notin> set token_names"
  by (simp_all add: token_names_def makePalette_def Let_def)

lemma map_of_rev_distinct: "distinct (map fst xs) \<Longrightarrow> map_of (rev xs) = map_of xs"
  by (intro map_of_eqI) (auto simp: rev_map [symmetric])

lemma tokens_shown:
  assumes "map fst tokens = token_names" and "(k, c) \<in> set tokens"
  shows "tp_style (applyTokens tokens font name pg) k = Some (Colour c)"
proof -
  have d: "distinct (map fst tokens)" using assms(1) token_names_ok(1) by simp
  have keys: "map fst (map (\<lambda>(k, v). (k, Colour v)) tokens) = map fst tokens" by (simp add: case_prod_unfold)
  have "map_of (rev (map (\<lambda>(k, v). (k, Colour v)) tokens)) = map_of (map (\<lambda>(k, v). (k, Colour v)) tokens)"
    by (rule map_of_rev_distinct) (simp add: keys d del: map_map)
  moreover have "map_of (map (\<lambda>(k, v). (k, Colour v)) tokens) k = Some (Colour c)"
    using assms(2) by (intro map_of_is_SomeI) (auto simp: keys d simp del: map_map)
  ultimately have "map_of (rev (map (\<lambda>(k, v). (k, Colour v)) tokens)) k = Some (Colour c)" by simp
  moreover have "k \<in> set token_names" using assms by (force simp flip: assms(1))
  then have "k \<noteq> ''--font-mono''" "k \<noteq> ''--font-sans''" using token_names_ok(2,3) by auto
  ultimately show ?thesis by (simp add: applyTokens_def Let_def map_add_def)
qed

lemma tokensFor_names: "map fst (tokensFor s) = token_names"
  by (simp add: tokensFor_def palette_names)

definition shows_theme :: "theme \<Rightarrow> theme_page \<Rightarrow> bool" where
  "shows_theme s pg \<longleftrightarrow> (\<forall>(k, c) \<in> set (tokensFor s). tp_style pg k = Some (Colour c))
     \<and> tp_palette pg = Some (if th_mode s = Custom_mode then ''custom'' else th_preset s)"

fun theme_op_ok :: "theme_op \<Rightarrow> bool" where
  "theme_op_ok (SetFont f) = (f \<in> set PRESETS_FONTS)"
| "theme_op_ok (SetPreset p) = (p \<in> set (map fst PRESETS))"
| "theme_op_ok _ = True"

lemma patch_ok: "theme_ok s \<Longrightarrow> theme_op_ok a \<Longrightarrow> theme_ok (theme_patch a s)"
  by (cases a) (auto simp: theme_ok_def fallback_theme_def ACTIVE_def PRESETS_FONTS_def PRESETS_def)

lemma font_loads: "f \<in> set PRESETS_FONTS \<Longrightarrow> \<exists>loaded'. loadFont f loaded = Ok loaded'"
  by (auto simp: PRESETS_FONTS_def loadFont_def fontLoaders_def)

text \<open>What holds between two operations in a browser that stores.\<close>

definition theme_inv :: "browser \<Rightarrow> theme \<times> theme_env \<Rightarrow> bool" where
  "theme_inv b0 st \<longleftrightarrow> theme_ok (fst st) \<and> shows_theme (fst st) (te_page (snd st)) \<and> \<not> br_blocked (te_browser (snd st))
     \<and> getItem THEME_KEY (te_browser (snd st)) = Some (Json (theme_json (fst st)))
     \<and> (\<forall>k. k \<noteq> THEME_KEY \<longrightarrow> getItem k (te_browser (snd st)) = getItem k b0)"

lemma commit_inv:
  assumes "theme_ok s" and "\<not> br_blocked (te_browser env)"
    and "\<forall>k. k \<noteq> THEME_KEY \<longrightarrow> getItem k (te_browser env) = getItem k b0"
  shows "snd (commit_theme s env) = None \<and> theme_inv b0 (s, fst (commit_theme s env))"
proof -
  obtain loaded where l: "loadFont (th_font s) (te_loaded env) = Ok loaded"
    using font_loads assms(1) by (auto simp: theme_ok_def)
  have "th_preset s \<noteq> []" using assms(1) by (auto simp: theme_ok_def PRESETS_def)
  then have "shows_theme s (applyTokens (tokensFor s) (th_font s) (if th_mode s = Custom_mode then ''custom'' else th_preset s) (te_page env))"
    using tokens_shown [OF tokensFor_names] by (auto simp: shows_theme_def applyTokens_def Let_def)
  then show ?thesis using l assms by (simp add: commit_theme_def theme_inv_def setItem_def getItem_def Let_def)
qed

definition theme_run :: "theme_op list \<Rightarrow> theme \<times> theme_env \<Rightarrow> theme \<times> theme_env" where
  "theme_run ops st = fold (\<lambda>a st. fst (update_theme a st)) ops st"

lemma update_inv: "theme_inv b0 st \<Longrightarrow> theme_op_ok a \<Longrightarrow> theme_inv b0 (fst (update_theme a st))"
  using commit_inv [of "theme_patch a (fst st)" "snd st" b0] patch_ok [of "fst st" a]
  by (cases st) (auto simp: update_theme_def theme_inv_def Let_def case_prod_unfold)

lemma run_inv: "theme_inv b0 st \<Longrightarrow> list_all theme_op_ok ops \<Longrightarrow> theme_inv b0 (theme_run ops st)"
  by (induction ops arbitrary: st) (auto simp: theme_run_def update_inv)

text \<open>
  The theme of the page is the chosen one and survives a reload. In a browser that stores,
  from any stored theme with a known font and preset and through any changes the settings offer,
  every colour token on the page is that of the chosen theme, a reload loads exactly this theme,
  and no other stored preference is touched.
\<close>

theorem theme_consistent:
  assumes "\<not> br_blocked (te_browser env)" and "theme_ok (load_theme (getItem THEME_KEY (te_browser env)))"
    and "list_all theme_op_ok ops"
  shows "let (s, env') = theme_run ops (fst (theme_init env)) in
    (\<forall>(k, c) \<in> set (tokensFor s). tp_style (te_page env') k = Some (Colour c))
    \<and> load_theme (getItem THEME_KEY (te_browser env')) = s
    \<and> (\<forall>k. k \<noteq> THEME_KEY \<longrightarrow> getItem k (te_browser env') = getItem k (te_browser env))"
proof -
  have "theme_inv (te_browser env) (fst (theme_init env))"
    using commit_inv [OF assms(2,1), of "te_browser env"] by (simp add: theme_init_def Let_def case_prod_unfold)
  then have "theme_inv (te_browser env) (theme_run ops (fst (theme_init env)))" using assms(3) by (rule run_inv)
  then show ?thesis
    using load_theme_saved by (auto simp: theme_inv_def shows_theme_def Let_def case_prod_unfold)
qed

definition fresh_env :: theme_env where
  "fresh_env = \<lparr>te_page = \<lparr>tp_style = Map.empty, tp_palette = None\<rparr>, te_browser = \<lparr>br_items = Map.empty, br_blocked = False\<rparr>, te_loaded = []\<rparr>"

lemma theme_consistent_witness:
  "load_theme (getItem THEME_KEY (te_browser (snd (theme_run [SetPreset ''phosphor'', SetFont ''plex''] (fst (theme_init fresh_env))))))
     = fst (theme_run [SetPreset ''phosphor'', SetFont ''plex''] (fst (theme_init fresh_env)))"
proof -
  have "theme_ok (load_theme (getItem THEME_KEY (te_browser fresh_env)))"
    by (simp add: fresh_env_def getItem_def load_theme_def theme_ok_def fallback_theme_def ACTIVE_def PRESETS_FONTS_def PRESETS_def)
  moreover have "list_all theme_op_ok [SetPreset ''phosphor'', SetFont ''plex'']" by (simp add: PRESETS_def PRESETS_FONTS_def)
  moreover have "\<not> br_blocked (te_browser fresh_env)" by (simp add: fresh_env_def)
  ultimately show ?thesis
    using theme_consistent [of fresh_env "[SetPreset ''phosphor'', SetFont ''plex'']"] by (simp add: Let_def case_prod_unfold)
qed

subsection \<open>Stored fonts that stop the start\<close>

text \<open>
  When does a stored theme keep the application from starting? With a working storage
  the first commit ends in an exception exactly when the loaded font is one of three names that
  every object inherits and that cannot be called as a loader. The guard of the loader accepts
  such a name, because \<open>in\<close> also finds inherited members: a stored font \<open>__proto__\<close> stops the
  application from starting.
\<close>

theorem stored_font_start:
  assumes "\<not> br_blocked (te_browser env)" and "te_loaded env = []"
  shows "(snd (theme_init env) \<noteq> None \<longleftrightarrow> th_font (load_theme (getItem THEME_KEY (te_browser env))) \<in> set failing_members)
    \<and> th_font (load_theme (Some (Json (JObj [(''font'', JStr ''__proto__'')])))) \<in> set failing_members"
proof -
  let ?s = "load_theme (getItem THEME_KEY (te_browser env))"
  have "th_font ?s \<in> set PRESETS_FONTS \<or> th_font ?s \<in> set object_prototype"
    by (auto simp: load_theme_def fallback_theme_def ACTIVE_def PRESETS_FONTS_def text_in_def key_in_def
        split: option.splits sum.splits json.splits)
  moreover have "f \<notin> set failing_members" if "f \<in> set PRESETS_FONTS" for f
    using that by (auto simp: PRESETS_FONTS_def failing_members_def)
  moreover have "(\<exists>e. loadFont f [] = Throw e) \<longleftrightarrow> f \<in> set failing_members" if "f \<in> set object_prototype" for f
    using that by (auto simp: object_prototype_def loadFont_def fontLoaders_def failing_members_def)
  ultimately have "(\<exists>e. loadFont (th_font ?s) [] = Throw e) \<longleftrightarrow> th_font ?s \<in> set failing_members"
    using font_loads [of "th_font ?s" "[]"] by auto
  then show ?thesis
    using assms by (auto simp: theme_init_def commit_theme_def setItem_def Let_def case_prod_unfold load_theme_def text_in_def
        key_in_def object_prototype_def failing_members_def split: sum.splits)
qed

lemma stored_font_start_witness:
  "snd (theme_init (fresh_env\<lparr>te_browser := \<lparr>br_items = [THEME_KEY \<mapsto> Json (JObj [(''font'', JStr ''__proto__'')])], br_blocked = False\<rparr>\<rparr>)) \<noteq> None"
  using stored_font_start [of "fresh_env\<lparr>te_browser := \<lparr>br_items = [THEME_KEY \<mapsto> Json (JObj [(''font'', JStr ''__proto__'')])], br_blocked = False\<rparr>\<rparr>"]
  by (simp add: fresh_env_def getItem_def)

end
