(* ===== verification/Mermaid.thy ===== *)
theory Mermaid
  imports Prelude
begin

text \<open>
  The queue of diagram renderings (\<open>lib/mermaid.ts\<close>). Calls arrive at any time; the module's
  promise chain runs them one after the other, because the Mermaid package keeps its
  configuration in global state. The state is that of the module with the calls still waiting,
  the phase of the running call, and a log of the calls the module makes. Whether the package
  could be loaded, and what a rendering gives, are events of the outside.
\<close>

record job =
  job_source :: string
  job_config :: string   \<comment> \<open>\<open>JSON.stringify(config)\<close>\<close>

datatype call = Initialize string | Render string string | RemoveElement string

datatype phase = Idle | Loading job | Drawing job string

record mermaid =
  waiting :: "job list"
  phase :: phase
  initializedConfig :: "string option"
  nextRenderId :: nat
  calls :: "call list"
  settled :: "(job \<times> string result) list"

(* src lib/mermaid.ts 3-5 module *)
definition mermaid_init :: mermaid where
  "mermaid_init = \<lparr>waiting = [], phase = Idle, initializedConfig = None, nextRenderId = 0, calls = [], settled = []\<rparr>"

text \<open>A call is chained to the queue: it starts when the one before it has settled.\<close>

(* src lib/mermaid.ts 8-9 renderMermaid *)
definition renderMermaid :: "job \<Rightarrow> mermaid \<Rightarrow> mermaid" where
  "renderMermaid j st =
     (if phase st = Idle then st\<lparr>phase := Loading j\<rparr> else st\<lparr>waiting := waiting st @ [j]\<rparr>)"

text \<open>The queue goes on whatever the outcome was: \<open>render.catch\<close>.\<close>

(* src lib/mermaid.ts 26-27 renderMermaid *)
definition settle :: "job \<Rightarrow> string result \<Rightarrow> mermaid \<Rightarrow> mermaid" where
  "settle j outcome st =
     (let st' = st\<lparr>settled := settled st @ [(j, outcome)]\<rparr>
      in case waiting st' of
           [] \<Rightarrow> st'\<lparr>phase := Idle\<rparr>
         | k # ks \<Rightarrow> st'\<lparr>phase := Loading k, waiting := ks\<rparr>)"

text \<open>The package has been loaded, or loading it failed.\<close>

(* src lib/mermaid.ts 10-19 renderMermaid *)
definition loaded :: "bool \<Rightarrow> mermaid \<Rightarrow> mermaid" where
  "loaded ok st =
     (case phase st of
        Loading j \<Rightarrow>
          if ok then
            let st1 = (if initializedConfig st \<noteq> Some (job_config j)
                       then st\<lparr>calls := calls st @ [Initialize (job_config j)], initializedConfig := Some (job_config j)\<rparr>
                       else st);
                n = Suc (nextRenderId st1);
                rid = ''mermaid-render-'' @ show_nat n
            in st1\<lparr>nextRenderId := n, calls := calls st1 @ [Render rid (job_source j)], phase := Drawing j rid\<rparr>
          else settle j (Throw ''import'') st
      | _ \<Rightarrow> st)"

(* src lib/mermaid.ts 18-24 renderMermaid *)
definition drawn :: "string result \<Rightarrow> mermaid \<Rightarrow> mermaid" where
  "drawn outcome st =
     (case phase st of
        Drawing j rid \<Rightarrow>
          settle j outcome (st\<lparr>calls := calls st @ [RemoveElement rid, RemoveElement (CHR ''d'' # rid)]\<rparr>)
      | _ \<Rightarrow> st)"

datatype event = Asked job | Loaded bool | Drawn "string result"

definition mermaid_step :: "event \<Rightarrow> mermaid \<Rightarrow> mermaid" where
  "mermaid_step e st = (case e of Asked j \<Rightarrow> renderMermaid j st | Loaded ok \<Rightarrow> loaded ok st | Drawn r \<Rightarrow> drawn r st)"

abbreviation mermaid_run :: "event list \<Rightarrow> mermaid" where
  "mermaid_run es \<equiv> fold mermaid_step es mermaid_init"

subsection \<open>What the package sees\<close>

text \<open>
  The state of the package as its calls determine it: the configuration in force, the id of the
  rendering under way, and the id and configuration of all renderings so far. \<^const>\<open>None\<close> is a
  protocol error: a call while a rendering is under way, a rendering without configuration, or
  the removal of anything but that rendering's two elements.
\<close>

record seen =
  in_force :: "string option"
  under_way :: "string option"
  half_removed :: bool
  renderings :: "(string \<times> string \<times> string) list"

fun observe :: "call \<Rightarrow> seen \<Rightarrow> seen option" where
  "observe (Initialize c) s = (if under_way s = None then Some (s\<lparr>in_force := Some c\<rparr>) else None)"
| "observe (Render rid source) s = (case in_force s of
       None \<Rightarrow> None
     | Some c \<Rightarrow> if under_way s = None
         then Some (s\<lparr>under_way := Some rid, half_removed := False, renderings := renderings s @ [(rid, c, source)]\<rparr>)
         else None)"
| "observe (RemoveElement e) s = (case under_way s of
       None \<Rightarrow> None
     | Some rid \<Rightarrow> if \<not> half_removed s \<and> e = rid then Some (s\<lparr>half_removed := True\<rparr>)
         else if half_removed s \<and> e = CHR ''d'' # rid then Some (s\<lparr>under_way := None, half_removed := False\<rparr>)
         else None)"

fun observe_all :: "call list \<Rightarrow> seen \<Rightarrow> seen option" where
  "observe_all [] s = Some s"
| "observe_all (c # cs) s = (case observe c s of None \<Rightarrow> None | Some s' \<Rightarrow> observe_all cs s')"

definition nothing_seen :: seen where
  "nothing_seen = \<lparr>in_force = None, under_way = None, half_removed = False, renderings = []\<rparr>"

lemma observe_all_append:
  "observe_all (xs @ ys) s = (case observe_all xs s of None \<Rightarrow> None | Some s' \<Rightarrow> observe_all ys s')"
  by (induction xs arbitrary: s) (auto split: option.splits)

text \<open>The jobs that reached the package: settled ones it could be loaded for, and the running one.\<close>

definition render_id :: "nat \<Rightarrow> string" where
  "render_id n = ''mermaid-render-'' @ show_nat n"

lemma render_id_inj: "render_id m = render_id n \<longleftrightarrow> m = n"
  by (auto simp: render_id_def) (metis show_nat_ok(1))

definition running :: "mermaid \<Rightarrow> job list" where
  "running st = (case phase st of Idle \<Rightarrow> [] | Loading j \<Rightarrow> [j] | Drawing j rid \<Rightarrow> [j])"

definition drawing_id :: "mermaid \<Rightarrow> string option" where
  "drawing_id st = (case phase st of Drawing j rid \<Rightarrow> Some rid | _ \<Rightarrow> None)"

definition asked :: "event list \<Rightarrow> job list" where
  "asked es = concat (map (\<lambda>e. case e of Asked j \<Rightarrow> [j] | _ \<Rightarrow> []) es)"

definition drawing :: "mermaid \<Rightarrow> job list" where
  "drawing st = (case phase st of Drawing j rid \<Rightarrow> [j] | _ \<Rightarrow> [])"

abbreviation drawn_as :: "job \<Rightarrow> string \<times> string" where
  "drawn_as j \<equiv> (job_config j, job_source j)"

text \<open>The renderings the package saw agree with the state of the module.\<close>

definition agrees :: "mermaid \<Rightarrow> seen \<Rightarrow> bool" where
  "agrees st s \<longleftrightarrow> in_force s = initializedConfig st \<and> under_way s = drawing_id st \<and> \<not> half_removed s
     \<and> map fst (renderings s) = map render_id [1 ..< Suc (nextRenderId st)]
     \<and> subseq (map snd (renderings s)) (map drawn_as (map fst (settled st) @ drawing st))"

definition mermaid_ok :: "mermaid \<Rightarrow> bool" where
  "mermaid_ok st \<longleftrightarrow> (phase st = Idle \<longrightarrow> waiting st = [])
     \<and> (case observe_all (calls st) nothing_seen of None \<Rightarrow> False | Some s \<Rightarrow> agrees st s)"

definition all_jobs :: "mermaid \<Rightarrow> job list" where
  "all_jobs st = map fst (settled st) @ running st @ waiting st"

lemma mermaid_init_ok: "mermaid_ok mermaid_init" "all_jobs mermaid_init = []"
  by (simp_all add: mermaid_ok_def agrees_def mermaid_init_def nothing_seen_def drawing_id_def drawing_def
      all_jobs_def running_def)

lemma renderMermaid_ok:
  assumes "mermaid_ok st"
  shows "mermaid_ok (renderMermaid j st)" "all_jobs (renderMermaid j st) = all_jobs st @ [j]"
  using assms
  by (auto simp: mermaid_ok_def agrees_def renderMermaid_def drawing_id_def drawing_def all_jobs_def running_def
      split: option.splits phase.splits)

lemma settle_ok:
  assumes "case observe_all (calls st) nothing_seen of None \<Rightarrow> False
    | Some s \<Rightarrow> in_force s = initializedConfig st \<and> under_way s = None \<and> \<not> half_removed s
        \<and> map fst (renderings s) = map render_id [1 ..< Suc (nextRenderId st)]
        \<and> subseq (map snd (renderings s)) (map drawn_as (map fst (settled st) @ [j]))"
    and "running st = [j]"
  shows "mermaid_ok (settle j r st)" "all_jobs (settle j r st) = all_jobs st"
  using assms
  by (auto simp: mermaid_ok_def agrees_def settle_def drawing_id_def drawing_def all_jobs_def running_def Let_def
      split: option.splits list.splits)

lemma loaded_ok:
  assumes "mermaid_ok st"
  shows "mermaid_ok (loaded ok st)" "all_jobs (loaded ok st) = all_jobs st"
proof -
  have "mermaid_ok (loaded ok st) \<and> all_jobs (loaded ok st) = all_jobs st"
  proof (cases "phase st")
    case (Loading j)
    then obtain s where s: "observe_all (calls st) nothing_seen = Some s" and a: "agrees st s"
      using assms by (auto simp: mermaid_ok_def split: option.splits)
    have free: "under_way s = None" using a Loading by (simp add: agrees_def drawing_id_def)
    have sub: "subseq (map snd (renderings s)) (map drawn_as (map fst (settled st)))"
      using a Loading by (simp add: agrees_def drawing_def)
    show ?thesis
    proof (cases ok)
      case True
      then show ?thesis using Loading s a free sub
        by (auto simp: loaded_def mermaid_ok_def agrees_def Let_def observe_all_append drawing_id_def drawing_def
            all_jobs_def running_def render_id_def intro: list_emb_append_mono split: option.splits)
    next
      case False
      have "subseq (map snd (renderings s)) (map drawn_as (map fst (settled st) @ [j]))"
        using sub by (simp add: list_emb_prefix)
      then show ?thesis
        using False Loading s a free settle_ok [of st j "Throw ''import''"]
        by (simp add: loaded_def agrees_def running_def)
    qed
  qed (use assms in \<open>simp_all add: loaded_def\<close>)
  then show "mermaid_ok (loaded ok st)" "all_jobs (loaded ok st) = all_jobs st" by simp_all
qed

lemma drawn_ok:
  assumes "mermaid_ok st"
  shows "mermaid_ok (drawn r st)" "all_jobs (drawn r st) = all_jobs st"
proof -
  have "mermaid_ok (drawn r st) \<and> all_jobs (drawn r st) = all_jobs st"
  proof (cases "phase st")
    case (Drawing j rid)
    then obtain s where s: "observe_all (calls st) nothing_seen = Some s" and a: "agrees st s"
      using assms by (auto simp: mermaid_ok_def split: option.splits)
    let ?st = "st\<lparr>calls := calls st @ [RemoveElement rid, RemoveElement (CHR ''d'' # rid)]\<rparr>"
    have "mermaid_ok (settle j r ?st)" "all_jobs (settle j r ?st) = all_jobs ?st"
      using settle_ok [of ?st j r] s a Drawing
      by (simp_all add: observe_all_append agrees_def drawing_id_def drawing_def running_def)
    then show ?thesis using Drawing by (simp add: drawn_def all_jobs_def running_def)
  qed (use assms in \<open>simp_all add: drawn_def\<close>)
  then show "mermaid_ok (drawn r st)" "all_jobs (drawn r st) = all_jobs st" by simp_all
qed

lemma mermaid_step_ok:
  "mermaid_ok st \<Longrightarrow> mermaid_ok (mermaid_step e st) \<and> all_jobs (mermaid_step e st) = all_jobs st @ asked [e]"
  by (cases e) (simp_all add: mermaid_step_def asked_def renderMermaid_ok loaded_ok drawn_ok)

lemma mermaid_run_ok: "mermaid_ok (mermaid_run es) \<and> all_jobs (mermaid_run es) = asked es"
proof (induction es rule: rev_induct)
  case Nil
  show ?case using mermaid_init_ok by (simp add: asked_def)
next
  case (snoc e es)
  then show ?case using mermaid_step_ok [of "mermaid_run es" e] by (simp add: asked_def)
qed

text \<open>
  However calls arrive and whatever the outcomes are, calls settle in the order they were made and
  none is lost; the package never gets a call while a rendering is under way; every rendering is
  made under the configuration of its own call, under an id of its own; and both elements of a
  rendering are removed before the next call.
\<close>

theorem mermaid_one_at_a_time:
  "map fst (settled (mermaid_run es)) @ running (mermaid_run es) @ waiting (mermaid_run es) = asked es
   \<and> (case observe_all (calls (mermaid_run es)) nothing_seen of
        None \<Rightarrow> False
      | Some s \<Rightarrow> under_way s = drawing_id (mermaid_run es)
          \<and> subseq (map snd (renderings s)) (map drawn_as (asked es)) \<and> distinct (map fst (renderings s)))"
proof -
  let ?st = "mermaid_run es"
  have ok: "mermaid_ok ?st" and all: "all_jobs ?st = asked es" using mermaid_run_ok [of es] by simp_all
  then obtain s where s: "observe_all (calls ?st) nothing_seen = Some s" and a: "agrees ?st s"
    by (auto simp: mermaid_ok_def split: option.splits)
  have "subseq (map snd (renderings s)) (map drawn_as (map fst (settled ?st) @ drawing ?st))"
    using a by (simp add: agrees_def)
  moreover have "subseq (map drawn_as (map fst (settled ?st) @ drawing ?st)) (map drawn_as (all_jobs ?st))"
    by (intro subseq_map) (auto simp: all_jobs_def drawing_def running_def split: phase.splits intro: list_emb_append_mono)
  ultimately have "subseq (map snd (renderings s)) (map drawn_as (asked es))"
    unfolding all by (rule subseq_order.order_trans)
  moreover have "distinct (map fst (renderings s))"
    using a by (simp add: agrees_def distinct_map inj_on_def render_id_inj del: upt_Suc)
  ultimately show ?thesis using s a all by (simp add: agrees_def all_jobs_def)
qed

end
