(* ===== verification/LabBook.thy ===== *)
theory LabBook
  imports Mermaid
begin

text \<open>
  The export of a document as a lab book (\<open>features/docs/labBook.ts\<close>) and the rendering of its
  diagrams (\<open>lib/mermaid.ts\<close>): rendering calls are run one at a time, each diagram is replaced by
  a sanitised drawing or kept as it is, and an abort ends the export. The Mermaid and DOMPurify
  packages are parameters. The lemmas show what a sanitised drawing cannot contain, that every
  diagram is rendered under its own configuration, and how an export ends.
\<close>

subsection \<open>References in style text\<close>

text \<open>
  \<open>\\\\([0-9a-fA-F]{1,6})\\s?\<close>: at most six hexadecimal digits and one white space after them. A
  code point outside the model's letters is shown by a replacement letter.
\<close>

definition hex_run :: "string \<Rightarrow> string" where
  "hex_run s = takeWhile is_hex (take 6 s)"

definition code_point :: "nat \<Rightarrow> char" where
  "code_point n = (if 0 < n \<and> n < 128 \<or> 160 \<le> n \<and> n < 256 then char_of n
     else if n = 0xFEFF then BOM else REPLACEMENT)"

lemma hex_run_le: "length (hex_run s) \<le> length s"
  using length_takeWhile_le [of is_hex "take 6 s"] by (simp add: hex_run_def)

(* src features/docs/labBook.ts 99-102 decodeCssEscapes *)
function decode_hex :: "string \<Rightarrow> string" where
  "decode_hex [] = []"
| "decode_hex (c # cs) =
     (if c = BACKSLASH \<and> hex_run cs \<noteq> []
      then code_point (nat_of_hex (hex_run cs))
        # decode_hex (let r = drop (length (hex_run cs)) cs in if r \<noteq> [] \<and> is_ws (hd r) then tl r else r)
      else c # decode_hex cs)"
  by pat_completeness auto
termination
  by (relation "measure length") (auto simp: Let_def)

(* src features/docs/labBook.ts 103-103 decodeCssEscapes *)
fun decode_char :: "string \<Rightarrow> string" where
  "decode_char [] = []"
| "decode_char [c] = [c]"
| "decode_char (c # d # s) = (if c = BACKSLASH then d # decode_char s else c # decode_char (d # s))"

(* src features/docs/labBook.ts 97-104 decodeCssEscapes *)
definition decodeCssEscapes :: "string \<Rightarrow> string" where
  "decodeCssEscapes val = decode_char (decode_hex val)"

text \<open>A word at the start of a text, in any case.\<close>

definition begins :: "string \<Rightarrow> string \<Rightarrow> bool" where
  "begins w s \<longleftrightarrow> map to_lower (take (length w) s) = w"

text \<open>\<open>/@import\\b/i\<close>.\<close>

fun has_import :: "string \<Rightarrow> bool" where
  "has_import [] = False"
| "has_import (c # s) = (begins ''@import'' (c # s) \<and> (drop 6 s = [] \<or> \<not> is_word_char (hd (drop 6 s))) \<or> has_import s)"

definition opens_after :: "string \<Rightarrow> string \<Rightarrow> bool" where
  "opens_after w s \<longleftrightarrow> begins w s \<and> starts_with ''('' (dropWhile is_ws (drop (length w) s))"

text \<open>\<open>/\\b(?:image-set|-webkit-image-set|src)\\s*\\(/i\<close>; \<open>word\<close>: the letter before is a word letter.\<close>

fun has_image_call :: "bool \<Rightarrow> string \<Rightarrow> bool" where
  "has_image_call word [] = False"
| "has_image_call word (c # s) =
     (\<not> word \<and> (opens_after ''image-set'' (c # s) \<or> opens_after ''src'' (c # s))
      \<or> word \<and> opens_after ''-webkit-image-set'' (c # s)
      \<or> has_image_call (is_word_char c) s)"

text \<open>The references of \<open>/url\\(([^)]*)\\)/gi\<close>, from left to right.\<close>

lemma dropWhile_drop_le: "length (dropWhile P (drop n s)) \<le> length s"
  using length_dropWhile_le [of P "drop n s"] by simp

function url_refs :: "string \<Rightarrow> string list" where
  "url_refs [] = []"
| "url_refs (c # s) =
     (let r = drop 3 s
      in if begins ''url('' (c # s) \<and> CHR '')'' \<in> set r
         then takeWhile (\<lambda>x. x \<noteq> CHR '')'') r # url_refs (drop 1 (dropWhile (\<lambda>x. x \<noteq> CHR '')'') r))
         else url_refs s)"
  by pat_completeness auto
termination
  by (relation "measure length") (auto intro: le_less_trans [OF diff_le_self] le_imp_less_Suc dropWhile_drop_le)

text \<open>\<open>/url\\s*\\(/i\<close>.\<close>

fun has_url :: "string \<Rightarrow> bool" where
  "has_url [] = False"
| "has_url (c # s) = (opens_after ''url'' (c # s) \<or> has_url s)"

text \<open>\<open>replace(/^(['"])(.*)\\1$/, '$2')\<close>; the dot matches no line terminator.\<close>

definition unquote :: "string \<Rightarrow> string" where
  "unquote s = (if 2 \<le> length s \<and> (hd s = CHR 0x27 \<or> hd s = DQUOTE) \<and> last s = hd s
       \<and> NL \<notin> set (butlast (tl s)) \<and> CR \<notin> set (butlast (tl s))
     then butlast (tl s) else s)"

(* src features/docs/labBook.ts 113-118 hasExternalUrl *)
definition external_ref :: "string \<Rightarrow> bool" where
  "external_ref reference \<longleftrightarrow> \<not> starts_with ''#'' (trim (unquote (trim reference)))"

(* src features/docs/labBook.ts 106-119 hasExternalUrl *)
definition hasExternalUrl :: "string \<Rightarrow> bool" where
  "hasExternalUrl raw \<longleftrightarrow>
     (let val = decodeCssEscapes raw; urls = url_refs val
      in if has_import val then True
         else if has_image_call False val then True
         else if has_url val \<and> urls = [] then True
         else list_ex external_ref urls)"

subsection \<open>What leads out of a document\<close>

text \<open>
  The requirement, apart from the code: a style text as it is read, escape by escape, and the places of such a text that name
  something outside of the document.
\<close>

function css_read :: "string \<Rightarrow> string" where
  "css_read [] = []"
| "css_read (c # s) =
     (if c \<noteq> BACKSLASH then c # css_read s
      else if hex_run s \<noteq> []
        then code_point (nat_of_hex (hex_run s)) # css_read (let r = drop (length (hex_run s)) s in if r \<noteq> [] \<and> is_ws (hd r) then tl r else r)
      else (case s of [] \<Rightarrow> [BACKSLASH] | d # s' \<Rightarrow> d # css_read s'))"
  by pat_completeness auto
termination
  by (relation "measure length") (auto simp: Let_def)

text \<open>Somewhere in a text, after a start and before a rest.\<close>

fun occurs :: "(string \<Rightarrow> string \<Rightarrow> bool) \<Rightarrow> string \<Rightarrow> string \<Rightarrow> bool" where
  "occurs P before [] = False"
| "occurs P before (c # s) = (P before (c # s) \<or> occurs P (before @ [c]) s)"

definition lower :: "string \<Rightarrow> string" where
  "lower s = map to_lower s"

text \<open>A word, in any case, with a bracket behind it, which white space may precede.\<close>

definition calls :: "string \<Rightarrow> string \<Rightarrow> bool" where
  "calls w s \<longleftrightarrow> lower (take (length w) s) = w \<and> take 1 (dropWhile is_ws (drop (length w) s)) = ''(''"

definition word_before :: "string \<Rightarrow> bool" where
  "word_before before \<longleftrightarrow> before \<noteq> [] \<and> is_word_char (last before)"

definition imports_sheet :: "string \<Rightarrow> string \<Rightarrow> bool" where
  "imports_sheet before s \<longleftrightarrow> lower (take 7 s) = ''@import'' \<and> \<not> (drop 7 s \<noteq> [] \<and> is_word_char (hd (drop 7 s)))"

definition names_image :: "string \<Rightarrow> string \<Rightarrow> bool" where
  "names_image before s \<longleftrightarrow> (calls ''image-set'' s \<or> calls ''src'' s) \<and> \<not> word_before before"

text \<open>
  The references: in every part of the text that a closing bracket ends, what follows the first \<open>url(\<close>. A reference stays in the
  document if it begins with a number sign, in quotes or without.
\<close>

fun after_url :: "string \<Rightarrow> string option" where
  "after_url [] = None"
| "after_url (c # s) = (if lower (take 4 (c # s)) = ''url('' then Some (drop 4 (c # s)) else after_url s)"

definition references :: "string \<Rightarrow> string list" where
  "references s = List.map_filter after_url (butlast (split_on CHR '')'' s))"

definition stays :: "string \<Rightarrow> bool" where
  "stays r \<longleftrightarrow> take 1 (trim r) = ''#''
     \<or> (\<exists>q x. q \<in> {CHR 0x27, DQUOTE} \<and> trim r = q # x @ [q] \<and> NL \<notin> set x \<and> CR \<notin> set x \<and> take 1 (trim x) = ''#'')"

definition leads_out :: "string \<Rightarrow> bool" where
  "leads_out s \<longleftrightarrow> occurs imports_sheet [] s \<or> occurs names_image [] s \<or> list_ex (\<lambda>r. \<not> stays r) (references s)
     \<or> references s = [] \<and> occurs (\<lambda>before. calls ''url'') [] s"

lemma begins_lower: "begins w s \<longleftrightarrow> lower (take (length w) s) = w"
  by (simp add: begins_def lower_def)

lemma starts_take: "starts_with [x] s \<longleftrightarrow> take 1 s = [x]"
  by (cases s) (auto simp: starts_with_def)

lemma opens_calls: "opens_after w s \<longleftrightarrow> calls w s"
  by (simp add: opens_after_def calls_def begins_lower starts_take)

lemma has_import_occurs: "has_import s \<longleftrightarrow> occurs imports_sheet before s"
  by (induction s arbitrary: before) (auto simp: imports_sheet_def begins_lower eval_nat_numeral)

lemma has_url_occurs: "has_url s \<longleftrightarrow> occurs (\<lambda>before. calls ''url'') before s"
  by (induction s arbitrary: before) (auto simp: opens_calls)

lemma occurs_later: "n < length s \<Longrightarrow> P (before @ take n s) (drop n s) \<Longrightarrow> occurs P before s"
proof (induction s arbitrary: before n)
  case (Cons c s)
  show ?case
  proof (cases n)
    case (Suc m)
    then show ?thesis using Cons.IH [of m "before @ [c]"] Cons.prems by simp
  qed (use Cons.prems in simp)
qed simp

lemma lower_dash:
  assumes "to_lower c = CHR ''-''"
  shows "\<not> is_word_char c"
proof (cases "in_range CHR ''A'' CHR ''Z'' c")
  case True
  then have "(of_char c + 32) mod 256 = (of_char c + 32 :: nat)" "65 \<le> (of_char c :: nat)" by (auto simp: in_range_def code_of_def)
  moreover have "of_char (char_of (of_char c + 32 :: nat)) = (of_char CHR ''-'' :: nat)"
    using assms True by (simp add: to_lower_def code_of_def)
  ultimately show ?thesis by simp
next
  case False
  then have "c = CHR ''-''" using assms by (simp add: to_lower_def)
  then show ?thesis by (simp add: is_word_char_def in_range_def is_digit_def code_of_def)
qed

lemma webkit_occurs:
  assumes "calls ''-webkit-image-set'' s"
  shows "occurs names_image before s"
proof (rule occurs_later)
  have n: "length ''-webkit-image-set'' = 17" "length ''image-set'' = 9" by simp_all
  have l: "lower (take 17 s) = ''-webkit-image-set''" and bracket: "take 1 (dropWhile is_ws (drop 17 s)) = ''(''"
    using assms unfolding calls_def n by simp_all
  have "length (lower (take 17 s)) = 17" unfolding l by simp
  then show "8 < length s" by (simp add: lower_def)
  have "lower (take 9 (drop 8 s)) = drop 8 (lower (take 17 s))" by (simp add: lower_def drop_map take_drop)
  then have "calls ''image-set'' (drop 8 s)" using bracket unfolding calls_def n l by simp
  moreover have "lower (take 8 s) = take 8 (lower (take 17 s))" by (simp add: lower_def take_map)
  then have "lower (take 8 s) = ''-webkit-''" using l by simp
  then have "take 8 s \<noteq> []" "to_lower (last (take 8 s)) = CHR ''-''"
    by (auto simp: lower_def simp flip: last_map)
  then have "\<not> word_before (before @ take 8 s)" using lower_dash by (simp add: word_before_def)
  ultimately show "names_image (before @ take 8 s) (drop 8 s)" by (simp add: names_image_def)
qed

lemma has_image_occurs: "has_image_call (word_before before) s \<longleftrightarrow> occurs names_image before s"
proof (induction s arbitrary: before)
  case (Cons c s)
  have next_word: "word_before (before @ [c]) = is_word_char c" by (simp add: word_before_def)
  have "has_image_call (word_before before) (c # s) \<longleftrightarrow> names_image before (c # s)
      \<or> word_before before \<and> calls ''-webkit-image-set'' (c # s) \<or> occurs names_image (before @ [c]) s"
    using Cons.IH [of "before @ [c]"] by (auto simp: next_word opens_calls names_image_def [of before])
  then show ?case using webkit_occurs [of "c # s" before] by auto
qed simp

lemma external_stays: "external_ref r \<longleftrightarrow> \<not> stays r"
proof -
  let ?t = "trim r"
  show ?thesis
  proof (cases "2 \<le> length ?t \<and> (hd ?t = CHR 0x27 \<or> hd ?t = DQUOTE) \<and> last ?t = hd ?t \<and> NL \<notin> set (butlast (tl ?t)) \<and> CR \<notin> set (butlast (tl ?t))")
    case True
    then obtain q s where t: "?t = q # s" by (cases ?t) auto
    then have "s \<noteq> []" using True by auto
    then obtain x where x: "?t = q # x @ [q]" using t True by (cases s rule: rev_cases) auto
    then show ?thesis using True by (auto simp: external_ref_def unquote_def stays_def starts_take DQUOTE_def)
  next
    case False
    then have "unquote ?t = ?t" unfolding unquote_def by (rule if_not_P)
    moreover have "\<not> (\<exists>q x. q \<in> {CHR 0x27, DQUOTE} \<and> ?t = q # x @ [q] \<and> NL \<notin> set x \<and> CR \<notin> set x \<and> take 1 (trim x) = ''#'')"
      using False by auto
    ultimately show ?thesis by (simp add: external_ref_def stays_def starts_take)
  qed
qed

text \<open>The scanner finds these references.\<close>

lemma lower_bracket: "lower s = ''url('' \<Longrightarrow> CHR '')'' \<notin> set s"
proof
  assume l: "lower s = ''url(''" and b: "CHR '')'' \<in> set s"
  have "to_lower CHR '')'' \<in> set (lower s)" using b by (simp add: lower_def)
  then show False unfolding l by (simp add: to_lower_def in_range_def code_of_def)
qed

lemma take_Suc_four: "take (length ''url('') s = take 4 s"
  by (simp add: eval_nat_numeral)

lemma references_closed: "CHR '')'' \<notin> set s \<Longrightarrow> references s = []"
  by (simp add: references_def split_on_free map_filter_simps)

lemma after_url_append: "begins ''url('' (c # w @ s) \<Longrightarrow> 3 \<le> length w \<Longrightarrow> after_url (c # w) = Some (drop 3 w)"
  by (simp add: begins_lower take_Suc_four) (simp add: eval_nat_numeral)

lemma references_found:
  assumes "begins ''url('' (c # s)" "CHR '')'' \<in> set (drop 3 s)"
  shows "references (c # s) = takeWhile (\<lambda>x. x \<noteq> CHR '')'') (drop 3 s)
    # references (drop 1 (dropWhile (\<lambda>x. x \<noteq> CHR '')'') (drop 3 s)))"
proof -
  let ?r = "drop 3 s"
  define ref where "ref = takeWhile (\<lambda>x. x \<noteq> CHR '')'') ?r"
  define rest where "rest = drop 1 (dropWhile (\<lambda>x. x \<noteq> CHR '')'') ?r)"
  have "dropWhile (\<lambda>x. x \<noteq> CHR '')'') ?r = CHR '')'' # rest"
    using assms(2) hd_dropWhile [of "\<lambda>x. x \<noteq> CHR '')''" ?r] by (cases "dropWhile (\<lambda>x. x \<noteq> CHR '')'') ?r") (auto simp: rest_def dropWhile_eq_Nil_conv)
  then have r: "?r = ref @ CHR '')'' # rest" unfolding ref_def by (metis takeWhile_dropWhile_id)
  define w where "w = take 3 s"
  have s: "s = w @ ref @ CHR '')'' # rest" unfolding w_def r [symmetric] by simp
  have len: "length w = 3" using assms(2) by (cases "3 \<le> length s") (auto simp: w_def)
  have "lower (c # w) = ''url(''" using assms(1) by (simp add: begins_lower take_Suc_four w_def) (simp add: eval_nat_numeral)
  then have "CHR '')'' \<notin> set (c # w)" by (rule lower_bracket)
  moreover have "CHR '')'' \<notin> set ref" unfolding ref_def by (auto dest: set_takeWhileD)
  ultimately have "split_on CHR '')'' ((c # w @ ref) @ CHR '')'' # rest) = (c # w @ ref) # split_on CHR '')'' rest"
    by (intro split_on_append) auto
  moreover have "after_url (c # w @ ref) = Some ref"
    using after_url_append [of c "w @ ref" "CHR '')'' # rest"] assms(1) len by (simp add: s)
  ultimately have "references (c # s) = ref # references rest"
    by (simp add: references_def s map_filter_simps del: after_url.simps split_on.simps)
  then show ?thesis by (simp add: ref_def rest_def)
qed

lemma references_skip:
  assumes "\<not> begins ''url('' (c # s)"
  shows "references (c # s) = references s"
proof (cases "c = CHR '')''")
  case True
  then show ?thesis by (simp add: references_def map_filter_simps)
next
  case False
  obtain w ws where w: "split_on CHR '')'' s = w # ws" using split_on_ne by (metis list.exhaust)
  have "\<exists>s'. s = w @ s'" using join_split_on [of "CHR '')''" s] unfolding w by (cases ws) auto
  then have "lower (take 4 (c # w)) \<noteq> ''url(''"
  proof
    fix s' assume s: "s = w @ s'"
    show ?thesis
    proof (cases "3 \<le> length w")
      case True
      then show ?thesis using assms by (simp add: s begins_lower take_Suc_four) (simp add: eval_nat_numeral)
    next
      case False
      then have "length (lower (take 4 (c # w))) \<noteq> length ''url(''" by (simp add: lower_def)
      then show ?thesis by metis
    qed
  qed
  then have "after_url (c # w) = after_url w" by simp
  then show ?thesis using False w by (cases ws) (simp_all add: references_def map_filter_simps del: after_url.simps)
qed

lemma url_refs_references: "url_refs s = references s"
proof (induction s rule: url_refs.induct)
  case 1
  then show ?case by (simp add: references_def map_filter_simps)
next
  case (2 c s)
  show ?case
  proof (cases "begins ''url('' (c # s) \<and> CHR '')'' \<in> set (drop 3 s)")
    case True
    then show ?thesis using 2(1) [OF refl] references_found [of c s] by (simp add: Let_def del: split_on.simps)
  next
    case False
    then have "url_refs (c # s) = url_refs s" unfolding url_refs.simps(2) Let_def by (rule if_not_P)
    then have url: "url_refs (c # s) = references s" using 2(2) [OF refl False] by simp
    show ?thesis
    proof (cases "begins ''url('' (c # s)")
      case True
      then have no: "CHR '')'' \<notin> set (drop 3 s)" using False by simp
      have "lower (take 4 (c # s)) = ''url(''" using True unfolding begins_lower take_Suc_four .
      then have "CHR '')'' \<notin> set (take 4 (c # s))" by (rule lower_bracket)
      then have "CHR '')'' \<notin> set (take 4 (c # s) @ drop 4 (c # s))" unfolding set_append using no by (simp add: eval_nat_numeral)
      then have "CHR '')'' \<notin> set (c # s)" unfolding append_take_drop_id .
      then show ?thesis using url references_closed [of s] references_closed [of "c # s"] by simp
    next
      case False
      then show ?thesis using url references_skip by simp
    qed
  qed
qed

lemma hasExternalUrl_leads: "hasExternalUrl raw \<longleftrightarrow> leads_out (decodeCssEscapes raw)"
  using has_image_occurs [of "[]"] by (auto simp: hasExternalUrl_def leads_out_def Let_def url_refs_references word_before_def
    has_import_occurs [of _ "[]"] has_url_occurs [of _ "[]"] external_stays [abs_def])

text \<open>A text whose reading holds no backslash is decoded to that reading.\<close>

lemma decode_char_Cons: "c \<noteq> BACKSLASH \<Longrightarrow> decode_char (c # s) = c # decode_char s"
  by (cases s) simp_all

lemma hex_run_none: "hex_run (d # s) = [] \<longleftrightarrow> \<not> is_hex d"
  by (simp add: hex_run_def eval_nat_numeral)

lemma decode_read: "BACKSLASH \<notin> set (css_read s) \<Longrightarrow> decodeCssEscapes s = css_read s"
proof (induction s rule: css_read.induct)
  case (2 c s)
  show ?case
  proof (cases "c = BACKSLASH")
    case False
    then show ?thesis using 2 by (simp add: decodeCssEscapes_def decode_char_Cons)
  next
    case True
    show ?thesis
    proof (cases "hex_run s = []")
      case False
      define r where "r = (let r = drop (length (hex_run s)) s in if r \<noteq> [] \<and> is_ws (hd r) then tl r else r)"
      have read: "css_read (c # s) = code_point (nat_of_hex (hex_run s)) # css_read r"
        and dec: "decode_hex (c # s) = code_point (nat_of_hex (hex_run s)) # decode_hex r" using True False by (simp_all add: r_def)
      have "decodeCssEscapes r = css_read r" using 2(2) 2(4) True False unfolding read r_def by simp
      moreover have "code_point (nat_of_hex (hex_run s)) \<noteq> BACKSLASH" using 2(4) unfolding read by auto
      ultimately show ?thesis unfolding decodeCssEscapes_def read dec by (simp add: decode_char_Cons)
    next
      case none: True
      show ?thesis
      proof (cases s)
        case Nil
        then show ?thesis using True 2(4) none by simp
      next
        case (Cons d s')
        have "BACKSLASH \<notin> set (css_read s')" "d \<noteq> BACKSLASH" using 2(4) True none Cons by auto
        moreover from this have "decodeCssEscapes s' = css_read s'" using 2(3) True none Cons by simp
        ultimately show ?thesis using True none Cons by (simp add: decodeCssEscapes_def)
      qed
    qed
  qed
qed (simp add: decodeCssEscapes_def)

lemma css_read_plain: "BACKSLASH \<notin> set s \<Longrightarrow> css_read s = s"
  by (induction s) auto

text \<open>A text that is read without a backslash and leads out is found, and no text without a backslash is found that does not.\<close>

definition confined :: "string \<Rightarrow> bool" where
  "confined s \<longleftrightarrow> BACKSLASH \<in> set (css_read s) \<or> \<not> leads_out (css_read s)"

lemma found_confined: "\<not> hasExternalUrl s \<Longrightarrow> confined s"
  using decode_read [of s] by (auto simp: confined_def hasExternalUrl_leads)

lemma confined_kept: "confined s \<Longrightarrow> BACKSLASH \<notin> set s \<Longrightarrow> \<not> hasExternalUrl s"
  using decode_read [of s] by (simp add: confined_def hasExternalUrl_leads css_read_plain)

subsection \<open>Drawings\<close>

text \<open>An element with its local name, attributes and children, or text.\<close>

datatype dom = Elem (el_name: string) (el_attrs: "(string \<times> string) list") (el_children: "dom list") | Chars string

primrec textContent :: "dom \<Rightarrow> string" where
  "textContent (Elem n as cs) = concat (map textContent cs)"
| "textContent (Chars s) = s"

definition forbidden_tag :: "string \<Rightarrow> bool" where
  "forbidden_tag n \<longleftrightarrow> lower n \<in> {''script'', ''foreignobject''}"

text \<open>An attribute that is removed.\<close>

(* src features/docs/labBook.ts 79-88 sanitizeSvg *)
definition bad_attribute :: "string \<times> string \<Rightarrow> bool" where
  "bad_attribute a \<longleftrightarrow> (let name = lower (fst a); val = trim (snd a)
     in starts_with ''on'' name \<or> (name = ''href'' \<or> name = ''xlink:href'') \<and> \<not> starts_with ''#'' val \<or> hasExternalUrl val)"

text \<open>
  The loop over all elements, in document order, looks at each element by itself: a removed
  element takes its descendants with it, and what is done to those afterwards is not seen. The
  text of a style element is looked at before its own descendants are.
\<close>

(* src features/docs/labBook.ts 74-93 sanitizeSvg *)
primrec clean :: "dom \<Rightarrow> dom option" where
  "clean (Chars s) = Some (Chars s)"
| "clean (Elem n as cs) =
     (if forbidden_tag n \<or> lower n = ''style'' \<and> hasExternalUrl (concat (map textContent cs)) then None
      else Some (Elem n (filter (\<lambda>a. \<not> bad_attribute a) as) (concat (map (\<lambda>r. case r of None \<Rightarrow> [] | Some d \<Rightarrow> [d]) (map clean cs)))))"

definition clean_all :: "dom list \<Rightarrow> dom list" where
  "clean_all ds = concat (map (\<lambda>r. case r of None \<Rightarrow> [] | Some d \<Rightarrow> [d]) (map clean ds))"

definition is_elem :: "dom \<Rightarrow> bool" where
  "is_elem d = (case d of Elem n as cs \<Rightarrow> True | Chars s \<Rightarrow> False)"

text \<open>\<open>purify\<close> is the DOMPurify package, configured as the code does.\<close>

(* src features/docs/labBook.ts 65-95 sanitizeSvg *)
definition sanitizeSvg :: "(string \<Rightarrow> dom list) \<Rightarrow> string \<Rightarrow> dom list result" where
  "sanitizeSvg purify svg =
     (let fragment = purify svg
      in case find is_elem fragment of
           Some (Elem n as cs) \<Rightarrow> if lower n = ''svg'' then Ok (clean_all fragment) else Throw ''Mermaid returned invalid SVG''
         | _ \<Rightarrow> Throw ''Mermaid returned invalid SVG'')"

subsection \<open>What a sanitised drawing cannot contain\<close>

text \<open>
  The requirement on a drawing: no active element, no event handler, no link that leaves the document, and nothing in an
  attribute that leads out of it; \<open>inert_styles\<close>: nothing in the text of a style element does. \<open>flat_styles\<close>: style
  elements hold text only; \<open>unescaped\<close>: no attribute and no style text has a backslash.
\<close>

definition inert_attribute :: "string \<times> string \<Rightarrow> bool" where
  "inert_attribute = (\<lambda>(n, v). take 2 (lower n) \<noteq> ''on'' \<and> (lower n = ''href'' \<or> lower n = ''xlink:href'' \<longrightarrow> take 1 (trim v) = ''#'')
     \<and> confined (trim v))"

primrec inert :: "dom \<Rightarrow> bool" where
  "inert (Chars s) \<longleftrightarrow> True"
| "inert (Elem n as cs) \<longleftrightarrow> lower n \<noteq> ''script'' \<and> lower n \<noteq> ''foreignobject'' \<and> list_all inert_attribute as \<and> list_all id (map inert cs)"

primrec inert_styles :: "dom \<Rightarrow> bool" where
  "inert_styles (Chars s) \<longleftrightarrow> True"
| "inert_styles (Elem n as cs) \<longleftrightarrow> (lower n = ''style'' \<longrightarrow> confined (concat (map textContent cs))) \<and> list_all id (map inert_styles cs)"

primrec flat_styles :: "dom \<Rightarrow> bool" where
  "flat_styles (Chars s) \<longleftrightarrow> True"
| "flat_styles (Elem n as cs) \<longleftrightarrow> (lower n = ''style'' \<longrightarrow> list_all (\<lambda>c. \<not> is_elem c) cs) \<and> list_all id (map flat_styles cs)"

primrec unescaped :: "dom \<Rightarrow> bool" where
  "unescaped (Chars s) \<longleftrightarrow> True"
| "unescaped (Elem n as cs) \<longleftrightarrow> list_all (\<lambda>(n, v). BACKSLASH \<notin> set v) as
     \<and> (lower n = ''style'' \<longrightarrow> BACKSLASH \<notin> set (concat (map textContent cs))) \<and> list_all id (map unescaped cs)"

lemma starts_on: "starts_with ''on'' s \<longleftrightarrow> take 2 s = ''on''"
  by (simp add: starts_with_def eval_nat_numeral)

lemma bad_attribute_eq:
  "bad_attribute (n, v) \<longleftrightarrow> take 2 (lower n) = ''on'' \<or> (lower n = ''href'' \<or> lower n = ''xlink:href'') \<and> take 1 (trim v) \<noteq> ''#''
     \<or> hasExternalUrl (trim v)"
  unfolding bad_attribute_def Let_def starts_on starts_take by simp

lemma attribute_inert: "\<not> bad_attribute a \<Longrightarrow> inert_attribute a"
  using found_confined [of "trim (snd a)"] by (cases a) (simp only: bad_attribute_eq inert_attribute_def prod.case snd_conv, blast)

lemma attribute_kept:
  assumes "inert_attribute a" "BACKSLASH \<notin> set (snd a)"
  shows "\<not> bad_attribute a"
proof -
  have "BACKSLASH \<notin> set (trim (snd a))" using assms(2) trim_set by blast
  with confined_kept [of "trim (snd a)"] show ?thesis using assms(1)
    by (cases a) (simp only: bad_attribute_eq inert_attribute_def prod.case snd_conv, blast)
qed

lemma clean_all_simps [simp]:
  "clean_all [] = []"
  "clean_all (d # ds) = (case clean d of None \<Rightarrow> clean_all ds | Some e \<Rightarrow> e # clean_all ds)"
  by (simp_all add: clean_all_def split: option.splits)

lemma clean_Elem:
  "clean (Elem n as cs) =
     (if forbidden_tag n \<or> lower n = ''style'' \<and> hasExternalUrl (concat (map textContent cs)) then None
      else Some (Elem n (filter (\<lambda>a. \<not> bad_attribute a) as) (clean_all cs)))"
  by (simp add: clean_all_def)

lemmas list_all_map_id = list.pred_map [of id, unfolded comp_def id_def]

lemma set_clean_all: "set (clean_all ds) = {e. \<exists>d \<in> set ds. clean d = Some e}"
  by (induction ds) (auto split: option.splits)

lemma clean_inert: "clean d = Some e \<Longrightarrow> inert e"
proof (induction d arbitrary: e)
  case (Elem n as cs)
  from Elem.prems have e: "e = Elem n (filter (\<lambda>a. \<not> bad_attribute a) as) (clean_all cs)" and n: "\<not> forbidden_tag n"
    by (auto simp del: clean.simps simp: clean_Elem split: if_splits)
  have "\<forall>c \<in> set (clean_all cs). inert c" using Elem.IH by (auto simp: set_clean_all)
  then show ?case using n attribute_inert by (auto simp: e list_all_iff forbidden_tag_def)
qed simp

lemma clean_texts: "list_all (\<lambda>c. \<not> is_elem c) cs \<Longrightarrow> clean_all cs = cs"
proof (induction cs)
  case (Cons c cs)
  then show ?case by (cases c) (simp_all add: is_elem_def)
qed simp

lemma clean_inert_styles: "clean d = Some e \<Longrightarrow> flat_styles d \<Longrightarrow> inert_styles e"
proof (induction d arbitrary: e)
  case (Elem n as cs)
  from Elem.prems(1) have e: "e = Elem n (filter (\<lambda>a. \<not> bad_attribute a) as) (clean_all cs)"
    and s: "\<not> (lower n = ''style'' \<and> hasExternalUrl (concat (map textContent cs)))"
    by (auto simp del: clean.simps simp: clean_Elem split: if_splits)
  have "\<forall>c \<in> set (clean_all cs). inert_styles c"
    using Elem.IH Elem.prems(2) by (auto simp: set_clean_all list_all_iff)
  moreover have "lower n = ''style'' \<Longrightarrow> clean_all cs = cs" using Elem.prems(2) by (simp add: clean_texts)
  ultimately show ?case using s found_confined by (auto simp: e list_all_iff)
qed simp

lemma clean_keeps: "inert d \<Longrightarrow> inert_styles d \<Longrightarrow> unescaped d \<Longrightarrow> clean d = Some d"
proof (induction d)
  case (Elem n as cs)
  have "clean c = Some c" if "c \<in> set cs" for c using Elem that by (simp add: list_all_iff)
  then have "clean_all cs = cs" by (induction cs) simp_all
  moreover have "\<not> bad_attribute a" if "a \<in> set as" for a
    using Elem.prems that attribute_kept [of a] by (auto simp: list_all_iff)
  then have "filter (\<lambda>a. \<not> bad_attribute a) as = as" by (simp add: filter_id_conv)
  moreover have "\<not> (lower n = ''style'' \<and> hasExternalUrl (concat (map textContent cs)))"
    using Elem.prems confined_kept by auto
  ultimately show ?case using Elem.prems by (auto simp del: clean.simps simp: clean_Elem forbidden_tag_def)
qed simp

lemma clean_all_keeps: "list_all inert ds \<Longrightarrow> list_all inert_styles ds \<Longrightarrow> list_all unescaped ds \<Longrightarrow> clean_all ds = ds"
  by (induction ds) (simp_all add: clean_keeps)

lemma sanitizeSvg_Ok: "sanitizeSvg purify svg = Ok ds \<Longrightarrow> ds = clean_all (purify svg)"
  by (auto simp: sanitizeSvg_def Let_def split: option.splits dom.splits if_splits)

text \<open>
  Claim C40. A drawing that passes holds, at whatever depth, no script or foreign object, no event handler and no link that leaves the
  document, and no attribute whose text, read with its CSS escapes, imports a sheet, calls \<open>src\<close> or \<open>image-set\<close>, or has a
  closed \<open>url(...)\<close> that does not point into the document (a text that is read with a backslash of its own is not judged); where
  style elements hold text only, nor does their text. A drawing without backslashes that has none of these passes unchanged.
\<close>

theorem sanitized_drawing_inert:
  assumes "sanitizeSvg purify svg = Ok ds"
  shows "list_all inert ds
   \<and> (list_all flat_styles (purify svg) \<longrightarrow> list_all inert_styles ds)
   \<and> (list_all inert (purify svg) \<and> list_all inert_styles (purify svg) \<and> list_all unescaped (purify svg) \<longrightarrow> ds = purify svg)"
  using sanitizeSvg_Ok [OF assms] clean_inert clean_inert_styles
  by (auto simp: list_all_iff set_clean_all intro!: clean_all_keeps)

text \<open>A handler, a script, an escaped external reference and a foreign link go; an internal reference stays.\<close>

definition hostile_drawing :: "dom list" where
  "hostile_drawing = [Elem ''svg'' [(''onload'', ''x()''), (''fill'', ''url(#g)'')]
     [Elem ''script'' [] [Chars ''y()''], Elem ''use'' [(''HREF'', ''http://x/''), (''mask'', ''u'' @ BACKSLASH # ''72 l(//x/m)'')] [], Chars ''z'']]"

theorem sanitized_drawing_inert_witness:
  "list_all inert (clean_all hostile_drawing) \<and> list_all inert_styles (clean_all hostile_drawing)
   \<and> clean_all hostile_drawing = [Elem ''svg'' [(''fill'', ''url(#g)'')] [Elem ''use'' [] [], Chars ''z'']]"
proof -
  have h: "sanitizeSvg (\<lambda>_. hostile_drawing) ''s'' = Ok (clean_all hostile_drawing)" by code_simp
  have "list_all flat_styles hostile_drawing" by code_simp
  moreover have "clean_all hostile_drawing = [Elem ''svg'' [(''fill'', ''url(#g)'')] [Elem ''use'' [] [], Chars ''z'']]" by code_simp
  ultimately show ?thesis using sanitized_drawing_inert [OF h] by simp
qed

text \<open>A sound drawing passes as it is.\<close>

lemma sound_drawing_kept:
  "clean_all [Elem ''svg'' [(''style'', ''mask: url('' @ DQUOTE # ''#m'' @ DQUOTE # '')''), (''transform'', ''scale(2)'')] [Elem ''style'' [] [Chars ''.a { fill: url(#g) }'']]]
     = [Elem ''svg'' [(''style'', ''mask: url('' @ DQUOTE # ''#m'' @ DQUOTE # '')''), (''transform'', ''scale(2)'')] [Elem ''style'' [] [Chars ''.a { fill: url(#g) }'']]]"
  by code_simp

text \<open>
  A reference that is never closed, after a closed internal one, is not seen, although the end of
  the text closes it.
\<close>

lemma unclosed_reference_missed:
  "\<not> hasExternalUrl ''url(#a) url(http://x/'' \<and> hasExternalUrl ''url(#a) url(http://x/)''"
  by code_simp

subsection \<open>The export\<close>

text \<open>
  A parsed page: its serialised document type, whether it is in quirks mode (class names match in
  any case then), and its root element.
\<close>

record page =
  doctype :: "string option"
  quirks :: bool
  document_element :: dom

fun class_words :: "string \<Rightarrow> string list" where
  "class_words s = filter (\<lambda>w. w \<noteq> []) (split_on CHR '' '' (map (\<lambda>c. if c \<in> {TAB, NL, CR, CHR 0x0C} then CHR '' '' else c) s))"

definition mermaid_code :: "bool \<Rightarrow> string \<Rightarrow> (string \<times> string) list \<Rightarrow> bool" where
  "mermaid_code q n as \<longleftrightarrow> n = ''code''
     \<and> (case map_of as ''class'' of None \<Rightarrow> False
        | Some c \<Rightarrow> ''language-mermaid'' \<in> set (class_words (if q then lower c else c)))"

text \<open>\<open>querySelectorAll('pre > code.language-mermaid')\<close>: the texts of the blocks, in document order.\<close>

(* src features/docs/labBook.ts 13-13 renderLabBook *)
primrec blocks :: "dom \<Rightarrow> bool \<Rightarrow> bool \<Rightarrow> string list" where
  "blocks (Chars s) q in_pre = []"
| "blocks (Elem n as cs) q in_pre =
     (if in_pre \<and> mermaid_code q n as then [concat (map textContent cs)] else [])
     @ concat (map (\<lambda>f. f q (n = ''pre'')) (map blocks cs))"

text \<open>
  The page with its figures: \<open>figs\<close> gives the figure of the block with a number, if it has one. A
  \<open>pre\<close> is replaced as a whole by the first figure of a block right below it; what is replaced
  inside it before or after is not in the page.
\<close>

definition block_starts :: "nat \<Rightarrow> string list list \<Rightarrow> nat list" where
  "block_starts k bs = map (\<lambda>i. k + length (concat (take i bs))) [0 ..< length bs]"

definition is_block :: "bool \<Rightarrow> dom \<Rightarrow> bool" where
  "is_block q d = (case d of Elem n as cs \<Rightarrow> mermaid_code q n as | Chars s \<Rightarrow> False)"

(* src features/docs/labBook.ts 43-46 renderLabBook *)
primrec place :: "dom \<Rightarrow> bool \<Rightarrow> (nat \<Rightarrow> dom option) \<Rightarrow> bool \<Rightarrow> nat \<Rightarrow> dom" where
  "place (Chars s) q figs in_pre k = Chars s"
| "place (Elem n as cs) q figs in_pre k =
     (let k' = k + (if in_pre \<and> mermaid_code q n as then 1 else 0);
          starts = block_starts k' (map (\<lambda>c. blocks c q (n = ''pre'')) cs);
          own = filter (\<lambda>(c, i). n = ''pre'' \<and> is_block q c \<and> figs i \<noteq> None) (zip cs starts)
      in case own of
           (c, i) # _ \<Rightarrow> the (figs i)
         | [] \<Rightarrow> Elem n as (map2 (\<lambda>f i. f q figs (n = ''pre'') i) (map place cs) starts))"

text \<open>
  The loop over the blocks. \<open>aborted k\<close>: the signal is aborted at the \<open>k\<close>-th look at it. \<open>render i s\<close>:
  the outcome of \<open>renderMermaid\<close> for the block \<open>i\<close> with source \<open>s\<close>.
\<close>

record export_run =
  looks :: nat
  progress :: "(nat \<times> nat) list"
  figures :: "(nat \<times> dom) list"

abbreviation look :: "export_run \<Rightarrow> export_run" where
  "look st \<equiv> st\<lparr>looks := Suc (looks st)\<rparr>"

(* src features/docs/labBook.ts 5-10 renderLabBook *)
definition report :: "nat \<Rightarrow> nat \<Rightarrow> export_run \<Rightarrow> export_run" where
  "report finished count st = st\<lparr>progress := progress st @ [(finished, count)]\<rparr>"

(* src features/docs/labBook.ts 43-45 renderLabBook *)
definition figure_of :: "dom list \<Rightarrow> dom" where
  "figure_of ds = Elem ''figure'' [(''class'', ''lab-book-diagram'')] ds"

text \<open>One diagram: \<open>Throw\<close> leaves the export, \<open>Ok None\<close> keeps the block.\<close>

(* src features/docs/labBook.ts 20-50 renderLabBook *)
definition draw_block :: "(nat \<Rightarrow> bool) \<Rightarrow> (string \<Rightarrow> dom list) \<Rightarrow> string result \<Rightarrow> export_run
    \<Rightarrow> export_run \<times> dom option result" where
  "draw_block aborted purify outcome st =
     (let caught = (\<lambda>e st. (look st, if aborted (looks st) then Throw e else Ok None))
      in case outcome of
           Throw e \<Rightarrow> caught e st
         | Ok svg \<Rightarrow> if aborted (looks st) then caught ''AbortError'' (look st)
             else (case sanitizeSvg purify svg of
                     Throw e \<Rightarrow> caught e (look st)
                   | Ok ds \<Rightarrow> (look st, Ok (Some (figure_of ds)))))"

(* src features/docs/labBook.ts 17-57 renderLabBook *)
fun draw_blocks :: "(nat \<Rightarrow> bool) \<Rightarrow> (string \<Rightarrow> dom list) \<Rightarrow> (nat \<Rightarrow> string \<Rightarrow> string result) \<Rightarrow> nat \<Rightarrow> nat
    \<Rightarrow> string list \<Rightarrow> export_run \<Rightarrow> export_run \<times> unit result" where
  "draw_blocks aborted purify render count i [] st = (st, Ok ())"
| "draw_blocks aborted purify render count i (source # ss) st =
     (if aborted (looks st) then (look st, Throw ''AbortError'')
      else case draw_block aborted purify (render i source) (look st) of
        (st1, Throw e) \<Rightarrow> (st1, Throw e)
      | (st1, Ok fig) \<Rightarrow>
          (let st2 = (case fig of None \<Rightarrow> st1 | Some d \<Rightarrow> st1\<lparr>figures := figures st1 @ [(i, d)]\<rparr>);
               st3 = report (i + 1) count st2
           in if aborted (looks st3) then (look st3, Throw ''AbortError'')
              else if i + 1 < count
                then (if aborted (looks (look st3)) then (look (look st3), Throw ''AbortError'')
                      else draw_blocks aborted purify render count (i + 1) ss (look (look st3)))
                else draw_blocks aborted purify render count (i + 1) ss (look st3)))"

text \<open>
  The signal is aborted from the look with the number in \<open>abort\<close> on, or never; it stays aborted.
  \<open>parse\<close> is the platform's parser and \<open>serialise\<close> its serialisation of an element.
\<close>

definition aborted_at :: "nat option \<Rightarrow> nat \<Rightarrow> bool" where
  "aborted_at abort k \<longleftrightarrow> (case abort of None \<Rightarrow> False | Some a \<Rightarrow> a \<le> k)"

(* src features/docs/labBook.ts 4-63 renderLabBook *)
definition renderLabBook :: "(string \<Rightarrow> page) \<Rightarrow> (dom \<Rightarrow> string) \<Rightarrow> (string \<Rightarrow> dom list) \<Rightarrow> nat option
    \<Rightarrow> (nat \<Rightarrow> string \<Rightarrow> string result) \<Rightarrow> string \<Rightarrow> export_run \<times> string result" where
  "renderLabBook parse serialise purify abort render html =
     (let aborted = aborted_at abort; st0 = \<lparr>looks = 1, progress = [], figures = []\<rparr>
      in if aborted 0 then (st0, Throw ''AbortError'')
         else
           let doc = parse html;
               bs = blocks (document_element doc) (quirks doc) False;
               count = length bs
           in case draw_blocks aborted purify render count 0 bs (report 0 count st0) of
                (st, Throw e) \<Rightarrow> (st, Throw e)
              | (st, Ok _) \<Rightarrow>
                  if aborted (looks st) then (look st, Throw ''AbortError'')
                  else (look st, Ok ((case doctype doc of None \<Rightarrow> [] | Some d \<Rightarrow> d @ [NL])
                    @ serialise (place (document_element doc) (quirks doc) (map_of (figures st)) False 0))))"

subsection \<open>How an export ends\<close>

definition drawing_of :: "(string \<Rightarrow> dom list) \<Rightarrow> string result \<Rightarrow> dom option" where
  "drawing_of purify outcome = (case bind_result outcome (sanitizeSvg purify) of Throw e \<Rightarrow> None | Ok ds \<Rightarrow> Some (figure_of ds))"

definition quiet :: "(nat \<Rightarrow> bool) \<Rightarrow> nat \<Rightarrow> nat \<Rightarrow> bool" where
  "quiet aborted a b \<longleftrightarrow> list_all (\<lambda>k. \<not> aborted k) [a ..< b]"

lemma quiet_simps [simp]: "quiet aborted a a" "quiet aborted a (Suc a) \<longleftrightarrow> \<not> aborted a"
  by (simp_all add: quiet_def)

lemma quiet_Suc: "a \<le> b \<Longrightarrow> quiet aborted a (Suc b) \<longleftrightarrow> quiet aborted a b \<and> \<not> aborted b"
  by (simp add: quiet_def)

lemma quiet_trans: "a \<le> b \<Longrightarrow> b \<le> c \<Longrightarrow> quiet aborted a b \<Longrightarrow> quiet aborted b c \<Longrightarrow> quiet aborted a c"
  by (fastforce simp: quiet_def list_all_iff not_le)

lemma draw_block_cases:
  assumes "draw_block aborted purify outcome st = (st', r)" "\<forall>k. aborted k \<longrightarrow> aborted (Suc k)"
  shows "looks st < looks st' \<and> progress st' = progress st \<and> figures st' = figures st
    \<and> (case r of Throw e \<Rightarrow> aborted (looks st' - 1)
       | Ok fig \<Rightarrow> quiet aborted (looks st) (looks st') \<and> fig = drawing_of purify outcome)"
  using assms
  by (auto simp: draw_block_def drawing_of_def Let_def quiet_Suc split: sum.splits if_splits)

text \<open>The figures of the blocks from the \<open>i\<close>-th on.\<close>

definition figs_from :: "(string \<Rightarrow> dom list) \<Rightarrow> (nat \<Rightarrow> string \<Rightarrow> string result) \<Rightarrow> nat \<Rightarrow> string list \<Rightarrow> (nat \<times> dom) list" where
  "figs_from purify render i ss = concat (map_index (\<lambda>k s. case drawing_of purify (render k s) of None \<Rightarrow> [] | Some d \<Rightarrow> [(k, d)]) i ss)"

lemma figs_from_simps [simp]:
  "figs_from purify render i [] = []"
  "figs_from purify render i (s # ss) =
     (case drawing_of purify (render i s) of None \<Rightarrow> [] | Some d \<Rightarrow> [(i, d)]) @ figs_from purify render (i + 1) ss"
  by (simp_all add: figs_from_def)

definition ticks :: "nat \<Rightarrow> nat \<Rightarrow> nat \<Rightarrow> (nat \<times> nat) list" where
  "ticks count a b = map (\<lambda>k. (k, count)) [a ..< b]"

lemma ticks_Cons: "a < b \<Longrightarrow> ticks count a b = (a, count) # ticks count (Suc a) b"
  by (simp add: ticks_def upt_conv_Cons)

definition ends_well :: "(nat \<Rightarrow> bool) \<Rightarrow> nat \<Rightarrow> (nat \<times> nat) list \<Rightarrow> (nat \<times> dom) list \<Rightarrow> export_run \<Rightarrow> 'a result \<Rightarrow> bool" where
  "ends_well aborted a whole figs st r \<longleftrightarrow> a \<le> looks st \<and>
     (case r of Throw e \<Rightarrow> a < looks st \<and> aborted (looks st - 1) \<and> prefix (progress st) whole
      | Ok x \<Rightarrow> quiet aborted a (looks st) \<and> progress st = whole \<and> figures st = figs)"

lemma ends_well_later:
  "ends_well aborted b whole figs st r \<Longrightarrow> a \<le> b \<Longrightarrow> quiet aborted a b \<Longrightarrow> ends_well aborted a whole figs st r"
  by (auto simp: ends_well_def split: sum.splits intro: quiet_trans)

text \<open>The state after a block: its figure, its report, and the looks.\<close>

definition block_done :: "nat \<Rightarrow> nat \<Rightarrow> dom option \<Rightarrow> export_run \<Rightarrow> export_run" where
  "block_done i count fig st =
     report (i + 1) count (case fig of None \<Rightarrow> st | Some d \<Rightarrow> st\<lparr>figures := figures st @ [(i, d)]\<rparr>)"

lemma block_done_simps [simp]:
  "looks (block_done i count fig st) = looks st"
  "progress (block_done i count fig st) = progress st @ [(Suc i, count)]"
  "figures (block_done i count fig st) = figures st @ (case fig of None \<Rightarrow> [] | Some d \<Rightarrow> [(i, d)])"
  by (simp_all add: block_done_def report_def split: option.splits)

lemma draw_blocks_drawn:
  assumes "\<not> aborted (looks st)" "draw_block aborted purify (render i source) (look st) = (st1, Ok fig)"
  shows "draw_blocks aborted purify render count i (source # ss) st =
     (let st3 = block_done i count fig st1
      in if aborted (looks st1) then (look st3, Throw ''AbortError'')
         else if i + 1 < count
           then (if aborted (Suc (looks st1)) then (look (look st3), Throw ''AbortError'')
                 else draw_blocks aborted purify render count (i + 1) ss (look (look st3)))
           else draw_blocks aborted purify render count (i + 1) ss (look st3))"
  using assms by (simp add: block_done_def report_def Let_def split: option.splits)

lemma draw_blocks_ends:
  assumes "i + length ss = count" "\<forall>k. aborted k \<longrightarrow> aborted (Suc k)"
  shows "(\<lambda>(st', r). ends_well aborted (looks st) (progress st @ ticks count (Suc i) (Suc count))
       (figures st @ figs_from purify render i ss) st' r) (draw_blocks aborted purify render count i ss st)"
  using assms(1)
proof (induction ss arbitrary: i st)
  case Nil
  then show ?case by (simp add: ends_well_def ticks_def)
next
  case (Cons source ss)
  obtain st1 r1 where b: "draw_block aborted purify (render i source) (look st) = (st1, r1)" by fastforce
  note c = draw_block_cases [OF b assms(2)]
  show ?case
  proof (cases "aborted (looks st) \<or> (\<exists>e. r1 = Throw e)")
    case True
    then show ?thesis using b c by (auto simp: ends_well_def)
  next
    case False
    then obtain fig where r1: "r1 = Ok fig" by (cases r1) auto
    let ?st3 = "block_done i count fig st1"
    have fig: "fig = drawing_of purify (render i source)" and le: "looks st < looks st1"
      and keeps: "progress st1 = progress st" "figures st1 = figures st"
      and q: "quiet aborted (looks st) (looks st1)"
      using c r1 False quiet_trans [of "looks st" "Suc (looks st)" "looks st1" aborted] by auto
    have t: "ticks count (Suc i) (Suc count) = (Suc i, count) # ticks count (Suc (i + 1)) (Suc count)"
      using Cons.prems by (simp add: ticks_Cons)
    have IH: "(\<lambda>(st', r). ends_well aborted (looks st4) (progress st @ ticks count (Suc i) (Suc count))
         (figures st @ figs_from purify render i (source # ss)) st' r) (draw_blocks aborted purify render count (i + 1) ss st4)"
      if "progress st4 = progress ?st3" "figures st4 = figures ?st3" for st4
      using Cons.IH [of "i + 1" st4] Cons.prems that fig keeps t by (simp add: case_prod_unfold)
    show ?thesis
      using False IH [of "look ?st3"] IH [of "look (look ?st3)"] le q keeps t
      by (auto simp: draw_blocks_drawn [where render = render and i = i, OF _ b [unfolded r1]] Let_def quiet_Suc case_prod_unfold
          simp del: draw_blocks.simps intro: ends_well_later) (auto simp: ends_well_def)
  qed
qed

lemma aborted_at_Suc: "\<forall>k. aborted_at abort k \<longrightarrow> aborted_at abort (Suc k)"
  by (auto simp: aborted_at_def split: option.splits)

text \<open>
  An export ends in one of two ways. It yields the page, and then the signal was at no look
  aborted, every number of finished blocks was reported once and in order, and exactly the blocks
  whose drawing was rendered and passed the check are figures. Or it throws, and then the signal
  was aborted when it was last looked at: no failing diagram ends an export.
\<close>

theorem labBook_outcome:
  "(let doc = parse html; bs = blocks (document_element doc) (quirks doc) False
    in case renderLabBook parse serialise purify abort render html of
         (st, Ok out) \<Rightarrow> quiet (aborted_at abort) 0 (looks st)
            \<and> progress st = ticks (length bs) 0 (Suc (length bs))
            \<and> out = (case doctype doc of None \<Rightarrow> [] | Some d \<Rightarrow> d @ [NL])
                @ serialise (place (document_element doc) (quirks doc) (map_of (figs_from purify render 0 bs)) False 0)
       | (st, Throw e) \<Rightarrow> aborted_at abort (looks st - 1)
            \<and> prefix (progress st) (ticks (length bs) 0 (Suc (length bs))))"
proof -
  define doc where "doc = parse html"
  define bs where "bs = blocks (document_element doc) (quirks doc) False"
  define st where "st = report 0 (length bs) \<lparr>looks = 1, progress = [], figures = []\<rparr>"
  obtain st' r where run: "draw_blocks (aborted_at abort) purify render (length bs) 0 bs st = (st', r)" by fastforce
  have "progress st @ ticks (length bs) (Suc 0) (Suc (length bs)) = ticks (length bs) 0 (Suc (length bs))"
    by (simp add: st_def report_def ticks_Cons [of 0])
  then have e: "ends_well (aborted_at abort) 1 (ticks (length bs) 0 (Suc (length bs))) (figs_from purify render 0 bs) st' r"
    using draw_blocks_ends [of 0 bs "length bs" "aborted_at abort" st purify render, OF _ aborted_at_Suc] run
    by (simp add: st_def report_def)
  show ?thesis
  proof (cases "aborted_at abort 0")
    case True
    then show ?thesis by (simp add: renderLabBook_def Let_def)
  next
    case False
    have "quiet (aborted_at abort) 0 (Suc (looks st'))"
      if "r = Ok ()" "\<not> aborted_at abort (looks st')"
      using that e False quiet_trans [of 0 1 "looks st'" "aborted_at abort"] by (simp add: ends_well_def quiet_Suc)
    moreover have "renderLabBook parse serialise purify abort render html =
        (case r of Throw e \<Rightarrow> (st', Throw e)
         | Ok _ \<Rightarrow> if aborted_at abort (looks st') then (look st', Throw ''AbortError'')
             else (look st', Ok ((case doctype doc of None \<Rightarrow> [] | Some d \<Rightarrow> d @ [NL])
                @ serialise (place (document_element doc) (quirks doc) (map_of (figures st')) False 0))))"
      unfolding renderLabBook_def Let_def if_not_P [OF False] doc_def [symmetric] bs_def [symmetric] st_def [symmetric] run
      by simp
    ultimately show ?thesis
      using e unfolding Let_def doc_def [symmetric] bs_def [symmetric]
      by (cases r) (auto simp: ends_well_def)
  qed
qed

end
