(* ===== verification/Machines.thy ===== *)
theory Machines
  imports Prelude
begin

text \<open>
  The contract every state machine of the client is shown to meet: a step function over events, a set
  of events that can happen, and an invariant that each step keeps. What is reached from a state in
  which the invariant holds satisfies it; a second contract adds what the past events entail.
\<close>

locale machine =
  fixes step :: "'e \<Rightarrow> 's \<Rightarrow> 's" and possible :: "'e \<Rightarrow> bool" and inv :: "'s \<Rightarrow> bool"
  assumes kept: "inv s \<Longrightarrow> possible e \<Longrightarrow> inv (step e s)"
begin

lemma machine_run: "inv s \<Longrightarrow> list_all possible es \<Longrightarrow> inv (fold step es s)"
  by (induction es arbitrary: s) (simp_all add: kept)

end

text \<open>A machine with its start, so that every reachable state satisfies the invariant.\<close>

locale started_machine = machine +
  fixes start
  assumes started: "inv start"
begin

lemma reachable: "list_all possible es \<Longrightarrow> inv (fold step es start)"
  by (rule machine_run [OF started])

lemma always: "(\<And>e. possible e) \<Longrightarrow> inv (fold step es start)"
  by (rule reachable) (simp add: list_all_iff)

end

text \<open>
  An invariant about what has been handed to the machine so far: facts that events bring in (tokens,
  for example), of which the invariant may only use those already brought.
\<close>

locale informed_machine =
  fixes step :: "'e \<Rightarrow> 's \<Rightarrow> 's" and brings :: "'e \<Rightarrow> 'k set" and inv :: "'k set \<Rightarrow> 's \<Rightarrow> bool" and start :: 's
  assumes informed: "inv known s \<Longrightarrow> inv (known \<union> brings e) (step e s)"
    and informed_start: "inv {} start"
begin

lemma informed_run: "inv (\<Union> (brings ` set es)) (fold step es start)"
proof (induction es rule: rev_induct)
  case (snoc e es)
  then show ?case using informed [OF snoc.IH, of e] by (simp add: Un_commute)
qed (simp add: informed_start)

end

end
