(* ===== verification/MutatingOp.thy ===== *)
theory MutatingOp
  imports Storage Machines
begin

text \<open>
  Operations that change the lab (\<open>components/manager\<close>): the dry run with its preview, the confirmation
  with the typed name and the elevation token, and the execution (\<open>useMutatingOp.ts\<close>,
  \<open>LifecycleOp.tsx\<close>, \<open>ElevationConfirm.tsx\<close>) as the service page drives them
  (\<open>features/services/ServiceDetailPage.tsx\<close>); the removal of a connector (\<open>ConfirmDestructive.tsx\<close>). A machine
  of the user's clicks and the server's answers; the lemmas say what an execution was preceded by.

  The state of a mutation is that of its latest call that was not reset, as the query library
  reports it; a call that is no longer watched still runs its own code when it ends.
\<close>

subsection \<open>The answer of an execution\<close>

text \<open>\<open>'excerpt' in value\<close>, for a value of the server.\<close>

fun has_excerpt :: "json option \<Rightarrow> bool" where
  "has_excerpt (Some (JObj ms)) = (''excerpt'' \<in> fst ` set ms)"
| "has_excerpt _ = False"

(* src components/manager/useMutatingOp.ts 96-101 withoutExcerpt *)
fun withoutExcerpt :: "json option \<Rightarrow> json option" where
  "withoutExcerpt (Some (JObj ms)) =
     (if ''excerpt'' \<in> fst ` set ms then Some (JObj (filter (\<lambda>m. fst m \<noteq> ''excerpt'') ms)) else Some (JObj ms))"
| "withoutExcerpt v = v"

lemma withoutExcerpt_clean [simp]: "\<not> has_excerpt (withoutExcerpt v)"
  by (cases v rule: withoutExcerpt.cases) auto

text \<open>Status and excerpt that a dialog shows of an answer.\<close>

(* src components/manager/LifecycleOp.tsx 330-337 responseDetails *)
definition responseDetails :: "json option \<Rightarrow> rat option \<times> string option" where
  "responseDetails v = (case v of
     Some (JObj ms) \<Rightarrow> ((case map_of ms ''statusCode'' of Some (JNum n) \<Rightarrow> Some n | _ \<Rightarrow> None),
        (case map_of ms ''excerpt'' of Some (JStr s) \<Rightarrow> Some s | _ \<Rightarrow> None))
   | _ \<Rightarrow> (None, None))"

text \<open>What a call left in the mutation cache: its data, or the data of the error that was thrown.\<close>

datatype call_state = Call_pending | Call_done "json option" | Call_failed "json option"

subsection \<open>The operation and its dialogs\<close>

text \<open>The preview with the entity it was asked for.\<close>

datatype preview = P_idle | P_pending string | P_failed string | P_shown string json

text \<open>An execution; beside what is sent, what the dialogs held when it was confirmed.\<close>

record execution =
  ex_entity :: string
  ex_token :: "string option"
  ex_typed :: string
  ex_required :: bool
  ex_previewed :: preview

(* src components/manager/useMutatingOp.ts 25-28 useMutatingOp *)
record op_state =
  op_entity :: string
  op_previewOpen :: bool
  op_confirmOpen :: bool
  op_resultData :: "json option"
  op_failureData :: "json option"
  op_preview :: preview
  op_watched :: "nat option"
  op_calls :: "call_state list"
  op_typed :: string
  op_token :: "string option"
  op_elevating :: nat
  op_config :: "bool option"
  op_sent :: "execution list"

definition op_init :: op_state where
  "op_init = \<lparr>op_entity = [], op_previewOpen = False, op_confirmOpen = False, op_resultData = None, op_failureData = None,
     op_preview = P_idle, op_watched = None, op_calls = [], op_typed = [], op_token = None, op_elevating = 0, op_config = None, op_sent = []\<rparr>"

text \<open>
  A lifecycle verb of a connector, or an action of a recipe, which may need an entity; and the name
  that has to be typed.
\<close>

datatype op_kind = Verb_op | Action_op bool

definition needs_entity :: "op_kind \<Rightarrow> bool" where
  "needs_entity k \<longleftrightarrow> k = Action_op True"

definition isPending :: "op_state \<Rightarrow> bool" where
  "isPending st \<longleftrightarrow> (case op_watched st of Some i \<Rightarrow> i < length (op_calls st) \<and> op_calls st ! i = Call_pending | None \<Rightarrow> False)"

(* src components/manager/useMutatingOp.ts 72-74 rerunPreview *)
definition run_preview :: "op_state \<Rightarrow> op_state" where
  "run_preview st = st\<lparr>op_preview := P_pending (op_entity st)\<rparr>"

(* src components/manager/useMutatingOp.ts 63-70 open *)
definition open_op :: "bool \<Rightarrow> op_state \<Rightarrow> op_state" where
  "open_op skipPreview st =
     (let st' = st\<lparr>op_preview := P_idle, op_watched := None, op_resultData := None, op_failureData := None, op_previewOpen := True\<rparr>
      in if skipPreview then st' else run_preview st')"

(* src components/manager/useMutatingOp.ts 80-83 setPreviewOpen *)
definition setPreviewOpen :: "bool \<Rightarrow> op_state \<Rightarrow> op_state" where
  "setPreviewOpen b st = (let st' = st\<lparr>op_previewOpen := b\<rparr> in if b then st' else st'\<lparr>op_failureData := None\<rparr>)"

(* src components/manager/useMutatingOp.ts 76-76 clearResult *)
definition clearResult :: "op_state \<Rightarrow> op_state" where
  "clearResult st = st\<lparr>op_resultData := None\<rparr>"

text \<open>The buttons of the page are behind the dialogs, which are modal.\<close>

(* src features/services/ServiceDetailPage.tsx 453-457 useLifecycleOp *)
definition open_verb :: "op_state \<Rightarrow> op_state" where
  "open_verb st = open_op False (st\<lparr>op_entity := []\<rparr>)"

(* src features/services/ServiceDetailPage.tsx 549-553 useRecipeActionOp *)
definition open_action :: "bool \<Rightarrow> op_state \<Rightarrow> op_state" where
  "open_action scoped st = open_op scoped (st\<lparr>op_entity := []\<rparr>)"

(* src features/services/ServiceDetailPage.tsx 459-463 useLifecycleOp *)
definition select_verb :: "string \<Rightarrow> op_state \<Rightarrow> op_state" where
  "select_verb ref st = run_preview (st\<lparr>op_entity := ref\<rparr>)"

(* src features/services/ServiceDetailPage.tsx 554-559 useRecipeActionOp *)
definition select_action :: "string \<Rightarrow> op_state \<Rightarrow> op_state" where
  "select_action ref st = (let st' = st\<lparr>op_entity := ref\<rparr> in if ref \<noteq> [] then run_preview st' else st'\<lparr>op_preview := P_idle\<rparr>)"

text \<open>\<open>alwaysElevate\<close> is off for operations; an unknown setting counts as on.\<close>

(* src components/manager/ElevationConfirm.tsx 50-51 ElevationConfirm *)
definition stepUpRequired :: "bool \<Rightarrow> bool option \<Rightarrow> bool" where
  "stepUpRequired alwaysElevate cfg \<longleftrightarrow> alwaysElevate \<or> from_opt True cfg"

definition truthy_token :: "string option \<Rightarrow> bool" where
  "truthy_token t \<longleftrightarrow> t \<noteq> None \<and> t \<noteq> Some []"

(* src components/manager/ElevationConfirm.tsx 60-62 ElevationConfirm *)
definition canConfirm :: "string \<Rightarrow> op_state \<Rightarrow> bool" where
  "canConfirm name st \<longleftrightarrow> op_typed st = name \<and> (\<not> stepUpRequired False (op_config st) \<or> truthy_token (op_token st)) \<and> \<not> isPending st"

(* src components/manager/ElevationConfirm.tsx 54-58 close *)
definition cancel_confirm :: "op_state \<Rightarrow> op_state" where
  "cancel_confirm st = st\<lparr>op_typed := [], op_token := None, op_confirmOpen := False\<rparr>"

text \<open>The code of the call up to its request, and what follows the answer.\<close>

(* src components/manager/useMutatingOp.ts 33-36 useMutatingOp *)
definition execute :: "op_state \<Rightarrow> op_state" where
  "execute st = st\<lparr>op_failureData := None, op_watched := Some (length (op_calls st)), op_calls := op_calls st @ [Call_pending],
     op_sent := op_sent st @ [\<lparr>ex_entity = op_entity st, ex_token = (if truthy_token (op_token st) then op_token st else None),
       ex_typed = op_typed st, ex_required = stepUpRequired False (op_config st), ex_previewed = op_preview st\<rparr>]\<rparr>"

text \<open>The answer: a result, or the data of the error's response; only an error with an excerpt is replaced.\<close>

datatype exec_answer = Exec_ok "json option" | Exec_error "json option"

(* src components/manager/useMutatingOp.ts 36-61 useMutatingOp *)
definition executed :: "nat \<Rightarrow> exec_answer \<Rightarrow> op_state \<Rightarrow> op_state" where
  "executed i a st =
     (if i < length (op_calls st) \<and> op_calls st ! i = Call_pending
      then (case a of
          Exec_ok r \<Rightarrow> st\<lparr>op_resultData := r, op_calls := (op_calls st)[i := Call_done (withoutExcerpt r)],
            op_confirmOpen := False, op_previewOpen := False\<rparr>
        | Exec_error d \<Rightarrow> st\<lparr>op_failureData := d, op_calls := (op_calls st)[i := Call_failed (withoutExcerpt d)],
            op_confirmOpen := False\<rparr>)
      else st)"

datatype op_event = Open_op | Select_entity string | Retry_preview | Preview_answer "json option" | Close_preview
  | Open_confirm | Cancel_confirm | Type_name string | Start_step_up | Elevated string | Auth_config bool | Confirm
  | Exec_answer nat exec_answer | Clear_result

text \<open>
  Each control, where it is shown and enabled; \<open>Preview_answer None\<close> is a preview that failed.
  A step-up that was started hands over its token even if the dialog has been closed since.
\<close>

(* src components/manager/LifecycleOp.tsx 79-203 MutatingOpDialogs *)
fun op_step :: "op_kind \<Rightarrow> string \<Rightarrow> op_event \<Rightarrow> op_state \<Rightarrow> op_state" where
  "op_step k name Open_op st = (if op_previewOpen st \<or> op_confirmOpen st then st
     else (case k of Verb_op \<Rightarrow> open_verb st | Action_op scoped \<Rightarrow> open_action scoped st))"
| "op_step k name (Select_entity ref) st = (if \<not> op_previewOpen st \<or> op_confirmOpen st then st
     else (case k of Verb_op \<Rightarrow> select_verb ref st | Action_op scoped \<Rightarrow> if scoped then select_action ref st else st))"
| "op_step k name Retry_preview st =
     (if op_previewOpen st \<and> \<not> op_confirmOpen st \<and> \<not> (needs_entity k \<and> op_entity st = []) \<and> (case op_preview st of P_failed r \<Rightarrow> True | P_idle \<Rightarrow> True | _ \<Rightarrow> False)
      then run_preview st else st)"
| "op_step k name (Preview_answer a) st = (case op_preview st of
       P_pending r \<Rightarrow> st\<lparr>op_preview := (case a of Some d \<Rightarrow> P_shown r d | None \<Rightarrow> P_failed r)\<rparr> | _ \<Rightarrow> st)"
| "op_step k name Close_preview st = (if op_previewOpen st \<and> \<not> op_confirmOpen st then setPreviewOpen False st else st)"
| "op_step k name Open_confirm st = (if op_previewOpen st \<and> (case op_preview st of P_shown r d \<Rightarrow> True | _ \<Rightarrow> False)
     then st\<lparr>op_confirmOpen := True\<rparr> else st)"
| "op_step k name Cancel_confirm st = (if op_confirmOpen st then cancel_confirm st else st)"
| "op_step k name (Type_name s) st = (if op_confirmOpen st then st\<lparr>op_typed := s\<rparr> else st)"
| "op_step k name Start_step_up st = (if op_confirmOpen st \<and> stepUpRequired False (op_config st) \<and> op_typed st = name
       \<and> \<not> truthy_token (op_token st) then st\<lparr>op_elevating := Suc (op_elevating st)\<rparr> else st)"
| "op_step k name (Elevated t) st = (if 0 < op_elevating st then st\<lparr>op_elevating := op_elevating st - 1, op_token := Some t\<rparr> else st)"
| "op_step k name (Auth_config b) st = st\<lparr>op_config := Some b\<rparr>"
| "op_step k name Confirm st = (if op_confirmOpen st \<and> canConfirm name st then execute st else st)"
| "op_step k name (Exec_answer i a) st = executed i a st"
| "op_step k name Clear_result st = clearResult st"

abbreviation op_run :: "op_kind \<Rightarrow> string \<Rightarrow> op_event list \<Rightarrow> op_state" where
  "op_run k name es \<equiv> fold (op_step k name) es op_init"

subsection \<open>What precedes an execution\<close>

definition preview_of :: "op_kind \<Rightarrow> string \<Rightarrow> preview \<Rightarrow> bool" where
  "preview_of k ref p \<longleftrightarrow> (case p of P_idle \<Rightarrow> True | P_pending r \<Rightarrow> r = ref \<and> (needs_entity k \<longrightarrow> r \<noteq> [])
     | P_failed r \<Rightarrow> r = ref \<and> (needs_entity k \<longrightarrow> r \<noteq> []) | P_shown r d \<Rightarrow> r = ref \<and> (needs_entity k \<longrightarrow> r \<noteq> []))"

text \<open>A usable token, and one of those that were handed over.\<close>

definition handed_over :: "string set \<Rightarrow> string option \<Rightarrow> bool" where
  "handed_over tokens t \<longleftrightarrow> (\<exists>x \<in> tokens. x \<noteq> [] \<and> t = Some x)"

lemma handed_over_mono: "handed_over tokens t \<Longrightarrow> tokens \<subseteq> tokens' \<Longrightarrow> handed_over tokens' t"
  by (auto simp: handed_over_def)

lemma handed_over_Some [simp]: "handed_over tokens (Some x) \<longleftrightarrow> x \<in> tokens \<and> x \<noteq> []" "\<not> handed_over tokens None"
  by (auto simp: handed_over_def)

text \<open>
  An execution was confirmed: the name had been typed, a preview of just the entity it goes to was
  shown, and where step-up is on it carries one of the tokens the step-up handed over.
\<close>

definition confirmed :: "op_kind \<Rightarrow> string \<Rightarrow> string set \<Rightarrow> execution \<Rightarrow> bool" where
  "confirmed k name tokens e \<longleftrightarrow> ex_typed e = name \<and> (\<exists>d. ex_previewed e = P_shown (ex_entity e) d)
     \<and> \<not> (needs_entity k \<and> ex_entity e = []) \<and> \<not> (ex_required e \<and> \<not> handed_over tokens (ex_token e))"

fun call_clean :: "call_state \<Rightarrow> bool" where
  "call_clean Call_pending = True"
| "call_clean (Call_done v) = (\<not> has_excerpt v)"
| "call_clean (Call_failed v) = (\<not> has_excerpt v)"

definition op_ok :: "op_kind \<Rightarrow> string \<Rightarrow> string set \<Rightarrow> op_state \<Rightarrow> bool" where
  "op_ok k name tokens st \<longleftrightarrow> preview_of k (op_entity st) (op_preview st)
     \<and> (op_confirmOpen st \<longrightarrow> (\<exists>r d. op_preview st = P_shown r d))
     \<and> (truthy_token (op_token st) \<longrightarrow> handed_over tokens (op_token st))
     \<and> list_all (confirmed k name tokens) (op_sent st) \<and> list_all call_clean (op_calls st)"

lemma op_ok_init: "op_ok k name tokens op_init"
  by (simp add: op_ok_def op_init_def preview_of_def truthy_token_def)

lemma clean_update: "list_all call_clean cs \<Longrightarrow> call_clean c \<Longrightarrow> list_all call_clean (cs[i := c])"
  by (auto simp: list_all_iff dest!: subsetD [OF set_update_subset_insert])

lemmas op_defs = open_verb_def open_action_def select_verb_def select_action_def open_op_def run_preview_def setPreviewOpen_def
  clearResult_def cancel_confirm_def needs_entity_def Let_def

lemma op_ok_execute:
  assumes "op_ok k name tokens st" "op_confirmOpen st" "canConfirm name st"
  shows "op_ok k name tokens (execute st)"
proof -
  obtain r d where "op_preview st = P_shown r d" using assms by (auto simp: op_ok_def)
  then show ?thesis using assms
    by (auto simp: op_ok_def preview_of_def confirmed_def execute_def canConfirm_def truthy_token_def)
qed

lemma op_ok_executed: "op_ok k name tokens st \<Longrightarrow> op_ok k name tokens (executed i a st)"
  by (auto simp: op_ok_def executed_def clean_update split: exec_answer.split)

lemma op_ok_step:
  assumes "op_ok k name tokens st" "\<And>t. ev = Elevated t \<Longrightarrow> t \<in> tokens"
  shows "op_ok k name tokens (op_step k name ev st)"
proof (cases ev)
  case (Preview_answer a)
  then show ?thesis using assms(1) by (auto simp: op_ok_def preview_of_def split: preview.splits option.splits)
next
  case (Elevated t)
  then show ?thesis using assms by (auto simp: op_ok_def truthy_token_def)
next
  case Open_confirm
  then show ?thesis using assms(1) by (auto simp: op_ok_def split: preview.splits)
next
  case (Exec_answer i a)
  then show ?thesis using assms(1) by (simp add: op_ok_executed)
next
  case Confirm
  then show ?thesis using assms(1) by (simp add: op_ok_execute)
qed (use assms(1) in \<open>auto simp: op_ok_def preview_of_def truthy_token_def op_defs split: op_kind.splits preview.splits\<close>)

fun op_brings :: "op_event \<Rightarrow> string set" where
  "op_brings (Elevated t) = {t}"
| "op_brings _ = {}"

lemma op_ok_mono: "op_ok k name tokens st \<Longrightarrow> tokens \<subseteq> tokens' \<Longrightarrow> op_ok k name tokens' st"
  by (auto simp: op_ok_def confirmed_def list_all_iff intro: handed_over_mono)

interpretation operation: informed_machine "op_step k name" op_brings "op_ok k name" op_init for k name
proof
  fix known st ev
  assume "op_ok k name known st"
  then show "op_ok k name (known \<union> op_brings ev) (op_step k name ev st)" by (intro op_ok_step) (auto intro: op_ok_mono)
qed (rule op_ok_init)

text \<open>
  Claim C8. Whatever the user clicks and however late the answers are, an operation is only executed after its name was typed and
  a preview of exactly the entity it goes to was shown, an action that needs an entity has one, and where step-up is on the
  request carries a token that the step-up has handed over.
\<close>

theorem op_confirmed:
  "list_all (confirmed k name (\<Union> (op_brings ` set es))) (op_sent (op_run k name es))"
  using operation.informed_run [of k name es] by (simp add: op_ok_def)

text \<open>
  The excerpt of a response, which may hold secrets of the machine, never reaches the mutation cache, neither in a
  result nor in an error, however many executions overlap.
\<close>

theorem excerpt_not_cached:
  "list_all call_clean (op_calls (op_run k name es))"
  using operation.informed_run [of k name es] by (simp add: op_ok_def)

subsection \<open>The confirmation after a failure\<close>

text \<open>
  A failed execution closes the confirmation but leaves its name and token in place: the next confirmation is enabled as it
  opens, without typing or step-up, and sends the token that was already spent.
\<close>

theorem spent_token_sent_again:
  assumes "op_confirmOpen st" "op_previewOpen st" "op_preview st = P_shown r d" "canConfirm name st"
  shows "op_sent (fold (op_step k name) [Confirm, Exec_answer (length (op_calls st)) (Exec_error e), Open_confirm, Confirm] st)
    = op_sent st @ replicate 2 \<lparr>ex_entity = op_entity st, ex_token = (if truthy_token (op_token st) then op_token st else None),
        ex_typed = op_typed st, ex_required = stepUpRequired False (op_config st), ex_previewed = op_preview st\<rparr>"
  using assms by (simp add: execute_def executed_def canConfirm_def isPending_def numeral_2_eq_2)

definition example_op :: "op_event list" where
  "example_op = [Open_op, Preview_answer (Some JNull), Open_confirm, Type_name ''nas'', Start_step_up, Elevated ''t1'']"

lemma spent_token_sent_again_witness:
  "map ex_token (op_sent (fold (op_step Verb_op ''nas'') [Confirm, Exec_answer 0 (Exec_error None), Open_confirm, Confirm]
     (op_run Verb_op ''nas'' example_op))) = [Some ''t1'', Some ''t1'']"
proof -
  have "op_confirmOpen (op_run Verb_op ''nas'' example_op)" "op_previewOpen (op_run Verb_op ''nas'' example_op)"
    "op_preview (op_run Verb_op ''nas'' example_op) = P_shown [] JNull" "canConfirm ''nas'' (op_run Verb_op ''nas'' example_op)"
    "op_calls (op_run Verb_op ''nas'' example_op) = []" "op_sent (op_run Verb_op ''nas'' example_op) = []"
    "op_token (op_run Verb_op ''nas'' example_op) = Some ''t1''"
    by code_simp+
  then show ?thesis using spent_token_sent_again [of "op_run Verb_op ''nas'' example_op" "[]" JNull "''nas''" Verb_op None]
    by (simp add: truthy_token_def numeral_2_eq_2)
qed

end
