(* ===== verification/Elevation.thy ===== *)
theory Elevation
  imports MutatingOp Auth
begin

text \<open>
  Re-authentication before a sensitive request: the choice of the method (\<open>StepUp.tsx\<close>), the popup of
  an identity provider (\<open>OIDCStepUp.tsx\<close>), the replay of a refused request (\<open>useStepUpMutation.tsx\<close>), and
  the removal of a connector (\<open>ConfirmDestructive.tsx\<close>), all in \<open>components/manager\<close>.
\<close>

subsection \<open>Methods\<close>

(* src components/manager/StepUp.tsx 22-22 Mode *)
datatype step_up_mode = Password | Totp | Recovery | Webauthn

fun mode_text :: "step_up_mode \<Rightarrow> string" where
  "mode_text Password = ''password''"
| "mode_text Totp = ''totp''"
| "mode_text Recovery = ''recovery''"
| "mode_text Webauthn = ''webauthn''"

(* src components/manager/StepUp.tsx 39-43 StepUp *)
definition activeMode :: "string list \<Rightarrow> step_up_mode option \<Rightarrow> step_up_mode" where
  "activeMode methods mode = (case mode of Some m \<Rightarrow> m | None \<Rightarrow>
     if ''webauthn'' \<in> set methods then Webauthn else if ''totp'' \<in> set methods then Totp
     else if ''recovery'' \<in> set methods then Recovery else Password)"

text \<open>The secret sent; a security key answers a challenge instead of a typed value.\<close>

datatype credential = Cred step_up_mode string

text \<open>Beside the state, the kind of secret the field was labelled for when the value was typed.\<close>

(* src components/manager/StepUp.tsx 35-37 StepUp *)
record step_up =
  su_mode :: "step_up_mode option"
  su_value :: string
  su_asked :: step_up_mode
  su_sent :: "(credential \<times> step_up_mode) list"

definition step_up_init :: "string list \<Rightarrow> step_up" where
  "step_up_init methods = \<lparr>su_mode = None, su_value = [], su_asked = activeMode methods None, su_sent = []\<rparr>"

datatype step_up_event = Type_value string | Use_security_key | Leave_security_key_totp | Leave_security_key_recovery
  | Swap_codes | Submit_step_up

text \<open>An account with an identity provider has only the popup.\<close>

(* src components/manager/StepUp.tsx 48-139 StepUp *)
fun step_up_step :: "string list \<Rightarrow> step_up_event \<Rightarrow> step_up \<Rightarrow> step_up" where
  "step_up_step methods ev s =
     (let active = activeMode methods (su_mode s); has = (\<lambda>m. m \<in> set methods)
      in if has ''oidc'' then s
         else case ev of
           Type_value v \<Rightarrow> if active \<noteq> Webauthn then s\<lparr>su_value := v, su_asked := active\<rparr> else s
         | Use_security_key \<Rightarrow> if has ''webauthn'' \<and> active \<noteq> Webauthn then s\<lparr>su_mode := Some Webauthn, su_value := []\<rparr> else s
         | Leave_security_key_totp \<Rightarrow> if active = Webauthn \<and> has ''totp'' then s\<lparr>su_mode := Some Totp\<rparr> else s
         | Leave_security_key_recovery \<Rightarrow>
             if active = Webauthn \<and> \<not> has ''totp'' \<and> has ''recovery'' then s\<lparr>su_mode := Some Recovery\<rparr> else s
         | Swap_codes \<Rightarrow> if has ''totp'' \<and> has ''recovery''
             then s\<lparr>su_mode := Some (if active = Recovery then Totp else Recovery), su_value := []\<rparr> else s
         | Submit_step_up \<Rightarrow> if active = Webauthn \<or> su_value s \<noteq> []
             then s\<lparr>su_sent := su_sent s @ [(Cred active (su_value s), su_asked s)]\<rparr> else s)"

definition step_up_ok :: "string list \<Rightarrow> step_up \<Rightarrow> bool" where
  "step_up_ok methods s \<longleftrightarrow> (su_value s \<noteq> [] \<longrightarrow> su_asked s = activeMode methods (su_mode s) \<and> su_asked s \<noteq> Webauthn)
     \<and> (case su_mode s of None \<Rightarrow> True | Some m \<Rightarrow> mode_text m \<in> set methods)
     \<and> list_all (\<lambda>(c, asked). case c of Cred m v \<Rightarrow> (m = asked \<or> m = Webauthn) \<and> (mode_text m \<in> set methods \<or> m = Password)) (su_sent s)"

lemma step_up_ok_init: "step_up_ok methods (step_up_init methods)"
  by (simp add: step_up_ok_def step_up_init_def)

lemma activeMode_offered: "mode_text (activeMode methods None) \<in> set methods \<or> activeMode methods None = Password"
  by (simp add: activeMode_def)

lemma step_up_ok_step: "step_up_ok methods s \<Longrightarrow> step_up_ok methods (step_up_step methods ev s)"
  using activeMode_offered [of methods]
  by (cases ev; cases "su_mode s") (auto simp: step_up_ok_def activeMode_def Let_def)

interpretation step_ups: started_machine "step_up_step methods" "\<lambda>ev. True" "step_up_ok methods" "step_up_init methods" for methods
  by unfold_locales (rule step_up_ok_step, assumption, rule step_up_ok_init)

text \<open>
  A secret is only sent as what the user was asked for: whichever way the methods are switched, a value typed as a password is never sent as a
  code or the other way round, and only offered methods are used (the password where none is).
\<close>

theorem secret_sent_as_asked:
  "step_up_ok methods (fold (step_up_step methods) es (step_up_init methods))"
  by (rule step_ups.always) simp

subsection \<open>The popup of an identity provider\<close>

(* src components/manager/OIDCStepUp.tsx 15-15 Status *)
datatype popup_status = Idle_popup | Waiting | Completing | Error_blocked | Error_failed | Error_timeout

text \<open>
  An attempt: its flag \<open>settled\<close>, whether its listener and timers are there, its popup, and whether
  the answer to its begin request is still awaited.
\<close>

record popup_attempt =
  at_settled :: bool
  at_listening :: bool
  at_closed :: bool
  at_url :: "string option"
  at_begun :: bool

text \<open>A completion request: its attempt, code and state, and whether it is unanswered.\<close>

record completion =
  co_attempt :: nat
  co_code :: string
  co_state :: string
  co_pending :: bool

(* src components/manager/OIDCStepUp.tsx 33-35 OIDCStepUp *)
record popup_state =
  po_status :: popup_status
  po_mounted :: bool
  po_attempts :: "popup_attempt list"
  po_completions :: "completion list"
  po_elevated :: "string list"

definition popup_init :: popup_state where
  "popup_init = \<lparr>po_status = Idle_popup, po_mounted = True, po_attempts = [], po_completions = [], po_elevated = []\<rparr>"

definition at_attempt :: "nat \<Rightarrow> (popup_attempt \<Rightarrow> bool) \<Rightarrow> popup_state \<Rightarrow> bool" where
  "at_attempt i P st \<longleftrightarrow> i < length (po_attempts st) \<and> P (po_attempts st ! i)"

definition change_attempt :: "nat \<Rightarrow> (popup_attempt \<Rightarrow> popup_attempt) \<Rightarrow> popup_state \<Rightarrow> popup_state" where
  "change_attempt i f st = st\<lparr>po_attempts := (po_attempts st)[i := f (po_attempts st ! i)]\<rparr>"

text \<open>\<open>cleanupRef.current()\<close>: the listener and timers of the newest attempt go.\<close>

(* src components/manager/OIDCStepUp.tsx 85-89 cleanupRef *)
definition popup_cleanup :: "popup_state \<Rightarrow> popup_state" where
  "popup_cleanup st = (if po_attempts st = [] then st else change_attempt (length (po_attempts st) - 1) (\<lambda>a. a\<lparr>at_listening := False\<rparr>) st)"

(* src components/manager/OIDCStepUp.tsx 51-57 finish *)
definition finish_popup :: "nat \<Rightarrow> bool \<Rightarrow> popup_status \<Rightarrow> popup_state \<Rightarrow> popup_state" where
  "finish_popup i closes status st =
     (if at_attempt i at_settled st then st
      else (popup_cleanup (change_attempt i (\<lambda>a. a\<lparr>at_settled := True, at_closed := at_closed a \<or> closes\<rparr>) st))\<lparr>po_status := status\<rparr>)"

datatype popup_event = Start_popup bool | Popup_message nat bool posted | User_closes_popup nat | Poll_popup nat | Popup_timer nat
  | Begin_answer nat "string option" | Complete_answer nat "string option" | Unmount_popup

(* src components/manager/OIDCStepUp.tsx 40-50 start *)
definition start_popup :: "bool \<Rightarrow> popup_state \<Rightarrow> popup_state" where
  "start_popup blocked st =
     (if \<not> po_mounted st \<or> po_status st = Waiting \<or> po_status st = Completing then st
      else if blocked then st\<lparr>po_status := Error_blocked\<rparr>
      else st\<lparr>po_status := Waiting, po_attempts := po_attempts st @
        [\<lparr>at_settled = False, at_listening = True, at_closed = False, at_url = None, at_begun = True\<rparr>]\<rparr>)"

(* src components/manager/OIDCStepUp.tsx 59-70 onMessage *)
definition popup_message :: "nat \<Rightarrow> bool \<Rightarrow> posted \<Rightarrow> popup_state \<Rightarrow> popup_state" where
  "popup_message i own_origin data st =
     (if at_attempt i at_listening st \<and> own_origin \<and> isOIDCStepUpMessage data \<and> \<not> at_attempt i at_settled st
      then (case data of
          Posted_object ms \<Rightarrow> (finish_popup i True Completing st)\<lparr>po_completions := po_completions st @
            [\<lparr>co_attempt = i, co_code = the (posted_string ms ''code''), co_state = the (posted_string ms ''state''), co_pending = True\<rparr>]\<rparr>
        | _ \<Rightarrow> st)
      else st)"

(* src components/manager/OIDCStepUp.tsx 72-76 closedCheck *)
definition poll_popup :: "nat \<Rightarrow> popup_state \<Rightarrow> popup_state" where
  "poll_popup i st = (if at_attempt i at_listening st \<and> at_attempt i at_closed st then finish_popup i False Error_failed st else st)"

(* src components/manager/OIDCStepUp.tsx 78-83 timeout *)
definition popup_timer :: "nat \<Rightarrow> popup_state \<Rightarrow> popup_state" where
  "popup_timer i st = (if at_attempt i at_listening st then finish_popup i True Error_timeout st else st)"

(* src components/manager/OIDCStepUp.tsx 91-102 start *)
definition begin_answer :: "nat \<Rightarrow> string option \<Rightarrow> popup_state \<Rightarrow> popup_state" where
  "begin_answer i a st =
     (if \<not> at_attempt i at_begun st then st
      else let st' = change_attempt i (\<lambda>t. t\<lparr>at_begun := False\<rparr>) st
        in case a of
          Some url \<Rightarrow> if at_attempt i at_closed st' then st' else change_attempt i (\<lambda>t. t\<lparr>at_url := Some url\<rparr>) st'
        | None \<Rightarrow> finish_popup i True Error_failed st')"

(* src components/manager/OIDCStepUp.tsx 65-67 onMessage *)
definition complete_answer :: "nat \<Rightarrow> string option \<Rightarrow> popup_state \<Rightarrow> popup_state" where
  "complete_answer j a st =
     (if j < length (po_completions st) \<and> co_pending (po_completions st ! j)
      then let st' = st\<lparr>po_completions := (po_completions st)[j := (po_completions st ! j)\<lparr>co_pending := False\<rparr>]\<rparr>
        in case a of Some token \<Rightarrow> st'\<lparr>po_elevated := po_elevated st @ [token]\<rparr> | None \<Rightarrow> st'\<lparr>po_status := Error_failed\<rparr>
      else st)"

(* src components/manager/OIDCStepUp.tsx 37-38 OIDCStepUp *)
definition unmount_popup :: "popup_state \<Rightarrow> popup_state" where
  "unmount_popup st = (popup_cleanup st)\<lparr>po_mounted := False\<rparr>"

fun popup_step :: "popup_event \<Rightarrow> popup_state \<Rightarrow> popup_state" where
  "popup_step (Start_popup blocked) st = start_popup blocked st"
| "popup_step (Popup_message i own_origin data) st = popup_message i own_origin data st"
| "popup_step (User_closes_popup i) st = (if i < length (po_attempts st) then change_attempt i (\<lambda>a. a\<lparr>at_closed := True\<rparr>) st else st)"
| "popup_step (Poll_popup i) st = poll_popup i st"
| "popup_step (Popup_timer i) st = popup_timer i st"
| "popup_step (Begin_answer i a) st = begin_answer i a st"
| "popup_step (Complete_answer j a) st = complete_answer j a st"
| "popup_step Unmount_popup st = unmount_popup st"

text \<open>
  Only the newest attempt can be open, it is exactly while the button waits, and its listener is there until then; a finished
  attempt has its popup closed; completions belong to different finished attempts and hand over at most one token each.
\<close>

definition attempts_ok :: "popup_state \<Rightarrow> bool" where
  "attempts_ok st \<longleftrightarrow> (\<forall>i < length (po_attempts st). let a = po_attempts st ! i in
       (at_settled a \<longrightarrow> at_closed a \<and> \<not> at_listening a)
       \<and> (\<not> at_settled a \<longrightarrow> Suc i = length (po_attempts st) \<and> po_status st = Waiting \<and> (po_mounted st \<longrightarrow> at_listening a)))"

definition completions_ok :: "popup_state \<Rightarrow> bool" where
  "completions_ok st \<longleftrightarrow> distinct (map co_attempt (po_completions st))
     \<and> list_all (\<lambda>c. at_attempt (co_attempt c) at_settled st) (po_completions st)
     \<and> length (po_elevated st) + length (filter co_pending (po_completions st)) \<le> length (po_completions st)
     \<and> length (filter co_pending (po_completions st)) \<le> (if po_status st = Completing then 1 else 0)"

definition popup_ok :: "popup_state \<Rightarrow> bool" where
  "popup_ok st \<longleftrightarrow> attempts_ok st \<and> completions_ok st"

lemma popup_ok_init: "popup_ok popup_init"
  by (simp add: popup_ok_def attempts_ok_def completions_ok_def popup_init_def)

lemma unsettled_last:
  "attempts_ok st \<Longrightarrow> i < length (po_attempts st) \<Longrightarrow> \<not> at_settled (po_attempts st ! i) \<Longrightarrow> Suc i = length (po_attempts st)"
  by (auto simp: attempts_ok_def Let_def)

lemma finish_last:
  assumes "Suc i = length (po_attempts st)" "\<not> at_settled (po_attempts st ! i)"
  shows "finish_popup i closes status st = st\<lparr>po_status := status, po_attempts := (po_attempts st)[i :=
    (po_attempts st ! i)\<lparr>at_settled := True, at_closed := at_closed (po_attempts st ! i) \<or> closes, at_listening := False\<rparr>]\<rparr>"
proof -
  have "length (po_attempts st) - 1 = i" "po_attempts st \<noteq> []" using assms(1) by auto
  then show ?thesis using assms by (simp add: finish_popup_def at_attempt_def popup_cleanup_def change_attempt_def)
qed

lemma finish_ok:
  assumes "popup_ok st" "i < length (po_attempts st)" "\<not> at_settled (po_attempts st ! i)"
    and "closes \<or> at_closed (po_attempts st ! i)" "status \<noteq> Waiting"
  shows "popup_ok (finish_popup i closes status st)"
proof -
  have last: "Suc i = length (po_attempts st)" using assms unsettled_last by (simp add: popup_ok_def)
  have "po_status st = Waiting" using assms by (auto simp: popup_ok_def attempts_ok_def Let_def)
  then have "filter co_pending (po_completions st) = []" using assms(1) by (simp add: popup_ok_def completions_ok_def)
  then show ?thesis using assms last unfolding popup_ok_def finish_last [OF last assms(3)]
    by (auto simp: attempts_ok_def completions_ok_def at_attempt_def list_all_iff nth_list_update Let_def)
qed

lemma start_ok: "popup_ok st \<Longrightarrow> popup_ok (start_popup blocked st)"
proof -
  assume ok: "popup_ok st"
  have "at_settled (po_attempts st ! i)" if "i < length (po_attempts st)" "po_status st \<noteq> Waiting" for i
    using ok that by (auto simp: popup_ok_def attempts_ok_def Let_def)
  then show ?thesis using ok
    by (auto simp: popup_ok_def attempts_ok_def completions_ok_def start_popup_def at_attempt_def list_all_iff nth_append less_Suc_eq Let_def)
qed

lemma change_ok:
  assumes "popup_ok st" "i < length (po_attempts st)"
    and "at_settled (f (po_attempts st ! i)) = at_settled (po_attempts st ! i)" "at_listening (f (po_attempts st ! i)) = at_listening (po_attempts st ! i)"
      "at_closed (po_attempts st ! i) \<longrightarrow> at_closed (f (po_attempts st ! i))"
  shows "popup_ok (change_attempt i f st)"
  using assms
  by (auto simp: popup_ok_def attempts_ok_def completions_ok_def change_attempt_def at_attempt_def list_all_iff nth_list_update Let_def)

lemma message_ok:
  assumes "popup_ok st"
  shows "popup_ok (popup_message i own_origin data st)"
proof (cases "at_attempt i at_listening st \<and> own_origin \<and> isOIDCStepUpMessage data \<and> \<not> at_attempt i at_settled st")
  case True
  then have i: "i < length (po_attempts st)" "\<not> at_settled (po_attempts st ! i)" by (auto simp: at_attempt_def)
  have last: "Suc i = length (po_attempts st)" using assms i unsettled_last by (simp add: popup_ok_def)
  have "po_status st = Waiting" using assms i by (auto simp: popup_ok_def attempts_ok_def Let_def)
  moreover have "i \<notin> co_attempt ` set (po_completions st)"
    using assms i by (auto simp: popup_ok_def completions_ok_def list_all_iff at_attempt_def)
  moreover obtain ms where "data = Posted_object ms" using True by (cases data) (auto simp: isOIDCStepUpMessage_def)
  ultimately show ?thesis using True assms finish_ok [OF assms i, of True Completing] last i
    by (auto simp: popup_message_def popup_ok_def attempts_ok_def completions_ok_def finish_last at_attempt_def list_all_iff)
qed (use assms in \<open>auto simp: popup_message_def\<close>)

lemma begin_ok: "popup_ok st \<Longrightarrow> popup_ok (begin_answer i a st)"
proof -
  assume ok: "popup_ok st"
  define st' where "st' = change_attempt i (\<lambda>t. t\<lparr>at_begun := False\<rparr>) st"
  show ?thesis
  proof (cases "at_attempt i at_begun st")
    case True
    then have "i < length (po_attempts st)" by (simp add: at_attempt_def)
    then have st': "popup_ok st'" "i < length (po_attempts st')" unfolding st'_def using ok
      by (auto intro!: change_ok, simp add: change_attempt_def)
    then have "popup_ok (finish_popup i True Error_failed st')"
      by (cases "at_attempt i at_settled st'") (simp add: finish_popup_def, auto simp: at_attempt_def intro: finish_ok)
    moreover have "popup_ok (change_attempt i (\<lambda>t. t\<lparr>at_url := Some url\<rparr>) st')" for url using st' by (intro change_ok) auto
    ultimately show ?thesis using True st' unfolding begin_answer_def st'_def [symmetric] Let_def by (auto split: option.split)
  qed (use ok in \<open>simp add: begin_answer_def\<close>)
qed

lemma complete_ok:
  assumes ok: "popup_ok st"
  shows "popup_ok (complete_answer j a st)"
proof (cases "j < length (po_completions st) \<and> co_pending (po_completions st ! j)")
  case True
  let ?cs = "(po_completions st)[j := (po_completions st ! j)\<lparr>co_pending := False\<rparr>]"
  have split: "po_completions st = take j (po_completions st) @ po_completions st ! j # drop (Suc j) (po_completions st)"
    using True by (simp add: id_take_nth_drop)
  have "filter co_pending ?cs = filter co_pending (take j (po_completions st)) @ filter co_pending (drop (Suc j) (po_completions st))"
    using True by (simp add: upd_conv_take_nth_drop)
  moreover have "length (filter co_pending (po_completions st))
      = Suc (length (filter co_pending (take j (po_completions st)) @ filter co_pending (drop (Suc j) (po_completions st))))"
    by (subst split) (use True in simp)
  ultimately have pending: "Suc (length (filter co_pending ?cs)) = length (filter co_pending (po_completions st))" by simp
  have status: "po_status st = Completing" using ok pending by (auto simp: popup_ok_def completions_ok_def split: if_splits)
  have "length (filter co_pending (po_completions st)) \<le> 1" using ok by (simp add: popup_ok_def completions_ok_def split: if_splits)
  then have none: "filter co_pending ?cs = []" unfolding length_0_conv [symmetric] using pending by linarith
  have "map co_attempt ?cs = map co_attempt (po_completions st)" using True by (simp add: map_update list_update_same_conv)
  moreover have "set (map co_attempt ?cs) = set (map co_attempt (po_completions st))" using calculation by simp
  ultimately show ?thesis using ok True pending status none
    by (auto simp: popup_ok_def attempts_ok_def completions_ok_def complete_answer_def at_attempt_def list_all_iff Let_def
        dest!: subsetD [OF set_update_subset_insert] split: option.split)
qed (use ok in \<open>auto simp: complete_answer_def\<close>)

lemma unmount_ok: "popup_ok st \<Longrightarrow> popup_ok (unmount_popup st)"
  by (auto simp: popup_ok_def attempts_ok_def completions_ok_def unmount_popup_def popup_cleanup_def change_attempt_def at_attempt_def
      list_all_iff nth_list_update Let_def)

lemma finish_any:
  assumes "popup_ok st" "i < length (po_attempts st)" "closes \<or> at_closed (po_attempts st ! i)" "status \<noteq> Waiting"
  shows "popup_ok (finish_popup i closes status st)"
proof (cases "at_settled (po_attempts st ! i)")
  case False
  with assms show ?thesis by (intro finish_ok)
qed (use assms in \<open>simp add: finish_popup_def at_attempt_def\<close>)

lemma popup_ok_step: "popup_ok st \<Longrightarrow> popup_ok (popup_step ev st)"
  by (cases ev) (auto simp: start_ok message_ok begin_ok complete_ok unmount_ok popup_timer_def poll_popup_def at_attempt_def
      intro!: change_ok finish_any)

text \<open>The messages that completions come from.\<close>

definition from_message :: "popup_event list \<Rightarrow> completion \<Rightarrow> bool" where
  "from_message es c \<longleftrightarrow> list_ex (\<lambda>ev. case ev of
     Popup_message i own_origin (Posted_object ms) \<Rightarrow> i = co_attempt c \<and> own_origin \<and> isOIDCStepUpMessage (Posted_object ms)
       \<and> posted_string ms ''code'' = Some (co_code c) \<and> posted_string ms ''state'' = Some (co_state c)
   | _ \<Rightarrow> False) es"

lemma cleanup_completions [simp]: "po_completions (popup_cleanup st) = po_completions st" "po_completions (change_attempt i f st) = po_completions st"
  "po_completions (finish_popup i closes status st) = po_completions st"
  by (simp_all add: popup_cleanup_def change_attempt_def finish_popup_def)

lemma from_message_same: "from_message es (c\<lparr>co_pending := b\<rparr>) = from_message es c"
  unfolding from_message_def by (intro list_ex_cong refl) (auto split: popup_event.split posted.split)

lemma completions_from_step:
  assumes "list_all (from_message es) (po_completions st)"
  shows "list_all (from_message (ev # es)) (po_completions (popup_step ev st))"
proof -
  have more: "list_all (from_message (ev # es)) (po_completions st)"
    using assms by (auto simp: list_all_iff from_message_def)
  have "list_all (from_message (ev # es)) (po_completions (complete_answer j a st))" for j a
    using more by (auto simp: complete_answer_def list_all_iff from_message_same Let_def
        dest!: subsetD [OF set_update_subset_insert] split: option.splits)
  then show ?thesis using more
    by (cases ev) (auto simp: start_popup_def popup_message_def poll_popup_def popup_timer_def begin_answer_def unmount_popup_def
        from_message_def isOIDCStepUpMessage_def Let_def split: posted.splits option.splits)
qed

lemma from_message_set: "set es = set es' \<Longrightarrow> from_message es c = from_message es' c"
  by (simp add: from_message_def list_ex_iff)

lemma completions_from: "list_all (from_message es) (po_completions (fold popup_step es popup_init))"
proof (induction es rule: rev_induct)
  case (snoc ev es)
  have "from_message (ev # es) = from_message (es @ [ev])" by (rule ext, rule from_message_set) auto
  then show ?case using completions_from_step [OF snoc.IH, of ev] by simp
qed (simp add: popup_init_def)

interpretation popups: started_machine popup_step "\<lambda>ev. True" popup_ok popup_init
  by unfold_locales (rule popup_ok_step, assumption, rule popup_ok_init)

text \<open>While the button waits there is an open attempt, and its timer ends the waiting.\<close>

lemma popup_wait_ends:
  assumes "popup_ok st" "i < length (po_attempts st)" "\<not> at_settled (po_attempts st ! i)" "po_mounted st"
  shows "po_status (popup_step (Popup_timer i) st) = Error_timeout"
proof -
  have "at_listening (po_attempts st ! i)" using assms by (auto simp: popup_ok_def attempts_ok_def Let_def)
  moreover have "Suc i = length (po_attempts st)" using assms unsettled_last by (simp add: popup_ok_def)
  ultimately show ?thesis using assms by (simp add: popup_timer_def at_attempt_def finish_last)
qed

text \<open>
  Re-authentication in a popup: whatever arrives in whatever order, at most one popup is in use at a time, a finished one is closed and no longer
  listened to, each attempt exchanges at most one code, which came in a well-formed message of that popup from the own origin, and no
  more tokens are handed over than codes were exchanged.
\<close>

theorem popup_exchange_once:
  "let st = fold popup_step es popup_init in
     attempts_ok st \<and> distinct (map co_attempt (po_completions st)) \<and> list_all (from_message es) (po_completions st)
     \<and> length (po_elevated st) \<le> length (po_completions st) \<and> length (po_completions st) \<le> length (po_attempts st)"
proof -
  let ?st = "fold popup_step es popup_init"
  have ok: "popup_ok ?st" by (rule popups.always) simp
  then have "set (map co_attempt (po_completions ?st)) \<subseteq> {..<length (po_attempts ?st)}"
    by (auto simp: popup_ok_def completions_ok_def list_all_iff at_attempt_def)
  then have "card (set (map co_attempt (po_completions ?st))) \<le> length (po_attempts ?st)"
    using card_mono [of "{..<length (po_attempts ?st)}"] by fastforce
  then show ?thesis using ok completions_from [of es]
    by (auto simp: popup_ok_def completions_ok_def distinct_card Let_def simp del: set_map dest: distinct_card)
qed

subsection \<open>Replaying a refused request\<close>

text \<open>
  The request with its variables and token, whether it is unanswered, the dialog, the step-ups under
  way with the variables their dialog was opened for, and the variables that were refused for lack of
  a token. A caller disables its control while the request or the dialog is pending.
\<close>

(* src components/manager/useStepUpMutation.tsx 47-47 useStepUpMutation *)
record 'v replay =
  rp_pending :: "'v option"
  rp_calls :: "('v \<times> string option \<times> bool) list"
  rp_flight :: "'v list"
  rp_refused :: "'v list"

definition replay_init :: "'v replay" where
  "replay_init = \<lparr>rp_pending = None, rp_calls = [], rp_flight = [], rp_refused = []\<rparr>"

datatype call_answer = Accepted | Elevation_required | Other_error

datatype 'v replay_event = Mutate 'v | Call_answer nat call_answer | Submit_replay_step_up | Step_up_done nat string | Close_step_up

definition send_call :: "'v \<Rightarrow> string option \<Rightarrow> 'v replay \<Rightarrow> 'v replay" where
  "send_call v t st = st\<lparr>rp_calls := rp_calls st @ [(v, t, True)]\<rparr>"

(* src components/manager/useStepUpMutation.tsx 49-56 useStepUpMutation *)
definition call_answered :: "nat \<Rightarrow> call_answer \<Rightarrow> 'v replay \<Rightarrow> 'v replay" where
  "call_answered i a st =
     (if i < length (rp_calls st)
      then (case rp_calls st ! i of
          (v, t, True) \<Rightarrow> (let st' = st\<lparr>rp_calls := (rp_calls st)[i := (v, t, False)]\<rparr>
            in if a = Elevation_required \<and> \<not> truthy_token t then st'\<lparr>rp_pending := Some v, rp_refused := v # rp_refused st\<rparr> else st')
        | _ \<Rightarrow> st)
      else st)"

text \<open>The query library reports the latest call.\<close>

definition awaited :: "'v replay \<Rightarrow> bool" where
  "awaited st \<longleftrightarrow> rp_calls st \<noteq> [] \<and> snd (snd (last (rp_calls st)))"

text \<open>The step-up hands over its token even when its dialog is gone.\<close>

(* src components/manager/useStepUpMutation.tsx 58-86 useStepUpMutation *)
fun replay_step :: "'v replay_event \<Rightarrow> 'v replay \<Rightarrow> 'v replay" where
  "replay_step (Mutate v) st = (if rp_pending st \<noteq> None \<or> awaited st then st else send_call v None st)"
| "replay_step (Call_answer i a) st = call_answered i a st"
| "replay_step Submit_replay_step_up st = (case rp_pending st of Some v \<Rightarrow> st\<lparr>rp_flight := rp_flight st @ [v]\<rparr> | None \<Rightarrow> st)"
| "replay_step (Step_up_done j t) st = (if j < length (rp_flight st)
     then send_call (rp_flight st ! j) (Some t) (st\<lparr>rp_pending := None, rp_flight := take j (rp_flight st) @ drop (Suc j) (rp_flight st)\<rparr>)
     else st)"
| "replay_step Close_step_up st = st\<lparr>rp_pending := None\<rparr>"

definition replay_ok :: "'v replay \<Rightarrow> bool" where
  "replay_ok st \<longleftrightarrow> set_option (rp_pending st) \<union> set (rp_flight st) \<subseteq> set (rp_refused st)
     \<and> list_all (\<lambda>(v, t, p). t = None \<or> v \<in> set (rp_refused st)) (rp_calls st)
     \<and> list_all (\<lambda>v. list_ex (\<lambda>(w, t, p). w = v \<and> \<not> truthy_token t) (rp_calls st)) (rp_refused st)"

lemma replay_answer_ok:
  assumes "replay_ok st"
  shows "replay_ok (call_answered i a st)"
proof (cases "i < length (rp_calls st)")
  case True
  obtain v t p where c: "rp_calls st ! i = (v, t, p)" by (cases "rp_calls st ! i") auto
  have mem: "(v, t, p) \<in> set (rp_calls st)" using True c by (metis nth_mem)
  let ?cs = "(rp_calls st)[i := (v, t, False)]"
  have calls: "list_all (\<lambda>(w, s, p). s = None \<or> w \<in> R) ?cs" if "list_all (\<lambda>(w, s, p). s = None \<or> w \<in> R) (rp_calls st)" for R
    using that mem by (auto simp: list_all_iff dest!: subsetD [OF set_update_subset_insert])
  have bare: "list_ex (\<lambda>(w, s, p). w = u \<and> \<not> truthy_token s) ?cs"
    if "list_ex (\<lambda>(w, s, p). w = u \<and> \<not> truthy_token s) (rp_calls st)" for u
  proof -
    from that obtain k where "k < length (rp_calls st)" "fst (rp_calls st ! k) = u" "\<not> truthy_token (fst (snd (rp_calls st ! k)))"
      by (auto simp: list_ex_iff in_set_conv_nth split_beta)
    then have "k < length ?cs" "fst (?cs ! k) = u" "\<not> truthy_token (fst (snd (?cs ! k)))" using c
      by (cases "k = i"; simp)+
    then show ?thesis unfolding list_ex_iff split_beta by (metis nth_mem)
  qed
  have own: "list_ex (\<lambda>(w, s, p). w = v \<and> \<not> truthy_token s) ?cs" if "\<not> truthy_token t"
    by (rule bare) (use mem that in \<open>auto simp: list_ex_iff\<close>)
  have "list_all (\<lambda>(w, s, p). s = None \<or> w \<in> insert v (set (rp_refused st))) (rp_calls st)"
    using assms by (auto simp: replay_ok_def list_all_iff)
  then show ?thesis using assms True c own bare calls [of "set (rp_refused st)"] calls [of "insert v (set (rp_refused st))"]
    by (cases p) (auto simp: replay_ok_def call_answered_def list_all_iff Let_def)
qed (use assms in \<open>simp add: call_answered_def\<close>)

lemma replay_ok_step: "replay_ok st \<Longrightarrow> replay_ok (replay_step ev st)"
proof (cases ev)
  case (Call_answer i a)
  then show "replay_ok st \<Longrightarrow> ?thesis" by (simp add: replay_answer_ok)
qed (auto simp: replay_ok_def send_call_def list_all_iff list_ex_iff dest: in_set_takeD in_set_dropD split: option.splits)

interpretation replays: started_machine replay_step "\<lambda>ev. True" replay_ok replay_init
  by unfold_locales (rule replay_ok_step, assumption, simp add: replay_ok_def replay_init_def)

text \<open>
  A request is tried without a token first: however calls, answers, dialogs and step-ups interleave, a request with a
  token repeats one that was sent without a usable token and refused for lack of it, and the dialog only opens for such a request.
\<close>

theorem replays_refused:
  "replay_ok (fold replay_step es (replay_init :: 'v replay))"
  by (rule replays.always) simp

text \<open>
  Closing the dialog does not stop a step-up that was submitted: when it succeeds, the request is sent all the same.
\<close>

theorem cancelled_step_up_still_sends:
  assumes "rp_pending st = Some v"
  shows "rp_calls (fold replay_step [Submit_replay_step_up, Close_step_up, Step_up_done (length (rp_flight st)) t] st)
    = rp_calls st @ [(v, Some t, True)]"
  using assms by (simp add: send_call_def)

lemma cancelled_step_up_still_sends_witness:
  "rp_calls (fold replay_step [Submit_replay_step_up, Close_step_up, Step_up_done 0 ''t1'']
     (fold replay_step [Mutate (7 :: nat), Call_answer 0 Elevation_required] replay_init)) = [(7, None, False), (7, Some ''t1'', True)]"
proof -
  let ?st = "fold replay_step [Mutate (7 :: nat), Call_answer 0 Elevation_required] replay_init"
  have "rp_pending ?st = Some 7" "rp_flight ?st = []" "rp_calls ?st = [(7, None, False)]"
    by (simp_all add: replay_init_def send_call_def call_answered_def truthy_token_def awaited_def Let_def)
  then show ?thesis using cancelled_step_up_still_sends [of ?st 7 "''t1''"] by simp
qed

subsection \<open>Removing a connector\<close>

text \<open>What is known of the dependents: still asked, known, or not to be had.\<close>

datatype impact = Impact_loading | Impact_known | Impact_failed

text \<open>A request, with what the dialog held; the newest request is the one its button follows.\<close>

record removal_sent =
  rs_token :: "string option"
  rs_typed :: string
  rs_required :: bool

(* src components/manager/ConfirmDestructive.tsx 39-40 ConfirmDestructive *)
record removal =
  rm_open :: bool
  rm_typed :: string
  rm_token :: "string option"
  rm_elevating :: nat
  rm_config :: "bool option"
  rm_impact :: impact
  rm_pending :: bool
  rm_removed :: bool
  rm_sent :: "removal_sent list"

definition removal_init :: removal where
  "removal_init = \<lparr>rm_open = False, rm_typed = [], rm_token = None, rm_elevating = 0, rm_config = None,
     rm_impact = Impact_loading, rm_pending = False, rm_removed = False, rm_sent = []\<rparr>"

(* src components/manager/ConfirmDestructive.tsx 49-52 reset *)
definition reset_removal :: "removal \<Rightarrow> removal" where
  "reset_removal st = st\<lparr>rm_typed := [], rm_token := None\<rparr>"

(* src components/manager/ConfirmDestructive.tsx 53-56 close *)
definition close_removal :: "removal \<Rightarrow> removal" where
  "close_removal st = (reset_removal st)\<lparr>rm_open := False\<rparr>"

(* src components/manager/ConfirmDestructive.tsx 46-46 ConfirmDestructive *)
definition removal_required :: "removal \<Rightarrow> bool" where
  "removal_required st \<longleftrightarrow> from_opt True (rm_config st)"

(* src components/manager/ConfirmDestructive.tsx 71-73 ConfirmDestructive *)
definition canRemove :: "string \<Rightarrow> removal \<Rightarrow> bool" where
  "canRemove name st \<longleftrightarrow> rm_typed st = name \<and> (\<not> removal_required st \<or> truthy_token (rm_token st)) \<and> \<not> rm_pending st"

(* src components/manager/ConfirmDestructive.tsx 58-63 remove *)
definition remove_connector :: "removal \<Rightarrow> removal" where
  "remove_connector st = st\<lparr>rm_pending := True, rm_sent := rm_sent st @
     [\<lparr>rs_token = (if truthy_token (rm_token st) then rm_token st else None), rs_typed = rm_typed st, rs_required = removal_required st\<rparr>]\<rparr>"

(* src components/manager/ConfirmDestructive.tsx 64-69 remove *)
definition remove_answer :: "bool \<Rightarrow> removal \<Rightarrow> removal" where
  "remove_answer success st = (if \<not> rm_pending st then st
     else if success then (reset_removal st)\<lparr>rm_pending := False, rm_removed := True, rm_open := False\<rparr>
     else st\<lparr>rm_pending := False\<rparr>)"

datatype removal_event = Open_removal | Close_removal | Type_removal string | Submit_removal_step_up | Removal_elevated string
  | Removal_config bool | Removal_impact bool | Remove | Remove_answer bool

(* src components/manager/ConfirmDestructive.tsx 75-151 ConfirmDestructive *)
fun removal_step :: "string \<Rightarrow> removal_event \<Rightarrow> removal \<Rightarrow> removal" where
  "removal_step name Open_removal st = st\<lparr>rm_open := True\<rparr>"
| "removal_step name Close_removal st = (if rm_open st then close_removal st else st)"
| "removal_step name (Type_removal s) st = (if rm_open st then st\<lparr>rm_typed := s\<rparr> else st)"
| "removal_step name Submit_removal_step_up st =
     (if rm_open st \<and> removal_required st \<and> rm_typed st = name \<and> \<not> truthy_token (rm_token st)
      then st\<lparr>rm_elevating := Suc (rm_elevating st)\<rparr> else st)"
| "removal_step name (Removal_elevated t) st =
     (if 0 < rm_elevating st then st\<lparr>rm_elevating := rm_elevating st - 1, rm_token := Some t\<rparr> else st)"
| "removal_step name (Removal_config b) st = st\<lparr>rm_config := Some b\<rparr>"
| "removal_step name (Removal_impact known) st = st\<lparr>rm_impact := (if known then Impact_known else Impact_failed)\<rparr>"
| "removal_step name Remove st = (if rm_open st \<and> canRemove name st then remove_connector st else st)"
| "removal_step name (Remove_answer success) st = remove_answer success st"

definition removal_confirmed :: "string \<Rightarrow> string set \<Rightarrow> removal_sent \<Rightarrow> bool" where
  "removal_confirmed name tokens r \<longleftrightarrow> rs_typed r = name \<and> \<not> (rs_required r \<and> \<not> handed_over tokens (rs_token r))"

definition removal_ok :: "string \<Rightarrow> string set \<Rightarrow> removal \<Rightarrow> bool" where
  "removal_ok name tokens st \<longleftrightarrow> (truthy_token (rm_token st) \<longrightarrow> handed_over tokens (rm_token st))
     \<and> list_all (removal_confirmed name tokens) (rm_sent st)"

lemma removal_ok_step:
  "removal_ok name tokens st \<Longrightarrow> (\<And>t. ev = Removal_elevated t \<Longrightarrow> t \<in> tokens) \<Longrightarrow> removal_ok name tokens (removal_step name ev st)"
  by (cases ev) (auto simp: removal_ok_def removal_confirmed_def truthy_token_def canRemove_def remove_connector_def remove_answer_def
      reset_removal_def close_removal_def)

fun removal_brings :: "removal_event \<Rightarrow> string set" where
  "removal_brings (Removal_elevated t) = {t}"
| "removal_brings _ = {}"

interpretation removals: informed_machine "removal_step name" removal_brings "removal_ok name" removal_init for name
proof
  fix known st ev
  assume "removal_ok name known st"
  then have "removal_ok name (known \<union> removal_brings ev) st" by (auto simp: removal_ok_def removal_confirmed_def list_all_iff intro: handed_over_mono)
  then show "removal_ok name (known \<union> removal_brings ev) (removal_step name ev st)" by (rule removal_ok_step) simp
qed (simp add: removal_ok_def removal_init_def truthy_token_def)

text \<open>A removal is only requested with the name typed and, where step-up is on, a token that was handed over.\<close>

lemma removals_confirmed:
  "list_all (removal_confirmed name (\<Union> (removal_brings ` set es))) (rm_sent (fold (removal_step name) es removal_init))"
  using removals.informed_run [of name es] by (simp add: removal_ok_def)

text \<open>
  A dialog that holds a token only ever sends that token, however often removing fails, until it is closed.
\<close>

definition stuck_with :: "string \<Rightarrow> removal \<Rightarrow> bool" where
  "stuck_with t st \<longleftrightarrow> (rm_token st = Some t \<or> rm_token st = None \<and> rm_removed st \<and> \<not> rm_open st) \<and> rm_elevating st = 0"

lemma stuck_step:
  assumes "stuck_with t st" "t \<noteq> []" "ev \<notin> {Open_removal, Close_removal}"
  shows "stuck_with t (removal_step name ev st) \<and> (\<exists>new. rm_sent (removal_step name ev st) = rm_sent st @ new \<and> list_all (\<lambda>r. rs_token r = Some t) new)"
  using assms by (cases ev) (auto simp: stuck_with_def truthy_token_def canRemove_def remove_connector_def remove_answer_def reset_removal_def)

text \<open>
  The message of a failed removal asks to re-authenticate and retry, but the dialog offers no way to: it keeps the spent token, starts no
  step-up, and whatever is done in it, every further request carries the same token until the dialog is closed.
\<close>

theorem failed_removal_keeps_token:
  assumes "rm_token st = Some t" "t \<noteq> []" "rm_elevating st = 0" "Open_removal \<notin> set es" "Close_removal \<notin> set es"
  shows "\<exists>new. rm_sent (fold (removal_step name) es st) = rm_sent st @ new \<and> list_all (\<lambda>r. rs_token r = Some t) new
    \<and> rm_elevating (fold (removal_step name) es st) = 0"
proof -
  have "\<exists>new. rm_sent (fold (removal_step name) es st) = rm_sent st @ new \<and> list_all (\<lambda>r. rs_token r = Some t) new
      \<and> stuck_with t (fold (removal_step name) es st)" if "stuck_with t st" for st
    using that assms(4,5)
  proof (induction es arbitrary: st)
    case (Cons ev es)
    from stuck_step [OF Cons.prems(1) assms(2), of ev name] Cons.prems obtain new where
      new: "stuck_with t (removal_step name ev st)" "rm_sent (removal_step name ev st) = rm_sent st @ new"
        "list_all (\<lambda>r. rs_token r = Some t) new" by auto
    from Cons.IH [OF new(1)] Cons.prems obtain more where
      "rm_sent (fold (removal_step name) es (removal_step name ev st)) = rm_sent (removal_step name ev st) @ more"
      "list_all (\<lambda>r. rs_token r = Some t) more" "stuck_with t (fold (removal_step name) es (removal_step name ev st))" by auto
    then show ?case using new by (intro exI [of _ "new @ more"]) simp
  qed (intro exI [of _ "[]"], simp)
  moreover have "stuck_with t st" using assms by (simp add: stuck_with_def)
  ultimately show ?thesis unfolding stuck_with_def by blast
qed

definition example_removal :: "removal_event list" where
  "example_removal = [Open_removal, Removal_impact False, Type_removal ''nas'', Submit_removal_step_up, Removal_elevated ''t1'', Remove]"

lemma failed_removal_keeps_token_witness:
  "\<exists>new. rm_sent (fold (removal_step ''nas'') [Remove_answer False, Submit_removal_step_up, Remove] (fold (removal_step ''nas'') example_removal removal_init))
     = rm_sent (fold (removal_step ''nas'') example_removal removal_init) @ new \<and> list_all (\<lambda>r. rs_token r = Some ''t1'') new"
proof -
  have "rm_token (fold (removal_step ''nas'') example_removal removal_init) = Some ''t1''"
    "rm_elevating (fold (removal_step ''nas'') example_removal removal_init) = 0" by code_simp+
  then show ?thesis
    using failed_removal_keeps_token [of "fold (removal_step ''nas'') example_removal removal_init" "''t1''"
        "[Remove_answer False, Submit_removal_step_up, Remove]" "''nas''"] by auto
qed

text \<open>Where the dependents cannot be had the dialog says it refuses to proceed; it proceeds.\<close>

lemma blind_removal:
  "rm_impact (fold (removal_step ''nas'') example_removal removal_init) = Impact_failed
   \<and> map rs_token (rm_sent (fold (removal_step ''nas'') example_removal removal_init)) = [Some ''t1'']"
  by code_simp

end
