(* ===== verification/Runbooks.thy ===== *)
theory Runbooks
  imports JsValues Machines "HOL-Library.Multiset"
begin

text \<open>
  The runbook editor (\<open>features/settings/RunbooksPage.tsx\<close>): the draft with its steps, the controls
  of a step, the request a save sends, and what the server's answers do to the page. Step values
  are stored as JSON text; the names of connectors, actions and attributes come from the server.
  The lemmas show that the rows of the draft keep their identity and what a save sends, that a step
  only holds what its connector offers, and which expected lists survive a change of the operator.
\<close>

subsection \<open>Stored runbooks\<close>

(* src api/model/runbookStepKind.ts 13-23 RunbookStepKind *)
datatype step_kind = Lifecycle | Sync_and_wait | Wait_until_healthy | Manual | Config_push | Wait_for_entity
  | Connector_action

(* src api/model/runbookStepInputOperator.ts 13-23 RunbookStepInputOperator *)
datatype step_operator = Op_eq | Op_neq | Op_contains | Op_regex | Op_gt | Op_lt

fun kind_text :: "step_kind \<Rightarrow> string" where
  "kind_text Lifecycle = ''lifecycle''"
| "kind_text Sync_and_wait = ''sync_and_wait''"
| "kind_text Wait_until_healthy = ''wait_until_healthy''"
| "kind_text Manual = ''manual''"
| "kind_text Config_push = ''config_push''"
| "kind_text Wait_for_entity = ''wait_for_entity''"
| "kind_text Connector_action = ''connector_action''"

fun operator_text :: "step_operator \<Rightarrow> string" where
  "operator_text Op_eq = ''eq''"
| "operator_text Op_neq = ''neq''"
| "operator_text Op_contains = ''contains''"
| "operator_text Op_regex = ''regex''"
| "operator_text Op_gt = ''gt''"
| "operator_text Op_lt = ''lt''"

text \<open>A stored step, as far as the editor reads it.\<close>

(* src api/model/runbookStep.ts 14-46 RunbookStep *)
record runbook_step =
  rs_id :: string
  rs_kind :: "step_kind option"
  rs_title :: string
  rs_connectorId :: string
  rs_verb :: string
  rs_entityRef :: string
  rs_action :: "string option"
  rs_fieldKey :: "string option"
  rs_targetValue :: "stored option"
  rs_attribute :: "string option"
  rs_operator :: "step_operator option"
  rs_expectedValue :: "stored option"
  rs_timeoutSeconds :: rat

(* src api/model/runbookTargetType.ts 10-16 RunbookTargetType *)
datatype target_type = Change_type | Alert_severity | Finding_check_type

fun target_text :: "target_type \<Rightarrow> string" where
  "target_text Change_type = ''change_type''"
| "target_text Alert_severity = ''alert_severity''"
| "target_text Finding_check_type = ''finding_check_type''"

(* src api/model/runbook.ts 12-29 Runbook *)
record runbook =
  rb_id :: string
  rb_title :: string
  rb_body :: string
  rb_requiresApproval :: "bool option"
  rb_targetType :: target_type
  rb_targetValue :: string
  rb_snapshotId :: "string option"
  rb_docId :: "string option"
  rb_steps :: "runbook_step list"

subsection \<open>Drafts\<close>

text \<open>A timeout that is empty or undefined is \<^const>\<open>None\<close>; so is an operator that is empty.\<close>

(* src features/settings/RunbooksPage.tsx 85-105 StepDraft *)
record step_draft =
  sd_key :: string
  sd_id :: "string option"
  sd_kind :: "step_kind option"
  sd_title :: string
  sd_connectorId :: string
  sd_verb :: string
  sd_entityRef :: string
  sd_action :: string
  sd_entityKind :: string
  sd_timeoutSeconds :: "rat option"
  sd_fieldKey :: string
  sd_targetValue :: json
  sd_attribute :: string
  sd_operator :: "step_operator option"
  sd_expectedValue :: json
  sd_redacted :: bool

(* src features/settings/RunbooksPage.tsx 107-126 newStepDraft *)
definition newStepDraft :: "nat \<Rightarrow> step_draft" where
  "newStepDraft n = \<lparr>sd_key = ''new-'' @ show_nat n, sd_id = None, sd_kind = Some Lifecycle, sd_title = [], sd_connectorId = [],
     sd_verb = ''restart'', sd_entityRef = [], sd_action = [], sd_entityKind = [], sd_timeoutSeconds = None,
     sd_fieldKey = [], sd_targetValue = JStr [], sd_attribute = [], sd_operator = Some Op_eq, sd_expectedValue = JStr [],
     sd_redacted = False\<rparr>"

(* src features/settings/RunbooksPage.tsx 128-137 Draft *)
record runbook_draft =
  rd_title :: string
  rd_body :: string
  rd_requiresApproval :: bool
  rd_targetType :: target_type
  rd_targetValue :: string
  rd_docId :: string
  rd_snapshotId :: string
  rd_steps :: "step_draft list"

(* src features/settings/RunbooksPage.tsx 139-148 emptyDraft *)
definition emptyDraft :: runbook_draft where
  "emptyDraft = \<lparr>rd_title = [], rd_body = [], rd_requiresApproval = False, rd_targetType = Change_type,
     rd_targetValue = [], rd_docId = [], rd_snapshotId = [], rd_steps = []\<rparr>"

text \<open>A stored value is JSON text, or an older plain text that is kept as it is.\<close>

(* src features/settings/RunbooksPage.tsx 1412-1419 parseStepValue *)
definition parseStepValue :: "stored option \<Rightarrow> json" where
  "parseStepValue v = (case v of None \<Rightarrow> JStr [] | Some (Json j) \<Rightarrow> j | Some (Text s) \<Rightarrow> JStr s)"

(* src features/settings/RunbooksPage.tsx 200-217 openEdit *)
definition load_step :: "runbook_step \<Rightarrow> step_draft" where
  "load_step s = \<lparr>sd_key = rs_id s, sd_id = Some (rs_id s), sd_kind = rs_kind s, sd_title = rs_title s,
     sd_connectorId = rs_connectorId s, sd_verb = rs_verb s, sd_entityRef = rs_entityRef s,
     sd_action = from_opt [] (rs_action s), sd_entityKind = [],
     sd_timeoutSeconds = (if 0 < rs_timeoutSeconds s then Some (rs_timeoutSeconds s) else None),
     sd_fieldKey = from_opt [] (rs_fieldKey s), sd_targetValue = parseStepValue (rs_targetValue s),
     sd_attribute = from_opt [] (rs_attribute s), sd_operator = rs_operator s,
     sd_expectedValue = parseStepValue (rs_expectedValue s), sd_redacted = (rs_kind s = None)\<rparr>"

(* src features/settings/RunbooksPage.tsx 191-218 openEdit *)
definition load_runbook :: "runbook \<Rightarrow> runbook_draft" where
  "load_runbook rb = \<lparr>rd_title = rb_title rb, rd_body = rb_body rb, rd_requiresApproval = from_opt False (rb_requiresApproval rb),
     rd_targetType = rb_targetType rb, rd_targetValue = rb_targetValue rb, rd_docId = from_opt [] (rb_docId rb),
     rd_snapshotId = from_opt [] (rb_snapshotId rb), rd_steps = map load_step (rb_steps rb)\<rparr>"

subsection \<open>The request of a save\<close>

(* src features/settings/RunbooksPage.tsx 230-233 stepsLocked *)
definition stepsLocked :: "runbook_draft \<Rightarrow> bool" where
  "stepsLocked d \<longleftrightarrow> list_ex sd_redacted (rd_steps d)"

text \<open>\<open>...(x ? { k: x } : {})\<close> for a text.\<close>

definition if_text :: "string \<Rightarrow> json option" where
  "if_text s = (if s \<noteq> [] then Some (JStr s) else None)"

definition step_base :: "step_draft \<Rightarrow> (string \<times> json option) list" where
  "step_base s = [(''id'', Option.bind (sd_id s) if_text), (''kind'', Some (JStr (kind_text (from_opt Lifecycle (sd_kind s))))),
     (''title'', Some (JStr (trim (sd_title s))))]"

(* src features/settings/RunbooksPage.tsx 235-301 toStepInput *)
definition toStepInput :: "step_draft \<Rightarrow> json" where
  "toStepInput s = jobj (step_base s @
     (case from_opt Lifecycle (sd_kind s) of
        Lifecycle \<Rightarrow> [(''connectorId'', Some (JStr (sd_connectorId s))), (''verb'', if_text (sd_verb s)), (''entityRef'', if_text (sd_entityRef s))]
      | Sync_and_wait \<Rightarrow> [(''connectorId'', Some (JStr (sd_connectorId s))), (''timeoutSeconds'', map_option JNum (sd_timeoutSeconds s))]
      | Wait_until_healthy \<Rightarrow> [(''connectorId'', Some (JStr (sd_connectorId s))), (''timeoutSeconds'', map_option JNum (sd_timeoutSeconds s))]
      | Config_push \<Rightarrow> [(''connectorId'', Some (JStr (sd_connectorId s))), (''fieldKey'', Some (JStr (sd_fieldKey s))),
          (''targetValue'', Some (sd_targetValue s)), (''entityRef'', if_text (sd_entityRef s))]
      | Wait_for_entity \<Rightarrow> [(''connectorId'', Some (JStr (sd_connectorId s))), (''entityRef'', Some (JStr (sd_entityRef s))),
          (''attribute'', Some (JStr (sd_attribute s))), (''operator'', map_option (\<lambda>p. JStr (operator_text p)) (sd_operator s)),
          (''expectedValue'', Some (sd_expectedValue s)), (''timeoutSeconds'', map_option JNum (sd_timeoutSeconds s))]
      | Connector_action \<Rightarrow> [(''connectorId'', Some (JStr (sd_connectorId s))), (''action'', Some (JStr (sd_action s))),
          (''entityRef'', if_text (sd_entityRef s))]
      | Manual \<Rightarrow> []))"

definition or_null :: "string \<Rightarrow> json" where
  "or_null s = (if trim s = [] then JNull else JStr (trim s))"

(* src features/settings/RunbooksPage.tsx 303-312 toPayload *)
definition toPayload :: "runbook_draft \<Rightarrow> json" where
  "toPayload d = jobj [(''title'', Some (JStr (trim (rd_title d)))), (''body'', Some (JStr (rd_body d))),
     (''requiresApproval'', Some (JBool (rd_requiresApproval d))), (''targetType'', Some (JStr (target_text (rd_targetType d)))),
     (''targetValue'', Some (JStr (trim (rd_targetValue d)))), (''docId'', Some (or_null (rd_docId d))),
     (''snapshotId'', Some (or_null (rd_snapshotId d))),
     (''steps'', if stepsLocked d then None else Some (JArr (map toStepInput (rd_steps d))))]"

subsection \<open>What a connector offers\<close>

record connector_info =
  ci_id :: string
  ci_type :: string
  ci_actions :: "(string \<times> bool) list"   \<comment> \<open>name and entity scope\<close>

text \<open>A field of the connector's configuration: key, type, options, and whether it is set per entity.\<close>

record config_field =
  cf_key :: string
  cf_type :: string
  cf_options :: "string list"
  cf_entityScope :: bool

text \<open>
  What the server has told the editor about a step's connector: the connectors, the lifecycle verbs
  of connector types, configuration fields, the attributes of entity kinds, and the kind of an
  entity in the latest snapshot (empty when unknown).
\<close>

record offers =
  of_connectors :: "connector_info list"
  of_verbs :: "(string \<times> string list option) list"
  of_fields :: "config_field list"
  of_attributes :: "(string \<times> (string \<times> string) list) list"
  of_kind :: "string \<Rightarrow> string"

(* src features/settings/RunbooksPage.tsx 57-58 LIFECYCLE_VERBS *)
definition LIFECYCLE_VERBS :: "string list" where
  "LIFECYCLE_VERBS = [''restart'', ''start'', ''stop'']"

definition connector_at :: "offers \<Rightarrow> string \<Rightarrow> connector_info option" where
  "connector_at ofs cid = find (\<lambda>c. ci_id c = cid) (of_connectors ofs)"

(* src features/settings/RunbooksPage.tsx 420-423 actionOptions *)
definition actionOptions :: "offers \<Rightarrow> string \<Rightarrow> string \<Rightarrow> string list" where
  "actionOptions ofs cid ref = (case connector_at ofs cid of None \<Rightarrow> []
     | Some c \<Rightarrow> map fst (filter (\<lambda>(n, scoped). n \<notin> set LIFECYCLE_VERBS \<and> scoped = (ref \<noteq> [])) (ci_actions c)))"

(* src features/settings/RunbooksPage.tsx 426-427 keepAction *)
definition keepAction :: "offers \<Rightarrow> string \<Rightarrow> string \<Rightarrow> string \<Rightarrow> string" where
  "keepAction ofs cid ref action = (if action \<in> set (actionOptions ofs cid ref) then action else [])"

(* src features/settings/RunbooksPage.tsx 429-442 lifecycleVerbs *)
definition lifecycleVerbs :: "offers \<Rightarrow> string \<Rightarrow> string \<Rightarrow> string list" where
  "lifecycleVerbs ofs cid ref =
     (case connector_at ofs cid of
        None \<Rightarrow> LIFECYCLE_VERBS
      | Some c \<Rightarrow>
          if ci_type c = ''custom''
          then filter (\<lambda>verb. (verb, ref \<noteq> []) \<in> set (ci_actions c)) LIFECYCLE_VERBS
          else (case find (\<lambda>s. fst s = ci_type c) (of_verbs ofs) of
              Some (ty, Some verbs) \<Rightarrow> verbs | _ \<Rightarrow> LIFECYCLE_VERBS))"

definition first_or_empty :: "string list \<Rightarrow> string" where
  "first_or_empty vs = (case vs of [] \<Rightarrow> [] | v # _ \<Rightarrow> v)"

subsection \<open>Expected values\<close>

(* src features/settings/RunbooksPage.tsx 1421-1424 getInputValue *)
definition getInputValue :: "(rat \<Rightarrow> string) \<Rightarrow> json \<Rightarrow> string" where
  "getInputValue num v = (if v = JNull then [] else js_text num v False)"

text \<open>For a text; the value handed over is always the text of a control.\<close>

(* src features/settings/RunbooksPage.tsx 1426-1430 inputValueToNumber *)
definition inputValueToNumber :: "string \<Rightarrow> json" where
  "inputValueToNumber s = (if s = [] then JStr [] else (case js_number s of Some n \<Rightarrow> JNum n | None \<Rightarrow> JStr []))"

(* src features/settings/RunbooksPage.tsx 1432-1437 expectedValueToInput *)
definition expectedValueToInput :: "(rat \<Rightarrow> string) \<Rightarrow> json \<Rightarrow> string option \<Rightarrow> string" where
  "expectedValueToInput num v ty = (case (ty, v) of
     (Some ty', JArr xs) \<Rightarrow> if ty' = ''string_array'' then join_with '', '' (map (\<lambda>x. js_text num x True) xs) else getInputValue num v
   | _ \<Rightarrow> getInputValue num v)"

(* src features/settings/RunbooksPage.tsx 1439-1466 parseExpectedValue *)
definition parseExpectedValue :: "string \<Rightarrow> string option \<Rightarrow> step_operator option \<Rightarrow> json" where
  "parseExpectedValue val ty operator =
     (if operator = Some Op_regex \<or> operator = Some Op_contains then JStr val
      else if operator = Some Op_gt \<or> operator = Some Op_lt \<or> ty = Some ''number'' then inputValueToNumber val
      else if ty = Some ''boolean'' then
        (if val = ''true'' then JBool True else if val = ''false'' then JBool False else JStr val)
      else if ty = Some ''string_array'' \<and> (operator = Some Op_eq \<or> operator = Some Op_neq)
      then JArr (map JStr (filter (\<lambda>item. item \<noteq> []) (map trim (split_on CHR '','' val))))
      else JStr val)"

(* src features/settings/RunbooksPage.tsx 1468-1474 uniqueAttributeType *)
definition uniqueAttributeType :: "(string \<times> string) list \<Rightarrow> string \<Rightarrow> string option" where
  "uniqueAttributeType attributes name =
     (case remdups (map snd (filter (\<lambda>a. fst a = name) attributes)) of [ty] \<Rightarrow> Some ty | _ \<Rightarrow> None)"

subsection \<open>The controls of a step\<close>

text \<open>What the entity's kind is: as picked, or looked up for a loaded step.\<close>

(* src features/settings/RunbooksPage.tsx 1122-1141 RunbookStepKindFields *)
definition entity_kind :: "offers \<Rightarrow> step_draft \<Rightarrow> string" where
  "entity_kind ofs s = (if sd_entityKind s \<noteq> [] then sd_entityKind s
     else if sd_kind s = Some Wait_for_entity \<and> sd_connectorId s \<noteq> [] \<and> sd_entityRef s \<noteq> [] then of_kind ofs (sd_entityRef s)
     else [])"

(* src features/settings/RunbooksPage.tsx 1241-1244 RunbookStepKindFields *)
definition attributes_for :: "offers \<Rightarrow> string \<Rightarrow> (string \<times> string) list" where
  "attributes_for ofs entityKind = (if entityKind \<noteq> [] then from_opt [] (map_of (of_attributes ofs) entityKind)
     else concat (map snd (of_attributes ofs)))"

text \<open>The value of a step after its type or operator changed.\<close>

definition reread :: "(rat \<Rightarrow> string) \<Rightarrow> step_draft \<Rightarrow> string option \<Rightarrow> step_operator option \<Rightarrow> json" where
  "reread num s ty operator = parseExpectedValue (expectedValueToInput num (sd_expectedValue s) ty) ty operator"

datatype step_op = Type_step_title string | Choose_kind step_kind | Choose_connector string | Choose_verb string
  | Type_timeout string | Pick_entity string string | Choose_action string | Choose_field string | Type_target string
  | Tick_target bool | Type_attribute string | Choose_operator step_operator | Type_expected string | Type_minutes string

text \<open>What every change of the kind but one clears.\<close>

definition clear_fields :: "step_draft \<Rightarrow> step_draft" where
  "clear_fields s = s\<lparr>sd_verb := [], sd_action := [], sd_entityKind := [], sd_timeoutSeconds := None, sd_fieldKey := [],
     sd_targetValue := JStr [], sd_attribute := [], sd_operator := Some Op_eq, sd_expectedValue := JStr []\<rparr>"

(* src features/settings/RunbooksPage.tsx 766-852 RunbooksPage *)
definition choose_kind :: "offers \<Rightarrow> step_kind \<Rightarrow> step_draft \<Rightarrow> step_draft" where
  "choose_kind ofs k s =
     (let c = (clear_fields s)\<lparr>sd_kind := Some k\<rparr>
      in case k of
           Manual \<Rightarrow> c\<lparr>sd_connectorId := [], sd_entityRef := []\<rparr>
         | Sync_and_wait \<Rightarrow> c\<lparr>sd_entityRef := [], sd_timeoutSeconds := (if sd_timeoutSeconds s = Some 0 then None else sd_timeoutSeconds s)\<rparr>
         | Wait_until_healthy \<Rightarrow> c\<lparr>sd_entityRef := [], sd_timeoutSeconds := (if sd_timeoutSeconds s = Some 0 then None else sd_timeoutSeconds s)\<rparr>
         | Config_push \<Rightarrow> c\<lparr>sd_entityRef := []\<rparr>
         | Connector_action \<Rightarrow> c\<lparr>sd_entityRef := []\<rparr>
         | Wait_for_entity \<Rightarrow> c
         | Lifecycle \<Rightarrow> s\<lparr>sd_kind := Some Lifecycle, sd_verb := first_or_empty (lifecycleVerbs ofs (sd_connectorId s) (sd_entityRef s)),
             sd_action := [], sd_entityKind := [], sd_timeoutSeconds := None\<rparr>)"

(* src features/settings/RunbooksPage.tsx 887-910 RunbooksPage *)
definition choose_connector :: "offers \<Rightarrow> string \<Rightarrow> step_draft \<Rightarrow> step_draft" where
  "choose_connector ofs cid s =
     (if from_opt Lifecycle (sd_kind s) = Lifecycle
      then s\<lparr>sd_connectorId := cid, sd_entityRef := [], sd_entityKind := [], sd_verb := first_or_empty (lifecycleVerbs ofs cid [])\<rparr>
      else s\<lparr>sd_connectorId := cid, sd_entityRef := [], sd_action := [], sd_entityKind := [], sd_fieldKey := [],
        sd_targetValue := JStr [], sd_attribute := [], sd_operator := Some Op_eq, sd_expectedValue := JStr []\<rparr>)"

text \<open>Picking an entity; the second text is its kind in the snapshot, which only a wait step keeps.\<close>

(* src features/settings/RunbooksPage.tsx 974-1003 RunbooksPage *)
definition pick_entity :: "(rat \<Rightarrow> string) \<Rightarrow> offers \<Rightarrow> string \<Rightarrow> string \<Rightarrow> step_draft \<Rightarrow> step_draft" where
  "pick_entity num ofs ref knd s =
     (case from_opt Lifecycle (sd_kind s) of
        Lifecycle \<Rightarrow>
          (let verbs = lifecycleVerbs ofs (sd_connectorId s) ref
           in s\<lparr>sd_entityRef := ref, sd_verb := (if sd_verb s \<in> set verbs then sd_verb s else first_or_empty verbs)\<rparr>)
      | Connector_action \<Rightarrow> s\<lparr>sd_entityRef := ref, sd_action := keepAction ofs (sd_connectorId s) ref (sd_action s)\<rparr>
      | Config_push \<Rightarrow> (case find (\<lambda>f. cf_key f = sd_fieldKey s) (of_fields ofs) of
            Some f \<Rightarrow> if cf_entityScope f then s\<lparr>sd_entityRef := ref\<rparr> else s | None \<Rightarrow> s)
      | Wait_for_entity \<Rightarrow> s\<lparr>sd_entityRef := ref, sd_entityKind := knd,
          sd_expectedValue := reread num s (uniqueAttributeType (attributes_for ofs knd) (sd_attribute s)) (sd_operator s)\<rparr>
      | _ \<Rightarrow> s)"

(* src features/settings/RunbooksPage.tsx 1142-1220 RunbookStepKindFields *)
definition config_step :: "offers \<Rightarrow> step_op \<Rightarrow> step_draft \<Rightarrow> step_draft" where
  "config_step ofs op s =
     (case (op, find (\<lambda>f. cf_key f = sd_fieldKey s) (of_fields ofs)) of
        (Choose_field key, _) \<Rightarrow> s\<lparr>sd_fieldKey := key, sd_entityRef := [],
          sd_targetValue := (case find (\<lambda>f. cf_key f = key) (of_fields ofs) of
             Some f \<Rightarrow> if cf_type f = ''toggle'' then JBool False else JStr [] | None \<Rightarrow> JStr [])\<rparr>
      | (Type_target val, Some f) \<Rightarrow>
          if cf_type f = ''toggle'' \<or> cf_type f = ''select'' \<and> val \<notin> set (cf_options f) then s
          else s\<lparr>sd_targetValue := (if cf_type f = ''number'' \<and> val \<noteq> []
            then (case js_number val of Some n \<Rightarrow> JNum n | None \<Rightarrow> JNull) else JStr val)\<rparr>
      | (Tick_target b, Some f) \<Rightarrow> if cf_type f = ''toggle'' then s\<lparr>sd_targetValue := JBool b\<rparr> else s
      | _ \<Rightarrow> s)"

(* src features/settings/RunbooksPage.tsx 1245-1407 RunbookStepKindFields *)
definition wait_step :: "(rat \<Rightarrow> string) \<Rightarrow> offers \<Rightarrow> step_op \<Rightarrow> step_draft \<Rightarrow> step_draft" where
  "wait_step num ofs op s =
     (let attributes = attributes_for ofs (entity_kind ofs s); ty = uniqueAttributeType attributes (sd_attribute s)
      in case op of
           Type_attribute name \<Rightarrow> s\<lparr>sd_attribute := name,
             sd_expectedValue := reread num s (uniqueAttributeType attributes name) (sd_operator s)\<rparr>
         | Choose_operator p \<Rightarrow> s\<lparr>sd_operator := Some p, sd_expectedValue := reread num s ty (Some p)\<rparr>
         | Type_expected val \<Rightarrow> s\<lparr>sd_expectedValue := parseExpectedValue val ty (sd_operator s)\<rparr>
         | Type_minutes val \<Rightarrow> s\<lparr>sd_timeoutSeconds := (if val = [] then None else map_option (\<lambda>n. n * 60) (js_number val))\<rparr>
         | _ \<Rightarrow> s)"

text \<open>A control of a step, where it is shown.\<close>

(* src features/settings/RunbooksPage.tsx 705-1042 RunbooksPage *)
definition step_change :: "(rat \<Rightarrow> string) \<Rightarrow> offers \<Rightarrow> step_op \<Rightarrow> step_draft \<Rightarrow> step_draft" where
  "step_change num ofs op s =
     (let k = from_opt Lifecycle (sd_kind s)
      in case op of
           Type_step_title val \<Rightarrow> s\<lparr>sd_title := val\<rparr>
         | Choose_kind k' \<Rightarrow> choose_kind ofs k' s
         | Choose_connector cid \<Rightarrow>
             if k \<noteq> Manual \<and> connector_at ofs cid \<noteq> None then choose_connector ofs cid s else s
         | Choose_verb verb \<Rightarrow>
             if k = Lifecycle \<and> verb \<in> set (lifecycleVerbs ofs (sd_connectorId s) (sd_entityRef s)) then s\<lparr>sd_verb := verb\<rparr> else s
         | Type_timeout val \<Rightarrow>
             if k = Sync_and_wait \<or> k = Wait_until_healthy
             then s\<lparr>sd_timeoutSeconds := (if val = [] then None else js_number val)\<rparr> else s
         | Pick_entity ref knd \<Rightarrow> if sd_connectorId s \<noteq> [] then pick_entity num ofs ref knd s else s
         | Choose_action action \<Rightarrow>
             if k = Connector_action \<and> action \<in> set (actionOptions ofs (sd_connectorId s) (sd_entityRef s))
             then s\<lparr>sd_action := action\<rparr> else s
         | _ \<Rightarrow> if k = Config_push then config_step ofs op s else if k = Wait_for_entity then wait_step num ofs op s else s)"

subsection \<open>The page\<close>

(* src features/settings/RunbooksPage.tsx 53-53 MAX_STEPS *)
definition MAX_STEPS :: nat where
  "MAX_STEPS = 20"

datatype editing = Closed | New | Existing runbook

(* src features/settings/RunbooksPage.tsx 172-176 RunbooksPage *)
record runbooks_page =
  pg_editing :: editing
  pg_draft :: runbook_draft
  pg_formError :: "string option"
  pg_stepErrors :: "nat \<Rightarrow> (string \<times> string) list"
  pg_keySeq :: nat
  pg_saving :: bool
  pg_sent :: "(editing \<times> json) list"

definition page_init :: runbooks_page where
  "page_init = \<lparr>pg_editing = Closed, pg_draft = emptyDraft, pg_formError = None, pg_stepErrors = (\<lambda>i. []),
     pg_keySeq = 0, pg_saving = False, pg_sent = []\<rparr>"

abbreviation no_errors :: "nat \<Rightarrow> (string \<times> string) list" where
  "no_errors \<equiv> \<lambda>i. []"

(* src features/settings/RunbooksPage.tsx 184-189 openCreate *)
definition openCreate :: "runbooks_page \<Rightarrow> runbooks_page" where
  "openCreate pg = pg\<lparr>pg_draft := emptyDraft, pg_formError := None, pg_stepErrors := no_errors, pg_editing := New\<rparr>"

(* src features/settings/RunbooksPage.tsx 191-222 openEdit *)
definition openEdit :: "runbook \<Rightarrow> runbooks_page \<Rightarrow> runbooks_page" where
  "openEdit rb pg = pg\<lparr>pg_draft := load_runbook rb, pg_formError := None, pg_stepErrors := no_errors, pg_editing := Existing rb\<rparr>"

(* src features/settings/RunbooksPage.tsx 224-228 closeDialog *)
definition closeDialog :: "runbooks_page \<Rightarrow> runbooks_page" where
  "closeDialog pg = pg\<lparr>pg_editing := Closed, pg_formError := None, pg_stepErrors := no_errors\<rparr>"

definition with_steps :: "(step_draft list \<Rightarrow> step_draft list) \<Rightarrow> runbooks_page \<Rightarrow> runbooks_page" where
  "with_steps f pg = pg\<lparr>pg_draft := (pg_draft pg)\<lparr>rd_steps := f (rd_steps (pg_draft pg))\<rparr>\<rparr>"

text \<open>Where the steps are locked, or there are as many as allowed, the button is disabled.\<close>

(* src features/settings/RunbooksPage.tsx 388-393 addStep *)
definition addStep :: "runbooks_page \<Rightarrow> runbooks_page" where
  "addStep pg =
     (if stepsLocked (pg_draft pg) \<or> MAX_STEPS \<le> length (rd_steps (pg_draft pg)) then pg
      else with_steps (\<lambda>ss. ss @ [newStepDraft (Suc (pg_keySeq pg))])
        (pg\<lparr>pg_stepErrors := no_errors, pg_keySeq := Suc (pg_keySeq pg)\<rparr>))"

(* src features/settings/RunbooksPage.tsx 395-398 removeStep *)
definition removeStep :: "string \<Rightarrow> runbooks_page \<Rightarrow> runbooks_page" where
  "removeStep key pg = with_steps (filter (\<lambda>s. sd_key s \<noteq> key)) (pg\<lparr>pg_stepErrors := no_errors\<rparr>)"

fun key_index :: "string \<Rightarrow> nat \<Rightarrow> step_draft list \<Rightarrow> nat option" where
  "key_index key k [] = None"
| "key_index key k (s # ss) = (if sd_key s = key then Some k else key_index key (Suc k) ss)"

definition swap_at :: "nat \<Rightarrow> nat \<Rightarrow> 'a list \<Rightarrow> 'a list" where
  "swap_at i j xs = xs[i := xs ! j, j := xs ! i]"

(* src features/settings/RunbooksPage.tsx 400-410 moveStep *)
definition moveStep :: "string \<Rightarrow> bool \<Rightarrow> runbooks_page \<Rightarrow> runbooks_page" where
  "moveStep key down pg = with_steps (\<lambda>ss. case key_index key 0 ss of
       None \<Rightarrow> ss
     | Some i \<Rightarrow> if down then (if i + 1 < length ss then swap_at i (i + 1) ss else ss)
         else (if 0 < i then swap_at i (i - 1) ss else ss)) (pg\<lparr>pg_stepErrors := no_errors\<rparr>)"

(* src features/settings/RunbooksPage.tsx 412-416 updateStep *)
definition updateStep :: "string \<Rightarrow> (step_draft \<Rightarrow> step_draft) \<Rightarrow> runbooks_page \<Rightarrow> runbooks_page" where
  "updateStep key f pg = with_steps (map (\<lambda>s. if sd_key s = key then f s else s)) pg"

text \<open>\<open>/^steps\\[(\\d+)\\](?:\\.(\\w+))?/\<close>: the index and the field of a step's error.\<close>

(* src features/settings/RunbooksPage.tsx 324-328 applyFieldErrors *)
definition step_error :: "string \<Rightarrow> (nat \<times> string) option" where
  "step_error field =
     (if starts_with ''steps['' field
      then let r = drop 6 field; digits = takeWhile is_digit r; r' = dropWhile is_digit r
        in if digits \<noteq> [] \<and> starts_with '']'' r'
           then Some (nat_of_digits digits, if starts_with ''.'' (drop 1 r') then takeWhile is_word_char (drop 2 r') else [])
           else None
      else None)"

text \<open>An answer of the server: success, or its status and the located errors it has, if any.\<close>

datatype answer = Saved | Refused "nat option" "(string \<times> string) list"

(* src features/settings/RunbooksPage.tsx 316-338 applyFieldErrors *)
definition applyFieldErrors :: "(string \<times> string) list \<Rightarrow> runbooks_page \<Rightarrow> runbooks_page" where
  "applyFieldErrors details pg =
     (let steps = List.map_filter (\<lambda>(field, msg). map_option (\<lambda>(i, f). (i, f, msg)) (step_error field)) details;
          others = map snd (filter (\<lambda>d. step_error (fst d) = None) details);
          pg' = pg\<lparr>pg_stepErrors := (\<lambda>i. map snd (filter (\<lambda>e. fst e = i) steps))\<rparr>
      in if others \<noteq> [] then pg'\<lparr>pg_formError := Some (join_with '' '' others)\<rparr>
         else if steps \<noteq> [] then pg'\<lparr>pg_formError := Some ''settings.runbooks.steps.invalid''\<rparr> else pg')"

text \<open>The flag says whether the general failure message is shown.\<close>

(* src features/settings/RunbooksPage.tsx 340-372 create *)
definition save_answer :: "answer \<Rightarrow> runbooks_page \<Rightarrow> runbooks_page \<times> bool" where
  "save_answer a pg = (case a of
     Saved \<Rightarrow> (closeDialog pg, False)
   | Refused status details \<Rightarrow>
       if status = Some 409 then (pg\<lparr>pg_formError := Some ''settings.runbooks.conflict''\<rparr>, False)
       else if status = Some 400 \<and> details \<noteq> [] then (applyFieldErrors details pg, False)
       else (pg, True))"

(* src features/settings/RunbooksPage.tsx 385-385 canSave *)
definition canSave :: "runbook_draft \<Rightarrow> bool" where
  "canSave d \<longleftrightarrow> trim (rd_title d) \<noteq> [] \<and> trim (rd_targetValue d) \<noteq> []"

text \<open>While a save is under way the button is disabled; the dialog can still be closed and opened again.\<close>

(* src features/settings/RunbooksPage.tsx 551-556 RunbooksPage *)
definition submit :: "runbooks_page \<Rightarrow> runbooks_page" where
  "submit pg = (if canSave (pg_draft pg) \<and> pg_editing pg \<noteq> Closed \<and> \<not> pg_saving pg
     then pg\<lparr>pg_saving := True, pg_sent := pg_sent pg @ [(pg_editing pg, toPayload (pg_draft pg))]\<rparr> else pg)"

datatype draft_op = Type_title string | Choose_target target_type | Type_target_value string | Type_body string
  | Tick_approval bool | Type_doc string | Type_snapshot string

(* src features/settings/RunbooksPage.tsx 563-667 RunbooksPage *)
fun draft_change :: "draft_op \<Rightarrow> runbook_draft \<Rightarrow> runbook_draft" where
  "draft_change (Type_title v) d = d\<lparr>rd_title := v\<rparr>"
| "draft_change (Choose_target ty) d = d\<lparr>rd_targetType := ty, rd_targetValue := []\<rparr>"
| "draft_change (Type_target_value v) d = d\<lparr>rd_targetValue := v\<rparr>"
| "draft_change (Type_body v) d = d\<lparr>rd_body := v\<rparr>"
| "draft_change (Tick_approval b) d = d\<lparr>rd_requiresApproval := b\<rparr>"
| "draft_change (Type_doc v) d = d\<lparr>rd_docId := v\<rparr>"
| "draft_change (Type_snapshot v) d = d\<lparr>rd_snapshotId := v\<rparr>"

datatype page_event = Open_create | Open_edit runbook | Close | Add_step | Remove_step string | Move_step string bool
  | Change_step offers string step_op | Change_draft draft_op | Submit | Answer answer

text \<open>The controls are in the dialog; those of the steps are disabled while the steps are locked.\<close>

fun page_step :: "(rat \<Rightarrow> string) \<Rightarrow> page_event \<Rightarrow> runbooks_page \<Rightarrow> runbooks_page" where
  "page_step num Open_create pg = openCreate pg"
| "page_step num (Open_edit rb) pg = openEdit rb pg"
| "page_step num Close pg = closeDialog pg"
| "page_step num Add_step pg = (if pg_editing pg = Closed then pg else addStep pg)"
| "page_step num (Remove_step key) pg =
     (if pg_editing pg = Closed \<or> stepsLocked (pg_draft pg) then pg else removeStep key pg)"
| "page_step num (Move_step key down) pg =
     (if pg_editing pg = Closed \<or> stepsLocked (pg_draft pg) then pg else moveStep key down pg)"
| "page_step num (Change_step ofs key op) pg =
     (if pg_editing pg = Closed \<or> stepsLocked (pg_draft pg) then pg else updateStep key (step_change num ofs op) pg)"
| "page_step num (Change_draft op) pg =
     (if pg_editing pg = Closed then pg else pg\<lparr>pg_draft := draft_change op (pg_draft pg)\<rparr>)"
| "page_step num Submit pg = submit pg"
| "page_step num (Answer a) pg = (if pg_saving pg then fst (save_answer a (pg\<lparr>pg_saving := False\<rparr>)) else pg)"

abbreviation page_run :: "(rat \<Rightarrow> string) \<Rightarrow> page_event list \<Rightarrow> runbooks_page" where
  "page_run num es \<equiv> fold (page_step num) es page_init"

subsection \<open>The rows keep their identity\<close>

text \<open>The server's steps have distinct ids, none of which looks like a new row's, and are not too many.\<close>

definition runbook_ok :: "runbook \<Rightarrow> bool" where
  "runbook_ok rb \<longleftrightarrow> distinct (map rs_id (rb_steps rb)) \<and> length (rb_steps rb) \<le> MAX_STEPS
     \<and> list_all (\<lambda>s. rs_id s \<noteq> [] \<and> \<not> starts_with ''new-'' (rs_id s)) (rb_steps rb)"

fun page_event_ok :: "page_event \<Rightarrow> bool" where
  "page_event_ok (Open_edit rb) = runbook_ok rb"
| "page_event_ok _ = True"

definition new_key :: "nat \<Rightarrow> string" where
  "new_key k = ''new-'' @ show_nat k"

text \<open>A row is a stored step under its id, or a new one under a number that was given out.\<close>

definition row_ok :: "string list \<Rightarrow> nat \<Rightarrow> step_draft \<Rightarrow> bool" where
  "row_ok ids n s \<longleftrightarrow> (case sd_id s of Some i \<Rightarrow> sd_key s = i \<and> i \<in> set ids
     | None \<Rightarrow> sd_key s \<in> new_key ` {1..n} \<and> \<not> sd_redacted s)"

fun opened :: "editing \<Rightarrow> runbook_step list" where
  "opened (Existing rb) = rb_steps rb"
| "opened _ = []"

definition rows_ok :: "editing \<Rightarrow> nat \<Rightarrow> step_draft list \<Rightarrow> bool" where
  "rows_ok e n ss \<longleftrightarrow> distinct (map sd_key ss) \<and> length ss \<le> MAX_STEPS \<and> list_all (row_ok (map rs_id (opened e)) n) ss
     \<and> (list_ex sd_redacted ss \<longleftrightarrow> list_ex (\<lambda>s. rs_kind s = None) (opened e))"

lemma new_key_inj [simp]: "new_key m = new_key n \<longleftrightarrow> m = n"
  unfolding new_key_def by (metis append_eq_append_conv show_nat_ok)

lemma starts_with_new_key [simp]: "starts_with ''new-'' (new_key n)"
  by (simp add: starts_with_def new_key_def)

lemma row_ok_Suc: "row_ok ids n s \<Longrightarrow> row_ok ids (Suc n) s"
  by (auto simp: row_ok_def split: option.splits)

lemma row_key:
  assumes "row_ok ids n s" "list_all (\<lambda>i. \<not> starts_with ''new-'' i) ids"
  shows "sd_key s \<noteq> new_key (Suc n)"
  using assms by (auto simp: row_ok_def list_all_iff split: option.splits)

lemmas step_change_defs = step_change_def choose_kind_def clear_fields_def choose_connector_def pick_entity_def config_step_def
  wait_step_def Let_def

lemma step_change_identity [simp]:
  "sd_key (step_change num ofs op s) = sd_key s"
  "sd_id (step_change num ofs op s) = sd_id s"
  "sd_redacted (step_change num ofs op s) = sd_redacted s"
  by (auto simp: step_change_defs split: step_op.splits step_kind.splits option.splits)

text \<open>Moving a step swaps two rows.\<close>

lemma swap_at_mset: "i < length xs \<Longrightarrow> j < length xs \<Longrightarrow> mset (swap_at i j xs) = mset xs"
  unfolding swap_at_def by (simp add: mset_swap)

lemma key_index_bound: "key_index key k ss = Some i \<Longrightarrow> k \<le> i \<and> i < k + length ss"
  by (induction ss arbitrary: k) (fastforce split: if_splits)+

definition move_steps :: "string \<Rightarrow> bool \<Rightarrow> step_draft list \<Rightarrow> step_draft list" where
  "move_steps key down ss = (case key_index key 0 ss of None \<Rightarrow> ss
     | Some i \<Rightarrow> if down then (if i + 1 < length ss then swap_at i (i + 1) ss else ss)
         else (if 0 < i then swap_at i (i - 1) ss else ss))"

lemma move_steps_mset: "mset (move_steps key down ss) = mset ss"
  by (auto simp: move_steps_def swap_at_mset dest!: key_index_bound split: option.splits)

lemma rows_ok_mset:
  assumes "rows_ok e n ss" "mset ss' = mset ss"
  shows "rows_ok e n ss'"
proof -
  have "set ss' = set ss" "length ss' = length ss" "distinct (map sd_key ss') \<longleftrightarrow> distinct (map sd_key ss)"
    using assms(2) by (metis mset_eq_setD, metis mset_eq_length, metis mset_eq_imp_distinct_iff mset_map)
  then show ?thesis using assms(1) by (simp add: rows_ok_def list_all_iff list_ex_iff)
qed

lemma rows_ok_filter:
  "rows_ok e n ss \<Longrightarrow> \<not> list_ex sd_redacted ss \<Longrightarrow> rows_ok e n (filter P ss)"
  by (auto simp: rows_ok_def list_all_iff list_ex_iff distinct_map_filter intro: le_trans [OF length_filter_le])

lemma rows_ok_update:
  assumes "rows_ok e n ss" "\<And>s. sd_key (f s) = sd_key s" "\<And>s. sd_id (f s) = sd_id s" "\<And>s. sd_redacted (f s) = sd_redacted s"
  shows "rows_ok e n (map f ss)"
proof -
  have "sd_key \<circ> f = sd_key" "sd_redacted \<circ> f = sd_redacted" using assms by auto
  moreover have "row_ok ids n (f s) = row_ok ids n s" for ids s using assms by (simp add: row_ok_def split: option.split)
  ultimately show ?thesis using assms(1,4) by (simp add: rows_ok_def list_all_iff list_ex_iff)
qed

lemma rows_ok_add:
  assumes "rows_ok e n ss" "length ss < MAX_STEPS" "list_all (\<lambda>i. \<not> starts_with ''new-'' i) (map rs_id (opened e))"
  shows "rows_ok e (Suc n) (ss @ [newStepDraft (Suc n)])"
proof -
  have "new_key (Suc n) \<notin> sd_key ` set ss"
    using assms row_key [where n = n] by (fastforce simp: rows_ok_def list_all_iff)
  moreover have "sd_key (newStepDraft (Suc n)) = new_key (Suc n)" "\<not> sd_redacted (newStepDraft (Suc n))"
    "row_ok ids (Suc n) (newStepDraft (Suc n))" for ids
    by (auto simp: newStepDraft_def new_key_def row_ok_def)
  ultimately show ?thesis using assms row_ok_Suc
    by (auto simp: rows_ok_def list_all_iff list_ex_iff Suc_le_eq)
qed

lemma rows_ok_load: "runbook_ok rb \<Longrightarrow> rows_ok (Existing rb) n (map load_step (rb_steps rb))"
  by (auto simp: rows_ok_def runbook_ok_def list_all_iff list_ex_iff load_step_def row_ok_def comp_def)

subsection \<open>What a save sends\<close>

text \<open>
  The steps are left out exactly where one of the stored steps is hidden from the user, so that the
  server keeps them; else each stored step is named at most once, and nothing else is.
\<close>

definition sent_ids :: "json list \<Rightarrow> json list" where
  "sent_ids xs = List.map_filter (member ''id'') xs"

definition request_ok :: "editing \<Rightarrow> json \<Rightarrow> bool" where
  "request_ok e payload \<longleftrightarrow> e \<noteq> Closed \<and>
     (case member ''steps'' payload of
        None \<Rightarrow> list_ex (\<lambda>s. rs_kind s = None) (opened e)
      | Some (JArr xs) \<Rightarrow> \<not> list_ex (\<lambda>s. rs_kind s = None) (opened e) \<and> length xs \<le> MAX_STEPS
          \<and> distinct (sent_ids xs) \<and> set (sent_ids xs) \<subseteq> (\<lambda>s. JStr (rs_id s)) ` set (opened e)
      | _ \<Rightarrow> False)"

fun opened_ok :: "editing \<Rightarrow> bool" where
  "opened_ok (Existing rb) = runbook_ok rb"
| "opened_ok _ = True"

lemma opened_ids:
  "opened_ok e \<Longrightarrow> list_all (\<lambda>i. i \<noteq> [] \<and> \<not> starts_with ''new-'' i) (map rs_id (opened e))"
  by (cases e) (simp_all add: runbook_ok_def list_all_iff)

lemma steps_member: "member ''steps'' (toPayload d) = (if stepsLocked d then None else Some (JArr (map toStepInput (rd_steps d))))"
  unfolding toPayload_def by (subst member_jobj) simp_all

lemma id_member: "member ''id'' (toStepInput s) = Option.bind (sd_id s) if_text"
  unfolding toStepInput_def step_base_def by (subst member_jobj) (auto split: step_kind.splits)

lemma sent_ids_steps:
  assumes "rows_ok e n ss" "opened_ok e"
  shows "sent_ids (map toStepInput ss) = map JStr (List.map_filter sd_id ss)"
proof -
  have "Option.bind (sd_id s) if_text = map_option JStr (sd_id s)" if "s \<in> set ss" for s
  proof -
    have "row_ok (map rs_id (opened e)) n s" using assms(1) that by (simp add: rows_ok_def list_all_iff)
    then show ?thesis using opened_ids [OF assms(2)]
      by (auto simp: row_ok_def if_text_def list_all_iff split: option.splits)
  qed
  then show ?thesis
    unfolding sent_ids_def by (induction ss) (auto simp: id_member split: option.splits)
qed

lemma row_ids:
  assumes "list_all (row_ok ids n) ss" "distinct (map sd_key ss)"
  shows "distinct (List.map_filter sd_id ss) \<and> set (List.map_filter sd_id ss) \<subseteq> set ids \<inter> sd_key ` set ss"
  using assms by (induction ss) (auto simp: row_ok_def split: option.splits)

lemma request_ok_payload:
  assumes "rows_ok e n (rd_steps d)" "opened_ok e" "e \<noteq> Closed"
  shows "request_ok e (toPayload d)"
proof -
  have "list_ex sd_redacted (rd_steps d) \<longleftrightarrow> list_ex (\<lambda>s. rs_kind s = None) (opened e)"
    and len: "length (rd_steps d) \<le> MAX_STEPS"
    and rows: "list_all (row_ok (map rs_id (opened e)) n) (rd_steps d)" "distinct (map sd_key (rd_steps d))"
    using assms(1) by (simp_all add: rows_ok_def)
  then show ?thesis using row_ids [OF rows] assms
    by (auto simp: request_ok_def steps_member stepsLocked_def sent_ids_steps distinct_map inj_on_def)
qed

definition page_ok :: "runbooks_page \<Rightarrow> bool" where
  "page_ok pg \<longleftrightarrow> (pg_editing pg = Closed \<or> rows_ok (pg_editing pg) (pg_keySeq pg) (rd_steps (pg_draft pg)))
     \<and> opened_ok (pg_editing pg) \<and> list_all (\<lambda>(e, p). request_ok e p) (pg_sent pg)"

lemma draft_change_steps [simp]: "rd_steps (draft_change op d) = rd_steps d"
  by (cases op) simp_all

lemma rows_ok_new [simp]: "rows_ok New n []"
  by (simp add: rows_ok_def)

lemma page_ok_steps:
  assumes "page_ok pg" "pg_editing pg \<noteq> Closed \<Longrightarrow> rows_ok (pg_editing pg) (pg_keySeq pg) (f (rd_steps (pg_draft pg)))"
  shows "page_ok (with_steps f pg)"
  using assms by (cases "pg_editing pg = Closed") (simp_all add: page_ok_def with_steps_def)

lemma page_ok_errors [simp]: "page_ok (pg\<lparr>pg_stepErrors := errs\<rparr>) = page_ok pg"
  by (simp add: page_ok_def)

lemma page_ok_add:
  assumes "page_ok pg" "pg_editing pg \<noteq> Closed"
  shows "page_ok (addStep pg)"
proof -
  have "list_all (\<lambda>i. \<not> starts_with ''new-'' i) (map rs_id (opened (pg_editing pg)))"
    using opened_ids [of "pg_editing pg"] assms(1) by (simp add: page_ok_def list_all_iff)
  then show ?thesis using assms rows_ok_add [of "pg_editing pg" "pg_keySeq pg" "rd_steps (pg_draft pg)"]
    by (simp add: addStep_def with_steps_def page_ok_def)
qed

lemma page_ok_move: "page_ok pg \<Longrightarrow> page_ok (moveStep key down pg)"
  unfolding moveStep_def move_steps_def [symmetric]
  by (rule page_ok_steps, simp) (auto simp: page_ok_def intro: rows_ok_mset [OF _ move_steps_mset])

lemma page_ok_remove: "page_ok pg \<Longrightarrow> \<not> stepsLocked (pg_draft pg) \<Longrightarrow> page_ok (removeStep key pg)"
  unfolding removeStep_def by (rule page_ok_steps, simp) (auto simp: page_ok_def stepsLocked_def intro: rows_ok_filter)

lemma page_ok_update: "page_ok pg \<Longrightarrow> page_ok (updateStep key (step_change num ofs op) pg)"
  unfolding updateStep_def by (rule page_ok_steps) (auto simp: page_ok_def intro!: rows_ok_update split: if_splits)

lemma page_ok_open: "page_ok pg \<Longrightarrow> page_ok (openCreate pg)" "page_ok pg \<Longrightarrow> runbook_ok rb \<Longrightarrow> page_ok (openEdit rb pg)"
  "page_ok pg \<Longrightarrow> page_ok (closeDialog pg)"
  by (simp_all add: page_ok_def openCreate_def openEdit_def closeDialog_def emptyDraft_def load_runbook_def rows_ok_load)

lemma page_ok_submit: "page_ok pg \<Longrightarrow> page_ok (submit pg)"
  using request_ok_payload [of "pg_editing pg" "pg_keySeq pg" "pg_draft pg"] by (auto simp: page_ok_def submit_def)

lemma page_ok_fields: "page_ok pg \<Longrightarrow> page_ok (applyFieldErrors details pg)"
  by (simp add: applyFieldErrors_def page_ok_def Let_def)

lemma page_ok_answer: "page_ok pg \<Longrightarrow> page_ok (fst (save_answer a pg))"
  by (cases a) (auto simp: save_answer_def page_ok_open page_ok_fields, auto simp: page_ok_def)

lemma page_ok_step: "page_ok pg \<Longrightarrow> page_event_ok ev \<Longrightarrow> page_ok (page_step num ev pg)"
  by (cases ev) (auto simp: page_ok_open page_ok_add page_ok_move page_ok_remove page_ok_update page_ok_submit intro!: page_ok_answer,
      auto simp: page_ok_def)

interpretation runbook_page: started_machine "page_step num" page_event_ok page_ok page_init for num
  by unfold_locales (rule page_ok_step, assumption+, simp add: page_ok_def page_init_def)

text \<open>
  Claim C7. However runbooks are opened, edited, saved and answered, and whatever order that happens
  in, every save leaves the steps out exactly where one of the opened runbook's steps is hidden from the user; otherwise it sends
  at most twenty steps, names each stored step at most once and no other, and the rows of the dialog have distinct keys.
\<close>

theorem runbook_saves_safe:
  assumes "list_all page_event_ok es" "pg = page_run num es"
  shows "list_all (\<lambda>(e, payload). request_ok e payload) (pg_sent pg)
    \<and> (pg_editing pg = Closed \<or> distinct (map sd_key (rd_steps (pg_draft pg))))"
  using runbook_page.reachable [OF assms(1), of num] assms(2) by (auto simp: page_ok_def rows_ok_def)

definition example_runbook :: runbook where
  "example_runbook = \<lparr>rb_id = ''r1'', rb_title = ''Restart'', rb_body = [], rb_requiresApproval = None, rb_targetType = Change_type,
     rb_targetValue = ''config'', rb_snapshotId = None, rb_docId = None,
     rb_steps = [\<lparr>rs_id = ''s1'', rs_kind = Some Manual, rs_title = ''Look'', rs_connectorId = [], rs_verb = [], rs_entityRef = [],
       rs_action = None, rs_fieldKey = None, rs_targetValue = None, rs_attribute = None, rs_operator = None,
       rs_expectedValue = None, rs_timeoutSeconds = 0\<rparr>]\<rparr>"

definition example_events :: "page_event list" where
  "example_events = [Open_edit example_runbook, Add_step, Move_step ''s1'' True, Submit]"

lemma runbook_saves_safe_witness:
  "map fst (pg_sent (page_run (\<lambda>n. []) example_events)) = [Existing example_runbook]
   \<and> list_all (\<lambda>(e, payload). request_ok e payload) (pg_sent (page_run (\<lambda>n. []) example_events))"
proof -
  have "list_all page_event_ok example_events" by code_simp
  moreover have "map fst (pg_sent (page_run (\<lambda>n. []) example_events)) = [Existing example_runbook]" by code_simp
  ultimately show ?thesis using runbook_saves_safe by simp
qed

text \<open>
  The answer of a save closes whatever dialog is open then: here one that was opened and edited while an earlier save was under way.
\<close>

lemma late_answer_closes_other:
  "pg_editing (page_run (\<lambda>n. []) [Open_edit example_runbook, Submit, Close, Open_create, Change_draft (Type_title ''New''), Answer Saved]) = Closed"
  by code_simp

subsection \<open>A step only offers what its connector has\<close>

definition offered :: "offers \<Rightarrow> step_draft \<Rightarrow> bool" where
  "offered ofs s \<longleftrightarrow> (let verbs = lifecycleVerbs ofs (sd_connectorId s) (sd_entityRef s)
     in (sd_kind s = Some Lifecycle \<longrightarrow> (if verbs = [] then sd_verb s = [] else sd_verb s \<in> set verbs))
        \<and> (sd_kind s = Some Connector_action \<longrightarrow>
             sd_action s = [] \<or> sd_action s \<in> set (actionOptions ofs (sd_connectorId s) (sd_entityRef s))))"

lemma first_in [simp]: "vs \<noteq> [] \<Longrightarrow> first_or_empty vs \<in> set vs" "first_or_empty [] = []"
  by (auto simp: first_or_empty_def split: list.split)

lemma offered_other: "sd_kind s \<noteq> Some Lifecycle \<Longrightarrow> sd_kind s \<noteq> Some Connector_action \<Longrightarrow> offered ofs s"
  by (simp add: offered_def Let_def)

lemma offered_cleared:
  "offered ofs (choose_kind ofs k s)"
  by (cases k) (auto simp: offered_def choose_kind_def clear_fields_def Let_def)

lemma offered_connector: "sd_kind s \<noteq> None \<Longrightarrow> offered ofs (choose_connector ofs cid s)"
  by (auto simp: offered_def choose_connector_def Let_def)

lemma offered_entity: "sd_kind s \<noteq> None \<Longrightarrow> offered ofs s \<Longrightarrow> offered ofs (pick_entity num ofs ref knd s)"
  by (auto simp: offered_def pick_entity_def keepAction_def Let_def split: step_kind.splits option.splits)

lemma offered_config: "sd_kind s = Some Config_push \<Longrightarrow> offered ofs (config_step ofs op s)"
  by (rule offered_other) (auto simp: config_step_def split: step_op.splits option.splits)

lemma offered_wait: "sd_kind s = Some Wait_for_entity \<Longrightarrow> offered ofs (wait_step num ofs op s)"
  by (rule offered_other) (auto simp: wait_step_def Let_def split: step_op.splits)

lemma offered_step:
  assumes "sd_kind s \<noteq> None" "offered ofs s"
  shows "offered ofs (step_change num ofs op s)"
proof -
  have "offered ofs (s\<lparr>sd_title := v\<rparr>)" "offered ofs (s\<lparr>sd_timeoutSeconds := t\<rparr>)" for v t
    using assms(2) by (simp_all add: offered_def Let_def)
  moreover have "offered ofs (s\<lparr>sd_verb := v\<rparr>)"
    if "sd_kind s = Some Lifecycle" "v \<in> set (lifecycleVerbs ofs (sd_connectorId s) (sd_entityRef s))" for v
    using that by (auto simp: offered_def Let_def)
  moreover have "offered ofs (s\<lparr>sd_action := a\<rparr>)"
    if "sd_kind s = Some Connector_action" "a \<in> set (actionOptions ofs (sd_connectorId s) (sd_entityRef s))" for a
    using that by (auto simp: offered_def Let_def)
  ultimately show ?thesis using assms
    by (auto simp: step_change_def offered_cleared offered_connector offered_entity offered_config offered_wait Let_def split: step_op.splits)
qed

lemma step_change_kind: "sd_kind s \<noteq> None \<Longrightarrow> sd_kind (step_change num ofs op s) \<noteq> None"
  by (auto simp: step_change_defs split: step_op.splits step_kind.splits option.splits)

text \<open>
  A new step that is changed through its controls, in any order, only holds what its connector offers: a lifecycle step
  has one of the verbs of the connector and target as soon as there is one, and an action is empty or one of the connector's
  actions of the scope of the target.
\<close>

theorem offered_choices:
  assumes "connector_at ofs [] = None"
  shows "offered ofs (fold (step_change num ofs) ops (newStepDraft n))"
proof -
  have "sd_kind (fold (step_change num ofs) ops s) \<noteq> None \<and> offered ofs (fold (step_change num ofs) ops s)"
    if "sd_kind s \<noteq> None" "offered ofs s" for s
    using that by (induction ops arbitrary: s) (simp_all add: offered_step step_change_kind del: not_None_eq)
  moreover have "offered ofs (newStepDraft n)" using assms
    by (simp add: offered_def newStepDraft_def lifecycleVerbs_def LIFECYCLE_VERBS_def)
  ultimately show ?thesis by (simp add: newStepDraft_def)
qed

definition example_offers :: offers where
  "example_offers = \<lparr>of_connectors = [\<lparr>ci_id = ''c1'', ci_type = ''custom'', ci_actions = [(''stop'', True), (''flush'', False)]\<rparr>],
     of_verbs = [], of_fields = [], of_attributes = [], of_kind = (\<lambda>ref. [])\<rparr>"

lemma offered_choices_witness:
  "offered example_offers (fold (step_change (\<lambda>n. []) example_offers) [Choose_connector ''c1'', Pick_entity ''vm1'' ''vm''] (newStepDraft 1))
   \<and> sd_verb (fold (step_change (\<lambda>n. []) example_offers) [Choose_connector ''c1'', Pick_entity ''vm1'' ''vm''] (newStepDraft 1)) = ''stop''"
proof -
  have "connector_at example_offers [] = None" by code_simp
  moreover have "sd_verb (fold (step_change (\<lambda>n. []) example_offers) [Choose_connector ''c1'', Pick_entity ''vm1'' ''vm''] (newStepDraft 1)) = ''stop''"
    by code_simp
  ultimately show ?thesis using offered_choices by blast
qed

subsection \<open>Lists as expected values\<close>

definition list_item_ok :: "string \<Rightarrow> bool" where
  "list_item_ok x \<longleftrightarrow> x \<noteq> [] \<and> trim x = x \<and> CHR '','' \<notin> set x"

lemma trim_space [simp]: "trim (CHR '' '' # s) = trim s"
  by (simp add: trim_def trim_start_def is_ws_def)

lemma join_comma_space: "join_with '', '' (w # ws) = join_with [CHR '',''] (w # map ((#) CHR '' '') ws)"
proof (induction ws arbitrary: w)
  case (Cons v ws)
  have "x # join_with sep (w # us) = join_with sep ((x # w) # us)" for x :: char and sep w us by (cases us) simp_all
  then show ?case using Cons by simp
qed simp

definition read_items :: "string \<Rightarrow> string list" where
  "read_items s = filter (\<lambda>item. item \<noteq> []) (map trim (split_on CHR '','' s))"

lemma read_items_ok: "list_all list_item_ok (read_items s)"
  using trim_set by (fastforce simp: list_all_iff read_items_def list_item_ok_def dest: split_on_parts_free)

lemma read_items_join:
  assumes "list_all list_item_ok xs"
  shows "read_items (join_with '', '' xs) = xs"
proof (cases xs)
  case (Cons w ws)
  have "map (trim \<circ> (#) CHR '' '') ws = ws" using assms Cons by (simp add: list_all_iff list_item_ok_def map_idI)
  moreover have "split_on CHR '','' (join_with '', '' xs) = w # map ((#) CHR '' '') ws"
    unfolding Cons join_comma_space using assms Cons by (intro split_on_join) (auto simp: list_all_iff list_item_ok_def)
  moreover have "filter (\<lambda>x. x \<noteq> []) xs = xs" using assms by (simp add: list_all_iff list_item_ok_def)
  ultimately show ?thesis using assms Cons by (simp add: read_items_def list_item_ok_def)
qed (simp add: read_items_def trim_def trim_start_def trim_end_def)

lemma array_reread:
  "parseExpectedValue (expectedValueToInput num (JArr (map JStr xs)) (Some ''string_array'')) (Some ''string_array'') (Some p)
   = (if p = Op_eq \<or> p = Op_neq then JArr (map JStr (read_items (join_with '', '' xs)))
      else if p = Op_gt \<or> p = Op_lt then inputValueToNumber (join_with '', '' xs) else JStr (join_with '', '' xs))"
  by (cases p) (simp_all add: parseExpectedValue_def expectedValueToInput_def read_items_def comp_def)

text \<open>
  A list that a wait step expects survives a change between "equals" and "differs" exactly if no item is empty, has
  spaces around it or holds a comma: any other list is silently rewritten by the change.
\<close>

theorem expected_list_kept:
  "sd_expectedValue (wait_step num ofs (Choose_operator p) (s\<lparr>sd_expectedValue := JArr (map JStr xs)\<rparr>)) = JArr (map JStr xs)
     \<longleftrightarrow> list_all list_item_ok xs"
  if "uniqueAttributeType (attributes_for ofs (entity_kind ofs s)) (sd_attribute s) = Some ''string_array''" "p = Op_eq \<or> p = Op_neq"
proof -
  have "entity_kind ofs (s\<lparr>sd_expectedValue := v\<rparr>) = entity_kind ofs s" for v by (simp add: entity_kind_def)
  then have "sd_expectedValue (wait_step num ofs (Choose_operator p) (s\<lparr>sd_expectedValue := JArr (map JStr xs)\<rparr>))
      = JArr (map JStr (read_items (join_with '', '' xs)))"
    using that array_reread [of num xs p] by (simp add: wait_step_def reread_def Let_def)
  moreover have "map JStr ys = map JStr xs \<longleftrightarrow> ys = xs" for ys by (simp add: inj_map_eq_map inj_def)
  ultimately show ?thesis using read_items_ok read_items_join by (metis json.inject(4))
qed

definition tags_offers :: offers where
  "tags_offers = \<lparr>of_connectors = [], of_verbs = [], of_fields = [], of_attributes = [(''vm'', [(''tags'', ''string_array'')])],
     of_kind = (\<lambda>ref. [])\<rparr>"

lemma expected_list_kept_witness:
  "sd_expectedValue (wait_step (\<lambda>n. []) tags_offers (Choose_operator Op_neq)
       ((newStepDraft 1)\<lparr>sd_attribute := ''tags'', sd_expectedValue := JArr (map JStr [''a,b''])\<rparr>)) \<noteq> JArr (map JStr [''a,b''])"
proof -
  have "uniqueAttributeType (attributes_for tags_offers (entity_kind tags_offers ((newStepDraft 1)\<lparr>sd_attribute := ''tags''\<rparr>)))
      (sd_attribute ((newStepDraft 1)\<lparr>sd_attribute := ''tags''\<rparr>)) = Some ''string_array''" by code_simp
  moreover have "\<not> list_all list_item_ok [''a,b'']" by code_simp
  ultimately show ?thesis
    using expected_list_kept [of tags_offers "(newStepDraft 1)\<lparr>sd_attribute := ''tags''\<rparr>" Op_neq "\<lambda>n. []" "[''a,b'']"] by auto
qed

end
