(* ===== verification/Runs.thy ===== *)
theory Runs
  imports Runbooks MutatingOp Machines
begin

text \<open>
  Runs of a runbook (\<open>components/runbook\<close>): starting one after a preview (\<open>StartRunDialog.tsx\<close>), and the
  page of a run with its decisions (\<open>RunDetail.tsx\<close>, \<open>runErrors.ts\<close>, \<open>runbookStepValues.ts\<close>). Both are
  machines over the user's clicks, the answers of the server and the run as it is received. The
  lemmas show that a run only starts as previewed and that it is resumed as its operator saw it.
\<close>

subsection \<open>Runs\<close>

(* src api/model/runbookRunState.ts 10-21 RunbookRunState *)
datatype run_state = Run_awaiting_approval | Run_running | Run_waiting_manual | Run_failed | Run_succeeded | Run_cancelled
  | Run_expired | Run_rejected

(* src api/model/runbookRunStepState.ts 10-20 RunbookRunStepState *)
datatype run_step_state = Step_pending | Step_running | Step_waiting | Step_succeeded | Step_failed | Step_skipped | Step_unknown

text \<open>A step, as far as the dialogs decide by it.\<close>

(* src api/model/runbookRunStep.ts 18-54 RunbookRunStep *)
record run_step =
  rt_id :: string
  rt_position :: int
  rt_kind :: "step_kind option"
  rt_title :: "string option"
  rt_connectorId :: "string option"
  rt_connectorName :: "string option"
  rt_targetService :: "string option"
  rt_state :: "run_step_state option"
  rt_redacted :: bool
  rt_canExecute :: bool
  rt_blockedReason :: "string option"

(* src api/model/runbookRun.ts 12-18 RunbookRun *)
record run_view =
  rv_id :: string
  rv_state :: run_state
  rv_runbookId :: "string option"
  rv_runbookTitle :: string
  rv_startedBy :: string
  rv_updatedAt :: string
  rv_canApprove :: bool
  rv_steps :: "run_step list"

(* src api/model/runbookRunPreview.ts 11-20 RunbookRunPreview *)
record runbook_preview =
  rp_canStart :: bool
  rp_requiresApproval :: bool
  rp_approverAvailable :: bool
  rp_steps :: "run_step list"

text \<open>The shown order: \<open>sort\<close> is stable.\<close>

definition by_position :: "run_step list \<Rightarrow> run_step list" where
  "by_position steps = sort_key rt_position steps"

subsection \<open>Values and errors\<close>

text \<open>A value that is JSON text where it is so encoded; \<open>None\<close> is undefined.\<close>

(* src components/runbook/runbookStepValues.ts 1-12 formatRunbookValue *)
definition formatRunbookValue :: "(rat \<Rightarrow> string) \<Rightarrow> stored option \<Rightarrow> string" where
  "formatRunbookValue num v =
     (let decoded = (case v of None \<Rightarrow> None | Some (Json j) \<Rightarrow> Some j | Some (Text s) \<Rightarrow> Some (JStr s))
      in case decoded of None \<Rightarrow> [EM_DASH] | Some j \<Rightarrow> if j = JNull \<or> j = JStr [] then [EM_DASH] else js_text num j False)"

text \<open>An error: the status of its response, if there is one, and the code and run in its body.\<close>

record run_error =
  er_status :: "nat option"
  er_code :: "string option"
  er_runId :: "string option"
  er_message :: "string option"

(* src components/runbook/runErrors.ts 16-18 isConflict *)
definition isConflict :: "run_error \<Rightarrow> bool" where
  "isConflict e \<longleftrightarrow> er_status e = Some 409"

(* src components/runbook/runErrors.ts 21-24 isNoEligibleApprover *)
definition isNoEligibleApprover :: "run_error \<Rightarrow> bool" where
  "isNoEligibleApprover e \<longleftrightarrow> er_status e = Some 409 \<and> er_code e = Some ''no_eligible_approver''"

(* src components/runbook/runErrors.ts 7-14 runErrorMessage *)
definition runErrorMessage :: "run_error \<Rightarrow> string \<Rightarrow> string" where
  "runErrorMessage e fallback =
     (if isNoEligibleApprover e then ''runbooks.runs.noApproverAvailable''
      else if er_status e = Some 403 then ''runbooks.runs.error.forbidden''
      else if er_status e = Some 409 then ''runbooks.runs.error.conflict''
      else if er_status e = Some 503 then ''runbooks.runs.error.unavailable''
      else fallback)"

text \<open>The run that is already active, with its message.\<close>

(* src components/runbook/StartRunDialog.tsx 456-467 getRunbookRunConflict *)
definition getRunbookRunConflict :: "run_error \<Rightarrow> (string \<times> string \<times> string) option" where
  "getRunbookRunConflict e =
     (case er_runId e of
        Some i \<Rightarrow> if er_status e = Some 409 \<and> i \<noteq> [] then Some (i, from_opt ''run_conflict'' (er_code e), from_opt [] (er_message e)) else None
      | None \<Rightarrow> None)"

(* src components/runbook/StartRunDialog.tsx 439-453 getBlockedReason *)
definition getBlockedReason :: "run_step \<Rightarrow> string option" where
  "getBlockedReason s =
     (if rt_redacted s \<or> rt_canExecute s then None
      else Some (''runbooks.runs.blocked.'' @
        (case rt_blockedReason s of
           Some r \<Rightarrow> if r \<in> {''no_viewer_grant'', ''no_operator_grant'', ''preview_unavailable'', ''unsupported_field''} then r else ''unknown''
         | None \<Rightarrow> ''unknown'')))"

text \<open>\<open>a || b\<close> of texts.\<close>

definition or_text :: "string option \<Rightarrow> string \<Rightarrow> string" where
  "or_text a b = (case a of Some s \<Rightarrow> if s \<noteq> [] then s else b | None \<Rightarrow> b)"

(* src components/runbook/StartRunDialog.tsx 413-418 getStepTarget *)
definition getStepTarget :: "run_step \<Rightarrow> string" where
  "getStepTarget s =
     (let k = from_opt Lifecycle (rt_kind s)
      in if k = Manual then ''runbooks.runs.noTarget''
         else if k = Lifecycle then or_text (rt_connectorName s) (or_text (rt_targetService s) ''runbooks.runs.unknownTarget'')
         else or_text (rt_connectorName s) ''runbooks.runs.unknownTarget'')"

subsection \<open>A confirmation that is mounted while it is open\<close>

record confirm_box =
  cb_typed :: string
  cb_token :: "string option"
  cb_step_ups :: nat

definition fresh_box :: confirm_box where
  "fresh_box = \<lparr>cb_typed = [], cb_token = None, cb_step_ups = 0\<rparr>"

datatype box_event = Box_type string | Box_step_up | Box_elevated string

text \<open>The name to type, and whether a token is required.\<close>

(* src components/manager/ElevationConfirm.tsx 85-111 ElevationConfirm *)
fun box_step :: "string \<Rightarrow> bool \<Rightarrow> box_event \<Rightarrow> confirm_box \<Rightarrow> confirm_box" where
  "box_step name required (Box_type s) b = b\<lparr>cb_typed := s\<rparr>"
| "box_step name required Box_step_up b =
     (if required \<and> cb_typed b = name \<and> \<not> truthy_token (cb_token b) then b\<lparr>cb_step_ups := Suc (cb_step_ups b)\<rparr> else b)"
| "box_step name required (Box_elevated t) b =
     (if 0 < cb_step_ups b then b\<lparr>cb_step_ups := cb_step_ups b - 1, cb_token := Some t\<rparr> else b)"

definition box_ready :: "string \<Rightarrow> bool \<Rightarrow> confirm_box \<Rightarrow> bool" where
  "box_ready name required b \<longleftrightarrow> cb_typed b = name \<and> (\<not> required \<or> truthy_token (cb_token b))"

definition box_token :: "confirm_box \<Rightarrow> string option" where
  "box_token b = (if truthy_token (cb_token b) then cb_token b else None)"

subsection \<open>Starting a run\<close>

datatype start_preview = Start_idle | Start_loading | Start_error | Start_shown runbook_preview

record start_sent =
  ss_token :: "string option"
  ss_preview :: start_preview
  ss_required :: bool
  ss_typed :: string

(* src components/runbook/StartRunDialog.tsx 30-33 StartRunDialog *)
record start_dialog =
  sg_open :: bool
  sg_confirm :: "confirm_box option"
  sg_startError :: "string option"
  sg_conflict :: "(string \<times> string \<times> string) option"
  sg_elevationToken :: "string option"
  sg_preview :: start_preview
  sg_pending :: bool
  sg_config :: "bool option"
  sg_started :: "string list"
  sg_sent :: "start_sent list"

definition start_init :: start_dialog where
  "start_init = \<lparr>sg_open = False, sg_confirm = None, sg_startError = None, sg_conflict = None, sg_elevationToken = None,
     sg_preview = Start_idle, sg_pending = False, sg_config = None, sg_started = [], sg_sent = []\<rparr>"

(* src components/runbook/StartRunDialog.tsx 53-55 loadPreview *)
definition loadPreview :: "start_dialog \<Rightarrow> start_dialog" where
  "loadPreview d = d\<lparr>sg_preview := Start_loading\<rparr>"

(* src components/runbook/StartRunDialog.tsx 57-60 StartRunDialog *)
definition set_open :: "bool \<Rightarrow> start_dialog \<Rightarrow> start_dialog" where
  "set_open b d = (if b then loadPreview (d\<lparr>sg_open := True\<rparr>) else d\<lparr>sg_open := False, sg_preview := Start_idle\<rparr>)"

(* src components/runbook/StartRunDialog.tsx 62-68 close *)
definition close_start :: "start_dialog \<Rightarrow> start_dialog" where
  "close_start d = set_open False (d\<lparr>sg_confirm := None, sg_startError := None, sg_conflict := None, sg_elevationToken := None\<rparr>)"

(* src components/runbook/StartRunDialog.tsx 70-74 stepsCanStart *)
definition stepsCanStart :: "start_preview \<Rightarrow> bool" where
  "stepsCanStart p = (case p of
     Start_shown v \<Rightarrow> rp_canStart v \<and> rp_steps v \<noteq> [] \<and> list_all (\<lambda>s. \<not> rt_redacted s \<and> rt_canExecute s) (rp_steps v)
   | _ \<Rightarrow> False)"

(* src components/runbook/StartRunDialog.tsx 75-78 canStart *)
definition canStart :: "start_preview \<Rightarrow> bool" where
  "canStart p = (stepsCanStart p \<and> (case p of Start_shown v \<Rightarrow> \<not> (rp_requiresApproval v \<and> \<not> rp_approverAvailable v) | _ \<Rightarrow> True))"

text \<open>The answer of a start: the run, a preview by mistake, or an error.\<close>

datatype start_answer = Started string | Started_preview | Start_failed run_error

text \<open>The token is read from the reference when the request is made.\<close>

(* src components/runbook/StartRunDialog.tsx 80-87 start *)
definition start_run :: "string option \<Rightarrow> confirm_box \<Rightarrow> start_dialog \<Rightarrow> start_dialog" where
  "start_run token b d = d\<lparr>sg_elevationToken := token, sg_startError := None, sg_conflict := None, sg_pending := True,
     sg_sent := sg_sent d @ [\<lparr>ss_token = token, ss_preview = sg_preview d, ss_required = stepUpRequired False (sg_config d), ss_typed = cb_typed b\<rparr>]\<rparr>"

(* src components/runbook/StartRunDialog.tsx 87-107 start *)
definition start_answered :: "start_answer \<Rightarrow> start_dialog \<Rightarrow> start_dialog" where
  "start_answered a d =
     (if \<not> sg_pending d then d
      else let d' = d\<lparr>sg_pending := False, sg_confirm := None, sg_elevationToken := None\<rparr>
        in case a of
             Started_preview \<Rightarrow> d'\<lparr>sg_startError := Some ''runbooks.runs.startError''\<rparr>
           | Started i \<Rightarrow> set_open False (d'\<lparr>sg_started := sg_started d @ [i]\<rparr>)
           | Start_failed e \<Rightarrow>
               (let d'' = (case getRunbookRunConflict e of Some c \<Rightarrow> d'\<lparr>sg_conflict := Some c\<rparr>
                    | None \<Rightarrow> d'\<lparr>sg_startError := Some (runErrorMessage e ''runbooks.runs.startError'')\<rparr>)
                in if isNoEligibleApprover e then loadPreview d'' else d''))"

datatype start_event = Show_dialog | Hide_dialog | Preview_loaded "runbook_preview option" | Retry_start_preview | Press_start | Start_box box_event
  | Confirm_start | Cancel_start | Start_answer start_answer | Start_config bool | Open_conflict

(* src components/runbook/StartRunDialog.tsx 109-237 StartRunDialog *)
fun start_step :: "string \<Rightarrow> start_event \<Rightarrow> start_dialog \<Rightarrow> start_dialog" where
  "start_step title Show_dialog d = (if sg_open d then d else set_open True d)"
| "start_step title Hide_dialog d = (if sg_open d \<and> sg_confirm d = None then close_start d else d)"
| "start_step title (Preview_loaded p) d = (if sg_preview d = Start_loading
     then d\<lparr>sg_preview := (case p of Some v \<Rightarrow> Start_shown v | None \<Rightarrow> Start_error)\<rparr> else d)"
| "start_step title Retry_start_preview d = (if sg_open d \<and> sg_confirm d = None \<and> sg_preview d = Start_error then loadPreview d else d)"
| "start_step title Press_start d = (if sg_open d \<and> sg_confirm d = None \<and> canStart (sg_preview d) \<and> \<not> sg_pending d
     then d\<lparr>sg_startError := None, sg_conflict := None, sg_confirm := Some fresh_box\<rparr> else d)"
| "start_step title (Start_box ev) d = (case sg_confirm d of
       Some b \<Rightarrow> d\<lparr>sg_confirm := Some (box_step title (stepUpRequired False (sg_config d)) ev b)\<rparr> | None \<Rightarrow> d)"
| "start_step title Confirm_start d = (case sg_confirm d of
       Some b \<Rightarrow> if box_ready title (stepUpRequired False (sg_config d)) b \<and> \<not> sg_pending d then start_run (box_token b) b d else d
     | None \<Rightarrow> d)"
| "start_step title Cancel_start d = d\<lparr>sg_confirm := None\<rparr>"
| "start_step title (Start_answer a) d = start_answered a d"
| "start_step title (Start_config b) d = d\<lparr>sg_config := Some b\<rparr>"
| "start_step title Open_conflict d = (case sg_conflict d of
       Some (i, code, msg) \<Rightarrow> if sg_open d \<and> sg_confirm d = None then close_start (d\<lparr>sg_started := sg_started d @ [i]\<rparr>) else d
     | None \<Rightarrow> d)"

subsection \<open>A run starts as previewed\<close>

abbreviation start_run_of :: "string \<Rightarrow> start_event list \<Rightarrow> start_dialog" where
  "start_run_of title es \<equiv> fold (start_step title) es start_init"

fun elevated_in :: "start_event \<Rightarrow> string list" where
  "elevated_in (Start_box (Box_elevated t)) = [t]"
| "elevated_in _ = []"

definition start_tokens :: "start_event list \<Rightarrow> string list" where
  "start_tokens es = concat (map elevated_in es)"

definition sent_tokens :: "start_dialog \<Rightarrow> string list" where
  "sent_tokens d = List.map_filter ss_token (sg_sent d)"

definition start_ok :: "string \<Rightarrow> string set \<Rightarrow> start_sent \<Rightarrow> bool" where
  "start_ok title tokens s \<longleftrightarrow> canStart (ss_preview s) \<and> ss_typed s = title \<and> (case ss_token s of Some t \<Rightarrow> t \<in> tokens \<and> t \<noteq> [] | None \<Rightarrow> \<not> ss_required s)"

text \<open>The box a token was given to has sent nothing yet, unless the answer is still out.\<close>

definition dialog_ok :: "string \<Rightarrow> string set \<Rightarrow> start_dialog \<Rightarrow> bool" where
  "dialog_ok title tokens d \<longleftrightarrow> list_all (start_ok title tokens) (sg_sent d)
     \<and> (case sg_confirm d of None \<Rightarrow> True | Some b \<Rightarrow> sg_open d \<and> canStart (sg_preview d)
          \<and> (case box_token b of None \<Rightarrow> True | Some t \<Rightarrow> t \<in> tokens \<and> \<not> (t \<in> set (sent_tokens d) \<and> \<not> sg_pending d)))"

lemma start_ok_mono: "start_ok title tokens s \<Longrightarrow> tokens \<subseteq> tokens' \<Longrightarrow> start_ok title tokens' s"
  by (auto simp: start_ok_def split: option.splits)

lemma dialog_ok_mono: "dialog_ok title tokens d \<Longrightarrow> tokens \<subseteq> tokens' \<Longrightarrow> dialog_ok title tokens' d"
  by (auto simp: dialog_ok_def list_all_iff start_ok_mono split: option.splits)

lemma canStart_shown [simp]: "\<not> canStart Start_idle" "\<not> canStart Start_loading" "\<not> canStart Start_error"
  by (simp_all add: canStart_def stepsCanStart_def)

lemma sent_old: "dialog_ok title tokens d \<Longrightarrow> set (sent_tokens d) \<subseteq> tokens"
  by (auto simp: dialog_ok_def sent_tokens_def list_all_iff start_ok_def List.map_filter_def split: option.splits)

lemma box_token_type [simp]: "box_token (b\<lparr>cb_typed := s\<rparr>) = box_token b" "box_token (b\<lparr>cb_step_ups := n\<rparr>) = box_token b"
  "box_token (b\<lparr>cb_step_ups := n, cb_token := Some t\<rparr>) = (if t \<noteq> [] then Some t else None)"
  by (simp_all add: box_token_def truthy_token_def)

lemma box_step_token:
  "box_token (box_step name required ev b) = (case ev of
     Box_elevated t \<Rightarrow> if 0 < cb_step_ups b then (if t \<noteq> [] then Some t else None) else box_token b | _ \<Rightarrow> box_token b)"
  by (cases ev) (auto simp: box_token_def truthy_token_def)

lemma start_confirm_ok:
  assumes "dialog_ok title tokens d" "sg_confirm d = Some b" "box_ready title (stepUpRequired False (sg_config d)) b" "\<not> sg_pending d"
  shows "dialog_ok title tokens (start_run (box_token b) b d)"
    and "distinct (sent_tokens d) \<Longrightarrow> distinct (sent_tokens (start_run (box_token b) b d))"
  using assms
  by (auto simp: dialog_ok_def start_run_def start_ok_def box_ready_def box_token_def truthy_token_def sent_tokens_def List.map_filter_def
      split: option.splits if_splits)

lemma start_answered_ok:
  assumes "dialog_ok title tokens d"
  shows "dialog_ok title tokens (start_answered a d)" "sent_tokens (start_answered a d) = sent_tokens d"
  using assms by (auto simp: start_answered_def dialog_ok_def set_open_def loadPreview_def sent_tokens_def Let_def
      split: start_answer.splits option.splits)

lemma start_box_ok:
  assumes "dialog_ok title tokens d" "sg_confirm d = Some b" "set (elevated_in (Start_box ev)) \<inter> tokens = {}"
  shows "dialog_ok title (tokens \<union> set (elevated_in (Start_box ev))) (d\<lparr>sg_confirm := Some (box_step title required ev b)\<rparr>)"
  using assms sent_old [OF assms(1)]
  by (cases ev) (auto simp: dialog_ok_def box_step_token list_all_iff sent_tokens_def intro: start_ok_mono split: option.splits if_splits)

lemma dialog_ok_frame:
  assumes "dialog_ok title tokens d" "sg_sent d' = sg_sent d" "sg_confirm d' = None \<or> sg_confirm d' = sg_confirm d
      \<and> sg_open d' = sg_open d \<and> sg_preview d' = sg_preview d \<and> sg_pending d' = sg_pending d"
  shows "dialog_ok title tokens d'"
  using assms by (auto simp: dialog_ok_def sent_tokens_def split: option.splits)

lemma dialog_step:
  assumes ok: "dialog_ok title tokens d" and new: "set (elevated_in ev) \<inter> tokens = {}"
  shows "dialog_ok title (tokens \<union> set (elevated_in ev)) (start_step title ev d)
    \<and> (distinct (sent_tokens d) \<longrightarrow> distinct (sent_tokens (start_step title ev d)))"
proof (cases ev)
  case (Start_box be)
  then show ?thesis using start_box_ok [OF ok, of _ be] new ok
    by (auto simp: sent_tokens_def intro: dialog_ok_mono split: option.split)
next
  case Confirm_start
  then show ?thesis using start_confirm_ok [OF ok] ok by (auto split: option.split)
next
  case (Start_answer a)
  then show ?thesis using start_answered_ok [OF ok] by simp
next
  case Press_start
  then show ?thesis using ok by (auto simp: dialog_ok_def fresh_box_def box_token_def truthy_token_def sent_tokens_def)
next
  case (Preview_loaded p)
  then show ?thesis using ok by (auto simp: dialog_ok_def sent_tokens_def split: option.splits)
next
  case Show_dialog
  have "sg_confirm d = None" if "\<not> sg_open d" using ok that by (simp add: dialog_ok_def split: option.splits)
  then show ?thesis using Show_dialog ok by (auto simp: set_open_def loadPreview_def sent_tokens_def intro!: dialog_ok_frame [OF ok])
qed (use ok in \<open>auto simp: set_open_def loadPreview_def close_start_def sent_tokens_def intro!: dialog_ok_frame [OF ok] split: option.split\<close>)

lemma dialog_run:
  assumes "distinct (start_tokens es)"
  shows "dialog_ok title (set (start_tokens es)) (start_run_of title es) \<and> distinct (sent_tokens (start_run_of title es))"
  using assms
proof (induction es rule: rev_induct)
  case (snoc ev es)
  then have "set (elevated_in ev) \<inter> set (start_tokens es) = {}" by (auto simp: start_tokens_def)
  moreover have "set (start_tokens (es @ [ev])) = set (start_tokens es) \<union> set (elevated_in ev)" by (auto simp: start_tokens_def)
  ultimately show ?case using snoc dialog_step [of title "set (start_tokens es)" "start_run_of title es" ev]
    by (auto simp: start_tokens_def)
qed (simp add: dialog_ok_def start_init_def sent_tokens_def List.map_filter_def start_tokens_def)

text \<open>
  Claim C9. A run only starts as previewed: every start was sent with a preview on screen whose steps are all visible and executable and,
  where approval is needed, has an approver; its name was typed, it carries a token handed over by the step-up where one is
  required, and no token is ever sent twice, whatever fails or is cancelled in between.
\<close>

theorem start_as_previewed:
  assumes "distinct (start_tokens es)"
  shows "list_all (start_ok title (set (start_tokens es))) (sg_sent (start_run_of title es)) \<and> distinct (sent_tokens (start_run_of title es))"
  using dialog_run [OF assms, of title] by (simp add: dialog_ok_def)

definition example_start :: "start_event list" where
  "example_start = [Show_dialog, Preview_loaded (Some \<lparr>rp_canStart = True, rp_requiresApproval = False, rp_approverAvailable = False,
       rp_steps = [\<lparr>rt_id = ''s1'', rt_position = 0, rt_kind = Some Manual, rt_title = Some ''Look'', rt_connectorId = None, rt_connectorName = None,
         rt_targetService = None, rt_state = None, rt_redacted = False, rt_canExecute = True, rt_blockedReason = None\<rparr>]\<rparr>),
     Press_start, Start_box (Box_type ''R''), Start_box Box_step_up, Start_box (Box_elevated ''t1''), Confirm_start,
     Start_answer (Start_failed \<lparr>er_status = Some 503, er_code = None, er_runId = None, er_message = None\<rparr>),
     Press_start, Start_box (Box_type ''R''), Start_box Box_step_up, Start_box (Box_elevated ''t2''), Confirm_start]"

lemma start_as_previewed_witness:
  "sent_tokens (start_run_of ''R'' example_start) = [''t1'', ''t2''] \<and> distinct (sent_tokens (start_run_of ''R'' example_start))"
proof -
  have "distinct (start_tokens example_start)" "sent_tokens (start_run_of ''R'' example_start) = [''t1'', ''t2'']" by code_simp+
  then show ?thesis using start_as_previewed by simp
qed

subsection \<open>The page of a run\<close>

(* src api/model/resumeRunbookRunBodyDecision.ts 13-19 ResumeRunbookRunBodyDecision *)
datatype run_decision = Resend | Mark_done

(* src components/runbook/RunDetail.tsx 192-195 firstUnfinishedStep *)
definition firstUnfinishedStep :: "run_view \<Rightarrow> run_step option" where
  "firstUnfinishedStep v = find (\<lambda>s. rt_state s \<noteq> Some Step_succeeded) (by_position (rv_steps v))"

(* src components/runbook/RunDetail.tsx 197-200 decisionRequired *)
definition decisionRequired :: "run_view \<Rightarrow> bool" where
  "decisionRequired v = (case firstUnfinishedStep v of None \<Rightarrow> False
     | Some s \<Rightarrow> rt_state s = Some Step_unknown \<and> (rt_kind s = Some Connector_action \<or> rt_kind s = Some Config_push))"

text \<open>\<open>resume\<close>: the token, and the decision with its basis; the others carry what they act on.\<close>

datatype run_request = Req_confirm string | Req_resume "string option" "(run_decision \<times> (string \<times> string) option) option"
  | Req_cancel | Req_approve "string option" | Req_reject

text \<open>
  The state of the page. Beside it, the run as it was when the resume, the cancellation or the rejection
  was opened, and with every request the run it was decided on.
\<close>

(* src components/runbook/RunDetail.tsx 45-59 RunDetail *)
record run_detail =
  dt_run :: "run_view option"
  dt_cancelOpen :: bool
  dt_rejectOpen :: bool
  dt_unknownOpen :: bool
  dt_decisionOpen :: bool
  dt_decision :: "run_decision option"
  dt_basis :: "(string \<times> string) option"
  dt_elevationOpen :: bool
  dt_resumeBox :: confirm_box
  dt_approvalOpen :: bool
  dt_approvalBox :: confirm_box
  dt_deleted :: bool
  dt_resumeError :: "string option"
  dt_pending :: "string set"
  dt_config :: "bool option"
  dt_refreshes :: nat
  dt_resumeSeen :: "run_view option"
  dt_cancelSeen :: "run_view option"
  dt_rejectSeen :: "run_view option"
  dt_sent :: "(run_request \<times> run_view option) list"

definition detail_init :: run_detail where
  "detail_init = \<lparr>dt_run = None, dt_cancelOpen = False, dt_rejectOpen = False, dt_unknownOpen = False, dt_decisionOpen = False,
     dt_decision = None, dt_basis = None, dt_elevationOpen = False, dt_resumeBox = fresh_box, dt_approvalOpen = False,
     dt_approvalBox = fresh_box, dt_deleted = False, dt_resumeError = None, dt_pending = {}, dt_config = None, dt_refreshes = 0,
     dt_resumeSeen = None, dt_cancelSeen = None, dt_rejectSeen = None, dt_sent = []\<rparr>"

definition of_run :: "(run_view \<Rightarrow> bool) \<Rightarrow> run_detail \<Rightarrow> bool" where
  "of_run P d = (case dt_run d of Some v \<Rightarrow> P v | None \<Rightarrow> False)"

definition truthy_text :: "string option \<Rightarrow> bool" where
  "truthy_text s \<longleftrightarrow> s \<noteq> None \<and> s \<noteq> Some []"

definition allStepsExecutable :: "run_view \<Rightarrow> bool" where
  "allStepsExecutable v = list_all rt_canExecute (rv_steps v)"

definition waitingStep :: "run_view \<Rightarrow> run_step option" where
  "waitingStep v = find (\<lambda>s. rt_state s = Some Step_waiting) (rv_steps v)"

(* src components/runbook/RunDetail.tsx 174-178 canConfirm *)
definition canConfirmStep :: "run_view \<Rightarrow> bool" where
  "canConfirmStep v \<longleftrightarrow> rv_state v = Run_waiting_manual \<and> (case waitingStep v of Some s \<Rightarrow> rt_kind s = Some Manual | None \<Rightarrow> False)
     \<and> allStepsExecutable v"

(* src components/runbook/RunDetail.tsx 177-179 canResume *)
definition canResume :: "bool \<Rightarrow> run_view \<Rightarrow> bool" where
  "canResume deleted v \<longleftrightarrow> rv_state v = Run_failed \<and> truthy_text (rv_runbookId v) \<and> \<not> deleted \<and> allStepsExecutable v"

(* src components/runbook/RunDetail.tsx 180-191 canCancel *)
definition canCancel :: "string option \<Rightarrow> run_view \<Rightarrow> bool" where
  "canCancel user v = (if rv_state v = Run_awaiting_approval then Some (rv_startedBy v) = user
     else rv_state v \<in> {Run_running, Run_waiting_manual, Run_failed})"

definition resume_mounted :: "run_detail \<Rightarrow> bool" where
  "resume_mounted d \<longleftrightarrow> dt_elevationOpen d \<and> of_run (\<lambda>v. truthy_text (rv_runbookId v)) d \<and> \<not> dt_deleted d"

definition approval_mounted :: "run_detail \<Rightarrow> bool" where
  "approval_mounted d \<longleftrightarrow> dt_approvalOpen d \<and> of_run (\<lambda>v. rv_state v = Run_awaiting_approval) d"

text \<open>A dialog that is not rendered forgets what was entered.\<close>

(* src components/runbook/RunDetail.tsx 447-477 RunDetail *)
definition remount :: "run_detail \<Rightarrow> run_detail" where
  "remount d = d\<lparr>dt_resumeBox := (if resume_mounted d then dt_resumeBox d else fresh_box),
     dt_approvalBox := (if approval_mounted d then dt_approvalBox d else fresh_box)\<rparr>"

text \<open>The dialogs are modal.\<close>

definition modal :: "run_detail \<Rightarrow> bool" where
  "modal d \<longleftrightarrow> dt_cancelOpen d \<or> dt_rejectOpen d \<or> dt_unknownOpen d \<or> dt_decisionOpen d \<or> resume_mounted d \<or> approval_mounted d"

definition pending :: "string \<Rightarrow> run_detail \<Rightarrow> bool" where
  "pending m d \<longleftrightarrow> m \<in> dt_pending d"

definition send_run :: "string \<Rightarrow> run_request \<Rightarrow> run_view option \<Rightarrow> run_detail \<Rightarrow> run_detail" where
  "send_run m r seen d = d\<lparr>dt_pending := insert m (dt_pending d), dt_sent := dt_sent d @ [(r, seen)]\<rparr>"

(* src components/runbook/RunDetail.tsx 62-67 refresh *)
definition refresh :: "run_detail \<Rightarrow> run_detail" where
  "refresh d = d\<lparr>dt_refreshes := Suc (dt_refreshes d)\<rparr>"

(* src components/runbook/RunDetail.tsx 203-214 openResume *)
definition openResume :: "run_view \<Rightarrow> run_detail \<Rightarrow> run_detail" where
  "openResume v d =
     (let d' = d\<lparr>dt_resumeError := None, dt_decision := None, dt_resumeSeen := Some v,
            dt_basis := (case firstUnfinishedStep v of Some s \<Rightarrow> if decisionRequired v then Some (rt_id s, rv_updatedAt v) else None | None \<Rightarrow> None)\<rparr>
      in if decisionRequired v then d'\<lparr>dt_decisionOpen := True\<rparr>
         else if Option.bind (firstUnfinishedStep v) rt_state = Some Step_unknown then d'\<lparr>dt_unknownOpen := True\<rparr>
         else d'\<lparr>dt_elevationOpen := True\<rparr>)"

(* src components/runbook/RunDetail.tsx 81-97 resume *)
definition send_resume :: "run_detail \<Rightarrow> run_detail" where
  "send_resume d = send_run ''resume'' (Req_resume (box_token (dt_resumeBox d)) (map_option (\<lambda>c. (c, dt_basis d)) (dt_decision d))) (dt_resumeSeen d) d"

text \<open>The answer of a request: \<open>None\<close> is success.\<close>

(* src components/runbook/RunDetail.tsx 98-128 resume *)
definition resume_answered :: "run_error option \<Rightarrow> run_detail \<Rightarrow> run_detail" where
  "resume_answered a d =
     (let d' = d\<lparr>dt_pending := dt_pending d - {''resume''}, dt_elevationOpen := False\<rparr>
      in case a of
           None \<Rightarrow> refresh (d'\<lparr>dt_resumeError := None\<rparr>)
         | Some e \<Rightarrow>
             if er_code e = Some ''runbook_deleted'' then refresh (d'\<lparr>dt_deleted := True, dt_resumeError := Some ''runbooks.runs.resumeDeleted''\<rparr>)
             else if er_code e = Some ''run_changed''
             then refresh (d'\<lparr>dt_decisionOpen := False, dt_decision := None, dt_basis := None, dt_resumeError := Some ''runbooks.runs.resumeRunChanged''\<rparr>)
             else if er_code e = Some ''unknown_step_decision_required'' then d'\<lparr>dt_resumeError := Some ''runbooks.runs.resumeDecisionRequired''\<rparr>
             else (if isConflict e then refresh else (\<lambda>x. x)) (d'\<lparr>dt_resumeError := Some (runErrorMessage e ''runbooks.runs.resumeError'')\<rparr>))"

text \<open>The other requests: success closes their dialog, a conflict only refreshes.\<close>

(* src components/runbook/RunDetail.tsx 69-79 confirm *)
definition plain_answered :: "string \<Rightarrow> (run_detail \<Rightarrow> run_detail) \<Rightarrow> run_error option \<Rightarrow> run_detail \<Rightarrow> run_detail" where
  "plain_answered m on_success a d =
     (let d' = d\<lparr>dt_pending := dt_pending d - {m}\<rparr>
      in case a of None \<Rightarrow> refresh (on_success d') | Some e \<Rightarrow> if isConflict e then refresh d' else d')"

(* src components/runbook/RunDetail.tsx 130-145 cancel *)
definition cancel_answered :: "run_error option \<Rightarrow> run_detail \<Rightarrow> run_detail" where
  "cancel_answered = plain_answered ''cancel'' (\<lambda>d. d\<lparr>dt_cancelOpen := False\<rparr>)"

(* src components/runbook/RunDetail.tsx 147-159 approve *)
definition approve_answered :: "run_error option \<Rightarrow> run_detail \<Rightarrow> run_detail" where
  "approve_answered = plain_answered ''approve'' (\<lambda>d. d\<lparr>dt_approvalOpen := False\<rparr>)"

(* src components/runbook/RunDetail.tsx 161-172 reject *)
definition reject_answered :: "run_error option \<Rightarrow> run_detail \<Rightarrow> run_detail" where
  "reject_answered = plain_answered ''reject'' (\<lambda>d. d\<lparr>dt_rejectOpen := False\<rparr>)"

datatype detail_event = Run_view run_view | Confirm_waiting | Confirm_answered "run_error option" | Open_resume | Continue_unknown | Close_unknown
  | Decide run_decision | Continue_decision | Close_decision | Resume_box box_event | Resume_close | Resume_send | Resume_answered "run_error option"
  | Open_approval | Approval_box box_event | Approval_close | Approval_send | Approval_answered "run_error option"
  | Open_reject | Close_reject | Reject_send | Reject_answered "run_error option"
  | Open_cancel | Close_cancel | Cancel_send | Cancel_answered "run_error option" | Detail_config bool

text \<open>A button of the page, where it is shown and enabled, and no dialog is over it.\<close>

definition on_page :: "(run_view \<Rightarrow> bool) \<Rightarrow> string list \<Rightarrow> (run_view \<Rightarrow> run_detail \<Rightarrow> run_detail) \<Rightarrow> run_detail \<Rightarrow> run_detail" where
  "on_page P busy f d = (case dt_run d of None \<Rightarrow> d
     | Some v \<Rightarrow> if P v \<and> \<not> modal d \<and> list_all (\<lambda>m. \<not> pending m d) busy then f v d else d)"

definition run_title :: "run_detail \<Rightarrow> string" where
  "run_title d = (case dt_run d of Some v \<Rightarrow> rv_runbookTitle v | None \<Rightarrow> [])"

(* src components/runbook/RunDetail.tsx 361-515 RunDetail *)
fun detail_raw :: "string option \<Rightarrow> detail_event \<Rightarrow> run_detail \<Rightarrow> run_detail" where
  "detail_raw user (Run_view v) d = d\<lparr>dt_run := Some v\<rparr>"
| "detail_raw user Confirm_waiting d = on_page canConfirmStep [''confirm''] (\<lambda>v d. case waitingStep v of
       Some s \<Rightarrow> send_run ''confirm'' (Req_confirm (rt_id s)) (Some v) d | None \<Rightarrow> d) d"
| "detail_raw user (Confirm_answered a) d = plain_answered ''confirm'' (\<lambda>d. d) a d"
| "detail_raw user Open_resume d = on_page (canResume (dt_deleted d)) [''resume''] openResume d"
| "detail_raw user Continue_unknown d = (if dt_unknownOpen d then d\<lparr>dt_unknownOpen := False, dt_elevationOpen := True\<rparr> else d)"
| "detail_raw user Close_unknown d = d\<lparr>dt_unknownOpen := False\<rparr>"
| "detail_raw user (Decide c) d = (if dt_decisionOpen d then d\<lparr>dt_decision := Some c\<rparr> else d)"
| "detail_raw user Continue_decision d =
     (if dt_decisionOpen d \<and> dt_decision d \<noteq> None then d\<lparr>dt_decisionOpen := False, dt_elevationOpen := True\<rparr> else d)"
| "detail_raw user Close_decision d = d\<lparr>dt_decisionOpen := False\<rparr>"
| "detail_raw user (Resume_box ev) d =
     d\<lparr>dt_resumeBox := box_step (run_title d) (stepUpRequired False (dt_config d)) ev (dt_resumeBox d)\<rparr>"
| "detail_raw user Resume_close d = d\<lparr>dt_elevationOpen := False\<rparr>"
| "detail_raw user Resume_send d = (if resume_mounted d \<and> box_ready (run_title d) (stepUpRequired False (dt_config d)) (dt_resumeBox d)
       \<and> \<not> pending ''resume'' d then send_resume d else d)"
| "detail_raw user (Resume_answered a) d = (if pending ''resume'' d then resume_answered a d else d)"
| "detail_raw user Open_approval d = on_page (\<lambda>v. rv_state v = Run_awaiting_approval \<and> rv_canApprove v) [''approve'', ''reject'']
       (\<lambda>v d. d\<lparr>dt_approvalOpen := True\<rparr>) d"
| "detail_raw user (Approval_box ev) d = d\<lparr>dt_approvalBox := box_step (run_title d) (stepUpRequired True (dt_config d)) ev (dt_approvalBox d)\<rparr>"
| "detail_raw user Approval_close d = d\<lparr>dt_approvalOpen := False\<rparr>"
| "detail_raw user Approval_send d = (if approval_mounted d \<and> box_ready (run_title d) (stepUpRequired True (dt_config d)) (dt_approvalBox d)
       \<and> \<not> pending ''approve'' d then send_run ''approve'' (Req_approve (box_token (dt_approvalBox d))) (dt_run d) d else d)"
| "detail_raw user (Approval_answered a) d = (if pending ''approve'' d then approve_answered a d else d)"
| "detail_raw user Open_reject d = on_page (\<lambda>v. rv_state v = Run_awaiting_approval \<and> rv_canApprove v) [''approve'', ''reject'']
       (\<lambda>v d. d\<lparr>dt_rejectOpen := True, dt_rejectSeen := Some v\<rparr>) d"
| "detail_raw user Close_reject d = d\<lparr>dt_rejectOpen := False\<rparr>"
| "detail_raw user Reject_send d = (if dt_rejectOpen d \<and> \<not> pending ''reject'' d then send_run ''reject'' Req_reject (dt_rejectSeen d) d else d)"
| "detail_raw user (Reject_answered a) d = (if pending ''reject'' d then reject_answered a d else d)"
| "detail_raw user Open_cancel d = on_page (canCancel user) [''cancel''] (\<lambda>v d. d\<lparr>dt_cancelOpen := True, dt_cancelSeen := Some v\<rparr>) d"
| "detail_raw user Close_cancel d = d\<lparr>dt_cancelOpen := False\<rparr>"
| "detail_raw user Cancel_send d = (if dt_cancelOpen d \<and> \<not> pending ''cancel'' d then send_run ''cancel'' Req_cancel (dt_cancelSeen d) d else d)"
| "detail_raw user (Cancel_answered a) d = (if pending ''cancel'' d then cancel_answered a d else d)"
| "detail_raw user (Detail_config b) d = d\<lparr>dt_config := Some b\<rparr>"

definition detail_step :: "string option \<Rightarrow> detail_event \<Rightarrow> run_detail \<Rightarrow> run_detail" where
  "detail_step user ev d = remount (detail_raw user ev d)"

subsection \<open>A run is resumed as it was seen\<close>

text \<open>What is sent to resume a run: a decision with its step and revision where one is needed, nothing where none is.\<close>

definition resume_body_ok :: "run_view \<Rightarrow> (run_decision \<times> (string \<times> string) option) option \<Rightarrow> bool" where
  "resume_body_ok v body \<longleftrightarrow>
     (if decisionRequired v
      then (case (body, firstUnfinishedStep v) of (Some (c, basis), Some s) \<Rightarrow> basis = Some (rt_id s, rv_updatedAt v) | _ \<Rightarrow> False)
      else body = None)"

definition run_request_ok :: "string option \<Rightarrow> run_request \<Rightarrow> run_view \<Rightarrow> bool" where
  "run_request_ok user r v = (case r of
     Req_confirm i \<Rightarrow> canConfirmStep v \<and> map_option rt_id (waitingStep v) = Some i
   | Req_resume t body \<Rightarrow> rv_state v = Run_failed \<and> allStepsExecutable v \<and> resume_body_ok v body
   | Req_cancel \<Rightarrow> canCancel user v
   | Req_approve t \<Rightarrow> rv_state v = Run_awaiting_approval \<and> truthy_token t
   | Req_reject \<Rightarrow> rv_state v = Run_awaiting_approval \<and> rv_canApprove v)"

definition sent_ok :: "string option \<Rightarrow> run_request \<times> run_view option \<Rightarrow> bool" where
  "sent_ok user rs = (case rs of (r, Some v) \<Rightarrow> run_request_ok user r v | _ \<Rightarrow> False)"

definition basis_of :: "run_view \<Rightarrow> (string \<times> string) option" where
  "basis_of v = (case firstUnfinishedStep v of Some s \<Rightarrow> if decisionRequired v then Some (rt_id s, rv_updatedAt v) else None | None \<Rightarrow> None)"

text \<open>While a dialog of the resume is open, its entries belong to the run it was opened for.\<close>

definition resume_fits :: "run_view option \<Rightarrow> (string \<times> string) option \<Rightarrow> run_decision option \<Rightarrow> bool \<Rightarrow> bool \<Rightarrow> bool \<Rightarrow> bool" where
  "resume_fits seen basis choice decisionOpen elevationOpen unknownOpen \<longleftrightarrow> decisionOpen \<or> elevationOpen \<or> unknownOpen \<longrightarrow>
     (\<exists>v. seen = Some v \<and> rv_state v = Run_failed \<and> allStepsExecutable v \<and> basis = basis_of v
          \<and> (decisionOpen \<longrightarrow> decisionRequired v) \<and> (unknownOpen \<longrightarrow> \<not> decisionRequired v)
          \<and> (decisionRequired v \<or> choice = None)
          \<and> (elevationOpen \<longrightarrow> decisionRequired v = (choice \<noteq> None)))"

definition resuming_ok :: "run_detail \<Rightarrow> bool" where
  "resuming_ok d \<longleftrightarrow> resume_fits (dt_resumeSeen d) (dt_basis d) (dt_decision d) (dt_decisionOpen d) (dt_elevationOpen d) (dt_unknownOpen d)"

lemma resume_fits_close:
  "resume_fits seen b c d e u \<Longrightarrow> resume_fits seen b c False e u"
  "resume_fits seen b c d e u \<Longrightarrow> resume_fits seen b c d False u"
  "resume_fits seen b c d e u \<Longrightarrow> resume_fits seen b c d e False"
  "resume_fits seen b c d e u \<Longrightarrow> resume_fits seen b c d False False"
  by (auto simp: resume_fits_def)

lemma resume_fits_go_on:
  "resume_fits seen b c True e u \<Longrightarrow> c \<noteq> None \<Longrightarrow> resume_fits seen b c False True u"
  "resume_fits seen b c d e True \<Longrightarrow> resume_fits seen b c d True False"
  "resume_fits seen b c True e u \<Longrightarrow> resume_fits seen b (Some x) True e u"
  by (auto simp: resume_fits_def)

definition opened_for :: "(run_view \<Rightarrow> bool) \<Rightarrow> bool \<Rightarrow> run_view option \<Rightarrow> bool" where
  "opened_for P b seen \<longleftrightarrow> (b \<longrightarrow> (\<exists>v. seen = Some v \<and> P v))"

definition detail_ok :: "string option \<Rightarrow> run_detail \<Rightarrow> bool" where
  "detail_ok user d \<longleftrightarrow> resuming_ok d
     \<and> opened_for (canCancel user) (dt_cancelOpen d) (dt_cancelSeen d)
     \<and> opened_for (\<lambda>v. rv_state v = Run_awaiting_approval \<and> rv_canApprove v) (dt_rejectOpen d) (dt_rejectSeen d)
     \<and> list_all (sent_ok user) (dt_sent d)"

lemma remount_fields [simp]:
  "dt_decisionOpen (remount d) = dt_decisionOpen d" "dt_elevationOpen (remount d) = dt_elevationOpen d" "dt_unknownOpen (remount d) = dt_unknownOpen d"
  "dt_resumeSeen (remount d) = dt_resumeSeen d" "dt_basis (remount d) = dt_basis d" "dt_decision (remount d) = dt_decision d"
  "dt_cancelOpen (remount d) = dt_cancelOpen d" "dt_cancelSeen (remount d) = dt_cancelSeen d" "dt_rejectOpen (remount d) = dt_rejectOpen d"
  "dt_rejectSeen (remount d) = dt_rejectSeen d" "dt_sent (remount d) = dt_sent d"
  by (simp_all add: remount_def)

lemma remount_ok [simp]: "detail_ok user (remount d) = detail_ok user d"
  unfolding detail_ok_def resuming_ok_def remount_fields ..

lemma basis_of_None: "\<not> decisionRequired v \<Longrightarrow> basis_of v = None"
  by (simp add: basis_of_def split: option.split)

lemma basis_of_Some: "decisionRequired v \<Longrightarrow> \<exists>s. firstUnfinishedStep v = Some s \<and> basis_of v = Some (rt_id s, rv_updatedAt v)"
  by (cases "firstUnfinishedStep v") (simp_all add: basis_of_def decisionRequired_def)

lemma open_resume_ok:
  assumes "detail_ok user d" "dt_run d = Some v" "canResume (dt_deleted d) v" "\<not> modal d"
  shows "detail_ok user (openResume v d)"
proof -
  have "\<not> dt_decisionOpen d" "\<not> dt_unknownOpen d" "\<not> dt_elevationOpen d"
    using assms by (auto simp: modal_def resume_mounted_def of_run_def canResume_def)
  then show ?thesis using assms
    by (auto simp: detail_ok_def resuming_ok_def resume_fits_def openResume_def canResume_def basis_of_def Let_def)
qed

lemma send_resume_ok:
  assumes "detail_ok user d" "resume_mounted d"
  shows "detail_ok user (send_resume d)"
proof -
  obtain v where v: "dt_resumeSeen d = Some v" "rv_state v = Run_failed" "allStepsExecutable v" "dt_basis d = basis_of v"
      "decisionRequired v = (dt_decision d \<noteq> None)"
    using assms by (auto simp: detail_ok_def resuming_ok_def resume_fits_def resume_mounted_def split: option.splits)
  have "resume_body_ok v (map_option (\<lambda>c. (c, dt_basis d)) (dt_decision d))"
  proof (cases "decisionRequired v")
    case True
    then show ?thesis using basis_of_Some [OF True] v by (auto simp: resume_body_ok_def)
  qed (use v in \<open>simp add: resume_body_ok_def\<close>)
  then show ?thesis using assms(1) v
    by (simp add: detail_ok_def resuming_ok_def resume_fits_def send_resume_def send_run_def sent_ok_def run_request_ok_def)
qed

lemma resume_answered_ok: "detail_ok user d \<Longrightarrow> detail_ok user (resume_answered a d)"
proof -
  assume ok: "detail_ok user d"
  have close: "resume_fits seen b c e f u \<Longrightarrow> resume_fits seen b' c' False False u'"
    if "b' = None" "c' = None" "u' = u" for seen b c e f u b' c' u'
    using that by (auto simp: resume_fits_def basis_of_None)
  show ?thesis using ok close resume_fits_close
    by (auto simp: detail_ok_def resuming_ok_def resume_answered_def refresh_def Let_def split: option.split)
qed

lemma plain_answered_ok:
  assumes "detail_ok user d" "\<And>d. detail_ok user d \<Longrightarrow> detail_ok user (f d)"
  shows "detail_ok user (plain_answered m f a d)"
proof -
  have "detail_ok user (d\<lparr>dt_pending := ps\<rparr>)" for ps using assms(1) by (simp add: detail_ok_def resuming_ok_def)
  moreover have "detail_ok user (refresh d) = detail_ok user d" for d by (simp add: detail_ok_def resuming_ok_def refresh_def)
  ultimately show ?thesis using assms(2) by (simp add: plain_answered_def Let_def split: option.split)
qed

lemma send_ok: "detail_ok user d \<Longrightarrow> run_request_ok user r v \<Longrightarrow> detail_ok user (send_run m r (Some v) d)"
  by (simp add: detail_ok_def resuming_ok_def send_run_def sent_ok_def)

lemma on_page_ok:
  assumes "detail_ok user d" "\<And>v. dt_run d = Some v \<Longrightarrow> P v \<Longrightarrow> \<not> modal d \<Longrightarrow> detail_ok user (f v d)"
  shows "detail_ok user (on_page P busy f d)"
  using assms by (simp add: on_page_def split: option.split)

lemma confirm_ok: "detail_ok user d \<Longrightarrow> canConfirmStep v \<Longrightarrow>
    detail_ok user (case waitingStep v of Some s \<Rightarrow> send_run ''confirm'' (Req_confirm (rt_id s)) (Some v) d | None \<Rightarrow> d)"
  by (auto intro!: send_ok simp: run_request_ok_def split: option.split)

lemma approval_ok:
  assumes "detail_ok user d" "approval_mounted d" "box_ready name (stepUpRequired True cfg) b"
  shows "detail_ok user (send_run m (Req_approve (box_token b)) (dt_run d) d)"
proof -
  obtain v where "dt_run d = Some v" "rv_state v = Run_awaiting_approval"
    using assms(2) by (auto simp: approval_mounted_def of_run_def split: option.splits)
  moreover have "truthy_token (box_token b)" using assms(3) by (simp add: box_ready_def stepUpRequired_def box_token_def)
  ultimately show ?thesis using assms(1) by (auto intro: send_ok simp: run_request_ok_def)
qed

lemma opened_send_ok:
  assumes "detail_ok user d" "opened_for P True seen" "\<And>v. P v \<Longrightarrow> run_request_ok user r v"
  shows "detail_ok user (send_run m r seen d)"
  using assms by (auto simp: opened_for_def intro!: send_ok split: option.splits)

lemma answers_ok:
  assumes "detail_ok user d"
  shows "detail_ok user (plain_answered m (\<lambda>d. d) a d)" "detail_ok user (cancel_answered a d)" "detail_ok user (approve_answered a d)"
    "detail_ok user (reject_answered a d)"
  unfolding cancel_answered_def approve_answered_def reject_answered_def
  by (rule plain_answered_ok [OF assms], simp add: detail_ok_def resuming_ok_def opened_for_def)+

text \<open>Closing a dialog and typing into one keeps the rest.\<close>

lemma frame_ok:
  assumes "detail_ok user d"
  shows "detail_ok user (d\<lparr>dt_run := v\<rparr>)" "detail_ok user (d\<lparr>dt_unknownOpen := False\<rparr>)" "detail_ok user (d\<lparr>dt_decisionOpen := False\<rparr>)"
    "detail_ok user (d\<lparr>dt_resumeBox := b\<rparr>)" "detail_ok user (d\<lparr>dt_elevationOpen := False\<rparr>)" "detail_ok user (d\<lparr>dt_approvalBox := b\<rparr>)"
    "detail_ok user (d\<lparr>dt_approvalOpen := x\<rparr>)" "detail_ok user (d\<lparr>dt_rejectOpen := False\<rparr>)" "detail_ok user (d\<lparr>dt_cancelOpen := False\<rparr>)"
    "detail_ok user (d\<lparr>dt_config := c\<rparr>)"
  using assms resume_fits_close by (auto simp: detail_ok_def resuming_ok_def opened_for_def)

lemma detail_raw_ok: "detail_ok user d \<Longrightarrow> detail_ok user (detail_raw user ev d)"
proof (cases ev)
  case Confirm_waiting
  then show "detail_ok user d \<Longrightarrow> ?thesis" by (simp add: on_page_ok confirm_ok)
next
  case Open_resume
  then show "detail_ok user d \<Longrightarrow> ?thesis" by (auto intro!: on_page_ok open_resume_ok)
next
  case Cancel_send
  then show "detail_ok user d \<Longrightarrow> ?thesis"
    by (auto intro!: opened_send_ok [where P = "canCancel user"] simp: run_request_ok_def, simp add: detail_ok_def)
next
  case Reject_send
  then show "detail_ok user d \<Longrightarrow> ?thesis"
    by (auto intro!: opened_send_ok [where P = "\<lambda>v. rv_state v = Run_awaiting_approval \<and> rv_canApprove v"] simp: run_request_ok_def, simp add: detail_ok_def)
next
  case Open_cancel
  show "detail_ok user d \<Longrightarrow> ?thesis" unfolding Open_cancel detail_raw.simps
    by (rule on_page_ok, assumption) (simp add: detail_ok_def resuming_ok_def opened_for_def)
next
  case Open_reject
  show "detail_ok user d \<Longrightarrow> ?thesis" unfolding Open_reject detail_raw.simps
    by (rule on_page_ok, assumption) (simp add: detail_ok_def resuming_ok_def opened_for_def)
next
  case Open_approval
  show "detail_ok user d \<Longrightarrow> ?thesis" unfolding Open_approval detail_raw.simps
    by (rule on_page_ok, assumption) (simp add: detail_ok_def resuming_ok_def opened_for_def)
next
  case Approval_send
  then show "detail_ok user d \<Longrightarrow> ?thesis" by (auto intro: approval_ok)
next
  case (Decide c)
  then show "detail_ok user d \<Longrightarrow> ?thesis" by (auto simp: detail_ok_def resuming_ok_def intro: resume_fits_go_on)
next
  case Continue_decision
  then show "detail_ok user d \<Longrightarrow> ?thesis" by (auto simp: detail_ok_def resuming_ok_def intro: resume_fits_go_on)
next
  case Continue_unknown
  then show "detail_ok user d \<Longrightarrow> ?thesis" by (auto simp: detail_ok_def resuming_ok_def intro: resume_fits_go_on)
qed (simp_all add: send_resume_ok resume_answered_ok answers_ok frame_ok)

interpretation run_page: started_machine "detail_step user" "\<lambda>ev. True" "detail_ok user" detail_init for user
  by unfold_locales (simp_all add: detail_step_def detail_raw_ok, simp add: detail_ok_def resuming_ok_def resume_fits_def detail_init_def opened_for_def)

text \<open>
  Claim C10. Whatever is clicked and however the run changes meanwhile, every request about a run fits the run its user decided on: a failed, executable run is
  resumed with a decision exactly where its first unfinished step needs one, for that step and revision; a confirmation names the waiting
  manual step; a cancellation was open to the user, and an approval carries a token.
\<close>

theorem run_requests_fit:
  "list_all (sent_ok user) (dt_sent (fold (detail_step user) es detail_init))"
  using run_page.always [of user es] by (simp add: detail_ok_def)

text \<open>
  A resume that failed unmounts its confirmation, so the next one needs the name and a new token; an approval that failed
  leaves the dialog with the token it has sent.
\<close>

lemma failed_resume_forgets:
  "pending ''resume'' d \<Longrightarrow> dt_resumeBox (detail_step user (Resume_answered (Some e)) d) = fresh_box"
  by (simp add: detail_step_def remount_def resume_mounted_def resume_answered_def refresh_def Let_def)

lemma failed_approval_keeps_token:
  assumes "approval_mounted d" "pending ''approve'' d"
  shows "dt_approvalBox (detail_step user (Approval_answered (Some e)) d) = dt_approvalBox d"
proof -
  have "approval_mounted (approve_answered (Some e) d)"
    using assms(1) by (simp add: approve_answered_def plain_answered_def refresh_def approval_mounted_def of_run_def Let_def)
  moreover have "dt_approvalBox (approve_answered (Some e) d) = dt_approvalBox d"
    by (simp add: approve_answered_def plain_answered_def refresh_def Let_def)
  ultimately show ?thesis using assms(2) by (simp add: detail_step_def remount_def)
qed

end
