(* ===== verification/DocEditor.thy ===== *)
theory DocEditor
  imports Live Auth Machines
begin

text \<open>
  The document editor (\<open>features/docs/DocEditorPage.tsx\<close>): its draft and the version it is based on, the
  editing lock with its renewals, saving with conflict detection, and suggestions that arrive over
  the socket. The page is a machine over the user's actions and whatever arrives. The lemmas
  show that no answer takes typed text away, that every save names a version whose content
  the server has sent, and when the lock is given back.
\<close>

subsection \<open>Documents and answers\<close>

(* src api/model/doc.ts 13-37 Doc *)
record doc_page =
  dp_title :: string
  dp_serviceId :: "string option"
  dp_content :: string
  dp_currentVersion :: int
  dp_linkWarnings :: "string list option"

text \<open>Who wrote the draft; the trigger of a save names it.\<close>

(* src features/docs/DocEditorPage.tsx 81-81 Provenance *)
datatype provenance = By_hand | Ai_draft

(* src features/docs/DocEditorPage.tsx 183-183 save *)
definition save_trigger :: "provenance \<Rightarrow> string" where
  "save_trigger p = (if p = Ai_draft then ''ai'' else ''manual'')"

text \<open>A failed request has a status unless no response came; a refused lock may name its holder.\<close>

datatype save_answer = Saved doc_page | Save_failed "nat option"
datatype lock_answer = Lock_granted | Lock_refused "nat option" "doc_lock option"

text \<open>What the server has been told and has answered about the lock, the newest first.\<close>

datatype lock_word = Asked | Granted | Refused | Released

fun lock_held_by :: "lock_word list \<Rightarrow> bool" where
  "lock_held_by [] = False"
| "lock_held_by (Asked # ws) = lock_held_by ws"
| "lock_held_by (Granted # ws) = True"
| "lock_held_by (Refused # ws) = False"
| "lock_held_by (Released # ws) = False"

text \<open>The queries that are marked stale.\<close>

datatype stale_query = Stale_doc | Stale_versions | Stale_tree | Stale_backlinks | Stale_all

text \<open>
  A save as it was sent; the last two say whether the lock was granted and not given back, and whether
  a save before it has already given it back and turned to the document's page.
\<close>

(* src api/model/docSave.ts 10-16 DocSave *)
record doc_save =
  ds_content :: string
  ds_baseVersion :: "int option"
  ds_trigger :: string
  ds_locked :: bool
  ds_left :: bool

subsection \<open>The editor\<close>

text \<open>
  \<open>de_doc\<close> and \<open>de_docError\<close> are the query of the document, \<open>de_docLock\<close> the entry of the live store,
  \<open>de_aiResults\<close> the cached results by request. Requests for the lock are numbered: several
  renewals can be under way, and the pending mark follows the latest. The last six fields record
  what left the page.
\<close>

(* src features/docs/DocEditorPage.tsx 93-132 DocEditor *)
record editor =
  de_doc :: "doc_page option"
  de_docError :: bool
  de_docLock :: "doc_lock option"
  de_me :: "string option"
  de_myRole :: "string option"
  de_connectors :: "connector_role list option"
  de_draft :: "string option"
  de_provenance :: provenance
  de_requestId :: "string option"
  de_aiResults :: "string \<rightharpoonup> doc_ai_payload"
  de_baseContent :: "string option"
  de_lockHeld :: bool
  de_baseVersion :: "int option"
  de_linkWarnings :: "string list"
  de_lockAcquired :: bool
  de_mounted :: bool
  de_seeded :: bool
  de_deleteOpen :: bool
  de_removing :: bool
  de_saving :: "string option"
  de_suggesting :: bool
  de_lockCalls :: nat
  de_lockInFlight :: "nat list"
  de_toasts :: "string list"
  de_stale :: "stale_query list"
  de_navigations :: "string list"
  de_saves :: "doc_save list"
  de_lockLog :: "lock_word list"
  de_suggestions :: nat

(* src features/docs/DocEditorPage.tsx 117-132 DocEditor *)
definition editor_init :: editor where
  "editor_init = \<lparr>de_doc = None, de_docError = False, de_docLock = None, de_me = None, de_myRole = None, de_connectors = None,
     de_draft = None, de_provenance = By_hand, de_requestId = None, de_aiResults = Map.empty, de_baseContent = None,
     de_lockHeld = False, de_baseVersion = None, de_linkWarnings = [], de_lockAcquired = False, de_mounted = True, de_seeded = False,
     de_deleteOpen = False, de_removing = False, de_saving = None, de_suggesting = False, de_lockCalls = 0, de_lockInFlight = [],
     de_toasts = [], de_stale = [], de_navigations = [], de_saves = [], de_lockLog = [], de_suggestions = 0\<rparr>"

text \<open>The draft starts with the document when that is first read; later reads leave it alone.\<close>

(* src features/docs/DocEditorPage.tsx 136-142 DocEditor *)
definition seed :: "editor \<Rightarrow> editor" where
  "seed d = (case de_doc d of
       Some p \<Rightarrow> if de_seeded d then d
         else d\<lparr>de_seeded := True, de_draft := Some (dp_content p), de_baseContent := Some (dp_content p), de_baseVersion := Some (dp_currentVersion p)\<rparr>
     | None \<Rightarrow> d)"

(* src features/docs/DocEditorPage.tsx 114-115 canMutate *)
definition editor_canMutate :: "editor \<Rightarrow> bool" where
  "editor_canMutate d = (case Option.bind (de_doc d) dp_serviceId of
       Some i \<Rightarrow> if i \<noteq> [] then useConnectorRole (de_connectors d) (Some i) = Some ''operator'' else useIsInstanceAdmin (de_myRole d)
     | None \<Rightarrow> useIsInstanceAdmin (de_myRole d))"

(* src features/docs/DocEditorPage.tsx 144-144 dirty *)
definition dirty :: "editor \<Rightarrow> bool" where
  "dirty d \<longleftrightarrow> de_draft d \<noteq> None \<and> de_doc d \<noteq> None \<and> de_draft d \<noteq> de_baseContent d"

(* src features/docs/DocEditorPage.tsx 228-229 newerAvailable *)
definition newerAvailable :: "editor \<Rightarrow> bool" where
  "newerAvailable d = (case (de_doc d, de_baseVersion d) of (Some p, Some v) \<Rightarrow> v < dp_currentVersion p | _ \<Rightarrow> False)"

(* src features/docs/DocEditorPage.tsx 231-231 lockedByOther *)
definition lockedByOther :: "editor \<Rightarrow> bool" where
  "lockedByOther d = (case de_docLock d of Some l \<Rightarrow> Some (lock_userId l) \<noteq> de_me d | None \<Rightarrow> False)"

definition lock_pending :: "editor \<Rightarrow> bool" where
  "lock_pending d \<longleftrightarrow> de_lockCalls d \<in> set (de_lockInFlight d)"

(* src features/docs/DocEditorPage.tsx 276-276 canEdit *)
definition canEdit :: "editor \<Rightarrow> bool" where
  "canEdit d \<longleftrightarrow> editor_canMutate d \<and> de_lockHeld d \<and> \<not> lockedByOther d \<and> \<not> lock_pending d"

definition ai_result :: "editor \<Rightarrow> doc_ai_payload option" where
  "ai_result d = Option.bind (de_requestId d) (de_aiResults d)"

(* src features/docs/DocEditorPage.tsx 120-125 suggestion *)
definition suggestion :: "editor \<Rightarrow> string option" where
  "suggestion d = (case ai_result d of Some r \<Rightarrow> if ai_status r = Ai_complete then ai_fullContent r else None | None \<Rightarrow> None)"

text \<open>A result is final when its status is, also without content.\<close>

definition ai_final :: "editor \<Rightarrow> bool" where
  "ai_final d = (case ai_result d of Some r \<Rightarrow> ai_status r = Ai_complete \<or> ai_status r = Ai_error | None \<Rightarrow> False)"

(* src features/docs/DocEditorPage.tsx 300-305 aiPending *)
definition aiPending :: "editor \<Rightarrow> bool" where
  "aiPending d \<longleftrightarrow> de_suggesting d \<or> (de_requestId d \<noteq> None \<and> suggestion d = None \<and> \<not> ai_final d)"

text \<open>The page and its buttons are shown when the document is there and its last read did not fail.\<close>

(* src features/docs/DocEditorPage.tsx 307-325 DocEditor *)
definition page_shown :: "editor \<Rightarrow> bool" where
  "page_shown d \<longleftrightarrow> de_mounted d \<and> de_doc d \<noteq> None \<and> \<not> de_docError d"

subsection \<open>What the page does\<close>

definition show_toast :: "string \<Rightarrow> editor \<Rightarrow> editor" where
  "show_toast msg d = d\<lparr>de_toasts := de_toasts d @ [msg]\<rparr>"

definition mark_stale :: "stale_query list \<Rightarrow> editor \<Rightarrow> editor" where
  "mark_stale qs d = d\<lparr>de_stale := de_stale d @ qs\<rparr>"

definition lock_say :: "lock_word \<Rightarrow> editor \<Rightarrow> editor" where
  "lock_say w d = d\<lparr>de_lockLog := w # de_lockLog d\<rparr>"

text \<open>State is only set while the component is mounted; references are always.\<close>

definition if_mounted :: "(editor \<Rightarrow> editor) \<Rightarrow> editor \<Rightarrow> editor" where
  "if_mounted f d = (if de_mounted d then f d else d)"

text \<open>The release on leaving, by unloading or unmounting.\<close>

(* src features/docs/DocEditorPage.tsx 164-166 DocEditor *)
definition release_if_acquired :: "editor \<Rightarrow> editor" where
  "release_if_acquired d = (if de_lockAcquired d then lock_say Released d else d)"

(* src features/docs/DocEditorPage.tsx 169-175 DocEditor *)
definition unmount_editor :: "editor \<Rightarrow> editor" where
  "unmount_editor d = (if de_mounted d then release_if_acquired (d\<lparr>de_mounted := False\<rparr>) else d)"

abbreviation turned_away :: "editor \<Rightarrow> bool" where
  "turned_away d \<equiv> ''/docs/:docId'' \<in> set (de_navigations d)"

(* src features/docs/DocEditorPage.tsx 178-184 save *)
definition send_save :: "string \<Rightarrow> editor \<Rightarrow> editor" where
  "send_save content d = d\<lparr>de_saving := Some content, de_saves := de_saves d @
     [\<lparr>ds_content = content, ds_baseVersion = de_baseVersion d, ds_trigger = save_trigger (de_provenance d),
       ds_locked = lock_held_by (de_lockLog d), ds_left = turned_away d\<rparr>]\<rparr>"

(* src features/docs/DocEditorPage.tsx 405-406 DocEditor *)
definition press_save :: "editor \<Rightarrow> editor" where
  "press_save d = (if dirty d \<and> de_saving d = None \<and> canEdit d then send_save (from_opt [] (de_draft d)) d else d)"

(* src features/docs/DocEditorPage.tsx 187-193 save *)
definition take_saved :: "bool \<Rightarrow> doc_page \<Rightarrow> editor \<Rightarrow> editor" where
  "take_saved editedMeanwhile updated = if_mounted (\<lambda>d. d\<lparr>
     de_draft := (if editedMeanwhile then de_draft d else Some (dp_content updated)),
     de_baseContent := Some (dp_content updated), de_linkWarnings := from_opt [] (dp_linkWarnings updated),
     de_baseVersion := Some (dp_currentVersion updated)\<rparr>)"

(* src features/docs/DocEditorPage.tsx 194-197 save *)
definition release_saved :: "editor \<Rightarrow> editor" where
  "release_saved d = (if de_lockAcquired d then (lock_say Released d)\<lparr>de_lockAcquired := False\<rparr> else d)"

text \<open>The editor is left when nothing was typed meanwhile and no link is in doubt.\<close>

(* src features/docs/DocEditorPage.tsx 185-206 save *)
definition saved :: "string \<Rightarrow> doc_page \<Rightarrow> editor \<Rightarrow> editor" where
  "saved sent updated d =
     (let editedMeanwhile = (de_draft d \<noteq> Some sent);
          leave = (from_opt [] (dp_linkWarnings updated) = [] \<and> \<not> editedMeanwhile);
          d1 = take_saved editedMeanwhile updated d;
          d2 = (if leave then release_saved d1 else d1);
          d3 = show_toast ''docs.editor.saved'' (mark_stale [Stale_doc, Stale_versions, Stale_tree, Stale_backlinks] d2)
      in if leave then d3\<lparr>de_navigations := de_navigations d3 @ [''/docs/:docId'']\<rparr> else d3)"

(* src features/docs/DocEditorPage.tsx 207-217 save *)
definition save_failed :: "nat option \<Rightarrow> editor \<Rightarrow> editor" where
  "save_failed status d =
     (if status = Some 409 then show_toast ''docs.editor.saveConflict'' (mark_stale [Stale_doc] d) else show_toast ''docs.editor.saveError'' d)"

(* src features/docs/DocEditorPage.tsx 178-218 save *)
definition save_answered :: "save_answer \<Rightarrow> editor \<Rightarrow> editor" where
  "save_answered a d = (case de_saving d of None \<Rightarrow> d
     | Some sent \<Rightarrow> (let d' = d\<lparr>de_saving := None\<rparr>
         in case a of Saved updated \<Rightarrow> saved sent updated d' | Save_failed status \<Rightarrow> save_failed status d'))"

(* src features/docs/DocEditorPage.tsx 232-233 acquireLock *)
definition ask_lock :: "editor \<Rightarrow> editor" where
  "ask_lock d = lock_say Asked (d\<lparr>de_lockCalls := Suc (de_lockCalls d), de_lockInFlight := de_lockInFlight d @ [Suc (de_lockCalls d)]\<rparr>)"

(* src features/docs/DocEditorPage.tsx 234-242 acquireLock *)
definition lock_granted :: "editor \<Rightarrow> editor" where
  "lock_granted d =
     (let d' = lock_say Granted d
      in if \<not> de_mounted d then lock_say Released d'
         else d'\<lparr>de_docLock := None, de_lockAcquired := True, de_lockHeld := True\<rparr>)"

text \<open>A conflict says that somebody else holds the lock; another failure says nothing about it.\<close>

(* src features/docs/DocEditorPage.tsx 243-251 acquireLock *)
definition lock_refused :: "nat option \<Rightarrow> doc_lock option \<Rightarrow> editor \<Rightarrow> editor" where
  "lock_refused status holder d =
     (let d1 = (if_mounted (\<lambda>d. d\<lparr>de_lockHeld := False\<rparr>) d)\<lparr>de_lockAcquired := False\<rparr>;
          d2 = (if status = Some 409
            then (let d' = lock_say Refused d1
              in case holder of
                   Some l \<Rightarrow> if lock_userId l \<noteq> [] \<and> lock_expiresAt l \<noteq> [] then d'\<lparr>de_docLock := Some l\<rparr> else d'
                 | None \<Rightarrow> d')
            else d1)
      in show_toast ''docs.editor.lockError'' d2)"

(* src features/docs/DocEditorPage.tsx 232-252 acquireLock *)
definition lock_answered :: "nat \<Rightarrow> lock_answer \<Rightarrow> editor \<Rightarrow> editor" where
  "lock_answered call a d =
     (if call \<notin> set (de_lockInFlight d) then d
      else (let d' = d\<lparr>de_lockInFlight := remove1 call (de_lockInFlight d)\<rparr>
        in case a of Lock_granted \<Rightarrow> lock_granted d' | Lock_refused status holder \<Rightarrow> lock_refused status holder d'))"

text \<open>The effect that watches the result of the suggestion, run when what it depends on changed.\<close>

(* src features/docs/DocEditorPage.tsx 260-267 DocEditor *)
definition watch_ai :: "editor \<Rightarrow> editor \<Rightarrow> editor" where
  "watch_ai before d =
     (let key = (\<lambda>d. (de_requestId d, map_option ai_status (ai_result d), Option.bind (ai_result d) ai_fullContent))
      in if de_mounted d \<and> key d \<noteq> key before \<and> de_requestId d \<noteq> None \<and> de_requestId d \<noteq> Some [] \<and> ai_final d \<and> suggestion d = None
         then show_toast ''docs.editor.aiError'' d else d)"

text \<open>The timer runs while an asked suggestion has no final result.\<close>

(* src features/docs/DocEditorPage.tsx 268-274 DocEditor *)
definition ai_timer :: "editor \<Rightarrow> editor" where
  "ai_timer d = (if de_mounted d \<and> de_requestId d \<noteq> None \<and> de_requestId d \<noteq> Some [] \<and> \<not> ai_final d
     then show_toast ''docs.editor.aiTimeout'' (d\<lparr>de_requestId := None\<rparr>) else d)"

(* src features/docs/DocEditorPage.tsx 220-225 suggest *)
definition press_suggest :: "editor \<Rightarrow> editor" where
  "press_suggest d = (if aiPending d \<or> \<not> canEdit d then d
     else d\<lparr>de_requestId := None, de_suggesting := True, de_suggestions := Suc (de_suggestions d)\<rparr>)"

(* src features/docs/DocEditorPage.tsx 223-224 suggest *)
definition suggest_answered :: "string option \<Rightarrow> editor \<Rightarrow> editor" where
  "suggest_answered a d = (if \<not> de_suggesting d then d
     else case a of
       Some i \<Rightarrow> watch_ai d (if_mounted (\<lambda>d. d\<lparr>de_requestId := Some i\<rparr>) (d\<lparr>de_suggesting := False\<rparr>))
     | None \<Rightarrow> show_toast ''docs.editor.aiError'' (d\<lparr>de_suggesting := False\<rparr>))"

(* src features/docs/DocEditorPage.tsx 493-498 DocEditor *)
definition accept_suggestion :: "editor \<Rightarrow> editor" where
  "accept_suggestion d = (case suggestion d of
       Some s \<Rightarrow> if canEdit d then show_toast ''docs.editor.aiAccepted'' (d\<lparr>de_draft := Some s, de_provenance := Ai_draft, de_requestId := None\<rparr>) else d
     | None \<Rightarrow> d)"

(* src features/docs/DocEditorPage.tsx 394-398 DocEditor *)
definition discard :: "editor \<Rightarrow> editor" where
  "discard d = (if dirty d \<and> de_saving d = None then d\<lparr>de_draft := de_baseContent d, de_provenance := By_hand\<rparr> else d)"

(* src features/docs/DocEditorPage.tsx 439-445 DocEditor *)
definition load_latest :: "editor \<Rightarrow> editor" where
  "load_latest d = (case de_doc d of
       Some p \<Rightarrow> if newerAvailable d
         then d\<lparr>de_draft := Some (dp_content p), de_baseVersion := Some (dp_currentVersion p), de_baseContent := Some (dp_content p),
           de_requestId := None, de_provenance := By_hand\<rparr> else d
     | None \<Rightarrow> d)"

subsection \<open>The machine\<close>

text \<open>
  \<open>Doc_read\<close> and \<open>Lock_seen\<close> bring what the query cache and the live store hold at any time; \<open>Typed\<close> is a
  change that the text area reports. The timers fire as \<open>Heartbeat\<close> and \<open>Ai_timer\<close>. \<open>Unload\<close> is the
  browser's event before a page goes, which may be cancelled by the user; \<open>Unmount\<close> leaves the page.
\<close>

datatype editor_event = Doc_read doc_page | Doc_read_failed | Lock_seen "doc_lock option" | Me_known "string option" "string option" "connector_role list option"
  | Start_editing | Heartbeat | Lock_answer nat lock_answer | Typed string | Press_save | Save_answer save_answer | Press_discard
  | Press_load_latest | Press_suggest | Suggest_answer "string option" | Ai_arrived doc_ai_payload | Ai_timer | Press_reject | Press_accept
  | Press_delete | Close_delete | Confirm_delete | Delete_answer bool | Unload | Unmount

text \<open>The buttons and the text area are there while the page is shown.\<close>

(* src features/docs/DocEditorPage.tsx 360-410 DocEditor *)
fun editor_click :: "editor_event \<Rightarrow> editor \<Rightarrow> editor" where
  "editor_click Start_editing d = (if editor_canMutate d \<and> \<not> de_lockHeld d \<and> \<not> lock_pending d then ask_lock d else d)"
| "editor_click (Typed v) d = (if canEdit d then d\<lparr>de_draft := Some v\<rparr> else d)"
| "editor_click Press_save d = press_save d"
| "editor_click Press_discard d = discard d"
| "editor_click Press_load_latest d = load_latest d"
| "editor_click Press_suggest d = press_suggest d"
| "editor_click Press_reject d = (if suggestion d \<noteq> None then d\<lparr>de_requestId := None\<rparr> else d)"
| "editor_click Press_accept d = accept_suggestion d"
| "editor_click Press_delete d = (if editor_canMutate d then d\<lparr>de_deleteOpen := True\<rparr> else d)"
| "editor_click Close_delete d = d\<lparr>de_deleteOpen := False\<rparr>"
| "editor_click Confirm_delete d = (if de_deleteOpen d \<and> \<not> de_removing d then d\<lparr>de_removing := True\<rparr> else d)"
| "editor_click _ d = d"

(* src features/docs/DocEditorPage.tsx 96-104 remove *)
definition delete_answered :: "bool \<Rightarrow> editor \<Rightarrow> editor" where
  "delete_answered ok d = (if \<not> de_removing d then d
     else let d' = d\<lparr>de_removing := False\<rparr>
       in if ok then (mark_stale [Stale_all] d')\<lparr>de_navigations := de_navigations d' @ [''/docs'']\<rparr>
          else show_toast ''docs.human.deleteError'' d')"

(* src features/docs/DocEditorPage.tsx 157-176 DocEditor *)
fun editor_step :: "editor_event \<Rightarrow> editor \<Rightarrow> editor" where
  "editor_step (Doc_read p) d = if_mounted (\<lambda>d. seed (d\<lparr>de_doc := Some p, de_docError := False\<rparr>)) d"
| "editor_step Doc_read_failed d = d\<lparr>de_docError := True\<rparr>"
| "editor_step (Lock_seen l) d = d\<lparr>de_docLock := l\<rparr>"
| "editor_step (Me_known me role conns) d = d\<lparr>de_me := me, de_myRole := role, de_connectors := conns\<rparr>"
| "editor_step Heartbeat d = (if de_mounted d \<and> de_lockHeld d then ask_lock d else d)"
| "editor_step (Lock_answer call a) d = lock_answered call a d"
| "editor_step (Save_answer a) d = save_answered a d"
| "editor_step (Suggest_answer a) d = suggest_answered a d"
| "editor_step (Ai_arrived p) d = watch_ai d (d\<lparr>de_aiResults := (de_aiResults d)(ai_requestId p \<mapsto> p)\<rparr>)"
| "editor_step Ai_timer d = ai_timer d"
| "editor_step (Delete_answer ok) d = delete_answered ok d"
| "editor_step Unload d = (if de_mounted d then release_if_acquired d else d)"
| "editor_step Unmount d = unmount_editor d"
| "editor_step e d = (if page_shown d then editor_click e d else d)"

abbreviation editor_run :: "editor_event list \<Rightarrow> editor" where
  "editor_run es \<equiv> fold editor_step es editor_init"

lemmas editor_ops = show_toast_def mark_stale_def lock_say_def if_mounted_def release_if_acquired_def unmount_editor_def send_save_def press_save_def take_saved_def release_saved_def saved_def
  save_failed_def save_answered_def ask_lock_def lock_granted_def lock_refused_def lock_answered_def watch_ai_def ai_timer_def
  press_suggest_def suggest_answered_def accept_suggestion_def discard_def load_latest_def delete_answered_def seed_def

subsection \<open>What was typed is kept, and what a save is based on\<close>

text \<open>The contents and versions the server has sent: by a read, or in answer to a save.\<close>

fun served :: "editor_event \<Rightarrow> (string \<times> int) set" where
  "served (Doc_read p) = {(dp_content p, dp_currentVersion p)}"
| "served (Save_answer (Saved p)) = {(dp_content p, dp_currentVersion p)}"
| "served _ = {}"

definition based_on :: "(string \<times> int) set \<Rightarrow> doc_save \<Rightarrow> bool" where
  "based_on known s \<longleftrightarrow> (\<exists>c v. ds_baseVersion s = Some v \<and> (c, v) \<in> known \<and> ds_content s \<noteq> c)"

definition basis_ok :: "(string \<times> int) set \<Rightarrow> editor \<Rightarrow> bool" where
  "basis_ok known d \<longleftrightarrow> (de_seeded d \<longrightarrow> (\<exists>c v. de_baseContent d = Some c \<and> de_baseVersion d = Some v \<and> (c, v) \<in> known))
     \<and> (de_draft d \<noteq> None \<longrightarrow> de_seeded d) \<and> (de_doc d \<noteq> None \<longrightarrow> de_seeded d)
     \<and> (\<forall>v. de_saving d = Some v \<longrightarrow> de_seeded d \<and> v \<in> ds_content ` set (de_saves d))
     \<and> (\<forall>p. de_doc d = Some p \<longrightarrow> (dp_content p, dp_currentVersion p) \<in> known)
     \<and> (\<forall>s \<in> set (de_saves d). based_on known s)"

lemma based_on_mono: "based_on known s \<Longrightarrow> known \<subseteq> known' \<Longrightarrow> based_on known' s"
  unfolding based_on_def by blast

lemma basis_ok_mono: "basis_ok known d \<Longrightarrow> known \<subseteq> known' \<Longrightarrow> basis_ok known' d"
  unfolding basis_ok_def by (meson based_on_mono subsetD)

lemma basis_ok_grow: "basis_ok known d \<Longrightarrow> basis_ok (known \<union> new) d"
  by (erule basis_ok_mono) (rule Un_upper1)

text \<open>Steps that leave the document, the draft, the base and the saves alone.\<close>

definition core :: "editor \<Rightarrow> doc_page option \<times> bool \<times> string option \<times> string option \<times> int option \<times> string option \<times> doc_save list" where
  "core d = (de_doc d, de_seeded d, de_draft d, de_baseContent d, de_baseVersion d, de_saving d, de_saves d)"

lemma basis_ok_core: "basis_ok known d \<Longrightarrow> core d' = core d \<Longrightarrow> basis_ok known d'"
  unfolding basis_ok_def core_def by simp

fun touches_core :: "editor_event \<Rightarrow> bool" where
  "touches_core (Doc_read _) = True"
| "touches_core (Typed _) = True"
| "touches_core Press_save = True"
| "touches_core (Save_answer _) = True"
| "touches_core Press_discard = True"
| "touches_core Press_load_latest = True"
| "touches_core Press_accept = True"
| "touches_core _ = False"

lemma core_update [simp]:
  "core (d\<lparr>de_docError := x0\<rparr>) = core d" "core (d\<lparr>de_docLock := x1\<rparr>) = core d"
  "core (d\<lparr>de_me := x2\<rparr>) = core d" "core (d\<lparr>de_myRole := x3\<rparr>) = core d"
  "core (d\<lparr>de_connectors := x4\<rparr>) = core d" "core (d\<lparr>de_provenance := x5\<rparr>) = core d"
  "core (d\<lparr>de_requestId := x6\<rparr>) = core d" "core (d\<lparr>de_aiResults := x7\<rparr>) = core d"
  "core (d\<lparr>de_lockHeld := x8\<rparr>) = core d" "core (d\<lparr>de_linkWarnings := x9\<rparr>) = core d"
  "core (d\<lparr>de_lockAcquired := x10\<rparr>) = core d" "core (d\<lparr>de_mounted := x11\<rparr>) = core d"
  "core (d\<lparr>de_deleteOpen := x12\<rparr>) = core d" "core (d\<lparr>de_removing := x13\<rparr>) = core d"
  "core (d\<lparr>de_suggesting := x14\<rparr>) = core d" "core (d\<lparr>de_lockCalls := x15\<rparr>) = core d"
  "core (d\<lparr>de_lockInFlight := x16\<rparr>) = core d" "core (d\<lparr>de_toasts := x17\<rparr>) = core d"
  "core (d\<lparr>de_stale := x18\<rparr>) = core d" "core (d\<lparr>de_navigations := x19\<rparr>) = core d"
  "core (d\<lparr>de_lockLog := x20\<rparr>) = core d" "core (d\<lparr>de_suggestions := x21\<rparr>) = core d"
  by (simp_all add: core_def)

lemma core_ops [simp]: "core (show_toast m d) = core d" "core (mark_stale q d) = core d" "core (lock_say w d) = core d"
  "core (release_if_acquired d) = core d" "core (unmount_editor d) = core d" "core (ask_lock d) = core d"
  "core (lock_granted d) = core d" "core (watch_ai b d) = core d" "core (ai_timer d) = core d" "core (press_suggest d) = core d"
  by (simp_all add: editor_ops Let_def)

lemma core_answers [simp]: "core (lock_refused st h d) = core d" "core (lock_answered call a d) = core d"
  "core (delete_answered a1 d) = core d" "core (suggest_answered a2 d) = core d"
proof -
  show refused: "core (lock_refused st h d) = core d" for st h d
    by (simp add: lock_refused_def if_mounted_def Let_def split: option.split)
  show "core (lock_answered call a d) = core d"
    by (simp add: lock_answered_def refused Let_def split: lock_answer.split)
  show "core (delete_answered a1 d) = core d" by (simp add: delete_answered_def Let_def)
  show "core (suggest_answered a2 d) = core d" by (simp add: suggest_answered_def if_mounted_def split: option.split)
qed

lemma core_step: "\<not> touches_core e \<Longrightarrow> core (editor_step e d) = core d"
  by (cases e) simp_all

text \<open>Unless the user changes it, the draft stays, or a save of just that text was answered.\<close>

fun user_change :: "editor_event \<Rightarrow> bool" where
  "user_change (Typed _) = True"
| "user_change Press_discard = True"
| "user_change Press_load_latest = True"
| "user_change Press_accept = True"
| "user_change _ = False"

lemma core_saved [simp]: "core (saved sent u d) = core (take_saved (de_draft d \<noteq> Some sent) u d)"
  by (simp add: saved_def release_saved_def Let_def)

lemma core_save_failed [simp]: "core (save_failed st d) = core d"
  by (simp add: save_failed_def)

lemma core_take_saved: "core (take_saved edited u d) = (if de_mounted d
     then (de_doc d, de_seeded d, if edited then de_draft d else Some (dp_content u), Some (dp_content u), Some (dp_currentVersion u), de_saving d, de_saves d)
     else core d)"
  by (simp add: take_saved_def if_mounted_def core_def)

lemma core_eqD: "core d' = core d \<Longrightarrow> de_draft d' = de_draft d"
  by (simp add: core_def)

lemma saved_draft: "de_draft (saved sent u d) = (if de_mounted d \<and> de_draft d = Some sent then Some (dp_content u) else de_draft d)"
  using core_eqD [OF core_saved, of sent u d] by (simp add: take_saved_def if_mounted_def)

lemma draft_step:
  assumes "\<not> user_change e" "de_draft d = Some v" "de_seeded d"
  shows "de_draft (editor_step e d) = Some v \<or> (\<exists>u. e = Save_answer (Saved u)) \<and> de_saving d = Some v"
proof (cases "touches_core e")
  case False
  then have "core (editor_step e d) = core d" by (rule core_step)
  then show ?thesis using assms by (simp add: core_def)
next
  case True
  then show ?thesis
  proof (cases e)
    case (Doc_read p)
    then show ?thesis using assms by (simp add: if_mounted_def seed_def)
  next
    case Press_save
    then show ?thesis using assms by (simp add: press_save_def send_save_def)
  next
    case (Save_answer a)
    then show ?thesis using assms core_eqD [OF core_save_failed]
      by (cases a) (auto simp: save_answered_def saved_draft Let_def split: option.split)
  qed (use assms in simp_all)
qed

lemma basis_read:
  assumes "basis_ok known d"
  shows "basis_ok (known \<union> served (Doc_read p)) (editor_step (Doc_read p) d)"
proof -
  have "basis_ok (known \<union> served (Doc_read p)) d" by (rule basis_ok_grow [OF assms])
  then show ?thesis by (cases "de_mounted d"; cases "de_seeded d") (auto simp: if_mounted_def seed_def basis_ok_def)
qed

lemma basis_send:
  assumes ok: "basis_ok known d" and "dirty d"
  shows "basis_ok known (send_save (from_opt [] (de_draft d)) d)"
proof -
  obtain t c v where "de_draft d = Some t" "de_baseContent d = Some c" "de_baseVersion d = Some v" "(c, v) \<in> known" "t \<noteq> c" "de_seeded d"
    using assms unfolding dirty_def basis_ok_def by auto
  then show ?thesis using ok by (auto simp: basis_ok_def send_save_def based_on_def)
qed

lemma basis_saved:
  assumes "basis_ok known d" "de_seeded d"
  shows "basis_ok (known \<union> {(dp_content u, dp_currentVersion u)}) (saved sent u d)"
proof (rule basis_ok_core [OF _ core_saved])
  have "basis_ok (known \<union> {(dp_content u, dp_currentVersion u)}) d" by (rule basis_ok_grow [OF assms(1)])
  then show "basis_ok (known \<union> {(dp_content u, dp_currentVersion u)}) (take_saved (de_draft d \<noteq> Some sent) u d)"
    using assms(2) by (simp add: take_saved_def if_mounted_def basis_ok_def)
qed

lemma basis_save_answer:
  assumes "basis_ok known d"
  shows "basis_ok (known \<union> served (Save_answer a)) (editor_step (Save_answer a) d)"
proof (cases "de_saving d")
  case None
  then show ?thesis using basis_ok_grow [OF assms] by (simp add: save_answered_def)
next
  case (Some sent)
  let ?d = "d\<lparr>de_saving := None\<rparr>"
  have ok: "basis_ok known ?d" "de_seeded ?d" using assms Some by (auto simp: basis_ok_def)
  show ?thesis
  proof (cases a)
    case (Saved u)
    with Some show ?thesis using basis_saved [OF ok] by (simp add: save_answered_def)
  next
    case (Save_failed st)
    with Some show ?thesis using basis_ok_core [OF ok(1) core_save_failed] by (simp add: save_answered_def Let_def)
  qed
qed

lemma accept_core:
  "accept_suggestion d = d \<or> (\<exists>s. core (accept_suggestion d) = core (d\<lparr>de_draft := Some s\<rparr>)) \<and> de_lockHeld d"
  by (auto simp: accept_suggestion_def canEdit_def core_def show_toast_def split: option.split)

lemma basis_clicks:
  assumes ok: "basis_ok known d" and shown: "page_shown d"
  shows "basis_ok known (editor_click Press_save d)" "basis_ok known (editor_click (Typed v) d)"
    "basis_ok known (editor_click Press_discard d)" "basis_ok known (editor_click Press_load_latest d)"
    "basis_ok known (editor_click Press_accept d)"
proof -
  have seeded: "de_seeded d" using ok shown by (simp add: basis_ok_def page_shown_def)
  have draft: "basis_ok known (d\<lparr>de_draft := x\<rparr>)" for x using ok seeded by (simp add: basis_ok_def)
  show "basis_ok known (editor_click Press_save d)" using ok basis_send [OF ok] by (simp add: press_save_def)
  show "basis_ok known (editor_click (Typed v) d)" using ok draft by simp
  show "basis_ok known (editor_click Press_discard d)" using ok basis_ok_core [OF draft] by (simp add: discard_def)
  show "basis_ok known (editor_click Press_load_latest d)"
    using ok seeded by (auto simp: load_latest_def basis_ok_def split: option.split)
  show "basis_ok known (editor_click Press_accept d)"
    using accept_core [of d] ok basis_ok_core [OF draft] by auto
qed

lemma basis_step: "basis_ok known d \<Longrightarrow> basis_ok (known \<union> served e) (editor_step e d)"
proof (cases "touches_core e")
  case False
  assume "basis_ok known d"
  then have "basis_ok (known \<union> served e) d" by (rule basis_ok_grow)
  then show ?thesis by (rule basis_ok_core [OF _ core_step [OF False]])
next
  case True
  assume ok: "basis_ok known d"
  with True show ?thesis
  proof (cases e)
    case (Doc_read p)
    then show ?thesis using basis_read [OF ok] by simp
  next
    case (Save_answer a)
    then show ?thesis using basis_save_answer [OF ok] by simp
  qed (use ok basis_clicks [OF ok] in simp_all)
qed

lemma basis_start: "basis_ok {} editor_init"
  by (simp add: basis_ok_def editor_init_def)

interpretation based_editor: informed_machine editor_step served basis_ok editor_init
  by unfold_locales (rule basis_step, assumption, rule basis_start)

lemma saves_grow: "set (de_saves d) \<subseteq> set (de_saves (editor_step e d))"
proof (cases "touches_core e")
  case False
  then show ?thesis using core_step [OF False, of d] by (simp add: core_def)
next
  case True
  have core_saves: "de_saves d' = de_saves d" if "core d' = core d" for d d' using that by (simp add: core_def)
  have "de_saves (saved sent u d) = de_saves d" for sent u d
    using core_saves [OF core_saved] by (simp add: take_saved_def if_mounted_def)
  moreover have "de_saves (accept_suggestion d) = de_saves d"
    using accept_core [of d] by (auto simp: core_def)
  ultimately show ?thesis using True core_saves [OF core_save_failed]
    by (cases e) (auto simp: if_mounted_def seed_def press_save_def send_save_def discard_def load_latest_def save_answered_def Let_def
        split: option.split save_answer.split)
qed

text \<open>
  Claim C11. What was typed is not lost: as long as the user does not type on, discard, load the latest version or accept
  a suggestion, the draft stays as it is, whatever is read, refused, pushed or timed out meanwhile;
  the one thing that replaces it is the answer to a save of exactly this text.
\<close>

theorem typed_kept:
  assumes "de_draft (editor_run before) = Some v" "list_all (\<lambda>e. \<not> user_change e) after"
  shows "de_draft (editor_run (before @ after)) = Some v
    \<or> (\<exists>u. Save_answer (Saved u) \<in> set after) \<and> v \<in> ds_content ` set (de_saves (editor_run (before @ after)))"
  using assms(2)
proof (induction after rule: rev_induct)
  case Nil
  then show ?case using assms(1) by simp
next
  case (snoc e after)
  let ?d = "editor_run (before @ after)"
  have ok: "basis_ok (\<Union> (served ` set (before @ after))) ?d" by (rule based_editor.informed_run)
  show ?case
  proof (cases "de_draft ?d = Some v")
    case True
    with ok have "de_seeded ?d" "de_saving ?d = Some v \<Longrightarrow> v \<in> ds_content ` set (de_saves ?d)" by (auto simp: basis_ok_def)
    with True snoc.prems show ?thesis using draft_step [of e ?d v] saves_grow [of ?d e] by auto
  next
    case False
    with snoc show ?thesis using saves_grow [of ?d e] by auto
  qed
qed

text \<open>
  Every save can be checked for conflicts: it names a version whose content the server has sent, in a read or in the
  answer to an earlier save, and what it sends differs from that content.
\<close>

theorem saves_based: "list_all (based_on (\<Union> (served ` set es))) (de_saves (editor_run es))"
proof -
  have "basis_ok (\<Union> (served ` set es)) (editor_run es)" by (rule based_editor.informed_run)
  then show ?thesis by (simp add: basis_ok_def list_all_iff)
qed

subsection \<open>The lock is held while editing and given back\<close>

text \<open>A request for the lock that fails without the server saying that somebody else holds it.\<close>

fun lock_lost :: "editor_event \<Rightarrow> bool" where
  "lock_lost (Lock_answer call (Lock_refused status holder)) = (status \<noteq> Some 409)"
| "lock_lost _ = False"

definition lock_view :: "editor \<Rightarrow> lock_word list \<times> bool \<times> bool \<times> bool \<times> string list \<times> doc_save list" where
  "lock_view d = (de_lockLog d, de_mounted d, de_lockAcquired d, de_lockHeld d, de_navigations d, de_saves d)"

text \<open>What the client was granted and has not released, it remembers while the page is there.\<close>

definition lock_known :: "editor \<Rightarrow> bool" where
  "lock_known d \<longleftrightarrow> (lock_held_by (de_lockLog d) \<longrightarrow> de_mounted d \<and> de_lockAcquired d)"

text \<open>What it believes to hold, it holds, unless it has saved and is about to leave.\<close>

definition lock_believed :: "editor \<Rightarrow> bool" where
  "lock_believed d \<longleftrightarrow> (de_mounted d \<and> de_lockAcquired d \<longrightarrow> lock_held_by (de_lockLog d))
     \<and> (de_mounted d \<and> de_lockHeld d \<longrightarrow> de_lockAcquired d \<or> turned_away d)
     \<and> list_all (\<lambda>s. ds_locked s \<or> ds_left s) (de_saves d)"

lemma lock_view_kept:
  assumes "lock_view d' = lock_view d"
  shows "lock_known d \<Longrightarrow> lock_known d'" "lock_believed d \<Longrightarrow> lock_believed d'"
  using assms by (simp_all add: lock_view_def lock_known_def lock_believed_def)

fun touches_lock :: "editor_event \<Rightarrow> bool" where
  "touches_lock Start_editing = True"
| "touches_lock Heartbeat = True"
| "touches_lock (Lock_answer _ _) = True"
| "touches_lock (Save_answer _) = True"
| "touches_lock Press_save = True"
| "touches_lock (Delete_answer _) = True"
| "touches_lock Unload = True"
| "touches_lock Unmount = True"
| "touches_lock _ = False"

lemma lock_view_update [simp]:
  "lock_view (d\<lparr>de_doc := x0\<rparr>) = lock_view d" "lock_view (d\<lparr>de_docError := x1\<rparr>) = lock_view d"
  "lock_view (d\<lparr>de_docLock := x2\<rparr>) = lock_view d" "lock_view (d\<lparr>de_me := x3\<rparr>) = lock_view d"
  "lock_view (d\<lparr>de_myRole := x4\<rparr>) = lock_view d" "lock_view (d\<lparr>de_connectors := x5\<rparr>) = lock_view d"
  "lock_view (d\<lparr>de_draft := x6\<rparr>) = lock_view d" "lock_view (d\<lparr>de_provenance := x7\<rparr>) = lock_view d"
  "lock_view (d\<lparr>de_requestId := x8\<rparr>) = lock_view d" "lock_view (d\<lparr>de_aiResults := x9\<rparr>) = lock_view d"
  "lock_view (d\<lparr>de_baseContent := x10\<rparr>) = lock_view d" "lock_view (d\<lparr>de_baseVersion := x11\<rparr>) = lock_view d"
  "lock_view (d\<lparr>de_linkWarnings := x12\<rparr>) = lock_view d" "lock_view (d\<lparr>de_seeded := x13\<rparr>) = lock_view d"
  "lock_view (d\<lparr>de_deleteOpen := x14\<rparr>) = lock_view d" "lock_view (d\<lparr>de_removing := x15\<rparr>) = lock_view d"
  "lock_view (d\<lparr>de_saving := x16\<rparr>) = lock_view d" "lock_view (d\<lparr>de_suggesting := x17\<rparr>) = lock_view d"
  "lock_view (d\<lparr>de_lockCalls := x18\<rparr>) = lock_view d" "lock_view (d\<lparr>de_lockInFlight := x19\<rparr>) = lock_view d"
  "lock_view (d\<lparr>de_toasts := x20\<rparr>) = lock_view d" "lock_view (d\<lparr>de_stale := x21\<rparr>) = lock_view d"
  "lock_view (d\<lparr>de_suggestions := x22\<rparr>) = lock_view d"
  by (simp_all add: lock_view_def)

lemma lock_view_ops [simp]: "lock_view (show_toast m d) = lock_view d" "lock_view (mark_stale q d) = lock_view d"
  "lock_view (watch_ai b d) = lock_view d" "lock_view (ai_timer d) = lock_view d" "lock_view (press_suggest d) = lock_view d"
  "lock_view (discard d) = lock_view d" "lock_view (load_latest d) = lock_view d" "lock_view (accept_suggestion d) = lock_view d"
  "lock_view (seed d) = lock_view d" "lock_view (suggest_answered a d) = lock_view d" "lock_view (save_failed st d) = lock_view d"
  "lock_view (take_saved edited u d) = lock_view d"
  by (simp_all add: editor_ops Let_def split: option.split)

lemma lock_view_step: "\<not> touches_lock e \<Longrightarrow> lock_view (editor_step e d) = lock_view d"
  by (cases e) (simp_all add: if_mounted_def)

lemma lock_release_saved:
  "lock_known d \<Longrightarrow> lock_known (release_saved d)"
  "lock_believed d \<Longrightarrow> lock_believed ((release_saved d)\<lparr>de_navigations := ns @ [''/docs/:docId'']\<rparr>)"
  by (auto simp: release_saved_def lock_known_def lock_believed_def lock_say_def)

lemma lock_known_navigate [simp]: "lock_known (d\<lparr>de_navigations := ns\<rparr>) = lock_known d"
  "lock_known (show_toast m d) = lock_known d" "lock_known (mark_stale q d) = lock_known d"
  by (simp_all add: lock_known_def show_toast_def mark_stale_def)

lemma lock_after_save:
  shows "lock_known d \<Longrightarrow> lock_known (saved sent u d)" and "lock_believed d \<Longrightarrow> lock_believed (saved sent u d)"
proof -
  let ?d1 = "take_saved (de_draft d \<noteq> Some sent) u d"
  define leave where "leave = (from_opt [] (dp_linkWarnings u) = [] \<and> de_draft d = Some sent)"
  have out: "saved sent u d = (let d3 = show_toast ''docs.editor.saved'' (mark_stale [Stale_doc, Stale_versions, Stale_tree, Stale_backlinks]
        (if leave then release_saved ?d1 else ?d1)) in if leave then d3\<lparr>de_navigations := de_navigations d3 @ [''/docs/:docId'']\<rparr> else d3)"
    by (simp add: saved_def leave_def Let_def)
  have d1: "lock_view ?d1 = lock_view d" by simp
  show "lock_known (saved sent u d)" if "lock_known d"
  proof -
    have "lock_known ?d1" using lock_view_kept(1) [OF d1 that] .
    then show ?thesis using lock_release_saved(1) [of ?d1] unfolding out Let_def by (cases leave) simp_all
  qed
  show "lock_believed (saved sent u d)" if "lock_believed d"
  proof -
    have ok: "lock_believed ?d1" using lock_view_kept(2) [OF d1 that] .
    show ?thesis
    proof (cases leave)
      case True
      have "lock_believed ((release_saved ?d1)\<lparr>de_navigations := de_navigations (release_saved ?d1) @ [''/docs/:docId'']\<rparr>)"
        by (rule lock_release_saved(2) [OF ok])
      then show ?thesis unfolding out Let_def using True by (simp add: lock_believed_def show_toast_def mark_stale_def)
    next
      case False
      then show ?thesis unfolding out Let_def using ok by (simp add: lock_believed_def show_toast_def mark_stale_def)
    qed
  qed
qed

lemma lock_after_save_answer:
  shows "lock_known d \<Longrightarrow> lock_known (save_answered a d)" and "lock_believed d \<Longrightarrow> lock_believed (save_answered a d)"
proof -
  have idle: "lock_view (d\<lparr>de_saving := None\<rparr>) = lock_view d" by simp
  have failed: "lock_view (save_failed st (d\<lparr>de_saving := None\<rparr>)) = lock_view d" for st by simp
  show "lock_known (save_answered a d)" if "lock_known d"
    using that lock_after_save(1) lock_view_kept(1) [OF idle that] lock_view_kept(1) [OF failed that]
    by (cases a) (simp_all add: save_answered_def Let_def split: option.split)
  show "lock_believed (save_answered a d)" if "lock_believed d"
    using that lock_after_save(2) lock_view_kept(2) [OF idle that] lock_view_kept(2) [OF failed that]
    by (cases a) (simp_all add: save_answered_def Let_def split: option.split)
qed

lemma lock_known_granted: "lock_known (lock_granted d)"
  by (simp add: lock_granted_def lock_known_def lock_say_def Let_def)

lemma lock_believed_granted: "lock_believed d \<Longrightarrow> lock_believed (lock_granted d)"
  by (simp add: lock_granted_def lock_believed_def lock_say_def Let_def)

lemma lock_known_refused: "lock_known (lock_refused (Some 409) h d)"
  by (simp add: lock_refused_def lock_known_def lock_say_def show_toast_def if_mounted_def Let_def split: option.split)

lemma lock_believed_refused: "lock_believed d \<Longrightarrow> lock_believed (lock_refused st h d)"
  by (simp add: lock_refused_def lock_believed_def lock_say_def show_toast_def if_mounted_def Let_def split: option.split)

lemma lock_known_answer:
  assumes "lock_known d" "\<not> lock_lost (Lock_answer call a)"
  shows "lock_known (lock_answered call a d)"
  using assms lock_known_granted lock_known_refused by (cases a) (simp_all add: lock_answered_def Let_def)

lemma lock_believed_answer:
  assumes "lock_believed d"
  shows "lock_believed (lock_answered call a d)"
proof -
  have "lock_view (d\<lparr>de_lockInFlight := ns\<rparr>) = lock_view d" for ns by simp
  note this [THEN lock_view_kept(2), OF assms]
  then show ?thesis using assms lock_believed_granted lock_believed_refused by (cases a) (simp_all add: lock_answered_def Let_def)
qed

lemma lock_asked:
  "lock_known d \<Longrightarrow> lock_known (ask_lock d)" "lock_believed d \<Longrightarrow> lock_believed (ask_lock d)"
  by (simp_all add: ask_lock_def lock_say_def lock_known_def lock_believed_def)

lemma lock_other:
  "lock_known d \<Longrightarrow> lock_known (press_save d)" "lock_known d \<Longrightarrow> lock_known (delete_answered b d)"
  "lock_believed d \<Longrightarrow> lock_believed (delete_answered b d)"
  "lock_known d \<Longrightarrow> lock_known (unmount_editor d)" "lock_believed d \<Longrightarrow> lock_believed (unmount_editor d)"
  by (auto simp: editor_ops Let_def lock_known_def lock_believed_def)

lemma lock_sent: "lock_believed d \<Longrightarrow> de_mounted d \<Longrightarrow> lock_believed (press_save d)"
  by (auto simp: press_save_def send_save_def lock_believed_def canEdit_def)

lemma lock_known_step:
  assumes ok: "lock_known d" and "\<not> lock_lost e"
  shows "lock_known (editor_step e d)"
proof (cases "touches_lock e")
  case False
  then show ?thesis using lock_view_kept(1) [OF lock_view_step ok] by simp
next
  case True
  have "lock_known (release_if_acquired d)" using ok by (auto simp: release_if_acquired_def lock_known_def lock_say_def)
  then show ?thesis using True assms lock_asked(1) [OF ok] lock_known_answer [OF ok] lock_after_save_answer(1) [OF ok] lock_other(1,2,4) [OF ok]
    by (cases e) simp_all
qed

lemma lock_believed_step:
  assumes ok: "lock_believed d" and "e \<noteq> Unload"
  shows "lock_believed (editor_step e d)"
proof (cases "touches_lock e")
  case False
  then show ?thesis using lock_view_kept(2) [OF lock_view_step ok] by simp
next
  case True
  then show ?thesis using assms lock_asked(2) [OF ok] lock_believed_answer [OF ok] lock_after_save_answer(2) [OF ok] lock_other(3,5) [OF ok] lock_sent [OF ok]
    by (cases e) (simp_all add: page_shown_def)
qed

interpretation lock_keeper: started_machine editor_step "\<lambda>e. \<not> lock_lost e" lock_known editor_init
  by unfold_locales (simp_all add: lock_known_step, simp add: lock_known_def editor_init_def)

interpretation lock_believer: started_machine editor_step "\<lambda>e. e \<noteq> Unload" lock_believed editor_init
  by unfold_locales (simp_all add: lock_believed_step, simp add: lock_believed_def editor_init_def)

text \<open>
  Claim C12. The lock is given back: when the editor is left, by whatever path and with whatever renewals still under way, the last
  thing the server granted has been released, provided no request for the lock failed without a
  verdict of the server on who holds it.
\<close>

theorem lock_given_back:
  assumes "list_all (\<lambda>e. \<not> lock_lost e) es" "\<not> de_mounted (editor_run es)"
  shows "\<not> lock_held_by (de_lockLog (editor_run es))"
  using lock_keeper.reachable [OF assms(1)] assms(2) by (simp add: lock_known_def)

lemma saves_only_pressed: "de_saves (editor_step e d) \<noteq> de_saves d \<Longrightarrow> page_shown d \<and> canEdit d"
proof (cases "touches_core e")
  case False
  then show "de_saves (editor_step e d) \<noteq> de_saves d \<Longrightarrow> ?thesis" using core_step [OF False, of d] by (simp add: core_def)
next
  case True
  have core_saves: "de_saves d' = de_saves d" if "core d' = core d" for d d' using that by (simp add: core_def)
  have "de_saves (saved sent u d) = de_saves d" for sent u d
    using core_saves [OF core_saved] by (simp add: take_saved_def if_mounted_def)
  moreover have "de_saves (accept_suggestion d) = de_saves d"
    using accept_core [of d] by (auto simp: core_def)
  ultimately show "de_saves (editor_step e d) \<noteq> de_saves d \<Longrightarrow> ?thesis" using True core_saves [OF core_save_failed]
    by (cases e) (auto simp: if_mounted_def seed_def press_save_def discard_def load_latest_def save_answered_def Let_def
        split: option.splits save_answer.splits if_splits)
qed

subsection \<open>The lock has not expired\<close>

text \<open>
  The server drops a lock that is not renewed for five minutes; the page asks for a renewal every 30
  seconds. Seconds pass before each event. \<open>lk_asked\<close> is when a request was made, \<open>lk_beat\<close> when the
  timer last fired or was started, \<open>lk_fresh\<close> when the newest grant arrived, and \<open>lk_until\<close> the time until
  which the server keeps the lock in any case: five minutes after the last request that it granted was
  made, and zero once the lock is given back.
\<close>

(* src /backend/internal/store/doc_lock.go 18-18 DocLockTTL *)
definition DocLockTTL :: nat where "DocLockTTL = 300"

(* src features/docs/DocEditorPage.tsx 255-255 DocEditor *)
definition lock_heartbeat :: nat where "lock_heartbeat = 30"

record lock_clock =
  lk_now :: nat
  lk_asked :: "nat \<Rightarrow> nat"
  lk_beat :: nat
  lk_fresh :: nat
  lk_until :: nat

(* src /backend/internal/store/doc_lock.go 39-53 AcquireDocLock *)
definition server_clock :: "editor_event \<Rightarrow> editor \<Rightarrow> editor \<Rightarrow> lock_clock \<Rightarrow> lock_clock" where
  "server_clock e d d' k =
     (if de_lockLog d' = de_lockLog d then k
      else case (hd (de_lockLog d'), e) of
        (Asked, _) \<Rightarrow> k\<lparr>lk_asked := (lk_asked k)(de_lockCalls d' := lk_now k)\<rparr>
      | (Granted, Lock_answer call a) \<Rightarrow> k\<lparr>lk_fresh := lk_now k, lk_until := max (lk_until k) (lk_asked k call + DocLockTTL)\<rparr>
      | _ \<Rightarrow> k\<lparr>lk_until := 0\<rparr>)"

(* src features/docs/DocEditorPage.tsx 253-257 DocEditor *)
definition timer_clock :: "editor_event \<Rightarrow> editor \<Rightarrow> editor \<Rightarrow> lock_clock \<Rightarrow> lock_clock" where
  "timer_clock e d d' k = (if e = Heartbeat \<or> de_lockHeld d' \<and> \<not> de_lockHeld d then k\<lparr>lk_beat := lk_now k\<rparr> else k)"

definition timed_step :: "nat \<times> editor_event \<Rightarrow> editor \<times> lock_clock \<Rightarrow> editor \<times> lock_clock" where
  "timed_step = (\<lambda>(wait, e) (d, k). let d' = editor_step e d
     in (d', timer_clock e d d' (server_clock e d d' (k\<lparr>lk_now := lk_now k + wait\<rparr>))))"

definition clock_init :: lock_clock where
  "clock_init = \<lparr>lk_now = 0, lk_asked = (\<lambda>n. 0), lk_beat = 0, lk_fresh = 0, lk_until = 0\<rparr>"

abbreviation timed_run :: "(nat \<times> editor_event) list \<Rightarrow> editor \<times> lock_clock" where
  "timed_run es \<equiv> fold timed_step es (editor_init, clock_init)"

text \<open>
  What is relied on: while the page runs the timer it fires every 30 seconds, and a request for the
  lock that is granted is answered within four minutes. A computer that sleeps keeps neither.
\<close>

definition on_time :: "editor \<times> lock_clock \<Rightarrow> nat \<times> editor_event \<Rightarrow> bool" where
  "on_time = (\<lambda>(d, k) (wait, e). (de_mounted d \<and> de_lockHeld d \<longrightarrow> lk_now k + wait \<le> lk_beat k + lock_heartbeat)
     \<and> (case e of Lock_answer call Lock_granted \<Rightarrow> lk_now k + wait \<le> lk_asked k call + 240 | _ \<Rightarrow> True))"

fun all_on_time :: "editor \<times> lock_clock \<Rightarrow> (nat \<times> editor_event) list \<Rightarrow> bool" where
  "all_on_time s [] = True"
| "all_on_time s (x # xs) \<longleftrightarrow> on_time s x \<and> all_on_time (timed_step x s) xs"

lemma all_on_time_snoc: "all_on_time s (xs @ [x]) \<longleftrightarrow> all_on_time s xs \<and> on_time (fold timed_step xs s) x"
  by (induction xs arbitrary: s) auto

lemma timed_editor: "fst (fold timed_step es (d, k)) = fold editor_step (map snd es) d"
  by (induction es arbitrary: d k) (auto simp: timed_step_def Let_def)

text \<open>
  What the page believes to hold was granted with a minute to spare, and unless a renewal is under way
  it was granted after the timer last fired.
\<close>

definition spare :: "editor \<times> lock_clock \<Rightarrow> bool" where
  "spare = (\<lambda>(d, k). lk_beat k \<le> lk_now k \<and> (de_mounted d \<and> de_lockHeld d \<and> \<not> turned_away d
     \<longrightarrow> lk_fresh k + 60 \<le> lk_until k \<and> (lock_pending d \<or> lk_beat k \<le> lk_fresh k)))"

fun asks_lock :: "editor_event \<Rightarrow> bool" where
  "asks_lock Start_editing = True"
| "asks_lock Heartbeat = True"
| "asks_lock (Lock_answer _ _) = True"
| "asks_lock _ = False"

lemma calls_step:
  "\<not> asks_lock e \<Longrightarrow> de_lockCalls (editor_step e d) = de_lockCalls d \<and> de_lockInFlight (editor_step e d) = de_lockInFlight d"
  by (cases e) (auto simp: editor_ops Let_def split: option.splits save_answer.splits)

lemma pending_step: "\<not> asks_lock e \<Longrightarrow> lock_pending (editor_step e d) = lock_pending d"
  by (simp add: lock_pending_def calls_step)

lemma server_clock_now [simp]: "lk_now (server_clock e d d' k) = lk_now k" "lk_beat (server_clock e d d' k) = lk_beat k"
  by (simp_all add: server_clock_def split: lock_word.splits editor_event.splits)

lemma beat_past: "lk_beat k \<le> lk_now k \<Longrightarrow> lk_beat (snd (timed_step (w, e) (d, k))) \<le> lk_now (snd (timed_step (w, e) (d, k)))"
  by (simp add: timed_step_def timer_clock_def Let_def)

lemma spare_view:
  assumes "lock_view d' = lock_view d" "e \<noteq> Heartbeat" "lock_pending d' = lock_pending d" "spare (d, k)"
  shows "spare (d', timer_clock e d d' (server_clock e d d' (k\<lparr>lk_now := lk_now k + w\<rparr>)))"
proof -
  have "server_clock e d d' (k\<lparr>lk_now := t\<rparr>) = k\<lparr>lk_now := t\<rparr>" "de_lockHeld d' = de_lockHeld d" for t
    using assms(1) by (simp_all add: lock_view_def server_clock_def)
  then show ?thesis using assms by (simp add: timer_clock_def) (simp add: lock_view_def spare_def)
qed

text \<open>What a save that is answered does to the lock.\<close>

lemma saved_lock: "lock_view (saved sent u d) = lock_view d \<or> turned_away (saved sent u d)"
proof -
  have "lock_view (take_saved b u d) = lock_view d" for b by simp
  then show ?thesis
    by (auto simp: saved_def Let_def release_saved_def lock_say_def show_toast_def mark_stale_def lock_view_def)
qed

lemma save_answer_lock: "lock_view (save_answered a d) = lock_view d \<or> turned_away (save_answered a d)"
proof (cases "de_saving d")
  case (Some sent)
  have "lock_view (d\<lparr>de_saving := None\<rparr>) = lock_view d" by simp
  then show ?thesis using Some saved_lock [of sent _ "d\<lparr>de_saving := None\<rparr>"]
    by (cases a) (simp_all add: save_answered_def Let_def)
qed (simp add: save_answered_def)

lemma spare_granted:
  assumes "spare (d, k)" "on_time (d, k) (w, Lock_answer call Lock_granted)"
  shows "spare (timed_step (w, Lock_answer call Lock_granted) (d, k))"
  using assms by (auto simp: timed_step_def spare_def on_time_def lock_answered_def lock_granted_def lock_say_def server_clock_def
      timer_clock_def DocLockTTL_def Let_def)

lemma spare_refused: "spare (d, k) \<Longrightarrow> spare (timed_step (w, Lock_answer call (Lock_refused st h)) (d, k))"
  by (auto simp: timed_step_def spare_def lock_answered_def lock_refused_def lock_say_def if_mounted_def show_toast_def
      server_clock_def timer_clock_def Let_def split: option.splits)

lemma spare_asked:
  assumes "spare (d, k)" "e = Heartbeat \<or> e = Start_editing"
  shows "spare (timed_step (w, e) (d, k))"
proof (cases "e = Heartbeat")
  case True
  then show ?thesis using assms(1)
    by (auto simp: timed_step_def spare_def ask_lock_def lock_say_def server_clock_def timer_clock_def lock_pending_def Let_def)
next
  case False
  then have "editor_step e d = d \<or> \<not> de_lockHeld d \<and> editor_step e d = ask_lock d" using assms(2) by auto
  then show ?thesis using False assms(1)
    by (auto simp: timed_step_def spare_def ask_lock_def lock_say_def server_clock_def timer_clock_def Let_def)
qed

lemma spare_step:
  assumes ok: "spare (d, k)" and e: "e \<noteq> Unload" and time: "on_time (d, k) (w, e)"
  shows "spare (timed_step (w, e) (d, k))"
proof (cases "asks_lock e")
  case True
  then show ?thesis
  proof (cases e)
    case (Lock_answer call a)
    then show ?thesis using spare_granted [OF ok] spare_refused [OF ok] time by (cases a) simp_all
  qed (use spare_asked [OF ok] in simp_all)
next
  case False
  then have "e \<noteq> Heartbeat" by auto
  note quiet = spare_view [OF _ this pending_step [OF False] ok]
  show ?thesis
  proof (cases "lock_view (editor_step e d) = lock_view d")
    case True
    then show ?thesis using quiet by (simp add: timed_step_def Let_def)
  next
    case changed: False
    then have touch: "touches_lock e" using lock_view_step by blast
    show ?thesis
    proof (cases e)
      case (Save_answer a)
      then have "turned_away (editor_step e d)" using changed save_answer_lock [of a d] by simp
      then show ?thesis using beat_past [of k w e d] ok by (simp add: timed_step_def spare_def Let_def)
    qed (use changed touch ok e False in \<open>auto simp: timed_step_def spare_def lock_say_def server_clock_def timer_clock_def press_save_def
        send_save_def delete_answered_def mark_stale_def show_toast_def unmount_editor_def release_if_acquired_def lock_pending_def
        Let_def split: if_splits\<close>)
  qed
qed

lemma spare_run:
  "all_on_time (editor_init, clock_init) es \<Longrightarrow> list_all (\<lambda>x. snd x \<noteq> Unload) es \<Longrightarrow> spare (timed_run es)"
proof (induction es rule: rev_induct)
  case Nil
  then show ?case by (simp add: spare_def editor_init_def clock_init_def)
next
  case (snoc x es)
  obtain d k where dk: "timed_run es = (d, k)" by (cases "timed_run es") auto
  have "spare (d, k)" using snoc dk by (simp add: all_on_time_snoc)
  then show ?case using spare_step [of d k "snd x" "fst x"] snoc.prems dk by (simp add: all_on_time_snoc)
qed

text \<open>
  Claim C23. Nothing is edited or saved without the lock. Whatever happens, if the browser never asked to unload the
  page, every save was sent while the lock that the server had granted was not given back, except a
  save after an earlier one that has given it back and turned to the document's page. And nothing happens to an
  open text area, nor is anything saved, once the lock may have expired on the server: at each such moment
  less than five minutes have passed since the last request that was granted, provided the page's timer fires
  every 30 seconds and a granted request is answered within four minutes. (That the same user opens the document
  a second time, and gives the lock back there, is not modelled.)
\<close>

theorem edits_hold_lock:
  assumes "list_all (\<lambda>x. snd x \<noteq> Unload) (es @ [(w, e)])" "all_on_time (editor_init, clock_init) (es @ [(w, e)])"
    and "timed_run es = (d, k)"
  shows "list_all (\<lambda>s. ds_locked s \<or> ds_left s) (de_saves d)
    \<and> (page_shown d \<and> canEdit d \<and> \<not> turned_away d \<longrightarrow> lock_held_by (de_lockLog d) \<and> lk_now k + w < lk_until k)
    \<and> (de_saves (editor_step e d) \<noteq> de_saves d \<and> \<not> turned_away d \<longrightarrow> lock_held_by (de_lockLog d) \<and> lk_now k + w < lk_until k)"
proof -
  have d: "d = editor_run (map snd es)" using timed_editor [of es editor_init clock_init] assms(3) by simp
  have b: "lock_believed d" unfolding d
    by (rule lock_believer.reachable) (use assms(1) in \<open>auto simp: list_all_iff\<close>)
  have s: "spare (d, k)" using spare_run [of es] assms by (simp add: all_on_time_snoc)
  have time: "on_time (d, k) (w, e)" using assms(2,3) by (simp add: all_on_time_snoc)
  have ok: "lock_held_by (de_lockLog d) \<and> lk_now k + w < lk_until k" if "page_shown d" "canEdit d" "\<not> turned_away d"
    using that b s time by (auto simp: lock_believed_def page_shown_def canEdit_def spare_def on_time_def lock_heartbeat_def)
  have "page_shown d \<and> canEdit d" if "de_saves (editor_step e d) \<noteq> de_saves d"
    using that saves_only_pressed by blast
  then show ?thesis using ok b by (auto simp: lock_believed_def)
qed

subsection \<open>Examples\<close>

definition example_doc :: "string \<Rightarrow> int \<Rightarrow> doc_page" where
  "example_doc c v = \<lparr>dp_title = ''T'', dp_serviceId = None, dp_content = c, dp_currentVersion = v, dp_linkWarnings = None\<rparr>"

definition example_open :: "editor_event list" where
  "example_open = [Me_known (Some ''u1'') (Some ''admin'') None, Doc_read (example_doc ''a'' 1), Start_editing, Lock_answer 1 Lock_granted]"

definition example_before :: "editor_event list" where
  "example_before = example_open @ [Typed ''ab'']"

text \<open>A save that is refused, a newer version, a failed renewal.\<close>

definition example_after :: "editor_event list" where
  "example_after = [Press_save, Save_answer (Save_failed (Some 409)), Doc_read (example_doc ''x'' 2), Heartbeat, Lock_answer 2 (Lock_refused None None)]"

lemma typed_kept_witness:
  "de_draft (editor_run example_before) = Some ''ab'' \<and> de_draft (editor_run (example_before @ example_after)) = Some ''ab''
    \<and> map ds_baseVersion (de_saves (editor_run (example_before @ example_after))) = [Some 1]"
proof -
  have "de_draft (editor_run example_before) = Some ''ab''" "list_all (\<lambda>e. \<not> user_change e) example_after"
    "\<nexists>u. Save_answer (Saved u) \<in> set example_after"
    "map ds_baseVersion (de_saves (editor_run (example_before @ example_after))) = [Some 1]"
    by (code_simp, code_simp, simp add: example_after_def, code_simp)
  then show ?thesis using typed_kept [of example_before "''ab''" example_after] by blast
qed

text \<open>A renewal is still under way when the editor is left: it is granted afterwards and released at once.\<close>

definition example_leave :: "editor_event list" where
  "example_leave = example_before @ [Heartbeat, Unmount, Lock_answer 2 Lock_granted]"

lemma lock_given_back_witness:
  "de_lockLog (editor_run example_leave) = [Released, Granted, Released, Asked, Granted, Asked]
    \<and> \<not> lock_held_by (de_lockLog (editor_run example_leave))"
proof -
  have "list_all (\<lambda>e. \<not> lock_lost e) example_leave" "\<not> de_mounted (editor_run example_leave)"
    "de_lockLog (editor_run example_leave) = [Released, Granted, Released, Asked, Granted, Asked]" by code_simp+
  then show ?thesis using lock_given_back by simp
qed

text \<open>The text typed half a minute after the lock was granted is saved while the lock is the page's.\<close>

definition example_timed :: "(nat \<times> editor_event) list" where
  "example_timed = [(0, Me_known (Some ''u1'') (Some ''admin'') None), (1, Doc_read (example_doc ''a'' 1)), (5, Start_editing),
     (1, Lock_answer 1 Lock_granted), (20, Typed ''ab'')]"

lemma edits_hold_lock_witness:
  "\<exists>d k. timed_run example_timed = (d, k) \<and> lock_held_by (de_lockLog d) \<and> lk_now k + 10 < lk_until k
    \<and> de_saves (editor_step Press_save d) \<noteq> de_saves d"
proof -
  obtain d k where dk: "timed_run example_timed = (d, k)" by (cases "timed_run example_timed") auto
  have no: "list_all (\<lambda>x. snd x \<noteq> Unload) (example_timed @ [(10, Press_save)])" by (simp add: example_timed_def)
  have time: "all_on_time (editor_init, clock_init) (example_timed @ [(10, Press_save)])" by code_simp
  have sent: "de_saves (editor_step Press_save (fst (timed_run example_timed))) \<noteq> de_saves (fst (timed_run example_timed))"
    "\<not> turned_away (fst (timed_run example_timed))" by code_simp+
  show ?thesis using edits_hold_lock [OF no time dk] sent dk by simp
qed

text \<open>
  After a computer slept for ten minutes the word that the lock has expired only clears the entry of the
  live store: the text area stays open although the lock is gone.
\<close>

lemma slept_keeps_editing:
  "page_shown (fst (timed_run (example_timed @ [(600, Lock_seen None)]))) \<and> canEdit (fst (timed_run (example_timed @ [(600, Lock_seen None)])))
    \<and> lk_until (snd (timed_run (example_timed @ [(600, Lock_seen None)]))) < lk_now (snd (timed_run (example_timed @ [(600, Lock_seen None)])))"
  by (intro conjI) code_simp+

text \<open>
  What goes wrong. A renewal that fails without a verdict makes the editor forget a lock it may hold, which is then not released on
  leaving. An unload that the user cancels has released the lock, but the text area stays open. A change
  that is reported while a renewal is under way is dropped. After a save that keeps the page
  open, what is typed by hand still counts as drafted by the assistant. A save that is answered after
  the editor was left turns to the document's page all the same.
\<close>

definition example_forgotten :: "editor_event list" where
  "example_forgotten = example_before @ [Heartbeat, Lock_answer 2 (Lock_refused None None), Unmount]"

lemma failed_renewal_forgets_lock:
  "\<not> de_mounted (editor_run example_forgotten) \<and> lock_held_by (de_lockLog (editor_run example_forgotten))"
  by code_simp

lemma cancelled_unload_keeps_editing:
  "canEdit (editor_run (example_before @ [Unload])) \<and> \<not> lock_held_by (de_lockLog (editor_run (example_before @ [Unload])))"
  by code_simp

lemma renewal_drops_changes: "lock_pending d \<Longrightarrow> editor_step (Typed v) d = d"
  by (simp add: canEdit_def)

lemma renewal_pends: "lock_pending (ask_lock d)"
  by (simp add: ask_lock_def lock_say_def lock_pending_def)

definition example_ai :: doc_ai_payload where
  "example_ai = \<lparr>ai_docId = ''d'', ai_requestId = ''r'', ai_status = Ai_complete, ai_contentDelta = None, ai_fullContent = Some ''b'',
     ai_provider = None, ai_fallbackUsed = None, ai_error = None\<rparr>"

lemma late_save_navigates:
  "de_navigations (editor_run (example_before @ [Press_save, Unmount, Save_answer (Saved (example_doc ''ab'' 2))])) = [''/docs/:docId'']"
  by code_simp

lemma hand_edit_saved_as_ai:
  "map (\<lambda>s. (ds_content s, ds_trigger s))
     (de_saves (editor_run (example_open @ [Press_suggest, Suggest_answer (Some ''r''), Ai_arrived example_ai, Press_accept, Press_save,
        Save_answer (Saved ((example_doc ''b'' 2)\<lparr>dp_linkWarnings := Some [''w'']\<rparr>)), Typed ''c'', Press_save])))
   = [(''b'', ''ai''), (''c'', ''ai'')]"
  by code_simp

end
