(* ===== verification/ConnectQueue.thy ===== *)
theory ConnectQueue
  imports Discovery JsValues Machines
begin

text \<open>
  From a finished scan to connectors: what is selected in the panel
  (\<open>features/discovery/DiscoveryPanel.tsx\<close>), the queue that walks the selection
  (\<open>ConnectQueue.tsx\<close>) and the flow that holds both (\<open>DiscoveryFlow.tsx\<close>). The lemmas show that the queue holds
  what was checked and nothing else, that it moves through its items once and in order however
  late the saves are, and what the step that adds certificate targets to a probe
  writes and reports.
\<close>

subsection \<open>The items of a queue\<close>

(* src features/discovery/ConnectQueue.tsx 22-25 QueueItem *)
datatype queue_item = Item_candidate discovery_candidate | Item_addOn discovery_candidate discovery_addOn | Item_tls "tls_target list"

definition truthy_id :: "string option \<Rightarrow> bool" where
  "truthy_id i \<longleftrightarrow> i \<noteq> None \<and> i \<noteq> Some []"

definition addOns_of :: "discovery_candidate \<Rightarrow> discovery_addOn list" where
  "addOns_of c = from_opt [] (c_addOns c)"

definition pair_key :: "discovery_candidate \<times> discovery_addOn \<Rightarrow> string" where
  "pair_key p = addOnKey (fst p) (snd p)"

text \<open>The add-ons queued after their candidate; an omitted selection takes all that are not connected.\<close>

(* src features/discovery/ConnectQueue.tsx 44-46 queueItems *)
definition queued_addOns :: "string list option \<Rightarrow> discovery_candidate \<Rightarrow> discovery_addOn list" where
  "queued_addOns explicit c = filter (\<lambda>a. \<not> truthy_id (ao_connectorId a)
     \<and> (case explicit of None \<Rightarrow> True | Some keys \<Rightarrow> addOnKey c a \<in> set keys)) (addOns_of c)"

text \<open>Add-ons that were selected without their candidate.\<close>

(* src features/discovery/ConnectQueue.tsx 54-59 queueItems *)
fun extra_addOns :: "string list \<Rightarrow> (discovery_candidate \<times> discovery_addOn) list \<Rightarrow> queue_item list" where
  "extra_addOns seen [] = []"
| "extra_addOns seen ((c, a) # ps) =
     (if truthy_id (ao_connectorId a) \<or> addOnKey c a \<in> set seen then extra_addOns seen ps
      else Item_addOn c a # extra_addOns (addOnKey c a # seen) ps)"

(* src features/discovery/ConnectQueue.tsx 31-63 queueItems *)
definition queueItems :: "discovery_candidate list \<Rightarrow> (discovery_candidate \<times> discovery_addOn) list option \<Rightarrow> tls_target list option \<Rightarrow> queue_item list" where
  "queueItems candidates selectedAddOns tlsTargets =
     (let explicit = map_option (map pair_key) selectedAddOns;
          queued = concat (map (\<lambda>c. map (addOnKey c) (queued_addOns explicit c)) candidates)
      in concat (map (\<lambda>c. Item_candidate c # map (Item_addOn c) (queued_addOns explicit c)) candidates)
         @ extra_addOns queued (from_opt [] selectedAddOns)
         @ (case tlsTargets of Some ts \<Rightarrow> if ts \<noteq> [] then [Item_tls ts] else [] | None \<Rightarrow> []))"

subsection \<open>What is selected in the panel\<close>

text \<open>The three selections belong to the scan whose id is \<open>ps_scan\<close>, the targets to \<open>tx_scan\<close>.\<close>

(* src features/discovery/DiscoveryPanel.tsx 77-77 TLSSelection *)
record tls_selection =
  tx_scan :: "string option"
  tx_seen :: "string set"
  tx_selected :: "string set"

(* src features/discovery/DiscoveryPanel.tsx 177-187 DiscoveryPanel *)
record panel_selection =
  ps_scan :: "string option"
  ps_selected :: "string set"
  ps_overrides :: "string \<rightharpoonup> bool"
  ps_tlsQueue :: bool
  ps_tls :: tls_selection

definition fresh_selection :: panel_selection where
  "fresh_selection = \<lparr>ps_scan = None, ps_selected = {}, ps_overrides = Map.empty, ps_tlsQueue = False,
     ps_tls = \<lparr>tx_scan = None, tx_seen = {}, tx_selected = {}\<rparr>\<rparr>"

text \<open>A new scan starts with nothing selected.\<close>

(* src features/discovery/DiscoveryPanel.tsx 180-186 DiscoveryPanel *)
definition render_selection :: "discovery_scan option \<Rightarrow> panel_selection \<Rightarrow> panel_selection" where
  "render_selection scan s = (if map_option sc_id scan \<noteq> ps_scan s
     then s\<lparr>ps_scan := map_option sc_id scan, ps_selected := {}, ps_overrides := Map.empty, ps_tlsQueue := False\<rparr> else s)"

text \<open>The order of the targets is by address, then by port.\<close>

definition by_target :: "(string \<Rightarrow> string \<Rightarrow> int) \<Rightarrow> tls_target \<Rightarrow> tls_target \<Rightarrow> int" where
  "by_target lc a b = or_else (compareAddresses lc (t_address a) (t_address b)) (int (t_port a) - int (t_port b))"

(* src features/discovery/DiscoveryPanel.tsx 169-169 candidates *)
definition panel_candidates :: "(string \<Rightarrow> string \<Rightarrow> int) \<Rightarrow> discovery_scan option \<Rightarrow> discovery_candidate list" where
  "panel_candidates lc scan = sort_by (byAddress lc) (case scan of None \<Rightarrow> [] | Some s \<Rightarrow> sc_candidates s)"

(* src features/discovery/DiscoveryPanel.tsx 171-174 tlsTargets *)
definition panel_targets :: "(string \<Rightarrow> string \<Rightarrow> int) \<Rightarrow> discovery_scan option \<Rightarrow> tls_target list" where
  "panel_targets lc scan = sort_by (by_target lc) (case scan of None \<Rightarrow> [] | Some s \<Rightarrow> from_opt [] (sc_tlsTargets s))"

definition tlsTargetKey :: "tls_target \<Rightarrow> string" where
  "tlsTargetKey t = targetKey (t_address t) (t_port t)"

(* src features/discovery/DiscoveryPanel.tsx 202-202 availableTLSTargets *)
definition availableTLSTargets :: "(string \<Rightarrow> string \<Rightarrow> int) \<Rightarrow> discovery_scan option \<Rightarrow> tls_target list" where
  "availableTLSTargets lc scan = filter (\<lambda>t. \<not> truthy_id (t_monitoredBy t)) (panel_targets lc scan)"

(* src features/discovery/DiscoveryPanel.tsx 188-190 currentTLSSelection *)
definition currentTLSSelection :: "discovery_scan option \<Rightarrow> panel_selection \<Rightarrow> tls_selection" where
  "currentTLSSelection scan s = (if tx_scan (ps_tls s) = map_option sc_id scan then ps_tls s
     else \<lparr>tx_scan = map_option sc_id scan, tx_seen = {}, tx_selected = {}\<rparr>)"

text \<open>A target that the user has not touched counts as selected.\<close>

(* src features/discovery/DiscoveryPanel.tsx 191-195 tlsSelected *)
definition tlsSelected :: "(string \<Rightarrow> string \<Rightarrow> int) \<Rightarrow> discovery_scan option \<Rightarrow> panel_selection \<Rightarrow> string set" where
  "tlsSelected lc scan s = tx_selected (currentTLSSelection scan s)
     \<union> {k \<in> set (map tlsTargetKey (availableTLSTargets lc scan)). k \<notin> tx_seen (currentTLSSelection scan s)}"

(* src features/discovery/DiscoveryPanel.tsx 196-196 chosen *)
definition chosen :: "(string \<Rightarrow> string \<Rightarrow> int) \<Rightarrow> discovery_scan option \<Rightarrow> panel_selection \<Rightarrow> discovery_candidate list" where
  "chosen lc scan s = filter (\<lambda>c. candidateKey c \<in> ps_selected s)
     (filter (\<lambda>c. \<not> truthy_id (c_connectorId c)) (panel_candidates lc scan))"

(* src features/discovery/DiscoveryPanel.tsx 473-473 DiscoveryPanel *)
definition addOn_checked :: "panel_selection \<Rightarrow> discovery_candidate \<Rightarrow> discovery_addOn \<Rightarrow> bool" where
  "addOn_checked s c a \<longleftrightarrow> \<not> truthy_id (ao_connectorId a)
     \<and> from_opt (candidateKey c \<in> ps_selected s) (ps_overrides s (addOnKey c a))"

(* src features/discovery/DiscoveryPanel.tsx 197-201 chosenAddOns *)
definition chosenAddOns :: "(string \<Rightarrow> string \<Rightarrow> int) \<Rightarrow> discovery_scan option \<Rightarrow> panel_selection \<Rightarrow> (discovery_candidate \<times> discovery_addOn) list" where
  "chosenAddOns lc scan s = concat (map (\<lambda>c. map (Pair c) (filter (addOn_checked s c) (addOns_of c))) (panel_candidates lc scan))"

(* src features/discovery/DiscoveryPanel.tsx 203-205 chosenTLSTargets *)
definition chosenTLSTargets :: "(string \<Rightarrow> string \<Rightarrow> int) \<Rightarrow> discovery_scan option \<Rightarrow> panel_selection \<Rightarrow> tls_target list" where
  "chosenTLSTargets lc scan s = (if ps_tlsQueue s
     then filter (\<lambda>t. tlsTargetKey t \<in> tlsSelected lc scan s) (availableTLSTargets lc scan) else [])"

(* src features/discovery/DiscoveryPanel.tsx 206-206 totalSelected *)
definition totalSelected :: "(string \<Rightarrow> string \<Rightarrow> int) \<Rightarrow> discovery_scan option \<Rightarrow> panel_selection \<Rightarrow> nat" where
  "totalSelected lc scan s = length (chosen lc scan s) + length (chosenAddOns lc scan s) + (if chosenTLSTargets lc scan s \<noteq> [] then 1 else 0)"

(* src features/discovery/DiscoveryPanel.tsx 208-215 toggle *)
definition toggle_candidate :: "discovery_candidate \<Rightarrow> panel_selection \<Rightarrow> panel_selection" where
  "toggle_candidate c s = s\<lparr>ps_selected := (if candidateKey c \<in> ps_selected s then ps_selected s - {candidateKey c} else insert (candidateKey c) (ps_selected s))\<rparr>"

(* src features/discovery/DiscoveryPanel.tsx 216-218 toggleAddOn *)
definition toggleAddOn :: "discovery_candidate \<Rightarrow> discovery_addOn \<Rightarrow> panel_selection \<Rightarrow> panel_selection" where
  "toggleAddOn c a s = s\<lparr>ps_overrides := (ps_overrides s)(addOnKey c a \<mapsto> \<not> from_opt (candidateKey c \<in> ps_selected s) (ps_overrides s (addOnKey c a)))\<rparr>"

(* src features/discovery/DiscoveryPanel.tsx 219-219 toggleTLSQueue *)
definition toggleTLSQueue :: "panel_selection \<Rightarrow> panel_selection" where
  "toggleTLSQueue s = s\<lparr>ps_tlsQueue := \<not> ps_tlsQueue s\<rparr>"

text \<open>A click decides for the targets it is about and marks them as seen.\<close>

definition decide_targets :: "discovery_scan option \<Rightarrow> bool \<Rightarrow> string list \<Rightarrow> panel_selection \<Rightarrow> panel_selection" where
  "decide_targets scan on keys s = (let cur = currentTLSSelection scan s
     in s\<lparr>ps_tls := \<lparr>tx_scan = map_option sc_id scan, tx_seen = tx_seen cur \<union> set keys,
          tx_selected = (if on then tx_selected cur \<union> set keys else tx_selected cur - set keys)\<rparr>\<rparr>)"

(* src features/discovery/DiscoveryPanel.tsx 220-233 toggleAllTLS *)
definition toggleAllTLS :: "(string \<Rightarrow> string \<Rightarrow> int) \<Rightarrow> discovery_scan option \<Rightarrow> panel_selection \<Rightarrow> panel_selection" where
  "toggleAllTLS lc scan s = (let keys = map tlsTargetKey (availableTLSTargets lc scan)
     in decide_targets scan (\<not> list_all (\<lambda>k. k \<in> tlsSelected lc scan s) keys) keys s)"

(* src features/discovery/DiscoveryPanel.tsx 234-244 toggleTLS *)
definition toggleTLS :: "(string \<Rightarrow> string \<Rightarrow> int) \<Rightarrow> discovery_scan option \<Rightarrow> tls_target \<Rightarrow> panel_selection \<Rightarrow> panel_selection" where
  "toggleTLS lc scan t s = decide_targets scan (tlsTargetKey t \<notin> tlsSelected lc scan s) [tlsTargetKey t] s"

text \<open>What is handed to the queue: candidates, add-ons unless no candidate has any, targets if there are any.\<close>

(* src features/discovery/DiscoveryPanel.tsx 245-253 connectSelected *)
definition connectSelected :: "(string \<Rightarrow> string \<Rightarrow> int) \<Rightarrow> discovery_scan option \<Rightarrow> panel_selection
    \<Rightarrow> discovery_candidate list \<times> (discovery_candidate \<times> discovery_addOn) list option \<times> tls_target list option" where
  "connectSelected lc scan s =
     (let targets = (if chosenTLSTargets lc scan s \<noteq> [] then Some (chosenTLSTargets lc scan s) else None)
      in if list_ex (\<lambda>c. addOns_of c \<noteq> []) (panel_candidates lc scan)
         then (chosen lc scan s, Some (chosenAddOns lc scan s), targets)
         else (chosen lc scan s, None, targets))"

subsection \<open>The queue is the selection\<close>

definition all_pairs :: "discovery_candidate list \<Rightarrow> (discovery_candidate \<times> discovery_addOn) list" where
  "all_pairs cs = concat (map (\<lambda>c. map (Pair c) (addOns_of c)) cs)"

definition pair_item :: "discovery_candidate \<times> discovery_addOn \<Rightarrow> queue_item" where
  "pair_item p = Item_addOn (fst p) (snd p)"

lemma all_pairs_mem [simp]: "(c, a) \<in> set (all_pairs cs) \<longleftrightarrow> c \<in> set cs \<and> a \<in> set (addOns_of c)"
  by (auto simp: all_pairs_def)

lemma chosenAddOns_filter:
  "chosenAddOns lc scan s = filter (\<lambda>p. addOn_checked s (fst p) (snd p)) (all_pairs (panel_candidates lc scan))"
  unfolding chosenAddOns_def all_pairs_def filter_concat by (simp add: filter_map comp_def)

lemma extra_addOns_exact:
  "distinct (map pair_key ps) \<Longrightarrow> list_all (\<lambda>p. \<not> truthy_id (ao_connectorId (snd p))) ps \<Longrightarrow>
     extra_addOns seen ps = map pair_item (filter (\<lambda>p. pair_key p \<notin> set seen) ps)"
proof (induction seen ps rule: extra_addOns.induct)
  case (2 seen c a ps)
  have rest: "filter (\<lambda>p. pair_key p \<notin> set (addOnKey c a # seen)) ps = filter (\<lambda>p. pair_key p \<notin> set seen) ps"
  proof (rule filter_cong [OF refl])
    fix p assume "p \<in> set ps"
    then have "pair_key p \<noteq> addOnKey c a" using "2.prems"(1) by (force simp: pair_key_def)
    then show "(pair_key p \<notin> set (addOnKey c a # seen)) = (pair_key p \<notin> set seen)" by simp
  qed
  show ?case
  proof (cases "addOnKey c a \<in> set seen")
    case True
    with 2 show ?thesis by (simp add: pair_key_def)
  next
    case False
    with 2 have "extra_addOns (addOnKey c a # seen) ps = map pair_item (filter (\<lambda>p. pair_key p \<notin> set (addOnKey c a # seen)) ps)" by simp
    with 2 False rest show ?thesis by (simp add: pair_key_def pair_item_def)
  qed
qed simp

lemma mset_interleaved:
  "mset (concat (map (\<lambda>c. f c # g c) cs)) = mset (map f cs) + mset (concat (map g cs))"
  by (induction cs) simp_all

lemma concat_pairs_filter:
  "concat (map (\<lambda>c. map (Pair c) (F c)) (filter Q cs)) = filter (\<lambda>p. Q (fst p)) (concat (map (\<lambda>c. map (Pair c) (F c)) cs))"
proof (induction cs)
  case (Cons c cs)
  have "filter (\<lambda>p. Q (fst p)) (map (Pair c) (F c)) = (if Q c then map (Pair c) (F c) else [])"
    by (simp add: filter_map comp_def)
  with Cons show ?case by simp
qed simp

lemma pair_key_inj:
  "distinct (map pair_key ps) \<Longrightarrow> p \<in> set ps \<Longrightarrow> q \<in> set ps \<Longrightarrow> pair_key p = pair_key q \<longleftrightarrow> p = q"
  by (auto simp: distinct_map inj_on_def)

text \<open>A queue over candidates \<open>cs\<close> of which those with \<open>Q\<close> are queued, and the pairs with \<open>R\<close>.\<close>

lemma queueItems_mset:
  assumes keys: "distinct (map pair_key (all_pairs cs))"
    and open_only: "\<And>c a. R (c, a) \<Longrightarrow> \<not> truthy_id (ao_connectorId a)"
  shows "mset (queueItems (filter Q cs) (Some (filter R (all_pairs cs))) ts) =
    mset (map Item_candidate (filter Q cs)) + mset (map pair_item (filter R (all_pairs cs)))
    + (case ts of Some xs \<Rightarrow> if xs \<noteq> [] then {# Item_tls xs #} else {#} | None \<Rightarrow> {#})"
proof -
  let ?P = "filter R (all_pairs cs)" and ?F = "\<lambda>c. filter (\<lambda>a. R (c, a)) (addOns_of c)"
  let ?K = "Some (map pair_key ?P)"
  have P: "?P = concat (map (\<lambda>c. map (Pair c) (?F c)) cs)"
    unfolding all_pairs_def filter_concat by (simp add: filter_map comp_def)
  have dist: "distinct (map pair_key ?P)" using keys distinct_map_filter by blast
  have queued: "queued_addOns ?K c = ?F c" if "c \<in> set cs" for c
    unfolding queued_addOns_def
  proof (rule filter_cong [OF refl])
    fix a assume a: "a \<in> set (addOns_of c)"
    have "addOnKey c a \<in> pair_key ` set ?P \<longleftrightarrow> (c, a) \<in> set ?P"
      using pair_key_inj [OF keys, of "(c, a)"] that a by (auto simp: pair_key_def image_iff)
    then show "(\<not> truthy_id (ao_connectorId a) \<and> (case ?K of None \<Rightarrow> True | Some keys \<Rightarrow> addOnKey c a \<in> set keys)) = R (c, a)"
      using that a open_only by auto
  qed
  let ?G = "concat (map (\<lambda>c. map (Pair c) (?F c)) (filter Q cs))"
  have G: "?G = filter (\<lambda>p. Q (fst p)) ?P" unfolding P by (rule concat_pairs_filter)
  have same: "map (\<lambda>c. map (h c) (queued_addOns ?K c)) (filter Q cs) = map (\<lambda>c. map (h c) (?F c)) (filter Q cs)" for h :: "_ \<Rightarrow> _ \<Rightarrow> 'x"
    by (rule map_cong) (auto simp: queued)
  have own: "concat (map (\<lambda>c. map (Item_addOn c) (queued_addOns ?K c)) (filter Q cs)) = map pair_item ?G"
    unfolding same by (simp add: map_concat pair_item_def comp_def)
  have seen: "concat (map (\<lambda>c. map (addOnKey c) (queued_addOns ?K c)) (filter Q cs)) = map pair_key ?G"
    unfolding same by (simp add: map_concat pair_key_def comp_def)
  have later: "filter (\<lambda>p. pair_key p \<notin> set (map pair_key ?G)) ?P = filter (\<lambda>p. \<not> Q (fst p)) ?P"
  proof (rule filter_cong [OF refl])
    fix p assume p: "p \<in> set ?P"
    then have "pair_key p \<in> pair_key ` set ?G \<longleftrightarrow> p \<in> set ?G"
      using pair_key_inj [OF dist p] by (auto simp: G image_iff)
    then show "(pair_key p \<notin> set (map pair_key ?G)) = (\<not> Q (fst p))" using p by (simp add: G)
  qed
  have "list_all (\<lambda>p. \<not> truthy_id (ao_connectorId (snd p))) ?P" using open_only by (auto simp: list_all_iff)
  from extra_addOns_exact [OF dist this]
  have extra: "extra_addOns (map pair_key ?G) ?P = map pair_item (filter (\<lambda>p. \<not> Q (fst p)) ?P)" by (simp only: later)
  have split: "mset (map pair_item ?G) + mset (map pair_item (filter (\<lambda>p. \<not> Q (fst p)) ?P)) = mset (map pair_item ?P)"
    unfolding G mset_map mset_filter image_mset_union [symmetric] multiset_partition [symmetric] by simp
  have tls: "mset (case ts of Some xs \<Rightarrow> if xs \<noteq> [] then [Item_tls xs] else [] | None \<Rightarrow> [])
      = (case ts of Some xs \<Rightarrow> if xs \<noteq> [] then {# Item_tls xs #} else {#} | None \<Rightarrow> {#})" by (simp split: option.split)
  show ?thesis
    unfolding queueItems_def Let_def option.map(2) from_opt_simps seen extra mset_append mset_interleaved own tls
    by (simp add: split [symmetric] add.assoc del: mset_map)
qed

lemma queueItems_plain:
  assumes "list_all (\<lambda>c. addOns_of c = []) cs"
  shows "queueItems cs None ts = map Item_candidate cs @ (case ts of Some xs \<Rightarrow> if xs \<noteq> [] then [Item_tls xs] else [] | None \<Rightarrow> [])"
proof -
  have "concat (map (\<lambda>c. Item_candidate c # map (Item_addOn c) (queued_addOns None c)) cs) = map Item_candidate cs"
    using assms by (induction cs) (simp_all add: queued_addOns_def)
  then show ?thesis by (simp add: queueItems_def)
qed

text \<open>
  Claim C13. The queue is the selection: the panel's button hands over exactly the checked candidates that are not connected yet, the
  checked add-ons, also those whose candidate is not checked, and one step for the checked
  certificate targets, each exactly once; the number on the button is the number of its steps.
\<close>

theorem queue_is_selection:
  assumes "distinct (map pair_key (all_pairs (panel_candidates lc scan)))"
  shows "mset (case connectSelected lc scan s of (cs, addOns, ts) \<Rightarrow> queueItems cs addOns ts) =
      mset (map Item_candidate (chosen lc scan s)) + mset (map pair_item (chosenAddOns lc scan s))
      + (if chosenTLSTargets lc scan s \<noteq> [] then {# Item_tls (chosenTLSTargets lc scan s) #} else {#})
    \<and> length (case connectSelected lc scan s of (cs, addOns, ts) \<Rightarrow> queueItems cs addOns ts) = totalSelected lc scan s"
    (is "mset ?items = ?selection \<and> _")
proof -
  let ?cs = "panel_candidates lc scan"
  let ?Q = "\<lambda>c. \<not> truthy_id (c_connectorId c) \<and> candidateKey c \<in> ps_selected s"
  let ?R = "\<lambda>p. addOn_checked s (fst p) (snd p)"
  have chosen: "chosen lc scan s = filter ?Q ?cs" by (auto simp: chosen_def intro: filter_cong)
  have open_only: "?R (c, a) \<Longrightarrow> \<not> truthy_id (ao_connectorId a)" for c a by (simp add: addOn_checked_def)
  have "mset ?items = ?selection"
  proof (cases "list_ex (\<lambda>c. addOns_of c \<noteq> []) ?cs")
    case True
    then show ?thesis
      using queueItems_mset [OF assms, of ?R ?Q "if chosenTLSTargets lc scan s \<noteq> [] then Some (chosenTLSTargets lc scan s) else None"] open_only
      unfolding connectSelected_def Let_def chosen chosenAddOns_filter by simp
  next
    case False
    then have none: "list_all (\<lambda>c. addOns_of c = []) ?cs" by (simp add: list_ex_iff list_all_iff)
    then have "chosenAddOns lc scan s = []" by (auto simp: chosenAddOns_def list_all_iff)
    moreover have "list_all (\<lambda>c. addOns_of c = []) (chosen lc scan s)" using none by (simp add: chosen list_all_iff)
    ultimately show ?thesis using False by (simp add: connectSelected_def queueItems_plain)
  qed
  moreover from this have "length ?items = totalSelected lc scan s"
    unfolding size_mset [symmetric] totalSelected_def by simp
  ultimately show ?thesis by simp
qed

subsection \<open>Certificate targets\<close>

text \<open>\<open>toLowerCase\<close> on the alphabet.\<close>

definition lower_unit :: "char \<Rightarrow> char" where
  "lower_unit c = (if 0xC0 \<le> code_of c \<and> code_of c \<le> 0xDE \<and> code_of c \<noteq> 0xD7 then char_of (code_of c + 32) else to_lower c)"

text \<open>The text of \<open>Number(raw)\<close>, also where it is not finite.\<close>

definition number_text :: "(rat \<Rightarrow> string) \<Rightarrow> string \<Rightarrow> string" where
  "number_text num raw = (case js_number raw of Some x \<Rightarrow> num x
     | None \<Rightarrow>
       (let s = trim raw; neg = starts_with ''-'' s; body = (if neg \<or> starts_with ''+'' s then drop 1 s else s);
            based = (\<lambda>b. digits_of_base b (drop 2 s) \<noteq> None); pre = map to_lower (take 2 s)
        in if body = ''Infinity'' \<or> unsigned_decimal body \<noteq> None then (if neg then ''-Infinity'' else ''Infinity'')
           else if pre = ''0x'' \<and> based 16 \<or> pre = ''0o'' \<and> based 8 \<or> pre = ''0b'' \<and> based 2 then ''Infinity'' else ''NaN''))"

text \<open>A host in brackets with a port.\<close>

(* src features/discovery/ConnectQueue.tsx 67-67 targetIdentity *)
definition bracketed :: "string \<Rightarrow> (string \<times> string) option" where
  "bracketed value =
     (let host = takeWhile (\<lambda>c. c \<noteq> CHR '']'') (drop 1 value); port = drop (length host + 3) value
      in if starts_with ''['' value \<and> host \<noteq> [] \<and> slice (length host + 1) (length host + 3) value = '']:''
           \<and> port \<noteq> [] \<and> list_all is_digit port then Some (host, port) else None)"

text \<open>
  \<open>ip6\<close> is the host that the URL parser of the browser finds in \<open>http://[...]/\<close>, without its brackets,
  or nothing where it throws.
\<close>

(* src features/discovery/ConnectQueue.tsx 65-82 targetIdentity *)
definition targetIdentity :: "(string \<Rightarrow> string option) \<Rightarrow> (rat \<Rightarrow> string) \<Rightarrow> string \<Rightarrow> string" where
  "targetIdentity ip6 num line =
     (let value = trim line;
          splitAt = (case last_index_upto CHR '':'' (length value) value of Some i \<Rightarrow> i | None \<Rightarrow> 0);
          (host, port) = (case bracketed value of Some hp \<Rightarrow> hp
             | None \<Rightarrow> if 0 < splitAt then (take splitAt value, drop (splitAt + 1) value) else (value, []));
          normalizedHost = (if CHR '':'' \<in> set host
             then (case ip6 host of Some h \<Rightarrow> map lower_unit h | None \<Rightarrow> map lower_unit host) else map lower_unit host)
      in if port \<noteq> [] then normalizedHost @ ''|'' @ number_text num port else map lower_unit value)"

(* src features/discovery/ConnectQueue.tsx 27-27 TLS_TARGET_LIMIT *)
definition TLS_TARGET_LIMIT :: nat where "TLS_TARGET_LIMIT = 100"

(* src features/discovery/ConnectQueue.tsx 87-94 targetPlan *)
fun keep_existing :: "(string \<Rightarrow> string) \<Rightarrow> string list \<Rightarrow> string list \<Rightarrow> string list \<times> string list" where
  "keep_existing idf seen [] = ([], seen)"
| "keep_existing idf seen (raw # raws) =
     (let line = trim raw; key = idf line
      in if line = [] \<or> key \<in> set seen then keep_existing idf seen raws
         else let (lines, seen') = keep_existing idf (key # seen) raws in (line # lines, seen'))"

text \<open>How many lines there are, what has been seen; the added lines and the targets left out.\<close>

(* src features/discovery/ConnectQueue.tsx 96-107 targetPlan *)
fun add_targets :: "(string \<Rightarrow> string) \<Rightarrow> nat \<Rightarrow> string list \<Rightarrow> tls_target list \<Rightarrow> string list \<times> tls_target list" where
  "add_targets idf n seen [] = ([], [])"
| "add_targets idf n seen (t # ts) =
     (let line = endpointLabel (t_address t) (t_port t); key = idf line
      in if key \<in> set seen then add_targets idf n seen ts
         else if n \<ge> TLS_TARGET_LIMIT then (let (lines, out) = add_targets idf n (key # seen) ts in (lines, t # out))
         else (let (lines, out) = add_targets idf (n + 1) (key # seen) ts in (line # lines, out)))"

(* src features/discovery/ConnectQueue.tsx 84-110 targetPlan *)
definition plan_lines :: "(string \<Rightarrow> string) \<Rightarrow> string \<Rightarrow> tls_target list \<Rightarrow> string list \<times> tls_target list" where
  "plan_lines idf existingRaw targets =
     (let (lines, seen) = keep_existing idf [] (split_on NL existingRaw);
          (added, notAdded) = add_targets idf (length lines) seen targets
      in (lines @ added, notAdded))"

(* src features/discovery/ConnectQueue.tsx 109-109 targetPlan *)
definition targetPlan :: "(string \<Rightarrow> string) \<Rightarrow> string \<Rightarrow> tls_target list \<Rightarrow> string \<times> tls_target list" where
  "targetPlan idf existingRaw targets = (let (lines, notAdded) = plan_lines idf existingRaw targets in (join_with [NL] lines, notAdded))"

text \<open>\<open>saved\<close> is the text of the saved connector's \<open>targets\<close>.\<close>

(* src features/discovery/ConnectQueue.tsx 112-120 targetsStillListed *)
definition targetsStillListed :: "(string \<Rightarrow> string) \<Rightarrow> string \<Rightarrow> tls_target list \<Rightarrow> tls_target list" where
  "targetsStillListed idf saved targets =
     (let savedLines = filter (\<lambda>k. k \<noteq> []) (map idf (split_on NL saved))
      in filter (\<lambda>t. idf (endpointLabel (t_address t) (t_port t)) \<in> set savedLines) targets)"

subsection \<open>The step for the probe\<close>

(* src api/model/connector.ts 22-24 Connector *)
record probe_connector =
  pc_id :: string
  pc_name :: string
  pc_type :: string
  pc_managedBy :: "string option"

text \<open>
  \<open>pr_list\<close> is the list of connectors as far as it is read; the detail is that of the selected probe, with the time
  of its last success. \<open>pr_since\<close> is when which probe was selected.
\<close>

(* src features/discovery/ConnectQueue.tsx 141-172 TLSProbeStep *)
record probe_step =
  pr_list :: "probe_connector list option"
  pr_loading :: bool
  pr_listError :: bool
  pr_selectedId :: string
  pr_detail :: "string option"
  pr_detailError :: bool
  pr_fetchedAfterMount :: bool
  pr_updatedAt :: int
  pr_since :: "string \<times> int"

text \<open>Probes that are kept in a configuration file cannot be edited here.\<close>

(* src features/discovery/ConnectQueue.tsx 149-151 probes *)
definition probes :: "probe_step \<Rightarrow> probe_connector list" where
  "probes p = filter (\<lambda>c. pc_type c = ''tlsprobe'' \<and> pc_managedBy c \<noteq> Some ''config'' \<and> pc_managedBy c \<noteq> Some ''config-orphaned'')
     (from_opt [] (pr_list p))"

(* src features/discovery/ConnectQueue.tsx 153-153 selectedProbe *)
definition selectedProbe :: "probe_step \<Rightarrow> probe_connector option" where
  "selectedProbe p = (case find (\<lambda>c. pc_id c = pr_selectedId p) (probes p) of Some c \<Rightarrow> Some c | None \<Rightarrow> nth_opt (probes p) 0)"

(* src features/discovery/ConnectQueue.tsx 164-164 probeId *)
definition probeId :: "probe_step \<Rightarrow> string" where
  "probeId p = (case selectedProbe p of Some c \<Rightarrow> pc_id c | None \<Rightarrow> [])"

(* src features/discovery/ConnectQueue.tsx 166-170 TLSProbeStep *)
definition note_selection :: "int \<Rightarrow> probe_step \<Rightarrow> probe_step" where
  "note_selection now p = (if fst (pr_since p) = probeId p then p else p\<lparr>pr_since := (probeId p, now)\<rparr>)"

(* src features/discovery/ConnectQueue.tsx 171-171 freshDetail *)
definition freshDetail :: "probe_step \<Rightarrow> bool" where
  "freshDetail p \<longleftrightarrow> pr_fetchedAfterMount p \<and> fst (pr_since p) = probeId p \<and> snd (pr_since p) \<le> pr_updatedAt p"

datatype probe_view = Probe_loading | Probe_error | Detail_loading | Detail_error
  | Edit_probe string "string \<times> tls_target list" | Create_probe "string \<times> tls_target list"

(* src features/discovery/ConnectQueue.tsx 172-287 TLSProbeStep *)
definition probe_view :: "(string \<Rightarrow> string) \<Rightarrow> tls_target list \<Rightarrow> probe_step \<Rightarrow> probe_view" where
  "probe_view idf targets p =
     (let plan = targetPlan idf (from_opt [] (pr_detail p)) targets
      in if pr_loading p then Probe_loading
         else if pr_listError p then Probe_error
         else case selectedProbe p of
           Some c \<Rightarrow> if pr_detail p = None \<or> \<not> freshDetail p then (if pr_detailError p then Detail_error else Detail_loading)
             else Edit_probe (pc_id c) plan
         | None \<Rightarrow> Create_probe plan)"

text \<open>A probe is edited from what was read after it was selected, and created only where the list has none to edit.\<close>

lemma probe_form_opens:
  "probe_view idf targets p = Edit_probe i plan \<Longrightarrow> fst (pr_since p) = i \<and> snd (pr_since p) \<le> pr_updatedAt p
     \<and> (\<exists>txt. pr_detail p = Some txt \<and> plan = targetPlan idf txt targets) \<and> i \<in> pc_id ` set (probes p)"
  "probe_view idf targets p = Create_probe plan \<Longrightarrow> probes p = []"
proof -
  have member: "c \<in> set (probes p)" if "selectedProbe p = Some c" for c
    using that by (auto simp: selectedProbe_def nth_opt_def find_Some_iff split: option.splits if_splits)
  show "fst (pr_since p) = i \<and> snd (pr_since p) \<le> pr_updatedAt p
      \<and> (\<exists>txt. pr_detail p = Some txt \<and> plan = targetPlan idf txt targets) \<and> i \<in> pc_id ` set (probes p)"
    if "probe_view idf targets p = Edit_probe i plan"
    using that member by (auto simp: probe_view_def Let_def freshDetail_def probeId_def intro: rev_image_eqI split: if_splits option.splits)
  show "probes p = []" if "probe_view idf targets p = Create_probe plan"
    using that by (auto simp: probe_view_def selectedProbe_def nth_opt_def Let_def split: if_splits option.splits)
qed

subsection \<open>The plan is complete and what is saved is reported\<close>

lemma trim_not_blank: "c \<in> set s \<Longrightarrow> \<not> is_ws c \<Longrightarrow> trim s \<noteq> []"
  by (auto simp: trim_def trim_start_def trim_end_def dropWhile_eq_Nil_conv dest: bspec [of _ _ c]) (metis dropWhile_eq_Nil_conv hd_dropWhile list.set_sel(1))

text \<open>What the plan needs of the identity of a line.\<close>

locale line_identity =
  fixes idf :: "string \<Rightarrow> string"
  assumes of_trim: "idf (trim line) = idf line"
    and of_blank: "idf line = [] \<longleftrightarrow> trim line = []"
begin

abbreviation label_key :: "tls_target \<Rightarrow> string" where
  "label_key t \<equiv> idf (endpointLabel (t_address t) (t_port t))"

lemma kept:
  "keep_existing idf seen raws = (lines, seen') \<Longrightarrow>
     set seen' = set seen \<union> idf ` set lines \<and> distinct (map idf lines) \<and> idf ` set lines \<inter> set seen = {}
     \<and> list_all (\<lambda>l. trim l = l \<and> l \<noteq> [] \<and> (\<exists>raw \<in> set raws. l = trim raw)) lines
     \<and> (\<forall>raw \<in> set raws. trim raw = [] \<or> idf raw \<in> set seen')"
proof (induction raws arbitrary: seen lines seen')
  case (Cons raw raws)
  show ?case
  proof (cases "trim raw = [] \<or> idf (trim raw) \<in> set seen")
    case True
    with Cons.prems have "keep_existing idf seen raws = (lines, seen')" by (auto simp: Let_def)
    from Cons.IH [OF this] True show ?thesis by (auto simp: list_all_iff of_trim)
  next
    case False
    then obtain ls where ls: "keep_existing idf (idf (trim raw) # seen) raws = (ls, seen')" "lines = trim raw # ls"
      using Cons.prems by (auto simp: Let_def split: prod.splits)
    from Cons.IH [OF ls(1)] False show ?thesis
      unfolding ls(2) by (auto simp: list_all_iff of_trim)
  qed
qed simp

lemma added:
  "add_targets idf n seen ts = (lines, out) \<Longrightarrow>
     distinct (map idf lines) \<and> idf ` set lines \<inter> set seen = {}
     \<and> label_key ` set out \<inter> (set seen \<union> idf ` set lines) = {}
     \<and> label_key ` set ts \<subseteq> set seen \<union> idf ` set lines \<union> label_key ` set out
     \<and> set lines \<subseteq> (\<lambda>t. endpointLabel (t_address t) (t_port t)) ` set ts \<and> set out \<subseteq> set ts
     \<and> n + length lines \<le> max n TLS_TARGET_LIMIT
     \<and> (out \<noteq> [] \<longrightarrow> TLS_TARGET_LIMIT \<le> n + length lines)"
proof (induction ts arbitrary: n seen lines out)
  case (Cons t ts)
  let ?line = "endpointLabel (t_address t) (t_port t)"
  consider (seen) "idf ?line \<in> set seen" | (full) "idf ?line \<notin> set seen" "n \<ge> TLS_TARGET_LIMIT"
    | (new) "idf ?line \<notin> set seen" "\<not> n \<ge> TLS_TARGET_LIMIT" by blast
  then show ?case
  proof cases
    case seen
    with Cons.prems have "add_targets idf n seen ts = (lines, out)" by simp
    from Cons.IH [OF this] seen show ?thesis by auto
  next
    case full
    then obtain out' where o: "add_targets idf n (idf ?line # seen) ts = (lines, out')" "out = t # out'"
      using Cons.prems by (auto simp: Let_def split: prod.splits)
    from Cons.IH [OF o(1)] full show ?thesis unfolding o(2) by auto
  next
    case new
    then obtain ls where l: "add_targets idf (n + 1) (idf ?line # seen) ts = (ls, out)" "lines = ?line # ls"
      using Cons.prems by (auto simp: Let_def split: prod.splits)
    from Cons.IH [OF l(1)] new show ?thesis unfolding l(2) by auto
  qed
qed simp

lemma plan_split:
  assumes "plan_lines idf existingRaw targets = (lines, notAdded)"
  obtains seen old new where "keep_existing idf [] (split_on NL existingRaw) = (old, seen)" "lines = old @ new"
    "add_targets idf (length old) seen targets = (new, notAdded)"
  using assms by (auto simp: plan_lines_def split: prod.splits)

lemma plan_facts:
  assumes "plan_lines idf existingRaw targets = (lines, notAdded)"
  shows "distinct (map idf lines)"
    and "\<forall>raw \<in> set (split_on NL existingRaw). trim raw = [] \<or> idf raw \<in> idf ` set lines"
    and "label_key ` set targets \<subseteq> idf ` set lines \<union> label_key ` set notAdded"
    and "label_key ` set notAdded \<inter> idf ` set lines = {}" and "set notAdded \<subseteq> set targets"
    and "notAdded \<noteq> [] \<longrightarrow> TLS_TARGET_LIMIT \<le> length lines"
    and "[] \<notin> set lines"
    and "\<forall>l \<in> set lines. (\<exists>raw \<in> set (split_on NL existingRaw). l = trim raw) \<or> (\<exists>t \<in> set targets. l = endpointLabel (t_address t) (t_port t))"
proof -
  obtain seen old new where o: "keep_existing idf [] (split_on NL existingRaw) = (old, seen)" "lines = old @ new"
      "add_targets idf (length old) seen targets = (new, notAdded)" using plan_split [OF assms] .
  note k = kept [OF o(1)] and a = added [OF o(3)]
  have seen: "set seen = idf ` set old" using k by simp
  have label: "endpointLabel x p \<noteq> []" for x p by (simp add: endpointLabel_def)
  show "distinct (map idf lines)" using k a seen unfolding o(2) by auto
  show "\<forall>raw \<in> set (split_on NL existingRaw). trim raw = [] \<or> idf raw \<in> idf ` set lines" using k seen unfolding o(2) by auto
  show "label_key ` set targets \<subseteq> idf ` set lines \<union> label_key ` set notAdded" using a seen unfolding o(2) by auto
  show "label_key ` set notAdded \<inter> idf ` set lines = {}" using a seen unfolding o(2) by auto
  show "set notAdded \<subseteq> set targets" using a by simp
  show "notAdded \<noteq> [] \<longrightarrow> TLS_TARGET_LIMIT \<le> length lines" using a unfolding o(2) by simp
  have new: "\<forall>l \<in> set new. \<exists>t \<in> set targets. l = endpointLabel (t_address t) (t_port t)" using a by auto
  then have "[] \<notin> set new" using label by (metis (full_types))
  then show "[] \<notin> set lines" using k unfolding o(2) by (auto simp: list_all_iff)
  show "\<forall>l \<in> set lines. (\<exists>raw \<in> set (split_on NL existingRaw). l = trim raw) \<or> (\<exists>t \<in> set targets. l = endpointLabel (t_address t) (t_port t))"
    using k new unfolding o(2) by (auto simp: list_all_iff)
qed

lemma kept_length: "keep_existing idf seen raws = (lines, seen') \<Longrightarrow> length lines \<le> length raws"
  by (induction raws arbitrary: seen lines seen') (force simp: Let_def split: if_splits prod.splits)+

lemma plan_length:
  assumes "plan_lines idf existingRaw targets = (lines, notAdded)"
  shows "length lines \<le> max (length (split_on NL existingRaw)) TLS_TARGET_LIMIT"
proof -
  obtain seen old new where o: "keep_existing idf [] (split_on NL existingRaw) = (old, seen)" "lines = old @ new"
      "add_targets idf (length old) seen targets = (new, notAdded)" using plan_split [OF assms] .
  have "length old + length new \<le> max (length old) TLS_TARGET_LIMIT" using added [OF o(3)] by blast
  with kept_length [OF o(1)] show ?thesis unfolding o(2) by simp
qed

lemma listed_after_save:
  assumes plan: "plan_lines idf existingRaw targets = (lines, notAdded)" and free: "list_all (\<lambda>t. NL \<notin> set (t_address t)) targets"
  shows "targetsStillListed idf (join_with [NL] lines) targets = filter (\<lambda>t. label_key t \<notin> label_key ` set notAdded) targets"
proof -
  note f = plan_facts [OF plan]
  have no_nl: "NL \<notin> set (endpointLabel (t_address t) (t_port t))" if "t \<in> set targets" for t
    using free that show_nat_ok(2) [of "t_port t"] by (auto simp: endpointLabel_def list_all_iff NL_def is_digit_code code_of_def)
  have parts: "\<forall>w \<in> set lines. NL \<notin> set w"
  proof
    fix w assume "w \<in> set lines"
    with f(8) consider raw where "raw \<in> set (split_on NL existingRaw)" "w = trim raw"
      | t where "t \<in> set targets" "w = endpointLabel (t_address t) (t_port t)" by blast
    then show "NL \<notin> set w" by cases (use no_nl trim_set split_on_parts_free in blast)+
  qed
  have blank: "idf [] = []" using of_blank by (simp add: trim_def trim_start_def trim_end_def)
  have "set (filter (\<lambda>k. k \<noteq> []) (map idf (split_on NL (join_with [NL] lines)))) = idf ` set lines"
  proof (cases "lines = []")
    case False
    have trimmed: "trim w \<noteq> []" if "w \<in> set lines" for w
    proof -
      have "(\<exists>raw. w = trim raw) \<or> CHR '':'' \<in> set w" using f(8) that by (auto simp: endpointLabel_def)
      moreover have "w \<noteq> []" using f(7) that by blast
      ultimately show ?thesis using trim_not_blank [of "CHR '':''" w] by (auto simp: is_ws_def BOM_def)
    qed
    show ?thesis using of_blank trimmed by (auto simp: split_on_join [OF False parts])
  qed (simp add: blank)
  then have "targetsStillListed idf (join_with [NL] lines) targets = filter (\<lambda>t. label_key t \<in> idf ` set lines) targets"
    unfolding targetsStillListed_def Let_def by simp
  also have "\<dots> = filter (\<lambda>t. label_key t \<notin> label_key ` set notAdded) targets"
    by (rule filter_cong [OF refl]) (use f(3,4) in blast)
  finally show ?thesis .
qed

end

lemma targetIdentity_blank: "targetIdentity ip6 num line = [] \<longleftrightarrow> trim line = []"
proof
  assume "trim line = []"
  then show "targetIdentity ip6 num line = []" by (simp add: targetIdentity_def bracketed_def starts_with_def last_index_upto_def)
next
  assume "targetIdentity ip6 num line = []"
  then show "trim line = []" by (auto simp: targetIdentity_def Let_def split: prod.splits if_splits)
qed

interpretation target: line_identity "targetIdentity ip6 num" for ip6 num
  by unfold_locales (simp add: targetIdentity_def, rule targetIdentity_blank)

text \<open>
  What is written to a probe is complete and what is reported is true. However the existing targets are written, no two lines of the
  plan mean the same target, every existing one is still listed, every found one is listed or left
  out, and one is only left out when the limit of 100 is reached, which the plan does not exceed by itself.
  When the plan is saved as it is, exactly the found targets that were not left out are reported as monitored.
\<close>

theorem tls_plan_complete:
  assumes "targetPlan (targetIdentity ip6 num) existingRaw targets = (txt, notAdded)"
    and "list_all (\<lambda>t. NL \<notin> set (t_address t)) targets"
  shows "(\<exists>lines. txt = join_with [NL] lines \<and> distinct (map (targetIdentity ip6 num) lines)
        \<and> length lines \<le> max (length (split_on NL existingRaw)) TLS_TARGET_LIMIT
        \<and> list_all (\<lambda>raw. trim raw = [] \<or> targetIdentity ip6 num raw \<in> targetIdentity ip6 num ` set lines) (split_on NL existingRaw)
        \<and> (notAdded = [] \<or> TLS_TARGET_LIMIT \<le> length lines))
    \<and> set notAdded \<subseteq> set targets
    \<and> targetsStillListed (targetIdentity ip6 num) txt targets =
        filter (\<lambda>t. targetIdentity ip6 num (endpointLabel (t_address t) (t_port t))
          \<notin> (\<lambda>t. targetIdentity ip6 num (endpointLabel (t_address t) (t_port t))) ` set notAdded) targets"
proof -
  obtain lines where plan: "plan_lines (targetIdentity ip6 num) existingRaw targets = (lines, notAdded)" "txt = join_with [NL] lines"
    using assms(1) by (auto simp: targetPlan_def split: prod.splits)
  note f = target.plan_facts [OF plan(1)]
  show ?thesis
    using plan(2) f(1,2,5,6) target.plan_length [OF plan(1)] target.listed_after_save [OF plan(1) assms(2)]
    by (auto simp: list_all_iff)
qed

definition example_targets :: "tls_target list" where
  "example_targets = map (\<lambda>a. \<lparr>t_address = a, t_port = 443, t_source = Source_range, t_monitoredBy = None\<rparr>) [''10.0.0.2'', ''fd00::1'']"

lemma number_text_443: "number_text num ''443'' = num 443"
proof -
  have "trim ''443'' = ''443''" "map to_lower (take 2 ''443'') = ''44''" "unsigned_decimal ''443'' = Some 443" by code_simp+
  then have "js_number ''443'' = Some 443" by (simp add: js_number_def finite_number_def Let_def)
  then show ?thesis by (simp add: number_text_def)
qed

lemma example_identities:
  "targetIdentity Some (\<lambda>_. ''443'') ''[FD00::1]:443'' = ''fd00::1|443''"
  "targetIdentity Some (\<lambda>_. ''443'') (endpointLabel ''fd00::1'' 443) = ''fd00::1|443''"
  "targetIdentity Some (\<lambda>_. ''443'') (endpointLabel ''10.0.0.2'' 443) = ''10.0.0.2|443''"
proof -
  have "trim ''[FD00::1]:443'' = ''[FD00::1]:443''" "bracketed ''[FD00::1]:443'' = Some (''FD00::1'', ''443'')" "map lower_unit ''FD00::1'' = ''fd00::1''"
    by code_simp+
  then show "targetIdentity Some (\<lambda>_. ''443'') ''[FD00::1]:443'' = ''fd00::1|443''" by (simp add: targetIdentity_def number_text_443)
  have "trim (endpointLabel ''fd00::1'' 443) = ''[fd00::1]:443''" "bracketed ''[fd00::1]:443'' = Some (''fd00::1'', ''443'')" "map lower_unit ''fd00::1'' = ''fd00::1''"
    by code_simp+
  then show "targetIdentity Some (\<lambda>_. ''443'') (endpointLabel ''fd00::1'' 443) = ''fd00::1|443''" by (simp add: targetIdentity_def number_text_443)
  have "trim (endpointLabel ''10.0.0.2'' 443) = ''10.0.0.2:443''" "bracketed ''10.0.0.2:443'' = None" "map lower_unit ''10.0.0.2'' = ''10.0.0.2''"
    "last_index_upto CHR '':'' (length ''10.0.0.2:443'') ''10.0.0.2:443'' = Some 8"
    by code_simp+
  then show "targetIdentity Some (\<lambda>_. ''443'') (endpointLabel ''10.0.0.2'' 443) = ''10.0.0.2|443''"
    by (simp add: targetIdentity_def number_text_443)
qed

lemma tls_plan_complete_witness:
  "targetPlan (targetIdentity Some (\<lambda>_. ''443'')) ''[FD00::1]:443'' example_targets = (''[FD00::1]:443'' @ [NL] @ endpointLabel ''10.0.0.2'' 443, [])
    \<and> targetsStillListed (targetIdentity Some (\<lambda>_. ''443'')) (''[FD00::1]:443'' @ [NL] @ endpointLabel ''10.0.0.2'' 443) example_targets = example_targets"
proof -
  have "split_on NL ''[FD00::1]:443'' = [''[FD00::1]:443'']" "trim ''[FD00::1]:443'' = ''[FD00::1]:443''" by code_simp+
  then have plan: "targetPlan (targetIdentity Some (\<lambda>_. ''443'')) ''[FD00::1]:443'' example_targets
      = (''[FD00::1]:443'' @ [NL] @ endpointLabel ''10.0.0.2'' 443, [])"
    by (simp add: targetPlan_def plan_lines_def example_targets_def example_identities TLS_TARGET_LIMIT_def)
  moreover have "list_all (\<lambda>t. NL \<notin> set (t_address t)) example_targets" by code_simp
  ultimately show ?thesis using tls_plan_complete [OF plan] by simp
qed

text \<open>Malformed ports of one host count as the same target, so of two such lines the second is dropped.\<close>

lemma malformed_lines_dropped:
  "fst (targetPlan (targetIdentity ip6 num) (''h:x'' @ [NL] @ ''h:y'') []) = ''h:x''"
proof -
  have "split_on NL (''h:x'' @ [NL] @ ''h:y'') = [''h:x'', ''h:y'']" and t: "trim ''h:x'' = ''h:x''" "trim ''h:y'' = ''h:y''"
    and b: "bracketed ''h:x'' = None" "bracketed ''h:y'' = None" "last_index_upto CHR '':'' (length ''h:x'') ''h:x'' = Some 1" "last_index_upto CHR '':'' (length ''h:y'') ''h:y'' = Some 1"
    and n: "number_text num ''x'' = ''NaN''" "number_text num ''y'' = ''NaN''" "map lower_unit ''h'' = ''h''"
    by code_simp+
  moreover have "targetIdentity ip6 num ''h:x'' = ''h|NaN''" "targetIdentity ip6 num ''h:y'' = ''h|NaN''"
    using t b n by (simp_all add: targetIdentity_def)
  ultimately show ?thesis by (simp add: targetPlan_def plan_lines_def)
qed

subsection \<open>The queue as a machine\<close>

text \<open>
  \<open>qs_index\<close> is the rendered step, \<open>qs_current\<close> and \<open>qs_stopped\<close> are the references that late
  callbacks read. \<open>qs_open\<close> is whether the flow shows the queue; \<open>qs_store\<close> is the scan of the store. The
  rest records what was reported: the steps left, the ends, the connectors.
\<close>

(* src features/discovery/ConnectQueue.tsx 313-319 ConnectQueue *)
record queue_state =
  qs_index :: nat
  qs_current :: nat
  qs_stopped :: bool
  qs_open :: bool
  qs_store :: discovery_store
  qs_left :: "nat list"
  qs_finished :: nat
  qs_stops :: nat
  qs_created :: "string list"

definition queue_init :: "discovery_store \<Rightarrow> queue_state" where
  "queue_init store = \<lparr>qs_index = 0, qs_current = 0, qs_stopped = False, qs_open = True, qs_store = store, qs_left = [],
     qs_finished = 0, qs_stops = 0, qs_created = []\<rparr>"

(* src features/discovery/DiscoveryFlow.tsx 44-47 closeQueue *)
definition closeQueue :: "queue_state \<Rightarrow> queue_state" where
  "closeQueue q = q\<lparr>qs_open := False\<rparr>"

(* src features/discovery/ConnectQueue.tsx 321-328 advanceFrom *)
definition advanceFrom :: "queue_item list \<Rightarrow> nat \<Rightarrow> queue_state \<Rightarrow> queue_state" where
  "advanceFrom items source q =
     (if qs_stopped q \<or> qs_current q \<noteq> source then q
      else let q' = q\<lparr>qs_current := source + 1, qs_left := qs_left q @ [source]\<rparr>
        in if source + 1 \<ge> length items then closeQueue (q'\<lparr>qs_finished := qs_finished q' + 1\<rparr>)
           else q'\<lparr>qs_index := source + 1\<rparr>)"

(* src features/discovery/ConnectQueue.tsx 330-333 stop *)
definition stop_queue :: "queue_state \<Rightarrow> queue_state" where
  "stop_queue q = closeQueue (q\<lparr>qs_stopped := True, qs_stops := qs_stops q + 1\<rparr>)"

text \<open>
  What a saved step marks in the store. For the probe \<open>monitored\<close> are the found targets that the saved
  probe lists; nothing is marked when there is none.
\<close>

(* src features/discovery/DiscoveryFlow.tsx 62-81 DiscoveryFlow *)
fun connection_of :: "string \<Rightarrow> tls_target list \<Rightarrow> queue_item \<Rightarrow> discovery_connection list" where
  "connection_of i monitored (Item_candidate c) = [Conn_candidate i c]"
| "connection_of i monitored (Item_addOn c a) = [Conn_addOn i a]"
| "connection_of i monitored (Item_tls ts) = (if monitored \<noteq> [] then [Conn_tls i monitored] else [])"

(* src features/discovery/DiscoveryFlow.tsx 62-81 DiscoveryFlow *)
definition report_saved :: "string \<Rightarrow> tls_target list \<Rightarrow> queue_item \<Rightarrow> queue_state \<Rightarrow> queue_state" where
  "report_saved i monitored item q = q\<lparr>qs_store := (if connection_of i monitored item = [] then qs_store q else markConnected (connection_of i monitored item) (qs_store q)),
     qs_created := qs_created q @ [i]\<rparr>"

text \<open>
  \<open>Saved_step\<close> is the answer to the form of a step that was shown, at any later time; frames reach
  the store meanwhile. Cancelling the form of a probe leaves its step as skipping does.
\<close>

datatype queue_event = Skip_step | Stop_queue | Saved_step nat string "tls_target list" | Store_event discovery_event

(* src features/discovery/ConnectQueue.tsx 329-352 ConnectQueue *)
fun queue_step :: "queue_item list \<Rightarrow> queue_event \<Rightarrow> queue_state \<Rightarrow> queue_state" where
  "queue_step items Skip_step q = (if qs_open q \<and> qs_index q < length items then advanceFrom items (qs_index q) q else q)"
| "queue_step items Stop_queue q = (if qs_open q \<and> qs_index q < length items then stop_queue q else q)"
| "queue_step items (Saved_step n i monitored) q = (if n \<le> qs_index q \<and> n < length items
     then advanceFrom items n (report_saved i monitored (items ! n) q) else q)"
| "queue_step items (Store_event e) q = q\<lparr>qs_store := discovery_apply e (qs_store q)\<rparr>"

abbreviation queue_run :: "queue_item list \<Rightarrow> discovery_store \<Rightarrow> queue_event list \<Rightarrow> queue_state" where
  "queue_run items store es \<equiv> fold (queue_step items) es (queue_init store)"

text \<open>The place that is shown, and the form of a step with its values; the form of a probe is above.\<close>

definition is_candidate :: "queue_item \<Rightarrow> bool" where
  "is_candidate item = (case item of Item_candidate c \<Rightarrow> True | _ \<Rightarrow> False)"

(* src features/discovery/ConnectQueue.tsx 335-341 position *)
definition queue_position :: "queue_item list \<Rightarrow> nat \<Rightarrow> nat \<Rightarrow> (string \<times> nat \<times> nat) option" where
  "queue_position items totalCandidates n =
     (if length items = totalCandidates
      then (if is_candidate (items ! n) then Some (''discovery.queue.position'', length (filter is_candidate (take (n + 1) items)), totalCandidates) else None)
      else Some (''discovery.queue.stepPosition'', n + 1, length items))"

(* src features/discovery/ConnectQueue.tsx 354-403 ConnectQueue *)
fun step_form :: "queue_item \<Rightarrow> (string \<times> (string \<times> string) list) option" where
  "step_form (Item_candidate c) = Some (c_type c, [(c_urlField c, c_url c), (''name'', c_name c @ '' ('' @ c_address c @ '')'')])"
| "step_form (Item_addOn c a) = Some (ao_type a, [(''url'', ao_url a),
     (''name'', (if ao_type a = ''dnsresolver'' then ''discovery.dnsResolverAddon'' else ao_type a) @ '' ('' @ c_address c @ '')'')])"
| "step_form (Item_tls ts) = None"

subsection \<open>Each step once and in order\<close>

definition queue_ok :: "queue_item list \<Rightarrow> queue_state \<Rightarrow> bool" where
  "queue_ok items q \<longleftrightarrow> qs_left q = [0..<qs_current q] \<and> qs_current q \<le> length items
     \<and> qs_index q \<le> qs_current q \<and> (qs_current q < length items \<longrightarrow> qs_index q = qs_current q)
     \<and> qs_finished q = (if qs_current q = length items \<and> items \<noteq> [] then 1 else 0)
     \<and> qs_stops q = (if qs_stopped q then 1 else 0)
     \<and> (qs_open q \<longleftrightarrow> qs_finished q + qs_stops q = 0) \<and> qs_finished q + qs_stops q \<le> 1"

lemma queue_ok_advance:
  assumes "queue_ok items q" "source < length items"
  shows "queue_ok items (advanceFrom items source q)"
  using assms by (auto simp: queue_ok_def advanceFrom_def closeQueue_def Let_def split: if_splits)

lemma queue_ok_report: "queue_ok items q \<Longrightarrow> queue_ok items (report_saved i m item q)"
  by (simp add: queue_ok_def report_saved_def)

lemma queue_ok_step: "queue_ok items q \<Longrightarrow> queue_ok items (queue_step items e q)"
  by (cases e) (simp_all add: queue_ok_advance queue_ok_report, auto simp: queue_ok_def stop_queue_def closeQueue_def)

lemma queue_ok_init: "queue_ok items (queue_init store)"
  by (simp add: queue_ok_def queue_init_def)

interpretation queue_machine: started_machine "queue_step items" "\<lambda>_. True" "queue_ok items" "queue_init store" for items store
  by unfold_locales (rule queue_ok_step, assumption, rule queue_ok_init)

text \<open>Where a queue stands, and that an ended queue stays there.\<close>

definition queue_place :: "queue_state \<Rightarrow> nat \<times> nat \<times> nat list \<times> nat \<times> nat \<times> bool" where
  "queue_place q = (qs_index q, qs_current q, qs_left q, qs_finished q, qs_stops q, qs_open q)"

lemma ended_step:
  assumes "queue_ok items q" "\<not> qs_open q"
  shows "queue_place (queue_step items e q) = queue_place q"
proof -
  have "qs_stopped q \<or> qs_current q = length items"
    using assms by (auto simp: queue_ok_def split: if_splits)
  then show ?thesis
    using assms(2) by (cases e) (auto simp: queue_place_def advanceFrom_def report_saved_def Let_def)
qed

lemma ended_stays:
  "queue_ok items q \<Longrightarrow> \<not> qs_open q \<Longrightarrow> queue_place (fold (queue_step items) es q) = queue_place q"
proof (induction es arbitrary: q)
  case (Cons e es)
  have p: "queue_place (queue_step items e q) = queue_place q" by (rule ended_step [OF Cons.prems])
  then have "\<not> qs_open (queue_step items e q)" using Cons.prems(2) by (simp add: queue_place_def)
  then show ?case using Cons.IH [OF queue_ok_step [OF Cons.prems(1)]] p by simp
qed simp

text \<open>
  Claim C14. A queue goes through its steps once and in order, however late the answers to its forms come and whatever is skipped: the steps
  left are the first ones, each once; the queue ends once, either finished, which is when and only when
  every step was left, or stopped. Once it ended, nothing that happens later moves it: the step
  shown, the steps left and the reported ends stay what they are.
\<close>

theorem queue_in_order:
  "let q = queue_run items store es in
     qs_left q = [0..<qs_current q] \<and> qs_current q \<le> length items
     \<and> qs_finished q = (if qs_left q = [0..<length items] \<and> items \<noteq> [] then 1 else 0)
     \<and> qs_finished q + qs_stops q = (if qs_open q then 0 else 1)
     \<and> (qs_open q \<and> items \<noteq> [] \<longrightarrow> qs_index q = qs_current q \<and> qs_index q < length items)
     \<and> (\<not> qs_open q \<longrightarrow> queue_place (queue_run items store (es @ later)) = queue_place q)"
proof -
  define q where "q = queue_run items store es"
  have ok: "queue_ok items q" unfolding q_def by (rule queue_machine.always) simp
  have ended: "\<not> qs_open q \<longrightarrow> queue_place (queue_run items store (es @ later)) = queue_place q"
    using ended_stays [OF ok] by (simp add: q_def)
  have eq: "qs_left q = [0..<length items] \<longleftrightarrow> qs_current q = length items"
  proof
    assume "qs_left q = [0..<length items]"
    with ok have "length [0..<qs_current q] = length [0..<length items]" by (simp add: queue_ok_def)
    then show "qs_current q = length items" by simp
  qed (use ok in \<open>simp add: queue_ok_def\<close>)
  show ?thesis unfolding q_def [symmetric] Let_def eq using ok ended unfolding queue_ok_def by (auto split: if_splits)
qed

text \<open>A queue of two steps: skipped, then saved; and one that is stopped before the save of its first step is answered.\<close>

lemma queue_in_order_witness:
  "qs_left (queue_run [Item_tls [], Item_tls []] None [Skip_step, Saved_step 0 ''k'' [], Saved_step 1 ''l'' [], Stop_queue]) = [0..<2]
    \<and> qs_open (queue_run [Item_tls [], Item_tls []] None [Skip_step]) \<and> qs_index (queue_run [Item_tls [], Item_tls []] None [Skip_step]) < 2
    \<and> qs_left (queue_run [Item_tls [], Item_tls []] None [Stop_queue, Saved_step 0 ''k'' []]) = []"
proof -
  let ?items = "[Item_tls [], Item_tls []]"
  have "qs_left (queue_run ?items None [Skip_step, Saved_step 0 ''k'' [], Saved_step 1 ''l'' [], Stop_queue]) = [0, 1]"
    "qs_open (queue_run ?items None [Skip_step])" "\<not> qs_open (queue_run ?items None [Stop_queue])"
    "qs_left (queue_run ?items None [Stop_queue]) = []" by code_simp+
  then show ?thesis
    using queue_in_order [where items = ?items and store = None and es = "[Skip_step]" and later = "[]"]
      queue_in_order [where items = ?items and store = None and es = "[Stop_queue]" and later = "[Saved_step 0 ''k'' []]"]
    by (simp add: upt_rec Let_def queue_place_def)
qed

subsection \<open>What was connected is not offered again\<close>

definition taken :: "discovery_candidate \<Rightarrow> discovery_store \<Rightarrow> bool" where
  "taken c store \<longleftrightarrow> (\<exists>scan. store = Some scan \<and> ident c \<in> ident ` set (sc_candidates scan)
     \<and> (\<forall>x \<in> set (sc_candidates scan). ident x = ident c \<longrightarrow> truthy_id (c_connectorId x)))"

fun known_ids :: "discovery_event \<Rightarrow> bool" where
  "known_ids (Connected cs) = list_all (\<lambda>m. conn_id m \<noteq> []) cs"
| "known_ids _ = True"

fun queue_ids :: "queue_event \<Rightarrow> bool" where
  "queue_ids (Saved_step n i m) = (i \<noteq> [])"
| "queue_ids (Store_event e) = known_ids e"
| "queue_ids _ = True"

lemma mark_keeps_id:
  assumes "list_all (\<lambda>m. conn_id m \<noteq> []) cs" "truthy_id (c_connectorId c)"
  shows "truthy_id (c_connectorId (mark_candidate cs c))"
  using assms by (auto simp: truthy_id_def list_all_iff find_Some_iff split: option.split)

lemma taken_apply:
  assumes "taken c store" "known_ids e"
  shows "taken c (discovery_apply e store)"
proof (cases e)
  case (Connected cs)
  with assms show ?thesis by (force simp: taken_def markConnected_Some image_iff intro: mark_keeps_id)
next
  case (Candidate ev)
  with assms show ?thesis
    by (auto simp: taken_def applyCandidate_def on_running_def ident_new list_ex_iff sameCandidate_ident) blast
qed (use assms in \<open>auto simp: taken_def applyProgress_def applyComplete_def on_running_def\<close>)

lemma taken_mark:
  assumes "store = Some scan" "ident c \<in> ident ` set (sc_candidates scan)" "i \<noteq> []"
  shows "taken c (markConnected [Conn_candidate i c] store)"
  using assms by (force simp: taken_def markConnected_Some truthy_id_def sameCandidate_ident image_iff)

lemma advance_store [simp]: "qs_store (advanceFrom items n q) = qs_store q"
  by (simp add: advanceFrom_def closeQueue_def Let_def)

lemma taken_step:
  assumes "taken c (qs_store q)" "queue_ids e"
  shows "taken c (qs_store (queue_step items e q))"
proof (cases e)
  case (Saved_step n i m)
  have "known_ids (Connected (connection_of i m item))" for item using assms(2) Saved_step by (cases item) simp_all
  then have "taken c (markConnected (connection_of i m item) (qs_store q))" for item
    using taken_apply [OF assms(1)] by fastforce
  with assms Saved_step show ?thesis by (simp add: report_saved_def)
next
  case (Store_event ev)
  with assms show ?thesis using taken_apply by simp
qed (use assms in \<open>simp_all add: stop_queue_def closeQueue_def\<close>)

lemma taken_run: "taken c (qs_store q) \<Longrightarrow> list_all queue_ids es \<Longrightarrow> taken c (qs_store (fold (queue_step items) es q))"
  by (induction es arbitrary: q) (simp_all add: taken_step)

lemma set_panel_candidates [simp]: "set (panel_candidates lc scan) = set (case scan of None \<Rightarrow> [] | Some s \<Rightarrow> sc_candidates s)"
  unfolding panel_candidates_def by (metis set_mset_mset sort_by_mset)

lemma chosen_not_taken: "taken c scan \<Longrightarrow> x \<in> set (chosen lc scan s) \<Longrightarrow> ident x \<noteq> ident c"
  by (auto simp: taken_def chosen_def)

text \<open>
  What was connected is not offered again: once a connector was saved for a candidate of the scan, whether or not the queue
  was skipped on or stopped before the answer, no later frame, save or selection makes the panel hand that
  candidate to a queue.
\<close>

theorem connected_not_offered:
  assumes "n \<le> qs_index (queue_run items store before)" "n < length items" "items ! n = Item_candidate c" "i \<noteq> []"
    and "qs_store (queue_run items store before) = Some scan" "ident c \<in> ident ` set (sc_candidates scan)"
    and "list_all queue_ids after"
    and "x \<in> set (chosen lc (qs_store (queue_run items store (before @ Saved_step n i m # after))) s)"
  shows "ident x \<noteq> ident c"
proof -
  let ?q = "queue_run items store before"
  have "taken c (markConnected [Conn_candidate i c] (qs_store ?q))" by (rule taken_mark [OF assms(5,6,4)])
  then have "taken c (qs_store (queue_step items (Saved_step n i m) ?q))"
    using assms(1-3) by (simp add: report_saved_def)
  then have "taken c (qs_store (queue_run items store (before @ Saved_step n i m # after)))"
    using taken_run [OF _ assms(7)] by simp
  then show ?thesis using chosen_not_taken assms(8) by blast
qed

definition example_candidate :: "string \<Rightarrow> discovery_candidate" where
  "example_candidate a = \<lparr>c_type = ''docker'', c_name = ''Docker'', c_address = a, c_port = 80, c_url = ''http://x'', c_urlField = ''url'',
     c_source = None, c_addOns = None, c_connectorId = None\<rparr>"

definition example_scan :: discovery_scan where
  "example_scan = \<lparr>sc_id = ''s'', sc_cidr = ''r'', sc_ranges = None, sc_includeInventory = None, sc_askNetwork = None, sc_state = Completed,
     sc_startedAt = ''t'', sc_endedAt = None, sc_done = 2, sc_total = 2, sc_answered = 2, sc_partial = False,
     sc_candidates = [example_candidate ''10.0.0.1'', example_candidate ''10.0.0.2''], sc_sources = None, sc_skipped = None,
     sc_passiveAnswered = None, sc_tlsTargets = None\<rparr>"

definition example_selection :: panel_selection where
  "example_selection = toggle_candidate (example_candidate ''10.0.0.2'') (toggle_candidate (example_candidate ''10.0.0.1'') (render_selection (Some example_scan) fresh_selection))"

text \<open>Both are selected; the first is skipped and its form answered late, then the queue is stopped.\<close>

definition example_items :: "queue_item list" where
  "example_items = map Item_candidate (map example_candidate [''10.0.0.1'', ''10.0.0.2''])"

lemma connected_not_offered_witness:
  "example_candidate ''10.0.0.2'' \<in> set (chosen (\<lambda>_ _. 0)
      (qs_store (queue_run example_items (Some example_scan) ([Skip_step] @ Saved_step 0 ''k'' [] # [Stop_queue]))) example_selection)
    \<and> ident (example_candidate ''10.0.0.2'') \<noteq> ident (example_candidate ''10.0.0.1'')"
proof -
  let ?final = "qs_store (queue_run example_items (Some example_scan) ([Skip_step] @ Saved_step 0 ''k'' [] # [Stop_queue]))"
  have "map_option sc_candidates ?final = Some [(example_candidate ''10.0.0.1'')\<lparr>c_connectorId := Some ''k''\<rparr>, example_candidate ''10.0.0.2'']"
    by code_simp
  then obtain u where u: "?final = Some u" "sc_candidates u = [(example_candidate ''10.0.0.1'')\<lparr>c_connectorId := Some ''k''\<rparr>, example_candidate ''10.0.0.2'']"
    by auto
  have "candidateKey (example_candidate ''10.0.0.2'') \<noteq> candidateKey (example_candidate ''10.0.0.1'')" by code_simp
  then have x: "example_candidate ''10.0.0.2'' \<in> set (chosen (\<lambda>_ _. 0) ?final example_selection)"
    unfolding u(1) chosen_def by (simp add: u(2)) (simp add: example_selection_def toggle_candidate_def render_selection_def fresh_selection_def truthy_id_def example_candidate_def)
  have "0 \<le> qs_index (queue_run example_items (Some example_scan) [Skip_step])" "0 < length example_items"
    "example_items ! 0 = Item_candidate (example_candidate ''10.0.0.1'')" "''k'' \<noteq> []" "list_all queue_ids [Stop_queue]"
    by (simp_all add: example_items_def)
  moreover have "qs_store (queue_run example_items (Some example_scan) [Skip_step]) = Some example_scan"
    "ident (example_candidate ''10.0.0.1'') \<in> ident ` set (sc_candidates example_scan)" by code_simp+
  ultimately show ?thesis using connected_not_offered [OF _ _ _ _ _ _ _ x] x by blast
qed

definition example_paired :: discovery_scan where
  "example_paired = example_scan\<lparr>sc_candidates := [(example_candidate ''10.0.0.1'')\<lparr>c_addOns := Some [\<lparr>ao_type = ''dns'', ao_url = ''u'', ao_connectorId = None\<rparr>]\<rparr>]\<rparr>"

text \<open>An add-on checked without its candidate.\<close>

lemma queue_is_selection_witness:
  "length (case connectSelected (\<lambda>_ _. 0) (Some example_paired)
        (toggleAddOn (example_candidate ''10.0.0.1'') \<lparr>ao_type = ''dns'', ao_url = ''u'', ao_connectorId = None\<rparr> fresh_selection) of
      (cs, addOns, ts) \<Rightarrow> queueItems cs addOns ts) = 1"
proof -
  have "distinct (map pair_key (all_pairs (panel_candidates (\<lambda>_ _. 0) (Some example_paired))))" by code_simp
  moreover have "totalSelected (\<lambda>_ _. 0) (Some example_paired)
        (toggleAddOn (example_candidate ''10.0.0.1'') \<lparr>ao_type = ''dns'', ao_url = ''u'', ao_connectorId = None\<rparr> fresh_selection) = 1"
    by code_simp
  ultimately show ?thesis using queue_is_selection by metis
qed

end
