(* ===== verification/ScanForm.thy ===== *)
theory ScanForm
  imports IpAddress JsValues Machines "HOL-Library.AList"
begin

text \<open>
  The form that starts a scan (\<open>features/discovery/DiscoveryPanel.tsx\<close>): the ranges as chips with a
  draft, the two options, the request and the errors of its answer, which name ranges by their index.
  The lemmas show what a request can hold and when a message stands at the range it is about.
\<close>

subsection \<open>Errors of a start\<close>

(* src features/discovery/DiscoveryPanel.tsx 38-38 StartError *)
datatype start_kind = Field_error | Conflict | Rate_limited | Other_error

(* src features/discovery/DiscoveryPanel.tsx 37-42 StartError *)
record start_error =
  se_kind :: start_kind
  se_message :: "string option"
  se_rangeErrors :: "(nat \<times> string) list"
  se_retryMinutes :: "int option"

text \<open>A failed start: no response, or a status with details (field and message), a message and \<open>Number\<close> of the seconds to wait.\<close>

record start_failure =
  sf_status :: "nat option"
  sf_details :: "(string option \<times> string option) list"
  sf_message :: "string option"
  sf_seconds :: "rat option"

(* src features/discovery/DiscoveryPanel.tsx 54-54 startErrorFrom *)
definition range_field :: "string \<Rightarrow> nat option" where
  "range_field field =
     (let digits = takeWhile is_digit (drop 7 field)
      in if starts_with ''ranges['' field \<and> digits \<noteq> [] \<and> drop (7 + length digits) field = '']'' then Some (nat_of_digits digits) else None)"

(* src features/discovery/DiscoveryPanel.tsx 54-55 startErrorFrom *)
definition detail_index :: "string option \<Rightarrow> nat option" where
  "detail_index field = (case field of None \<Rightarrow> None
     | Some f \<Rightarrow> (case range_field f of Some i \<Rightarrow> Some i | None \<Rightarrow> if f = ''cidr'' then Some 0 else None))"

text \<open>The latest message of an index replaces the earlier ones.\<close>

(* src features/discovery/DiscoveryPanel.tsx 53-57 startErrorFrom *)
fun range_errors :: "(string option \<times> string option) list \<Rightarrow> (nat \<times> string) list \<Rightarrow> (nat \<times> string) list" where
  "range_errors [] errs = errs"
| "range_errors ((field, msg) # ds) errs = range_errors ds
     (case (detail_index field, msg) of (Some i, Some m) \<Rightarrow> if m \<noteq> [] then AList.update i m errs else errs | _ \<Rightarrow> errs)"

(* src features/discovery/DiscoveryPanel.tsx 44-73 startErrorFrom *)
definition startErrorFrom :: "start_failure \<Rightarrow> start_error" where
  "startErrorFrom e =
     (let plain = (\<lambda>k. \<lparr>se_kind = k, se_message = None, se_rangeErrors = [], se_retryMinutes = None\<rparr>)
      in if sf_status e = Some 400 then
           \<lparr>se_kind = Field_error,
            se_message = (case Option.bind (find (\<lambda>d. detail_index (fst d) = None) (sf_details e)) snd of
                Some m \<Rightarrow> Some m | None \<Rightarrow> sf_message e),
            se_rangeErrors = range_errors (sf_details e) [], se_retryMinutes = None\<rparr>
         else if sf_status e = Some 409 then plain Conflict
         else if sf_status e = Some 429 then
           (plain Rate_limited)\<lparr>se_retryMinutes := (case sf_seconds e of Some s \<Rightarrow> if 0 < s then Some \<lceil>s / 60\<rceil> else None | None \<Rightarrow> None)\<rparr>
         else plain Other_error)"

subsection \<open>The form\<close>

(* src api/model/discoveryScanRequest.ts 10-17 DiscoveryScanRequest *)
record scan_request =
  sq_ranges :: "string list"
  sq_includeInventory :: bool
  sq_askNetwork :: bool

text \<open>
  \<open>rf_client\<close> and \<open>rf_knownHosts\<close> come with the suggestions. The last fields record the request under way,
  whether the chips stayed as sent since, the ranges the shown error is about, and what was sent.
\<close>

(* src features/discovery/DiscoveryPanel.tsx 124-140 DiscoveryPanel *)
record range_form =
  rf_running :: bool
  rf_ranges :: "string list option"
  rf_client :: "string option"
  rf_rangeDraft :: string
  rf_includeInventory :: bool
  rf_askNetwork :: bool
  rf_knownHosts :: int
  rf_startError :: "start_error option"
  rf_pending :: "string list option"
  rf_steady :: bool
  rf_errorFor :: "string list"
  rf_sent :: "scan_request list"

definition range_form_init :: range_form where
  "range_form_init = \<lparr>rf_running = False, rf_ranges = None, rf_client = None, rf_rangeDraft = [], rf_includeInventory = True,
     rf_askNetwork = True, rf_knownHosts = 0, rf_startError = None, rf_pending = None, rf_steady = True, rf_errorFor = [], rf_sent = []\<rparr>"

(* src features/discovery/DiscoveryPanel.tsx 126-127 selectedRanges *)
definition selectedRanges :: "range_form \<Rightarrow> string list" where
  "selectedRanges f = (case rf_ranges f of Some r \<Rightarrow> r
     | None \<Rightarrow> (case rf_client f of Some c \<Rightarrow> if c \<noteq> [] then [c] else [] | None \<Rightarrow> []))"

(* src features/discovery/DiscoveryPanel.tsx 133-133 effectiveInventory *)
definition effectiveInventory :: "range_form \<Rightarrow> bool" where
  "effectiveInventory f \<longleftrightarrow> rf_includeInventory f \<and> rf_knownHosts f > 0"

(* src features/discovery/DiscoveryPanel.tsx 134-137 budget *)
definition scan_budget :: "range_form \<Rightarrow> budget" where
  "scan_budget f = calculateRangeBudget (selectedRanges f) (rf_knownHosts f) (effectiveInventory f)"

(* src features/discovery/DiscoveryPanel.tsx 278-278 canStart *)
definition scan_canStart :: "range_form \<Rightarrow> bool" where
  "scan_canStart f \<longleftrightarrow> selectedRanges f \<noteq> [] \<or> effectiveInventory f"

text \<open>\<open>[...new Set(xs)]\<close>: each value once, at its first place.\<close>

definition once :: "'a list \<Rightarrow> 'a list" where
  "once xs = rev (remdups (rev xs))"

definition clean_ranges :: "string list \<Rightarrow> string list" where
  "clean_ranges values = filter (\<lambda>r. r \<noteq> []) (map trim values)"

text \<open>\<open>split(/[\<newline>,]/)\<close>\<close>

definition split_ranges :: "string \<Rightarrow> string list" where
  "split_ranges s = concat (map (split_on CHR '','') (split_on NL s))"

text \<open>The chips change: a request under way no longer fits them.\<close>

definition set_chips :: "string list \<Rightarrow> range_form \<Rightarrow> range_form" where
  "set_chips r f = f\<lparr>rf_ranges := Some r, rf_startError := None, rf_steady := False\<rparr>"

(* src features/discovery/DiscoveryPanel.tsx 266-271 addRanges *)
definition addRanges :: "string list \<Rightarrow> range_form \<Rightarrow> range_form" where
  "addRanges new f = (if clean_ranges new = [] then f else set_chips (once (selectedRanges f @ clean_ranges new)) f)"

(* src features/discovery/DiscoveryPanel.tsx 273-276 removeRange *)
definition removeRange :: "string \<Rightarrow> range_form \<Rightarrow> range_form" where
  "removeRange r f = set_chips (filter (\<lambda>v. v \<noteq> r) (selectedRanges f)) f"

(* src features/discovery/DiscoveryPanel.tsx 255-264 submit *)
definition submit_scan :: "range_form \<Rightarrow> range_form" where
  "submit_scan f =
     (let nextRanges = once (selectedRanges f @ clean_ranges (split_ranges (rf_rangeDraft f)))
      in f\<lparr>rf_ranges := Some nextRanges, rf_rangeDraft := [], rf_startError := None, rf_pending := Some nextRanges, rf_steady := True,
           rf_sent := rf_sent f @ [\<lparr>sq_ranges = nextRanges, sq_includeInventory = effectiveInventory f, sq_askNetwork = rf_askNetwork f\<rparr>]\<rparr>)"

text \<open>The answer: a scan, or a failure. A step-up that is given up ends the request without either.\<close>

datatype start_result = Scan_started | Start_failure start_failure | Start_given_up

(* src features/discovery/DiscoveryPanel.tsx 144-154 start *)
definition scan_answered :: "start_result \<Rightarrow> range_form \<Rightarrow> range_form" where
  "scan_answered a f = (case rf_pending f of None \<Rightarrow> f
     | Some asked \<Rightarrow> (let f' = f\<lparr>rf_pending := None\<rparr>
         in case a of Scan_started \<Rightarrow> f'\<lparr>rf_startError := None\<rparr>
            | Start_failure e \<Rightarrow> f'\<lparr>rf_startError := Some (startErrorFrom e), rf_errorFor := asked\<rparr>
            | Start_given_up \<Rightarrow> f'))"

text \<open>A comma in the draft closes the ranges before it; Enter and the comma key close the draft.\<close>

(* src features/discovery/DiscoveryPanel.tsx 334-343 DiscoveryPanel *)
definition type_draft :: "string \<Rightarrow> range_form \<Rightarrow> range_form" where
  "type_draft v f = (if CHR '','' \<in> set v
     then (let parts = split_on CHR '','' v in (addRanges (butlast parts) f)\<lparr>rf_rangeDraft := last parts\<rparr>)
     else f\<lparr>rf_rangeDraft := v\<rparr>)"

(* src features/discovery/DiscoveryPanel.tsx 344-350 DiscoveryPanel *)
definition close_draft :: "range_form \<Rightarrow> range_form" where
  "close_draft f = (addRanges (split_ranges (rf_rangeDraft f)) f)\<lparr>rf_rangeDraft := []\<rparr>"

datatype scan_form_event = Suggestions "string option" int | Scan_running bool | Type_draft string | Close_draft | Add_suggestion string | Remove_chip string
  | Set_inventory bool | Set_ask bool | Press_scan | Scan_answer start_result

text \<open>While a scan runs the form is closed; the button is disabled while a start is under way.\<close>

(* src features/discovery/DiscoveryPanel.tsx 291-414 DiscoveryPanel *)
fun scan_form_step :: "scan_form_event \<Rightarrow> range_form \<Rightarrow> range_form" where
  "scan_form_step (Suggestions client hosts) f = f\<lparr>rf_client := client, rf_knownHosts := hosts\<rparr>"
| "scan_form_step (Scan_running b) f = f\<lparr>rf_running := b\<rparr>"
| "scan_form_step (Type_draft v) f = (if rf_running f then f else type_draft v f)"
| "scan_form_step Close_draft f = (if rf_running f then f else close_draft f)"
| "scan_form_step (Add_suggestion r) f = (if rf_running f then f else addRanges [r] f)"
| "scan_form_step (Remove_chip r) f = (if rf_running f then f else removeRange r f)"
| "scan_form_step (Set_inventory b) f = (if rf_running f \<or> rf_knownHosts f = 0 then f else f\<lparr>rf_includeInventory := b\<rparr>)"
| "scan_form_step (Set_ask b) f = (if rf_running f then f else f\<lparr>rf_askNetwork := b\<rparr>)"
| "scan_form_step Press_scan f = (if \<not> rf_running f \<and> scan_canStart f \<and> rf_pending f = None then submit_scan f else f)"
| "scan_form_step (Scan_answer a) f = scan_answered a f"

abbreviation scan_form_run :: "scan_form_event list \<Rightarrow> range_form" where
  "scan_form_run es \<equiv> fold scan_form_step es range_form_init"

subsection \<open>What a request holds and where its errors stand\<close>

definition request_ok :: "scan_request \<Rightarrow> bool" where
  "request_ok r \<longleftrightarrow> distinct (sq_ranges r) \<and> (sq_ranges r \<noteq> [] \<or> sq_includeInventory r)"

text \<open>Errors and requests under way fit the chips, unless these were changed while a request was under way.\<close>

definition scan_form_ok :: "range_form \<Rightarrow> bool" where
  "scan_form_ok f \<longleftrightarrow> distinct (selectedRanges f) \<and> list_all request_ok (rf_sent f)
     \<and> (rf_startError f \<noteq> None \<or> rf_pending f \<noteq> None \<longrightarrow> rf_ranges f \<noteq> None)
     \<and> (rf_startError f \<noteq> None \<and> rf_steady f \<longrightarrow> selectedRanges f = rf_errorFor f)
     \<and> (\<forall>r. rf_pending f = Some r \<longrightarrow> rf_startError f = None \<and> r \<in> sq_ranges ` set (rf_sent f) \<and> (rf_steady f \<longrightarrow> selectedRanges f = r))
     \<and> (rf_startError f \<noteq> None \<longrightarrow> rf_errorFor f \<in> sq_ranges ` set (rf_sent f))"

lemma once_simps [simp]: "distinct (once xs)" "set (once xs) = set xs" "once xs = [] \<longleftrightarrow> xs = []"
  by (simp_all add: once_def)

lemma selected_fields [simp]: "selectedRanges (f\<lparr>rf_ranges := Some r\<rparr>) = r"
  "selectedRanges (f\<lparr>rf_running := b\<rparr>) = selectedRanges f" "selectedRanges (f\<lparr>rf_rangeDraft := s\<rparr>) = selectedRanges f"
  "selectedRanges (f\<lparr>rf_includeInventory := b1\<rparr>) = selectedRanges f" "selectedRanges (f\<lparr>rf_askNetwork := b2\<rparr>) = selectedRanges f"
  "selectedRanges (f\<lparr>rf_startError := e\<rparr>) = selectedRanges f" "selectedRanges (f\<lparr>rf_pending := x\<rparr>) = selectedRanges f"
  "selectedRanges (f\<lparr>rf_steady := b3\<rparr>) = selectedRanges f" "selectedRanges (f\<lparr>rf_errorFor := l\<rparr>) = selectedRanges f"
  "selectedRanges (f\<lparr>rf_sent := q\<rparr>) = selectedRanges f"
  by (simp_all add: selectedRanges_def split: option.split)

lemma scan_form_ok_draft [simp]: "scan_form_ok (f\<lparr>rf_rangeDraft := s\<rparr>) = scan_form_ok f" "scan_form_ok (f\<lparr>rf_running := b\<rparr>) = scan_form_ok f"
  "scan_form_ok (f\<lparr>rf_includeInventory := b1\<rparr>) = scan_form_ok f" "scan_form_ok (f\<lparr>rf_askNetwork := b2\<rparr>) = scan_form_ok f"
  by (simp_all add: scan_form_ok_def)

lemma scan_form_ok_chips: "scan_form_ok f \<Longrightarrow> distinct r \<Longrightarrow> scan_form_ok (set_chips r f)"
  by (auto simp: scan_form_ok_def set_chips_def)

lemma scan_form_ok_add: "scan_form_ok f \<Longrightarrow> scan_form_ok (addRanges new f)"
  by (simp add: addRanges_def scan_form_ok_chips)

lemma scan_form_ok_remove: "scan_form_ok f \<Longrightarrow> scan_form_ok (removeRange r f)"
  unfolding removeRange_def by (rule scan_form_ok_chips) (simp_all add: scan_form_ok_def)

lemma scan_form_ok_submit: "scan_form_ok f \<Longrightarrow> scan_canStart f \<Longrightarrow> scan_form_ok (submit_scan f)"
  by (auto simp: scan_form_ok_def submit_scan_def scan_canStart_def request_ok_def Let_def)

lemma scan_form_ok_answer: "scan_form_ok f \<Longrightarrow> scan_form_ok (scan_answered a f)"
  by (cases a) (auto simp: scan_form_ok_def scan_answered_def split: option.split)

lemma scan_form_ok_suggestions: "scan_form_ok f \<Longrightarrow> scan_form_ok (f\<lparr>rf_client := c, rf_knownHosts := n\<rparr>)"
  by (cases "rf_ranges f") (auto simp: scan_form_ok_def selectedRanges_def split: option.splits)

lemma scan_form_ok_step: "scan_form_ok f \<Longrightarrow> scan_form_ok (scan_form_step e f)"
  by (cases e) (simp_all add: type_draft_def close_draft_def scan_form_ok_add scan_form_ok_remove scan_form_ok_submit scan_form_ok_answer scan_form_ok_suggestions Let_def)

interpretation scan_form: started_machine scan_form_step "\<lambda>_. True" scan_form_ok range_form_init
  by unfold_locales (rule scan_form_ok_step, assumption, simp add: scan_form_ok_def range_form_init_def selectedRanges_def)

text \<open>
  Every start that is sent has something to scan and each of its ranges once. While a message is shown and the chips were
  not changed during its request, they are the ranges of that request in their order, so a message about
  the range with an index stands at the range it is about.
\<close>

theorem scan_requests_fit:
  "list_all request_ok (rf_sent (scan_form_run es)) \<and> distinct (selectedRanges (scan_form_run es))
    \<and> (rf_startError (scan_form_run es) \<noteq> None \<and> rf_steady (scan_form_run es) \<longrightarrow> selectedRanges (scan_form_run es) = rf_errorFor (scan_form_run es)
         \<and> rf_errorFor (scan_form_run es) \<in> sq_ranges ` set (rf_sent (scan_form_run es)))"
  using scan_form.always [of es] by (auto simp: scan_form_ok_def)

definition example_errors :: "scan_form_event list" where
  "example_errors = [Type_draft ''10.0.0.0/24, x,'', Press_scan,
     Scan_answer (Start_failure \<lparr>sf_status = Some 400, sf_details = [(Some ''ranges[1]'', Some ''bad'')], sf_message = None, sf_seconds = None\<rparr>)]"

lemma scan_requests_fit_witness:
  "map_option se_rangeErrors (rf_startError (scan_form_run example_errors)) = Some [(1, ''bad'')]
    \<and> selectedRanges (scan_form_run example_errors) = rf_errorFor (scan_form_run example_errors) \<and> rf_errorFor (scan_form_run example_errors) = [''10.0.0.0/24'', ''x'']"
proof -
  have "map_option se_rangeErrors (rf_startError (scan_form_run example_errors)) = Some [(1, ''bad'')]" "rf_steady (scan_form_run example_errors)"
    "rf_errorFor (scan_form_run example_errors) = [''10.0.0.0/24'', ''x'']" by code_simp+
  then show ?thesis using scan_requests_fit [of example_errors] by auto
qed

text \<open>Chips can be removed while a start is under way: then the message stands at another range.\<close>

lemma late_error_misplaced:
  "let f = scan_form_run [Type_draft ''a,b,c,'', Press_scan, Remove_chip ''a'',
      Scan_answer (Start_failure \<lparr>sf_status = Some 400, sf_details = [(Some ''ranges[1]'', Some ''bad'')], sf_message = None, sf_seconds = None\<rparr>)]
   in selectedRanges f = [''b'', ''c''] \<and> map_option se_rangeErrors (rf_startError f) = Some [(1, ''bad'')] \<and> rf_errorFor f = [''a'', ''b'', ''c'']"
  by code_simp

end
