(* ===== verification/RecipePreview.thy ===== *)
theory RecipePreview
  imports RecipeForm JsValues Machines "HOL-Library.Word"
begin

unbundle bit_operations_syntax

text \<open>
  The panel that tests a recipe (\<open>features/connectors/TestRecipePanel.tsx\<close>): the fingerprint by which
  it tells whether the results it holds are those of what the form holds now, and the panel as a machine over
  changes of the form, tests and their answers. The lemmas show that results are shown only for an input with the
  fingerprint of the tested one, that replacing a single letter always changes the fingerprint, and that
  other edits may not.
\<close>

subsection \<open>The fingerprint\<close>

(* src features/connectors/TestRecipePanel.tsx 17-17 fingerprint *)
definition hash_step :: "32 word \<Rightarrow> 16 word \<Rightarrow> 32 word" where
  "hash_step hash unit = (hash XOR ucast unit) * 0x01000193"

(* src features/connectors/TestRecipePanel.tsx 14-21 fingerprint *)
definition fingerprint :: "16 word list \<Rightarrow> string" where
  "fingerprint units = show_hex (unat (foldl hash_step 0x811c9dc5 units))"

text \<open>The factor is odd, so each step can be undone.\<close>

lemma hash_factor: "(0x01000193 :: 32 word) * 0x359c449b = 1"
  by simp

lemma hash_step_unit: "hash_step h u = hash_step h v \<Longrightarrow> u = v"
proof -
  assume "hash_step h u = hash_step h v"
  then have "hash_step h u * 0x359c449b = hash_step h v * 0x359c449b" by simp
  then have "h XOR ucast u = h XOR ucast v" unfolding hash_step_def mult.assoc hash_factor by simp
  then have "h XOR (h XOR ucast u) = h XOR (h XOR (ucast v :: 32 word))" by simp
  then have "(ucast u :: 32 word) = ucast v" by (simp add: xor.assoc [symmetric])
  moreover have "is_up (ucast :: 16 word \<Rightarrow> 32 word)" by (simp add: is_up)
  ultimately have "uint u = uint v" by (metis uint_up_ucast)
  then show "u = v" by (simp add: word_uint_eq_iff)
qed

lemma hash_step_hash: "hash_step h u = hash_step k u \<Longrightarrow> h = k"
proof -
  assume "hash_step h u = hash_step k u"
  then have "hash_step h u * 0x359c449b = hash_step k u * 0x359c449b" by simp
  then have "h XOR ucast u = k XOR ucast u" unfolding hash_step_def mult.assoc hash_factor by simp
  then have "(h XOR ucast u) XOR ucast u = (k XOR ucast u) XOR (ucast u :: 32 word)" by simp
  then show "h = k" by (simp add: xor.assoc)
qed

lemma hash_run_inj: "foldl hash_step h us = foldl hash_step k us \<Longrightarrow> h = k"
  by (induction us arbitrary: h k) (auto dest: hash_step_hash)

lemma show_hex_inj: "show_hex m = show_hex n \<longleftrightarrow> m = n"
  by (metis show_hex_ok(1))

lemma fingerprint_one_unit: "fingerprint (us @ u # vs) = fingerprint (us @ v # vs) \<longleftrightarrow> u = v"
  by (auto simp: fingerprint_def show_hex_inj unsigned_word_eqI dest!: word_unat_eq_iff [THEN iffD2] hash_run_inj hash_step_unit)

subsection \<open>The key of an input\<close>

(* src api/model/recipePreviewInput.ts 11-18 RecipePreviewInput *)
record preview_input =
  pi_connectorId :: "string option"
  pi_url :: string
  pi_verifyTls :: "bool option"
  pi_config :: members

definition input_json :: "preview_input \<Rightarrow> json" where
  "input_json i = JObj ((case pi_connectorId i of Some c \<Rightarrow> [(''connectorId'', JStr c)] | None \<Rightarrow> [])
     @ [(''url'', JStr (pi_url i))]
     @ (case pi_verifyTls i of Some b \<Rightarrow> [(''verifyTls'', JBool b)] | None \<Rightarrow> [])
     @ [(''config'', JObj (pi_config i))])"

text \<open>\<open>num\<close> renders numbers; \<open>unit\<close> gives the UTF-16 unit that a letter stands for.\<close>

(* src features/connectors/TestRecipePanel.tsx 32-32 inputKey *)
definition inputKey :: "(rat \<Rightarrow> string) \<Rightarrow> (char \<Rightarrow> 16 word) \<Rightarrow> preview_input \<Rightarrow> string" where
  "inputKey num unit i = fingerprint (map unit (json_text num (input_json i)))"

definition config_text :: "preview_input \<Rightarrow> string \<Rightarrow> string" where
  "config_text i k = (case map_of (pi_config i) k of Some (JStr s) \<Rightarrow> s | _ \<Rightarrow> [])"

(* src features/connectors/TestRecipePanel.tsx 31-35 canPreview *)
definition canPreview :: "preview_input \<Rightarrow> bool" where
  "canPreview i \<longleftrightarrow> trim (pi_url i) \<noteq> [] \<and> trim (config_text i ''recipe'') \<noteq> []"

text \<open>
  Two letters whose writings in JSON differ in one place: two that are written as they are, as
  digits, letters and blanks, or two of a line break, a tab, a quote and a backslash.
\<close>

definition alike :: "char \<Rightarrow> char \<Rightarrow> bool" where
  "alike c d \<longleftrightarrow> length (json_char c) = length (json_char d)
     \<and> length (filter (\<lambda>(u, v). u \<noteq> v) (zip (json_char c) (json_char d))) = 1"

lemma no_place_differs: "length xs = length ys \<Longrightarrow> filter (\<lambda>(u, v). u \<noteq> v) (zip xs ys) = [] \<Longrightarrow> xs = ys"
  by (induction xs ys rule: list_induct2) (auto split: if_splits)

lemma one_place_split:
  "length xs = length ys \<Longrightarrow> length (filter (\<lambda>(u, v). u \<noteq> v) (zip xs ys)) = 1
    \<Longrightarrow> \<exists>p u v q. xs = p @ u # q \<and> ys = p @ v # q \<and> u \<noteq> v"
proof (induction xs ys rule: list_induct2)
  case (Cons x xs y ys)
  show ?case
  proof (cases "x = y")
    case True
    with Cons obtain p u v q where "xs = p @ u # q" "ys = p @ v # q" "u \<noteq> v" by auto
    with True have "x # xs = (x # p) @ u # q" "y # ys = (x # p) @ v # q" "u \<noteq> v" by simp_all
    then show ?thesis by blast
  next
    case False
    with Cons.prems have "filter (\<lambda>(u, v). u \<noteq> v) (zip xs ys) = []" by simp
    then have "xs = ys" by (rule no_place_differs [OF Cons.hyps])
    with False have "x # xs = [] @ x # xs" "y # ys = [] @ y # xs" "x \<noteq> y" by simp_all
    then show ?thesis by blast
  qed
qed simp

lemma join_with_middle: "\<exists>pre post. \<forall>x. join_with sep (as @ x # bs) = pre @ x @ post"
proof (induction as)
  case Nil
  show ?case by (cases bs) (auto intro: exI [of _ "[]"])
next
  case (Cons a as)
  then obtain pre post where IH: "\<And>x. join_with sep (as @ x # bs) = pre @ x @ post" by blast
  have "join_with sep ((a # as) @ x # bs) = (a @ sep @ pre) @ x @ post" for x
    using IH [of x] by (cases "as @ x # bs") auto
  then show ?case by blast
qed

lemma member_text: "\<exists>pre post. \<forall>j. json_text num (JObj (as @ (k, j) # bs)) = pre @ json_text num j @ post"
proof -
  let ?m = "\<lambda>(k, s). json_quote k @ '':'' @ s" and ?t = "map_prod (\<lambda>k. k) (json_text num)"
  obtain pre post where J: "\<And>x. join_with '','' (map ?m (map ?t as) @ x # map ?m (map ?t bs)) = pre @ x @ post"
    using join_with_middle by blast
  have "json_text num (JObj (as @ (k, j) # bs)) = (''{'' @ pre @ json_quote k @ '':'') @ json_text num j @ (post @ ''}'')" for j
    using J [of "json_quote k @ '':'' @ json_text num j"] by simp
  then show ?thesis by blast
qed

lemma input_text: "\<exists>pre post. \<forall>s. json_text num (input_json (i\<lparr>pi_config := as @ (k, JStr s) # bs\<rparr>)) = pre @ json_quote s @ post"
proof -
  let ?head = "(case pi_connectorId i of Some c \<Rightarrow> [(''connectorId'', JStr c)] | None \<Rightarrow> []) @ [(''url'', JStr (pi_url i))]
     @ (case pi_verifyTls i of Some b \<Rightarrow> [(''verifyTls'', JBool b)] | None \<Rightarrow> [])"
  obtain p q where C: "\<And>j. json_text num (JObj (as @ (k, j) # bs)) = p @ json_text num j @ q" using member_text by blast
  obtain p' q' where I: "\<And>j. json_text num (JObj (?head @ (''config'', j) # [])) = p' @ json_text num j @ q'" using member_text by blast
  have "json_text num (input_json (i\<lparr>pi_config := as @ (k, JStr s) # bs\<rparr>)) = (p' @ p) @ json_quote s @ (q @ q')" for s
    using I [of "JObj (as @ (k, JStr s) # bs)"] C [of "JStr s"] by (simp add: input_json_def)
  then show ?thesis by blast
qed

lemma url_text: "\<exists>pre post. \<forall>s. json_text num (input_json (i\<lparr>pi_url := s\<rparr>)) = pre @ json_quote s @ post"
proof -
  let ?as = "case pi_connectorId i of Some c \<Rightarrow> [(''connectorId'', JStr c)] | None \<Rightarrow> []"
  let ?bs = "(case pi_verifyTls i of Some b \<Rightarrow> [(''verifyTls'', JBool b)] | None \<Rightarrow> []) @ [(''config'', JObj (pi_config i))]"
  obtain pre post where U: "\<And>j. json_text num (JObj (?as @ (''url'', j) # ?bs)) = pre @ json_text num j @ post" using member_text by blast
  have "json_text num (input_json (i\<lparr>pi_url := s\<rparr>)) = pre @ json_quote s @ post" for s
    using U [of "JStr s"] by (simp add: input_json_def)
  then show ?thesis by blast
qed

text \<open>
  Two inputs of which one setting, or the URL, has one letter replaced by another of the same
  writing. Their keys differ, so no such edit leaves the results of the earlier text on the screen.
\<close>

inductive one_letter_apart :: "preview_input \<Rightarrow> preview_input \<Rightarrow> bool" where
  apart: "alike c d \<Longrightarrow>
     one_letter_apart (i\<lparr>pi_config := as @ (k, JStr (xs @ c # ys)) # bs\<rparr>) (i\<lparr>pi_config := as @ (k, JStr (xs @ d # ys)) # bs\<rparr>)"
| url_apart: "alike c d \<Longrightarrow> one_letter_apart (i\<lparr>pi_url := xs @ c # ys\<rparr>) (i\<lparr>pi_url := xs @ d # ys\<rparr>)"

lemma quoted_letter_changes:
  assumes "inj unit" "alike c d"
  shows "fingerprint (map unit (pre @ json_quote (xs @ c # ys) @ post)) \<noteq> fingerprint (map unit (pre @ json_quote (xs @ d # ys) @ post))"
proof -
  obtain p u v q where w: "json_char c = p @ u # q" "json_char d = p @ v # q" "u \<noteq> v"
    using assms(2) one_place_split by (metis alike_def)
  define us where "us = map unit (pre @ DQUOTE # concat (map json_char xs) @ p)"
  define vs where "vs = map unit (q @ concat (map json_char ys) @ [DQUOTE] @ post)"
  have "map unit (pre @ json_quote (xs @ c # ys) @ post) = us @ unit u # vs"
    "map unit (pre @ json_quote (xs @ d # ys) @ post) = us @ unit v # vs"
    unfolding json_quote_split w us_def vs_def by simp_all
  then show ?thesis using w(3) assms(1) by (simp add: fingerprint_one_unit inj_eq)
qed

theorem one_letter_changes_key:
  assumes "inj unit" "one_letter_apart i j"
  shows "inputKey num unit i \<noteq> inputKey num unit j"
  using assms(2)
proof induction
  case (apart c d as k xs ys bs i)
  then show ?case using input_text [where num = num and i = i and as = as and k = k and bs = bs] quoted_letter_changes [OF assms(1)] unfolding inputKey_def by metis
next
  case (url_apart c d xs ys i)
  then show ?case using url_text [where num = num and i = i] quoted_letter_changes [OF assms(1)] unfolding inputKey_def by metis
qed

text \<open>
  No more than that can be had of all edits: the key has 32 bits, and there are recipes which
  share one.
\<close>

definition recipe_input :: "string \<Rightarrow> preview_input" where
  "recipe_input recipe = \<lparr>pi_connectorId = None, pi_url = ''https://m'', pi_verifyTls = Some True, pi_config = [(''recipe'', JStr recipe)]\<rparr>"

lemma keys_collide: "\<exists>r s. r \<noteq> s \<and> inputKey num unit (recipe_input r) = inputKey num unit (recipe_input s)"
proof -
  have "range (\<lambda>r. inputKey num unit (recipe_input r)) \<subseteq> (\<lambda>h :: 32 word. show_hex (unat h)) ` UNIV"
    by (auto simp: inputKey_def fingerprint_def)
  then have "finite (range (\<lambda>r. inputKey num unit (recipe_input r)))" by (rule finite_subset) simp
  then have "\<not> inj (\<lambda>r :: string. inputKey num unit (recipe_input r))"
    using infinite_UNIV_listI finite_imageD by blast
  then show ?thesis by (auto simp: inj_on_def)
qed

subsection \<open>The panel\<close>

datatype preview_run = Not_run | Running | Run_data json | Run_error json

text \<open>\<open>pn_asked\<close> is every input tested so far; the newest is the one the run is about.\<close>

(* src features/connectors/TestRecipePanel.tsx 28-34 AdminTestRecipePanel *)
record panel =
  pn_input :: preview_input
  pn_submittedKey :: "string option"
  pn_completedKey :: "string option"
  pn_run :: preview_run
  pn_asked :: "preview_input list"
  pn_feedback :: feedback_hook

definition panel_start :: "preview_input \<Rightarrow> panel" where
  "panel_start i = \<lparr>pn_input = i, pn_submittedKey = None, pn_completedKey = None, pn_run = Not_run, pn_asked = [], pn_feedback = initial_hook\<rparr>"

(* src features/connectors/TestRecipePanel.tsx 37-37 hasCurrentResult *)
definition hasCurrentResult :: "(preview_input \<Rightarrow> string) \<Rightarrow> panel \<Rightarrow> bool" where
  "hasCurrentResult key st \<longleftrightarrow> pn_submittedKey st = Some (key (pn_input st)) \<and> pn_completedKey st = Some (key (pn_input st))"

text \<open>What is below the button: the errors of a refused test, or its results.\<close>

(* src features/connectors/TestRecipePanel.tsx 89-99 AdminTestRecipePanel *)
definition panel_shows :: "(preview_input \<Rightarrow> string) \<Rightarrow> panel \<Rightarrow> (field_error list + json) option" where
  "panel_shows key st = (if \<not> hasCurrentResult key st then None
     else case pn_run st of Run_data d \<Rightarrow> Some (Inr d) | Run_error e \<Rightarrow> Some (Inl (locatedErrorsFrom e)) | _ \<Rightarrow> None)"

(* src features/connectors/TestRecipePanel.tsx 61-65 AdminTestRecipePanel *)
definition press_test :: "(preview_input \<Rightarrow> string) \<Rightarrow> panel \<Rightarrow> panel" where
  "press_test key st = (if \<not> canPreview (pn_input st) \<or> pn_run st = Running then st
     else st\<lparr>pn_submittedKey := Some (key (pn_input st)), pn_completedKey := None, pn_run := Running,
       pn_asked := pn_asked st @ [pn_input st]\<rparr>)"

(* src features/connectors/TestRecipePanel.tsx 65-77 AdminTestRecipePanel *)
definition preview_answered :: "(preview_input \<Rightarrow> string) \<Rightarrow> json + json \<Rightarrow> panel \<Rightarrow> panel" where
  "preview_answered key a st = (if pn_run st \<noteq> Running then st
     else let asked = last (pn_asked st); st' = st\<lparr>pn_completedKey := Some (key asked)\<rparr>; recipe = config_text asked ''recipe''
       in case a of
         Inr d \<Rightarrow> st'\<lparr>pn_run := Run_data d, pn_feedback := recordPreview recipe [] (member ''endpoints'' d) (pn_feedback st)\<rparr>
       | Inl e \<Rightarrow> st'\<lparr>pn_run := Run_error e, pn_feedback := recordPreview recipe (locatedErrorsFrom e) None (pn_feedback st)\<rparr>)"

datatype panel_event = Panel_input preview_input | Press_test | Preview_answer "json + json"

(* src features/connectors/TestRecipePanel.tsx 28-103 AdminTestRecipePanel *)
fun panel_step :: "(preview_input \<Rightarrow> string) \<Rightarrow> panel_event \<Rightarrow> panel \<Rightarrow> panel" where
  "panel_step key (Panel_input i) st = st\<lparr>pn_input := i\<rparr>"
| "panel_step key Press_test st = press_test key st"
| "panel_step key (Preview_answer a) st = preview_answered key a st"

text \<open>
  The submitted key is that of the newest tested input; a completed key comes with the outcome of that
  test; and the feedback of the newest answer belongs to the recipe that was tested.
\<close>

definition panel_inv :: "(preview_input \<Rightarrow> string) \<Rightarrow> panel \<Rightarrow> bool" where
  "panel_inv key st \<longleftrightarrow> (if pn_asked st = [] then pn_run st = Not_run \<and> pn_submittedKey st = None
     else pn_submittedKey st = Some (key (last (pn_asked st))))
   \<and> (pn_completedKey st \<noteq> None \<longleftrightarrow> pn_run st \<noteq> Not_run \<and> pn_run st \<noteq> Running)
   \<and> list_all canPreview (pn_asked st)
   \<and> (case rf_preview (hk_feedback (pn_feedback st)) of None \<Rightarrow> True
      | Some e \<Rightarrow> fb_recipe e \<in> (\<lambda>i. config_text i ''recipe'') ` set (pn_asked st))"

lemma panel_inv_step: "panel_inv key st \<Longrightarrow> panel_inv key (panel_step key ev st)"
proof (cases ev)
  case (Preview_answer a)
  then show "panel_inv key st \<Longrightarrow> ?thesis"
    by (cases a) (auto simp: panel_inv_def preview_answered_def recordPreview_def Let_def split: if_splits)
qed (auto simp: panel_inv_def press_test_def split: option.splits)

interpretation panels: started_machine "panel_step key" "\<lambda>ev. True" "panel_inv key" "panel_start i" for key i
  by unfold_locales (rule panel_inv_step, assumption, simp add: panel_inv_def panel_start_def initial_hook_def)

lemma shown_is_current: "panel_inv key st \<Longrightarrow> panel_shows key st \<noteq> None
    \<Longrightarrow> pn_asked st \<noteq> [] \<and> key (last (pn_asked st)) = key (pn_input st)"
  by (auto simp: panel_inv_def panel_shows_def hasCurrentResult_def split: if_splits)

text \<open>
  Claim C17. Whatever is typed, tested and answered in whichever order, the panel shows results only of a test whose input has the
  key of what the form holds now, and none once one letter of one setting, or of the URL, of the tested
  input was replaced by another of the same writing in JSON (any two letters that need no escape, or two
  of line break, tab, quote and backslash). For other edits, such as a letter put in between, the
  results are hidden unless the two inputs happen to share their 32-bit key. Tests are only made
  with a URL and a recipe.
\<close>

theorem stale_results_hidden:
  assumes "inj unit" "st = fold (panel_step (inputKey num unit)) es (panel_start start)"
  shows "list_all canPreview (pn_asked st)
    \<and> (panel_shows (inputKey num unit) st \<noteq> None \<longrightarrow> pn_asked st \<noteq> []
        \<and> inputKey num unit (last (pn_asked st)) = inputKey num unit (pn_input st)
        \<and> \<not> one_letter_apart (last (pn_asked st)) (pn_input st))"
proof (intro conjI impI)
  have inv: "panel_inv (inputKey num unit) st" using panels.always [of "inputKey num unit" es start] assms(2) by simp
  then show "list_all canPreview (pn_asked st)" by (simp add: panel_inv_def)
  assume shown: "panel_shows (inputKey num unit) st \<noteq> None"
  from shown_is_current [OF inv this]
  show "pn_asked st \<noteq> []" and same: "inputKey num unit (last (pn_asked st)) = inputKey num unit (pn_input st)" by simp_all
  show "\<not> one_letter_apart (last (pn_asked st)) (pn_input st)"
  proof
    assume "one_letter_apart (last (pn_asked st)) (pn_input st)"
    then show False using same one_letter_changes_key [OF assms(1)] by blast
  qed
qed

text \<open>A test that is answered, and the form after one letter of the recipe was changed.\<close>

abbreviation example_input :: "string \<Rightarrow> preview_input" where
  "example_input \<equiv> recipe_input"

definition example_unit :: "char \<Rightarrow> 16 word" where
  "example_unit c = of_nat (code_of c)"

definition example_panel :: "panel_event list \<Rightarrow> panel" where
  "example_panel es = fold (panel_step (inputKey (\<lambda>_. []) example_unit)) es (panel_start (example_input ''v: 1''))"

lemma example_unit_inj: "inj example_unit"
proof (rule injI)
  fix c d assume "example_unit c = example_unit d"
  then have "unat (example_unit c) = unat (example_unit d)" by simp
  moreover have less: "code_of x < 65536" for x
    using nat_of_char_less_256 [of x] unfolding code_of_def by (rule less_trans) simp
  ultimately have "code_of c = code_of d" using less [of c] less [of d]
    by (simp add: example_unit_def unat_of_nat)
  then show "c = d" by (simp add: code_of_def)
qed

lemma stale_results_hidden_witness:
  "pn_asked (example_panel [Press_test, Preview_answer (Inr JNull)]) = [example_input ''v: 1'']
   \<and> panel_shows (inputKey (\<lambda>_. []) example_unit) (example_panel [Press_test, Preview_answer (Inr JNull)]) = Some (Inr JNull)
   \<and> panel_shows (inputKey (\<lambda>_. []) example_unit) (example_panel [Press_test, Preview_answer (Inr JNull), Panel_input (example_input ''v: 2'')]) = None"
proof -
  let ?key = "inputKey (\<lambda>_. []) example_unit"
  let ?st = "example_panel [Press_test, Preview_answer (Inr JNull), Panel_input (example_input ''v: 2'')]"
  have can: "canPreview (example_input ''v: 1'')"
    by (simp add: canPreview_def recipe_input_def config_text_def) code_simp
  have first: "pn_asked (example_panel [Press_test, Preview_answer (Inr JNull)]) = [example_input ''v: 1'']"
      "panel_shows ?key (example_panel [Press_test, Preview_answer (Inr JNull)]) = Some (Inr JNull)"
    using can by (simp_all add: example_panel_def panel_start_def press_test_def preview_answered_def panel_shows_def hasCurrentResult_def Let_def)
  have last: "last (pn_asked ?st) = example_input ''v: 1''" "pn_input ?st = example_input ''v: 2''"
    using can by (simp_all add: example_panel_def panel_start_def press_test_def preview_answered_def Let_def)
  have "alike CHR ''1'' CHR ''2''" by code_simp
  then have "one_letter_apart (example_input ''v: 1'') (example_input ''v: 2'')"
    using apart [where c = "CHR ''1''" and d = "CHR ''2''" and i = "example_input []" and as = "[]" and k = "''recipe''"
        and xs = "''v: ''" and ys = "[]" and bs = "[]"]
    by (simp add: recipe_input_def)
  with stale_results_hidden [OF example_unit_inj, of ?st "\<lambda>_. []" "[Press_test, Preview_answer (Inr JNull), Panel_input (example_input ''v: 2'')]" "example_input ''v: 1''"]
  have "panel_shows ?key ?st = None" unfolding last by (auto simp: example_panel_def)
  with first show ?thesis by simp
qed

end
