(* ===== verification/ConnectorForms.thy ===== *)
theory ConnectorForms
  imports RecipeForm JsValues Machines
begin

text \<open>
  The forms that create and change a connector (\<open>features/connectors/ConnectorForm.tsx\<close>,
  \<open>ConnectorEditForm.tsx\<close>): which values they hold, what they send, and what an update leaves of the
  stored settings (\<open>backend/internal/api/connectors/handlers.go\<close>). The lemmas show what a create request
  carries, that what was typed is kept while the connector is read again, and exactly which stored
  settings a save keeps, replaces and loses.
\<close>

subsection \<open>Types and connectors\<close>

(* src api/model/schemaField.ts 11-26 SchemaField *)
record connector_field = schema_field +
  sf_required :: bool
  sf_options :: "string list option"

(* src api/model/connectorTypeSchema.ts 14-28 ConnectorTypeSchema *)
record connector_type =
  ty_category :: string
  ty_type :: string
  ty_fields :: "connector_field list"
  ty_stub :: bool
  ty_refresher :: bool

(* src api/model/connector.ts 16-73 Connector *)
record connector =
  cn_id :: string
  cn_name :: string
  cn_owner :: "string option"
  cn_type :: string
  cn_url :: "string option"
  cn_verifyTls :: "bool option"
  cn_config :: "(string \<rightharpoonup> string) option"
  cn_userExpiresAt :: "string option"
  cn_rotationMaxAgeDays :: "rat option"
  cn_managedBy :: "string option"

text \<open>Form values are texts and booleans.\<close>

type_synonym form_values = "string \<rightharpoonup> json"

definition text_of :: "json \<Rightarrow> string" where
  "text_of v = (case v of JStr s \<Rightarrow> s | JBool b \<Rightarrow> if b then ''true'' else ''false'' | _ \<Rightarrow> [])"

definition is_on :: "json \<Rightarrow> bool" where
  "is_on v = (case v of JStr s \<Rightarrow> s \<noteq> [] | JBool b \<Rightarrow> b | _ \<Rightarrow> False)"

text \<open>\<open>String(values[name] ?? '')\<close>, and \<open>values[name] ?? fieldDefault(field)\<close>.\<close>

definition value_text :: "form_values \<Rightarrow> string \<Rightarrow> string" where
  "value_text vals k = (case vals k of Some v \<Rightarrow> text_of v | None \<Rightarrow> [])"

definition entered :: "form_values \<Rightarrow> connector_field \<Rightarrow> json" where
  "entered vals f = from_opt (fieldDefault f) (vals (sf_name f))"

subsection \<open>Creating a connector\<close>

(* src api/model/connectorCreate.ts 12-35 ConnectorCreate *)
record create_body =
  cb_name :: string
  cb_owner :: "string option"
  cb_category :: "string option"
  cb_type :: string
  cb_url :: "string option"
  cb_verifyTls :: bool
  cb_config :: form_values

definition not_empty :: "string \<Rightarrow> string option" where
  "not_empty s = (if s = [] then None else Some s)"

(* src features/connectors/ConnectorForm.tsx 93-95 createBody *)
definition form_verifyTls :: "connector_type \<Rightarrow> form_values \<Rightarrow> bool" where
  "form_verifyTls ty vals = (case List.find isVerifyTlsField (ty_fields ty) of Some f \<Rightarrow> is_on (entered vals f) | None \<Rightarrow> True)"

(* src features/connectors/ConnectorForm.tsx 98-99 createBody *)
definition not_in_config :: "bool \<Rightarrow> string \<Rightarrow> connector_field \<Rightarrow> bool" where
  "not_in_config admin type f \<longleftrightarrow> isTopLevelField f \<or> (\<not> admin \<and> isTlsProbeEndpointField type (sf_name f))"

(* src features/connectors/ConnectorForm.tsx 96-101 createBody *)
definition create_config :: "bool \<Rightarrow> connector_type \<Rightarrow> form_values \<Rightarrow> form_values" where
  "create_config admin ty vals = foldl (\<lambda>config f. if not_in_config admin (ty_type ty) f then config
     else config(sf_name f \<mapsto> entered vals f)) Map.empty (ty_fields ty)"

(* src features/connectors/ConnectorForm.tsx 103-103 createBody *)
definition derivesCategory :: "form_values \<Rightarrow> bool" where
  "derivesCategory config \<longleftrightarrow> trim (value_text config ''recipe'') \<noteq> []"

(* src features/connectors/ConnectorForm.tsx 88-113 createBody *)
definition createBody :: "bool \<Rightarrow> connector_type \<Rightarrow> string \<Rightarrow> string \<Rightarrow> form_values \<Rightarrow> create_body" where
  "createBody admin ty name owner vals =
     (let config = create_config admin ty vals
      in \<lparr>cb_name = name, cb_owner = not_empty owner,
          cb_category = (if derivesCategory config then None else Some (ty_category ty)), cb_type = ty_type ty,
          cb_url = not_empty (value_text vals ''url''), cb_verifyTls = form_verifyTls ty vals, cb_config = config\<rparr>)"

(* src features/connectors/ConnectorForm.tsx 125-128 requiredFilled *)
definition requiredFilled :: "connector_type option \<Rightarrow> string \<Rightarrow> form_values \<Rightarrow> bool" where
  "requiredFilled schema name vals \<longleftrightarrow> name \<noteq> [] \<and> (case schema of None \<Rightarrow> False
     | Some ty \<Rightarrow> list_all (\<lambda>f. sf_required f \<longrightarrow> value_text vals (sf_name f) \<noteq> []) (ty_fields ty))"

text \<open>
  A request is sent, then either refused for a second factor (the dialog opens for its body), refused,
  or accepted. \<open>cf_sent\<close> is every body sent, \<open>cf_created\<close> every connector made, \<open>cf_reported\<close> those handed
  to \<open>onCreated\<close>.
\<close>

(* src features/connectors/ConnectorForm.tsx 71-81 ConnectorForm *)
record create_form =
  cf_type :: "string option"
  cf_name :: string
  cf_owner :: string
  cf_values :: form_values
  cf_feedback :: feedback_hook
  cf_inFlight :: "create_body option"
  cf_stepUp :: "create_body option"
  cf_error :: "json option"
  cf_createdTlsProbe :: "connector option"
  cf_sent :: "create_body list"
  cf_created :: "connector list"
  cf_reported :: "connector list"

(* src features/connectors/ConnectorForm.tsx 71-81 ConnectorForm *)
definition open_form :: "string option \<Rightarrow> form_values \<Rightarrow> create_form" where
  "open_form initialType initialValues = \<lparr>cf_type = initialType, cf_name = value_text initialValues ''name'',
     cf_owner = value_text initialValues ''owner'', cf_values = initialValues(''name'' := None, ''owner'' := None),
     cf_feedback = initial_hook, cf_inFlight = None, cf_stepUp = None, cf_error = None, cf_createdTlsProbe = None,
     cf_sent = [], cf_created = [], cf_reported = []\<rparr>"

(* src features/connectors/ConnectorForm.tsx 83-86 schema *)
definition schema_for :: "connector_type list \<Rightarrow> string option \<Rightarrow> connector_type option" where
  "schema_for schemas typeKey = List.find (\<lambda>s. Some (ty_type s) = typeKey) schemas"

definition form_busy :: "create_form \<Rightarrow> bool" where
  "form_busy st \<longleftrightarrow> cf_inFlight st \<noteq> None \<or> cf_stepUp st \<noteq> None"

(* src features/connectors/ConnectorForm.tsx 250-258 ConnectorForm *)
definition submit_create :: "bool \<Rightarrow> connector_type list \<Rightarrow> create_form \<Rightarrow> create_form" where
  "submit_create admin schemas st =
     (case schema_for schemas (cf_type st) of
        Some ty \<Rightarrow> if requiredFilled (Some ty) (cf_name st) (cf_values st) \<and> \<not> form_busy st \<and> cf_createdTlsProbe st = None
          then (let body = createBody admin ty (cf_name st) (cf_owner st) (cf_values st)
                in st\<lparr>cf_feedback := recordSaveStart (value_text (cb_config body) ''recipe'') (cf_feedback st),
                     cf_inFlight := Some body, cf_error := None, cf_sent := cf_sent st @ [body]\<rparr>)
          else st
      | None \<Rightarrow> st)"

text \<open>Whether a probe was created is decided by the type that is chosen when the answer arrives.\<close>

(* src features/connectors/ConnectorForm.tsx 118-122 ConnectorForm *)
definition create_accepted :: "connector_type list \<Rightarrow> connector \<Rightarrow> create_form \<Rightarrow> create_form" where
  "create_accepted schemas created st =
     (let st' = st\<lparr>cf_inFlight := None, cf_created := cf_created st @ [created]\<rparr>
      in if map_option ty_type (schema_for schemas (cf_type st)) = Some ''tlsprobe''
         then st'\<lparr>cf_createdTlsProbe := Some created\<rparr>
         else st'\<lparr>cf_reported := cf_reported st @ [created]\<rparr>)"

(* src features/connectors/ConnectorForm.tsx 117-117 ConnectorForm *)
definition create_refused :: "json \<Rightarrow> create_form \<Rightarrow> create_form" where
  "create_refused e st = st\<lparr>cf_inFlight := None, cf_error := Some e, cf_feedback := recordSaveError e (cf_feedback st)\<rparr>"

(* src features/connectors/ConnectorForm.tsx 269-274 ConnectorForm *)
definition offer_finished :: "create_form \<Rightarrow> create_form" where
  "offer_finished st = (case cf_createdTlsProbe st of None \<Rightarrow> st
     | Some created \<Rightarrow> st\<lparr>cf_createdTlsProbe := None, cf_reported := cf_reported st @ [created]\<rparr>)"

datatype create_event = Pick_type connector_type | Type_name string | Type_owner string | Enter connector_field json
  | Submit_create | Create_ok connector | Create_failed json | Create_needs_token | Token_given | Token_refused
  | Previewed string "field_error list" "json option" | Offer_finished

text \<open>\<open>admin\<close> and \<open>schemas\<close> are what the page knows; a type that is announced only cannot be picked.\<close>

(* src features/connectors/ConnectorForm.tsx 153-258 ConnectorForm *)
fun create_step :: "bool \<Rightarrow> connector_type list \<Rightarrow> create_event \<Rightarrow> create_form \<Rightarrow> create_form" where
  "create_step admin schemas (Pick_type ty) st =
     (if ty \<in> set schemas \<and> \<not> ty_stub ty then st\<lparr>cf_type := Some (ty_type ty), cf_values := Map.empty\<rparr> else st)"
| "create_step admin schemas (Type_name s) st = st\<lparr>cf_name := s\<rparr>"
| "create_step admin schemas (Type_owner s) st = st\<lparr>cf_owner := s\<rparr>"
| "create_step admin schemas (Enter f v) st =
     (case schema_for schemas (cf_type st) of
        Some ty \<Rightarrow> if f \<in> set (ty_fields ty) \<and> (admin \<or> \<not> isTlsProbeEndpointField (ty_type ty) (sf_name f))
          then st\<lparr>cf_values := (cf_values st)(sf_name f \<mapsto> v)\<rparr> else st
      | None \<Rightarrow> st)"
| "create_step admin schemas Submit_create st = submit_create admin schemas st"
| "create_step admin schemas (Create_ok c) st = (if cf_inFlight st = None then st else create_accepted schemas c st)"
| "create_step admin schemas (Create_failed e) st = (if cf_inFlight st = None then st else create_refused e st)"
| "create_step admin schemas Create_needs_token st = (if cf_inFlight st = None then st
     else st\<lparr>cf_inFlight := None, cf_stepUp := cf_inFlight st\<rparr>)"
| "create_step admin schemas Token_given st = (case cf_stepUp st of None \<Rightarrow> st
     | Some body \<Rightarrow> st\<lparr>cf_stepUp := None, cf_inFlight := Some body, cf_sent := cf_sent st @ [body]\<rparr>)"
| "create_step admin schemas Token_refused st = st\<lparr>cf_stepUp := None\<rparr>"
| "create_step admin schemas (Previewed r es ends) st = st\<lparr>cf_feedback := recordPreview r es ends (cf_feedback st)\<rparr>"
| "create_step admin schemas Offer_finished st = offer_finished st"

subsection \<open>Changing a connector\<close>

text \<open>What the form holds of its own; what is not typed falls back to the connector as it was read.\<close>

(* src features/connectors/ConnectorEditForm.tsx 80-85 ConnectorEditForm *)
record edit_form =
  ef_name :: "string option"
  ef_owner :: "string option"
  ef_values :: form_values
  ef_appliedFor :: "string option"
  ef_userExpiresAt :: "string option"
  ef_rotationMaxAgeDays :: "string option"

(* src features/connectors/ConnectorEditForm.tsx 80-85 ConnectorEditForm *)
definition untouched :: edit_form where
  "untouched = \<lparr>ef_name = None, ef_owner = None, ef_values = Map.empty, ef_appliedFor = None,
     ef_userExpiresAt = None, ef_rotationMaxAgeDays = None\<rparr>"

text \<open>\<open>connector.config?.[name]\<close>.\<close>

definition read_setting :: "connector \<Rightarrow> string \<Rightarrow> string option" where
  "read_setting c k = Option.bind (cn_config c) (\<lambda>m. m k)"

(* src features/connectors/ConnectorEditForm.tsx 53-63 editFieldValue *)
definition editFieldValue :: "connector_field \<Rightarrow> connector \<Rightarrow> form_values \<Rightarrow> json" where
  "editFieldValue f c vals =
     (case vals (sf_name f) of Some v \<Rightarrow> v
      | None \<Rightarrow> if sf_name f = ''url'' then JStr (from_opt [] (cn_url c))
          else if isVerifyTlsField f then JBool (from_opt False (cn_verifyTls c))
          else if isTlsProbeEndpointField (cn_type c) (sf_name f) then
            JStr (from_opt (if sf_name f = ''import_port'' then text_of (fieldDefault f) else []) (read_setting c (sf_name f)))
          else if isToggleField f then JBool False
          else if sf_kind f = ''textarea'' then JStr (from_opt [] (read_setting c (sf_name f)))
          else JStr [])"

(* src api/model/connectorUpdate.ts 12-38 ConnectorUpdate *)
record update_body =
  ub_name :: string
  ub_owner :: string
  ub_url :: "string option"
  ub_verifyTls :: "bool option"
  ub_config :: form_values
  ub_userExpiresAt :: "string option option"
  ub_rotationMaxAgeDays :: "rat option option"

text \<open>What an update carries for one field, before the switch to a URL is considered.\<close>

(* src features/connectors/ConnectorEditForm.tsx 114-127 saveBody *)
definition sent_setting :: "bool \<Rightarrow> connector \<Rightarrow> form_values \<Rightarrow> connector_field \<Rightarrow> json option" where
  "sent_setting admin c vals f =
     (if isTopLevelField f then None
      else if isTlsProbeEndpointField (cn_type c) (sf_name f) then (if admin then vals (sf_name f) else None)
      else if sf_kind f = ''textarea'' then
        (case vals (sf_name f) of Some v \<Rightarrow> Some v | None \<Rightarrow> map_option JStr (read_setting c (sf_name f)))
      else (case vals (sf_name f) of Some v \<Rightarrow> if text_of v \<noteq> [] then Some v else None | None \<Rightarrow> None))"

(* src features/connectors/ConnectorEditForm.tsx 112-127 saveBody *)
definition sent_settings :: "bool \<Rightarrow> connector \<Rightarrow> form_values \<Rightarrow> connector_field list \<Rightarrow> form_values" where
  "sent_settings admin c vals fs = foldl (\<lambda>config f. case sent_setting admin c vals f of
     Some v \<Rightarrow> config(sf_name f \<mapsto> v) | None \<Rightarrow> config) Map.empty fs"

(* src features/connectors/ConnectorEditForm.tsx 131-133 saveBody *)
definition switches_to_url :: "connector \<Rightarrow> form_values \<Rightarrow> connector_field list \<Rightarrow> bool" where
  "switches_to_url c vals fs \<longleftrightarrow> (case List.find (\<lambda>f. sf_name f = ''url'') fs of None \<Rightarrow> False
     | Some f \<Rightarrow> \<not> sf_required f \<and> from_opt [] (cn_url c) = []
         \<and> (case vals ''url'' of Some v \<Rightarrow> text_of v | None \<Rightarrow> from_opt [] (cn_url c)) \<noteq> [])"

(* src features/connectors/ConnectorEditForm.tsx 134-136 saveBody *)
definition clear_secrets :: "connector_field list \<Rightarrow> form_values \<Rightarrow> form_values" where
  "clear_secrets fs config = foldl (\<lambda>m f. if sf_kind f = ''secret'' \<and> m (sf_name f) = None
     then m(sf_name f \<mapsto> JStr []) else m) config fs"

(* src features/connectors/ConnectorEditForm.tsx 112-137 saveBody *)
definition update_config :: "bool \<Rightarrow> connector \<Rightarrow> form_values \<Rightarrow> connector_field list \<Rightarrow> form_values" where
  "update_config admin c vals fs =
     (if switches_to_url c vals fs then clear_secrets fs (sent_settings admin c vals fs) else sent_settings admin c vals fs)"

(* src features/connectors/ConnectorEditForm.tsx 142-142 saveBody *)
definition update_verifyTls :: "connector \<Rightarrow> form_values \<Rightarrow> connector_field list \<Rightarrow> bool option" where
  "update_verifyTls c vals fs = (case List.find isVerifyTlsField fs of None \<Rightarrow> cn_verifyTls c
     | Some f \<Rightarrow> (case vals (sf_name f) of Some v \<Rightarrow> Some (is_on v) | None \<Rightarrow> cn_verifyTls c))"

text \<open>\<open>schema\<close> is missing while the types are being read; then no field is known.\<close>

(* src features/connectors/ConnectorEditForm.tsx 111-151 saveBody *)
definition saveBody :: "bool \<Rightarrow> connector_type option \<Rightarrow> connector \<Rightarrow> edit_form \<Rightarrow> update_body" where
  "saveBody admin schema c ef =
     (let fs = (case schema of Some ty \<Rightarrow> ty_fields ty | None \<Rightarrow> [])
      in \<lparr>ub_name = from_opt (cn_name c) (ef_name ef),
          ub_owner = from_opt (from_opt [] (cn_owner c)) (ef_owner ef),
          ub_url = (case ef_values ef ''url'' of Some v \<Rightarrow> Some (text_of v) | None \<Rightarrow> cn_url c),
          ub_verifyTls = update_verifyTls c (ef_values ef) fs,
          ub_config = update_config admin c (ef_values ef) fs,
          ub_userExpiresAt = map_option (\<lambda>s. if s = [] then None else Some (s @ ''T00:00:00Z'')) (ef_userExpiresAt ef),
          ub_rotationMaxAgeDays = map_option (\<lambda>s. if s = [] then None else js_number s) (ef_rotationMaxAgeDays ef)\<rparr>)"

subsection \<open>What the server keeps\<close>

text \<open>
  The server replaces the stored settings by those of the request, except for fields that are kept
  when they are omitted; of what is stored, a read gives back the shareable texts only. The endpoint
  settings of a probe are those the client knows.
\<close>

(* src /backend/internal/api/connectors/handlers.go 607-627 fieldKeptWhenOmitted *)
definition fieldKeptWhenOmitted :: "connector_type \<Rightarrow> string \<Rightarrow> bool" where
  "fieldKeptWhenOmitted ty k \<longleftrightarrow> isTlsProbeEndpointField (ty_type ty) k
     \<or> (case List.find (\<lambda>f. sf_name f = k) (ty_fields ty) of None \<Rightarrow> False
        | Some f \<Rightarrow> sf_kind f \<in> set [''password'', ''secret'', ''textarea''])"

(* src /backend/internal/api/connectors/handlers.go 649-667 effectiveConnectorConfig *)
definition keep_stored :: "connector_type \<Rightarrow> form_values \<Rightarrow> form_values \<Rightarrow> connector_field \<Rightarrow> form_values" where
  "keep_stored ty stored merged f =
     (if \<not> fieldKeptWhenOmitted ty (sf_name f) \<or> merged (sf_name f) \<noteq> None then merged
      else (case stored (sf_name f) of None \<Rightarrow> merged
        | Some v \<Rightarrow> if ty_type ty = ''tlsprobe'' then merged(sf_name f \<mapsto> v)
            else (case v of JStr s \<Rightarrow> if s \<noteq> [] then merged(sf_name f \<mapsto> v) else merged | _ \<Rightarrow> merged)))"

(* src /backend/internal/api/connectors/handlers.go 637-668 effectiveConnectorConfig *)
definition effectiveConnectorConfig :: "connector_type \<Rightarrow> form_values \<Rightarrow> form_values \<Rightarrow> form_values" where
  "effectiveConnectorConfig ty stored requested = foldl (keep_stored ty stored) requested (ty_fields ty)"

text \<open>\<open>num\<close> renders a number. A stored \<open>null\<close> is read as an empty text.\<close>

(* src /backend/internal/api/connectors/handlers.go 134-172 safeConnectorConfig *)
definition safeConnectorConfig :: "(rat \<Rightarrow> string) \<Rightarrow> connector_type \<Rightarrow> form_values \<Rightarrow> string \<rightharpoonup> string" where
  "safeConnectorConfig num ty stored k =
     (if list_ex (\<lambda>f. sf_name f = k \<and> sf_kind f = ''textarea'') (ty_fields ty)
         \<or> ty_type ty = ''tlsprobe'' \<and> k \<in> set [''import_connector_id'', ''import_port'']
      then (case stored k of Some (JStr s) \<Rightarrow> Some s | Some JNull \<Rightarrow> Some []
        | Some (JNum n) \<Rightarrow> if ty_type ty = ''tlsprobe'' \<and> k = ''import_port'' then Some (num n) else None
        | _ \<Rightarrow> None)
      else None)"

subsection \<open>Editing while the connector is read again\<close>

text \<open>
  The form for the connector \<open>es_id\<close>, the connector as last read (nothing while it is not known) and
  the values the parent opens it with. \<open>es_sent\<close> is every update sent.
\<close>

(* src features/connectors/ConnectorEditForm.tsx 65-85 ConnectorEditForm *)
record edit_state =
  es_id :: string
  es_data :: "connector option"
  es_overrides :: "form_values option"
  es_form :: edit_form
  es_inFlight :: bool
  es_sent :: "(string \<times> update_body) list"

definition open_edit :: "string \<Rightarrow> form_values option \<Rightarrow> edit_state" where
  "open_edit i overrides = \<lparr>es_id = i, es_data = None, es_overrides = overrides, es_form = untouched, es_inFlight = False, es_sent = []\<rparr>"

(* src features/connectors/ConnectorEditForm.tsx 95-102 ConnectorEditForm *)
definition form_from :: "string \<Rightarrow> form_values option \<Rightarrow> edit_form" where
  "form_from i overrides = (let vals = from_opt Map.empty overrides
     in \<lparr>ef_name = map_option text_of (vals ''name''), ef_owner = map_option text_of (vals ''owner''), ef_values = vals,
         ef_appliedFor = Some i, ef_userExpiresAt = map_option text_of (vals ''userExpiresAt''),
         ef_rotationMaxAgeDays = map_option text_of (vals ''rotationMaxAgeDays'')\<rparr>)"

text \<open>The effect that runs when the connector, the id or the overrides change.\<close>

(* src features/connectors/ConnectorEditForm.tsx 93-103 ConnectorEditForm *)
definition apply_overrides :: "edit_state \<Rightarrow> edit_state" where
  "apply_overrides st = (case es_data st of None \<Rightarrow> st
     | Some c \<Rightarrow> if cn_id c \<noteq> es_id st \<or> ef_appliedFor (es_form st) = Some (es_id st) then st
         else st\<lparr>es_form := form_from (es_id st) (es_overrides st)\<rparr>)"

datatype edit_event = Connector_read connector | Rerender string "form_values option" "connector option" | Edit_name string | Edit_owner string
  | Edit_field connector_field json | Edit_expiry string | Edit_maxAge string | Save_edit | Saved_edit connector | Save_rejected json

text \<open>The controls are shown for a connector that is known and not declared in the configuration file.\<close>

(* src features/connectors/ConnectorEditForm.tsx 193-213 ConnectorEditForm *)
definition edit_shown :: "edit_state \<Rightarrow> bool" where
  "edit_shown st \<longleftrightarrow> (case es_data st of None \<Rightarrow> False
     | Some c \<Rightarrow> cn_managedBy c \<noteq> Some ''config'' \<and> cn_managedBy c \<noteq> Some ''config-orphaned'')"

(* src features/connectors/ConnectorEditForm.tsx 231-231 ConnectorEditForm *)
definition edit_disabled :: "bool \<Rightarrow> string \<Rightarrow> connector_field \<Rightarrow> bool" where
  "edit_disabled admin type f \<longleftrightarrow> \<not> admin \<and> (isTlsProbeEndpointField type (sf_name f) \<or> type = ''custom'' \<and> sf_name f = ''recipe'')"

(* src features/connectors/ConnectorEditForm.tsx 314-321 ConnectorEditForm *)
definition submit_edit :: "bool \<Rightarrow> connector_type list \<Rightarrow> edit_state \<Rightarrow> edit_state" where
  "submit_edit admin schemas st = (case es_data st of None \<Rightarrow> st
     | Some c \<Rightarrow> if from_opt (cn_name c) (ef_name (es_form st)) = [] \<or> es_inFlight st then st
         else st\<lparr>es_inFlight := True,
           es_sent := es_sent st @ [(es_id st, saveBody admin (schema_for schemas (Some (cn_type c))) c (es_form st))]\<rparr>)"

(* src features/connectors/ConnectorEditForm.tsx 215-324 ConnectorEditForm *)
fun edit_change :: "bool \<Rightarrow> connector_type list \<Rightarrow> edit_event \<Rightarrow> edit_state \<Rightarrow> edit_state" where
  "edit_change admin schemas (Connector_read c) st = st\<lparr>es_data := Some c\<rparr>"
| "edit_change admin schemas (Rerender i overrides cached) st =
     st\<lparr>es_id := i, es_overrides := overrides, es_data := (if i = es_id st then es_data st else cached)\<rparr>"
| "edit_change admin schemas (Edit_name s) st = (if edit_shown st then st\<lparr>es_form := (es_form st)\<lparr>ef_name := Some s\<rparr>\<rparr> else st)"
| "edit_change admin schemas (Edit_owner s) st = (if edit_shown st then st\<lparr>es_form := (es_form st)\<lparr>ef_owner := Some s\<rparr>\<rparr> else st)"
| "edit_change admin schemas (Edit_field f v) st =
     (case es_data st of
        Some c \<Rightarrow> if edit_shown st \<and> \<not> edit_disabled admin (cn_type c) f
          then st\<lparr>es_form := (es_form st)\<lparr>ef_values := (ef_values (es_form st))(sf_name f \<mapsto> v)\<rparr>\<rparr> else st
      | None \<Rightarrow> st)"
| "edit_change admin schemas (Edit_expiry s) st = (if edit_shown st then st\<lparr>es_form := (es_form st)\<lparr>ef_userExpiresAt := Some s\<rparr>\<rparr> else st)"
| "edit_change admin schemas (Edit_maxAge s) st = (if edit_shown st then st\<lparr>es_form := (es_form st)\<lparr>ef_rotationMaxAgeDays := Some s\<rparr>\<rparr> else st)"
| "edit_change admin schemas Save_edit st = (if edit_shown st then submit_edit admin schemas st else st)"
| "edit_change admin schemas (Saved_edit c) st = (if es_inFlight st then st\<lparr>es_inFlight := False, es_data := Some c\<rparr> else st)"
| "edit_change admin schemas (Save_rejected e) st = st\<lparr>es_inFlight := False\<rparr>"

definition edit_step :: "bool \<Rightarrow> connector_type list \<Rightarrow> edit_event \<Rightarrow> edit_state \<Rightarrow> edit_state" where
  "edit_step admin schemas ev st = apply_overrides (edit_change admin schemas ev st)"
subsection \<open>What a create request carries\<close>

lemma create_config_some:
  assumes "f \<in> set fs" "\<not> P f"
  shows "\<exists>g \<in> set fs. \<not> P g \<and> sf_name g = sf_name f
     \<and> foldl (\<lambda>m f. if P f then m else m(sf_name f \<mapsto> entered vals f)) m0 fs (sf_name f) = Some (entered vals g)"
  using assms
proof (induction fs rule: rev_induct)
  case (snoc g fs)
  then show ?case by (cases "\<not> P g \<and> sf_name g = sf_name f") auto
qed simp

lemma create_config_dom:
  "dom (foldl (\<lambda>m f. if P f then m else m(sf_name f \<mapsto> entered vals f)) m0 fs) = dom m0 \<union> sf_name ` {f \<in> set fs. \<not> P f}"
  by (induction fs rule: rev_induct) auto

definition body_fits :: "bool \<Rightarrow> connector_type list \<Rightarrow> create_body \<Rightarrow> bool" where
  "body_fits admin schemas b \<longleftrightarrow> cb_name b \<noteq> [] \<and> cb_owner b \<noteq> Some [] \<and> cb_url b \<noteq> Some []
     \<and> list_ex (\<lambda>ty. ty_type ty = cb_type b
         \<and> dom (cb_config b) = sf_name ` set (filter (\<lambda>f. \<not> not_in_config admin (cb_type b) f) (ty_fields ty))
         \<and> list_all (\<lambda>f. sf_required f \<and> \<not> not_in_config admin (cb_type b) f \<longrightarrow> value_text (cb_config b) (sf_name f) \<noteq> []) (ty_fields ty)
         \<and> list_all (\<lambda>f. sf_required f \<and> sf_name f = ''url'' \<longrightarrow> cb_url b \<noteq> None) (ty_fields ty)
         \<and> cb_category b = (if derivesCategory (cb_config b) then None else Some (ty_category ty))) schemas"

lemma create_config_text:
  assumes "f \<in> set (ty_fields ty)" "\<not> not_in_config admin (ty_type ty) f" "value_text vals (sf_name f) \<noteq> []"
  shows "value_text (create_config admin ty vals) (sf_name f) \<noteq> []"
proof -
  from assms(3) obtain v where v: "vals (sf_name f) = Some v" "text_of v \<noteq> []" by (auto simp: value_text_def split: option.splits)
  from create_config_some [OF assms(1), of "not_in_config admin (ty_type ty)"] assms(2) obtain g
    where "sf_name g = sf_name f" "create_config admin ty vals (sf_name f) = Some (entered vals g)" unfolding create_config_def by blast
  with v show ?thesis by (simp add: value_text_def entered_def)
qed

lemma schema_for_some: "schema_for schemas k = Some ty \<Longrightarrow> ty \<in> set schemas \<and> k = Some (ty_type ty)"
  by (auto simp: schema_for_def find_Some_iff)

lemma createBody_fits:
  assumes "ty \<in> set schemas" "requiredFilled (Some ty) name vals"
  shows "body_fits admin schemas (createBody admin ty name owner vals)"
proof -
  have "dom (create_config admin ty vals) = sf_name ` set (filter (\<lambda>f. \<not> not_in_config admin (ty_type ty) f) (ty_fields ty))"
    unfolding create_config_def create_config_dom by simp
  moreover have "sf_required f \<Longrightarrow> f \<in> set (ty_fields ty) \<Longrightarrow> value_text vals (sf_name f) \<noteq> []" for f
    using assms(2) by (auto simp: requiredFilled_def list_all_iff)
  ultimately show ?thesis using assms
    by (auto simp: body_fits_def createBody_def Let_def list_ex_iff list_all_iff requiredFilled_def not_empty_def create_config_text
      intro!: bexI [of _ ty]) metis+
qed

text \<open>
  Every request fits, one request or dialog is open at a time and none while a created probe waits for
  the offer, and every created connector was reported or is that probe.
\<close>

definition create_inv :: "bool \<Rightarrow> connector_type list \<Rightarrow> create_form \<Rightarrow> bool" where
  "create_inv admin schemas st \<longleftrightarrow> list_all (body_fits admin schemas) (cf_sent st)
     \<and> set_option (cf_inFlight st) \<union> set_option (cf_stepUp st) \<subseteq> set (cf_sent st)
     \<and> (cf_inFlight st = None \<or> cf_stepUp st = None)
     \<and> (cf_createdTlsProbe st = None \<or> \<not> form_busy st)
     \<and> cf_created st = cf_reported st @ (case cf_createdTlsProbe st of Some c \<Rightarrow> [c] | None \<Rightarrow> [])"

lemma submit_create_inv: "create_inv admin schemas st \<Longrightarrow> create_inv admin schemas (submit_create admin schemas st)"
  using createBody_fits schema_for_some
  by (fastforce simp: submit_create_def create_inv_def form_busy_def Let_def split: option.splits)

lemma create_inv_step: "create_inv admin schemas st \<Longrightarrow> create_inv admin schemas (create_step admin schemas ev st)"
proof (cases ev)
  case Submit_create
  then show "create_inv admin schemas st \<Longrightarrow> ?thesis" by (simp add: submit_create_inv)
qed (auto simp: create_inv_def form_busy_def create_accepted_def create_refused_def offer_finished_def Let_def list_all_iff
  split: option.splits)

interpretation create: started_machine "create_step admin schemas" "\<lambda>ev. True" "create_inv admin schemas" "open_form t v"
  for admin schemas t v
  by unfold_locales (rule create_inv_step, assumption, simp add: create_inv_def open_form_def form_busy_def)

text \<open>
  However the form is opened and used, each request it sends names a connector of a known type, carries
  exactly the settings of that type that belong into its configuration (no endpoint settings of a probe
  unless the user is an instance admin), with nothing required missing and no empty owner or URL, and
  names a category exactly when no recipe decides it. Each created connector is reported exactly
  once, a probe when the offer that follows it is finished.
\<close>

theorem create_requests_fit:
  "let st = fold (create_step admin schemas) es (open_form t v)
   in list_all (body_fits admin schemas) (cf_sent st)
     \<and> cf_created st = cf_reported st @ (case cf_createdTlsProbe st of Some c \<Rightarrow> [c] | None \<Rightarrow> [])"
  using create.always [of admin schemas es t v] unfolding create_inv_def Let_def by blast

subsection \<open>What a save leaves stored\<close>

text \<open>A pass over fields of which each step only concerns its own field.\<close>

lemma foldl_own:
  assumes other: "\<And>m f k. k \<noteq> nm f \<Longrightarrow> h m f k = m k"
    and own: "\<And>m m' f. m (nm f) = m' (nm f) \<Longrightarrow> h m f (nm f) = h m' f (nm f)"
    and "distinct (map nm fs)" "f \<in> set fs"
  shows "foldl h m fs (nm f) = h m f (nm f)"
  using assms(3,4)
proof (induction fs arbitrary: m)
  case (Cons g gs)
  have skip: "nm x \<notin> nm ` set ys \<Longrightarrow> foldl h m' ys (nm x) = m' (nm x)" for x ys m'
    by (induction ys arbitrary: m') (auto simp: other)
  show ?case
  proof (cases "f = g")
    case True
    with Cons.prems skip [of g gs "h m g"] show ?thesis by simp
  next
    case False
    with Cons.prems have "f \<in> set gs" "nm f \<noteq> nm g" by (auto simp: image_iff)
    with Cons show ?thesis by (simp add: own [of "h m g" f m] other)
  qed
qed simp

lemma find_own: "distinct (map nm fs) \<Longrightarrow> f \<in> set fs \<Longrightarrow> List.find (\<lambda>g. nm g = nm f) fs = Some f"
  by (induction fs) auto

lemma sent_settings_at:
  assumes "distinct (map sf_name fs)" "f \<in> set fs"
  shows "sent_settings admin c vals fs (sf_name f) = sent_setting admin c vals f"
  unfolding sent_settings_def using assms
  by (subst foldl_own [where nm = sf_name]) (auto split: option.split)

lemma clear_secrets_at:
  assumes "distinct (map sf_name fs)" "f \<in> set fs"
  shows "clear_secrets fs config (sf_name f) =
    (if sf_kind f = ''secret'' \<and> config (sf_name f) = None then Some (JStr []) else config (sf_name f))"
  unfolding clear_secrets_def using assms by (subst foldl_own [where nm = sf_name]) auto

lemma keep_stored_at:
  assumes "distinct (map sf_name (ty_fields ty))" "f \<in> set (ty_fields ty)"
  shows "effectiveConnectorConfig ty stored requested (sf_name f) = keep_stored ty stored requested f (sf_name f)"
  unfolding effectiveConnectorConfig_def using assms
  by (intro foldl_own) (auto simp: keep_stored_def split: option.split json.split)

text \<open>
  What the form promises for one setting: \<open>typed\<close> is what the user entered, \<open>shown\<close> what the form had
  read of it, \<open>old\<close> what is stored when the save arrives. What the server keeps of a setting that is not
  sent is any value for the probe, and a text that is not empty for every other connector.
\<close>

definition kept_setting :: "string \<Rightarrow> json option \<Rightarrow> json option" where
  "kept_setting type old = (if type = ''tlsprobe'' then old
     else case old of Some (JStr s) \<Rightarrow> if s = [] then None else old | _ \<Rightarrow> None)"

definition next_setting :: "bool \<Rightarrow> bool \<Rightarrow> string \<Rightarrow> connector_field \<Rightarrow> json option \<Rightarrow> string option \<Rightarrow> json option \<Rightarrow> json option" where
  "next_setting admin to_url type f typed shown old =
     (if isTlsProbeEndpointField type (sf_name f) then
        (if admin \<and> typed \<noteq> None then typed
         else if sf_kind f = ''secret'' \<and> to_url then Some (JStr [])
         else kept_setting type old)
      else if sf_kind f = ''textarea'' then
        (if typed \<noteq> None then typed else if shown \<noteq> None then Some (JStr (the shown)) else kept_setting type old)
      else if typed \<noteq> None \<and> text_of (the typed) \<noteq> [] then typed
      else if sf_kind f = ''secret'' \<and> to_url then Some (JStr [])
      else if sf_kind f = ''secret'' \<or> sf_kind f = ''password'' then kept_setting type old
      else None)"

lemma keep_stored_own:
  assumes "distinct (map sf_name (ty_fields ty))" "f \<in> set (ty_fields ty)"
  shows "keep_stored ty stored requested f (sf_name f) =
    (if requested (sf_name f) = None \<and> (isTlsProbeEndpointField (ty_type ty) (sf_name f) \<or> sf_kind f \<in> set [''password'', ''secret'', ''textarea''])
     then kept_setting (ty_type ty) (stored (sf_name f)) else requested (sf_name f))"
  by (cases "stored (sf_name f)"; cases "the (stored (sf_name f))")
    (simp_all add: keep_stored_def kept_setting_def fieldKeptWhenOmitted_def find_own [OF assms])

lemma update_config_at:
  assumes "distinct (map sf_name fs)" "f \<in> set fs"
  shows "update_config admin c vals fs (sf_name f) =
    (if switches_to_url c vals fs \<and> sf_kind f = ''secret'' \<and> sent_setting admin c vals f = None then Some (JStr [])
     else sent_setting admin c vals f)"
  by (simp add: update_config_def clear_secrets_at [OF assms] sent_settings_at [OF assms])

text \<open>
  Claim C15. What a save leaves of each setting in the configuration of a connector, the form and the server taken
  together, whatever was stored. The URL and the TLS switch are no settings of the configuration
  but columns of the connector. Typed values replace what is stored; of passwords and secrets that
  were not typed again the stored text is kept unless it is empty, except that the switch from
  pasted settings to a URL clears the secrets; the endpoint settings of a probe only follow an
  instance admin and are else kept as they are, whatever their type; a text area that was not
  touched is set to what the form had read, and where it had read nothing a stored text is kept.
  Any other setting that was not typed again is dropped, be it a text, a number or a switch.
\<close>

theorem save_refines_settings:
  assumes "distinct (map sf_name (ty_fields ty))" "f \<in> set (ty_fields ty)" "\<not> isTopLevelField f"
    and "cn_type c = ty_type ty" "cn_config c = Some (safeConnectorConfig num ty read)"
  shows "effectiveConnectorConfig ty stored (ub_config (saveBody admin (Some ty) c ef)) (sf_name f)
    = next_setting admin (switches_to_url c (ef_values ef) (ty_fields ty)) (ty_type ty) f
        (ef_values ef (sf_name f)) (safeConnectorConfig num ty read (sf_name f)) (stored (sf_name f))"
proof -
  have config: "ub_config (saveBody admin (Some ty) c ef) = update_config admin c (ef_values ef) (ty_fields ty)"
    by (simp add: saveBody_def Let_def)
  have sent: "sent_setting admin c (ef_values ef) f =
      (if isTlsProbeEndpointField (ty_type ty) (sf_name f) then (if admin then ef_values ef (sf_name f) else None)
       else if sf_kind f = ''textarea'' then (if ef_values ef (sf_name f) \<noteq> None then ef_values ef (sf_name f)
         else map_option JStr (safeConnectorConfig num ty read (sf_name f)))
       else if ef_values ef (sf_name f) \<noteq> None \<and> text_of (the (ef_values ef (sf_name f))) \<noteq> [] then ef_values ef (sf_name f) else None)"
    using assms(3) by (cases "ef_values ef (sf_name f)") (simp_all add: sent_setting_def assms(4,5) read_setting_def)
  show ?thesis
    unfolding keep_stored_at [OF assms(1,2)] keep_stored_own [where stored = stored, OF assms(1,2)]
      config update_config_at [OF assms(1,2)] sent next_setting_def
    by (cases "ef_values ef (sf_name f)"; cases "safeConnectorConfig num ty read (sf_name f)") simp_all
qed

text \<open>A type like the server's for a UniFi controller, and one with a recipe.\<close>

definition example_field :: "string \<Rightarrow> string \<Rightarrow> connector_field" where
  "example_field n k = \<lparr>sf_name = n, sf_kind = k, sf_secret = None, sf_default = None, sf_required = False, sf_options = None\<rparr>"

definition example_type :: connector_type where
  "example_type = \<lparr>ty_category = ''networking'', ty_type = ''unifi'',
     ty_fields = [example_field ''url'' ''text'', example_field ''site'' ''text'', example_field ''password'' ''password'', example_field ''recipe'' ''textarea''],
     ty_stub = False, ty_refresher = False\<rparr>"

definition example_connector :: "form_values \<Rightarrow> connector" where
  "example_connector read = \<lparr>cn_id = ''c1'', cn_name = ''unifi'', cn_owner = None, cn_type = ''unifi'', cn_url = Some ''https://u'',
     cn_verifyTls = Some True, cn_config = Some (safeConnectorConfig (\<lambda>_. []) example_type read),
     cn_userExpiresAt = None, cn_rotationMaxAgeDays = None, cn_managedBy = None\<rparr>"

definition example_stored :: form_values where
  "example_stored = [''site'' \<mapsto> JStr ''lan'', ''password'' \<mapsto> JStr ''pw'', ''recipe'' \<mapsto> JStr ''new'']"

definition renamed :: edit_form where
  "renamed = untouched\<lparr>ef_name := Some ''controller''\<rparr>"

lemmas example_defs = example_field_def example_type_def example_connector_def example_stored_def renamed_def untouched_def

lemma save_refines_settings_witness:
  "effectiveConnectorConfig example_type example_stored
     (ub_config (saveBody False (Some example_type) (example_connector example_stored) renamed)) ''password'' = Some (JStr ''pw'')
   \<and> effectiveConnectorConfig example_type [''site'' \<mapsto> JBool True]
     (ub_config (saveBody False (Some example_type) (example_connector [''site'' \<mapsto> JBool True]) renamed)) ''site'' = None"
proof -
  let ?f = "example_field ''password'' ''password''" and ?g = "example_field ''site'' ''text''"
  have "next_setting False to_url ''unifi'' ?f None shown (example_stored ''password'') = Some (JStr ''pw'')"
    "next_setting False to_url ''unifi'' ?g None shown old = None" for to_url shown old
    by (simp_all add: next_setting_def kept_setting_def example_defs isTlsProbeEndpointField_def)
  then show ?thesis
    using save_refines_settings [of example_type ?f "example_connector example_stored" "\<lambda>_. []" example_stored example_stored False renamed]
      save_refines_settings [of example_type ?g "example_connector [''site'' \<mapsto> JBool True]" "\<lambda>_. []" "[''site'' \<mapsto> JBool True]"
        "[''site'' \<mapsto> JBool True]" False renamed]
    by (simp add: example_defs isTopLevelField_def isVerifyTlsField_def)
qed

text \<open>Renaming a connector drops each stored setting that is neither a credential nor a text area.\<close>

lemma rename_drops_settings:
  "effectiveConnectorConfig example_type example_stored
     (ub_config (saveBody admin (Some example_type) (example_connector example_stored) renamed)) ''site'' = None"
proof -
  have "keep_stored example_type example_stored m (example_field ''site'' ''text'') ''site'' = m ''site''" for m
    by (simp add: keep_stored_def fieldKeptWhenOmitted_def example_defs isTlsProbeEndpointField_def)
  moreover have "ub_config (saveBody admin (Some example_type) (example_connector example_stored) renamed) ''site'' = None"
    by (simp add: saveBody_def update_config_def switches_to_url_def sent_settings_def sent_setting_def example_defs
      isTopLevelField_def isVerifyTlsField_def isTlsProbeEndpointField_def read_setting_def Let_def safeConnectorConfig_def)
  moreover have "distinct (map sf_name (ty_fields example_type))" "example_field ''site'' ''text'' \<in> set (ty_fields example_type)"
    by (simp_all add: example_defs)
  moreover have "sf_name (example_field ''site'' ''text'') = ''site''" by (simp add: example_field_def)
  ultimately show ?thesis using keep_stored_at [of example_type "example_field ''site'' ''text''"] by simp
qed

text \<open>A recipe that was changed after the form had read it is put back by a save that does not touch it.\<close>

lemma stale_recipe_overwrites:
  "effectiveConnectorConfig example_type example_stored
     (ub_config (saveBody True (Some example_type) (example_connector [''recipe'' \<mapsto> JStr ''old'']) renamed)) ''recipe'' = Some (JStr ''old'')"
  by code_simp

subsection \<open>What was typed is kept\<close>

text \<open>The connector is read by its id; the form is opened anew for another id.\<close>

definition for_connector :: "string \<Rightarrow> edit_event \<Rightarrow> bool" where
  "for_connector i ev = (case ev of Connector_read c \<Rightarrow> cn_id c = i | Saved_edit c \<Rightarrow> cn_id c = i | Rerender j ov cached \<Rightarrow> j = i | _ \<Rightarrow> True)"

definition edit_inv :: "string \<Rightarrow> edit_state \<Rightarrow> bool" where
  "edit_inv i st \<longleftrightarrow> es_id st = i \<and> (case es_data st of None \<Rightarrow> ef_appliedFor (es_form st) = None \<and> es_form st = untouched
     | Some c \<Rightarrow> cn_id c = i \<and> ef_appliedFor (es_form st) = Some i)"

lemma appliedFor_form_from [simp]: "ef_appliedFor (form_from i ov) = Some i"
  by (simp add: form_from_def Let_def)

lemma apply_overrides_inv:
  "es_id st = i \<Longrightarrow> (\<And>c. es_data st = Some c \<Longrightarrow> cn_id c = i) \<Longrightarrow> (es_data st = None \<Longrightarrow> es_form st = untouched) \<Longrightarrow> edit_inv i (apply_overrides st)"
  by (auto simp: edit_inv_def apply_overrides_def untouched_def split: option.split)

lemma edit_change_keeps:
  assumes "edit_inv i st" "for_connector i ev"
  shows "es_id (edit_change admin schemas ev st) = i"
    "es_data (edit_change admin schemas ev st) = Some c \<Longrightarrow> cn_id c = i"
    "es_data (edit_change admin schemas ev st) = None \<Longrightarrow> es_form (edit_change admin schemas ev st) = untouched"
  using assms by (cases ev; auto simp: edit_inv_def for_connector_def edit_shown_def submit_edit_def split: option.splits if_splits)+

interpretation editing: started_machine "edit_step admin schemas" "for_connector i" "edit_inv i" "open_edit i ov"
  for admin schemas i ov
proof unfold_locales
  show "edit_inv i (edit_step admin schemas ev st)" if "edit_inv i st" "for_connector i ev" for st ev
    unfolding edit_step_def using edit_change_keeps [OF that] by (intro apply_overrides_inv) auto
qed (simp add: edit_inv_def open_edit_def untouched_def)

text \<open>While the form is open only the user changes it.\<close>

lemma applied_stays: "edit_inv i st \<Longrightarrow> es_data st \<noteq> None \<Longrightarrow> for_connector i ev
    \<Longrightarrow> edit_step admin schemas ev st = edit_change admin schemas ev st"
  unfolding edit_step_def apply_overrides_def
  by (cases ev) (auto simp: edit_inv_def for_connector_def edit_shown_def submit_edit_def split: option.splits if_splits)

definition not_about :: "string \<Rightarrow> edit_event \<Rightarrow> bool" where
  "not_about k ev = (case ev of Edit_field f v \<Rightarrow> sf_name f \<noteq> k | _ \<Rightarrow> True)"

lemma data_stays: "edit_inv i st \<Longrightarrow> es_data st \<noteq> None \<Longrightarrow> for_connector i ev \<Longrightarrow> es_data (edit_change admin schemas ev st) \<noteq> None"
  by (cases ev) (auto simp: edit_inv_def for_connector_def edit_shown_def submit_edit_def split: option.splits if_splits)

lemma value_stays_step: "edit_inv i st \<Longrightarrow> es_data st \<noteq> None \<Longrightarrow> not_about k ev
    \<Longrightarrow> ef_values (es_form (edit_change admin schemas ev st)) k = ef_values (es_form st) k"
  by (cases ev) (auto simp: not_about_def submit_edit_def split: option.splits)

lemma value_stays:
  assumes "edit_inv i st" "es_data st \<noteq> None" "list_all (for_connector i) es" "list_all (not_about k) es"
  shows "ef_values (es_form (fold (edit_step admin schemas) es st)) k = ef_values (es_form st) k"
  using assms
proof (induction es arbitrary: st)
  case (Cons ev es)
  then have "edit_step admin schemas ev st = edit_change admin schemas ev st" by (intro applied_stays) auto
  moreover have "edit_inv i (edit_step admin schemas ev st)" using Cons.prems editing.kept by auto
  ultimately show ?case using Cons data_stays [of i st ev admin schemas] value_stays_step [of i st k ev admin schemas] by simp
qed simp

text \<open>
  Claim C16. What was typed into a field is what the next save sends for it, whatever happens in between: reads of
  the connector with other values, new values handed down by the parent, saves and rejections, and edits of other fields.
  (The field is one that the form sends: not the URL or the TLS switch, which are sent beside the settings,
  no endpoint setting of a probe for somebody who is not an instance admin, and with a text that is not empty
  unless it is a text area.)
\<close>

theorem typed_is_sent:
  assumes "list_all (for_connector i) (before @ after)" "list_all (not_about (sf_name f)) after"
    and "st = fold (edit_step admin schemas) before (open_edit i ov)"
    and "es_data st = Some c" "edit_shown st" "\<not> edit_disabled admin (cn_type c) f"
    and "st' = fold (edit_step admin schemas) after (edit_step admin schemas (Edit_field f v) st)"
    and "es_data st' = Some c'" "edit_shown st'" "\<not> es_inFlight st'" "from_opt (cn_name c') (ef_name (es_form st')) \<noteq> []"
    and "schema_for schemas (Some (cn_type c')) = Some ty" "distinct (map sf_name (ty_fields ty))" "f \<in> set (ty_fields ty)"
    and "\<not> isTopLevelField f" "admin \<or> \<not> isTlsProbeEndpointField (cn_type c') (sf_name f)" "text_of v \<noteq> [] \<or> sf_kind f = ''textarea''"
  shows "\<exists>body. es_sent (edit_step admin schemas Save_edit st') = es_sent st' @ [(i, body)]
    \<and> ub_config body (sf_name f) = Some v"
proof -
  have inv: "edit_inv i st" using editing.reachable [of i before admin schemas ov] assms(1,3) by simp
  have ev: "for_connector i (Edit_field f v)" by (simp add: for_connector_def)
  have one: "edit_step admin schemas (Edit_field f v) st = edit_change admin schemas (Edit_field f v) st"
    using applied_stays [OF inv _ ev] assms(4) by simp
  have inv1: "edit_inv i (edit_step admin schemas (Edit_field f v) st)" by (rule editing.kept [OF inv ev])
  have typed: "ef_values (es_form st') (sf_name f) = Some v"
    using value_stays [OF inv1 _ _ assms(2), of admin schemas] assms(1,4-7) by (simp add: one)
  have inv': "edit_inv i st'" using editing.machine_run [OF inv1, of after admin schemas] assms(1,7) by simp
  have "edit_step admin schemas Save_edit st' = submit_edit admin schemas st'"
    using applied_stays [OF inv', of Save_edit admin schemas] assms(8,9) by (simp add: for_connector_def)
  then have "es_sent (edit_step admin schemas Save_edit st') = es_sent st' @ [(i, saveBody admin (Some ty) c' (es_form st'))]"
    using assms(8,10-12) inv' by (simp add: submit_edit_def edit_inv_def)
  moreover have "ub_config (saveBody admin (Some ty) c' (es_form st')) (sf_name f) = Some v"
    using typed assms(15-17) by (auto simp: saveBody_def Let_def update_config_at [OF assms(13,14)] sent_setting_def)
  ultimately show ?thesis by blast
qed

definition example_reads :: "connector \<times> connector" where
  "example_reads = (example_connector example_stored, (example_connector Map.empty)\<lparr>cn_name := ''other''\<rparr>)"

lemma typed_is_sent_witness:
  "\<exists>body. es_sent (edit_step True [example_type] Save_edit (fold (edit_step True [example_type])
        [Connector_read (snd example_reads), Rerender ''c1'' (Some [''site'' \<mapsto> JStr ''wan'']) None]
        (edit_step True [example_type] (Edit_field (example_field ''site'' ''text'') (JStr ''dmz''))
          (fold (edit_step True [example_type]) [Connector_read (fst example_reads)] (open_edit ''c1'' None)))))
      = [(''c1'', body)] \<and> ub_config body ''site'' = Some (JStr ''dmz'')"
proof -
  let ?step = "edit_step True [example_type]" and ?f = "example_field ''site'' ''text''"
  let ?before = "[Connector_read (fst example_reads)]"
    and ?after = "[Connector_read (snd example_reads), Rerender ''c1'' (Some [''site'' \<mapsto> JStr ''wan'']) None]"
  let ?st = "\<lparr>es_id = ''c1'', es_data = Some (fst example_reads), es_overrides = None, es_form = form_from ''c1'' None,
      es_inFlight = False, es_sent = []\<rparr>"
  let ?st' = "\<lparr>es_id = ''c1'', es_data = Some (snd example_reads), es_overrides = Some [''site'' \<mapsto> JStr ''wan''],
      es_form = (form_from ''c1'' None)\<lparr>ef_values := [''site'' \<mapsto> JStr ''dmz'']\<rparr>, es_inFlight = False, es_sent = []\<rparr>"
  have ids: "cn_id (fst example_reads) = ''c1''" "cn_id (snd example_reads) = ''c1''" "cn_type (fst example_reads) = ''unifi''"
      "cn_type (snd example_reads) = ''unifi''" "cn_managedBy (fst example_reads) = None" "cn_managedBy (snd example_reads) = None"
      "cn_name (snd example_reads) = ''other''" "sf_name ?f = ''site''"
    by (simp_all add: example_reads_def example_connector_def example_field_def)
  have st: "?st = fold ?step ?before (open_edit ''c1'' None)"
    by (simp add: edit_step_def apply_overrides_def open_edit_def untouched_def ids)
  have st': "?st' = fold ?step ?after (?step (Edit_field ?f (JStr ''dmz'')) ?st)"
    by (simp add: edit_step_def apply_overrides_def edit_shown_def edit_disabled_def ids form_from_def)
  have schema: "schema_for [example_type] (Some ''unifi'') = Some example_type" "distinct (map sf_name (ty_fields example_type))"
      "?f \<in> set (ty_fields example_type)" "\<not> isTopLevelField ?f"
    by (simp_all add: schema_for_def example_defs isTopLevelField_def isVerifyTlsField_def)
  have "\<exists>body. es_sent (?step Save_edit ?st') = es_sent ?st' @ [(''c1'', body)] \<and> ub_config body (sf_name ?f) = Some (JStr ''dmz'')"
    by (rule typed_is_sent [OF _ _ st _ _ _ st', where c = "fst example_reads" and c' = "snd example_reads" and ty = example_type])
      (simp_all add: for_connector_def not_about_def edit_shown_def edit_disabled_def ids form_from_def text_of_def schema)
  then show ?thesis unfolding st [symmetric] st' [symmetric] by (simp add: ids)
qed

end
