(* ===== verification/Onboarding.thy ===== *)
theory Onboarding
  imports ConnectorForms Live
begin

text \<open>
  The first run (\<open>features/onboarding/OnboardingPage.tsx\<close>): the steps, the connectors collected from the
  form and from the connect queue, and the first syncs; and the offer of the certificate rules after a
  probe was created (\<open>features/compliance/CertificateExpiryPackOffer.tsx\<close>). The lemmas show that no step
  is left blank, that every collected connector is listed and synced once it is shown, and that the offer ends
  exactly once however it ends.
\<close>

subsection \<open>The steps\<close>

(* src features/onboarding/OnboardingPage.tsx 24-25 Step *)
datatype step = Welcome | Connect | Sync | Done

(* src features/onboarding/OnboardingPage.tsx 25-25 ORDER *)
definition ORDER :: "step list" where
  "ORDER = [Welcome, Connect, Sync, Done]"

(* src features/onboarding/OnboardingPage.tsx 114-142 Stepper *)
definition step_mark :: "step \<Rightarrow> step \<Rightarrow> string" where
  "step_mark current s = (let i = length (takeWhile (\<lambda>x. x \<noteq> s) ORDER); n = length (takeWhile (\<lambda>x. x \<noteq> current) ORDER)
     in if i < n then ''done'' else if i = n then ''current'' else ''upcoming'')"

text \<open>\<open>ob_synced\<close> is every id a first sync was asked for.\<close>

(* src features/onboarding/OnboardingPage.tsx 27-44 OnboardingPage *)
record onboarding =
  ob_step :: step
  ob_connectors :: "connector list"
  ob_queueOpen :: bool
  ob_shownIds :: "string option"
  ob_synced :: "string list"
  ob_left :: "string list"

definition onboarding_init :: onboarding where
  "onboarding_init = \<lparr>ob_step = Welcome, ob_connectors = [], ob_queueOpen = False, ob_shownIds = None, ob_synced = [], ob_left = []\<rparr>"

(* src features/onboarding/OnboardingPage.tsx 39-44 addConnector *)
definition addConnector :: "connector \<Rightarrow> onboarding \<Rightarrow> onboarding" where
  "addConnector c st = st\<lparr>ob_connectors := filter (\<lambda>d. cn_id d \<noteq> cn_id c) (ob_connectors st) @ [c]\<rparr>"

(* src features/onboarding/OnboardingPage.tsx 190-190 SyncStep *)
definition sync_ids :: "onboarding \<Rightarrow> string" where
  "sync_ids st = join_with '','' (map cn_id (ob_connectors st))"

text \<open>
  The effect of the sync step: it runs when the step appears and when its ids change; the step is shown
  only when there is a connector.
\<close>

(* src features/onboarding/OnboardingPage.tsx 188-197 SyncStep *)
definition sync_effect :: "onboarding \<Rightarrow> onboarding" where
  "sync_effect st =
     (if ob_step st = Sync \<and> ob_connectors st \<noteq> [] then
        (if ob_shownIds st = Some (sync_ids st) then st
         else st\<lparr>ob_shownIds := Some (sync_ids st), ob_synced := ob_synced st @ split_on CHR '','' (sync_ids st)\<rparr>)
      else st\<lparr>ob_shownIds := None\<rparr>)"

(* src features/onboarding/OnboardingPage.tsx 185-186 jobOf *)
definition jobOf :: "(string \<rightharpoonup> sync_job) \<Rightarrow> connector \<Rightarrow> sync_job option" where
  "jobOf jobs c = (case jobs (cn_id c) of Some j \<Rightarrow> Some j | None \<Rightarrow> jobs ''global'')"

definition in_phase :: "(string \<rightharpoonup> sync_job) \<Rightarrow> sync_phase \<Rightarrow> connector \<Rightarrow> bool" where
  "in_phase jobs p c \<longleftrightarrow> (case jobOf jobs c of Some j \<Rightarrow> job_phase j = p | None \<Rightarrow> False)"

(* src features/onboarding/OnboardingPage.tsx 199-199 SyncStep *)
definition sync_done :: "(string \<rightharpoonup> sync_job) \<Rightarrow> connector list \<Rightarrow> bool" where
  "sync_done jobs cs \<longleftrightarrow> list_all (in_phase jobs Phase_done) cs"

(* src features/onboarding/OnboardingPage.tsx 200-200 SyncStep *)
definition sync_failed :: "(string \<rightharpoonup> sync_job) \<Rightarrow> connector list \<Rightarrow> bool" where
  "sync_failed jobs cs \<longleftrightarrow> list_ex (in_phase jobs Phase_error) cs"

(* src features/onboarding/OnboardingPage.tsx 201-204 SyncStep *)
definition canContinue :: "(string \<rightharpoonup> sync_job) \<Rightarrow> connector list \<Rightarrow> bool" where
  "canContinue jobs cs \<longleftrightarrow> list_all (\<lambda>c. in_phase jobs Phase_done c \<or> in_phase jobs Phase_error c) cs \<and> list_ex (in_phase jobs Phase_done) cs"

text \<open>The title of the step, by its message key.\<close>

(* src features/onboarding/OnboardingPage.tsx 206-219 SyncStep *)
definition sync_title :: "(string \<rightharpoonup> sync_job) \<Rightarrow> connector list \<Rightarrow> string" where
  "sync_title jobs cs = (if sync_done jobs cs then ''onboarding.sync.complete''
     else if sync_failed jobs cs then ''onboarding.sync.failed''
     else if length cs > 1 then ''onboarding.sync.titleMany'' else ''onboarding.sync.title'')"

text \<open>The bar of one connector: its width, and the message below it.\<close>

(* src features/onboarding/OnboardingPage.tsx 243-271 SyncRow *)
definition sync_row :: "(string \<rightharpoonup> sync_job) \<Rightarrow> connector \<Rightarrow> int \<times> string" where
  "sync_row jobs c = (let p = (case jobOf jobs c of Some j \<Rightarrow> job_percent j | None \<Rightarrow> 0)
     in if in_phase jobs Phase_done c then (100, ''onboarding.sync.completeDetail'')
        else if in_phase jobs Phase_error c then (p, ''onboarding.sync.errorDetail'')
        else (p, if jobOf jobs c \<noteq> None then ''onboarding.sync.running'' else ''onboarding.sync.waiting''))"

subsection \<open>Going through the steps\<close>

text \<open>
  A connector saved by hand or in the queue is reported whenever the answer arrives, also when its form
  is gone. \<open>ob_left\<close> is where the page was left for; then nothing happens any more.
\<close>

datatype onboarding_event = Start_setup | Queue_active bool | Flow_saved connector | Queue_done | Continue_connected
  | Manual_created connector | Sync_continue "string \<rightharpoonup> sync_job" | Skip_sync | To_dashboard | Add_another

(* src features/onboarding/OnboardingPage.tsx 71-74 OnboardingPage *)
definition queue_done :: "onboarding \<Rightarrow> onboarding" where
  "queue_done st = (if ob_connectors st \<noteq> [] then st\<lparr>ob_step := Sync\<rparr> else st)"

(* src features/onboarding/OnboardingPage.tsx 54-108 OnboardingPage *)
fun onboarding_change :: "onboarding_event \<Rightarrow> onboarding \<Rightarrow> onboarding" where
  "onboarding_change Start_setup st = (if ob_step st = Welcome then st\<lparr>ob_step := Connect\<rparr> else st)"
| "onboarding_change (Queue_active b) st = (if ob_step st = Connect then st\<lparr>ob_queueOpen := b\<rparr> else st)"
| "onboarding_change (Flow_saved c) st = addConnector c st"
| "onboarding_change Queue_done st = queue_done st"
| "onboarding_change Continue_connected st =
     (if ob_step st = Connect \<and> ob_connectors st \<noteq> [] \<and> \<not> ob_queueOpen st then st\<lparr>ob_step := Sync\<rparr> else st)"
| "onboarding_change (Manual_created c) st = (addConnector c st)\<lparr>ob_step := Sync\<rparr>"
| "onboarding_change (Sync_continue jobs) st =
     (if ob_step st = Sync \<and> canContinue jobs (ob_connectors st) then st\<lparr>ob_step := Done\<rparr> else st)"
| "onboarding_change Skip_sync st = (if ob_step st = Sync then st\<lparr>ob_left := ''/dashboard'' # ob_left st\<rparr> else st)"
| "onboarding_change To_dashboard st = (if ob_step st = Done then st\<lparr>ob_left := ''/dashboard'' # ob_left st\<rparr> else st)"
| "onboarding_change Add_another st = (if ob_step st = Done then st\<lparr>ob_left := ''/services/new'' # ob_left st\<rparr> else st)"

definition onboarding_step :: "onboarding_event \<Rightarrow> onboarding \<Rightarrow> onboarding" where
  "onboarding_step ev st = (if ob_left st \<noteq> [] then st else sync_effect (onboarding_change ev st))"

text \<open>Ids are those of the server, which hold no comma.\<close>

definition plain_ids :: "onboarding_event \<Rightarrow> bool" where
  "plain_ids ev = (case ev of Flow_saved c \<Rightarrow> CHR '','' \<notin> set (cn_id c) | Manual_created c \<Rightarrow> CHR '','' \<notin> set (cn_id c) | _ \<Rightarrow> True)"

definition onboarding_ok :: "onboarding \<Rightarrow> bool" where
  "onboarding_ok st \<longleftrightarrow> distinct (map cn_id (ob_connectors st)) \<and> list_all (\<lambda>c. CHR '','' \<notin> set (cn_id c)) (ob_connectors st)
     \<and> (ob_step st = Sync \<or> ob_step st = Done \<longrightarrow> ob_connectors st \<noteq> [])
     \<and> (\<forall>ids. ob_shownIds st = Some ids \<longrightarrow> set (split_on CHR '','' ids) \<subseteq> set (ob_synced st))"

lemma addConnector_ok [simp]:
  "distinct (map cn_id (ob_connectors st)) \<Longrightarrow> distinct (map cn_id (ob_connectors (addConnector c st)))"
  "ob_connectors (addConnector c st) \<noteq> []" "ob_step (addConnector c st) = ob_step st"
  "ob_shownIds (addConnector c st) = ob_shownIds st" "ob_synced (addConnector c st) = ob_synced st"
  "list_all P (ob_connectors st) \<Longrightarrow> P c \<Longrightarrow> list_all P (ob_connectors (addConnector c st))"
  by (auto simp: addConnector_def distinct_map_filter list_all_iff)

lemma sync_effect_ok: "onboarding_ok st \<Longrightarrow> onboarding_ok (sync_effect st)"
  by (auto simp: onboarding_ok_def sync_effect_def)

lemma onboarding_change_ok: "onboarding_ok st \<Longrightarrow> plain_ids ev \<Longrightarrow> onboarding_ok (onboarding_change ev st)"
  by (cases ev) (auto simp: onboarding_ok_def plain_ids_def queue_done_def)

lemma sync_shown: "ob_step st = Sync \<Longrightarrow> ob_connectors st \<noteq> [] \<Longrightarrow> ob_shownIds (sync_effect st) = Some (sync_ids (sync_effect st))"
  by (simp add: sync_effect_def sync_ids_def)

definition onboarding_inv :: "onboarding \<Rightarrow> bool" where
  "onboarding_inv st \<longleftrightarrow> onboarding_ok st \<and> (ob_step st = Sync \<longrightarrow> ob_shownIds st = Some (sync_ids st))"

lemma sync_effect_same [simp]: "ob_step (sync_effect st) = ob_step st" "ob_connectors (sync_effect st) = ob_connectors st"
  "ob_queueOpen (sync_effect st) = ob_queueOpen st" "ob_left (sync_effect st) = ob_left st"
  by (simp_all add: sync_effect_def)

lemma sync_effect_inv: "onboarding_ok st \<Longrightarrow> onboarding_inv (sync_effect st)"
  using sync_effect_ok [of st] sync_shown [of st] by (auto simp: onboarding_inv_def onboarding_ok_def)

interpretation first_run: started_machine onboarding_step plain_ids onboarding_inv onboarding_init
proof unfold_locales
  show "onboarding_inv (onboarding_step ev st)" if "onboarding_inv st" "plain_ids ev" for ev st
    using that sync_effect_inv [OF onboarding_change_ok] by (auto simp: onboarding_step_def onboarding_inv_def)
qed (simp add: onboarding_inv_def onboarding_ok_def onboarding_init_def)

text \<open>
  The first run, however forms, queue and answers interleave: a connector that is saved more than once is
  listed once; the sync step and the last step always have a connector to show; and in the sync step a first sync has
  been asked for every listed connector, those that were reported late included.
\<close>

theorem setup_syncs_all:
  assumes "list_all plain_ids es" "st = fold onboarding_step es onboarding_init"
  shows "distinct (map cn_id (ob_connectors st))
    \<and> (ob_step st \<in> set [Sync, Done] \<longrightarrow> ob_connectors st \<noteq> [])
    \<and> (ob_step st = Sync \<longrightarrow> cn_id ` set (ob_connectors st) \<subseteq> set (ob_synced st))"
proof -
  have inv: "onboarding_inv st" using first_run.reachable [OF assms(1)] assms(2) by simp
  have "split_on CHR '','' (sync_ids st) = map cn_id (ob_connectors st)" if "ob_connectors st \<noteq> []"
    unfolding sync_ids_def using that inv by (intro split_on_join) (auto simp: onboarding_inv_def onboarding_ok_def list_all_iff)
  with inv show ?thesis by (auto simp: onboarding_inv_def onboarding_ok_def image_subset_iff)
qed

text \<open>
  A connector added by hand whose answer arrives after the queue was opened ends the queue: the page goes
  on to the sync step.
\<close>

lemma late_save_leaves_queue:
  "let st = fold onboarding_step [Start_setup, Queue_active True, Manual_created c] onboarding_init
   in ob_queueOpen st \<and> ob_step st = Sync"
  by (simp add: onboarding_step_def onboarding_init_def addConnector_def Let_def)

lemma setup_syncs_all_witness:
  "ob_synced (fold onboarding_step [Start_setup, Manual_created (example_connector Map.empty)] onboarding_init) \<noteq> []"
proof -
  let ?es = "[Start_setup, Manual_created (example_connector Map.empty)]"
  have "ob_step (fold onboarding_step ?es onboarding_init) = Sync" "ob_connectors (fold onboarding_step ?es onboarding_init) \<noteq> []"
    by (simp_all add: onboarding_step_def onboarding_init_def addConnector_def)
  then show ?thesis
    using setup_syncs_all [of ?es "fold onboarding_step ?es onboarding_init"] by (auto simp: plain_ids_def example_connector_def)
qed

subsection \<open>The offer of the certificate rules\<close>

text \<open>What is read of the offered pack: nothing yet, an error, or whether it is installed (if it exists).\<close>

datatype packs_read = Packs_pending | Packs_failed | Packs_known "bool option"

text \<open>
  \<open>of_stored\<close> is what the browser remembers. The parent's request ends when the offer reports that it
  is finished; \<open>of_started\<close> and \<open>of_ended\<close> count the requests.
\<close>

(* src features/compliance/CertificateExpiryPackOffer.tsx 44-51 CertificateExpiryPackOffer *)
record offer =
  of_requested :: bool
  of_admin :: "bool option"
  of_dismissed :: bool
  of_stored :: bool
  of_packs :: packs_read
  of_completed :: bool
  of_installing :: bool
  of_installError :: bool
  of_started :: nat
  of_ended :: nat

(* src features/compliance/CertificateExpiryPackOffer.tsx 44-47 CertificateExpiryPackOffer *)
definition offer_mount :: "bool \<Rightarrow> offer" where
  "offer_mount stored = \<lparr>of_requested = False, of_admin = None, of_dismissed = stored, of_stored = stored, of_packs = Packs_pending,
     of_completed = False, of_installing = False, of_installError = False, of_started = 0, of_ended = 0\<rparr>"

(* src features/connectors/ConnectorForm.tsx 269-274 ConnectorForm *)
definition parent_finished :: "offer \<Rightarrow> offer" where
  "parent_finished st = (if of_requested st then st\<lparr>of_requested := False, of_ended := of_ended st + 1\<rparr> else st)"

(* src features/compliance/CertificateExpiryPackOffer.tsx 53-57 finish *)
definition finish_offer :: "offer \<Rightarrow> offer" where
  "finish_offer st = (if of_completed st then st else parent_finished (st\<lparr>of_completed := True\<rparr>))"

(* src features/compliance/CertificateExpiryPackOffer.tsx 59-70 CertificateExpiryPackOffer *)
definition offer_effect :: "offer \<Rightarrow> offer" where
  "offer_effect st =
     (if \<not> of_requested st then st\<lparr>of_completed := False\<rparr>
      else case of_admin st of None \<Rightarrow> st
        | Some mayInstall \<Rightarrow>
            if \<not> mayInstall \<or> of_dismissed st \<or> of_packs st = Packs_failed then finish_offer st
            else if of_packs st \<in> set [Packs_known None, Packs_known (Some True)] then finish_offer st else st)"

text \<open>A change of the request shows at the next pass.\<close>

definition offer_settle :: "offer \<Rightarrow> offer" where
  "offer_settle st = offer_effect (offer_effect st)"

(* src features/compliance/CertificateExpiryPackOffer.tsx 90-90 open *)
definition offer_open :: "offer \<Rightarrow> bool" where
  "offer_open st \<longleftrightarrow> of_requested st \<and> of_admin st = Some True \<and> \<not> of_dismissed st \<and> of_packs st = Packs_known (Some False)"

(* src features/compliance/CertificateExpiryPackOffer.tsx 48-50 packs *)
definition packs_enabled :: "offer \<Rightarrow> bool" where
  "packs_enabled st \<longleftrightarrow> of_requested st \<and> of_admin st = Some True \<and> \<not> of_dismissed st"

(* src features/compliance/CertificateExpiryPackOffer.tsx 84-88 decline *)
definition decline_offer :: "bool \<Rightarrow> offer \<Rightarrow> offer" where
  "decline_offer storage_works st = finish_offer (st\<lparr>of_stored := (storage_works \<or> of_stored st), of_dismissed := True\<rparr>)"

datatype offer_event = Offer_requested | Me_read bool | Packs_answer packs_read | Press_install | Install_ok | Install_failed | Decline_offer

text \<open>The dialog can be closed while an installation runs, its buttons cannot be pressed.\<close>

(* src features/compliance/CertificateExpiryPackOffer.tsx 72-113 CertificateExpiryPackOffer *)
fun offer_change :: "bool \<Rightarrow> offer_event \<Rightarrow> offer \<Rightarrow> offer" where
  "offer_change sw Offer_requested st = (if of_requested st then st else st\<lparr>of_requested := True, of_started := of_started st + 1\<rparr>)"
| "offer_change sw (Me_read admin) st = st\<lparr>of_admin := Some admin\<rparr>"
| "offer_change sw (Packs_answer r) st = (if packs_enabled st then st\<lparr>of_packs := r\<rparr> else st)"
| "offer_change sw Press_install st = (if offer_open st \<and> \<not> of_installing st then st\<lparr>of_installing := True, of_installError := False\<rparr> else st)"
| "offer_change sw Install_ok st = (if of_installing st then finish_offer (st\<lparr>of_installing := False\<rparr>) else st)"
| "offer_change sw Install_failed st = (if of_installing st then st\<lparr>of_installing := False, of_installError := True\<rparr> else st)"
| "offer_change sw Decline_offer st = (if offer_open st then decline_offer sw st else st)"

definition offer_step :: "bool \<Rightarrow> offer_event \<Rightarrow> offer \<Rightarrow> offer" where
  "offer_step sw ev st = offer_settle (offer_change sw ev st)"

text \<open>
  Each request is open or ended; an open one waits for the user's role, for the pack, or has its dialog
  open.
\<close>

definition offer_inv :: "offer \<Rightarrow> bool" where
  "offer_inv st \<longleftrightarrow> of_started st = of_ended st + (if of_requested st then 1 else 0) \<and> \<not> of_completed st
     \<and> (of_requested st \<longrightarrow> of_admin st = None \<or> packs_enabled st \<and> (of_packs st = Packs_pending \<or> offer_open st))
     \<and> (of_stored st \<longrightarrow> of_dismissed st)"

definition offer_counts :: "offer \<Rightarrow> bool" where
  "offer_counts st \<longleftrightarrow> of_started st = of_ended st + (if of_requested st then 1 else 0)
     \<and> (of_completed st \<longrightarrow> \<not> of_requested st) \<and> (of_stored st \<longrightarrow> of_dismissed st)"

lemmas offer_defs = offer_effect_def finish_offer_def parent_finished_def offer_open_def packs_enabled_def

lemma offer_change_counts: "offer_inv st \<Longrightarrow> offer_counts (offer_change sw ev st)"
  by (cases ev) (auto simp: offer_inv_def offer_counts_def decline_offer_def offer_defs)

lemma offer_settles: "offer_counts st \<Longrightarrow> offer_inv (offer_settle st)"
proof (cases "of_packs st")
  case (Packs_known i)
  then show "offer_counts st \<Longrightarrow> ?thesis"
    by (cases i; cases "of_admin st") (auto simp: offer_settle_def offer_counts_def offer_inv_def offer_defs)
qed (cases "of_admin st"; auto simp: offer_settle_def offer_counts_def offer_inv_def offer_defs)+

interpretation offers: started_machine "offer_step sw" "\<lambda>ev. True" offer_inv "offer_mount stored" for sw stored
  by unfold_locales (simp add: offer_step_def offer_settles offer_change_counts, simp add: offer_inv_def offer_mount_def)

text \<open>
  Each time the offer is asked for it ends exactly once, however the reads, an installation, its failure and the
  user's answer fall together, and also when an installation succeeds after the dialog was closed. A request that
  has not ended is waiting for the user's role or for the pack, or its dialog is open, where declining ends it. Once
  it was declined the offer is not made again.
\<close>

theorem offer_ends_once:
  "let st = fold (offer_step sw) es (offer_mount stored)
   in of_started st = of_ended st + (if of_requested st then 1 else 0)
     \<and> (of_requested st \<longrightarrow> of_admin st = None \<or> of_packs st = Packs_pending \<or> offer_open st)
     \<and> (offer_open st \<longrightarrow> \<not> of_requested (offer_step sw Decline_offer st) \<and> of_ended (offer_step sw Decline_offer st) = of_ended st + 1)
     \<and> (of_stored st \<longrightarrow> \<not> offer_open st)"
proof -
  let ?st = "fold (offer_step sw) es (offer_mount stored)"
  have inv: "offer_inv ?st" by (rule offers.always) simp
  then have "offer_open ?st \<Longrightarrow> \<not> of_requested (offer_step sw Decline_offer ?st) \<and> of_ended (offer_step sw Decline_offer ?st) = of_ended ?st + 1"
    by (simp add: offer_step_def offer_settle_def offer_inv_def decline_offer_def offer_defs)
  with inv show ?thesis by (auto simp: Let_def offer_inv_def offer_open_def)
qed

lemma offer_ends_once_witness:
  "of_ended (fold (offer_step True) [Offer_requested, Me_read True, Packs_answer (Packs_known (Some False)), Press_install,
     Decline_offer, Install_ok, Offer_requested] (offer_mount False)) = 2"
proof -
  let ?st = "fold (offer_step True) [Offer_requested, Me_read True, Packs_answer (Packs_known (Some False)), Press_install,
     Decline_offer, Install_ok, Offer_requested] (offer_mount False)"
  have "of_started ?st = 2" "\<not> of_requested ?st" by code_simp+
  with offer_ends_once [of True "[Offer_requested, Me_read True, Packs_answer (Packs_known (Some False)), Press_install,
     Decline_offer, Install_ok, Offer_requested]" False] show ?thesis by (simp add: Let_def)
qed

end
