(* ===== verification/Topology.thy ===== *)
theory Topology
  imports Complex_Main Prelude "HOL-Library.List_Lexorder" "HOL-Library.Char_ord" "HOL-Library.Multiset"
begin

text \<open>
  The topology page (\<open>features/docs/TopologyPage.tsx\<close>): what it draws of the graph it reads, which edges
  a trace highlights, where a node leads to, and its filters and trace in the address. The lemmas show that each drawn edge
  stands for exactly the relations between its two nodes, that the document of a connector is the
  first in the order of the tree, that the view is fitted again exactly when the set of nodes changes, and that
  filters and trace do not disturb each other or the rest of the address. The layout (dagre) is a parameter.
\<close>

subsection \<open>The graph that is read\<close>

(* src api/model/topologyNode.ts 11-18 TopologyNode *)
record topology_node =
  tn_id :: string
  tn_type :: string
  tn_name :: string
  tn_kind :: "string option"
  tn_connectorId :: "string option"
  tn_ref :: "string option"

(* src api/model/topologyEdge.ts 11-18 TopologyEdge *)
record topology_edge =
  te_id :: string
  te_source :: string
  te_target :: string
  te_kind :: string
  te_sourceLabel :: "string option"
  te_detail :: "string option"

(* src features/docs/TopologyPage.tsx 267-277 PathStep *)
record path_step =
  ps_connectorId :: string
  ps_kind :: string
  ps_name :: string
  ps_nodeId :: "string option"
  ps_fromNodeId :: "string option"
  ps_edgeReversed :: bool
  ps_edgeKind :: "string option"
  ps_edgeSource :: "string option"
  ps_detail :: "string option"

definition given :: "string option \<Rightarrow> bool" where
  "given v \<longleftrightarrow> v \<noteq> None \<and> v \<noteq> Some []"

(* src features/docs/TopologyPage.tsx 48-55 isConnectorNode *)
definition isConnectorNode :: "topology_node \<Rightarrow> bool" where
  "isConnectorNode n \<longleftrightarrow> tn_type n = ''node'' \<and> tn_kind n = Some ''service'' \<and> given (tn_connectorId n) \<and> tn_ref n = tn_connectorId n"

(* src features/docs/TopologyPage.tsx 336-342 items *)
definition drawn_items :: "topology_node list \<Rightarrow> topology_node list" where
  "drawn_items ns = filter (\<lambda>n. tn_type n = ''identity'' \<or> isConnectorNode n) ns"

(* src features/docs/TopologyPage.tsx 343-348 relations *)
definition drawn_relations :: "topology_node list \<Rightarrow> topology_edge list \<Rightarrow> topology_edge list" where
  "drawn_relations items es = (let visible = set (map tn_id items) in filter (\<lambda>e. te_source e \<in> visible \<and> te_target e \<in> visible) es)"

subsection \<open>Traced edges\<close>

text \<open>Source and target of the edge a step followed.\<close>

(* src features/docs/TopologyPage.tsx 286-289 tracedEdgeIds *)
definition followed :: "path_step \<Rightarrow> (string \<times> string) option" where
  "followed s = (case (ps_nodeId s, ps_fromNodeId s) of
     (Some n, Some m) \<Rightarrow> if n = [] \<or> m = [] \<or> \<not> given (ps_edgeKind s) then None
       else Some (if ps_edgeReversed s then (n, m) else (m, n))
   | _ \<Rightarrow> None)"

(* src features/docs/TopologyPage.tsx 290-299 tracedEdgeIds *)
definition follows :: "path_step \<Rightarrow> topology_edge \<Rightarrow> bool" where
  "follows s e \<longleftrightarrow> followed s = Some (te_source e, te_target e) \<and> ps_edgeKind s = Some (te_kind e)
     \<and> from_opt [] (te_sourceLabel e) = from_opt [] (ps_edgeSource s) \<and> from_opt [] (te_detail e) = from_opt [] (ps_detail s)"

(* src features/docs/TopologyPage.tsx 283-303 tracedEdgeIds *)
definition tracedEdgeIds :: "path_step list \<Rightarrow> topology_edge list \<Rightarrow> string set" where
  "tracedEdgeIds path rels = foldl (\<lambda>ids s. foldl (\<lambda>ids e. if follows s e then insert (te_id e) ids else ids) ids rels) {} path"

(* src features/docs/TopologyPage.tsx 349-353 highlights *)
definition highlights :: "(bool \<times> path_step list) option \<Rightarrow> topology_edge list \<Rightarrow> string set" where
  "highlights path rels = (case path of Some (True, steps) \<Rightarrow> tracedEdgeIds steps rels | _ \<Rightarrow> {})"

subsection \<open>Drawn edges\<close>

text \<open>The groups in the order in which their keys were first set.\<close>

(* src features/docs/TopologyPage.tsx 219-219 flowEdges *)
definition relation_key :: "topology_edge \<Rightarrow> string" where
  "relation_key e = te_source e @ [CHR 0x00] @ te_target e"

(* src features/docs/TopologyPage.tsx 218-221 flowEdges *)
fun add_relation :: "(string \<times> topology_edge list) list \<Rightarrow> topology_edge \<Rightarrow> (string \<times> topology_edge list) list" where
  "add_relation [] e = [(relation_key e, [e])]"
| "add_relation ((k, g) # ps) e = (if k = relation_key e then (k, g @ [e]) # ps else (k, g) # add_relation ps e)"

(* src features/docs/TopologyPage.tsx 217-221 flowEdges *)
definition pair_groups :: "topology_edge list \<Rightarrow> (string \<times> topology_edge list) list" where
  "pair_groups rels = foldl add_relation [] rels"

text \<open>\<open>Array.from(new Set(xs))\<close>.\<close>

fun once_each :: "'a list \<Rightarrow> 'a list" where
  "once_each [] = []"
| "once_each (x # xs) = x # filter (\<lambda>y. y \<noteq> x) (once_each xs)"

(* src features/docs/TopologyPage.tsx 226-226 flowEdges *)
definition edge_part :: "topology_edge \<Rightarrow> string" where
  "edge_part e = te_kind e @ (if given (te_detail e) then '' '' @ [CHR 0xB7] @ '' '' @ from_opt [] (te_detail e) else [])"

(* src features/docs/TopologyPage.tsx 34-41 edgeColors *)
definition edgeColors :: "(string \<times> string) list" where
  "edgeColors = [(''resolves_to'', ''var(--color-accent-primary)''), (''proxies_to'', ''var(--color-warn)''),
     (''runs_on'', ''var(--color-accent-secondary)''), (''dependency'', ''var(--color-ink-muted)''),
     (''contains'', ''var(--color-ink-faint)''), (''same_as'', ''var(--color-ok)'')]"

(* src features/docs/TopologyPage.tsx 45-45 FlowEdge *)
record flow_edge =
  fl_id :: string
  fl_source :: string
  fl_target :: string
  fl_label :: string
  fl_ariaLabel :: string
  fl_parts :: "string list"
  fl_highlighted :: bool
  fl_showLabel :: bool
  fl_stroke :: string
  fl_width :: rat
  fl_dashed :: bool

(* src features/docs/TopologyPage.tsx 222-252 flowEdges *)
definition draw_group :: "string set \<Rightarrow> (string \<rightharpoonup> string) \<Rightarrow> (string \<Rightarrow> string \<Rightarrow> string \<Rightarrow> string) \<Rightarrow> topology_edge list \<Rightarrow> flow_edge" where
  "draw_group traced names describe g =
     (let first = hd g; highlighted = list_ex (\<lambda>e. te_id e \<in> traced) g; parts = once_each (map edge_part g); label = join_with '', '' parts
      in \<lparr>fl_id = te_id first, fl_source = te_source first, fl_target = te_target first, fl_label = label,
          fl_ariaLabel = describe (from_opt (te_source first) (names (te_source first))) label (from_opt (te_target first) (names (te_target first))),
          fl_parts = parts, fl_highlighted = highlighted, fl_showLabel = (highlighted \<or> list_ex (\<lambda>e. te_kind e \<noteq> ''contains'') g),
          fl_stroke = (if highlighted then ''var(--color-ink)'' else from_opt ''var(--color-ink-muted)'' (map_of edgeColors (te_kind first))),
          fl_width = (if highlighted then 7 / 2 else 3 / 2), fl_dashed = (te_kind first = ''same_as'')\<rparr>)"

(* src features/docs/TopologyPage.tsx 211-253 flowEdges *)
definition flowEdges :: "topology_edge list \<Rightarrow> string set \<Rightarrow> (string \<rightharpoonup> string) \<Rightarrow> (string \<Rightarrow> string \<Rightarrow> string \<Rightarrow> string) \<Rightarrow> flow_edge list" where
  "flowEdges rels traced names describe = map (draw_group traced names describe \<circ> snd) (pair_groups rels)"

subsection \<open>Positions\<close>

definition nodeWidth :: rat where "nodeWidth = 190"
definition nodeHeight :: rat where "nodeHeight = 64"

text \<open>\<open>layout\<close> is dagre's: the centre it gives each node of a graph.\<close>

(* src features/docs/TopologyPage.tsx 180-192 layoutPositions *)
definition layoutPositions :: "(string list \<Rightarrow> (string \<times> string) list \<Rightarrow> string \<Rightarrow> rat \<times> rat) \<Rightarrow> topology_node list \<Rightarrow> topology_edge list \<Rightarrow> (string \<rightharpoonup> rat \<times> rat)" where
  "layoutPositions layout items rels =
     (let centre = layout (map tn_id items) (map (\<lambda>e. (te_source e, te_target e)) rels)
      in foldl (\<lambda>m n. m(tn_id n \<mapsto> (fst (centre (tn_id n)) - nodeWidth / 2, snd (centre (tn_id n)) - nodeHeight / 2))) Map.empty items)"

record flow_node =
  fn_id :: string
  fn_position :: "rat \<times> rat"
  fn_item :: topology_node
  fn_href :: "string option"

(* src features/docs/TopologyPage.tsx 194-207 flowNodes *)
definition flowNodes :: "topology_node list \<Rightarrow> (string \<rightharpoonup> rat \<times> rat) \<Rightarrow> (topology_node \<Rightarrow> string option) \<Rightarrow> flow_node list" where
  "flowNodes items positions getHref = map (\<lambda>n. \<lparr>fn_id = tn_id n, fn_position = from_opt (0, 0) (positions (tn_id n)),
     fn_item = n, fn_href = getHref n\<rparr>) items"

text \<open>The key by which the view knows that other nodes are drawn: the sorted ids.\<close>

(* src features/docs/TopologyPage.tsx 369-369 nodeKey *)
definition nodeKey :: "topology_node list \<Rightarrow> string" where
  "nodeKey items = join_with [CHR 0x00] (sort (map tn_id items))"

subsection \<open>Where a node leads\<close>

(* src api/model/docNode.ts 15-26 DocNode *)
datatype doc_node = Doc_node (dn_docId: string) (dn_title: string) (dn_kind: string) (dn_serviceId: "string option")
  (dn_origin: "string option") (dn_branch: "bool option") (dn_children: "doc_node list")

(* src features/docs/TopologyPage.tsx 257-259 findConnectorDoc *)
definition connector_doc :: "string \<Rightarrow> doc_node \<Rightarrow> bool" where
  "connector_doc cid d \<longleftrightarrow> dn_serviceId d = Some cid \<and> dn_kind d = ''service'' \<and> dn_branch d \<noteq> Some True \<and> dn_docId d \<noteq> []"

(* src features/docs/TopologyPage.tsx 255-265 findConnectorDoc *)
fun findConnectorDoc :: "string \<Rightarrow> doc_node \<Rightarrow> string option" and findConnectorDocs :: "string \<Rightarrow> doc_node list \<Rightarrow> string option" where
  "findConnectorDoc cid (Doc_node i t k s orig b cs) =
     (if connector_doc cid (Doc_node i t k s orig b cs) then Some i else findConnectorDocs cid cs)"
| "findConnectorDocs cid [] = None"
| "findConnectorDocs cid (c # cs) = (case findConnectorDoc cid c of Some d \<Rightarrow> Some d | None \<Rightarrow> findConnectorDocs cid cs)"

(* src lib/docTree.ts 3-6 flattenDocTree *)
primrec flattenDocTree :: "doc_node \<Rightarrow> doc_node list" where
  "flattenDocTree (Doc_node i t k s orig b cs) = Doc_node i t k s orig b cs # concat (map flattenDocTree cs)"

(* src features/docs/TopologyPage.tsx 354-368 getNodeHref *)
definition getNodeHref :: "doc_node option \<Rightarrow> topology_node \<Rightarrow> string option" where
  "getNodeHref tree n =
     (if tn_type n = ''identity'' then Some (''/entities/'' @ encodeURIComponent (tn_id n))
      else if isConnectorNode n then
        (let cid = from_opt [] (tn_connectorId n) in
         case Option.bind tree (findConnectorDoc cid) of
           Some d \<Rightarrow> Some (''/docs/'' @ encodeURIComponent d)
         | None \<Rightarrow> Some (''/services/'' @ encodeURIComponent cid))
      else None)"

subsection \<open>The address\<close>

text \<open>\<open>URLSearchParams\<close>: \<open>get\<close>, \<open>set\<close> and \<open>delete\<close>.\<close>

type_synonym search_params = "(string \<times> string) list"

definition params_get :: "search_params \<Rightarrow> string \<Rightarrow> string option" where
  "params_get ps k = map_of ps k"

definition params_delete :: "string \<Rightarrow> search_params \<Rightarrow> search_params" where
  "params_delete k ps = filter (\<lambda>p. fst p \<noteq> k) ps"

fun params_set :: "string \<Rightarrow> string \<Rightarrow> search_params \<Rightarrow> search_params" where
  "params_set k v [] = [(k, v)]"
| "params_set k v (p # ps) = (if fst p = k then (k, v) # params_delete k ps else p # params_set k v ps)"

definition param :: "search_params \<Rightarrow> string \<Rightarrow> string" where
  "param ps k = from_opt [] (params_get ps k)"

(* src features/docs/TopologyPage.tsx 409-414 updateFilter *)
definition updateFilter :: "string \<Rightarrow> string \<Rightarrow> search_params \<Rightarrow> search_params" where
  "updateFilter k v ps = (if v \<noteq> [] then params_set k v ps else params_delete k ps)"

(* src features/docs/TopologyPage.tsx 415-419 clearFilters *)
definition clearFilters :: "search_params \<Rightarrow> search_params" where
  "clearFilters ps = foldl (\<lambda>ps k. params_delete k ps) ps [''connector'', ''kind'', ''includeUnlinked'']"

(* src features/docs/TopologyPage.tsx 420-420 hasFilters *)
definition hasFilters :: "search_params \<Rightarrow> bool" where
  "hasFilters ps \<longleftrightarrow> param ps ''connector'' \<noteq> [] \<or> param ps ''kind'' \<noteq> [] \<or> params_get ps ''includeUnlinked'' = Some ''true''"

text \<open>The page's own state: its address, and whether the trace was rejected.\<close>

(* src features/docs/TopologyPage.tsx 308-316 TopologyPage *)
record topology_page =
  tp_params :: search_params
  tp_traceValidation :: bool

(* src features/docs/TopologyPage.tsx 421-435 runTrace *)
definition runTrace :: "string \<Rightarrow> string \<Rightarrow> topology_page \<Rightarrow> topology_page" where
  "runTrace from_text to_text st =
     (let start = trim from_text; stop = trim to_text
      in if start = [] \<or> length start > 256 \<or> length stop > 256 then st\<lparr>tp_traceValidation := True\<rparr>
         else let next = params_set ''from'' start (tp_params st)
           in \<lparr>tp_params = (if stop \<noteq> [] then params_set ''to'' stop next else params_delete ''to'' next), tp_traceValidation = False\<rparr>)"

(* src features/docs/TopologyPage.tsx 436-442 clearTrace *)
definition clearTrace :: "topology_page \<Rightarrow> topology_page" where
  "clearTrace st = \<lparr>tp_params = params_delete ''to'' (params_delete ''from'' (tp_params st)), tp_traceValidation = False\<rparr>"

datatype topology_event = Filter_connector string | Filter_kind string | Filter_unlinked bool | Clear_filters | Run_trace string string | Clear_trace

(* src features/docs/TopologyPage.tsx 444-548 TopologyPage *)
fun topology_step :: "topology_event \<Rightarrow> topology_page \<Rightarrow> topology_page" where
  "topology_step (Filter_connector v) st = st\<lparr>tp_params := updateFilter ''connector'' v (tp_params st)\<rparr>"
| "topology_step (Filter_kind v) st = st\<lparr>tp_params := updateFilter ''kind'' v (tp_params st)\<rparr>"
| "topology_step (Filter_unlinked b) st = st\<lparr>tp_params := updateFilter ''includeUnlinked'' (if b then ''true'' else []) (tp_params st)\<rparr>"
| "topology_step Clear_filters st = st\<lparr>tp_params := clearFilters (tp_params st)\<rparr>"
| "topology_step (Run_trace a b) st = runTrace a b st"
| "topology_step Clear_trace st = clearTrace st"

text \<open>What the graph is asked for, and the path; no path without a start.\<close>

(* src features/docs/TopologyPage.tsx 318-325 graphQuery *)
definition graph_request :: "search_params \<Rightarrow> string option \<times> string option \<times> bool" where
  "graph_request ps = (let c = param ps ''connector''; k = param ps ''kind''
     in (if c \<noteq> [] then Some c else None, if k \<noteq> [] then Some k else None, params_get ps ''includeUnlinked'' = Some ''true''))"

(* src features/docs/TopologyPage.tsx 326-329 pathQuery *)
definition path_request :: "search_params \<Rightarrow> (string \<times> string option) option" where
  "path_request ps = (let a = param ps ''from''; b = param ps ''to''
     in if a = [] then None else Some (a, if b \<noteq> [] then Some b else None))"

text \<open>The kinds to choose from; the chosen one is always among them.\<close>

(* src features/docs/TopologyPage.tsx 396-407 knownKinds *)
definition knownKinds :: "topology_node list \<Rightarrow> string list" where
  "knownKinds ns = sort (once_each (filter (\<lambda>k. k \<noteq> []) (List.map_filter tn_kind (drawn_items ns))))"

(* src features/docs/TopologyPage.tsx 408-408 kindOptions *)
definition kindOptions :: "string \<Rightarrow> topology_node list \<Rightarrow> string list" where
  "kindOptions kind ns = (let known = knownKinds ns in if kind \<noteq> [] \<and> kind \<notin> set known then sort (known @ [kind]) else known)"

subsection \<open>What an edge of the drawing stands for\<close>

lemma once_each_set [simp]: "set (once_each xs) = set xs"
  by (induction xs) auto

lemma once_each_distinct [simp]: "distinct (once_each xs)"
  by (induction xs) auto

lemma once_each_snoc: "once_each (xs @ [x]) = (if x \<in> set xs then once_each xs else once_each xs @ [x])"
  by (induction xs) auto

lemma add_relation_map:
  "distinct ks \<Longrightarrow> add_relation (map (\<lambda>k. (k, G k)) ks) e = (if relation_key e \<in> set ks
     then map (\<lambda>k. (k, if k = relation_key e then G k @ [e] else G k)) ks else map (\<lambda>k. (k, G k)) ks @ [(relation_key e, [e])])"
  by (induction ks) auto

text \<open>The groups are the relations of each key, the keys in order of their first relation.\<close>

lemma pair_groups_filter:
  "pair_groups rels = map (\<lambda>k. (k, filter (\<lambda>e. relation_key e = k) rels)) (once_each (map relation_key rels))"
proof (induction rels rule: rev_induct)
  case (snoc e rels)
  let ?G = "\<lambda>k. filter (\<lambda>x. relation_key x = k) rels"
  have "pair_groups (rels @ [e]) = add_relation (map (\<lambda>k. (k, ?G k)) (once_each (map relation_key rels))) e"
    by (simp add: pair_groups_def snoc.IH [unfolded pair_groups_def])
  then have step: "pair_groups (rels @ [e]) = (if relation_key e \<in> set (map relation_key rels)
      then map (\<lambda>k. (k, if k = relation_key e then ?G k @ [e] else ?G k)) (once_each (map relation_key rels))
      else map (\<lambda>k. (k, ?G k)) (once_each (map relation_key rels)) @ [(relation_key e, [e])])"
    by (simp add: add_relation_map)
  have G: "filter (\<lambda>x. relation_key x = k) (rels @ [e]) = (if k = relation_key e then ?G k @ [e] else ?G k)" for k by simp
  show ?case
  proof (cases "relation_key e \<in> set (map relation_key rels)")
    case True
    then show ?thesis unfolding step G by (simp add: once_each_snoc)
  next
    case False
    then have "relation_key x \<noteq> relation_key e" if "x \<in> set rels" for x using that by (metis image_eqI list.set_map)
    then have "?G (relation_key e) = []" "\<And>k. k \<in> set (map relation_key rels) \<Longrightarrow> k \<noteq> relation_key e" by (auto simp: filter_empty_conv)
    with False show ?thesis unfolding step G by (simp add: once_each_snoc)
  qed
qed (simp add: pair_groups_def)

lemma once_each_map: "inj_on h (set xs) \<Longrightarrow> once_each (map h xs) = map h (once_each xs)"
proof (induction xs)
  case (Cons x xs)
  then have "filter (\<lambda>y. y \<noteq> h x) (map h (once_each xs)) = map h (filter (\<lambda>y. y \<noteq> x) (once_each xs))"
    unfolding filter_map comp_def by (intro arg_cong [where f = "map h"] filter_cong) (auto simp: inj_on_def)
  with Cons show ?case by simp
qed simp

text \<open>
  The ids that the server gives to nodes (\<open>api/topology/graph.go\<close>, \<open>endpoint\<close>): an identity has an id of its own, any other
  node has the id of its connector, its kind and its reference, joined by NUL. The ids of the connectors are a
  parameter: no identity has the id of a connector, and the parts hold no NUL.
\<close>

abbreviation nul_parts :: "string \<Rightarrow> string list" where
  "nul_parts \<equiv> split_on CHR 0x00"

definition served :: "string set \<Rightarrow> string \<Rightarrow> bool" where
  "served cids i \<longleftrightarrow> (case nul_parts i of [x] \<Rightarrow> x \<notin> cids | [cid, kind, ref] \<Rightarrow> cid \<in> cids | _ \<Rightarrow> False)"

definition served_node :: "string \<Rightarrow> string \<Rightarrow> string \<Rightarrow> string" where
  "served_node cid kind ref = join_with [CHR 0x00] [cid, kind, ref]"

lemma served_ids:
  assumes "CHR 0x00 \<notin> set kind" "CHR 0x00 \<notin> set ref" "CHR 0x00 \<notin> set i"
  shows "cid \<in> cids \<Longrightarrow> CHR 0x00 \<notin> set cid \<Longrightarrow> served cids (served_node cid kind ref)" "i \<notin> cids \<Longrightarrow> served cids i"
  using assms split_on_join [of "[cid, kind, ref]" "CHR 0x00"] by (simp_all add: served_def served_node_def split_on_free del: join_with.simps)

lemma nul_parts_append: "nul_parts (s @ CHR 0x00 # r) = nul_parts s @ nul_parts r"
  by (induction s) (auto split: list.split)

lemma served_length: "served cids s \<Longrightarrow> length (nul_parts s) = (if hd (nul_parts s) \<in> cids then 3 else 1)"
  by (auto simp: served_def split: list.splits)

text \<open>Such ids can be told apart where they are joined by NUL again.\<close>

lemma served_unique:
  assumes "served cids s" "served cids s'" "nul_parts s @ ps = nul_parts s' @ qs"
  shows "s = s'" "ps = qs"
proof -
  have "hd (nul_parts s @ ps) = hd (nul_parts s)" "hd (nul_parts s' @ qs) = hd (nul_parts s')" by simp_all
  then have "hd (nul_parts s) = hd (nul_parts s')" using assms(3) by simp
  then have "length (nul_parts s) = length (nul_parts s')" using served_length assms(1,2) by metis
  then have "nul_parts s = nul_parts s' \<and> ps = qs" using assms(3) by (rule append_eq_append_conv [THEN iffD1, OF disjI1])
  then show "s = s'" "ps = qs" using join_split_on by metis+
qed

lemma served_list:
  "list_all (served cids) xs \<Longrightarrow> list_all (served cids) ys \<Longrightarrow> concat (map nul_parts xs) = concat (map nul_parts ys) \<Longrightarrow> xs = ys"
proof (induction xs arbitrary: ys)
  case (Cons x xs)
  have "ys \<noteq> []" using Cons.prems(3) by (auto simp del: split_on.simps)
  then obtain y ys' where ys: "ys = y # ys'" by (cases ys) simp_all
  then have eq: "nul_parts x @ concat (map nul_parts xs) = nul_parts y @ concat (map nul_parts ys')" using Cons.prems(3) by simp
  have "served cids x" "served cids y" using Cons.prems(1,2) ys by simp_all
  from served_unique [OF this eq] show ?case using Cons.IH [of ys'] Cons.prems(1,2) ys by simp
qed (auto simp: concat_eq_Nil_conv)

definition served_sources :: "string set \<Rightarrow> topology_edge list \<Rightarrow> bool" where
  "served_sources cids rels \<longleftrightarrow> list_all (\<lambda>e. served cids (te_source e)) rels"

lemma relation_key_eq:
  assumes "served cids (te_source e)" "served cids (te_source f)"
  shows "relation_key e = relation_key f \<longleftrightarrow> te_source e = te_source f \<and> te_target e = te_target f"
proof
  assume "relation_key e = relation_key f"
  then have "nul_parts (te_source e) @ nul_parts (te_target e) = nul_parts (te_source f) @ nul_parts (te_target f)"
    unfolding nul_parts_append [symmetric] by (simp add: relation_key_def)
  from served_unique [OF assms this] show "te_source e = te_source f \<and> te_target e = te_target f"
    using join_split_on by metis
qed (simp add: relation_key_def)

text \<open>The relations between the ends of a drawn edge.\<close>

definition between :: "topology_edge list \<Rightarrow> flow_edge \<Rightarrow> topology_edge list" where
  "between rels d = filter (\<lambda>e. te_source e = fl_source d \<and> te_target e = fl_target d) rels"

definition stands_for :: "string set \<Rightarrow> topology_edge list \<Rightarrow> flow_edge \<Rightarrow> bool" where
  "stands_for traced g d \<longleftrightarrow> g \<noteq> [] \<and> fl_id d = te_id (hd g) \<and> fl_parts d = once_each (map edge_part g)
     \<and> fl_highlighted d = list_ex (\<lambda>e. te_id e \<in> traced) g
     \<and> fl_showLabel d = (list_ex (\<lambda>e. te_id e \<in> traced) g \<or> list_ex (\<lambda>e. te_kind e \<noteq> ''contains'') g)"

definition ends :: "topology_edge \<Rightarrow> string \<times> string" where
  "ends e = (te_source e, te_target e)"

definition drawn_ends :: "flow_edge \<Rightarrow> string \<times> string" where
  "drawn_ends d = (fl_source d, fl_target d)"

lemma draw_group_between:
  assumes "served_sources cids rels" "e \<in> set rels" "g = filter (\<lambda>x. relation_key x = relation_key e) rels"
    and d_def: "d = draw_group traced names describe g"
  shows "drawn_ends d = ends e" "stands_for traced (between rels d) d"
proof -
  have g: "g = filter (\<lambda>x. te_source x = te_source e \<and> te_target x = te_target e) rels"
    unfolding assms(3) using assms(1,2) relation_key_eq [where cids = cids] unfolding served_sources_def list_all_iff by (intro filter_cong) auto
  have "e \<in> set g" using assms(2) by (simp add: g)
  then have ne: "g \<noteq> []" by auto
  then have "hd g \<in> set g" by simp
  then have "te_source (hd g) = te_source e" "te_target (hd g) = te_target e" by (auto simp: g)
  then have same: "fl_source d = te_source e" "fl_target d = te_target e" by (simp_all add: d_def draw_group_def Let_def)
  then show "drawn_ends d = ends e" by (simp add: drawn_ends_def ends_def)
  have "between rels d = g" by (simp add: between_def same g)
  with ne show "stands_for traced (between rels d) d" by (simp add: stands_for_def d_def draw_group_def Let_def)
qed

lemma edges_drawn:
  assumes "served_sources cids rels"
  shows "map drawn_ends (flowEdges rels traced names describe) = once_each (map ends rels)"
    "list_all (\<lambda>d. stands_for traced (between rels d) d) (flowEdges rels traced names describe)"
proof -
  let ?ds = "flowEdges rels traced names describe"
  define h where "h p = fst p @ [CHR 0x00] @ snd p" for p :: "string \<times> string"
  let ?D = "\<lambda>p. draw_group traced names describe (filter (\<lambda>e. relation_key e = h p) rels)"
  have key: "h (ends e) = relation_key e" for e by (simp add: h_def ends_def relation_key_def)
  have "inj_on h (set (map ends rels))"
  proof (rule inj_onI)
    fix p q assume "p \<in> set (map ends rels)" "q \<in> set (map ends rels)" and same: "h p = h q"
    then obtain e f where e: "e \<in> set rels" "p = ends e" and f: "f \<in> set rels" "q = ends f" by auto
    with same have "relation_key e = relation_key f" by (simp add: key)
    with assms e f relation_key_eq [of cids e f] show "p = q" by (simp add: served_sources_def list_all_iff ends_def)
  qed
  from once_each_map [OF this] have "once_each (map relation_key rels) = map h (once_each (map ends rels))"
    by (simp add: key comp_def)
  then have ds: "?ds = map ?D (once_each (map ends rels))"
    by (simp add: flowEdges_def pair_groups_filter)
  have D: "drawn_ends (?D (ends e)) = ends e" "stands_for traced (between rels (?D (ends e))) (?D (ends e))" if "e \<in> set rels" for e
    using draw_group_between [OF assms that refl refl] unfolding key by simp_all
  show "map drawn_ends ?ds = once_each (map ends rels)"
    unfolding ds map_map by (rule map_idI) (use D(1) in auto)
  show "list_all (\<lambda>d. stands_for traced (between rels d) d) ?ds"
    unfolding ds using D(2) by (auto simp: list_all_iff)
qed

lemma edges_drawn_ids:
  assumes "served_sources cids rels" "distinct (map te_id rels)"
  shows "distinct (map fl_id (flowEdges rels traced names describe))"
proof -
  let ?ds = "flowEdges rels traced names describe"
  have first: "\<exists>x \<in> set rels. te_id x = fl_id d \<and> ends x = drawn_ends d" if "d \<in> set ?ds" for d
  proof -
    from that edges_drawn(2) [OF assms(1)] have "stands_for traced (between rels d) d" by (auto simp: list_all_iff)
    then have "fl_id d = te_id (hd (between rels d))" "hd (between rels d) \<in> set (between rels d)" by (auto simp: stands_for_def)
    then show ?thesis by (auto simp: between_def ends_def drawn_ends_def)
  qed
  have "drawn_ends d = drawn_ends d'" if "d \<in> set ?ds" "d' \<in> set ?ds" "fl_id d = fl_id d'" for d d'
  proof -
    from first that obtain x y where "x \<in> set rels" "y \<in> set rels" "te_id x = te_id y" "ends x = drawn_ends d" "ends y = drawn_ends d'" by metis
    with assms(2) show ?thesis by (metis distinct_map inj_onD)
  qed
  moreover have "distinct (map drawn_ends ?ds)" by (simp add: edges_drawn(1) [OF assms(1)])
  then have "distinct ?ds" "inj_on drawn_ends (set ?ds)" by (simp_all add: distinct_map)
  ultimately show ?thesis unfolding distinct_map inj_on_def by blast
qed

text \<open>
  Claim C39. With the ids that the server gives, of identities and of nodes of connectors with their kind and reference, the drawing
  holds one edge for each ordered pair of nodes between which there are relations, no two for the same pair, and each stands
  for exactly the relations of its pair: its id is that of the first, its label lists every kind and detail once, it is
  highlighted exactly when one of them was traced, and its label is hidden only where all of them are \<open>contains\<close> and
  none was traced. If the relations have different ids, so have the edges.
\<close>

theorem edges_drawn_exact:
  assumes "served_sources cids rels"
  shows "let ds = flowEdges rels traced names describe
    in map drawn_ends ds = once_each (map ends rels) \<and> list_all (\<lambda>d. stands_for traced (between rels d) d) ds
      \<and> (distinct (map te_id rels) \<longrightarrow> distinct (map fl_id ds))"
  using edges_drawn [OF assms, of traced names describe] edges_drawn_ids [OF assms, of traced names describe] by (simp add: Let_def)

definition relation_of :: "string \<Rightarrow> string \<Rightarrow> string \<Rightarrow> string \<Rightarrow> topology_edge" where
  "relation_of i a b kind = \<lparr>te_id = i, te_source = a, te_target = b, te_kind = kind, te_sourceLabel = None, te_detail = None\<rparr>"

text \<open>Two nodes of a connector and an identity, as the server names them.\<close>

definition example_relations :: "topology_edge list" where
  "example_relations =
    [relation_of ''e1'' (served_node ''c1'' ''service'' ''c1'') (served_node ''c1'' ''vm'' ''100'') ''contains'',
     relation_of ''e2'' (served_node ''c1'' ''vm'' ''100'') ''i7'' ''runs_on'',
     relation_of ''e3'' (served_node ''c1'' ''service'' ''c1'') (served_node ''c1'' ''vm'' ''100'') ''dependency'']"

lemma edges_drawn_exact_witness:
  "map drawn_ends (flowEdges example_relations {''e2''} Map.empty (\<lambda>a l b. l))
     = [(served_node ''c1'' ''service'' ''c1'', served_node ''c1'' ''vm'' ''100''), (served_node ''c1'' ''vm'' ''100'', ''i7'')]
   \<and> distinct (map fl_id (flowEdges example_relations {''e2''} Map.empty (\<lambda>a l b. l)))"
proof -
  have h: "served_sources {''c1''} example_relations" by code_simp
  have d: "distinct (map te_id example_relations)" by code_simp
  have e: "once_each (map ends example_relations)
      = [(served_node ''c1'' ''service'' ''c1'', served_node ''c1'' ''vm'' ''100''), (served_node ''c1'' ''vm'' ''100'', ''i7'')]"
    by code_simp
  show ?thesis using edges_drawn_exact [OF h, of "{''e2''}" Map.empty "\<lambda>a l b. l"] d unfolding e by (simp add: Let_def)
qed

text \<open>The condition is needed: a NUL within a reference lets relations of different pairs be drawn as one.\<close>

lemma nul_in_ref_collapses:
  "length (flowEdges [relation_of ''e1'' (served_node ''c1'' ''vm'' (''a'' @ CHR 0x00 # ''b'')) ''i7'' ''runs_on'',
     relation_of ''e2'' (served_node ''c1'' ''vm'' ''a'') (''b'' @ CHR 0x00 # ''i7'') ''runs_on''] {} Map.empty (\<lambda>a l b. l)) = 1"
  by code_simp

subsection \<open>Traces\<close>

lemma insert_when: "foldl (\<lambda>ids e. if P e then insert (h e) ids else ids) A xs = A \<union> h ` set (filter P xs)"
  by (induction xs arbitrary: A) auto

lemma tracedEdgeIds_exact: "tracedEdgeIds path rels = te_id ` {e \<in> set rels. \<exists>s \<in> set path. follows s e}"
proof -
  have "foldl (\<lambda>ids s. foldl (\<lambda>ids e. if follows s e then insert (te_id e) ids else ids) ids rels) A path
      = A \<union> te_id ` {e \<in> set rels. \<exists>s \<in> set path. follows s e}" for A
    by (induction path arbitrary: A) (auto simp: insert_when)
  then show ?thesis by (simp add: tracedEdgeIds_def)
qed

text \<open>
  An edge of the drawing is highlighted exactly when a step of the found path followed a relation between its two
  nodes in its direction; a path that was not found highlights nothing.
\<close>

theorem trace_highlights_followed:
  assumes "served_sources cids rels" "distinct (map te_id rels)"
    and "d \<in> set (flowEdges rels (highlights path rels) names describe)"
  shows "fl_highlighted d \<longleftrightarrow> (case path of Some (True, steps) \<Rightarrow> list_ex (\<lambda>s. list_ex (follows s) (between rels d)) steps | _ \<Rightarrow> False)"
proof -
  have "fl_highlighted d \<longleftrightarrow> (\<exists>e \<in> set (between rels d). te_id e \<in> highlights path rels)"
    using edges_drawn(2) [OF assms(1), of "highlights path rels" names describe] assms(3)
    by (auto simp: list_all_iff stands_for_def list_ex_iff)
  moreover have "te_id e \<in> tracedEdgeIds steps rels \<longleftrightarrow> (\<exists>s \<in> set steps. follows s e)" if "e \<in> set (between rels d)" for e steps
    using that assms(2) by (auto simp: tracedEdgeIds_exact between_def distinct_map inj_on_def)
  ultimately have calculation: "fl_highlighted d \<longleftrightarrow> (\<exists>e \<in> set (between rels d). te_id e \<in> highlights path rels)"
    "\<And>e steps. e \<in> set (between rels d) \<Longrightarrow> te_id e \<in> tracedEdgeIds steps rels \<longleftrightarrow> (\<exists>s \<in> set steps. follows s e)" by simp_all
  show ?thesis
  proof (cases path)
    case None
    then show ?thesis using calculation(1) by (simp add: highlights_def)
  next
    case (Some p)
    then show ?thesis using calculation by (cases p; cases "fst p") (auto simp: highlights_def list_ex_iff)
  qed
qed

subsection \<open>Documents of connectors\<close>

text \<open>The document of a connector is the first such node of the tree in its order, at whichever depth.\<close>

lemma findConnectorDocs_first:
  "findConnectorDoc cid t = map_option dn_docId (List.find (connector_doc cid) (flattenDocTree t))"
  "findConnectorDocs cid ts = map_option dn_docId (List.find (connector_doc cid) (concat (map flattenDocTree ts)))"
proof (induction cid t and cid ts rule: findConnectorDoc_findConnectorDocs.induct)
  case (3 cid c cs)
  have "List.find P (xs @ ys) = (case List.find P xs of Some x \<Rightarrow> Some x | None \<Rightarrow> List.find P ys)" for P :: "doc_node \<Rightarrow> bool" and xs ys
    by (induction xs) auto
  with 3 show ?case by (auto split: option.split)
qed auto

subsection \<open>When the view is fitted again\<close>

lemma join_eq_Nil: "ws \<noteq> [] \<Longrightarrow> [] \<notin> set ws \<Longrightarrow> join_with sep ws \<noteq> []"
  by (cases "(sep, ws)" rule: join_with.cases) auto

lemma sort_eq_mset: "sort ws = sort vs \<longleftrightarrow> mset ws = mset (vs :: 'a :: linorder list)"
proof
  assume "sort ws = sort vs"
  then have "mset (sort ws) = mset (sort vs)" by (rule arg_cong)
  then show "mset ws = mset vs" by simp
next
  assume "mset ws = mset vs"
  then show "sort ws = sort vs" by (intro properties_for_sort) simp_all
qed

text \<open>The view is fitted again exactly when the set of drawn nodes changes, whatever their order.\<close>

lemma nul_parts_join: "ws \<noteq> [] \<Longrightarrow> nul_parts (join_with [CHR 0x00] ws) = concat (map nul_parts ws)"
  by (induction "[CHR 0x00]" ws rule: join_with.induct) (simp_all add: nul_parts_append del: split_on.simps)

theorem fit_when_nodes_change:
  assumes "list_all (\<lambda>n. tn_id n \<noteq> [] \<and> served cids (tn_id n)) (before @ after)"
  shows "nodeKey before = nodeKey after \<longleftrightarrow> mset (map tn_id before) = mset (map tn_id after)"
proof -
  let ?ids = "\<lambda>ns. sort (map tn_id ns)"
  have ids: "list_all (\<lambda>i. i \<noteq> [] \<and> served cids i) (?ids ns)" if "ns = before \<or> ns = after" for ns
    using assms that by (auto simp: list_all_iff)
  have none: "nodeKey ns = [] \<longleftrightarrow> ?ids ns = []" if "ns = before \<or> ns = after" for ns
  proof -
    have "[] \<notin> set (?ids ns)" using ids [OF that] by (auto simp: list_all_iff simp del: set_sort)
    then show ?thesis using join_eq_Nil [of "?ids ns" "[CHR 0x00]"] by (cases "?ids ns = []") (simp_all add: nodeKey_def)
  qed
  have "?ids before = ?ids after" if same: "nodeKey before = nodeKey after"
  proof (cases "?ids before = []")
    case True
    then show ?thesis using none [of before] none [of after] same by simp
  next
    case False
    then have "?ids after \<noteq> []" using none [of before] none [of after] same by simp
    then have "concat (map nul_parts (?ids before)) = concat (map nul_parts (?ids after))"
      using nul_parts_join [OF False] nul_parts_join [of "?ids after"] same by (simp add: nodeKey_def)
    moreover have "list_all (served cids) (?ids before)" "list_all (served cids) (?ids after)"
      using ids [of before] ids [of after] by (simp_all add: list_all_iff del: set_sort)
    ultimately show ?thesis using served_list by blast
  qed
  then have "nodeKey before = nodeKey after \<longleftrightarrow> ?ids before = ?ids after" by (auto simp: nodeKey_def)
  then show ?thesis by (simp only: sort_eq_mset)
qed

subsection \<open>Filters and traces\<close>

lemma map_of_filter_other: "map_of (filter (\<lambda>p. fst p \<noteq> k) ps) j = (if j = k then None else map_of ps j)"
  by (induction ps) auto

lemma params_get_set [simp]: "params_get (params_set k v ps) j = (if j = k then Some v else params_get ps j)"
  by (induction k v ps rule: params_set.induct) (auto simp: params_get_def params_delete_def map_of_filter_other)

lemma params_get_delete [simp]: "params_get (params_delete k ps) j = (if j = k then None else params_get ps j)"
  by (simp add: params_get_def params_delete_def map_of_filter_other)

definition is_trace :: "topology_event \<Rightarrow> bool" where
  "is_trace ev = (case ev of Run_trace a b \<Rightarrow> True | Clear_trace \<Rightarrow> True | _ \<Rightarrow> False)"

abbreviation trace_keys :: "string set" where "trace_keys \<equiv> {''from'', ''to''}"
abbreviation filter_keys :: "string set" where "filter_keys \<equiv> {''connector'', ''kind'', ''includeUnlinked''}"

text \<open>A step works on its own keys, and there only on what they hold.\<close>

lemma step_other: "k \<notin> (if is_trace ev then trace_keys else filter_keys)
    \<Longrightarrow> params_get (tp_params (topology_step ev st)) k = params_get (tp_params st) k"
  by (cases ev) (auto simp: is_trace_def updateFilter_def clearFilters_def runTrace_def clearTrace_def Let_def)

lemma step_own: "params_get (tp_params st) k = params_get (tp_params st') k
    \<Longrightarrow> params_get (tp_params (topology_step ev st)) k = params_get (tp_params (topology_step ev st')) k"
  by (cases ev) (auto simp: is_trace_def updateFilter_def clearFilters_def runTrace_def clearTrace_def Let_def)

lemma run_projected:
  assumes "\<And>ev. ev \<in> set es \<Longrightarrow> \<not> P ev \<Longrightarrow> k \<notin> (if is_trace ev then trace_keys else filter_keys)"
    and "params_get (tp_params st) k = params_get (tp_params st') k"
  shows "params_get (tp_params (fold topology_step es st)) k = params_get (tp_params (fold topology_step (filter P es) st')) k"
  using assms
proof (induction es arbitrary: st st')
  case (Cons ev es)
  show ?case
  proof (cases "P ev")
    case True
    with Cons show ?thesis using step_own [OF Cons.prems(2)] by simp
  next
    case False
    with Cons.prems(1) [of ev] have "params_get (tp_params (topology_step ev st)) k = params_get (tp_params st') k"
      using step_other [of k ev st] Cons.prems(2) by auto
    with Cons False show ?thesis by simp
  qed
qed simp

text \<open>
  Filters and traces do not disturb each other: after any use of the page the path that is asked for is the one the traces
  alone would give, the graph the one the filters alone would give, and whatever else the address holds is
  unchanged.
\<close>

theorem filters_and_traces_apart:
  shows "path_request (tp_params (fold topology_step es st)) = path_request (tp_params (fold topology_step (filter is_trace es) st))
    \<and> graph_request (tp_params (fold topology_step es st)) = graph_request (tp_params (fold topology_step (filter (\<lambda>e. \<not> is_trace e) es) st))
    \<and> (k \<notin> trace_keys \<union> filter_keys \<longrightarrow> params_get (tp_params (fold topology_step es st)) k = params_get (tp_params st) k)"
proof -
  have "params_get (tp_params (fold topology_step es st)) k = params_get (tp_params (fold topology_step (filter is_trace es) st)) k"
    if "k \<in> trace_keys" for k by (rule run_projected) (use that in auto)
  moreover have "params_get (tp_params (fold topology_step es st)) k = params_get (tp_params (fold topology_step (filter (\<lambda>e. \<not> is_trace e) es) st)) k"
    if "k \<in> filter_keys" for k by (rule run_projected) (use that in auto)
  moreover have "params_get (tp_params (fold topology_step es st)) k = params_get (tp_params (fold topology_step (filter (\<lambda>_. False) es) st)) k"
    if "k \<notin> trace_keys \<union> filter_keys" by (rule run_projected) (use that in auto)
  ultimately show ?thesis by (simp add: path_request_def graph_request_def param_def Let_def)
qed

lemma filters_and_traces_apart_witness:
  "params_get (tp_params (fold topology_step [Run_trace '' nas '' [], Filter_kind ''vm''] \<lparr>tp_params = [(''view'', ''x'')], tp_traceValidation = False\<rparr>)) ''view'' = Some ''x''
   \<and> path_request (tp_params (fold topology_step [Run_trace '' nas '' [], Filter_kind ''vm''] \<lparr>tp_params = [(''view'', ''x'')], tp_traceValidation = False\<rparr>)) = Some (''nas'', None)"
proof -
  let ?st = "\<lparr>tp_params = [(''view'', ''x'')], tp_traceValidation = False\<rparr>" and ?es = "[Run_trace '' nas '' [], Filter_kind ''vm'']"
  have "path_request (tp_params (fold topology_step (filter is_trace ?es) ?st)) = Some (''nas'', None)" by code_simp
  with filters_and_traces_apart [of ?es ?st "''view''"] show ?thesis by (simp add: params_get_def)
qed

end
