(* ===== verification/SeededForms.thy ===== *)
theory SeededForms
  imports Machines
begin

text \<open>
  The shape most settings pages share: a form seeded from what a query has read, seeded again
  whenever the query holds a fresh reference, and saved by one request at a time. A page is given by a record of its
  functions; the theories of the pages instantiate it. The locales state what a page promises of these functions,
  and their lemmas say what the form then holds at any time and what the requests can carry.

  The query cache decides when a reference is fresh, so references are inputs. An answer to a save may come with
  the value it stored (\<open>setQueryData\<close>) or without (\<open>invalidateQueries\<close>, after which a read follows).
\<close>

subsection \<open>The form\<close>

text \<open>How a page fills its form, applies an edit, builds a request, when its button is enabled, and whether a failed read hides the form.\<close>

record ('a, 'd, 'e, 'b) seeded_page =
  pg_toForm :: "'a \<Rightarrow> 'd"
  pg_edit :: "'e \<Rightarrow> 'd \<Rightarrow> 'd"
  pg_body :: "'d \<Rightarrow> 'b"
  pg_canSave :: "'a \<Rightarrow> 'd \<Rightarrow> bool"
  pg_hides :: bool

(* src features/settings/RetentionPage.tsx 69-80 RetentionPage *)
record ('a, 'd, 'b) seeded_state =
  sf_data :: "(nat \<times> 'a) option"
  sf_error :: bool
  sf_form :: "'d option"
  sf_pending :: bool
  sf_sent :: "'b list"

datatype ('a, 'e) form_event = Read nat 'a | Read_failed | Edit 'e | Press_save | Saved "(nat \<times> 'a) option" | Save_failed

(* src features/settings/RetentionPage.tsx 73-80 RetentionPage *)
definition form_start :: "('a, 'd, 'b) seeded_state" where
  "form_start = \<lparr>sf_data = None, sf_error = False, sf_form = None, sf_pending = False, sf_sent = []\<rparr>"

(* src features/settings/RetentionPage.tsx 81-84 RetentionPage *)
definition seed_form :: "('a, 'd, 'e, 'b) seeded_page \<Rightarrow> nat \<Rightarrow> 'a \<Rightarrow> ('a, 'd, 'b) seeded_state \<Rightarrow> ('a, 'd, 'b) seeded_state" where
  "seed_form P r a st = (if map_option fst (sf_data st) = Some r then st\<lparr>sf_error := False\<rparr>
     else st\<lparr>sf_error := False, sf_data := Some (r, a), sf_form := Some (pg_toForm P a)\<rparr>)"

(* src features/settings/RetentionPage.tsx 101-108 RetentionPage *)
definition form_visible :: "('a, 'd, 'e, 'b) seeded_page \<Rightarrow> ('a, 'd, 'b) seeded_state \<Rightarrow> bool" where
  "form_visible P st \<longleftrightarrow> sf_data st \<noteq> None \<and> sf_form st \<noteq> None \<and> \<not> (pg_hides P \<and> sf_error st)"

(* src features/settings/RetentionPage.tsx 137-138 set *)
definition edit_seeded :: "('a, 'd, 'e, 'b) seeded_page \<Rightarrow> 'e \<Rightarrow> ('a, 'd, 'b) seeded_state \<Rightarrow> ('a, 'd, 'b) seeded_state" where
  "edit_seeded P e st = (if form_visible P st then st\<lparr>sf_form := map_option (pg_edit P e) (sf_form st)\<rparr> else st)"

(* src features/settings/RetentionPage.tsx 282-287 RetentionPage *)
definition save_form :: "('a, 'd, 'e, 'b) seeded_page \<Rightarrow> ('a, 'd, 'b) seeded_state \<Rightarrow> ('a, 'd, 'b) seeded_state" where
  "save_form P st = (case (sf_data st, sf_form st) of
       (Some (r, a), Some d) \<Rightarrow>
         if form_visible P st \<and> pg_canSave P a d \<and> \<not> sf_pending st
         then st\<lparr>sf_pending := True, sf_sent := sf_sent st @ [pg_body P d]\<rparr> else st
     | _ \<Rightarrow> st)"

(* src features/settings/RetentionPage.tsx 89-99 RetentionPage *)
fun seeded_step :: "('a, 'd, 'e, 'b) seeded_page \<Rightarrow> ('a, 'e) form_event \<Rightarrow> ('a, 'd, 'b) seeded_state \<Rightarrow> ('a, 'd, 'b) seeded_state" where
  "seeded_step P (Read r a) st = seed_form P r a st"
| "seeded_step P Read_failed st = st\<lparr>sf_error := True\<rparr>"
| "seeded_step P (Edit e) st = edit_seeded P e st"
| "seeded_step P Press_save st = save_form P st"
| "seeded_step P (Saved stored) st = (if \<not> sf_pending st then st
     else case stored of None \<Rightarrow> st\<lparr>sf_pending := False\<rparr> | Some (r, a) \<Rightarrow> seed_form P r a (st\<lparr>sf_pending := False\<rparr>))"
| "seeded_step P Save_failed st = st\<lparr>sf_pending := False\<rparr>"

subsection \<open>What the form holds\<close>

text \<open>
  The specification: the value last read with a fresh reference and the edits made since. An event acts on them as on the
  form: a fresh reference forgets the edits, anything else keeps them.
\<close>

definition holds :: "('a, 'd, 'e, 'b) seeded_page \<Rightarrow> ('a \<times> 'e list) option \<Rightarrow> ('a, 'd, 'b) seeded_state \<Rightarrow> bool" where
  "holds P spec st \<longleftrightarrow> (case spec of
       None \<Rightarrow> sf_data st = None \<and> sf_form st = None
     | Some (a, es) \<Rightarrow> map_option snd (sf_data st) = Some a \<and> sf_form st = Some (fold (pg_edit P) es (pg_toForm P a)))"

definition fresh_value :: "('a, 'd, 'b) seeded_state \<Rightarrow> (nat \<times> 'a) option \<Rightarrow> 'a option" where
  "fresh_value st x = (case x of None \<Rightarrow> None
     | Some (r, a) \<Rightarrow> if map_option fst (sf_data st) = Some r then None else Some a)"

fun spec_step :: "('a, 'd, 'e, 'b) seeded_page \<Rightarrow> ('a, 'd, 'b) seeded_state \<Rightarrow> ('a, 'e) form_event \<Rightarrow> ('a \<times> 'e list) option \<Rightarrow> ('a \<times> 'e list) option" where
  "spec_step P st (Read r a) spec = (case fresh_value st (Some (r, a)) of Some a' \<Rightarrow> Some (a', []) | None \<Rightarrow> spec)"
| "spec_step P st (Saved stored) spec = (case fresh_value st (if sf_pending st then stored else None) of Some a' \<Rightarrow> Some (a', []) | None \<Rightarrow> spec)"
| "spec_step P st (Edit e) spec = (if form_visible P st then map_option (\<lambda>(a, es). (a, es @ [e])) spec else spec)"
| "spec_step P st _ spec = spec"

lemmas form_defs = seed_form_def form_visible_def edit_seeded_def save_form_def form_start_def

lemma holds_start [simp]: "holds P None form_start"
  by (simp add: holds_def form_start_def)

lemma holds_step: "holds P spec st \<Longrightarrow> holds P (spec_step P st ev spec) (seeded_step P ev st)"
  by (cases ev; cases spec) (auto simp: holds_def form_defs fresh_value_def split: option.splits prod.splits)

text \<open>The machine together with its specification.\<close>

definition both_step :: "('a, 'd, 'e, 'b) seeded_page \<Rightarrow> ('a, 'e) form_event
    \<Rightarrow> ('a \<times> 'e list) option \<times> ('a, 'd, 'b) seeded_state \<Rightarrow> ('a \<times> 'e list) option \<times> ('a, 'd, 'b) seeded_state" where
  "both_step P ev both = (spec_step P (snd both) ev (fst both), seeded_step P ev (snd both))"

definition since_read :: "('a, 'd, 'e, 'b) seeded_page \<Rightarrow> ('a, 'e) form_event list \<Rightarrow> ('a \<times> 'e list) option" where
  "since_read P evs = fst (fold (both_step P) evs (None, form_start))"

lemma both_run: "snd (fold (both_step P) evs both) = fold (seeded_step P) evs (snd both)"
  by (induction evs arbitrary: both) (simp_all add: both_step_def)

interpretation both: started_machine "both_step P" "\<lambda>_. True" "\<lambda>both. holds P (fst both) (snd both)" "(None, form_start)"
  by unfold_locales (simp_all add: both_step_def holds_step)

lemma form_holds: "holds P (since_read P evs) (fold (seeded_step P) evs form_start)"
  using both.always [of P evs] by (simp add: since_read_def both_run)

text \<open>A request is sent by the button only, and carries the form as it stands.\<close>

lemma sends_form:
  assumes "sf_sent (seeded_step P ev st) \<noteq> sf_sent st"
  obtains r a d where "ev = Press_save" "sf_data st = Some (r, a)" "sf_form st = Some d" "pg_canSave P a d" "\<not> sf_pending st"
    "sf_sent (seeded_step P ev st) = sf_sent st @ [pg_body P d]"
  using assms by (cases ev) (auto simp: form_defs split: option.splits prod.splits if_splits)

text \<open>What was typed between the press and the answer is replaced by the answer.\<close>

lemma late_edits_replaced:
  assumes "sf_pending st" "map_option fst (sf_data st) \<noteq> Some r"
  shows "sf_form (fold (seeded_step P) [Edit e, Saved None, Read r a] st) = Some (pg_toForm P a)"
    "sf_form (fold (seeded_step P) [Edit e, Saved (Some (r, a))] st) = Some (pg_toForm P a)"
  using assms by (auto simp: form_defs)

subsection \<open>What a page promises\<close>

text \<open>Every request that the enabled button sends satisfies the page's condition.\<close>

locale valid_page =
  fixes P :: "('a, 'd, 'e, 'b) seeded_page" and ok :: "'b \<Rightarrow> bool"
  assumes saves_ok: "pg_canSave P a d \<Longrightarrow> ok (pg_body P d)"
begin

lemma sent_ok_step: "list_all ok (sf_sent st) \<Longrightarrow> list_all ok (sf_sent (seeded_step P ev st))"
  by (cases ev) (auto simp: form_defs saves_ok split: option.splits prod.splits)

sublocale valid: started_machine "seeded_step P" "\<lambda>_. True" "\<lambda>st. list_all ok (sf_sent st)" form_start
  by unfold_locales (simp_all add: sent_ok_step, simp add: form_start_def)

lemma all_sent_ok: "list_all ok (sf_sent (fold (seeded_step P) evs form_start))"
  by (rule valid.always) simp

end

text \<open>An untouched form cannot be saved: what was read is never sent back by itself.\<close>

locale clean_page =
  fixes P :: "('a, 'd, 'e, 'b) seeded_page"
  assumes clean: "\<not> pg_canSave P a (pg_toForm P a)"
begin

lemma press_untouched: "holds P (Some (a, [])) st \<Longrightarrow> seeded_step P Press_save st = st"
  using clean by (auto simp: holds_def save_form_def)

lemma untouched_sends_nothing:
  "list_all (\<lambda>ev. case ev of Edit e \<Rightarrow> False | _ \<Rightarrow> True) evs \<Longrightarrow> sf_sent (fold (seeded_step P) evs form_start) = []"
proof -
  let ?inv = "\<lambda>st. sf_sent st = [] \<and> sf_form st = map_option (pg_toForm P \<circ> snd) (sf_data st)"
  have "?inv (seeded_step P ev st)" if "?inv st" "case ev of Edit e \<Rightarrow> False | _ \<Rightarrow> True" for ev st
    using that clean by (cases ev) (auto simp: form_defs split: option.splits prod.splits)
  then have step: "list_all (\<lambda>ev. case ev of Edit e \<Rightarrow> False | _ \<Rightarrow> True) evs \<Longrightarrow> ?inv st \<Longrightarrow> ?inv (fold (seeded_step P) evs st)" for st
    by (induction evs arbitrary: st) auto
  show "list_all (\<lambda>ev. case ev of Edit e \<Rightarrow> False | _ \<Rightarrow> True) evs \<Longrightarrow> sf_sent (fold (seeded_step P) evs form_start) = []"
    using step [of form_start] by (simp add: form_start_def)
qed

end

text \<open>
  What holds of the values read and is kept by the edits holds of the form and of every request; the reads and edits that
  can happen are restricted to those of interest.
\<close>

definition good_event :: "('a \<Rightarrow> bool) \<Rightarrow> ('e \<Rightarrow> bool) \<Rightarrow> ('a, 'e) form_event \<Rightarrow> bool" where
  "good_event good_data good_edit ev = (case ev of Read r a \<Rightarrow> good_data a | Edit e \<Rightarrow> good_edit e
     | Saved (Some (r, a)) \<Rightarrow> good_data a | _ \<Rightarrow> True)"

locale kept_page =
  fixes P :: "('a, 'd, 'e, 'b) seeded_page" and good_data :: "'a \<Rightarrow> bool" and good_edit :: "'e \<Rightarrow> bool"
    and good :: "'d \<Rightarrow> bool" and good_body :: "'b \<Rightarrow> bool"
  assumes seeded: "good_data a \<Longrightarrow> good (pg_toForm P a)"
    and edited: "good d \<Longrightarrow> good_edit e \<Longrightarrow> good (pg_edit P e d)"
    and built: "good d \<Longrightarrow> good_body (pg_body P d)"
begin

sublocale kept: started_machine "seeded_step P" "good_event good_data good_edit"
    "\<lambda>st. pred_option good (sf_form st) \<and> list_all good_body (sf_sent st)" form_start
  by unfold_locales (auto simp: good_event_def form_defs seeded edited built split: form_event.splits option.splits prod.splits if_splits)

lemma good_sent: "list_all (good_event good_data good_edit) evs \<Longrightarrow> list_all good_body (sf_sent (fold (seeded_step P) evs form_start))"
  using kept.reachable [of evs] by simp

end

end
