(* ===== verification/Retention.thy ===== *)
theory Retention
  imports JsValues SeededForms
begin

text \<open>
  The retention page (\<open>features/settings/RetentionPage.tsx\<close>): a \<open>seeded_page\<close> of twelve texts, and the
  handler of the Go server that takes its requests (\<open>backend/internal/api/system/retention.go\<close>). Blank or malformed numbers
  are never sent, so none of them turns a clean-up off, and the server accepts the numbers of every request.
  Whether a cron expression is valid is a parameter (the server asks a package).
\<close>

subsection \<open>Settings, form and request\<close>

(* src api/model/retentionSettings.ts 9-48 RetentionSettings *)
record retention_settings =
  rs_snapshotDays :: int
  rs_docVersionDays :: int
  rs_alertDays :: int
  rs_syncRunDays :: int
  rs_auditDays :: int
  rs_healthCheckDays :: int
  rs_reportDays :: int
  rs_deletedDocsDays :: "int option"
  rs_runbookOpenRunHours :: "int option"
  rs_runbookApprovalHours :: "int option"
  rs_runbookRunDays :: "int option"
  rs_cronExpr :: string

(* src features/settings/RetentionPage.tsx 21-34 FormState *)
record retention_form =
  rf_snapshotDays :: string
  rf_docVersionDays :: string
  rf_alertDays :: string
  rf_syncRunDays :: string
  rf_auditDays :: string
  rf_healthCheckDays :: string
  rf_reportDays :: string
  rf_deletedDocsDays :: string
  rf_runbookOpenRunHours :: string
  rf_runbookApprovalHours :: string
  rf_runbookRunDays :: string
  rf_cronExpr :: string

(* src features/settings/RetentionPage.tsx 36-64 toForm *)
definition retention_toForm :: "retention_settings \<Rightarrow> retention_form" where
  "retention_toForm data = \<lparr>
     rf_snapshotDays = show_int (rs_snapshotDays data),
     rf_docVersionDays = show_int (rs_docVersionDays data),
     rf_alertDays = show_int (rs_alertDays data),
     rf_syncRunDays = show_int (rs_syncRunDays data),
     rf_auditDays = show_int (rs_auditDays data),
     rf_healthCheckDays = show_int (rs_healthCheckDays data),
     rf_reportDays = show_int (rs_reportDays data),
     rf_deletedDocsDays = show_int (from_opt 30 (rs_deletedDocsDays data)),
     rf_runbookOpenRunHours = show_int (from_opt 24 (rs_runbookOpenRunHours data)),
     rf_runbookApprovalHours = show_int (from_opt 24 (rs_runbookApprovalHours data)),
     rf_runbookRunDays = show_int (from_opt 90 (rs_runbookRunDays data)),
     rf_cronExpr = rs_cronExpr data\<rparr>"

datatype retention_field = SnapshotDays | DocVersionDays | AlertDays | SyncRunDays | AuditDays | HealthCheckDays | ReportDays
  | DeletedDocsDays | RunbookOpenRunHours | RunbookApprovalHours | RunbookRunDays | CronExpr

(* src features/settings/RetentionPage.tsx 137-138 set *)
fun retention_set :: "retention_field \<times> string \<Rightarrow> retention_form \<Rightarrow> retention_form" where
  "retention_set (SnapshotDays, v) f = f\<lparr>rf_snapshotDays := v\<rparr>"
| "retention_set (DocVersionDays, v) f = f\<lparr>rf_docVersionDays := v\<rparr>"
| "retention_set (AlertDays, v) f = f\<lparr>rf_alertDays := v\<rparr>"
| "retention_set (SyncRunDays, v) f = f\<lparr>rf_syncRunDays := v\<rparr>"
| "retention_set (AuditDays, v) f = f\<lparr>rf_auditDays := v\<rparr>"
| "retention_set (HealthCheckDays, v) f = f\<lparr>rf_healthCheckDays := v\<rparr>"
| "retention_set (ReportDays, v) f = f\<lparr>rf_reportDays := v\<rparr>"
| "retention_set (DeletedDocsDays, v) f = f\<lparr>rf_deletedDocsDays := v\<rparr>"
| "retention_set (RunbookOpenRunHours, v) f = f\<lparr>rf_runbookOpenRunHours := v\<rparr>"
| "retention_set (RunbookApprovalHours, v) f = f\<lparr>rf_runbookApprovalHours := v\<rparr>"
| "retention_set (RunbookRunDays, v) f = f\<lparr>rf_runbookRunDays := v\<rparr>"
| "retention_set (CronExpr, v) f = f\<lparr>rf_cronExpr := v\<rparr>"

(* src features/settings/RetentionPage.tsx 102-114 dirty *)
definition retention_dirty :: "retention_settings \<Rightarrow> retention_form \<Rightarrow> bool" where
  "retention_dirty data form \<longleftrightarrow>
     rf_snapshotDays form \<noteq> show_int (rs_snapshotDays data) \<or>
     rf_docVersionDays form \<noteq> show_int (rs_docVersionDays data) \<or>
     rf_alertDays form \<noteq> show_int (rs_alertDays data) \<or>
     rf_syncRunDays form \<noteq> show_int (rs_syncRunDays data) \<or>
     rf_auditDays form \<noteq> show_int (rs_auditDays data) \<or>
     rf_healthCheckDays form \<noteq> show_int (rs_healthCheckDays data) \<or>
     rf_reportDays form \<noteq> show_int (rs_reportDays data) \<or>
     rf_deletedDocsDays form \<noteq> show_int (from_opt 30 (rs_deletedDocsDays data)) \<or>
     rf_runbookOpenRunHours form \<noteq> show_int (from_opt 24 (rs_runbookOpenRunHours data)) \<or>
     rf_runbookApprovalHours form \<noteq> show_int (from_opt 24 (rs_runbookApprovalHours data)) \<or>
     rf_runbookRunDays form \<noteq> show_int (from_opt 90 (rs_runbookRunDays data)) \<or>
     rf_cronExpr form \<noteq> rs_cronExpr data"

text \<open>\<open>Number.isInteger(Number(v))\<close> with bounds; \<^const>\<open>None\<close> is \<open>NaN\<close> or infinite.\<close>

definition whole_in :: "rat \<Rightarrow> rat option \<Rightarrow> rat option \<Rightarrow> bool" where
  "whole_in least most n = (case n of None \<Rightarrow> False
     | Some x \<Rightarrow> x = of_int \<lfloor>x\<rfloor> \<and> least \<le> x \<and> (case most of None \<Rightarrow> True | Some m \<Rightarrow> x \<le> m))"

(* src features/settings/RetentionPage.tsx 118-119 isValidDays *)
definition isValidDays :: "string \<Rightarrow> bool" where
  "isValidDays v \<longleftrightarrow> trim v \<noteq> [] \<and> whole_in 0 None (js_number v)"

(* src features/settings/RetentionPage.tsx 120-121 isValidHours *)
definition isValidHours :: "string \<Rightarrow> bool" where
  "isValidHours v \<longleftrightarrow> trim v \<noteq> [] \<and> whole_in 1 (Some 8760) (js_number v)"

(* src features/settings/RetentionPage.tsx 122-123 isValidRunDays *)
definition isValidRunDays :: "string \<Rightarrow> bool" where
  "isValidRunDays v \<longleftrightarrow> trim v \<noteq> [] \<and> whole_in 0 (Some 3650) (js_number v)"

(* src features/settings/RetentionPage.tsx 124-135 daysValid *)
definition daysValid :: "retention_form \<Rightarrow> bool" where
  "daysValid form \<longleftrightarrow>
     isValidDays (rf_snapshotDays form) \<and>
     isValidDays (rf_docVersionDays form) \<and>
     isValidDays (rf_alertDays form) \<and>
     isValidDays (rf_syncRunDays form) \<and>
     isValidDays (rf_auditDays form) \<and>
     isValidDays (rf_healthCheckDays form) \<and>
     isValidDays (rf_reportDays form) \<and>
     isValidDays (rf_deletedDocsDays form) \<and>
     isValidHours (rf_runbookOpenRunHours form) \<and>
     isValidHours (rf_runbookApprovalHours form) \<and>
     isValidRunDays (rf_runbookRunDays form)"

text \<open>The numbers of a request; one that is not finite becomes \<open>null\<close>.\<close>

record retention_body =
  rb_snapshotDays :: "rat option"
  rb_docVersionDays :: "rat option"
  rb_alertDays :: "rat option"
  rb_syncRunDays :: "rat option"
  rb_auditDays :: "rat option"
  rb_healthCheckDays :: "rat option"
  rb_reportDays :: "rat option"
  rb_deletedDocsDays :: "rat option"
  rb_runbookOpenRunHours :: "rat option"
  rb_runbookApprovalHours :: "rat option"
  rb_runbookRunDays :: "rat option"
  rb_cronExpr :: string

(* src features/settings/RetentionPage.tsx 286-301 RetentionPage *)
definition retention_body :: "retention_form \<Rightarrow> retention_body" where
  "retention_body form = \<lparr>
     rb_snapshotDays = js_number (rf_snapshotDays form),
     rb_docVersionDays = js_number (rf_docVersionDays form),
     rb_alertDays = js_number (rf_alertDays form),
     rb_syncRunDays = js_number (rf_syncRunDays form),
     rb_auditDays = js_number (rf_auditDays form),
     rb_healthCheckDays = js_number (rf_healthCheckDays form),
     rb_reportDays = js_number (rf_reportDays form),
     rb_deletedDocsDays = js_number (rf_deletedDocsDays form),
     rb_runbookOpenRunHours = js_number (rf_runbookOpenRunHours form),
     rb_runbookApprovalHours = js_number (rf_runbookApprovalHours form),
     rb_runbookRunDays = js_number (rf_runbookRunDays form),
     rb_cronExpr = rf_cronExpr form\<rparr>"

(* src features/settings/RetentionPage.tsx 66-110 RetentionPage *)
definition retention_page :: "(retention_settings, retention_form, retention_field \<times> string, retention_body) seeded_page" where
  "retention_page = \<lparr>pg_toForm = retention_toForm, pg_edit = retention_set, pg_body = retention_body,
     pg_canSave = (\<lambda>data form. retention_dirty data form \<and> daysValid form), pg_hides = True\<rparr>"

subsection \<open>The server\<close>

text \<open>
  A JSON number read into an \<open>int\<close> of Go: \<open>null\<close> leaves the zero it starts with, a number that is not whole or too
  large is an error; read into a \<open>*int\<close>, \<open>null\<close> leaves \<open>nil\<close>.
\<close>

definition fits_int64 :: "rat \<Rightarrow> bool" where
  "fits_int64 x \<longleftrightarrow> x = of_int \<lfloor>x\<rfloor> \<and> - (2 ^ 63) \<le> x \<and> x < 2 ^ 63"

definition go_int :: "rat option \<Rightarrow> int option" where
  "go_int n = (case n of None \<Rightarrow> Some 0 | Some x \<Rightarrow> if fits_int64 x then Some \<lfloor>x\<rfloor> else None)"

definition go_int_ptr :: "rat option \<Rightarrow> int option option" where
  "go_int_ptr n = (case n of None \<Rightarrow> Some None | Some x \<Rightarrow> if fits_int64 x then Some (Some \<lfloor>x\<rfloor>) else None)"

datatype retention_refusal = Bad_body | Bad_cron | Bad_hours | Bad_days

(* src /backend/internal/api/system/retention.go 81-171 UpdateRetentionSettings *)
definition update_retention :: "(string \<Rightarrow> bool) \<Rightarrow> retention_settings option \<Rightarrow> retention_body \<Rightarrow> retention_refusal + retention_settings" where
  "update_retention cron_ok current b =
     (case (map go_int [rb_snapshotDays b, rb_docVersionDays b, rb_alertDays b, rb_syncRunDays b, rb_auditDays b, rb_healthCheckDays b, rb_reportDays b],
            map go_int_ptr [rb_deletedDocsDays b, rb_runbookOpenRunHours b, rb_runbookApprovalHours b, rb_runbookRunDays b]) of
       ([Some snapshot, Some docVersion, Some alert, Some syncRun, Some audit, Some healthCheck, Some report],
        [Some deleted, Some openRun, Some approval, Some runDays]) \<Rightarrow>
         let kept = (\<lambda>field default. case current of None \<Rightarrow> default | Some c \<Rightarrow> from_opt default (field c));
             deletedDays = from_opt (kept rs_deletedDocsDays 30) deleted;
             openHours = from_opt (kept rs_runbookOpenRunHours 24) openRun;
             approvalHours = from_opt (kept rs_runbookApprovalHours 24) approval;
             runbookDays = from_opt (kept rs_runbookRunDays 90) runDays
         in if rb_cronExpr b = [] \<or> \<not> cron_ok (rb_cronExpr b) then Inl Bad_cron
            else if openHours < 1 \<or> openHours > 8760 \<or> approvalHours < 1 \<or> approvalHours > 8760 then Inl Bad_hours
            else if (\<exists>d \<in> set [snapshot, docVersion, alert, syncRun, audit, healthCheck, report, deletedDays]. d < 0)
              \<or> runbookDays < 0 \<or> runbookDays > 3650 then Inl Bad_days
            else Inr \<lparr>rs_snapshotDays = snapshot, rs_docVersionDays = docVersion, rs_alertDays = alert, rs_syncRunDays = syncRun,
              rs_auditDays = audit, rs_healthCheckDays = healthCheck, rs_reportDays = report, rs_deletedDocsDays = Some deletedDays,
              rs_runbookOpenRunHours = Some openHours, rs_runbookApprovalHours = Some approvalHours,
              rs_runbookRunDays = Some runbookDays, rs_cronExpr = rb_cronExpr b\<rparr>
     | _ \<Rightarrow> Inl Bad_body)"

subsection \<open>What is saved\<close>

text \<open>What every request satisfies: whole numbers within their bounds, none of them \<open>null\<close>.\<close>

definition retention_fits :: "retention_body \<Rightarrow> bool" where
  "retention_fits b \<longleftrightarrow> list_all (whole_in 0 None) [rb_snapshotDays b, rb_docVersionDays b, rb_alertDays b, rb_syncRunDays b,
       rb_auditDays b, rb_healthCheckDays b, rb_reportDays b, rb_deletedDocsDays b]
     \<and> list_all (whole_in 1 (Some 8760)) [rb_runbookOpenRunHours b, rb_runbookApprovalHours b]
     \<and> whole_in 0 (Some 3650) (rb_runbookRunDays b)"

text \<open>The settings that a request with such numbers describes.\<close>

definition retention_asked :: "retention_body \<Rightarrow> retention_settings" where
  "retention_asked b = (let n = (\<lambda>x. \<lfloor>the x\<rfloor>) in
     \<lparr>rs_snapshotDays = n (rb_snapshotDays b), rs_docVersionDays = n (rb_docVersionDays b), rs_alertDays = n (rb_alertDays b),
      rs_syncRunDays = n (rb_syncRunDays b), rs_auditDays = n (rb_auditDays b), rs_healthCheckDays = n (rb_healthCheckDays b),
      rs_reportDays = n (rb_reportDays b), rs_deletedDocsDays = Some (n (rb_deletedDocsDays b)),
      rs_runbookOpenRunHours = Some (n (rb_runbookOpenRunHours b)), rs_runbookApprovalHours = Some (n (rb_runbookApprovalHours b)),
      rs_runbookRunDays = Some (n (rb_runbookRunDays b)), rs_cronExpr = rb_cronExpr b\<rparr>)"

definition days_small :: "retention_body \<Rightarrow> bool" where
  "days_small b \<longleftrightarrow> list_all (\<lambda>n. the n < 2 ^ 63) [rb_snapshotDays b, rb_docVersionDays b, rb_alertDays b, rb_syncRunDays b,
     rb_auditDays b, rb_healthCheckDays b, rb_reportDays b, rb_deletedDocsDays b]"

lemma whole_in_Some: "whole_in least most n \<longleftrightarrow> (\<exists>i. n = Some (of_int i) \<and> least \<le> of_int i
    \<and> (case most of None \<Rightarrow> True | Some m \<Rightarrow> of_int i \<le> m))"
proof
  assume n: "whole_in least most n"
  then obtain x where x: "n = Some x" by (cases n) (simp_all add: whole_in_def)
  with n obtain i where "x = of_int i" by (auto simp: whole_in_def)
  with n x show "\<exists>i. n = Some (of_int i) \<and> least \<le> of_int i \<and> (case most of None \<Rightarrow> True | Some m \<Rightarrow> of_int i \<le> m)"
    by (auto simp: whole_in_def)
qed (auto simp: whole_in_def)

lemma fits_int64_of_int: "- (2 ^ 63) \<le> i \<Longrightarrow> i < 2 ^ 63 \<Longrightarrow> fits_int64 (of_int i)"
  using of_int_le_iff [of "- (2 ^ 63)" i, where 'a = rat] of_int_less_iff [of i "2 ^ 63", where 'a = rat]
  by (simp add: fits_int64_def)

lemma read_whole: "- (2 ^ 63) \<le> i \<Longrightarrow> i < 2 ^ 63 \<Longrightarrow> n = Some (of_int i) \<Longrightarrow> go_int n = Some i \<and> go_int_ptr n = Some (Some i)"
  using fits_int64_of_int [of i] by (simp add: go_int_def go_int_ptr_def)

lemma whole_days: "whole_in 0 None n \<Longrightarrow> the n < 2 ^ 63
    \<Longrightarrow> \<exists>i. n = Some (of_int i) \<and> go_int n = Some i \<and> go_int_ptr n = Some (Some i) \<and> 0 \<le> i"
proof -
  assume "whole_in 0 None n" and small: "the n < 2 ^ 63"
  then obtain i where i: "n = Some (of_int i)" "0 \<le> i" by (auto simp: whole_in_Some)
  with small have "i < 2 ^ 63" using of_int_less_iff [of i "2 ^ 63", where 'a = rat] by simp
  with i read_whole [of i n] show ?thesis by auto
qed

lemma whole_bounded: "whole_in least (Some most) n \<Longrightarrow> 0 \<le> least \<Longrightarrow> most < 2 ^ 63
    \<Longrightarrow> \<exists>i. n = Some (of_int i) \<and> go_int_ptr n = Some (Some i) \<and> least \<le> of_int i \<and> of_int i \<le> most"
proof -
  assume "whole_in least (Some most) n" and least: "0 \<le> least" and most: "most < 2 ^ 63"
  then obtain i where i: "n = Some (of_int i)" "least \<le> of_int i" "of_int i \<le> most" by (auto simp: whole_in_Some)
  then have "0 \<le> i" "i < 2 ^ 63" using least most of_int_less_iff [of i "2 ^ 63", where 'a = rat] of_int_le_iff [of 0 i, where 'a = rat]
    by (simp_all del: of_int_less_iff of_int_le_iff)
  with i read_whole [of i n] show ?thesis by auto
qed

lemma fits_accepted:
  assumes "retention_fits b" "days_small b"
  shows "update_retention cron_ok current b = (if rb_cronExpr b \<noteq> [] \<and> cron_ok (rb_cronExpr b) then Inr (retention_asked b) else Inl Bad_cron)"
proof -
  note fits = assms [unfolded retention_fits_def days_small_def, simplified]
  obtain i1 where i1: "rb_snapshotDays b = Some (of_int i1)" "go_int (rb_snapshotDays b) = Some i1" "0 \<le> i1"
    using whole_days [of "rb_snapshotDays b"] fits by auto
  obtain i2 where i2: "rb_docVersionDays b = Some (of_int i2)" "go_int (rb_docVersionDays b) = Some i2" "0 \<le> i2"
    using whole_days [of "rb_docVersionDays b"] fits by auto
  obtain i3 where i3: "rb_alertDays b = Some (of_int i3)" "go_int (rb_alertDays b) = Some i3" "0 \<le> i3"
    using whole_days [of "rb_alertDays b"] fits by auto
  obtain i4 where i4: "rb_syncRunDays b = Some (of_int i4)" "go_int (rb_syncRunDays b) = Some i4" "0 \<le> i4"
    using whole_days [of "rb_syncRunDays b"] fits by auto
  obtain i5 where i5: "rb_auditDays b = Some (of_int i5)" "go_int (rb_auditDays b) = Some i5" "0 \<le> i5"
    using whole_days [of "rb_auditDays b"] fits by auto
  obtain i6 where i6: "rb_healthCheckDays b = Some (of_int i6)" "go_int (rb_healthCheckDays b) = Some i6" "0 \<le> i6"
    using whole_days [of "rb_healthCheckDays b"] fits by auto
  obtain i7 where i7: "rb_reportDays b = Some (of_int i7)" "go_int (rb_reportDays b) = Some i7" "0 \<le> i7"
    using whole_days [of "rb_reportDays b"] fits by auto
  obtain i8 where i8: "rb_deletedDocsDays b = Some (of_int i8)" "go_int_ptr (rb_deletedDocsDays b) = Some (Some i8)" "0 \<le> i8"
    using whole_days [of "rb_deletedDocsDays b"] fits by auto
  obtain h1 h2 h3 where hours:
    "rb_runbookOpenRunHours b = Some (of_int h1)" "go_int_ptr (rb_runbookOpenRunHours b) = Some (Some h1)" "1 \<le> h1" "h1 \<le> 8760"
    "rb_runbookApprovalHours b = Some (of_int h2)" "go_int_ptr (rb_runbookApprovalHours b) = Some (Some h2)" "1 \<le> h2" "h2 \<le> 8760"
    "rb_runbookRunDays b = Some (of_int h3)" "go_int_ptr (rb_runbookRunDays b) = Some (Some h3)" "0 \<le> h3" "h3 \<le> 3650"
    using whole_bounded [of 1 8760 "rb_runbookOpenRunHours b"] whole_bounded [of 1 8760 "rb_runbookApprovalHours b"]
      whole_bounded [of 0 3650 "rb_runbookRunDays b"] fits by auto
  have ok: "\<not> (h1 < 1 \<or> h1 > 8760 \<or> h2 < 1 \<or> h2 > 8760)" "\<not> ((\<exists>d \<in> set [i1, i2, i3, i4, i5, i6, i7, i8]. d < 0) \<or> h3 < 0 \<or> h3 > 3650)"
    using i1(3) i2(3) i3(3) i4(3) i5(3) i6(3) i7(3) i8(3) hours(3,4,7,8,11,12) by auto
  have read: "map go_int [rb_snapshotDays b, rb_docVersionDays b, rb_alertDays b, rb_syncRunDays b, rb_auditDays b, rb_healthCheckDays b, rb_reportDays b]
      = [Some i1, Some i2, Some i3, Some i4, Some i5, Some i6, Some i7]"
    "map go_int_ptr [rb_deletedDocsDays b, rb_runbookOpenRunHours b, rb_runbookApprovalHours b, rb_runbookRunDays b]
      = [Some (Some i8), Some (Some h1), Some (Some h2), Some (Some h3)]"
    using i1 i2 i3 i4 i5 i6 i7 i8 hours by simp_all
  have "retention_asked b = \<lparr>rs_snapshotDays = i1, rs_docVersionDays = i2, rs_alertDays = i3, rs_syncRunDays = i4,
      rs_auditDays = i5, rs_healthCheckDays = i6, rs_reportDays = i7, rs_deletedDocsDays = Some i8,
      rs_runbookOpenRunHours = Some h1, rs_runbookApprovalHours = Some h2, rs_runbookRunDays = Some h3, rs_cronExpr = rb_cronExpr b\<rparr>"
    using i1 i2 i3 i4 i5 i6 i7 i8 hours by (simp add: retention_asked_def Let_def)
  with ok show ?thesis by (simp add: update_retention_def read del: set_simps list.map)
qed

lemma valid_is_whole: "isValidDays v \<Longrightarrow> whole_in 0 None (js_number v)" "isValidHours v \<Longrightarrow> whole_in 1 (Some 8760) (js_number v)"
  "isValidRunDays v \<Longrightarrow> whole_in 0 (Some 3650) (js_number v)"
  by (simp_all add: isValidDays_def isValidHours_def isValidRunDays_def)

interpretation retention: valid_page retention_page retention_fits
  by unfold_locales (simp add: retention_page_def retention_fits_def retention_body_def daysValid_def valid_is_whole)

interpretation retention_clean: clean_page retention_page
  by unfold_locales (simp add: retention_page_def retention_toForm_def retention_dirty_def)

text \<open>The texts of the numbers on the page, and the numbers of a request, in the same order.\<close>

definition number_texts :: "retention_form \<Rightarrow> string list" where
  "number_texts f = [rf_snapshotDays f, rf_docVersionDays f, rf_alertDays f, rf_syncRunDays f, rf_auditDays f, rf_healthCheckDays f,
     rf_reportDays f, rf_deletedDocsDays f, rf_runbookOpenRunHours f, rf_runbookApprovalHours f, rf_runbookRunDays f]"

definition body_numbers :: "retention_body \<Rightarrow> rat option list" where
  "body_numbers b = [rb_snapshotDays b, rb_docVersionDays b, rb_alertDays b, rb_syncRunDays b, rb_auditDays b, rb_healthCheckDays b,
     rb_reportDays b, rb_deletedDocsDays b, rb_runbookOpenRunHours b, rb_runbookApprovalHours b, rb_runbookRunDays b]"

lemma valid_not_blank: "daysValid form \<Longrightarrow> list_all (\<lambda>t. trim t \<noteq> []) (number_texts form)"
  by (simp add: daysValid_def isValidDays_def isValidHours_def isValidRunDays_def number_texts_def)

lemma body_of_texts: "body_numbers (retention_body form) = map js_number (number_texts form)"
  by (simp add: body_numbers_def number_texts_def retention_body_def)

text \<open>
  Claim C28. Whatever is typed, read or answered, a request of the retention page holds whole numbers within the bounds of its
  fields. They are the numbers that the texts on the page say at that moment, none of which is blank, so no blank is ever
  turned into zero. The server refuses a request for its cron expression only, as long as the days
  fit a 64-bit integer, and otherwise stores exactly what it asks for.
\<close>

theorem retention_saves_fit:
  "list_all (\<lambda>b. retention_fits b \<and> (days_small b \<longrightarrow> update_retention cron_ok current b
       = (if rb_cronExpr b \<noteq> [] \<and> cron_ok (rb_cronExpr b) then Inr (retention_asked b) else Inl Bad_cron)))
     (sf_sent (fold (seeded_step retention_page) evs form_start))
   \<and> (let st = fold (seeded_step retention_page) evs form_start; st' = seeded_step retention_page ev st
      in sf_sent st' \<noteq> sf_sent st \<longrightarrow> (\<exists>form b. sf_form st = Some form \<and> sf_sent st' = sf_sent st @ [b]
           \<and> list_all (\<lambda>t. trim t \<noteq> []) (number_texts form) \<and> body_numbers b = map js_number (number_texts form)
           \<and> rb_cronExpr b = rf_cronExpr form))"
proof (intro conjI)
  show "list_all (\<lambda>b. retention_fits b \<and> (days_small b \<longrightarrow> update_retention cron_ok current b
       = (if rb_cronExpr b \<noteq> [] \<and> cron_ok (rb_cronExpr b) then Inr (retention_asked b) else Inl Bad_cron)))
     (sf_sent (fold (seeded_step retention_page) evs form_start))"
    using retention.all_sent_ok [of evs] fits_accepted by (auto simp: list_all_iff)
  show "let st = fold (seeded_step retention_page) evs form_start; st' = seeded_step retention_page ev st
      in sf_sent st' \<noteq> sf_sent st \<longrightarrow> (\<exists>form b. sf_form st = Some form \<and> sf_sent st' = sf_sent st @ [b]
           \<and> list_all (\<lambda>t. trim t \<noteq> []) (number_texts form) \<and> body_numbers b = map js_number (number_texts form)
           \<and> rb_cronExpr b = rf_cronExpr form)"
    unfolding Let_def
    by (intro impI, erule sends_form) (auto simp: retention_page_def valid_not_blank body_of_texts, simp add: retention_body_def)
qed

definition kept_settings :: retention_settings where
  "kept_settings = \<lparr>rs_snapshotDays = 30, rs_docVersionDays = 30, rs_alertDays = 30, rs_syncRunDays = 30, rs_auditDays = 30,
     rs_healthCheckDays = 30, rs_reportDays = 30, rs_deletedDocsDays = Some 30, rs_runbookOpenRunHours = Some 30,
     rs_runbookApprovalHours = Some 30, rs_runbookRunDays = Some 30, rs_cronExpr = ''0 3 * * *''\<rparr>"

lemma numeral_texts: "js_number ''30'' = Some 30" "js_number ''14'' = Some 14" "show_int 30 = ''30''" "trim ''30'' = ''30''"
  "trim ''14'' = ''14''" "trim '' '' = []"
proof -
  show trims: "trim ''30'' = ''30''" "trim ''14'' = ''14''" "trim '' '' = []" "show_int 30 = ''30''" by code_simp+
  have "map to_lower (take 2 ''30'') = ''30''" "map to_lower (take 2 ''14'') = ''14''"
    "unsigned_decimal ''30'' = Some 30" "unsigned_decimal ''14'' = Some 14" by code_simp+
  with trims show "js_number ''30'' = Some 30" "js_number ''14'' = Some 14"
    by (simp_all add: js_number_def finite_number_def Let_def)
qed

text \<open>A blank field is not sent; the corrected one is.\<close>

definition corrected :: "(retention_settings, retention_field \<times> string) form_event list" where
  "corrected = [Read 0 kept_settings, Edit (SnapshotDays, '' ''), Press_save, Edit (SnapshotDays, ''14'')]"

lemma corrected_run:
  "sf_sent (fold (seeded_step retention_page) (corrected @ [Press_save]) form_start) = [retention_body (retention_toForm kept_settings\<lparr>rf_snapshotDays := ''14''\<rparr>)]"
  "sf_sent (fold (seeded_step retention_page) corrected form_start) = []"
  "sf_form (fold (seeded_step retention_page) corrected form_start) = Some (retention_toForm kept_settings\<lparr>rf_snapshotDays := ''14''\<rparr>)"
  by (simp_all add: corrected_def form_defs retention_page_def retention_dirty_def daysValid_def isValidDays_def isValidHours_def isValidRunDays_def
    retention_toForm_def kept_settings_def numeral_texts whole_in_def)

lemma retention_saves_fit_witness:
  "update_retention (\<lambda>_. True) None (retention_body (retention_toForm kept_settings\<lparr>rf_snapshotDays := ''14''\<rparr>))
     = Inr (kept_settings\<lparr>rs_snapshotDays := 14\<rparr>)
   \<and> list_all (\<lambda>t. trim t \<noteq> []) (number_texts (retention_toForm kept_settings\<lparr>rf_snapshotDays := ''14''\<rparr>))"
proof
  show "update_retention (\<lambda>_. True) None (retention_body (retention_toForm kept_settings\<lparr>rf_snapshotDays := ''14''\<rparr>))
     = Inr (kept_settings\<lparr>rs_snapshotDays := 14\<rparr>)"
    using retention_saves_fit [of "\<lambda>_. True" None "corrected @ [Press_save]", THEN conjunct1, unfolded corrected_run]
    by (simp add: days_small_def retention_body_def retention_toForm_def kept_settings_def numeral_texts retention_asked_def)
  show "list_all (\<lambda>t. trim t \<noteq> []) (number_texts (retention_toForm kept_settings\<lparr>rf_snapshotDays := ''14''\<rparr>))"
    using retention_saves_fit [of "\<lambda>_. True" None corrected Press_save, THEN conjunct2] corrected_run by (auto simp: Let_def)
qed

text \<open>What is typed while a save is under way is lost when its answer is read.\<close>

lemma late_retention_edit_lost:
  assumes "sf_pending st" "map_option fst (sf_data st) \<noteq> Some r"
  shows "sf_form (fold (seeded_step retention_page) [Edit (f, v), Saved None, Read r a] st) = Some (retention_toForm a)"
  using late_edits_replaced(1) [OF assms, of retention_page] by (simp add: retention_page_def)

end
