(* ===== verification/Routing.thy ===== *)
theory Routing
  imports Storage
begin

text \<open>
  The routing matrix of notifications (\<open>features/settings/EventRoutingTable.tsx\<close>) together with the part of
  the Go server that reads it (\<open>shouldSkipRoute\<close> in \<open>backend/internal/notifications/dispatcher.go\<close>). The lemmas compare
  what is delivered before and after an edit: a cell changes its own deliveries only, also where the edit turns
  an empty routing, which lets everything through, into a list of routes. Events that have no row are
  the exception, which is stated as well.
\<close>

subsection \<open>Configuration\<close>

(* src api/model/notificationRoute.ts 12-22 NotificationRoute *)
record notification_route =
  nr_eventType :: string
  nr_channel :: string
  nr_enabled :: bool
  nr_minSeverity :: "string option"
  nr_connectorCategory :: "string option"
  nr_connectorId :: "string option"

(* src api/model/notificationChannel.ts 11-36 NotificationChannel *)
record notification_channel =
  nc_type :: string
  nc_enabled :: bool
  nc_config :: "(string \<times> json) list option"

(* src api/model/notificationConfig.ts 12-16 NotificationConfig *)
record notification_config =
  cfg_channels :: "notification_channel list"
  cfg_routing :: "notification_route list"

subsection \<open>The matrix\<close>

(* src features/settings/EventRoutingTable.tsx 39-46 KNOWN_EVENT_TYPES *)
definition KNOWN_EVENT_TYPES :: "string list" where
  "KNOWN_EVENT_TYPES = [''alert.created'', ''finding.created'', ''system.job_failed'', ''runbook.run_failed'', ''runbook.run_waiting'',
     ''runbook.run_approval_requested'']"

(* src features/settings/EventRoutingTable.tsx 48-50 eventLabel *)
definition eventLabel :: "string \<Rightarrow> string" where
  "eventLabel eventType = map (\<lambda>c. if c = CHR ''.'' \<or> c = CHR ''_'' then CHR '' '' else c) eventType"

text \<open>A set in the order of insertion, read as an array.\<close>

definition set_array :: "'a list \<Rightarrow> 'a list" where
  "set_array xs = rev (remdups (rev xs))"

(* src features/settings/EventRoutingTable.tsx 63-65 eventTypes *)
definition eventTypes :: "notification_config \<Rightarrow> string list" where
  "eventTypes config = set_array (KNOWN_EVENT_TYPES @ map nr_eventType (cfg_routing config))"

(* src features/settings/EventRoutingTable.tsx 68-68 unrouted *)
definition unrouted :: "notification_config \<Rightarrow> bool" where
  "unrouted config \<longleftrightarrow> length (cfg_routing config) = 0"

definition is_route :: "string \<Rightarrow> string \<Rightarrow> notification_route \<Rightarrow> bool" where
  "is_route eventType channel r \<longleftrightarrow> nr_eventType r = eventType \<and> nr_channel r = channel"

(* src features/settings/EventRoutingTable.tsx 71-72 findRoute *)
definition findRoute :: "notification_config \<Rightarrow> string \<Rightarrow> string option \<Rightarrow> notification_route option" where
  "findRoute config eventType channel = (case channel of None \<Rightarrow> None
     | Some ch \<Rightarrow> List.find (is_route eventType ch) (cfg_routing config))"

definition first_channel :: "notification_config \<Rightarrow> string option" where
  "first_channel config = (case cfg_channels config of [] \<Rightarrow> None | c # cs \<Rightarrow> Some (nc_type c))"

(* src features/settings/EventRoutingTable.tsx 120-121 rowSeverity *)
definition rowSeverity :: "notification_config \<Rightarrow> string \<Rightarrow> string" where
  "rowSeverity config eventType = from_opt ''info'' (Option.bind (findRoute config eventType (first_channel config)) nr_minSeverity)"

(* src features/settings/EventRoutingTable.tsx 81-90 withRow *)
definition base_routes :: "notification_config \<Rightarrow> notification_route list" where
  "base_routes config = (if unrouted config then concat (map (\<lambda>ev. map (\<lambda>c. \<lparr>nr_eventType = ev, nr_channel = nc_type c,
       nr_enabled = True, nr_minSeverity = Some ''info'', nr_connectorCategory = None, nr_connectorId = None\<rparr>)
       (cfg_channels config)) (eventTypes config))
     else cfg_routing config)"

(* src features/settings/EventRoutingTable.tsx 80-100 withRow *)
definition withRow :: "notification_config \<Rightarrow> string \<Rightarrow> notification_route list" where
  "withRow config eventType =
     (let base = base_routes config;
          missing = map (\<lambda>c. \<lparr>nr_eventType = eventType, nr_channel = nc_type c, nr_enabled = False,
              nr_minSeverity = Some (rowSeverity config eventType), nr_connectorCategory = None, nr_connectorId = None\<rparr>)
            (filter (\<lambda>c. \<not> list_ex (is_route eventType (nc_type c)) base) (cfg_channels config))
      in base @ missing)"

(* src features/settings/EventRoutingTable.tsx 102-109 setCell *)
definition setCell :: "notification_config \<Rightarrow> string \<Rightarrow> string \<Rightarrow> bool \<Rightarrow> notification_config" where
  "setCell config eventType channel enabled = config\<lparr>cfg_routing := map (\<lambda>r.
     if nr_eventType r = eventType \<and> nr_channel r = channel then r\<lparr>nr_enabled := enabled\<rparr> else r) (withRow config eventType)\<rparr>"

(* src features/settings/EventRoutingTable.tsx 111-118 setRowSeverity *)
definition setRowSeverity :: "notification_config \<Rightarrow> string \<Rightarrow> string \<Rightarrow> notification_config" where
  "setRowSeverity config eventType minSeverity = config\<lparr>cfg_routing := map (\<lambda>r.
     if nr_eventType r = eventType then r\<lparr>nr_minSeverity := Some minSeverity\<rparr> else r) (withRow config eventType)\<rparr>"

(* src features/settings/EventRoutingTable.tsx 123-135 setRowConnectorCategory *)
definition setRowConnectorCategory :: "notification_config \<Rightarrow> string \<Rightarrow> string \<Rightarrow> notification_config" where
  "setRowConnectorCategory config eventType category = config\<lparr>cfg_routing := map (\<lambda>r.
     if nr_eventType r = eventType then r\<lparr>nr_connectorCategory := (if category = [] then None else Some category)\<rparr> else r)
     (withRow config eventType)\<rparr>"

(* src features/settings/EventRoutingTable.tsx 137-138 rowConnectorCategory *)
definition rowConnectorCategory :: "notification_config \<Rightarrow> string \<Rightarrow> string" where
  "rowConnectorCategory config eventType = from_opt [] (Option.bind (findRoute config eventType (first_channel config)) nr_connectorCategory)"

(* src features/settings/EventRoutingTable.tsx 140-149 setRowConnectorId *)
definition setRowConnectorId :: "notification_config \<Rightarrow> string \<Rightarrow> string \<Rightarrow> notification_config" where
  "setRowConnectorId config eventType connectorId = config\<lparr>cfg_routing := map (\<lambda>r.
     if nr_eventType r = eventType then r\<lparr>nr_connectorId := (if connectorId = [] then None else Some connectorId)\<rparr> else r)
     (withRow config eventType)\<rparr>"

(* src features/settings/EventRoutingTable.tsx 151-152 rowConnectorId *)
definition rowConnectorId :: "notification_config \<Rightarrow> string \<Rightarrow> string" where
  "rowConnectorId config eventType = from_opt [] (Option.bind (findRoute config eventType (first_channel config)) nr_connectorId)"

(* src features/settings/EventRoutingTable.tsx 197-206 EventRoutingTable *)
definition cell_checked :: "notification_config \<Rightarrow> string \<Rightarrow> notification_channel \<Rightarrow> bool" where
  "cell_checked config eventType c \<longleftrightarrow> (unrouted config
     \<or> (case findRoute config eventType (Some (nc_type c)) of None \<Rightarrow> False | Some r \<Rightarrow> nr_enabled r)) \<and> nc_enabled c"

subsection \<open>The dispatcher\<close>

(* src /backend/internal/notifications/dispatcher.go 552-563 severityRank *)
definition severityRank :: "string \<Rightarrow> nat" where
  "severityRank s = (if s = ''critical'' then 0 else if s = ''warning'' then 1 else if s = ''info'' then 2 else 3)"

text \<open>An absent text reads as the empty one in Go.\<close>

(* src /backend/internal/notifications/dispatcher.go 518-530 shouldSkipRoute *)
definition shouldSkipRoute :: "notification_route list \<Rightarrow> string \<Rightarrow> string \<Rightarrow> string \<Rightarrow> string \<Rightarrow> string \<Rightarrow> bool" where
  "shouldSkipRoute rts eventType channel severity connectorCategory connectorId =
     (if rts = [] then False
      else case List.find (is_route eventType channel) rts of
        None \<Rightarrow> True
      | Some route \<Rightarrow>
          if \<not> nr_enabled route \<or> severityRank severity > severityRank (from_opt [] (nr_minSeverity route)) then True
          else let category = from_opt [] (nr_connectorCategory route); connector = from_opt [] (nr_connectorId route)
               in category \<noteq> [] \<and> category \<noteq> connectorCategory \<or> connector \<noteq> [] \<and> connector \<noteq> connectorId)"

text \<open>What a route lets through once it is enabled.\<close>

definition lets_through :: "notification_route \<Rightarrow> string \<Rightarrow> string \<Rightarrow> string \<Rightarrow> bool" where
  "lets_through r severity category connector \<longleftrightarrow> severityRank severity \<le> severityRank (from_opt [] (nr_minSeverity r))
     \<and> from_opt [] (nr_connectorCategory r) \<in> {[], category} \<and> from_opt [] (nr_connectorId r) \<in> {[], connector}"

lemma skip_iff: "rts \<noteq> [] \<Longrightarrow> shouldSkipRoute rts ev ch sev cat conn = (case List.find (is_route ev ch) rts of
    None \<Rightarrow> True | Some r \<Rightarrow> \<not> (nr_enabled r \<and> lets_through r sev cat conn))"
  by (auto simp: shouldSkipRoute_def lets_through_def Let_def split: option.split)

subsection \<open>What an edit does to deliveries\<close>

lemma set_set_array [simp]: "set (set_array xs) = set xs"
  by (simp add: set_array_def)

lemma find_append: "List.find P (xs @ ys) = (case List.find P xs of None \<Rightarrow> List.find P ys | Some x \<Rightarrow> Some x)"
  by (induction xs) auto

lemma find_map: "(\<And>x. x \<in> set xs \<Longrightarrow> P (f x) = P x) \<Longrightarrow> List.find P (map f xs) = map_option f (List.find P xs)"
  by (induction xs) auto

lemma find_concat: "List.find P (concat (map f xs)) = (case List.find (\<lambda>x. List.find P (f x) \<noteq> None) xs of None \<Rightarrow> None | Some x \<Rightarrow> List.find P (f x))"
  by (induction xs) (auto simp: find_append split: option.splits)

lemma find_None: "List.find P xs = None \<longleftrightarrow> \<not> list_ex P xs"
  by (induction xs) auto

lemma find_SomeD: "List.find P xs = Some x \<Longrightarrow> x \<in> set xs \<and> P x"
  by (induction xs) (auto split: if_splits)

text \<open>The row of an event, for each of its cells: what is there stays, an empty routing is written out, and
  what is missing is added switched off.\<close>

definition row_cell :: "notification_config \<Rightarrow> string \<Rightarrow> string \<Rightarrow> string \<Rightarrow> notification_route option" where
  "row_cell config row ev ch =
     (if unrouted config then
        (if ev \<in> set (eventTypes config) \<and> ch \<in> nc_type ` set (cfg_channels config)
         then Some \<lparr>nr_eventType = ev, nr_channel = ch, nr_enabled = True, nr_minSeverity = Some ''info'', nr_connectorCategory = None, nr_connectorId = None\<rparr>
         else None)
      else case List.find (is_route ev ch) (cfg_routing config) of Some r \<Rightarrow> Some r
        | None \<Rightarrow> if ev = row \<and> ch \<in> nc_type ` set (cfg_channels config)
            then Some \<lparr>nr_eventType = row, nr_channel = ch, nr_enabled = False, nr_minSeverity = Some (rowSeverity config row),
              nr_connectorCategory = None, nr_connectorId = None\<rparr> else None)"

lemma find_typed: "(\<And>t. nr_eventType (g t) = ev' \<and> nr_channel (g t) = t)
    \<Longrightarrow> List.find (is_route ev ch) (map (\<lambda>c. g (nc_type c)) cs) = (if ev = ev' \<and> ch \<in> nc_type ` set cs then Some (g ch) else None)"
  by (induction cs) (auto simp: is_route_def)

lemma find_first: "List.find (\<lambda>x. y = x \<and> b) xs = (if b \<and> y \<in> set xs then Some y else None)"
  by (induction xs) auto

definition open_route :: "string \<Rightarrow> string \<Rightarrow> notification_route" where
  "open_route ev ch = \<lparr>nr_eventType = ev, nr_channel = ch, nr_enabled = True, nr_minSeverity = Some ''info'',
     nr_connectorCategory = None, nr_connectorId = None\<rparr>"

lemma base_unrouted: "unrouted config \<Longrightarrow> List.find (is_route ev ch) (base_routes config) = row_cell config row ev ch"
proof -
  assume u: "unrouted config"
  have cells: "List.find (is_route ev ch) (map (\<lambda>c. open_route x (nc_type c)) cs) = (if ev = x \<and> ch \<in> nc_type ` set cs then Some (open_route x ch) else None)" for x cs
    by (rule find_typed) (simp add: open_route_def)
  have "List.find (is_route ev ch) (base_routes config) = (case List.find (\<lambda>x. ev = x \<and> ch \<in> nc_type ` set (cfg_channels config)) (eventTypes config) of
      None \<Rightarrow> None | Some x \<Rightarrow> if ev = x \<and> ch \<in> nc_type ` set (cfg_channels config) then Some (open_route x ch) else None)"
    using u by (simp add: base_routes_def find_concat cells cong: option.case_cong flip: open_route_def)
  with u show ?thesis by (simp add: find_first row_cell_def open_route_def)
qed

definition closed_route :: "string \<Rightarrow> string \<Rightarrow> string \<Rightarrow> notification_route" where
  "closed_route sev ev ch = \<lparr>nr_eventType = ev, nr_channel = ch, nr_enabled = False, nr_minSeverity = Some sev,
     nr_connectorCategory = None, nr_connectorId = None\<rparr>"

lemma withRow_routes: "withRow config row = base_routes config @ map (\<lambda>c. closed_route (rowSeverity config row) row (nc_type c))
    (filter (\<lambda>c. \<not> list_ex (is_route row (nc_type c)) (base_routes config)) (cfg_channels config))"
  by (simp add: withRow_def Let_def closed_route_def)

lemma find_closed: "List.find (is_route ev ch) (map (\<lambda>c. closed_route sev row (nc_type c)) cs)
    = (if ev = row \<and> ch \<in> nc_type ` set cs then Some (closed_route sev row ch) else None)"
  by (rule find_typed) (simp add: closed_route_def)

lemma withRow_cell:
  assumes "row \<in> set (eventTypes config)"
  shows "List.find (is_route ev ch) (withRow config row) = row_cell config row ev ch"
proof (cases "unrouted config")
  case True
  have "list_ex (is_route row (nc_type c)) (base_routes config)" if "c \<in> set (cfg_channels config)" for c
    using True that assms base_unrouted [of config row "nc_type c" row] find_None [of "is_route row (nc_type c)" "base_routes config"]
    by (auto simp: row_cell_def split: if_splits)
  then have "filter (\<lambda>c. \<not> list_ex (is_route row (nc_type c)) (base_routes config)) (cfg_channels config) = []"
    by (simp add: filter_empty_conv)
  with True show ?thesis by (simp add: withRow_routes base_unrouted [of config ev ch row])
next
  case False
  then have base: "base_routes config = cfg_routing config" by (simp add: base_routes_def)
  show ?thesis
  proof (cases "List.find (is_route ev ch) (cfg_routing config)")
    case None
    have "ch \<in> nc_type ` set (filter (\<lambda>c. \<not> list_ex (is_route row (nc_type c)) (cfg_routing config)) (cfg_channels config))
        \<longleftrightarrow> ch \<in> nc_type ` set (cfg_channels config)" if "ev = row"
      using None that by (auto simp: find_None)
    with None False show ?thesis by (cases "ev = row") (simp_all add: withRow_routes base find_append find_closed row_cell_def flip: closed_route_def)
  next
    case (Some r)
    with False show ?thesis by (simp add: withRow_routes base find_append row_cell_def)
  qed
qed

lemma row_cell_is: "row_cell config row ev ch = Some r \<Longrightarrow> is_route ev ch r"
  by (auto simp: row_cell_def is_route_def split: if_splits option.splits dest: find_SomeD)

lemma setCell_route:
  assumes "row \<in> set (eventTypes config)"
  shows "List.find (is_route ev ch) (cfg_routing (setCell config row channel on))
    = map_option (\<lambda>r. if ev = row \<and> ch = channel then r\<lparr>nr_enabled := on\<rparr> else r) (row_cell config row ev ch)"
proof -
  have "List.find (is_route ev ch) (cfg_routing (setCell config row channel on))
      = map_option (\<lambda>r. if nr_eventType r = row \<and> nr_channel r = channel then r\<lparr>nr_enabled := on\<rparr> else r) (row_cell config row ev ch)"
    unfolding setCell_def by (simp, subst find_map) (simp_all add: is_route_def withRow_cell [OF assms])
  also have "\<dots> = map_option (\<lambda>r. if ev = row \<and> ch = channel then r\<lparr>nr_enabled := on\<rparr> else r) (row_cell config row ev ch)"
    by (rule option.map_cong0) (auto dest: row_cell_is simp: is_route_def)
  finally show ?thesis .
qed

lemma route_nonempty: "List.find P xs = Some x \<Longrightarrow> xs \<noteq> []"
  by auto

lemma setCell_nonempty: "channel \<in> nc_type ` set (cfg_channels config) \<Longrightarrow> row \<in> set (eventTypes config)
    \<Longrightarrow> cfg_routing (setCell config row channel on) \<noteq> []"
proof -
  assume "channel \<in> nc_type ` set (cfg_channels config)" "row \<in> set (eventTypes config)"
  then have "List.find (is_route row channel) (cfg_routing (setCell config row channel on)) \<noteq> None"
    by (auto simp: setCell_route row_cell_def split: option.split)
  then show ?thesis by auto
qed

text \<open>
  Claim C24. Clicking a cell of the matrix changes the deliveries of that event over that channel and no others: these are
  delivered afterwards exactly when the cell was switched on and its route lets them through (the route it had;
  everything of a known severity, where nothing was routed; from the severity of the row upwards, where
  the cell had no route). This holds too for the click that turns an empty routing into routes, for the
  events and channels of the matrix and the severities the dispatcher knows.
\<close>

theorem cell_changes_itself:
  assumes "row \<in> set (eventTypes config)" "channel \<in> nc_type ` set (cfg_channels config)" "severityRank severity \<le> 2"
    and "unrouted config \<Longrightarrow> ev \<in> set (eventTypes config) \<and> ch \<in> nc_type ` set (cfg_channels config)"
  shows "shouldSkipRoute (cfg_routing (setCell config row channel on)) ev ch severity cat conn =
    (if ev = row \<and> ch = channel
     then \<not> (on \<and> (if unrouted config then True else case List.find (is_route row channel) (cfg_routing config) of
         Some r \<Rightarrow> lets_through r severity cat conn | None \<Rightarrow> severityRank severity \<le> severityRank (rowSeverity config row)))
     else shouldSkipRoute (cfg_routing config) ev ch severity cat conn)"
proof -
  have "cfg_routing (setCell config row channel on) \<noteq> []" using assms(1,2) by (simp add: setCell_nonempty)
  note after = skip_iff [OF this, of ev ch severity cat conn, unfolded setCell_route [OF assms(1)]]
  show ?thesis
  proof (cases "unrouted config")
    case True
    then have "cfg_routing config = []" "severityRank ''info'' = 2" by (simp_all add: unrouted_def severityRank_def)
    with after True assms show ?thesis by (simp add: row_cell_def lets_through_def shouldSkipRoute_def)
  next
    case False
    then have "cfg_routing config \<noteq> []" by (simp add: unrouted_def)
    from skip_iff [OF this, of ev ch severity cat conn] after False assms(2) show ?thesis
      by (auto simp: row_cell_def lets_through_def split: option.splits)
  qed
qed

text \<open>
  Events that have no row: while nothing is routed they are delivered, after the first click nothing of them is, since the
  routes written out leave them out. The daily and weekly digests are of this kind.
\<close>

lemma first_click_cuts_off:
  assumes "unrouted config" "row \<in> set (eventTypes config)" "channel \<in> nc_type ` set (cfg_channels config)"
    and "ev \<notin> set (eventTypes config)"
  shows "\<not> shouldSkipRoute (cfg_routing config) ev ch sev cat conn"
    "shouldSkipRoute (cfg_routing (setCell config row channel on)) ev ch sev cat conn"
proof -
  show "\<not> shouldSkipRoute (cfg_routing config) ev ch sev cat conn"
    using assms(1) by (simp add: unrouted_def shouldSkipRoute_def)
  have "cfg_routing (setCell config row channel on) \<noteq> []" using assms(2,3) by (simp add: setCell_nonempty)
  from skip_iff [OF this, of ev ch sev cat conn] assms(1,2,4)
  show "shouldSkipRoute (cfg_routing (setCell config row channel on)) ev ch sev cat conn"
    by (simp add: setCell_route row_cell_def)
qed

lemma digest_has_no_row: "unrouted config \<Longrightarrow> ''digest.summary'' \<notin> set (eventTypes config)"
  by (simp add: eventTypes_def unrouted_def KNOWN_EVENT_TYPES_def)

definition two_channels :: notification_config where
  "two_channels = \<lparr>cfg_channels = [\<lparr>nc_type = ''smtp'', nc_enabled = True, nc_config = None\<rparr>, \<lparr>nc_type = ''slack'', nc_enabled = True, nc_config = None\<rparr>],
     cfg_routing = []\<rparr>"

lemma two_channels_facts: "unrouted two_channels" "''alert.created'' \<in> set (eventTypes two_channels)"
    "''slack'' \<in> nc_type ` set (cfg_channels two_channels)" "''smtp'' \<in> nc_type ` set (cfg_channels two_channels)" "severityRank ''warning'' \<le> 2"
  by (simp_all add: two_channels_def unrouted_def eventTypes_def KNOWN_EVENT_TYPES_def severityRank_def)

lemma cell_changes_itself_witness:
  "shouldSkipRoute (cfg_routing (setCell two_channels ''alert.created'' ''slack'' False)) ''alert.created'' ''slack'' ''warning'' [] []
   \<and> \<not> shouldSkipRoute (cfg_routing (setCell two_channels ''alert.created'' ''slack'' False)) ''alert.created'' ''smtp'' ''warning'' [] []"
proof -
  note f = two_channels_facts
  have "shouldSkipRoute (cfg_routing two_channels) ''alert.created'' ''smtp'' ''warning'' [] [] = False"
    by (simp add: two_channels_def shouldSkipRoute_def)
  with cell_changes_itself [OF f(2,3,5) conjI [OF f(2,3)], of False "[]" "[]"] cell_changes_itself [OF f(2,3,5) conjI [OF f(2,4)], of False "[]" "[]"] f(1)
  show ?thesis by simp
qed

text \<open>The digest is lost by the first click; the known case of \<open>first_click_cuts_off\<close>.\<close>

lemma first_click_cuts_off_digest:
  "\<not> shouldSkipRoute (cfg_routing two_channels) ''digest.summary'' ''smtp'' [] [] []
   \<and> shouldSkipRoute (cfg_routing (setCell two_channels ''alert.created'' ''slack'' False)) ''digest.summary'' ''smtp'' [] [] []"
  using first_click_cuts_off [OF two_channels_facts(1,2,3) digest_has_no_row [OF two_channels_facts(1)]] by simp

subsection \<open>Rows\<close>

text \<open>The filters of a row: setting one changes all its routes and no other row.\<close>

lemma row_edit_route:
  assumes "row \<in> set (eventTypes config)" "\<And>r. nr_eventType (f r) = nr_eventType r" "\<And>r. nr_channel (f r) = nr_channel r"
  shows "List.find (is_route ev ch) (map (\<lambda>r. if nr_eventType r = row then f r else r) (withRow config row))
    = map_option (\<lambda>r. if ev = row then f r else r) (row_cell config row ev ch)"
proof -
  have "List.find (is_route ev ch) (map (\<lambda>r. if nr_eventType r = row then f r else r) (withRow config row))
      = map_option (\<lambda>r. if nr_eventType r = row then f r else r) (row_cell config row ev ch)"
    by (subst find_map) (simp_all add: is_route_def assms withRow_cell [OF assms(1)])
  also have "\<dots> = map_option (\<lambda>r. if ev = row then f r else r) (row_cell config row ev ch)"
    by (rule option.map_cong0) (auto dest: row_cell_is simp: is_route_def)
  finally show ?thesis .
qed

lemma severity_of_row:
  assumes "row \<in> set (eventTypes config)"
  shows "List.find (is_route ev ch) (cfg_routing (setRowSeverity config row sev))
    = map_option (\<lambda>r. if ev = row then r\<lparr>nr_minSeverity := Some sev\<rparr> else r) (row_cell config row ev ch)"
  unfolding setRowSeverity_def by (simp add: row_edit_route [OF assms])

lemma category_of_row:
  assumes "row \<in> set (eventTypes config)"
  shows "List.find (is_route ev ch) (cfg_routing (setRowConnectorCategory config row cat))
    = map_option (\<lambda>r. if ev = row then r\<lparr>nr_connectorCategory := (if cat = [] then None else Some cat)\<rparr> else r) (row_cell config row ev ch)"
  unfolding setRowConnectorCategory_def by (simp add: row_edit_route [OF assms])

lemma connector_of_row:
  assumes "row \<in> set (eventTypes config)"
  shows "List.find (is_route ev ch) (cfg_routing (setRowConnectorId config row conn))
    = map_option (\<lambda>r. if ev = row then r\<lparr>nr_connectorId := (if conn = [] then None else Some conn)\<rparr> else r) (row_cell config row ev ch)"
  unfolding setRowConnectorId_def by (simp add: row_edit_route [OF assms])

text \<open>
  A cell without a route takes the severity of its row but not its filters: the row still shows the filter, and the new
  route delivers what the filter excludes.
\<close>

definition filtered_row :: notification_config where
  "filtered_row = two_channels\<lparr>cfg_routing := [\<lparr>nr_eventType = ''alert.created'', nr_channel = ''smtp'', nr_enabled = True,
     nr_minSeverity = Some ''info'', nr_connectorCategory = Some ''dns'', nr_connectorId = None\<rparr>]\<rparr>"

lemma new_cell_unfiltered:
  "rowConnectorCategory (setCell filtered_row ''alert.created'' ''slack'' True) ''alert.created'' = ''dns''
   \<and> \<not> shouldSkipRoute (cfg_routing (setCell filtered_row ''alert.created'' ''slack'' True)) ''alert.created'' ''slack'' ''info'' ''media'' []"
  by code_simp

end
