(* ===== verification/Notifications.thy ===== *)
theory Notifications
  imports Routing SeededForms
begin

text \<open>
  The notifications page (\<open>features/settings/NotificationsPage.tsx\<close>), a \<open>seeded_page\<close> whose edits are those of the channels, of
  Slack and of the routing matrix, and the handlers of the Go server behind it
  (\<open>backend/internal/api/settings/notifications.go\<close>). Secrets are write-only: the server keeps them encrypted and
  shows only that they are set. The lemmas say, for page and server together, which of them a save leaves alone.
  Encryption is a parameter.
\<close>

subsection \<open>The page\<close>

text \<open>Assigning a member keeps the place of one that exists, as in JavaScript.\<close>

definition put :: "string \<Rightarrow> json \<Rightarrow> (string \<times> json) list \<Rightarrow> (string \<times> json) list" where
  "put k v ms = (if k \<in> fst ` set ms then map (\<lambda>(k', v'). (k', if k' = k then v else v')) ms else ms @ [(k, v)])"

definition del :: "string \<Rightarrow> (string \<times> json) list \<Rightarrow> (string \<times> json) list" where
  "del k ms = filter (\<lambda>m. fst m \<noteq> k) ms"

text \<open>A member read as a text, where it is one.\<close>

definition text_of :: "(string \<times> json) list \<Rightarrow> string \<Rightarrow> string option" where
  "text_of ms k = (case map_of ms k of Some (JStr s) \<Rightarrow> Some s | _ \<Rightarrow> None)"

(* src features/settings/NotificationsPage.tsx 80-83 NotificationsPage *)
definition notif_toForm :: "notification_config \<Rightarrow> notification_config" where
  "notif_toForm data = \<lparr>cfg_channels = map (\<lambda>c. c) (cfg_channels data), cfg_routing = map (\<lambda>r. r) (cfg_routing data)\<rparr>"

(* src features/settings/NotificationsPage.tsx 113-116 setChannelEnabled *)
definition setChannelEnabled :: "string \<Rightarrow> bool \<Rightarrow> notification_config \<Rightarrow> notification_config" where
  "setChannelEnabled typ on d = d\<lparr>cfg_channels := map (\<lambda>c. if nc_type c = typ then c\<lparr>nc_enabled := on\<rparr> else c) (cfg_channels d)\<rparr>"

(* src features/settings/NotificationsPage.tsx 146-152 updateSlackConfig *)
definition updateSlackConfig :: "(string \<times> json) list \<Rightarrow> notification_config \<Rightarrow> notification_config" where
  "updateSlackConfig patch d = d\<lparr>cfg_channels := map (\<lambda>c. if nc_type c = ''slack''
     then c\<lparr>nc_config := Some (fold (\<lambda>(k, v). put k v) patch (from_opt [] (nc_config c)))\<rparr> else c) (cfg_channels d)\<rparr>"

datatype notif_change = Enable_channel string bool | Type_channelId string | Type_botToken string | Clear_token
  | Click_cell string string bool | Pick_severity string string | Pick_category string string | Pick_connector string string

(* src features/settings/NotificationsPage.tsx 128-235 NotificationsPage *)
fun notif_edit :: "notif_change \<Rightarrow> notification_config \<Rightarrow> notification_config" where
  "notif_edit (Enable_channel typ on) d = setChannelEnabled typ on d"
| "notif_edit (Type_channelId v) d = updateSlackConfig [(''channelId'', JStr v)] d"
| "notif_edit (Type_botToken v) d = updateSlackConfig [(''botToken'', JStr v)] d"
| "notif_edit Clear_token d = updateSlackConfig [(''botToken'', JStr []), (''channelId'', JStr []), (''botTokenSet'', JBool False)] d"
| "notif_edit (Click_cell row channel on) d = setCell d row channel on"
| "notif_edit (Pick_severity row v) d = setRowSeverity d row v"
| "notif_edit (Pick_category row v) d = setRowConnectorCategory d row v"
| "notif_edit (Pick_connector row v) d = setRowConnectorId d row v"

(* src features/settings/NotificationsPage.tsx 69-118 NotificationsPage *)
definition notif_page :: "(notification_config, notification_config, notif_change, notification_config) seeded_page" where
  "notif_page = \<lparr>pg_toForm = notif_toForm, pg_edit = notif_edit, pg_body = (\<lambda>d. d), pg_canSave = (\<lambda>data d. d \<noteq> data), pg_hides = True\<rparr>"

subsection \<open>The server\<close>

definition writeOnlyChannelFields :: "(string \<times> string) list" where
  "writeOnlyChannelFields = [(''secret'', ''signing-secret''), (''botToken'', ''slack-bot-token'')]"

definition encrypted_key :: "string \<Rightarrow> string" where "encrypted_key name = name @ ''Encrypted''"
definition set_key :: "string \<Rightarrow> string" where "set_key name = name @ ''Set''"

(* src /backend/internal/api/settings/notifications.go 62-69 GetNotificationsConfig *)
definition hide_field :: "string \<Rightarrow> (string \<times> json) list \<Rightarrow> (string \<times> json) list" where
  "hide_field name conf = del name (del (encrypted_key name)
     (if from_opt [] (text_of conf (encrypted_key name)) \<noteq> [] then put (set_key name) (JBool True) conf else conf))"

(* src /backend/internal/api/settings/notifications.go 55-72 GetNotificationsConfig *)
definition served_config :: "notification_config \<Rightarrow> notification_config" where
  "served_config stored = stored\<lparr>cfg_channels := map (\<lambda>c. c\<lparr>nc_config :=
     map_option (fold (\<lambda>(name, label). hide_field name) writeOnlyChannelFields) (nc_config c)\<rparr>) (cfg_channels stored)\<rparr>"

(* src /backend/internal/api/settings/notifications.go 77-86 applyChannelSecrets *)
definition prev_secret :: "notification_config \<Rightarrow> string \<Rightarrow> string \<Rightarrow> string" where
  "prev_secret stored typ name = fold (\<lambda>c prev. case nc_config c of None \<Rightarrow> prev
     | Some conf \<Rightarrow> if nc_type c = typ then from_opt [] (text_of conf (encrypted_key name)) else prev) (cfg_channels stored) []"

definition go_space :: "char \<Rightarrow> bool" where
  "go_space c \<longleftrightarrow> 9 \<le> code_of c \<and> code_of c \<le> 13 \<or> code_of c = 32 \<or> code_of c = 160"

definition TrimSpace :: "string \<Rightarrow> string" where
  "TrimSpace s = rev (dropWhile go_space (rev (dropWhile go_space s)))"

(* src /backend/internal/api/settings/notifications.go 94-120 applyChannelSecrets *)
definition apply_secret :: "(string \<Rightarrow> string \<Rightarrow> string option) \<Rightarrow> (string \<Rightarrow> string) \<Rightarrow> string \<times> string
    \<Rightarrow> (string \<times> json) list \<Rightarrow> (string \<times> json) list option" where
  "apply_secret enc prev field conf = (case field of (name, label) \<Rightarrow>
     let bare = del (encrypted_key name) (del (set_key name) conf);
         clean = del name bare
     in case text_of bare name of
          None \<Rightarrow> Some (if prev name \<noteq> [] then put (encrypted_key name) (JStr (prev name)) clean else clean)
        | Some typed \<Rightarrow>
            let secret = (if name = ''botToken'' then TrimSpace typed else typed)
            in if secret \<noteq> [] then map_option (\<lambda>e. put (encrypted_key name) (JStr e) clean) (enc label secret) else Some clean)"

(* src /backend/internal/api/settings/notifications.go 76-123 applyChannelSecrets *)
definition applyChannelSecrets :: "(string \<Rightarrow> string \<Rightarrow> string option) \<Rightarrow> notification_config \<Rightarrow> notification_channel
    \<Rightarrow> notification_channel option" where
  "applyChannelSecrets enc stored c = (case nc_config c of None \<Rightarrow> Some c
     | Some conf \<Rightarrow> map_option (\<lambda>conf'. c\<lparr>nc_config := Some conf'\<rparr>)
         (fold (\<lambda>field conf. Option.bind conf (apply_secret enc (prev_secret stored (nc_type c)) field)) writeOnlyChannelFields (Some conf)))"

(* src /backend/internal/api/settings/notifications.go 159-184 validateSlackChannelConfigs *)
definition valid_slack :: "notification_channel \<Rightarrow> bool" where
  "valid_slack c = (if nc_type c \<noteq> ''slack'' then True
     else case nc_config c of None \<Rightarrow> True
     | Some conf \<Rightarrow>
         let typed = from_opt [] (text_of conf ''botToken'');
             token = (if typed = [] then from_opt [] (text_of conf ''botTokenEncrypted'') else typed);
             channelID = from_opt [] (text_of conf ''channelId'')
         in (token = []) = (channelID = [])
           \<and> (channelID \<noteq> [] \<longrightarrow> list_all (\<lambda>ch. is_digit ch \<or> in_range CHR ''A'' CHR ''Z'' ch) channelID))"

datatype notif_refusal = Bad_key | Bad_slack

fun all_some :: "'a option list \<Rightarrow> 'a list option" where
  "all_some [] = Some []"
| "all_some (None # xs) = None"
| "all_some (Some x # xs) = map_option (\<lambda>ys. x # ys) (all_some xs)"

(* src /backend/internal/api/settings/notifications.go 126-157 UpdateNotificationsConfig *)
definition update_notifications :: "(string \<Rightarrow> string \<Rightarrow> string option) \<Rightarrow> notification_config \<Rightarrow> notification_config
    \<Rightarrow> notif_refusal + notification_config" where
  "update_notifications enc stored cfg = (case all_some (map (applyChannelSecrets enc stored) (cfg_channels cfg)) of
       None \<Rightarrow> Inl Bad_key
     | Some channels \<Rightarrow> if list_all valid_slack channels then Inr (cfg\<lparr>cfg_channels := channels\<rparr>) else Inl Bad_slack)"

subsection \<open>Members\<close>

lemma map_of_replaced: "map_of (map (\<lambda>(k', v'). (k', if k' = k then v else v')) ms) j
    = (if j = k then map_option (\<lambda>_. v) (map_of ms j) else map_of ms j)"
  by (induction ms) (auto split: prod.split)

lemma map_of_put: "map_of (put k v ms) j = (if j = k then Some v else map_of ms j)"
proof (cases "map_of ms k")
  case None
  then have "k \<notin> fst ` set ms" by (simp add: map_of_eq_None_iff)
  with None show ?thesis by (simp add: put_def map_add_def split: option.split)
next
  case (Some w)
  then have "k \<in> fst ` set ms" using map_of_eq_None_iff [of ms k] by simp
  with Some show ?thesis by (simp add: put_def map_of_replaced)
qed

lemma map_of_del: "map_of (del k ms) j = (if j = k then None else map_of ms j)"
  by (induction ms) (auto simp: del_def)

lemma text_of_put: "text_of (put k v ms) j = (if j = k then (case v of JStr s \<Rightarrow> Some s | _ \<Rightarrow> None) else text_of ms j)"
  by (auto simp: text_of_def map_of_put split: json.split)

lemma text_of_del: "text_of (del k ms) j = (if j = k then None else text_of ms j)"
  by (simp add: text_of_def map_of_del)

lemma text_of_nil [simp]: "text_of [] j = None"
  by (simp add: text_of_def)

lemmas member_simps = text_of_put text_of_del encrypted_key_def set_key_def

subsection \<open>Secrets\<close>

text \<open>The stored secret of a channel.\<close>

definition secret_of :: "notification_channel \<Rightarrow> string \<Rightarrow> string" where
  "secret_of c name = from_opt [] (text_of (from_opt [] (nc_config c)) (encrypted_key name))"

definition plain :: "notification_channel \<Rightarrow> string \<Rightarrow> string option" where
  "plain c name = text_of (from_opt [] (nc_config c)) name"

lemma prev_secret_one:
  assumes "distinct (map nc_type (cfg_channels stored))" "c \<in> set (cfg_channels stored)"
  shows "prev_secret stored (nc_type c) name = secret_of c name"
proof -
  define f where "f = (\<lambda>(d :: notification_channel) prev. case nc_config d of None \<Rightarrow> prev
     | Some conf \<Rightarrow> if nc_type d = nc_type c then from_opt [] (text_of conf (encrypted_key name)) else prev)"
  have other: "fold f ds prev = prev" if "nc_type c \<notin> nc_type ` set ds" for ds prev
    using that by (induction ds) (auto simp: f_def split: option.split)
  obtain before after where split: "cfg_channels stored = before @ c # after" using assms(2) by (meson split_list)
  then have "nc_type c \<notin> nc_type ` set before" "nc_type c \<notin> nc_type ` set after" using assms(1) by auto
  then have "fold f (cfg_channels stored) [] = secret_of c name"
    by (simp add: split other) (simp add: f_def secret_of_def split: option.split)
  then show ?thesis by (simp add: prev_secret_def f_def)
qed

lemma secret_applied:
  assumes "apply_secret enc prev (name, label) conf = Some conf'" "encrypted_key name \<noteq> name" "set_key name \<noteq> name"
  shows "text_of conf' name = None"
    "text_of conf name = None \<Longrightarrow> from_opt [] (text_of conf' (encrypted_key name)) = prev name"
    "j \<notin> {name, encrypted_key name, set_key name} \<Longrightarrow> text_of conf' j = text_of conf j"
  using assms by (auto simp: apply_secret_def Let_def text_of_put text_of_del split: option.splits if_splits)

text \<open>What a save leaves of the two secrets of a channel, and that no plain one is stored.\<close>

lemma secrets_applied:
  assumes "applyChannelSecrets enc stored c = Some c'"
  shows "nc_type c' = nc_type c" "nc_config c' = None \<longleftrightarrow> nc_config c = None" "plain c' ''secret'' = None" "plain c' ''botToken'' = None"
    "nc_config c \<noteq> None \<Longrightarrow> plain c ''secret'' = None \<Longrightarrow> secret_of c' ''secret'' = prev_secret stored (nc_type c) ''secret''"
    "nc_config c \<noteq> None \<Longrightarrow> plain c ''botToken'' = None \<Longrightarrow> secret_of c' ''botToken'' = prev_secret stored (nc_type c) ''botToken''"
proof -
  let ?prev = "prev_secret stored (nc_type c)"
  consider "nc_config c = None" "c' = c"
    | conf conf1 conf2 where "nc_config c = Some conf" "c' = c\<lparr>nc_config := Some conf2\<rparr>"
        "apply_secret enc ?prev (''secret'', ''signing-secret'') conf = Some conf1" "apply_secret enc ?prev (''botToken'', ''slack-bot-token'') conf1 = Some conf2"
  proof (cases "nc_config c")
    case None
    then have "c' = c" using assms by (simp add: applyChannelSecrets_def)
    with None show ?thesis by (intro that(1))
  next
    case (Some conf)
    then have "map_option (\<lambda>conf'. c\<lparr>nc_config := Some conf'\<rparr>)
        (Option.bind (apply_secret enc ?prev (''secret'', ''signing-secret'') conf) (apply_secret enc ?prev (''botToken'', ''slack-bot-token''))) = Some c'"
      using assms by (simp add: applyChannelSecrets_def writeOnlyChannelFields_def)
    then obtain conf1 conf2 where "apply_secret enc ?prev (''secret'', ''signing-secret'') conf = Some conf1"
      "apply_secret enc ?prev (''botToken'', ''slack-bot-token'') conf1 = Some conf2" "c' = c\<lparr>nc_config := Some conf2\<rparr>"
      unfolding map_option_eq_Some bind_eq_Some_conv by blast
    with Some show ?thesis by (intro that(2))
  qed
  then have "nc_type c' = nc_type c \<and> (nc_config c' = None \<longleftrightarrow> nc_config c = None) \<and> plain c' ''secret'' = None \<and> plain c' ''botToken'' = None
    \<and> (nc_config c \<noteq> None \<longrightarrow> plain c ''secret'' = None \<longrightarrow> secret_of c' ''secret'' = ?prev ''secret'')
    \<and> (nc_config c \<noteq> None \<longrightarrow> plain c ''botToken'' = None \<longrightarrow> secret_of c' ''botToken'' = ?prev ''botToken'')"
  proof cases
    case 1
    then show ?thesis by (simp add: plain_def)
  next
    case 2
    note one = secret_applied [OF 2(3), unfolded encrypted_key_def set_key_def, simplified]
    note two = secret_applied [OF 2(4), unfolded encrypted_key_def set_key_def, simplified]
    have "text_of conf2 ''secret'' = None" "text_of conf2 ''botToken'' = None" "text_of conf1 ''botToken'' = text_of conf ''botToken''"
      "text_of conf2 ''secretEncrypted'' = text_of conf1 ''secretEncrypted''"
      using one two(1) two(3) [of "''secret''"] two(3) [of "''secretEncrypted''"] by simp_all
    with 2(1,2) one(2) two(2) show ?thesis by (simp add: plain_def secret_of_def encrypted_key_def)
  qed
  then show "nc_type c' = nc_type c" "nc_config c' = None \<longleftrightarrow> nc_config c = None" "plain c' ''secret'' = None" "plain c' ''botToken'' = None"
    "nc_config c \<noteq> None \<Longrightarrow> plain c ''secret'' = None \<Longrightarrow> secret_of c' ''secret'' = ?prev ''secret''"
    "nc_config c \<noteq> None \<Longrightarrow> plain c ''botToken'' = None \<Longrightarrow> secret_of c' ''botToken'' = ?prev ''botToken''" by blast+
qed

lemma all_some_Some: "all_some (map f xs) = Some ys \<longleftrightarrow> list_all2 (\<lambda>x y. f x = Some y) xs ys"
proof (induction xs arbitrary: ys)
  case (Cons x xs)
  then show ?case by (cases "f x"; cases ys) (auto simp: list_all2_Cons1)
qed auto

text \<open>
  What the form holds of a channel that was served: its secrets are not there, and only a typed or cleared token is, at Slack.
\<close>

definition form_of :: "bool \<Rightarrow> notification_channel \<Rightarrow> notification_channel \<Rightarrow> bool" where
  "form_of token c d \<longleftrightarrow> nc_type d = nc_type c \<and> (nc_config d = None \<longrightarrow> nc_config c = None) \<and> plain d ''secret'' = None
     \<and> (nc_type c = ''slack'' \<and> token \<or> plain d ''botToken'' = None)"

definition sets_token :: "notif_change \<Rightarrow> bool" where
  "sets_token e = (case e of Type_botToken v \<Rightarrow> True | Clear_token \<Rightarrow> True | _ \<Rightarrow> False)"

lemma served_form: "list_all2 (form_of token) (cfg_channels stored) (cfg_channels (served_config stored))"
proof -
  have "form_of token c (c\<lparr>nc_config := map_option (fold (\<lambda>(name, label). hide_field name) writeOnlyChannelFields) (nc_config c)\<rparr>)" for c
    by (cases "nc_config c") (simp_all add: form_of_def plain_def writeOnlyChannelFields_def hide_field_def member_simps)
  then show ?thesis by (simp add: list_all2_conv_all_nth served_config_def)
qed

lemma table_channels [simp]: "cfg_channels (setCell d row ch on) = cfg_channels d" "cfg_channels (setRowSeverity d row v) = cfg_channels d"
  "cfg_channels (setRowConnectorCategory d row v) = cfg_channels d" "cfg_channels (setRowConnectorId d row v) = cfg_channels d"
  by (simp_all add: setCell_def setRowSeverity_def setRowConnectorCategory_def setRowConnectorId_def)

lemma list_all2_map_kept: "list_all2 R xs ys \<Longrightarrow> (\<And>x y. R x y \<Longrightarrow> R x (f y)) \<Longrightarrow> list_all2 R xs (map f ys)"
  by (auto simp: list_all2_conv_all_nth)

lemma edit_form_of: "list_all2 (form_of token) cs (cfg_channels d) \<Longrightarrow> token \<or> \<not> sets_token e
    \<Longrightarrow> list_all2 (form_of token) cs (cfg_channels (notif_edit e d))"
  by (cases e) (auto simp: setChannelEnabled_def updateSlackConfig_def sets_token_def form_of_def plain_def member_simps
    split: option.splits intro!: list_all2_map_kept)

definition of_served :: "bool \<Rightarrow> notification_config \<Rightarrow> notification_config \<Rightarrow> bool" where
  "of_served token stored d \<longleftrightarrow> list_all2 (form_of token) (cfg_channels stored) (cfg_channels d)"

interpretation notif: kept_page notif_page "\<lambda>a. a = served_config stored" "\<lambda>e. token \<or> \<not> sets_token e" "of_served token stored" "of_served token stored"
  by unfold_locales (simp_all add: notif_page_def notif_toForm_def of_served_def served_form edit_form_of)

interpretation notif_clean: clean_page notif_page
  by unfold_locales (simp add: notif_page_def notif_toForm_def)

lemma list_all2_chain: "list_all2 R xs ys \<Longrightarrow> list_all2 S ys zs \<Longrightarrow> (\<And>x y z. x \<in> set xs \<Longrightarrow> R x y \<Longrightarrow> S y z \<Longrightarrow> T x z)
    \<Longrightarrow> list_all2 T xs zs"
  by (induction xs ys arbitrary: zs rule: list_all2_induct) (auto simp: list_all2_Cons1)

lemma stored_secrets:
  assumes "distinct (map nc_type (cfg_channels stored))" "of_served token stored b" "update_notifications enc stored b = Inr stored'"
  shows "list_all2 (\<lambda>c c'. nc_type c' = nc_type c \<and> secret_of c' ''secret'' = secret_of c ''secret''
      \<and> (nc_type c = ''slack'' \<and> token \<or> secret_of c' ''botToken'' = secret_of c ''botToken'')
      \<and> plain c' ''secret'' = None \<and> plain c' ''botToken'' = None)
    (cfg_channels stored) (cfg_channels stored')"
proof -
  from assms(3) have applied: "list_all2 (\<lambda>d c'. applyChannelSecrets enc stored d = Some c') (cfg_channels b) (cfg_channels stored')"
    by (auto simp: update_notifications_def all_some_Some split: option.splits if_splits)
  have each: "nc_type c' = nc_type c \<and> secret_of c' ''secret'' = secret_of c ''secret''
      \<and> (nc_type c = ''slack'' \<and> token \<or> secret_of c' ''botToken'' = secret_of c ''botToken'')
      \<and> plain c' ''secret'' = None \<and> plain c' ''botToken'' = None"
    if "c \<in> set (cfg_channels stored)" "form_of token c d" "applyChannelSecrets enc stored d = Some c'" for c d c'
  proof (cases "nc_config d")
    case None
    with that(2,3) secrets_applied(1-4) [OF that(3)] show ?thesis by (auto simp: form_of_def secret_of_def)
  next
    case (Some conf)
    with that(2) secrets_applied [OF that(3)] prev_secret_one [OF assms(1) that(1)] show ?thesis by (auto simp: form_of_def)
  qed
  show ?thesis by (rule list_all2_chain [OF assms(2) [unfolded of_served_def] applied]) (rule each)
qed

text \<open>
  Claim C25. Page and server together: a save from the page leaves the signing secret of every channel as it is stored, and the bot token of
  every channel too unless the user has typed or cleared it (at Slack only); it never stores a secret in plain
  text, and neither adds, drops nor reorders channels.
\<close>

theorem secrets_kept:
  assumes "distinct (map nc_type (cfg_channels stored))"
    and "list_all (good_event (\<lambda>a. a = served_config stored) (\<lambda>e. token \<or> \<not> sets_token e)) evs"
    and "b \<in> set (sf_sent (fold (seeded_step notif_page) evs form_start))"
    and "update_notifications enc stored b = Inr stored'"
  shows "list_all2 (\<lambda>c c'. nc_type c' = nc_type c \<and> secret_of c' ''secret'' = secret_of c ''secret''
      \<and> (nc_type c = ''slack'' \<and> token \<or> secret_of c' ''botToken'' = secret_of c ''botToken'')
      \<and> plain c' ''secret'' = None \<and> plain c' ''botToken'' = None)
    (cfg_channels stored) (cfg_channels stored')"
  using notif.good_sent [OF assms(2)] assms(3) by (intro stored_secrets [OF assms(1) _ assms(4)]) (simp add: list_all_iff)

definition slack_stored :: notification_config where
  "slack_stored = \<lparr>cfg_channels = [\<lparr>nc_type = ''slack'', nc_enabled = False, nc_config = Some [(''botTokenEncrypted'', JStr ''x''), (''channelId'', JStr ''C1'')]\<rparr>],
     cfg_routing = []\<rparr>"

lemma slack_served: "served_config slack_stored = slack_stored\<lparr>cfg_channels := [\<lparr>nc_type = ''slack'', nc_enabled = False,
    nc_config = Some [(''channelId'', JStr ''C1''), (''botTokenSet'', JBool True)]\<rparr>]\<rparr>"
  by (simp add: served_config_def slack_stored_def hide_field_def writeOnlyChannelFields_def member_simps put_def del_def) (simp add: text_of_def)

definition slack_enabled :: notification_config where
  "slack_enabled = slack_stored\<lparr>cfg_channels := [\<lparr>nc_type = ''slack'', nc_enabled = True,
     nc_config = Some [(''channelId'', JStr ''C1''), (''botTokenSet'', JBool True)]\<rparr>]\<rparr>"

lemma slack_sent: "sf_sent (fold (seeded_step notif_page) [Read 0 (served_config slack_stored), Edit (Enable_channel ''slack'' True), Press_save] form_start)
    = [slack_enabled]"
  by (simp add: form_defs notif_page_def notif_toForm_def setChannelEnabled_def slack_served) (simp add: slack_enabled_def slack_stored_def)

lemma slack_saved: "update_notifications (\<lambda>_ s. Some s) slack_stored slack_enabled = Inr (slack_stored\<lparr>cfg_channels := [\<lparr>nc_type = ''slack'',
    nc_enabled = True, nc_config = Some [(''channelId'', JStr ''C1''), (''botTokenEncrypted'', JStr ''x'')]\<rparr>]\<rparr>)"
  by code_simp

lemma secrets_kept_witness:
  "secret_of (hd (cfg_channels (projr (update_notifications (\<lambda>_ s. Some s) slack_stored slack_enabled)))) ''botToken'' = ''x''"
proof -
  let ?evs = "[Read 0 (served_config slack_stored), Edit (Enable_channel ''slack'' True), Press_save]"
  have "distinct (map nc_type (cfg_channels slack_stored))"
    "list_all (good_event (\<lambda>a. a = served_config slack_stored) (\<lambda>e. False \<or> \<not> sets_token e)) ?evs"
    "slack_enabled \<in> set (sf_sent (fold (seeded_step notif_page) ?evs form_start))"
    unfolding slack_sent by (simp_all add: slack_stored_def good_event_def sets_token_def)
  from secrets_kept [OF this slack_saved] show ?thesis
    by (simp add: slack_saved) (simp add: slack_stored_def secret_of_def text_of_def encrypted_key_def)
qed

end
