(* ===== verification/AiSettings.thy ===== *)
theory AiSettings
  imports SeededForms "HOL-Library.Multiset"
begin

text \<open>
  The AI page (\<open>features/settings/AiPage.tsx\<close>): the form of the primary provider with its write-only key, the
  connection test, and the ordered chain of fallback providers; with the handlers of the Go server that store them
  (\<open>backend/internal/api/settings/ai.go\<close>, \<open>ai_fallback.go\<close>, \<open>backend/internal/store/ai_config.go\<close>).
  The lemmas say what a save leaves in the store, in particular of the keys, which the page never reads.
  Encryption is a parameter.
\<close>

subsection \<open>The primary provider\<close>

text \<open>
  What the server answers holds the settings of the embeddings too; the type of the page does not name them, but a
  copy of the object carries them. A provider that is \<open>null\<close> or absent is \<^const>\<open>None\<close>.
\<close>

(* src api/model/aiConfig.ts 12-23 AiConfig *)
record ai_config =
  ac_enabled :: bool
  ac_provider :: "string option"
  ac_model :: "string option"
  ac_baseUrl :: "string option"
  ac_mode :: string
  ac_embedProvider :: string
  ac_embedModel :: string
  ac_embedBaseUrl :: string

datatype ai_change = Set_enabled bool | Pick_provider string | Type_model string | Type_baseUrl string | Pick_mode string

definition is_ollama :: "ai_config \<Rightarrow> bool" where
  "is_ollama form \<longleftrightarrow> ac_provider form = Some ''ollama''"

(* src features/settings/AiPage.tsx 73-148 AiPage *)
fun ai_set :: "ai_change \<Rightarrow> ai_config \<Rightarrow> ai_config" where
  "ai_set (Set_enabled on) f = f\<lparr>ac_enabled := on\<rparr>"
| "ai_set (Pick_provider v) f = (if ac_enabled f then f\<lparr>ac_provider := (if v = [] then None else Some v)\<rparr> else f)"
| "ai_set (Type_model v) f = (if ac_enabled f then f\<lparr>ac_model := Some v\<rparr> else f)"
| "ai_set (Type_baseUrl v) f = (if ac_enabled f \<and> is_ollama f then f\<lparr>ac_baseUrl := Some v\<rparr> else f)"
| "ai_set (Pick_mode v) f = (if ac_enabled f then f\<lparr>ac_mode := v\<rparr> else f)"

type_synonym ai_body = "ai_config \<times> string option"

(* src features/settings/AiPage.tsx 38-46 AiPage *)
definition ai_page :: "string \<Rightarrow> (ai_config, ai_config, ai_change, ai_body) seeded_page" where
  "ai_page apiKey = \<lparr>pg_toForm = (\<lambda>data. data), pg_edit = ai_set,
     pg_body = (\<lambda>body. (body, if apiKey \<noteq> [] then Some apiKey else None)), pg_canSave = (\<lambda>_ _. True), pg_hides = True\<rparr>"

(* src features/settings/AiPage.tsx 32-34 AiPage *)
record ai_state =
  ai_form :: "(ai_config, ai_config, ai_body) seeded_state"
  ai_apiKey :: string
  ai_testing :: bool
  ai_result :: "bool option"

datatype ai_event = Form "(ai_config, ai_change) form_event" | Type_key string | Press_test | Tested bool | Test_failed

definition ai_start :: ai_state where
  "ai_start = \<lparr>ai_form = form_start, ai_apiKey = [], ai_testing = False, ai_result = None\<rparr>"

definition shown_form :: "ai_state \<Rightarrow> ai_config option" where
  "shown_form st = (if form_visible (ai_page (ai_apiKey st)) (ai_form st) then sf_form (ai_form st) else None)"

(* src features/settings/AiPage.tsx 44-62 AiPage *)
fun ai_step :: "ai_event \<Rightarrow> ai_state \<Rightarrow> ai_state" where
  "ai_step (Form ev) st = st\<lparr>ai_form := seeded_step (ai_page (ai_apiKey st)) ev (ai_form st),
     ai_apiKey := (case ev of Saved _ \<Rightarrow> if sf_pending (ai_form st) then [] else ai_apiKey st | _ \<Rightarrow> ai_apiKey st)\<rparr>"
| "ai_step (Type_key v) st = (case shown_form st of
       Some f \<Rightarrow> if ac_enabled f \<and> \<not> is_ollama f then st\<lparr>ai_apiKey := v\<rparr> else st | None \<Rightarrow> st)"
| "ai_step Press_test st = (case shown_form st of
       Some f \<Rightarrow> if ac_enabled f \<and> \<not> ai_testing st then st\<lparr>ai_testing := True\<rparr> else st | None \<Rightarrow> st)"
| "ai_step (Tested ok) st = (if ai_testing st then st\<lparr>ai_testing := False, ai_result := Some ok\<rparr> else st)"
| "ai_step Test_failed st = st\<lparr>ai_testing := False\<rparr>"

subsection \<open>The server\<close>

(* src /backend/internal/store/ai_config.go 14-25 AIConfigRecord *)
record ai_record =
  ar_enabled :: bool
  ar_provider :: string
  ar_model :: string
  ar_baseUrl :: string
  ar_mode :: string
  ar_apiKeyEncrypted :: string
  ar_embedProvider :: string
  ar_embedModel :: string
  ar_embedBaseUrl :: string

text \<open>The embedding settings of the static configuration step in for those that are empty.\<close>

(* src /backend/internal/api/settings/ai.go 25-37 GetAIConfig *)
definition served_ai :: "string \<Rightarrow> string \<Rightarrow> ai_record \<Rightarrow> ai_config" where
  "served_ai confProvider confModel rec = \<lparr>ac_enabled = ar_enabled rec, ac_provider = Some (ar_provider rec),
     ac_model = Some (ar_model rec), ac_baseUrl = Some (ar_baseUrl rec), ac_mode = ar_mode rec,
     ac_embedProvider = (if ar_embedProvider rec = [] then confProvider else ar_embedProvider rec),
     ac_embedModel = (if ar_embedModel rec = [] then confModel else ar_embedModel rec), ac_embedBaseUrl = ar_embedBaseUrl rec\<rparr>"

(* src /backend/internal/api/settings/ai.go 59-106 UpdateAIConfig *)
definition update_ai :: "(string \<Rightarrow> string option) \<Rightarrow> ai_record \<Rightarrow> ai_body \<Rightarrow> ai_record option" where
  "update_ai enc rec b = (case b of (body, apiKey) \<Rightarrow>
     let write = (\<lambda>key. rec\<lparr>ar_enabled := ac_enabled body,
           ar_provider := from_opt (ar_provider rec) (ac_provider body), ar_model := from_opt (ar_model rec) (ac_model body),
           ar_baseUrl := from_opt (ar_baseUrl rec) (ac_baseUrl body), ar_mode := ac_mode body, ar_apiKeyEncrypted := key,
           ar_embedProvider := ac_embedProvider body, ar_embedModel := ac_embedModel body, ar_embedBaseUrl := ac_embedBaseUrl body\<rparr>)
     in case apiKey of None \<Rightarrow> Some (write (ar_apiKeyEncrypted rec)) | Some k \<Rightarrow> map_option write (enc k))"

subsection \<open>What a save stores\<close>

text \<open>A form that came from the server and the page's edits.\<close>

definition full_form :: "string \<times> string \<times> string \<Rightarrow> ai_config \<Rightarrow> bool" where
  "full_form emb f \<longleftrightarrow> ac_model f \<noteq> None \<and> ac_baseUrl f \<noteq> None \<and> (ac_embedProvider f, ac_embedModel f, ac_embedBaseUrl f) = emb"

definition full_body :: "string \<times> string \<times> string \<Rightarrow> ai_body \<Rightarrow> bool" where
  "full_body emb b \<longleftrightarrow> full_form emb (fst b) \<and> snd b \<noteq> Some []"

definition from_server :: "string \<times> string \<times> string \<Rightarrow> ai_config \<Rightarrow> bool" where
  "from_server emb a \<longleftrightarrow> (\<exists>confProvider confModel rec. a = served_ai confProvider confModel rec
     \<and> (ac_embedProvider a, ac_embedModel a, ac_embedBaseUrl a) = emb)"

lemma set_full: "full_form emb f \<Longrightarrow> full_form emb (ai_set e f)"
  by (cases e) (auto simp: full_form_def)

interpretation ai: kept_page "ai_page apiKey" "from_server emb" "\<lambda>_. True" "full_form emb" "full_body emb"
proof
  show "full_form emb (pg_toForm (ai_page apiKey) a)" if "from_server emb a" for a
    using that by (auto simp: ai_page_def from_server_def full_form_def served_ai_def)
qed (simp_all add: ai_page_def set_full full_body_def)

definition ai_possible :: "string \<times> string \<times> string \<Rightarrow> ai_event \<Rightarrow> bool" where
  "ai_possible emb ev = (case ev of Form e \<Rightarrow> good_event (from_server emb) (\<lambda>_. True) e | _ \<Rightarrow> True)"

interpretation ai_run: started_machine ai_step "ai_possible emb"
    "\<lambda>st. pred_option (full_form emb) (sf_form (ai_form st)) \<and> list_all (full_body emb) (sf_sent (ai_form st))" ai_start
proof
  fix s :: ai_state and e
  assume s: "pred_option (full_form emb) (sf_form (ai_form s)) \<and> list_all (full_body emb) (sf_sent (ai_form s))" and e: "ai_possible emb e"
  show "pred_option (full_form emb) (sf_form (ai_form (ai_step e s))) \<and> list_all (full_body emb) (sf_sent (ai_form (ai_step e s)))"
  proof (cases e)
    case (Form ev)
    with e have "good_event (from_server emb) (\<lambda>_. True) ev" by (simp add: ai_possible_def)
    from ai.kept.kept [OF s this] Form show ?thesis by simp
  qed (use s in \<open>auto split: option.split\<close>)
qed (simp add: ai_start_def form_start_def)

lemma full_update:
  assumes "full_body emb (f, key)"
  shows "update_ai enc rec (f, key) = map_option (\<lambda>k. \<lparr>ar_enabled = ac_enabled f,
      ar_provider = from_opt (ar_provider rec) (ac_provider f), ar_model = the (ac_model f), ar_baseUrl = the (ac_baseUrl f),
      ar_mode = ac_mode f, ar_apiKeyEncrypted = k, ar_embedProvider = fst emb, ar_embedModel = fst (snd emb), ar_embedBaseUrl = snd (snd emb)\<rparr>)
    (case key of None \<Rightarrow> Some (ar_apiKeyEncrypted rec) | Some k \<Rightarrow> if k = [] then None else enc k)"
  using assms by (cases emb; cases rec; cases key; cases "enc (the key)") (auto simp: full_body_def full_form_def update_ai_def Let_def)

text \<open>
  Claim C27. What a save of the AI page leaves in the store, whatever was typed before it: the form as it is shown, except that picking no
  provider keeps the stored one; the typed key, encrypted, or the stored one where none was typed; and the settings of the
  embeddings as they were read, which includes those the server had only taken from its static configuration.
\<close>

theorem ai_save_stores:
  assumes "list_all (ai_possible emb) evs" "(f, key) \<in> set (sf_sent (ai_form (fold ai_step evs ai_start)))"
  shows "update_ai enc rec (f, key) = map_option (\<lambda>k. \<lparr>ar_enabled = ac_enabled f,
      ar_provider = from_opt (ar_provider rec) (ac_provider f), ar_model = the (ac_model f), ar_baseUrl = the (ac_baseUrl f),
      ar_mode = ac_mode f, ar_apiKeyEncrypted = k, ar_embedProvider = fst emb, ar_embedModel = fst (snd emb), ar_embedBaseUrl = snd (snd emb)\<rparr>)
    (case key of None \<Rightarrow> Some (ar_apiKeyEncrypted rec) | Some k \<Rightarrow> if k = [] then None else enc k)"
  using ai_run.reachable [OF assms(1)] assms(2) by (intro full_update) (simp add: list_all_iff)

definition fresh_record :: ai_record where
  "fresh_record = \<lparr>ar_enabled = True, ar_provider = ''openai'', ar_model = ''m'', ar_baseUrl = [], ar_mode = ''suggest_only'',
     ar_apiKeyEncrypted = ''old'', ar_embedProvider = [], ar_embedModel = [], ar_embedBaseUrl = []\<rparr>"

lemma fresh_sent: "sf_sent (ai_form (fold ai_step [Form (Read 0 (served_ai ''ollama'' ''e5'' fresh_record)), Form (Edit (Pick_provider [])), Form Press_save] ai_start))
    = [((served_ai ''ollama'' ''e5'' fresh_record)\<lparr>ac_provider := None\<rparr>, None)]"
  by (simp add: ai_start_def form_defs ai_page_def served_ai_def fresh_record_def)

text \<open>Picking no provider and saving changes neither the provider nor the key, but fixes the embeddings of the configuration file.\<close>

lemma ai_save_stores_witness:
  "map_option (\<lambda>r. (ar_provider r, ar_apiKeyEncrypted r, ar_embedModel r))
     (update_ai Some fresh_record ((served_ai ''ollama'' ''e5'' fresh_record)\<lparr>ac_provider := None\<rparr>, None)) = Some (''openai'', ''old'', ''e5'')"
proof -
  let ?evs = "[Form (Read 0 (served_ai ''ollama'' ''e5'' fresh_record)), Form (Edit (Pick_provider [])), Form Press_save]"
  have "(ac_embedProvider (served_ai ''ollama'' ''e5'' fresh_record), ac_embedModel (served_ai ''ollama'' ''e5'' fresh_record),
      ac_embedBaseUrl (served_ai ''ollama'' ''e5'' fresh_record)) = (''ollama'', ''e5'', [])" by (simp add: served_ai_def fresh_record_def)
  then have server: "from_server (''ollama'', ''e5'', []) (served_ai ''ollama'' ''e5'' fresh_record)" unfolding from_server_def by blast
  have "list_all (ai_possible (''ollama'', ''e5'', [])) ?evs"
    using server by (simp add: ai_possible_def good_event_def)
  moreover have "((served_ai ''ollama'' ''e5'' fresh_record)\<lparr>ac_provider := None\<rparr>, None) \<in> set (sf_sent (ai_form (fold ai_step ?evs ai_start)))"
    unfolding fresh_sent by simp
  ultimately show ?thesis
    by (subst ai_save_stores [of "(''ollama'', ''e5'', [])" ?evs]) (simp_all add: fresh_record_def)
qed

text \<open>A key typed while a save is under way is dropped when it is answered.\<close>

lemma late_key_dropped:
  "sf_pending (ai_form st) \<Longrightarrow> ai_apiKey (fold ai_step [Type_key v, Form (Saved None)] st) = []"
  by (auto split: option.split)

text \<open>A key typed for one provider is still sent after the switch to Ollama, which hides its field.\<close>

lemma hidden_key_sent:
  "map snd (sf_sent (ai_form (fold ai_step [Form (Read 0 (served_ai [] [] fresh_record)), Type_key ''sk'', Form (Edit (Pick_provider ''ollama'')), Form Press_save] ai_start)))
   = [Some ''sk'']"
  by (simp add: ai_start_def form_defs ai_page_def served_ai_def fresh_record_def shown_form_def is_ollama_def)

subsection \<open>The fallback chain\<close>

(* src api/model/aiFallbackProvider.ts 14-21 AiFallbackProvider *)
record fallback_row =
  fb_provider :: string
  fb_model :: "string option"
  fb_apiKey :: "string option"
  fb_baseUrl :: "string option"

datatype chain_change = Row_provider nat string | Row_model nat string | Row_baseUrl nat string | Row_key nat string
  | Move_row nat bool | Remove_row nat | Add_row

(* src features/settings/AiPage.tsx 228-229 update *)
definition update_row :: "nat \<Rightarrow> (fallback_row \<Rightarrow> fallback_row) \<Rightarrow> fallback_row list \<Rightarrow> fallback_row list" where
  "update_row i patch r = (if i < length r then r[i := patch (r ! i)] else r)"

(* src features/settings/AiPage.tsx 230-238 move *)
definition move_row :: "nat \<Rightarrow> bool \<Rightarrow> 'a list \<Rightarrow> 'a list" where
  "move_row i down r = (let j = (if down then int i + 1 else int i - 1)
     in if j < 0 \<or> j \<ge> int (length r) then r else r[i := r ! nat j, nat j := r ! i])"

(* src features/settings/AiPage.tsx 266-316 FallbackProvidersSection *)
fun chain_edit :: "chain_change \<Rightarrow> fallback_row list \<Rightarrow> fallback_row list" where
  "chain_edit (Row_provider i v) r = update_row i (\<lambda>row. row\<lparr>fb_provider := v\<rparr>) r"
| "chain_edit (Row_model i v) r = update_row i (\<lambda>row. row\<lparr>fb_model := Some v\<rparr>) r"
| "chain_edit (Row_baseUrl i v) r = update_row i (\<lambda>row. row\<lparr>fb_baseUrl := Some v\<rparr>) r"
| "chain_edit (Row_key i v) r = update_row i (\<lambda>row. row\<lparr>fb_apiKey := Some v\<rparr>) r"
| "chain_edit (Move_row i down) r = (if i < length r then move_row i down r else r)"
| "chain_edit (Remove_row i) r = take i r @ drop (Suc i) r"
| "chain_edit Add_row r = r @ [\<lparr>fb_provider = ''openai'', fb_model = Some [], fb_apiKey = None, fb_baseUrl = None\<rparr>]"

(* src features/settings/AiPage.tsx 199-226 FallbackProvidersSection *)
definition chain_page :: "(fallback_row list, fallback_row list, chain_change, fallback_row list) seeded_page" where
  "chain_page = \<lparr>pg_toForm = map (\<lambda>p. p), pg_edit = chain_edit, pg_body = (\<lambda>rows. rows), pg_canSave = (\<lambda>_ _. True), pg_hides = True\<rparr>"

(* src /backend/internal/store/ai_config.go 108-113 AIFallbackProviderRecord *)
record fallback_record =
  fr_provider :: string
  fr_model :: string
  fr_apiKeyEncrypted :: string
  fr_baseUrl :: string

(* src /backend/internal/api/settings/ai_fallback.go 24-31 GetAIFallbackProviders *)
definition served_chain :: "fallback_record list \<Rightarrow> fallback_row list" where
  "served_chain stored = map (\<lambda>p. \<lparr>fb_provider = fr_provider p, fb_model = Some (fr_model p), fb_apiKey = None, fb_baseUrl = Some (fr_baseUrl p)\<rparr>) stored"

definition encrypt_row :: "(string \<Rightarrow> string option) \<Rightarrow> fallback_row \<Rightarrow> fallback_record option" where
  "encrypt_row enc p = (let key = from_opt [] (fb_apiKey p) in
     map_option (\<lambda>k. \<lparr>fr_provider = fb_provider p, fr_model = from_opt [] (fb_model p), fr_apiKeyEncrypted = k, fr_baseUrl = from_opt [] (fb_baseUrl p)\<rparr>)
       (if key \<noteq> [] then enc key else Some []))"

fun rows_all :: "'a option list \<Rightarrow> 'a list option" where
  "rows_all [] = Some []"
| "rows_all (x # xs) = (case x of None \<Rightarrow> None | Some y \<Rightarrow> map_option ((#) y) (rows_all xs))"

text \<open>The whole chain is replaced; nothing of the stored one is read.\<close>

(* src /backend/internal/api/settings/ai_fallback.go 35-79 UpdateAIFallbackProviders *)
definition replace_chain :: "(string \<Rightarrow> string option) \<Rightarrow> fallback_record list \<Rightarrow> fallback_row list \<Rightarrow> fallback_record list option" where
  "replace_chain enc stored req = (if list_ex (\<lambda>p. fb_provider p = []) req then None else rows_all (map (encrypt_row enc) req))"

definition types_key :: "chain_change \<Rightarrow> bool" where
  "types_key e = (case e of Row_key i v \<Rightarrow> True | _ \<Rightarrow> False)"

definition keyless :: "fallback_row list \<Rightarrow> bool" where
  "keyless r \<longleftrightarrow> list_all (\<lambda>p. fb_apiKey p = None) r"

lemma move_row_mset: "i < length r \<Longrightarrow> mset (move_row i down r) = mset r"
  by (auto simp: move_row_def Let_def nth_list_update mset_swap nat_less_iff)

lemma move_row_set: "i < length r \<Longrightarrow> set (move_row i down r) = set r"
  using move_row_mset mset_eq_setD by blast

lemma chain_keyless: "keyless r \<Longrightarrow> \<not> types_key e \<Longrightarrow> keyless (chain_edit e r)"
  by (cases e) (auto simp: keyless_def types_key_def update_row_def list_all_iff move_row_set dest!: set_update_subset_insert [THEN subsetD] in_set_takeD in_set_dropD)

interpretation chain: kept_page chain_page "\<lambda>a. \<exists>stored. a = served_chain stored" "\<lambda>e. \<not> types_key e" keyless keyless
proof
  show "keyless (pg_toForm chain_page a)" if "\<exists>stored. a = served_chain stored" for a
    using that by (auto simp: chain_page_def keyless_def served_chain_def list_all_iff)
qed (simp_all add: chain_page_def chain_keyless)

lemma keyless_replaced: "keyless req \<Longrightarrow> replace_chain enc stored req = Some stored' \<Longrightarrow>
    stored' = map (\<lambda>p. \<lparr>fr_provider = fb_provider p, fr_model = from_opt [] (fb_model p), fr_apiKeyEncrypted = [], fr_baseUrl = from_opt [] (fb_baseUrl p)\<rparr>) req"
proof -
  have "keyless req \<Longrightarrow> rows_all (map (encrypt_row enc) req) = Some (map (\<lambda>p. \<lparr>fr_provider = fb_provider p, fr_model = from_opt [] (fb_model p),
      fr_apiKeyEncrypted = [], fr_baseUrl = from_opt [] (fb_baseUrl p)\<rparr>) req)" for req
    by (induction req) (simp_all add: keyless_def encrypt_row_def Let_def)
  then show "keyless req \<Longrightarrow> replace_chain enc stored req = Some stored' \<Longrightarrow>
    stored' = map (\<lambda>p. \<lparr>fr_provider = fb_provider p, fr_model = from_opt [] (fb_model p), fr_apiKeyEncrypted = [], fr_baseUrl = from_opt [] (fb_baseUrl p)\<rparr>) req"
    by (simp add: replace_chain_def split: if_splits)
qed

text \<open>
  Claim C26. Saving the fallback chain without typing every key again erases the stored keys: the page never reads them, sends none, and the server replaces
  the whole chain. Providers, models and addresses are stored as shown and in the order shown.
\<close>

theorem chain_save_erases_keys:
  assumes "list_all (good_event (\<lambda>a. \<exists>stored. a = served_chain stored) (\<lambda>e. \<not> types_key e)) evs"
    and "req \<in> set (sf_sent (fold (seeded_step chain_page) evs form_start))" "replace_chain enc stored req = Some stored'"
  shows "list_all (\<lambda>p. fr_apiKeyEncrypted p = []) stored' \<and> map fr_provider stored' = map fb_provider req
    \<and> served_chain stored' = map (\<lambda>p. p\<lparr>fb_model := Some (from_opt [] (fb_model p)), fb_baseUrl := Some (from_opt [] (fb_baseUrl p))\<rparr>) req"
proof -
  have "keyless req" using chain.good_sent [OF assms(1)] assms(2) by (simp add: list_all_iff)
  from this keyless_replaced [OF this assms(3)] show ?thesis
    by (auto simp: list_all_iff served_chain_def keyless_def)
qed

definition two_fallbacks :: "fallback_record list" where
  "two_fallbacks = [\<lparr>fr_provider = ''openai'', fr_model = ''a'', fr_apiKeyEncrypted = ''k1'', fr_baseUrl = []\<rparr>,
     \<lparr>fr_provider = ''anthropic'', fr_model = ''b'', fr_apiKeyEncrypted = ''k2'', fr_baseUrl = []\<rparr>]"

lemma chain_save_erases_keys_witness:
  "list_all (\<lambda>p. fr_apiKeyEncrypted p = []) (the (replace_chain Some two_fallbacks (rev (served_chain two_fallbacks))))"
proof -
  let ?evs = "[Read 0 (served_chain two_fallbacks), Edit (Move_row 0 True), Press_save]"
  have "list_all (good_event (\<lambda>a. \<exists>stored. a = served_chain stored) (\<lambda>e. \<not> types_key e)) ?evs"
    by (auto simp: good_event_def types_key_def)
  moreover have "sf_sent (fold (seeded_step chain_page) ?evs form_start) = [rev (served_chain two_fallbacks)]"
    by (simp add: form_defs chain_page_def two_fallbacks_def served_chain_def move_row_def)
  moreover have "\<exists>s. replace_chain Some two_fallbacks (rev (served_chain two_fallbacks)) = Some s"
    by (simp add: replace_chain_def two_fallbacks_def served_chain_def encrypt_row_def)
  moreover from calculation(2) have "rev (served_chain two_fallbacks) \<in> set (sf_sent (fold (seeded_step chain_page) ?evs form_start))"
    by (simp only: list.set insert_iff simp_thms)
  ultimately obtain stored' where "replace_chain Some two_fallbacks (rev (served_chain two_fallbacks)) = Some stored'"
    and "list_all (\<lambda>p. fr_apiKeyEncrypted p = []) stored'" using chain_save_erases_keys [of ?evs "rev (served_chain two_fallbacks)" Some two_fallbacks] by blast
  then show ?thesis by (simp only: option.sel)
qed

subsection \<open>The fields of the keys\<close>

text \<open>
  The key fields are uncontrolled: the browser keeps their text, and the rows are keyed by their position, so a text stays at
  its position whatever row comes to stand there. The field of an address is controlled and shares the element.
\<close>

definition render_keys :: "fallback_row list \<Rightarrow> string list \<Rightarrow> string list" where
  "render_keys rows txts = map (\<lambda>i. if fb_provider (rows ! i) = ''ollama'' then from_opt [] (fb_baseUrl (rows ! i))
     else if i < length txts then txts ! i else []) [0..<length rows]"

(* src features/settings/AiPage.tsx 243-305 FallbackProvidersSection *)
definition view_edit :: "chain_change \<Rightarrow> fallback_row list \<times> string list \<Rightarrow> fallback_row list \<times> string list" where
  "view_edit e view = (case view of (rows, txts) \<Rightarrow>
     let rows' = chain_edit e rows; txts' = (case e of Row_key i v \<Rightarrow> txts[i := v] | _ \<Rightarrow> txts)
     in (rows', render_keys rows' txts'))"

text \<open>After a move the text typed for one row stands in the field of another.\<close>

lemma moved_key_shown_elsewhere:
  "map_prod (map fb_apiKey) (\<lambda>txts. txts) (fold view_edit [Row_key 0 ''k'', Move_row 0 True]
     (served_chain two_fallbacks, render_keys (served_chain two_fallbacks) [])) = ([None, Some ''k''], [''k'', []])"
  by code_simp

end
