(* ===== verification/SettingsForms.thy ===== *)
theory SettingsForms
  imports JsValues SeededForms
begin

text \<open>
  The other forms of the settings that are seeded from a query: token lifetimes and switches
  (\<open>features/settings/AuthPage.tsx\<close>, with the handler in \<open>backend/internal/api/settings/auth.go\<close>), the profile
  (\<open>ProfilePage.tsx\<close>) and the change of the password (\<open>ProfilePassword.tsx\<close>), and the schedule of the backups
  (\<open>SystemPage.tsx\<close>). The step-up that guards the requests of \<open>AuthPage\<close> is the subject of \<open>Elevation\<close>;
  here a request is what is asked for. Where a form treats a number or a time zone unlike its fellows, a lemma says so.
\<close>

subsection \<open>A number read back\<close>

lemma digits_free: "is_digit c \<Longrightarrow> \<not> is_ws c \<and> c \<noteq> CHR ''-'' \<and> c \<noteq> CHR ''+'' \<and> to_lower c = c \<and> c \<notin> {CHR ''x'', CHR ''o'', CHR ''b''}"
proof -
  assume c: "is_digit c"
  then have "48 \<le> code_of c" "code_of c \<le> 57" by (simp_all add: is_digit_code)
  then have "c \<in> char_of ` {48..57 :: nat}" by (auto simp: code_of_def intro!: image_eqI [of c char_of "of_char c"])
  moreover have "\<forall>c \<in> char_of ` {48..57 :: nat}. \<not> is_ws c \<and> c \<noteq> CHR ''-'' \<and> c \<noteq> CHR ''+'' \<and> to_lower c = c \<and> c \<notin> {CHR ''x'', CHR ''o'', CHR ''b''}"
    by code_simp
  ultimately show ?thesis by blast
qed

lemma trim_digits: "list_all is_digit s \<Longrightarrow> trim s = s"
proof -
  assume s: "list_all is_digit s"
  have none: "dropWhile is_ws w = w" if "list_all is_digit w" for w
    using that digits_free by (cases w) auto
  from s have "list_all is_digit (rev s)" by (simp add: list_all_iff)
  with s none show ?thesis by (simp add: trim_def trim_start_def trim_end_def)
qed

lemma js_number_digits:
  assumes "list_all is_digit s" "s \<noteq> []" "of_nat (nat_of_digits s) < (2 ^ 1024 - 2 ^ 970 :: rat)"
  shows "js_number s = Some (of_nat (nat_of_digits s))"
proof -
  have all: "takeWhile is_digit s = s" "dropWhile is_digit s = []" using assms(1) by (simp_all add: list_all_iff)
  then have plain: "unsigned_decimal s = Some (of_nat (nat_of_digits s))"
    using assms(2) by (simp add: unsigned_decimal_def starts_with_def exponent_of_def scale10_def Let_def all)
  have hd: "hd s \<noteq> CHR ''-''" "hd s \<noteq> CHR ''+''" using assms digits_free [of "hd s"] by (auto simp: list_all_iff)
  have "map to_lower (take 2 s) = take 2 s"
    using assms(1) digits_free by (intro map_idI) (auto simp: list_all_iff dest: in_set_takeD)
  moreover have "take 2 s \<noteq> [CHR ''0'', c]" if "c \<in> {CHR ''x'', CHR ''o'', CHR ''b''}" for c
    using assms(1) that digits_free [of c] by (cases s; cases "tl s") auto
  ultimately show ?thesis
    using assms hd plain trim_digits [OF assms(1)] by (simp add: js_number_def finite_number_def Let_def)
qed

lemma js_number_show: "n < 10 ^ 15 \<Longrightarrow> js_number (show_int (int n)) = Some (of_nat n)"
proof -
  assume n: "n < 10 ^ 15"
  have "(of_nat n :: rat) < of_nat (10 ^ 15)" using n by (simp only: of_nat_less_iff)
  also have "\<dots> < (2 ^ 1024 - 2 ^ 970 :: rat)" by simp
  finally have "js_number (show_nat n) = Some (of_nat n)"
    using js_number_digits [of "show_nat n"] show_nat_ok [of n] by simp
  then show ?thesis by (simp add: show_int_def)
qed

subsection \<open>Authentication\<close>

(* src api/model/authConfig.ts 12-24 AuthConfig *)
record auth_config =
  au_localEnabled :: bool
  au_accessTokenTtl :: int
  au_refreshTokenTtl :: int
  au_stepUp :: bool
  au_require2fa :: string
  au_oidcProviders :: "(string \<times> bool) list"

text \<open>What a request changes; of a number, \<^const>\<open>None\<close> inside is \<open>null\<close>.\<close>

record auth_body =
  ab_localEnabled :: "bool option"
  ab_stepUp :: "bool option"
  ab_require2fa :: "string option"
  ab_accessTokenTtl :: "rat option option"
  ab_refreshTokenTtl :: "rat option option"

definition no_change :: auth_body where
  "no_change = \<lparr>ab_localEnabled = None, ab_stepUp = None, ab_require2fa = None, ab_accessTokenTtl = None, ab_refreshTokenTtl = None\<rparr>"

(* src features/settings/AuthPage.tsx 27-33 humanizeSeconds *)
definition humanizeSeconds :: "(rat \<Rightarrow> string) \<Rightarrow> rat \<Rightarrow> string" where
  "humanizeSeconds num s = (let whole = (\<lambda>x. x = of_int \<lfloor>x\<rfloor>) in
     if whole (s / 86400) then num (s / 86400) @ '' d''
     else if whole (s / 3600) then num (s / 3600) @ '' h''
     else if whole (s / 60) then num (s / 60) @ '' min''
     else num s @ '' s'')"

datatype ttl_change = Access_ttl string | Refresh_ttl string

fun ttl_set :: "ttl_change \<Rightarrow> string \<times> string \<Rightarrow> string \<times> string" where
  "ttl_set (Access_ttl v) (a, r) = (v, r)"
| "ttl_set (Refresh_ttl v) (a, r) = (a, v)"

(* src features/settings/AuthPage.tsx 45-49 AuthPage *)
definition ttl_toForm :: "auth_config \<Rightarrow> string \<times> string" where
  "ttl_toForm data = (show_int (au_accessTokenTtl data), show_int (au_refreshTokenTtl data))"

(* src features/settings/AuthPage.tsx 87-88 ttlDirty *)
definition ttlDirty :: "auth_config \<Rightarrow> string \<times> string \<Rightarrow> bool" where
  "ttlDirty data f \<longleftrightarrow> js_number (fst f) \<noteq> Some (of_int (au_accessTokenTtl data)) \<or> js_number (snd f) \<noteq> Some (of_int (au_refreshTokenTtl data))"

(* src features/settings/AuthPage.tsx 170-181 AuthPage *)
definition ttl_page :: "(auth_config, string \<times> string, ttl_change, auth_body) seeded_page" where
  "ttl_page = \<lparr>pg_toForm = ttl_toForm, pg_edit = ttl_set,
     pg_body = (\<lambda>f. no_change\<lparr>ab_accessTokenTtl := Some (js_number (fst f)), ab_refreshTokenTtl := Some (js_number (snd f))\<rparr>),
     pg_canSave = ttlDirty, pg_hides = True\<rparr>"

(* src features/settings/AuthPage.tsx 53-76 AuthPage *)
record auth_page =
  ap_form :: "(auth_config, string \<times> string, auth_body) seeded_state"
  ap_toggling :: bool
  ap_toggled :: "(string \<times> bool) list"

datatype auth_event = Ttl "(auth_config, ttl_change) form_event" | Click_local | Click_stepUp | Pick_2fa string
  | Click_provider nat | Provider_answered

definition send_now :: "(auth_config \<Rightarrow> auth_body) \<Rightarrow> auth_page \<Rightarrow> auth_page" where
  "send_now body st = (case sf_data (ap_form st) of None \<Rightarrow> st
     | Some (r, data) \<Rightarrow> if \<not> sf_error (ap_form st) \<and> \<not> sf_pending (ap_form st)
         then st\<lparr>ap_form := (ap_form st)\<lparr>sf_pending := True, sf_sent := sf_sent (ap_form st) @ [body data]\<rparr>\<rparr> else st)"

(* src features/settings/AuthPage.tsx 97-140 AuthPage *)
fun auth_step :: "auth_event \<Rightarrow> auth_page \<Rightarrow> auth_page" where
  "auth_step (Ttl ev) st = st\<lparr>ap_form := seeded_step ttl_page ev (ap_form st)\<rparr>"
| "auth_step Click_local st = send_now (\<lambda>data. no_change\<lparr>ab_localEnabled := Some (\<not> au_localEnabled data)\<rparr>) st"
| "auth_step Click_stepUp st = send_now (\<lambda>data. no_change\<lparr>ab_stepUp := Some (\<not> au_stepUp data)\<rparr>) st"
| "auth_step (Pick_2fa v) st = send_now (\<lambda>data. no_change\<lparr>ab_require2fa := Some v\<rparr>) st"
| "auth_step (Click_provider i) st = (case sf_data (ap_form st) of None \<Rightarrow> st
     | Some (r, data) \<Rightarrow> if \<not> sf_error (ap_form st) \<and> \<not> ap_toggling st \<and> i < length (au_oidcProviders data)
         then st\<lparr>ap_toggling := True, ap_toggled := ap_toggled st @ [(fst (au_oidcProviders data ! i), \<not> snd (au_oidcProviders data ! i))]\<rparr> else st)"
| "auth_step Provider_answered st = st\<lparr>ap_toggling := False\<rparr>"

definition auth_start :: auth_page where
  "auth_start = \<lparr>ap_form = form_start, ap_toggling = False, ap_toggled = []\<rparr>"

text \<open>The server: a number is a positive whole one or the request is refused; \<open>null\<close> changes nothing.\<close>

datatype auth_refusal = Bad_json | Not_positive | Bad_policy | Nothing

definition read_ttl :: "rat option option \<Rightarrow> auth_refusal + int option" where
  "read_ttl n = (case n of None \<Rightarrow> Inr None | Some None \<Rightarrow> Inr None
     | Some (Some x) \<Rightarrow> if x \<noteq> of_int \<lfloor>x\<rfloor> \<or> x < - (2 ^ 63) \<or> x \<ge> 2 ^ 63 then Inl Bad_json
         else if x \<le> 0 then Inl Not_positive else Inr (Some \<lfloor>x\<rfloor>))"

definition bad_json :: "rat option option \<Rightarrow> bool" where
  "bad_json n \<longleftrightarrow> read_ttl n = Inl Bad_json"

(* src /backend/internal/api/settings/auth.go 52-103 UpdateAuthConfig *)
definition update_auth :: "auth_config \<Rightarrow> auth_body \<Rightarrow> auth_refusal + auth_config" where
  "update_auth rec b =
     (if bad_json (ab_accessTokenTtl b) \<or> bad_json (ab_refreshTokenTtl b) then Inl Bad_json
      else case (read_ttl (ab_accessTokenTtl b), read_ttl (ab_refreshTokenTtl b)) of
        (Inl e, _) \<Rightarrow> Inl e
      | (_, Inl e) \<Rightarrow> Inl e
      | (Inr access, Inr refresh) \<Rightarrow>
          if (case ab_require2fa b of None \<Rightarrow> False | Some p \<Rightarrow> p \<notin> {''none'', ''admins'', ''all''}) then Inl Bad_policy
          else if ab_localEnabled b = None \<and> access = None \<and> refresh = None \<and> ab_stepUp b = None \<and> ab_require2fa b = None then Inl Nothing
          else Inr (rec\<lparr>au_localEnabled := from_opt (au_localEnabled rec) (ab_localEnabled b),
            au_accessTokenTtl := from_opt (au_accessTokenTtl rec) access, au_refreshTokenTtl := from_opt (au_refreshTokenTtl rec) refresh,
            au_stepUp := from_opt (au_stepUp rec) (ab_stepUp b), au_require2fa := from_opt (au_require2fa rec) (ab_require2fa b)\<rparr>))"

text \<open>What a request of the page may change: the lifetimes together, or one switch, never both.\<close>

definition one_change :: "auth_body \<Rightarrow> bool" where
  "one_change b \<longleftrightarrow> (\<exists>a r. b = no_change\<lparr>ab_accessTokenTtl := Some a, ab_refreshTokenTtl := Some r\<rparr>)
     \<or> (\<exists>v. b = no_change\<lparr>ab_localEnabled := Some v\<rparr>) \<or> (\<exists>v. b = no_change\<lparr>ab_stepUp := Some v\<rparr>) \<or> (\<exists>v. b = no_change\<lparr>ab_require2fa := Some v\<rparr>)"

lemma one_changeI: "one_change (no_change\<lparr>ab_accessTokenTtl := Some a, ab_refreshTokenTtl := Some r\<rparr>)"
  "one_change (no_change\<lparr>ab_localEnabled := Some v\<rparr>)" "one_change (no_change\<lparr>ab_stepUp := Some v\<rparr>)" "one_change (no_change\<lparr>ab_require2fa := Some p\<rparr>)"
  unfolding one_change_def by blast+

interpretation ttl: valid_page ttl_page one_change
  by unfold_locales (auto simp: ttl_page_def one_change_def)

interpretation auth: started_machine auth_step "\<lambda>_. True" "\<lambda>st. list_all one_change (sf_sent (ap_form st))" auth_start
proof
  fix s :: auth_page and e
  assume s: "list_all one_change (sf_sent (ap_form s))"
  have now: "list_all one_change (sf_sent (ap_form (send_now body s)))" if "\<And>data. one_change (body data)" for body
    using s that by (auto simp: send_now_def split: option.split)
  show "list_all one_change (sf_sent (ap_form (auth_step e s)))"
    by (cases e) (use s in \<open>simp_all add: now one_changeI ttl.sent_ok_step split: option.split\<close>)
qed (simp add: auth_start_def form_start_def)

lemma read_ttl_positive: "read_ttl n = Inr (Some i) \<Longrightarrow> 0 < i"
  by (cases n; cases "the n") (auto simp: read_ttl_def split: if_splits)

lemma ttl_updated:
  assumes "update_auth rec (no_change\<lparr>ab_accessTokenTtl := Some a, ab_refreshTokenTtl := Some r\<rparr>) = Inr rec'"
  shows "\<exists>i j. rec' = rec\<lparr>au_accessTokenTtl := i, au_refreshTokenTtl := j\<rparr> \<and> (i = au_accessTokenTtl rec \<or> 0 < i) \<and> (j = au_refreshTokenTtl rec \<or> 0 < j)"
proof -
  obtain x y where read: "read_ttl (Some a) = Inr x" "read_ttl (Some r) = Inr y"
    using assms by (cases "read_ttl (Some a)"; cases "read_ttl (Some r)") (auto simp: update_auth_def no_change_def split: if_splits)
  then have "rec' = rec\<lparr>au_accessTokenTtl := from_opt (au_accessTokenTtl rec) x, au_refreshTokenTtl := from_opt (au_refreshTokenTtl rec) y\<rparr>"
    using assms by (simp add: update_auth_def no_change_def bad_json_def split: if_splits)
  moreover have "from_opt (au_accessTokenTtl rec) x = au_accessTokenTtl rec \<or> 0 < from_opt (au_accessTokenTtl rec) x"
    using read_ttl_positive [of "Some a"] read(1) by (cases x) simp_all
  moreover have "from_opt (au_refreshTokenTtl rec) y = au_refreshTokenTtl rec \<or> 0 < from_opt (au_refreshTokenTtl rec) y"
    using read_ttl_positive [of "Some r"] read(2) by (cases y) simp_all
  ultimately show ?thesis by blast
qed

lemma switch_updated:
  "update_auth rec (no_change\<lparr>ab_localEnabled := Some v\<rparr>) = Inr (rec\<lparr>au_localEnabled := v\<rparr>)"
  "update_auth rec (no_change\<lparr>ab_stepUp := Some v\<rparr>) = Inr (rec\<lparr>au_stepUp := v\<rparr>)"
  "update_auth rec (no_change\<lparr>ab_require2fa := Some p\<rparr>) = (if p \<in> {''none'', ''admins'', ''all''} then Inr (rec\<lparr>au_require2fa := p\<rparr>) else Inl Bad_policy)"
  by (simp_all add: update_auth_def no_change_def read_ttl_def bad_json_def)

text \<open>
  A request of the authentication page changes one thing, and a server that accepts it has changed that and nothing else: a
  switch leaves the lifetimes, the other switches and the providers as they are stored, and the lifetimes leave every switch.
\<close>

theorem auth_changes_one:
  assumes "b \<in> set (sf_sent (ap_form (fold auth_step evs auth_start)))" "update_auth rec b = Inr rec'"
  shows "(rec' = rec\<lparr>au_accessTokenTtl := au_accessTokenTtl rec', au_refreshTokenTtl := au_refreshTokenTtl rec'\<rparr>
      \<or> rec' = rec\<lparr>au_localEnabled := au_localEnabled rec'\<rparr> \<or> rec' = rec\<lparr>au_stepUp := au_stepUp rec'\<rparr>
      \<or> rec' = rec\<lparr>au_require2fa := au_require2fa rec'\<rparr>)
    \<and> (au_accessTokenTtl rec' = au_accessTokenTtl rec \<or> 0 < au_accessTokenTtl rec')
    \<and> (au_refreshTokenTtl rec' = au_refreshTokenTtl rec \<or> 0 < au_refreshTokenTtl rec')"
proof -
  have "one_change b" using auth.always [of evs] assms(1) by (simp add: list_all_iff)
  then consider a r where "b = no_change\<lparr>ab_accessTokenTtl := Some a, ab_refreshTokenTtl := Some r\<rparr>" | v where "b = no_change\<lparr>ab_localEnabled := Some v\<rparr>"
    | v where "b = no_change\<lparr>ab_stepUp := Some v\<rparr>" | p where "b = no_change\<lparr>ab_require2fa := Some p\<rparr>"
    unfolding one_change_def by blast
  then show ?thesis
  proof cases
    case 1
    from ttl_updated [OF assms(2) [unfolded 1]] show ?thesis by auto
  next
    case 2
    from assms(2) [unfolded 2 switch_updated] have "rec' = rec\<lparr>au_localEnabled := v\<rparr>" by simp
    then show ?thesis by simp
  next
    case 3
    from assms(2) [unfolded 3 switch_updated] have "rec' = rec\<lparr>au_stepUp := v\<rparr>" by simp
    then show ?thesis by simp
  next
    case 4
    from assms(2) [unfolded 4 switch_updated] have "rec' = rec\<lparr>au_require2fa := p\<rparr>" by (simp split: if_splits)
    then show ?thesis by simp
  qed
qed

definition auth_stored :: auth_config where
  "auth_stored = \<lparr>au_localEnabled = True, au_accessTokenTtl = 900, au_refreshTokenTtl = 86400, au_stepUp = True, au_require2fa = ''none'', au_oidcProviders = []\<rparr>"

lemma auth_changes_one_witness:
  "\<exists>rec'. update_auth auth_stored (no_change\<lparr>ab_localEnabled := Some False\<rparr>) = Inr rec' \<and> au_accessTokenTtl rec' = 900"
proof -
  have sent: "no_change\<lparr>ab_localEnabled := Some False\<rparr> \<in> set (sf_sent (ap_form (fold auth_step [Ttl (Read 0 auth_stored), Click_local] auth_start)))"
    by (simp add: auth_start_def form_defs send_now_def auth_stored_def)
  note r = switch_updated(1) [of auth_stored False]
  from auth_changes_one [OF sent r] r show ?thesis by (auto simp: auth_stored_def)
qed

text \<open>A lifetime that was typed but not saved is lost when a switch is used: its answer makes the page read again.\<close>

lemma switch_drops_ttl:
  assumes "sf_data (ap_form st) = Some (r, a)" "r' \<noteq> r"
  shows "sf_form (ap_form (fold auth_step [Ttl (Edit e), Click_local, Ttl (Saved None), Ttl (Read r' a')] st)) = Some (ttl_toForm a')"
  using assms by (simp add: form_defs send_now_def ttl_page_def)

text \<open>A blank lifetime is sent as zero, which the server refuses; nothing on the page says so beforehand.\<close>

lemma blank_ttl_refused:
  "js_number [] = Some 0"
  "update_auth rec (no_change\<lparr>ab_accessTokenTtl := Some (Some 0), ab_refreshTokenTtl := Some (Some 86400)\<rparr>) = Inl Not_positive"
  by (simp_all add: js_number_def trim_def trim_start_def trim_end_def update_auth_def bad_json_def read_ttl_def no_change_def)

lemma untouched_ttl_clean:
  assumes "0 \<le> au_accessTokenTtl data" "au_accessTokenTtl data < 10 ^ 15" "0 \<le> au_refreshTokenTtl data" "au_refreshTokenTtl data < 10 ^ 15"
  shows "\<not> ttlDirty data (ttl_toForm data)"
proof -
  have "js_number (show_int i) = Some (of_int i)" if "0 \<le> i" "i < 10 ^ 15" for i
    using js_number_show [of "nat i"] that by (simp add: nat_less_iff)
  with assms show ?thesis by (simp add: ttlDirty_def ttl_toForm_def)
qed

lemma humanized_exact:
  "humanizeSeconds num s = num (s / 86400) @ '' d'' \<or> humanizeSeconds num s = num (s / 3600) @ '' h''
   \<or> humanizeSeconds num s = num (s / 60) @ '' min'' \<or> humanizeSeconds num s = num s @ '' s''"
  by (simp add: humanizeSeconds_def Let_def)

subsection \<open>Profile\<close>

(* src api/model/user.ts 13-29 User *)
record me =
  me_displayName :: "string option"
  me_email :: "string option"
  me_digestCadence :: "string option"
  me_digestTimezone :: "string option"
  me_authSource :: string

(* src features/settings/ProfilePage.tsx 24-28 ProfilePage *)
record profile_form =
  pf_displayName :: string
  pf_email :: string
  pf_digestCadence :: string
  pf_digestTimezone :: string

(* src features/settings/ProfilePage.tsx 31-38 ProfilePage *)
definition profile_toForm :: "string \<Rightarrow> me \<Rightarrow> profile_form" where
  "profile_toForm browserZone m = \<lparr>pf_displayName = from_opt [] (me_displayName m), pf_email = from_opt [] (me_email m),
     pf_digestCadence = from_opt ''off'' (me_digestCadence m),
     pf_digestTimezone = (let z = from_opt [] (me_digestTimezone m) in if z \<noteq> [] then z else browserZone)\<rparr>"

datatype profile_change = Type_displayName string | Type_email string | Pick_cadence string | Type_timezone string

fun profile_set :: "profile_change \<Rightarrow> profile_form \<Rightarrow> profile_form" where
  "profile_set (Type_displayName v) f = f\<lparr>pf_displayName := v\<rparr>"
| "profile_set (Type_email v) f = f\<lparr>pf_email := v\<rparr>"
| "profile_set (Pick_cadence v) f = f\<lparr>pf_digestCadence := v\<rparr>"
| "profile_set (Type_timezone v) f = f\<lparr>pf_digestTimezone := v\<rparr>"

(* src features/settings/ProfilePage.tsx 50-55 dirty *)
definition profile_dirty :: "me \<Rightarrow> profile_form \<Rightarrow> bool" where
  "profile_dirty m f \<longleftrightarrow> pf_displayName f \<noteq> from_opt [] (me_displayName m) \<or> pf_email f \<noteq> from_opt [] (me_email m)
     \<or> pf_digestCadence f \<noteq> from_opt ''off'' (me_digestCadence m) \<or> pf_digestTimezone f \<noteq> from_opt [] (me_digestTimezone m)"

(* src features/settings/ProfilePage.tsx 40-47 ProfilePage *)
definition profile_page :: "string \<Rightarrow> (me, profile_form, profile_change, profile_form) seeded_page" where
  "profile_page browserZone = \<lparr>pg_toForm = profile_toForm browserZone, pg_edit = profile_set, pg_body = (\<lambda>f. f),
     pg_canSave = profile_dirty, pg_hides = False\<rparr>"

text \<open>An untouched profile can be saved exactly when no time zone is stored: the browser's is filled in and counts as a change.\<close>

lemma untouched_profile: "pg_canSave (profile_page browserZone) m (pg_toForm (profile_page browserZone) m)
    \<longleftrightarrow> from_opt [] (me_digestTimezone m) = [] \<and> browserZone \<noteq> []"
  by (auto simp: profile_page_def profile_toForm_def profile_dirty_def Let_def)

subsection \<open>Password\<close>

(* src features/settings/ProfilePassword.tsx 12-14 ChangePassword *)
record password_form =
  pw_current :: string
  pw_next :: string
  pw_confirm :: string
  pw_pending :: bool
  pw_sent :: "(string \<times> string) list"

datatype password_event = Type_current string | Type_next string | Type_confirm string | Press_change | Changed | Change_failed

(* src features/settings/ProfilePassword.tsx 27-27 mismatch *)
definition mismatch :: "password_form \<Rightarrow> bool" where
  "mismatch p \<longleftrightarrow> length (pw_next p) > 0 \<and> length (pw_confirm p) > 0 \<and> pw_next p \<noteq> pw_confirm p"

(* src features/settings/ProfilePassword.tsx 28-28 canSubmit *)
definition canSubmit :: "password_form \<Rightarrow> bool" where
  "canSubmit p \<longleftrightarrow> length (pw_current p) > 0 \<and> length (pw_next p) \<ge> 8 \<and> pw_next p = pw_confirm p \<and> \<not> pw_pending p"

(* src features/settings/ProfilePassword.tsx 16-40 ChangePassword *)
fun password_step :: "password_event \<Rightarrow> password_form \<Rightarrow> password_form" where
  "password_step (Type_current v) p = p\<lparr>pw_current := v\<rparr>"
| "password_step (Type_next v) p = p\<lparr>pw_next := v\<rparr>"
| "password_step (Type_confirm v) p = p\<lparr>pw_confirm := v\<rparr>"
| "password_step Press_change p = (if canSubmit p then p\<lparr>pw_pending := True, pw_sent := pw_sent p @ [(pw_current p, pw_next p)]\<rparr> else p)"
| "password_step Changed p = (if pw_pending p then p\<lparr>pw_pending := False, pw_current := [], pw_next := [], pw_confirm := []\<rparr> else p)"
| "password_step Change_failed p = p\<lparr>pw_pending := False\<rparr>"

definition password_start :: password_form where
  "password_start = \<lparr>pw_current = [], pw_next = [], pw_confirm = [], pw_pending = False, pw_sent = []\<rparr>"

interpretation password: started_machine password_step "\<lambda>_. True" "\<lambda>p. list_all (\<lambda>(c, n). c \<noteq> [] \<and> 8 \<le> length n) (pw_sent p)" password_start
  by unfold_locales (simp_all add: password_start_def, rename_tac s e, case_tac e, auto simp: canSubmit_def)

lemma mismatch_blocks: "mismatch p \<Longrightarrow> password_step Press_change p = p"
  by (simp add: mismatch_def canSubmit_def)

subsection \<open>Schedule of the backups\<close>

(* src api/model/backupSchedule.ts 10-20 BackupSchedule *)
record backup_schedule =
  bs_cronExpr :: string
  bs_maxBackups :: "rat option"
  bs_maxAgeHours :: "rat option"
  bs_enabled :: bool

datatype schedule_change = Type_cron string | Type_maxBackups string | Type_maxAge string

(* src features/settings/SystemPage.tsx 384-410 BackupSection *)
fun schedule_set :: "schedule_change \<Rightarrow> backup_schedule \<Rightarrow> backup_schedule" where
  "schedule_set (Type_cron v) d = d\<lparr>bs_cronExpr := v\<rparr>"
| "schedule_set (Type_maxBackups v) d = d\<lparr>bs_maxBackups := js_number v\<rparr>"
| "schedule_set (Type_maxAge v) d = d\<lparr>bs_maxAgeHours := js_number v\<rparr>"

(* src features/settings/SystemPage.tsx 299-315 BackupSection *)
definition schedule_page :: "(backup_schedule, backup_schedule, schedule_change, backup_schedule) seeded_page" where
  "schedule_page = \<lparr>pg_toForm = (\<lambda>data. data), pg_edit = schedule_set, pg_body = (\<lambda>d. d), pg_canSave = (\<lambda>data d. d \<noteq> data), pg_hides = True\<rparr>"

interpretation schedule: clean_page schedule_page
  by unfold_locales (simp add: schedule_page_def)

text \<open>
  Clearing a number here turns it into zero, which switches that kind of pruning off, and it can be saved: what the
  retention page guards against happens on this one.
\<close>

lemma cleared_limit_disables:
  assumes "sf_data st = Some (r, d)" "sf_form st = Some d" "\<not> sf_pending st" "\<not> sf_error st" "bs_maxBackups d \<noteq> Some 0"
  shows "sf_sent (fold (seeded_step schedule_page) [Edit (Type_maxBackups []), Press_save] st) = sf_sent st @ [d\<lparr>bs_maxBackups := Some 0\<rparr>]"
proof -
  have "d\<lparr>bs_maxBackups := Some 0\<rparr> \<noteq> d" using assms(5) by (metis backup_schedule.select_convs(2) backup_schedule.surjective backup_schedule.update_convs(2))
  with assms show ?thesis
    by (simp add: form_defs schedule_page_def js_number_def trim_def trim_start_def trim_end_def)
qed

end
