(* ===== verification/Templates.thy ===== *)
theory Templates
  imports SeededForms "HOL-Library.Multiset"
begin

text \<open>
  The editor of documentation templates (\<open>features/templates/TemplateEditorPage.tsx\<close>): a \<open>seeded_page\<close> over an ordered list of
  sections, and the panel that previews the saved template for a connector. What is saved is numbered in the order shown
  and reads back as the same form; the preview belongs to the connector that is selected.
\<close>

subsection \<open>Templates and drafts\<close>

(* src api/model/templateSection.ts 9-14 TemplateSection *)
record template_section =
  ts_title :: string
  ts_order :: int
  ts_body :: string

(* src api/model/template.ts 11-18 Template *)
record template =
  tp_id :: string
  tp_name :: string
  tp_description :: "string option"
  tp_currentVersion :: nat
  tp_appliesTo :: "(string option \<times> string option) option"
  tp_sections :: "template_section list"

(* src api/model/templateInput.ts 11-16 TemplateInput *)
record template_input =
  ti_name :: string
  ti_description :: string
  ti_appliesTo :: "string option \<times> string option"
  ti_sections :: "template_section list"

(* src features/templates/TemplateEditorPage.tsx 50-56 Draft *)
record template_draft =
  td_name :: string
  td_description :: string
  td_category :: string
  td_type :: string
  td_sections :: "template_section list"

(* src features/templates/TemplateEditorPage.tsx 58-66 toDraft *)
definition toDraft :: "template \<Rightarrow> template_draft" where
  "toDraft tpl = \<lparr>td_name = tp_name tpl, td_description = from_opt [] (tp_description tpl),
     td_category = from_opt [] (Option.bind (tp_appliesTo tpl) fst), td_type = from_opt [] (Option.bind (tp_appliesTo tpl) snd),
     td_sections = sort_key ts_order (tp_sections tpl)\<rparr>"

(* src features/templates/TemplateEditorPage.tsx 68-78 toInput *)
definition toInput :: "template_draft \<Rightarrow> template_input" where
  "toInput d = \<lparr>ti_name = trim (td_name d), ti_description = trim (td_description d),
     ti_appliesTo = (if td_category d \<noteq> [] then Some (td_category d) else None, if trim (td_type d) \<noteq> [] then Some (trim (td_type d)) else None),
     ti_sections = map_index (\<lambda>i s. s\<lparr>ts_order := int i + 1\<rparr>) 0 (td_sections d)\<rparr>"

datatype section_patch = Patch_title string | Patch_body string

fun patch_section :: "section_patch \<Rightarrow> template_section \<Rightarrow> template_section" where
  "patch_section (Patch_title v) s = s\<lparr>ts_title := v\<rparr>"
| "patch_section (Patch_body v) s = s\<lparr>ts_body := v\<rparr>"

(* src features/templates/TemplateEditorPage.tsx 135-136 updateSection *)
definition updateSection :: "nat \<Rightarrow> section_patch \<Rightarrow> template_section list \<Rightarrow> template_section list" where
  "updateSection idx patch ss = map_index (\<lambda>i s. if i = idx then patch_section patch s else s) 0 ss"

(* src features/templates/TemplateEditorPage.tsx 138-148 addSection *)
definition addSection :: "string \<Rightarrow> template_section list \<Rightarrow> template_section list" where
  "addSection newTitle ss = ss @ [\<lparr>ts_title = newTitle, ts_order = int (length ss) + 1, ts_body = []\<rparr>]"

(* src features/templates/TemplateEditorPage.tsx 150-151 removeSection *)
definition removeSection :: "nat \<Rightarrow> template_section list \<Rightarrow> template_section list" where
  "removeSection idx ss = take idx ss @ drop (Suc idx) ss"

(* src features/templates/TemplateEditorPage.tsx 153-159 moveSection *)
definition moveSection :: "nat \<Rightarrow> bool \<Rightarrow> template_section list \<Rightarrow> template_section list" where
  "moveSection idx down ss = (let after = (if down then int idx + 1 else int idx - 1)
     in if after < 0 \<or> after \<ge> int (length ss) then ss else ss[idx := ss ! nat after, nat after := ss ! idx])"

datatype template_change = Type_name string | Type_description string | Pick_category string | Type_type string
  | Edit_section nat section_patch | Add_section | Remove_section nat | Move_section nat bool

(* src features/templates/TemplateEditorPage.tsx 133-133 update *)
fun template_edit :: "string \<Rightarrow> template_change \<Rightarrow> template_draft \<Rightarrow> template_draft" where
  "template_edit newTitle (Type_name v) d = d\<lparr>td_name := v\<rparr>"
| "template_edit newTitle (Type_description v) d = d\<lparr>td_description := v\<rparr>"
| "template_edit newTitle (Pick_category v) d = d\<lparr>td_category := v\<rparr>"
| "template_edit newTitle (Type_type v) d = d\<lparr>td_type := v\<rparr>"
| "template_edit newTitle (Edit_section i p) d = d\<lparr>td_sections := updateSection i p (td_sections d)\<rparr>"
| "template_edit newTitle Add_section d = d\<lparr>td_sections := addSection newTitle (td_sections d)\<rparr>"
| "template_edit newTitle (Remove_section i) d = d\<lparr>td_sections := removeSection i (td_sections d)\<rparr>"
| "template_edit newTitle (Move_section i down) d = (if i < length (td_sections d) then d\<lparr>td_sections := moveSection i down (td_sections d)\<rparr> else d)"

text \<open>The texts \<open>JSON.stringify\<close> makes of two inputs differ exactly when the inputs do.\<close>

(* src features/templates/TemplateEditorPage.tsx 101-104 dirty *)
definition template_dirty :: "template \<Rightarrow> template_draft \<Rightarrow> bool" where
  "template_dirty data draft \<longleftrightarrow> toInput draft \<noteq> toInput (toDraft data)"

(* src features/templates/TemplateEditorPage.tsx 90-114 TemplateEditorPage *)
definition template_page :: "string \<Rightarrow> (template, template_draft, template_change, template_input) seeded_page" where
  "template_page newTitle = \<lparr>pg_toForm = toDraft, pg_edit = template_edit newTitle, pg_body = toInput,
     pg_canSave = (\<lambda>data d. template_dirty data d \<and> trim (td_name d) \<noteq> []), pg_hides = True\<rparr>"

subsection \<open>Lists of sections\<close>

definition numbered :: "template_section list \<Rightarrow> bool" where
  "numbered ss \<longleftrightarrow> map ts_order ss = map (\<lambda>i. int i + 1) [0..<length ss]"

lemma input_numbered: "numbered (ti_sections (toInput d))"
  by (simp add: numbered_def toInput_def map_index_map map_index_const)

lemma numbered_sorted: "numbered ss \<Longrightarrow> sort_key ts_order ss = ss"
proof -
  assume "numbered ss"
  moreover have "sorted (map (\<lambda>i. int i + 1) [0..<n])" for n
    by (induction n) (auto simp: sorted_append)
  ultimately have "sorted (map ts_order ss)" by (simp add: numbered_def)
  then show ?thesis by (rule sort_key_id_if_sorted)
qed

text \<open>A move exchanges two neighbours; nothing is lost.\<close>

lemma move_mset: "i < length ss \<Longrightarrow> mset (moveSection i down ss) = mset ss"
  by (auto simp: moveSection_def Let_def mset_swap nat_less_iff)

lemma move_back: "Suc i < length ss \<Longrightarrow> moveSection (Suc i) False (moveSection i True ss) = ss"
  by (auto simp: moveSection_def Let_def list_eq_iff_nth_eq nth_list_update)

subsection \<open>What is saved\<close>

text \<open>The template the server makes of an input.\<close>

definition saved_template :: "template \<Rightarrow> template_input \<Rightarrow> template" where
  "saved_template old i = old\<lparr>tp_name := ti_name i, tp_description := Some (ti_description i), tp_appliesTo := Some (ti_appliesTo i),
     tp_sections := ti_sections i, tp_currentVersion := Suc (tp_currentVersion old)\<rparr>"

lemma trim_Nil [simp]: "trim [] = []"
  by (simp add: trim_def trim_start_def trim_end_def)

lemma toDraft_saved: "numbered (ti_sections i) \<Longrightarrow> toDraft (saved_template old i) = \<lparr>td_name = ti_name i, td_description = ti_description i,
    td_category = from_opt [] (fst (ti_appliesTo i)), td_type = from_opt [] (snd (ti_appliesTo i)), td_sections = ti_sections i\<rparr>"
  by (simp add: toDraft_def saved_template_def numbered_sorted)

lemma toInput_saved: "toInput (toDraft (saved_template old (toInput d))) = toInput d"
  unfolding toDraft_saved [OF input_numbered] by (simp add: toInput_def map_index_again)

text \<open>What a request holds: a name, no blanks around the texts, and the sections numbered from one in order.\<close>

definition template_ok :: "template_input \<Rightarrow> bool" where
  "template_ok i \<longleftrightarrow> ti_name i \<noteq> [] \<and> trim (ti_name i) = ti_name i \<and> trim (ti_description i) = ti_description i \<and> numbered (ti_sections i)"

interpretation template: valid_page "template_page newTitle"
    "\<lambda>i. template_ok i \<and> (\<forall>old. toInput (toDraft (saved_template old i)) = i)"
  by unfold_locales (simp add: template_page_def template_ok_def input_numbered toInput_saved, simp add: toInput_def)

interpretation template_clean: clean_page "template_page newTitle"
  by unfold_locales (simp add: template_page_def template_dirty_def)

text \<open>The sections of an input are those of the draft, in the order shown.\<close>

lemma sent_sections: "map ts_title (ti_sections (toInput d)) = map ts_title (td_sections d)" "map ts_body (ti_sections (toInput d)) = map ts_body (td_sections d)"
  by (simp_all add: toInput_def map_index_keep)

text \<open>
  Claim C29. Whatever is edited, moved, read or answered, a request of the template editor has a name and the sections that are shown
  at that moment, with their titles and texts and in their order, numbered from one; what is shown is the template that was
  last read with the edits made since. A template that holds what was sent reads back as the same request, so the editor is then
  unchanged and cannot be saved again.
\<close>

theorem template_saves_read_back:
  "list_all (\<lambda>i. template_ok i \<and> toInput (toDraft (saved_template old i)) = i
      \<and> \<not> pg_canSave (template_page newTitle) (saved_template old i) (toDraft (saved_template old i)))
    (sf_sent (fold (seeded_step (template_page newTitle)) evs form_start))
   \<and> (let st = fold (seeded_step (template_page newTitle)) evs form_start; st' = seeded_step (template_page newTitle) ev st
      in sf_sent st' \<noteq> sf_sent st \<longrightarrow> (\<exists>read edits shown i. since_read (template_page newTitle) evs = Some (read, edits)
           \<and> shown = fold (template_edit newTitle) edits (toDraft read) \<and> sf_sent st' = sf_sent st @ [i] \<and> ti_name i = trim (td_name shown)
           \<and> map ts_title (ti_sections i) = map ts_title (td_sections shown) \<and> map ts_body (ti_sections i) = map ts_body (td_sections shown)
           \<and> map ts_order (ti_sections i) = map (\<lambda>k. int k + 1) [0..<length (td_sections shown)]))"
proof (intro conjI)
  show "list_all (\<lambda>i. template_ok i \<and> toInput (toDraft (saved_template old i)) = i
      \<and> \<not> pg_canSave (template_page newTitle) (saved_template old i) (toDraft (saved_template old i)))
    (sf_sent (fold (seeded_step (template_page newTitle)) evs form_start))"
    using template.all_sent_ok [of newTitle evs] by (auto simp: list_all_iff template_page_def template_dirty_def)
  let ?P = "template_page newTitle"
  define st where "st = fold (seeded_step ?P) evs form_start"
  have holds: "holds ?P (since_read ?P evs) st" unfolding st_def by (rule form_holds)
  have "\<exists>read edits shown i. since_read ?P evs = Some (read, edits)
           \<and> shown = fold (template_edit newTitle) edits (toDraft read) \<and> sf_sent (seeded_step ?P ev st) = sf_sent st @ [i] \<and> ti_name i = trim (td_name shown)
           \<and> map ts_title (ti_sections i) = map ts_title (td_sections shown) \<and> map ts_body (ti_sections i) = map ts_body (td_sections shown)
           \<and> map ts_order (ti_sections i) = map (\<lambda>k. int k + 1) [0..<length (td_sections shown)]"
    if new: "sf_sent (seeded_step ?P ev st) \<noteq> sf_sent st"
    using new
  proof (rule sends_form)
    fix r a d
    assume d: "sf_data st = Some (r, a)" "sf_form st = Some d" "sf_sent (seeded_step ?P ev st) = sf_sent st @ [pg_body ?P d]"
    from holds d obtain read edits where s: "since_read ?P evs = Some (read, edits)" "d = fold (template_edit newTitle) edits (toDraft read)"
      by (auto simp: holds_def template_page_def split: option.splits)
    have "length (ti_sections (toInput d)) = length (td_sections d)" using arg_cong [OF sent_sections(1) [of d], of length] by simp
    then have "map ts_order (ti_sections (toInput d)) = map (\<lambda>k. int k + 1) [0..<length (td_sections d)]"
      using input_numbered [of d] by (simp add: numbered_def)
    then show ?thesis using s d(3) sent_sections [of d]
      by (intro exI [of _ read] exI [of _ edits] exI [of _ d] exI [of _ "toInput d"]) (simp add: template_page_def toInput_def)
  qed
  then show "let st = fold (seeded_step ?P) evs form_start; st' = seeded_step ?P ev st
      in sf_sent st' \<noteq> sf_sent st \<longrightarrow> (\<exists>read edits shown i. since_read ?P evs = Some (read, edits)
           \<and> shown = fold (template_edit newTitle) edits (toDraft read) \<and> sf_sent st' = sf_sent st @ [i] \<and> ti_name i = trim (td_name shown)
           \<and> map ts_title (ti_sections i) = map ts_title (td_sections shown) \<and> map ts_body (ti_sections i) = map ts_body (td_sections shown)
           \<and> map ts_order (ti_sections i) = map (\<lambda>k. int k + 1) [0..<length (td_sections shown)])"
    unfolding st_def Let_def by blast
qed

text \<open>Two sections are exchanged and saved.\<close>

definition two_sections :: template where
  "two_sections = \<lparr>tp_id = ''t'', tp_name = ''T'', tp_description = None, tp_currentVersion = 1, tp_appliesTo = None,
     tp_sections = [\<lparr>ts_title = ''b'', ts_order = 2, ts_body = []\<rparr>, \<lparr>ts_title = ''a'', ts_order = 1, ts_body = []\<rparr>]\<rparr>"

lemma template_saves_read_back_witness:
  "map (\<lambda>i. map ts_title (ti_sections i)) (sf_sent (fold (seeded_step (template_page ''new'')) [Read 0 two_sections, Edit (Move_section 0 True), Press_save] form_start))
     = [[''b'', ''a'']]
   \<and> list_all template_ok (sf_sent (fold (seeded_step (template_page ''new'')) [Read 0 two_sections, Edit (Move_section 0 True), Press_save] form_start))"
proof -
  let ?evs = "[Read 0 two_sections, Edit (Move_section 0 True)]"
  let ?st = "fold (seeded_step (template_page ''new'')) ?evs form_start"
  have sent: "sf_sent ?st = []" "sf_sent (seeded_step (template_page ''new'') Press_save ?st) \<noteq> []" by code_simp+
  have since: "case since_read (template_page ''new'') ?evs of None \<Rightarrow> False
    | Some (read, edits) \<Rightarrow> map ts_title (td_sections (fold (template_edit ''new'') edits (toDraft read))) = [''b'', ''a'']" by code_simp
  show ?thesis
    using template_saves_read_back [of two_sections "''new''" "?evs @ [Press_save]" Press_save]
      template_saves_read_back [of two_sections "''new''" ?evs Press_save, THEN conjunct2, unfolded Let_def] sent since
    by (auto simp: list_all_iff split: option.splits prod.splits)
qed

lemma moves_permute:
  assumes "list_all (\<lambda>e. case e of Move_section i down \<Rightarrow> True | _ \<Rightarrow> False) es"
  shows "mset (td_sections (fold (template_edit newTitle) es d)) = mset (td_sections d)"
  using assms
proof (induction es arbitrary: d)
  case (Cons e es)
  then obtain i down where e: "e = Move_section i down" by (cases e) auto
  have "mset (td_sections (template_edit newTitle e d)) = mset (td_sections d)" by (simp add: e move_mset)
  with Cons show ?case by simp
qed simp

text \<open>What is typed while a save is under way is replaced by the template it returns.\<close>

lemma late_template_edit_lost:
  assumes "sf_pending st" "map_option fst (sf_data st) \<noteq> Some r"
  shows "sf_form (fold (seeded_step (template_page newTitle)) [Edit e, Saved (Some (r, a))] st) = Some (toDraft a)"
  using late_edits_replaced(2) [OF assms, of "template_page newTitle"] by (simp add: template_page_def)

subsection \<open>The preview\<close>

text \<open>
  A mutation shows the answer of its last call: an earlier one that is still under way is no longer observed, and a call that
  starts clears what was shown. Calls are numbered here.
\<close>

(* src api/model/templatePreviewResult.ts 11-14 TemplatePreviewResult *)
record preview_result =
  pr_affected :: "(string \<times> string) list"
  pr_detail :: "string option"

datatype preview_status = Idle | Asked nat "string option" | Shown "string option" preview_result | Failed_preview "string option"

(* src features/templates/TemplateEditorPage.tsx 437-447 PreviewPanel *)
record preview_panel =
  pp_connectorId :: string
  pp_calls :: nat
  pp_status :: preview_status

(* src features/templates/TemplateEditorPage.tsx 444-446 PreviewPanel *)
definition preview_candidates :: "preview_panel \<Rightarrow> (string \<times> string) list" where
  "preview_candidates p = (case pp_status p of Shown q res \<Rightarrow> pr_affected res | _ \<Rightarrow> [])"

(* src features/templates/TemplateEditorPage.tsx 445-445 selected *)
definition selected_name :: "preview_panel \<Rightarrow> string option" where
  "selected_name p = map_option snd (List.find (\<lambda>c. fst c = pp_connectorId p) (preview_candidates p))"

definition ask_preview :: "string option \<Rightarrow> preview_panel \<Rightarrow> preview_panel" where
  "ask_preview q p = p\<lparr>pp_calls := Suc (pp_calls p), pp_status := Asked (pp_calls p) q\<rparr>"

datatype preview_event = Choose nat | Generate | Previewed nat preview_result | Preview_failed nat

definition or_undefined :: "string \<Rightarrow> string option" where
  "or_undefined v = (if v \<noteq> [] then Some v else None)"

(* src features/templates/TemplateEditorPage.tsx 440-553 PreviewPanel *)
fun preview_step :: "preview_event \<Rightarrow> preview_panel \<Rightarrow> preview_panel" where
  "preview_step (Choose i) p = (if i < length (preview_candidates p)
     then ask_preview (Some (fst (preview_candidates p ! i))) (p\<lparr>pp_connectorId := fst (preview_candidates p ! i)\<rparr>) else p)"
| "preview_step Generate p = (case pp_status p of Asked n q \<Rightarrow> p | _ \<Rightarrow> ask_preview (or_undefined (pp_connectorId p)) p)"
| "preview_step (Previewed n res) p = (case pp_status p of Asked m q \<Rightarrow> if m = n then p\<lparr>pp_status := Shown q res\<rparr> else p | _ \<Rightarrow> p)"
| "preview_step (Preview_failed n) p = (case pp_status p of Asked m q \<Rightarrow> if m = n then p\<lparr>pp_status := Failed_preview q\<rparr> else p | _ \<Rightarrow> p)"

definition preview_start :: preview_panel where
  "preview_start = \<lparr>pp_connectorId = [], pp_calls = 0, pp_status = Idle\<rparr>"

definition ids_given :: "preview_event \<Rightarrow> bool" where
  "ids_given ev = (case ev of Previewed n res \<Rightarrow> list_all (\<lambda>c. fst c \<noteq> []) (pr_affected res) | _ \<Rightarrow> True)"

definition for_selection :: "preview_panel \<Rightarrow> bool" where
  "for_selection p \<longleftrightarrow> list_all (\<lambda>c. fst c \<noteq> []) (preview_candidates p) \<and> (case pp_status p of Idle \<Rightarrow> True
     | Asked n q \<Rightarrow> q = or_undefined (pp_connectorId p) \<and> n < pp_calls p
     | Shown q res \<Rightarrow> q = or_undefined (pp_connectorId p) | Failed_preview q \<Rightarrow> q = or_undefined (pp_connectorId p))"

interpretation preview: started_machine preview_step ids_given for_selection preview_start
proof
  fix s :: preview_panel and e
  assume s: "for_selection s" "ids_given e"
  then show "for_selection (preview_step e s)"
    by (cases e; cases "pp_status s")
      (auto simp: for_selection_def preview_candidates_def ask_preview_def or_undefined_def ids_given_def list_all_length)
qed (simp add: preview_start_def for_selection_def preview_candidates_def)

text \<open>
  The preview that is shown, or reported as failed, was asked for the connector that is selected (for none while none is), in whichever order
  the answers of several requests arrive.
\<close>

theorem preview_for_selection:
  assumes "list_all ids_given evs"
  shows "case pp_status (fold preview_step evs preview_start) of
      Idle \<Rightarrow> True
    | Asked n q \<Rightarrow> q = or_undefined (pp_connectorId (fold preview_step evs preview_start))
    | Shown q res \<Rightarrow> q = or_undefined (pp_connectorId (fold preview_step evs preview_start))
    | Failed_preview q \<Rightarrow> q = or_undefined (pp_connectorId (fold preview_step evs preview_start))"
  using preview.reachable [OF assms] by (auto simp: for_selection_def split: preview_status.splits)

definition example_answer :: preview_result where
  "example_answer = \<lparr>pr_affected = [(''a'', ''A''), (''b'', ''B'')], pr_detail = Some ''x''\<rparr>"

definition example_clicks :: "preview_event list" where
  "example_clicks = [Generate, Previewed 0 example_answer, Choose 1, Previewed 0 example_answer, Previewed 1 example_answer]"

lemma preview_for_selection_witness:
  "pp_status (fold preview_step example_clicks preview_start) = Shown (Some ''b'') example_answer"
proof -
  let ?p = "fold preview_step example_clicks preview_start"
  have "list_all ids_given example_clicks" by code_simp
  note selected = preview_for_selection [OF this]
  have "pp_connectorId ?p = ''b''" "(case pp_status ?p of Shown q res \<Rightarrow> res = example_answer | _ \<Rightarrow> False)" by code_simp+
  with selected show ?thesis by (cases "pp_status ?p") (simp_all add: or_undefined_def)
qed

end
