(* ===== verification/Chat.thy ===== *)
theory Chat
  imports Machines
begin

text \<open>
  The chat page (\<open>features/chat/ChatPage.tsx\<close>) as a machine over clicks and answers: the conversation that is open, the scope of
  a new one, the question, and the mutation that first creates a conversation where none is open and then asks. The lemmas
  say what the requests can be and what a failure leaves for the next attempt, and record
  what a late answer does to a user who has gone elsewhere.
\<close>

datatype chat_scope = Lab | Doc

(* src api/model/chatConversationCreate.ts 9-14 ChatConversationCreate *)
datatype chat_request = Create_conversation chat_scope "string option" | Send_message string string

text \<open>The mutation under way: what it captured when it was started, and how far it is.\<close>

datatype chat_ask = Creating chat_scope string string | Asking string string

(* src features/chat/ChatPage.tsx 39-48 ChatPage *)
record chat =
  ch_activeId :: "string option"
  ch_scopeType :: chat_scope
  ch_scopeDocId :: string
  ch_question :: string
  ch_ask :: "chat_ask option"
  ch_fallback :: "string set"
  ch_sent :: "chat_request list"

definition chat_start :: chat where
  "chat_start = \<lparr>ch_activeId = None, ch_scopeType = Lab, ch_scopeDocId = [], ch_question = [], ch_ask = None, ch_fallback = {}, ch_sent = []\<rparr>"

(* src features/chat/ChatPage.tsx 84-84 canAsk *)
definition canAsk :: "chat \<Rightarrow> bool" where
  "canAsk st \<longleftrightarrow> trim (ch_question st) \<noteq> [] \<and> (ch_scopeType st = Lab \<or> ch_scopeDocId st \<noteq> [] \<or> ch_activeId st \<noteq> None)"

definition send :: "chat_request \<Rightarrow> chat \<Rightarrow> chat" where
  "send r st = st\<lparr>ch_sent := ch_sent st @ [r]\<rparr>"

(* src features/chat/ChatPage.tsx 50-63 ask *)
definition start_ask :: "chat \<Rightarrow> chat" where
  "start_ask st = (case ch_activeId st of
       None \<Rightarrow> send (Create_conversation (ch_scopeType st) (if ch_scopeType st = Doc then Some (ch_scopeDocId st) else None))
         (st\<lparr>ch_ask := Some (Creating (ch_scopeType st) (ch_scopeDocId st) (ch_question st))\<rparr>)
     | Some i \<Rightarrow> send (Send_message i (ch_question st)) (st\<lparr>ch_ask := Some (Asking i (ch_question st))\<rparr>))"

(* src features/chat/ChatPage.tsx 58-62 ask *)
definition created :: "string \<Rightarrow> chat \<Rightarrow> chat" where
  "created i st = (case ch_ask st of
       Some (Creating scope doc content) \<Rightarrow> send (Send_message i content) (st\<lparr>ch_activeId := Some i, ch_ask := Some (Asking i content)\<rparr>)
     | _ \<Rightarrow> st)"

(* src features/chat/ChatPage.tsx 65-73 ask *)
definition replied :: "string \<Rightarrow> bool \<Rightarrow> chat \<Rightarrow> chat" where
  "replied replyId fallbackUsed st = (case ch_ask st of
       Some (Asking i content) \<Rightarrow> st\<lparr>ch_ask := None, ch_activeId := Some i, ch_question := [],
         ch_fallback := (if fallbackUsed then insert replyId (ch_fallback st) else ch_fallback st)\<rparr>
     | _ \<Rightarrow> st)"

(* src features/chat/ChatPage.tsx 77-82 startNewChat *)
definition startNewChat :: "chat \<Rightarrow> chat" where
  "startNewChat st = st\<lparr>ch_activeId := None, ch_scopeType := Lab, ch_scopeDocId := [], ch_question := []\<rparr>"

datatype chat_event = Open_conversation string | New_chat | Pick_scope chat_scope | Pick_doc string | Type_question string | Submit
  | Created string | Replied string bool | Ask_failed

(* src features/chat/ChatPage.tsx 118-240 ChatPage *)
fun chat_step :: "chat_event \<Rightarrow> chat \<Rightarrow> chat" where
  "chat_step (Open_conversation i) st = st\<lparr>ch_activeId := Some i\<rparr>"
| "chat_step New_chat st = startNewChat st"
| "chat_step (Pick_scope s) st = (if ch_activeId st = None then st\<lparr>ch_scopeType := s\<rparr> else st)"
| "chat_step (Pick_doc d) st = (if ch_activeId st = None \<and> ch_scopeType st = Doc then st\<lparr>ch_scopeDocId := d\<rparr> else st)"
| "chat_step (Type_question v) st = (if ch_ask st = None then st\<lparr>ch_question := v\<rparr> else st)"
| "chat_step Submit st = (if ch_ask st = None \<and> canAsk st then start_ask st else st)"
| "chat_step (Created i) st = created i st"
| "chat_step (Replied r fb) st = replied r fb st"
| "chat_step Ask_failed st = st\<lparr>ch_ask := None\<rparr>"

(* src features/chat/ChatPage.tsx 214-226 ChatPage *)
definition thinking_shown :: "chat \<Rightarrow> bool" where
  "thinking_shown st \<longleftrightarrow> ch_activeId st \<noteq> None \<and> ch_ask st \<noteq> None"

subsection \<open>Requests\<close>

text \<open>
  The history of requests a well-behaved page makes: a conversation is created for the lab or for a named document and
  is followed by its first question, unless the creation failed or is under way; questions are never blank.
\<close>

definition request_ok :: "chat_request \<Rightarrow> bool" where
  "request_ok r = (case r of Create_conversation s d \<Rightarrow> (s = Lab \<and> d = None) \<or> (s = Doc \<and> d \<noteq> None \<and> d \<noteq> Some [])
     | Send_message i content \<Rightarrow> trim content \<noteq> [])"

definition last_request :: "chat \<Rightarrow> bool" where
  "last_request st = (case ch_ask st of None \<Rightarrow> True
     | Some (Creating s d content) \<Rightarrow> trim content \<noteq> [] \<and> ch_sent st \<noteq> [] \<and> last (ch_sent st) = Create_conversation s (if s = Doc then Some d else None)
     | Some (Asking i content) \<Rightarrow> trim content \<noteq> [] \<and> ch_sent st \<noteq> [] \<and> last (ch_sent st) = Send_message i content)"

lemmas chat_defs = send_def start_ask_def created_def replied_def startNewChat_def canAsk_def request_ok_def last_request_def

interpretation chat: started_machine chat_step "\<lambda>_. True" "\<lambda>st. list_all request_ok (ch_sent st) \<and> last_request st" chat_start
proof
  fix s :: chat and e
  assume s: "list_all request_ok (ch_sent s) \<and> last_request s"
  then show "list_all request_ok (ch_sent (chat_step e s)) \<and> last_request (chat_step e s)"
  proof (cases e)
    case Submit
    with s show ?thesis by (cases "ch_scopeType s") (auto simp: chat_defs split: option.split)
  next
    case (Created i)
    with s show ?thesis by (cases "ch_ask s"; cases "the (ch_ask s)") (auto simp: chat_defs)
  next
    case (Replied r fb)
    with s show ?thesis by (cases "ch_ask s"; cases "the (ch_ask s)") (auto simp: chat_defs)
  qed (auto simp: chat_defs split: option.splits chat_ask.splits)
qed (simp_all add: chat_start_def chat_defs)

text \<open>
  Whatever the user clicks and however answers arrive, a conversation is created for the whole lab or for a chosen document, never for
  a document that is not named; no blank question is sent; and a request goes out only while none is under
  way, or as the first question of the conversation that has just been created.
\<close>

theorem chat_requests_fit:
  shows "list_all request_ok (ch_sent (fold chat_step evs chat_start))
    \<and> (let st = fold chat_step evs chat_start in ch_sent (chat_step e st) = ch_sent st
      \<or> (\<exists>r. ch_sent (chat_step e st) = ch_sent st @ [r] \<and> (if ch_ask st = None then e = Submit
          else \<exists>i content. e = Created i \<and> r = Send_message i content \<and> ch_activeId (chat_step e st) = Some i)))"
proof -
  let ?st = "fold chat_step evs chat_start"
  have "ch_sent (chat_step e st) = ch_sent st
      \<or> (\<exists>r. ch_sent (chat_step e st) = ch_sent st @ [r] \<and> (if ch_ask st = None then e = Submit
          else \<exists>i content. e = Created i \<and> r = Send_message i content \<and> ch_activeId (chat_step e st) = Some i))" for st
    by (cases e; cases "ch_ask st"; cases "the (ch_ask st)") (auto simp: chat_defs split: option.split)
  with chat.always [of evs] show ?thesis by (simp add: Let_def)
qed

text \<open>A question that failed after its conversation was created is asked again in that conversation: no second one is created.\<close>

lemma retry_reuses:
  assumes "ch_ask st = Some (Creating s d content)" "trim (ch_question st) \<noteq> []"
  shows "ch_sent (fold chat_step [Created i, Ask_failed, Submit] st) = ch_sent st @ [Send_message i content, Send_message i (ch_question st)]"
  using assms by (simp add: chat_defs)

subsection \<open>Late answers\<close>

text \<open>
  An answer brings the user back to its conversation from wherever they have gone meanwhile, a creation too, and clears the
  question; until then the conversation they look at is shown as thinking.
\<close>

lemma late_answer_moves:
  assumes "ch_ask st = Some (Asking i content)"
  shows "thinking_shown (chat_step (Open_conversation other) st)"
    "ch_activeId (fold chat_step [Open_conversation other, Replied r fb] st) = Some i"
    "ch_activeId (fold chat_step [New_chat, Pick_scope Doc, Replied r fb] st) = Some i"
  using assms by (simp_all add: chat_defs thinking_shown_def)

lemma late_creation_moves:
  "ch_ask st = Some (Creating s d content) \<Longrightarrow> ch_activeId (fold chat_step [Open_conversation other, Created i] st) = Some i"
  by (simp add: chat_defs)

end
