(* ===== verification/RowOps.thy ===== *)
theory RowOps
  imports Runs Elevation
begin

text \<open>
  A confirmed operation on the row of a list (\<open>components/manager/ElevationConfirm.tsx\<close> as the lists of accounts,
  keys, factors and services mount it): the page keeps the chosen row, the dialog keeps what was typed
  and the token, and stays mounted when it is closed.
\<close>

subsection \<open>The dialog of a list\<close>

text \<open>A request, with what the dialog held when it was confirmed.\<close>

record 'r row_sent =
  ro_row :: 'r
  ro_token :: "string option"
  ro_typed :: string
  ro_required :: bool

(* src components/manager/ElevationConfirm.tsx 47-51 ElevationConfirm *)
record 'r row_op =
  ro_chosen :: "'r option"
  ro_box :: confirm_box
  ro_config :: "bool option"
  ro_busy :: bool
  ro_sent :: "'r row_sent list"

definition row_init :: "'r row_op" where
  "row_init = \<lparr>ro_chosen = None, ro_box = fresh_box, ro_config = None, ro_busy = False, ro_sent = []\<rparr>"

datatype 'r row_event = Choose_row 'r | Row_box box_event | Row_config bool | Cancel_row | Confirm_row | Row_answer bool

text \<open>\<open>close\<close>: the dialog's own way out; a step-up that was submitted goes on.\<close>

(* src components/manager/ElevationConfirm.tsx 53-58 close *)
definition cancel_row :: "'r row_op \<Rightarrow> 'r row_op" where
  "cancel_row st = st\<lparr>ro_box := (ro_box st)\<lparr>cb_typed := [], cb_token := None\<rparr>, ro_chosen := None\<rparr>"

definition row_required :: "'r row_op \<Rightarrow> bool" where
  "row_required st \<longleftrightarrow> stepUpRequired False (ro_config st)"

text \<open>What is typed or submitted needs the dialog; a token arrives in any case.\<close>

fun needs_dialog :: "box_event \<Rightarrow> bool" where
  "needs_dialog (Box_elevated t) = False"
| "needs_dialog _ = True"

(* src features/settings/UsersPage.tsx 78-87 remove *)
definition confirm_row :: "('r \<Rightarrow> string) \<Rightarrow> 'r row_op \<Rightarrow> 'r row_op" where
  "confirm_row name st = (case ro_chosen st of
       Some r \<Rightarrow> if box_ready (name r) (row_required st) (ro_box st) \<and> \<not> ro_busy st
         then st\<lparr>ro_busy := True, ro_sent := ro_sent st @
           [\<lparr>ro_row = r, ro_token = box_token (ro_box st), ro_typed = cb_typed (ro_box st), ro_required = row_required st\<rparr>]\<rparr>
         else st
     | None \<Rightarrow> st)"

text \<open>A success closes the dialog from the page (\<open>setToDelete(null)\<close>), which does not run the dialog's \<open>close\<close>.\<close>

definition row_answered :: "bool \<Rightarrow> 'r row_op \<Rightarrow> 'r row_op" where
  "row_answered success st = (if \<not> ro_busy st then st
     else if success then st\<lparr>ro_busy := False, ro_chosen := None\<rparr> else st\<lparr>ro_busy := False\<rparr>)"

(* src components/manager/ElevationConfirm.tsx 60-120 ElevationConfirm *)
fun row_step :: "('r \<Rightarrow> string) \<Rightarrow> 'r row_event \<Rightarrow> 'r row_op \<Rightarrow> 'r row_op" where
  "row_step name (Choose_row r) st = st\<lparr>ro_chosen := Some r\<rparr>"
| "row_step name (Row_box ev) st = (case ro_chosen st of
       Some r \<Rightarrow> st\<lparr>ro_box := box_step (name r) (row_required st) ev (ro_box st)\<rparr>
     | None \<Rightarrow> if needs_dialog ev then st else st\<lparr>ro_box := box_step [] False ev (ro_box st)\<rparr>)"
| "row_step name (Row_config b) st = st\<lparr>ro_config := Some b\<rparr>"
| "row_step name Cancel_row st = (if ro_chosen st = None then st else cancel_row st)"
| "row_step name Confirm_row st = confirm_row name st"
| "row_step name (Row_answer success) st = row_answered success st"

subsection \<open>What precedes a request\<close>

definition row_confirmed :: "('r \<Rightarrow> string) \<Rightarrow> string set \<Rightarrow> 'r row_sent \<Rightarrow> bool" where
  "row_confirmed name tokens q \<longleftrightarrow> ro_typed q = name (ro_row q) \<and> \<not> (ro_required q \<and> \<not> handed_over tokens (ro_token q))"

definition row_ok :: "('r \<Rightarrow> string) \<Rightarrow> ('r \<Rightarrow> bool) \<Rightarrow> string set \<Rightarrow> 'r row_op \<Rightarrow> bool" where
  "row_ok name fair tokens st \<longleftrightarrow> (truthy_token (cb_token (ro_box st)) \<longrightarrow> handed_over tokens (cb_token (ro_box st)))
     \<and> (case ro_chosen st of Some r \<Rightarrow> fair r | None \<Rightarrow> True)
     \<and> list_all (\<lambda>q. row_confirmed name tokens q \<and> fair (ro_row q)) (ro_sent st)"

fun row_brings :: "'r row_event \<Rightarrow> string set" where
  "row_brings (Row_box (Box_elevated t)) = {t}"
| "row_brings _ = {}"

fun row_chosen_of :: "'r row_event \<Rightarrow> 'r option" where
  "row_chosen_of (Choose_row r) = Some r"
| "row_chosen_of _ = None"

lemma row_confirmed_mono: "row_confirmed name tokens q \<Longrightarrow> tokens \<subseteq> tokens' \<Longrightarrow> row_confirmed name tokens' q"
  by (auto simp: row_confirmed_def intro: handed_over_mono)

lemma row_ok_weaken:
  assumes "row_ok name fair tokens st" "tokens \<subseteq> tokens'" "\<And>r. fair r \<Longrightarrow> fair' r"
  shows "row_ok name fair' tokens' st"
  using assms by (auto simp: row_ok_def list_all_iff intro: handed_over_mono row_confirmed_mono split: option.splits)

lemma row_ok_mono: "row_ok name fair tokens st \<Longrightarrow> tokens \<subseteq> tokens' \<Longrightarrow> row_ok name fair tokens' st"
  by (rule row_ok_weaken)

lemma row_ok_init: "row_ok name fair tokens row_init"
  by (simp add: row_ok_def row_init_def fresh_box_def truthy_token_def)

lemma box_token_kept:
  assumes "truthy_token (cb_token b) \<longrightarrow> handed_over tokens (cb_token b)" "\<And>t. ev = Box_elevated t \<Longrightarrow> t \<in> tokens"
  shows "truthy_token (cb_token (box_step name required ev b)) \<longrightarrow> handed_over tokens (cb_token (box_step name required ev b))"
  using assms by (cases ev) (auto simp: truthy_token_def)

lemma row_ok_confirm:
  assumes "row_ok name fair tokens st"
  shows "row_ok name fair tokens (confirm_row name st)"
  using assms by (auto simp: row_ok_def row_confirmed_def confirm_row_def box_ready_def box_token_def split: option.split)

lemma row_ok_step:
  assumes "row_ok name fair tokens st" "\<And>t. ev = Row_box (Box_elevated t) \<Longrightarrow> t \<in> tokens" "\<And>r. ev = Choose_row r \<Longrightarrow> fair r"
  shows "row_ok name fair tokens (row_step name ev st)"
proof (cases ev)
  case (Row_box b)
  have "truthy_token (cb_token (box_step n q b (ro_box st))) \<longrightarrow> handed_over tokens (cb_token (box_step n q b (ro_box st)))" for n q
    using assms(1,2) Row_box by (intro box_token_kept) (simp_all add: row_ok_def)
  then show ?thesis using assms(1) Row_box by (auto simp: row_ok_def split: option.split)
next
  case Confirm_row
  then show ?thesis using assms(1) by (simp add: row_ok_confirm)
qed (use assms in \<open>auto simp: row_ok_def row_answered_def cancel_row_def truthy_token_def\<close>)

interpretation row_ops: informed_machine "row_step name" row_brings "row_ok name (\<lambda>r. True)" row_init for name
proof
  fix known st ev
  assume "row_ok name (\<lambda>r. True) known st"
  then show "row_ok name (\<lambda>r. True) (known \<union> row_brings ev) (row_step name ev st)"
    by (intro row_ok_step) (auto intro: row_ok_mono)
qed (rule row_ok_init)

text \<open>
  An operation on a row is only requested with the name of that row typed and, where step-up is on, with a token that a step-up
  has handed over.
\<close>

theorem rows_confirmed:
  "list_all (row_confirmed name (\<Union> (row_brings ` set es))) (ro_sent (fold (row_step name) es row_init))"
  using row_ops.informed_run [of name es] by (simp add: row_ok_def list_all_iff)

subsection \<open>The dialog after a success\<close>

text \<open>
  A comment says that every open starts fresh. A success leaves the text and the token: the next row of the same name is confirmed
  without typing or step-up, and the request repeats the token.
\<close>

theorem next_row_unasked:
  assumes "ro_chosen st = Some r" "box_ready (name r) (row_required st) (ro_box st)" "\<not> ro_busy st" "name r' = name r"
  shows "ro_sent (fold (row_step name) [Confirm_row, Row_answer True, Choose_row r', Confirm_row] st)
    = ro_sent st @ map (\<lambda>x. \<lparr>ro_row = x, ro_token = box_token (ro_box st), ro_typed = name r, ro_required = row_required st\<rparr>) [r, r']"
  using assms by (simp add: confirm_row_def row_answered_def box_ready_def row_required_def)

text \<open>For a row of another name the dialog offers no step-up, and its request carries the token of the row before.\<close>

theorem next_row_old_token:
  assumes "ro_chosen st = Some r" "box_ready (name r) (row_required st) (ro_box st)" "\<not> ro_busy st" "cb_token (ro_box st) = Some t" "t \<noteq> []"
  shows "ro_sent (fold (row_step name) [Confirm_row, Row_answer True, Choose_row r', Row_box (Box_type (name r')), Row_box Box_step_up, Confirm_row] st)
    = ro_sent st @ map (\<lambda>x. \<lparr>ro_row = x, ro_token = Some t, ro_typed = name x, ro_required = row_required st\<rparr>) [r, r']"
  using assms by (simp add: confirm_row_def row_answered_def box_ready_def row_required_def box_token_def truthy_token_def)

end
