(* ===== verification/Users.thy ===== *)
theory Users
  imports RowOps
begin

text \<open>
  The accounts of the instance (\<open>features/settings/UsersPage.tsx\<close>): changing, deleting and resetting an account and inviting one,
  and the API keys of the profile (\<open>features/settings/ProfileApiKeys.tsx\<close>). Two forms send what they hold when the
  request is made, through \<open>useStepUpMutation.tsx\<close>, and share a machine and its contract.
\<close>

subsection \<open>Forms whose request may be repeated after a step-up\<close>

text \<open>
  The form, the request with its refusals and step-ups, and the body of every call: \<open>mutationFn\<close> reads the form of the
  latest rendering, also when a step-up repeats the call.
\<close>

record ('f, 'p) late_form =
  lf_form :: 'f
  lf_replay :: "unit replay"
  lf_bodies :: "'p list"

definition late_init :: "'f \<Rightarrow> ('f, 'p) late_form" where
  "late_init f = \<lparr>lf_form = f, lf_replay = replay_init, lf_bodies = []\<rparr>"

datatype 'e late_event = Late_edit 'e | Late_submit | Late_call "unit replay_event"

text \<open>One event of the request; each new call takes the form as it stands.\<close>

definition late_call :: "('f \<Rightarrow> 'p) \<Rightarrow> unit replay_event \<Rightarrow> ('f, 'p) late_form \<Rightarrow> ('f, 'p) late_form" where
  "late_call body ev st =
     (let r = replay_step ev (lf_replay st)
      in st\<lparr>lf_replay := r,
        lf_bodies := lf_bodies st @ replicate (length (rp_calls r) - length (rp_calls (lf_replay st))) (body (lf_form st))\<rparr>)"

fun is_mutate :: "'v replay_event \<Rightarrow> bool" where
  "is_mutate (Mutate v) = True"
| "is_mutate _ = False"

text \<open>A call that is accepted empties the form.\<close>

definition accepts :: "'v replay_event \<Rightarrow> 'v replay \<Rightarrow> bool" where
  "accepts ev r \<longleftrightarrow> (case ev of Call_answer i a \<Rightarrow> a = Accepted \<and> i < length (rp_calls r) \<and> snd (snd (rp_calls r ! i)) | _ \<Rightarrow> False)"

fun late_step :: "('e \<Rightarrow> 'f \<Rightarrow> 'f) \<Rightarrow> ('f \<Rightarrow> bool) \<Rightarrow> ('f \<Rightarrow> 'p) \<Rightarrow> 'f \<Rightarrow> 'e late_event \<Rightarrow> ('f, 'p) late_form \<Rightarrow> ('f, 'p) late_form" where
  "late_step edit ready body blank (Late_edit e) st =
     (if rp_pending (lf_replay st) = None then st\<lparr>lf_form := edit e (lf_form st)\<rparr> else st)"
| "late_step edit ready body blank Late_submit st = (if ready (lf_form st) then late_call body (Mutate ()) st else st)"
| "late_step edit ready body blank (Late_call ev) st =
     (if is_mutate ev then st
      else let st' = late_call body ev st in if accepts ev (lf_replay st) then st'\<lparr>lf_form := blank\<rparr> else st')"

lemma calls_grow: "length (rp_calls r) \<le> length (rp_calls (replay_step ev r))"
  by (cases ev) (auto simp: send_call_def call_answered_def Let_def split: option.split prod.split bool.split)

text \<open>The contract: what the form keeps of every edit is what every body has.\<close>

locale late_page =
  fixes edit :: "'e \<Rightarrow> 'f \<Rightarrow> 'f" and ready :: "'f \<Rightarrow> bool" and body :: "'f \<Rightarrow> 'p" and blank :: 'f
    and ok :: "'f \<Rightarrow> bool" and fits :: "'p \<Rightarrow> bool"
  assumes edit_ok: "ok f \<Longrightarrow> ok (edit e f)" and blank_ok: "ok blank" and body_fits: "ok f \<Longrightarrow> fits (body f)"
begin

definition late_ok :: "('f, 'p) late_form \<Rightarrow> bool" where
  "late_ok st \<longleftrightarrow> ok (lf_form st) \<and> list_all fits (lf_bodies st) \<and> length (lf_bodies st) = length (rp_calls (lf_replay st))"

lemma late_ok_call: "late_ok st \<Longrightarrow> late_ok (late_call body ev st)"
  using calls_grow [of "lf_replay st" ev]
  by (auto simp: late_ok_def late_call_def Let_def list_all_iff body_fits simp del: replay_step.simps)

lemma late_ok_step: "late_ok st \<Longrightarrow> late_ok (late_step edit ready body blank ev st)"
proof (cases ev)
  case (Late_call e)
  assume "late_ok st"
  then have "late_ok (late_call body e st)" by (rule late_ok_call)
  then show ?thesis using \<open>late_ok st\<close> Late_call by (simp add: Let_def late_ok_def blank_ok)
qed (auto simp: late_ok_call, simp add: late_ok_def edit_ok)

lemma late_run: "late_ok (fold (late_step edit ready body blank) es (late_init blank))"
proof (induction es rule: rev_induct)
  case (snoc ev es)
  then show ?case by (simp add: late_ok_step del: late_step.simps)
qed (simp add: late_ok_def late_init_def blank_ok replay_init_def)

end

subsection \<open>Inviting an account\<close>

(* src features/settings/UsersPage.tsx 290-293 InviteDialog *)
record invite_form =
  iv_username :: string
  iv_email :: string
  iv_role :: string
  iv_defaults :: bool

record invite_body =
  ib_username :: string
  ib_email :: "string option"
  ib_role :: string
  ib_defaults :: "bool option"

definition empty_invite :: invite_form where
  "empty_invite = \<lparr>iv_username = [], iv_email = [], iv_role = ''user'', iv_defaults = False\<rparr>"

datatype invite_edit = Set_username string | Set_invite_email string | Set_invite_admin bool | Set_invite_defaults bool

text \<open>The last box is only shown for an administrator.\<close>

(* src features/settings/UsersPage.tsx 332-366 InviteDialog *)
fun edit_invite :: "invite_edit \<Rightarrow> invite_form \<Rightarrow> invite_form" where
  "edit_invite (Set_username s) f = f\<lparr>iv_username := s\<rparr>"
| "edit_invite (Set_invite_email s) f = f\<lparr>iv_email := s\<rparr>"
| "edit_invite (Set_invite_admin b) f = f\<lparr>iv_role := (if b then ''admin'' else ''user'')\<rparr>"
| "edit_invite (Set_invite_defaults b) f = (if iv_role f = ''admin'' then f\<lparr>iv_defaults := b\<rparr> else f)"

(* src features/settings/UsersPage.tsx 297-306 InviteDialog *)
definition invite_of :: "invite_form \<Rightarrow> invite_body" where
  "invite_of f = \<lparr>ib_username = iv_username f, ib_email = (if iv_email f = [] then None else Some (iv_email f)),
     ib_role = iv_role f, ib_defaults = (if iv_role f = ''admin'' then Some (iv_defaults f) else None)\<rparr>"

(* src features/settings/UsersPage.tsx 326-329 InviteDialog *)
definition invite_ready :: "invite_form \<Rightarrow> bool" where
  "invite_ready f \<longleftrightarrow> trim (iv_username f) \<noteq> []"

text \<open>Only administrators are granted anything on the default dashboard.\<close>

definition invite_fits :: "invite_body \<Rightarrow> bool" where
  "invite_fits b \<longleftrightarrow> ib_role b \<in> {''admin'', ''user''} \<and> (ib_defaults b = None \<or> ib_role b = ''admin'') \<and> ib_email b \<noteq> Some []"

definition invite_ok :: "invite_form \<Rightarrow> bool" where
  "invite_ok f \<longleftrightarrow> iv_role f \<in> {''admin'', ''user''}"

interpretation invites: late_page edit_invite invite_ready invite_of empty_invite invite_ok invite_fits
proof
  fix e f assume "invite_ok f"
  then show "invite_ok (edit_invite e f)" by (cases e) (auto simp: invite_ok_def)
qed (auto simp: empty_invite_def invite_of_def invite_fits_def invite_ok_def)

(* src features/settings/UsersPage.tsx 295-318 InviteDialog *)
definition invite_step :: "invite_edit late_event \<Rightarrow> (invite_form, invite_body) late_form \<Rightarrow> (invite_form, invite_body) late_form" where
  "invite_step = late_step edit_invite invite_ready invite_of empty_invite"

lemma invites_fit: "list_all invite_fits (lf_bodies (fold invite_step es (late_init empty_invite)))"
  using invites.late_run [of es] by (simp add: invites.late_ok_def invite_step_def)

subsection \<open>API keys\<close>

(* src features/settings/ProfileApiKeys.tsx 31-34 ApiKeysSection *)
record key_form =
  kf_name :: string
  kf_expiresAt :: string
  kf_scope :: string
  kf_connectorIds :: "string list"

record key_body =
  kb_name :: string
  kb_expiresAt :: "string option"
  kb_scope :: string
  kb_connectorIds :: "string list option"

definition empty_key :: key_form where
  "empty_key = \<lparr>kf_name = [], kf_expiresAt = [], kf_scope = ''full'', kf_connectorIds = []\<rparr>"

text \<open>A control of the form; a box of a connector is ticked exactly for the chosen ones.\<close>

datatype key_edit = Set_key_name string | Set_key_expiry string | Set_key_full bool | Tick_connector string

(* src features/settings/ProfileApiKeys.tsx 86-136 ApiKeysSection *)
fun edit_key :: "key_edit \<Rightarrow> key_form \<Rightarrow> key_form" where
  "edit_key (Set_key_name s) f = f\<lparr>kf_name := s\<rparr>"
| "edit_key (Set_key_expiry s) f = f\<lparr>kf_expiresAt := s\<rparr>"
| "edit_key (Set_key_full b) f = f\<lparr>kf_scope := (if b then ''full'' else ''read'')\<rparr>"
| "edit_key (Tick_connector i) f = f\<lparr>kf_connectorIds :=
     (if i \<notin> set (kf_connectorIds f) then kf_connectorIds f @ [i] else filter (\<lambda>j. j \<noteq> i) (kf_connectorIds f))\<rparr>"

text \<open>
  The field gives a date of the form \<open>yyyy-mm-dd\<close> or nothing; the time of day is added and the text
  is then that of \<open>toISOString\<close>. An blank choice of connectors leaves the key unrestricted.
\<close>

(* src features/settings/ProfileApiKeys.tsx 42-51 ApiKeysSection *)
definition key_of :: "key_form \<Rightarrow> key_body" where
  "key_of f = \<lparr>kb_name = kf_name f,
     kb_expiresAt = (if kf_expiresAt f = [] then None else Some (kf_expiresAt f @ ''T23:59:59.999Z'')),
     kb_scope = kf_scope f, kb_connectorIds = (if kf_connectorIds f = [] then None else Some (kf_connectorIds f))\<rparr>"

(* src features/settings/ProfileApiKeys.tsx 81-84 ApiKeysSection *)
definition key_ready :: "key_form \<Rightarrow> bool" where
  "key_ready f \<longleftrightarrow> trim (kf_name f) \<noteq> []"

definition key_fits :: "key_body \<Rightarrow> bool" where
  "key_fits b \<longleftrightarrow> kb_scope b \<in> {''full'', ''read''} \<and> (case kb_connectorIds b of None \<Rightarrow> True | Some ids \<Rightarrow> ids \<noteq> [] \<and> distinct ids)"

definition key_ok :: "key_form \<Rightarrow> bool" where
  "key_ok f \<longleftrightarrow> kf_scope f \<in> {''full'', ''read''} \<and> distinct (kf_connectorIds f)"

interpretation keys: late_page edit_key key_ready key_of empty_key key_ok key_fits
proof
  fix e f assume "key_ok f"
  then show "key_ok (edit_key e f)" by (cases e) (auto simp: key_ok_def)
qed (auto simp: empty_key_def key_of_def key_fits_def key_ok_def)

text \<open>The form, the token of a new key until it is dismissed, and the confirmation of a revocation.\<close>

(* src features/settings/ProfileApiKeys.tsx 31-36 ApiKeysSection *)
record keys_page =
  kp_late :: "(key_form, key_body) late_form"
  kp_created :: "string option"
  kp_revoke :: "string option"
  kp_revoking :: bool
  kp_revoked :: "string list"

definition keys_init :: keys_page where
  "keys_init = \<lparr>kp_late = late_init empty_key, kp_created = None, kp_revoke = None, kp_revoking = False, kp_revoked = []\<rparr>"

text \<open>A row of the list offers its revocation unless the key is revoked.\<close>

datatype keys_event = Key_form "key_edit late_event" | Key_created nat string | Dismiss_key | Choose_key string bool | Confirm_revoke
  | Cancel_revoke | Revoke_answer bool

(* src features/settings/ProfileApiKeys.tsx 40-71 ApiKeysSection *)
fun keys_step :: "keys_event \<Rightarrow> keys_page \<Rightarrow> keys_page" where
  "keys_step (Key_form ev) st = (case ev of
       Late_call (Call_answer i Accepted) \<Rightarrow> st
     | _ \<Rightarrow> st\<lparr>kp_late := late_step edit_key key_ready key_of empty_key ev (kp_late st)\<rparr>)"
| "keys_step (Key_created i token) st =
     (if accepts (Call_answer i Accepted) (lf_replay (kp_late st))
      then st\<lparr>kp_late := late_step edit_key key_ready key_of empty_key (Late_call (Call_answer i Accepted)) (kp_late st), kp_created := Some token\<rparr>
      else st)"
| "keys_step Dismiss_key st = st\<lparr>kp_created := None\<rparr>"
| "keys_step (Choose_key i revoked) st = (if revoked \<or> kp_revoking st then st else st\<lparr>kp_revoke := Some i\<rparr>)"
| "keys_step Confirm_revoke st = (case kp_revoke st of
       Some i \<Rightarrow> if kp_revoking st then st else st\<lparr>kp_revoking := True, kp_revoked := kp_revoked st @ [i]\<rparr> | None \<Rightarrow> st)"
| "keys_step Cancel_revoke st = st\<lparr>kp_revoke := None\<rparr>"
| "keys_step (Revoke_answer success) st = (if \<not> kp_revoking st then st
     else if success then st\<lparr>kp_revoking := False, kp_revoke := None\<rparr> else st\<lparr>kp_revoking := False\<rparr>)"

abbreviation keys_run :: "keys_event list \<Rightarrow> keys_page" where
  "keys_run es \<equiv> fold keys_step es keys_init"

lemma keys_ok_step: "keys.late_ok (kp_late st) \<Longrightarrow> keys.late_ok (kp_late (keys_step ev st))"
proof (cases ev)
  case (Key_form e)
  assume ok: "keys.late_ok (kp_late st)"
  have "kp_late (keys_step ev st) \<in> {kp_late st, late_step edit_key key_ready key_of empty_key e (kp_late st)}"
    using Key_form by (auto simp del: late_step.simps split: late_event.split replay_event.split call_answer.split)
  then show ?thesis using ok keys.late_ok_step [OF ok, of e] by (auto simp del: late_step.simps)
next
  case (Key_created i token)
  assume ok: "keys.late_ok (kp_late st)"
  then show ?thesis using Key_created keys.late_ok_step [OF ok] by (simp del: late_step.simps)
qed (simp_all split: option.split)

text \<open>Every key that is asked for has a scope of the list and, where it is restricted, each of its connectors once.\<close>

theorem keys_fit: "list_all key_fits (lf_bodies (kp_late (keys_run es)))"
proof -
  have "keys.late_ok (kp_late (keys_run es))"
  proof (induction es rule: rev_induct)
    case (snoc ev es)
    then show ?case by (simp add: keys_ok_step del: keys_step.simps)
  qed (use keys.late_run [of "[]"] in \<open>simp add: keys_init_def\<close>)
  then show ?thesis by (simp add: keys.late_ok_def)
qed

text \<open>
  The key that is created is not the one that was submitted: after the step-up dialog is closed the form can be changed, and the
  step-up that was under way repeats the request with the changed form. Here a key restricted to a connector becomes an
  unrestricted one, without a further click.
\<close>

lemma step_up_creates_other_key:
  "map kb_connectorIds (lf_bodies (kp_late (keys_run
     [Key_form (Late_edit (Set_key_name ''ci'')), Key_form (Late_edit (Tick_connector ''nas'')), Key_form Late_submit,
      Key_form (Late_call (Call_answer 0 Elevation_required)), Key_form (Late_call Submit_replay_step_up), Key_form (Late_call Close_step_up),
      Key_form (Late_edit (Tick_connector ''nas'')), Key_form (Late_call (Step_up_done 0 ''t1''))]))) = [Some [''nas''], None]"
  by code_simp


subsection \<open>The accounts of the instance\<close>

(* src features/settings/UsersPage.tsx 31-31 UserWithInstanceAdmin *)
record account = user +
  ac_instanceAdminRole :: "string option"
  ac_mfaEnabled :: "bool option"

text \<open>A change of an account; fields that are not given stay.\<close>

(* src features/settings/UsersPage.tsx 48-59 patch *)
record account_patch =
  ap_id :: string
  ap_instanceAdminRole :: "string option"
  ap_disabled :: "bool option"
  ap_canManageDashboardDefaults :: "bool option"

(* src features/settings/UsersPage.tsx 33-41 UsersPage *)
record users_page =
  us_me :: "string option"
  us_list :: "account list"
  us_inviteOpen :: bool
  us_delete :: "account row_op"
  us_reset :: "account row_op"
  us_resetMfa :: "account row_op"
  us_patch :: "account_patch replay"
  us_invite :: "(invite_form, invite_body) late_form"

definition users_init :: users_page where
  "users_init = \<lparr>us_me = None, us_list = [], us_inviteOpen = False, us_delete = row_init, us_reset = row_init,
     us_resetMfa = row_init, us_patch = replay_init, us_invite = late_init empty_invite\<rparr>"

text \<open>While who is signed in is not known, no row counts as the own one.\<close>

(* src features/settings/UsersPage.tsx 131-131 UsersPage *)
definition isSelf :: "users_page \<Rightarrow> account \<Rightarrow> bool" where
  "isSelf st u \<longleftrightarrow> us_me st = Some (u_id u)"

definition isAdmin :: "account \<Rightarrow> bool" where
  "isAdmin u \<longleftrightarrow> ac_instanceAdminRole u = Some ''admin''"

text \<open>The list is behind a dialog that is open.\<close>

definition list_free :: "users_page \<Rightarrow> bool" where
  "list_free st \<longleftrightarrow> ro_chosen (us_delete st) = None \<and> ro_chosen (us_reset st) = None \<and> ro_chosen (us_resetMfa st) = None
     \<and> rp_pending (us_patch st) = None \<and> \<not> us_inviteOpen st"

definition no_patch :: "string \<Rightarrow> account_patch" where
  "no_patch i = \<lparr>ap_id = i, ap_instanceAdminRole = None, ap_disabled = None, ap_canManageDashboardDefaults = None\<rparr>"

datatype users_event = Me_loaded | Users_loaded "account list"
  | Delete_op "account row_event" | Reset_op "account row_event" | Reset_mfa_op "account row_event"
  | Set_admin account bool | Set_defaults account bool | Toggle_disabled account | Patch_call "account_patch replay_event"
  | Open_invite | Close_invite | Invite_form "invite_edit late_event"

text \<open>The buttons of a row, with the conditions under which each is shown and enabled.\<close>

fun chosen_if :: "(account \<Rightarrow> bool) \<Rightarrow> account row_event \<Rightarrow> account row_op \<Rightarrow> account row_op" where
  "chosen_if allowed (Choose_row u) r = (if allowed u then row_step u_username (Choose_row u) r else r)"
| "chosen_if allowed ev r = row_step u_username ev r"

definition patch_row :: "bool \<Rightarrow> account_patch \<Rightarrow> users_page \<Rightarrow> users_page" where
  "patch_row allowed p st = (if allowed then st\<lparr>us_patch := replay_step (Mutate p) (us_patch st)\<rparr> else st)"

(* src features/settings/UsersPage.tsx 130-277 UsersPage *)
fun users_step :: "string \<Rightarrow> users_event \<Rightarrow> users_page \<Rightarrow> users_page" where
  "users_step self Me_loaded st = st\<lparr>us_me := Some self\<rparr>"
| "users_step self (Users_loaded us) st = st\<lparr>us_list := us\<rparr>"
| "users_step self (Delete_op ev) st = st\<lparr>us_delete := chosen_if
     (\<lambda>u. u \<in> set (us_list st) \<and> list_free st \<and> \<not> isSelf st u \<and> \<not> ro_busy (us_delete st)) ev (us_delete st)\<rparr>"
| "users_step self (Reset_op ev) st = st\<lparr>us_reset := chosen_if
     (\<lambda>u. u \<in> set (us_list st) \<and> list_free st \<and> u_authSource u = ''local'' \<and> \<not> ro_busy (us_reset st)) ev (us_reset st)\<rparr>"
| "users_step self (Reset_mfa_op ev) st = st\<lparr>us_resetMfa := chosen_if
     (\<lambda>u. u \<in> set (us_list st) \<and> list_free st \<and> u_authSource u = ''local'' \<and> ac_mfaEnabled u = Some True \<and> \<not> ro_busy (us_resetMfa st))
     ev (us_resetMfa st)\<rparr>"
| "users_step self (Set_admin u b) st = patch_row (u \<in> set (us_list st) \<and> list_free st \<and> \<not> isSelf st u)
     ((no_patch (u_id u))\<lparr>ap_instanceAdminRole := Some (if b then ''admin'' else ''user'')\<rparr>) st"
| "users_step self (Set_defaults u b) st = patch_row (u \<in> set (us_list st) \<and> list_free st \<and> isAdmin u)
     ((no_patch (u_id u))\<lparr>ap_canManageDashboardDefaults := Some b\<rparr>) st"
| "users_step self (Toggle_disabled u) st = patch_row (u \<in> set (us_list st) \<and> list_free st \<and> \<not> isSelf st u)
     ((no_patch (u_id u))\<lparr>ap_disabled := Some (u_disabled u \<noteq> Some True)\<rparr>) st"
| "users_step self (Patch_call ev) st = (if is_mutate ev then st else st\<lparr>us_patch := replay_step ev (us_patch st)\<rparr>)"
| "users_step self Open_invite st = (if list_free st then st\<lparr>us_inviteOpen := True\<rparr> else st)"
| "users_step self Close_invite st = st\<lparr>us_inviteOpen := False\<rparr>"
| "users_step self (Invite_form ev) st = (case ev of
       Late_call e \<Rightarrow> st\<lparr>us_invite := invite_step ev (us_invite st),
         us_inviteOpen := us_inviteOpen st \<and> \<not> accepts e (lf_replay (us_invite st))\<rparr>
     | _ \<Rightarrow> if us_inviteOpen st then st\<lparr>us_invite := invite_step ev (us_invite st)\<rparr> else st)"

abbreviation users_run :: "string \<Rightarrow> users_event list \<Rightarrow> users_page" where
  "users_run self es \<equiv> fold (users_step self) es users_init"

subsection \<open>Nobody shuts themselves out\<close>

text \<open>All that is known of the variables of a request that may be repeated.\<close>

definition replay_all :: "('v \<Rightarrow> bool) \<Rightarrow> 'v replay \<Rightarrow> bool" where
  "replay_all P st \<longleftrightarrow> (case rp_pending st of Some v \<Rightarrow> P v | None \<Rightarrow> True) \<and> list_all P (rp_flight st) \<and> list_all (\<lambda>(v, t, p). P v) (rp_calls st)"

lemma replay_all_answer: "replay_all P st \<Longrightarrow> replay_all P (call_answered i a st)"
proof (cases "i < length (rp_calls st)")
  case True
  assume all: "replay_all P st"
  obtain v t p where c: "rp_calls st ! i = (v, t, p)" by (cases "rp_calls st ! i") auto
  have "P v" using all True c unfolding replay_all_def list_all_iff by (metis (mono_tags, lifting) case_prod_conv nth_mem)
  moreover have "list_all (\<lambda>(v, t, p). P v) ((rp_calls st)[i := (v, t, False)])"
    using all \<open>P v\<close> by (auto simp: replay_all_def list_all_iff dest!: subsetD [OF set_update_subset_insert])
  ultimately show ?thesis using all True c by (cases p) (auto simp: replay_all_def call_answered_def Let_def)
qed (simp add: call_answered_def)

lemma replay_all_step: "replay_all P st \<Longrightarrow> (\<And>v. ev = Mutate v \<Longrightarrow> P v) \<Longrightarrow> replay_all P (replay_step ev st)"
proof (cases ev)
  case (Call_answer i a)
  then show "replay_all P st \<Longrightarrow> ?thesis" by (simp add: replay_all_answer)
qed (auto simp: replay_all_def send_call_def list_all_iff dest: in_set_takeD in_set_dropD split: option.splits)

text \<open>A change does not take the own role or shut the own account.\<close>

definition spares :: "string \<Rightarrow> account_patch \<Rightarrow> bool" where
  "spares self p \<longleftrightarrow> ap_id p \<noteq> self \<or> ap_instanceAdminRole p = None \<and> ap_disabled p = None"

definition tokens_of :: "users_event \<Rightarrow> string set" where
  "tokens_of ev = (case ev of Delete_op e \<Rightarrow> row_brings e | Reset_op e \<Rightarrow> row_brings e | Reset_mfa_op e \<Rightarrow> row_brings e | _ \<Rightarrow> {})"

text \<open>
  Deletions and resets were confirmed with the name of the account and a token, and are for accounts that offer them; nothing takes
  the own account away, whether or not the page knows yet which one it is.
\<close>

definition users_ok :: "string \<Rightarrow> string set \<Rightarrow> users_page \<Rightarrow> bool" where
  "users_ok self tokens st \<longleftrightarrow> row_ok u_username (\<lambda>u. u_id u \<noteq> self) tokens (us_delete st)
     \<and> row_ok u_username (\<lambda>u. u_authSource u = ''local'') tokens (us_reset st)
     \<and> row_ok u_username (\<lambda>u. u_authSource u = ''local'' \<and> ac_mfaEnabled u = Some True) tokens (us_resetMfa st)
     \<and> replay_all (spares self) (us_patch st)"

text \<open>The presses on a row that shut its account: the bin, the box of the role and the one that disables.\<close>

fun aims_at :: "string \<Rightarrow> users_event \<Rightarrow> bool" where
  "aims_at i (Delete_op (Choose_row u)) = (u_id u = i)"
| "aims_at i (Set_admin u b) = (u_id u = i)"
| "aims_at i (Toggle_disabled u) = (u_id u = i)"
| "aims_at i _ = False"

text \<open>The events until the answer that says who is signed in.\<close>

definition before_known :: "users_event list \<Rightarrow> users_event list" where
  "before_known = takeWhile (\<lambda>ev. ev \<noteq> Me_loaded)"

lemma row_ok_chosen_if:
  assumes "row_ok u_username fair tokens r" "row_brings ev \<subseteq> tokens" "\<And>u. allowed u \<Longrightarrow> fair u"
  shows "row_ok u_username fair tokens (chosen_if allowed ev r)"
proof (cases "\<exists>u. ev = Choose_row u \<and> \<not> allowed u")
  case False
  then have "chosen_if allowed ev r = row_step u_username ev r" by (cases ev) auto
  moreover have "row_ok u_username fair tokens (row_step u_username ev r)"
    using assms False by (intro row_ok_step) auto
  ultimately show ?thesis by simp
qed (use assms in auto)

lemma users_ok_step:
  assumes "users_ok self tokens st" "tokens_of ev \<subseteq> tokens" "us_me st = Some self \<or> \<not> aims_at self ev"
  shows "users_ok self tokens (users_step self ev st)"
proof (cases ev)
  case (Delete_op e)
  show ?thesis
  proof (cases "us_me st = Some self")
    case True
    then show ?thesis using assms(1,2) Delete_op
      by (auto simp: users_ok_def tokens_of_def isSelf_def intro!: row_ok_chosen_if simp del: replay_step.simps)
  next
    case False
    have "row_ok u_username (\<lambda>u. u_id u \<noteq> self) tokens (chosen_if allowed e (us_delete st))" for allowed
    proof (cases "\<exists>u. e = Choose_row u")
      case True
      then obtain u where u: "e = Choose_row u" "u_id u \<noteq> self" using assms(3) False Delete_op by auto
      then show ?thesis using assms(1) by (cases "allowed u") (auto simp: users_ok_def row_ok_def)
    next
      case no: False
      have "chosen_if allowed e (us_delete st) = row_step u_username e (us_delete st)" using no by (cases e) auto
      then show ?thesis using assms(1,2) no Delete_op
        by (auto simp: users_ok_def tokens_of_def intro!: row_ok_step simp del: row_step.simps)
    qed
    then show ?thesis using assms(1) Delete_op by (simp add: users_ok_def)
  qed
next
  case (Patch_call e)
  then show ?thesis using assms(1) by (cases e) (auto simp: users_ok_def intro: replay_all_step simp del: replay_step.simps)
next
  case (Invite_form e)
  then show ?thesis using assms(1) by (cases e) (auto simp: users_ok_def)
qed (use assms in \<open>auto simp: users_ok_def tokens_of_def isSelf_def patch_row_def no_patch_def spares_def
      intro!: row_ok_chosen_if replay_all_step simp del: replay_step.simps\<close>)

lemma me_kept: "ev \<noteq> Me_loaded \<Longrightarrow> us_me (users_step self ev st) = us_me st"
  by (cases ev) (auto simp: patch_row_def split: late_event.split)

lemma me_known: "us_me (users_run self es) = (if Me_loaded \<in> set es then Some self else None)"
proof (induction es rule: rev_induct)
  case (snoc ev es)
  then show ?case by (cases "ev = Me_loaded") (auto simp: me_kept simp del: users_step.simps(2-))
qed (simp add: users_init_def)

lemma users_ok_mono: "users_ok self tokens st \<Longrightarrow> tokens \<subseteq> tokens' \<Longrightarrow> users_ok self tokens' st"
  by (auto simp: users_ok_def intro: row_ok_mono)

lemma users_ok_run:
  "list_all (\<lambda>ev. \<not> aims_at self ev) (before_known es) \<Longrightarrow> users_ok self (\<Union> (tokens_of ` set es)) (users_run self es)"
proof (induction es rule: rev_induct)
  case (snoc ev es)
  have aims: "list_all (\<lambda>ev. \<not> aims_at self ev) (before_known es) \<and> (Me_loaded \<in> set es \<or> \<not> aims_at self ev)"
  proof (cases "Me_loaded \<in> set es")
    case True
    then show ?thesis using snoc.prems by (auto simp: before_known_def takeWhile_append1)
  next
    case False
    then have "\<forall>x \<in> set es. x \<noteq> Me_loaded" by auto
    then have "before_known es = es" "before_known (es @ [ev]) = es @ before_known [ev]"
      by (simp_all add: before_known_def takeWhile_eq_all_conv takeWhile_append2)
    moreover have "before_known [ev] = (if ev = Me_loaded then [] else [ev])" by (simp add: before_known_def)
    ultimately show ?thesis using snoc.prems by (cases "ev = Me_loaded") simp_all
  qed
  have "users_ok self (\<Union> (tokens_of ` set (es @ [ev]))) (users_run self es)"
    by (rule users_ok_mono [OF snoc.IH]) (use aims in auto)
  then show ?case using aims by (auto simp: me_known intro!: users_ok_step simp del: users_step.simps)
qed (simp add: users_ok_def users_init_def row_ok_init replay_all_def replay_init_def)

text \<open>
  Claim C33. Unless one of the buttons that shut an account is pressed on the own row before the page knows who is signed in, the page
  never asks to delete the own account, to change its role or to disable it: whatever is clicked, typed or answered before or
  after, however late, and also when a step-up repeats a request. What it deletes was confirmed with the name of that account and,
  where step-up is on, a token that was handed over.
\<close>

theorem own_account_spared:
  assumes "list_all (\<lambda>ev. \<not> aims_at self ev) (before_known es)"
  shows "list_all (\<lambda>q. u_id (ro_row q) \<noteq> self \<and> row_confirmed u_username (\<Union> (tokens_of ` set es)) q) (ro_sent (us_delete (users_run self es)))
   \<and> list_all (\<lambda>(p, t, w). spares self p) (rp_calls (us_patch (users_run self es)))"
  using users_ok_run [OF assms] by (simp add: users_ok_def row_ok_def replay_all_def list_all_iff)

text \<open>
  Another account is chosen before the profile is loaded and deleted after it; the bin and the box of the own row do nothing then, and
  a change of the other account is repeated with a token.
\<close>

definition an_account :: "string \<Rightarrow> account" where
  "an_account i = \<lparr>u_id = i, u_username = i, u_displayName = None, u_email = None, u_role = ''admin'', u_authSource = ''local'', u_disabled = None, u_canManageDashboardDefaults = None, u_createdAt = [],
     ac_instanceAdminRole = Some ''admin'', ac_mfaEnabled = None\<rparr>"

definition busy_day :: "users_event list" where
  "busy_day = [Users_loaded [an_account ''ann'', an_account ''bob''], Delete_op (Choose_row (an_account ''bob'')), Me_loaded,
     Delete_op (Row_config False), Delete_op (Row_box (Box_type ''bob'')), Delete_op Confirm_row, Delete_op (Row_answer True),
     Delete_op (Choose_row (an_account ''ann'')), Toggle_disabled (an_account ''ann''),
     Toggle_disabled (an_account ''bob''), Patch_call (Call_answer 0 Elevation_required), Patch_call Submit_replay_step_up,
     Patch_call (Step_up_done 0 ''t1'')]"

lemma own_account_spared_witness:
  "list_all (\<lambda>q. u_id (ro_row q) \<noteq> ''ann'' \<and> row_confirmed u_username (\<Union> (tokens_of ` set busy_day)) q)
       (ro_sent (us_delete (users_run ''ann'' busy_day)))
   \<and> list_all (\<lambda>(p, t, w). spares ''ann'' p) (rp_calls (us_patch (users_run ''ann'' busy_day)))
   \<and> map (\<lambda>q. u_id (ro_row q)) (ro_sent (us_delete (users_run ''ann'' busy_day))) = [''bob'']
   \<and> map (\<lambda>(p, t, w). (ap_id p, t)) (rp_calls (us_patch (users_run ''ann'' busy_day))) = [(''bob'', None), (''bob'', Some ''t1'')]"
proof -
  have h: "list_all (\<lambda>ev. \<not> aims_at ''ann'' ev) (before_known busy_day)" by code_simp
  have "map (\<lambda>q. u_id (ro_row q)) (ro_sent (us_delete (users_run ''ann'' busy_day))) = [''bob'']" by code_simp
  moreover have "map (\<lambda>(p, t, w). (ap_id p, t)) (rp_calls (us_patch (users_run ''ann'' busy_day))) = [(''bob'', None), (''bob'', Some ''t1'')]"
    by code_simp
  ultimately show ?thesis using own_account_spared [OF h] by simp
qed

text \<open>
  The condition is needed: the dialog of the own row that is opened too early still deletes the account after the page knows whose it
  is, since only the button looks at it.
\<close>

lemma early_dialog_deletes_self:
  "map (\<lambda>q. u_id (ro_row q)) (ro_sent (us_delete (users_run ''ann''
     [Users_loaded [an_account ''ann''], Delete_op (Choose_row (an_account ''ann'')), Me_loaded, Delete_op (Row_config False),
      Delete_op (Row_box (Box_type ''ann'')), Delete_op Confirm_row]))) = [''ann'']"
  by code_simp

text \<open>Passwords and second factors are only reset for accounts that have them here.\<close>

definition resets_ok :: "string set \<Rightarrow> users_page \<Rightarrow> bool" where
  "resets_ok tokens st \<longleftrightarrow> row_ok u_username (\<lambda>u. u_authSource u = ''local'') tokens (us_reset st)
     \<and> row_ok u_username (\<lambda>u. u_authSource u = ''local'' \<and> ac_mfaEnabled u = Some True) tokens (us_resetMfa st)"

lemma resets_ok_step: "resets_ok tokens st \<Longrightarrow> tokens_of ev \<subseteq> tokens \<Longrightarrow> resets_ok tokens (users_step self ev st)"
  by (cases ev) (auto simp: resets_ok_def tokens_of_def patch_row_def intro!: row_ok_chosen_if split: late_event.split simp del: replay_step.simps)

lemma resets_fit:
  "list_all (\<lambda>q. u_authSource (ro_row q) = ''local'') (ro_sent (us_reset (users_run self es)))
   \<and> list_all (\<lambda>q. ac_mfaEnabled (ro_row q) = Some True) (ro_sent (us_resetMfa (users_run self es)))"
proof -
  have "resets_ok (\<Union> (tokens_of ` set es)) (users_run self es)"
  proof (induction es rule: rev_induct)
    case (snoc ev es)
    have "resets_ok (\<Union> (tokens_of ` set (es @ [ev]))) (users_run self es)"
      using snoc.IH by (auto simp: resets_ok_def intro: row_ok_mono)
    then show ?case by (simp add: resets_ok_step del: users_step.simps)
  qed (simp add: resets_ok_def users_init_def row_ok_init)
  then show ?thesis by (simp add: resets_ok_def row_ok_def list_all_iff)
qed

text \<open>Until the page knows who is signed in, the own account can be disabled like any other.\<close>

lemma unknown_self_not_spared:
  "us_list st = [u] \<Longrightarrow> list_free st \<Longrightarrow> us_me st = None \<Longrightarrow> \<not> awaited (us_patch st) \<Longrightarrow>
     rp_calls (us_patch (users_step (u_id u) (Toggle_disabled u) st)) = rp_calls (us_patch st)
       @ [((no_patch (u_id u))\<lparr>ap_disabled := Some (u_disabled u \<noteq> Some True)\<rparr>, None, True)]"
  by (simp add: patch_row_def isSelf_def list_free_def send_call_def)

end
