(* ===== verification/Mfa.thy ===== *)
theory Mfa
  imports RowOps
begin

text \<open>
  The second factors of the own account (\<open>features/settings/ProfileSecurity.tsx\<close>): the dialog that enrols an
  authenticator app, the recovery codes shown once, their regeneration, the registration of a security key and
  the removal of a factor, as machines over clicks and the answers of the server in any order.
\<close>

subsection \<open>Enrolling an authenticator app\<close>

(* src api/model/totpEnrollment.ts 10-16 TotpEnrollment *)
record totp_enrollment =
  te_factorId :: string
  te_secret :: string
  te_otpauthUrl :: string

text \<open>
  A begin request: unanswered, answered and its picture being drawn (which the query library still counts as pending),
  finished, or failed.
\<close>

datatype begin_state = Begin_asked | Begin_drawing totp_enrollment | Begin_done | Begin_failed

record confirm_call =
  cc_factorId :: string
  cc_code :: string
  cc_pending :: bool

text \<open>
  The picture is recorded by the address it was drawn from. Beside the state of the component: the requests, the step-ups under
  way, the tick under the codes, the access tokens taken over, and the codes that were delivered and dismissed.
\<close>

(* src features/settings/ProfileSecurity.tsx 340-348 MfaEnrollDialog *)
record enrol =
  en_open :: bool
  en_factor :: "totp_enrollment option"
  en_qr :: "string option"
  en_code :: string
  en_savedCodes :: "string list option"
  en_needsStepUp :: bool
  en_stepUps :: nat
  en_begins :: "(string option \<times> begin_state) list"
  en_watched :: "nat option"
  en_confirms :: "confirm_call list"
  en_ticked :: bool
  en_access :: "string list"
  en_delivered :: "string list list"
  en_dismissed :: "string list list"

definition enrol_init :: enrol where
  "enrol_init = \<lparr>en_open = False, en_factor = None, en_qr = None, en_code = [], en_savedCodes = None, en_needsStepUp = False,
     en_stepUps = 0, en_begins = [], en_watched = None, en_confirms = [], en_ticked = False, en_access = [], en_delivered = [], en_dismissed = []\<rparr>"

definition begin_is :: "(begin_state \<Rightarrow> bool) \<Rightarrow> enrol \<Rightarrow> bool" where
  "begin_is P st \<longleftrightarrow> (case en_watched st of Some i \<Rightarrow> i < length (en_begins st) \<and> P (snd (en_begins st ! i)) | None \<Rightarrow> False)"

fun is_pending :: "begin_state \<Rightarrow> bool" where
  "is_pending Begin_asked = True"
| "is_pending (Begin_drawing e) = True"
| "is_pending _ = False"

definition begin_mutate :: "string option \<Rightarrow> enrol \<Rightarrow> enrol" where
  "begin_mutate token st = st\<lparr>en_watched := Some (length (en_begins st)), en_begins := en_begins st @ [(token, Begin_asked)]\<rparr>"

text \<open>At every rendering: an open dialog without a factor begins.\<close>

(* src features/settings/ProfileSecurity.tsx 399-402 MfaEnrollDialog *)
definition auto_begin :: "enrol \<Rightarrow> enrol" where
  "auto_begin st = (if en_open st \<and> en_factor st = None \<and> \<not> begin_is is_pending st \<and> \<not> begin_is (\<lambda>b. b = Begin_failed) st
     then begin_mutate None st else st)"

(* src features/settings/ProfileSecurity.tsx 384-392 close *)
definition close_enrol :: "enrol \<Rightarrow> enrol" where
  "close_enrol st = st\<lparr>en_factor := None, en_qr := None, en_code := [], en_savedCodes := None, en_ticked := False, en_needsStepUp := False,
     en_watched := None, en_open := False\<rparr>"

text \<open>\<open>isElevationRequired\<close> or another error.\<close>

datatype begin_answer = Begin_ok totp_enrollment | Begin_elevation | Begin_error

(* src features/settings/ProfileSecurity.tsx 350-364 begin *)
definition begin_answered :: "nat \<Rightarrow> begin_answer \<Rightarrow> enrol \<Rightarrow> enrol" where
  "begin_answered i a st =
     (if i < length (en_begins st) \<and> snd (en_begins st ! i) = Begin_asked
      then (let set_state = (\<lambda>b. st\<lparr>en_begins := (en_begins st)[i := (fst (en_begins st ! i), b)]\<rparr>)
        in case a of
             Begin_ok e \<Rightarrow> (set_state (Begin_drawing e))\<lparr>en_factor := Some e\<rparr>
           | Begin_elevation \<Rightarrow> (set_state Begin_failed)\<lparr>en_needsStepUp := True\<rparr>
           | Begin_error \<Rightarrow> set_state Begin_failed)
      else st)"

(* src features/settings/ProfileSecurity.tsx 352-356 begin *)
definition qr_drawn :: "nat \<Rightarrow> bool \<Rightarrow> enrol \<Rightarrow> enrol" where
  "qr_drawn i success st =
     (if i < length (en_begins st)
      then (case en_begins st ! i of
          (t, Begin_drawing e) \<Rightarrow> (if success
             then st\<lparr>en_begins := (en_begins st)[i := (t, Begin_done)], en_qr := Some (te_otpauthUrl e)\<rparr>
             else st\<lparr>en_begins := (en_begins st)[i := (t, Begin_failed)]\<rparr>)
        | _ \<Rightarrow> st)
      else st)"

text \<open>The answer of a confirmation: an access token and recovery codes, each where the server sends them.\<close>

datatype confirm_answer = Confirm_ok "string option" "string list option" | Confirm_error

(* src features/settings/ProfileSecurity.tsx 366-382 confirm *)
definition confirm_answered :: "nat \<Rightarrow> confirm_answer \<Rightarrow> enrol \<Rightarrow> enrol" where
  "confirm_answered i a st =
     (if i < length (en_confirms st) \<and> cc_pending (en_confirms st ! i)
      then (let st' = st\<lparr>en_confirms := (en_confirms st)[i := (en_confirms st ! i)\<lparr>cc_pending := False\<rparr>]\<rparr>
        in case a of
             Confirm_error \<Rightarrow> st'
           | Confirm_ok access codes \<Rightarrow>
               (let st'' = (if truthy_token access then st'\<lparr>en_access := en_access st @ [the access]\<rparr> else st')
                in case codes of
                     Some cs \<Rightarrow> st''\<lparr>en_savedCodes := Some cs, en_ticked := (en_savedCodes st \<noteq> None \<and> en_ticked st),
                       en_delivered := en_delivered st @ [cs]\<rparr>
                   | None \<Rightarrow> close_enrol st''))
      else st)"

definition confirming :: "enrol \<Rightarrow> bool" where
  "confirming st \<longleftrightarrow> en_confirms st \<noteq> [] \<and> cc_pending (last (en_confirms st))"

text \<open>What the dialog shows.\<close>

datatype enrol_screen = Codes_view | Step_up_view | Loading_view | Code_form

(* src features/settings/ProfileSecurity.tsx 411-425 MfaEnrollDialog *)
definition enrol_view :: "enrol \<Rightarrow> enrol_screen" where
  "enrol_view st = (if en_savedCodes st \<noteq> None then Codes_view
     else if en_factor st = None then (if en_needsStepUp st then Step_up_view else Loading_view) else Code_form)"

definition sees :: "enrol_screen \<Rightarrow> enrol \<Rightarrow> bool" where
  "sees v st \<longleftrightarrow> en_open st \<and> enrol_view st = v"

datatype enrol_input = Open_enrol | Cancel_enrol | Begin_answer nat begin_answer | Qr_drawn nat bool | Submit_enrol_step_up
  | Enrol_elevated string | Type_code string | Submit_code | Confirm_answer nat confirm_answer | Tick_saved bool | Done_codes

(* src features/settings/ProfileSecurity.tsx 404-480 MfaEnrollDialog *)
fun enrol_event :: "enrol_input \<Rightarrow> enrol \<Rightarrow> enrol" where
  "enrol_event Open_enrol st = st\<lparr>en_open := True\<rparr>"
| "enrol_event Cancel_enrol st = (if en_open st \<and> en_savedCodes st = None then close_enrol st else st)"
| "enrol_event (Begin_answer i a) st = begin_answered i a st"
| "enrol_event (Qr_drawn i success) st = qr_drawn i success st"
| "enrol_event Submit_enrol_step_up st = (if sees Step_up_view st then st\<lparr>en_stepUps := Suc (en_stepUps st)\<rparr> else st)"
| "enrol_event (Enrol_elevated t) st = (if 0 < en_stepUps st
     then begin_mutate (if t \<noteq> [] then Some t else None) (st\<lparr>en_stepUps := en_stepUps st - 1, en_needsStepUp := False\<rparr>) else st)"
| "enrol_event (Type_code s) st = (if sees Code_form st then st\<lparr>en_code := s\<rparr> else st)"
| "enrol_event Submit_code st = (if sees Code_form st \<and> en_code st \<noteq> [] \<and> \<not> confirming st
     then st\<lparr>en_confirms := en_confirms st @ [\<lparr>cc_factorId = te_factorId (the (en_factor st)), cc_code = en_code st, cc_pending = True\<rparr>]\<rparr> else st)"
| "enrol_event (Confirm_answer i a) st = confirm_answered i a st"
| "enrol_event (Tick_saved b) st = (if sees Codes_view st then st\<lparr>en_ticked := b\<rparr> else st)"
| "enrol_event Done_codes st = (if sees Codes_view st \<and> en_ticked st
     then (close_enrol st)\<lparr>en_dismissed := en_dismissed st @ [the (en_savedCodes st)]\<rparr> else st)"

definition enrol_step :: "enrol_input \<Rightarrow> enrol \<Rightarrow> enrol" where
  "enrol_step ev st = auto_begin (enrol_event ev st)"

abbreviation enrol_run :: "enrol_input list \<Rightarrow> enrol" where
  "enrol_run es \<equiv> fold enrol_step es enrol_init"

subsection \<open>Codes are not lost\<close>

definition shown_codes :: "enrol \<Rightarrow> string list list" where
  "shown_codes st = (case en_savedCodes st of Some cs \<Rightarrow> [cs] | None \<Rightarrow> [])"

text \<open>
  Delivered codes are the dismissed ones and those on display; only the newest confirmation can be unanswered, and none is while
  codes are on display; an enrolment with a token was refused without one.
\<close>

definition carries_token :: "(string option \<times> begin_state) list \<Rightarrow> bool" where
  "carries_token bs \<longleftrightarrow> list_ex (\<lambda>t. t \<noteq> None) (map fst bs)"

definition refused :: "(string option \<times> begin_state) list \<Rightarrow> bool" where
  "refused bs \<longleftrightarrow> list_ex (\<lambda>b. b = Begin_failed) (map snd bs)"

definition enrol_ok :: "enrol \<Rightarrow> bool" where
  "enrol_ok st \<longleftrightarrow> en_delivered st = en_dismissed st @ shown_codes st
     \<and> list_all (\<lambda>c. \<not> cc_pending c) (butlast (en_confirms st)) \<and> (en_savedCodes st \<noteq> None \<longrightarrow> \<not> confirming st)
     \<and> (en_needsStepUp st \<or> 0 < en_stepUps st \<or> carries_token (en_begins st) \<longrightarrow> refused (en_begins st))"

lemma pending_last:
  assumes "list_all (\<lambda>c. \<not> cc_pending c) (butlast cs)" "i < length cs" "cc_pending (cs ! i)"
  shows "Suc i = length cs" "cs \<noteq> []" "last cs = cs ! i"
proof -
  show *: "Suc i = length cs"
  proof (rule ccontr)
    assume "Suc i \<noteq> length cs"
    then have "i < length (butlast cs)" "butlast cs ! i = cs ! i" using assms(2) by (auto simp: nth_butlast)
    then show False using assms by (auto simp: list_all_length)
  qed
  then show "cs \<noteq> []" by auto
  then show "last cs = cs ! i" using * by (simp add: last_conv_nth flip: *)
qed

lemma enrol_ok_confirm:
  assumes "enrol_ok st"
  shows "enrol_ok (confirm_answered i a st)"
proof (cases "i < length (en_confirms st) \<and> cc_pending (en_confirms st ! i)")
  case True
  have none: "list_all (\<lambda>c. \<not> cc_pending c) (butlast (en_confirms st))" using assms by (simp add: enrol_ok_def)
  note l = pending_last [OF none, of i]
  have "confirming st" using True l by (simp add: confirming_def)
  then have saved: "en_savedCodes st = None" using assms by (auto simp: enrol_ok_def)
  let ?cs = "(en_confirms st)[i := (en_confirms st ! i)\<lparr>cc_pending := False\<rparr>]"
  have cs: "butlast ?cs = butlast (en_confirms st)" "?cs \<noteq> []" "last ?cs = (en_confirms st ! i)\<lparr>cc_pending := False\<rparr>"
    using l True by (auto simp: butlast_list_update last_list_update)
  then show ?thesis using assms True saved
    by (auto simp: enrol_ok_def confirm_answered_def confirming_def shown_codes_def close_enrol_def Let_def split: confirm_answer.split option.split)
qed (use assms in \<open>auto simp: confirm_answered_def\<close>)

lemma carries_update: "i < length bs \<Longrightarrow> fst (bs ! i) = t \<Longrightarrow> carries_token (bs[i := (t, b)]) = carries_token bs"
  using list_update_id [of "map fst bs" i] by (simp add: carries_token_def map_update)

lemma refused_update: "i < length bs \<Longrightarrow> refused (bs[i := (t, Begin_failed)])"
  by (auto simp: refused_def map_update list_ex_iff intro: set_update_memI)

lemma refused_keeps: "refused bs \<Longrightarrow> i < length bs \<Longrightarrow> snd (bs ! i) \<noteq> Begin_failed \<Longrightarrow> refused (bs[i := (t, b)])"
  unfolding refused_def map_update list_ex_length by (metis length_list_update length_map nth_list_update_neq nth_map snd_conv)

lemma begins_snoc: "carries_token (bs @ [(t, b)]) \<longleftrightarrow> carries_token bs \<or> t \<noteq> None" "refused bs \<Longrightarrow> refused (bs @ [(t, b)])"
  by (auto simp: carries_token_def refused_def)

lemma enrol_ok_begin:
  assumes "enrol_ok st"
  shows "enrol_ok (begin_answered i a st)"
proof (cases "i < length (en_begins st) \<and> snd (en_begins st ! i) = Begin_asked")
  case True
  have "refused ((en_begins st)[i := (fst (en_begins st ! i), b)])" if "refused (en_begins st)" for b
    using that True by (intro refused_keeps) auto
  then show ?thesis using assms True
    by (auto simp: enrol_ok_def begin_answered_def shown_codes_def confirming_def carries_update refused_update Let_def split: begin_answer.split)
qed (use assms in \<open>auto simp: begin_answered_def\<close>)

lemma enrol_ok_qr:
  assumes "enrol_ok st"
  shows "enrol_ok (qr_drawn i success st)"
proof (cases "\<exists>t e. i < length (en_begins st) \<and> en_begins st ! i = (t, Begin_drawing e)")
  case True
  then obtain t e where i: "i < length (en_begins st)" "en_begins st ! i = (t, Begin_drawing e)" by blast
  have "refused ((en_begins st)[i := (t, b)])" if "refused (en_begins st)" for b
    using that i by (intro refused_keeps) auto
  then show ?thesis using assms i
    by (auto simp: enrol_ok_def qr_drawn_def shown_codes_def confirming_def refused_update carries_update)
next
  case False
  then have "qr_drawn i success st = st" by (auto simp: qr_drawn_def split: prod.split begin_state.split)
  then show ?thesis using assms by simp
qed

lemma enrol_ok_auto: "enrol_ok st \<Longrightarrow> enrol_ok (auto_begin st)"
  by (auto simp: auto_begin_def begin_mutate_def enrol_ok_def shown_codes_def confirming_def begins_snoc)

lemma enrol_ok_event:
  assumes "enrol_ok st"
  shows "enrol_ok (enrol_event ev st)"
proof (cases ev)
  case (Begin_answer i a)
  then show ?thesis using assms by (simp add: enrol_ok_begin)
next
  case (Qr_drawn i b)
  then show ?thesis using assms by (simp add: enrol_ok_qr)
next
  case (Confirm_answer i a)
  then show ?thesis using assms by (simp add: enrol_ok_confirm)
next
  case Submit_code
  have "list_all (\<lambda>c. \<not> cc_pending c) (en_confirms st)" if "\<not> confirming st"
    using assms that by (cases "en_confirms st" rule: rev_cases) (auto simp: enrol_ok_def confirming_def)
  then show ?thesis using assms Submit_code by (auto simp: enrol_ok_def sees_def enrol_view_def shown_codes_def confirming_def)
qed (use assms in \<open>auto simp: enrol_ok_def close_enrol_def shown_codes_def confirming_def begin_mutate_def sees_def enrol_view_def begins_snoc split: if_splits\<close>)

lemma enrol_ok_step: "enrol_ok st \<Longrightarrow> enrol_ok (enrol_step ev st)"
  by (simp add: enrol_step_def enrol_ok_auto enrol_ok_event del: enrol_event.simps)

interpretation enrolment: started_machine enrol_step "\<lambda>ev. True" enrol_ok enrol_init
  by unfold_locales (rule enrol_ok_step, assumption, simp add: enrol_ok_def enrol_init_def shown_codes_def carries_token_def)

text \<open>The codes on display: the dialog holds them and is open.\<close>

definition displayed :: "enrol \<Rightarrow> string list list" where
  "displayed st = (if en_open st then shown_codes st else [])"

text \<open>The codes that an answer to a confirmation under way delivers.\<close>

definition arriving :: "enrol_input \<Rightarrow> enrol \<Rightarrow> string list option" where
  "arriving ev st = (case ev of
       Confirm_answer i (Confirm_ok access codes) \<Rightarrow> (if i < length (en_confirms st) \<and> cc_pending (en_confirms st ! i) then codes else None)
     | _ \<Rightarrow> None)"

text \<open>
  One event: codes on display stay, with their tick unless the box is clicked, until they are dismissed under the tick; codes that arrive
  never replace others, are unticked, and are on display if the dialog is open; held by a closed dialog they stay until it is
  opened, which displays them.
\<close>

definition codes_step :: "enrol_input \<Rightarrow> enrol \<Rightarrow> enrol \<Rightarrow> bool" where
  "codes_step ev st st' \<longleftrightarrow>
     (displayed st \<noteq> [] \<longrightarrow>
        (if ev = Done_codes \<and> en_ticked st
         then shown_codes st' = [] \<and> en_dismissed st' = en_dismissed st @ displayed st
         else displayed st' = displayed st \<and> en_dismissed st' = en_dismissed st \<and> (en_ticked st' = en_ticked st \<or> ev = Tick_saved (en_ticked st'))))
     \<and> (case arriving ev st of
          Some cs \<Rightarrow> shown_codes st = [] \<and> shown_codes st' = [cs] \<and> en_open st' = en_open st \<and> \<not> en_ticked st'
        | None \<Rightarrow> shown_codes st = [] \<longrightarrow> shown_codes st' = [])
     \<and> (\<not> en_open st \<longrightarrow> en_open st' = (ev = Open_enrol) \<and> en_dismissed st' = en_dismissed st
          \<and> (shown_codes st \<noteq> [] \<longrightarrow> shown_codes st' = shown_codes st))"

lemma auto_begin_codes [simp]: "shown_codes (auto_begin st) = shown_codes st" "displayed (auto_begin st) = displayed st"
  "en_dismissed (auto_begin st) = en_dismissed st" "en_ticked (auto_begin st) = en_ticked st" "en_open (auto_begin st) = en_open st"
  by (auto simp: auto_begin_def begin_mutate_def shown_codes_def displayed_def)

lemma begin_codes [simp]:
  "en_savedCodes (begin_answered i a st) = en_savedCodes st" "en_savedCodes (qr_drawn i b st) = en_savedCodes st"
  "en_open (begin_answered i a st) = en_open st" "en_open (qr_drawn i b st) = en_open st"
  "en_dismissed (begin_answered i a st) = en_dismissed st" "en_dismissed (qr_drawn i b st) = en_dismissed st"
  "en_ticked (begin_answered i a st) = en_ticked st" "en_ticked (qr_drawn i b st) = en_ticked st"
  by (auto simp: begin_answered_def qr_drawn_def Let_def split: begin_answer.split prod.split begin_state.split)

lemma codes_confirm:
  assumes "enrol_ok st"
  shows "codes_step (Confirm_answer i a) st (confirm_answered i a st)"
proof (cases "i < length (en_confirms st) \<and> cc_pending (en_confirms st ! i)")
  case True
  have none: "list_all (\<lambda>c. \<not> cc_pending c) (butlast (en_confirms st))" using assms by (simp add: enrol_ok_def)
  have "confirming st" using True pending_last [OF none, of i] by (simp add: confirming_def)
  then have "en_savedCodes st = None" using assms by (auto simp: enrol_ok_def)
  then show ?thesis using True
    by (auto simp: codes_step_def arriving_def confirm_answered_def displayed_def shown_codes_def close_enrol_def Let_def
          split: confirm_answer.split option.split)
qed (auto simp: codes_step_def arriving_def confirm_answered_def displayed_def split: confirm_answer.split)

lemma codes_step_event: "enrol_ok st \<Longrightarrow> codes_step ev st (enrol_event ev st)"
proof (cases ev)
  case (Confirm_answer i a)
  then show "enrol_ok st \<Longrightarrow> ?thesis" by (simp add: codes_confirm)
qed (auto simp: codes_step_def arriving_def displayed_def shown_codes_def sees_def enrol_view_def close_enrol_def begin_mutate_def
       split: option.splits)

lemma codes_step_auto: "codes_step ev st st' \<Longrightarrow> codes_step ev st (auto_begin st')"
  unfolding codes_step_def auto_begin_codes .

text \<open>The begin requests that the server refused because it wants a step-up, as their answers arrive.\<close>

fun refusals :: "enrol_input list \<Rightarrow> enrol \<Rightarrow> nat list" where
  "refusals [] st = []"
| "refusals (ev # es) st =
     (case ev of Begin_answer i Begin_elevation \<Rightarrow> if i < length (en_begins st) \<and> snd (en_begins st ! i) = Begin_asked then [i] else [] | _ \<Rightarrow> [])
     @ refusals es (enrol_step ev st)"

text \<open>A begin request with a token comes after such a refusal of an earlier one.\<close>

definition tokens_asked :: "nat list \<Rightarrow> (string option \<times> begin_state) list \<Rightarrow> bool" where
  "tokens_asked rs bs \<longleftrightarrow> (\<forall>k < length bs. fst (bs ! k) = None \<or> list_ex (\<lambda>i. i < k) rs)"

definition asked_ok :: "nat list \<Rightarrow> enrol \<Rightarrow> bool" where
  "asked_ok rs st \<longleftrightarrow> tokens_asked rs (en_begins st) \<and> list_all (\<lambda>i. i < length (en_begins st)) rs
     \<and> (en_needsStepUp st \<or> 0 < en_stepUps st \<longrightarrow> rs \<noteq> [])"

definition refused_by :: "enrol_input \<Rightarrow> enrol \<Rightarrow> nat list" where
  "refused_by ev st = refusals [ev] st"

lemma tokens_asked_more: "tokens_asked rs bs \<Longrightarrow> tokens_asked (rs @ rs') bs"
  by (auto simp: tokens_asked_def)

lemma tokens_asked_update: "tokens_asked rs bs \<Longrightarrow> i < length bs \<Longrightarrow> tokens_asked rs (bs[i := (fst (bs ! i), b)])"
  by (auto simp: tokens_asked_def nth_list_update)

lemma tokens_asked_snoc:
  "tokens_asked rs bs \<Longrightarrow> list_all (\<lambda>i. i < length bs) rs \<Longrightarrow> t = None \<or> rs \<noteq> [] \<Longrightarrow> tokens_asked rs (bs @ [(t, b)])"
  by (cases rs) (auto simp: tokens_asked_def nth_append less_Suc_eq)

lemma asked_ok_begin: "asked_ok rs st \<Longrightarrow> t = None \<or> rs \<noteq> [] \<Longrightarrow> asked_ok rs (begin_mutate t st)"
  by (auto simp: asked_ok_def begin_mutate_def list_all_iff intro!: tokens_asked_snoc)

lemma asked_ok_same:
  "asked_ok rs st \<Longrightarrow> en_begins st' = en_begins st \<Longrightarrow> (en_needsStepUp st' \<longrightarrow> en_needsStepUp st) \<Longrightarrow> en_stepUps st' \<le> en_stepUps st \<Longrightarrow> asked_ok rs st'"
  by (auto simp: asked_ok_def)

lemma asked_ok_event:
  assumes "asked_ok rs st"
  shows "asked_ok (rs @ refused_by ev st) (enrol_event ev st)"
proof (cases ev)
  case (Begin_answer i a)
  show ?thesis
  proof (cases "i < length (en_begins st) \<and> snd (en_begins st ! i) = Begin_asked")
    case True
    then have *: "tokens_asked (rs @ rs') ((en_begins st)[i := (fst (en_begins st ! i), b)])" for rs' b
      using assms by (simp add: asked_ok_def tokens_asked_update tokens_asked_more)
    show ?thesis using assms True * [where rs' = "[]"] * [where rs' = "[i]"] Begin_answer
      by (cases a) (auto simp: refused_by_def begin_answered_def asked_ok_def Let_def)
  next
    case False
    have "begin_answered i a st = st" unfolding begin_answered_def using False by (rule if_not_P)
    moreover have "refused_by ev st = []" using False Begin_answer by (cases a) (auto simp: refused_by_def)
    ultimately show ?thesis using assms Begin_answer by simp
  qed
next
  case (Qr_drawn i b)
  have "asked_ok rs (qr_drawn i b st)"
  proof (cases "\<exists>t e. i < length (en_begins st) \<and> en_begins st ! i = (t, Begin_drawing e)")
    case True
    then obtain t e where "i < length (en_begins st)" "en_begins st ! i = (t, Begin_drawing e)" by blast
    then show ?thesis using assms tokens_asked_update [of rs "en_begins st" i] by (auto simp: qr_drawn_def asked_ok_def list_all_iff)
  next
    case False
    then have "qr_drawn i b st = st" by (auto simp: qr_drawn_def split: prod.split begin_state.split)
    then show ?thesis using assms by simp
  qed
  then show ?thesis using Qr_drawn by (simp add: refused_by_def)
next
  case (Enrol_elevated t)
  have "asked_ok rs (begin_mutate (if t \<noteq> [] then Some t else None) (st\<lparr>en_stepUps := en_stepUps st - 1, en_needsStepUp := False\<rparr>))"
    if "0 < en_stepUps st"
    by (rule asked_ok_begin [OF asked_ok_same [OF assms]]) (use assms that in \<open>auto simp: asked_ok_def\<close>)
  then show ?thesis using Enrol_elevated assms by (simp add: refused_by_def)
next
  case (Confirm_answer i a)
  have "asked_ok rs (confirm_answered i a st)"
    by (rule asked_ok_same [OF assms])
      (auto simp: confirm_answered_def close_enrol_def Let_def split: confirm_answer.split option.split)
  then show ?thesis using Confirm_answer by (simp add: refused_by_def)
next
  case Submit_enrol_step_up
  then show ?thesis using assms by (auto simp: refused_by_def asked_ok_def sees_def enrol_view_def split: if_splits)
qed (auto simp: refused_by_def close_enrol_def intro: asked_ok_same [OF assms])

lemma asked_ok_step:
  assumes "asked_ok rs st"
  shows "asked_ok (rs @ refused_by ev st) (enrol_step ev st)"
  using asked_ok_event [OF assms, of ev] by (auto simp: enrol_step_def auto_begin_def intro: asked_ok_begin simp del: enrol_event.simps)

lemma refusals_snoc: "refusals (es @ [ev]) st = refusals es st @ refused_by ev (fold enrol_step es st)"
  by (induction es arbitrary: st) (simp_all add: refused_by_def)

lemma asked_ok_run: "asked_ok (refusals es enrol_init) (enrol_run es)"
proof (induction es rule: rev_induct)
  case (snoc ev es)
  then show ?case by (simp add: refusals_snoc asked_ok_step del: refusals.simps)
qed (simp add: asked_ok_def tokens_asked_def enrol_init_def)

text \<open>
  Claim C34. Recovery codes are shown once: whatever is clicked, closed and reopened and however late the answers are, codes on display
  stay there until they are dismissed under a tick that was given to them, codes that a confirmation delivers are displayed at
  once where the dialog is open, and a closed dialog holds them until it is opened again, so that every delivered code was
  dismissed or is still held, in the order they came. An enrolment only carries a token after the server refused an
  earlier one because it wants a step-up.
\<close>

theorem codes_kept_until_ticked:
  "codes_step ev (enrol_run es) (enrol_run (es @ [ev]))
   \<and> en_delivered (enrol_run es) = en_dismissed (enrol_run es) @ shown_codes (enrol_run es)
   \<and> tokens_asked (refusals es enrol_init) (en_begins (enrol_run es))"
proof -
  have ok: "enrol_ok (enrol_run es)" by (rule enrolment.always) simp
  then have "codes_step ev (enrol_run es) (enrol_run (es @ [ev]))"
    using codes_step_auto [OF codes_step_event [OF ok, of ev]] by (simp add: enrol_step_def del: enrol_event.simps)
  then show ?thesis using ok asked_ok_run [of es] by (simp add: enrol_ok_def asked_ok_def)
qed


subsection \<open>Where an enrolment goes wrong\<close>

definition phone :: totp_enrollment where
  "phone = \<lparr>te_factorId = ''f1'', te_secret = ''s1'', te_otpauthUrl = ''u1''\<rparr>"

definition tablet :: totp_enrollment where
  "tablet = \<lparr>te_factorId = ''f2'', te_secret = ''s2'', te_otpauthUrl = ''u2''\<rparr>"

text \<open>
  Closing the dialog does not end its request, and opening it again begins another enrolment. The answer that comes last replaces the
  factor under the picture that was scanned, and a code typed for the one is sent for the other.
\<close>

lemma late_begin_replaces_factor:
  "let st = enrol_run [Open_enrol, Cancel_enrol, Open_enrol, Begin_answer 1 (Begin_ok tablet), Qr_drawn 1 True, Type_code ''123456'',
       Begin_answer 0 (Begin_ok phone), Submit_code]
   in en_qr st = Some ''u2'' \<and> map (\<lambda>c. (cc_factorId c, cc_code c)) (en_confirms st) = [(''f1'', ''123456'')]"
  by code_simp

text \<open>A begin request that fails leaves the open dialog at its loading rows: nothing is under way, and nothing but closing it begins again.\<close>

lemma failed_begin_keeps_loading:
  assumes "sees Loading_view st" "begin_is (\<lambda>b. b = Begin_failed) st" "en_stepUps st = 0"
    and "list_all (\<lambda>c. \<not> cc_pending c) (en_confirms st)" "list_all (\<lambda>(t, b). \<not> is_pending b) (en_begins st)" "ev \<noteq> Cancel_enrol"
  shows "enrol_step ev st = st"
proof -
  have o: "en_open st" "en_savedCodes st = None" "en_factor st = None" "\<not> en_needsStepUp st"
    using assms(1) by (auto simp: sees_def enrol_view_def split: if_splits)
  have answered: "\<not> is_pending (snd (en_begins st ! i))" if "i < length (en_begins st)" for i
    using assms(5) that by (auto simp: list_all_length split_beta)
  have "enrol_event ev st = st"
  proof (cases ev)
    case (Begin_answer i a)
    then show ?thesis using answered [of i] by (auto simp: begin_answered_def)
  next
    case (Qr_drawn i b)
    then show ?thesis using answered [of i] by (auto simp: qr_drawn_def split: prod.split begin_state.split)
  next
    case (Confirm_answer i a)
    then show ?thesis using assms(4) by (auto simp: confirm_answered_def list_all_length)
  qed (use assms(3,6) o in \<open>auto simp: sees_def enrol_view_def\<close>)
  then show ?thesis using assms(2) by (simp add: enrol_step_def auto_begin_def)
qed

text \<open>
  A confirmation that is answered after the dialog was closed keeps its codes for the next opening, which shows them; but that opening also
  begins an enrolment nobody asked for.
\<close>

lemma reopening_begins_again:
  "let st = enrol_run [Open_enrol, Begin_answer 0 (Begin_ok phone), Qr_drawn 0 True, Type_code ''123456'', Submit_code, Cancel_enrol,
       Confirm_answer 0 (Confirm_ok None (Some [''c1''])), Open_enrol]
   in sees Codes_view st \<and> map snd (en_begins st) = [Begin_done, Begin_asked]"
  by code_simp

subsection \<open>Codes, keys and factors\<close>

(* src api/model/mfaFactor.ts 10-15 MfaFactor *)
record mfa_factor =
  fa_id :: string
  fa_type :: string
  fa_name :: string
  fa_createdAt :: string

text \<open>A registration: its name, token and whether it is unanswered.\<close>

record key_call =
  kc_name :: string
  kc_token :: "string option"
  kc_pending :: bool

text \<open>
  The inline step-up belongs to one opening of its dialog; it remembers its token, but hands it to the page in any case.
\<close>

(* src features/settings/ProfileSecurity.tsx 49-55 SecuritySection *)
record security =
  sc_addingKey :: bool
  sc_keyName :: string
  sc_keyNeedsStepUp :: bool
  sc_keyStepUps :: nat
  sc_keys :: "key_call list"
  sc_remove :: "mfa_factor row_op"
  sc_regenerating :: bool
  sc_opening :: nat
  sc_inline :: "string option"
  sc_inlineStepUps :: "nat list"
  sc_regenerations :: "(string \<times> bool) list"
  sc_newCodes :: "string list option"
  sc_ticked :: bool
  sc_access :: "string list"

definition security_init :: security where
  "security_init = \<lparr>sc_addingKey = False, sc_keyName = [], sc_keyNeedsStepUp = False, sc_keyStepUps = 0, sc_keys = [], sc_remove = row_init,
     sc_regenerating = False, sc_opening = 0, sc_inline = None, sc_inlineStepUps = [], sc_regenerations = [], sc_newCodes = None,
     sc_ticked = False, sc_access = []\<rparr>"

(* src features/settings/ProfileSecurity.tsx 92-99 registerKey *)
definition register_key :: "string option \<Rightarrow> security \<Rightarrow> security" where
  "register_key token st = st\<lparr>sc_keys := sc_keys st @ [\<lparr>kc_name = trim (sc_keyName st), kc_token = token, kc_pending = True\<rparr>]\<rparr>"

definition registering :: "security \<Rightarrow> bool" where
  "registering st \<longleftrightarrow> sc_keys st \<noteq> [] \<and> kc_pending (last (sc_keys st))"

text \<open>New codes; the tick belongs to the mounted list of codes.\<close>

definition show_codes :: "string list \<Rightarrow> security \<Rightarrow> security" where
  "show_codes cs st = st\<lparr>sc_newCodes := Some cs, sc_ticked := (sc_newCodes st \<noteq> None \<and> sc_ticked st)\<rparr>"

text \<open>\<open>isWebAuthnCancel\<close> and other errors only differ in their message.\<close>

datatype key_answer = Key_ok "string option" "string list option" | Key_elevation | Key_error

(* src features/settings/ProfileSecurity.tsx 101-115 registerKey *)
definition key_answered :: "nat \<Rightarrow> key_answer \<Rightarrow> security \<Rightarrow> security" where
  "key_answered i a st =
     (if i < length (sc_keys st) \<and> kc_pending (sc_keys st ! i)
      then (let st' = st\<lparr>sc_keys := (sc_keys st)[i := (sc_keys st ! i)\<lparr>kc_pending := False\<rparr>]\<rparr>
        in case a of
             Key_ok access codes \<Rightarrow>
               (let st'' = st'\<lparr>sc_access := (if truthy_token access then sc_access st @ [the access] else sc_access st),
                    sc_addingKey := False, sc_keyName := []\<rparr>
                in case codes of Some cs \<Rightarrow> show_codes cs st'' | None \<Rightarrow> st'')
           | Key_elevation \<Rightarrow> st'\<lparr>sc_keyNeedsStepUp := True\<rparr>
           | Key_error \<Rightarrow> st')
      else st)"

(* src features/settings/ProfileSecurity.tsx 76-90 regenerateCodes *)
definition regenerated :: "nat \<Rightarrow> string list option \<Rightarrow> security \<Rightarrow> security" where
  "regenerated i a st =
     (if i < length (sc_regenerations st) \<and> snd (sc_regenerations st ! i)
      then (let st' = st\<lparr>sc_regenerations := (sc_regenerations st)[i := (fst (sc_regenerations st ! i), False)]\<rparr>
        in case a of Some cs \<Rightarrow> (show_codes cs st')\<lparr>sc_regenerating := False\<rparr> | None \<Rightarrow> st')
      else st)"

datatype security_event = Open_key | Close_key | Type_key_name string | Submit_key | Submit_key_step_up | Key_elevated string
  | Key_answer nat key_answer | Remove_factor "mfa_factor row_event" | Open_regenerate | Close_regenerate | Submit_inline
  | Inline_elevated nat string | Regenerate_answer nat "string list option" | Tick_codes bool | Dismiss_codes

text \<open>\<open>StepUpInline\<close>: shown until it has a token.\<close>

(* src features/settings/ProfileSecurity.tsx 570-595 StepUpInline *)
definition inline_elevated :: "nat \<Rightarrow> string \<Rightarrow> security \<Rightarrow> security" where
  "inline_elevated j t st =
     (if j < length (sc_inlineStepUps st)
      then st\<lparr>sc_inlineStepUps := take j (sc_inlineStepUps st) @ drop (Suc j) (sc_inlineStepUps st),
        sc_inline := (if sc_regenerating st \<and> sc_inlineStepUps st ! j = sc_opening st then Some t else sc_inline st),
        sc_regenerations := sc_regenerations st @ [(t, True)]\<rparr>
      else st)"

(* src features/settings/ProfileSecurity.tsx 207-289 SecuritySection *)
fun security_step :: "security_event \<Rightarrow> security \<Rightarrow> security" where
  "security_step Open_key st = st\<lparr>sc_addingKey := True\<rparr>"
| "security_step Close_key st = (if sc_addingKey st then st\<lparr>sc_addingKey := False, sc_keyNeedsStepUp := False\<rparr> else st)"
| "security_step (Type_key_name s) st = (if sc_addingKey st \<and> \<not> sc_keyNeedsStepUp st then st\<lparr>sc_keyName := s\<rparr> else st)"
| "security_step Submit_key st = (if sc_addingKey st \<and> \<not> sc_keyNeedsStepUp st \<and> \<not> registering st then register_key None st else st)"
| "security_step Submit_key_step_up st = (if sc_addingKey st \<and> sc_keyNeedsStepUp st then st\<lparr>sc_keyStepUps := Suc (sc_keyStepUps st)\<rparr> else st)"
| "security_step (Key_elevated t) st = (if 0 < sc_keyStepUps st
     then register_key (if t \<noteq> [] then Some t else None) (st\<lparr>sc_keyStepUps := sc_keyStepUps st - 1, sc_keyNeedsStepUp := False\<rparr>) else st)"
| "security_step (Key_answer i a) st = key_answered i a st"
| "security_step (Remove_factor ev) st = st\<lparr>sc_remove := row_step fa_name ev (sc_remove st)\<rparr>"
| "security_step Open_regenerate st = (if sc_regenerating st then st
     else st\<lparr>sc_regenerating := True, sc_opening := Suc (sc_opening st), sc_inline := None\<rparr>)"
| "security_step Close_regenerate st = st\<lparr>sc_regenerating := False\<rparr>"
| "security_step Submit_inline st = (if sc_regenerating st \<and> \<not> truthy_token (sc_inline st)
     then st\<lparr>sc_inlineStepUps := sc_inlineStepUps st @ [sc_opening st]\<rparr> else st)"
| "security_step (Inline_elevated j t) st = inline_elevated j t st"
| "security_step (Regenerate_answer i a) st = regenerated i a st"
| "security_step (Tick_codes b) st = (if sc_newCodes st \<noteq> None then st\<lparr>sc_ticked := b\<rparr> else st)"
| "security_step Dismiss_codes st = (if sc_newCodes st \<noteq> None \<and> sc_ticked st then st\<lparr>sc_newCodes := None, sc_ticked := False\<rparr> else st)"

abbreviation security_run :: "security_event list \<Rightarrow> security" where
  "security_run es \<equiv> fold security_step es security_init"

text \<open>
  After a failed regeneration the dialog only says that the user is re-authenticated: the remembered token hides the step-up, so
  nothing in the dialog asks again.
\<close>

lemma failed_regeneration_stuck:
  assumes "sc_regenerating st" "truthy_token (sc_inline st)" "ev \<in> {Submit_inline, Open_regenerate}"
  shows "security_step ev st = st"
  using assms by auto

lemma failed_regeneration_stuck_witness:
  "let st = security_run [Open_regenerate, Submit_inline, Inline_elevated 0 ''t1'', Regenerate_answer 0 None]
   in sc_regenerating st \<and> security_step Submit_inline st = st"
proof -
  let ?st = "security_run [Open_regenerate, Submit_inline, Inline_elevated 0 ''t1'', Regenerate_answer 0 None]"
  have "sc_regenerating ?st" "truthy_token (sc_inline ?st)" by code_simp+
  then show ?thesis using failed_regeneration_stuck [of ?st Submit_inline] by (simp add: Let_def)
qed

text \<open>Closing the dialog while its step-up is under way does not keep the codes: the page regenerates them all the same.\<close>

lemma cancelled_regeneration_runs:
  "sc_regenerations (security_run [Open_regenerate, Submit_inline, Close_regenerate, Inline_elevated 0 ''t1'']) = [(''t1'', True)]"
  by code_simp

text \<open>
  Two factors of the same name (the server gives the same name to every authenticator): once the first is removed, the second is removed
  by two clicks, with nothing typed.
\<close>

lemma second_factor_removed_unasked:
  "let f = (\<lambda>i. \<lparr>fa_id = i, fa_type = ''totp'', fa_name = ''Phone'', fa_createdAt = []\<rparr>)
   in map (\<lambda>q. (fa_id (ro_row q), ro_token q)) (ro_sent (sc_remove (security_run (map Remove_factor
      [Row_config False, Choose_row (f ''1''), Row_box (Box_type ''Phone''), Confirm_row, Row_answer True, Choose_row (f ''2''), Confirm_row]))))
     = [(''1'', None), (''2'', None)]"
  by code_simp

end
