(* ===== verification/Services.thy ===== *)
theory Services
  imports Users JsValues Live
begin

text \<open>
  The list of services with its bulk operations (\<open>features/services/ServicesPage.tsx\<close>), and of the page of one service
  (\<open>features/services/ServiceDetailPage.tsx\<close>) the controls it offers, the push of a setting and the template of a new
  document; the picker of entities (\<open>components/manager/EntityPicker.tsx\<close>) and the maintenance menu
  (\<open>components/manager/MaintenanceWindowMenu.tsx\<close>).
\<close>

subsection \<open>The list and its selection\<close>

(* src api/model/connector.ts 16-30 Connector *)
record service_row =
  sv_id :: string
  sv_name :: string
  sv_type :: string
  sv_enabled :: bool
  sv_status :: string
  sv_managedBy :: "string option"

datatype bulk = Bulk_sync | Bulk_reauth

text \<open>What a bulk request goes to, with the ids that were listed; and a request with its kind.\<close>

record bulk_target =
  bt_ids :: "string list"
  bt_listed :: "string list"

record bulk_call =
  bc_kind :: bulk
  bc_target :: bulk_target
  bc_pending :: bool

(* src features/services/ServicesPage.tsx 37-53 ServicesPage *)
record services_page =
  sp_data :: "service_row list option"
  sp_operators :: "string set"
  sp_overrides :: "string \<rightharpoonup> string"
  sp_q :: string
  sp_selected :: "string list"
  sp_restart :: "bulk_target row_op"
  sp_bulks :: "bulk_call list"
  sp_toggles :: "(string \<times> bool \<times> bool) list"

definition services_init :: services_page where
  "services_init = \<lparr>sp_data = None, sp_operators = {}, sp_overrides = Map.empty, sp_q = [], sp_selected = [], sp_restart = row_init,
     sp_bulks = [], sp_toggles = []\<rparr>"

definition listed_ids :: "services_page \<Rightarrow> string list" where
  "listed_ids st = map sv_id (from_opt [] (sp_data st))"

(* src features/services/ServicesPage.tsx 66-69 selectedIds *)
definition selectedIds :: "services_page \<Rightarrow> string list" where
  "selectedIds st = filter (\<lambda>i. i \<in> set (listed_ids st)) (sp_selected st)"

definition bulk_target :: "services_page \<Rightarrow> bulk_target" where
  "bulk_target st = \<lparr>bt_ids = selectedIds st, bt_listed = listed_ids st\<rparr>"

text \<open>A set keeps the order in which its elements were added.\<close>

(* src features/services/ServicesPage.tsx 71-77 toggleSelected *)
definition toggleSelected :: "string \<Rightarrow> services_page \<Rightarrow> services_page" where
  "toggleSelected i st = st\<lparr>sp_selected := (if i \<in> set (sp_selected st) then filter (\<lambda>j. j \<noteq> i) (sp_selected st) else sp_selected st @ [i])\<rparr>"

text \<open>The results of a bulk request: how many succeeded and failed, and the first reason.\<close>

(* src features/services/ServicesPage.tsx 79-91 reportBulkResult *)
definition bulk_report :: "(string \<times> string option) list \<Rightarrow> nat \<times> nat \<times> string option" where
  "bulk_report rs = (let failed = filter (\<lambda>r. fst r = ''error'') rs
     in (length (filter (\<lambda>r. fst r = ''success'') rs), length failed, (case failed of r # _ \<Rightarrow> snd r | [] \<Rightarrow> None)))"

text \<open>The rows: the status pushed since, and what the filter leaves; the search package is a parameter.\<close>

(* src features/services/ServicesPage.tsx 121-126 rows *)
definition service_rows :: "(string \<Rightarrow> service_row list \<Rightarrow> service_row list) \<Rightarrow> services_page \<Rightarrow> service_row list" where
  "service_rows match st = (case sp_data st of None \<Rightarrow> []
     | Some cs \<Rightarrow> (let withStatus = map (\<lambda>c. c\<lparr>sv_status := from_opt (sv_status c) (sp_overrides st (sv_id c))\<rparr>) cs
         in if trim (sp_q st) \<noteq> [] then match (trim (sp_q st)) withStatus else withStatus))"

(* src i18n/en.ts 575-575 restartConfirmToken *)
definition restart_name :: "bulk_target \<Rightarrow> string" where
  "restart_name b = show_nat (length (bt_ids b)) @ '' services''"

definition bulk_pending :: "bulk \<Rightarrow> services_page \<Rightarrow> bool" where
  "bulk_pending k st \<longleftrightarrow> list_ex (\<lambda>c. bc_kind c = k \<and> bc_pending c) (sp_bulks st)"

(* src features/services/ServicesPage.tsx 96-106 ServicesPage *)
definition send_bulk :: "bulk \<Rightarrow> services_page \<Rightarrow> services_page" where
  "send_bulk k st = st\<lparr>sp_bulks := sp_bulks st @ [\<lparr>bc_kind = k, bc_target = bulk_target st, bc_pending = True\<rparr>]\<rparr>"

definition bulk_answered :: "nat \<Rightarrow> bool \<Rightarrow> services_page \<Rightarrow> services_page" where
  "bulk_answered i success st =
     (if i < length (sp_bulks st) \<and> bc_pending (sp_bulks st ! i)
      then (let st' = st\<lparr>sp_bulks := (sp_bulks st)[i := (sp_bulks st ! i)\<lparr>bc_pending := False\<rparr>]\<rparr>
        in if success then st'\<lparr>sp_selected := []\<rparr> else st')
      else st)"

definition restart_open :: "services_page \<Rightarrow> bool" where
  "restart_open st \<longleftrightarrow> ro_chosen (sp_restart st) \<noteq> None"

text \<open>The dialog takes the selection of every rendering.\<close>

definition rendered :: "services_page \<Rightarrow> services_page" where
  "rendered st = st\<lparr>sp_restart := (sp_restart st)\<lparr>ro_chosen := map_option (\<lambda>_. bulk_target st) (ro_chosen (sp_restart st))\<rparr>\<rparr>"

datatype services_event = Services_loaded "service_row list" "string set" | Status_pushed "string \<rightharpoonup> string" | Filter_services string
  | Toggle_service string | Press_bulk bulk | Bulk_answer nat bool | Open_restart | Restart_op "bulk_target row_event" | Restart_answer bool
  | Toggle_enabled string | Toggle_answer nat

text \<open>The bulk bar is shown for a non-empty selection; a row has its box where the user is an operator.\<close>

definition bulk_bar :: "services_page \<Rightarrow> bool" where
  "bulk_bar st \<longleftrightarrow> sp_operators st \<noteq> {} \<and> selectedIds st \<noteq> [] \<and> \<not> restart_open st"

(* src features/services/ServicesPage.tsx 162-366 ServicesPage *)
fun services_change :: "(string \<Rightarrow> service_row list \<Rightarrow> service_row list) \<Rightarrow> services_event \<Rightarrow> services_page \<Rightarrow> services_page" where
  "services_change match (Services_loaded cs ops) st = st\<lparr>sp_data := Some cs, sp_operators := ops\<rparr>"
| "services_change match (Status_pushed m) st = st\<lparr>sp_overrides := m\<rparr>"
| "services_change match (Filter_services s) st = (if restart_open st then st else st\<lparr>sp_q := s\<rparr>)"
| "services_change match (Toggle_service i) st = (if i \<in> sp_operators st \<and> i \<in> sv_id ` set (service_rows match st) \<and> \<not> restart_open st
     then toggleSelected i st else st)"
| "services_change match (Press_bulk k) st = (if bulk_bar st \<and> \<not> bulk_pending k st then send_bulk k st else st)"
| "services_change match (Bulk_answer i success) st = bulk_answered i success st"
| "services_change match Open_restart st = (if bulk_bar st
     then st\<lparr>sp_restart := row_step restart_name (Choose_row (bulk_target st)) (sp_restart st)\<rparr> else st)"
| "services_change match (Restart_op ev) st = (case ev of Choose_row b \<Rightarrow> st | Row_answer s \<Rightarrow> st
     | _ \<Rightarrow> st\<lparr>sp_restart := row_step restart_name ev (sp_restart st)\<rparr>)"
| "services_change match (Restart_answer success) st =
     (let st' = st\<lparr>sp_restart := row_step restart_name (Row_answer success) (sp_restart st)\<rparr>
      in if ro_busy (sp_restart st) \<and> success then st'\<lparr>sp_selected := []\<rparr> else st')"
| "services_change match (Toggle_enabled i) st =
     (case List.find (\<lambda>c. sv_id c = i) (service_rows match st) of
        Some c \<Rightarrow> if i \<in> sp_operators st \<and> \<not> restart_open st \<and> from_opt ''ui'' (sv_managedBy c) = ''ui'' \<and> \<not> list_ex (\<lambda>(i, b, p). p) (sp_toggles st)
          then st\<lparr>sp_toggles := sp_toggles st @ [(i, \<not> sv_enabled c, True)]\<rparr> else st
      | None \<Rightarrow> st)"
| "services_change match (Toggle_answer n) st = (if n < length (sp_toggles st)
     then st\<lparr>sp_toggles := (sp_toggles st)[n := (case sp_toggles st ! n of (i, b, p) \<Rightarrow> (i, b, False))]\<rparr> else st)"

definition services_step :: "(string \<Rightarrow> service_row list \<Rightarrow> service_row list) \<Rightarrow> services_event \<Rightarrow> services_page \<Rightarrow> services_page" where
  "services_step match ev st = rendered (services_change match ev st)"

abbreviation services_run :: "(string \<Rightarrow> service_row list \<Rightarrow> service_row list) \<Rightarrow> services_event list \<Rightarrow> services_page" where
  "services_run match es \<equiv> fold (services_step match) es services_init"

subsection \<open>What a bulk request reaches\<close>

text \<open>
  The boxes that are ticked, told from the events alone: a press of a box that is shown flips it, and an awaited answer that
  succeeds unticks all.
\<close>

definition box_shown :: "(string \<Rightarrow> service_row list \<Rightarrow> service_row list) \<Rightarrow> services_page \<Rightarrow> string \<Rightarrow> bool" where
  "box_shown match st i \<longleftrightarrow> i \<in> sp_operators st \<and> i \<in> sv_id ` set (service_rows match st) \<and> \<not> restart_open st"

definition unticks :: "services_event \<Rightarrow> services_page \<Rightarrow> bool" where
  "unticks ev st \<longleftrightarrow> (case ev of
       Bulk_answer i success \<Rightarrow> success \<and> i < length (sp_bulks st) \<and> bc_pending (sp_bulks st ! i)
     | Restart_answer success \<Rightarrow> success \<and> ro_busy (sp_restart st)
     | _ \<Rightarrow> False)"

definition flips :: "(string \<Rightarrow> service_row list \<Rightarrow> service_row list) \<Rightarrow> services_event \<Rightarrow> services_page \<Rightarrow> string \<Rightarrow> bool" where
  "flips match ev st i \<longleftrightarrow> ev = Toggle_service i \<and> box_shown match st i"

text \<open>The tick of one box after some events on a page, from what it was.\<close>

fun ticked_after :: "(string \<Rightarrow> service_row list \<Rightarrow> service_row list) \<Rightarrow> string \<Rightarrow> services_event list \<Rightarrow> services_page \<Rightarrow> bool \<Rightarrow> bool" where
  "ticked_after match i [] st b = b"
| "ticked_after match i (ev # es) st b =
     ticked_after match i es (services_step match ev st) (if unticks ev st then False else if flips match ev st i then \<not> b else b)"

definition ticked :: "(string \<Rightarrow> service_row list \<Rightarrow> service_row list) \<Rightarrow> services_event list \<Rightarrow> string \<Rightarrow> bool" where
  "ticked match es i = ticked_after match i es services_init False"

definition restart_tokens :: "services_event list \<Rightarrow> string set" where
  "restart_tokens es = {t. Restart_op (Row_box (Box_elevated t)) \<in> set es}"

lemma ticked_after_snoc:
  "ticked_after match i (es @ [ev]) st b = (let st' = fold (services_step match) es st; b' = ticked_after match i es st b
     in if unticks ev st' then False else if flips match ev st' i then \<not> b' else b')"
  by (induction es arbitrary: st b) (simp_all add: Let_def)

text \<open>The targets go to the services that are ticked and listed at that moment, each named once.\<close>

definition goes_to :: "(string \<Rightarrow> bool) \<Rightarrow> string list \<Rightarrow> bulk_target \<Rightarrow> bool" where
  "goes_to tick listed b \<longleftrightarrow> distinct (bt_ids b) \<and> set (bt_ids b) = {i \<in> set listed. tick i}"

text \<open>The selection is the ticked boxes.\<close>

lemma toggle_selected: "distinct (sp_selected st) \<Longrightarrow> distinct (sp_selected (toggleSelected i st))"
  "i' \<in> set (sp_selected (toggleSelected i st)) \<longleftrightarrow> (if i' = i then i \<notin> set (sp_selected st) else i' \<in> set (sp_selected st))"
  by (auto simp: toggleSelected_def)

lemma selection_changed:
  "sp_selected (services_step match ev st) =
     (if unticks ev st then []
      else case ev of Toggle_service i \<Rightarrow> if box_shown match st i then sp_selected (toggleSelected i st) else sp_selected st
        | _ \<Rightarrow> sp_selected st)"
  by (cases ev) (auto simp: services_step_def rendered_def unticks_def box_shown_def bulk_answered_def send_bulk_def Let_def
      split: option.split row_event.split)

lemma selection_ticked: "distinct (sp_selected (services_run match es)) \<and> (\<forall>i. i \<in> set (sp_selected (services_run match es)) \<longleftrightarrow> ticked match es i)"
proof (induction es rule: rev_induct)
  case Nil
  then show ?case by (simp add: services_init_def ticked_def)
next
  case (snoc ev es)
  let ?st = "services_run match es"
  have run: "services_run match (es @ [ev]) = services_step match ev ?st" by simp
  have tick: "ticked match (es @ [ev]) i = (if unticks ev ?st then False else if flips match ev ?st i then \<not> ticked match es i else ticked match es i)" for i
    by (simp add: ticked_def ticked_after_snoc Let_def)
  show ?case
  proof (cases "unticks ev ?st")
    case True
    then show ?thesis unfolding run selection_changed tick by simp
  next
    case False
    then show ?thesis unfolding run selection_changed tick using snoc.IH
      by (cases ev) (auto simp: flips_def toggle_selected)
  qed
qed

lemma target_goes: "goes_to (ticked match es) (listed_ids (services_run match es)) (bulk_target (services_run match es))"
  using selection_ticked [of match es] by (auto simp: goes_to_def bulk_target_def selectedIds_def)

text \<open>The dialog shows the target of the last rendering; what it sends is that one.\<close>

definition shows_target :: "services_page \<Rightarrow> bool" where
  "shows_target st \<longleftrightarrow> (case ro_chosen (sp_restart st) of Some b \<Rightarrow> b = bulk_target st | None \<Rightarrow> True)"

lemma shows_target_rendered: "shows_target (rendered st)"
  by (auto simp: shows_target_def rendered_def bulk_target_def selectedIds_def listed_ids_def split: option.split)

lemma shows_target_run: "shows_target (services_run match es)"
proof (cases es rule: rev_cases)
  case Nil
  then show ?thesis by (simp add: shows_target_def services_init_def row_init_def)
next
  case (snoc es' ev)
  then show ?thesis by (simp add: services_step_def shows_target_rendered del: services_change.simps)
qed

text \<open>Of the dialog, the events only add what it confirms.\<close>

definition restart_ok :: "string set \<Rightarrow> services_page \<Rightarrow> bool" where
  "restart_ok tokens st \<longleftrightarrow> row_ok restart_name (\<lambda>b. True) tokens (sp_restart st)"

definition restart_brings :: "services_event \<Rightarrow> string set" where
  "restart_brings ev = (case ev of Restart_op (Row_box (Box_elevated t)) \<Rightarrow> {t} | _ \<Rightarrow> {})"

lemma restart_ok_step:
  assumes "restart_ok tokens st" "restart_brings ev \<subseteq> tokens"
  shows "restart_ok tokens (services_step match ev st)"
proof -
  have step: "row_ok restart_name (\<lambda>b. True) tokens (row_step restart_name e (sp_restart st))" if "row_brings e \<subseteq> tokens" for e
    using assms(1) that by (intro row_ok_step) (auto simp: restart_ok_def)
  have "restart_ok tokens (services_change match ev st)"
  proof (cases ev)
    case (Restart_op e)
    have "row_brings e \<subseteq> tokens" using assms(2) Restart_op by (cases e rule: row_brings.cases) (auto simp: restart_brings_def)
    then show ?thesis using step assms(1) Restart_op by (cases e) (auto simp: restart_ok_def simp del: row_step.simps)
  qed (use assms(1) step in \<open>auto simp: restart_ok_def toggleSelected_def bulk_answered_def send_bulk_def Let_def simp del: row_step.simps split: option.split\<close>)
  then show ?thesis by (auto simp: restart_ok_def services_step_def rendered_def row_ok_def split: option.split)
qed

lemma restart_ok_run: "restart_ok (restart_tokens es) (services_run match es)"
proof (induction es rule: rev_induct)
  case (snoc ev es)
  have "restart_ok (restart_tokens (es @ [ev])) (services_run match es)"
    using snoc.IH by (auto simp: restart_ok_def restart_tokens_def intro: row_ok_mono)
  moreover have "restart_brings ev \<subseteq> restart_tokens (es @ [ev])"
    by (auto simp: restart_brings_def restart_tokens_def split: services_event.splits row_event.splits box_event.splits)
  ultimately show ?case using restart_ok_step by simp
qed (simp add: restart_ok_def services_init_def row_ok_init)

text \<open>What one event adds to the requests.\<close>

lemma sent_by_row: "ro_sent (row_step name e r) = ro_sent r \<or> (\<exists>b q. ro_chosen r = Some b \<and> ro_row q = b \<and> ro_sent (row_step name e r) = ro_sent r @ [q])"
  by (cases e) (auto simp: confirm_row_def row_answered_def cancel_row_def split: option.split)

lemma restarts_added:
  "list_all (\<lambda>q. ro_chosen (sp_restart st) = Some (ro_row q)) (drop (length (ro_sent (sp_restart st))) (ro_sent (sp_restart (services_step match ev st))))"
proof -
  have row: "list_all (\<lambda>q. ro_chosen r = Some (ro_row q)) (drop (length (ro_sent r)) (ro_sent (row_step restart_name e r)))" for e r
    using sent_by_row [of restart_name e r] by auto
  have "list_all (\<lambda>q. ro_chosen (sp_restart st) = Some (ro_row q)) (drop (length (ro_sent (sp_restart st))) (ro_sent (sp_restart (services_change match ev st))))"
  proof (cases ev)
    case (Restart_op e)
    then show ?thesis using row [of "sp_restart st" e] by (cases e) (auto simp del: row_step.simps)
  next
    case (Restart_answer success)
    then show ?thesis using row [of "sp_restart st" "Row_answer success"] by (auto simp: Let_def simp del: row_step.simps)
  qed (auto simp: toggleSelected_def bulk_answered_def send_bulk_def Let_def split: option.split)
  then show ?thesis by (simp add: services_step_def rendered_def)
qed

lemma bulks_added:
  "list_all (\<lambda>c. bc_target c = bulk_target st \<and> selectedIds st \<noteq> []) (drop (length (sp_bulks st)) (sp_bulks (services_step match ev st)))"
  by (cases ev) (auto simp: services_step_def rendered_def toggleSelected_def bulk_answered_def send_bulk_def bulk_bar_def Let_def split: option.split row_event.split)

text \<open>
  Claim C35. However boxes are ticked and unticked, lists reloaded, rows filtered and answers delayed: a restart or another bulk request goes to
  exactly the services whose box is ticked at the moment of the click and that are listed then, to each once; a restart was confirmed
  by typing how many they are, with a token that was handed over where step-up is on, and another request goes to at least one.
\<close>

theorem restarts_as_confirmed:
  "list_all (\<lambda>q. goes_to (ticked match es) (listed_ids (services_run match es)) (ro_row q)
        \<and> row_confirmed restart_name (restart_tokens (es @ [ev])) q)
     (drop (length (ro_sent (sp_restart (services_run match es)))) (ro_sent (sp_restart (services_run match (es @ [ev])))))
   \<and> list_all (\<lambda>c. goes_to (ticked match es) (listed_ids (services_run match es)) (bc_target c) \<and> bt_ids (bc_target c) \<noteq> [])
     (drop (length (sp_bulks (services_run match es))) (sp_bulks (services_run match (es @ [ev]))))"
proof -
  let ?st = "services_run match es"
  have run: "services_run match (es @ [ev]) = services_step match ev ?st" by simp
  have target: "b = bulk_target ?st" if "ro_chosen (sp_restart ?st) = Some b" for b
    using shows_target_run [of match es] that by (simp add: shows_target_def)
  have "list_all (row_confirmed restart_name (restart_tokens (es @ [ev]))) (ro_sent (sp_restart (services_run match (es @ [ev]))))"
    using restart_ok_run [of "es @ [ev]" match] by (simp add: restart_ok_def row_ok_def list_all_iff)
  moreover have "list_all (\<lambda>q. goes_to (ticked match es) (listed_ids ?st) (ro_row q))
      (drop (length (ro_sent (sp_restart ?st))) (ro_sent (sp_restart (services_step match ev ?st))))"
    using restarts_added [of ?st match ev] target_goes [of match es] by (auto simp: list_all_iff dest!: target)
  moreover have "list_all (\<lambda>c. goes_to (ticked match es) (listed_ids ?st) (bc_target c) \<and> bt_ids (bc_target c) \<noteq> [])
      (drop (length (sp_bulks ?st)) (sp_bulks (services_step match ev ?st)))"
    using bulks_added [of ?st match ev] target_goes [of match es] by (auto simp: list_all_iff bulk_target_def)
  ultimately show ?thesis unfolding run by (auto simp: list_all_iff dest: in_set_dropD)
qed

text \<open>A box that was unticked before the click is left out, and so is a service that is no longer listed.\<close>

lemma unticked_left_out:
  "map (\<lambda>q. bt_ids (ro_row q)) (ro_sent (sp_restart (services_run (\<lambda>q rs. rs)
     (Services_loaded (map (\<lambda>i. \<lparr>sv_id = i, sv_name = i, sv_type = ''docker'', sv_enabled = True, sv_status = ''online'', sv_managedBy = None\<rparr>)
        [''a'', ''b'', ''c'']) {''a'', ''b'', ''c''}
      # map Toggle_service [''a'', ''b'', ''c'', ''b'']
      @ [Open_restart, Restart_op (Row_config False), Restart_op (Row_box (Box_type ''2 services'')), Restart_op Confirm_row])))) = [[''a'', ''c'']]"
  by code_simp

text \<open>
  After a restart, another selection of as many services is restarted by two clicks where step-up is off: the dialog still holds the
  text that was typed for the first.
\<close>

definition two_rows :: "service_row list" where
  "two_rows = map (\<lambda>i. \<lparr>sv_id = i, sv_name = i, sv_type = ''docker'', sv_enabled = True, sv_status = ''online'', sv_managedBy = None\<rparr>) [''a'', ''b'']"

lemma second_restart_unasked:
  "map (\<lambda>q. bt_ids (ro_row q)) (ro_sent (sp_restart (services_run (\<lambda>q rs. rs)
     [Services_loaded two_rows {''a'', ''b''}, Toggle_service ''a'', Open_restart, Restart_op (Row_config False),
      Restart_op (Row_box (Box_type ''1 services'')), Restart_op Confirm_row, Restart_answer True,
      Toggle_service ''b'', Open_restart, Restart_op Confirm_row]))) = [[''a''], [''b'']]"
  by code_simp

text \<open>An answer empties the selection, also what was ticked since the request.\<close>

lemma late_bulk_clears:
  "selectedIds (services_run (\<lambda>q rs. rs)
     [Services_loaded two_rows {''a'', ''b''}, Toggle_service ''a'', Press_bulk Bulk_sync, Toggle_service ''b'', Bulk_answer 0 True]) = []"
  by code_simp

end
