(* ===== verification/ServiceDetail.thy ===== *)
theory ServiceDetail
  imports RowOps JsValues
begin

text \<open>
  The page of one service (\<open>features/services/ServiceDetailPage.tsx\<close>) beside the driving of its operations: the controls
  it offers, the endpoints of a recipe's actions, the push of a setting and the template of a new document; the
  picker of entities (\<open>components/manager/EntityPicker.tsx\<close>) and the maintenance menu
  (\<open>components/manager/MaintenanceWindowMenu.tsx\<close>).
\<close>

subsection \<open>The controls of a service\<close>

(* src api/model/connectorAction.ts 10-21 ConnectorAction *)
record recipe_action =
  ra_name :: string
  ra_entityScope :: bool
  ra_entityKind :: "string option"
  ra_label :: "string option"

(* src api/model/connector.ts 16-73 Connector *)
record service_detail =
  sd_id :: string
  sd_type :: string
  sd_enabled :: bool
  sd_actions :: "recipe_action list"
  sd_managedBy :: "string option"

(* src features/services/ServiceDetailPage.tsx 576-578 isLifecycleVerb *)
definition isLifecycleVerb :: "string \<Rightarrow> bool" where
  "isLifecycleVerb name \<longleftrightarrow> name = ''restart'' \<or> name = ''start'' \<or> name = ''stop''"

(* src features/services/ServiceDetailPage.tsx 173-173 ServiceDetailPage *)
definition recipeActions :: "service_detail \<Rightarrow> recipe_action list" where
  "recipeActions c = (if sd_type c = ''custom'' then sd_actions c else [])"

(* src features/services/ServiceDetailPage.tsx 174-176 rootLifecycleVerbs *)
definition rootLifecycleVerbs :: "service_detail \<Rightarrow> string set" where
  "rootLifecycleVerbs c = ra_name ` set (filter (\<lambda>a. \<not> ra_entityScope a \<and> isLifecycleVerb (ra_name a)) (recipeActions c))"

(* src features/services/ServiceDetailPage.tsx 177-179 actionControls *)
definition actionControls :: "service_detail \<Rightarrow> recipe_action list" where
  "actionControls c = filter (\<lambda>a. ra_entityScope a \<or> \<not> isLifecycleVerb (ra_name a)) (recipeActions c)"

datatype control = Schedule_control | Sync_control | Verb_control string | Action_control recipe_action | Health_control
  | Enable_control | Edit_control | Remove_control | Release_control

definition managed :: "service_detail \<Rightarrow> bool" where
  "managed c \<longleftrightarrow> sd_managedBy c = Some ''config''"

definition orphaned :: "service_detail \<Rightarrow> bool" where
  "orphaned c \<longleftrightarrow> sd_managedBy c = Some ''config-orphaned''"

text \<open>In the order of the page, for a user who may change the service.\<close>

(* src features/services/ServiceDetailPage.tsx 234-345 ServiceDetailPage *)
definition service_controls :: "bool \<Rightarrow> service_detail \<Rightarrow> control list" where
  "service_controls canMutate c =
     (let editable = \<not> managed c \<and> \<not> orphaned c;
          verb = (\<lambda>v. if sd_type c \<noteq> ''custom'' \<or> v \<in> rootLifecycleVerbs c then [Verb_control v] else []);
          when = (\<lambda>x. if editable then [x] else [])
      in if \<not> canMutate then []
         else if orphaned c then [Release_control, Remove_control]
         else when Schedule_control @ [Sync_control] @ verb ''start'' @ verb ''stop'' @ verb ''restart''
           @ map Action_control (actionControls c) @ [Health_control] @ when Enable_control @ when Edit_control @ when Remove_control)"

(* src features/services/ServiceDetailPage.tsx 269-277 ServiceDetailPage *)
definition sync_enabled :: "bool \<Rightarrow> service_detail \<Rightarrow> bool" where
  "sync_enabled stub c \<longleftrightarrow> sd_enabled c \<and> \<not> stub"

text \<open>The control through which an action of the recipe is run.\<close>

definition control_of :: "recipe_action \<Rightarrow> control" where
  "control_of a = (if ra_entityScope a \<or> \<not> isLifecycleVerb (ra_name a) then Action_control a else Verb_control (ra_name a))"

lemma controls_of_actions:
  assumes "sd_type c = ''custom''" "\<not> orphaned c"
  shows "set (service_controls True c) \<inter> (range Verb_control \<union> range Action_control) = control_of ` set (sd_actions c)"
proof -
  have verbs: "{v. v \<in> {''start'', ''stop'', ''restart''} \<and> v \<in> rootLifecycleVerbs c} = rootLifecycleVerbs c"
    by (auto simp: rootLifecycleVerbs_def isLifecycleVerb_def)
  have "set (service_controls True c) \<inter> (range Verb_control \<union> range Action_control)
      = Verb_control ` {v. v \<in> {''start'', ''stop'', ''restart''} \<and> v \<in> rootLifecycleVerbs c} \<union> Action_control ` set (actionControls c)"
    using assms by (auto simp: service_controls_def Let_def)
  also have "\<dots> = control_of ` set (sd_actions c)"
    unfolding verbs using assms(1) by (auto simp: rootLifecycleVerbs_def actionControls_def recipeActions_def control_of_def image_iff)
  finally show ?thesis .
qed

text \<open>Nothing that the configuration file owns can be changed here.\<close>

lemma managed_controls:
  "managed c \<or> orphaned c \<Longrightarrow> set (service_controls m c) \<inter> {Schedule_control, Enable_control, Edit_control} = {}"
  by (auto simp: service_controls_def managed_def orphaned_def Let_def)

subsection \<open>The endpoint of an action\<close>

(* src features/services/ServiceDetailPage.tsx 563-574 lifecyclePostFn *)
definition lifecyclePostFn :: "string \<Rightarrow> string \<Rightarrow> string option" where
  "lifecyclePostFn verb i = (if isLifecycleVerb verb then Some (''/connectors/'' @ i @ ''/'' @ verb) else None)"

(* src features/services/ServiceDetailPage.tsx 530-536 useRecipeActionOp *)
definition action_path :: "string \<Rightarrow> recipe_action \<Rightarrow> string option" where
  "action_path i a = (if isLifecycleVerb (ra_name a) then lifecyclePostFn (ra_name a) i
     else Some (''/connectors/'' @ i @ ''/actions/'' @ ra_name a))"

text \<open>What the step-up is for: the verb, or the one action of the one connector.\<close>

(* src features/services/ServiceDetailPage.tsx 594-595 RecipeActionControl *)
definition action_scope :: "string \<Rightarrow> recipe_action \<Rightarrow> string \<times> string option" where
  "action_scope i a = (if isLifecycleVerb (ra_name a) then (''connector.'' @ ra_name a, None)
     else (''connector.action'', Some (i @ '':'' @ ra_name a)))"

text \<open>The branch that throws is never reached.\<close>

lemma action_path_known: "action_path i a \<noteq> None"
  by (simp add: action_path_def lifecyclePostFn_def)

subsection \<open>Pushing a setting\<close>

(* src api/model/configField.ts 13-22 ConfigField *)
record push_field =
  pf_key :: string
  pf_type :: string
  pf_entityScope :: bool

record push_body =
  pb_entityRef :: "string option"
  pb_fieldKey :: string
  pb_value :: json
  pb_previous :: "json option"

text \<open>A number that is none is sent as null.\<close>

(* src features/services/ServiceDetailPage.tsx 796-800 coerceFieldValue *)
definition coerceFieldValue :: "string option \<Rightarrow> string \<Rightarrow> json" where
  "coerceFieldValue type raw =
     (if type = Some ''number'' then (case js_number raw of Some n \<Rightarrow> JNum n | None \<Rightarrow> JNull)
      else if type = Some ''toggle'' then JBool (raw = ''true'') else JStr raw)"

text \<open>The push, with the dialog that stays mounted.\<close>

record push_sent =
  ps_body :: push_body
  ps_token :: "string option"
  ps_typed :: string
  ps_required :: bool

(* src features/services/ServiceDetailPage.tsx 679-683 ConfigPushPanel *)
record push_panel =
  pp_fields :: "push_field list"
  pp_fieldKey :: string
  pp_entityRef :: string
  pp_value :: string
  pp_previousValue :: string
  pp_confirmOpen :: bool
  pp_box :: confirm_box
  pp_config :: "bool option"
  pp_pending :: bool
  pp_sent :: "push_sent list"

definition push_init :: push_panel where
  "push_init = \<lparr>pp_fields = [], pp_fieldKey = [], pp_entityRef = [], pp_value = [], pp_previousValue = [], pp_confirmOpen = False,
     pp_box = fresh_box, pp_config = None, pp_pending = False, pp_sent = []\<rparr>"

(* src features/services/ServiceDetailPage.tsx 685-685 selected *)
definition push_selected :: "push_panel \<Rightarrow> push_field option" where
  "push_selected st = List.find (\<lambda>f. pf_key f = pp_fieldKey st) (pp_fields st)"

(* src features/services/ServiceDetailPage.tsx 687-698 push *)
definition push_request :: "push_panel \<Rightarrow> push_body" where
  "push_request st =
     (let type = map_option pf_type (push_selected st)
      in \<lparr>pb_entityRef = (case push_selected st of Some f \<Rightarrow> if pf_entityScope f then Some (pp_entityRef st) else None | None \<Rightarrow> None),
          pb_fieldKey = pp_fieldKey st, pb_value = coerceFieldValue type (pp_value st),
          pb_previous = (if pp_previousValue st = [] then None else Some (coerceFieldValue type (pp_previousValue st)))\<rparr>)"

definition push_required :: "push_panel \<Rightarrow> bool" where
  "push_required st \<longleftrightarrow> stepUpRequired False (pp_config st)"

datatype push_event = Push_fields "push_field list" | Choose_field string | Type_entity string | Type_previous string | Type_value string
  | Open_push | Push_box box_event | Push_config bool | Cancel_push | Confirm_push | Push_answer

text \<open>Every answer closes the dialog; the fields are behind it while it is open.\<close>

(* src features/services/ServiceDetailPage.tsx 699-793 ConfigPushPanel *)
fun push_step :: "string \<Rightarrow> push_event \<Rightarrow> push_panel \<Rightarrow> push_panel" where
  "push_step name (Push_fields fs) st = st\<lparr>pp_fields := fs\<rparr>"
| "push_step name (Choose_field k) st = (if pp_confirmOpen st \<or> k \<notin> insert [] (pf_key ` set (pp_fields st)) then st
     else st\<lparr>pp_fieldKey := k, pp_value := [], pp_previousValue := []\<rparr>)"
| "push_step name (Type_entity s) st = (case push_selected st of
       Some f \<Rightarrow> if pf_entityScope f \<and> \<not> pp_confirmOpen st then st\<lparr>pp_entityRef := s\<rparr> else st | None \<Rightarrow> st)"
| "push_step name (Type_previous s) st = (if push_selected st = None \<or> pp_confirmOpen st then st else st\<lparr>pp_previousValue := s\<rparr>)"
| "push_step name (Type_value s) st = (if push_selected st = None \<or> pp_confirmOpen st then st else st\<lparr>pp_value := s\<rparr>)"
| "push_step name Open_push st = (if push_selected st = None \<or> pp_value st = [] then st else st\<lparr>pp_confirmOpen := True\<rparr>)"
| "push_step name (Push_box ev) st = (if needs_dialog ev \<and> \<not> pp_confirmOpen st then st
     else st\<lparr>pp_box := box_step name (push_required st) ev (pp_box st)\<rparr>)"
| "push_step name (Push_config b) st = st\<lparr>pp_config := Some b\<rparr>"
| "push_step name Cancel_push st = (if pp_confirmOpen st
     then st\<lparr>pp_box := (pp_box st)\<lparr>cb_typed := [], cb_token := None\<rparr>, pp_confirmOpen := False\<rparr> else st)"
| "push_step name Confirm_push st = (if pp_confirmOpen st \<and> box_ready name (push_required st) (pp_box st) \<and> \<not> pp_pending st
     then st\<lparr>pp_pending := True, pp_sent := pp_sent st @ [\<lparr>ps_body = push_request st, ps_token = box_token (pp_box st),
       ps_typed = cb_typed (pp_box st), ps_required = push_required st\<rparr>]\<rparr> else st)"
| "push_step name Push_answer st = (if pp_pending st then st\<lparr>pp_pending := False, pp_confirmOpen := False\<rparr> else st)"

abbreviation push_run :: "string \<Rightarrow> push_event list \<Rightarrow> push_panel" where
  "push_run name es \<equiv> fold (push_step name) es push_init"

text \<open>A push was confirmed with the name of the service and a token, and carries a value that was typed.\<close>

definition push_confirmed :: "string \<Rightarrow> string set \<Rightarrow> push_sent \<Rightarrow> bool" where
  "push_confirmed name tokens q \<longleftrightarrow> ps_typed q = name \<and> \<not> (ps_required q \<and> \<not> handed_over tokens (ps_token q))
     \<and> pb_value (ps_body q) \<noteq> JStr []"

definition push_ok :: "string \<Rightarrow> string set \<Rightarrow> push_panel \<Rightarrow> bool" where
  "push_ok name tokens st \<longleftrightarrow> (truthy_token (cb_token (pp_box st)) \<longrightarrow> handed_over tokens (cb_token (pp_box st)))
     \<and> (pp_confirmOpen st \<longrightarrow> pp_value st \<noteq> []) \<and> list_all (push_confirmed name tokens) (pp_sent st)"

fun push_brings :: "push_event \<Rightarrow> string set" where
  "push_brings (Push_box (Box_elevated t)) = {t}"
| "push_brings _ = {}"

lemma push_ok_step:
  assumes "push_ok name tokens st" "push_brings ev \<subseteq> tokens"
  shows "push_ok name tokens (push_step name ev st)"
proof (cases ev)
  case (Push_box b)
  have "truthy_token (cb_token (box_step name (push_required st) b (pp_box st)))
      \<longrightarrow> handed_over tokens (cb_token (box_step name (push_required st) b (pp_box st)))"
    using assms Push_box by (intro box_token_kept) (auto simp: push_ok_def)
  then show ?thesis using assms(1) Push_box by (auto simp: push_ok_def)
next
  case Confirm_push
  then show ?thesis using assms(1)
    by (auto simp: push_ok_def push_confirmed_def box_ready_def box_token_def push_request_def coerceFieldValue_def Let_def split: option.splits)
qed (use assms in \<open>auto simp: push_ok_def truthy_token_def split: option.split\<close>)

lemma push_ok_mono: "push_ok name tokens st \<Longrightarrow> tokens \<subseteq> tokens' \<Longrightarrow> push_ok name tokens' st"
  by (auto simp: push_ok_def push_confirmed_def list_all_iff intro: handed_over_mono)

interpretation pushes: informed_machine "push_step name" push_brings "push_ok name" push_init for name
proof
  fix known st ev
  assume "push_ok name known st"
  then show "push_ok name (known \<union> push_brings ev) (push_step name ev st)" by (intro push_ok_step) (auto intro: push_ok_mono)
qed (simp add: push_ok_def push_init_def fresh_box_def truthy_token_def)

text \<open>
  A setting is only pushed with the name of the service typed, a value given and, where step-up is on, a token that was handed over.
\<close>

theorem pushes_confirmed: "list_all (push_confirmed name (\<Union> (push_brings ` set es))) (pp_sent (push_run name es))"
  using pushes.informed_run [of name es] by (simp add: push_ok_def)

text \<open>
  Once a push was confirmed the next is not: the answer closes the dialog but leaves its text and token, so another setting goes
  out by two clicks where step-up is off.
\<close>

lemma second_push_unasked:
  "map (\<lambda>q. (pb_fieldKey (ps_body q), pb_value (ps_body q))) (pp_sent (push_run ''nas''
     [Push_fields [\<lparr>pf_key = ''a'', pf_type = ''text'', pf_entityScope = False\<rparr>, \<lparr>pf_key = ''b'', pf_type = ''toggle'', pf_entityScope = False\<rparr>],
      Push_config False, Choose_field ''a'', Type_value ''x'', Open_push, Push_box (Box_type ''nas''), Confirm_push, Push_answer,
      Choose_field ''b'', Type_value ''True'', Open_push, Confirm_push])) = [(''a'', JStr ''x''), (''b'', JBool False)]"
  by code_simp

text \<open>The entity of one setting stays for the next: the field of the entity is not emptied with the others.\<close>

lemma entity_kept_for_next_field:
  "map (\<lambda>q. (pb_fieldKey (ps_body q), pb_entityRef (ps_body q))) (pp_sent (push_run ''nas''
     [Push_fields [\<lparr>pf_key = ''a'', pf_type = ''text'', pf_entityScope = True\<rparr>, \<lparr>pf_key = ''b'', pf_type = ''text'', pf_entityScope = True\<rparr>],
      Push_config False, Choose_field ''a'', Type_entity ''vm1'', Choose_field ''b'', Type_value ''x'', Open_push, Push_box (Box_type ''nas''), Confirm_push]))
     = [(''b'', Some ''vm1'')]"
  by code_simp

subsection \<open>The template of a new document\<close>

text \<open>A template with its id and the connector type it is for; an empty type counts as none.\<close>

(* src features/services/ServiceDetailPage.tsx 914-917 candidates *)
definition template_candidates :: "string \<Rightarrow> (string \<times> string option) list option \<Rightarrow> (string \<times> string option) list" where
  "template_candidates type templates = filter (\<lambda>(i, t). t = None \<or> t = Some [] \<or> t = Some type) (from_opt [] templates)"

(* src features/services/ServiceDetailPage.tsx 911-912 LinkedDocPanel *)
record doc_picker =
  dp_picking :: bool
  dp_templateId :: string
  dp_pending :: bool
  dp_generated :: "string list"

(* src features/services/ServiceDetailPage.tsx 930-934 openPicker *)
definition openPicker :: "(string \<times> string option) list \<Rightarrow> doc_picker \<Rightarrow> doc_picker" where
  "openPicker cands st = st\<lparr>dp_templateId := (case cands of c # _ \<Rightarrow> fst c | [] \<Rightarrow> []), dp_picking := True, dp_pending := False\<rparr>"

(* src features/services/ServiceDetailPage.tsx 919-920 generate *)
definition generate_doc :: "doc_picker \<Rightarrow> doc_picker" where
  "generate_doc st = (if dp_picking st \<and> dp_templateId st \<noteq> [] \<and> \<not> dp_pending st
     then st\<lparr>dp_pending := True, dp_generated := dp_generated st @ [dp_templateId st]\<rparr> else st)"

subsection \<open>Picking an entity\<close>

(* src api/model/snapshotEntity.ts 10-17 SnapshotEntity *)
record picked_entity =
  pe_kind :: string
  pe_name :: string
  pe_externalId :: "string option"

text \<open>A truthy kind; the reference of an entity is empty where it has none.\<close>

(* src components/manager/EntityPicker.tsx 49-51 getEntityRef *)
definition getEntityRef :: "string \<Rightarrow> picked_entity \<Rightarrow> string" where
  "getEntityRef kind e = (if kind \<noteq> [] then or_text (pe_externalId e) (pe_name e) else from_opt [] (pe_externalId e))"

(* src components/manager/EntityPicker.tsx 52-62 entities *)
fun pick_entities :: "string \<Rightarrow> string set \<Rightarrow> picked_entity list \<Rightarrow> picked_entity list" where
  "pick_entities kind seen [] = []"
| "pick_entities kind seen (e # es) =
     (let ref = getEntityRef kind e
      in if ref = [] \<or> (kind \<noteq> [] \<and> pe_kind e \<noteq> kind) then pick_entities kind seen es
         else if kind = [] then e # pick_entities kind seen es
         else if ref \<in> seen then pick_entities kind seen es
         else e # pick_entities kind (insert ref seen) es)"

lemma pick_refs:
  assumes "kind \<noteq> []"
  shows "distinct (map (getEntityRef kind) (pick_entities kind seen es))
    \<and> getEntityRef kind ` set (pick_entities kind seen es) = {r \<in> getEntityRef kind ` {e \<in> set es. pe_kind e = kind}. r \<noteq> []} - seen"
proof (induction es arbitrary: seen)
  case (Cons e es)
  show ?case using Cons.IH [of seen] Cons.IH [of "insert (getEntityRef kind e) seen"] assms by (auto simp: Let_def)
qed simp

text \<open>
  With a kind, the picker offers each reference of that kind once and leaves none out, so that the value of the list stands for one entity.
\<close>

theorem picker_offers_each_once:
  assumes "kind \<noteq> []"
  shows "let options = map (getEntityRef kind) (pick_entities kind {} es)
    in distinct options \<and> set options = {r. r \<noteq> [] \<and> (\<exists>e \<in> set es. pe_kind e = kind \<and> getEntityRef kind e = r)}"
  using pick_refs [OF assms, of "{}" es] by (auto simp: Let_def)

subsection \<open>The maintenance menu\<close>

(* src components/manager/MaintenanceWindowMenu.tsx 65-66 MaintenanceWindowMenu *)
definition custom_minutes :: "string \<Rightarrow> rat option" where
  "custom_minutes s = (case js_number s of Some n \<Rightarrow> if trim s \<noteq> [] \<and> n > 0 then Some n else None | None \<Rightarrow> None)"

lemma custom_minutes_positive: "custom_minutes s = Some n \<Longrightarrow> n > 0"
  by (auto simp: custom_minutes_def split: option.splits if_splits)

text \<open>Half a minute can be sent; the server reads whole minutes.\<close>

lemma half_minute_accepted: "custom_minutes ''0.5'' = Some (1 / 2)"
proof -
  have "trim ''0.5'' = ''0.5''" "map to_lower (take 2 ''0.5'') = ''0.''" "unsigned_decimal ''0.5'' = Some (1 / 2)" by code_simp+
  then show ?thesis by (simp add: custom_minutes_def js_number_def finite_number_def Let_def)
qed

end
