(* ===== verification/Snapshots.thy ===== *)
theory Snapshots
  imports RecipeText "HOL-Library.Multiset"
begin

text \<open>
  The uptime line (\<open>features/services/sparkGeometry.ts\<close>), the snapshots of a service with their comparison
  (\<open>features/services/snapshots/SnapshotsPage.tsx\<close>), and the link from a sync to its changes
  (\<open>features/services/ServiceDetailPage.tsx\<close>). Times are the milliseconds that \<open>Date.parse\<close> reads; coordinates are
  exact where the program rounds to doubles.
\<close>

subsection \<open>The uptime line\<close>

(* src api/model/uptimeHistoryBucket.ts 10-16 UptimeHistoryBucket *)
record bucket =
  bk_start :: int
  bk_latency :: "rat option"

(* src api/model/uptimeHistory.ts 11-19 UptimeHistory *)
record uptime_history =
  uh_windowStart :: int
  uh_windowEnd :: int
  uh_bucketSeconds :: int
  uh_buckets :: "bucket list"

(* src features/services/sparkGeometry.ts 3-3 W *)
definition spark_W :: rat where "spark_W = 280"

(* src features/services/sparkGeometry.ts 4-4 H *)
definition spark_H :: rat where "spark_H = 48"

definition bucketMs :: "uptime_history \<Rightarrow> int" where
  "bucketMs h = uh_bucketSeconds h * 1000"

definition spark_range :: "uptime_history \<Rightarrow> int" where
  "spark_range h = max (uh_windowEnd h - uh_windowStart h) 1"

(* src features/services/sparkGeometry.ts 22-22 x *)
definition spark_x :: "uptime_history \<Rightarrow> int \<Rightarrow> rat" where
  "spark_x h t = of_int (t - uh_windowStart h) / of_int (spark_range h) * spark_W"

(* src features/services/sparkGeometry.ts 23-23 cell *)
definition spark_cell :: "uptime_history \<Rightarrow> rat" where
  "spark_cell h = of_int (bucketMs h) / of_int (spark_range h) * spark_W"

(* src features/services/sparkGeometry.ts 24-24 maxLatency *)
definition maxLatency :: "uptime_history \<Rightarrow> rat" where
  "maxLatency h = foldl (\<lambda>m b. max m (from_opt 0 (bk_latency b))) 1 (uh_buckets h)"

(* src features/services/sparkGeometry.ts 34-34 pt *)
definition spark_pt :: "uptime_history \<Rightarrow> bucket \<Rightarrow> rat \<times> rat" where
  "spark_pt h b = (spark_x h (bk_start b) + spark_cell h / 2, spark_H - (from_opt 0 (bk_latency b) / maxLatency h) * (spark_H - 4) - 2)"

text \<open>One round of the loop: the end of the bucket before, and the segments so far.\<close>

(* src features/services/sparkGeometry.ts 26-38 sparkGeometry *)
definition spark_step :: "uptime_history \<Rightarrow> int option \<times> (rat \<times> rat) list list \<Rightarrow> bucket \<Rightarrow> int option \<times> (rat \<times> rat) list list" where
  "spark_step h = (\<lambda>(prevEnd, segments) b.
     if bk_latency b = None then (None, segments)
     else (Some (bk_start b + bucketMs h),
       if prevEnd = Some (bk_start b) then butlast segments @ [last segments @ [spark_pt h b]] else segments @ [[spark_pt h b]]))"

(* src features/services/sparkGeometry.ts 18-40 sparkGeometry *)
definition spark_segments :: "uptime_history \<Rightarrow> (rat \<times> rat) list list" where
  "spark_segments h = snd (foldl (spark_step h) (None, []) (uh_buckets h))"

text \<open>The reference: runs of measured buckets, each beginning where the one before it ends.\<close>

fun runs_of :: "int \<Rightarrow> bucket list \<Rightarrow> bucket list list" where
  "runs_of ms [] = []"
| "runs_of ms (b # bs) =
     (if bk_latency b = None then runs_of ms bs
      else (case bs of
          c # _ \<Rightarrow> if bk_latency c \<noteq> None \<and> bk_start c = bk_start b + ms then (b # hd (runs_of ms bs)) # tl (runs_of ms bs) else [b] # runs_of ms bs
        | [] \<Rightarrow> [[b]]))"

lemma runs_head: "bk_latency c \<noteq> None \<Longrightarrow> \<exists>r rs. runs_of ms (c # cs) = (c # r) # rs"
  by (cases cs) auto

lemma spark_loop:
  "bs \<noteq> [] \<Longrightarrow> bk_latency (hd bs) \<noteq> None \<Longrightarrow>
     snd (foldl (spark_step h) (Some (bk_start (hd bs)), segs @ [s]) bs)
       = segs @ (s @ map (spark_pt h) (hd (runs_of (bucketMs h) bs))) # map (map (spark_pt h)) (tl (runs_of (bucketMs h) bs))"
  "p = None \<or> bs = [] \<or> bk_latency (hd bs) = None \<or> p \<noteq> Some (bk_start (hd bs)) \<Longrightarrow>
     snd (foldl (spark_step h) (p, segs) bs) = segs @ map (map (spark_pt h)) (runs_of (bucketMs h) bs)"
proof (induction bs arbitrary: segs s p)
  case (Cons b bs)
  let ?ms = "bucketMs h"
  have step: "snd (foldl (spark_step h) (Some (bk_start b + ?ms), segs' @ [s']) bs)
      = (case bs of
           c # _ \<Rightarrow> if bk_latency c \<noteq> None \<and> bk_start c = bk_start b + ?ms
             then segs' @ (s' @ map (spark_pt h) (hd (runs_of ?ms bs))) # map (map (spark_pt h)) (tl (runs_of ?ms bs))
             else segs' @ s' # map (map (spark_pt h)) (runs_of ?ms bs)
         | [] \<Rightarrow> segs' @ [s'])" for segs' s'
  proof (cases bs)
    case Nil
    then show ?thesis by simp
  next
    case (Cons c cs)
    show ?thesis
    proof (cases "bk_latency c \<noteq> None \<and> bk_start c = bk_start b + ?ms")
      case True
      then show ?thesis using Cons.IH(1) [of segs' s'] \<open>bs = c # cs\<close> by (simp del: runs_of.simps foldl_Cons)
    next
      case False
      have "snd (foldl (spark_step h) (Some (bk_start b + ?ms), segs' @ [s']) bs) = (segs' @ [s']) @ map (map (spark_pt h)) (runs_of ?ms bs)"
        by (rule Cons.IH(2)) (use False \<open>bs = c # cs\<close> in auto)
      then show ?thesis using False \<open>bs = c # cs\<close> by (auto simp del: runs_of.simps foldl_Cons)
    qed
  qed
  {
    case 1
    then have "foldl (spark_step h) (Some (bk_start b), segs @ [s]) (b # bs) = foldl (spark_step h) (Some (bk_start b + ?ms), segs @ [s @ [spark_pt h b]]) bs"
      by (auto simp: spark_step_def)
    then show ?case using 1 step [of segs "s @ [spark_pt h b]"] by (cases bs) auto
  next
    case 2
    show ?case
    proof (cases "bk_latency b = None")
      case True
      then show ?thesis using Cons.IH(2) [of None segs] by (simp add: spark_step_def)
    next
      case False
      then have "foldl (spark_step h) (p, segs) (b # bs) = foldl (spark_step h) (Some (bk_start b + ?ms), segs @ [[spark_pt h b]]) bs"
        using 2 by (auto simp: spark_step_def)
      then show ?thesis using False step [of segs "[spark_pt h b]"] by (cases bs) auto
    qed
  }
qed simp_all

text \<open>
  Claim C36. The line is drawn in exactly the runs of measured buckets that follow each other without a gap: a bucket that is missing or has
  no latency ends a segment and is never drawn as zero, and nothing else does.
\<close>

theorem spark_segments_runs:
  "spark_segments h = map (map (spark_pt h)) (runs_of (bucketMs h) (uh_buckets h))"
  unfolding spark_segments_def using spark_loop(2) [of None "uh_buckets h" h "[]"] by simp

text \<open>Every measured bucket is a point of the line, once and in order.\<close>

lemma runs_all: "concat (runs_of ms bs) = filter (\<lambda>b. bk_latency b \<noteq> None) bs"
proof (induction bs)
  case (Cons b bs)
  show ?case
  proof (cases bs)
    case (Cons c cs)
    show ?thesis
    proof (cases "bk_latency c \<noteq> None \<and> bk_start c = bk_start b + ms")
      case True
      then obtain r rs where r: "runs_of ms bs = (c # r) # rs" using runs_head Cons by blast
      have "runs_of ms (b # bs) = (if bk_latency b = None then runs_of ms bs else (b # c # r) # rs)" using True r Cons by simp
      then show ?thesis using Cons.IH r by simp
    next
      case False
      have "runs_of ms (b # bs) = (if bk_latency b = None then runs_of ms bs else [b] # runs_of ms bs)"
        unfolding Cons using False by auto
      then show ?thesis using Cons.IH by simp
    qed
  qed simp
qed simp

lemma maxLatency_bounds:
  "1 \<le> maxLatency h" "b \<in> set (uh_buckets h) \<Longrightarrow> from_opt 0 (bk_latency b) \<le> maxLatency h"
proof -
  have *: "m \<le> foldl (\<lambda>m b. max m (from_opt 0 (bk_latency b))) m bs
      \<and> (\<forall>b \<in> set bs. from_opt 0 (bk_latency b) \<le> foldl (\<lambda>m b. max m (from_opt 0 (bk_latency b))) m bs)" for m :: rat and bs
  proof (induction bs arbitrary: m)
    case (Cons b bs)
    show ?case using Cons.IH [of "max m (from_opt 0 (bk_latency b))"] by simp
  qed simp
  show "1 \<le> maxLatency h" "b \<in> set (uh_buckets h) \<Longrightarrow> from_opt 0 (bk_latency b) \<le> maxLatency h"
    using * [of 1 "uh_buckets h"] by (auto simp: maxLatency_def)
qed

text \<open>A bucket inside the window with a latency that is not negative lies inside the picture.\<close>

theorem spark_points_inside:
  assumes "b \<in> set (uh_buckets h)" "bk_latency b = Some l" "0 \<le> l" "0 \<le> uh_bucketSeconds h"
    "uh_windowStart h \<le> bk_start b" "bk_start b + bucketMs h \<le> uh_windowEnd h"
  shows "case spark_pt h b of (px, py) \<Rightarrow> 0 \<le> px \<and> px \<le> spark_W \<and> 2 \<le> py \<and> py \<le> spark_H - 2"
proof -
  let ?r = "of_int (spark_range h) :: rat"
  have r: "0 < ?r" "of_int (uh_windowEnd h - uh_windowStart h) \<le> ?r" by (auto simp: spark_range_def)
  have ms: "0 \<le> bucketMs h" using assms(4) by (simp add: bucketMs_def)
  define p :: rat where "p = of_int (bk_start b - uh_windowStart h) + of_int (bucketMs h) / 2"
  have p: "0 \<le> p" "p \<le> ?r"
  proof -
    have 1: "(0 :: rat) \<le> of_int (bk_start b - uh_windowStart h)" "(0 :: rat) \<le> of_int (bucketMs h)" using assms(5) ms by simp_all
    then show "0 \<le> p" by (simp add: p_def)
    have "bk_start b - uh_windowStart h + bucketMs h \<le> uh_windowEnd h - uh_windowStart h" using assms(6) by simp
    then have "(of_int (bk_start b - uh_windowStart h + bucketMs h) :: rat) \<le> of_int (uh_windowEnd h - uh_windowStart h)"
      unfolding of_int_le_iff .
    then show "p \<le> ?r" using 1(2) r(2) by (simp add: p_def)
  qed
  have x: "spark_x h (bk_start b) + spark_cell h / 2 = p / ?r * spark_W"
    using r(1) by (simp add: spark_x_def spark_cell_def p_def field_simps)
  define q where "q = p / ?r"
  have "0 \<le> q" "q \<le> 1" unfolding q_def using p r(1) by simp_all
  then have px: "0 \<le> q * spark_W" "q * spark_W \<le> spark_W" by (simp_all add: spark_W_def)
  have "l \<le> maxLatency h" "0 < maxLatency h" using maxLatency_bounds(1) [of h] maxLatency_bounds(2) [OF assms(1)] assms(2) by auto
  moreover define y where "y = l / maxLatency h"
  ultimately have "0 \<le> y" "y \<le> 1" using assms(3) by simp_all
  then have py: "2 \<le> spark_H - y * (spark_H - 4) - 2" "spark_H - y * (spark_H - 4) - 2 \<le> spark_H - 2"
    by (simp_all add: spark_H_def)
  show ?thesis unfolding spark_pt_def x prod.case q_def [symmetric] using px py assms(2) by (simp flip: y_def)
qed


subsection \<open>The snapshot before another\<close>

text \<open>Rows by their ids, newest first.\<close>

(* src features/services/snapshots/SnapshotsPage.tsx 59-59 targetIndex *)
definition targetIndex :: "string \<Rightarrow> string list \<Rightarrow> nat option" where
  "targetIndex to ids = (if to \<in> set ids then Some (length (takeWhile (\<lambda>i. i \<noteq> to) ids)) else None)"

(* src features/services/snapshots/SnapshotsPage.tsx 60-60 activeFrom *)
definition activeFrom :: "string \<Rightarrow> string \<Rightarrow> string list \<Rightarrow> string" where
  "activeFrom from to ids =
     (if from \<noteq> [] then from
      else if to = [] then []
      else case targetIndex to ids of Some i \<Rightarrow> from_opt [] (nth_opt ids (Suc i)) | None \<Rightarrow> [])"

text \<open>
  The address (\<open>s\<close>, \<open>a\<close> and \<open>b\<close>), the rows that are loaded, the pages behind the cursors, and the request
  for the next one; the requests are counted.
\<close>

(* src features/services/snapshots/SnapshotsPage.tsx 39-58 SnapshotsPage *)
record snapshots_page =
  sn_view :: string
  sn_from :: string
  sn_to :: string
  sn_rows :: "string list"
  sn_left :: "string list list"
  sn_fetching :: bool
  sn_fetches :: nat
  sn_selected :: "string list"

definition sn_active :: "snapshots_page \<Rightarrow> string" where
  "sn_active st = activeFrom (sn_from st) (sn_to st) (sn_rows st)"

definition fetchNextPage :: "snapshots_page \<Rightarrow> snapshots_page" where
  "fetchNextPage st = st\<lparr>sn_fetching := True, sn_fetches := Suc (sn_fetches st)\<rparr>"

text \<open>After every rendering: a comparison without a known predecessor asks for the next page.\<close>

(* src features/services/snapshots/SnapshotsPage.tsx 84-89 SnapshotsPage *)
definition follow_cursor :: "snapshots_page \<Rightarrow> snapshots_page" where
  "follow_cursor st = (if sn_to st \<noteq> [] \<and> sn_from st = [] \<and> sn_active st = [] \<and> sn_left st \<noteq> [] \<and> \<not> sn_fetching st then fetchNextPage st else st)"

(* src features/services/snapshots/SnapshotsPage.tsx 91-91 navigateDiff *)
definition navigateDiff :: "string \<Rightarrow> string \<Rightarrow> snapshots_page \<Rightarrow> snapshots_page" where
  "navigateDiff a b st = st\<lparr>sn_view := [], sn_from := a, sn_to := b\<rparr>"

datatype snapshots_event = Back_to_timeline | View_snapshot nat | Vs_previous nat | Vs_golden string nat | Tick_snapshot nat
  | Compare_selected | Load_more | Page_answer bool

definition timeline_shown :: "snapshots_page \<Rightarrow> bool" where
  "timeline_shown st \<longleftrightarrow> sn_view st = [] \<and> sn_to st = []"

(* src features/services/snapshots/SnapshotsPage.tsx 153-156 SnapshotsPage *)
definition compare_selected :: "snapshots_page \<Rightarrow> snapshots_page" where
  "compare_selected st = (case filter (\<lambda>i. i \<in> set (sn_selected st)) (sn_rows st) of
       [newer, older] \<Rightarrow> if length (sn_selected st) = 2 then navigateDiff older newer st else st
     | _ \<Rightarrow> st)"

(* src features/services/snapshots/SnapshotsPage.tsx 165-165 SnapshotsPage *)
definition tick_snapshot :: "string \<Rightarrow> snapshots_page \<Rightarrow> snapshots_page" where
  "tick_snapshot i st = (if i \<in> set (sn_selected st) then st\<lparr>sn_selected := filter (\<lambda>j. j \<noteq> i) (sn_selected st)\<rparr>
     else if length (sn_selected st) = 2 then st else st\<lparr>sn_selected := sn_selected st @ [i]\<rparr>)"

(* src features/services/snapshots/SnapshotsPage.tsx 117-178 SnapshotsPage *)
fun snapshots_change :: "snapshots_event \<Rightarrow> snapshots_page \<Rightarrow> snapshots_page" where
  "snapshots_change Back_to_timeline st = st\<lparr>sn_view := [], sn_from := [], sn_to := []\<rparr>"
| "snapshots_change (View_snapshot k) st = (if timeline_shown st \<and> k < length (sn_rows st)
     then st\<lparr>sn_view := sn_rows st ! k, sn_from := [], sn_to := []\<rparr> else st)"
| "snapshots_change (Vs_previous k) st = (if timeline_shown st \<and> k < length (sn_rows st)
     then (case nth_opt (sn_rows st) (Suc k) of
         Some previous \<Rightarrow> navigateDiff previous (sn_rows st ! k) st
       | None \<Rightarrow> if sn_left st \<noteq> [] then st\<lparr>sn_view := [], sn_from := [], sn_to := sn_rows st ! k\<rparr> else st)
     else st)"
| "snapshots_change (Vs_golden golden k) st = (if timeline_shown st \<and> k < length (sn_rows st) \<and> golden \<noteq> [] \<and> golden \<noteq> sn_rows st ! k
     then navigateDiff golden (sn_rows st ! k) st else st)"
| "snapshots_change (Tick_snapshot k) st = (if timeline_shown st \<and> k < length (sn_rows st) then tick_snapshot (sn_rows st ! k) st else st)"
| "snapshots_change Compare_selected st = (if timeline_shown st then compare_selected st else st)"
| "snapshots_change Load_more st = (if timeline_shown st \<and> sn_left st \<noteq> [] \<and> \<not> sn_fetching st then fetchNextPage st else st)"
| "snapshots_change (Page_answer success) st = (if \<not> sn_fetching st then st
     else case sn_left st of
         p # ps \<Rightarrow> if success then st\<lparr>sn_fetching := False, sn_rows := sn_rows st @ p, sn_left := ps\<rparr> else st\<lparr>sn_fetching := False\<rparr>
       | [] \<Rightarrow> st\<lparr>sn_fetching := False\<rparr>)"

definition snapshots_step :: "snapshots_event \<Rightarrow> snapshots_page \<Rightarrow> snapshots_page" where
  "snapshots_step ev st = follow_cursor (snapshots_change ev st)"

definition all_rows :: "snapshots_page \<Rightarrow> string list" where
  "all_rows st = sn_rows st @ concat (sn_left st)"

lemma takeWhile_found: "x \<in> set xs \<Longrightarrow> takeWhile (\<lambda>i. i \<noteq> x) (xs @ ys) = takeWhile (\<lambda>i. i \<noteq> x) xs"
  by (induction xs) auto

text \<open>What is known of the loaded rows holds of all of them.\<close>

lemma active_known: "activeFrom from to xs \<noteq> [] \<Longrightarrow> activeFrom from to (xs @ ys) = activeFrom from to xs"
  by (auto simp: activeFrom_def targetIndex_def takeWhile_found nth_opt_def nth_append from_opt_def split: if_splits)

lemma follow_simps [simp]: "sn_to (follow_cursor st) = sn_to st" "sn_from (follow_cursor st) = sn_from st"
  "sn_rows (follow_cursor st) = sn_rows st" "sn_left (follow_cursor st) = sn_left st" "sn_active (follow_cursor st) = sn_active st"
  by (simp_all add: follow_cursor_def fetchNextPage_def sn_active_def)

text \<open>Once the requests are answered, the comparison is the one that all the rows give.\<close>

lemma active_loaded:
  assumes "sn_to st \<noteq> []" "sn_from st = []" "sn_fetching st \<longleftrightarrow> sn_active st = [] \<and> sn_left st \<noteq> []"
  shows "sn_active (fold snapshots_step (replicate (length (sn_left st)) (Page_answer True)) st) = activeFrom [] (sn_to st) (all_rows st)"
  using assms
proof (induction "sn_left st" arbitrary: st)
  case Nil
  then show ?case using assms(2) by (simp add: sn_active_def all_rows_def flip: Nil(1))
next
  case (Cons p ps)
  note left = Cons.hyps(2) [symmetric]
  show ?case
  proof (cases "sn_active st = []")
    case True
    let ?st = "snapshots_step (Page_answer True) st"
    have st: "?st = follow_cursor (st\<lparr>sn_fetching := False, sn_rows := sn_rows st @ p, sn_left := ps\<rparr>)"
      using Cons.prems True left by (simp add: snapshots_step_def)
    have "sn_fetching ?st \<longleftrightarrow> sn_active ?st = [] \<and> sn_left ?st \<noteq> []"
      unfolding st using Cons.prems by (simp add: follow_cursor_def fetchNextPage_def sn_active_def)
    then have "sn_active (fold snapshots_step (replicate (length (sn_left ?st)) (Page_answer True)) ?st) = activeFrom [] (sn_to ?st) (all_rows ?st)"
      using Cons.prems by (intro Cons.hyps(1)) (simp_all add: st)
    then show ?thesis using left by (simp add: st all_rows_def)
  next
    case False
    then have same: "snapshots_step (Page_answer True) st = st"
      using Cons.prems by (simp add: snapshots_step_def follow_cursor_def)
    have "fold snapshots_step (replicate n (Page_answer True)) st = st" for n by (induction n) (simp_all add: same)
    then show ?thesis using False Cons.prems active_known [of "[]" "sn_to st" "sn_rows st"]
      by (simp add: sn_active_def all_rows_def)
  qed
qed

text \<open>The one before a snapshot is the row right after its first.\<close>

lemma active_follows:
  assumes "to \<noteq> []"
  shows "(\<exists>newer older. ids = newer @ to # activeFrom [] to ids # older \<and> to \<notin> set newer)
    \<or> activeFrom [] to ids = [] \<and> (to \<notin> set ids \<or> (\<exists>newer. ids = newer @ [to]))"
proof (cases "to \<in> set ids")
  case True
  then obtain newer older where ids: "ids = newer @ to # older" "to \<notin> set newer" using split_list_first by fastforce
  moreover have "takeWhile (\<lambda>i. i \<noteq> to) (newer @ to # older) = newer" using ids(2) by (subst takeWhile_append2) auto
  ultimately have "takeWhile (\<lambda>i. i \<noteq> to) ids = newer" by simp
  then have active: "activeFrom [] to ids = from_opt [] (nth_opt ids (Suc (length newer)))"
    using True assms by (simp add: activeFrom_def targetIndex_def)
  show ?thesis
  proof (cases older)
    case Nil
    then show ?thesis using ids active by (simp add: nth_opt_def)
  next
    case (Cons x xs)
    then have "activeFrom [] to ids = x" using ids active by (simp add: nth_opt_def nth_append)
    then show ?thesis using ids Cons by blast
  qed
qed (simp add: activeFrom_def targetIndex_def assms)

text \<open>
  Claim C37. A link to the changes of a snapshot only names that snapshot: the page follows the cursors until it knows the one before it.
  However many pages that takes, once the requests are answered the snapshot it is compared with is the row that comes right after
  its first row in the whole timeline, on whichever page, and there is none only where the snapshot is the last or not in it.
\<close>

theorem predecessor_found:
  assumes "sn_to st \<noteq> []" "sn_from st = []" "sn_fetching st \<longleftrightarrow> sn_active st = [] \<and> sn_left st \<noteq> []"
    and "a = sn_active (fold snapshots_step (replicate (length (sn_left st)) (Page_answer True)) st)"
  shows "(\<exists>newer older. all_rows st = newer @ sn_to st # a # older \<and> sn_to st \<notin> set newer)
    \<or> a = [] \<and> (sn_to st \<notin> set (all_rows st) \<or> (\<exists>newer. all_rows st = newer @ [sn_to st]))"
  unfolding assms(4) active_loaded [OF assms(1-3)] by (rule active_follows [OF assms(1)])

definition linked_page :: snapshots_page where
  "linked_page = \<lparr>sn_view = [], sn_from = [], sn_to = ''s3'', sn_rows = [''s5'', ''s4''], sn_left = [[''s3''], [], [''s2'', ''s1'']],
     sn_fetching = True, sn_fetches = 1, sn_selected = []\<rparr>"

lemma predecessor_found_witness:
  "sn_active (fold snapshots_step (replicate 3 (Page_answer True)) linked_page) = ''s2''"
proof -
  have h: "sn_to linked_page \<noteq> []" "sn_from linked_page = []" "sn_fetching linked_page \<longleftrightarrow> sn_active linked_page = [] \<and> sn_left linked_page \<noteq> []"
    by code_simp+
  have n: "length (sn_left linked_page) = 3" by code_simp
  have rows: "all_rows linked_page = [''s5'', ''s4'', ''s3'', ''s2'', ''s1'']" "sn_to linked_page = ''s3''" by code_simp+
  show ?thesis using predecessor_found [OF h refl] unfolding n rows by (auto simp: Cons_eq_append_conv append_eq_Cons_conv)
qed

text \<open>A page that cannot be read is asked for again as soon as the failure is known, without end.\<close>

lemma failed_page_repeated:
  assumes "sn_to st \<noteq> []" "sn_from st = []" "sn_active st = []" "sn_left st \<noteq> []" "sn_fetching st"
  shows "sn_fetches (fold snapshots_step (replicate n (Page_answer False)) st) = sn_fetches st + n"
  using assms
proof (induction n arbitrary: st)
  case (Suc n)
  let ?st = "snapshots_step (Page_answer False) st"
  have st: "?st = fetchNextPage (st\<lparr>sn_fetching := False\<rparr>)"
    using Suc.prems by (cases "sn_left st") (simp_all add: snapshots_step_def follow_cursor_def sn_active_def)
  have "sn_fetches (fold snapshots_step (replicate n (Page_answer False)) ?st) = sn_fetches ?st + n"
    using Suc.prems by (intro Suc.IH) (simp_all add: st fetchNextPage_def sn_active_def)
  then show ?case by (simp add: st fetchNextPage_def)
qed simp

text \<open>Two ticked snapshots are compared from the older to the newer.\<close>

theorem compared_in_order:
  assumes "compare_selected st \<noteq> st"
  shows "\<exists>xs ys zs. sn_rows st = xs @ sn_to (compare_selected st) # ys @ sn_from (compare_selected st) # zs"
proof -
  obtain newer older where f: "filter (\<lambda>i. i \<in> set (sn_selected st)) (sn_rows st) = [newer, older]"
    and c: "compare_selected st = navigateDiff older newer st"
    using assms by (auto simp: compare_selected_def split: list.splits if_splits)
  obtain xs rest where r: "sn_rows st = xs @ newer # rest" "filter (\<lambda>i. i \<in> set (sn_selected st)) rest = [older]"
    using filter_eq_ConsD [OF f] by auto
  obtain ys zs where "rest = ys @ older # zs" using filter_eq_ConsD [OF r(2)] by auto
  then show ?thesis using r(1) c by (auto simp: navigateDiff_def)
qed

subsection \<open>The link of a sync\<close>

text \<open>The snapshots that are listed, newest first, and the snapshot of the sync.\<close>

(* src features/services/ServiceDetailPage.tsx 1108-1112 SyncHistoryPanel *)
definition sync_link :: "string list option \<Rightarrow> string \<Rightarrow> string" where
  "sync_link snapshots i =
     (case Option.bind snapshots (\<lambda>ids. Option.bind (targetIndex i ids) (\<lambda>k. nth_opt ids (Suc k))) of
        Some previous \<Rightarrow> ''a='' @ encodeURIComponent previous @ ''&b='' @ encodeURIComponent i
      | None \<Rightarrow> ''b='' @ encodeURIComponent i)"

subsection \<open>The changes of entities\<close>

(* src api/model/entityChange.ts 11-19 EntityChange *)
record entity_change =
  ec_kind :: string
  ec_key :: string
  ec_field :: string

(* src features/services/snapshots/SnapshotsPage.tsx 187-190 grouped *)
fun add_change :: "(string \<times> entity_change list) list \<Rightarrow> entity_change \<Rightarrow> (string \<times> entity_change list) list" where
  "add_change [] c = [(ec_kind c @ '':'' @ ec_key c, [c])]"
| "add_change ((k, cs) # gs) c = (if k = ec_kind c @ '':'' @ ec_key c then (k, cs @ [c]) # gs else (k, cs) # add_change gs c)"

(* src features/services/snapshots/SnapshotsPage.tsx 187-190 grouped *)
definition grouped :: "entity_change list \<Rightarrow> (string \<times> entity_change list) list" where
  "grouped = foldl add_change []"

lemma add_change_all: "mset (concat (map snd (add_change gs c))) = add_mset c (mset (concat (map snd gs)))"
  by (induction gs c rule: add_change.induct) auto

lemma add_change_keys: "distinct (map fst gs) \<Longrightarrow> distinct (map fst (add_change gs c)) \<and> fst ` set (add_change gs c) = insert (ec_kind c @ '':'' @ ec_key c) (fst ` set gs)"
  by (induction gs c rule: add_change.induct) auto

text \<open>Every change is shown once, under one heading for its entity.\<close>

theorem grouped_all: "mset (concat (map snd (grouped cs))) = mset cs \<and> distinct (map fst (grouped cs))"
proof -
  have "distinct (map fst gs) \<Longrightarrow> mset (concat (map snd (foldl add_change gs cs))) = mset (concat (map snd gs)) + mset cs
      \<and> distinct (map fst (foldl add_change gs cs))" for gs
    using add_change_keys by (induction cs arbitrary: gs) (auto simp: add_change_all)
  then show ?thesis by (simp add: grouped_def)
qed

end
