(* ===== verification/Palette.thy ===== *)
theory Palette
  imports Topology ConnectorForms
begin

text \<open>
  The command palette (\<open>components/command/CommandPalette.tsx\<close>, \<open>components/command/registry.ts\<close>): the commands it
  offers, the list for a query with the hits of the search, the groups it shows and its keyboard. The package that
  matches labels is a parameter.
\<close>

subsection \<open>Commands\<close>

(* src components/command/registry.ts 12-12 CommandGroup *)
datatype command_group = Navigate | Actions | Services_group | Docs | Runbooks_group | Entities

text \<open>What running a command does.\<close>

datatype command_effect = Go string | Go_search "(string \<times> string) list" | Cycle_theme | Run_sync "string option" | Set_enabled string bool

(* src components/command/registry.ts 22-31 Command *)
record command =
  cm_id :: string
  cm_label :: string
  cm_hint :: "string option"
  cm_group :: command_group
  cm_run :: command_effect

(* src components/command/CommandPalette.tsx 43-50 GROUP_ORDER *)
definition GROUP_ORDER :: "command_group list" where
  "GROUP_ORDER = [Navigate, Actions, Services_group, Docs, Runbooks_group, Entities]"

definition command :: "string \<Rightarrow> string \<Rightarrow> string option \<Rightarrow> command_group \<Rightarrow> command_effect \<Rightarrow> command" where
  "command i label hint g run = \<lparr>cm_id = i, cm_label = label, cm_hint = hint, cm_group = g, cm_run = run\<rparr>"

text \<open>Labels are the keys of the catalogue; a sync or a toggle of a service names it.\<close>

(* src components/command/CommandPalette.tsx 63-113 nav *)
definition nav_commands :: "command list" where
  "nav_commands = map (\<lambda>(i, l, p). command i (''command.nav.'' @ l) None Navigate (Go p))
     [(''n-dash'', ''dashboard'', ''/dashboard''), (''n-svc'', ''services'', ''/services''), (''n-docs'', ''docs'', ''/docs''),
      (''n-journal'', ''journal'', ''/journal''), (''n-chg'', ''changes'', ''/changes''), (''n-alerts'', ''alerts'', ''/alerts''),
      (''n-set'', ''settings'', ''/settings'')]"

(* src components/command/CommandPalette.tsx 115-142 actions *)
definition action_commands :: "bool \<Rightarrow> command list" where
  "action_commands canMutate =
     (let theme = command ''a-theme'' ''command.action.cycleTheme'' (Some ''command.action.cycleThemeHint'') Actions Cycle_theme
      in if canMutate
         then [command ''a-sync'' ''command.action.syncAll'' (Some ''command.action.syncAllHint'') Actions (Run_sync None), theme,
           command ''a-new-doc'' ''docs.human.new'' None Actions (Go ''/docs?new=1'')]
         else [theme])"

record palette_service =
  pc_id :: string
  pc_name :: string
  pc_type :: string
  pc_enabled :: bool

(* src components/command/CommandPalette.tsx 144-179 services *)
definition service_commands :: "bool \<Rightarrow> palette_service \<Rightarrow> command list" where
  "service_commands canMutate c =
     command (''s-'' @ pc_id c) (pc_name c) (Some (pc_type c)) Services_group (Go (''/services/'' @ pc_id c))
     # (if canMutate
        then [command (''s-sync-'' @ pc_id c) (''command.action.syncOne'' @ pc_name c) None Actions (Run_sync (Some (pc_id c))),
          command (''s-toggle-'' @ pc_id c) ((if pc_enabled c then ''command.action.disableOne'' else ''command.action.enableOne'') @ pc_name c)
            None Actions (Set_enabled (pc_id c) (\<not> pc_enabled c))]
        else [])"

(* src components/command/CommandPalette.tsx 181-187 docs *)
definition doc_command :: "doc_node \<Rightarrow> command" where
  "doc_command d = command (''d-'' @ dn_docId d) (dn_title d) None Docs (Go (''/docs/'' @ dn_docId d))"

text \<open>The commands of other modules come last.\<close>

(* src components/command/CommandPalette.tsx 60-190 buildCommands *)
definition buildCommands :: "bool \<Rightarrow> palette_service list \<Rightarrow> doc_node list \<Rightarrow> command list \<Rightarrow> command list" where
  "buildCommands canMutate services docs registered =
     nav_commands @ action_commands canMutate @ concat (map (service_commands canMutate) services) @ map doc_command docs @ registered"

(* src components/command/CommandPalette.tsx 237-245 commands *)
definition palette_commands :: "bool \<Rightarrow> palette_service list \<Rightarrow> doc_node option \<Rightarrow> command list \<Rightarrow> command list" where
  "palette_commands canMutate services tree registered =
     buildCommands canMutate services
       (filter (\<lambda>d. dn_branch d \<noteq> Some True \<and> dn_docId d \<noteq> ''root'') (case tree of Some n \<Rightarrow> flattenDocTree n | None \<Rightarrow> [])) registered"

text \<open>An index that is not found is one before the first.\<close>

(* src components/command/CommandPalette.tsx 53-58 cycleTheme *)
definition cycle_next :: "string list \<Rightarrow> string \<Rightarrow> string" where
  "cycle_next names current = names ! ((if current \<in> set names then Suc (length (takeWhile (\<lambda>n. n \<noteq> current) names)) else 0) mod length names)"

subsection \<open>The list for a query\<close>

(* src api/model/entityHit.ts 10-22 EntityHit *)
record entity_hit =
  eh_entityId :: string
  eh_connectorId :: string
  eh_connectorName :: string
  eh_docId :: string
  eh_kind :: string
  eh_name :: string
  eh_externalId :: string
  eh_ip :: string
  eh_hostname :: string
  eh_mac :: string

text \<open>Of the hits in documents and runbooks: the id, the title and the snippet.\<close>

(* src api/model/searchResults.ts 12-16 SearchResults *)
record search_results =
  sr_docs :: "(string \<times> string \<times> string) list"
  sr_runbooks :: "(string \<times> string \<times> string) list"
  sr_entities :: "entity_hit list"

(* src components/command/CommandPalette.tsx 291-298 serverDocs *)
definition doc_hit :: "string \<times> string \<times> string \<Rightarrow> command" where
  "doc_hit = (\<lambda>(i, title, snippet). command (''d-'' @ i) title (Some snippet) Docs (Go (''/docs/'' @ encodeURIComponent i)))"

(* src components/command/CommandPalette.tsx 303-311 filtered *)
definition runbook_hit :: "string \<Rightarrow> string \<times> string \<times> string \<Rightarrow> command" where
  "runbook_hit q = (\<lambda>(i, title, snippet). command (''r-'' @ i) title (Some snippet) Runbooks_group
     (Go_search [(''q'', q), (''type'', ''runbook''), (''runbook'', i)]))"

text \<open>Addresses of an entity, the first that is there.\<close>

(* src components/command/CommandPalette.tsx 317-319 filtered *)
definition entity_hint :: "entity_hit \<Rightarrow> string list" where
  "entity_hint h = filter (\<lambda>s. s \<noteq> []) [eh_connectorName h, eh_kind h,
     (if eh_ip h \<noteq> [] then eh_ip h else if eh_hostname h \<noteq> [] then eh_hostname h else if eh_mac h \<noteq> [] then eh_mac h
      else eh_externalId h)]"

(* src components/command/CommandPalette.tsx 322-329 filtered *)
definition entity_path :: "entity_hit \<Rightarrow> string" where
  "entity_path h = (if eh_entityId h \<noteq> [] then ''/entities/'' @ encodeURIComponent (eh_entityId h)
     else if eh_docId h \<noteq> [] then ''/docs/'' @ encodeURIComponent (eh_docId h)
     else ''/services/'' @ encodeURIComponent (eh_connectorId h))"

(* src components/command/CommandPalette.tsx 314-330 filtered *)
definition entity_command :: "nat \<Rightarrow> entity_hit \<Rightarrow> command" where
  "entity_command k h = command (''e-'' @ eh_connectorId h @ ''-'' @ show_nat k) (eh_name h) (Some (join_with [CHR 0x20, CHR 0xB7, CHR 0x20] (entity_hint h)))
     Entities (Go (entity_path h))"

(* src components/command/CommandPalette.tsx 332-338 filtered *)
definition see_all :: "string \<Rightarrow> command" where
  "see_all q = command ''search-all'' ''search.seeAll'' None Entities (Go_search [(''q'', q)])"

definition is_see_all :: "command \<Rightarrow> bool" where
  "is_see_all c \<longleftrightarrow> cm_id c = ''search-all''"

text \<open>The matched commands, with the hits once the query has two characters; a document of the hits replaces its command.\<close>

(* src components/command/CommandPalette.tsx 287-339 filtered *)
definition palette_items :: "(string \<Rightarrow> command list \<Rightarrow> command list) \<Rightarrow> command list \<Rightarrow> string \<Rightarrow> search_results option \<Rightarrow> command list" where
  "palette_items match commands q results =
     (let items = match q commands; r = from_opt \<lparr>sr_docs = [], sr_runbooks = [], sr_entities = []\<rparr> results; docs = map doc_hit (sr_docs r)
      in if length q < 2 then items
         else filter (\<lambda>c. cm_id c \<notin> cm_id ` set docs) items @ docs @ map (runbook_hit q) (sr_runbooks r)
           @ map_index entity_command 0 (sr_entities r) @ [see_all q])"

text \<open>The hits only count for the query they belong to.\<close>

(* src components/command/CommandPalette.tsx 284-347 filtered *)
definition filtered_commands :: "(string \<Rightarrow> command list \<Rightarrow> command list) \<Rightarrow> command list \<Rightarrow> string \<Rightarrow> string
    \<Rightarrow> search_results option \<Rightarrow> command list" where
  "filtered_commands match commands query debounced results =
     (let q = trim query
      in if q = [] then commands
         else let items = palette_items match commands q (if q = debounced then results else None)
           in concat (map (\<lambda>g. filter (\<lambda>c. cm_group c = g \<and> \<not> is_see_all c) items) GROUP_ORDER) @ filter is_see_all items)"

(* src components/command/CommandPalette.tsx 352-361 groups *)
definition shown_groups :: "command list \<Rightarrow> (command_group \<times> command list) list" where
  "shown_groups filtered =
     (let of_group = (\<lambda>g. filter (\<lambda>c. cm_group c = g) (filter (\<lambda>c. \<not> is_see_all c) filtered))
      in map (\<lambda>g. (g, of_group g)) (filter (\<lambda>g. of_group g \<noteq> []) GROUP_ORDER))"

text \<open>The options from top to bottom.\<close>

(* src components/command/CommandPalette.tsx 488-501 PaletteBody *)
definition displayed :: "command list \<Rightarrow> command list" where
  "displayed filtered = concat (map snd (shown_groups filtered)) @ filter is_see_all filtered"

lemma filter_group:
  "filter (\<lambda>c. cm_group c = g) (concat (map (\<lambda>g. filter (\<lambda>c. cm_group c = g \<and> P c) items) gs))
     = concat (map (\<lambda>h. if h = g then filter (\<lambda>c. cm_group c = g \<and> P c) items else []) gs)"
  by (induction gs) (auto simp: filter_empty_conv conj_commute intro!: filter_cong arg_cong2 [where f = append])

lemma concat_nonempty: "concat (map f (filter (\<lambda>x. f x \<noteq> []) xs)) = concat (map f xs)"
  by (induction xs) auto

lemma displayed_by_group:
  "displayed cs = concat (map (\<lambda>g. filter (\<lambda>c. cm_group c = g \<and> \<not> is_see_all c) cs) GROUP_ORDER) @ filter is_see_all cs"
proof -
  have "concat (map snd (shown_groups cs)) = concat (map (\<lambda>g. filter (\<lambda>c. cm_group c = g) (filter (\<lambda>c. \<not> is_see_all c) cs)) GROUP_ORDER)"
    unfolding shown_groups_def Let_def using concat_nonempty [of "\<lambda>g. filter (\<lambda>c. cm_group c = g) (filter (\<lambda>c. \<not> is_see_all c) cs)" GROUP_ORDER]
    by (simp add: comp_def)
  then show ?thesis by (simp add: displayed_def conj_commute)
qed

text \<open>
  Claim C38. For a typed query the arrow keys walk the options in the order in which they are displayed, whatever the search has found and
  whatever other modules have registered: the flat list and the groups on the page are the same sequence.
\<close>

theorem typed_order_displayed:
  assumes "trim query \<noteq> []"
  shows "displayed (filtered_commands match commands query debounced results) = filtered_commands match commands query debounced results"
proof -
  define items where "items = palette_items match commands (trim query) (if trim query = debounced then results else None)"
  define parts where "parts = (\<lambda>g. filter (\<lambda>c. cm_group c = g \<and> \<not> is_see_all c) items)"
  have f: "filtered_commands match commands query debounced results = concat (map parts GROUP_ORDER) @ filter is_see_all items"
    using assms by (simp add: filtered_commands_def items_def parts_def Let_def)
  have own: "filter (\<lambda>c. cm_group c = g \<and> \<not> is_see_all c) (parts h) = (if h = g then parts g else [])" for g h
    by (auto simp: parts_def filter_empty_conv intro: filter_cong)
  have none: "filter is_see_all (parts h) = []" for h by (simp add: parts_def filter_empty_conv)
  have rest: "filter (\<lambda>c. cm_group c = g \<and> \<not> is_see_all c) (filter is_see_all items) = []" for g by (simp add: filter_empty_conv)
  have "filter (\<lambda>c. cm_group c = g \<and> \<not> is_see_all c) (concat (map parts GROUP_ORDER) @ filter is_see_all items) = parts g" for g
    by (cases g) (simp_all add: GROUP_ORDER_def own rest)
  moreover have "filter is_see_all (concat (map parts GROUP_ORDER) @ filter is_see_all items) = filter is_see_all items"
    by (simp add: GROUP_ORDER_def none)
  ultimately show ?thesis unfolding f displayed_by_group by simp
qed

definition sample_commands :: "command list" where
  "sample_commands = palette_commands True [\<lparr>pc_id = ''1'', pc_name = ''nas'', pc_type = ''truenas'', pc_enabled = True\<rparr>,
     \<lparr>pc_id = ''2'', pc_name = ''pve'', pc_type = ''proxmox'', pc_enabled = True\<rparr>] None []"

lemma typed_order_displayed_witness:
  "let cs = filtered_commands (\<lambda>q. id) sample_commands ''a'' [] None in displayed cs = cs \<and> length cs = 16"
proof -
  have t: "trim ''a'' \<noteq> []" and n: "length (filtered_commands (\<lambda>q. id) sample_commands ''a'' [] None) = 16" by code_simp+
  show ?thesis using typed_order_displayed [OF t, of "\<lambda>q. id" sample_commands "[]" None] n by (simp add: Let_def)
qed

text \<open>
  With nothing typed the flat list is not the displayed one: the sync and the toggle of each service stand after that service in the list but
  are displayed above all services, so for an operator the arrow keys jump between the groups.
\<close>

lemma untyped_order_differs:
  "map cm_id (filtered_commands (\<lambda>q. id) sample_commands [] [] None)
     = map cm_id (nav_commands @ action_commands True) @ [''s-1'', ''s-sync-1'', ''s-toggle-1'', ''s-2'', ''s-sync-2'', ''s-toggle-2'']
   \<and> map cm_id (displayed (filtered_commands (\<lambda>q. id) sample_commands [] [] None))
     = map cm_id (nav_commands @ action_commands True) @ [''s-sync-1'', ''s-toggle-1'', ''s-sync-2'', ''s-toggle-2'', ''s-1'', ''s-2'']"
  by code_simp

subsection \<open>The keyboard\<close>

text \<open>The palette, the commands it was built with, the answers of the search, the timer of the query, and what was run.\<close>

(* src components/command/CommandPalette.tsx 246-258 PaletteBody *)
record palette =
  pl_open :: bool
  pl_commands :: "command list"
  pl_query :: string
  pl_debounced :: string
  pl_timer :: bool
  pl_active :: nat
  pl_results :: "string \<rightharpoonup> search_results"
  pl_ran :: "command list"

definition pl_filtered :: "(string \<Rightarrow> command list \<Rightarrow> command list) \<Rightarrow> palette \<Rightarrow> command list" where
  "pl_filtered match st = filtered_commands match (pl_commands st) (pl_query st) (pl_debounced st)
     (if 2 \<le> length (pl_debounced st) then pl_results st (pl_debounced st) else None)"

(* src components/command/CommandPalette.tsx 350-350 cursor *)
definition palette_cursor :: "(string \<Rightarrow> command list \<Rightarrow> command list) \<Rightarrow> palette \<Rightarrow> nat" where
  "palette_cursor match st = (if pl_filtered match st \<noteq> [] then min (pl_active st) (length (pl_filtered match st) - 1) else 0)"

(* src components/command/CommandPalette.tsx 363-368 run *)
definition run_command :: "command \<Rightarrow> palette \<Rightarrow> palette" where
  "run_command c st = st\<lparr>pl_open := False, pl_ran := pl_ran st @ [c]\<rparr>"

datatype palette_event = Type_query string | Query_timer | Search_answer string search_results | Data_loaded "command list"
  | Arrow_down | Arrow_up | Enter_key | Point_at nat | Click_option nat | Close_palette

(* src components/command/CommandPalette.tsx 370-386 PaletteBody *)
fun palette_step :: "(string \<Rightarrow> command list \<Rightarrow> command list) \<Rightarrow> palette_event \<Rightarrow> palette \<Rightarrow> palette" where
  "palette_step match ev st =
     (let cs = pl_filtered match st; n = length cs; cursor = palette_cursor match st
      in if \<not> pl_open st then st
         else case ev of
           Type_query q \<Rightarrow> st\<lparr>pl_query := q, pl_active := 0, pl_timer := True\<rparr>
         | Query_timer \<Rightarrow> if pl_timer st then st\<lparr>pl_debounced := trim (pl_query st), pl_timer := False\<rparr> else st
         | Search_answer q r \<Rightarrow> st\<lparr>pl_results := (pl_results st)(q \<mapsto> r)\<rparr>
         | Data_loaded commands \<Rightarrow> st\<lparr>pl_commands := commands\<rparr>
         | Arrow_down \<Rightarrow> if n \<noteq> 0 then st\<lparr>pl_active := (cursor + 1) mod n\<rparr> else st
         | Arrow_up \<Rightarrow> if n \<noteq> 0 then st\<lparr>pl_active := (cursor + n - 1) mod n\<rparr> else st
         | Enter_key \<Rightarrow> if cursor < n then run_command (cs ! cursor) st else st
         | Point_at k \<Rightarrow> if k < n then st\<lparr>pl_active := k\<rparr> else st
         | Click_option k \<Rightarrow> if k < n then run_command (cs ! k) st else st
         | Close_palette \<Rightarrow> st\<lparr>pl_open := False\<rparr>)"

text \<open>The highlighted option: there is one as soon as there is any, however the list has changed since the cursor was set.\<close>

lemma cursor_in_list: "pl_filtered match st \<noteq> [] \<Longrightarrow> palette_cursor match st < length (pl_filtered match st)"
  by (cases "pl_filtered match st") (auto simp: palette_cursor_def)

theorem enter_runs_highlighted:
  assumes "pl_open st" "pl_filtered match st \<noteq> []"
  shows "pl_ran (palette_step match Enter_key st) = pl_ran st @ [pl_filtered match st ! palette_cursor match st]"
  using assms cursor_in_list [OF assms(2)] by (simp add: run_command_def Let_def)

text \<open>Down and up are inverse, and both go round.\<close>

theorem arrows_inverse:
  assumes "pl_open st" "pl_filtered match st \<noteq> []"
  shows "palette_cursor match (palette_step match Arrow_up (palette_step match Arrow_down st)) = palette_cursor match st"
proof -
  let ?n = "length (pl_filtered match st)" and ?c = "palette_cursor match st"
  have c: "?c < ?n" by (rule cursor_in_list) fact
  have same: "pl_filtered match (st\<lparr>pl_active := k\<rparr>) = pl_filtered match st" for k by (simp add: pl_filtered_def)
  have set_active: "palette_cursor match (st\<lparr>pl_active := k\<rparr>) = k" if "k < ?n" for k
    using that by (auto simp: palette_cursor_def same)
  have down: "palette_step match Arrow_down st = st\<lparr>pl_active := (?c + 1) mod ?n\<rparr>" using assms by (simp add: Let_def)
  have "palette_step match Arrow_up (st\<lparr>pl_active := (?c + 1) mod ?n\<rparr>) = st\<lparr>pl_active := ((?c + 1) mod ?n + ?n - 1) mod ?n\<rparr>"
    using assms c set_active [of "(?c + 1) mod ?n"] by (simp add: Let_def same)
  moreover have "((?c + 1) mod ?n + ?n - 1) mod ?n = ?c"
  proof (cases "?c + 1 = ?n")
    case True
    then show ?thesis by auto
  next
    case False
    then have "?c + 1 < ?n" using c by simp
    then show ?thesis by simp
  qed
  ultimately show ?thesis unfolding down using set_active [OF c] by simp
qed

text \<open>Hits of another query are never in the list.\<close>

lemma stale_hits_hidden:
  assumes "trim query \<noteq> debounced"
  shows "filtered_commands match commands query debounced results = filtered_commands match commands query debounced None"
  using assms by (simp add: filtered_commands_def Let_def)

end
