(* ===== verification/DiffView.thy ===== *)
theory DiffView
  imports LineDiff Appearance
begin

text \<open>
  The viewer of differences (\<open>components/diff/DiffViewer.tsx\<close>) on top of the row model of \<open>LineDiff\<close>: the rows of the two layouts,
  the folds that are opened, and the two formats of a change.
\<close>

subsection \<open>The two formats\<close>

(* src api/model/diffHunksItem.ts 10-16 DiffHunksItem *)
record diff_hunk =
  dh_path :: string
  dh_before :: "string option"
  dh_after :: "string option"

(* src api/model/diff.ts 20-37 Diff *)
record change_diff =
  cd_doc :: bool
  cd_hunks :: "diff_hunk list option"
  cd_baseText :: "string option"
  cd_headText :: "string option"

text \<open>The two revisions, or the hunks of an older change stitched together.\<close>

(* src components/diff/DiffViewer.tsx 21-22 DiffViewer *)
definition diff_texts :: "change_diff \<Rightarrow> string \<times> string" where
  "diff_texts d = (let hunks = from_opt [] (cd_hunks d) in
     (from_opt (join_with [NL] (map (\<lambda>h. from_opt [] (dh_before h)) hunks)) (cd_baseText d),
      from_opt (join_with [NL] (map (\<lambda>h. from_opt [] (dh_after h)) hunks)) (cd_headText d)))"

(* src components/diff/DiffViewer.tsx 48-50 InfraDiff *)
definition infra_stats :: "diff_hunk list \<Rightarrow> nat \<times> nat" where
  "infra_stats hunks = (length (filter (\<lambda>h. dh_before h = None) hunks), length (filter (\<lambda>h. dh_after h = None) hunks))"

(* src components/diff/DiffViewer.tsx 75-93 DiffCell *)
definition infra_cell :: "bool \<Rightarrow> string option \<Rightarrow> string" where
  "infra_cell isBefore v = (case v of None \<Rightarrow> if isBefore then ''(absent)'' else ''(removed)'' | Some s \<Rightarrow> s)"

subsection \<open>The unified rows\<close>

datatype glyph = Glyph_minus | Glyph_plus | Glyph_none

(* src components/diff/DiffViewer.tsx 290-297 UnifiedLine *)
record unified_line =
  ul_tone :: DiffLineType
  ul_before :: "nat option"
  ul_after :: "nat option"
  ul_glyph :: glyph
  ul_text :: string
  ul_segs :: "WordSegment list option"

definition line_text :: "DiffLine option \<Rightarrow> string" where
  "line_text l = (case l of Some x \<Rightarrow> ltext x | None \<Rightarrow> [])"

definition line_before :: "DiffLine option \<Rightarrow> nat option" where
  "line_before l = Option.bind l lbefore"

definition line_after :: "DiffLine option \<Rightarrow> nat option" where
  "line_after l = Option.bind l lafter"

(* src components/diff/DiffViewer.tsx 223-279 unifiedRows *)
definition unifiedRows :: "DiffRowUnit \<Rightarrow> unified_line list" where
  "unifiedRows u =
     (let minus = \<lparr>ul_tone = Del, ul_before = line_before (left u), ul_after = None, ul_glyph = Glyph_minus, ul_text = line_text (left u), ul_segs = None\<rparr>;
          plus = \<lparr>ul_tone = Add, ul_before = None, ul_after = line_after (right u), ul_glyph = Glyph_plus, ul_text = line_text (right u), ul_segs = None\<rparr>
      in case utype u of
           USame \<Rightarrow> [\<lparr>ul_tone = Same, ul_before = line_before (left u), ul_after = line_after (right u), ul_glyph = Glyph_none,
             ul_text = line_text (left u), ul_segs = None\<rparr>]
         | UMod \<Rightarrow> [minus\<lparr>ul_segs := leftWords u\<rparr>, plus\<lparr>ul_segs := rightWords u\<rparr>]
         | UDel \<Rightarrow> [minus]
         | UAdd \<Rightarrow> [plus])"

text \<open>What stands in the table: lines, or the button of a fold with the number it names.\<close>

datatype 'l shown = Shown 'l | Fold_button nat

(* src components/diff/DiffViewer.tsx 202-221 UnifiedView *)
definition unified_view :: "nat set \<Rightarrow> DocRow list \<Rightarrow> unified_line shown list" where
  "unified_view opened_folds model = concat (map_index (\<lambda>idx row. case row of
       RowGap us n \<Rightarrow> if idx \<in> opened_folds then map Shown (concat (map unifiedRows us)) else [Fold_button n]
     | RowUnit u \<Rightarrow> map Shown (unifiedRows u)) 0 model)"

subsection \<open>Side by side\<close>

datatype split_tone = Split_same | Split_del | Split_add | Split_empty

(* src components/diff/DiffViewer.tsx 381-389 SplitCell *)
record split_cell =
  sc_tone :: split_tone
  sc_num :: "nat option"
  sc_glyph :: glyph
  sc_text :: "string option"
  sc_segs :: "WordSegment list option"

(* src components/diff/DiffViewer.tsx 347-371 SplitRow *)
definition splitRow :: "DiffRowUnit \<Rightarrow> split_cell \<times> split_cell" where
  "splitRow u =
     (\<lparr>sc_tone = (if utype u = USame then Split_same else if left u \<noteq> None then Split_del else Split_empty), sc_num = line_before (left u),
        sc_glyph = (if left u \<noteq> None then Glyph_minus else Glyph_none), sc_text = map_option ltext (left u), sc_segs = leftWords u\<rparr>,
      \<lparr>sc_tone = (if utype u = USame then Split_same else if right u \<noteq> None then Split_add else Split_empty), sc_num = line_after (right u),
        sc_glyph = (if right u \<noteq> None then Glyph_plus else Glyph_none), sc_text = map_option ltext (right u), sc_segs = rightWords u\<rparr>)"

(* src components/diff/DiffViewer.tsx 326-345 SplitView *)
definition split_view :: "nat set \<Rightarrow> DocRow list \<Rightarrow> (split_cell \<times> split_cell) shown list" where
  "split_view opened_folds model = concat (map_index (\<lambda>idx row. case row of
       RowGap us n \<Rightarrow> if idx \<in> opened_folds then map (\<lambda>u. Shown (splitRow u)) us else [Fold_button n]
     | RowUnit u \<Rightarrow> [Shown (splitRow u)]) 0 model)"

subsection \<open>The viewer\<close>

text \<open>The folds that are opened belong to the table of a layout, which is mounted anew when the layout changes; they are kept by their
  position when the texts change.\<close>

(* src components/diff/DiffViewer.tsx 120-138 DocDiff *)
record diff_viewer =
  dv_before :: string
  dv_after :: string
  dv_layout :: diff_layout
  dv_open :: "nat set"

datatype viewer_event = Expand_fold nat | Pick_layout diff_layout | New_texts string string

definition viewer_rows :: "word_differ \<Rightarrow> diff_viewer \<Rightarrow> DocRow list" where
  "viewer_rows dws v = rows (buildDocDiff dws (dv_before v) (dv_after v) default_context default_minFold)"

(* src components/diff/DiffViewer.tsx 161-204 DocDiff *)
definition viewer_step :: "viewer_event \<Rightarrow> diff_viewer \<Rightarrow> diff_viewer" where
  "viewer_step ev v = (case ev of
       Expand_fold idx \<Rightarrow> v\<lparr>dv_open := insert idx (dv_open v)\<rparr>
     | Pick_layout l \<Rightarrow> if l = dv_layout v then v else v\<lparr>dv_layout := l, dv_open := {}\<rparr>
     | New_texts b a \<Rightarrow> v\<lparr>dv_before := b, dv_after := a\<rparr>)"

subsection \<open>A column that reads as a document\<close>

text \<open>
  What stands in a line: the segments where there are any, and else the text, a blank for an empty one.
\<close>

(* src components/diff/DiffViewer.tsx 103-119 Words *)
definition Words :: "WordSegment list option \<Rightarrow> string \<Rightarrow> string" where
  "Words segs s = (case segs of None \<Rightarrow> if s = [] then '' '' else s | Some ss \<Rightarrow> concat (map seg_text ss))"

(* src components/diff/DiffViewer.tsx 408-416 SplitCell *)
definition split_text :: "split_cell \<Rightarrow> string" where
  "split_text c = (if sc_tone c = Split_empty then [] else Words (sc_segs c) (from_opt [] (sc_text c)))"

text \<open>One column of the table: numbered lines, and folds of so many lines.\<close>

datatype column_cell = Numbered nat string | Folded nat

text \<open>The column is the document from line \<open>k\<close> on, with stretches left out that are as long as their folds say.\<close>

definition shows_line :: "string \<Rightarrow> string \<Rightarrow> bool" where
  "shows_line t s \<longleftrightarrow> t = s \<or> s = [] \<and> t = '' ''"

fun reads_from :: "nat \<Rightarrow> string list \<Rightarrow> column_cell list \<Rightarrow> bool" where
  "reads_from k ls [] \<longleftrightarrow> k = length ls"
| "reads_from k ls (Numbered n s # cs) \<longleftrightarrow> n = k + 1 \<and> k < length ls \<and> shows_line s (ls ! k) \<and> reads_from (k + 1) ls cs"
| "reads_from k ls (Folded n # cs) \<longleftrightarrow> k + n \<le> length ls \<and> reads_from (k + n) ls cs"

definition shown_cells :: "('l \<Rightarrow> (nat \<times> string) option) \<Rightarrow> 'l shown list \<Rightarrow> column_cell list" where
  "shown_cells cell vs = concat (map (\<lambda>v. case v of Shown l \<Rightarrow> map (\<lambda>(n, s). Numbered n s) (opt_list (cell l)) | Fold_button n \<Rightarrow> [Folded n]) vs)"

definition unified_cell :: "bool \<Rightarrow> unified_line \<Rightarrow> (nat \<times> string) option" where
  "unified_cell isBefore l = map_option (\<lambda>n. (n, Words (ul_segs l) (ul_text l))) (if isBefore then ul_before l else ul_after l)"

definition split_side :: "bool \<Rightarrow> split_cell \<times> split_cell \<Rightarrow> (nat \<times> string) option" where
  "split_side isBefore p = (let c = if isBefore then fst p else snd p in map_option (\<lambda>n. (n, split_text c)) (sc_num c))"

text \<open>What is shown on one side, number by number, in the layout that is picked.\<close>

definition viewer_column :: "word_differ \<Rightarrow> bool \<Rightarrow> diff_viewer \<Rightarrow> column_cell list" where
  "viewer_column dws isBefore v = (case dv_layout v of
       Unified \<Rightarrow> shown_cells (unified_cell isBefore) (unified_view (dv_open v) (viewer_rows dws v))
     | Split \<Rightarrow> shown_cells (split_side isBefore) (split_view (dv_open v) (viewer_rows dws v)))"

text \<open>The column it should be, from the row model: the line each unit has on that side.\<close>

definition unit_column :: "bool \<Rightarrow> DiffRowUnit \<Rightarrow> column_cell list" where
  "unit_column isBefore u = map (\<lambda>l. Numbered (the (if isBefore then lbefore l else lafter l)) (ltext l)) (opt_list (if isBefore then left u else right u))"

definition row_column :: "bool \<Rightarrow> nat set \<Rightarrow> nat \<Rightarrow> DocRow \<Rightarrow> column_cell list" where
  "row_column isBefore opened_folds idx row = (case row of
       RowGap us n \<Rightarrow> if idx \<in> opened_folds then concat (map (unit_column isBefore) us) else [Folded n]
     | RowUnit u \<Rightarrow> unit_column isBefore u)"

fun cell_shows :: "column_cell \<Rightarrow> column_cell \<Rightarrow> bool" where
  "cell_shows (Numbered m t) (Numbered n s) \<longleftrightarrow> m = n \<and> shows_line t s"
| "cell_shows (Folded m) (Folded n) \<longleftrightarrow> m = n"
| "cell_shows _ _ \<longleftrightarrow> False"

lemma shows_line_refl [simp]: "shows_line s s"
  by (simp add: shows_line_def)

lemma shows_line_trans: "shows_line t s \<Longrightarrow> shows_line s r \<Longrightarrow> shows_line t r"
  by (auto simp: shows_line_def)

lemma Words_shows: "segs = None \<or> concat (map seg_text (the segs)) = s \<Longrightarrow> shows_line (Words segs s) s"
  by (cases segs) (auto simp: Words_def shows_line_def)

text \<open>What the row model gives: numbers on both sides, the same line on both where nothing changed, and segments that spell their line.\<close>

definition spelled :: "WordSegment list option \<Rightarrow> DiffLine option \<Rightarrow> bool" where
  "spelled segs l \<longleftrightarrow> segs = None \<or> concat (map seg_text (the segs)) = line_text l"

definition unit_fits :: "DiffRowUnit \<Rightarrow> bool" where
  "unit_fits u \<longleftrightarrow> spelled (leftWords u) (left u) \<and> spelled (rightWords u) (right u) \<and> (case utype u of
       USame \<Rightarrow> left u \<noteq> None \<and> right u = left u \<and> lbefore (the (left u)) \<noteq> None \<and> lafter (the (left u)) \<noteq> None
     | UMod \<Rightarrow> left u \<noteq> None \<and> right u \<noteq> None \<and> lbefore (the (left u)) \<noteq> None \<and> lafter (the (right u)) \<noteq> None
     | UDel \<Rightarrow> left u \<noteq> None \<and> right u = None \<and> lbefore (the (left u)) \<noteq> None
     | UAdd \<Rightarrow> left u = None \<and> right u \<noteq> None \<and> lafter (the (right u)) \<noteq> None)"

abbreviation column_shows :: "column_cell list \<Rightarrow> column_cell list \<Rightarrow> bool" where
  "column_shows \<equiv> list_all2 cell_shows"

lemma spelled_shows: "spelled segs (Some l) \<Longrightarrow> shows_line (Words segs (ltext l)) (ltext l)"
  by (rule Words_shows) (simp add: spelled_def line_text_def)

lemma Words_plain: "shows_line (Words None s) s"
  by (rule Words_shows) simp

lemma unified_unit: "unit_fits u \<Longrightarrow> column_shows (shown_cells (unified_cell b) (map Shown (unifiedRows u))) (unit_column b u)"
  by (cases "utype u") (auto simp: unit_fits_def unifiedRows_def shown_cells_def unified_cell_def unit_column_def line_before_def line_after_def
      line_text_def Words_plain spelled_shows)

lemma split_unit: "unit_fits u \<Longrightarrow> column_shows (shown_cells (split_side b) [Shown (splitRow u)]) (unit_column b u)"
  by (cases "utype u") (auto simp: unit_fits_def splitRow_def shown_cells_def split_side_def unit_column_def line_before_def line_after_def
      split_text_def Let_def spelled_shows)

lemma shown_cells_append: "shown_cells c (xs @ ys) = shown_cells c xs @ shown_cells c ys"
  by (simp add: shown_cells_def)

lemma shown_cells_concat: "shown_cells c (concat xss) = concat (map (shown_cells c) xss)"
  by (induction xss) (auto simp: shown_cells_append shown_cells_def)

lemma shown_cells_fold: "shown_cells c [Fold_button n] = [Folded n]"
  by (simp add: shown_cells_def)

lemma column_shows_append: "column_shows xs ys \<Longrightarrow> column_shows xs' ys' \<Longrightarrow> column_shows (xs @ xs') (ys @ ys')"
  by (rule list_all2_appendI)

lemma units_shown:
  assumes "list_all unit_fits us"
  shows "column_shows (shown_cells (unified_cell b) (map Shown (concat (map unifiedRows us)))) (concat (map (unit_column b) us))"
    "column_shows (shown_cells (split_side b) (map (\<lambda>u. Shown (splitRow u)) us)) (concat (map (unit_column b) us))"
proof -
  show "column_shows (shown_cells (unified_cell b) (map Shown (concat (map unifiedRows us)))) (concat (map (unit_column b) us))"
    using assms
  proof (induction us)
    case (Cons u us)
    then show ?case using column_shows_append [OF unified_unit [of u b]] by (simp add: shown_cells_append)
  qed (simp add: shown_cells_def)
  show "column_shows (shown_cells (split_side b) (map (\<lambda>u. Shown (splitRow u)) us)) (concat (map (unit_column b) us))"
    using assms
  proof (induction us)
    case (Cons u us)
    let ?more = "map (\<lambda>u. Shown (splitRow u)) us"
    have "column_shows (shown_cells (split_side b) ([Shown (splitRow u)] @ ?more)) (concat (map (unit_column b) (u # us)))"
      unfolding shown_cells_append list.map concat.simps using Cons split_unit [of u b] by (intro column_shows_append) simp_all
    then show ?case by simp
  qed (simp add: shown_cells_def)
qed

subsection \<open>Both layouts show both documents\<close>

definition line_fits :: "DiffLine \<Rightarrow> bool" where
  "line_fits l \<longleftrightarrow> (ltype l \<noteq> Add \<longrightarrow> lbefore l \<noteq> None) \<and> (ltype l \<noteq> Del \<longrightarrow> lafter l \<noteq> None)"

lemma lineDiff_fits: "list_all line_fits (lineDiff bef aft)"
  using lineDiff_reconstructs [of bef aft] by (auto simp: list_all_iff line_fits_def)

text \<open>The contract of the \<open>diff\<close> package: the parts it answers spell the two texts.\<close>

definition differ_spells :: "word_differ \<Rightarrow> bool" where
  "differ_spells dws \<longleftrightarrow> (\<forall>bef aft. spells (dws bef aft) bef aft)"

lemma pair_runs_fit:
  assumes dws: "differ_spells dws" and "\<forall>l \<in> set dels. ltype l = Del \<and> line_fits l" "\<forall>l \<in> set adds. ltype l = Add \<and> line_fits l"
  shows "list_all unit_fits (pair_runs dws dels adds)"
proof -
  have "dels ! k \<in> set dels" if "k < length dels" for k using that by simp
  moreover have "adds ! k \<in> set adds" if "k < length adds" for k using that by simp
  moreover have "concat (map seg_text (wd_del (wordDiff dws bef aft))) = bef" "concat (map seg_text (wd_add (wordDiff dws bef aft))) = aft" for bef aft
    using wordDiff_spells [of dws bef aft] dws by (simp_all add: differ_spells_def)
  ultimately show ?thesis using assms(2,3)
    by (auto simp: pair_runs_def Let_def list_all_iff unit_fits_def unit_defs line_fits_def spelled_def line_text_def)
qed

lemma toUnits_fit: "differ_spells dws \<Longrightarrow> list_all line_fits ls \<Longrightarrow> list_all unit_fits (toUnits dws ls)"
proof (induction dws ls rule: toUnits.induct)
  case (1 dws ls)
  show ?case
  proof (cases ls)
    case Nil
    then show ?thesis by (simp add: toUnits.simps)
  next
    case (Cons l rest)
    show ?thesis
    proof (cases "ltype l = Same")
      case True
      have "line_fits l" "list_all unit_fits (toUnits dws rest)" using "1.IH"(1) [OF Cons True "1.prems"(1)] "1.prems" Cons by simp_all
      moreover have "unit_fits (unit_same l)" using True \<open>line_fits l\<close> by (simp add: unit_fits_def unit_same_def line_fits_def spelled_def)
      ultimately show ?thesis using True Cons by (subst toUnits.simps) simp
    next
      case False
      let ?dels = "takeWhile (\<lambda>x. ltype x = Del) ls" and ?rest = "dropWhile (\<lambda>x. ltype x = Del) ls"
      let ?adds = "takeWhile (\<lambda>x. ltype x = Add) ?rest" and ?left = "dropWhile (\<lambda>x. ltype x = Add) ?rest"
      have fits: "\<forall>l \<in> set ls. line_fits l" using "1.prems"(2) by (simp add: list_all_iff)
      have "list_all line_fits ?left" using fits by (auto simp: list_all_iff dest!: set_dropWhileD)
      then have "list_all unit_fits (toUnits dws ?left)" using "1.IH"(2) [OF Cons False refl refl refl refl "1.prems"(1)] by simp
      moreover have "list_all unit_fits (pair_runs dws ?dels ?adds)"
        using fits by (intro pair_runs_fit "1.prems"(1)) (auto dest!: set_takeWhileD set_dropWhileD)
      ultimately show ?thesis using False Cons by (subst toUnits.simps) (simp add: Let_def)
    qed
  qed
qed

text \<open>A row of the model: its units fit, and a fold holds as many unchanged lines as it says.\<close>

definition row_fits :: "DocRow \<Rightarrow> bool" where
  "row_fits r \<longleftrightarrow> list_all unit_fits (row_units r)
     \<and> (case r of RowUnit u \<Rightarrow> True | RowGap us n \<Rightarrow> n = length us \<and> list_all (\<lambda>u. utype u = USame) us)"

lemma viewer_rows_fit:
  assumes "differ_spells dws"
  shows "list_all row_fits (rows (buildDocDiff dws bef aft c m))"
proof -
  let ?us = "toUnits dws (lineDiff bef aft)"
  have rows: "rows (buildDocDiff dws bef aft c m) = fold_units c m 0 ?us" by (simp add: buildDocDiff_def Let_def)
  have "row_fits r" if r: "r \<in> set (fold_units c m 0 ?us)" for r
  proof -
    obtain pre post where split: "fold_units c m 0 ?us = pre @ r # post"
      using split_list [OF r] by blast
    have "list_all unit_fits (concat (map row_units (fold_units c m 0 ?us)))"
      unfolding fold_units_flatten by (rule toUnits_fit [OF assms lineDiff_fits])
    then have units: "list_all unit_fits (row_units r)" unfolding split by simp
    show ?thesis
    proof (cases r)
      case (RowUnit u)
      then show ?thesis using units by (simp add: row_fits_def)
    next
      case (RowGap us n)
      then have "gap_ok c m True pre us n post" using fold_gap [of c m 0 ?us pre us n post] split by simp
      then show ?thesis using units RowGap by (simp add: row_fits_def gap_ok_def)
    qed
  qed
  then show ?thesis by (simp add: rows list_all_iff)
qed

lemma shown_rows:
  assumes "list_all row_fits rs"
  shows "column_shows (shown_cells (unified_cell b) (concat (map_index (\<lambda>idx row. case row of
       RowGap us n \<Rightarrow> if idx \<in> opn then map Shown (concat (map unifiedRows us)) else [Fold_button n]
     | RowUnit u \<Rightarrow> map Shown (unifiedRows u)) i rs))) (concat (map_index (row_column b opn) i rs))" (is ?unified)
    and "column_shows (shown_cells (split_side b) (concat (map_index (\<lambda>idx row. case row of
       RowGap us n \<Rightarrow> if idx \<in> opn then map (\<lambda>u. Shown (splitRow u)) us else [Fold_button n]
     | RowUnit u \<Rightarrow> [Shown (splitRow u)]) i rs))) (concat (map_index (row_column b opn) i rs))" (is ?split)
proof -
  have one: "column_shows (shown_cells (unified_cell b) (case row of
        RowGap us n \<Rightarrow> if idx \<in> opn then map Shown (concat (map unifiedRows us)) else [Fold_button n]
      | RowUnit u \<Rightarrow> map Shown (unifiedRows u))) (row_column b opn idx row)"
    "column_shows (shown_cells (split_side b) (case row of
        RowGap us n \<Rightarrow> if idx \<in> opn then map (\<lambda>u. Shown (splitRow u)) us else [Fold_button n]
      | RowUnit u \<Rightarrow> [Shown (splitRow u)])) (row_column b opn idx row)" if "row_fits row" for idx row
    using that unfolding row_fits_def row_column_def
    by (cases row; simp add: units_shown shown_cells_fold unified_unit split_unit)+
  show ?unified using assms
    by (induction rs arbitrary: i) (simp_all add: shown_cells_append one column_shows_append, simp add: shown_cells_def)
  show ?split using assms
    by (induction rs arbitrary: i) (simp_all add: shown_cells_append one column_shows_append, simp add: shown_cells_def)
qed

lemma viewer_column_rows:
  assumes "differ_spells dws"
  shows "column_shows (viewer_column dws b v) (concat (map_index (row_column b (dv_open v)) 0 (viewer_rows dws v)))"
  using shown_rows [of "viewer_rows dws v" b "dv_open v" 0] viewer_rows_fit [OF assms, of "dv_before v" "dv_after v" default_context default_minFold]
  by (cases "dv_layout v") (simp_all add: viewer_column_def unified_view_def split_view_def viewer_rows_def)

text \<open>A column that shows another one which reads as the document reads as the document.\<close>

lemma reads_shown: "column_shows cs ds \<Longrightarrow> reads_from k ls ds \<Longrightarrow> reads_from k ls cs"
proof (induction arbitrary: k rule: list_all2_induct)
  case (Cons c cs d ds)
  then show ?case by (cases c; cases d) (auto dest: shows_line_trans)
qed simp

lemma reads_from_numbered:
  "map fst ps = [Suc k..<Suc k + length ps] \<Longrightarrow> map snd ps = drop k ls \<Longrightarrow> k \<le> length ls \<Longrightarrow> reads_from k ls (map (\<lambda>(n, s). Numbered n s) ps)"
proof (induction ps arbitrary: k)
  case (Cons p ps)
  have len: "Suc (length ps) = length ls - k" using arg_cong [OF Cons.prems(2), where f = length] by simp
  then have k: "k < length ls" by simp
  have "fst p = Suc k" "map fst ps = [Suc (Suc k)..<Suc (Suc k) + length ps]"
    using Cons.prems(1) by (simp_all add: upt_conv_Cons del: upt_Suc)
  moreover have "snd p = ls ! k" "map snd ps = drop (Suc k) ls"
    using Cons.prems(2) k by (simp_all add: Cons_nth_drop_Suc [symmetric])
  ultimately show ?case using Cons.IH [of "Suc k"] k by (cases p) simp
qed simp

lemma reads_from_skip: "reads_from k ls (map (\<lambda>(n, s). Numbered n s) ps @ cs) \<Longrightarrow> reads_from k ls (Folded (length ps) # cs)"
proof (induction ps arbitrary: k)
  case (Cons p ps)
  then show ?case using Cons.IH [of "Suc k"] by (cases p) auto
qed (induction k ls cs rule: reads_from.induct, auto)


lemma unit_columns:
  "concat (map (unit_column b) us) = map (\<lambda>l. Numbered (the (if b then lbefore l else lafter l)) (ltext l)) (if b then unit_lefts us else unit_rights us)"
  by (cases b; induction us) (auto simp: unit_column_def unit_side_defs)

lemma same_column: "list_all unit_fits us \<Longrightarrow> list_all (\<lambda>u. utype u = USame) us \<Longrightarrow>
    \<exists>ps. concat (map (unit_column b) us) = map (\<lambda>(n, s). Numbered n s) ps \<and> length ps = length us"
proof (induction us)
  case (Cons u us)
  then obtain ps where ps: "concat (map (unit_column b) us) = map (\<lambda>(n, s). Numbered n s) ps" "length ps = length us" by auto
  obtain l where "left u = Some l" "right u = Some l" using Cons.prems by (auto simp: unit_fits_def)
  then have "unit_column b u = [Numbered (the (if b then lbefore l else lafter l)) (ltext l)]" by (cases b) (simp_all add: unit_column_def)
  then show ?case using ps by (intro exI [of _ "(the (if b then lbefore l else lafter l), ltext l) # ps"]) simp
qed simp

lemma reads_from_units:
  "reads_from k ls (map (\<lambda>(n, s). Numbered n s) ps @ cs) \<Longrightarrow> (\<And>k. reads_from k ls cs \<Longrightarrow> reads_from k ls cs') \<Longrightarrow>
     reads_from k ls (map (\<lambda>(n, s). Numbered n s) ps @ cs')"
  by (induction ps arbitrary: k) auto

lemma unit_column_numbered: "\<exists>ps. concat (map (unit_column b) us) = map (\<lambda>(n, s). Numbered n s) ps"
  by (intro exI [of _ "map (\<lambda>l. (the (if b then lbefore l else lafter l), ltext l)) (if b then unit_lefts us else unit_rights us)"])
    (simp add: unit_columns comp_def)

text \<open>Whatever is folded, the column reads as what all its units read as.\<close>

lemma folded_reads:
  assumes "list_all row_fits rs" "reads_from k ls (concat (map (unit_column b) (concat (map row_units rs))))"
  shows "reads_from k ls (concat (map_index (row_column b opn) i rs))"
  using assms
proof (induction rs arbitrary: i k)
  case (Cons r rs)
  let ?rest = "concat (map_index (row_column b opn) (Suc i) rs)" and ?all = "concat (map (unit_column b) (concat (map row_units rs)))"
  obtain ps where ps: "concat (map (unit_column b) (row_units r)) = map (\<lambda>(n, s). Numbered n s) ps" using unit_column_numbered by blast
  have "reads_from k ls (map (\<lambda>(n, s). Numbered n s) ps @ ?all)" using Cons.prems(2) ps by simp
  then have opened: "reads_from k ls (map (\<lambda>(n, s). Numbered n s) ps @ ?rest)"
    by (rule reads_from_units) (use Cons in simp)
  have "row_column b opn i r = map (\<lambda>(n, s). Numbered n s) ps \<or> row_column b opn i r = [Folded (length ps)]"
  proof (cases r)
    case (RowUnit u)
    then show ?thesis using ps by (simp add: row_column_def)
  next
    case (RowGap us n)
    then have "n = length us" "list_all unit_fits us" "list_all (\<lambda>u. utype u = USame) us" using Cons.prems(1) by (simp_all add: row_fits_def)
    then show ?thesis using same_column [of us b] ps RowGap by (auto simp: row_column_def dest: arg_cong [where f = length])
  qed
  then show ?case using opened reads_from_skip [of k ls ps ?rest] by auto
qed simp

text \<open>
  Claim C32. Whichever layout is picked, whatever was unfolded and in whatever order, and also after the texts have changed, each side of the
  viewer is its document: numbered lines in order with what is shown of them, their segments or else their text, where an empty line may be
  shown as a blank; a fold stands for exactly as many lines as it says and nothing else is left out. What is relied on is that the parts
  the \<open>diff\<close> package answers spell the two texts.
\<close>

theorem viewer_reads_both:
  assumes "\<forall>bef aft. spells (dws bef aft) bef aft"
  shows "reads_from 0 (doc_lines (dv_before (fold viewer_step es v))) (viewer_column dws True (fold viewer_step es v))
   \<and> reads_from 0 (doc_lines (dv_after (fold viewer_step es v))) (viewer_column dws False (fold viewer_step es v))"
proof -
  have dws: "differ_spells dws" using assms by (simp add: differ_spells_def)
  define w where "w = fold viewer_step es v"
  have "reads_from 0 (doc_lines (if b then dv_before w else dv_after w)) (viewer_column dws b w)" for b
  proof -
    let ?ls = "lineDiff (dv_before w) (dv_after w)"
    let ?side = "if b then before_side ?ls else after_side ?ls" and ?num = "\<lambda>l. the (if b then lbefore l else lafter l)"
    let ?ps = "map (\<lambda>l. (?num l, ltext l)) ?side" and ?doc = "doc_lines (if b then dv_before w else dv_after w)"
    note sides = lineDiff_reconstructs [of "dv_before w" "dv_after w"]
    have texts: "map snd ?ps = ?doc" using sides by (cases b) (simp_all add: comp_def)
    have "map ?num ?side = map the (map (if b then lbefore else lafter) ?side)" by (cases b) simp_all
    also have "\<dots> = [1..<1 + length ?doc]" using sides by (cases b) (simp_all add: comp_def del: upt_Suc)
    finally have "map fst ?ps = [1..<1 + length ?doc]" by (simp add: comp_def)
    moreover have "length ?ps = length ?doc" using arg_cong [OF texts, where f = length] by simp
    ultimately have "reads_from 0 ?doc (map (\<lambda>(n, s). Numbered n s) ?ps)" using texts by (intro reads_from_numbered) simp_all
    then have "reads_from 0 ?doc (concat (map (unit_column b) (concat (map row_units (viewer_rows dws w)))))"
      using toUnits_sides [of dws ?ls]
      by (simp add: viewer_rows_def buildDocDiff_def Let_def fold_units_flatten unit_columns comp_def split: if_splits)
    then have "reads_from 0 ?doc (concat (map_index (row_column b (dv_open w)) 0 (viewer_rows dws w)))"
      by (intro folded_reads) (simp_all add: viewer_rows_def viewer_rows_fit dws)
    then show ?thesis by (rule reads_shown [OF viewer_column_rows [OF dws]])
  qed
  from this [of True] this [of False] show ?thesis by (simp add: w_def)
qed

text \<open>A line that was changed, shown by its segments, and an empty one, shown as a blank.\<close>

lemma viewer_reads_both_witness:
  "viewer_column whole_line_differ False \<lparr>dv_before = ''a\<newline>\<newline>c'', dv_after = ''b\<newline>\<newline>c'', dv_layout = Split, dv_open = {}\<rparr>
     = [Numbered 1 ''b'', Numbered 2 '' '', Numbered 3 ''c'']
   \<and> reads_from 0 [''b'', [], ''c''] [Numbered 1 ''b'', Numbered 2 '' '', Numbered 3 ''c'']"
proof -
  let ?v = "\<lparr>dv_before = ''a\<newline>\<newline>c'', dv_after = ''b\<newline>\<newline>c'', dv_layout = Split, dv_open = {}\<rparr>"
  have "\<forall>bef aft. spells (whole_line_differ bef aft) bef aft" by (simp add: spells_def whole_line_differ_def)
  note reads = viewer_reads_both [OF this, of "[]" ?v]
  have col: "viewer_column whole_line_differ False ?v = [Numbered 1 ''b'', Numbered 2 '' '', Numbered 3 ''c'']"
    by (simp add: viewer_column_def viewer_rows_def buildDocDiff_def lineDiff_ref doc_lines_def drop_final_nl_def NL_def toUnits.simps
        pair_runs_def unit_defs fold_units.simps slice_def slice_from_def default_context_def default_minFold_def split_view_def splitRow_def
        shown_cells_def split_side_def split_text_def Words_def wordDiff_def whole_line_differ_def line_before_def line_after_def Let_def)
  have "doc_lines ''b\<newline>\<newline>c'' = [''b'', [], ''c'']" by (simp add: doc_lines_def drop_final_nl_def NL_def)
  with reads col show ?thesis by simp
qed

subsection \<open>The counts of the bar\<close>

definition glyph_shown :: "glyph \<Rightarrow> unified_line shown \<Rightarrow> bool" where
  "glyph_shown g v = (case v of Shown l \<Rightarrow> ul_glyph l = g | Fold_button n \<Rightarrow> False)"

lemma fold_unmarked [simp]: "\<not> glyph_shown g (Fold_button n)"
  by (simp add: glyph_shown_def)

definition marked :: "glyph \<Rightarrow> DiffRowUnit \<Rightarrow> bool" where
  "marked g u \<longleftrightarrow> g \<noteq> Glyph_none \<and> utype u \<in> {UMod, if g = Glyph_plus then UAdd else UDel}"

lemma marked_rows:
  assumes "g \<noteq> Glyph_none"
  shows "length (filter (glyph_shown g) (map Shown (concat (map unifiedRows us)))) = length (filter (marked g) us)"
proof (induction us)
  case (Cons u us)
  then show ?case using assms by (cases g; cases "utype u") (simp_all add: unifiedRows_def glyph_shown_def marked_def Let_def)
qed simp

lemma marked_view:
  assumes "g \<noteq> Glyph_none" "list_all row_fits rs"
  shows "length (filter (glyph_shown g) (concat (map_index (\<lambda>idx row. case row of
       RowGap us n \<Rightarrow> if idx \<in> opn then map Shown (concat (map unifiedRows us)) else [Fold_button n]
     | RowUnit u \<Rightarrow> map Shown (unifiedRows u)) i rs))) = length (filter (marked g) (concat (map row_units rs)))"
  using assms(2)
proof (induction rs arbitrary: i)
  case (Cons r rs)
  have none: "filter (marked g) us = []" if "list_all (\<lambda>u. utype u = USame) us" for us
    using that by (auto simp: filter_empty_conv marked_def list_all_iff split: if_splits)
  show ?case
  proof (cases r)
    case (RowUnit u)
    then show ?thesis using Cons marked_rows [OF assms(1), of "[u]"] by simp
  next
    case (RowGap us n)
    have "filter (marked g) us = []" using RowGap Cons.prems none by (simp add: row_fits_def)
    moreover have "filter (glyph_shown g) (map Shown (concat (map unifiedRows us))) = []"
      using marked_rows [OF assms(1), of us] \<open>filter (marked g) us = []\<close> by (metis length_0_conv)
    ultimately show ?thesis using Cons RowGap by simp
  qed
qed simp

lemma toUnits_same: "length (filter (\<lambda>u. utype u = USame) (toUnits dws ls)) = length (filter (\<lambda>l. ltype l = Same) ls)"
proof (induction dws ls rule: toUnits.induct)
  case (1 dws ls)
  show ?case
  proof (cases ls)
    case Nil
    then show ?thesis by (simp add: toUnits.simps)
  next
    case (Cons l rest)
    show ?thesis
    proof (cases "ltype l = Same")
      case True
      then show ?thesis using "1.IH"(1) [OF Cons True] Cons by (subst toUnits.simps) (simp add: unit_same_def)
    next
      case False
      have drop: "filter (\<lambda>x. ltype x = Same) (dropWhile (\<lambda>x. ltype x = t) xs) = filter (\<lambda>x. ltype x = Same) xs" if "t \<noteq> Same" for t xs
        using that by (induction xs) auto
      have "filter (\<lambda>u. utype u = USame) (pair_runs dws dels adds) = []" for dels adds
        by (auto simp: pair_runs_def filter_empty_conv unit_defs Let_def)
      then show ?thesis using "1.IH"(2) [OF Cons False refl refl refl refl] False Cons
        by (subst toUnits.simps) (simp add: Let_def drop del: dropWhile.simps takeWhile.simps)
    qed
  qed
qed

lemma marked_units:
  assumes "list_all unit_fits us"
  shows "length (unit_rights us) = length (filter (\<lambda>u. utype u = USame) us) + length (filter (marked Glyph_plus) us)"
    and "length (unit_lefts us) = length (filter (\<lambda>u. utype u = USame) us) + length (filter (marked Glyph_minus) us)"
proof -
  have "length (unit_rights us) = length (filter (\<lambda>u. utype u = USame) us) + length (filter (marked Glyph_plus) us)
      \<and> length (unit_lefts us) = length (filter (\<lambda>u. utype u = USame) us) + length (filter (marked Glyph_minus) us)"
    using assms
  proof (induction us)
    case (Cons u us)
    then show ?case by (cases "utype u") (auto simp: unit_side_defs marked_def unit_fits_def)
  qed (simp add: unit_side_defs)
  then show "length (unit_rights us) = length (filter (\<lambda>u. utype u = USame) us) + length (filter (marked Glyph_plus) us)"
    "length (unit_lefts us) = length (filter (\<lambda>u. utype u = USame) us) + length (filter (marked Glyph_minus) us)" by simp_all
qed

text \<open>
  The numbers of the bar count the lines that are marked in the unified table, whatever is folded: a fold never hides an added or a removed line.
\<close>

theorem bar_counts_marks:
  assumes "differ_spells dws"
  shows "stats (buildDocDiff dws (dv_before v) (dv_after v) default_context default_minFold)
     = (length (filter (glyph_shown Glyph_plus) (unified_view opn (viewer_rows dws v))),
        length (filter (glyph_shown Glyph_minus) (unified_view opn (viewer_rows dws v))))"
proof -
  let ?ls = "lineDiff (dv_before v) (dv_after v)"
  let ?us = "toUnits dws ?ls"
  have units: "concat (map row_units (viewer_rows dws v)) = ?us"
    by (simp add: viewer_rows_def buildDocDiff_def Let_def fold_units_flatten)
  have shown: "length (filter (glyph_shown g) (unified_view opn (viewer_rows dws v))) = length (filter (marked g) ?us)" if "g \<noteq> Glyph_none" for g
    using marked_view [OF that, of "viewer_rows dws v" opn 0] viewer_rows_fit [OF assms, of "dv_before v" "dv_after v" default_context default_minFold]
    unfolding unified_view_def units by (simp add: viewer_rows_def)
  have fit: "list_all unit_fits ?us" by (rule toUnits_fit [OF assms lineDiff_fits])
  have counts: "length (after_side xs) = length (filter (\<lambda>l. ltype l = Same) xs) + length (filter (\<lambda>l. ltype l = Add) xs)
      \<and> length (before_side xs) = length (filter (\<lambda>l. ltype l = Same) xs) + length (filter (\<lambda>l. ltype l = Del) xs)" for xs
    by (induction xs) (auto simp: side_defs intro: DiffLineType.exhaust)
  show ?thesis
    using counts [of ?ls] marked_units [OF fit] toUnits_same [of dws ?ls] toUnits_sides [of dws ?ls]
    by (simp add: shown buildDocDiff_def Let_def diffStats_counts)
qed

text \<open>
  Side by side the marks do not tell the lines apart: an unchanged line, too, is marked as removed on the left and as added on the right,
  so without colours it looks like a replaced one.
\<close>

lemma split_marks_unchanged:
  "sc_glyph (fst (splitRow (unit_same l))) = Glyph_minus \<and> sc_glyph (snd (splitRow (unit_same l))) = Glyph_plus
   \<and> map ul_glyph (unifiedRows (unit_same l)) = [Glyph_none]"
  by (simp add: splitRow_def unifiedRows_def unit_same_def)

end
