(* ===== verification/RecipeTabs.thy ===== *)
theory RecipeTabs
  imports RecipeErrors RecipeForm Storage
begin

text \<open>
  The editor of a recipe (\<open>features/connectors/RecipeEditor.tsx\<close>): the form and the YAML view of one text, which of them
  is shown, the diagnostics that are drawn in the text, and the focus that a failed save asks for. The boundary around
  the YAML editor, for errors while it draws, is not modelled.
\<close>

subsection \<open>The remembered tab\<close>

(* src features/connectors/RecipeEditor.tsx 8-8 RecipeTab *)
datatype recipe_tab = Tab_form | Tab_yaml

definition YAML_TAB_STORAGE_KEY :: string where
  "YAML_TAB_STORAGE_KEY = ''connector-recipe-editor-tab''"

definition tab_text :: "recipe_tab \<Rightarrow> string" where
  "tab_text tb = (case tb of Tab_form \<Rightarrow> ''form'' | Tab_yaml \<Rightarrow> ''yaml'')"

definition tab_of :: "stored option \<Rightarrow> recipe_tab option" where
  "tab_of s = (if s = Some (Text ''form'') then Some Tab_form else if s = Some (Text ''yaml'') then Some Tab_yaml else None)"

text \<open>Both catch what a blocked storage throws.\<close>

(* src features/connectors/RecipeEditor.tsx 54-61 readRememberedTab *)
definition readRememberedTab :: "browser \<Rightarrow> recipe_tab option" where
  "readRememberedTab b = (if br_blocked b then None else tab_of (getItem YAML_TAB_STORAGE_KEY b))"

(* src features/connectors/RecipeEditor.tsx 63-69 rememberTab *)
definition rememberTab :: "recipe_tab \<Rightarrow> browser \<Rightarrow> browser" where
  "rememberTab tb b = (case setItem YAML_TAB_STORAGE_KEY (Text (tab_text tb)) b of Ok b' \<Rightarrow> b' | Throw e \<Rightarrow> b)"

interpretation remembered: persisted YAML_TAB_STORAGE_KEY "\<lambda>tb. Text (tab_text (the tb))" tab_of "\<lambda>tb. tb \<noteq> None"
  by unfold_locales (auto simp: tab_of_def tab_text_def split: recipe_tab.split)

lemma remembered_tab_read: "\<not> br_blocked b \<Longrightarrow> readRememberedTab (rememberTab tb b) = Some tb"
  using remembered.reload_store [of "Some tb" b]
  by (auto simp: readRememberedTab_def rememberTab_def remembered.store_def remembered.reload_def setItem_def)

subsection \<open>Lines and diagnostics\<close>

text \<open>The loop over \<open>indexOf\<close>: each round goes behind the next break.\<close>

(* src features/connectors/RecipeEditor.tsx 74-79 lineStart *)
fun skip_lines :: "nat \<Rightarrow> string \<Rightarrow> nat \<Rightarrow> nat" where
  "skip_lines 0 s offset = offset"
| "skip_lines (Suc n) s offset = (if offset < length s
     then (case index_from NL offset s of None \<Rightarrow> length s | Some next_break \<Rightarrow> skip_lines n s (next_break + 1))
     else offset)"

(* src features/connectors/RecipeEditor.tsx 71-80 lineStart *)
definition line_offset :: "string \<Rightarrow> nat \<Rightarrow> nat" where
  "line_offset s oneBasedLine = skip_lines (max 1 oneBasedLine - 1) s 0"

(* src features/connectors/RecipeEditor.tsx 10-16 RecipeDiagnostic *)
record diagnostic =
  dg_from :: nat
  dg_to :: nat
  dg_message :: string
  dg_source :: string

(* src features/connectors/RecipeEditor.tsx 86-92 parserDiagnostic *)
definition parserDiagnostic :: "string \<Rightarrow> issue option \<Rightarrow> diagnostic list" where
  "parserDiagnostic value issue = (case issue of
       None \<Rightarrow> []
     | Some i \<Rightarrow> if is_kind i \<noteq> Syntax then []
         else (let from = line_offset value (from_opt 1 (is_line i));
                   to = (case index_from NL from value of None \<Rightarrow> length value | Some lineEnd \<Rightarrow> lineEnd)
               in [\<lparr>dg_from = from, dg_to = max from to, dg_message = is_message i, dg_source = ''YAML''\<rparr>]))"

(* src features/connectors/RecipeEditor.tsx 172-178 diagnostics *)
definition server_diagnostic :: "ylib \<Rightarrow> string \<Rightarrow> field_error \<Rightarrow> diagnostic list" where
  "server_diagnostic lib value e = (case resolveRecipeError lib value (fe_field e) of
       None \<Rightarrow> []
     | Some place \<Rightarrow>
         (let from = min (length value) (et_from place); to = max from (min (length value) (et_to place))
          in [\<lparr>dg_from = from, dg_to = to, dg_message = fe_msg e, dg_source = ''Server''\<rparr>]))"

subsection \<open>The editor\<close>

text \<open>
  What was focused: an element of the form, its panel, or a position in the text area or the loaded YAML editor.
\<close>

datatype focus_target = Focus_element string | Focus_panel | Focus_text nat | Focus_line nat

text \<open>
  The text and the errors come from the form around; of the editor itself are the last parsed text with its result, the tab that was
  chosen, the lazily loaded YAML editor, and the request for focus.
\<close>

(* src features/connectors/RecipeEditor.tsx 113-138 RecipeEditor *)
record recipe_editor =
  re_value :: string
  re_errors :: "field_error list"
  re_errorRecipe :: "string option"
  re_parsed :: "string \<times> parsed_recipe"
  re_tab :: recipe_tab
  re_browser :: browser
  re_loaded :: bool
  re_loadFailed :: bool
  re_focusLine :: "nat option"
  re_focusRequest :: nat
  re_focusedRequest :: nat
  re_focused :: "focus_target list"

(* src features/connectors/RecipeEditor.tsx 140-141 issue *)
definition editor_issue :: "recipe_editor \<Rightarrow> issue option" where
  "editor_issue st = (if trim (re_value st) = [] \<or> fst (re_parsed st) \<noteq> re_value st then None
     else or_issue (pr_error (snd (re_parsed st))) (pr_unsupported (snd (re_parsed st))))"

(* src features/connectors/RecipeEditor.tsx 142-142 formAvailable *)
definition formAvailable :: "recipe_editor \<Rightarrow> bool" where
  "formAvailable st \<longleftrightarrow> editor_issue st = None"

(* src features/connectors/RecipeEditor.tsx 143-143 visibleTab *)
definition visibleTab :: "recipe_editor \<Rightarrow> recipe_tab" where
  "visibleTab st = (if re_tab st = Tab_form \<and> \<not> formAvailable st then Tab_yaml else re_tab st)"

(* src features/connectors/RecipeEditor.tsx 144-144 errorsAreStale *)
definition errorsAreStale :: "recipe_editor \<Rightarrow> bool" where
  "errorsAreStale st \<longleftrightarrow> re_errors st \<noteq> [] \<and> re_errorRecipe st \<noteq> None \<and> re_errorRecipe st \<noteq> Some (re_value st)"

(* src features/connectors/RecipeEditor.tsx 169-180 diagnostics *)
definition editor_diagnostics :: "ylib \<Rightarrow> recipe_editor \<Rightarrow> diagnostic list" where
  "editor_diagnostics lib st = parserDiagnostic (re_value st) (editor_issue st)
     @ (if errorsAreStale st then [] else concat (map (server_diagnostic lib (re_value st)) (re_errors st)))"

(* src features/connectors/RecipeEditor.tsx 124-132 RecipeEditor *)
definition open_editor :: "ylib \<Rightarrow> string \<Rightarrow> browser \<Rightarrow> recipe_editor" where
  "open_editor lib value b =
     (let parsed = parseRecipeDocument lib value;
          available = (trim value = [] \<or> or_issue (pr_error parsed) (pr_unsupported parsed) = None);
          remembered = readRememberedTab b
      in \<lparr>re_value = value, re_errors = [], re_errorRecipe = None, re_parsed = (value, parsed),
          re_tab = (if remembered = Some Tab_yaml then Tab_yaml else if remembered = Some Tab_form \<and> available then Tab_form
            else if available then Tab_form else Tab_yaml),
          re_browser = b, re_loaded = False, re_loadFailed = False, re_focusLine = None, re_focusRequest = 0, re_focusedRequest = 0,
          re_focused = []\<rparr>)"

(* src features/connectors/RecipeEditor.tsx 182-190 selectTab *)
definition selectTab :: "ylib \<Rightarrow> recipe_tab \<Rightarrow> recipe_editor \<Rightarrow> recipe_editor" where
  "selectTab lib tb st =
     (let result = (if fst (re_parsed st) = re_value st then snd (re_parsed st) else parseRecipeDocument lib (re_value st));
          st' = (if tb = Tab_form then st\<lparr>re_parsed := (re_value st, result)\<rparr> else st)
      in if tb = Tab_form \<and> trim (re_value st) \<noteq> [] \<and> or_issue (pr_error result) (pr_unsupported result) \<noteq> None then st'
         else st'\<lparr>re_tab := tb, re_browser := rememberTab tb (re_browser st)\<rparr>)"

text \<open>\<open>nearestFormElement\<close>: the longest prefix of the path that is drawn.\<close>

(* src features/connectors/RecipeEditor.tsx 95-101 nearestFormElement *)
definition nearestFormElement :: "string set \<Rightarrow> segment list \<Rightarrow> string option" where
  "nearestFormElement drawn path =
     find (\<lambda>i. i \<in> drawn) (map (\<lambda>n. recipeFieldId (take n path)) (rev [1..<Suc (length path)]))"

text \<open>The first target that has an element, with it; otherwise the first target and the panel.\<close>

(* src features/connectors/RecipeEditor.tsx 203-216 handleFocus *)
definition form_target :: "string set \<Rightarrow> error_target list \<Rightarrow> error_target \<times> focus_target" where
  "form_target drawn places = (case find (\<lambda>t. nearestFormElement drawn (et_path t) \<noteq> None) places of
       Some t \<Rightarrow> (t, Focus_element (the (nearestFormElement drawn (et_path t))))
     | None \<Rightarrow> (hd places, Focus_panel))"

text \<open>The request is handed to the YAML editor, which goes to the line when it has it; the text area that stands in for it is focused
  directly.\<close>

(* src features/connectors/RecipeEditor.tsx 193-238 handleFocus *)
definition handleFocus :: "ylib \<Rightarrow> string set \<Rightarrow> string \<Rightarrow> recipe_editor \<Rightarrow> recipe_editor" where
  "handleFocus lib drawn requested st =
     (let fields = (if errorsAreStale st then [requested]
            else requested # filter (\<lambda>f. f \<noteq> requested) (map fe_field (re_errors st)));
          places = concat (map (\<lambda>f. case resolveRecipeError lib (re_value st) f of None \<Rightarrow> [] | Some t \<Rightarrow> [t]) fields)
      in if requested = [] \<or> places = [] then st
         else (let nextTab = visibleTab st;
                   (resolved, target) = (if nextTab = Tab_form then form_target drawn places
                     else (hd places, Focus_text (line_offset (re_value st) (et_line (hd places)))));
                   st' = st\<lparr>re_focusLine := Some (et_line resolved), re_focusRequest := re_focusRequest st + 1\<rparr>;
                   st'' = (if nextTab \<noteq> re_tab st then st'\<lparr>re_tab := nextTab, re_browser := rememberTab nextTab (re_browser st)\<rparr> else st')
               in if nextTab = Tab_form \<or> \<not> re_loaded st then st''\<lparr>re_focused := re_focused st @ [target]\<rparr> else st''))"

(* src features/connectors/RecipeEditor.tsx 266-278 tabKeyDown *)
definition tab_key :: "string \<Rightarrow> recipe_editor \<Rightarrow> recipe_tab option" where
  "tab_key key st =
     (let tabs = (if formAvailable st then [Tab_form, Tab_yaml] else [Tab_yaml]); n = length tabs;
          current = length (takeWhile (\<lambda>tb. tb \<noteq> visibleTab st) tabs)
      in if key = ''ArrowRight'' \<or> key = ''ArrowDown'' then nth_opt tabs ((current + 1) mod n)
         else if key = ''ArrowLeft'' \<or> key = ''ArrowUp'' then nth_opt tabs ((current + n - 1) mod n)
         else if key = ''Home'' then nth_opt tabs 0
         else if key = ''End'' then nth_opt tabs (n - 1)
         else None)"

datatype editor_event = Value_arrives string | Errors_arrive "field_error list" "string option" | Parse_timer | Click_tab recipe_tab
  | Tab_key string | Yaml_loaded bool | Focus_asked "string set" string | Focus_seen | Clear_timer

text \<open>
  The timer of the parse is set while the parsed text is not the current one. The effect that follows a request: the text area that stands
  in for the editor is focused once; the loaded editor goes to the line; the request is cleared a moment later, but kept while the editor
  is still being loaded.
\<close>

(* src features/connectors/RecipeEditor.tsx 146-264 RecipeEditor *)
definition recipe_editor_step :: "ylib \<Rightarrow> editor_event \<Rightarrow> recipe_editor \<Rightarrow> recipe_editor" where
  "recipe_editor_step lib ev st = (case ev of
       Value_arrives v \<Rightarrow> st\<lparr>re_value := v\<rparr>
     | Errors_arrive es r \<Rightarrow> st\<lparr>re_errors := es, re_errorRecipe := r\<rparr>
     | Parse_timer \<Rightarrow> if fst (re_parsed st) = re_value st then st else st\<lparr>re_parsed := (re_value st, parseRecipeDocument lib (re_value st))\<rparr>
     | Click_tab tb \<Rightarrow> if tb = Tab_form \<and> \<not> formAvailable st then st else selectTab lib tb st
     | Tab_key key \<Rightarrow> (case tab_key key st of Some tb \<Rightarrow> selectTab lib tb st | None \<Rightarrow> st)
     | Yaml_loaded success \<Rightarrow> if visibleTab st \<noteq> Tab_yaml \<or> re_loaded st \<or> re_loadFailed st then st
         else if success then st\<lparr>re_loaded := True\<rparr> else st\<lparr>re_loadFailed := True\<rparr>
     | Focus_asked drawn field \<Rightarrow> handleFocus lib drawn field st
     | Focus_seen \<Rightarrow> if re_focusRequest st = 0 then st\<lparr>re_focusedRequest := 0\<rparr>
         else (case re_focusLine st of
             Some line \<Rightarrow> if visibleTab st = Tab_yaml \<and> \<not> re_loaded st \<and> re_focusedRequest st \<noteq> re_focusRequest st
               then st\<lparr>re_focusedRequest := re_focusRequest st, re_focused := re_focused st @ [Focus_text (line_offset (re_value st) line)]\<rparr>
               else if visibleTab st = Tab_yaml \<and> re_loaded st then st\<lparr>re_focused := re_focused st @ [Focus_line line]\<rparr> else st
           | None \<Rightarrow> st)
     | Clear_timer \<Rightarrow> if visibleTab st = Tab_yaml \<and> \<not> re_loaded st \<and> \<not> re_loadFailed st then st else st\<lparr>re_focusRequest := 0\<rparr>)"

subsection \<open>Which view is shown\<close>

text \<open>The parsed result is always that of the text it was made from.\<close>

definition parsed_own :: "ylib \<Rightarrow> recipe_editor \<Rightarrow> bool" where
  "parsed_own lib st \<longleftrightarrow> snd (re_parsed st) = parseRecipeDocument lib (fst (re_parsed st))"

lemma parsed_own_select: "parsed_own lib st \<Longrightarrow> parsed_own lib (selectTab lib tb st)"
  by (auto simp: selectTab_def parsed_own_def Let_def)

lemma parsed_own_focus: "parsed_own lib st \<Longrightarrow> parsed_own lib (handleFocus lib drawn f st)"
  by (auto simp: handleFocus_def parsed_own_def Let_def split: prod.split)

lemma parsed_own_step: "parsed_own lib st \<Longrightarrow> parsed_own lib (recipe_editor_step lib ev st)"
  by (cases ev) (auto simp: recipe_editor_step_def parsed_own_select parsed_own_focus split: option.split, auto simp: parsed_own_def)

text \<open>Once the timer has run, the form is only shown for a text that it can edit.\<close>

lemma form_shown_parses:
  assumes "parsed_own lib st" "fst (re_parsed st) = re_value st" "visibleTab st = Tab_form"
  shows "trim (re_value st) = [] \<or> or_issue (pr_error (parseRecipeDocument lib (re_value st))) (pr_unsupported (parseRecipeDocument lib (re_value st))) = None"
  using assms by (auto simp: visibleTab_def formAvailable_def editor_issue_def parsed_own_def split: if_splits)

lemma parsed_own_run: "parsed_own lib (fold (recipe_editor_step lib) es (open_editor lib v b))"
proof (induction es rule: rev_induct)
  case Nil
  then show ?case by (simp add: parsed_own_def open_editor_def Let_def)
next
  case (snoc ev es)
  then show ?case by (simp add: parsed_own_step)
qed

text \<open>
  Whatever is typed, clicked or asked for in whatever order, once the text has been parsed the form is shown only where it can be
  edited: the recipe is blank, or it is one YAML mapping without an error and without anything the form does not support.
\<close>

theorem form_only_if_editable:
  assumes "st = recipe_editor_step lib Parse_timer (fold (recipe_editor_step lib) es (open_editor lib v b))" "visibleTab st = Tab_form"
  shows "trim (re_value st) = [] \<or> (pr_error (parseRecipeDocument lib (re_value st)) = None \<and> pr_unsupported (parseRecipeDocument lib (re_value st)) = None)"
proof -
  have "parsed_own lib st" unfolding assms(1) by (rule parsed_own_step [OF parsed_own_run])
  moreover have "fst (re_parsed st) = re_value st" unfolding assms(1) by (simp add: recipe_editor_step_def)
  ultimately show ?thesis using form_shown_parses [OF _ _ assms(2)] by simp
qed

lemma form_only_if_editable_witness:
  "let st = recipe_editor_step category_lib Parse_timer (fold (recipe_editor_step category_lib) [Value_arrives ''category: dns'']
       (open_editor category_lib [] \<lparr>br_items = Map.empty, br_blocked = False\<rparr>))
   in visibleTab st = Tab_form \<and> re_value st = ''category: dns'' \<and> pr_error (parseRecipeDocument category_lib (re_value st)) = None"
proof -
  define st where "st = recipe_editor_step category_lib Parse_timer (fold (recipe_editor_step category_lib) [Value_arrives ''category: dns'']
       (open_editor category_lib [] \<lparr>br_items = Map.empty, br_blocked = False\<rparr>))"
  have "visibleTab st = Tab_form" "re_value st = ''category: dns''" "trim ''category: dns'' \<noteq> []" unfolding st_def by code_simp+
  then show ?thesis using form_only_if_editable [OF st_def] by (simp add: Let_def st_def)
qed

text \<open>
  While the timer runs, nothing is known of the text and the form counts as available. So where the form was chosen and a text arrives that
  it cannot edit, the YAML view stands in; but every key typed there brings the form back for a moment, which takes the YAML view and its
  focus away.
\<close>

lemma typing_shows_form:
  assumes "re_tab st = Tab_form" "fst (re_parsed st) \<noteq> v"
  shows "visibleTab (recipe_editor_step lib (Value_arrives v) st) = Tab_form"
  using assms by (simp add: recipe_editor_step_def visibleTab_def formAvailable_def editor_issue_def)

subsection \<open>Where the diagnostics are\<close>

text \<open>Line \<open>n\<close> starts behind the lines before it, and at the end of a text that has not as many.\<close>

definition line_starts :: "string list \<Rightarrow> nat \<Rightarrow> nat" where
  "line_starts ls n = (if n < length ls then sum_list (map (\<lambda>l. Suc (length l)) (take n ls)) else sum_list (map (\<lambda>l. Suc (length l)) ls) - 1)"

lemma index_aux_split:
  "index_aux c k s = (case split_on c s of w # v # ws \<Rightarrow> Some (k + length w) | _ \<Rightarrow> None)"
  by (induction s arbitrary: k) (auto split: list.splits)

lemma split_on_first: "split_on c s = w # v # ws \<Longrightarrow> split_on c (drop (Suc (length w)) s) = v # ws \<and> length w < length s"
proof (induction s arbitrary: w)
  case (Cons x s)
  then show ?case by (cases "x = c") (auto split: list.splits)
qed simp

lemma split_on_sum: "sum_list (map (\<lambda>l. Suc (length l)) (split_on c s)) = Suc (length s)"
  by (induction s) (auto split: list.splits)

lemma skip_lines_starts: "offset \<le> length s \<Longrightarrow> skip_lines n s offset = offset + line_starts (split_on NL (drop offset s)) n"
proof (induction n arbitrary: offset)
  case 0
  then show ?case by (simp add: line_starts_def)
next
  case (Suc n)
  show ?case
  proof (cases "offset < length s")
    case False
    then show ?thesis using Suc.prems by (simp add: line_starts_def)
  next
    case True
    show ?thesis
    proof (cases "split_on NL (drop offset s)")
      case Nil
      then show ?thesis by simp
    next
      case (Cons w rest)
      show ?thesis
      proof (cases rest)
        case Nil
        then show ?thesis using Cons True Suc.prems split_on_sum [of NL "drop offset s"]
          by (simp add: index_from_def index_aux_split line_starts_def)
      next
        case (Cons v ws)
        note split = \<open>split_on NL (drop offset s) = w # rest\<close> [unfolded Cons]
        have next_lines: "split_on NL (drop (offset + length w + 1) s) = v # ws" "length w < length s - offset"
          using split_on_first [OF split] by (simp_all add: add.commute add.left_commute)
        then have "skip_lines n s (offset + length w + 1) = offset + length w + 1 + line_starts (v # ws) n"
          using Suc.IH [of "offset + length w + 1"] by simp
        then show ?thesis using True split by (simp add: index_from_def index_aux_split line_starts_def)
      qed
    qed
  qed
qed

lemma line_offset_starts: "line_offset s n = line_starts (split_on NL s) (max 1 n - 1)"
  using skip_lines_starts [of 0 s] by (simp add: line_offset_def)

lemma line_starts_le: "line_starts (split_on NL s) n \<le> length s"
proof -
  have "sum_list (map (\<lambda>l. Suc (length l)) (take n ls)) < sum_list (map (\<lambda>l. Suc (length l)) ls)" if "n < length ls" for ls :: "string list"
    using that
  proof (induction n arbitrary: ls)
    case (Suc n)
    then show ?case by (cases ls) auto
  qed (auto simp: neq_Nil_conv)
  from this [of "split_on NL s"] show ?thesis using split_on_sum [of NL s] by (auto simp: line_starts_def)
qed

lemma index_from_le: "index_from c i s = Some k \<Longrightarrow> i \<le> length s \<Longrightarrow> i \<le> k \<and> k < length s"
proof -
  have "index_aux c j t = Some k \<Longrightarrow> j \<le> k \<and> k < j + length t" for j t
    by (induction t arbitrary: j) (auto split: if_splits, fastforce+)
  from this [of i "drop i s"] show "index_from c i s = Some k \<Longrightarrow> i \<le> length s \<Longrightarrow> i \<le> k \<and> k < length s"
    by (auto simp: index_from_def)
qed

text \<open>Every mark lies within the text, whatever line the parser or the server names.\<close>

theorem diagnostics_in_text:
  "list_all (\<lambda>d. dg_from d \<le> dg_to d \<and> dg_to d \<le> length (re_value st)) (editor_diagnostics lib st)"
proof -
  have "line_offset (re_value st) n \<le> length (re_value st)" for n by (simp add: line_offset_starts line_starts_le)
  then have "list_all (\<lambda>d. dg_from d \<le> dg_to d \<and> dg_to d \<le> length (re_value st)) (parserDiagnostic (re_value st) i)" for i
    by (auto simp: parserDiagnostic_def Let_def split: option.split dest: index_from_le)
  moreover have "list_all (\<lambda>d. dg_from d \<le> dg_to d \<and> dg_to d \<le> length v) (server_diagnostic lib v e)" for v e
    by (auto simp: server_diagnostic_def Let_def split: option.split)
  ultimately show ?thesis by (auto simp: editor_diagnostics_def list_all_iff)
qed

text \<open>The mark of the parser is exactly the line it names.\<close>

lemma drop_line_starts: "n < length (split_on c s) \<Longrightarrow> split_on c (drop (line_starts (split_on c s) n) s) = drop n (split_on c s)"
proof (induction n arbitrary: s)
  case 0
  then show ?case by (simp add: line_starts_def)
next
  case (Suc n)
  then obtain w v ws where split: "split_on c s = w # v # ws" by (cases "split_on c s" rule: list.exhaust; cases "tl (split_on c s)") auto
  have rest: "split_on c (drop (Suc (length w)) s) = v # ws" using split_on_first [OF split] by simp
  have "line_starts (split_on c s) (Suc n) = Suc (length w) + line_starts (v # ws) n"
    using Suc.prems split by (simp add: line_starts_def)
  then have "drop (line_starts (split_on c s) (Suc n)) s = drop (line_starts (v # ws) n) (drop (Suc (length w)) s)" by (simp add: add.commute)
  then show ?case using Suc.IH [of "drop (Suc (length w)) s"] Suc.prems split rest by simp
qed

lemma first_line: "take (case index_aux c 0 s of None \<Rightarrow> length s | Some k \<Rightarrow> k) s = hd (split_on c s)"
proof (cases "split_on c s")
  case (Cons w rest)
  show ?thesis
  proof (cases rest)
    case Nil
    then have "c \<notin> set s \<and> w = s" using Cons by (induction s arbitrary: w) (auto split: if_splits list.splits)
    then show ?thesis using Cons Nil by (simp add: index_aux_split)
  next
    case (Cons v ws)
    have "split_on c s = w # v # ws \<Longrightarrow> take (length w) s = w"
      by (induction s arbitrary: w) (auto split: if_splits list.splits)
    then show ?thesis using \<open>split_on c s = w # rest\<close> Cons by (simp add: index_aux_split)
  qed
qed simp

theorem parser_marks_line:
  assumes "is_kind i = Syntax" "is_line i = Some n" "1 \<le> n" "n \<le> length (split_on NL value)"
  shows "map (\<lambda>d. slice (dg_from d) (dg_to d) value) (parserDiagnostic value (Some i)) = [split_on NL value ! (n - 1)]"
proof -
  define start where "start = line_offset value n"
  define rest where "rest = drop start value"
  have start: "start = line_starts (split_on NL value) (n - 1)" "start \<le> length value"
    using assms(3) by (simp_all add: start_def line_offset_starts line_starts_le max_def)
  then have lines: "split_on NL rest = drop (n - 1) (split_on NL value)"
    using drop_line_starts [of "n - 1" NL "value"] assms(3,4) by (simp add: rest_def)
  have shift: "index_aux c (j + k) t = map_option ((+) j) (index_aux c k t)" for c j k t
    by (induction t arbitrary: k) (simp_all flip: add_Suc_right)
  define to where "to = (case index_from NL start value of None \<Rightarrow> length value | Some lineEnd \<Rightarrow> lineEnd)"
  have to: "to = start + (case index_aux NL 0 rest of None \<Rightarrow> length rest | Some k \<Rightarrow> k)"
    using start(2) shift [of NL start 0 rest] by (auto simp: to_def index_from_def rest_def split: option.split)
  have "slice start (max start to) value = hd (split_on NL rest)"
    unfolding slice_def to using first_line [of rest NL] by (simp add: rest_def max_def)
  also have "\<dots> = split_on NL value ! (n - 1)" using lines assms(3,4) by (simp add: hd_drop_conv_nth)
  finally show ?thesis using assms(1,2) by (simp add: parserDiagnostic_def Let_def start_def to_def)
qed

lemma parser_marks_line_witness:
  "map (\<lambda>d. slice (dg_from d) (dg_to d) ''a: 1\<newline>b: [\<newline>c: 2'')
     (parserDiagnostic ''a: 1\<newline>b: [\<newline>c: 2'' (Some \<lparr>is_kind = Syntax, is_message = [], is_line = Some 2, is_column = Some 4\<rparr>)) = [''b: ['']"
proof -
  have "split_on NL ''a: 1\<newline>b: [\<newline>c: 2'' = [''a: 1'', ''b: ['', ''c: 2'']" by code_simp
  then show ?thesis
    using parser_marks_line [of "\<lparr>is_kind = Syntax, is_message = [], is_line = Some 2, is_column = Some 4\<rparr>" 2 "''a: 1\<newline>b: [\<newline>c: 2''"] by simp
qed

text \<open>Messages of another text are not drawn.\<close>

lemma stale_errors_hidden: "errorsAreStale st \<Longrightarrow> list_all (\<lambda>d. dg_source d = ''YAML'') (editor_diagnostics lib st)"
  by (auto simp: editor_diagnostics_def parserDiagnostic_def Let_def split: option.split)

text \<open>A chosen tab is the one the next editor opens, unless its text cannot be edited in the form.\<close>

lemma chosen_tab_reopens:
  assumes "\<not> br_blocked b" "trim v = []"
  shows "re_tab (open_editor lib v (rememberTab tb b)) = tb"
proof -
  have "readRememberedTab (rememberTab tb b) = Some tb" by (rule remembered_tab_read [OF assms(1)])
  then show ?thesis using assms(2) by (cases tb) (simp_all add: open_editor_def Let_def)
qed

end
