(* ===== verification/DashPage.thy ===== *)
theory DashPage
  imports Dashboard Machines "HOL-Library.Multiset"
begin

text \<open>
  The dashboard page (\<open>features/dashboard/DashboardPage.tsx\<close>) over the store of \<open>Dashboard\<close>: the visible widgets, the edit mode with its
  own list of ids, the layout that admins set for everybody, and the range in the address.
\<close>

subsection \<open>Moving a widget\<close>

datatype direction = Move_up | Move_down

text \<open>The neighbour that changes places with entry \<open>index\<close>.\<close>

(* src features/dashboard/DashboardPage.tsx 238-242 target *)
definition move_target :: "nat \<Rightarrow> direction \<Rightarrow> nat \<Rightarrow> nat option" where
  "move_target index dir n = (case dir of
       Move_up \<Rightarrow> if index = 0 then None else Some (index - 1)
     | Move_down \<Rightarrow> if n \<le> index + 1 then None else Some (index + 1))"

(* src features/dashboard/DashboardPage.tsx 238-244 move *)
definition swap_entries :: "nat \<Rightarrow> direction \<Rightarrow> 'a list \<Rightarrow> 'a list option" where
  "swap_entries index dir xs = (if length xs \<le> index then None
     else case move_target index dir (length xs) of
       None \<Rightarrow> None | Some target \<Rightarrow> Some (xs[index := xs ! target, target := xs ! index]))"

lemma swap_entries_mset: "swap_entries index dir xs = Some ys \<Longrightarrow> mset ys = mset xs"
  by (auto simp: swap_entries_def move_target_def mset_swap split: direction.splits if_splits)

lemma swap_entries_set: "swap_entries index dir xs = Some ys \<Longrightarrow> set ys = set xs"
  by (drule swap_entries_mset) (rule mset_eq_setD)

subsection \<open>The page\<close>

text \<open>
  The store; the ids of the edit mode, which it takes from the layout when it is mounted; and whether the offer of the
  certificate rules is asked for.
\<close>

(* src features/dashboard/DashboardPage.tsx 93-117 DashboardPage *)
record dash_page =
  dp_store :: dashboard
  dp_ids :: "widget_id list option"
  dp_offer :: bool
  dp_resetting :: bool

(* src features/dashboard/DashboardPage.tsx 117-117 visible *)
definition visible_widgets :: "dash_page \<Rightarrow> widget list" where
  "visible_widgets p = filter wd_enabled (db_layout (dp_store p))"

text \<open>The ids are taken when the page opens in edit mode, and each time it is entered.\<close>

(* src features/dashboard/DashboardPage.tsx 231-231 ids *)
definition edit_ids :: "dashboard \<Rightarrow> widget_id list" where
  "edit_ids d = map wd_id (db_layout d)"

(* src features/dashboard/DashboardPage.tsx 260-260 EditMode *)
definition shown_enabled :: "widget_id \<Rightarrow> dashboard \<Rightarrow> bool" where
  "shown_enabled i d = (case find (\<lambda>w. wd_id w = i) (db_layout d) of Some w \<Rightarrow> wd_enabled w | None \<Rightarrow> True)"

(* src features/dashboard/DashboardPage.tsx 233-236 commit *)
definition commit_ids :: "widget_id list \<Rightarrow> dash_page \<Rightarrow> dash_page" where
  "commit_ids ids p = p\<lparr>dp_ids := Some ids, dp_store := setOrder ids (dp_store p)\<rparr>"

(* src features/dashboard/DashboardPage.tsx 261-265 onToggle *)
definition toggle_row :: "widget_id \<Rightarrow> dash_page \<Rightarrow> dash_page" where
  "toggle_row i p = (let enabling = (\<not> shown_enabled i (dp_store p))
     in p\<lparr>dp_store := toggle i (dp_store p), dp_offer := (dp_offer p \<or> (i = Certificates \<and> enabling))\<rparr>)"

datatype dash_page_event = Layout_read "json option option" | Press_edit | Row_moved nat direction | Rows_dragged "widget_id list"
  | Row_toggled widget_id | Press_reset | Reset_answered "json option option" | Offer_over

text \<open>The reset asks the server; a drag reports the rows in another order.\<close>

(* src features/dashboard/DashboardPage.tsx 99-275 DashboardPage *)
fun dash_page_step :: "dash_page_event \<Rightarrow> dash_page \<Rightarrow> dash_page" where
  "dash_page_step (Layout_read a) p = p\<lparr>dp_store := hydrate a (dp_store p)\<rparr>"
| "dash_page_step Press_edit p = p\<lparr>dp_ids := (case dp_ids p of None \<Rightarrow> Some (edit_ids (dp_store p)) | Some ids \<Rightarrow> None)\<rparr>"
| "dash_page_step (Row_moved k dir) p = (case Option.bind (dp_ids p) (swap_entries k dir) of Some ids \<Rightarrow> commit_ids ids p | None \<Rightarrow> p)"
| "dash_page_step (Rows_dragged ids) p = (if dp_ids p = None \<or> mset ids \<noteq> mset (the (dp_ids p)) then p else commit_ids ids p)"
| "dash_page_step (Row_toggled i) p = (if dp_ids p = None \<or> i \<notin> set (the (dp_ids p)) then p else toggle_row i p)"
| "dash_page_step Press_reset p = p\<lparr>dp_resetting := True\<rparr>"
| "dash_page_step (Reset_answered a) p = (if \<not> dp_resetting p then p
     else case a of None \<Rightarrow> p\<lparr>dp_resetting := False\<rparr>
       | Some widgets \<Rightarrow> p\<lparr>dp_resetting := False, dp_store := reset_layout widgets (dp_store p)\<rparr>)"
| "dash_page_step Offer_over p = p\<lparr>dp_offer := False\<rparr>"

definition page_start :: "browser \<Rightarrow> dash_page" where
  "page_start b = \<lparr>dp_store = dashboard_init b, dp_ids = None, dp_offer = False, dp_resetting = False\<rparr>"

subsection \<open>The page and its store\<close>

text \<open>The list of the edit mode names every widget, and so does the layout, its cache and what was sent.\<close>

definition dash_page_ok :: "dash_page \<Rightarrow> bool" where
  "dash_page_ok p \<longleftrightarrow> dash_inv (dp_store p) \<and> (case dp_ids p of None \<Rightarrow> True | Some ids \<Rightarrow> set ids = UNIV)
     \<and> list_all (\<lambda>j. \<exists>ws. j = widgetsToWire ws \<and> complete_layout ws) (db_sent (dp_store p))"

definition sent_full :: "dashboard \<Rightarrow> bool" where
  "sent_full d \<longleftrightarrow> list_all (\<lambda>j. \<exists>ws. j = widgetsToWire ws \<and> complete_layout ws) (db_sent d)"

lemma sent_full_apply:
  assumes "dash_inv d" "sent_full d" "event_ok e"
  shows "sent_full (dash_apply e d)"
proof -
  have save: "sent_full (save_and_send ws d)" if "complete_layout ws" for ws
    using assms(2) that by (auto simp: sent_full_def save_and_send_def Let_def)
  show ?thesis
  proof (cases e)
    case (Hydrate a)
    then show ?thesis using assms(2) by (cases a) (simp_all add: hydrate_def sent_full_def Let_def)
  next
    case (Order ids)
    then show ?thesis using assms save by (simp add: setOrder_def event_ok_def dash_inv_def map_filter_total Let_def)
  next
    case (Toggle i)
    then show ?thesis using assms(1) by (simp add: toggle_def) (rule save, rule complete_map, auto simp: dash_inv_def)
  next
    case (Options i s q)
    then show ?thesis using assms(1) by (simp add: setWidgetOptions_def) (rule save, rule complete_map, auto simp: dash_inv_def)
  next
    case (Reset a)
    then show ?thesis using assms(2) by (simp add: reset_layout_def sent_full_def Let_def)
  qed
qed

lemma store_event:
  assumes "dash_page_ok p" "event_ok e" "dp_store q = dash_apply e (dp_store p)" "case dp_ids q of None \<Rightarrow> True | Some ids \<Rightarrow> set ids = UNIV"
  shows "dash_page_ok q"
  using assms dash_apply_inv [of "dp_store p" e] sent_full_apply [of "dp_store p" e]
  by (simp add: dash_page_ok_def sent_full_def)

lemma ids_complete: "dash_inv d \<Longrightarrow> set (edit_ids d) = UNIV"
  by (simp add: edit_ids_def dash_inv_def complete_layout_def)

lemma commit_ok: "dash_page_ok p \<Longrightarrow> set ids = UNIV \<Longrightarrow> dash_page_ok (commit_ids ids p)"
  by (rule store_event [of p "Order ids"]) (simp_all add: commit_ids_def event_ok_def)

lemma dash_page_ok_step: "dash_page_ok p \<Longrightarrow> dash_page_ok (dash_page_step ev p)"
proof (cases ev)
  case (Layout_read a)
  assume ok: "dash_page_ok p"
  then show ?thesis unfolding Layout_read by (rule store_event [of p "Hydrate a"]) (use ok in \<open>auto simp: event_ok_def dash_page_ok_def\<close>)
next
  case Press_edit
  assume "dash_page_ok p"
  then show ?thesis unfolding Press_edit by (auto simp: dash_page_ok_def ids_complete split: option.split)
next
  case (Row_moved k dir)
  assume ok: "dash_page_ok p"
  show ?thesis
  proof (cases "Option.bind (dp_ids p) (swap_entries k dir)")
    case None
    then show ?thesis using ok Row_moved by simp
  next
    case (Some ids)
    then obtain old where "dp_ids p = Some old" "swap_entries k dir old = Some ids" by (auto simp: bind_eq_Some_conv)
    then have "set ids = UNIV" using ok swap_entries_set [of k dir old ids] by (simp add: dash_page_ok_def)
    then show ?thesis using ok Some Row_moved by (simp add: commit_ok)
  qed
next
  case (Rows_dragged ids)
  assume ok: "dash_page_ok p"
  have "set ids = UNIV" if "dp_ids p = Some old" "mset ids = mset old" for old
    using ok mset_eq_setD [OF that(2)] that(1) by (simp add: dash_page_ok_def)
  then show ?thesis using ok Rows_dragged by (auto simp: commit_ok)
next
  case (Row_toggled i)
  assume ok: "dash_page_ok p"
  then have "dash_page_ok (toggle_row i p)"
    by (rule store_event [of p "Toggle i"]) (use ok in \<open>auto simp: toggle_row_def event_ok_def dash_page_ok_def Let_def\<close>)
  then show ?thesis using ok Row_toggled by simp
next
  case (Reset_answered a)
  assume ok: "dash_page_ok p"
  have "dash_page_ok (p\<lparr>dp_resetting := False, dp_store := reset_layout w (dp_store p)\<rparr>)" for w
    by (rule store_event [OF ok, of "Reset w"]) (use ok in \<open>auto simp: event_ok_def dash_page_ok_def\<close>)
  then show ?thesis using ok Reset_answered by (auto simp: dash_page_ok_def split: option.split)
qed (simp_all add: dash_page_ok_def)

lemma dash_page_ok_start: "dash_page_ok (page_start b)"
proof -
  have "db_sent (dashboard_init b) = []" by (simp add: dashboard_init_def)
  then show ?thesis using dash_init_inv [of b] by (simp add: dash_page_ok_def page_start_def)
qed

interpretation dash_pages: started_machine dash_page_step "\<lambda>_. True" dash_page_ok "page_start b" for b
  by unfold_locales (simp_all add: dash_page_ok_step dash_page_ok_start)

text \<open>
  Claim C30. Whatever is clicked, moved, dragged, reset and answered in whatever order, and whatever the browser had cached or the server sends, the
  layout never loses a widget: the edit list, the store, its copy in the browser and every layout sent to the server contain all of them.
\<close>

theorem page_keeps_widgets: "dash_page_ok (fold dash_page_step es (page_start b))"
  by (rule dash_pages.always) simp

text \<open>
  A reset while the edit mode is open shows in the layout but not in the edit list, and the next move puts the old order back.
\<close>

lemma reset_undone_by_move:
  "let b = \<lparr>br_items = Map.empty, br_blocked = False\<rparr>;
       p = fold dash_page_step [Press_edit, Row_moved 1 Move_up, Press_reset, Reset_answered (Some None)] (page_start b)
   in map wd_id (db_layout (dp_store p)) = all_ids \<and> take 2 (the (dp_ids p)) = [Alerts, Roster]
      \<and> take 3 (map wd_id (db_layout (dp_store (dash_page_step (Row_moved 3 Move_up) p)))) = [Alerts, Roster, Sync]"
  by code_simp

subsection \<open>The layout for everybody\<close>

text \<open>
  The dialog of admins: the answer it was seeded from, by its reference, the draft, which outlives the dialog, and what was sent.
\<close>

(* src features/dashboard/DashboardPage.tsx 352-368 AdminDefaultDialog *)
record default_dialog =
  dd_open :: bool
  dd_data :: "(nat \<times> json option) option"
  dd_failed :: bool
  dd_draft :: "widget list"
  dd_pending :: bool
  dd_sent :: "json list"

definition dialog_start :: default_dialog where
  "dialog_start = \<lparr>dd_open = False, dd_data = None, dd_failed = False, dd_draft = [], dd_pending = False, dd_sent = []\<rparr>"

datatype dialog_event = Open_default | Close_default | Default_read nat "json option" | Default_failed | Draft_moved nat direction
  | Draft_toggled widget_id | Save_default | Default_saved bool

text \<open>The rows stand below a placeholder only while there is no answer yet; opening the dialog reads again.\<close>

definition rows_shown :: "default_dialog \<Rightarrow> bool" where
  "rows_shown st \<longleftrightarrow> dd_open st \<and> (dd_data st \<noteq> None \<or> dd_failed st)"

(* src features/dashboard/DashboardPage.tsx 365-446 AdminDefaultDialog *)
fun dialog_step :: "dialog_event \<Rightarrow> default_dialog \<Rightarrow> default_dialog" where
  "dialog_step Open_default st = st\<lparr>dd_open := True, dd_failed := False\<rparr>"
| "dialog_step Close_default st = st\<lparr>dd_open := False\<rparr>"
| "dialog_step (Default_read r widgets) st = (if map_option fst (dd_data st) = Some r then st\<lparr>dd_failed := False\<rparr>
     else st\<lparr>dd_failed := False, dd_data := Some (r, widgets), dd_draft := widgetsFromWire widgets\<rparr>)"
| "dialog_step Default_failed st = st\<lparr>dd_failed := True\<rparr>"
| "dialog_step (Draft_moved k dir) st = (if \<not> rows_shown st then st
     else case swap_entries k dir (dd_draft st) of Some ws \<Rightarrow> st\<lparr>dd_draft := ws\<rparr> | None \<Rightarrow> st)"
| "dialog_step (Draft_toggled i) st = (if \<not> rows_shown st then st
     else st\<lparr>dd_draft := map (\<lambda>w. if wd_id w = i then w\<lparr>wd_enabled := \<not> wd_enabled w\<rparr> else w) (dd_draft st)\<rparr>)"
| "dialog_step Save_default st = (if rows_shown st \<and> \<not> dd_pending st
     then st\<lparr>dd_pending := True, dd_sent := dd_sent st @ [widgetsToWire (dd_draft st)]\<rparr> else st)"
| "dialog_step (Default_saved success) st = (if \<not> dd_pending st then st
     else if success then st\<lparr>dd_pending := False, dd_open := False\<rparr> else st\<lparr>dd_pending := False\<rparr>)"

definition dialog_ok :: "default_dialog \<Rightarrow> bool" where
  "dialog_ok st \<longleftrightarrow> (if dd_data st = None then dd_draft st = [] else complete_layout (dd_draft st))
     \<and> list_all (\<lambda>j. j = JArr [] \<or> (\<exists>ws. j = widgetsToWire ws \<and> complete_layout ws)) (dd_sent st)"

lemma swap_complete: "swap_entries k dir ws = Some vs \<Longrightarrow> complete_layout ws \<Longrightarrow> complete_layout vs"
  using swap_entries_set [of k dir ws vs] by (simp add: complete_layout_def)

lemma swap_Nil [simp]: "swap_entries k dir [] = None"
  by (simp add: swap_entries_def)

lemma toggle_complete: "complete_layout ws \<Longrightarrow> complete_layout (map (\<lambda>w. if wd_id w = i then w\<lparr>wd_enabled := \<not> wd_enabled w\<rparr> else w) ws)"
  by (rule complete_map) simp_all

lemma dialog_ok_step: "dialog_ok st \<Longrightarrow> dialog_ok (dialog_step ev st)"
proof (cases ev)
  case Save_default
  assume "dialog_ok st"
  then show ?thesis unfolding Save_default
    by (cases "dd_data st") (auto simp: dialog_ok_def widgetsToWire_def)
next
  case (Draft_moved k dir)
  assume "dialog_ok st"
  then show ?thesis unfolding Draft_moved by (auto simp: dialog_ok_def split: option.split dest: swap_complete)
next
  case (Draft_toggled i)
  assume "dialog_ok st"
  then show ?thesis unfolding Draft_toggled by (auto simp: dialog_ok_def toggle_complete)
qed (auto simp: dialog_ok_def fromWire_complete)

interpretation default_dialogs: started_machine dialog_step "\<lambda>_. True" dialog_ok dialog_start
  by unfold_locales (rule dialog_ok_step, assumption, simp add: dialog_ok_def dialog_start_def)

text \<open>What is saved for everybody contains every widget, unless the present layout could not be read.\<close>

theorem default_keeps_widgets: "dialog_ok (fold dialog_step es dialog_start)"
  by (rule default_dialogs.always) simp

text \<open>After a failed read the dialog shows no rows, but its button is enabled and saves an empty layout.\<close>

lemma failed_read_saves_nothing:
  "dd_sent (fold dialog_step [Open_default, Default_failed, Save_default] dialog_start) = [JArr []]"
  by (simp add: dialog_start_def rows_shown_def widgetsToWire_def)

text \<open>Cancelled edits are still there when the dialog is opened again, as long as the server sends what it had sent, and are saved then.\<close>

lemma cancelled_draft_kept:
  "map wd_id (dd_draft (fold dialog_step [Open_default, Default_read 0 None, Draft_moved 1 Move_up, Close_default, Open_default, Default_read 0 None]
      dialog_start)) = Alerts # Roster # drop 2 all_ids"
  by code_simp

subsection \<open>The range\<close>

text \<open>The address keeps its other parameters; the default range is left out of it.\<close>

(* src features/dashboard/DashboardPage.tsx 489-495 setRange *)
definition set_range :: "string \<Rightarrow> (string \<rightharpoonup> string) \<Rightarrow> (string \<rightharpoonup> string)" where
  "set_range next_range params = (if next_range = ''7d'' then params(''range'' := None) else params(''range'' \<mapsto> next_range))"

theorem range_read_back:
  assumes "r \<in> {''24h'', ''7d'', ''30d'', ''90d''}"
  shows "useRangeDays (set_range r params ''range'') = RANGE_DAYS r \<and> RANGE_DAYS r \<noteq> None"
  using assms by (auto simp: set_range_def useRangeDays_def RANGE_DAYS_def)

lemma range_read_back_witness: "useRangeDays (set_range ''30d'' Map.empty ''range'') = Some 30"
  using range_read_back [of "''30d''" Map.empty] by (simp add: RANGE_DAYS_def)

end
