(* ===== verification/Login.thy ===== *)
theory Login
  imports Auth Machines
begin

text \<open>
  The login page (\<open>features/auth/LoginPage.tsx\<close>) over the session of \<open>Auth\<close>: the password, the second factor by code, recovery code or
  security key, and where the user is sent. The browser's dialog for a key and the server are events.
\<close>

subsection \<open>The page\<close>

datatype mfa_input = Totp string | Recovery_code string | Security_key string

text \<open>The second step; it is mounted anew for each ticket, and numbered. \<open>ms_ticket\<close> records the ticket it was mounted for.\<close>

(* src features/auth/LoginPage.tsx 150-159 LoginMfaStep *)
record mfa_step =
  ms_number :: nat
  ms_ticket :: string
  ms_recovery :: bool
  ms_code :: string
  ms_busy :: bool
  ms_error :: bool

text \<open>A try: the step it was started in and the ticket that step was mounted for, what was sent with which ticket, and whether it is under way.\<close>

record mfa_try =
  mt_step :: nat
  mt_ticket :: string
  mt_sent :: "(string \<times> mfa_input) option"
  mt_pending :: bool

(* src features/auth/LoginPage.tsx 20-34 LoginPage *)
record login_page =
  lp_client :: client
  lp_from :: "string option"
  lp_username :: string
  lp_password :: string
  lp_busy :: bool
  lp_step :: "mfa_step option"
  lp_steps :: nat
  lp_tries :: "mfa_try list"
  lp_went :: "(string \<times> auth_status) list"

(* src features/auth/LoginPage.tsx 32-32 from *)
definition login_target :: "login_page \<Rightarrow> string" where
  "login_target st = from_opt ''/dashboard'' (lp_from st)"

text \<open>Navigation, with the state of the session at that moment.\<close>

definition go_on :: "login_page \<Rightarrow> login_page" where
  "go_on st = st\<lparr>lp_went := lp_went st @ [(login_target st, auth_status (cl_auth (lp_client st)))]\<rparr>"

definition pending_ticket :: "login_page \<Rightarrow> string option" where
  "pending_ticket st = (case auth_mfaTicket (cl_auth (lp_client st)) of Some t \<Rightarrow> if t = [] then None else Some t | None \<Rightarrow> None)"

text \<open>The second step is there while a ticket is pending; it starts with the recovery code where there is no authenticator.\<close>

(* src features/auth/LoginPage.tsx 55-57 LoginPage *)
definition render_step :: "login_page \<Rightarrow> login_page" where
  "render_step st = (if pending_ticket st = None then st\<lparr>lp_step := None\<rparr>
     else if lp_step st \<noteq> None then st
     else st\<lparr>lp_step := Some \<lparr>ms_number = lp_steps st, ms_ticket = from_opt [] (pending_ticket st), ms_recovery = ''totp'' \<notin> set (auth_mfaMethods (cl_auth (lp_client st))),
         ms_code = [], ms_busy = False, ms_error = False\<rparr>, lp_steps := Suc (lp_steps st)\<rparr>)"

definition login_start :: "client \<Rightarrow> string option \<Rightarrow> login_page" where
  "login_start c origin = render_step \<lparr>lp_client = c, lp_from = origin, lp_username = [], lp_password = [], lp_busy = False, lp_step = None, lp_steps = 0,
     lp_tries = [], lp_went = []\<rparr>"

(* src features/auth/LoginPage.tsx 36-53 submit *)
definition sign_in_answered :: "login_result option \<Rightarrow> login_page \<Rightarrow> login_page" where
  "sign_in_answered answer st = (case answer of
       None \<Rightarrow> st\<lparr>lp_busy := False\<rparr>
     | Some r \<Rightarrow> (let st' = st\<lparr>lp_client := login_done r (lp_client st), lp_busy := False\<rparr>
         in if pending_ticket st' = None then go_on st' else st'))"

text \<open>What a step shows when its try ends; a step that is gone shows nothing.\<close>

definition step_ends :: "nat \<Rightarrow> bool \<Rightarrow> login_page \<Rightarrow> login_page" where
  "step_ends n failed st = (case lp_step st of
       Some s \<Rightarrow> if ms_number s = n then st\<lparr>lp_step := Some (s\<lparr>ms_busy := False, ms_error := (ms_error s \<or> failed)\<rparr>)\<rparr> else st
     | None \<Rightarrow> st)"

definition end_try :: "nat \<Rightarrow> bool \<Rightarrow> login_page \<Rightarrow> login_page" where
  "end_try i failed st = step_ends (mt_step (lp_tries st ! i)) failed (st\<lparr>lp_tries := (lp_tries st)[i := (lp_tries st ! i)\<lparr>mt_pending := False\<rparr>]\<rparr>)"

(* src features/auth/LoginPage.tsx 161-173 submit *)
definition press_verify :: "login_page \<Rightarrow> login_page" where
  "press_verify st = (case (lp_step st, submitMfa (lp_client st)) of
       (Some s, Inr ticket) \<Rightarrow> if ms_busy s \<or> ms_code s = [] then st
         else st\<lparr>lp_step := Some (s\<lparr>ms_busy := True, ms_error := False\<rparr>), lp_tries := lp_tries st @
           [\<lparr>mt_step = ms_number s, mt_ticket = ms_ticket s,
             mt_sent = Some (ticket, if ms_recovery s then Recovery_code (ms_code s) else Totp (ms_code s)), mt_pending = True\<rparr>]\<rparr>
     | _ \<Rightarrow> st)"

(* src features/auth/LoginPage.tsx 175-181 authenticateWithSecurityKey *)
definition press_key :: "login_page \<Rightarrow> login_page" where
  "press_key st = (case (lp_step st, pending_ticket st) of
       (Some s, Some ticket) \<Rightarrow> if ms_busy s \<or> ''webauthn'' \<notin> set (auth_mfaMethods (cl_auth (lp_client st))) then st
         else st\<lparr>lp_step := Some (s\<lparr>ms_busy := True, ms_error := False\<rparr>), lp_tries := lp_tries st @
           [\<lparr>mt_step = ms_number s, mt_ticket = ms_ticket s, mt_sent = None, mt_pending = True\<rparr>]\<rparr>
     | _ \<Rightarrow> st)"

text \<open>The key has signed the options, was refused by the user, or failed. The assertion goes out with the ticket that is pending now.\<close>

datatype key_outcome = Key_signed string | Key_cancelled | Key_failed

(* src features/auth/LoginPage.tsx 181-188 authenticateWithSecurityKey *)
definition key_outcome_taken :: "nat \<Rightarrow> key_outcome \<Rightarrow> login_page \<Rightarrow> login_page" where
  "key_outcome_taken i outcome st = (case outcome of
       Key_signed a \<Rightarrow> (case submitMfa (lp_client st) of
           Inr ticket \<Rightarrow> st\<lparr>lp_tries := (lp_tries st)[i := (lp_tries st ! i)\<lparr>mt_sent := Some (ticket, Security_key a)\<rparr>]\<rparr>
         | Inl e \<Rightarrow> end_try i True st)
     | Key_cancelled \<Rightarrow> end_try i False st
     | Key_failed \<Rightarrow> end_try i True st)"

datatype login_event = Type_username string | Type_password string | Press_sign_in | Sign_in_answer "login_result option"
  | Type_mfa_code string | Switch_method | Press_verify | Press_key | Key_outcome nat key_outcome | Try_answer nat "auth_session option"
  | Press_cancel

(* src features/auth/LoginPage.tsx 59-281 LoginPage *)
fun login_change :: "login_event \<Rightarrow> login_page \<Rightarrow> login_page" where
  "login_change (Type_username s) st = (if lp_step st = None then st\<lparr>lp_username := s\<rparr> else st)"
| "login_change (Type_password s) st = (if lp_step st = None then st\<lparr>lp_password := s\<rparr> else st)"
| "login_change Press_sign_in st = (if lp_step st = None \<and> \<not> lp_busy st \<and> lp_username st \<noteq> [] \<and> lp_password st \<noteq> []
     then st\<lparr>lp_busy := True\<rparr> else st)"
| "login_change (Sign_in_answer answer) st = (if lp_busy st then sign_in_answered answer st else st)"
| "login_change (Type_mfa_code s) st = st\<lparr>lp_step := map_option (\<lambda>m. m\<lparr>ms_code := s\<rparr>) (lp_step st)\<rparr>"
| "login_change Switch_method st = (if ''totp'' \<in> set (auth_mfaMethods (cl_auth (lp_client st)))
     then st\<lparr>lp_step := map_option (\<lambda>m. m\<lparr>ms_recovery := \<not> ms_recovery m, ms_code := [], ms_error := False\<rparr>) (lp_step st)\<rparr> else st)"
| "login_change Press_verify st = press_verify st"
| "login_change Press_key st = press_key st"
| "login_change (Key_outcome i outcome) st = (if i < length (lp_tries st) \<and> mt_pending (lp_tries st ! i) \<and> mt_sent (lp_tries st ! i) = None
     then key_outcome_taken i outcome st else st)"
| "login_change (Try_answer i answer) st = (if i < length (lp_tries st) \<and> mt_pending (lp_tries st ! i) \<and> mt_sent (lp_tries st ! i) \<noteq> None
     then (case answer of
         None \<Rightarrow> end_try i True st
       | Some s \<Rightarrow> go_on (end_try i False (st\<lparr>lp_client := mfa_done s (lp_client st)\<rparr>)))
     else st)"
| "login_change Press_cancel st = (if lp_step st = None then st else st\<lparr>lp_client := cancelMfa (lp_client st)\<rparr>)"

definition login_step :: "login_event \<Rightarrow> login_page \<Rightarrow> login_page" where
  "login_step ev st = render_step (login_change ev st)"

subsection \<open>Nobody is sent on without a session\<close>

text \<open>A ticket of the server is not empty.\<close>

definition ticket_event :: "login_event \<Rightarrow> bool" where
  "ticket_event ev = (case ev of Sign_in_answer (Some (Login_mfa ticket methods)) \<Rightarrow> ticket \<noteq> [] | _ \<Rightarrow> True)"

text \<open>A code goes out with the ticket that the step it was typed in was mounted for.\<close>

definition try_fits :: "mfa_try \<Rightarrow> bool" where
  "try_fits t \<longleftrightarrow> (case mt_sent t of Some (ticket, Totp c) \<Rightarrow> ticket = mt_ticket t \<and> c \<noteq> []
     | Some (ticket, Recovery_code c) \<Rightarrow> ticket = mt_ticket t \<and> c \<noteq> [] | _ \<Rightarrow> True)"

definition login_ok :: "login_page \<Rightarrow> bool" where
  "login_ok st \<longleftrightarrow> session_ok (lp_client st) \<and> list_all (\<lambda>(p, s). p = login_target st \<and> s = Authenticated) (lp_went st)
     \<and> list_all try_fits (lp_tries st)"

text \<open>
  The step on the page is the one that was mounted for the ticket that is pending, and it is not there while
  a password is being checked.
\<close>

definition step_bound :: "login_page \<Rightarrow> bool" where
  "step_bound st \<longleftrightarrow> pending_ticket st = map_option ms_ticket (lp_step st) \<and> (lp_busy st \<longrightarrow> lp_step st = None)"

lemma try_fits_ended [simp]: "try_fits (t\<lparr>mt_pending := False\<rparr>) = try_fits t"
  by (simp add: try_fits_def split: option.split prod.split mfa_input.split)

lemma session_ok_login:
  "session_ok c \<Longrightarrow> session_ok (login_done r c)" "session_ok c \<Longrightarrow> session_ok (cancelMfa c)" "session_ok (mfa_done s c)"
  by (auto simp: session_ok_def session_defs split: login_result.split)

lemma login_frame [simp]:
  "lp_client (step_ends n f st) = lp_client st" "lp_went (step_ends n f st) = lp_went st" "lp_from (step_ends n f st) = lp_from st"
  "lp_tries (step_ends n f st) = lp_tries st"
  "lp_client (end_try i f st) = lp_client st" "lp_went (end_try i f st) = lp_went st" "lp_from (end_try i f st) = lp_from st"
  "lp_client (render_step st) = lp_client st" "lp_went (render_step st) = lp_went st" "lp_from (render_step st) = lp_from st"
  "lp_tries (render_step st) = lp_tries st" "lp_client (go_on st) = lp_client st" "lp_from (go_on st) = lp_from st"
  "lp_tries (go_on st) = lp_tries st"
  by (auto simp: step_ends_def end_try_def render_step_def go_on_def split: option.split)

lemma login_ok_render: "login_ok (render_step st) = login_ok st"
  by (simp add: login_ok_def login_target_def)

lemma login_ok_tries: "login_ok st \<Longrightarrow> list_all try_fits ts \<Longrightarrow> login_ok (st\<lparr>lp_tries := ts\<rparr>)"
  by (simp add: login_ok_def login_target_def)

lemma login_ok_end:
  assumes "login_ok st" "i < length (lp_tries st)"
  shows "login_ok (end_try i f st)"
proof -
  have "list_all try_fits ((lp_tries st)[i := (lp_tries st ! i)\<lparr>mt_pending := False\<rparr>])"
    using assms by (intro list_all_update) (auto simp: login_ok_def list_all_length)
  then show ?thesis using login_ok_tries [OF assms(1)] by (simp add: end_try_def login_ok_def login_target_def)
qed

lemma login_ok_client: "login_ok st \<Longrightarrow> session_ok c \<Longrightarrow> login_ok (st\<lparr>lp_client := c\<rparr>)"
  by (simp add: login_ok_def login_target_def)

lemma login_ok_went: "login_ok st \<Longrightarrow> auth_status (cl_auth (lp_client st)) = Authenticated \<Longrightarrow> login_ok (go_on st)"
  by (simp add: login_ok_def go_on_def login_target_def)

lemma login_ok_answer:
  assumes "login_ok st" "ticket_event (Sign_in_answer answer)"
  shows "login_ok (sign_in_answered answer st)"
proof (cases answer)
  case None
  then show ?thesis using assms(1) by (simp add: sign_in_answered_def login_ok_def login_target_def)
next
  case (Some r)
  define st' where "st' = st\<lparr>lp_client := login_done r (lp_client st), lp_busy := False\<rparr>"
  have ok: "login_ok st'" using assms(1) session_ok_login(1) [of "lp_client st" r] by (simp add: st'_def login_ok_def login_target_def)
  have "auth_status (cl_auth (lp_client st')) = Authenticated" if "pending_ticket st' = None"
    using that assms(2) Some
    by (cases r) (simp_all add: st'_def pending_ticket_def login_done_def apply_session_def ticket_event_def)
  then have "login_ok (if pending_ticket st' = None then go_on st' else st')" using ok login_ok_went [of st'] by simp
  then show ?thesis unfolding sign_in_answered_def Some option.case Let_def st'_def .
qed

lemma submit_pending: "submitMfa c = Inr ticket \<longleftrightarrow> auth_mfaTicket (cl_auth c) = Some ticket \<and> ticket \<noteq> []"
  by (auto simp: submitMfa_def split: option.split)

lemma login_ok_sent:
  assumes "login_ok st" "step_bound st" "submitMfa (lp_client st) = Inr ticket" "lp_step st = Some s"
  shows "login_ok (press_verify st)"
proof -
  have "ms_ticket s = ticket" using assms(2-4) by (auto simp: step_bound_def pending_ticket_def submit_pending)
  then show ?thesis using assms(1,3,4) by (auto simp: press_verify_def login_ok_def login_target_def try_fits_def)
qed

lemma login_ok_change:
  assumes "login_ok st" "step_bound st" "ticket_event ev"
  shows "login_ok (login_change ev st)"
proof (cases ev)
  case (Sign_in_answer answer)
  then show ?thesis using assms login_ok_answer by simp
next
  case Press_verify
  then show ?thesis using assms(1) login_ok_sent [OF assms(1,2)]
    by (cases "lp_step st"; cases "submitMfa (lp_client st)") (simp_all add: press_verify_def)
next
  case Press_key
  then show ?thesis using assms(1)
    by (auto simp: press_key_def login_ok_def login_target_def try_fits_def split: option.split)
next
  case (Key_outcome i outcome)
  have "list_all try_fits ((lp_tries st)[i := (lp_tries st ! i)\<lparr>mt_sent := Some (ticket, Security_key a)\<rparr>])" for ticket a
    using assms(1) by (intro list_all_update) (simp_all add: login_ok_def try_fits_def)
  then show ?thesis using Key_outcome assms(1)
    by (auto simp: key_outcome_taken_def login_ok_end login_ok_tries split: key_outcome.split sum.split)
next
  case (Try_answer i answer)
  have "login_ok (go_on (end_try i False (st\<lparr>lp_client := mfa_done s (lp_client st)\<rparr>)))" if "i < length (lp_tries st)" for s
    using that assms(1) by (intro login_ok_went login_ok_end login_ok_client session_ok_login(3)) (simp_all add: mfa_done_def apply_session_def)
  then show ?thesis using Try_answer assms(1) by (auto simp: login_ok_end split: option.split)
next
  case Press_cancel
  then show ?thesis using assms(1) login_ok_client [OF assms(1) session_ok_login(2)] by (simp add: login_ok_def [of st])
qed (use assms(1) in \<open>auto simp: login_ok_def login_target_def\<close>)

text \<open>A ticket is only replaced where no step is shown, so rendering mounts a step for the ticket that is pending.\<close>

definition step_kept :: "login_page \<Rightarrow> bool" where
  "step_kept st \<longleftrightarrow> (case lp_step st of None \<Rightarrow> True | Some s \<Rightarrow> pending_ticket st \<in> {None, Some (ms_ticket s)} \<and> \<not> lp_busy st)
     \<and> (pending_ticket st \<noteq> None \<longrightarrow> \<not> lp_busy st)"

lemma render_bound: "step_kept st \<Longrightarrow> step_bound (render_step st)"
  by (auto simp: step_kept_def step_bound_def render_step_def pending_ticket_def split: option.splits if_splits)

lemma ends_step [simp]:
  "lp_busy (step_ends n f st) = lp_busy st" "lp_busy (end_try i f st) = lp_busy st" "lp_busy (go_on st) = lp_busy st"
  "map_option ms_ticket (lp_step (step_ends n f st)) = map_option ms_ticket (lp_step st)"
  "map_option ms_ticket (lp_step (end_try i f st)) = map_option ms_ticket (lp_step st)" "lp_step (go_on st) = lp_step st"
  "pending_ticket (step_ends n f st) = pending_ticket st" "pending_ticket (end_try i f st) = pending_ticket st" "pending_ticket (go_on st) = pending_ticket st"
  by (auto simp: step_ends_def end_try_def go_on_def pending_ticket_def split: option.split)

lemma step_kept_alt: "step_kept st \<longleftrightarrow> (case map_option ms_ticket (lp_step st) of None \<Rightarrow> True
      | Some t \<Rightarrow> pending_ticket st \<in> {None, Some t} \<and> \<not> lp_busy st) \<and> (pending_ticket st \<noteq> None \<longrightarrow> \<not> lp_busy st)"
  by (simp add: step_kept_def split: option.split)

lemma bound_kept: "step_bound st \<Longrightarrow> step_kept st"
  by (auto simp: step_bound_def step_kept_def split: option.split)

lemma step_kept_frame:
  assumes "step_bound st" "map_option ms_ticket (lp_step st') = map_option ms_ticket (lp_step st)" "lp_busy st' \<longrightarrow> lp_busy st"
    "pending_ticket st' = pending_ticket st \<or> pending_ticket st' = None"
  shows "step_kept st'"
  using assms by (auto simp: step_bound_def step_kept_alt split: option.split)

lemma sign_in_kept: "step_bound st \<Longrightarrow> lp_busy st \<Longrightarrow> step_kept (sign_in_answered answer st)"
  by (cases answer) (auto simp: sign_in_answered_def Let_def step_bound_def step_kept_alt split: option.splits)

lemma change_kept:
  assumes "step_bound st"
  shows "step_kept (login_change ev st)"
proof (cases ev)
  case (Sign_in_answer answer)
  then show ?thesis using assms sign_in_kept bound_kept by simp
next
  case Press_sign_in
  then show ?thesis using assms by (auto simp: step_bound_def step_kept_def pending_ticket_def split: option.split)
next
  case Press_cancel
  then show ?thesis using assms bound_kept
    by (auto simp: step_bound_def step_kept_def pending_ticket_def cancelMfa_def split: option.split)
next
  case (Try_answer i answer)
  have "pending_ticket (st\<lparr>lp_client := mfa_done s (lp_client st)\<rparr>) = None" for s
    by (simp add: pending_ticket_def mfa_done_def apply_session_def)
  then show ?thesis using Try_answer assms bound_kept [OF assms]
    by (cases answer) (auto intro!: step_kept_frame [OF assms])
next
  case (Key_outcome i outcome)
  have "pending_ticket (st\<lparr>lp_tries := ts\<rparr>) = pending_ticket st" for ts by (simp add: pending_ticket_def)
  then show ?thesis using Key_outcome assms bound_kept [OF assms]
    by (auto simp: key_outcome_taken_def split: key_outcome.split sum.split intro!: step_kept_frame [OF assms])
next
  case Press_verify
  have "pending_ticket (st\<lparr>lp_step := x, lp_tries := ts\<rparr>) = pending_ticket st" for x ts by (simp add: pending_ticket_def)
  then show ?thesis using Press_verify assms bound_kept [OF assms]
    by (auto simp: press_verify_def split: option.split sum.split intro!: step_kept_frame [OF assms])
next
  case Press_key
  have "pending_ticket (st\<lparr>lp_step := x, lp_tries := ts\<rparr>) = pending_ticket st" for x ts by (simp add: pending_ticket_def)
  then show ?thesis using Press_key assms bound_kept [OF assms]
    by (auto simp: press_key_def split: option.split intro!: step_kept_frame [OF assms])
qed (use assms bound_kept [OF assms] in \<open>auto simp: pending_ticket_def option.map_comp comp_def intro!: step_kept_frame [OF assms]\<close>)

lemma login_ok_step: "login_ok st \<and> step_bound st \<Longrightarrow> ticket_event ev \<Longrightarrow> login_ok (login_step ev st) \<and> step_bound (login_step ev st)"
  by (simp add: login_step_def login_ok_render login_ok_change render_bound change_kept)

interpretation logins: machine login_step ticket_event "\<lambda>st. login_ok st \<and> step_bound st"
  by unfold_locales (rule login_ok_step)

lemma login_ok_start: "session_ok c \<Longrightarrow> login_ok (login_start c origin) \<and> step_bound (login_start c origin)"
  unfolding login_start_def login_ok_render
  by (intro conjI render_bound) (simp_all add: login_ok_def step_kept_def)

text \<open>
  Claim C31. Whatever is typed, pressed, cancelled and answered however late, the user is only sent on, and only to where they were headed, with a
  session; and every code, of an authenticator or for recovery, goes out with the ticket that the step it was typed in was mounted for, so a code
  typed for one login is never sent for another. (Of a security key that is not true; see below.)
\<close>

theorem sent_on_signed_in:
  assumes "session_ok c" "list_all ticket_event es"
  shows "login_ok (fold login_step es (login_start c origin))"
  using logins.machine_run [OF login_ok_start [OF assms(1)] assms(2)] by blast

subsection \<open>Where cancelling does not cancel\<close>

text \<open>A second factor that is under way when the login is cancelled still signs the user in and leaves the page.\<close>

lemma cancelled_login_signs_in:
  "map snd (lp_went (fold login_step [Type_username ''ann'', Type_password ''pw'', Press_sign_in,
      Sign_in_answer (Some (Login_mfa ''t1'' [''totp''])), Type_mfa_code ''123456'', Press_verify, Press_cancel, Try_answer 0 (Some s)]
      (login_start client_init None))) = [Authenticated]"
  by code_simp

text \<open>
  A key that signs after its login was cancelled and another one begun is sent with the ticket of the other.
\<close>

lemma key_sent_for_other_login:
  "map (\<lambda>t. (mt_ticket t, mt_sent t)) (lp_tries (fold login_step [Type_username ''ann'', Type_password ''pw'', Press_sign_in,
      Sign_in_answer (Some (Login_mfa ''t1'' [''webauthn''])), Press_key, Press_cancel, Type_username ''bob'', Press_sign_in,
      Sign_in_answer (Some (Login_mfa ''t2'' [''webauthn''])), Key_outcome 0 (Key_signed ''a1'')] (login_start client_init None)))
     = [(''t1'', Some (''t2'', Security_key ''a1''))]"
  by code_simp

text \<open>A login is cancelled after its code was typed; the step of the next one starts empty, and its code goes out with its own ticket.\<close>

definition second_login :: "login_event list" where
  "second_login = [Type_username ''ann'', Type_password ''pw'', Press_sign_in, Sign_in_answer (Some (Login_mfa ''t1'' [''totp''])), Type_mfa_code ''111111'',
     Press_cancel, Type_username ''bob'', Press_sign_in, Sign_in_answer (Some (Login_mfa ''t2'' [''totp''])), Press_verify, Type_mfa_code ''222222'', Press_verify]"

lemma sent_on_signed_in_witness:
  "login_ok (fold login_step second_login (login_start client_init None))
   \<and> map mt_sent (lp_tries (fold login_step second_login (login_start client_init None))) = [Some (''t2'', Totp ''222222'')]"
proof
  have "session_ok client_init" "list_all ticket_event second_login"
    by (simp_all add: session_ok_def client_init_def auth_init_def ticket_event_def second_login_def)
  then show "login_ok (fold login_step second_login (login_start client_init None))" by (rule sent_on_signed_in)
qed code_simp

end
