(* ===== verification/Spec2Isabelle.thy ===== *)
theory Spec2Isabelle
  imports LineDiff GenMarkers TimeFmt IpAddress Discovery Live Frames Socket Auth Dashboard
    RecipeSwitch RecipeForm Theme LabBook Elevation Runs DocEditor ConnectQueue ScanForm
    RecipePreview Onboarding Topology Retention Notifications AiSettings SettingsForms Templates Chat
    Users Mfa Services ServiceDetail Snapshots Palette DiffView RecipeTabs DashPage Login
begin

text \<open>
  WiseLabz web client: a verification development of the logic of \<open>src/web/src\<close>.

  The program. WiseLabz documents a home lab. A Go server talks to the machines; the web client, in
  TypeScript, shows what the server knows and edits it. Requests go through one HTTP layer that
  refreshes the session; frames come over one WebSocket; both feed stores, which the pages read.
  The client's own work, beside drawing, is: ordering and merging what arrives, keeping preferences
  in the browser, comparing documents, and editing two kinds of source, recipes (YAML texts edited
  in place) and runbooks. This development models those parts, one theory per part.

  Basis.
  \<^item> \<open>Prelude\<close>: texts (one letter per UTF-16 unit), the string and array operations of the
    language, results of code that throws. \<open>Storage\<close>: JSON values, the browser storage, and the
    locale \<open>persisted\<close> of a preference that survives a reload. \<open>JsValues\<close>: property access,
    \<open>String\<close> and \<open>Number\<close>. \<open>Comparators\<close>: the locale of a comparison function for \<open>sort\<close>.

  Session and connection.
  \<^item> \<open>Auth\<close>: \<open>store/auth.ts\<close>, \<open>api/axios-instance.ts\<close>, the guards and role helpers. A step machine of
    requests, the shared refresh, login, logout; no request waits forever, and each is
    repeated at most once.
  \<^item> \<open>Socket\<close>: the connection of \<open>ws/WebSocketProvider.tsx\<close> with tickets, back-off and clean-up as a
    machine whose environment may answer in any order; deduplication refines "the last 500 ids".
    \<open>Frames\<close>: routing, debounced invalidation and resync. \<open>Live\<close>: \<open>types/ws.ts\<close>, \<open>store/live.ts\<close>.
  \<^item> \<open>Discovery\<close>, \<open>IpAddress\<close>: \<open>store/discovery.ts\<close>, the keys, addresses and order of candidates
    (\<open>features/discovery/candidates.ts\<close>) and the host budget (\<open>rangeBudget.ts\<close>, masks in 32-bit words).
  \<^item> \<open>ScanForm\<close>, \<open>ConnectQueue\<close>: \<open>DiscoveryPanel.tsx\<close>, \<open>ConnectQueue.tsx\<close>, \<open>DiscoveryFlow.tsx\<close>; the form that starts a
    scan, what is selected of its results, and the queue that turns the selection into connectors, step by
    step, with the certificate targets it adds to a probe. The queue is exactly the selection, moves once
    and in order, and what it connected is not offered again.

  \<^item> \<open>Onboarding\<close>: \<open>features/onboarding/OnboardingPage.tsx\<close> and \<open>features/compliance/CertificateExpiryPackOffer.tsx\<close>; the
    steps of the first run, the connectors they collect and sync, and the offer that ends exactly once.

  Preferences.
  \<^item> \<open>Dashboard\<close>: \<open>store/dashboard.ts\<close>. \<open>Appearance\<close>: \<open>store/appearance.ts\<close>, \<open>settings.ts\<close>, \<open>ui.ts\<close>,
    \<open>i18n/languages.ts\<close>, \<open>i18n/index.ts\<close>. \<open>Theme\<close>: \<open>theme.ts\<close>, \<open>store/theme.ts\<close>. Store, page and browser
    storage agree after any sequence of changes, and a reload gives the same state; what goes wrong
    with a blocked storage is stated too. Each stored preference interprets \<open>persisted\<close>.

  Documents.
  \<^item> \<open>LineDiff\<close>: \<open>lib/linediff.ts\<close>, \<open>worddiff.ts\<close>, \<open>docdiffmodel.ts\<close>; the diff is a longest common
    subsequence and both sides are read back. \<open>GenMarkers\<close>: \<open>lib/genMarkers.ts\<close>,
    \<open>components/docs/genBlockHighlight.ts\<close>, against a declarative description of blocks.
    \<open>TimeFmt\<close>: \<open>lib/time.ts\<close>. \<open>DiffView\<close>: \<open>components/diff/DiffViewer.tsx\<close>; both layouts, however
    folded, read as the two documents.
  \<^item> \<open>Mermaid\<close>, \<open>LabBook\<close>: \<open>lib/mermaid.ts\<close> and \<open>features/docs/labBook.ts\<close>: the queue of drawings, their
    sanitising, the export loop with its progress and its abort.

  \<^item> \<open>DocEditor\<close>: \<open>features/docs/DocEditorPage.tsx\<close> as a machine: the draft and its base version, the editing
    lock, saves and conflicts, suggestions. What was typed is kept, every save names its base, and the
    lock is held while editing and given back; the cases in which the code fails to are stated too.
  \<^item> \<open>Topology\<close>: \<open>features/docs/TopologyPage.tsx\<close>, \<open>lib/docTree.ts\<close>; what the graph page draws, highlights and
    links to, and its filters and trace in the address.

  Recipes (\<open>features/connectors\<close>).
  \<^item> \<open>RecipeText\<close>, \<open>RecipeNodes\<close>, \<open>RecipePatch\<close>, \<open>RecipeEdit\<close>: \<open>recipeDocument.ts\<close>; paths and lines, the node
    tree with its ranges, the patch of every edit, and the edit with its safety net. \<open>RecipeMoves\<close>
    shows that a move permutes the texts of the items.
  \<^item> \<open>RecipeFormat\<close>, \<open>RecipeErrors\<close>: \<open>recipeFormat.ts\<close>, \<open>recipeErrors.ts\<close>, \<open>recipeCategory.ts\<close>.
    \<open>RecipeForm\<close>: \<open>recipeForm.ts\<close>, \<open>useRecipeFeedback.ts\<close>, \<open>schemaFields.ts\<close>.
  \<^item> \<open>RecipeTabs\<close>: \<open>RecipeEditor.tsx\<close>; which of the two views of a recipe is shown, and where the diagnostics stand.
  \<^item> \<open>RecipeBuilder\<close>: the controls of \<open>RecipeBuilder.tsx\<close> as the edits they ask for.
    \<open>RecipeRequests\<close>, \<open>RecipeSwitch\<close>: what those edits achieve, and that a batch is applied as a whole or not at all.

  \<^item> \<open>ConnectorForms\<close>: \<open>ConnectorForm.tsx\<close>, \<open>ConnectorEditForm.tsx\<close> and the merge of an update in
    \<open>backend/internal/api/connectors/handlers.go\<close>; what a create request carries, that typed values
    survive further reads, and, for form and server together, what a save leaves of each stored setting.
    \<open>RecipePreview\<close>: \<open>TestRecipePanel.tsx\<close>; results are shown for the tested input only.

  Runbooks.
  \<^item> \<open>Runbooks\<close>: \<open>features/settings/RunbooksPage.tsx\<close>; the draft as a machine of the page's events,
    what a save sends, and what a step may hold. \<open>Runs\<close>: \<open>StartRunDialog.tsx\<close> and \<open>RunDetail.tsx\<close>
    (\<open>components/runbook\<close>); a run starts as previewed, and every later request fits the run its user saw.

  Operations that change the lab (\<open>components/manager\<close>).
  \<^item> \<open>Machines\<close>: the locales of state machines whose steps keep an invariant; the machines of the
    theories below and of \<open>Runbooks\<close> interpret them.
  \<^item> \<open>MutatingOp\<close>: \<open>useMutatingOp.ts\<close>, \<open>LifecycleOp.tsx\<close>, \<open>ElevationConfirm.tsx\<close> as \<open>ServiceDetailPage.tsx\<close> drives them:
    preview, typed name, token, execution. \<open>Elevation\<close>: \<open>StepUp.tsx\<close>, \<open>OIDCStepUp.tsx\<close>,
    \<open>useStepUpMutation.tsx\<close>, \<open>ConfirmDestructive.tsx\<close>. The lemmas say what precedes a request and which
    tokens it can carry, also where the code sends one that is spent.

  Settings and further pages.
  \<^item> \<open>SeededForms\<close>: the form most settings pages share, seeded from a query and again by each fresh answer; a page is
    a record of functions, and the locales \<open>valid_page\<close>, \<open>clean_page\<close> and \<open>kept_page\<close> say what it promises of them. The form holds
    the edits made since the last fresh answer, and nothing typed before it.
  \<^item> \<open>Retention\<close>, \<open>Notifications\<close>, \<open>AiSettings\<close>, \<open>SettingsForms\<close> (\<open>features/settings\<close>) and \<open>Templates\<close>
    (\<open>features/templates/TemplateEditorPage.tsx\<close>) interpret these locales. The first four come with the handlers of the Go server that take
    their requests, so the lemmas say what a save leaves in the store: numbers in bounds, secrets that are kept or lost, one
    change at a time.
  \<^item> \<open>Routing\<close>: the matrix of \<open>EventRoutingTable.tsx\<close> against the dispatcher that reads it; a cell changes its own deliveries.
  \<^item> \<open>Chat\<close>: \<open>features/chat/ChatPage.tsx\<close>; what is asked, where, and what a late answer does.
  \<^item> \<open>RowOps\<close>: a confirmed operation on one row of a list, as a machine over any kind of row. \<open>Users\<close>
    (\<open>UsersPage.tsx\<close>, \<open>ProfileApiKeys.tsx\<close>), \<open>Mfa\<close> (\<open>ProfileSecurity.tsx\<close>) and \<open>Services\<close>
    (\<open>features/services/ServicesPage.tsx\<close>) use it; the own account is spared, recovery codes stay until they are
    acknowledged, and a bulk restart goes to the services that were confirmed.
  \<^item> \<open>ServiceDetail\<close>: \<open>features/services/ServiceDetailPage.tsx\<close>, \<open>EntityPicker.tsx\<close>, \<open>MaintenanceWindowMenu.tsx\<close>; actions,
    their fields and their guards, the push of one field and maintenance windows. \<open>Snapshots\<close>: \<open>sparkGeometry.ts\<close> and
    \<open>SnapshotsPage.tsx\<close>; the line of the uptime, and the links from a snapshot to the one before it.
  \<^item> \<open>DashPage\<close>: \<open>features/dashboard/DashboardPage.tsx\<close> over the store of \<open>Dashboard\<close>; no layout loses a widget.
    \<open>Login\<close>: \<open>features/auth/LoginPage.tsx\<close> over the session of \<open>Auth\<close>; nobody is sent on without a session.
  \<^item> \<open>Palette\<close>: \<open>components/command/CommandPalette.tsx\<close>, \<open>registry.ts\<close>; the commands, the list for a query and its keyboard.

  Parameters. The packages \<open>yaml\<close> (record \<open>ylib\<close>: parser, printer and node edits), \<open>diff\<close>, \<open>mermaid\<close>
  and \<open>DOMPurify\<close>, the HTML parser, \<open>Intl\<close> and \<open>localeCompare\<close>, the rendering of a number, the
  clock and the random part of the back-off are arguments of the definitions that use them; what
  is needed of them is a named hypothesis, and the witnesses instantiate them. Answers of the server and
  frames are inputs of the step functions.

  Bounds. Recursions are structural or have a measure (the scan of the diff table, the markers, the
  walk along error locations). Words are used where the code applies bit operations (\<open>rangeBudget.ts\<close>,
  the fingerprint of \<open>TestRecipePanel.tsx\<close>); JavaScript numbers are exact integers or rationals where the values stay below \<open>2^53\<close>
  or come from a text, so rounding is not modelled. The caps of the source (500 ids, 40
  activities, 20 steps) appear as they are.

  Not modelled. The Go server, but for the handlers named above; the API client generated from the OpenAPI document (one hook per
  endpoint, no logic) beside the types that are read; markup, styles and routing of the React pages;
  the message catalogues; mocks and fixtures. The
  uploads of the document editor hold further logic that is not modelled yet.
\<close>

end
